(* ===== verification/Prelude.thy ===== *)
theory Prelude
  imports Main "HOL-Library.Word"
begin

text \<open>
  Shared vocabulary of the development.

  \<^item> Machine integers of the Rust sources (\<open>u8\<close> \<dots> \<open>u64\<close>) as words, with the checked and
    saturating operations of the standard library and the facts that read them through
    \<^const>\<open>unat\<close>.
  \<^item> Rust's \<open>Result\<close> as a sum (\<^const>\<open>Inl\<close> is \<open>Err\<close>), with the \<open>?\<close> operator as \<open>rbind\<close>.
  \<^item> The list operations the sources use on \<open>Vec\<close>, \<open>VecDeque\<close> and slices.
  \<^item> The locale of step functions that keep an invariant, shared by every state machine.
  Lengths and collection bounds of type \<open>usize\<close> are natural numbers; the host is the 64-bit
  one the repository builds for, so a \<open>u64\<close> always converts to \<open>usize\<close>.
\<close>

named_theorems result_simps

section \<open>Machine integers\<close>

type_synonym u8 = "8 word"
type_synonym u16 = "16 word"
type_synonym u32 = "32 word"
type_synonym u64 = "64 word"
type_synonym i32 = "32 word"
type_synonym i64 = "64 word"
type_synonym usize = nat

definition checked_add :: "'a::len word \<Rightarrow> 'a word \<Rightarrow> 'a word option" where
  "checked_add a b = (if unat a + unat b < 2 ^ LENGTH('a) then Some (a + b) else None)"

definition checked_sub :: "'a::len word \<Rightarrow> 'a word \<Rightarrow> 'a word option" where
  "checked_sub a b = (if b \<le> a then Some (a - b) else None)"

definition saturating_add :: "'a::len word \<Rightarrow> 'a word \<Rightarrow> 'a word" where
  "saturating_add a b = (case checked_add a b of Some c \<Rightarrow> c | None \<Rightarrow> - 1)"

definition saturating_sub :: "'a::len word \<Rightarrow> 'a word \<Rightarrow> 'a word" where
  "saturating_sub a b = (if b \<le> a then a - b else 0)"

lemma unat_sum_word: "unat a + unat b < 2 ^ LENGTH('a) \<Longrightarrow> unat (a + b) = unat a + unat b"
  for a b :: "'a::len word"
  by (simp add: unat_word_ariths)

lemma unat_bound: "unat x < 2 ^ LENGTH('a)" for x :: "'a::len word"
  by (rule unsigned_less)

lemma unat_diff_word: "b \<le> a \<Longrightarrow> unat (a - b) = unat a - unat b"
  for a b :: "'a::len word"
  by (rule unat_sub)

lemma unat_eq_iff: "unat a = unat b \<longleftrightarrow> a = b" for a b :: "'a::len word"
  by (simp add: word_unat_eq_iff)

lemma unat_of_nat_u64: "n < 2 ^ 64 \<Longrightarrow> unat (of_nat n :: u64) = n"
  by (simp add: unat_of_nat take_bit_nat_eq_self)

lemma checked_add_eq_Some_iff:
  "checked_add a b = Some c \<longleftrightarrow> unat c = unat a + unat b" for a b c :: "'a::len word"
proof
  assume "checked_add a b = Some c"
  then show "unat c = unat a + unat b"
    by (auto simp: checked_add_def unat_sum_word split: if_splits)
next
  assume eq: "unat c = unat a + unat b"
  then have lt: "unat a + unat b < 2 ^ LENGTH('a)"
    by (metis unsigned_less)
  then have "unat (a + b) = unat c"
    by (simp add: eq unat_sum_word)
  with lt show "checked_add a b = Some c"
    by (simp add: checked_add_def unat_eq_iff)
qed

lemma checked_add_eq_None_iff:
  "checked_add a b = None \<longleftrightarrow> 2 ^ LENGTH('a) \<le> unat a + unat b" for a b :: "'a::len word"
  by (auto simp: checked_add_def)

lemma checked_sub_eq_Some_iff:
  "checked_sub a b = Some c \<longleftrightarrow> unat a = unat c + unat b" for a b c :: "'a::len word"
proof
  assume "checked_sub a b = Some c"
  then show "unat a = unat c + unat b"
    by (auto simp: checked_sub_def unat_diff_word word_le_nat_alt split: if_splits)
next
  assume eq: "unat a = unat c + unat b"
  then have le: "b \<le> a" by (simp add: word_le_nat_alt)
  with eq have "unat (a - b) = unat c" by (simp add: unat_diff_word)
  with le show "checked_sub a b = Some c" by (simp add: checked_sub_def unat_eq_iff)
qed

lemma checked_sub_eq_None_iff: "checked_sub a b = None \<longleftrightarrow> a < b" for a b :: "'a::len word"
  by (auto simp: checked_sub_def not_le)

text \<open>Evaluation detects the wrap-around instead of computing the unbounded sum.\<close>

lemma checked_add_code [code]:
  "checked_add a b = (let c = a + b in if c < a then None else Some c)"
  by (auto simp: checked_add_def Let_def not_less no_olen_add_nat [symmetric])

lemma checked_add_below: "unat x + unat y \<le> unat z \<Longrightarrow> \<exists>s. checked_add x y = Some s"
  for x y z :: "'a::len word"
  using le_less_trans [OF _ unat_bound [of z]] by (simp add: checked_add_def)

lemma checked_sub_0 [simp]: "checked_sub a 0 = Some a"
  by (simp add: checked_sub_eq_Some_iff)

lemma checked_add_0 [simp]: "checked_add 0 a = Some a" "checked_add a 0 = Some a"
  by (simp_all add: checked_add_eq_Some_iff)

lemma checked_add_sub_cancel: "checked_add a b = Some c \<Longrightarrow> checked_sub c b = Some a"
  by (simp add: checked_add_eq_Some_iff checked_sub_eq_Some_iff)

text \<open>A successor generation or identity is strictly larger.\<close>

lemma checked_add_1_less: "checked_add a 1 = Some c \<Longrightarrow> a < c" for a c :: u64
  by (simp add: checked_add_eq_Some_iff word_less_nat_alt)

lemma checked_add_1_None: "checked_add a 1 = None \<longleftrightarrow> a = - 1" for a :: u64
proof -
  have "unat a = 2 ^ 64 - 1 \<longleftrightarrow> a = - 1"
    by (simp add: unat_eq_iff [symmetric] unsigned_minus_1_eq_mask mask_eq_exp_minus_1)
  moreover have "unat a < 2 ^ 64" using unsigned_less [of a] by simp
  ultimately show ?thesis
    by (auto simp: checked_add_eq_None_iff)
qed

lemma unat_Suc_word: "x \<noteq> - 1 \<Longrightarrow> unat (x + 1) = Suc (unat x)" for x :: "'a::len word"
proof -
  assume "x \<noteq> - 1"
  then have "x + 1 \<noteq> 0" by (simp add: eq_neg_iff_add_eq_0)
  then show ?thesis by (simp add: unatSuc add.commute)
qed

lemma unat_saturating_Suc: "a < l \<Longrightarrow> unat (saturating_add a 1) = Suc (unat a)"
  for a l :: u8
proof -
  assume "a < l"
  then have "unat a < unat l" by (simp add: word_less_nat_alt)
  moreover have "unat l < 256" using unsigned_less [of l] by simp
  ultimately show ?thesis
    by (simp add: saturating_add_def checked_add_def unat_sum_word)
qed

section \<open>Results\<close>

type_synonym ('e, 'a) result = "'e + 'a"

definition rbind :: "'e + 'a \<Rightarrow> ('a \<Rightarrow> 'e + 'b) \<Rightarrow> 'e + 'b" where
  "rbind r f = (case r of Inl e \<Rightarrow> Inl e | Inr x \<Rightarrow> f x)"

definition ok_or :: "'e \<Rightarrow> 'a option \<Rightarrow> 'e + 'a" where
  "ok_or e x = (case x of None \<Rightarrow> Inl e | Some y \<Rightarrow> Inr y)"

definition map_err :: "('e \<Rightarrow> 'f) \<Rightarrow> 'e + 'a \<Rightarrow> 'f + 'a" where
  "map_err g r = (case r of Inl e \<Rightarrow> Inl (g e) | Inr x \<Rightarrow> Inr x)"

definition is_ok :: "'e + 'a \<Rightarrow> bool" where
  "is_ok r = (case r of Inl _ \<Rightarrow> False | Inr _ \<Rightarrow> True)"

lemma rbind_simps [simp]: "rbind (Inl e) f = Inl e" "rbind (Inr x) f = f x"
  by (simp_all add: rbind_def)

lemma rbind_eq_Inr_iff [result_simps]:
  "rbind r f = Inr y \<longleftrightarrow> (\<exists>x. r = Inr x \<and> f x = Inr y)"
  by (cases r) auto

lemma rbind_eq_Inl_iff [result_simps]:
  "rbind r f = Inl e \<longleftrightarrow> r = Inl e \<or> (\<exists>x. r = Inr x \<and> f x = Inl e)"
  by (cases r) auto

lemma ok_or_simps [simp]: "ok_or e None = Inl e" "ok_or e (Some x) = Inr x"
  by (simp_all add: ok_or_def)

lemma ok_or_eq_Inr_iff [result_simps]: "ok_or e x = Inr y \<longleftrightarrow> x = Some y"
  by (cases x) auto

lemma ok_or_eq_Inl_iff [result_simps]: "ok_or e x = Inl f \<longleftrightarrow> x = None \<and> f = e"
  by (cases x) auto

lemma map_err_simps [simp]: "map_err g (Inl e) = Inl (g e)" "map_err g (Inr x) = Inr x"
  by (simp_all add: map_err_def)

lemma map_err_eq_Inr_iff [result_simps]: "map_err g r = Inr y \<longleftrightarrow> r = Inr y"
  by (cases r) auto

lemma map_err_eq_Inl_iff [result_simps]: "map_err g r = Inl f \<longleftrightarrow> (\<exists>e. r = Inl e \<and> f = g e)"
  by (cases r) auto

lemma if_Inl_eq_Inr_iff [result_simps]:
  "(if c then Inl e else r) = Inr x \<longleftrightarrow> \<not> c \<and> r = Inr x"
  by simp

lemma is_ok_simps [simp]: "is_ok (Inl e) = False" "is_ok (Inr x) = True"
  by (simp_all add: is_ok_def)

section \<open>Lists\<close>

text \<open>\<open>Iterator::position\<close> and \<open>Vec::remove\<close>.\<close>

fun position :: "('a \<Rightarrow> bool) \<Rightarrow> 'a list \<Rightarrow> nat option" where
  "position P [] = None"
| "position P (x # xs) = (if P x then Some 0 else map_option Suc (position P xs))"

definition remove_at :: "nat \<Rightarrow> 'a list \<Rightarrow> 'a list" where
  "remove_at i xs = take i xs @ drop (Suc i) xs"

lemma position_eq_None_iff: "position P xs = None \<longleftrightarrow> (\<forall>x \<in> set xs. \<not> P x)"
  by (induction xs) auto

lemma position_SomeD: "position P xs = Some i \<Longrightarrow> i < length xs \<and> P (xs ! i)"
  by (induction xs arbitrary: i) (auto split: if_splits)

lemma set_remove_at: "set (remove_at i xs) \<subseteq> set xs"
  by (auto simp: remove_at_def dest: in_set_takeD in_set_dropD)

lemma length_remove_at [simp]: "i < length xs \<Longrightarrow> length (remove_at i xs) = length xs - 1"
  by (simp add: remove_at_def)

lemma remove_at_split: "i < length xs \<Longrightarrow> xs = take i xs @ xs ! i # drop (Suc i) xs"
  by (rule id_take_nth_drop)

lemma remove_at_Cons_0 [simp]: "remove_at 0 (x # xs) = xs"
  by (simp add: remove_at_def)

lemma remove_at_Cons_Suc [simp]: "remove_at (Suc i) (x # xs) = x # remove_at i xs"
  by (simp add: remove_at_def)

lemma sum_list_remove_at:
  "i < length xs \<Longrightarrow> sum_list (map f xs) = f (xs ! i) + sum_list (map f (remove_at i xs))"
  for f :: "'a \<Rightarrow> nat"
proof (induction xs arbitrary: i)
  case (Cons x xs)
  then show ?case by (cases i) auto
qed simp

lemma sorted_wrt_remove_at: "sorted_wrt R xs \<Longrightarrow> sorted_wrt R (remove_at i xs)"
  by (simp add: remove_at_def sorted_wrt_append sorted_wrt_take sorted_wrt_drop)
    (metis append_take_drop_id drop_Suc le_add2 plus_1_eq_Suc set_drop_subset_set_drop
      sorted_wrt_append subset_iff)

text \<open>The checked sum of \<open>try_fold\<close> over \<open>checked_add\<close>.\<close>

fun checked_sum :: "'a::len word \<Rightarrow> 'a word list \<Rightarrow> 'a word option" where
  "checked_sum acc [] = Some acc"
| "checked_sum acc (x # xs) =
     (case checked_add acc x of None \<Rightarrow> None | Some acc' \<Rightarrow> checked_sum acc' xs)"

lemma checked_sum_eq_Some_iff:
  "checked_sum acc xs = Some s \<longleftrightarrow> unat s = unat acc + sum_list (map unat xs)"
  for acc s :: "'a::len word"
proof (induction xs arbitrary: acc)
  case Nil
  show ?case by (auto simp: unat_eq_iff [symmetric])
next
  case (Cons x xs)
  show ?case
  proof (cases "checked_add acc x")
    case None
    then have "2 ^ LENGTH('a) \<le> unat acc + unat x" by (simp add: checked_add_eq_None_iff)
    moreover have "unat s < 2 ^ LENGTH('a)" by (rule unsigned_less)
    ultimately have "unat s \<noteq> unat acc + (unat x + sum_list (map unat xs))" by linarith
    with None show ?thesis by simp
  next
    case (Some acc')
    then have "unat acc' = unat acc + unat x" by (simp add: checked_add_eq_Some_iff)
    with Some Cons show ?thesis by auto
  qed
qed

section \<open>Step functions that keep an invariant\<close>

text \<open>
  Every lifecycle of the program is a deterministic handler of events on a state. A locale
  holds the contract (the initial states satisfy the invariant, every handled event keeps it)
  and its consequence for whole runs; each machine interprets it on its own handler.
\<close>

definition run_events :: "('s \<Rightarrow> 'e \<Rightarrow> 's) \<Rightarrow> 's \<Rightarrow> 'e list \<Rightarrow> 's" where
  "run_events step s es = fold (\<lambda>e t. step t e) es s"

lemma run_events_simps [simp]:
  "run_events step s [] = s"
  "run_events step s (e # es) = run_events step (step s e) es"
  by (simp_all add: run_events_def)

lemma run_events_append [simp]:
  "run_events step s (es @ fs) = run_events step (run_events step s es) fs"
  by (simp add: run_events_def)

locale invariant_system =
  fixes step :: "'s \<Rightarrow> 'e \<Rightarrow> 's"
    and inv :: "'s \<Rightarrow> bool"
  assumes inv_step: "inv s \<Longrightarrow> inv (step s e)"
begin

lemma inv_run: "inv s \<Longrightarrow> inv (run_events step s es)"
  by (induction es arbitrary: s) (auto intro: inv_step)

end

text \<open>A measure that no event raises and that a class of events lowers bounds that class.\<close>

locale ranked_system = invariant_system step inv
  for step :: "'s \<Rightarrow> 'e \<Rightarrow> 's" and inv :: "'s \<Rightarrow> bool" +
  fixes rank :: "'s \<Rightarrow> nat"
    and productive :: "'s \<Rightarrow> 'e \<Rightarrow> bool"
  assumes rank_mono: "inv s \<Longrightarrow> rank (step s e) \<le> rank s"
    and rank_less: "inv s \<Longrightarrow> productive s e \<Longrightarrow> rank (step s e) < rank s"
begin

primrec productive_count :: "'s \<Rightarrow> 'e list \<Rightarrow> nat" where
  "productive_count s [] = 0"
| "productive_count s (e # es) =
     (if productive s e then 1 else 0) + productive_count (step s e) es"

lemma productive_bounded:
  "inv s \<Longrightarrow> productive_count s es + rank (run_events step s es) \<le> rank s"
proof (induction es arbitrary: s)
  case (Cons e es)
  from Cons.prems have inv': "inv (step s e)" by (rule inv_step)
  from Cons.IH [OF this] rank_mono [OF Cons.prems, of e] rank_less [OF Cons.prems, of e]
  show ?case by auto
qed simp

end

end
