(* ===== verification/Schema_Version.thy ===== *)
theory Schema_Version
  imports Prelude
begin

text \<open>
  The version every stored and transmitted document carries (\<open>fforager-contracts/src/identity.rs\<close>).
\<close>

record SchemaVersion =
  sv_major :: u16
  sv_minor :: u16

end
