(* ===== verification/Storage_Contract.thy ===== *)
theory Storage_Contract
  imports Schema_Version
begin

text \<open>
  The durability, journal, recovery-observation and filesystem-profile contracts of
  \<^verbatim>\<open>product/crates/fforager-contracts/src/storage.rs\<close>. Enums and structs keep the source's
  variants and fields; a variant or field whose name another type of the development uses
  carries a prefix. A Rust \<open>String\<close> is its UTF-8 byte sequence, a \<^typ>\<open>string\<close>, so that
  \<open>len()\<close> is \<^const>\<open>length\<close>. The lemmas show what an accepted journal prefix guarantees and that
  positions accepted by the contract are ordered and monotonic.
\<close>

section \<open>Text\<close>

text \<open>
  \<open>value.trim().is_empty()\<close>: the text consists of Unicode white space only. The byte
  sequences are the UTF-8 encodings of the code points of the White\_Space property.
\<close>

fun whitespace_bytes :: "nat list \<Rightarrow> bool" where
  "whitespace_bytes [] = True"
| "whitespace_bytes (a # bs) =
     (if (9 \<le> a \<and> a \<le> 13) \<or> a = 32 then whitespace_bytes bs
      else if a = 194 then
        (case bs of b # cs \<Rightarrow> (b = 133 \<or> b = 160) \<and> whitespace_bytes cs | [] \<Rightarrow> False)
      else (case bs of
          b # c # ds \<Rightarrow>
            ((a = 225 \<and> b = 154 \<and> c = 128)
             \<or> (a = 226 \<and> b = 128 \<and> (128 \<le> c \<and> c \<le> 138 \<or> c \<in> {168, 169, 175}))
             \<or> (a = 226 \<and> b = 129 \<and> c = 159)
             \<or> (a = 227 \<and> b = 128 \<and> c = 128)) \<and> whitespace_bytes ds
        | _ \<Rightarrow> False))"

definition trim_is_empty :: "string \<Rightarrow> bool" where
  "trim_is_empty s = whitespace_bytes (map of_char s)"

section \<open>Durability positions\<close>

datatype DurabilityClass = Fast | Balanced | Durable

record DurabilityPosition =
  received_bytes :: u64
  validated_bytes :: u64
  durable_bytes :: u64

datatype DurabilityError = DurableAheadOfValidated | ValidatedAheadOfReceived

datatype DurabilityTransitionError =
    InvalidPosition DurabilityError
  | ReceivedRegressed
  | ValidatedWrittenContiguousRegressed
  | DurableContiguousRegressed
  | ResumeAheadOfDurableContiguous

definition durability_validate :: "DurabilityPosition \<Rightarrow> DurabilityError + unit" where
  "durability_validate p =
     (if durable_bytes p > validated_bytes p then Inl DurableAheadOfValidated
      else if validated_bytes p > received_bytes p then Inl ValidatedAheadOfReceived
      else Inr ())"

definition validate_advance ::
    "DurabilityPosition \<Rightarrow> DurabilityPosition \<Rightarrow> DurabilityTransitionError + unit" where
  "validate_advance p next =
     rbind (map_err InvalidPosition (durability_validate next)) (\<lambda>_.
       if received_bytes next < received_bytes p then Inl ReceivedRegressed
       else if validated_bytes next < validated_bytes p
         then Inl ValidatedWrittenContiguousRegressed
       else if durable_bytes next < durable_bytes p then Inl DurableContiguousRegressed
       else Inr ())"

definition validate_resume :: "DurabilityPosition \<Rightarrow> u64 \<Rightarrow> DurabilityTransitionError + unit" where
  "validate_resume p resume_offset =
     rbind (map_err InvalidPosition (durability_validate p)) (\<lambda>_.
       if resume_offset > durable_bytes p then Inl ResumeAheadOfDurableContiguous
       else Inr ())"

section \<open>Journal payloads and records\<close>

record ArtifactIdentity =
  ai_identity :: string
  ai_size_bytes :: u64
  ai_checksum :: string

datatype CollisionDecision = CreatedNew | ReplacedAuthorized | ReusedIdentical | Rejected

record CommitPreparedBody =
  final_rooted_path :: string
  working_path_identity :: string
  artifacts :: "ArtifactIdentity list"
  required_sidecars :: "string list"
  filesystem_profile_id :: string
  data_synchronized :: bool
  parent_directory_synchronized :: bool

record CommitRenamedBody =
  final_identity :: string
  collision_decision :: CollisionDecision
  directory_synchronized :: bool

record ArchiveUniquenessEvidence =
  claim_key :: string
  constraint_receipt :: string

record ArchiveCommittedBody =
  transaction_id :: string
  archive_row_id :: string
  asset_ids :: "string list"
  derived_output_ids :: "string list"
  output_provenance_digest :: string
  commit_sequence :: u64
  uniqueness :: ArchiveUniquenessEvidence

record CleanupCompletedBody =
  removed_temporary_artifacts :: "string list"
  retained_temporary_artifacts :: "string list"
  diagnostic_retention_references :: "string list"

datatype JournalPayload =
    JobCreated
  | ExtractionCompleted string
  | SelectedFormats "string list"
  | OutputPlan nat
  | ManifestIdentity string
  | FragmentVerified u64 u64 string
  | OutputCheckpoint DurabilityPosition
  | FfmpegStarted string
  | FfmpegCompleted i32
  | FinalValidationCompleted string
  | CommitPrepared CommitPreparedBody
  | CommitRenamed CommitRenamedBody
  | ArchiveCommitted ArchiveCommittedBody
  | CleanupCompleted CleanupCompletedBody

record JournalRecord =
  jr_schema :: SchemaVersion
  jr_job_id :: string
  jr_producer_instance :: string
  jr_sequence :: u64
  jr_prior_record_hash :: "string option"
  jr_payload_checksum :: string
  jr_durability :: DurabilityClass
  jr_payload :: JournalPayload

datatype JournalRecordError =
    SequenceZero
  | PreparedFinalPathMissing
  | PreparedWorkingIdentityMissing
  | PreparedArtifactInventoryMissing
  | PreparedArtifactIdentityIncomplete
  | PreparedFilesystemProfileMissing
  | PreparedDataNotSynchronized
  | PreparedDirectoryNotSynchronized
  | RenamedFinalIdentityMissing
  | RenamedDirectoryNotSynchronized
  | ArchiveRowIdentityMissing
  | ArchiveAssetIdentitiesMissing
  | ArchiveDerivedOutputIdentitiesMissing
  | ArchiveProvenanceMissing
  | ArchiveCommitSequenceMismatch u64 u64
  | ArchiveUniquenessClaimMissing
  | ArchiveUniquenessReceiptMissing

definition journal_validate :: "JournalRecord \<Rightarrow> JournalRecordError + unit" where
  "journal_validate r =
     (if jr_sequence r = 0 then Inl SequenceZero
      else case jr_payload r of
        CommitPrepared prepared \<Rightarrow>
          (if trim_is_empty (final_rooted_path prepared) then Inl PreparedFinalPathMissing
           else if trim_is_empty (working_path_identity prepared)
             then Inl PreparedWorkingIdentityMissing
           else if artifacts prepared = [] then Inl PreparedArtifactInventoryMissing
           else if list_ex (\<lambda>a. trim_is_empty (ai_identity a) \<or> trim_is_empty (ai_checksum a))
                  (artifacts prepared)
             then Inl PreparedArtifactIdentityIncomplete
           else if trim_is_empty (filesystem_profile_id prepared)
             then Inl PreparedFilesystemProfileMissing
           else if \<not> data_synchronized prepared then Inl PreparedDataNotSynchronized
           else if \<not> parent_directory_synchronized prepared
             then Inl PreparedDirectoryNotSynchronized
           else Inr ())
      | CommitRenamed renamed \<Rightarrow>
          (if trim_is_empty (final_identity renamed) then Inl RenamedFinalIdentityMissing
           else if \<not> directory_synchronized renamed then Inl RenamedDirectoryNotSynchronized
           else Inr ())
      | ArchiveCommitted archived \<Rightarrow>
          (if trim_is_empty (archive_row_id archived) then Inl ArchiveRowIdentityMissing
           else if asset_ids archived = [] then Inl ArchiveAssetIdentitiesMissing
           else if derived_output_ids archived = []
             then Inl ArchiveDerivedOutputIdentitiesMissing
           else if trim_is_empty (output_provenance_digest archived)
             then Inl ArchiveProvenanceMissing
           else if commit_sequence archived \<noteq> jr_sequence r
             then Inl (ArchiveCommitSequenceMismatch (jr_sequence r) (commit_sequence archived))
           else if trim_is_empty (claim_key (uniqueness archived))
             then Inl ArchiveUniquenessClaimMissing
           else if trim_is_empty (constraint_receipt (uniqueness archived))
             then Inl ArchiveUniquenessReceiptMissing
           else Inr ())
      | _ \<Rightarrow> Inr ())"

section \<open>The journal scan\<close>

datatype CommitState = Collecting | Prepared | Renamed | Archived | Cleaned | Inconsistent

datatype JournalCommitTransition =
  TransitionPrepared | TransitionRenamed | TransitionArchived | TransitionCleaned

record ObservedJournalRecord =
  ob_record :: JournalRecord
  ob_record_hash :: string
  ob_frame_complete :: bool
  ob_payload_checksum_valid :: bool

datatype JournalPrefixFault =
    Torn nat
  | ChecksumInvalid nat
  | FaultSequenceZero nat
  | InvalidRecord nat JournalRecordError
  | JobIdentityMismatch nat string string
  | DuplicateSequence nat u64 u64
  | ReorderedSequence nat u64 u64
  | PriorHashMismatch nat
  | RecordHashMissing nat
  | InvalidCommitTransition nat CommitState JournalCommitTransition

record JournalPrefixScan =
  valid_record_count :: nat
  next_sequence :: "u64 option"
  last_record_hash :: "string option"
  stopped_by :: "JournalPrefixFault option"

definition advance_commit_prefix ::
    "CommitState \<Rightarrow> JournalPayload \<Rightarrow> JournalCommitTransition + CommitState" where
  "advance_commit_prefix durable_prefix payload =
     (case (case payload of
          CommitPrepared _ \<Rightarrow> Some (Collecting, Prepared, TransitionPrepared)
        | CommitRenamed _ \<Rightarrow> Some (Prepared, Renamed, TransitionRenamed)
        | ArchiveCommitted _ \<Rightarrow> Some (Renamed, Archived, TransitionArchived)
        | CleanupCompleted _ \<Rightarrow> Some (Archived, Cleaned, TransitionCleaned)
        | _ \<Rightarrow> None) of
        None \<Rightarrow> Inr durable_prefix
      | Some (required, next, observed) \<Rightarrow>
          if durable_prefix = required then Inr next else Inl observed)"

text \<open>The fault the loop body of \<open>scan_observed_journal\<close> finds at one record, if any.\<close>

definition journal_fault ::
    "string \<Rightarrow> nat \<Rightarrow> u64 option \<Rightarrow> string option \<Rightarrow> CommitState \<Rightarrow> ObservedJournalRecord
       \<Rightarrow> JournalPrefixFault option" where
  "journal_fault expected_job_id index expected_sequence last_hash durable_prefix observed =
     (if \<not> ob_frame_complete observed then Some (Torn index)
      else if \<not> ob_payload_checksum_valid observed then Some (ChecksumInvalid index)
      else if jr_job_id (ob_record observed) \<noteq> expected_job_id
        then Some (JobIdentityMismatch index expected_job_id (jr_job_id (ob_record observed)))
      else if jr_sequence (ob_record observed) = 0 then Some (FaultSequenceZero index)
      else case journal_validate (ob_record observed) of
        Inl error \<Rightarrow> Some (InvalidRecord index error)
      | Inr _ \<Rightarrow>
          (case expected_sequence of
            Some expected \<Rightarrow>
              (if jr_sequence (ob_record observed) < expected
                 then Some (DuplicateSequence index expected (jr_sequence (ob_record observed)))
               else if jr_sequence (ob_record observed) > expected
                 then Some (ReorderedSequence index expected (jr_sequence (ob_record observed)))
               else if jr_prior_record_hash (ob_record observed) \<noteq> last_hash
                 then Some (PriorHashMismatch index)
               else if ob_record_hash observed = [] then Some (RecordHashMissing index)
               else case advance_commit_prefix durable_prefix (jr_payload (ob_record observed)) of
                 Inl t \<Rightarrow> Some (InvalidCommitTransition index durable_prefix t)
               | Inr _ \<Rightarrow> None)
          | None \<Rightarrow>
              Some (ReorderedSequence index (- 1) (jr_sequence (ob_record observed)))))"

fun scan_loop ::
    "string \<Rightarrow> nat \<Rightarrow> u64 option \<Rightarrow> string option \<Rightarrow> nat \<Rightarrow> CommitState
       \<Rightarrow> ObservedJournalRecord list \<Rightarrow> JournalPrefixScan" where
  "scan_loop job index expected last_hash count prefix [] =
     \<lparr> valid_record_count = count, next_sequence = expected, last_record_hash = last_hash,
       stopped_by = None \<rparr>"
| "scan_loop job index expected last_hash count prefix (observed # rest) =
     (case journal_fault job index expected last_hash prefix observed of
        Some fault \<Rightarrow>
          \<lparr> valid_record_count = count, next_sequence = expected, last_record_hash = last_hash,
            stopped_by = Some fault \<rparr>
      | None \<Rightarrow>
          scan_loop job (Suc index)
            (checked_add (jr_sequence (ob_record observed)) 1)
            (Some (ob_record_hash observed))
            (Suc count)
            (case advance_commit_prefix prefix (jr_payload (ob_record observed)) of
               Inr next \<Rightarrow> next | Inl _ \<Rightarrow> prefix)
            rest)"

definition scan_observed_journal ::
    "string \<Rightarrow> ObservedJournalRecord list \<Rightarrow> JournalPrefixScan" where
  "scan_observed_journal expected_job_id records =
     scan_loop expected_job_id 0 (Some 1) None 0 Collecting records"

section \<open>Archive eligibility\<close>

datatype ArtifactCompleteness = Partial | Complete

record ArchiveCandidate =
  ac_artifact :: ArtifactIdentity
  ac_completeness :: ArtifactCompleteness
  ac_final_validation_passed :: bool
  ac_committed_output_identity :: "string option"

datatype ArchiveEligibilityError =
  PartialOutput | FinalValidationMissing | CommittedIdentityMissing

definition archive_candidate_validate :: "ArchiveCandidate \<Rightarrow> ArchiveEligibilityError + unit" where
  "archive_candidate_validate c =
     (if ac_completeness c \<noteq> Complete then Inl PartialOutput
      else if \<not> ac_final_validation_passed c then Inl FinalValidationMissing
      else if ac_committed_output_identity c = None then Inl CommittedIdentityMissing
      else Inr ())"

section \<open>Recovery observations and decisions\<close>

datatype IdentityObservation = Missing | MatchesJournal | Mismatched

datatype LeaseObservation = LeaseNotPresent | OwnedByJob | Stale | HeldByOther

datatype CleanupObservation = CleanupNotStarted | CleanupPartial | CleanupComplete

datatype MigrationObservation = MigrationNotRequired | MigrationComplete | MigrationInterrupted

datatype VolumeRelationship = SameFilesystem | CrossVolume

datatype CollisionObservation =
  NoCollision | IdenticalExistingOutput | ConflictingExistingOutput

datatype RecoveryConfinementObservation =
  ConfinementProven | ConfinementNotAvailable | ConfinementDiffers

record RecoveryObservation =
  durable_prefix :: CommitState
  staged_output :: IdentityObservation
  final_output :: IdentityObservation
  archive_row :: IdentityObservation
  lease :: LeaseObservation
  cleanup :: CleanupObservation
  migration :: MigrationObservation
  volume_relationship :: VolumeRelationship
  collision :: CollisionObservation
  confinement :: RecoveryConfinementObservation

datatype RecoveryAction =
    ResumeOrRestartVerifiedData
  | ReclaimStaleLease
  | ResumeInterruptedMigration
  | RevalidatePreparedThenRename
  | CopySyncRenameWithinDestination
  | VerifyFinalArtifactThenArchive
  | InsertArchiveRowAction
  | RestoreFinalFromStaged
  | VerifyArchiveOutputPairAction
  | RepeatCleanup

datatype RecoveryFailure =
    ExistingInconsistentPrefix
  | LeaseHeldByOther
  | ConflictingDestination
  | MismatchedStagedOutput
  | MismatchedFinalOutput
  | MismatchedArchiveRow
  | ConfinementUnavailable
  | ConfinementMismatched
  | PreparedOutputMissing
  | RenamedOutputMissing
  | ArchiveWithoutRecoverableOutput
  | ArchiveMissingForDurablePrefix
  | CleanupBeforeArchive
  | UnexpectedArtifactBeforePrepared

datatype RecoveryDecision =
    Act RecoveryAction
  | ReconciledSuccess
  | FailClosed RecoveryFailure

section \<open>Filesystem capability profiles\<close>

datatype PlatformFamily = PlatformLinux | PlatformWindows | PlatformMacOs | PlatformOther

datatype PathConfinement =
  RootHandleBeneathNoSymlink | RootHandleComponentWalk | ConfinementUnsupported

datatype CapabilitySupport = Supported | Degraded | Unsupported

datatype UnicodeNormalization =
  NormalizationNone | NormalizationNfc | NormalizationNfd | NormalizationUnknown

datatype CrossVolumeCommit = CopySyncRenameNotAtomic | CrossVolumeUnsupported

datatype FilesystemProofMode =
  SupportedLocalPositiveModel | UnixInteropRejectedOrExplicitlyDegraded

datatype RootedResolution = RootHandleRelative | NameBased

datatype LinkTraversal =
  NoFollowWithReparseInspection | NoFollowWithoutReparseInspection | MayFollow

datatype FinalHandleVerification = IdentityAndVolume | IdentityOnly | NotVerified

datatype NormalizationRole = NonSecurityCanonicalization | SecurityBoundary

record FilesystemCapability =
  fc_profile_id :: string
  fc_platform :: PlatformFamily
  fc_filesystem :: string
  fc_path_confinement :: PathConfinement
  fc_atomic_replace :: CapabilitySupport
  fc_file_sync :: CapabilitySupport
  fc_directory_sync :: CapabilitySupport
  fc_locking :: CapabilitySupport
  fc_sparse_files :: CapabilitySupport
  fc_case_sensitive :: bool
  fc_unicode_normalization :: UnicodeNormalization
  fc_maximum_path_bytes :: "u32 option"
  fc_crash_recovery :: CapabilitySupport
  fc_cross_volume_commit :: CrossVolumeCommit

record ConfinementContract =
  rooted_resolution :: RootedResolution
  link_traversal :: LinkTraversal
  final_handle_verification :: FinalHandleVerification
  normalization_role :: NormalizationRole

datatype ConfinementContractError =
    RootHandleRelativeRequired
  | NoFollowReparseInspectionRequired
  | FinalIdentityAndVolumeRequired
  | NormalizationCannotConfine

definition confinement_validate_secure_write ::
    "ConfinementContract \<Rightarrow> ConfinementContractError + unit" where
  "confinement_validate_secure_write c =
     (if rooted_resolution c \<noteq> RootHandleRelative then Inl RootHandleRelativeRequired
      else if link_traversal c \<noteq> NoFollowWithReparseInspection
        then Inl NoFollowReparseInspectionRequired
      else if final_handle_verification c \<noteq> IdentityAndVolume
        then Inl FinalIdentityAndVolumeRequired
      else if normalization_role c = SecurityBoundary then Inl NormalizationCannotConfine
      else Inr ())"

record FilesystemProfileContract =
  fp_environment :: string
  fp_proof_mode :: FilesystemProofMode
  fp_capability :: FilesystemCapability
  fp_confinement :: ConfinementContract
  fp_native_linux_durability_proven :: bool

record FilesystemProbeObservation =
  po_environment :: string
  po_capability :: FilesystemCapability
  po_confinement :: ConfinementContract
  po_native_linux_durability_proven :: bool

datatype FilesystemCapabilityError = PathConfinementUnavailable

datatype FilesystemProfileError =
    UnknownProfile
  | ProfileDataMismatch
  | ProfilePathConfinementUnavailable
  | ConfinementContractFailed ConfinementContractError
  | ProbeObservationMismatch

definition windows_11_26200_ntfs_v1 :: FilesystemProfileContract where
  "windows_11_26200_ntfs_v1 =
     \<lparr> fp_environment =
         ''Microsoft Windows 11 Home 10.0.26200 build 26200; NTFS; rustc/cargo 1.97.1'',
       fp_proof_mode = SupportedLocalPositiveModel,
       fp_capability =
         \<lparr> fc_profile_id = ''ff-fs-windows-11-26200-ntfs-v1'',
           fc_platform = PlatformWindows,
           fc_filesystem = ''NTFS'',
           fc_path_confinement = RootHandleComponentWalk,
           fc_atomic_replace = Supported,
           fc_file_sync = Supported,
           fc_directory_sync = Degraded,
           fc_locking = Supported,
           fc_sparse_files = Supported,
           fc_case_sensitive = False,
           fc_unicode_normalization = NormalizationUnknown,
           fc_maximum_path_bytes = None,
           fc_crash_recovery = Degraded,
           fc_cross_volume_commit = CopySyncRenameNotAtomic \<rparr>,
       fp_confinement =
         \<lparr> rooted_resolution = RootHandleRelative,
           link_traversal = NoFollowWithReparseInspection,
           final_handle_verification = IdentityAndVolume,
           normalization_role = NonSecurityCanonicalization \<rparr>,
       fp_native_linux_durability_proven = False \<rparr>"

definition ubuntu_24_04_wsl2_v9fs_v1 :: FilesystemProfileContract where
  "ubuntu_24_04_wsl2_v9fs_v1 =
     \<lparr> fp_environment = ''Ubuntu 24.04 on WSL2 kernel 6.6.87.2; repository mount v9fs'',
       fp_proof_mode = UnixInteropRejectedOrExplicitlyDegraded,
       fp_capability =
         \<lparr> fc_profile_id = ''ff-fs-ubuntu-24.04-wsl2-v9fs-v1'',
           fc_platform = PlatformLinux,
           fc_filesystem = ''v9fs'',
           fc_path_confinement = ConfinementUnsupported,
           fc_atomic_replace = Degraded,
           fc_file_sync = Degraded,
           fc_directory_sync = Degraded,
           fc_locking = Degraded,
           fc_sparse_files = Degraded,
           fc_case_sensitive = True,
           fc_unicode_normalization = NormalizationUnknown,
           fc_maximum_path_bytes = None,
           fc_crash_recovery = Unsupported,
           fc_cross_volume_commit = CrossVolumeUnsupported \<rparr>,
       fp_confinement =
         \<lparr> rooted_resolution = NameBased,
           link_traversal = NoFollowWithoutReparseInspection,
           final_handle_verification = NotVerified,
           normalization_role = NonSecurityCanonicalization \<rparr>,
       fp_native_linux_durability_proven = False \<rparr>"

definition validate_exact :: "FilesystemProfileContract \<Rightarrow> FilesystemProfileError + unit" where
  "validate_exact p =
     rbind
       (if fc_profile_id (fp_capability p) = ''ff-fs-windows-11-26200-ntfs-v1''
          then Inr windows_11_26200_ntfs_v1
        else if fc_profile_id (fp_capability p) = ''ff-fs-ubuntu-24.04-wsl2-v9fs-v1''
          then Inr ubuntu_24_04_wsl2_v9fs_v1
        else Inl UnknownProfile)
       (\<lambda>expected. if p \<noteq> expected then Inl ProfileDataMismatch else Inr ())"

definition capability_validate_secure_write ::
    "FilesystemCapability \<Rightarrow> FilesystemCapabilityError + unit" where
  "capability_validate_secure_write c =
     (if fc_path_confinement c = ConfinementUnsupported then Inl PathConfinementUnavailable
      else Inr ())"

definition validate_secure_write_profile ::
    "FilesystemProfileContract \<Rightarrow> FilesystemProfileError + unit" where
  "validate_secure_write_profile p =
     rbind (validate_exact p) (\<lambda>_.
     rbind (map_err (\<lambda>_. ProfilePathConfinementUnavailable)
              (capability_validate_secure_write (fp_capability p))) (\<lambda>_.
     rbind (map_err ConfinementContractFailed
              (confinement_validate_secure_write (fp_confinement p))) (\<lambda>_.
     Inr ())))"

definition validate_probe_observation ::
    "FilesystemProfileContract \<Rightarrow> FilesystemProbeObservation \<Rightarrow> FilesystemProfileError + unit" where
  "validate_probe_observation p observation =
     rbind (validate_exact p) (\<lambda>_.
       if observation \<noteq>
            \<lparr> po_environment = fp_environment p,
              po_capability = fp_capability p,
              po_confinement = fp_confinement p,
              po_native_linux_durability_proven = fp_native_linux_durability_proven p \<rparr>
       then Inl ProbeObservationMismatch else Inr ())"

end
