(* ===== verification/Journal.thy ===== *)
theory Journal
  imports Storage_Contract
begin

text \<open>
  What the journal scan of \<^verbatim>\<open>storage.rs\<close> promises. \<open>trusted_prefix\<close> is the abstract
  specification of a journal that may be believed: complete frames, valid checksums, one job,
  semantically valid records, gap-free one-based sequence numbers, an unbroken hash chain, and
  commit records in the order prepared, renamed, archived, cleaned. The scan, which looks at one
  record at a time and keeps four running values, returns exactly the longest such prefix.
\<close>

section \<open>The abstract specification\<close>

fun commit_transition :: "JournalPayload \<Rightarrow> JournalCommitTransition option" where
  "commit_transition (CommitPrepared _) = Some TransitionPrepared"
| "commit_transition (CommitRenamed _) = Some TransitionRenamed"
| "commit_transition (ArchiveCommitted _) = Some TransitionArchived"
| "commit_transition (CleanupCompleted _) = Some TransitionCleaned"
| "commit_transition _ = None"

definition commit_order :: "JournalCommitTransition list" where
  "commit_order = [TransitionPrepared, TransitionRenamed, TransitionArchived, TransitionCleaned]"

definition commit_states :: "CommitState list" where
  "commit_states = [Collecting, Prepared, Renamed, Archived, Cleaned]"

definition commit_transitions :: "ObservedJournalRecord list \<Rightarrow> JournalCommitTransition list" where
  "commit_transitions rs = List.map_filter (commit_transition \<circ> jr_payload \<circ> ob_record) rs"

definition hash_before :: "ObservedJournalRecord list \<Rightarrow> nat \<Rightarrow> string option" where
  "hash_before rs i = (if i = 0 then None else Some (ob_record_hash (rs ! (i - 1))))"

definition trusted_record ::
    "string \<Rightarrow> nat \<Rightarrow> string option \<Rightarrow> ObservedJournalRecord \<Rightarrow> bool" where
  "trusted_record job i prior ob \<longleftrightarrow>
     ob_frame_complete ob \<and> ob_payload_checksum_valid ob \<and>
     jr_job_id (ob_record ob) = job \<and>
     journal_validate (ob_record ob) = Inr () \<and>
     unat (jr_sequence (ob_record ob)) = Suc i \<and>
     jr_prior_record_hash (ob_record ob) = prior \<and>
     ob_record_hash ob \<noteq> []"

definition trusted_prefix :: "string \<Rightarrow> ObservedJournalRecord list \<Rightarrow> bool" where
  "trusted_prefix job rs \<longleftrightarrow>
     (\<forall>i < length rs. trusted_record job i (hash_before rs i) (rs ! i)) \<and>
     commit_transitions rs = take (length (commit_transitions rs)) commit_order"

lemma length_commit_order [simp]: "length commit_order = 4"
  by (simp add: commit_order_def)

section \<open>The running values of the loop\<close>

definition seq_after :: "ObservedJournalRecord list \<Rightarrow> u64 option" where
  "seq_after rs = (if Suc (length rs) < 2 ^ 64 then Some (of_nat (Suc (length rs))) else None)"

definition state_after :: "ObservedJournalRecord list \<Rightarrow> CommitState" where
  "state_after rs = commit_states ! length (commit_transitions rs)"

lemma commit_transitions_Nil [simp]: "commit_transitions [] = []"
  by (simp add: commit_transitions_def)

lemma commit_transitions_snoc:
  "commit_transitions (rs @ [ob]) =
     commit_transitions rs @
       (case commit_transition (jr_payload (ob_record ob)) of None \<Rightarrow> [] | Some t \<Rightarrow> [t])"
  by (simp add: commit_transitions_def List.map_filter_def split: option.split)

lemma hash_before_snoc:
  "i \<le> length rs \<Longrightarrow> hash_before (rs @ [ob]) i = hash_before rs i"
  by (auto simp: hash_before_def nth_append)

lemma trusted_commit_length:
  assumes "trusted_prefix job rs"
  shows "length (commit_transitions rs) \<le> 4"
proof -
  from assms have "length (commit_transitions rs) = length (take (length (commit_transitions rs)) commit_order)"
    by (simp add: trusted_prefix_def)
  then show ?thesis by simp
qed

lemma le4_cases: "n \<le> 4 \<Longrightarrow> n = 0 \<or> n = 1 \<or> n = 2 \<or> n = 3 \<or> n = (4::nat)"
  by arith

text \<open>
  Extending an ordered list of commit transitions keeps it ordered exactly when the commit
  state accepts the payload.
\<close>

lemma order_snoc_iff:
  assumes "ts = take (length ts) commit_order" and "length ts \<le> 4"
  shows "ts @ [t] = take (Suc (length ts)) commit_order \<longleftrightarrow>
    length ts < 4 \<and> commit_order ! length ts = t"
proof (cases "length ts < 4")
  case True
  then have "take (Suc (length ts)) commit_order = take (length ts) commit_order @ [commit_order ! length ts]"
    by (simp add: take_Suc_conv_app_nth)
  with True assms(1) show ?thesis by auto
next
  case False
  then have "length (take (Suc (length ts)) commit_order) \<le> length ts"
    by simp
  with False show ?thesis by (metis Suc_n_not_le_n length_append_singleton)
qed

lemma advance_accepts_iff:
  assumes "n \<le> 4"
  shows "(\<exists>s. advance_commit_prefix (commit_states ! n) p = Inr s) \<longleftrightarrow>
    (case commit_transition p of None \<Rightarrow> True | Some t \<Rightarrow> n < 4 \<and> commit_order ! n = t)"
  using le4_cases [OF assms]
  by (cases p) (auto simp: advance_commit_prefix_def commit_states_def commit_order_def)

lemma advance_next:
  assumes "n \<le> 4" and "advance_commit_prefix (commit_states ! n) p = Inr s"
  shows "s = commit_states ! (n + (case commit_transition p of None \<Rightarrow> 0 | Some _ \<Rightarrow> 1))"
  using le4_cases [OF assms(1)] assms(2)
  by (cases p) (auto simp: advance_commit_prefix_def commit_states_def split: if_splits)

lemma seq_after_eq_Some_iff: "seq_after rs = Some e \<longleftrightarrow> unat e = Suc (length rs)"
proof -
  have "unat (of_nat (Suc (length rs)) :: u64) = Suc (length rs)" if "Suc (length rs) < 2 ^ 64"
    using that by (rule unat_of_nat_u64)
  moreover have "unat e < 2 ^ 64"
    using unsigned_less [of e] by simp
  ultimately show ?thesis
    unfolding seq_after_def by (auto simp del: of_nat_Suc simp flip: unat_eq_iff)
qed

lemma seq_after_match:
  "seq_after rs = Some e \<Longrightarrow> jr = e \<longleftrightarrow> unat jr = Suc (length rs)" for jr :: u64
  by (metis seq_after_eq_Some_iff unat_eq_iff)

text \<open>One record is accepted by the loop exactly when it extends the trusted prefix.\<close>

lemma no_fault_iff:
  assumes "trusted_prefix job rs"
  shows "journal_fault job i (seq_after rs) (hash_before rs (length rs)) (state_after rs) ob = None
    \<longleftrightarrow> trusted_record job (length rs) (hash_before rs (length rs)) ob \<and>
        (\<exists>s. advance_commit_prefix (state_after rs) (jr_payload (ob_record ob)) = Inr s)"
proof (cases "seq_after rs")
  case None
  then have "\<not> Suc (length rs) < 2 ^ 64" by (auto simp: seq_after_def split: if_splits)
  moreover have "unat (jr_sequence (ob_record ob)) < 2 ^ 64"
    using unsigned_less [of "jr_sequence (ob_record ob)"] by simp
  ultimately have "unat (jr_sequence (ob_record ob)) \<noteq> Suc (length rs)" by linarith
  then show ?thesis
    by (auto simp: None journal_fault_def trusted_record_def split: sum.splits)
next
  case (Some e)
  have "jr_sequence (ob_record ob) = e \<longleftrightarrow> unat (jr_sequence (ob_record ob)) = Suc (length rs)"
    by (rule seq_after_match [OF Some])
  moreover have "jr_sequence (ob_record ob) = 0 \<longleftrightarrow> unat (jr_sequence (ob_record ob)) = 0"
    by (simp add: unat_eq_0)
  ultimately show ?thesis
    by (auto simp: Some journal_fault_def trusted_record_def not_less_iff_gr_or_eq
        split: sum.splits)
qed

lemma trusted_prefix_snoc:
  assumes "trusted_prefix job rs"
  shows "trusted_prefix job (rs @ [ob]) \<longleftrightarrow>
    trusted_record job (length rs) (hash_before rs (length rs)) ob \<and>
    (\<exists>s. advance_commit_prefix (state_after rs) (jr_payload (ob_record ob)) = Inr s)"
proof -
  let ?ts = "commit_transitions rs"
  from assms have ord: "?ts = take (length ?ts) commit_order" by (simp add: trusted_prefix_def)
  note le4 = trusted_commit_length [OF assms]
  have commits: "commit_transitions (rs @ [ob]) =
      take (length (commit_transitions (rs @ [ob]))) commit_order \<longleftrightarrow>
      (\<exists>s. advance_commit_prefix (state_after rs) (jr_payload (ob_record ob)) = Inr s)"
    unfolding state_after_def advance_accepts_iff [OF le4]
    using ord order_snoc_iff [OF ord le4]
    by (auto simp: commit_transitions_snoc split: option.splits)
  have "(\<forall>i < length (rs @ [ob]). trusted_record job i (hash_before (rs @ [ob]) i) ((rs @ [ob]) ! i))
      \<longleftrightarrow> trusted_record job (length rs) (hash_before rs (length rs)) ob"
    using assms by (auto simp: trusted_prefix_def less_Suc_eq nth_append hash_before_snoc)
  with commits show ?thesis by (simp add: trusted_prefix_def)
qed

lemma running_values_step:
  assumes "trusted_prefix job rs" and "trusted_prefix job (rs @ [ob])"
  shows "checked_add (jr_sequence (ob_record ob)) 1 = seq_after (rs @ [ob])"
    and "Some (ob_record_hash ob) = hash_before (rs @ [ob]) (length (rs @ [ob]))"
    and "(case advance_commit_prefix (state_after rs) (jr_payload (ob_record ob)) of
            Inr next \<Rightarrow> next | Inl _ \<Rightarrow> state_after rs) = state_after (rs @ [ob])"
proof -
  from assms have rec: "trusted_record job (length rs) (hash_before rs (length rs)) ob"
    and "\<exists>s. advance_commit_prefix (state_after rs) (jr_payload (ob_record ob)) = Inr s"
    using trusted_prefix_snoc [OF assms(1)] by auto
  then obtain s where s: "advance_commit_prefix (state_after rs) (jr_payload (ob_record ob)) = Inr s"
    by blast
  have "unat (jr_sequence (ob_record ob)) = Suc (length rs)"
    using rec by (simp add: trusted_record_def)
  then have "checked_add (jr_sequence (ob_record ob)) 1 = Some e \<longleftrightarrow> seq_after (rs @ [ob]) = Some e" for e
    by (simp add: seq_after_eq_Some_iff checked_add_eq_Some_iff)
  then show "checked_add (jr_sequence (ob_record ob)) 1 = seq_after (rs @ [ob])"
    by (metis not_Some_eq)
  show "Some (ob_record_hash ob) = hash_before (rs @ [ob]) (length (rs @ [ob]))"
    by (simp add: hash_before_def nth_append)
  from s advance_next [OF trusted_commit_length [OF assms(1)]]
  have "s = commit_states ! (length (commit_transitions rs) +
      (case commit_transition (jr_payload (ob_record ob)) of None \<Rightarrow> 0 | Some _ \<Rightarrow> 1))"
    by (simp add: state_after_def)
  then show "(case advance_commit_prefix (state_after rs) (jr_payload (ob_record ob)) of
            Inr next \<Rightarrow> next | Inl _ \<Rightarrow> state_after rs) = state_after (rs @ [ob])"
    by (simp add: s) (simp add: state_after_def commit_transitions_snoc split: option.split)
qed

lemma trusted_prefix_Nil [simp]: "trusted_prefix job []"
  by (simp add: trusted_prefix_def)

lemma trusted_prefix_butlast: "trusted_prefix job (rs @ [ob]) \<Longrightarrow> trusted_prefix job rs"
proof -
  assume t: "trusted_prefix job (rs @ [ob])"
  have "trusted_record job i (hash_before rs i) (rs ! i)" if "i < length rs" for i
    using t that unfolding trusted_prefix_def
    by (metis hash_before_snoc length_append_singleton less_SucI less_imp_le_nat nth_append)
  moreover from t have "commit_transitions rs = take (length (commit_transitions rs)) commit_order"
    unfolding trusted_prefix_def commit_transitions_snoc
    by (auto split: option.splits simp: append_eq_conv_conj)
  ultimately show ?thesis by (simp add: trusted_prefix_def)
qed

lemma trusted_prefix_append: "trusted_prefix job (rs @ qs) \<Longrightarrow> trusted_prefix job rs"
proof (induction qs rule: rev_induct)
  case (snoc q qs)
  then have "trusted_prefix job ((rs @ qs) @ [q])" by simp
  then show ?case by (intro snoc.IH) (rule trusted_prefix_butlast)
qed simp

section \<open>The loop finds the longest trusted prefix\<close>

definition scan_from ::
    "string \<Rightarrow> ObservedJournalRecord list \<Rightarrow> ObservedJournalRecord list \<Rightarrow> JournalPrefixScan" where
  "scan_from job seen rest =
     scan_loop job (length seen) (seq_after seen) (hash_before seen (length seen))
       (length seen) (state_after seen) rest"

lemma scan_from_accept:
  assumes "trusted_prefix job seen" and "trusted_prefix job (seen @ [ob])"
  shows "scan_from job seen (ob # rest) = scan_from job (seen @ [ob]) rest"
proof -
  have nf: "journal_fault job (length seen) (seq_after seen)
      (hash_before seen (length seen)) (state_after seen) ob = None"
    using assms no_fault_iff trusted_prefix_snoc by blast
  show ?thesis
    unfolding scan_from_def scan_loop.simps nf option.case
      running_values_step [OF assms] by simp
qed

lemma scan_from_reject:
  assumes "trusted_prefix job seen" and "\<not> trusted_prefix job (seen @ [ob])"
  shows "\<exists>fault. scan_from job seen (ob # rest) =
    \<lparr> valid_record_count = length seen, next_sequence = seq_after seen,
      last_record_hash = hash_before seen (length seen), stopped_by = Some fault \<rparr>"
proof -
  have "journal_fault job (length seen) (seq_after seen)
      (hash_before seen (length seen)) (state_after seen) ob \<noteq> None"
    using assms no_fault_iff trusted_prefix_snoc by blast
  then show ?thesis unfolding scan_from_def by auto
qed

lemma scan_from_longest:
  assumes "trusted_prefix job seen"
  shows "\<exists>k \<le> length rest.
    valid_record_count (scan_from job seen rest) = length seen + k \<and>
    trusted_prefix job (seen @ take k rest) \<and>
    (stopped_by (scan_from job seen rest) = None \<longleftrightarrow> k = length rest) \<and>
    next_sequence (scan_from job seen rest) = seq_after (seen @ take k rest) \<and>
    last_record_hash (scan_from job seen rest) = hash_before (seen @ take k rest) (length seen + k) \<and>
    (k < length rest \<longrightarrow> \<not> trusted_prefix job (seen @ take (Suc k) rest))"
  using assms
proof (induction rest arbitrary: seen)
  case Nil
  then show ?case by (simp add: scan_from_def)
next
  case (Cons ob rest)
  show ?case
  proof (cases "trusted_prefix job (seen @ [ob])")
    case True
    from Cons.IH [OF True] obtain k where "k \<le> length rest" and
      "valid_record_count (scan_from job (seen @ [ob]) rest) = length (seen @ [ob]) + k"
      "trusted_prefix job ((seen @ [ob]) @ take k rest)"
      "stopped_by (scan_from job (seen @ [ob]) rest) = None \<longleftrightarrow> k = length rest"
      "next_sequence (scan_from job (seen @ [ob]) rest) = seq_after ((seen @ [ob]) @ take k rest)"
      "last_record_hash (scan_from job (seen @ [ob]) rest) =
         hash_before ((seen @ [ob]) @ take k rest) (length (seen @ [ob]) + k)"
      "k < length rest \<longrightarrow> \<not> trusted_prefix job ((seen @ [ob]) @ take (Suc k) rest)"
      by (elim exE conjE)
    then show ?thesis
      unfolding scan_from_accept [OF Cons.prems True]
      by (intro exI [of _ "Suc k"]) simp
  next
    case False
    with scan_from_reject [OF Cons.prems this, of rest] Cons.prems show ?thesis
      by (intro exI [of _ 0]) auto
  qed
qed

lemma scan_observed_journal_from: "scan_observed_journal job rs = scan_from job [] rs"
  by (simp add: scan_observed_journal_def scan_from_def seq_after_def hash_before_def
      state_after_def commit_states_def)

text \<open>C22: the scan returns the longest trusted prefix of the observed records.\<close>

theorem scan_longest_trusted_prefix:
  "let scan = scan_observed_journal job rs; n = valid_record_count scan in
     n \<le> length rs \<and> trusted_prefix job (take n rs) \<and>
     (\<forall>m \<le> length rs. trusted_prefix job (take m rs) \<longrightarrow> m \<le> n) \<and>
     (stopped_by scan = None \<longleftrightarrow> n = length rs) \<and>
     next_sequence scan = (if Suc n < 2 ^ 64 then Some (of_nat (Suc n)) else None) \<and>
     last_record_hash scan = (if n = 0 then None else Some (ob_record_hash (rs ! (n - 1))))"
proof -
  let ?scan = "scan_observed_journal job rs"
  obtain k where k: "k \<le> length rs" "valid_record_count ?scan = k"
      "trusted_prefix job (take k rs)" "stopped_by ?scan = None \<longleftrightarrow> k = length rs"
      "next_sequence ?scan = seq_after (take k rs)"
      "last_record_hash ?scan = hash_before (take k rs) k"
      "k < length rs \<longrightarrow> \<not> trusted_prefix job (take (Suc k) rs)"
    using scan_from_longest [OF trusted_prefix_Nil, where job = job and rest = rs]
    by (auto simp: scan_observed_journal_from)
  have "m \<le> k" if "m \<le> length rs" "trusted_prefix job (take m rs)" for m
  proof (rule ccontr)
    assume "\<not> m \<le> k"
    then have "take m rs = take (Suc k) rs @ drop (Suc k) (take m rs)"
      by (metis Suc_leI append_take_drop_id min_def not_le take_take)
    with that(2) have "trusted_prefix job (take (Suc k) rs)"
      by (metis trusted_prefix_append)
    with k(7) \<open>\<not> m \<le> k\<close> that(1) show False by simp
  qed
  moreover have "seq_after (take k rs) = (if Suc k < 2 ^ 64 then Some (of_nat (Suc k)) else None)"
    using k(1) by (simp add: seq_after_def min_def)
  moreover have "hash_before (take k rs) k = (if k = 0 then None else Some (ob_record_hash (rs ! (k - 1))))"
    using k(1) by (simp add: hash_before_def)
  ultimately show ?thesis
    unfolding Let_def k(2) k(5) k(6) using k(1,3,4) by blast
qed

section \<open>Witness\<close>

text \<open>A journal of two well-formed records whose second one skips a sequence number.\<close>

definition sample_record :: "u64 \<Rightarrow> string option \<Rightarrow> ObservedJournalRecord" where
  "sample_record n prior =
     \<lparr> ob_record = \<lparr> jr_schema = \<lparr> sv_major = 1, sv_minor = 0 \<rparr>, jr_job_id = ''job'',
         jr_producer_instance = ''engine'', jr_sequence = n, jr_prior_record_hash = prior,
         jr_payload_checksum = ''sum'', jr_durability = Durable, jr_payload = JobCreated \<rparr>,
       ob_record_hash = ''hash'', ob_frame_complete = True, ob_payload_checksum_valid = True \<rparr>"

lemma sample_scan_count:
  "valid_record_count
     (scan_observed_journal ''job'' [sample_record 1 None, sample_record 3 (Some ''hash'')]) = 1"
  by (simp add: sample_record_def scan_observed_journal_def journal_fault_def journal_validate_def
      advance_commit_prefix_def checked_add_def)

theorem scan_longest_trusted_prefix_witness:
  "valid_record_count
     (scan_observed_journal ''job'' [sample_record 1 None, sample_record 3 (Some ''hash'')]) = 1 \<and>
   trusted_prefix ''job'' [sample_record 1 None] \<and>
   \<not> trusted_prefix ''job'' [sample_record 1 None, sample_record 3 (Some ''hash'')]"
  using scan_longest_trusted_prefix
    [of "''job''" "[sample_record 1 None, sample_record 3 (Some ''hash'')]"]
  unfolding Let_def sample_scan_count
  by (auto simp: sample_scan_count dest!: spec [where x = "2"])

end
