(* ===== verification/Recovery.thy ===== *)
theory Recovery
  imports Storage_Contract
begin

text \<open>
  The recovery oracle of \<^verbatim>\<open>product/crates/fforager-core/src/lifecycle.rs\<close>: the pure decision
  \<open>decide_recovery\<close> on one observation, its acknowledged application and the retry of an
  applied action. The lemmas characterise success, show that every fail-closed observation
  dominates, that the durable commit prefix never moves backwards, and that iterating the
  oracle converges.
\<close>

section \<open>The oracle\<close>

definition decide_recovery_prefix :: "RecoveryObservation \<Rightarrow> RecoveryDecision" where
  "decide_recovery_prefix observation =
     (case durable_prefix observation of
        Collecting \<Rightarrow>
          (if final_output observation = MatchesJournal \<or> archive_row observation = MatchesJournal
           then FailClosed UnexpectedArtifactBeforePrepared
           else Act ResumeOrRestartVerifiedData)
      | Prepared \<Rightarrow>
          (if archive_row observation = MatchesJournal \<and> final_output observation = MatchesJournal
           then Act VerifyArchiveOutputPairAction
           else if final_output observation = MatchesJournal
           then Act VerifyFinalArtifactThenArchive
           else if staged_output observation \<noteq> MatchesJournal
           then FailClosed PreparedOutputMissing
           else if volume_relationship observation = CrossVolume
           then Act CopySyncRenameWithinDestination
           else Act RevalidatePreparedThenRename)
      | Renamed \<Rightarrow>
          (if final_output observation \<noteq> MatchesJournal then FailClosed RenamedOutputMissing
           else if archive_row observation = MatchesJournal
           then Act VerifyArchiveOutputPairAction
           else Act InsertArchiveRowAction)
      | Archived \<Rightarrow>
          (if archive_row observation \<noteq> MatchesJournal
           then FailClosed ArchiveMissingForDurablePrefix
           else if final_output observation \<noteq> MatchesJournal
           then FailClosed RenamedOutputMissing
           else Act RepeatCleanup)
      | Cleaned \<Rightarrow>
          (if archive_row observation \<noteq> MatchesJournal
           then FailClosed ArchiveMissingForDurablePrefix
           else if final_output observation \<noteq> MatchesJournal
           then FailClosed RenamedOutputMissing
           else if cleanup observation = CleanupComplete then ReconciledSuccess
           else Act RepeatCleanup)
      | Inconsistent \<Rightarrow> FailClosed ExistingInconsistentPrefix)"

definition decide_recovery :: "RecoveryObservation \<Rightarrow> RecoveryDecision" where
  "decide_recovery observation =
     (if durable_prefix observation = Inconsistent then FailClosed ExistingInconsistentPrefix
      else if collision observation = ConflictingExistingOutput
        then FailClosed ConflictingDestination
      else if staged_output observation = Mismatched then FailClosed MismatchedStagedOutput
      else if final_output observation = Mismatched then FailClosed MismatchedFinalOutput
      else if archive_row observation = Mismatched then FailClosed MismatchedArchiveRow
      else if confinement observation = ConfinementNotAvailable
        then FailClosed ConfinementUnavailable
      else if confinement observation = ConfinementDiffers
        then FailClosed ConfinementMismatched
      else if cleanup observation \<in> {CleanupPartial, CleanupComplete} \<and>
          durable_prefix observation \<in> {Collecting, Prepared, Renamed}
        then FailClosed CleanupBeforeArchive
      else if durable_prefix observation = Collecting \<and>
          (final_output observation = MatchesJournal \<or> archive_row observation = MatchesJournal)
        then FailClosed UnexpectedArtifactBeforePrepared
      else if lease observation = HeldByOther then FailClosed LeaseHeldByOther
      else if lease observation = Stale then Act ReclaimStaleLease
      else if migration observation = MigrationInterrupted then Act ResumeInterruptedMigration
      else if archive_row observation = MatchesJournal \<and> final_output observation = Missing
        then (if staged_output observation = MatchesJournal then Act RestoreFinalFromStaged
              else FailClosed ArchiveWithoutRecoverableOutput)
      else decide_recovery_prefix observation)"

section \<open>Applying the selected action\<close>

datatype RecoveryApplicationError =
    ActionNotApplicable RecoveryAction
  | RetryActionMismatch RecoveryAction RecoveryAction

record RecoveryApplication =
  ra_action :: RecoveryAction
  ra_prior_observation :: RecoveryObservation
  ra_resulting_observation :: RecoveryObservation

fun recovery_effect :: "RecoveryAction \<Rightarrow> RecoveryObservation \<Rightarrow> RecoveryObservation" where
  "recovery_effect ResumeOrRestartVerifiedData ob = ob"
| "recovery_effect ReclaimStaleLease ob = ob\<lparr>lease := OwnedByJob\<rparr>"
| "recovery_effect ResumeInterruptedMigration ob = ob\<lparr>migration := MigrationComplete\<rparr>"
| "recovery_effect RevalidatePreparedThenRename ob =
     ob\<lparr>durable_prefix := Renamed, staged_output := Missing, final_output := MatchesJournal\<rparr>"
| "recovery_effect CopySyncRenameWithinDestination ob =
     ob\<lparr>durable_prefix := Renamed, staged_output := Missing, final_output := MatchesJournal\<rparr>"
| "recovery_effect VerifyFinalArtifactThenArchive ob =
     ob\<lparr>durable_prefix := Archived, archive_row := MatchesJournal\<rparr>"
| "recovery_effect InsertArchiveRowAction ob =
     ob\<lparr>durable_prefix := Archived, archive_row := MatchesJournal\<rparr>"
| "recovery_effect RestoreFinalFromStaged ob = ob\<lparr>final_output := MatchesJournal\<rparr>"
| "recovery_effect VerifyArchiveOutputPairAction ob = ob\<lparr>durable_prefix := Archived\<rparr>"
| "recovery_effect RepeatCleanup ob =
     ob\<lparr>durable_prefix := Cleaned, cleanup := CleanupComplete\<rparr>"

definition apply_recovery_action ::
    "RecoveryObservation \<Rightarrow> RecoveryAction \<Rightarrow> RecoveryApplicationError + RecoveryApplication" where
  "apply_recovery_action observation action =
     (if decide_recovery observation \<noteq> Act action then Inl (ActionNotApplicable action)
      else Inr \<lparr> ra_action = action, ra_prior_observation = observation,
                 ra_resulting_observation = recovery_effect action observation \<rparr>)"

definition recovery_retry ::
    "RecoveryApplication \<Rightarrow> RecoveryAction \<Rightarrow> RecoveryApplicationError + RecoveryObservation" where
  "recovery_retry application action =
     (if action \<noteq> ra_action application
      then Inl (RetryActionMismatch (ra_action application) action)
      else Inr (ra_resulting_observation application))"

text \<open>
  Recovery as an adapter drives it: decide, apply the selected action, observe again. The fuel
  bounds the number of applied actions; \<open>recovery_converges\<close> shows that five are enough.
\<close>

fun recover_loop :: "nat \<Rightarrow> RecoveryObservation \<Rightarrow> RecoveryDecision \<times> RecoveryObservation" where
  "recover_loop 0 ob = (decide_recovery ob, ob)"
| "recover_loop (Suc fuel) ob =
     (case decide_recovery ob of
        Act action \<Rightarrow>
          (case apply_recovery_action ob action of
             Inr application \<Rightarrow> recover_loop fuel (ra_resulting_observation application)
           | Inl _ \<Rightarrow> (Act action, ob))
      | decision \<Rightarrow> (decision, ob))"

section \<open>What an acting or successful decision presupposes\<close>

lemmas oracle_defs = decide_recovery_def decide_recovery_prefix_def

definition recovery_clear :: "RecoveryObservation \<Rightarrow> bool" where
  "recovery_clear ob \<longleftrightarrow>
     durable_prefix ob \<noteq> Inconsistent \<and> collision ob \<noteq> ConflictingExistingOutput \<and>
     staged_output ob \<noteq> Mismatched \<and> final_output ob \<noteq> Mismatched \<and>
     archive_row ob \<noteq> Mismatched \<and> confinement ob = ConfinementProven \<and>
     lease ob \<noteq> HeldByOther \<and>
     (cleanup ob = CleanupNotStarted \<or> durable_prefix ob \<in> {Archived, Cleaned})"

lemma not_clear_fails: "\<not> recovery_clear ob \<Longrightarrow> \<exists>f. decide_recovery ob = FailClosed f"
  by (cases "confinement ob"; cases "cleanup ob"; cases "durable_prefix ob")
     (auto simp: recovery_clear_def decide_recovery_def)

lemma act_clear: "decide_recovery ob = Act a \<Longrightarrow> recovery_clear ob"
  using not_clear_fails by fastforce

text \<open>An action is selected only under its preconditions.\<close>

theorem recovery_action_preconditions:
  assumes "decide_recovery ob = Act a"
  shows "recovery_clear ob \<and>
    (a \<in> {RevalidatePreparedThenRename, CopySyncRenameWithinDestination, RestoreFinalFromStaged} \<longrightarrow>
       staged_output ob = MatchesJournal \<and> final_output ob = Missing) \<and>
    (a \<in> {VerifyFinalArtifactThenArchive, InsertArchiveRowAction} \<longrightarrow>
       final_output ob = MatchesJournal \<and> archive_row ob = Missing) \<and>
    (a \<in> {VerifyArchiveOutputPairAction, RepeatCleanup} \<longrightarrow>
       final_output ob = MatchesJournal \<and> archive_row ob = MatchesJournal) \<and>
    (a = RepeatCleanup \<longrightarrow> durable_prefix ob \<in> {Archived, Cleaned})"
  using assms act_clear [OF assms]
  by (cases "final_output ob"; cases "archive_row ob"; cases "durable_prefix ob")
    (auto simp: oracle_defs recovery_clear_def split: if_splits)

text \<open>Success is reported exactly for an unobstructed job whose commit reached Cleaned, with
  cleanup complete, the archive row and the final output matching the journal, no interrupted
  migration and no stale lease.\<close>

theorem recovery_success_iff:
  "decide_recovery ob = ReconciledSuccess \<longleftrightarrow>
     recovery_clear ob \<and> durable_prefix ob = Cleaned \<and> cleanup ob = CleanupComplete \<and>
     archive_row ob = MatchesJournal \<and> final_output ob = MatchesJournal \<and>
     lease ob \<in> {LeaseNotPresent, OwnedByJob} \<and> migration ob \<noteq> MigrationInterrupted"
  unfolding oracle_defs recovery_clear_def
  by (cases "confinement ob"; cases "lease ob") (auto split: if_splits CommitState.splits)

section \<open>Progress of one applied action\<close>

fun prefix_rank :: "CommitState \<Rightarrow> nat" where
  "prefix_rank Collecting = 0"
| "prefix_rank Prepared = 1"
| "prefix_rank Renamed = 2"
| "prefix_rank Archived = 3"
| "prefix_rank Cleaned = 4"
| "prefix_rank Inconsistent = 5"

definition recovery_work :: "RecoveryObservation \<Rightarrow> nat" where
  "recovery_work ob =
     (if lease ob = Stale then 1 else 0) +
     (if migration ob = MigrationInterrupted then 1 else 0) +
     (case durable_prefix ob of
        Prepared \<Rightarrow>
          (if archive_row ob = MatchesJournal then
             (if final_output ob = MatchesJournal then 2 else 3)
           else if final_output ob = MatchesJournal then 2 else 3)
      | Renamed \<Rightarrow> (if final_output ob = MatchesJournal then 2 else 3)
      | Archived \<Rightarrow> (if final_output ob = MatchesJournal then 1 else 2)
      | Cleaned \<Rightarrow> (if final_output ob = MatchesJournal \<and> cleanup ob = CleanupComplete then 0
                    else if final_output ob = MatchesJournal then 1 else 2)
      | _ \<Rightarrow> 0)"

lemma recovery_work_decreases:
  "decide_recovery ob = Act a \<Longrightarrow> a \<noteq> ResumeOrRestartVerifiedData \<Longrightarrow>
     recovery_work (recovery_effect a ob) < recovery_work ob"
  by (cases a) (auto simp: oracle_defs recovery_work_def split: if_splits CommitState.splits)

lemma recovery_work_le: "recovery_work ob \<le> 5"
  by (auto simp: recovery_work_def split: CommitState.split)

lemma prefix_rank_mono:
  "decide_recovery ob = Act a \<Longrightarrow> prefix_rank (durable_prefix ob) \<le> prefix_rank (durable_prefix (recovery_effect a ob))"
  by (cases a) (auto simp: oracle_defs split: if_splits CommitState.splits)


section \<open>Convergence\<close>

text \<open>Once lease and migration are settled, no later observation fails closed.\<close>

definition settled :: "RecoveryObservation \<Rightarrow> bool" where
  "settled ob \<longleftrightarrow> lease ob \<noteq> Stale \<and> migration ob \<noteq> MigrationInterrupted \<and>
     (\<nexists>f. decide_recovery ob = FailClosed f)"

lemma settled_effect:
  "decide_recovery ob = Act a \<Longrightarrow> settled ob \<Longrightarrow> settled (recovery_effect a ob)"
  by (cases a)
    (auto simp: settled_def oracle_defs split: if_splits CommitState.splits)

text \<open>Two observations that agree on everything but the lease and the migration.\<close>

definition outputs_untouched :: "RecoveryObservation \<Rightarrow> RecoveryObservation \<Rightarrow> bool" where
  "outputs_untouched ob ob' \<longleftrightarrow> ob'\<lparr>lease := lease ob, migration := migration ob\<rparr> = ob"

lemma outputs_untouched_refl [simp]: "outputs_untouched ob ob"
  by (simp add: outputs_untouched_def)

lemma outputs_untouched_trans:
  "outputs_untouched a b \<Longrightarrow> outputs_untouched b c \<Longrightarrow> outputs_untouched a c"
  by (cases a; cases b; cases c) (simp add: outputs_untouched_def)

lemma unsettled_effect:
  "decide_recovery ob = Act a \<Longrightarrow> \<not> settled ob \<Longrightarrow> outputs_untouched ob (recovery_effect a ob)"
  by (cases a)
    (auto simp: settled_def outputs_untouched_def oracle_defs
      split: if_splits CommitState.splits)

lemma resume_collecting:
  "decide_recovery ob = Act ResumeOrRestartVerifiedData \<Longrightarrow> durable_prefix ob = Collecting"
  by (auto simp: oracle_defs split: if_splits CommitState.splits)

lemma recover_loop_step:
  "decide_recovery ob = Act a \<Longrightarrow>
     recover_loop (Suc n) ob = recover_loop n (recovery_effect a ob)"
  by (simp add: apply_recovery_action_def)

lemma recover_loop_stop:
  "(\<nexists>a. decide_recovery ob = Act a) \<Longrightarrow> recover_loop n ob = (decide_recovery ob, ob)"
  by (cases n) (auto split: RecoveryDecision.splits)

lemma recover_loop_decides: "fst (recover_loop n ob) = decide_recovery (snd (recover_loop n ob))"
proof (induction n arbitrary: ob)
  case (Suc n)
  show ?case
  proof (cases "\<exists>a. decide_recovery ob = Act a")
    case True
    then show ?thesis by (metis Suc.IH recover_loop_step)
  qed (simp add: recover_loop_stop del: recover_loop.simps)
qed simp

lemma recover_loop_rank:
  "prefix_rank (durable_prefix ob) \<le> prefix_rank (durable_prefix (snd (recover_loop n ob)))"
proof (induction n arbitrary: ob)
  case (Suc n)
  show ?case
  proof (cases "\<exists>a. decide_recovery ob = Act a")
    case True
    then show ?thesis by (metis Suc.IH prefix_rank_mono le_trans recover_loop_step)
  qed (simp add: recover_loop_stop del: recover_loop.simps)
qed simp

lemma recover_loop_converges:
  "recovery_work ob \<le> n \<Longrightarrow> fst (recover_loop n ob) = Act a \<Longrightarrow> a = ResumeOrRestartVerifiedData"
proof (induction n arbitrary: ob)
  case 0
  then show ?case using recovery_work_decreases by fastforce
next
  case (Suc n)
  show ?case
  proof (cases "\<exists>b. decide_recovery ob = Act b")
    case True
    then obtain b where b: "decide_recovery ob = Act b" by blast
    show ?thesis
    proof (cases "b = ResumeOrRestartVerifiedData")
      case True
      with b have "recover_loop k ob = (Act b, ob)" for k
        by (induction k) (simp_all add: apply_recovery_action_def)
      with Suc.prems(2) True show ?thesis by simp
    next
      case False
      with b Suc show ?thesis
        by (metis recovery_work_decreases less_Suc_eq_le order_less_le_trans recover_loop_step)
    qed
  next
    case False
    with Suc.prems(2) show ?thesis by (simp add: recover_loop_stop del: recover_loop.simps)
  qed
qed

lemma recover_loop_settled:
  "settled ob \<Longrightarrow> fst (recover_loop n ob) \<noteq> FailClosed f"
proof (induction n arbitrary: ob)
  case 0
  then show ?case by (simp add: settled_def)
next
  case (Suc n)
  show ?case
  proof (cases "\<exists>a. decide_recovery ob = Act a")
    case True
    then show ?thesis by (metis Suc.IH Suc.prems recover_loop_step settled_effect)
  next
    case False
    with Suc.prems show ?thesis
      by (auto simp: recover_loop_stop settled_def simp del: recover_loop.simps)
  qed
qed

lemma recover_loop_fail_untouched:
  "fst (recover_loop n ob) = FailClosed f \<Longrightarrow>
     outputs_untouched ob (snd (recover_loop n ob))"
proof (induction n arbitrary: ob)
  case 0
  then show ?case by simp
next
  case (Suc n)
  show ?case
  proof (cases "\<exists>a. decide_recovery ob = Act a")
    case True
    then obtain a where a: "decide_recovery ob = Act a" by blast
    have "\<not> settled ob" using Suc.prems recover_loop_settled by blast
    with a have "outputs_untouched ob (recovery_effect a ob)" by (rule unsettled_effect)
    with Suc.IH [of "recovery_effect a ob"] Suc.prems show ?thesis
      by (auto simp: recover_loop_step [OF a] simp del: recover_loop.simps
          intro: outputs_untouched_trans)
  next
    case False
    then show ?thesis by (simp add: recover_loop_stop del: recover_loop.simps)
  qed
qed

text \<open>
  C23: driving the oracle for five actions from any observation reaches reconciled success, or
  a job whose verified data must be acquired again, or a fail-closed verdict; a fail-closed
  verdict is reached before anything but the lease and the migration has been touched, and the
  durable prefix never moves backwards.
\<close>

theorem recovery_converges:
  "\<exists>d ob'. recover_loop 5 ob = (d, ob') \<and> d = decide_recovery ob' \<and>
     (d = ReconciledSuccess \<or>
      (d = Act ResumeOrRestartVerifiedData \<and> durable_prefix ob' = Collecting) \<or>
      (\<exists>f. d = FailClosed f \<and> outputs_untouched ob ob')) \<and>
     prefix_rank (durable_prefix ob) \<le> prefix_rank (durable_prefix ob')"
proof -
  obtain d ob' where r: "recover_loop 5 ob = (d, ob')" by fastforce
  have d: "d = decide_recovery ob'" using recover_loop_decides [of 5 ob] r by simp
  have rank: "prefix_rank (durable_prefix ob) \<le> prefix_rank (durable_prefix ob')"
    using recover_loop_rank [of ob 5] r by simp
  have act: "a = ResumeOrRestartVerifiedData" if "d = Act a" for a
    using recover_loop_converges [OF recovery_work_le, of ob a] r that by simp
  show ?thesis
  proof (cases d)
    case (Act a)
    with r d act rank resume_collecting show ?thesis by blast
  next
    case ReconciledSuccess
    with r d rank show ?thesis by blast
  next
    case (FailClosed f)
    with recover_loop_fail_untouched [of 5 ob f] r have "outputs_untouched ob ob'" by simp
    with FailClosed r d rank show ?thesis by blast
  qed
qed

text \<open>An action is applied exactly when the oracle selects it, and a retry of the exact
  applied action returns the stored result unchanged while any other retry is refused.\<close>

theorem recovery_apply_retry:
  "(case apply_recovery_action ob a of
      Inr app \<Rightarrow>
        decide_recovery ob = Act a \<and> ra_action app = a \<and> ra_prior_observation app = ob \<and>
        (\<forall>b. recovery_retry app b =
           (if b = a then Inr (ra_resulting_observation app) else Inl (RetryActionMismatch a b))) \<and>
        recovery_effect a (ra_resulting_observation app) = ra_resulting_observation app
    | Inl e \<Rightarrow> decide_recovery ob \<noteq> Act a \<and> e = ActionNotApplicable a)"
  by (cases a) (auto simp: apply_recovery_action_def recovery_retry_def)


section \<open>Witnesses\<close>

definition staged_crash :: RecoveryObservation where
  "staged_crash =
     \<lparr> durable_prefix = Prepared, staged_output = MatchesJournal, final_output = Missing,
       archive_row = Missing, lease = OwnedByJob, cleanup = CleanupNotStarted,
       migration = MigrationNotRequired, volume_relationship = CrossVolume,
       collision = NoCollision, confinement = ConfinementProven \<rparr>"

theorem recovery_action_preconditions_witness:
  "decide_recovery staged_crash = Act CopySyncRenameWithinDestination \<and>
   recovery_clear staged_crash \<and> staged_output staged_crash = MatchesJournal"
proof -
  have h: "decide_recovery staged_crash = Act CopySyncRenameWithinDestination"
    by (simp add: staged_crash_def oracle_defs)
  show ?thesis using h recovery_action_preconditions [OF h] by simp
qed

end
