(* ===== verification/Instance_Id.thy ===== *)
theory Instance_Id
  imports Prelude
begin

text \<open>
  The caller-supplied identity of one lifecycle instance
  (\<^verbatim>\<open>MachineInstanceId\<close> in \<^verbatim>\<open>fforager-core/src/lifecycle.rs\<close>), shared by the FFmpeg
  lifecycle and the generic state machine. The constructor refuses zero.
\<close>

type_synonym MachineInstanceId = u64

definition machine_instance_id_new :: "u64 \<Rightarrow> MachineInstanceId option" where
  "machine_instance_id_new value = (if value = 0 then None else Some value)"

end
