(* ===== verification/Ffmpeg_Lifecycle.thy ===== *)
theory Ffmpeg_Lifecycle
  imports Instance_Id
begin

text \<open>
  The version-two FFmpeg lifecycle of \<^verbatim>\<open>product/crates/fforager-core/src/lifecycle.rs\<close>
  (\<^verbatim>\<open>FfmpegLifecycleV2\<close>). Every public method is a function from the machine to the machine
  after the call and the method's result, so that a mutation before a returned error would be
  visible. Variant names carry the prefix \<open>V2\<close>, because the generic state machine has its own
  FFmpeg states and effects.
\<close>

section \<open>Data\<close>

record FfmpegLifecycleLimitsV2 =
  lim_force_kill :: u8
  lim_reap :: u8
  lim_diagnostics :: u8
  lim_release :: u8

definition ffmpeg_limits_new :: "u8 \<Rightarrow> u8 \<Rightarrow> u8 \<Rightarrow> u8 \<Rightarrow> FfmpegLifecycleLimitsV2 option" where
  "ffmpeg_limits_new force_kill reap diagnostics release =
     (if force_kill = 0 \<or> reap = 0 \<or> diagnostics = 0 \<or> release = 0 then None
      else Some \<lparr> lim_force_kill = force_kill, lim_reap = reap,
                  lim_diagnostics = diagnostics, lim_release = release \<rparr>)"

datatype FfmpegLifecycleStateV2 =
    V2Prepared
  | V2Spawning
  | V2Running
  | V2GracefulStopPending
  | V2GracefulExitPending
  | V2ForcedKillPending
  | V2ReapPending
  | V2DiagnosticsPending
  | V2OutputValidationPending
  | V2ReleasePending
  | V2Exited
  | V2Failed
  | V2Cancelled

datatype FfmpegEffectV2 =
    V2SpawnProcess
  | V2RequestGracefulStop
  | V2ForceKillProcessTree
  | V2ReapDirectChild
  | V2PreserveDiagnostics
  | V2ValidateOutput
  | V2ReleaseResources

datatype FfmpegTerminationV2 =
    ExitCode i32
  | UnixSignal i32
  | WindowsStatusOpaque u32
  | WindowsException u32

record FfmpegWaitFailureV2 =
  os_code :: "i64 option"

datatype FfmpegReapOutcomeV2 = Reaped FfmpegTerminationV2 | WaitFailed FfmpegWaitFailureV2

datatype FfmpegEffectOutcomeV2 =
    Spawned
  | SpawnFailed
  | GracefulStopRequested
  | GracefulStopUnsupported
  | GracefulStopFailed
  | ForcedKillRequested
  | ForcedKillAlreadyExited
  | ForcedKillFailed
  | ReapOutcome FfmpegReapOutcomeV2
  | DiagnosticsPreserved
  | DiagnosticsFailed
  | OutputValidated
  | OutputInvalid
  | OutputValidationFailed
  | ResourcesReleased
  | ResourceReleaseFailed

record FfmpegEffectRequestV2 =
  er_instance_id :: MachineInstanceId
  er_generation :: u64
  er_effect :: FfmpegEffectV2

datatype FfmpegTerminalFailureV2 =
    TerminalSpawnFailed
  | TerminalForcedKillFailed
  | TerminalWaitFailed FfmpegWaitFailureV2
  | TerminalNonzeroExit i32
  | TerminalUnixSignal i32
  | TerminalWindowsStatusOpaque u32
  | TerminalWindowsException u32
  | TerminalDiagnosticsFailed
  | TerminalOutputInvalid
  | TerminalOutputValidationFailed
  | TerminalResourceReleaseFailed

datatype FfmpegLifecycleActionV2 =
    V2Start
  | V2Cancel
  | V2ChildExitObserved
  | V2GracePeriodExpired
  | V2EffectCompleted FfmpegEffectRequestV2 FfmpegEffectOutcomeV2

record FfmpegLifecycleTransitionV2 =
  ft_previous :: FfmpegLifecycleStateV2
  ft_action :: FfmpegLifecycleActionV2
  ft_next :: FfmpegLifecycleStateV2
  ft_issued :: "FfmpegEffectRequestV2 option"

datatype FfmpegLifecycleErrorV2 =
    V2InvalidTransition FfmpegLifecycleStateV2 FfmpegLifecycleActionV2
  | V2UnexpectedEffectCompletion FfmpegEffectRequestV2 "FfmpegEffectRequestV2 option"
  | V2OutcomeDoesNotMatchEffect FfmpegEffectV2 FfmpegEffectOutcomeV2
  | V2TraceLimitReached nat
  | V2EffectGenerationExhausted

datatype FfmpegFactV2 = Absent | Present

definition is_present :: "FfmpegFactV2 \<Rightarrow> bool" where
  "is_present f = (case f of Present \<Rightarrow> True | Absent \<Rightarrow> False)"

record FfmpegLifecycleV2 =
  fl_instance_id :: MachineInstanceId
  fl_state :: FfmpegLifecycleStateV2
  fl_limits :: FfmpegLifecycleLimitsV2
  fl_trace_limit :: nat
  fl_trace :: "FfmpegLifecycleTransitionV2 list"
  fl_pending :: "FfmpegEffectRequestV2 option"
  fl_next_generation :: u64
  fl_cancellation_requested :: FfmpegFactV2
  fl_exit_observed :: FfmpegFactV2
  fl_child_spawned :: FfmpegFactV2
  fl_force_kill_attempts :: u8
  fl_reap_attempts :: u8
  fl_diagnostic_attempts :: u8
  fl_release_attempts :: u8
  fl_reaped :: "FfmpegTerminationV2 option"
  fl_failure :: "FfmpegTerminalFailureV2 option"
  fl_cleanup_unproven :: FfmpegFactV2
  fl_diagnostics_preserved :: FfmpegFactV2
  fl_resources_released :: FfmpegFactV2

definition ffmpeg_new ::
    "MachineInstanceId \<Rightarrow> FfmpegLifecycleLimitsV2 \<Rightarrow> nat \<Rightarrow> FfmpegLifecycleV2" where
  "ffmpeg_new instance_id limits trace_limit =
     \<lparr> fl_instance_id = instance_id, fl_state = V2Prepared, fl_limits = limits,
       fl_trace_limit = trace_limit, fl_trace = [], fl_pending = None, fl_next_generation = 1,
       fl_cancellation_requested = Absent, fl_exit_observed = Absent, fl_child_spawned = Absent,
       fl_force_kill_attempts = 0, fl_reap_attempts = 0, fl_diagnostic_attempts = 0,
       fl_release_attempts = 0, fl_reaped = None, fl_failure = None,
       fl_cleanup_unproven = Absent, fl_diagnostics_preserved = Absent,
       fl_resources_released = Absent \<rparr>"

type_synonym ffmpeg_result =
  "FfmpegLifecycleV2 \<times> (FfmpegLifecycleErrorV2 + FfmpegLifecycleTransitionV2)"

section \<open>Recording\<close>

definition ff_is_terminal :: "FfmpegLifecycleV2 \<Rightarrow> bool" where
  "ff_is_terminal m = (fl_state m \<in> {V2Exited, V2Failed, V2Cancelled})"

definition ff_invalid ::
    "FfmpegLifecycleV2 \<Rightarrow> FfmpegLifecycleActionV2 \<Rightarrow> FfmpegLifecycleErrorV2" where
  "ff_invalid m action = V2InvalidTransition (fl_state m) action"

definition prepare_transition :: "FfmpegLifecycleV2 \<Rightarrow> bool \<Rightarrow> FfmpegLifecycleErrorV2 + unit" where
  "prepare_transition m issues_effect =
     (if length (fl_trace m) \<ge> fl_trace_limit m then Inl (V2TraceLimitReached (fl_trace_limit m))
      else if issues_effect \<and> fl_next_generation m = - 1 then Inl V2EffectGenerationExhausted
      else Inr ())"

definition record_with_effect ::
    "FfmpegLifecycleV2 \<Rightarrow> FfmpegLifecycleActionV2 \<Rightarrow> FfmpegLifecycleStateV2
       \<Rightarrow> FfmpegEffectV2 option \<Rightarrow> ffmpeg_result" where
  "record_with_effect m action next effect =
     (let issued = map_option (\<lambda>e. \<lparr> er_instance_id = fl_instance_id m,
                                     er_generation = fl_next_generation m,
                                     er_effect = e \<rparr>) effect;
          entry = \<lparr> ft_previous = fl_state m, ft_action = action, ft_next = next,
                    ft_issued = issued \<rparr>
      in (m\<lparr> fl_next_generation :=
               (if effect = None then fl_next_generation m else fl_next_generation m + 1),
             fl_state := next, fl_pending := issued, fl_trace := fl_trace m @ [entry] \<rparr>,
          Inr entry))"

definition record_observation ::
    "FfmpegLifecycleV2 \<Rightarrow> FfmpegLifecycleActionV2 \<Rightarrow> FfmpegLifecycleStateV2 \<Rightarrow> ffmpeg_result" where
  "record_observation m action next =
     (let entry = \<lparr> ft_previous = fl_state m, ft_action = action, ft_next = next,
                    ft_issued = None \<rparr>
      in (m\<lparr> fl_state := next, fl_trace := fl_trace m @ [entry] \<rparr>, Inr entry))"

text \<open>\<open>self.prepare_transition(issues)?\<close> followed by the mutations and the record.\<close>

definition ff_commit ::
    "FfmpegLifecycleV2 \<Rightarrow> bool \<Rightarrow> (FfmpegLifecycleV2 \<Rightarrow> ffmpeg_result) \<Rightarrow> ffmpeg_result" where
  "ff_commit m issues k =
     (case prepare_transition m issues of Inl e \<Rightarrow> (m, Inl e) | Inr _ \<Rightarrow> k m)"

section \<open>Public inputs\<close>

definition ff_start :: "FfmpegLifecycleV2 \<Rightarrow> ffmpeg_result" where
  "ff_start m =
     (if fl_state m \<noteq> V2Prepared \<or> fl_pending m \<noteq> None then (m, Inl (ff_invalid m V2Start))
      else ff_commit m True (\<lambda>m. record_with_effect m V2Start V2Spawning (Some V2SpawnProcess)))"

definition ff_request_cancellation :: "FfmpegLifecycleV2 \<Rightarrow> ffmpeg_result" where
  "ff_request_cancellation m =
     (if ff_is_terminal m then (m, Inl (ff_invalid m V2Cancel))
      else
        let (next, effect) =
          (if fl_state m = V2Prepared then (V2ReleasePending, Some V2ReleaseResources)
           else if fl_state m = V2Running \<and> fl_pending m = None
             then (V2GracefulStopPending, Some V2RequestGracefulStop)
           else (fl_state m, None))
        in ff_commit m (effect \<noteq> None) (\<lambda>m.
             let m' = m\<lparr>fl_cancellation_requested := Present\<rparr> in
             if effect \<noteq> None then record_with_effect m' V2Cancel next effect
             else record_observation m' V2Cancel next))"

definition ff_observe_child_exit :: "FfmpegLifecycleV2 \<Rightarrow> ffmpeg_result" where
  "ff_observe_child_exit m =
     (case (if fl_state m \<in> {V2Running, V2GracefulExitPending} \<and> fl_pending m = None
              then Some (V2ReapPending, Some V2ReapDirectChild)
            else if fl_state m \<in> {V2GracefulStopPending, V2ForcedKillPending, V2ReapPending,
                V2DiagnosticsPending, V2OutputValidationPending, V2ReleasePending, V2Exited,
                V2Failed, V2Cancelled}
              then Some (fl_state m, None)
            else None) of
        None \<Rightarrow> (m, Inl (ff_invalid m V2ChildExitObserved))
      | Some (next, effect) \<Rightarrow>
          ff_commit m (effect \<noteq> None) (\<lambda>m.
            let m' = m\<lparr>fl_exit_observed := Present\<rparr> in
            if effect \<noteq> None then record_with_effect m' V2ChildExitObserved next effect
            else record_observation m' V2ChildExitObserved next))"

definition ff_expire_grace_period :: "FfmpegLifecycleV2 \<Rightarrow> ffmpeg_result" where
  "ff_expire_grace_period m =
     (if fl_state m \<noteq> V2GracefulExitPending \<or> fl_pending m \<noteq> None
      then (m, Inl (ff_invalid m V2GracePeriodExpired))
      else
        let (next, effect) =
          (if is_present (fl_exit_observed m) then (V2ReapPending, V2ReapDirectChild)
           else (V2ForcedKillPending, V2ForceKillProcessTree))
        in ff_commit m True (\<lambda>m. record_with_effect m V2GracePeriodExpired next (Some effect)))"

section \<open>Completing the pending effect\<close>

definition outcome_matches_effect :: "FfmpegEffectV2 \<Rightarrow> FfmpegEffectOutcomeV2 \<Rightarrow> bool" where
  "outcome_matches_effect effect outcome =
     (case effect of
        V2SpawnProcess \<Rightarrow> outcome \<in> {Spawned, SpawnFailed}
      | V2RequestGracefulStop \<Rightarrow>
          outcome \<in> {GracefulStopRequested, GracefulStopUnsupported, GracefulStopFailed}
      | V2ForceKillProcessTree \<Rightarrow>
          outcome \<in> {ForcedKillRequested, ForcedKillAlreadyExited, ForcedKillFailed}
      | V2ReapDirectChild \<Rightarrow> (case outcome of ReapOutcome _ \<Rightarrow> True | _ \<Rightarrow> False)
      | V2PreserveDiagnostics \<Rightarrow> outcome \<in> {DiagnosticsPreserved, DiagnosticsFailed}
      | V2ValidateOutput \<Rightarrow> outcome \<in> {OutputValidated, OutputInvalid, OutputValidationFailed}
      | V2ReleaseResources \<Rightarrow> outcome \<in> {ResourcesReleased, ResourceReleaseFailed})"

definition termination_failure ::
    "FfmpegTerminationV2 option \<Rightarrow> FfmpegTerminalFailureV2 option" where
  "termination_failure termination =
     (case termination of
        None \<Rightarrow> None
      | Some (ExitCode code) \<Rightarrow> if code = 0 then None else Some (TerminalNonzeroExit code)
      | Some (UnixSignal signal) \<Rightarrow> Some (TerminalUnixSignal signal)
      | Some (WindowsStatusOpaque status) \<Rightarrow> Some (TerminalWindowsStatusOpaque status)
      | Some (WindowsException code) \<Rightarrow> Some (TerminalWindowsException code))"

definition complete_spawn ::
    "FfmpegLifecycleV2 \<Rightarrow> FfmpegLifecycleActionV2 \<Rightarrow> FfmpegEffectOutcomeV2 \<Rightarrow> ffmpeg_result" where
  "complete_spawn m action outcome =
     (case (if outcome = Spawned \<and> is_present (fl_cancellation_requested m)
              then Some (V2GracefulStopPending, Some V2RequestGracefulStop)
            else if outcome = Spawned then Some (V2Running, None)
            else if outcome = SpawnFailed
              then Some (V2DiagnosticsPending, Some V2PreserveDiagnostics)
            else None) of
        None \<Rightarrow> (m, Inl (ff_invalid m action))
      | Some (next, effect) \<Rightarrow>
          ff_commit m (effect \<noteq> None) (\<lambda>m.
            let m1 = m\<lparr>fl_pending := None\<rparr>;
                m2 = (if outcome = Spawned then m1\<lparr>fl_child_spawned := Present\<rparr>
                      else m1\<lparr>fl_failure := Some TerminalSpawnFailed\<rparr>)
            in record_with_effect m2 action next effect))"

definition complete_graceful ::
    "FfmpegLifecycleV2 \<Rightarrow> FfmpegLifecycleActionV2 \<Rightarrow> FfmpegEffectOutcomeV2 \<Rightarrow> ffmpeg_result" where
  "complete_graceful m action outcome =
     (let (next, effect) =
        (if is_present (fl_exit_observed m) then (V2ReapPending, Some V2ReapDirectChild)
         else if outcome = GracefulStopRequested then (V2GracefulExitPending, None)
         else (V2ForcedKillPending, Some V2ForceKillProcessTree))
      in ff_commit m (effect \<noteq> None) (\<lambda>m.
           record_with_effect (m\<lparr>fl_pending := None\<rparr>) action next effect))"

definition complete_forced_kill ::
    "FfmpegLifecycleV2 \<Rightarrow> FfmpegLifecycleActionV2 \<Rightarrow> FfmpegEffectOutcomeV2 \<Rightarrow> ffmpeg_result" where
  "complete_forced_kill m action outcome =
     (let next_attempt = saturating_add (fl_force_kill_attempts m) 1;
          failed = (outcome = ForcedKillFailed);
          exhausted = (failed \<and> next_attempt \<ge> lim_force_kill (fl_limits m));
          exit_seen = is_present (fl_exit_observed m);
          (next, effect) =
            (if failed \<and> \<not> exhausted \<and> \<not> exit_seen
               then (V2ForcedKillPending, Some V2ForceKillProcessTree)
             else if exhausted \<and> \<not> exit_seen
               then (V2DiagnosticsPending, Some V2PreserveDiagnostics)
             else (V2ReapPending, Some V2ReapDirectChild))
      in ff_commit m True (\<lambda>m.
           let m1 = m\<lparr>fl_pending := None, fl_force_kill_attempts := next_attempt\<rparr>;
               m2 = (if exhausted \<and> \<not> exit_seen
                     then m1\<lparr>fl_failure := Some TerminalForcedKillFailed,
                             fl_cleanup_unproven := Present\<rparr>
                     else m1)
           in record_with_effect m2 action next effect))"

definition complete_reap ::
    "FfmpegLifecycleV2 \<Rightarrow> FfmpegLifecycleActionV2 \<Rightarrow> FfmpegEffectOutcomeV2 \<Rightarrow> ffmpeg_result" where
  "complete_reap m action outcome =
     (case outcome of
        ReapOutcome reap \<Rightarrow>
          (let next_attempt = saturating_add (fl_reap_attempts m) 1;
               wait_failed = (case reap of WaitFailed _ \<Rightarrow> True | Reaped _ \<Rightarrow> False);
               exhausted = (wait_failed \<and> next_attempt \<ge> lim_reap (fl_limits m));
               (next, effect) =
                 (if wait_failed \<and> \<not> exhausted then (V2ReapPending, V2ReapDirectChild)
                  else (V2DiagnosticsPending, V2PreserveDiagnostics))
           in ff_commit m True (\<lambda>m.
                let m1 = m\<lparr>fl_pending := None, fl_reap_attempts := next_attempt\<rparr>;
                    m2 = (case reap of
                            Reaped t \<Rightarrow> m1\<lparr>fl_reaped := Some t\<rparr>
                          | WaitFailed w \<Rightarrow>
                              (if exhausted
                               then m1\<lparr>fl_failure := Some (TerminalWaitFailed w),
                                       fl_cleanup_unproven := Present\<rparr>
                               else m1))
                in record_with_effect m2 action next (Some effect)))
      | _ \<Rightarrow> (m, Inl (ff_invalid m action)))"

definition complete_diagnostics ::
    "FfmpegLifecycleV2 \<Rightarrow> FfmpegLifecycleActionV2 \<Rightarrow> FfmpegEffectOutcomeV2 \<Rightarrow> ffmpeg_result" where
  "complete_diagnostics m action outcome =
     (let next_attempt = saturating_add (fl_diagnostic_attempts m) 1;
          failed = (outcome = DiagnosticsFailed);
          retry = (failed \<and> next_attempt < lim_diagnostics (fl_limits m));
          cancelled = is_present (fl_cancellation_requested m)
      in case
        (if retry then Some (V2DiagnosticsPending, Some V2PreserveDiagnostics)
         else if is_present (fl_cleanup_unproven m)
           then Some (if cancelled then V2Cancelled else V2Failed, None)
         else if \<not> is_present (fl_child_spawned m) \<or> cancelled \<or> fl_failure m \<noteq> None
           then Some (V2ReleasePending, Some V2ReleaseResources)
         else case fl_reaped m of
             Some t \<Rightarrow>
               if t = ExitCode 0 then Some (V2OutputValidationPending, Some V2ValidateOutput)
               else Some (V2ReleasePending, Some V2ReleaseResources)
           | None \<Rightarrow> None) of
        None \<Rightarrow> (m, Inl (ff_invalid m action))
      | Some (next, effect) \<Rightarrow>
          ff_commit m (effect \<noteq> None) (\<lambda>m.
            let m1 = m\<lparr>fl_pending := None, fl_diagnostic_attempts := next_attempt\<rparr>;
                m2 = (if \<not> retry \<and> \<not> cancelled \<and> fl_failure m1 = None
                      then m1\<lparr>fl_failure := termination_failure (fl_reaped m1)\<rparr> else m1);
                m3 = (if outcome = DiagnosticsPreserved
                      then m2\<lparr>fl_diagnostics_preserved := Present\<rparr>
                      else if \<not> retry \<and> fl_failure m2 = None
                      then m2\<lparr>fl_failure := Some TerminalDiagnosticsFailed\<rparr> else m2)
            in record_with_effect m3 action next effect))"

definition complete_output_validation ::
    "FfmpegLifecycleV2 \<Rightarrow> FfmpegLifecycleActionV2 \<Rightarrow> FfmpegEffectOutcomeV2 \<Rightarrow> ffmpeg_result" where
  "complete_output_validation m action outcome =
     ff_commit m True (\<lambda>m.
       let m1 = m\<lparr>fl_pending := None\<rparr>;
           finish = (\<lambda>failure. record_with_effect (m1\<lparr>fl_failure := failure\<rparr>) action
                       V2ReleasePending (Some V2ReleaseResources))
       in case outcome of
            OutputValidated \<Rightarrow> finish (fl_failure m1)
          | OutputInvalid \<Rightarrow> finish (Some TerminalOutputInvalid)
          | OutputValidationFailed \<Rightarrow> finish (Some TerminalOutputValidationFailed)
          | _ \<Rightarrow> (m1, Inl (ff_invalid m1 action)))"

definition complete_release ::
    "FfmpegLifecycleV2 \<Rightarrow> FfmpegLifecycleActionV2 \<Rightarrow> FfmpegEffectOutcomeV2 \<Rightarrow> ffmpeg_result" where
  "complete_release m action outcome =
     (let next_attempt = saturating_add (fl_release_attempts m) 1;
          failed = (outcome = ResourceReleaseFailed);
          retry = (failed \<and> next_attempt < lim_release (fl_limits m));
          next = (if retry then V2ReleasePending
                  else if is_present (fl_cancellation_requested m) then V2Cancelled
                  else if failed \<or> fl_failure m \<noteq> None then V2Failed
                  else V2Exited)
      in ff_commit m retry (\<lambda>m.
           let m1 = m\<lparr>fl_pending := None, fl_release_attempts := next_attempt\<rparr>;
               m2 = (if failed \<and> \<not> retry
                     then m1\<lparr>fl_failure := Some TerminalResourceReleaseFailed\<rparr> else m1);
               m3 = (if outcome = ResourcesReleased
                     then m2\<lparr>fl_resources_released := Present\<rparr> else m2)
           in record_with_effect m3 action next (if retry then Some V2ReleaseResources else None)))"

definition ff_complete_effect ::
    "FfmpegLifecycleV2 \<Rightarrow> FfmpegEffectRequestV2 \<Rightarrow> FfmpegEffectOutcomeV2 \<Rightarrow> ffmpeg_result" where
  "ff_complete_effect m request outcome =
     (let action = V2EffectCompleted request outcome in
      if fl_pending m \<noteq> Some request
      then (m, Inl (V2UnexpectedEffectCompletion request (fl_pending m)))
      else if \<not> outcome_matches_effect (er_effect request) outcome
      then (m, Inl (V2OutcomeDoesNotMatchEffect (er_effect request) outcome))
      else case er_effect request of
          V2SpawnProcess \<Rightarrow> complete_spawn m action outcome
        | V2RequestGracefulStop \<Rightarrow> complete_graceful m action outcome
        | V2ForceKillProcessTree \<Rightarrow> complete_forced_kill m action outcome
        | V2ReapDirectChild \<Rightarrow> complete_reap m action outcome
        | V2PreserveDiagnostics \<Rightarrow> complete_diagnostics m action outcome
        | V2ValidateOutput \<Rightarrow> complete_output_validation m action outcome
        | V2ReleaseResources \<Rightarrow> complete_release m action outcome)"

section \<open>Runs\<close>

text \<open>One call of a public method, named by the action it records.\<close>

fun ff_call :: "FfmpegLifecycleV2 \<Rightarrow> FfmpegLifecycleActionV2 \<Rightarrow> ffmpeg_result" where
  "ff_call m V2Start = ff_start m"
| "ff_call m V2Cancel = ff_request_cancellation m"
| "ff_call m V2ChildExitObserved = ff_observe_child_exit m"
| "ff_call m V2GracePeriodExpired = ff_expire_grace_period m"
| "ff_call m (V2EffectCompleted request outcome) = ff_complete_effect m request outcome"

definition ff_step :: "FfmpegLifecycleV2 \<Rightarrow> FfmpegLifecycleActionV2 \<Rightarrow> FfmpegLifecycleV2" where
  "ff_step m action = fst (ff_call m action)"

abbreviation ff_run :: "FfmpegLifecycleV2 \<Rightarrow> FfmpegLifecycleActionV2 list \<Rightarrow> FfmpegLifecycleV2" where
  "ff_run \<equiv> run_events ff_step"

end
