(* ===== verification/Ffmpeg_Transitions.thy ===== *)
theory Ffmpeg_Transitions
  imports Ffmpeg_Lifecycle
begin

text \<open>
  The accepted calls of the FFmpeg lifecycle as a step relation. Every rule of \<open>ff_trans\<close> is
  one branch of a public method or of an effect completion, with the condition under which the
  code takes it; \<open>ff_call_accepted\<close> shows that each accepted call is such a step within the trace
  and generation budgets, and \<open>ff_call_rejected\<close> that an error changes nothing. The invariants of
  \<^verbatim>\<open>Ffmpeg_Safety\<close> are proved by cases over this relation.
\<close>

lemma is_present_iff [simp]: "is_present f \<longleftrightarrow> f = Present"
  by (cases f) (simp_all add: is_present_def)

lemma fact_neq_iff [simp]: "f \<noteq> Present \<longleftrightarrow> f = Absent" "f \<noteq> Absent \<longleftrightarrow> f = Present"
  by (cases f; simp)+

section \<open>The transitions as a relation\<close>

definition emit ::
    "FfmpegLifecycleV2 \<Rightarrow> FfmpegLifecycleActionV2 \<Rightarrow> FfmpegLifecycleStateV2
       \<Rightarrow> FfmpegEffectV2 option \<Rightarrow> FfmpegLifecycleV2" where
  "emit m action next effect = fst (record_with_effect m action next effect)"

definition observe_only ::
    "FfmpegLifecycleV2 \<Rightarrow> FfmpegLifecycleActionV2 \<Rightarrow> FfmpegLifecycleV2" where
  "observe_only m action = fst (record_observation m action (fl_state m))"

abbreviation completes ::
    "FfmpegLifecycleV2 \<Rightarrow> FfmpegEffectRequestV2 \<Rightarrow> FfmpegEffectV2 \<Rightarrow> bool" where
  "completes m r effect \<equiv> fl_pending m = Some r \<and> er_effect r = effect"

definition diag_next ::
    "FfmpegLifecycleV2 \<Rightarrow> (FfmpegLifecycleStateV2 \<times> FfmpegEffectV2 option) set" where
  "diag_next m =
     (if fl_cleanup_unproven m = Present
      then {(if fl_cancellation_requested m = Present then V2Cancelled else V2Failed, None)}
      else if fl_child_spawned m = Absent \<or> fl_cancellation_requested m = Present \<or>
        fl_failure m \<noteq> None
      then {(V2ReleasePending, Some V2ReleaseResources)}
      else case fl_reaped m of
          None \<Rightarrow> {}
        | Some t \<Rightarrow> {if t = ExitCode 0 then (V2OutputValidationPending, Some V2ValidateOutput)
                    else (V2ReleasePending, Some V2ReleaseResources)})"

definition diag_settle ::
    "FfmpegLifecycleV2 \<Rightarrow> FfmpegEffectOutcomeV2 \<Rightarrow> FfmpegLifecycleV2" where
  "diag_settle m outcome =
     (let settled = (if fl_cancellation_requested m = Absent \<and> fl_failure m = None
                     then termination_failure (fl_reaped m) else fl_failure m)
      in if outcome = DiagnosticsPreserved
         then m\<lparr>fl_failure := settled, fl_diagnostics_preserved := Present\<rparr>
         else m\<lparr>fl_failure := (if settled = None then Some TerminalDiagnosticsFailed
                               else settled)\<rparr>)"

inductive ff_trans ::
    "FfmpegLifecycleV2 \<Rightarrow> FfmpegLifecycleActionV2 \<Rightarrow> FfmpegLifecycleV2 \<Rightarrow> bool" where
  start: "fl_state m = V2Prepared \<Longrightarrow> fl_pending m = None \<Longrightarrow>
    ff_trans m V2Start (emit m V2Start V2Spawning (Some V2SpawnProcess))"
| cancel_prepared: "fl_state m = V2Prepared \<Longrightarrow>
    ff_trans m V2Cancel
      (emit (m\<lparr>fl_cancellation_requested := Present\<rparr>) V2Cancel V2ReleasePending
        (Some V2ReleaseResources))"
| cancel_running: "fl_state m = V2Running \<Longrightarrow> fl_pending m = None \<Longrightarrow>
    ff_trans m V2Cancel
      (emit (m\<lparr>fl_cancellation_requested := Present\<rparr>) V2Cancel V2GracefulStopPending
        (Some V2RequestGracefulStop))"
| cancel_sticky: "\<not> ff_is_terminal m \<Longrightarrow> fl_state m \<noteq> V2Prepared \<Longrightarrow>
    \<not> (fl_state m = V2Running \<and> fl_pending m = None) \<Longrightarrow>
    ff_trans m V2Cancel (observe_only (m\<lparr>fl_cancellation_requested := Present\<rparr>) V2Cancel)"
| exit_reap: "fl_state m \<in> {V2Running, V2GracefulExitPending} \<Longrightarrow> fl_pending m = None \<Longrightarrow>
    ff_trans m V2ChildExitObserved
      (emit (m\<lparr>fl_exit_observed := Present\<rparr>) V2ChildExitObserved V2ReapPending
        (Some V2ReapDirectChild))"
| exit_noted: "fl_state m \<in> {V2GracefulStopPending, V2ForcedKillPending, V2ReapPending,
      V2DiagnosticsPending, V2OutputValidationPending, V2ReleasePending, V2Exited,
      V2Failed, V2Cancelled} \<Longrightarrow>
    ff_trans m V2ChildExitObserved (observe_only (m\<lparr>fl_exit_observed := Present\<rparr>) V2ChildExitObserved)"
| grace_reap: "fl_state m = V2GracefulExitPending \<Longrightarrow> fl_pending m = None \<Longrightarrow>
    fl_exit_observed m = Present \<Longrightarrow>
    ff_trans m V2GracePeriodExpired
      (emit m V2GracePeriodExpired V2ReapPending (Some V2ReapDirectChild))"
| grace_kill: "fl_state m = V2GracefulExitPending \<Longrightarrow> fl_pending m = None \<Longrightarrow>
    fl_exit_observed m = Absent \<Longrightarrow>
    ff_trans m V2GracePeriodExpired
      (emit m V2GracePeriodExpired V2ForcedKillPending (Some V2ForceKillProcessTree))"
| spawned_cancelled: "completes m r V2SpawnProcess \<Longrightarrow> fl_cancellation_requested m = Present \<Longrightarrow>
    ff_trans m (V2EffectCompleted r Spawned)
      (emit (m\<lparr>fl_pending := None, fl_child_spawned := Present\<rparr>) (V2EffectCompleted r Spawned)
        V2GracefulStopPending (Some V2RequestGracefulStop))"
| spawned_running: "completes m r V2SpawnProcess \<Longrightarrow> fl_cancellation_requested m = Absent \<Longrightarrow>
    ff_trans m (V2EffectCompleted r Spawned)
      (emit (m\<lparr>fl_pending := None, fl_child_spawned := Present\<rparr>) (V2EffectCompleted r Spawned)
        V2Running None)"
| spawn_failed: "completes m r V2SpawnProcess \<Longrightarrow>
    ff_trans m (V2EffectCompleted r SpawnFailed)
      (emit (m\<lparr>fl_pending := None, fl_failure := Some TerminalSpawnFailed\<rparr>)
        (V2EffectCompleted r SpawnFailed) V2DiagnosticsPending (Some V2PreserveDiagnostics))"
| graceful_reap: "completes m r V2RequestGracefulStop \<Longrightarrow> fl_exit_observed m = Present \<Longrightarrow>
    ff_trans m (V2EffectCompleted r outcome)
      (emit (m\<lparr>fl_pending := None\<rparr>) (V2EffectCompleted r outcome) V2ReapPending
        (Some V2ReapDirectChild))"
| graceful_wait: "completes m r V2RequestGracefulStop \<Longrightarrow> fl_exit_observed m = Absent \<Longrightarrow>
    ff_trans m (V2EffectCompleted r GracefulStopRequested)
      (emit (m\<lparr>fl_pending := None\<rparr>) (V2EffectCompleted r GracefulStopRequested)
        V2GracefulExitPending None)"
| graceful_kill: "completes m r V2RequestGracefulStop \<Longrightarrow> fl_exit_observed m = Absent \<Longrightarrow>
    outcome \<noteq> GracefulStopRequested \<Longrightarrow>
    ff_trans m (V2EffectCompleted r outcome)
      (emit (m\<lparr>fl_pending := None\<rparr>) (V2EffectCompleted r outcome) V2ForcedKillPending
        (Some V2ForceKillProcessTree))"
| kill_retry: "completes m r V2ForceKillProcessTree \<Longrightarrow> fl_exit_observed m = Absent \<Longrightarrow>
    a = saturating_add (fl_force_kill_attempts m) 1 \<Longrightarrow> a < lim_force_kill (fl_limits m) \<Longrightarrow>
    ff_trans m (V2EffectCompleted r ForcedKillFailed)
      (emit (m\<lparr>fl_pending := None, fl_force_kill_attempts := a\<rparr>)
        (V2EffectCompleted r ForcedKillFailed) V2ForcedKillPending (Some V2ForceKillProcessTree))"
| kill_exhausted: "completes m r V2ForceKillProcessTree \<Longrightarrow> fl_exit_observed m = Absent \<Longrightarrow>
    a = saturating_add (fl_force_kill_attempts m) 1 \<Longrightarrow> a \<ge> lim_force_kill (fl_limits m) \<Longrightarrow>
    ff_trans m (V2EffectCompleted r ForcedKillFailed)
      (emit (m\<lparr>fl_pending := None, fl_force_kill_attempts := a,
               fl_failure := Some TerminalForcedKillFailed, fl_cleanup_unproven := Present\<rparr>)
        (V2EffectCompleted r ForcedKillFailed) V2DiagnosticsPending (Some V2PreserveDiagnostics))"
| kill_reap: "completes m r V2ForceKillProcessTree \<Longrightarrow>
    outcome \<noteq> ForcedKillFailed \<or> fl_exit_observed m = Present \<Longrightarrow>
    a = saturating_add (fl_force_kill_attempts m) 1 \<Longrightarrow>
    ff_trans m (V2EffectCompleted r outcome)
      (emit (m\<lparr>fl_pending := None, fl_force_kill_attempts := a\<rparr>)
        (V2EffectCompleted r outcome) V2ReapPending (Some V2ReapDirectChild))"
| reaped: "completes m r V2ReapDirectChild \<Longrightarrow>
    a = saturating_add (fl_reap_attempts m) 1 \<Longrightarrow>
    ff_trans m (V2EffectCompleted r (ReapOutcome (Reaped t)))
      (emit (m\<lparr>fl_pending := None, fl_reap_attempts := a, fl_reaped := Some t\<rparr>)
        (V2EffectCompleted r (ReapOutcome (Reaped t))) V2DiagnosticsPending
        (Some V2PreserveDiagnostics))"
| reap_retry: "completes m r V2ReapDirectChild \<Longrightarrow>
    a = saturating_add (fl_reap_attempts m) 1 \<Longrightarrow> a < lim_reap (fl_limits m) \<Longrightarrow>
    ff_trans m (V2EffectCompleted r (ReapOutcome (WaitFailed w)))
      (emit (m\<lparr>fl_pending := None, fl_reap_attempts := a\<rparr>)
        (V2EffectCompleted r (ReapOutcome (WaitFailed w))) V2ReapPending
        (Some V2ReapDirectChild))"
| reap_exhausted: "completes m r V2ReapDirectChild \<Longrightarrow>
    a = saturating_add (fl_reap_attempts m) 1 \<Longrightarrow> a \<ge> lim_reap (fl_limits m) \<Longrightarrow>
    ff_trans m (V2EffectCompleted r (ReapOutcome (WaitFailed w)))
      (emit (m\<lparr>fl_pending := None, fl_reap_attempts := a,
               fl_failure := Some (TerminalWaitFailed w), fl_cleanup_unproven := Present\<rparr>)
        (V2EffectCompleted r (ReapOutcome (WaitFailed w))) V2DiagnosticsPending
        (Some V2PreserveDiagnostics))"
| diag_retry: "completes m r V2PreserveDiagnostics \<Longrightarrow>
    a = saturating_add (fl_diagnostic_attempts m) 1 \<Longrightarrow> a < lim_diagnostics (fl_limits m) \<Longrightarrow>
    ff_trans m (V2EffectCompleted r DiagnosticsFailed)
      (emit (m\<lparr>fl_pending := None, fl_diagnostic_attempts := a\<rparr>)
        (V2EffectCompleted r DiagnosticsFailed) V2DiagnosticsPending
        (Some V2PreserveDiagnostics))"
| diag_done: "completes m r V2PreserveDiagnostics \<Longrightarrow>
    a = saturating_add (fl_diagnostic_attempts m) 1 \<Longrightarrow>
    outcome = DiagnosticsPreserved \<or>
      outcome = DiagnosticsFailed \<and> a \<ge> lim_diagnostics (fl_limits m) \<Longrightarrow>
    (next, effect) \<in> diag_next m \<Longrightarrow>
    ff_trans m (V2EffectCompleted r outcome)
      (emit (diag_settle (m\<lparr>fl_pending := None, fl_diagnostic_attempts := a\<rparr>) outcome)
        (V2EffectCompleted r outcome) next effect)"
| validation_ok: "completes m r V2ValidateOutput \<Longrightarrow>
    ff_trans m (V2EffectCompleted r OutputValidated)
      (emit (m\<lparr>fl_pending := None\<rparr>) (V2EffectCompleted r OutputValidated)
        V2ReleasePending (Some V2ReleaseResources))"
| validation_bad: "completes m r V2ValidateOutput \<Longrightarrow>
    outcome = OutputInvalid \<and> failure = TerminalOutputInvalid \<or>
    outcome = OutputValidationFailed \<and> failure = TerminalOutputValidationFailed \<Longrightarrow>
    ff_trans m (V2EffectCompleted r outcome)
      (emit (m\<lparr>fl_pending := None, fl_failure := Some failure\<rparr>) (V2EffectCompleted r outcome)
        V2ReleasePending (Some V2ReleaseResources))"
| release_retry: "completes m r V2ReleaseResources \<Longrightarrow>
    a = saturating_add (fl_release_attempts m) 1 \<Longrightarrow> a < lim_release (fl_limits m) \<Longrightarrow>
    ff_trans m (V2EffectCompleted r ResourceReleaseFailed)
      (emit (m\<lparr>fl_pending := None, fl_release_attempts := a\<rparr>)
        (V2EffectCompleted r ResourceReleaseFailed) V2ReleasePending (Some V2ReleaseResources))"
| release_failed: "completes m r V2ReleaseResources \<Longrightarrow>
    a = saturating_add (fl_release_attempts m) 1 \<Longrightarrow> a \<ge> lim_release (fl_limits m) \<Longrightarrow>
    final = (if fl_cancellation_requested m = Present then V2Cancelled else V2Failed) \<Longrightarrow>
    ff_trans m (V2EffectCompleted r ResourceReleaseFailed)
      (emit (m\<lparr>fl_pending := None, fl_release_attempts := a,
               fl_failure := Some TerminalResourceReleaseFailed\<rparr>)
        (V2EffectCompleted r ResourceReleaseFailed) final None)"
| release_done: "completes m r V2ReleaseResources \<Longrightarrow>
    a = saturating_add (fl_release_attempts m) 1 \<Longrightarrow>
    final = (if fl_cancellation_requested m = Present then V2Cancelled
             else if fl_failure m \<noteq> None then V2Failed else V2Exited) \<Longrightarrow>
    ff_trans m (V2EffectCompleted r ResourcesReleased)
      (emit (m\<lparr>fl_pending := None, fl_release_attempts := a, fl_resources_released := Present\<rparr>)
        (V2EffectCompleted r ResourcesReleased) final None)"

section \<open>Every accepted call is a transition of the relation\<close>

lemma ff_commit_eq_Inr_iff:
  "ff_commit m issues k = (m', Inr tr) \<longleftrightarrow>
     prepare_transition m issues = Inr () \<and> k m = (m', Inr tr)"
  by (simp add: ff_commit_def split: sum.split)

lemma record_with_effect_Inr:
  "record_with_effect m a n e = (m', Inr tr) \<Longrightarrow> m' = emit m a n e"
  by (simp add: emit_def)

lemma record_observation_Inr:
  "record_observation m a (fl_state m) = (m', Inr tr) \<Longrightarrow> m' = observe_only m a"
  by (simp add: observe_only_def)

lemma trans_start: "ff_start m = (m', Inr tr) \<Longrightarrow> ff_trans m V2Start m'"
  by (auto simp: ff_start_def ff_commit_eq_Inr_iff split: if_splits
      dest!: record_with_effect_Inr intro: ff_trans.start)

lemma trans_grace: "ff_expire_grace_period m = (m', Inr tr) \<Longrightarrow> ff_trans m V2GracePeriodExpired m'"
  by (auto simp: ff_expire_grace_period_def ff_commit_eq_Inr_iff split: if_splits
      dest!: record_with_effect_Inr intro: grace_reap grace_kill)

lemma trans_cancel: "ff_request_cancellation m = (m', Inr tr) \<Longrightarrow> ff_trans m V2Cancel m'"
  using record_observation_Inr [of "m\<lparr>fl_cancellation_requested := Present\<rparr>" V2Cancel m' tr]
  by (auto simp: ff_request_cancellation_def ff_commit_eq_Inr_iff Let_def split: if_splits
      dest!: record_with_effect_Inr intro: cancel_prepared cancel_running cancel_sticky)

lemma trans_exit: "ff_observe_child_exit m = (m', Inr tr) \<Longrightarrow> ff_trans m V2ChildExitObserved m'"
  using record_observation_Inr [of "m\<lparr>fl_exit_observed := Present\<rparr>" V2ChildExitObserved m' tr]
  by (auto simp: ff_observe_child_exit_def ff_commit_eq_Inr_iff Let_def split: if_splits
      dest!: record_with_effect_Inr intro: exit_reap exit_noted)


lemma trans_spawn:
  assumes "complete_spawn m (V2EffectCompleted r outcome) outcome = (m', Inr tr)"
    and "completes m r V2SpawnProcess"
  shows "ff_trans m (V2EffectCompleted r outcome) m'"
  using assms
  by (auto simp: complete_spawn_def ff_commit_eq_Inr_iff Let_def split: if_splits
      dest!: record_with_effect_Inr intro: spawned_cancelled spawned_running spawn_failed)

lemma trans_graceful:
  assumes "complete_graceful m (V2EffectCompleted r outcome) outcome = (m', Inr tr)"
    and "completes m r V2RequestGracefulStop"
  shows "ff_trans m (V2EffectCompleted r outcome) m'"
  using assms
  by (auto simp: complete_graceful_def ff_commit_eq_Inr_iff Let_def split: if_splits
      dest!: record_with_effect_Inr intro: graceful_reap graceful_wait graceful_kill)

lemma trans_forced_kill:
  assumes "complete_forced_kill m (V2EffectCompleted r outcome) outcome = (m', Inr tr)"
    and "completes m r V2ForceKillProcessTree"
  shows "ff_trans m (V2EffectCompleted r outcome) m'"
  using assms
  by (auto simp: complete_forced_kill_def ff_commit_eq_Inr_iff Let_def not_le split: if_splits
      dest!: record_with_effect_Inr intro: kill_retry kill_exhausted kill_reap)

lemma trans_reap:
  assumes "complete_reap m (V2EffectCompleted r outcome) outcome = (m', Inr tr)"
    and "completes m r V2ReapDirectChild"
  shows "ff_trans m (V2EffectCompleted r outcome) m'"
  using assms
  by (auto simp: complete_reap_def ff_commit_eq_Inr_iff Let_def not_le
      split: if_splits FfmpegEffectOutcomeV2.splits FfmpegReapOutcomeV2.splits
      dest!: record_with_effect_Inr intro: reaped reap_retry reap_exhausted)

lemma trans_output_validation:
  assumes "complete_output_validation m (V2EffectCompleted r outcome) outcome = (m', Inr tr)"
    and "completes m r V2ValidateOutput"
  shows "ff_trans m (V2EffectCompleted r outcome) m'"
  using assms
  by (auto simp: complete_output_validation_def ff_commit_eq_Inr_iff Let_def
      split: FfmpegEffectOutcomeV2.splits
      dest!: record_with_effect_Inr intro: validation_ok validation_bad)

lemma trans_release:
  assumes "complete_release m (V2EffectCompleted r outcome) outcome = (m', Inr tr)"
    and "completes m r V2ReleaseResources" and "outcome_matches_effect V2ReleaseResources outcome"
  shows "ff_trans m (V2EffectCompleted r outcome) m'"
  using assms
  by (auto simp: complete_release_def ff_commit_eq_Inr_iff Let_def not_less
      outcome_matches_effect_def split: if_splits
      dest!: record_with_effect_Inr intro: release_retry release_failed release_done)


lemma trans_diagnostics:
  assumes "complete_diagnostics m (V2EffectCompleted r outcome) outcome = (m', Inr tr)"
    and "completes m r V2PreserveDiagnostics"
    and "outcome_matches_effect V2PreserveDiagnostics outcome"
  shows "ff_trans m (V2EffectCompleted r outcome) m'"
proof -
  let ?a = "saturating_add (fl_diagnostic_attempts m) 1"
  have "outcome = DiagnosticsFailed \<and> ?a < lim_diagnostics (fl_limits m) \<and>
      m' = emit (m\<lparr>fl_pending := None, fl_diagnostic_attempts := ?a\<rparr>)
        (V2EffectCompleted r DiagnosticsFailed) V2DiagnosticsPending (Some V2PreserveDiagnostics) \<or>
    (outcome = DiagnosticsPreserved \<or>
      outcome = DiagnosticsFailed \<and> ?a \<ge> lim_diagnostics (fl_limits m)) \<and>
      (\<exists>next effect. (next, effect) \<in> diag_next m \<and>
        m' = emit (diag_settle (m\<lparr>fl_pending := None, fl_diagnostic_attempts := ?a\<rparr>) outcome)
          (V2EffectCompleted r outcome) next effect)"
  proof (cases "outcome = DiagnosticsFailed \<and> ?a < lim_diagnostics (fl_limits m)")
    case True
    with assms show ?thesis
      by (auto simp: complete_diagnostics_def ff_commit_eq_Inr_iff Let_def
          dest!: record_with_effect_Inr)
  next
    case False
    with assms show ?thesis
      by (auto simp: complete_diagnostics_def ff_commit_eq_Inr_iff Let_def not_less
          outcome_matches_effect_def diag_next_def diag_settle_def
          split: if_splits option.splits dest!: record_with_effect_Inr)
  qed
  with assms(2) show ?thesis by (auto intro: diag_retry diag_done)
qed

section \<open>Budgets and rejected calls\<close>

definition within_budget :: "FfmpegLifecycleV2 \<Rightarrow> FfmpegLifecycleV2 \<Rightarrow> bool" where
  "within_budget m m' \<longleftrightarrow> length (fl_trace m) < fl_trace_limit m \<and>
     (fl_next_generation m' = fl_next_generation m \<or> fl_next_generation m \<noteq> - 1)"

lemma ff_commit_cases:
  assumes "ff_commit m issues k = (m', r)"
  obtains (rejected) e where "m' = m" "r = Inl e"
  | (prepared) "length (fl_trace m) < fl_trace_limit m"
      "issues \<Longrightarrow> fl_next_generation m \<noteq> - 1" "k m = (m', r)"
  using assms by (auto simp: ff_commit_def prepare_transition_def split: if_splits sum.splits)

lemma ff_commit_budget:
  assumes "ff_commit m issues k = (m', Inr tr)"
    and "\<And>m' tr. \<not> issues \<Longrightarrow> k m = (m', Inr tr) \<Longrightarrow> fl_next_generation m' = fl_next_generation m"
  shows "within_budget m m'"
  using assms by (auto simp: within_budget_def elim!: ff_commit_cases)

lemma ff_commit_unchanged:
  assumes "ff_commit m issues k = (m', Inl e)" and "\<And>m' e. k m \<noteq> (m', Inl e)"
  shows "m' = m"
  using assms by (auto elim!: ff_commit_cases)

lemma record_with_effect_not_Inl [simp]: "record_with_effect m a n e \<noteq> (m', Inl x)"
  by (simp add: record_with_effect_def Let_def)

lemma record_observation_not_Inl [simp]: "record_observation m a n \<noteq> (m', Inl x)"
  by (simp add: record_observation_def Let_def)

lemma record_with_effect_None_generation [simp]:
  "record_with_effect m a n None = (m', r) \<Longrightarrow> fl_next_generation m' = fl_next_generation m"
  by (auto simp: record_with_effect_def Let_def)

lemma record_observation_generation [simp]:
  "record_observation m a n = (m', r) \<Longrightarrow> fl_next_generation m' = fl_next_generation m"
  by (auto simp: record_observation_def Let_def)

lemmas ff_operation_defs = ff_start_def ff_request_cancellation_def ff_observe_child_exit_def
  ff_expire_grace_period_def complete_spawn_def complete_graceful_def complete_forced_kill_def
  complete_reap_def complete_diagnostics_def complete_output_validation_def complete_release_def

lemma budget_input:
  "ff_start m = (m', Inr tr) \<Longrightarrow> within_budget m m'"
  "ff_request_cancellation m = (m', Inr tr) \<Longrightarrow> within_budget m m'"
  "ff_observe_child_exit m = (m', Inr tr) \<Longrightarrow> within_budget m m'"
  "ff_expire_grace_period m = (m', Inr tr) \<Longrightarrow> within_budget m m'"
  by (auto simp: ff_operation_defs Let_def split: if_splits
      dest!: record_with_effect_None_generation record_observation_generation
      elim!: ff_commit_budget)

lemma budget_complete:
  "complete_spawn m a out = (m', Inr tr) \<Longrightarrow> within_budget m m'"
  "complete_graceful m a out = (m', Inr tr) \<Longrightarrow> within_budget m m'"
  "complete_forced_kill m a out = (m', Inr tr) \<Longrightarrow> within_budget m m'"
  "complete_reap m a out = (m', Inr tr) \<Longrightarrow> within_budget m m'"
  "complete_diagnostics m a out = (m', Inr tr) \<Longrightarrow> within_budget m m'"
  "complete_output_validation m a out = (m', Inr tr) \<Longrightarrow> within_budget m m'"
  "complete_release m a out = (m', Inr tr) \<Longrightarrow> within_budget m m'"
  by (auto simp: ff_operation_defs Let_def
      split: if_splits FfmpegEffectOutcomeV2.splits FfmpegReapOutcomeV2.splits option.splits
      dest!: record_with_effect_None_generation elim!: ff_commit_budget)

lemma unchanged_input:
  "ff_start m = (m', Inl e) \<Longrightarrow> m' = m"
  "ff_request_cancellation m = (m', Inl e) \<Longrightarrow> m' = m"
  "ff_observe_child_exit m = (m', Inl e) \<Longrightarrow> m' = m"
  "ff_expire_grace_period m = (m', Inl e) \<Longrightarrow> m' = m"
  by (auto simp: ff_operation_defs Let_def split: if_splits dest!: ff_commit_unchanged)

lemma unchanged_complete:
  "complete_spawn m a out = (m', Inl e) \<Longrightarrow> m' = m"
  "complete_graceful m a out = (m', Inl e) \<Longrightarrow> m' = m"
  "complete_forced_kill m a out = (m', Inl e) \<Longrightarrow> m' = m"
  "complete_reap m a out = (m', Inl e) \<Longrightarrow> m' = m"
  "complete_diagnostics m a out = (m', Inl e) \<Longrightarrow> m' = m"
  "complete_release m a out = (m', Inl e) \<Longrightarrow> m' = m"
  "complete_output_validation m a out = (m', Inl e) \<Longrightarrow>
     outcome_matches_effect V2ValidateOutput out \<Longrightarrow> m' = m"
  by (auto simp: ff_operation_defs Let_def outcome_matches_effect_def
      split: if_splits FfmpegEffectOutcomeV2.splits FfmpegReapOutcomeV2.splits option.splits
      dest!: ff_commit_unchanged)

lemma ff_call_accepted:
  assumes "ff_call m a = (m', Inr tr)"
  shows "ff_trans m a m' \<and> within_budget m m'"
proof (cases a)
  case (V2EffectCompleted r out)
  with assms show ?thesis
    by (auto simp: ff_complete_effect_def Let_def
        split: if_splits FfmpegEffectV2.splits
        intro: budget_complete trans_spawn trans_graceful trans_forced_kill trans_reap
          trans_diagnostics trans_output_validation trans_release)
qed (use assms in \<open>auto intro: budget_input trans_start trans_cancel trans_exit trans_grace\<close>)

lemma ff_call_rejected:
  assumes "ff_call m a = (m', Inl e)"
  shows "m' = m"
proof (cases a)
  case (V2EffectCompleted r out)
  with assms show ?thesis
    by (auto simp: ff_complete_effect_def Let_def
        split: if_splits FfmpegEffectV2.splits dest: unchanged_complete)
qed (use assms in \<open>auto dest: unchanged_input\<close>)

section \<open>Fields after a step\<close>

lemma emit_eq:
  "emit m a n e =
     m\<lparr> fl_next_generation :=
               (if e = None then fl_next_generation m else fl_next_generation m + 1),
             fl_state := n, fl_pending := map_option (\<lambda>e. \<lparr> er_instance_id = fl_instance_id m,
       er_generation = fl_next_generation m, er_effect = e \<rparr>) e, fl_trace := fl_trace m @ [\<lparr> ft_previous = fl_state m, ft_action = a, ft_next = n,
     ft_issued = map_option (\<lambda>e. \<lparr> er_instance_id = fl_instance_id m,
       er_generation = fl_next_generation m, er_effect = e \<rparr>) e \<rparr>] \<rparr>"
  unfolding emit_def record_with_effect_def Let_def fst_conv ..

lemma emit_fields [simp]:
  "fl_instance_id (emit m a n e) = fl_instance_id m"
  "fl_state (emit m a n e) = n"
  "fl_limits (emit m a n e) = fl_limits m"
  "fl_trace_limit (emit m a n e) = fl_trace_limit m"
  "fl_cancellation_requested (emit m a n e) = fl_cancellation_requested m"
  "fl_exit_observed (emit m a n e) = fl_exit_observed m"
  "fl_child_spawned (emit m a n e) = fl_child_spawned m"
  "fl_force_kill_attempts (emit m a n e) = fl_force_kill_attempts m"
  "fl_reap_attempts (emit m a n e) = fl_reap_attempts m"
  "fl_diagnostic_attempts (emit m a n e) = fl_diagnostic_attempts m"
  "fl_release_attempts (emit m a n e) = fl_release_attempts m"
  "fl_reaped (emit m a n e) = fl_reaped m"
  "fl_failure (emit m a n e) = fl_failure m"
  "fl_cleanup_unproven (emit m a n e) = fl_cleanup_unproven m"
  "fl_diagnostics_preserved (emit m a n e) = fl_diagnostics_preserved m"
  "fl_resources_released (emit m a n e) = fl_resources_released m"
  by (simp_all add: emit_eq)

lemma emit_effects [simp]:
  "fl_pending (emit m a n None) = None"
  "fl_pending (emit m a n (Some e)) = Some \<lparr> er_instance_id = fl_instance_id m,
     er_generation = fl_next_generation m, er_effect = e \<rparr>"
  "fl_next_generation (emit m a n None) = fl_next_generation m"
  "fl_next_generation (emit m a n (Some e)) = fl_next_generation m + 1"
  "fl_trace (emit m a n eo) = fl_trace m @ [\<lparr> ft_previous = fl_state m, ft_action = a, ft_next = n,
     ft_issued = map_option (\<lambda>e. \<lparr> er_instance_id = fl_instance_id m,
       er_generation = fl_next_generation m, er_effect = e \<rparr>) eo \<rparr>]"
  by (simp_all add: emit_eq)

lemma observe_only_eq [simp]:
  "observe_only m a = m\<lparr> fl_trace := fl_trace m @ [\<lparr> ft_previous = fl_state m, ft_action = a,
     ft_next = fl_state m, ft_issued = None \<rparr>] \<rparr>"
  by (simp add: observe_only_def record_observation_def Let_def)

lemma diag_settle_fields [simp]:
  "fl_instance_id (diag_settle m outcome) = fl_instance_id m"
  "fl_state (diag_settle m outcome) = fl_state m"
  "fl_limits (diag_settle m outcome) = fl_limits m"
  "fl_trace_limit (diag_settle m outcome) = fl_trace_limit m"
  "fl_trace (diag_settle m outcome) = fl_trace m"
  "fl_pending (diag_settle m outcome) = fl_pending m"
  "fl_next_generation (diag_settle m outcome) = fl_next_generation m"
  "fl_cancellation_requested (diag_settle m outcome) = fl_cancellation_requested m"
  "fl_child_spawned (diag_settle m outcome) = fl_child_spawned m"
  "fl_force_kill_attempts (diag_settle m outcome) = fl_force_kill_attempts m"
  "fl_reap_attempts (diag_settle m outcome) = fl_reap_attempts m"
  "fl_diagnostic_attempts (diag_settle m outcome) = fl_diagnostic_attempts m"
  "fl_release_attempts (diag_settle m outcome) = fl_release_attempts m"
  "fl_reaped (diag_settle m outcome) = fl_reaped m"
  "fl_cleanup_unproven (diag_settle m outcome) = fl_cleanup_unproven m"
  "fl_resources_released (diag_settle m outcome) = fl_resources_released m"
  by (simp_all add: diag_settle_def Let_def)

end
