(* ===== verification/Ffmpeg_Safety.thy ===== *)
theory Ffmpeg_Safety
  imports Ffmpeg_Transitions
begin

text \<open>
  What the FFmpeg lifecycle guarantees. The invariant \<open>ff_inv\<close> says which facts hold in each state
  (\<open>phase_ok\<close>), which effect is awaited (\<open>pending_ok\<close>), how the attempt counters relate to their
  limits (\<open>attempts_ok\<close>) and how the trace accounts for every request (\<open>trace_ok\<close>). The locale of
  ranked step functions is interpreted on \<open>ff_step\<close> with that invariant, and the properties follow
  for every sequence of calls.
\<close>

section \<open>Invariants\<close>

fun awaited :: "FfmpegLifecycleStateV2 \<Rightarrow> FfmpegEffectV2 option" where
  "awaited V2Spawning = Some V2SpawnProcess"
| "awaited V2GracefulStopPending = Some V2RequestGracefulStop"
| "awaited V2ForcedKillPending = Some V2ForceKillProcessTree"
| "awaited V2ReapPending = Some V2ReapDirectChild"
| "awaited V2DiagnosticsPending = Some V2PreserveDiagnostics"
| "awaited V2OutputValidationPending = Some V2ValidateOutput"
| "awaited V2ReleasePending = Some V2ReleaseResources"
| "awaited _ = None"

definition pending_ok :: "FfmpegLifecycleV2 \<Rightarrow> bool" where
  "pending_ok m \<longleftrightarrow>
     (case fl_pending m of
        None \<Rightarrow> awaited (fl_state m) = None
      | Some r \<Rightarrow> awaited (fl_state m) = Some (er_effect r) \<and>
          er_instance_id r = fl_instance_id m \<and>
          unat (fl_next_generation m) = Suc (unat (er_generation r)))"

definition output_validated :: "FfmpegLifecycleV2 \<Rightarrow> bool" where
  "output_validated m =
     list_ex (\<lambda>tr. case ft_action tr of V2EffectCompleted _ outcome \<Rightarrow> outcome = OutputValidated
                   | _ \<Rightarrow> False) (fl_trace m)"

definition untouched :: "FfmpegLifecycleV2 \<Rightarrow> bool" where
  "untouched m \<longleftrightarrow> fl_reaped m = None \<and> fl_failure m = None \<and>
     fl_cleanup_unproven m = Absent \<and> fl_resources_released m = Absent \<and>
     fl_diagnostics_preserved m = Absent"

definition phase_ok :: "FfmpegLifecycleV2 \<Rightarrow> bool" where
  "phase_ok m \<longleftrightarrow>
     (case fl_state m of
        V2Prepared \<Rightarrow> untouched m \<and> fl_child_spawned m = Absent \<and>
          fl_cancellation_requested m = Absent
      | V2Spawning \<Rightarrow> untouched m \<and> fl_child_spawned m = Absent
      | V2Running \<Rightarrow> untouched m \<and> fl_child_spawned m = Present \<and>
          fl_cancellation_requested m = Absent
      | V2GracefulStopPending \<Rightarrow> untouched m \<and> fl_child_spawned m = Present \<and>
          fl_cancellation_requested m = Present
      | V2GracefulExitPending \<Rightarrow> untouched m \<and> fl_child_spawned m = Present \<and>
          fl_cancellation_requested m = Present
      | V2ForcedKillPending \<Rightarrow> untouched m \<and> fl_child_spawned m = Present \<and>
          fl_cancellation_requested m = Present
      | V2ReapPending \<Rightarrow> untouched m \<and> fl_child_spawned m = Present
      | V2DiagnosticsPending \<Rightarrow>
          fl_resources_released m = Absent \<and> fl_diagnostics_preserved m = Absent \<and>
          (if fl_child_spawned m = Absent
           then fl_reaped m = None \<and> fl_failure m = Some TerminalSpawnFailed \<and>
             fl_cleanup_unproven m = Absent
           else if fl_cleanup_unproven m = Absent
           then fl_reaped m \<noteq> None \<and> fl_failure m = None
           else fl_reaped m = None \<and> fl_failure m \<noteq> None)
      | V2OutputValidationPending \<Rightarrow>
          fl_child_spawned m = Present \<and> fl_reaped m = Some (ExitCode 0) \<and>
          fl_cleanup_unproven m = Absent \<and> fl_resources_released m = Absent \<and>
          (fl_failure m = None \<longrightarrow> fl_diagnostics_preserved m = Present)
      | V2ReleasePending \<Rightarrow>
          fl_resources_released m = Absent \<and> fl_cleanup_unproven m = Absent \<and>
          (fl_child_spawned m = Present \<longrightarrow> fl_reaped m \<noteq> None) \<and>
          (fl_cancellation_requested m = Absent \<and> fl_failure m = None \<longrightarrow>
             fl_child_spawned m = Present \<and> fl_reaped m = Some (ExitCode 0) \<and>
             fl_diagnostics_preserved m = Present \<and> output_validated m)
      | V2Exited \<Rightarrow>
          fl_child_spawned m = Present \<and> fl_reaped m = Some (ExitCode 0) \<and>
          fl_diagnostics_preserved m = Present \<and> output_validated m \<and>
          fl_resources_released m = Present \<and> fl_failure m = None \<and>
          fl_cancellation_requested m = Absent \<and> fl_cleanup_unproven m = Absent
      | V2Failed \<Rightarrow>
          fl_failure m \<noteq> None \<and> fl_cancellation_requested m = Absent \<and>
          (fl_resources_released m = Present \<longrightarrow>
             fl_cleanup_unproven m = Absent \<and>
             (fl_child_spawned m = Present \<longrightarrow> fl_reaped m \<noteq> None))
      | V2Cancelled \<Rightarrow>
          fl_cancellation_requested m = Present \<and>
          (fl_resources_released m = Present \<longrightarrow>
             fl_cleanup_unproven m = Absent \<and>
             (fl_child_spawned m = Present \<longrightarrow> fl_reaped m \<noteq> None)))"


lemma awaited_iff [simp]:
  "awaited s = Some V2SpawnProcess \<longleftrightarrow> s = V2Spawning"
  "awaited s = Some V2RequestGracefulStop \<longleftrightarrow> s = V2GracefulStopPending"
  "awaited s = Some V2ForceKillProcessTree \<longleftrightarrow> s = V2ForcedKillPending"
  "awaited s = Some V2ReapDirectChild \<longleftrightarrow> s = V2ReapPending"
  "awaited s = Some V2PreserveDiagnostics \<longleftrightarrow> s = V2DiagnosticsPending"
  "awaited s = Some V2ValidateOutput \<longleftrightarrow> s = V2OutputValidationPending"
  "awaited s = Some V2ReleaseResources \<longleftrightarrow> s = V2ReleasePending"
  by (cases s; simp)+

lemma completes_state:
  "pending_ok m \<Longrightarrow> completes m r e \<Longrightarrow> awaited (fl_state m) = Some e"
  by (auto simp: pending_ok_def)

lemma within_budget_emit [simp]:
  "within_budget m (emit m' a n (Some e)) \<Longrightarrow> fl_next_generation m' = fl_next_generation m \<Longrightarrow>
     unat (fl_next_generation m + 1) = Suc (unat (fl_next_generation m))"
  by (auto simp: within_budget_def unat_Suc_word)

lemma within_budget_generation:
  "within_budget m m' \<Longrightarrow> fl_next_generation m' = fl_next_generation m + 1 \<Longrightarrow>
     unat (fl_next_generation m + 1) = Suc (unat (fl_next_generation m))"
  by (auto simp: within_budget_def unat_Suc_word)

lemma diag_nextD:
  "(n, e) \<in> diag_next m \<Longrightarrow>
     e = None \<and> n \<in> {V2Cancelled, V2Failed} \<or> e = Some V2ReleaseResources \<and> n = V2ReleasePending \<or>
     e = Some V2ValidateOutput \<and> n = V2OutputValidationPending"
  by (auto simp: diag_next_def split: if_splits option.splits)

lemma pending_step:
  assumes "ff_trans m a m'" "within_budget m m'" "pending_ok m"
  shows "pending_ok m'"
  using assms
  apply (cases rule: ff_trans.cases)
  apply (auto simp: pending_ok_def dest: within_budget_generation dest!: diag_nextD split: option.splits)
  done

lemma phase_step:
  assumes "ff_trans m a m'" "pending_ok m" "phase_ok m"
  shows "phase_ok m'"
  using assms(1)
proof (cases rule: ff_trans.cases)
  case (diag_done r at out n e)
  with assms(2,3) show ?thesis
    by (auto simp: phase_ok_def diag_next_def diag_settle_def output_validated_def Let_def
      termination_failure_def pending_ok_def split: if_splits option.splits FfmpegTerminationV2.splits)
qed (use assms(2,3) in \<open>auto simp: pending_ok_def phase_ok_def untouched_def ff_is_terminal_def output_validated_def
  split: FfmpegLifecycleStateV2.splits option.splits if_splits\<close>)

fun stage :: "FfmpegLifecycleStateV2 \<Rightarrow> nat" where
  "stage V2Prepared = 0"
| "stage V2Spawning = 1"
| "stage V2Running = 2"
| "stage V2GracefulStopPending = 3"
| "stage V2GracefulExitPending = 4"
| "stage V2ForcedKillPending = 5"
| "stage V2ReapPending = 6"
| "stage V2DiagnosticsPending = 7"
| "stage V2OutputValidationPending = 8"
| "stage V2ReleasePending = 9"
| "stage _ = 10"

text \<open>An attempt counter is zero before its stage, below its limit in it, and never above it.\<close>

definition counter_ok :: "nat \<Rightarrow> nat \<Rightarrow> u8 \<Rightarrow> u8 \<Rightarrow> bool" where
  "counter_ok current at n limit \<longleftrightarrow>
     n \<le> limit \<and> (current < at \<longrightarrow> n = 0) \<and> (current \<le> at \<longrightarrow> n < limit)"

definition attempts_ok :: "FfmpegLifecycleV2 \<Rightarrow> bool" where
  "attempts_ok m \<longleftrightarrow>
     counter_ok (stage (fl_state m)) 5 (fl_force_kill_attempts m) (lim_force_kill (fl_limits m)) \<and>
     counter_ok (stage (fl_state m)) 6 (fl_reap_attempts m) (lim_reap (fl_limits m)) \<and>
     counter_ok (stage (fl_state m)) 7 (fl_diagnostic_attempts m) (lim_diagnostics (fl_limits m)) \<and>
     counter_ok (stage (fl_state m)) 9 (fl_release_attempts m) (lim_release (fl_limits m))"

lemma saturating_Suc_le [simp]: "n < l \<Longrightarrow> saturating_add n 1 \<le> l" for n l :: u8
  using unat_saturating_Suc [of n l] by (simp add: word_le_nat_alt word_less_nat_alt)

lemma counter_ok_simps [simp]:
  "s < at \<Longrightarrow> counter_ok s at n l \<longleftrightarrow> n = 0 \<and> l \<noteq> 0"
  "counter_ok at at n l \<longleftrightarrow> n < l"
  "at < s \<Longrightarrow> counter_ok s at n l \<longleftrightarrow> n \<le> l"
  by (auto simp: counter_ok_def word_neq_0_conv)

lemma attempts_step:
  assumes "ff_trans m a m'" "pending_ok m" "attempts_ok m"
  shows "attempts_ok m'"
  using assms(1)
  by (cases rule: ff_trans.cases)
    (use assms(2,3) in \<open>auto simp: attempts_ok_def pending_ok_def word_neq_0_conv less_imp_le
      dest!: diag_nextD\<close>)

lemma ff_trans_limits: "ff_trans m a m' \<Longrightarrow> fl_limits m' = fl_limits m"
  by (cases rule: ff_trans.cases) auto

definition remaining :: "u8 \<Rightarrow> u8 \<Rightarrow> nat" where
  "remaining limit n = unat limit - unat n"

definition ff_rank :: "FfmpegLifecycleV2 \<Rightarrow> nat" where
  "ff_rank m = (10 - stage (fl_state m)) +
     remaining (lim_force_kill (fl_limits m)) (fl_force_kill_attempts m) +
     remaining (lim_reap (fl_limits m)) (fl_reap_attempts m) +
     remaining (lim_diagnostics (fl_limits m)) (fl_diagnostic_attempts m) +
     remaining (lim_release (fl_limits m)) (fl_release_attempts m)"

lemma remaining_next [simp]: "n < l \<Longrightarrow> remaining l n = Suc (remaining l (saturating_add n 1))"
  using unat_saturating_Suc [of n l] by (simp add: remaining_def word_less_nat_alt)

definition observation_only :: "FfmpegLifecycleV2 \<Rightarrow> FfmpegLifecycleActionV2 \<Rightarrow> bool" where
  "observation_only m a \<longleftrightarrow>
     a = V2Cancel \<and> \<not> (fl_state m = V2Prepared \<or> fl_state m = V2Running) \<or>
     a = V2ChildExitObserved \<and> fl_state m \<notin> {V2Running, V2GracefulExitPending}"

lemma rank_step:
  assumes "ff_trans m a m'" "pending_ok m" "attempts_ok m"
  shows "ff_rank m' \<le> ff_rank m" "\<not> observation_only m a \<Longrightarrow> ff_rank m' < ff_rank m"
proof -
  have "ff_rank m' < ff_rank m \<or> observation_only m a \<and> ff_rank m' = ff_rank m"
    using assms(1)
    by (cases rule: ff_trans.cases)
      (use assms(2,3) in \<open>auto simp: attempts_ok_def pending_ok_def ff_rank_def observation_only_def
         dest!: diag_nextD split: option.splits\<close>)
  then show "ff_rank m' \<le> ff_rank m" "\<not> observation_only m a \<Longrightarrow> ff_rank m' < ff_rank m"
    by auto
qed

section \<open>The trace\<close>

definition issued_requests :: "FfmpegLifecycleTransitionV2 list \<Rightarrow> FfmpegEffectRequestV2 list" where
  "issued_requests tr = List.map_filter ft_issued tr"

fun completed_request :: "FfmpegLifecycleActionV2 \<Rightarrow> FfmpegEffectRequestV2 option" where
  "completed_request (V2EffectCompleted r _) = Some r"
| "completed_request _ = None"

definition completed_requests :: "FfmpegLifecycleTransitionV2 list \<Rightarrow> FfmpegEffectRequestV2 list" where
  "completed_requests tr = List.map_filter (completed_request \<circ> ft_action) tr"

fun chained :: "FfmpegLifecycleStateV2 \<Rightarrow> FfmpegLifecycleTransitionV2 list \<Rightarrow> FfmpegLifecycleStateV2 \<Rightarrow> bool" where
  "chained s [] t \<longleftrightarrow> s = t"
| "chained s (e # es) t \<longleftrightarrow> ft_previous e = s \<and> chained (ft_next e) es t"

definition correlated :: "FfmpegLifecycleV2 \<Rightarrow> bool" where
  "correlated m \<longleftrightarrow> issued_requests (fl_trace m) = completed_requests (fl_trace m) @
       (case fl_pending m of None \<Rightarrow> [] | Some r \<Rightarrow> [r])"

definition numbered :: "FfmpegLifecycleV2 \<Rightarrow> bool" where
  "numbered m \<longleftrightarrow> 0 < unat (fl_next_generation m) \<and>
     map (unat \<circ> er_generation) (issued_requests (fl_trace m)) = [1 ..< unat (fl_next_generation m)] \<and>
     (\<forall>r \<in> set (issued_requests (fl_trace m)). er_instance_id r = fl_instance_id m)"

definition trace_ok :: "FfmpegLifecycleV2 \<Rightarrow> bool" where
  "trace_ok m \<longleftrightarrow>
     length (fl_trace m) \<le> fl_trace_limit m \<and>
     chained V2Prepared (fl_trace m) (fl_state m) \<and> correlated m \<and> numbered m"

lemma requests_append [simp]:
  "issued_requests (xs @ ys) = issued_requests xs @ issued_requests ys"
  "completed_requests (xs @ ys) = completed_requests xs @ completed_requests ys"
  by (simp_all add: issued_requests_def completed_requests_def List.map_filter_def)

lemma requests_single [simp]:
  "issued_requests [e] = (case ft_issued e of None \<Rightarrow> [] | Some r \<Rightarrow> [r])"
  "completed_requests [e] = (case completed_request (ft_action e) of None \<Rightarrow> [] | Some r \<Rightarrow> [r])"
  by (auto simp: issued_requests_def completed_requests_def List.map_filter_simps split: option.splits)

lemma chained_append [simp]:
  "chained s (es @ [e]) t \<longleftrightarrow> chained s es (ft_previous e) \<and> ft_next e = t"
  by (induction es arbitrary: s) auto

lemma trace_emit:
  assumes "trace_ok m" "within_budget m (emit m1 a n eo)" "completed_request a = fl_pending m"
    and "fl_trace m1 = fl_trace m" "fl_trace_limit m1 = fl_trace_limit m" "fl_state m1 = fl_state m"
    and "fl_next_generation m1 = fl_next_generation m" "fl_instance_id m1 = fl_instance_id m"
  shows "trace_ok (emit m1 a n eo)"
proof -
  have "numbered (emit m1 a n eo)"
  proof (cases eo)
    case None
    with assms(1,4,7,8) show ?thesis by (simp add: trace_ok_def numbered_def)
  next
    case (Some e)
    with assms(2,7) have "unat (fl_next_generation m + 1) = Suc (unat (fl_next_generation m))"
      by (simp add: within_budget_emit)
    with assms(1,4,7,8) Some show ?thesis by (simp add: trace_ok_def numbered_def)
  qed
  moreover have "correlated (emit m1 a n eo)"
    using assms(1,3,4) by (cases eo) (simp_all add: trace_ok_def correlated_def)
  ultimately show ?thesis
    using assms(1,2,4,5,6) by (simp add: trace_ok_def within_budget_def)
qed

lemma trace_observe:
  assumes "trace_ok m" "within_budget m m'" "completed_request a = None"
    and "fl_trace m1 = fl_trace m" "fl_trace_limit m1 = fl_trace_limit m" "fl_state m1 = fl_state m"
    and "fl_next_generation m1 = fl_next_generation m" "fl_instance_id m1 = fl_instance_id m"
    and "fl_pending m1 = fl_pending m"
  shows "trace_ok (observe_only m1 a)"
proof -
  have "numbered (observe_only m1 a)"
    using assms(1,4,7,8) by (simp add: trace_ok_def numbered_def)
  moreover have "correlated (observe_only m1 a)"
    using assms(1,3,4,9) by (simp add: trace_ok_def correlated_def)
  ultimately show ?thesis
    using assms(1,2,4,5,6) by (simp add: trace_ok_def within_budget_def)
qed

lemma trace_step:
  assumes "ff_trans m a m'" "within_budget m m'" "pending_ok m" "trace_ok m"
  shows "trace_ok m'"
  using assms(1)
  by (cases rule: ff_trans.cases; insert assms(2,3); hypsubst)
    ((rule trace_emit [OF assms(4)] | rule trace_observe [OF assms(4)]; assumption?);
      simp add: pending_ok_def split: option.splits)+

section \<open>The invariant of every run\<close>

definition ff_inv :: "FfmpegLifecycleV2 \<Rightarrow> bool" where
  "ff_inv m \<longleftrightarrow> pending_ok m \<and> phase_ok m \<and> attempts_ok m \<and> trace_ok m"

lemma ff_invD:
  assumes "ff_inv m"
  shows "pending_ok m" "phase_ok m" "attempts_ok m" "trace_ok m"
  using assms by (simp_all add: ff_inv_def)

lemma ff_step_cases:
  obtains (accepted) tr where "ff_call m a = (ff_step m a, Inr tr)"
      "ff_trans m a (ff_step m a)" "within_budget m (ff_step m a)"
  | (rejected) e where "ff_call m a = (m, Inl e)" "ff_step m a = m"
proof (cases "snd (ff_call m a)")
  case (Inl e)
  then have "ff_call m a = (ff_step m a, Inl e)" by (simp add: ff_step_def prod_eq_iff)
  with ff_call_rejected [OF this] show thesis by (simp add: rejected)
next
  case (Inr tr)
  then have "ff_call m a = (ff_step m a, Inr tr)" by (simp add: ff_step_def prod_eq_iff)
  with ff_call_accepted [OF this] show thesis by (simp add: accepted)
qed

lemma ff_inv_step: "ff_inv m \<Longrightarrow> ff_inv (ff_step m a)"
  by (cases rule: ff_step_cases [of m a])
    (auto simp: ff_inv_def intro: pending_step phase_step attempts_step trace_step)

definition ff_productive :: "FfmpegLifecycleV2 \<Rightarrow> FfmpegLifecycleActionV2 \<Rightarrow> bool" where
  "ff_productive m a = (is_ok (snd (ff_call m a)) \<and> \<not> observation_only m a)"

lemma ff_rank_step:
  assumes "ff_inv m"
  shows "ff_rank (ff_step m a) \<le> ff_rank m"
    and "ff_productive m a \<Longrightarrow> ff_rank (ff_step m a) < ff_rank m"
  using rank_step [OF _ ff_invD(1,3) [OF assms], of a "ff_step m a"]
  by (cases rule: ff_step_cases [of m a], simp_all add: ff_productive_def)+

interpretation ffmpeg: ranked_system ff_step ff_inv ff_rank ff_productive
  by unfold_locales (simp_all add: ff_inv_step ff_rank_step)

lemma ff_inv_new:
  assumes "ffmpeg_limits_new k r d l = Some limits"
  shows "ff_inv (ffmpeg_new i limits n)"
  using assms
  by (auto simp: ff_inv_def ffmpeg_new_def ffmpeg_limits_new_def pending_ok_def phase_ok_def
      untouched_def attempts_ok_def trace_ok_def correlated_def numbered_def issued_requests_def
      completed_requests_def List.map_filter_simps split: if_splits)

lemmas ff_inv_run = ffmpeg.inv_run [OF ff_inv_new]

section \<open>Safety\<close>

text \<open>
  C5: A run of the FFmpeg lifecycle ends in Exited only when the child was spawned and reaped
  with exit code zero, its diagnostics were preserved, its output was validated and the
  resources were released, with no cancellation, failure or unproven cleanup.
\<close>

theorem ffmpeg_exited_sound:
  assumes "ffmpeg_limits_new k r d l = Some limits"
    and "m = ff_run (ffmpeg_new i limits n) as"
    and "fl_state m = V2Exited"
  shows "fl_child_spawned m = Present \<and> fl_reaped m = Some (ExitCode 0) \<and>
    fl_diagnostics_preserved m = Present \<and> output_validated m \<and>
    fl_resources_released m = Present \<and> fl_failure m = None \<and>
    fl_cancellation_requested m = Absent \<and> fl_cleanup_unproven m = Absent"
  using ff_invD(2) [OF ff_inv_run [OF assms(1), of i n as]] assms(2,3)
  by (simp add: phase_ok_def)

text \<open>
  C6: No effect of the FFmpeg lifecycle touches a child that is not there: while a stop, kill
  or reap request is pending the child was spawned and has not been reaped, so no reaped
  process identity is ever signalled; resources are released, or their release requested, only
  when the child was never spawned or has been reaped, and never after cleanup could not be
  proven.
\<close>

theorem ffmpeg_effect_safety:
  assumes "ffmpeg_limits_new k r d l = Some limits"
    and "m = ff_run (ffmpeg_new i limits n) as"
  shows "(map_option er_effect (fl_pending m) \<in>
        {Some V2RequestGracefulStop, Some V2ForceKillProcessTree, Some V2ReapDirectChild} \<longrightarrow>
        fl_child_spawned m = Present \<and> fl_reaped m = None) \<and>
    (map_option er_effect (fl_pending m) = Some V2ReleaseResources \<or>
        fl_resources_released m = Present \<longrightarrow>
        fl_cleanup_unproven m = Absent \<and> (fl_child_spawned m = Absent \<or> fl_reaped m \<noteq> None))"
  using ff_invD(1,2) [OF ff_inv_run [OF assms(1), of i n as]] assms(2)
  by (auto simp: phase_ok_def pending_ok_def untouched_def split: FfmpegLifecycleStateV2.splits)

text \<open>
  Terminal states of the FFmpeg lifecycle report what happened: a requested cancellation
  always ends in Cancelled and only it does, Failed carries a failure, and Exited has none.
\<close>

theorem ffmpeg_terminal_outcome:
  assumes "ffmpeg_limits_new k r d l = Some limits"
    and "m = ff_run (ffmpeg_new i limits n) as"
    and "ff_is_terminal m"
  shows "fl_state m = (if fl_cancellation_requested m = Present then V2Cancelled
                       else if fl_failure m = None then V2Exited else V2Failed)"
  using ff_invD(2) [OF ff_inv_run [OF assms(1), of i n as]] assms(2,3)
  by (auto simp: phase_ok_def ff_is_terminal_def)

text \<open>
  Effect correlation of the FFmpeg lifecycle: along every run the recorded trace is a
  chain from Prepared to the current state within its limit, the requests it issued carry the
  machine's identity and the generations 1, 2, 3, ... without gap or repetition, and they
  are exactly the completed requests in order followed by the pending one.
\<close>

theorem ffmpeg_effects_correlated:
  assumes "ffmpeg_limits_new k r d l = Some limits"
    and "m = ff_run (ffmpeg_new i limits n) as"
  shows "chained V2Prepared (fl_trace m) (fl_state m) \<and> length (fl_trace m) \<le> fl_trace_limit m \<and>
    issued_requests (fl_trace m) = completed_requests (fl_trace m) @
      (case fl_pending m of None \<Rightarrow> [] | Some r \<Rightarrow> [r]) \<and>
    map (unat \<circ> er_generation) (issued_requests (fl_trace m)) = [1 ..< unat (fl_next_generation m)] \<and>
    list_all (\<lambda>r. er_instance_id r = fl_instance_id m) (issued_requests (fl_trace m))"
  using ff_invD(4) [OF ff_inv_run [OF assms(1), of i n as]]
  unfolding assms(2) [symmetric] trace_ok_def correlated_def numbered_def list_all_iff by blast

text \<open>
  Atomicity of the FFmpeg lifecycle: a call that returns an error leaves the machine as it
  was, and a completion that is not for the pending request is always such an error.
\<close>

theorem ffmpeg_rejection_atomic:
  "((\<exists>tr. ff_call m a = (ff_step m a, Inr tr)) \<or> (\<exists>e. ff_call m a = (m, Inl e))) \<and>
   (fl_pending m \<noteq> Some r \<longrightarrow> ff_call m (V2EffectCompleted r outcome) =
      (m, Inl (V2UnexpectedEffectCompletion r (fl_pending m))))"
proof
  show "(\<exists>tr. ff_call m a = (ff_step m a, Inr tr)) \<or> (\<exists>e. ff_call m a = (m, Inl e))"
    by (cases rule: ff_step_cases [of m a]) auto
qed (simp add: ff_complete_effect_def)

primrec ff_productive_count :: "FfmpegLifecycleV2 \<Rightarrow> FfmpegLifecycleActionV2 list \<Rightarrow> nat" where
  "ff_productive_count m [] = 0"
| "ff_productive_count m (a # as) =
     (if ff_productive m a then 1 else 0) + ff_productive_count (ff_step m a) as"

lemma ff_productive_count_eq: "ff_productive_count m as = ffmpeg.productive_count m as"
  by (induction as arbitrary: m) simp_all

lemma ff_rank_new:
  "ff_rank (ffmpeg_new i limits n) = 10 + unat (lim_force_kill limits) + unat (lim_reap limits) +
     unat (lim_diagnostics limits) + unat (lim_release limits)"
  by (simp add: ff_rank_def ffmpeg_new_def remaining_def)

text \<open>
  Bounded work: whatever the caller does, a run of the FFmpeg lifecycle accepts at most ten
  calls plus one for each allowed attempt that are not mere observations, so its retries
  cannot go on for ever.
\<close>

theorem ffmpeg_bounded_work:
  assumes "ffmpeg_limits_new k r d l = Some limits"
  shows "ff_productive_count (ffmpeg_new i limits n) as \<le> 10 + unat k + unat r + unat d + unat l"
proof -
  have "limits = \<lparr> lim_force_kill = k, lim_reap = r, lim_diagnostics = d, lim_release = l \<rparr>"
    using assms by (auto simp: ffmpeg_limits_new_def split: if_splits)
  with ffmpeg.productive_bounded [OF ff_inv_new [OF assms, of i n], of as] show ?thesis
    by (simp add: ff_productive_count_eq ff_rank_new)
qed

section \<open>Progress\<close>

text \<open>
  An executor that answers every request with an outcome of that effect, reports the child's
  exit while it runs and lets the grace period expire.
\<close>

definition executor_action ::
    "(FfmpegEffectRequestV2 \<Rightarrow> FfmpegEffectOutcomeV2) \<Rightarrow> FfmpegLifecycleV2 \<Rightarrow> FfmpegLifecycleActionV2" where
  "executor_action answer m =
     (case fl_pending m of
        Some r \<Rightarrow> V2EffectCompleted r (answer r)
      | None \<Rightarrow> if fl_state m = V2Prepared then V2Start
                else if fl_state m = V2Running then V2ChildExitObserved
                else V2GracePeriodExpired)"

primrec execute ::
    "(FfmpegEffectRequestV2 \<Rightarrow> FfmpegEffectOutcomeV2) \<Rightarrow> nat \<Rightarrow> FfmpegLifecycleV2 \<Rightarrow> FfmpegLifecycleV2" where
  "execute answer 0 m = m"
| "execute answer (Suc fuel) m =
     (if ff_is_terminal m then m
      else execute answer fuel (ff_step m (executor_action answer m)))"

lemma commit_ok:
  assumes "length (fl_trace m) < fl_trace_limit m" "fl_next_generation m \<noteq> - 1"
  shows "ff_commit m issues k = k m"
  using assms by (simp add: ff_commit_def prepare_transition_def)


lemma record_with_effect_ok [simp]: "is_ok (snd (record_with_effect m a n e))"
  unfolding record_with_effect_def Let_def snd_conv is_ok_simps by (rule TrueI)

lemma complete_accepted:
  assumes "ff_inv m" "fl_pending m = Some r" "outcome_matches_effect (er_effect r) outcome"
    and "length (fl_trace m) < fl_trace_limit m" "fl_next_generation m \<noteq> - 1"
  shows "is_ok (snd (ff_complete_effect m r outcome))"
proof -
  note simps = ff_complete_effect_def commit_ok [OF assms(4,5)] Let_def outcome_matches_effect_def
  show ?thesis
  proof (cases "er_effect r")
    case V2SpawnProcess
    with assms(2,3) show ?thesis by (auto simp: simps complete_spawn_def)
  next
    case V2RequestGracefulStop
    with assms(2,3) show ?thesis by (simp add: simps complete_graceful_def split: prod.splits)
  next
    case V2ForceKillProcessTree
    with assms(2,3) show ?thesis by (simp add: simps complete_forced_kill_def split: prod.splits)
  next
    case V2ReapDirectChild
    with assms(2,3) show ?thesis
      by (auto simp: simps complete_reap_def
          split: prod.splits FfmpegEffectOutcomeV2.splits FfmpegReapOutcomeV2.splits)
  next
    case V2PreserveDiagnostics
    moreover from assms(1,2) this have "fl_child_spawned m = Present \<Longrightarrow>
        fl_cleanup_unproven m = Absent \<Longrightarrow> fl_reaped m \<noteq> None"
      by (auto simp: ff_inv_def pending_ok_def phase_ok_def)
    ultimately show ?thesis
      using assms(2,3) by (auto simp: simps complete_diagnostics_def split: option.splits)
  next
    case V2ValidateOutput
    with assms(2,3) show ?thesis by (auto simp: simps complete_output_validation_def)
  next
    case V2ReleaseResources
    with assms(2,3) show ?thesis by (simp add: simps complete_release_def)
  qed
qed

lemma executor_accepted:
  assumes inv: "ff_inv m" and live: "\<not> ff_is_terminal m"
    and room: "length (fl_trace m) < fl_trace_limit m" "fl_next_generation m \<noteq> - 1"
    and answers: "\<And>r. outcome_matches_effect (er_effect r) (answer r)"
  shows "ff_productive m (executor_action answer m)"
proof (cases "fl_pending m")
  case (Some r)
  with complete_accepted [OF inv Some answers room] show ?thesis
    by (simp add: executor_action_def ff_productive_def observation_only_def)
next
  case None
  with inv live have "fl_state m \<in> {V2Prepared, V2Running, V2GracefulExitPending}"
    by (cases "fl_state m") (auto simp: ff_inv_def pending_ok_def ff_is_terminal_def)
  with None show ?thesis
    by (auto simp: executor_action_def ff_productive_def observation_only_def ff_start_def
        ff_observe_child_exit_def ff_expire_grace_period_def commit_ok [OF room] Let_def)
qed

lemma ff_trans_resources:
  assumes "ff_trans m a m'"
  shows "length (fl_trace m') \<le> Suc (length (fl_trace m)) \<and> fl_trace_limit m' = fl_trace_limit m \<and>
    (fl_next_generation m' = fl_next_generation m \<or>
     fl_next_generation m' = fl_next_generation m + 1)"
  using assms by (cases rule: ff_trans.cases) (auto dest!: diag_nextD)

lemma step_resources:
  "length (fl_trace (ff_step m a)) \<le> Suc (length (fl_trace m)) \<and>
   fl_trace_limit (ff_step m a) = fl_trace_limit m \<and>
   unat (fl_next_generation (ff_step m a)) \<le> Suc (unat (fl_next_generation m))"
proof (cases rule: ff_step_cases [of m a])
  case (accepted tr)
  with ff_trans_resources [OF accepted(2)] show ?thesis
    by (auto simp: within_budget_def unat_Suc_word)
qed simp

lemma execute_terminates:
  assumes "ff_inv m" "ff_rank m \<le> fuel" "length (fl_trace m) + ff_rank m \<le> fl_trace_limit m"
    and "unat (fl_next_generation m) + ff_rank m < 2 ^ 64"
    and answers: "\<And>r. outcome_matches_effect (er_effect r) (answer r)"
  shows "ff_is_terminal (execute answer fuel m)"
  using assms(1-4)
proof (induction fuel arbitrary: m)
  case 0
  then have "stage (fl_state m) \<ge> 10" by (simp add: ff_rank_def)
  then show ?case by (cases "fl_state m") (simp_all add: ff_is_terminal_def)
next
  case (Suc fuel)
  show ?case
  proof (cases "ff_is_terminal m")
    case False
    let ?m = "ff_step m (executor_action answer m)"
    have "0 < ff_rank m"
      using False by (cases "fl_state m") (simp_all add: ff_rank_def ff_is_terminal_def)
    moreover from this have "fl_next_generation m \<noteq> - 1"
      using Suc.prems(4) by (auto simp: unsigned_minus_1_eq_mask mask_eq_exp_minus_1)
    ultimately have "ff_productive m (executor_action answer m)"
      using executor_accepted [OF Suc.prems(1) False _ _ answers] Suc.prems(3) by simp
    from ff_rank_step(2) [OF Suc.prems(1) this]
    have "ff_is_terminal (execute answer fuel ?m)"
      using Suc.prems step_resources [of m "executor_action answer m"]
      by (intro Suc.IH ff_inv_step) simp_all
    with False show ?thesis by simp
  qed simp
qed


section \<open>Witnesses\<close>

definition sample_limits :: FfmpegLifecycleLimitsV2 where
  "sample_limits = \<lparr> lim_force_kill = 2, lim_reap = 2, lim_diagnostics = 2, lim_release = 2 \<rparr>"

lemma sample_limits_new: "ffmpeg_limits_new 2 2 2 2 = Some sample_limits"
  by (simp add: ffmpeg_limits_new_def sample_limits_def)

definition sample_answer :: "FfmpegEffectRequestV2 \<Rightarrow> FfmpegEffectOutcomeV2" where
  "sample_answer r =
     (case er_effect r of
        V2SpawnProcess \<Rightarrow> Spawned
      | V2RequestGracefulStop \<Rightarrow> GracefulStopRequested
      | V2ForceKillProcessTree \<Rightarrow> ForcedKillRequested
      | V2ReapDirectChild \<Rightarrow> ReapOutcome (Reaped (ExitCode 0))
      | V2PreserveDiagnostics \<Rightarrow> DiagnosticsPreserved
      | V2ValidateOutput \<Rightarrow> OutputValidated
      | V2ReleaseResources \<Rightarrow> ResourcesReleased)"

definition effect_request :: "u64 \<Rightarrow> FfmpegEffectV2 \<Rightarrow> FfmpegEffectRequestV2" where
  "effect_request g e = \<lparr> er_instance_id = 7, er_generation = g, er_effect = e \<rparr>"

definition sample_success :: "FfmpegLifecycleActionV2 list" where
  "sample_success =
     [V2Start, V2EffectCompleted (effect_request 1 V2SpawnProcess) Spawned, V2ChildExitObserved,
      V2EffectCompleted (effect_request 2 V2ReapDirectChild) (ReapOutcome (Reaped (ExitCode 0))),
      V2EffectCompleted (effect_request 3 V2PreserveDiagnostics) DiagnosticsPreserved,
      V2EffectCompleted (effect_request 4 V2ValidateOutput) OutputValidated,
      V2EffectCompleted (effect_request 5 V2ReleaseResources) ResourcesReleased]"

lemma sample_success_state: "fl_state (ff_run (ffmpeg_new 7 sample_limits 64) sample_success) = V2Exited"
  by code_simp

definition sample_cancel :: "FfmpegLifecycleActionV2 list" where
  "sample_cancel =
     [V2Start, V2EffectCompleted (effect_request 1 V2SpawnProcess) Spawned, V2Cancel,
      V2EffectCompleted (effect_request 2 V2RequestGracefulStop) GracefulStopUnsupported]"

lemma sample_answer_matches: "outcome_matches_effect (er_effect r) (sample_answer r)"
  by (cases "er_effect r") (simp_all add: sample_answer_def outcome_matches_effect_def)

theorem ffmpeg_exited_sound_witness:
  "fl_state (ff_run (ffmpeg_new 7 sample_limits 64) sample_success) = V2Exited \<and>
   fl_reaped (ff_run (ffmpeg_new 7 sample_limits 64) sample_success) = Some (ExitCode 0) \<and>
   output_validated (ff_run (ffmpeg_new 7 sample_limits 64) sample_success)"
  using ffmpeg_exited_sound [OF sample_limits_new refl sample_success_state] sample_success_state
  by blast

lemma sample_cancel_pending:
  "fl_pending (ff_run (ffmpeg_new 7 sample_limits 64) sample_cancel) =
     Some (effect_request 3 V2ForceKillProcessTree)"
  by code_simp

theorem ffmpeg_effect_safety_witness:
  "map_option er_effect (fl_pending (ff_run (ffmpeg_new 7 sample_limits 64) sample_cancel)) =
     Some V2ForceKillProcessTree \<and>
   fl_child_spawned (ff_run (ffmpeg_new 7 sample_limits 64) sample_cancel) = Present \<and>
   fl_reaped (ff_run (ffmpeg_new 7 sample_limits 64) sample_cancel) = None"
  using ffmpeg_effect_safety [OF sample_limits_new refl, of 7 64 sample_cancel]
  unfolding sample_cancel_pending by (simp add: effect_request_def)

theorem ffmpeg_terminal_outcome_witness:
  "ff_is_terminal (ff_run (ffmpeg_new 7 sample_limits 64) [V2Cancel,
     V2EffectCompleted (effect_request 1 V2ReleaseResources) ResourcesReleased]) \<and>
   fl_state (ff_run (ffmpeg_new 7 sample_limits 64) [V2Cancel,
     V2EffectCompleted (effect_request 1 V2ReleaseResources) ResourcesReleased]) = V2Cancelled"
proof -
  let ?m = "ff_run (ffmpeg_new 7 sample_limits 64) [V2Cancel,
     V2EffectCompleted (effect_request 1 V2ReleaseResources) ResourcesReleased]"
  have terminal: "ff_is_terminal ?m" and "fl_cancellation_requested ?m = Present"
    by code_simp+
  with ffmpeg_terminal_outcome [OF sample_limits_new refl terminal] show ?thesis by simp
qed

theorem ffmpeg_effects_correlated_witness:
  "issued_requests (fl_trace (ff_run (ffmpeg_new 7 sample_limits 64) sample_cancel)) =
     completed_requests (fl_trace (ff_run (ffmpeg_new 7 sample_limits 64) sample_cancel)) @
       [effect_request 3 V2ForceKillProcessTree]"
  using ffmpeg_effects_correlated [OF sample_limits_new refl, of 7 64 sample_cancel]
  unfolding sample_cancel_pending by simp

theorem ffmpeg_rejection_atomic_witness:
  "ff_call (ffmpeg_new 7 sample_limits 64) (V2EffectCompleted (effect_request 1 V2SpawnProcess) Spawned) =
     (ffmpeg_new 7 sample_limits 64,
      Inl (V2UnexpectedEffectCompletion (effect_request 1 V2SpawnProcess) None))"
  using ffmpeg_rejection_atomic [of "ffmpeg_new 7 sample_limits 64" V2Start
      "effect_request 1 V2SpawnProcess" Spawned]
  by (simp add: ffmpeg_new_def)

theorem ffmpeg_bounded_work_witness:
  "ff_productive_count (ffmpeg_new 7 sample_limits 64) sample_success \<le> 18"
  using ffmpeg_bounded_work [OF sample_limits_new, of 7 64 sample_success] by simp


end
