(* ===== verification/Resource_Contract.thy ===== *)
theory Resource_Contract
  imports Storage_Contract
begin

text \<open>
  The resource-vector and byte-credit contracts of
  \<^verbatim>\<open>product/crates/fforager-contracts/src/resource.rs\<close>. A resource vector has thirteen dimensions
  of 32 or 64 bits; \<open>amount\<close> reads one of them as a natural number. The locale \<open>metered\<close> states
  what the ledgers need of a quantity with checked addition, checked subtraction and a bound
  (each is exact in every dimension, or refused); it is interpreted on resource vectors and on
  plain byte counts.
\<close>

section \<open>Quantities with checked arithmetic\<close>

text \<open>\<open>Iterator::try_fold\<close> with an operation that may refuse.\<close>

fun try_fold :: "('a \<Rightarrow> 'b \<Rightarrow> 'a option) \<Rightarrow> 'a \<Rightarrow> 'b list \<Rightarrow> 'a option" where
  "try_fold f acc [] = Some acc"
| "try_fold f acc (x # xs) = (case f acc x of None \<Rightarrow> None | Some acc' \<Rightarrow> try_fold f acc' xs)"

locale metered =
  fixes zero :: 'v
    and add :: "'v \<Rightarrow> 'v \<Rightarrow> 'v option"
    and sub :: "'v \<Rightarrow> 'v \<Rightarrow> 'v option"
    and fits :: "'v \<Rightarrow> 'v \<Rightarrow> bool"
    and amount_of :: "'v \<Rightarrow> 'd \<Rightarrow> nat"
  assumes amount_zero: "amount_of zero d = 0"
    and amount_inject: "(\<And>d. amount_of a d = amount_of b d) \<Longrightarrow> a = b"
    and add_iff: "add a b = Some c \<longleftrightarrow> (\<forall>d. amount_of c d = amount_of a d + amount_of b d)"
    and sub_iff: "sub a b = Some c \<longleftrightarrow> (\<forall>d. amount_of a d = amount_of c d + amount_of b d)"
    and fits_iff: "fits a b \<longleftrightarrow> (\<forall>d. amount_of a d \<le> amount_of b d)"
    and sub_None: "sub a b = None \<Longrightarrow> \<exists>d. amount_of a d < amount_of b d"
    and add_below: "(\<And>d. amount_of a d + amount_of b d \<le> amount_of c d) \<Longrightarrow> \<exists>s. add a b = Some s"
begin

lemma sum_sound:
  "try_fold add acc xs = Some s \<Longrightarrow>
     amount_of s d = amount_of acc d + sum_list (map (\<lambda>x. amount_of x d) xs)"
  by (induction xs arbitrary: acc) (auto simp: add_iff split: option.splits)

text \<open>A recomputed sum agrees with the running total whenever the total is itself a value.\<close>

lemma sum_complete:
  "(\<And>d. amount_of s d = amount_of acc d + sum_list (map (\<lambda>x. amount_of x d) xs)) \<Longrightarrow>
     try_fold add acc xs = Some s"
proof (induction xs arbitrary: acc)
  case Nil
  then show ?case by (auto intro!: amount_inject)
next
  case (Cons x xs)
  obtain acc' where acc': "add acc x = Some acc'"
    using add_below [of acc x s] Cons.prems by auto
  then have "amount_of acc' d = amount_of acc d + amount_of x d" for d
    by (simp add: add_iff)
  with Cons.prems have "try_fold add acc' xs = Some s"
    by (intro Cons.IH) simp
  with acc' show ?case by simp
qed

lemma sub_total: "(\<And>d. amount_of t d = amount_of x d + r d) \<Longrightarrow>
    \<exists>u. sub t x = Some u \<and> (\<forall>d. amount_of u d = r d)"
  by (metis add.commute add_left_cancel le_add1 not_less option.exhaust sub_None sub_iff)

lemma fits_trans: "fits a b \<Longrightarrow> fits b c \<Longrightarrow> fits a c"
  by (meson fits_iff le_trans)

lemma add_zero: "add zero a = Some a"
  by (simp add: add_iff amount_zero)

lemma sub_fits: "sub a b = Some c \<Longrightarrow> fits c a"
  by (simp add: sub_iff fits_iff)

end

interpretation bytes: metered "0 :: u64" checked_add checked_sub "(\<le>)" "\<lambda>v (_ :: unit). unat v"
proof unfold_locales
  fix a b c :: u64
  show "checked_sub a b = None \<Longrightarrow> \<exists>d :: unit. unat a < unat b"
    by (simp add: checked_sub_eq_None_iff word_less_nat_alt)
  show "\<exists>s. checked_add a b = Some s" if "\<And>d :: unit. unat a + unat b \<le> unat c"
    by (rule checked_add_below [OF that])
qed (simp_all add: checked_add_eq_Some_iff checked_sub_eq_Some_iff unat_eq_iff word_le_nat_alt)

section \<open>Resource vectors\<close>

record ResourceVector =
  metadata_requests :: u32
  media_requests :: u32
  memory_bytes :: u64
  disk_read_bytes_in_flight :: u64
  disk_write_bytes_in_flight :: u64
  open_handles :: u32
  cpu_light_slots :: u32
  cpu_heavy_slots :: u32
  javascript_workers :: u32
  ffmpeg_processes :: u32
  ffmpeg_cpu_threads :: u32
  archive_writer_slots :: u32
  sink_bytes :: u64

definition rv_default :: ResourceVector where
  "rv_default =
     \<lparr> metadata_requests = 0, media_requests = 0, memory_bytes = 0,
       disk_read_bytes_in_flight = 0, disk_write_bytes_in_flight = 0,
       open_handles = 0, cpu_light_slots = 0, cpu_heavy_slots = 0, javascript_workers = 0,
       ffmpeg_processes = 0, ffmpeg_cpu_threads = 0, archive_writer_slots = 0, sink_bytes = 0 \<rparr>"

definition rv_checked_add :: "ResourceVector \<Rightarrow> ResourceVector \<Rightarrow> ResourceVector option" where
  "rv_checked_add self rhs =
     Option.bind (checked_add (metadata_requests self) (metadata_requests rhs)) (\<lambda>v0.
     Option.bind (checked_add (media_requests self) (media_requests rhs)) (\<lambda>v1.
     Option.bind (checked_add (memory_bytes self) (memory_bytes rhs)) (\<lambda>v2.
     Option.bind (checked_add (disk_read_bytes_in_flight self) (disk_read_bytes_in_flight rhs)) (\<lambda>v3.
     Option.bind (checked_add (disk_write_bytes_in_flight self) (disk_write_bytes_in_flight rhs)) (\<lambda>v4.
     Option.bind (checked_add (open_handles self) (open_handles rhs)) (\<lambda>v5.
     Option.bind (checked_add (cpu_light_slots self) (cpu_light_slots rhs)) (\<lambda>v6.
     Option.bind (checked_add (cpu_heavy_slots self) (cpu_heavy_slots rhs)) (\<lambda>v7.
     Option.bind (checked_add (javascript_workers self) (javascript_workers rhs)) (\<lambda>v8.
     Option.bind (checked_add (ffmpeg_processes self) (ffmpeg_processes rhs)) (\<lambda>v9.
     Option.bind (checked_add (ffmpeg_cpu_threads self) (ffmpeg_cpu_threads rhs)) (\<lambda>v10.
     Option.bind (checked_add (archive_writer_slots self) (archive_writer_slots rhs)) (\<lambda>v11.
     Option.bind (checked_add (sink_bytes self) (sink_bytes rhs)) (\<lambda>v12.
     Some \<lparr> metadata_requests = v0,
            media_requests = v1,
            memory_bytes = v2,
            disk_read_bytes_in_flight = v3,
            disk_write_bytes_in_flight = v4,
            open_handles = v5,
            cpu_light_slots = v6,
            cpu_heavy_slots = v7,
            javascript_workers = v8,
            ffmpeg_processes = v9,
            ffmpeg_cpu_threads = v10,
            archive_writer_slots = v11,
            sink_bytes = v12 \<rparr>)))))))))))))"

definition rv_checked_sub :: "ResourceVector \<Rightarrow> ResourceVector \<Rightarrow> ResourceVector option" where
  "rv_checked_sub self rhs =
     Option.bind (checked_sub (metadata_requests self) (metadata_requests rhs)) (\<lambda>v0.
     Option.bind (checked_sub (media_requests self) (media_requests rhs)) (\<lambda>v1.
     Option.bind (checked_sub (memory_bytes self) (memory_bytes rhs)) (\<lambda>v2.
     Option.bind (checked_sub (disk_read_bytes_in_flight self) (disk_read_bytes_in_flight rhs)) (\<lambda>v3.
     Option.bind (checked_sub (disk_write_bytes_in_flight self) (disk_write_bytes_in_flight rhs)) (\<lambda>v4.
     Option.bind (checked_sub (open_handles self) (open_handles rhs)) (\<lambda>v5.
     Option.bind (checked_sub (cpu_light_slots self) (cpu_light_slots rhs)) (\<lambda>v6.
     Option.bind (checked_sub (cpu_heavy_slots self) (cpu_heavy_slots rhs)) (\<lambda>v7.
     Option.bind (checked_sub (javascript_workers self) (javascript_workers rhs)) (\<lambda>v8.
     Option.bind (checked_sub (ffmpeg_processes self) (ffmpeg_processes rhs)) (\<lambda>v9.
     Option.bind (checked_sub (ffmpeg_cpu_threads self) (ffmpeg_cpu_threads rhs)) (\<lambda>v10.
     Option.bind (checked_sub (archive_writer_slots self) (archive_writer_slots rhs)) (\<lambda>v11.
     Option.bind (checked_sub (sink_bytes self) (sink_bytes rhs)) (\<lambda>v12.
     Some \<lparr> metadata_requests = v0,
            media_requests = v1,
            memory_bytes = v2,
            disk_read_bytes_in_flight = v3,
            disk_write_bytes_in_flight = v4,
            open_handles = v5,
            cpu_light_slots = v6,
            cpu_heavy_slots = v7,
            javascript_workers = v8,
            ffmpeg_processes = v9,
            ffmpeg_cpu_threads = v10,
            archive_writer_slots = v11,
            sink_bytes = v12 \<rparr>)))))))))))))"

definition fits_within :: "ResourceVector \<Rightarrow> ResourceVector \<Rightarrow> bool" where
  "fits_within self capacity \<longleftrightarrow>
     metadata_requests self \<le> metadata_requests capacity \<and>
     media_requests self \<le> media_requests capacity \<and>
     memory_bytes self \<le> memory_bytes capacity \<and>
     disk_read_bytes_in_flight self \<le> disk_read_bytes_in_flight capacity \<and>
     disk_write_bytes_in_flight self \<le> disk_write_bytes_in_flight capacity \<and>
     open_handles self \<le> open_handles capacity \<and>
     cpu_light_slots self \<le> cpu_light_slots capacity \<and>
     cpu_heavy_slots self \<le> cpu_heavy_slots capacity \<and>
     javascript_workers self \<le> javascript_workers capacity \<and>
     ffmpeg_processes self \<le> ffmpeg_processes capacity \<and>
     ffmpeg_cpu_threads self \<le> ffmpeg_cpu_threads capacity \<and>
     archive_writer_slots self \<le> archive_writer_slots capacity \<and>
     sink_bytes self \<le> sink_bytes capacity"

definition declared_variable_bytes :: "ResourceVector \<Rightarrow> u64 option" where
  "declared_variable_bytes self =
     Option.bind (checked_add (memory_bytes self) (disk_read_bytes_in_flight self)) (\<lambda>a.
     Option.bind (checked_add a (disk_write_bytes_in_flight self)) (\<lambda>b.
     checked_add b (sink_bytes self)))"

datatype dimension =
    Dim_metadata_requests
  | Dim_media_requests
  | Dim_memory_bytes
  | Dim_disk_read_bytes_in_flight
  | Dim_disk_write_bytes_in_flight
  | Dim_open_handles
  | Dim_cpu_light_slots
  | Dim_cpu_heavy_slots
  | Dim_javascript_workers
  | Dim_ffmpeg_processes
  | Dim_ffmpeg_cpu_threads
  | Dim_archive_writer_slots
  | Dim_sink_bytes

fun amount :: "ResourceVector \<Rightarrow> dimension \<Rightarrow> nat" where
  "amount v Dim_metadata_requests = unat (metadata_requests v)"
| "amount v Dim_media_requests = unat (media_requests v)"
| "amount v Dim_memory_bytes = unat (memory_bytes v)"
| "amount v Dim_disk_read_bytes_in_flight = unat (disk_read_bytes_in_flight v)"
| "amount v Dim_disk_write_bytes_in_flight = unat (disk_write_bytes_in_flight v)"
| "amount v Dim_open_handles = unat (open_handles v)"
| "amount v Dim_cpu_light_slots = unat (cpu_light_slots v)"
| "amount v Dim_cpu_heavy_slots = unat (cpu_heavy_slots v)"
| "amount v Dim_javascript_workers = unat (javascript_workers v)"
| "amount v Dim_ffmpeg_processes = unat (ffmpeg_processes v)"
| "amount v Dim_ffmpeg_cpu_threads = unat (ffmpeg_cpu_threads v)"
| "amount v Dim_archive_writer_slots = unat (archive_writer_slots v)"
| "amount v Dim_sink_bytes = unat (sink_bytes v)"

lemma all_dimension: "(\<forall>d. P d) \<longleftrightarrow>
   P Dim_metadata_requests \<and>
   P Dim_media_requests \<and>
   P Dim_memory_bytes \<and>
   P Dim_disk_read_bytes_in_flight \<and>
   P Dim_disk_write_bytes_in_flight \<and>
   P Dim_open_handles \<and>
   P Dim_cpu_light_slots \<and>
   P Dim_cpu_heavy_slots \<and>
   P Dim_javascript_workers \<and>
   P Dim_ffmpeg_processes \<and>
   P Dim_ffmpeg_cpu_threads \<and>
   P Dim_archive_writer_slots \<and>
   P Dim_sink_bytes"
proof
  assume *: "P Dim_metadata_requests \<and>
   P Dim_media_requests \<and>
   P Dim_memory_bytes \<and>
   P Dim_disk_read_bytes_in_flight \<and>
   P Dim_disk_write_bytes_in_flight \<and>
   P Dim_open_handles \<and>
   P Dim_cpu_light_slots \<and>
   P Dim_cpu_heavy_slots \<and>
   P Dim_javascript_workers \<and>
   P Dim_ffmpeg_processes \<and>
   P Dim_ffmpeg_cpu_threads \<and>
   P Dim_archive_writer_slots \<and>
   P Dim_sink_bytes"
  show "\<forall>d. P d"
  proof
    fix d show "P d" using * by (cases d) simp_all
  qed
qed simp

lemma amount_inject: "(\<And>d. amount a d = amount b d) \<Longrightarrow> a = b" for a b :: ResourceVector
proof -
  assume "\<And>d. amount a d = amount b d"
  then have "\<forall>d. amount a d = amount b d" by simp
  then show "a = b" unfolding all_dimension by (simp add: unat_eq_iff)
qed

lemma rv_checked_add_iff:
  "rv_checked_add a b = Some c \<longleftrightarrow> (\<forall>d. amount c d = amount a d + amount b d)"
  unfolding all_dimension
  by (cases c) (auto simp: rv_checked_add_def bind_eq_Some_conv checked_add_eq_Some_iff)

lemma rv_checked_sub_iff:
  "rv_checked_sub a b = Some c \<longleftrightarrow> (\<forall>d. amount a d = amount c d + amount b d)"
  unfolding all_dimension
  by (cases c) (auto simp: rv_checked_sub_def bind_eq_Some_conv checked_sub_eq_Some_iff)

lemma fits_within_iff: "fits_within a b \<longleftrightarrow> (\<forall>d. amount a d \<le> amount b d)"
  unfolding all_dimension by (simp add: fits_within_def word_le_nat_alt)

lemma rv_checked_sub_None: "rv_checked_sub a b = None \<Longrightarrow> \<exists>d. amount a d < amount b d"
proof (rule ccontr)
  assume "rv_checked_sub a b = None" and "\<nexists>d. amount a d < amount b d"
  then have none: "rv_checked_sub a b = None" and le: "fits_within b a"
    by (auto simp: fits_within_iff not_less)
  from le none show False
    by (simp add: fits_within_def rv_checked_sub_def checked_sub_def)
qed

lemma rv_checked_add_below:
  assumes "\<And>d. amount a d + amount b d \<le> amount c d"
  shows "\<exists>s. rv_checked_add a b = Some s"
proof -
  have "\<forall>d. amount a d + amount b d \<le> amount c d" using assms by blast
  then show ?thesis
    unfolding all_dimension amount.simps rv_checked_add_def
    by (elim conjE) ((drule checked_add_below, elim exE)+, simp)
qed

interpretation rv: metered rv_default rv_checked_add rv_checked_sub fits_within amount
proof unfold_locales
  fix d show "amount rv_default d = 0" by (cases d) (simp_all add: rv_default_def)
qed (blast intro: amount_inject rv_checked_add_below rv_checked_sub_None |
    rule rv_checked_add_iff rv_checked_sub_iff fits_within_iff)+

lemma declared_variable_bytes_iff:
  "declared_variable_bytes v = Some n \<longleftrightarrow>
     unat n = unat (memory_bytes v) + unat (disk_read_bytes_in_flight v) +
       unat (disk_write_bytes_in_flight v) + unat (sink_bytes v)"
proof
  assume "declared_variable_bytes v = Some n"
  then show "unat n = unat (memory_bytes v) + unat (disk_read_bytes_in_flight v) +
       unat (disk_write_bytes_in_flight v) + unat (sink_bytes v)"
    by (auto simp: declared_variable_bytes_def bind_eq_Some_conv checked_add_eq_Some_iff)
next
  assume sum: "unat n = unat (memory_bytes v) + unat (disk_read_bytes_in_flight v) +
       unat (disk_write_bytes_in_flight v) + unat (sink_bytes v)"
  with unat_bound [of n] have
    "unat (memory_bytes v) + unat (disk_read_bytes_in_flight v) < 2 ^ LENGTH(64)"
    "unat (memory_bytes v) + unat (disk_read_bytes_in_flight v) +
       unat (disk_write_bytes_in_flight v) < 2 ^ LENGTH(64)"
    "unat (memory_bytes v) + unat (disk_read_bytes_in_flight v) +
       unat (disk_write_bytes_in_flight v) + unat (sink_bytes v) < 2 ^ LENGTH(64)" by simp_all
  with sum show "declared_variable_bytes v = Some n"
    by (simp add: declared_variable_bytes_def checked_add_def unat_sum_word
        flip: unat_eq_iff)
qed

section \<open>The resource contract\<close>

datatype ResourceGrantRule = CompleteCheckedVectorOrNothing

datatype ResourceFairnessPolicy =
  StrictFifoHeadReservationV1WithDeterministicPerOwnerActiveCeiling

datatype LeaseOwnershipPolicy = NonCloneOwnedDropOrExplicitRelease

datatype QueueCancellationPolicy = RemoveExactWaiterThenDispatchHead

record ResourceContractV1 =
  rc_schema_id :: string
  rc_version :: SchemaVersion
  rc_capacity :: ResourceVector
  rc_max_active_grants :: u64
  rc_max_active_per_owner :: u64
  rc_max_waiter_items :: u64
  rc_max_waiter_declared_variable_bytes :: u64
  rc_grant_rule :: ResourceGrantRule
  rc_fairness_policy :: ResourceFairnessPolicy
  rc_ownership_policy :: LeaseOwnershipPolicy
  rc_cancellation_policy :: QueueCancellationPolicy

datatype ResourceContractError =
    ResourceSchemaIdMismatch
  | ResourceUnsupportedVersion SchemaVersion
  | ZeroActiveGrantLimit
  | InvalidOwnerCeiling

definition RESOURCE_VECTOR_SCHEMA_ID :: string where
  "RESOURCE_VECTOR_SCHEMA_ID = ''ff.resource-vector@1''"

definition RESOURCE_CONTRACT_VERSION :: SchemaVersion where
  "RESOURCE_CONTRACT_VERSION = \<lparr> sv_major = 1, sv_minor = 0 \<rparr>"

definition resource_contract_new ::
    "ResourceVector \<Rightarrow> u64 \<Rightarrow> u64 \<Rightarrow> u64 \<Rightarrow> u64 \<Rightarrow> ResourceContractV1" where
  "resource_contract_new capacity max_active_grants max_active_per_owner max_waiter_items
       max_waiter_declared_variable_bytes =
     \<lparr> rc_schema_id = RESOURCE_VECTOR_SCHEMA_ID, rc_version = RESOURCE_CONTRACT_VERSION,
       rc_capacity = capacity, rc_max_active_grants = max_active_grants,
       rc_max_active_per_owner = max_active_per_owner, rc_max_waiter_items = max_waiter_items,
       rc_max_waiter_declared_variable_bytes = max_waiter_declared_variable_bytes,
       rc_grant_rule = CompleteCheckedVectorOrNothing,
       rc_fairness_policy = StrictFifoHeadReservationV1WithDeterministicPerOwnerActiveCeiling,
       rc_ownership_policy = NonCloneOwnedDropOrExplicitRelease,
       rc_cancellation_policy = RemoveExactWaiterThenDispatchHead \<rparr>"

definition resource_contract_validate :: "ResourceContractV1 \<Rightarrow> ResourceContractError + unit" where
  "resource_contract_validate c =
     (if rc_schema_id c \<noteq> RESOURCE_VECTOR_SCHEMA_ID then Inl ResourceSchemaIdMismatch
      else if rc_version c \<noteq> RESOURCE_CONTRACT_VERSION
        then Inl (ResourceUnsupportedVersion (rc_version c))
      else if rc_max_active_grants c = 0 then Inl ZeroActiveGrantLimit
      else if rc_max_active_per_owner c = 0 \<or> rc_max_active_per_owner c > rc_max_active_grants c
        then Inl InvalidOwnerCeiling
      else Inr ())"

section \<open>The byte-credit contract\<close>

datatype ByteCreditStage =
    HttpReceive
  | Decompression
  | DecryptOrPackInput
  | DecryptOrPackOutput
  | Reorder
  | Writer
  | JournalStage
  | FfmpegPipe
  | SpillAndSink

definition BYTE_CREDIT_STAGES_V1 :: "ByteCreditStage list" where
  "BYTE_CREDIT_STAGES_V1 = [HttpReceive, Decompression, DecryptOrPackInput, DecryptOrPackOutput,
     Reorder, Writer, JournalStage, FfmpegPipe, SpillAndSink]"

text \<open>The derived order of a Rust enumeration is the order of its variants.\<close>

fun stage_index :: "ByteCreditStage \<Rightarrow> nat" where
  "stage_index HttpReceive = 0"
| "stage_index Decompression = 1"
| "stage_index DecryptOrPackInput = 2"
| "stage_index DecryptOrPackOutput = 3"
| "stage_index Reorder = 4"
| "stage_index Writer = 5"
| "stage_index JournalStage = 6"
| "stage_index FfmpegPipe = 7"
| "stage_index SpillAndSink = 8"

lemma stage_index_inject: "stage_index a = stage_index b \<longleftrightarrow> a = b"
  by (cases a; cases b) simp_all

instantiation ByteCreditStage :: linorder
begin

definition less_eq_ByteCreditStage :: "ByteCreditStage \<Rightarrow> ByteCreditStage \<Rightarrow> bool" where
  "less_eq_ByteCreditStage a b \<longleftrightarrow> stage_index a \<le> stage_index b"

definition less_ByteCreditStage :: "ByteCreditStage \<Rightarrow> ByteCreditStage \<Rightarrow> bool" where
  "less_ByteCreditStage a b \<longleftrightarrow> stage_index a < stage_index b"

instance
  by standard (auto simp: less_eq_ByteCreditStage_def less_ByteCreditStage_def stage_index_inject)

end

datatype ByteCreditSaturationPolicy = Backpressured | SpillRequired

record ByteCreditStagePolicy =
  sp_stage :: ByteCreditStage
  sp_max_claim_items :: u64
  sp_max_bytes :: u64
  sp_saturation_policy :: ByteCreditSaturationPolicy

definition byte_credit_stage_policies_v1 :: "u64 \<Rightarrow> u64 \<Rightarrow> ByteCreditStagePolicy list" where
  "byte_credit_stage_policies_v1 items bytes =
     map (\<lambda>(stage, saturation).
            \<lparr> sp_stage = stage, sp_max_claim_items = items, sp_max_bytes = bytes,
              sp_saturation_policy = saturation \<rparr>)
       [(HttpReceive, Backpressured), (Decompression, Backpressured),
        (DecryptOrPackInput, Backpressured), (DecryptOrPackOutput, Backpressured),
        (Reorder, Backpressured), (Writer, Backpressured), (JournalStage, Backpressured),
        (FfmpegPipe, Backpressured), (SpillAndSink, SpillRequired)]"

datatype ByteReservationPolicy = SimultaneouslyLiveInputAndOutputBeforeAllocation

datatype ByteTransferPolicy = UnconsumedClaimSingleOwner

datatype RequiredByteLossPolicy = LosslessBackpressure

record ByteCreditContractV1 =
  bc_schema_id :: string
  bc_version :: SchemaVersion
  bc_capacity_bytes :: u64
  bc_max_claim_items :: u64
  bc_max_owner_bytes :: u64
  bc_max_owner_claim_items :: u64
  bc_stages :: "ByteCreditStage list"
  bc_stage_policies :: "ByteCreditStagePolicy list"
  bc_reservation_policy :: ByteReservationPolicy
  bc_transfer_policy :: ByteTransferPolicy
  bc_ownership_policy :: LeaseOwnershipPolicy
  bc_required_byte_loss_policy :: RequiredByteLossPolicy

datatype ByteCreditContractError =
    CreditSchemaIdMismatch
  | CreditUnsupportedVersion SchemaVersion
  | ZeroByteCapacity
  | ZeroClaimItemLimit
  | InvalidOwnerLimit
  | StageInventoryMismatch
  | StagePolicyInventoryMismatch
  | StageSaturationPolicyMismatch ByteCreditStage
  | InvalidStageLimit ByteCreditStage

definition BYTE_CREDIT_SCHEMA_ID :: string where
  "BYTE_CREDIT_SCHEMA_ID = ''ff.byte-credit@1''"

definition BYTE_CREDIT_CONTRACT_VERSION :: SchemaVersion where
  "BYTE_CREDIT_CONTRACT_VERSION = \<lparr> sv_major = 1, sv_minor = 0 \<rparr>"

definition byte_credit_contract_new :: "u64 \<Rightarrow> u64 \<Rightarrow> ByteCreditContractV1" where
  "byte_credit_contract_new capacity_bytes max_claim_items =
     \<lparr> bc_schema_id = BYTE_CREDIT_SCHEMA_ID, bc_version = BYTE_CREDIT_CONTRACT_VERSION,
       bc_capacity_bytes = capacity_bytes, bc_max_claim_items = max_claim_items,
       bc_max_owner_bytes = capacity_bytes, bc_max_owner_claim_items = max_claim_items,
       bc_stages = BYTE_CREDIT_STAGES_V1,
       bc_stage_policies = byte_credit_stage_policies_v1 max_claim_items capacity_bytes,
       bc_reservation_policy = SimultaneouslyLiveInputAndOutputBeforeAllocation,
       bc_transfer_policy = UnconsumedClaimSingleOwner,
       bc_ownership_policy = NonCloneOwnedDropOrExplicitRelease,
       bc_required_byte_loss_policy = LosslessBackpressure \<rparr>"

text \<open>The loop of \<open>ByteCreditContractV1::validate\<close> over the zipped policies and stages.\<close>

fun validate_stage_policies ::
    "u64 \<Rightarrow> u64 \<Rightarrow> (ByteCreditStagePolicy \<times> ByteCreditStage) list
       \<Rightarrow> ByteCreditContractError + unit" where
  "validate_stage_policies max_items capacity [] = Inr ()"
| "validate_stage_policies max_items capacity ((policy, expected) # rest) =
     (if sp_stage policy \<noteq> expected then Inl StagePolicyInventoryMismatch
      else if sp_saturation_policy policy \<noteq>
          (if expected = SpillAndSink then SpillRequired else Backpressured)
        then Inl (StageSaturationPolicyMismatch expected)
      else if sp_max_claim_items policy = 0 \<or> sp_max_claim_items policy > max_items \<or>
          sp_max_bytes policy = 0 \<or> sp_max_bytes policy > capacity
        then Inl (InvalidStageLimit (sp_stage policy))
      else validate_stage_policies max_items capacity rest)"

definition byte_credit_contract_validate ::
    "ByteCreditContractV1 \<Rightarrow> ByteCreditContractError + unit" where
  "byte_credit_contract_validate c =
     (if bc_schema_id c \<noteq> BYTE_CREDIT_SCHEMA_ID then Inl CreditSchemaIdMismatch
      else if bc_version c \<noteq> BYTE_CREDIT_CONTRACT_VERSION
        then Inl (CreditUnsupportedVersion (bc_version c))
      else if bc_max_claim_items c = 0 then Inl ZeroClaimItemLimit
      else if bc_capacity_bytes c = 0 then Inl ZeroByteCapacity
      else if bc_max_owner_claim_items c = 0 \<or> bc_max_owner_claim_items c > bc_max_claim_items c \<or>
          bc_max_owner_bytes c = 0 \<or> bc_max_owner_bytes c > bc_capacity_bytes c
        then Inl InvalidOwnerLimit
      else if bc_stages c \<noteq> BYTE_CREDIT_STAGES_V1 then Inl StageInventoryMismatch
      else validate_stage_policies (bc_max_claim_items c) (bc_capacity_bytes c)
        (zip (bc_stage_policies c) BYTE_CREDIT_STAGES_V1))"

datatype ByteCreditComponent = Single | InputComponent | OutputComponent

fun component_index :: "ByteCreditComponent \<Rightarrow> nat" where
  "component_index Single = 0"
| "component_index InputComponent = 1"
| "component_index OutputComponent = 2"

lemma component_index_inject: "component_index a = component_index b \<longleftrightarrow> a = b"
  by (cases a; cases b) simp_all

instantiation ByteCreditComponent :: linorder
begin

definition less_eq_ByteCreditComponent :: "ByteCreditComponent \<Rightarrow> ByteCreditComponent \<Rightarrow> bool" where
  "less_eq_ByteCreditComponent a b \<longleftrightarrow> component_index a \<le> component_index b"

definition less_ByteCreditComponent :: "ByteCreditComponent \<Rightarrow> ByteCreditComponent \<Rightarrow> bool" where
  "less_ByteCreditComponent a b \<longleftrightarrow> component_index a < component_index b"

instance
  by standard
    (auto simp: less_eq_ByteCreditComponent_def less_ByteCreditComponent_def component_index_inject)

end

record CoupledByteReservation =
  cr_input_stage :: ByteCreditStage
  cr_input_bytes :: u64
  cr_output_stage :: ByteCreditStage
  cr_output_bytes :: u64

datatype CoupledByteReservationError = ZeroInput | ZeroOutput | CoupledArithmeticOverflow

definition total_bytes :: "CoupledByteReservation \<Rightarrow> CoupledByteReservationError + u64" where
  "total_bytes r =
     (if cr_input_bytes r = 0 then Inl ZeroInput
      else if cr_output_bytes r = 0 then Inl ZeroOutput
      else ok_or CoupledArithmeticOverflow (checked_add (cr_input_bytes r) (cr_output_bytes r)))"

record ByteCreditPosition =
  received :: u64
  validated_written_contiguous :: u64
  durable_contiguous :: u64

datatype ByteCreditPositionError = DurableAheadOfValidatedWritten | ValidatedWrittenAheadOfReceived

definition position_validate :: "ByteCreditPosition \<Rightarrow> ByteCreditPositionError + unit" where
  "position_validate p =
     (if durable_contiguous p > validated_written_contiguous p
        then Inl DurableAheadOfValidatedWritten
      else if validated_written_contiguous p > received p
        then Inl ValidatedWrittenAheadOfReceived
      else Inr ())"

end
