(* ===== verification/BTree_Map.thy ===== *)
theory BTree_Map
  imports Prelude "HOL-Library.Multiset"
begin

text \<open>
  The standard library's \<^verbatim>\<open>BTreeMap\<close>, as the association list its iterators run over: keys
  strictly ascending, no key twice. The locale \<open>ordered_map\<close> states what a client may rely on
  (what a lookup returns after an insertion or a removal, that iteration stays in key order,
  and how the stored values change), and the list operations interpret it.
\<close>

type_synonym ('k, 'v) btree = "('k \<times> 'v) list"

definition bt_ok :: "('k::linorder \<times> 'v) list \<Rightarrow> bool" where
  "bt_ok m = sorted_wrt (<) (map fst m)"

fun bt_get :: "('k::linorder \<times> 'v) list \<Rightarrow> 'k \<Rightarrow> 'v option" where
  "bt_get [] k = None"
| "bt_get ((k', v') # m) k = (if k = k' then Some v' else bt_get m k)"

fun bt_insert :: "'k::linorder \<Rightarrow> 'v \<Rightarrow> ('k \<times> 'v) list \<Rightarrow> ('k \<times> 'v) list" where
  "bt_insert k v [] = [(k, v)]"
| "bt_insert k v ((k', v') # m) =
     (if k < k' then (k, v) # (k', v') # m
      else if k = k' then (k, v) # m
      else (k', v') # bt_insert k v m)"

fun bt_remove :: "'k::linorder \<Rightarrow> ('k \<times> 'v) list \<Rightarrow> ('k \<times> 'v) list" where
  "bt_remove k [] = []"
| "bt_remove k ((k', v') # m) = (if k = k' then m else (k', v') # bt_remove k m)"

abbreviation bt_values :: "('k \<times> 'v) list \<Rightarrow> 'v list" where
  "bt_values m \<equiv> map snd m"

section \<open>Facts about the list operations\<close>

lemma bt_ok_Nil [simp]: "bt_ok []"
  by (simp add: bt_ok_def)

lemma bt_ok_Cons: "bt_ok ((k, v) # m) \<longleftrightarrow> (\<forall>k' \<in> fst ` set m. k < k') \<and> bt_ok m"
  by (auto simp: bt_ok_def)

lemma fst_set_insert: "fst ` set (bt_insert k v m) = insert k (fst ` set m)"
  by (induction k v m rule: bt_insert.induct) auto

lemma set_remove_subset: "e \<in> set (bt_remove k m) \<Longrightarrow> e \<in> set m"
  by (induction k m rule: bt_remove.induct) (auto split: if_splits)

lemma bt_ok_insert: "bt_ok m \<Longrightarrow> bt_ok (bt_insert k v m)"
  by (induction k v m rule: bt_insert.induct) (auto simp: bt_ok_Cons fst_set_insert)

lemma bt_ok_remove: "bt_ok m \<Longrightarrow> bt_ok (bt_remove k m)"
  by (induction k m rule: bt_remove.induct)
    (auto simp: bt_ok_Cons dest!: set_remove_subset)

lemma bt_get_None_iff: "bt_get m k = None \<longleftrightarrow> k \<notin> fst ` set m"
  by (induction m k rule: bt_get.induct) auto

lemma bt_get_Some_iff: "bt_ok m \<Longrightarrow> bt_get m k = Some v \<longleftrightarrow> (k, v) \<in> set m"
  by (induction m k rule: bt_get.induct) (force simp: bt_ok_Cons)+

lemma bt_get_insert: "bt_get (bt_insert k v m) k' = (if k' = k then Some v else bt_get m k')"
  by (induction k v m rule: bt_insert.induct) auto

lemma bt_get_tail: "\<forall>x \<in> set m. k < fst x \<Longrightarrow> bt_get m k = None"
  by (auto simp: bt_get_None_iff)

lemma bt_get_remove: "bt_ok m \<Longrightarrow> bt_get (bt_remove k m) k' = (if k' = k then None else bt_get m k')"
  by (induction k m rule: bt_remove.induct) (auto simp: bt_ok_Cons bt_get_tail)

lemma mset_insert_fresh:
  "bt_get m k = None \<Longrightarrow> mset (bt_insert k v m) = add_mset (k, v) (mset m)"
  by (induction k v m rule: bt_insert.induct) (auto split: if_splits)

lemma mset_remove:
  "bt_get m k = Some v \<Longrightarrow> mset m = add_mset (k, v) (mset (bt_remove k m))"
  by (induction k m rule: bt_remove.induct) (auto split: if_splits)

lemma mset_insert_update:
  "bt_get m k = Some v \<Longrightarrow> bt_ok m \<Longrightarrow>
     add_mset (k, v) (mset (bt_insert k v' m)) = add_mset (k, v') (mset m)"
proof (induction k v' m rule: bt_insert.induct)
  case (2 k v' k0 v0 m)
  have "k < k0 \<Longrightarrow> False"
    using 2(2,3) bt_get_Some_iff [of "(k0, v0) # m" k v] by (auto simp: bt_ok_Cons)
  with 2 show ?case by (auto simp: bt_ok_Cons split: if_splits)
qed simp

lemma bt_insert_largest: "\<forall>k' \<in> fst ` set m. k' < k \<Longrightarrow> bt_insert k v m = m @ [(k, v)]"
  by (induction k v m rule: bt_insert.induct) auto

lemma bt_remove_absent: "bt_get m k = None \<Longrightarrow> bt_remove k m = m"
  by (induction k m rule: bt_remove.induct) (auto split: if_splits)

lemma mset_remove_at: "i < length xs \<Longrightarrow> mset xs = add_mset (xs ! i) (mset (remove_at i xs))"
proof (induction xs arbitrary: i)
  case (Cons x xs)
  then show ?case by (cases i) auto
qed simp

section \<open>The interface\<close>

locale ordered_map =
  fixes ok :: "'m \<Rightarrow> bool"
    and get :: "'m \<Rightarrow> 'k \<Rightarrow> 'v option"
    and ins :: "'k \<Rightarrow> 'v \<Rightarrow> 'm \<Rightarrow> 'm"
    and rem :: "'k \<Rightarrow> 'm \<Rightarrow> 'm"
    and entries :: "'m \<Rightarrow> ('k \<times> 'v) list"
  assumes ok_ins: "ok m \<Longrightarrow> ok (ins k v m)"
    and ok_rem: "ok m \<Longrightarrow> ok (rem k m)"
    and get_ins: "ok m \<Longrightarrow> get (ins k v m) k' = (if k' = k then Some v else get m k')"
    and get_rem: "ok m \<Longrightarrow> get (rem k m) k' = (if k' = k then None else get m k')"
    and get_entries: "ok m \<Longrightarrow> get m k = Some v \<longleftrightarrow> (k, v) \<in> set (entries m)"
    and entries_ins: "ok m \<Longrightarrow> get m k = None \<Longrightarrow>
      mset (entries (ins k v m)) = add_mset (k, v) (mset (entries m))"
    and entries_rem: "ok m \<Longrightarrow> get m k = Some v \<Longrightarrow>
      mset (entries m) = add_mset (k, v) (mset (entries (rem k m)))"
    and entries_upd: "ok m \<Longrightarrow> get m k = Some v \<Longrightarrow>
      add_mset (k, v) (mset (entries (ins k v' m))) = add_mset (k, v') (mset (entries m))"
begin

text \<open>Any quantity summed over the stored values changes by exactly the moved value.\<close>

definition total :: "('v \<Rightarrow> nat) \<Rightarrow> 'm \<Rightarrow> nat" where
  "total f m = sum_list (map (f \<circ> snd) (entries m))"

lemma total_mset: "total f m = (\<Sum>e \<in># mset (entries m). f (snd e))"
  by (simp add: total_def comp_def flip: sum_mset_sum_list)

lemma total_ins: "ok m \<Longrightarrow> get m k = None \<Longrightarrow> total f (ins k v m) = f v + total f m"
  by (simp add: total_mset entries_ins)

lemma total_rem: "ok m \<Longrightarrow> get m k = Some v \<Longrightarrow> total f m = f v + total f (rem k m)"
  by (simp add: total_mset entries_rem)

lemma total_upd:
  assumes "ok m" "get m k = Some v"
  shows "total f (ins k v' m) + f v = total f m + f v'"
proof -
  have "(\<Sum>e \<in># add_mset (k, v) (mset (entries (ins k v' m))). f (snd e)) =
      (\<Sum>e \<in># add_mset (k, v') (mset (entries m)). f (snd e))"
    by (simp only: entries_upd [OF assms])
  then show ?thesis by (simp add: total_mset)
qed

lemma keys_upd:
  assumes "ok m" "get m k = Some v"
  shows "mset (map fst (entries (ins k v' m))) = mset (map fst (entries m))"
proof -
  have "image_mset fst (add_mset (k, v) (mset (entries (ins k v' m)))) =
      image_mset fst (add_mset (k, v') (mset (entries m)))"
    by (simp only: entries_upd [OF assms])
  then show ?thesis by simp
qed

lemma size_ins: "ok m \<Longrightarrow> get m k = None \<Longrightarrow> length (entries (ins k v m)) = Suc (length (entries m))"
  by (metis entries_ins size_add_mset size_mset)

lemma size_rem: "ok m \<Longrightarrow> get m k = Some v \<Longrightarrow> length (entries m) = Suc (length (entries (rem k m)))"
  by (metis entries_rem size_add_mset size_mset)

lemma total_le: "ok m \<Longrightarrow> get m k = Some v \<Longrightarrow> f v \<le> total f m"
  by (simp add: total_rem)

lemma values_ins:
  "ok m \<Longrightarrow> get m k = None \<Longrightarrow>
     mset (map snd (entries (ins k v m))) = add_mset v (mset (map snd (entries m)))"
  by (simp add: entries_ins)

lemma values_rem:
  "ok m \<Longrightarrow> get m k = Some v \<Longrightarrow>
     mset (map snd (entries m)) = add_mset v (mset (map snd (entries (rem k m))))"
  by (simp add: entries_rem)

end

interpretation bt: ordered_map bt_ok bt_get bt_insert bt_remove "\<lambda>m. m"
  by unfold_locales
    (simp_all add: bt_ok_insert bt_ok_remove bt_get_insert bt_get_remove bt_get_Some_iff
      mset_insert_fresh mset_remove mset_insert_update)

end
