(* ===== verification/Resource_Ledger.thy ===== *)
theory Resource_Ledger
  imports Resource_Contract BTree_Map
begin

text \<open>
  The coupled-resource ledger of \<^verbatim>\<open>product/crates/fforager-core/src/resource.rs\<close>:
  \<^verbatim>\<open>ResourceLedger\<close> and the crate-private types it uses. Identities are 64-bit numbers. The
  methods that work on a clone and commit it only on success (\<open>cancel_waiter\<close>, \<open>release\<close>) return
  the new ledger inside the result; \<open>request\<close> returns before its first write on every error path,
  so it has the same shape.
\<close>

section \<open>Data\<close>

type_synonym OwnerId = u64
type_synonym GrantId = u64
type_synonym WaiterId = u64

record Grant =
  g_id :: GrantId
  g_owner :: OwnerId
  g_resources :: ResourceVector
  g_source_waiter :: "WaiterId option"

datatype Admission = Granted Grant | Queued WaiterId

datatype LedgerError =
    InvalidConfiguration
  | RequestExceedsCapacity
  | QueueItemLimit
  | QueueByteLimit
  | ArithmeticOverflow
  | IdExhausted
  | UnknownGrant GrantId
  | GrantAlreadyReleased GrantId
  | GrantOwnerMismatch OwnerId OwnerId
  | UnknownWaiter WaiterId
  | WaiterAlreadyResolved WaiterId
  | BrokerDropped
  | InvariantViolation

record Waiter =
  w_id :: WaiterId
  w_owner :: OwnerId
  w_resources :: ResourceVector
  w_variable_bytes :: u64

record ResourceLedger =
  rl_capacity :: ResourceVector
  rl_in_use :: ResourceVector
  rl_active :: "(GrantId, Grant) btree"
  rl_waiters :: "Waiter list"
  rl_max_active_grants :: usize
  rl_max_active_per_owner :: usize
  rl_max_waiters :: usize
  rl_max_waiter_bytes :: u64
  rl_waiter_bytes :: u64
  rl_next_grant :: u64
  rl_next_waiter :: u64

section \<open>Construction\<close>

definition new_with_owner_ceiling ::
    "ResourceVector \<Rightarrow> usize \<Rightarrow> usize \<Rightarrow> usize \<Rightarrow> u64 \<Rightarrow> LedgerError + ResourceLedger" where
  "new_with_owner_ceiling capacity max_active_grants max_active_per_owner max_waiters
       max_waiter_bytes =
     (if max_active_grants = 0 \<or> max_active_per_owner = 0 \<or> max_active_per_owner > max_active_grants
      then Inl InvalidConfiguration
      else Inr \<lparr> rl_capacity = capacity, rl_in_use = rv_default, rl_active = [], rl_waiters = [],
                 rl_max_active_grants = max_active_grants,
                 rl_max_active_per_owner = max_active_per_owner, rl_max_waiters = max_waiters,
                 rl_max_waiter_bytes = max_waiter_bytes, rl_waiter_bytes = 0,
                 rl_next_grant = 1, rl_next_waiter = 1 \<rparr>)"

definition ledger_from_contract :: "ResourceContractV1 \<Rightarrow> LedgerError + ResourceLedger" where
  "ledger_from_contract contract =
     rbind (map_err (\<lambda>_. InvalidConfiguration) (resource_contract_validate contract)) (\<lambda>_.
       new_with_owner_ceiling (rc_capacity contract)
         (unat (rc_max_active_grants contract)) (unat (rc_max_active_per_owner contract))
         (unat (rc_max_waiter_items contract))
         (rc_max_waiter_declared_variable_bytes contract))"

section \<open>Operations\<close>

definition owner_active_count :: "ResourceLedger \<Rightarrow> OwnerId \<Rightarrow> usize" where
  "owner_active_count l owner =
     length (filter (\<lambda>grant. g_owner grant = owner) (bt_values (rl_active l)))"

definition can_grant :: "ResourceLedger \<Rightarrow> ResourceVector \<Rightarrow> bool" where
  "can_grant l resources =
     (case rv_checked_add (rl_in_use l) resources of
        None \<Rightarrow> False
      | Some combined \<Rightarrow> fits_within combined (rl_capacity l))"

definition issue ::
    "ResourceLedger \<Rightarrow> OwnerId \<Rightarrow> ResourceVector \<Rightarrow> WaiterId option
       \<Rightarrow> LedgerError + ResourceLedger \<times> Grant" where
  "issue l owner resources source_waiter =
     rbind (ok_or ArithmeticOverflow (rv_checked_add (rl_in_use l) resources)) (\<lambda>combined.
       if \<not> fits_within combined (rl_capacity l) then Inl RequestExceedsCapacity
       else rbind (ok_or IdExhausted (checked_add (rl_next_grant l) 1)) (\<lambda>next_grant.
         let grant = \<lparr> g_id = rl_next_grant l, g_owner = owner, g_resources = resources,
                       g_source_waiter = source_waiter \<rparr>
         in Inr (l\<lparr> rl_next_grant := next_grant,
                    rl_active := bt_insert (rl_next_grant l) grant (rl_active l),
                    rl_in_use := combined \<rparr>, grant)))"

lemma issue_waiters [simp]:
  "issue l owner resources src = Inr (l', g) \<Longrightarrow> rl_waiters l' = rl_waiters l"
  by (auto simp: issue_def Let_def result_simps split: if_splits)

function drain_waiters ::
    "ResourceLedger \<Rightarrow> Grant list \<Rightarrow> LedgerError + ResourceLedger \<times> Grant list" where
  "drain_waiters l issued =
     (if length (rl_active l) < rl_max_active_grants l then
        (case rl_waiters l of
           [] \<Rightarrow> Inr (l, issued)
         | waiter # rest \<Rightarrow>
             if owner_active_count l (w_owner waiter) \<ge> rl_max_active_per_owner l \<or>
               \<not> can_grant l (w_resources waiter)
             then Inr (l, issued)
             else
               (case checked_sub (rl_waiter_bytes l) (w_variable_bytes waiter) of
                  None \<Rightarrow> Inl InvariantViolation
                | Some bytes \<Rightarrow>
                    (case issue (l\<lparr> rl_waiters := rest, rl_waiter_bytes := bytes \<rparr>)
                        (w_owner waiter) (w_resources waiter) (Some (w_id waiter)) of
                       Inl e \<Rightarrow> Inl e
                     | Inr (l', grant) \<Rightarrow> drain_waiters l' (issued @ [grant]))))
      else Inr (l, issued))"
  by pat_completeness auto
termination
  by (relation "measure (\<lambda>(l, _). length (rl_waiters l))") (auto dest!: issue_waiters)

declare drain_waiters.simps [simp del]

definition request ::
    "ResourceLedger \<Rightarrow> OwnerId \<Rightarrow> ResourceVector \<Rightarrow> LedgerError + ResourceLedger \<times> Admission" where
  "request l owner resources =
     (if \<not> fits_within resources (rl_capacity l) then Inl RequestExceedsCapacity
      else if rl_waiters l = [] \<and> length (rl_active l) < rl_max_active_grants l \<and>
        owner_active_count l owner < rl_max_active_per_owner l \<and> can_grant l resources
      then rbind (issue l owner resources None) (\<lambda>(l', grant). Inr (l', Granted grant))
      else if length (rl_waiters l) \<ge> rl_max_waiters l then Inl QueueItemLimit
      else
        rbind (ok_or ArithmeticOverflow (declared_variable_bytes resources)) (\<lambda>variable_bytes.
        rbind (ok_or ArithmeticOverflow (checked_add (rl_waiter_bytes l) variable_bytes)) (\<lambda>bytes.
          if bytes > rl_max_waiter_bytes l then Inl QueueByteLimit
          else rbind (ok_or IdExhausted (checked_add (rl_next_waiter l) 1)) (\<lambda>next_waiter.
            Inr (l\<lparr> rl_next_waiter := next_waiter,
                    rl_waiters := rl_waiters l @ [\<lparr> w_id = rl_next_waiter l, w_owner = owner,
                      w_resources = resources, w_variable_bytes = variable_bytes \<rparr>],
                    rl_waiter_bytes := bytes \<rparr>,
                 Queued (rl_next_waiter l))))))"

definition cancel_waiter ::
    "ResourceLedger \<Rightarrow> WaiterId \<Rightarrow> LedgerError + ResourceLedger \<times> Grant list" where
  "cancel_waiter l waiter_id =
     (case position (\<lambda>waiter. w_id waiter = waiter_id) (rl_waiters l) of
        None \<Rightarrow> Inl (UnknownWaiter waiter_id)
      | Some i \<Rightarrow>
          rbind (ok_or InvariantViolation
              (checked_sub (rl_waiter_bytes l) (w_variable_bytes (rl_waiters l ! i)))) (\<lambda>bytes.
            drain_waiters
              (l\<lparr> rl_waiters := remove_at i (rl_waiters l), rl_waiter_bytes := bytes \<rparr>) []))"

definition release ::
    "ResourceLedger \<Rightarrow> GrantId \<Rightarrow> OwnerId \<Rightarrow> LedgerError + ResourceLedger \<times> Grant list" where
  "release l grant_id owner =
     (case bt_get (rl_active l) grant_id of
        None \<Rightarrow> if grant_id > 0 \<and> grant_id < rl_next_grant l then Inl (GrantAlreadyReleased grant_id)
                else Inl (UnknownGrant grant_id)
      | Some grant \<Rightarrow>
          if g_owner grant \<noteq> owner then Inl (GrantOwnerMismatch (g_owner grant) owner)
          else
            rbind (ok_or InvariantViolation
                (rv_checked_sub (rl_in_use l) (g_resources grant))) (\<lambda>in_use.
              drain_waiters
                (l\<lparr> rl_in_use := in_use, rl_active := bt_remove grant_id (rl_active l) \<rparr>) []))"

definition ledger_verify :: "ResourceLedger \<Rightarrow> LedgerError + unit" where
  "ledger_verify l =
     rbind (ok_or InvariantViolation
         (try_fold rv_checked_add rv_default (map g_resources (bt_values (rl_active l))))) (\<lambda>sum.
       let bytes = try_fold checked_add 0 (map w_variable_bytes (rl_waiters l)) in
       if sum \<noteq> rl_in_use l \<or> \<not> fits_within (rl_in_use l) (rl_capacity l) \<or>
          bytes \<noteq> Some (rl_waiter_bytes l) \<or>
          length (rl_active l) > rl_max_active_grants l \<or>
          list_ex (\<lambda>owner. owner_active_count l owner > rl_max_active_per_owner l)
            (remdups (map g_owner (bt_values (rl_active l)))) \<or>
          length (rl_waiters l) > rl_max_waiters l \<or>
          rl_waiter_bytes l > rl_max_waiter_bytes l
       then Inl InvariantViolation else Inr ())"

section \<open>The ledger invariant\<close>

definition accounts_ok :: "ResourceLedger \<Rightarrow> bool" where
  "accounts_ok l \<longleftrightarrow>
     bt_ok (rl_active l) \<and>
     (\<forall>(k, g) \<in> set (rl_active l). g_id g = k \<and> 0 < k \<and> k < rl_next_grant l) \<and>
     0 < rl_next_grant l \<and>
     (\<forall>d. amount (rl_in_use l) d = bt.total (\<lambda>g. amount (g_resources g) d) (rl_active l)) \<and>
     fits_within (rl_in_use l) (rl_capacity l) \<and>
     length (rl_active l) \<le> rl_max_active_grants l \<and>
     (\<forall>owner. owner_active_count l owner \<le> rl_max_active_per_owner l) \<and>
     0 < rl_max_active_grants l \<and> 0 < rl_max_active_per_owner l"

definition queue_ok :: "ResourceLedger \<Rightarrow> bool" where
  "queue_ok l \<longleftrightarrow>
     sorted_wrt (<) (map w_id (rl_waiters l)) \<and>
     (\<forall>w \<in> set (rl_waiters l). 0 < w_id w \<and> w_id w < rl_next_waiter l \<and>
        fits_within (w_resources w) (rl_capacity l) \<and>
        declared_variable_bytes (w_resources w) = Some (w_variable_bytes w)) \<and>
     0 < rl_next_waiter l \<and>
     unat (rl_waiter_bytes l) = sum_list (map (unat \<circ> w_variable_bytes) (rl_waiters l)) \<and>
     length (rl_waiters l) \<le> rl_max_waiters l \<and>
     rl_waiter_bytes l \<le> rl_max_waiter_bytes l"

definition sources :: "ResourceLedger \<Rightarrow> WaiterId list" where
  "sources l = List.map_filter g_source_waiter (bt_values (rl_active l))"

definition sources_ok :: "ResourceLedger \<Rightarrow> bool" where
  "sources_ok l \<longleftrightarrow>
     distinct (sources l) \<and> (\<forall>w \<in> set (sources l). 0 < w \<and> w < rl_next_waiter l) \<and>
     set (sources l) \<inter> w_id ` set (rl_waiters l) = {}"

definition admissible :: "ResourceLedger \<Rightarrow> OwnerId \<Rightarrow> ResourceVector \<Rightarrow> bool" where
  "admissible l owner resources \<longleftrightarrow>
     length (rl_active l) < rl_max_active_grants l \<and>
     owner_active_count l owner < rl_max_active_per_owner l \<and> can_grant l resources"

definition settled_queue :: "ResourceLedger \<Rightarrow> bool" where
  "settled_queue l =
     (case rl_waiters l of [] \<Rightarrow> True | w # _ \<Rightarrow> \<not> admissible l (w_owner w) (w_resources w))"

definition ledger_ok :: "ResourceLedger \<Rightarrow> bool" where
  "ledger_ok l \<longleftrightarrow> accounts_ok l \<and> queue_ok l \<and> sources_ok l \<and> settled_queue l"

text \<open>What stays fixed for the whole life of a ledger.\<close>

definition same_limits :: "ResourceLedger \<Rightarrow> ResourceLedger \<Rightarrow> bool" where
  "same_limits l l' \<longleftrightarrow>
     rl_capacity l' = rl_capacity l \<and> rl_max_active_grants l' = rl_max_active_grants l \<and>
     rl_max_active_per_owner l' = rl_max_active_per_owner l \<and>
     rl_max_waiters l' = rl_max_waiters l \<and> rl_max_waiter_bytes l' = rl_max_waiter_bytes l"

lemma same_limits_refl [simp]: "same_limits l l"
  by (simp add: same_limits_def)

lemma same_limits_trans: "same_limits a b \<Longrightarrow> same_limits b c \<Longrightarrow> same_limits a c"
  by (simp add: same_limits_def)

section \<open>Issuing a grant\<close>

lemma issue_Inr_iff:
  "issue l owner resources src = Inr (l', g) \<longleftrightarrow>
     (\<exists>combined next. rv_checked_add (rl_in_use l) resources = Some combined \<and>
        fits_within combined (rl_capacity l) \<and> checked_add (rl_next_grant l) 1 = Some next \<and>
        g = \<lparr> g_id = rl_next_grant l, g_owner = owner, g_resources = resources,
              g_source_waiter = src \<rparr> \<and>
        l' = l\<lparr> rl_next_grant := next, rl_active := bt_insert (rl_next_grant l) g (rl_active l),
               rl_in_use := combined \<rparr>)"
  by (auto simp: issue_def Let_def result_simps)

lemma active_fresh:
  assumes "accounts_ok l"
  shows "bt_get (rl_active l) (rl_next_grant l) = None"
    and "bt_insert (rl_next_grant l) g (rl_active l) = rl_active l @ [(rl_next_grant l, g)]"
proof -
  have "\<forall>k \<in> fst ` set (rl_active l). k < rl_next_grant l"
    using assms by (auto simp: accounts_ok_def)
  then show "bt_get (rl_active l) (rl_next_grant l) = None"
    and "bt_insert (rl_next_grant l) g (rl_active l) = rl_active l @ [(rl_next_grant l, g)]"
    by (auto simp: bt_get_None_iff bt_insert_largest)
qed

lemma issue_accounts:
  assumes "accounts_ok l" "issue l owner resources src = Inr (l', g)" "admissible l owner resources"
  shows "accounts_ok l'" "rl_active l' = rl_active l @ [(g_id g, g)]"
proof -
  obtain combined "next" where c: "rv_checked_add (rl_in_use l) resources = Some combined"
      "fits_within combined (rl_capacity l)" "checked_add (rl_next_grant l) 1 = Some next"
    and g: "g = \<lparr> g_id = rl_next_grant l, g_owner = owner, g_resources = resources,
              g_source_waiter = src \<rparr>"
    and l': "l' = l\<lparr> rl_next_grant := next,
               rl_active := bt_insert (rl_next_grant l) g (rl_active l), rl_in_use := combined \<rparr>"
    using assms(2) by (auto simp: issue_Inr_iff)
  show active: "rl_active l' = rl_active l @ [(g_id g, g)]"
    by (simp add: l' active_fresh [OF assms(1)] g)
  have ok: "bt_ok (rl_active l')"
    using assms(1) by (simp add: l' bt_ok_insert accounts_ok_def)
  have less: "rl_next_grant l < next" by (rule checked_add_1_less [OF c(3)])
  have keys: "\<forall>(k, g) \<in> set (rl_active l'). g_id g = k \<and> 0 < k \<and> k < rl_next_grant l'"
    unfolding active using assms(1) less by (auto simp: accounts_ok_def l' g)
  have total: "\<forall>d. amount (rl_in_use l') d = bt.total (\<lambda>g. amount (g_resources g) d) (rl_active l')"
    using assms(1) c(1) by (simp add: l' g accounts_ok_def bt.total_ins active_fresh(1) rv_checked_add_iff)
  have owners: "owner_active_count l' o' \<le> rl_max_active_per_owner l'" for o'
  proof -
    have "owner_active_count l' o' = owner_active_count l o' + (if o' = owner then 1 else 0)"
      unfolding owner_active_count_def active by (simp add: g)
    moreover have "rl_max_active_per_owner l' = rl_max_active_per_owner l" by (simp add: l')
    ultimately show ?thesis
      using assms(1,3) by (auto simp: accounts_ok_def admissible_def)
  qed
  have "length (rl_active l') \<le> rl_max_active_grants l'"
    unfolding active using assms(3) by (simp add: l' admissible_def)
  with ok keys total owners c(2) less assms(1) show "accounts_ok l'"
    by (auto simp: accounts_ok_def l' dest: le_less_trans)
qed

lemma queue_update_simps [simp]:
  "owner_active_count (l\<lparr> rl_waiters := ws, rl_waiter_bytes := b \<rparr>) owner = owner_active_count l owner"
  "can_grant (l\<lparr> rl_waiters := ws, rl_waiter_bytes := b \<rparr>) r = can_grant l r"
  "accounts_ok (l\<lparr> rl_waiters := ws, rl_waiter_bytes := b \<rparr>) = accounts_ok l"
  "admissible (l\<lparr> rl_waiters := ws, rl_waiter_bytes := b \<rparr>) owner r = admissible l owner r"
  "sources (l\<lparr> rl_waiters := ws, rl_waiter_bytes := b \<rparr>) = sources l"
proof -
  show count: "owner_active_count (l\<lparr> rl_waiters := ws, rl_waiter_bytes := b \<rparr>) owner =
      owner_active_count l owner" for owner
    by (simp add: owner_active_count_def)
  show can: "can_grant (l\<lparr> rl_waiters := ws, rl_waiter_bytes := b \<rparr>) r = can_grant l r"
    by (simp add: can_grant_def split: option.splits)
  show "accounts_ok (l\<lparr> rl_waiters := ws, rl_waiter_bytes := b \<rparr>) = accounts_ok l"
    by (simp add: accounts_ok_def count)
  show "admissible (l\<lparr> rl_waiters := ws, rl_waiter_bytes := b \<rparr>) owner r = admissible l owner r"
    by (simp add: admissible_def count can)
  show "sources (l\<lparr> rl_waiters := ws, rl_waiter_bytes := b \<rparr>) = sources l"
    by (simp add: sources_def)
qed

lemma issue_Inr_simps:
  assumes "issue l owner resources src = Inr (l', g)"
  shows "rl_waiters l' = rl_waiters l" "rl_waiter_bytes l' = rl_waiter_bytes l"
    "rl_next_waiter l' = rl_next_waiter l" "same_limits l l'"
    "g_owner g = owner" "g_resources g = resources" "g_source_waiter g = src"
    "g_id g = rl_next_grant l" "unat (rl_next_grant l') = Suc (unat (rl_next_grant l))"
  using assms by (auto simp: issue_Inr_iff same_limits_def checked_add_eq_Some_iff)

lemma issue_admissible:
  "admissible l owner resources \<Longrightarrow> rl_next_grant l \<noteq> - 1 \<Longrightarrow>
     \<exists>l' g. issue l owner resources src = Inr (l', g)"
  using checked_add_1_None [of "rl_next_grant l"]
  by (auto simp: issue_Inr_iff admissible_def can_grant_def split: option.splits)

lemma issue_error: "admissible l owner resources \<Longrightarrow> issue l owner resources src = Inl e \<Longrightarrow>
    e = IdExhausted \<and> rl_next_grant l = - 1"
  by (auto simp: issue_def admissible_def can_grant_def Let_def result_simps checked_add_1_None
      split: option.splits)

section \<open>Draining the queue\<close>

lemma queue_ok_tail:
  assumes "queue_ok l" "rl_waiters l = w # rest"
  obtains bytes where "checked_sub (rl_waiter_bytes l) (w_variable_bytes w) = Some bytes"
    "queue_ok (l\<lparr> rl_waiters := rest, rl_waiter_bytes := bytes \<rparr>)"
proof -
  have "unat (rl_waiter_bytes l) =
      unat (w_variable_bytes w) + sum_list (map (unat \<circ> w_variable_bytes) rest)"
    using assms by (simp add: queue_ok_def)
  with bytes.sub_total [of "rl_waiter_bytes l" "w_variable_bytes w"
      "\<lambda>_. sum_list (map (unat \<circ> w_variable_bytes) rest)"]
  obtain bytes where b: "checked_sub (rl_waiter_bytes l) (w_variable_bytes w) = Some bytes"
      "unat bytes = sum_list (map (unat \<circ> w_variable_bytes) rest)" by auto
  moreover have "queue_ok (l\<lparr> rl_waiters := rest, rl_waiter_bytes := bytes \<rparr>)"
    using assms b by (auto simp: queue_ok_def checked_sub_eq_Some_iff word_le_nat_alt)
  ultimately show thesis using that by blast
qed

lemma sources_append:
  "rl_active l' = rl_active l @ [(k, g)] \<Longrightarrow>
     sources l' = sources l @ (case g_source_waiter g of None \<Rightarrow> [] | Some w \<Rightarrow> [w])"
  by (simp add: sources_def List.map_filter_def split: option.splits)

text \<open>The grants issued to a drained prefix of the queue, one per waiter and in its order.\<close>

definition issued_to :: "Waiter \<Rightarrow> Grant \<Rightarrow> bool" where
  "issued_to w g \<longleftrightarrow>
     g_source_waiter g = Some (w_id w) \<and> g_owner g = w_owner w \<and> g_resources g = w_resources w"

definition drained :: "ResourceLedger \<Rightarrow> ResourceLedger \<Rightarrow> Grant list \<Rightarrow> bool" where
  "drained l l' new \<longleftrightarrow>
     rl_waiters l = take (length new) (rl_waiters l) @ rl_waiters l' \<and>
     list_all2 issued_to (take (length new) (rl_waiters l)) new \<and>
     rl_active l' = rl_active l @ map (\<lambda>g. (g_id g, g)) new \<and>
     rl_next_waiter l' = rl_next_waiter l \<and> same_limits l l' \<and>
     unat (rl_next_grant l') = unat (rl_next_grant l) + length new"

lemma drained_refl: "drained l l []"
  by (simp add: drained_def)

lemma drained_step:
  assumes "rl_waiters l = w # rest" and "issued_to w g"
    and "issue (l\<lparr> rl_waiters := rest, rl_waiter_bytes := bytes \<rparr>) owner resources src = Inr (l1, g)"
    and "rl_active l1 = rl_active l @ [(g_id g, g)]"
    and "drained l1 l' new"
  shows "drained l l' (g # new)"
  using assms(1,2,4,5) issue_Inr_simps [OF assms(3)]
  by (auto simp: drained_def same_limits_def)

lemma sources_ok_issue:
  assumes "sources_ok l" "queue_ok l" "rl_waiters l = w # rest" "g_source_waiter g = Some (w_id w)"
    and "rl_active l1 = rl_active l @ [(g_id g, g)]" "rl_waiters l1 = rest"
    and "rl_next_waiter l1 = rl_next_waiter l"
  shows "sources_ok l1"
proof -
  have "\<forall>x \<in> set rest. w_id w < w_id x" and w: "0 < w_id w \<and> w_id w < rl_next_waiter l"
    using assms(2,3) by (simp_all add: queue_ok_def)
  then have fresh: "w_id w \<notin> w_id ` set rest" by fastforce
  have src: "sources l1 = sources l @ [w_id w]"
    using assms(4) by (simp add: sources_append [OF assms(5)])
  have "w_id w \<notin> set (sources l)" "set (sources l) \<inter> w_id ` set rest = {}"
    using assms(1,3) by (auto simp: sources_ok_def)
  with fresh w assms(1) show ?thesis
    unfolding sources_ok_def src assms(6,7) by simp
qed

lemma drain_waiters_spec:
  assumes "accounts_ok l" "queue_ok l" "sources_ok l" "drain_waiters l issued = Inr (l', issued')"
  shows "ledger_ok l' \<and> (\<exists>new. issued' = issued @ new \<and> drained l l' new)"
  using assms
proof (induction l issued rule: drain_waiters.induct)
  case (1 l issued)
  show ?case
  proof (cases "settled_queue l \<or> rl_waiters l = []")
    case True
    then have "l' = l" "issued' = issued" "settled_queue l"
      using 1(5) by (auto simp: drain_waiters.simps [of l] settled_queue_def admissible_def
          split: list.splits if_splits)
    with 1(2-4) show ?thesis by (auto simp: ledger_ok_def drained_refl)
  next
    case False
    then obtain w rest where w: "rl_waiters l = w # rest"
      and adm: "admissible l (w_owner w) (w_resources w)"
      by (auto simp: settled_queue_def split: list.splits)
    obtain bytes where b: "checked_sub (rl_waiter_bytes l) (w_variable_bytes w) = Some bytes"
      and q: "queue_ok (l\<lparr> rl_waiters := rest, rl_waiter_bytes := bytes \<rparr>)" (is "queue_ok ?l")
      by (rule queue_ok_tail [OF 1(3) w])
    from adm w have cond: "length (rl_active l) < rl_max_active_grants l"
      "\<not> (owner_active_count l (w_owner w) \<ge> rl_max_active_per_owner l \<or>
          \<not> can_grant l (w_resources w))"
      by (auto simp: admissible_def)
    obtain l1 g where iss: "issue ?l (w_owner w) (w_resources w) (Some (w_id w)) = Inr (l1, g)"
      and rec: "drain_waiters l1 (issued @ [g]) = Inr (l', issued')"
      using 1(5) cond w b
      by (auto simp: drain_waiters.simps [of l] split: sum.splits)
    have acc: "accounts_ok ?l" and adm': "admissible ?l (w_owner w) (w_resources w)"
      using 1(2) adm by simp_all
    note facts = issue_Inr_simps [OF iss]
    have acc1: "accounts_ok l1" and act: "rl_active l1 = rl_active l @ [(g_id g, g)]"
      using issue_accounts [OF acc iss adm'] by simp_all
    have q1: "queue_ok l1"
      using q facts(1-4) by (simp add: queue_ok_def same_limits_def)
    have s1: "sources_ok l1"
      using sources_ok_issue [OF 1(4,3) w _ act] facts by simp
    from 1(1) [OF cond(1) w cond(2) b iss refl acc1 q1 s1 rec]
    obtain new where new: "ledger_ok l'" "issued' = (issued @ [g]) @ new" "drained l1 l' new"
      by auto
    have "issued_to w g" using facts by (simp add: issued_to_def)
    with drained_step [OF w _ iss act new(3)] have "drained l l' (g # new)" .
    with new(1,2) show ?thesis by auto
  qed
qed

lemma drain_waiters_error:
  assumes "accounts_ok l" "queue_ok l" "drain_waiters l issued = Inl e"
  shows "e = IdExhausted \<and> 2 ^ 64 \<le> unat (rl_next_grant l) + length (rl_waiters l)"
  using assms
proof (induction l issued rule: drain_waiters.induct)
  case (1 l issued)
  then have "\<not> settled_queue l" "rl_waiters l \<noteq> []"
    by (auto simp: drain_waiters.simps [of l] settled_queue_def admissible_def
        split: list.splits if_splits)
  then obtain w rest where w: "rl_waiters l = w # rest"
    and adm: "admissible l (w_owner w) (w_resources w)"
    by (auto simp: settled_queue_def split: list.splits)
  obtain bytes where b: "checked_sub (rl_waiter_bytes l) (w_variable_bytes w) = Some bytes"
    and q: "queue_ok (l\<lparr> rl_waiters := rest, rl_waiter_bytes := bytes \<rparr>)" (is "queue_ok ?l")
    by (rule queue_ok_tail [OF 1(3) w])
  from adm w have cond: "length (rl_active l) < rl_max_active_grants l"
    "\<not> (owner_active_count l (w_owner w) \<ge> rl_max_active_per_owner l \<or>
        \<not> can_grant l (w_resources w))"
    by (auto simp: admissible_def)
  have adm': "admissible ?l (w_owner w) (w_resources w)" using adm by simp
  show ?case
  proof (cases "issue ?l (w_owner w) (w_resources w) (Some (w_id w))")
    case (Inl e')
    with 1(4) cond w b have "e = e'" by (simp add: drain_waiters.simps [of l])
    moreover from issue_error [OF adm' Inl]
    have "e' = IdExhausted" "rl_next_grant l = - 1" by simp_all
    ultimately show ?thesis
      using w by (simp add: unsigned_minus_1_eq_mask mask_eq_exp_minus_1)
  next
    case (Inr r)
    then obtain l1 g where iss: "issue ?l (w_owner w) (w_resources w) (Some (w_id w)) = Inr (l1, g)"
      by (cases r) auto
    note facts = issue_Inr_simps [OF iss]
    from 1(4) cond w b iss have rec: "drain_waiters l1 (issued @ [g]) = Inl e"
      by (simp add: drain_waiters.simps [of l])
    have "accounts_ok l1" using issue_accounts(1) [OF _ iss adm'] 1(2) by simp
    moreover have "queue_ok l1" using q facts(1-4) by (simp add: queue_ok_def same_limits_def)
    ultimately have "e = IdExhausted \<and>
        2 ^ 64 \<le> unat (rl_next_grant l1) + length (rl_waiters l1)"
      using 1(1) [OF cond(1) w cond(2) b iss refl _ _ rec] by blast
    with facts(1,9) w show ?thesis by simp
  qed
qed

lemma drain_waiters_total:
  assumes "accounts_ok l" "queue_ok l" "sources_ok l"
    and "unat (rl_next_grant l) + length (rl_waiters l) < 2 ^ 64"
  obtains l' new where "drain_waiters l [] = Inr (l', new)" "ledger_ok l'" "drained l l' new"
proof (cases "drain_waiters l []")
  case (Inl e)
  with drain_waiters_error [OF assms(1,2) Inl] assms(4) show thesis by simp
next
  case (Inr r)
  then obtain l' new where d: "drain_waiters l [] = Inr (l', new)" by (cases r) auto
  with drain_waiters_spec [OF assms(1-3) d] that show thesis by simp
qed

section \<open>Each operation keeps the invariant\<close>

lemma ledger_okD:
  assumes "ledger_ok l"
  shows "accounts_ok l" "queue_ok l" "sources_ok l" "settled_queue l"
  using assms by (simp_all add: ledger_ok_def)

definition removed_grant :: "ResourceLedger \<Rightarrow> GrantId \<Rightarrow> ResourceVector \<Rightarrow> ResourceLedger" where
  "removed_grant l k in_use = l\<lparr> rl_in_use := in_use, rl_active := bt_remove k (rl_active l) \<rparr>"

lemma filter_remove_le: "length (filter P (bt_values (bt_remove k m))) \<le> length (filter P (bt_values m))"
  by (induction k m rule: bt_remove.induct) auto

lemma map_filter_remove:
  "distinct (List.map_filter f (bt_values m)) \<Longrightarrow>
     distinct (List.map_filter f (bt_values (bt_remove k m))) \<and>
     set (List.map_filter f (bt_values (bt_remove k m))) \<subseteq> set (List.map_filter f (bt_values m))"
  by (induction k m rule: bt_remove.induct)
    (auto simp: List.map_filter_simps split: option.splits)

lemma removed_grant_ok:
  assumes "ledger_ok l" "bt_get (rl_active l) k = Some g"
  obtains in_use where "rv_checked_sub (rl_in_use l) (g_resources g) = Some in_use"
    "accounts_ok (removed_grant l k in_use)" "queue_ok (removed_grant l k in_use)"
    "sources_ok (removed_grant l k in_use)"
proof -
  note ok = ledger_okD [OF assms(1)]
  have bt: "bt_ok (rl_active l)" using ok(1) by (simp add: accounts_ok_def)
  let ?total = "\<lambda>d. bt.total (\<lambda>g. amount (g_resources g) d)"
  have "amount (rl_in_use l) d = amount (g_resources g) d + ?total d (bt_remove k (rl_active l))" for d
    using ok(1) bt.total_rem [OF bt assms(2)] by (simp add: accounts_ok_def)
  from rv.sub_total [OF this] obtain in_use
    where u: "rv_checked_sub (rl_in_use l) (g_resources g) = Some in_use"
      "\<forall>d. amount in_use d = ?total d (bt_remove k (rl_active l))" by blast
  let ?l = "removed_grant l k in_use"
  have "fits_within in_use (rl_capacity l)"
    using rv.fits_trans [OF rv.sub_fits [OF u(1)]] ok(1) by (simp add: accounts_ok_def)
  moreover have "length (rl_active l) = Suc (length (bt_remove k (rl_active l)))"
    by (rule bt.size_rem [OF bt assms(2)])
  moreover have "owner_active_count ?l o' \<le> rl_max_active_per_owner ?l" for o'
  proof -
    have "owner_active_count l o' \<le> rl_max_active_per_owner l"
      using ok(1) by (simp add: accounts_ok_def)
    with filter_remove_le [of "\<lambda>grant. g_owner grant = o'" k "rl_active l"] show ?thesis
      by (simp add: owner_active_count_def removed_grant_def)
  qed
  ultimately have "accounts_ok ?l"
    using ok(1) u(2) bt_ok_remove [OF bt, of k]
    by (auto simp: accounts_ok_def removed_grant_def dest!: set_remove_subset intro: le_trans)
  moreover have "queue_ok ?l"
    using ok(2) by (simp add: queue_ok_def removed_grant_def)
  moreover have "sources_ok ?l"
    using ok(3) map_filter_remove [of g_source_waiter "rl_active l" k]
    by (auto simp: sources_ok_def sources_def removed_grant_def)
  ultimately show thesis using that u(1) by blast
qed

lemma release_spec:
  assumes "ledger_ok l" "release l k owner = Inr (l', new)"
  obtains g in_use where "bt_get (rl_active l) k = Some g" "g_owner g = owner"
    "rv_checked_sub (rl_in_use l) (g_resources g) = Some in_use"
    "ledger_ok l'" "drained (removed_grant l k in_use) l' new"
proof -
  from assms(2) obtain g where g: "bt_get (rl_active l) k = Some g" "g_owner g = owner"
    by (auto simp: release_def split: option.splits if_splits)
  obtain in_use where u: "rv_checked_sub (rl_in_use l) (g_resources g) = Some in_use"
    "accounts_ok (removed_grant l k in_use)" "queue_ok (removed_grant l k in_use)"
    "sources_ok (removed_grant l k in_use)"
    by (rule removed_grant_ok [OF assms(1) g(1)])
  from assms(2) g u(1) have "drain_waiters (removed_grant l k in_use) [] = Inr (l', new)"
    by (simp add: release_def removed_grant_def)
  from drain_waiters_spec [OF u(2-4) this] have "ledger_ok l'" "drained (removed_grant l k in_use) l' new"
    by simp_all
  with g u(1) that show thesis by blast
qed

definition removed_waiter :: "ResourceLedger \<Rightarrow> nat \<Rightarrow> u64 \<Rightarrow> ResourceLedger" where
  "removed_waiter l i bytes =
     l\<lparr> rl_waiters := remove_at i (rl_waiters l), rl_waiter_bytes := bytes \<rparr>"

lemma removed_waiter_ok:
  assumes "ledger_ok l" "i < length (rl_waiters l)"
  obtains bytes where
    "checked_sub (rl_waiter_bytes l) (w_variable_bytes (rl_waiters l ! i)) = Some bytes"
    "accounts_ok (removed_waiter l i bytes)" "queue_ok (removed_waiter l i bytes)"
    "sources_ok (removed_waiter l i bytes)"
proof -
  note ok = ledger_okD [OF assms(1)]
  let ?rest = "remove_at i (rl_waiters l)"
  have "unat (rl_waiter_bytes l) = unat (w_variable_bytes (rl_waiters l ! i)) +
      sum_list (map (unat \<circ> w_variable_bytes) ?rest)"
    using ok(2) sum_list_remove_at [OF assms(2), of "unat \<circ> w_variable_bytes"]
    by (simp add: queue_ok_def)
  with bytes.sub_total [of "rl_waiter_bytes l" "w_variable_bytes (rl_waiters l ! i)"
      "\<lambda>_. sum_list (map (unat \<circ> w_variable_bytes) ?rest)"]
  obtain bytes where
    b: "checked_sub (rl_waiter_bytes l) (w_variable_bytes (rl_waiters l ! i)) = Some bytes"
      "unat bytes = sum_list (map (unat \<circ> w_variable_bytes) ?rest)" by auto
  have sub: "set ?rest \<subseteq> set (rl_waiters l)" by (rule set_remove_at)
  have map_rest: "map w_id ?rest = remove_at i (map w_id (rl_waiters l))"
    by (simp add: remove_at_def take_map drop_map)
  have "queue_ok (removed_waiter l i bytes)"
    using ok(2) b assms(2) sub sorted_wrt_remove_at [of "(<)" "map w_id (rl_waiters l)" i]
    by (auto simp: queue_ok_def removed_waiter_def map_rest checked_sub_eq_Some_iff word_le_nat_alt)
  moreover have "sources_ok (removed_waiter l i bytes)"
    using ok(3) sub by (auto simp: sources_ok_def removed_waiter_def)
  ultimately show thesis using that b(1) ok(1) by (simp add: removed_waiter_def)
qed

lemma cancel_waiter_spec:
  assumes "ledger_ok l" "cancel_waiter l k = Inr (l', new)"
  obtains i bytes where "i < length (rl_waiters l)" "w_id (rl_waiters l ! i) = k"
    "ledger_ok l'" "drained (removed_waiter l i bytes) l' new"
proof -
  from assms(2) obtain i where i: "position (\<lambda>waiter. w_id waiter = k) (rl_waiters l) = Some i"
    by (auto simp: cancel_waiter_def split: option.splits)
  note pos = position_SomeD [OF i]
  obtain bytes where u:
    "checked_sub (rl_waiter_bytes l) (w_variable_bytes (rl_waiters l ! i)) = Some bytes"
    "accounts_ok (removed_waiter l i bytes)" "queue_ok (removed_waiter l i bytes)"
    "sources_ok (removed_waiter l i bytes)"
    using removed_waiter_ok [OF assms(1)] pos by blast
  from assms(2) i u(1) have "drain_waiters (removed_waiter l i bytes) [] = Inr (l', new)"
    by (simp add: cancel_waiter_def removed_waiter_def)
  from drain_waiters_spec [OF u(2-4) this]
  have "ledger_ok l'" "drained (removed_waiter l i bytes) l' new" by simp_all
  with pos that show thesis by blast
qed

lemma request_admit:
  assumes "rl_waiters l = []" "admissible l owner resources"
    and "request l owner resources = Inr (l', adm)"
  obtains g where "issue l owner resources None = Inr (l', g)" "adm = Granted g"
proof -
  have "fits_within resources (rl_capacity l)"
    using assms(3) by (simp add: request_def split: if_splits)
  with assms have "rbind (issue l owner resources None) (\<lambda>(l', grant). Inr (l', Granted grant)) =
      Inr (l', adm)" by (simp add: request_def admissible_def)
  with that show thesis by (auto simp: result_simps)
qed

lemma request_enqueue:
  assumes "rl_waiters l \<noteq> [] \<or> \<not> admissible l owner resources"
    and "request l owner resources = Inr (l', adm)"
  obtains vb bytes nw where "declared_variable_bytes resources = Some vb"
    "checked_add (rl_waiter_bytes l) vb = Some bytes" "checked_add (rl_next_waiter l) 1 = Some nw"
    "bytes \<le> rl_max_waiter_bytes l" "length (rl_waiters l) < rl_max_waiters l"
    "fits_within resources (rl_capacity l)" "adm = Queued (rl_next_waiter l)"
    "l' = l\<lparr> rl_next_waiter := nw, rl_waiters := rl_waiters l @
        [\<lparr> w_id = rl_next_waiter l, w_owner = owner, w_resources = resources,
           w_variable_bytes = vb \<rparr>], rl_waiter_bytes := bytes \<rparr>"
proof -
  have fits: "fits_within resources (rl_capacity l)"
    using assms(2) by (simp add: request_def split: if_splits)
  have blocked: "\<not> (rl_waiters l = [] \<and> length (rl_active l) < rl_max_active_grants l \<and>
      owner_active_count l owner < rl_max_active_per_owner l \<and> can_grant l resources)"
    using assms(1) by (auto simp: admissible_def)
  have room: "length (rl_waiters l) < rl_max_waiters l"
    using assms(2) fits unfolding request_def if_not_P [OF blocked]
    by (simp add: not_le split: if_splits)
  from assms(2) obtain vb bytes nw where "declared_variable_bytes resources = Some vb"
    "checked_add (rl_waiter_bytes l) vb = Some bytes" "\<not> bytes > rl_max_waiter_bytes l"
    "checked_add (rl_next_waiter l) 1 = Some nw"
    "Inr (l\<lparr> rl_next_waiter := nw, rl_waiters := rl_waiters l @
        [\<lparr> w_id = rl_next_waiter l, w_owner = owner, w_resources = resources,
           w_variable_bytes = vb \<rparr>], rl_waiter_bytes := bytes \<rparr>, Queued (rl_next_waiter l)) =
     (Inr (l', adm) :: LedgerError + _)"
    unfolding request_def if_not_P [OF blocked] rbind_eq_Inr_iff ok_or_eq_Inr_iff if_Inl_eq_Inr_iff
    by blast
  with that fits room show thesis by (metis Pair_inject not_less sum.inject(2))
qed

lemma request_spec:
  assumes "ledger_ok l" "request l owner resources = Inr (l', adm)"
  shows "ledger_ok l' \<and> same_limits l l' \<and>
    (case adm of
       Granted g \<Rightarrow> rl_waiters l = [] \<and> admissible l owner resources \<and>
         rl_active l' = rl_active l @ [(g_id g, g)] \<and> rl_waiters l' = [] \<and>
         rl_next_waiter l' = rl_next_waiter l \<and> g_source_waiter g = None \<and>
         unat (rl_next_grant l') = Suc (unat (rl_next_grant l)) \<and>
         g_owner g = owner \<and> g_resources g = resources
     | Queued k \<Rightarrow> (rl_waiters l \<noteq> [] \<or> \<not> admissible l owner resources) \<and>
         rl_active l' = rl_active l \<and> rl_next_grant l' = rl_next_grant l \<and>
         k = rl_next_waiter l \<and>
         unat (rl_next_waiter l') = Suc (unat (rl_next_waiter l)) \<and>
         (\<exists>w. rl_waiters l' = rl_waiters l @ [w] \<and> w_id w = k \<and> w_owner w = owner \<and>
              w_resources w = resources))"
proof (cases "rl_waiters l = [] \<and> admissible l owner resources")
  case True
  note ok = ledger_okD [OF assms(1)]
  obtain g where g: "issue l owner resources None = Inr (l', g)" "adm = Granted g"
    using request_admit [OF _ _ assms(2)] True by blast
  note facts = issue_Inr_simps [OF g(1)]
  have acc: "accounts_ok l'" and act: "rl_active l' = rl_active l @ [(g_id g, g)]"
    using issue_accounts [OF ok(1) g(1)] True by simp_all
  have "queue_ok l'" using ok(2) facts by (simp add: queue_ok_def same_limits_def)
  moreover have "sources l' = sources l"
    using facts by (simp add: sources_append [OF act])
  then have "sources_ok l'" using ok(3) facts by (simp add: sources_ok_def)
  ultimately show ?thesis
    using True acc act facts g(2) by (simp add: ledger_ok_def settled_queue_def)
next
  case False
  note ok = ledger_okD [OF assms(1)]
  obtain vb bytes nw where q: "declared_variable_bytes resources = Some vb"
      "checked_add (rl_waiter_bytes l) vb = Some bytes" "checked_add (rl_next_waiter l) 1 = Some nw"
      "bytes \<le> rl_max_waiter_bytes l" "length (rl_waiters l) < rl_max_waiters l"
      "fits_within resources (rl_capacity l)" "adm = Queued (rl_next_waiter l)"
    and l': "l' = l\<lparr> rl_next_waiter := nw, rl_waiters := rl_waiters l @
        [\<lparr> w_id = rl_next_waiter l, w_owner = owner, w_resources = resources,
           w_variable_bytes = vb \<rparr>], rl_waiter_bytes := bytes \<rparr>"
    using request_enqueue [OF _ assms(2)] False by blast
  have less: "rl_next_waiter l < nw" by (rule checked_add_1_less [OF q(3)])
  have "accounts_ok l'" using ok(1) by (simp add: l' accounts_ok_def owner_active_count_def)
  moreover have "queue_ok l'"
    using ok(2) q less
    by (auto simp: l' queue_ok_def sorted_wrt_append checked_add_eq_Some_iff dest: less_trans)
  moreover have "sources_ok l'"
    using ok(3) less by (auto simp: l' sources_ok_def sources_def dest: less_trans)
  moreover have "settled_queue l'"
    using ok(4) False
    by (auto simp: l' settled_queue_def admissible_def owner_active_count_def can_grant_def
        split: list.splits option.splits)
  ultimately show ?thesis
    using False q by (simp add: ledger_ok_def l' same_limits_def checked_add_eq_Some_iff)
qed

lemma new_ledger_ok:
  "new_with_owner_ceiling capacity grants owners waiters bytes = Inr l \<Longrightarrow> ledger_ok l"
  by (auto simp: new_with_owner_ceiling_def ledger_ok_def accounts_ok_def queue_ok_def sources_ok_def
      settled_queue_def sources_def owner_active_count_def bt.total_def rv.amount_zero fits_within_iff
      List.map_filter_simps split: if_splits)

lemma ledger_ok_verifies: 
  assumes "ledger_ok l"
  shows "ledger_verify l = Inr ()"
proof -
  note ok = ledger_okD [OF assms]
  have "try_fold rv_checked_add rv_default (map g_resources (bt_values (rl_active l))) =
      Some (rl_in_use l)"
    using ok(1) by (intro rv.sum_complete)
      (simp add: accounts_ok_def bt.total_def rv.amount_zero comp_def)
  moreover have "try_fold checked_add 0 (map w_variable_bytes (rl_waiters l)) = Some (rl_waiter_bytes l)"
    using ok(2) by (intro bytes.sum_complete) (simp add: queue_ok_def comp_def)
  ultimately show ?thesis
    using ok(1,2) by (auto simp: ledger_verify_def accounts_ok_def queue_ok_def list_ex_iff not_less)
qed

end
