(* ===== verification/Resource_Broker.thy ===== *)
theory Resource_Broker
  imports Resource_Ledger
begin

text \<open>
  The owned boundary of the resource ledger (\<^verbatim>\<open>OwnedResourceState\<close>, \<^verbatim>\<open>OwnedResourceBroker\<close>,
  \<^verbatim>\<open>OwnedResourceLease\<close> and \<^verbatim>\<open>OwnedResourceWaiter\<close> in
  \<^verbatim>\<open>product/crates/fforager-core/src/resource.rs\<close>). A handle's weak reference to the shared
  state is modelled by passing the state as an option: \<^const>\<open>None\<close> when the last broker is gone.
  A method that consumes its handle is followed by the handle's destructor, as in Rust, so
  \<open>lease_release\<close> runs \<open>lease_drop\<close> when the release failed and left the handle active.
\<close>

section \<open>Shared state\<close>

record OwnedResourceState =
  os_ledger :: ResourceLedger
  os_ready :: "(WaiterId, Grant) btree"

text \<open>The first loop of \<open>record_issued\<close>: nothing is recorded until every grant has been checked.\<close>

fun stage_issued ::
    "(WaiterId, Grant) btree \<Rightarrow> WaiterId list \<Rightarrow> Grant list \<Rightarrow> LedgerError + (WaiterId \<times> Grant) list" where
  "stage_issued ready seen [] = Inr []"
| "stage_issued ready seen (grant # issued) =
     (case g_source_waiter grant of
        None \<Rightarrow> Inl InvariantViolation
      | Some waiter_id \<Rightarrow>
          if bt_get ready waiter_id \<noteq> None \<or> waiter_id \<in> set seen then Inl InvariantViolation
          else rbind (stage_issued ready (waiter_id # seen) issued) (\<lambda>staged.
            Inr ((waiter_id, grant) # staged)))"

definition record_issued ::
    "OwnedResourceState \<Rightarrow> Grant list \<Rightarrow> LedgerError + OwnedResourceState \<times> WaiterId list" where
  "record_issued s issued =
     rbind (stage_issued (os_ready s) [] issued) (\<lambda>staged.
       Inr (s\<lparr> os_ready := fold (\<lambda>(waiter_id, grant). bt_insert waiter_id grant) staged (os_ready s) \<rparr>,
            map fst staged))"

definition release_grant ::
    "OwnedResourceState \<Rightarrow> GrantId \<Rightarrow> OwnerId \<Rightarrow> LedgerError + OwnedResourceState \<times> WaiterId list" where
  "release_grant s grant_id owner =
     rbind (release (os_ledger s) grant_id owner) (\<lambda>(ledger, issued).
       record_issued (s\<lparr> os_ledger := ledger \<rparr>) issued)"

definition owned_cancel_waiter ::
    "OwnedResourceState \<Rightarrow> WaiterId \<Rightarrow> LedgerError + OwnedResourceState \<times> WaiterId list" where
  "owned_cancel_waiter s waiter_id =
     rbind (case bt_get (os_ready s) waiter_id of
        Some grant \<Rightarrow> release (os_ledger s) (g_id grant) (g_owner grant)
      | None \<Rightarrow> cancel_waiter (os_ledger s) waiter_id) (\<lambda>(ledger, issued).
       record_issued (s\<lparr> os_ready := bt_remove waiter_id (os_ready s),
                         os_ledger := ledger \<rparr>) issued)"

section \<open>Handles\<close>

record OwnedResourceLease =
  le_grant :: Grant
  le_active :: bool

record OwnedResourceWaiter =
  wa_waiter_id :: WaiterId
  wa_active :: bool

datatype OwnedAdmission = OwnedGranted OwnedResourceLease | OwnedQueued OwnedResourceWaiter

definition broker_from_contract :: "ResourceContractV1 \<Rightarrow> LedgerError + OwnedResourceState" where
  "broker_from_contract contract =
     rbind (ledger_from_contract contract) (\<lambda>ledger. Inr \<lparr> os_ledger = ledger, os_ready = [] \<rparr>)"

definition broker_request ::
    "OwnedResourceState \<Rightarrow> OwnerId \<Rightarrow> ResourceVector
       \<Rightarrow> LedgerError + OwnedResourceState \<times> OwnedAdmission" where
  "broker_request s owner resources =
     rbind (request (os_ledger s) owner resources) (\<lambda>(ledger, admission).
       Inr (s\<lparr> os_ledger := ledger \<rparr>,
         case admission of
           Granted grant \<Rightarrow> OwnedGranted \<lparr> le_grant = grant, le_active = True \<rparr>
         | Queued waiter_id \<Rightarrow> OwnedQueued \<lparr> wa_waiter_id = waiter_id, wa_active = True \<rparr>))"

definition broker_verify :: "OwnedResourceState \<Rightarrow> LedgerError + unit" where
  "broker_verify s =
     rbind (ledger_verify (os_ledger s)) (\<lambda>_.
       if list_ex (\<lambda>(waiter_id, grant).
            g_source_waiter grant \<noteq> Some waiter_id \<or>
            bt_get (rl_active (os_ledger s)) (g_id grant) \<noteq> Some grant) (os_ready s)
       then Inl InvariantViolation else Inr ())"

definition lease_drop ::
    "OwnedResourceState option \<Rightarrow> OwnedResourceLease \<Rightarrow> OwnedResourceState option" where
  "lease_drop st held =
     (if \<not> le_active held then st
      else case st of
          None \<Rightarrow> None
        | Some s \<Rightarrow>
            (case release_grant s (g_id (le_grant held)) (g_owner (le_grant held)) of
               Inr (s', _) \<Rightarrow> Some s'
             | Inl _ \<Rightarrow> Some s))"

definition lease_release ::
    "OwnedResourceState option \<Rightarrow> OwnedResourceLease
       \<Rightarrow> OwnedResourceState option \<times> (LedgerError + WaiterId list)" where
  "lease_release st held =
     (case st of
        None \<Rightarrow> (lease_drop st (held\<lparr> le_active := False \<rparr>), Inl BrokerDropped)
      | Some s \<Rightarrow>
          (case release_grant s (g_id (le_grant held)) (g_owner (le_grant held)) of
             Inl e \<Rightarrow> (lease_drop (Some s) held, Inl e)
           | Inr (s', ready) \<Rightarrow> (lease_drop (Some s') (held\<lparr> le_active := False \<rparr>), Inr ready)))"

definition try_acquire ::
    "OwnedResourceState option \<Rightarrow> OwnedResourceWaiter
       \<Rightarrow> OwnedResourceState option \<times> OwnedResourceWaiter \<times> (LedgerError + OwnedResourceLease option)" where
  "try_acquire st w =
     (if \<not> wa_active w then (st, w, Inl (WaiterAlreadyResolved (wa_waiter_id w)))
      else case st of
          None \<Rightarrow> (st, w\<lparr> wa_active := False \<rparr>, Inl BrokerDropped)
        | Some s \<Rightarrow>
            (case bt_get (os_ready s) (wa_waiter_id w) of
               None \<Rightarrow> (st, w, Inr None)
             | Some grant \<Rightarrow>
                 (Some (s\<lparr> os_ready := bt_remove (wa_waiter_id w) (os_ready s) \<rparr>),
                  w\<lparr> wa_active := False \<rparr>,
                  Inr (Some \<lparr> le_grant = grant, le_active = True \<rparr>))))"

definition waiter_drop ::
    "OwnedResourceState option \<Rightarrow> OwnedResourceWaiter \<Rightarrow> OwnedResourceState option" where
  "waiter_drop st w =
     (if \<not> wa_active w then st
      else case st of
          None \<Rightarrow> None
        | Some s \<Rightarrow>
            (case owned_cancel_waiter s (wa_waiter_id w) of
               Inr (s', _) \<Rightarrow> Some s'
             | Inl _ \<Rightarrow> Some s))"

definition waiter_cancel ::
    "OwnedResourceState option \<Rightarrow> OwnedResourceWaiter
       \<Rightarrow> OwnedResourceState option \<times> (LedgerError + WaiterId list)" where
  "waiter_cancel st w =
     (case st of
        None \<Rightarrow> (waiter_drop st (w\<lparr> wa_active := False \<rparr>), Inl BrokerDropped)
      | Some s \<Rightarrow>
          (case owned_cancel_waiter s (wa_waiter_id w) of
             Inl e \<Rightarrow> (waiter_drop (Some s) w, Inl e)
           | Inr (s', ready) \<Rightarrow> (waiter_drop (Some s') (w\<lparr> wa_active := False \<rparr>), Inr ready)))"

section \<open>A client holding handles\<close>

text \<open>
  The safe-Rust view of the broker: a client owns lists of leases and waiters, a consuming call
  takes the handle out of its list, and no handle can be copied.
\<close>

record broker_client =
  cl_state :: "OwnedResourceState option"
  cl_leases :: "OwnedResourceLease list"
  cl_waiters :: "OwnedResourceWaiter list"

datatype broker_call =
    CallRequest OwnerId ResourceVector
  | CallRelease nat
  | CallDropLease nat
  | CallTryAcquire nat
  | CallCancel nat
  | CallDropWaiter nat
  | CallDropBroker

fun client_step :: "broker_client \<Rightarrow> broker_call \<Rightarrow> broker_client" where
  "client_step c (CallRequest owner resources) =
     (case cl_state c of
        None \<Rightarrow> c
      | Some s \<Rightarrow>
          (case broker_request s owner resources of
             Inl _ \<Rightarrow> c
           | Inr (s', OwnedGranted held) \<Rightarrow>
               c\<lparr> cl_state := Some s', cl_leases := cl_leases c @ [held] \<rparr>
           | Inr (s', OwnedQueued w) \<Rightarrow>
               c\<lparr> cl_state := Some s', cl_waiters := cl_waiters c @ [w] \<rparr>))"
| "client_step c (CallRelease i) =
     (if i < length (cl_leases c)
      then c\<lparr> cl_state := fst (lease_release (cl_state c) (cl_leases c ! i)),
             cl_leases := remove_at i (cl_leases c) \<rparr>
      else c)"
| "client_step c (CallDropLease i) =
     (if i < length (cl_leases c)
      then c\<lparr> cl_state := lease_drop (cl_state c) (cl_leases c ! i),
             cl_leases := remove_at i (cl_leases c) \<rparr>
      else c)"
| "client_step c (CallTryAcquire i) =
     (if i < length (cl_waiters c)
      then (case try_acquire (cl_state c) (cl_waiters c ! i) of
              (st, w, result) \<Rightarrow>
                c\<lparr> cl_state := st, cl_waiters := (cl_waiters c)[i := w],
                   cl_leases := cl_leases c @
                     (case result of Inr (Some held) \<Rightarrow> [held] | _ \<Rightarrow> []) \<rparr>)
      else c)"
| "client_step c (CallCancel i) =
     (if i < length (cl_waiters c)
      then c\<lparr> cl_state := fst (waiter_cancel (cl_state c) (cl_waiters c ! i)),
             cl_waiters := remove_at i (cl_waiters c) \<rparr>
      else c)"
| "client_step c (CallDropWaiter i) =
     (if i < length (cl_waiters c)
      then c\<lparr> cl_state := waiter_drop (cl_state c) (cl_waiters c ! i),
             cl_waiters := remove_at i (cl_waiters c) \<rparr>
      else c)"
| "client_step c CallDropBroker = c\<lparr> cl_state := None \<rparr>"

definition held_leases :: "broker_client \<Rightarrow> Grant list" where
  "held_leases c = map le_grant (filter le_active (cl_leases c))"

definition held_waiters :: "broker_client \<Rightarrow> WaiterId list" where
  "held_waiters c = map wa_waiter_id (filter wa_active (cl_waiters c))"

section \<open>Recording issued grants\<close>

definition ready_ok :: "ResourceLedger \<Rightarrow> (WaiterId, Grant) btree \<Rightarrow> bool" where
  "ready_ok l ready \<longleftrightarrow>
     bt_ok ready \<and>
     (\<forall>(w, g) \<in> set ready. g_source_waiter g = Some w \<and> (g_id g, g) \<in> set (rl_active l))"

lemma stage_issued_ok:
  assumes "list_all2 (\<lambda>w g. g_source_waiter g = Some w) ws new" "distinct ws"
    and "\<forall>w \<in> set ws. bt_get ready w = None \<and> w \<notin> set seen"
  shows "stage_issued ready seen new = Inr (zip ws new)"
  using assms
proof (induction ws new arbitrary: seen rule: list_all2_induct)
  case (Cons w ws g new)
  have "stage_issued ready (w # seen) new = Inr (zip ws new)"
    by (rule Cons.IH) (use Cons.prems in auto)
  with Cons show ?case by simp
qed simp

lemma fold_insert_ok:
  "bt_ok ready \<Longrightarrow> distinct (map fst staged) \<Longrightarrow> \<forall>w \<in> fst ` set staged. bt_get ready w = None \<Longrightarrow>
     bt_ok (fold (\<lambda>(w, g). bt_insert w g) staged ready) \<and>
     mset (fold (\<lambda>(w, g). bt_insert w g) staged ready) = mset ready + mset staged"
proof (induction staged arbitrary: ready)
  case (Cons e staged)
  obtain w g where e: "e = (w, g)" by (cases e)
  have "\<forall>v \<in> fst ` set staged. bt_get (bt_insert w g ready) v = None"
    using Cons.prems e by (auto simp: bt_get_insert)
  with Cons.IH [of "bt_insert w g ready"] Cons.prems e show ?case
    by (simp add: bt_ok_insert bt.entries_ins)
qed simp

lemma sources_of_ready:
  assumes "ready_ok l ready" "bt_get ready w = Some g"
  shows "w \<in> set (sources l)" "bt_get (rl_active l) (g_id g) = Some g \<or> \<not> bt_ok (rl_active l)"
proof -
  have *: "g_source_waiter g = Some w" "(g_id g, g) \<in> set (rl_active l)"
    using assms by (auto simp: ready_ok_def bt_get_Some_iff)
  then show "w \<in> set (sources l)"
    by (force simp: sources_def List.map_filter_def)
  from * show "bt_get (rl_active l) (g_id g) = Some g \<or> \<not> bt_ok (rl_active l)"
    using bt_get_Some_iff [of "rl_active l" "g_id g" g] by blast
qed

text \<open>After a drain every issued grant is recorded under its waiter.\<close>

lemma record_issued_ok:
  assumes "drained l l' new" "ledger_ok l'" "ready_ok l (os_ready s)" "os_ledger s = l'"
  obtains s' where "record_issued s new = Inr (s', map w_id (take (length new) (rl_waiters l)))"
    "os_ledger s' = l'" "ready_ok l' (os_ready s')"
    "mset (os_ready s') = mset (os_ready s) +
       mset (zip (map w_id (take (length new) (rl_waiters l))) new)"
proof -
  let ?ws = "map w_id (take (length new) (rl_waiters l))"
  have d: "list_all2 issued_to (take (length new) (rl_waiters l)) new"
    and act: "rl_active l' = rl_active l @ map (\<lambda>g. (g_id g, g)) new"
    using assms(1) by (simp_all add: drained_def)
  have src: "list_all2 (\<lambda>w g. g_source_waiter g = Some w) ?ws new"
    using d by (auto simp: list.rel_map issued_to_def elim: list.rel_mono_strong)
  have len: "length ?ws = length new" using list_all2_lengthD [OF src] .
  have "List.map_filter g_source_waiter new = ?ws"
    using src by (induction rule: list_all2_induct) (simp_all add: List.map_filter_simps)
  then have sources: "sources l' = sources l @ ?ws"
    by (simp add: sources_def act List.map_filter_def comp_def)
  have dist: "distinct (sources l')" using assms(2) by (simp add: ledger_ok_def sources_ok_def)
  have fresh: "\<forall>w \<in> set ?ws. bt_get (os_ready s) w = None"
  proof
    fix w assume "w \<in> set ?ws"
    with dist sources have "w \<notin> set (sources l)" by auto
    with sources_of_ready(1) [OF assms(3)] show "bt_get (os_ready s) w = None"
      by (cases "bt_get (os_ready s) w") auto
  qed
  have st: "stage_issued (os_ready s) [] new = Inr (zip ?ws new)"
    using stage_issued_ok [OF src] dist sources fresh by simp
  have fst_zip: "map fst (zip ?ws new) = ?ws" using len by simp
  have fold: "bt_ok (fold (\<lambda>(w, g). bt_insert w g) (zip ?ws new) (os_ready s))"
    "mset (fold (\<lambda>(w, g). bt_insert w g) (zip ?ws new) (os_ready s)) =
       mset (os_ready s) + mset (zip ?ws new)" (is "mset ?ready = _")
  proof -
    have "distinct (map fst (zip ?ws new))" using dist sources unfolding fst_zip by simp
    moreover have "\<forall>w \<in> fst ` set (zip ?ws new). bt_get (os_ready s) w = None"
      using fresh by (metis fst_zip list.set_map)
    moreover have "bt_ok (os_ready s)" using assms(3) by (simp add: ready_ok_def)
    ultimately show "bt_ok ?ready" "mset ?ready = mset (os_ready s) + mset (zip ?ws new)"
      using fold_insert_ok by blast+
  qed
  have set_ready: "set ?ready = set (os_ready s) \<union> set (zip ?ws new)"
    using fold(2) by (metis set_mset_mset set_mset_union)
  have "g_source_waiter g = Some w \<and> (g_id g, g) \<in> set (rl_active l')"
    if "(w, g) \<in> set ?ready" for w g
    using that unfolding set_ready
  proof
    assume "(w, g) \<in> set (os_ready s)"
    then show ?thesis using assms(3) by (auto simp: ready_ok_def act)
  next
    assume "(w, g) \<in> set (zip ?ws new)"
    moreover from this have "g_source_waiter g = Some w"
      using src by (auto simp: list_all2_iff)
    ultimately show ?thesis by (auto simp: act dest: set_zip_rightD)
  qed
  then have "ready_ok l' ?ready" using fold(1) by (auto simp: ready_ok_def)
  moreover have "record_issued s new = Inr (s\<lparr> os_ready := ?ready \<rparr>, ?ws)"
    by (simp add: record_issued_def st fst_zip)
  ultimately show thesis using that [of "s\<lparr> os_ready := ?ready \<rparr>"] fold(2) assms(4) by simp
qed

section \<open>What each owned operation moves\<close>

definition broker_ok :: "OwnedResourceState \<Rightarrow> bool" where
  "broker_ok s \<longleftrightarrow> ledger_ok (os_ledger s) \<and> ready_ok (os_ledger s) (os_ready s)"

definition granted :: "OwnedResourceState \<Rightarrow> Grant multiset" where
  "granted s = mset (bt_values (rl_active (os_ledger s)))"

definition ready_grants :: "OwnedResourceState \<Rightarrow> Grant multiset" where
  "ready_grants s = mset (bt_values (os_ready s))"

definition waiting :: "OwnedResourceState \<Rightarrow> WaiterId multiset" where
  "waiting s = mset (map w_id (rl_waiters (os_ledger s))) + mset (map fst (os_ready s))"

text \<open>Grant identities already used or still needed by the queue.\<close>

definition id_demand :: "OwnedResourceState \<Rightarrow> nat" where
  "id_demand s = unat (rl_next_grant (os_ledger s)) + length (rl_waiters (os_ledger s))"

definition steady :: "ResourceLedger \<Rightarrow> ResourceLedger \<Rightarrow> bool" where
  "steady l l' \<longleftrightarrow> same_limits l l' \<and> rl_next_waiter l' = rl_next_waiter l"

lemma drained_moves:
  assumes "drained l l' new" "ledger_ok l'" "ready_ok l (os_ready s)" "os_ledger s = l'"
  obtains s' ids where "record_issued s new = Inr (s', ids)" "broker_ok s'"
    "ids = map w_id (take (length new) (rl_waiters l))"
    "granted s' = mset (bt_values (rl_active l)) + mset new"
    "ready_grants s' = ready_grants s + mset new"
    "waiting s' = mset (map w_id (rl_waiters l)) + mset (map fst (os_ready s))"
    "id_demand s' = unat (rl_next_grant l) + length (rl_waiters l)"
    "steady l (os_ledger s')"
    "map w_id (rl_waiters l) = ids @ map w_id (rl_waiters (os_ledger s'))"
proof -
  let ?ws = "map w_id (take (length new) (rl_waiters l))"
  obtain s' where s': "record_issued s new = Inr (s', ?ws)"
    "os_ledger s' = l'" "ready_ok l' (os_ready s')"
    "mset (os_ready s') = mset (os_ready s) + mset (zip ?ws new)"
    by (rule record_issued_ok [OF assms])
  note d = assms(1) [unfolded drained_def]
  have len: "length ?ws = length new" using d list_all2_lengthD by force
  have split: "map w_id (rl_waiters l) = ?ws @ map w_id (rl_waiters l')"
    using d by (metis map_append)
  have snd: "mset (bt_values (os_ready s')) = mset (bt_values (os_ready s)) + mset new"
    using s'(4) len by (metis image_mset_union map_snd_zip mset_map)
  have fst: "mset (map fst (os_ready s')) = mset (map fst (os_ready s)) + mset ?ws"
    using s'(4) len by (metis image_mset_union map_fst_zip mset_map)
  show thesis
  proof (rule that [OF s'(1)])
    show "broker_ok s'" using s' assms(2) by (simp add: broker_ok_def)
    show "granted s' = mset (bt_values (rl_active l)) + mset new"
      using d s'(2) by (simp add: granted_def comp_def)
    show "ready_grants s' = ready_grants s + mset new" using snd by (simp add: ready_grants_def)
    show "waiting s' = mset (map w_id (rl_waiters l)) + mset (map fst (os_ready s))"
      unfolding waiting_def s'(2) fst split by simp
    have "length (rl_waiters l) = length new + length (rl_waiters l')"
      using arg_cong [OF split, of length] len by simp
    then show "id_demand s' = unat (rl_next_grant l) + length (rl_waiters l)"
      using d s'(2) by (simp add: id_demand_def)
    show "steady l (os_ledger s')" using d s'(2) by (simp add: steady_def)
    show "map w_id (rl_waiters l) = ?ws @ map w_id (rl_waiters (os_ledger s'))"
      using split s'(2) by simp
  qed simp
qed

lemma ready_ok_removed:
  assumes "ready_ok l ready" "bt_ok (rl_active l)" "bt_get (rl_active l) k = Some g" "g \<notin> snd ` set ready"
    and "\<forall>(k, g) \<in> set (rl_active l). g_id g = k"
  shows "ready_ok (removed_grant l k in_use) ready"
proof -
  have "(g_id h, h) \<in> set (bt_remove k (rl_active l))" if "(w, h) \<in> set ready" for w h
  proof -
    have h: "(g_id h, h) \<in> set (rl_active l)" using assms(1) that by (auto simp: ready_ok_def)
    have "h \<noteq> g" using assms(4) that by force
    moreover have "(k, g) \<in> set (rl_active l)" using assms(2,3) by (simp add: bt_get_Some_iff)
    ultimately have "g_id h \<noteq> k" using h assms(2) by (metis bt_get_Some_iff option.inject)
    with h assms(2) show ?thesis
      by (metis bt_get_Some_iff bt_get_remove bt_ok_remove)
  qed
  with assms(1) show ?thesis by (auto simp: ready_ok_def removed_grant_def)
qed

lemma release_grant_moves:
  assumes "broker_ok s" "bt_get (rl_active (os_ledger s)) k = Some g" "g \<notin> snd ` set (os_ready s)"
    and "id_demand s < 2 ^ 64"
  obtains s' ids where "release_grant s k (g_owner g) = Inr (s', ids)" "broker_ok s'"
    "granted s' + ready_grants s + {#g#} = granted s + ready_grants s'"
    "waiting s' = waiting s" "id_demand s' = id_demand s"
    "steady (os_ledger s) (os_ledger s')"
    "map w_id (rl_waiters (os_ledger s)) = ids @ map w_id (rl_waiters (os_ledger s'))"
proof -
  let ?l = "os_ledger s"
  have ok: "ledger_ok ?l" and r: "ready_ok ?l (os_ready s)"
    using assms(1) by (simp_all add: broker_ok_def)
  have bt: "bt_ok (rl_active ?l)" and keys: "\<forall>(k, g) \<in> set (rl_active ?l). g_id g = k"
    using ledger_okD(1) [OF ok] by (auto simp: accounts_ok_def)
  obtain in_use where u: "rv_checked_sub (rl_in_use ?l) (g_resources g) = Some in_use"
    "accounts_ok (removed_grant ?l k in_use)" "queue_ok (removed_grant ?l k in_use)"
    "sources_ok (removed_grant ?l k in_use)"
    by (rule removed_grant_ok [OF ok assms(2)])
  have dem: "unat (rl_next_grant (removed_grant ?l k in_use)) +
      length (rl_waiters (removed_grant ?l k in_use)) < 2 ^ 64"
    using assms(4) by (simp add: removed_grant_def id_demand_def)
  obtain l' new where d: "drain_waiters (removed_grant ?l k in_use) [] = Inr (l', new)"
    "ledger_ok l'" "drained (removed_grant ?l k in_use) l' new"
    by (rule drain_waiters_total [OF u(2-4) dem])
  have rel: "release ?l k (g_owner g) = Inr (l', new)"
    using assms(2) u(1) d(1) by (simp add: release_def removed_grant_def)
  have rdy: "ready_ok (removed_grant ?l k in_use) (os_ready (s\<lparr>os_ledger := l'\<rparr>))"
    using ready_ok_removed [OF r bt assms(2,3) keys] by simp
  have led: "os_ledger (s\<lparr>os_ledger := l'\<rparr>) = l'" by simp
  obtain s' ids where s': "record_issued (s\<lparr>os_ledger := l'\<rparr>) new = Inr (s', ids)" "broker_ok s'"
    "ids = map w_id (take (length new) (rl_waiters (removed_grant ?l k in_use)))"
    "granted s' = mset (bt_values (rl_active (removed_grant ?l k in_use))) + mset new"
    "ready_grants s' = ready_grants (s\<lparr>os_ledger := l'\<rparr>) + mset new"
    "waiting s' = mset (map w_id (rl_waiters (removed_grant ?l k in_use))) +
       mset (map fst (os_ready (s\<lparr>os_ledger := l'\<rparr>)))"
    "id_demand s' = unat (rl_next_grant (removed_grant ?l k in_use)) +
       length (rl_waiters (removed_grant ?l k in_use))"
    "steady (removed_grant ?l k in_use) (os_ledger s')"
    "map w_id (rl_waiters (removed_grant ?l k in_use)) = ids @ map w_id (rl_waiters (os_ledger s'))"
    by (rule drained_moves [OF d(3,2) rdy led])
  show thesis
  proof (rule that)
    show "release_grant s k (g_owner g) = Inr (s', ids)"
      using rel s'(1) by (simp add: release_grant_def)
    show "granted s' + ready_grants s + {#g#} = granted s + ready_grants s'"
      using bt.values_rem [OF bt assms(2)] s'(4,5)
      by (simp add: granted_def ready_grants_def removed_grant_def)
    show "map w_id (rl_waiters ?l) = ids @ map w_id (rl_waiters (os_ledger s'))"
      using s'(9) by (simp add: removed_grant_def)
  qed (use s'(2,6,7,8) in \<open>simp_all add: waiting_def id_demand_def removed_grant_def steady_def same_limits_def\<close>)
qed

lemma position_of_member:
  assumes "k \<in> w_id ` set ws"
  obtains i where "position (\<lambda>w. w_id w = k) ws = Some i" "i < length ws" "w_id (ws ! i) = k"
proof -
  obtain i where "position (\<lambda>w. w_id w = k) ws = Some i"
    using assms position_eq_None_iff [of "\<lambda>w. w_id w = k" ws] by (cases "position (\<lambda>w. w_id w = k) ws") auto
  with position_SomeD [OF this] that show thesis by blast
qed

lemma map_remove_at: "map f (remove_at i xs) = remove_at i (map f xs)"
  by (simp add: remove_at_def take_map drop_map)

lemma cancel_queued_moves:
  assumes "broker_ok s" "bt_get (os_ready s) k = None" "k \<in># waiting s" "id_demand s < 2 ^ 64"
  obtains s' ids where "owned_cancel_waiter s k = Inr (s', ids)" "broker_ok s'"
    "granted s' + ready_grants s = granted s + ready_grants s'"
    "waiting s = add_mset k (waiting s')" "id_demand s' \<le> id_demand s"
    "steady (os_ledger s) (os_ledger s')"
proof -
  let ?l = "os_ledger s"
  have ok: "ledger_ok ?l" and r: "ready_ok ?l (os_ready s)"
    using assms(1) by (simp_all add: broker_ok_def)
  have "k \<in> w_id ` set (rl_waiters ?l)"
    using assms(2,3) by (auto simp: waiting_def bt_get_None_iff)
  then obtain i where i: "position (\<lambda>w. w_id w = k) (rl_waiters ?l) = Some i"
    "i < length (rl_waiters ?l)" "w_id (rl_waiters ?l ! i) = k"
    by (rule position_of_member)
  obtain bytes where u:
    "checked_sub (rl_waiter_bytes ?l) (w_variable_bytes (rl_waiters ?l ! i)) = Some bytes"
    "accounts_ok (removed_waiter ?l i bytes)" "queue_ok (removed_waiter ?l i bytes)"
    "sources_ok (removed_waiter ?l i bytes)"
    by (rule removed_waiter_ok [OF ok i(2)])
  have dem: "unat (rl_next_grant (removed_waiter ?l i bytes)) +
      length (rl_waiters (removed_waiter ?l i bytes)) < 2 ^ 64"
    using assms(4) i(2) by (simp add: removed_waiter_def id_demand_def)
  obtain l' new where d: "drain_waiters (removed_waiter ?l i bytes) [] = Inr (l', new)"
    "ledger_ok l'" "drained (removed_waiter ?l i bytes) l' new"
    by (rule drain_waiters_total [OF u(2-4) dem])
  have can: "cancel_waiter ?l k = Inr (l', new)"
    using i u(1) d(1) by (simp add: cancel_waiter_def removed_waiter_def)
  have same: "bt_remove k (os_ready s) = os_ready s" by (rule bt_remove_absent [OF assms(2)])
  let ?s = "s\<lparr>os_ready := bt_remove k (os_ready s), os_ledger := l'\<rparr>"
  have rdy: "ready_ok (removed_waiter ?l i bytes) (os_ready ?s)"
    using r by (simp add: same ready_ok_def removed_waiter_def)
  have led: "os_ledger ?s = l'" by simp
  obtain s' ids where s': "record_issued ?s new = Inr (s', ids)" "broker_ok s'"
    "ids = map w_id (take (length new) (rl_waiters (removed_waiter ?l i bytes)))"
    "granted s' = mset (bt_values (rl_active (removed_waiter ?l i bytes))) + mset new"
    "ready_grants s' = ready_grants ?s + mset new"
    "waiting s' = mset (map w_id (rl_waiters (removed_waiter ?l i bytes))) +
       mset (map fst (os_ready ?s))"
    "id_demand s' = unat (rl_next_grant (removed_waiter ?l i bytes)) +
       length (rl_waiters (removed_waiter ?l i bytes))"
    "steady (removed_waiter ?l i bytes) (os_ledger s')"
    "map w_id (rl_waiters (removed_waiter ?l i bytes)) = ids @ map w_id (rl_waiters (os_ledger s'))"
    by (rule drained_moves [OF d(3,2) rdy led])
  show thesis
  proof (rule that)
    show "owned_cancel_waiter s k = Inr (s', ids)"
      using can s'(1) assms(2) by (simp add: owned_cancel_waiter_def)
    show "granted s' + ready_grants s = granted s + ready_grants s'"
      using s'(4,5) same by (simp add: granted_def ready_grants_def removed_waiter_def)
    have "mset (map w_id (rl_waiters ?l)) =
        add_mset k (mset (map w_id (remove_at i (rl_waiters ?l))))"
      using mset_remove_at [of i "map w_id (rl_waiters ?l)"] i(2,3) by (simp add: map_remove_at)
    then show "waiting s = add_mset k (waiting s')"
      unfolding waiting_def [of s] s'(6) by (simp add: same removed_waiter_def)
  qed (use s'(2,7,8) i(2) in \<open>simp_all add: id_demand_def removed_waiter_def steady_def same_limits_def\<close>)
qed

lemma remove_ready_ok:
  assumes "ready_ok l ready" "bt_get ready k = Some g"
  shows "ready_ok l (bt_remove k ready)" "g \<notin> snd ` set (bt_remove k ready)"
proof -
  have bt: "bt_ok ready" using assms(1) by (simp add: ready_ok_def)
  show "ready_ok l (bt_remove k ready)"
    using assms(1) by (auto simp: ready_ok_def bt_ok_remove dest!: set_remove_subset)
  have "False" if "(w, g) \<in> set (bt_remove k ready)" for w
  proof -
    have "bt_get (bt_remove k ready) w = Some g"
      using that bt by (simp add: bt_get_Some_iff bt_ok_remove)
    then have "w \<noteq> k" "bt_get ready w = Some g" using bt by (auto simp: bt_get_remove split: if_splits)
    then have "(w, g) \<in> set ready" "(k, g) \<in> set ready"
      using assms(2) bt by (simp_all add: bt_get_Some_iff)
    then have "g_source_waiter g = Some w" "g_source_waiter g = Some k"
      using assms(1) by (auto simp: ready_ok_def)
    with \<open>w \<noteq> k\<close> show False by simp
  qed
  then show "g \<notin> snd ` set (bt_remove k ready)" by auto
qed

lemma cancel_ready_moves:
  assumes "broker_ok s" "bt_get (os_ready s) k = Some g" "id_demand s < 2 ^ 64"
  obtains s' ids where "owned_cancel_waiter s k = Inr (s', ids)" "broker_ok s'"
    "granted s' + ready_grants s = granted s + ready_grants s'"
    "waiting s = add_mset k (waiting s')" "id_demand s' \<le> id_demand s"
    "steady (os_ledger s) (os_ledger s')"
proof -
  let ?s = "s\<lparr>os_ready := bt_remove k (os_ready s)\<rparr>"
  have r: "ready_ok (os_ledger s) (os_ready s)" and bt: "bt_ok (os_ready s)"
    and acc: "bt_ok (rl_active (os_ledger s))"
    using assms(1) by (auto simp: broker_ok_def ready_ok_def ledger_ok_def accounts_ok_def)
  have ok: "broker_ok ?s"
    using assms(1) remove_ready_ok(1) [OF r assms(2)] by (simp add: broker_ok_def)
  have g: "bt_get (rl_active (os_ledger ?s)) (g_id g) = Some g"
    using sources_of_ready(2) [OF r assms(2)] acc by simp
  have notin: "g \<notin> snd ` set (os_ready ?s)" using remove_ready_ok(2) [OF r assms(2)] by simp
  have dem: "id_demand ?s < 2 ^ 64" using assms(3) by (simp add: id_demand_def)
  obtain s' ids where s': "release_grant ?s (g_id g) (g_owner g) = Inr (s', ids)" "broker_ok s'"
    "granted s' + ready_grants ?s + {#g#} = granted ?s + ready_grants s'"
    "waiting s' = waiting ?s" "id_demand s' = id_demand ?s"
    "steady (os_ledger ?s) (os_ledger s')"
    "map w_id (rl_waiters (os_ledger ?s)) = ids @ map w_id (rl_waiters (os_ledger s'))"
    by (rule release_grant_moves [OF ok g notin dem])
  have ready: "mset (os_ready s) = add_mset (k, g) (mset (bt_remove k (os_ready s)))"
    by (rule bt.entries_rem [OF bt assms(2)])
  show thesis
  proof (rule that)
    show "owned_cancel_waiter s k = Inr (s', ids)"
      using s'(1) assms(2) by (simp add: owned_cancel_waiter_def release_grant_def)
    show "granted s' + ready_grants s = granted s + ready_grants s'"
      using s'(3) ready by (simp add: ready_grants_def granted_def)
    show "waiting s = add_mset k (waiting s')"
      unfolding s'(4) using ready by (simp add: waiting_def)
  qed (use s'(2,5,6) in \<open>simp_all add: id_demand_def\<close>)
qed

lemma cancel_moves:
  assumes "broker_ok s" "k \<in># waiting s" "id_demand s < 2 ^ 64"
  obtains s' ids where "owned_cancel_waiter s k = Inr (s', ids)" "broker_ok s'"
    "granted s' + ready_grants s = granted s + ready_grants s'"
    "waiting s = add_mset k (waiting s')" "id_demand s' \<le> id_demand s"
    "steady (os_ledger s) (os_ledger s')"
proof (cases "bt_get (os_ready s) k")
  case None
  from cancel_queued_moves [OF assms(1) None assms(2,3)] that show thesis by blast
next
  case (Some g)
  from cancel_ready_moves [OF assms(1) Some assms(3)] that show thesis by blast
qed

lemma request_moves:
  assumes "broker_ok s" "broker_request s owner resources = Inr (s', adm)"
  shows "broker_ok s' \<and> ready_grants s' = ready_grants s \<and>
    same_limits (os_ledger s) (os_ledger s') \<and> id_demand s' \<le> Suc (id_demand s) \<and>
    rl_next_waiter (os_ledger s) \<le> rl_next_waiter (os_ledger s') \<and>
    (case adm of
       OwnedGranted held \<Rightarrow> le_active held \<and> waiting s' = waiting s \<and>
         granted s' = add_mset (le_grant held) (granted s)
     | OwnedQueued w \<Rightarrow> wa_active w \<and> granted s' = granted s \<and>
         wa_waiter_id w = rl_next_waiter (os_ledger s) \<and>
         waiting s' = add_mset (wa_waiter_id w) (waiting s))"
proof -
  obtain l' a where r: "request (os_ledger s) owner resources = Inr (l', a)"
    and s': "s' = s\<lparr>os_ledger := l'\<rparr>"
    and adm: "adm = (case a of
           Granted grant \<Rightarrow> OwnedGranted \<lparr> le_grant = grant, le_active = True \<rparr>
         | Queued waiter_id \<Rightarrow> OwnedQueued \<lparr> wa_waiter_id = waiter_id, wa_active = True \<rparr>)"
    using assms(2) by (auto simp: broker_request_def result_simps)
  have ok: "ledger_ok (os_ledger s)" using assms(1) by (simp add: broker_ok_def)
  note spec = request_spec [OF ok r]
  show ?thesis
  proof (cases a)
    case (Granted g)
    with spec assms(1) adm show ?thesis
      by (auto simp: s' broker_ok_def ready_ok_def ready_grants_def waiting_def granted_def
          id_demand_def)
  next
    case (Queued k)
    with spec have "unat (rl_next_waiter l') = Suc (unat (rl_next_waiter (os_ledger s)))" by simp
    then have "rl_next_waiter (os_ledger s) \<le> rl_next_waiter l'" by (simp add: word_le_nat_alt)
    with spec assms(1) Queued adm show ?thesis
      by (auto simp: s' broker_ok_def ready_ok_def ready_grants_def waiting_def granted_def
          id_demand_def)
  qed
qed

section \<open>Ownership is exact\<close>

definition client_ok :: "broker_client \<Rightarrow> bool" where
  "client_ok c \<longleftrightarrow>
     list_all le_active (cl_leases c) \<and>
     (case cl_state c of
        None \<Rightarrow> True
      | Some s \<Rightarrow>
          broker_ok s \<and> granted s = mset (held_leases c) + ready_grants s \<and>
          waiting s = mset (held_waiters c) \<and>
          (\<forall>w \<in> set (cl_waiters c). \<not> wa_active w \<longrightarrow>
             wa_waiter_id w \<notin># waiting s \<and> wa_waiter_id w < rl_next_waiter (os_ledger s)))"

definition client_demand :: "broker_client \<Rightarrow> nat" where
  "client_demand c = (case cl_state c of None \<Rightarrow> 0 | Some s \<Rightarrow> id_demand s)"

lemma granted_distinct: "broker_ok s \<Longrightarrow> distinct (bt_values (rl_active (os_ledger s)))"
proof -
  assume "broker_ok s"
  then have "bt_ok (rl_active (os_ledger s))" "\<forall>(k, g) \<in> set (rl_active (os_ledger s)). g_id g = k"
    by (auto simp: broker_ok_def ledger_ok_def accounts_ok_def)
  then have "distinct (map fst (rl_active (os_ledger s)))"
    "map fst (rl_active (os_ledger s)) = map g_id (bt_values (rl_active (os_ledger s)))"
    by (auto simp: bt_ok_def strict_sorted_iff)
  then show ?thesis by (metis distinct_map)
qed

lemma waiting_facts:
  assumes "broker_ok s"
  shows "k \<in># waiting s \<Longrightarrow> k < rl_next_waiter (os_ledger s)"
    and "waiting s = add_mset k M \<Longrightarrow> k \<notin># M"
proof -
  let ?l = "os_ledger s"
  have q: "queue_ok ?l" and src: "sources_ok ?l" and r: "ready_ok ?l (os_ready s)"
    using assms by (simp_all add: broker_ok_def ledger_ok_def)
  have keys: "fst ` set (os_ready s) \<subseteq> set (sources ?l)"
    using sources_of_ready(1) [OF r] bt_get_Some_iff [of "os_ready s"] r
    by (fastforce simp: ready_ok_def)
  show "k \<in># waiting s \<Longrightarrow> k < rl_next_waiter ?l"
    using q src keys by (auto simp: waiting_def queue_ok_def sources_ok_def)
  have "distinct (map w_id (rl_waiters ?l))" "distinct (map fst (os_ready s))"
    using q r by (auto simp: queue_ok_def ready_ok_def bt_ok_def strict_sorted_iff)
  moreover have "w_id ` set (rl_waiters ?l) \<inter> fst ` set (os_ready s) = {}"
    using src keys by (auto simp: sources_ok_def)
  ultimately have dist: "distinct (map w_id (rl_waiters ?l) @ map fst (os_ready s))" by simp
  have "waiting s = mset (map w_id (rl_waiters ?l) @ map fst (os_ready s))"
    by (simp add: waiting_def)
  with dist have "count (waiting s) k \<le> 1" by (metis distinct_count_atmost_1 le_refl zero_le)
  then show "waiting s = add_mset k M \<Longrightarrow> k \<notin># M"
    by (simp add: not_in_iff)
qed

lemma filter_remove_at:
  assumes "i < length xs"
  shows "mset (map f (filter P xs)) =
    (if P (xs ! i) then {#f (xs ! i)#} else {#}) + mset (map f (filter P (remove_at i xs)))"
  using mset_remove_at [OF assms] by (simp add: mset_filter)

lemma client_okD:
  assumes "client_ok c" "cl_state c = Some s"
  shows "broker_ok s" "granted s = mset (held_leases c) + ready_grants s"
    "waiting s = mset (held_waiters c)"
    "\<forall>w \<in> set (cl_waiters c). \<not> wa_active w \<longrightarrow>
       wa_waiter_id w \<notin># waiting s \<and> wa_waiter_id w < rl_next_waiter (os_ledger s)"
    "list_all le_active (cl_leases c)"
  using assms(1) unfolding client_ok_def assms(2) option.case by blast+

lemma client_okI:
  assumes "broker_ok s" "granted s = mset (held_leases c) + ready_grants s"
    "waiting s = mset (held_waiters c)"
    "\<And>w. w \<in> set (cl_waiters c) \<Longrightarrow> \<not> wa_active w \<Longrightarrow>
       wa_waiter_id w \<notin># waiting s \<and> wa_waiter_id w < rl_next_waiter (os_ledger s)"
    "list_all le_active (cl_leases c)" "cl_state c = Some s"
  shows "client_ok c"
  unfolding client_ok_def assms(6) option.case using assms(1-5) by blast

lemma lease_gone:
  assumes "client_ok c" "cl_state c = Some s" "i < length (cl_leases c)" "id_demand s < 2 ^ 64"
  obtains s' where "lease_drop (cl_state c) (cl_leases c ! i) = Some s'"
    "fst (lease_release (cl_state c) (cl_leases c ! i)) = Some s'"
    "client_ok (c\<lparr>cl_state := Some s', cl_leases := remove_at i (cl_leases c)\<rparr>)"
    "id_demand s' \<le> id_demand s"
    "\<exists>ids. snd (lease_release (cl_state c) (cl_leases c ! i)) = Inr ids \<and>
       map w_id (rl_waiters (os_ledger s)) = ids @ map w_id (rl_waiters (os_ledger s'))"
proof -
  let ?held = "cl_leases c ! i"
  let ?g = "le_grant ?held"
  have ok: "broker_ok s" and own: "granted s = mset (held_leases c) + ready_grants s"
    and wait: "waiting s = mset (held_waiters c)"
    and gone: "\<forall>w \<in> set (cl_waiters c). \<not> wa_active w \<longrightarrow>
      wa_waiter_id w \<notin># waiting s \<and> wa_waiter_id w < rl_next_waiter (os_ledger s)"
    and act: "list_all le_active (cl_leases c)"
    using client_okD [OF assms(1,2)] by blast+
  have active: "le_active ?held" using act assms(3) by (simp add: list_all_length)
  have held: "mset (held_leases c) =
      add_mset ?g (mset (held_leases (c\<lparr>cl_state := st, cl_leases := remove_at i (cl_leases c)\<rparr>)))" for st
    using filter_remove_at [OF assms(3), of le_grant le_active] active by (simp add: held_leases_def)
  have count: "count (granted s) ?g \<le> 1"
    using granted_distinct [OF ok] unfolding granted_def
    by (metis distinct_count_atmost_1 le_refl zero_le)
  have "?g \<in># granted s" using own held [of None] by simp
  then obtain k where "(k, ?g) \<in> set (rl_active (os_ledger s))" by (auto simp: granted_def)
  then have get: "bt_get (rl_active (os_ledger s)) (g_id ?g) = Some ?g"
    using ok by (auto simp: broker_ok_def ledger_ok_def accounts_ok_def bt_get_Some_iff)
  have notin: "?g \<notin> snd ` set (os_ready s)"
    using count own held [of None] by (auto simp: ready_grants_def not_in_iff count_eq_zero_iff)
  obtain s' ids where s': "release_grant s (g_id ?g) (g_owner ?g) = Inr (s', ids)" "broker_ok s'"
    "granted s' + ready_grants s + {#?g#} = granted s + ready_grants s'"
    "waiting s' = waiting s" "id_demand s' = id_demand s"
    "steady (os_ledger s) (os_ledger s')"
    "map w_id (rl_waiters (os_ledger s)) = ids @ map w_id (rl_waiters (os_ledger s'))"
    by (rule release_grant_moves [OF ok get notin assms(4)])
  let ?c = "c\<lparr>cl_state := Some s', cl_leases := remove_at i (cl_leases c)\<rparr>"
  have "granted s' = mset (held_leases ?c) + ready_grants s'"
    using s'(3) own held [of "Some s'"] by simp
  moreover have "list_all le_active (cl_leases ?c)"
    using act set_remove_at [of i "cl_leases c"] by (auto simp: list_all_iff)
  moreover have "held_waiters ?c = held_waiters c" by (simp add: held_waiters_def)
  ultimately have "client_ok ?c"
    by (intro client_okI [of s']) (use s'(2,4,6) wait gone in \<open>auto simp: steady_def\<close>)
  with that [of s'] s'(1,5,7) assms(2) active show thesis
    by (simp add: lease_drop_def lease_release_def)
qed

lemma waiter_gone:
  assumes "client_ok c" "cl_state c = Some s" "i < length (cl_waiters c)" "id_demand s < 2 ^ 64"
  obtains s' where "waiter_drop (cl_state c) (cl_waiters c ! i) = Some s'"
    "fst (waiter_cancel (cl_state c) (cl_waiters c ! i)) = Some s'"
    "client_ok (c\<lparr>cl_state := Some s', cl_waiters := remove_at i (cl_waiters c)\<rparr>)"
    "id_demand s' \<le> id_demand s"
proof -
  let ?w = "cl_waiters c ! i"
  let ?k = "wa_waiter_id ?w"
  have ok: "broker_ok s" and own: "granted s = mset (held_leases c) + ready_grants s"
    and wait: "waiting s = mset (held_waiters c)"
    and gone: "\<forall>w \<in> set (cl_waiters c). \<not> wa_active w \<longrightarrow>
      wa_waiter_id w \<notin># waiting s \<and> wa_waiter_id w < rl_next_waiter (os_ledger s)"
    and act: "list_all le_active (cl_leases c)"
    using client_okD [OF assms(1,2)] by blast+
  have rest: "set (remove_at i (cl_waiters c)) \<subseteq> set (cl_waiters c)" by (rule set_remove_at)
  have held: "mset (held_waiters c) = (if wa_active ?w then {#?k#} else {#}) +
      mset (held_waiters (c\<lparr>cl_state := st, cl_waiters := remove_at i (cl_waiters c)\<rparr>))" for st
    using filter_remove_at [OF assms(3), of wa_waiter_id wa_active] by (simp add: held_waiters_def)
  have leases: "held_leases (c\<lparr>cl_state := st, cl_waiters := ws\<rparr>) = held_leases c" for st ws
    by (simp add: held_leases_def)
  show thesis
  proof (cases "wa_active ?w")
    case True
    have "?k \<in># waiting s" using wait held [of None] True by simp
    then obtain s' ids where s': "owned_cancel_waiter s ?k = Inr (s', ids)" "broker_ok s'"
      "granted s' + ready_grants s = granted s + ready_grants s'"
      "waiting s = add_mset ?k (waiting s')" "id_demand s' \<le> id_demand s"
      "steady (os_ledger s) (os_ledger s')"
      using cancel_moves [OF ok _ assms(4)] by blast
    let ?c = "c\<lparr>cl_state := Some s', cl_waiters := remove_at i (cl_waiters c)\<rparr>"
    have "waiting s' = mset (held_waiters ?c)"
      using s'(4) wait held [of "Some s'"] True by simp
    moreover have "granted s' = mset (held_leases ?c) + ready_grants s'"
      using s'(3) own leases by simp
    moreover have "wa_waiter_id w \<notin># waiting s'" if "wa_waiter_id w \<notin># waiting s" for w
      using s'(4) that by simp
    ultimately have "client_ok ?c"
      by (intro client_okI [of s']) (use s'(2,6) gone act rest in \<open>auto simp: steady_def\<close>)
    with that [of s'] s'(1,5) assms(2) True show thesis
      by (simp add: waiter_drop_def waiter_cancel_def)
  next
    case False
    then have "?k \<notin># waiting s" using gone assms(3) by simp
    then have none: "bt_get (os_ready s) ?k = None"
      and "?k \<notin> w_id ` set (rl_waiters (os_ledger s))"
      by (simp_all add: waiting_def bt_get_None_iff)
    then have "position (\<lambda>w. w_id w = ?k) (rl_waiters (os_ledger s)) = None"
      unfolding position_eq_None_iff by (metis imageI)
    with none have "owned_cancel_waiter s ?k = Inl (UnknownWaiter ?k)"
      by (simp add: owned_cancel_waiter_def cancel_waiter_def)
    moreover have "client_ok (c\<lparr>cl_state := Some s, cl_waiters := remove_at i (cl_waiters c)\<rparr>)"
      by (intro client_okI [of s])
        (use ok own wait gone act rest held [of "Some s"] leases False in auto)
    ultimately show thesis
      using that [of s] assms(2) False by (simp add: waiter_drop_def waiter_cancel_def)
  qed
qed

lemma client_try_acquire:
  assumes "client_ok c" "cl_state c = Some s" "i < length (cl_waiters c)"
  shows "client_ok (client_step c (CallTryAcquire i))"
    "client_demand (client_step c (CallTryAcquire i)) \<le> client_demand c"
proof -
  let ?w = "cl_waiters c ! i"
  let ?k = "wa_waiter_id ?w"
  note ok = client_okD [OF assms(1,2)]
  have "client_ok (client_step c (CallTryAcquire i)) \<and>
    client_demand (client_step c (CallTryAcquire i)) \<le> client_demand c"
  proof (cases "wa_active ?w \<and> bt_get (os_ready s) ?k \<noteq> None")
    case False
    then have "try_acquire (cl_state c) ?w = (cl_state c, ?w, Inr None) \<or>
        (\<exists>e. try_acquire (cl_state c) ?w = (cl_state c, ?w, Inl e))"
      using assms(2) by (auto simp: try_acquire_def)
    then have "client_step c (CallTryAcquire i) = c" using assms(3) by auto
    with assms(1) show ?thesis by simp
  next
    case True
    then obtain g where g: "bt_get (os_ready s) ?k = Some g" by auto
    let ?s = "s\<lparr>os_ready := bt_remove ?k (os_ready s)\<rparr>"
    let ?held = "\<lparr>le_grant = g, le_active = True\<rparr>"
    let ?c = "c\<lparr>cl_state := Some ?s, cl_waiters := (cl_waiters c)[i := ?w\<lparr>wa_active := False\<rparr>],
               cl_leases := cl_leases c @ [?held]\<rparr>"
    have step: "client_step c (CallTryAcquire i) = ?c"
      using True g assms(2,3) by (simp add: try_acquire_def)
    have r: "ready_ok (os_ledger s) (os_ready s)" and bt: "bt_ok (os_ready s)"
      using ok(1) by (simp_all add: broker_ok_def ready_ok_def)
    have ready: "mset (os_ready s) = add_mset (?k, g) (mset (bt_remove ?k (os_ready s)))"
      by (rule bt.entries_rem [OF bt g])
    have wait: "waiting s = add_mset ?k (waiting ?s)" using ready by (simp add: waiting_def)
    have upd: "(cl_waiters c)[i := v] = take i (cl_waiters c) @ v # drop (Suc i) (cl_waiters c)" for v
      by (rule upd_conv_take_nth_drop [OF assms(3)])
    have "mset (held_waiters c) = add_mset ?k (mset (held_waiters ?c))"
      using filter_remove_at [OF assms(3), of wa_waiter_id wa_active] True
      by (simp add: held_waiters_def upd remove_at_def)
    then have "waiting ?s = mset (held_waiters ?c)" using wait ok(3) by simp
    moreover have "broker_ok ?s"
      using ok(1) remove_ready_ok(1) [OF r g] by (simp add: broker_ok_def)
    moreover have "granted ?s = mset (held_leases ?c) + ready_grants ?s"
      using ok(2) ready by (simp add: granted_def ready_grants_def held_leases_def)
    moreover have "?k \<notin># waiting ?s" "?k < rl_next_waiter (os_ledger s)"
      using waiting_facts [OF ok(1)] wait by auto
    then have "wa_waiter_id w \<notin># waiting ?s \<and> wa_waiter_id w < rl_next_waiter (os_ledger ?s)"
      if "w \<in> set (cl_waiters ?c)" "\<not> wa_active w" for w
    proof -
      have "w = ?w\<lparr>wa_active := False\<rparr> \<or> w \<in> set (cl_waiters c)"
        using that(1) set_update_subset_insert [of "cl_waiters c" i] by auto
      then show ?thesis
        using ok(4) that(2) wait \<open>?k \<notin># waiting ?s\<close> \<open>?k < rl_next_waiter (os_ledger s)\<close> by auto
    qed
    ultimately have "client_ok ?c"
      by (intro client_okI [of ?s]) (use ok(5) in auto)
    then show ?thesis
      using assms(2) by (simp add: step client_demand_def id_demand_def del: client_step.simps)
  qed
  then show "client_ok (client_step c (CallTryAcquire i))"
    "client_demand (client_step c (CallTryAcquire i)) \<le> client_demand c" by simp_all
qed

lemma client_request:
  assumes "client_ok c" "cl_state c = Some s"
  shows "client_ok (client_step c (CallRequest owner resources))"
    "client_demand (client_step c (CallRequest owner resources)) \<le> Suc (client_demand c)"
proof -
  note ok = client_okD [OF assms]
  have "client_ok (client_step c (CallRequest owner resources)) \<and>
    client_demand (client_step c (CallRequest owner resources)) \<le> Suc (client_demand c)"
  proof (cases "broker_request s owner resources")
    case (Inl e)
    with assms show ?thesis by simp
  next
    case (Inr r)
    then obtain s' adm where r: "broker_request s owner resources = Inr (s', adm)" by (cases r) auto
    note moves = request_moves [OF ok(1) r]
    show ?thesis
    proof (cases adm)
      case (OwnedGranted held)
      let ?c = "c\<lparr>cl_state := Some s', cl_leases := cl_leases c @ [held]\<rparr>"
      have step: "client_step c (CallRequest owner resources) = ?c"
        using r OwnedGranted assms(2) by simp
      have "client_ok ?c"
      proof (rule client_okI [of s'])
        show "granted s' = mset (held_leases ?c) + ready_grants s'"
          using moves OwnedGranted ok(2) by (simp add: held_leases_def)
        show "waiting s' = mset (held_waiters ?c)"
          using moves OwnedGranted ok(3) by (simp add: held_waiters_def)
      qed (use moves OwnedGranted ok(4,5) in \<open>auto dest: order.strict_trans2\<close>)
      with moves assms(2) show ?thesis by (simp add: step client_demand_def del: client_step.simps)
    next
      case (OwnedQueued w)
      let ?c = "c\<lparr>cl_state := Some s', cl_waiters := cl_waiters c @ [w]\<rparr>"
      have step: "client_step c (CallRequest owner resources) = ?c"
        using r OwnedQueued assms(2) by simp
      have "client_ok ?c"
      proof (rule client_okI [of s'])
        show "granted s' = mset (held_leases ?c) + ready_grants s'"
          using moves OwnedQueued ok(2) by (simp add: held_leases_def)
        show "waiting s' = mset (held_waiters ?c)"
          using moves OwnedQueued ok(3) by (simp add: held_waiters_def)
      qed (use moves OwnedQueued ok(4,5) in \<open>auto dest: order.strict_trans2\<close>)
      with moves assms(2) show ?thesis by (simp add: step client_demand_def del: client_step.simps)
    qed
  qed
  then show "client_ok (client_step c (CallRequest owner resources))"
    "client_demand (client_step c (CallRequest owner resources)) \<le> Suc (client_demand c)" by simp_all
qed

lemma client_step_ok:
  assumes "client_ok c" "client_demand c < 2 ^ 64"
  shows "client_ok (client_step c call) \<and> client_demand (client_step c call) \<le> Suc (client_demand c)"
proof (cases "cl_state c")
  case None
  show ?thesis
    by (cases call)
      (use None assms(1) in \<open>auto simp: client_ok_def client_demand_def lease_release_def lease_drop_def
        waiter_cancel_def waiter_drop_def try_acquire_def list_all_iff
        dest!: set_remove_at [THEN subsetD]\<close>)
next
  case (Some s)
  have dem: "id_demand s < 2 ^ 64" using assms(2) Some by (simp add: client_demand_def)
  show ?thesis
  proof (cases call)
    case (CallRequest owner resources)
    then show ?thesis using client_request [OF assms(1) Some] by blast
  next
    case (CallRelease i)
    show ?thesis
    proof (cases "i < length (cl_leases c)")
      case True
      show ?thesis
        by (rule lease_gone [OF assms(1) Some True dem])
          (use CallRelease True Some in \<open>simp add: client_demand_def\<close>)
    qed (use CallRelease assms(1) in simp)
  next
    case (CallDropLease i)
    show ?thesis
    proof (cases "i < length (cl_leases c)")
      case True
      show ?thesis
        by (rule lease_gone [OF assms(1) Some True dem])
          (use CallDropLease True Some in \<open>simp add: client_demand_def\<close>)
    qed (use CallDropLease assms(1) in simp)
  next
    case (CallTryAcquire i)
    show ?thesis
    proof (cases "i < length (cl_waiters c)")
      case True
      from client_try_acquire [OF assms(1) Some this] CallTryAcquire show ?thesis by simp
    qed (use CallTryAcquire assms(1) in simp)
  next
    case (CallCancel i)
    show ?thesis
    proof (cases "i < length (cl_waiters c)")
      case True
      show ?thesis
        by (rule waiter_gone [OF assms(1) Some True dem])
          (use CallCancel True Some in \<open>simp add: client_demand_def\<close>)
    qed (use CallCancel assms(1) in simp)
  next
    case (CallDropWaiter i)
    show ?thesis
    proof (cases "i < length (cl_waiters c)")
      case True
      show ?thesis
        by (rule waiter_gone [OF assms(1) Some True dem])
          (use CallDropWaiter True Some in \<open>simp add: client_demand_def\<close>)
    qed (use CallDropWaiter assms(1) in simp)
  next
    case CallDropBroker
    with assms(1) show ?thesis by (simp add: client_ok_def client_demand_def)
  qed
qed

section \<open>Limits never change\<close>

lemma drain_waiters_limits: "drain_waiters l issued = Inr (l', issued') \<Longrightarrow> same_limits l l'"
proof (induction l issued rule: drain_waiters.induct)
  case (1 l issued)
  from 1(2) consider "l' = l" | w rest bytes l1 g where
      "length (rl_active l) < rl_max_active_grants l" "rl_waiters l = w # rest"
      "\<not> (rl_max_active_per_owner l \<le> owner_active_count l (w_owner w) \<or>
          \<not> can_grant l (w_resources w))"
      "checked_sub (rl_waiter_bytes l) (w_variable_bytes w) = Some bytes"
      "issue (l\<lparr>rl_waiters := rest, rl_waiter_bytes := bytes\<rparr>) (w_owner w) (w_resources w)
         (Some (w_id w)) = Inr (l1, g)"
      "drain_waiters l1 (issued @ [g]) = Inr (l', issued')"
    by (subst (asm) drain_waiters.simps)
      (auto split: if_splits list.splits option.splits sum.splits prod.splits)
  then show ?case
  proof cases
    case 2
    from 1(1) [OF 2(1,2,3,4,5) refl 2(6)] have "same_limits l1 l'" .
    with issue_Inr_simps(4) [OF 2(5)] show ?thesis by (simp add: same_limits_def)
  qed simp
qed

lemma record_issued_ledger: "record_issued s issued = Inr (s', ids) \<Longrightarrow> os_ledger s' = os_ledger s"
  by (auto simp: record_issued_def result_simps)

lemma release_limits: "release l k owner = Inr (l', new) \<Longrightarrow> same_limits l l'"
  by (auto simp: release_def result_simps same_limits_def split: option.splits if_splits
      dest!: drain_waiters_limits)

lemma cancel_limits: "cancel_waiter l k = Inr (l', new) \<Longrightarrow> same_limits l l'"
  by (auto simp: cancel_waiter_def result_simps same_limits_def split: option.splits
      dest!: drain_waiters_limits)

lemma owned_limits:
  "release_grant s k owner = Inr (s', ids) \<Longrightarrow> same_limits (os_ledger s) (os_ledger s')"
  "owned_cancel_waiter s k = Inr (s', ids) \<Longrightarrow> same_limits (os_ledger s) (os_ledger s')"
  by (auto simp: release_grant_def owned_cancel_waiter_def result_simps split: option.splits
      dest!: record_issued_ledger dest: release_limits cancel_limits)

lemma handle_limits:
  "lease_drop (Some s) held = Some s' \<Longrightarrow> same_limits (os_ledger s) (os_ledger s')"
  "waiter_drop (Some s) w = Some s' \<Longrightarrow> same_limits (os_ledger s) (os_ledger s')"
  by (auto simp: lease_drop_def waiter_drop_def split: if_splits sum.splits dest: owned_limits)

definition limits_from :: "ResourceLedger \<Rightarrow> broker_client \<Rightarrow> bool" where
  "limits_from l c = (case cl_state c of None \<Rightarrow> True | Some s \<Rightarrow> same_limits l (os_ledger s))"

lemma release_keeps_limits:
  "fst (lease_release (Some s) held) = Some s' \<Longrightarrow> same_limits (os_ledger s) (os_ledger s')"
  "fst (waiter_cancel (Some s) w) = Some s' \<Longrightarrow> same_limits (os_ledger s) (os_ledger s')"
  by (auto simp: lease_release_def waiter_cancel_def lease_drop_def waiter_drop_def
      split: sum.splits if_splits dest: owned_limits)

lemma request_keeps_limits:
  "broker_request s owner resources = Inr (s', adm) \<Longrightarrow> same_limits (os_ledger s) (os_ledger s')"
  by (auto simp: broker_request_def request_def issue_def result_simps same_limits_def Let_def
      split: if_splits)

lemma client_limits: "limits_from l c \<Longrightarrow> limits_from l (client_step c call)"
  by (cases call; cases "cl_state c")
    (auto simp: limits_from_def try_acquire_def lease_release_def lease_drop_def waiter_cancel_def
      waiter_drop_def split: option.splits sum.splits OwnedAdmission.splits if_splits
      dest: request_keeps_limits owned_limits elim: same_limits_trans)

interpretation limits: invariant_system client_step "limits_from l" for l
  by unfold_locales (rule client_limits)

section \<open>Guarantees for every client\<close>

definition fresh_client :: "OwnedResourceState \<Rightarrow> broker_client" where
  "fresh_client s = \<lparr> cl_state = Some s, cl_leases = [], cl_waiters = [] \<rparr>"

lemma client_run_ok:
  "client_ok c \<Longrightarrow> client_demand c + length calls < 2 ^ 64 \<Longrightarrow>
     client_ok (run_events client_step c calls) \<and>
     client_demand (run_events client_step c calls) \<le> client_demand c + length calls"
proof (induction calls arbitrary: c)
  case (Cons call calls)
  then have "client_ok (client_step c call)"
    "client_demand (client_step c call) \<le> Suc (client_demand c)"
    using client_step_ok [of c call] by auto
  with Cons.IH [of "client_step c call"] Cons.prems show ?case by simp
qed simp

lemma broker_from_contract_ledger:
  assumes "broker_from_contract contract = Inr s"
  shows "ledger_ok (os_ledger s)" "os_ready s = []" "rl_next_grant (os_ledger s) = 1"
    "rl_active (os_ledger s) = []" "rl_waiters (os_ledger s) = []"
    "rl_capacity (os_ledger s) = rc_capacity contract"
    "rl_max_active_grants (os_ledger s) = unat (rc_max_active_grants contract)"
    "rl_max_active_per_owner (os_ledger s) = unat (rc_max_active_per_owner contract)"
proof -
  obtain ledger where l: "ledger_from_contract contract = Inr ledger"
    and s: "s = \<lparr> os_ledger = ledger, os_ready = [] \<rparr>"
    using assms by (auto simp: broker_from_contract_def result_simps)
  have n: "new_with_owner_ceiling (rc_capacity contract)
         (unat (rc_max_active_grants contract)) (unat (rc_max_active_per_owner contract))
         (unat (rc_max_waiter_items contract))
         (rc_max_waiter_declared_variable_bytes contract) = Inr ledger"
    using l by (auto simp: ledger_from_contract_def result_simps)
  from new_ledger_ok [OF n] show "ledger_ok (os_ledger s)" by (simp add: s)
  show "os_ready s = []" by (simp add: s)
  from n show "rl_next_grant (os_ledger s) = 1"
    "rl_active (os_ledger s) = []" "rl_waiters (os_ledger s) = []"
    "rl_capacity (os_ledger s) = rc_capacity contract"
    "rl_max_active_grants (os_ledger s) = unat (rc_max_active_grants contract)"
    "rl_max_active_per_owner (os_ledger s) = unat (rc_max_active_per_owner contract)"
    by (auto simp: s new_with_owner_ceiling_def split: if_splits)
qed

lemma reachable_broker:
  assumes "broker_from_contract contract = Inr s0" "length calls < 2 ^ 64 - 1"
    and "c = run_events client_step (fresh_client s0) calls"
  shows "client_ok c" "limits_from (os_ledger s0) c"
    "client_demand c < 2 ^ 64"
proof -
  note f = broker_from_contract_ledger [OF assms(1)]
  have ok: "client_ok (fresh_client s0)"
    using f by (simp add: client_ok_def fresh_client_def broker_ok_def ready_ok_def granted_def
        ready_grants_def waiting_def held_leases_def held_waiters_def)
  have dem: "client_demand (fresh_client s0) = 1"
    using f by (simp add: client_demand_def fresh_client_def id_demand_def)
  show "client_ok c" "client_demand c < 2 ^ 64"
    using client_run_ok [OF ok, of calls] dem assms(2,3) by auto
  have "limits_from (os_ledger s0) (fresh_client s0)" by (simp add: limits_from_def fresh_client_def)
  from limits.inv_run [OF this] assms(3) show "limits_from (os_ledger s0) c" by simp
qed

text \<open>
  C19: Exact ownership: whatever a client does with its leases and waiters, the grants counted by
  the ledger are exactly those held by its live leases plus those ready for a waiter to collect,
  and the queued and ready identities are exactly its live waiter handles; the broker's own
  verification accepts the state.
\<close>

theorem broker_ownership_exact:
  assumes "broker_from_contract contract = Inr s0" "length calls < 2 ^ 64 - 1"
    and "c = run_events client_step (fresh_client s0) calls" "cl_state c = Some s"
  shows "mset (bt_values (rl_active (os_ledger s))) =
      mset (held_leases c) + mset (bt_values (os_ready s)) \<and>
    mset (map w_id (rl_waiters (os_ledger s))) + mset (map fst (os_ready s)) =
      mset (held_waiters c) \<and>
    broker_verify s = Inr ()"
proof -
  note ok = client_okD [OF reachable_broker(1) [OF assms(1-3)] assms(4)]
  have "\<forall>(w, g) \<in> set (os_ready s). g_source_waiter g = Some w \<and>
      bt_get (rl_active (os_ledger s)) (g_id g) = Some g"
    using ok(1) by (auto simp: broker_ok_def ready_ok_def ledger_ok_def accounts_ok_def bt_get_Some_iff)
  then have "broker_verify s = Inr ()"
    using ok(1) by (auto simp: broker_verify_def broker_ok_def ledger_ok_verifies list_ex_iff)
  with ok(2,3) show ?thesis by (simp add: granted_def ready_grants_def waiting_def)
qed

lemma sum_list_submultiset:
  "mset xs = mset ys + M \<Longrightarrow> sum_list (map f ys) \<le> sum_list (map f xs)" for f :: "'a \<Rightarrow> nat"
  by (metis le_add1 image_mset_union mset_map sum_mset.union sum_mset_sum_list)

lemma filter_submultiset:
  "mset xs = mset ys + M \<Longrightarrow> length (filter P ys) \<le> length (filter P xs)"
  by (metis filter_union_mset le_add1 mset_filter size_mset size_union)

text \<open>
  Capacity is never oversubscribed: in every dimension the resources held by the client's
  leases stay within the contract's capacity, at most the contract's number of leases is live,
  and no owner holds more than its ceiling.
\<close>

theorem broker_capacity_respected:
  assumes "broker_from_contract contract = Inr s0" "length calls < 2 ^ 64 - 1"
    and "c = run_events client_step (fresh_client s0) calls" "cl_state c = Some s"
  shows "sum_list (map (\<lambda>g. amount (g_resources g) d) (held_leases c)) \<le> amount (rc_capacity contract) d \<and>
    length (held_leases c) \<le> unat (rc_max_active_grants contract) \<and>
    length (filter (\<lambda>g. g_owner g = owner) (held_leases c)) \<le> unat (rc_max_active_per_owner contract)"
proof -
  note reach = reachable_broker [OF assms(1-3)]
  note ok = client_okD [OF reach(1) assms(4)]
  note f = broker_from_contract_ledger [OF assms(1)]
  have lim: "same_limits (os_ledger s0) (os_ledger s)"
    using reach(2) assms(4) by (simp add: limits_from_def)
  have acc: "accounts_ok (os_ledger s)" using ok(1) by (simp add: broker_ok_def ledger_ok_def)
  have own: "mset (bt_values (rl_active (os_ledger s))) = mset (held_leases c) + ready_grants s"
    using ok(2) by (simp add: granted_def)
  have "sum_list (map (\<lambda>g. amount (g_resources g) d) (held_leases c)) \<le>
      amount (rl_in_use (os_ledger s)) d"
    using sum_list_submultiset [OF own, of "\<lambda>g. amount (g_resources g) d"] acc
    by (simp add: accounts_ok_def bt.total_def comp_def)
  also have "fits_within (rl_in_use (os_ledger s)) (rc_capacity contract)"
    using acc lim f(6) by (simp add: accounts_ok_def same_limits_def)
  then have "amount (rl_in_use (os_ledger s)) d \<le> amount (rc_capacity contract) d"
    by (simp add: fits_within_iff)
  finally have "sum_list (map (\<lambda>g. amount (g_resources g) d) (held_leases c)) \<le>
      amount (rc_capacity contract) d" .
  moreover have "length (held_leases c) \<le> length (rl_active (os_ledger s))"
    using filter_submultiset [OF own, of "\<lambda>_. True"] by simp
  moreover have "length (filter (\<lambda>g. g_owner g = owner) (held_leases c)) \<le>
      owner_active_count (os_ledger s) owner"
    using filter_submultiset [OF own] by (simp add: owner_active_count_def)
  moreover have "length (rl_active (os_ledger s)) \<le> unat (rc_max_active_grants contract)"
    "owner_active_count (os_ledger s) owner \<le> unat (rc_max_active_per_owner contract)"
    using acc lim f(7,8) by (auto simp: accounts_ok_def same_limits_def)
  ultimately show ?thesis by simp
qed

text \<open>
  C20: No stall and no leak: while a request is queued some grant is still active, so a later
  release will look at the queue again, and the head of the queue could not be admitted now;
  once a client has given up all its leases and waiters nothing is in use and nothing is queued.
\<close>

theorem broker_no_stall_no_leak:
  assumes "broker_from_contract contract = Inr s0" "length calls < 2 ^ 64 - 1"
    and "c = run_events client_step (fresh_client s0) calls" "cl_state c = Some s"
  shows "(rl_waiters (os_ledger s) \<noteq> [] \<longrightarrow>
      rl_active (os_ledger s) \<noteq> [] \<and>
      \<not> admissible (os_ledger s) (w_owner (hd (rl_waiters (os_ledger s))))
          (w_resources (hd (rl_waiters (os_ledger s))))) \<and>
    (held_leases c = [] \<and> held_waiters c = [] \<longrightarrow>
      rl_in_use (os_ledger s) = rv_default \<and> rl_waiters (os_ledger s) = [])"
proof -
  let ?l = "os_ledger s"
  note ok = client_okD [OF reachable_broker(1) [OF assms(1-3)] assms(4)]
  have l: "accounts_ok ?l" "queue_ok ?l" "settled_queue ?l"
    using ok(1) by (simp_all add: broker_ok_def ledger_ok_def)
  have idle: "rl_in_use ?l = rv_default" if "rl_active ?l = []"
    using l(1) that by (intro amount_inject) (simp add: accounts_ok_def bt.total_def rv.amount_zero)
  have "rl_active ?l \<noteq> [] \<and> \<not> admissible ?l (w_owner w) (w_resources w)"
    if w: "rl_waiters ?l = w # rest" for w rest
  proof
    show blocked: "\<not> admissible ?l (w_owner w) (w_resources w)"
      using l(3) w by (simp add: settled_queue_def)
    show "rl_active ?l \<noteq> []"
    proof
      assume empty: "rl_active ?l = []"
      have "fits_within (w_resources w) (rl_capacity ?l)" using l(2) w by (simp add: queue_ok_def)
      with empty l(1) have "admissible ?l (w_owner w) (w_resources w)"
        by (simp add: admissible_def accounts_ok_def owner_active_count_def can_grant_def
            idle rv.add_zero)
      with blocked show False ..
    qed
  qed
  then have "rl_waiters ?l \<noteq> [] \<longrightarrow> rl_active ?l \<noteq> [] \<and>
      \<not> admissible ?l (w_owner (hd (rl_waiters ?l))) (w_resources (hd (rl_waiters ?l)))"
    by (cases "rl_waiters ?l") auto
  moreover have "rl_in_use ?l = rv_default \<and> rl_waiters ?l = []"
    if "held_leases c = []" "held_waiters c = []"
  proof -
    have "rl_waiters ?l = []" "os_ready s = []" using ok(3) that(2) by (simp_all add: waiting_def)
    moreover from this have "rl_active ?l = []"
      using ok(2) that(1) by (simp add: granted_def ready_grants_def)
    ultimately show ?thesis using idle by simp
  qed
  ultimately show ?thesis by blast
qed

text \<open>
  Releasing is total and first-in first-out: releasing any held lease of a reachable client
  succeeds, and the waiters it reports as ready are exactly the front of the queue, the rest of
  which is left in order.
\<close>

theorem broker_release_fifo:
  assumes "broker_from_contract contract = Inr s0" "length calls < 2 ^ 64 - 1"
    and "c = run_events client_step (fresh_client s0) calls" "cl_state c = Some s"
    and "i < length (cl_leases c)"
  shows "\<exists>s' ids. lease_release (Some s) (cl_leases c ! i) = (Some s', Inr ids) \<and>
    map w_id (rl_waiters (os_ledger s)) = ids @ map w_id (rl_waiters (os_ledger s'))"
proof -
  note reach = reachable_broker [OF assms(1-3)]
  have dem: "id_demand s < 2 ^ 64" using reach(3) assms(4) by (simp add: client_demand_def)
  obtain s' where "fst (lease_release (cl_state c) (cl_leases c ! i)) = Some s'"
    "\<exists>ids. snd (lease_release (cl_state c) (cl_leases c ! i)) = Inr ids \<and>
       map w_id (rl_waiters (os_ledger s)) = ids @ map w_id (rl_waiters (os_ledger s'))"
    by (rule lease_gone [OF reach(1) assms(4,5) dem])
  then show ?thesis using assms(4) by (metis prod.collapse)
qed

section \<open>Witnesses\<close>

text \<open>One media request at a time: the second client queues, and the release hands over.\<close>

definition sample_vector :: ResourceVector where
  "sample_vector = rv_default\<lparr> media_requests := 1, memory_bytes := 64 \<rparr>"

definition sample_contract :: ResourceContractV1 where
  "sample_contract = resource_contract_new sample_vector 2 1 4 1024"

definition sample_broker :: OwnedResourceState where
  "sample_broker =
     \<lparr> os_ledger = \<lparr> rl_capacity = sample_vector, rl_in_use = rv_default, rl_active = [],
         rl_waiters = [], rl_max_active_grants = 2, rl_max_active_per_owner = 1,
         rl_max_waiters = 4, rl_max_waiter_bytes = 1024, rl_waiter_bytes = 0,
         rl_next_grant = 1, rl_next_waiter = 1 \<rparr>, os_ready = [] \<rparr>"

definition sample_calls :: "broker_call list" where
  "sample_calls = [CallRequest 1 sample_vector, CallRequest 2 sample_vector]"

lemma sample_broker_contract: "broker_from_contract sample_contract = Inr sample_broker"
  by (simp add: broker_from_contract_def ledger_from_contract_def sample_contract_def
      resource_contract_new_def resource_contract_validate_def new_with_owner_ceiling_def
      sample_broker_def)

definition sample_client :: broker_client where
  "sample_client = run_events client_step (fresh_client sample_broker) sample_calls"

lemma sample_client_state:
  "cl_state sample_client \<noteq> None \<and> length (cl_leases sample_client) = 1 \<and>
   map w_id (rl_waiters (os_ledger (the (cl_state sample_client)))) = [1]"
  by code_simp

lemma sample_client_Some: "cl_state sample_client = Some (the (cl_state sample_client))"
  using sample_client_state by auto

lemma sample_calls_few: "length sample_calls < 2 ^ 64 - 1"
  by (simp add: sample_calls_def)

lemmas sample_run = sample_broker_contract sample_calls_few sample_client_def sample_client_Some

theorem broker_ownership_exact_witness:
  "mset (map w_id (rl_waiters (os_ledger (the (cl_state sample_client))))) +
     mset (map fst (os_ready (the (cl_state sample_client)))) = mset (held_waiters sample_client) \<and>
   broker_verify (the (cl_state sample_client)) = Inr ()"
  using broker_ownership_exact [OF sample_run] by blast

theorem broker_capacity_respected_witness:
  "sum_list (map (\<lambda>g. amount (g_resources g) Dim_memory_bytes) (held_leases sample_client)) \<le>
     amount (rc_capacity sample_contract) Dim_memory_bytes"
  using broker_capacity_respected [OF sample_run] by blast

theorem broker_no_stall_no_leak_witness:
  "rl_waiters (os_ledger (the (cl_state sample_client))) \<noteq> [] \<and>
   rl_active (os_ledger (the (cl_state sample_client))) \<noteq> []"
proof -
  have "rl_waiters (os_ledger (the (cl_state sample_client))) \<noteq> []"
    using sample_client_state by auto
  with broker_no_stall_no_leak [OF sample_run] show ?thesis by blast
qed

theorem broker_release_fifo_witness:
  "\<exists>s' ids. lease_release (cl_state sample_client) (cl_leases sample_client ! 0) =
       (Some s', Inr ids) \<and>
     map w_id (rl_waiters (os_ledger (the (cl_state sample_client)))) =
       ids @ map w_id (rl_waiters (os_ledger s'))"
proof -
  have "0 < length (cl_leases sample_client)" using sample_client_state by simp
  from broker_release_fifo [OF sample_run this] show ?thesis
    using sample_client_Some by metis
qed

end
