(* ===== verification/Lifecycle_States.thy ===== *)
theory Lifecycle_States
  imports Instance_Id
begin

text \<open>
  The vocabulary of the generic lifecycle machines of \<^verbatim>\<open>fforager-core/src/lifecycle.rs\<close>: the
  machine kinds, the complete state space, the events and the declarative effects.

  The state type has 128 variants. It is declared without the datatype plugins, whose
  quadratically many facts are never used; equality of states is decided by the simplifier.
\<close>

datatype MachineKind =
    JobCancellation | SourceRedirect | AtomicAdmission | ByteCreditDurability | Live | Sink
  | Ffmpeg | JavascriptWorker | PluginIpc | CommitArchiveReconciliation | FilesystemCapability
  | Watcher

datatype (plugins only: ) State =
    EffectPending | EffectRecovery | JobQueued | JobRunning | JobCancelling | JobVerifying
  | JobSucceeded | JobFailed | JobCancelled | SourceNew | SourceResolving | SourceRedirecting
  | SourceResolved | SourceFailed | SourceCancelled | AdmissionWaiting | AdmissionGranted
  | AdmissionReleased | AdmissionCancelled | BytesEmpty | BytesReceived | BytesWriting
  | BytesWritten | BytesSynchronizing | BytesDurable | BytesFailed | BytesCancelled | LiveStarting
  | LiveRefreshing | LiveStreaming | LiveStopped | LiveFailed | LiveCancelled | SinkPending
  | SinkActive | SinkDraining | SinkCompleted | SinkDropped | SinkFailed | SinkCancelled
  | FfmpegPrepared | FfmpegSpawning | FfmpegSpawned | FfmpegRunning | FfmpegReaping
  | FfmpegCancelling | FfmpegFailing | FfmpegExitReleasing | FfmpegCancellationReleasing
  | FfmpegFailureReleasing | FfmpegSpawnRecovering | FfmpegReapRecovering
  | FfmpegCancellationRecovering | FfmpegFailureRecovering | FfmpegExitReleaseRecovering
  | FfmpegCancellationReleaseRecovering | FfmpegFailureReleaseRecovering | FfmpegExited
  | FfmpegFailed | FfmpegCancelled | JavascriptIdle | JavascriptAssigned | JavascriptRunning
  | JavascriptRecycling | JavascriptQuarantined | JavascriptCompleted | JavascriptCancelled
  | PluginDisconnected | PluginHandshaking | PluginReady | PluginInFlight | PluginDraining
  | PluginStopped | PluginFailed | CommitWorking | CommitPreparing | CommitDataSynchronizing
  | CommitPreparedDirectorySynchronizing | CommitPreparedRecordAppending
  | CommitPreparedJournalSynchronizing | CommitPrepared | CommitRenaming
  | CommitRenameDirectorySynchronizing | CommitRenamedRecordAppending
  | CommitRenamedJournalSynchronizing | CommitRenamed | CommitArchiving
  | CommitArchivedRecordAppending | CommitArchivedJournalSynchronizing | CommitArchived
  | CommitCleaning | CommitCleanedRecordAppending | CommitCleanedJournalSynchronizing
  | CommitCleaned | CommitReconciling | CommitVerifyingPrepared | CommitVerifyingRenamed
  | CommitVerifyingArchived | CommitVerifyingCleaned | CommitCancelling | CommitReconciled
  | CommitInconsistent | CommitCancelled | FilesystemUnknown | FilesystemProbing
  | FilesystemProbed | FilesystemProbeFailed | FilesystemProbeCancelled | FilesystemConfining
  | FilesystemConfinementFailed | FilesystemConfinementCancelled | FilesystemConfined
  | FilesystemDegrading | FilesystemDegradationFailed | FilesystemDegradationCancelled
  | FilesystemDegraded | FilesystemRejecting | FilesystemRejectionFailed
  | FilesystemRejectionCancelled | FilesystemUnsupported | FilesystemCancelled | WatcherStarting
  | WatcherReady | WatcherServing | WatcherDegraded | WatcherStale | WatcherDraining
  | WatcherStopped

datatype (plugins only: ) EffectIntent =
    BeginJob | RequestCancellation | ReleaseResources | ResolveSource | FollowRedirect
  | ReserveResources | AcceptBoundedBytes | ValidateAndWrite | SynchronizeData | RefreshManifest
  | DeliverToSink | DrainSink | SpawnProcess | TerminateProcess | ReapProcess | DispatchWorker
  | RecycleWorker | IsolateWorker | OpenPluginChannel | SendPluginRequest | ClosePluginChannel
  | ValidateOutput | RenameOutput | SynchronizeDirectory | AppendTransitionRecord
  | SynchronizeJournal | InsertArchiveRow | RemoveTemporaryState | RevalidatePreparedOutput
  | VerifyFinalArtifact | VerifyArchiveOutputPair | ProbeFilesystem | EstablishConfinedPath
  | ReportDegradedGuarantees | RejectFilesystem | NegotiateWatcher | SelfTestWatcherStorage
  | VerifyProducerCanary | ReportDiagnosticsDegraded | FlushWatcher | PreserveDiagnostics
  | DrainInFlightEffect

datatype (plugins only: ) Event =
    Start | Assign | Admit | Receive | Validate | PersistDurably | Redirect | Continue | Ready
  | Serve | Refresh | Drain | Spawn | Reap | Acknowledge
  | EffectAcknowledged MachineInstanceId EffectIntent u64
  | EffectFailed MachineInstanceId EffectIntent u64
  | EffectCancelled MachineInstanceId EffectIntent u64 | Recycle | Quarantine | Prepare | Rename
  | Archive | Cleanup | Reconcile | Probe | Confine | Degrade | MarkStale | Reject | Release
  | Complete | Fail | Cancel | Restart

text \<open>The patterns \<^verbatim>\<open>Event::EffectAcknowledged { .. }\<close> and so on.\<close>

definition is_acknowledged :: "Event \<Rightarrow> bool" where
  "is_acknowledged event = (case event of EffectAcknowledged _ _ _ \<Rightarrow> True | _ \<Rightarrow> False)"

definition is_failed :: "Event \<Rightarrow> bool" where
  "is_failed event = (case event of EffectFailed _ _ _ \<Rightarrow> True | _ \<Rightarrow> False)"

definition is_cancelled :: "Event \<Rightarrow> bool" where
  "is_cancelled event = (case event of EffectCancelled _ _ _ \<Rightarrow> True | _ \<Rightarrow> False)"

definition is_outcome :: "Event \<Rightarrow> bool" where
  "is_outcome event = (is_acknowledged event \<or> is_failed event \<or> is_cancelled event)"

end
