(* ===== verification/Lifecycle_Tables.thy ===== *)
theory Lifecycle_Tables
  imports Lifecycle_States
begin

text \<open>
  The transition tables of \<^verbatim>\<open>fforager-core/src/lifecycle.rs\<close>.

  A Rust \<^verbatim>\<open>match (state, event)\<close> is a list of arms tried in order; an arm lists the alternatives
  of its state pattern and of its event pattern and gives the result. Every table below has the
  arms of the source in the order of the source (an arm written with an alternative of whole
  pairs is one entry per pair).
\<close>

named_theorems table_defs

datatype EventPattern = On Event | AnyAcknowledged | AnyFailed | AnyCancelled

fun event_matches :: "EventPattern \<Rightarrow> Event \<Rightarrow> bool" where
  "event_matches (On expected) event = (event = expected)"
| "event_matches AnyAcknowledged event = is_acknowledged event"
| "event_matches AnyFailed event = is_failed event"
| "event_matches AnyCancelled event = is_cancelled event"

type_synonym target = "State \<times> EffectIntent list"

type_synonym arm = "State list \<times> EventPattern list \<times> target option"

fun match_arms :: "arm list \<Rightarrow> State \<Rightarrow> Event \<Rightarrow> target option" where
  "match_arms [] state event = None"
| "match_arms ((states, patterns, result) # arms) state event =
     (if state \<in> set states \<and> list_ex (\<lambda>p. event_matches p event) patterns then result
      else match_arms arms state event)"

section \<open>States of a machine\<close>

definition uses_generic_effect_wrapper :: "MachineKind \<Rightarrow> bool" where
  "uses_generic_effect_wrapper kind = (kind \<notin> {Ffmpeg, FilesystemCapability})"

fun initial :: "MachineKind \<Rightarrow> State" where
  "initial JobCancellation = JobQueued"
| "initial SourceRedirect = SourceNew"
| "initial AtomicAdmission = AdmissionWaiting"
| "initial ByteCreditDurability = BytesEmpty"
| "initial Live = LiveStarting"
| "initial Sink = SinkPending"
| "initial Ffmpeg = FfmpegPrepared"
| "initial JavascriptWorker = JavascriptIdle"
| "initial PluginIpc = PluginDisconnected"
| "initial CommitArchiveReconciliation = CommitWorking"
| "initial FilesystemCapability = FilesystemUnknown"
| "initial Watcher = WatcherStarting"

text \<open>The pairs listed by \<^verbatim>\<open>belongs\<close>.\<close>

fun kind_states :: "MachineKind \<Rightarrow> State list" where
  "kind_states JobCancellation =
     [JobQueued, JobRunning, JobCancelling, JobVerifying, JobSucceeded, JobFailed, JobCancelled]"
| "kind_states SourceRedirect =
     [SourceNew, SourceResolving, SourceRedirecting, SourceResolved, SourceFailed, SourceCancelled]"
| "kind_states AtomicAdmission =
     [AdmissionWaiting, AdmissionGranted, AdmissionReleased, AdmissionCancelled]"
| "kind_states ByteCreditDurability =
     [BytesEmpty, BytesReceived, BytesWriting, BytesWritten, BytesSynchronizing, BytesDurable,
      BytesFailed, BytesCancelled]"
| "kind_states Live =
     [LiveStarting, LiveRefreshing, LiveStreaming, LiveStopped, LiveFailed, LiveCancelled]"
| "kind_states Sink =
     [SinkPending, SinkActive, SinkDraining, SinkCompleted, SinkDropped, SinkFailed, SinkCancelled]"
| "kind_states Ffmpeg =
     [FfmpegPrepared, FfmpegSpawning, FfmpegSpawned, FfmpegRunning, FfmpegReaping,
      FfmpegCancelling, FfmpegFailing, FfmpegExitReleasing, FfmpegCancellationReleasing,
      FfmpegFailureReleasing, FfmpegSpawnRecovering, FfmpegReapRecovering,
      FfmpegCancellationRecovering, FfmpegFailureRecovering, FfmpegExitReleaseRecovering,
      FfmpegCancellationReleaseRecovering, FfmpegFailureReleaseRecovering, FfmpegExited,
      FfmpegFailed, FfmpegCancelled]"
| "kind_states JavascriptWorker =
     [JavascriptIdle, JavascriptAssigned, JavascriptRunning, JavascriptRecycling,
      JavascriptQuarantined, JavascriptCompleted, JavascriptCancelled]"
| "kind_states PluginIpc =
     [PluginDisconnected, PluginHandshaking, PluginReady, PluginInFlight, PluginDraining,
      PluginStopped, PluginFailed]"
| "kind_states CommitArchiveReconciliation =
     [CommitWorking, CommitPreparing, CommitDataSynchronizing,
      CommitPreparedDirectorySynchronizing, CommitPreparedRecordAppending,
      CommitPreparedJournalSynchronizing, CommitPrepared, CommitRenaming,
      CommitRenameDirectorySynchronizing, CommitRenamedRecordAppending,
      CommitRenamedJournalSynchronizing, CommitRenamed, CommitArchiving,
      CommitArchivedRecordAppending, CommitArchivedJournalSynchronizing, CommitArchived,
      CommitCleaning, CommitCleanedRecordAppending, CommitCleanedJournalSynchronizing,
      CommitCleaned, CommitReconciling, CommitVerifyingPrepared, CommitVerifyingRenamed,
      CommitVerifyingArchived, CommitVerifyingCleaned, CommitCancelling, CommitReconciled,
      CommitInconsistent, CommitCancelled]"
| "kind_states FilesystemCapability =
     [FilesystemUnknown, FilesystemProbing, FilesystemProbed, FilesystemProbeFailed,
      FilesystemProbeCancelled, FilesystemConfining, FilesystemConfinementFailed,
      FilesystemConfinementCancelled, FilesystemConfined, FilesystemDegrading,
      FilesystemDegradationFailed, FilesystemDegradationCancelled, FilesystemDegraded,
      FilesystemRejecting, FilesystemRejectionFailed, FilesystemRejectionCancelled,
      FilesystemUnsupported, FilesystemCancelled]"
| "kind_states Watcher =
     [WatcherStarting, WatcherReady, WatcherServing, WatcherDegraded, WatcherStale,
      WatcherDraining, WatcherStopped]"

definition belongs :: "MachineKind \<Rightarrow> State \<Rightarrow> bool" where
  "belongs kind state =
     (if state \<in> {EffectPending, EffectRecovery} then uses_generic_effect_wrapper kind
      else state \<in> set (kind_states kind))"

fun durable_states :: "MachineKind \<Rightarrow> State list" where
  "durable_states JobCancellation = [JobSucceeded]"
| "durable_states SourceRedirect = [SourceResolved]"
| "durable_states AtomicAdmission = []"
| "durable_states ByteCreditDurability = [BytesReceived, BytesWritten, BytesDurable]"
| "durable_states Live = [LiveStreaming]"
| "durable_states Sink = [SinkActive, SinkCompleted]"
| "durable_states Ffmpeg = [FfmpegExited]"
| "durable_states JavascriptWorker = []"
| "durable_states PluginIpc = []"
| "durable_states CommitArchiveReconciliation =
     [CommitPrepared, CommitRenamed, CommitArchived, CommitCleaned, CommitReconciled]"
| "durable_states FilesystemCapability =
     [FilesystemConfined, FilesystemDegraded, FilesystemUnsupported]"
| "durable_states Watcher =
     [WatcherReady, WatcherServing, WatcherDegraded, WatcherStale, WatcherStopped]"

definition is_durable_state :: "MachineKind \<Rightarrow> State \<Rightarrow> bool" where
  "is_durable_state kind state = (state \<in> set (durable_states kind))"

section \<open>Effects that must be acknowledged\<close>

definition COMMIT_PREPARE_EFFECTS :: "EffectIntent list" where
  "COMMIT_PREPARE_EFFECTS = [ValidateOutput]"

definition COMMIT_RENAME_EFFECTS :: "EffectIntent list" where
  "COMMIT_RENAME_EFFECTS = [RenameOutput]"

definition acknowledgement_arms :: "(State list \<times> EffectIntent list) list" where
  "acknowledgement_arms =
     [([JobCancelling], [RequestCancellation]),
      ([JobVerifying, CommitReconciling, CommitVerifyingArchived, CommitVerifyingCleaned],
       [VerifyArchiveOutputPair]),
      ([BytesWriting], [ValidateAndWrite]),
      ([BytesSynchronizing, CommitDataSynchronizing], [SynchronizeData]),
      ([FfmpegSpawning], [SpawnProcess]),
      ([FfmpegReaping], [ReapProcess]),
      ([FfmpegCancelling], [TerminateProcess, ReapProcess]),
      ([FfmpegFailing], [TerminateProcess, ReapProcess, PreserveDiagnostics]),
      ([FfmpegExitReleasing, FfmpegCancellationReleasing, FfmpegFailureReleasing],
       [ReleaseResources]),
      ([FfmpegSpawnRecovering, FfmpegReapRecovering, FfmpegCancellationRecovering,
        FfmpegFailureRecovering, FfmpegExitReleaseRecovering,
        FfmpegCancellationReleaseRecovering, FfmpegFailureReleaseRecovering],
       [PreserveDiagnostics]),
      ([JavascriptRecycling], [RecycleWorker]),
      ([PluginDraining], [ClosePluginChannel]),
      ([CommitPreparing], COMMIT_PREPARE_EFFECTS),
      ([CommitPreparedDirectorySynchronizing, CommitRenameDirectorySynchronizing],
       [SynchronizeDirectory]),
      ([CommitPreparedRecordAppending, CommitRenamedRecordAppending,
        CommitArchivedRecordAppending, CommitCleanedRecordAppending],
       [AppendTransitionRecord]),
      ([CommitPreparedJournalSynchronizing, CommitRenamedJournalSynchronizing,
        CommitArchivedJournalSynchronizing, CommitCleanedJournalSynchronizing],
       [SynchronizeJournal]),
      ([CommitRenaming], COMMIT_RENAME_EFFECTS),
      ([CommitArchiving], [InsertArchiveRow]),
      ([CommitCleaning], [RemoveTemporaryState]),
      ([CommitVerifyingPrepared], [RevalidatePreparedOutput]),
      ([CommitVerifyingRenamed], [VerifyFinalArtifact]),
      ([CommitCancelling], [DrainInFlightEffect]),
      ([FilesystemProbing], [ProbeFilesystem]),
      ([FilesystemConfining], [EstablishConfinedPath]),
      ([FilesystemDegrading], [ReportDegradedGuarantees]),
      ([FilesystemRejecting], [RejectFilesystem]),
      ([WatcherDraining], [FlushWatcher])]"

fun match_states :: "(State list \<times> EffectIntent list) list \<Rightarrow> State \<Rightarrow> EffectIntent list" where
  "match_states [] state = []"
| "match_states ((states, result) # arms) state =
     (if state \<in> set states then result else match_states arms state)"

definition acknowledgement_effects :: "State \<Rightarrow> EffectIntent list \<Rightarrow> EffectIntent list" where
  "acknowledgement_effects state emitted =
     filter (\<lambda>effect. effect \<in> set emitted) (match_states acknowledgement_arms state)"

section \<open>Transitions\<close>

definition step :: "State \<Rightarrow> EffectIntent list \<Rightarrow> target option" where
  "step after effects = Some (after, effects)"

definition job_arms :: "arm list" where
  "job_arms =
     [([JobQueued], [On Start], step JobRunning [BeginJob]),
      ([JobQueued], [On Cancel], step JobCancelled []),
      ([JobRunning, JobVerifying], [On Cancel], step JobCancelling [RequestCancellation]),
      ([JobCancelling], [AnyAcknowledged], step JobCancelled [ReleaseResources]),
      ([JobRunning], [On Reconcile], step JobVerifying [VerifyArchiveOutputPair]),
      ([JobVerifying], [AnyAcknowledged], step JobSucceeded [ReleaseResources]),
      ([JobRunning, JobCancelling, JobVerifying],
       [On Fail], step JobFailed [PreserveDiagnostics, ReleaseResources]),
      ([JobFailed, JobCancelled], [On Restart], step JobQueued [])]"

definition job :: "State \<Rightarrow> Event \<Rightarrow> target option" where
  "job state event = match_arms job_arms state event"

definition source_arms :: "arm list" where
  "source_arms =
     [([SourceNew], [On Start], step SourceResolving [ResolveSource]),
      ([SourceRedirecting], [On Continue], step SourceResolving [ResolveSource]),
      ([SourceResolving], [On Redirect], step SourceRedirecting [FollowRedirect]),
      ([SourceResolving], [On Complete], step SourceResolved []),
      ([SourceNew, SourceResolving, SourceRedirecting], [On Cancel], step SourceCancelled []),
      ([SourceResolving, SourceRedirecting], [On Fail], step SourceFailed [PreserveDiagnostics]),
      ([SourceFailed, SourceCancelled], [On Restart], step SourceNew [])]"

definition source :: "State \<Rightarrow> Event \<Rightarrow> target option" where
  "source state event = match_arms source_arms state event"

definition admission_arms :: "arm list" where
  "admission_arms =
     [([AdmissionWaiting], [On Admit], step AdmissionGranted [ReserveResources]),
      ([AdmissionGranted], [On Release], step AdmissionReleased [ReleaseResources]),
      ([AdmissionWaiting], [On Cancel], step AdmissionCancelled []),
      ([AdmissionGranted], [On Cancel], step AdmissionCancelled [ReleaseResources])]"

definition admission :: "State \<Rightarrow> Event \<Rightarrow> target option" where
  "admission state event = match_arms admission_arms state event"

definition bytes_arms :: "arm list" where
  "bytes_arms =
     [([BytesEmpty, BytesReceived], [On Receive], step BytesReceived [AcceptBoundedBytes]),
      ([BytesReceived], [On Validate], step BytesWriting [ValidateAndWrite]),
      ([BytesWriting], [AnyAcknowledged], step BytesWritten []),
      ([BytesWritten], [On PersistDurably], step BytesSynchronizing [SynchronizeData]),
      ([BytesSynchronizing], [AnyAcknowledged], step BytesDurable []),
      ([BytesEmpty, BytesReceived, BytesWriting, BytesWritten, BytesSynchronizing],
       [On Cancel], step BytesCancelled [ReleaseResources]),
      ([BytesReceived, BytesWriting, BytesWritten, BytesSynchronizing],
       [On Fail], step BytesFailed [PreserveDiagnostics, ReleaseResources]),
      ([BytesFailed, BytesCancelled], [On Restart], step BytesEmpty [])]"

definition bytes :: "State \<Rightarrow> Event \<Rightarrow> target option" where
  "bytes state event = match_arms bytes_arms state event"

definition live_arms :: "arm list" where
  "live_arms =
     [([LiveStarting], [On Ready], step LiveRefreshing [RefreshManifest]),
      ([LiveStreaming], [On Refresh], step LiveRefreshing [RefreshManifest]),
      ([LiveRefreshing], [On Serve], step LiveStreaming [DeliverToSink]),
      ([LiveStreaming, LiveRefreshing], [On Drain], step LiveStopped [DrainSink]),
      ([LiveStarting, LiveRefreshing, LiveStreaming],
       [On Cancel], step LiveCancelled [ReleaseResources]),
      ([LiveRefreshing, LiveStreaming], [On Fail], step LiveFailed [PreserveDiagnostics]),
      ([LiveFailed, LiveCancelled], [On Restart], step LiveStarting [])]"

definition live :: "State \<Rightarrow> Event \<Rightarrow> target option" where
  "live state event = match_arms live_arms state event"

definition sink_arms :: "arm list" where
  "sink_arms =
     [([SinkPending], [On Start], step SinkActive [DeliverToSink]),
      ([SinkActive], [On Drain], step SinkDraining [DrainSink]),
      ([SinkDraining], [On Complete], step SinkCompleted []),
      ([SinkActive], [On Reject], step SinkDropped [ReleaseResources]),
      ([SinkPending, SinkActive, SinkDraining],
       [On Cancel], step SinkCancelled [ReleaseResources]),
      ([SinkActive, SinkDraining],
       [On Fail], step SinkFailed [PreserveDiagnostics, ReleaseResources])]"

definition sink :: "State \<Rightarrow> Event \<Rightarrow> target option" where
  "sink state event = match_arms sink_arms state event"

definition ffmpeg_recovery_after_all_outcomes :: "State \<Rightarrow> target option" where
  "ffmpeg_recovery_after_all_outcomes state =
     (if state = FfmpegSpawning then step FfmpegSpawnRecovering [PreserveDiagnostics]
      else if state = FfmpegReaping then step FfmpegReapRecovering [PreserveDiagnostics]
      else if state = FfmpegCancelling then step FfmpegCancellationRecovering [PreserveDiagnostics]
      else if state = FfmpegFailing then step FfmpegFailureRecovering [PreserveDiagnostics]
      else if state = FfmpegExitReleasing then step FfmpegExitReleaseRecovering [PreserveDiagnostics]
      else if state = FfmpegCancellationReleasing then step FfmpegCancellationReleaseRecovering [PreserveDiagnostics]
      else if state = FfmpegFailureReleasing then step FfmpegFailureReleaseRecovering [PreserveDiagnostics]
      else None)"

definition ffmpeg_recovery_states :: "State list" where
  "ffmpeg_recovery_states =
     [FfmpegSpawnRecovering, FfmpegReapRecovering, FfmpegCancellationRecovering,
      FfmpegFailureRecovering, FfmpegExitReleaseRecovering, FfmpegCancellationReleaseRecovering,
      FfmpegFailureReleaseRecovering]"

definition ffmpeg_recovery :: "State \<Rightarrow> Event \<Rightarrow> target option" where
  "ffmpeg_recovery state event =
     (case if is_failed event \<or> is_cancelled event
           then ffmpeg_recovery_after_all_outcomes state else None of
        Some recovery \<Rightarrow> Some recovery
      | None \<Rightarrow>
          match_arms
            [(ffmpeg_recovery_states, [AnyAcknowledged, AnyFailed, AnyCancelled], step state [])]
            state event)"

definition ffmpeg_arms :: "arm list" where
  "ffmpeg_arms =
     [([FfmpegPrepared], [On Spawn], step FfmpegSpawning [SpawnProcess]),
      ([FfmpegSpawnRecovering], [On Restart], step FfmpegSpawning [SpawnProcess]),
      ([FfmpegSpawning], [AnyAcknowledged], step FfmpegSpawned []),
      ([FfmpegSpawned], [On Start], step FfmpegRunning []),
      ([FfmpegRunning], [On Complete], step FfmpegReaping [ReapProcess]),
      ([FfmpegReapRecovering], [On Restart], step FfmpegReaping [ReapProcess]),
      ([FfmpegReaping], [AnyAcknowledged], step FfmpegExitReleasing [ReleaseResources]),
      ([FfmpegExitReleaseRecovering], [On Restart], step FfmpegExitReleasing [ReleaseResources]),
      ([FfmpegExitReleasing], [AnyAcknowledged], step FfmpegExited []),
      ([FfmpegPrepared], [On Cancel], step FfmpegCancellationReleasing [ReleaseResources]),
      ([FfmpegCancelling], [AnyAcknowledged], step FfmpegCancellationReleasing [ReleaseResources]),
      ([FfmpegCancellationReleaseRecovering],
       [On Restart], step FfmpegCancellationReleasing [ReleaseResources]),
      ([FfmpegCancellationReleasing], [AnyAcknowledged], step FfmpegCancelled []),
      ([FfmpegSpawned, FfmpegRunning],
       [On Cancel], step FfmpegCancelling [TerminateProcess, ReapProcess]),
      ([FfmpegCancellationRecovering],
       [On Restart], step FfmpegCancelling [TerminateProcess, ReapProcess]),
      ([FfmpegSpawned, FfmpegRunning, FfmpegReaping],
       [On Fail], step FfmpegFailing [TerminateProcess, ReapProcess, PreserveDiagnostics]),
      ([FfmpegFailureRecovering],
       [On Restart], step FfmpegFailing [TerminateProcess, ReapProcess, PreserveDiagnostics]),
      ([FfmpegFailing], [AnyAcknowledged], step FfmpegFailureReleasing [ReleaseResources]),
      ([FfmpegFailureReleaseRecovering],
       [On Restart], step FfmpegFailureReleasing [ReleaseResources]),
      ([FfmpegFailureReleasing], [AnyAcknowledged], step FfmpegFailed []),
      ([FfmpegFailed, FfmpegCancelled], [On Restart], step FfmpegPrepared [])]"

definition ffmpeg :: "State \<Rightarrow> Event \<Rightarrow> target option" where
  "ffmpeg state event =
     (case ffmpeg_recovery state event of
        Some recovery \<Rightarrow> Some recovery
      | None \<Rightarrow> match_arms ffmpeg_arms state event)"

definition javascript_arms :: "arm list" where
  "javascript_arms =
     [([JavascriptIdle], [On Assign], step JavascriptAssigned [DispatchWorker]),
      ([JavascriptAssigned], [On Start], step JavascriptRunning []),
      ([JavascriptRunning], [On Complete], step JavascriptCompleted []),
      ([JavascriptRunning], [On Recycle], step JavascriptRecycling [RecycleWorker]),
      ([JavascriptRecycling], [AnyAcknowledged], step JavascriptIdle []),
      ([JavascriptAssigned, JavascriptRunning],
       [On Quarantine], step JavascriptQuarantined [IsolateWorker, PreserveDiagnostics]),
      ([JavascriptQuarantined], [On Restart], step JavascriptIdle [RecycleWorker]),
      ([JavascriptAssigned, JavascriptRunning],
       [On Cancel], step JavascriptCancelled [ReleaseResources])]"

definition javascript :: "State \<Rightarrow> Event \<Rightarrow> target option" where
  "javascript state event = match_arms javascript_arms state event"

definition plugin_arms :: "arm list" where
  "plugin_arms =
     [([PluginDisconnected], [On Start], step PluginHandshaking [OpenPluginChannel]),
      ([PluginHandshaking], [On Ready], step PluginReady []),
      ([PluginInFlight], [On Complete], step PluginReady []),
      ([PluginReady], [On Assign], step PluginInFlight [SendPluginRequest]),
      ([PluginHandshaking, PluginReady, PluginInFlight],
       [On Drain, On Cancel], step PluginDraining [ClosePluginChannel]),
      ([PluginDraining], [AnyAcknowledged], step PluginStopped []),
      ([PluginHandshaking, PluginReady, PluginInFlight, PluginDraining],
       [On Fail], step PluginFailed [ClosePluginChannel, PreserveDiagnostics]),
      ([PluginFailed, PluginStopped], [On Restart], step PluginDisconnected [])]"

definition plugin :: "State \<Rightarrow> Event \<Rightarrow> target option" where
  "plugin state event = match_arms plugin_arms state event"

definition commit_arms :: "arm list" where
  "commit_arms =
     [([CommitWorking], [On Prepare], step CommitPreparing COMMIT_PREPARE_EFFECTS),
      ([CommitPreparing], [AnyAcknowledged], step CommitDataSynchronizing [SynchronizeData]),
      ([CommitDataSynchronizing],
       [AnyAcknowledged], step CommitPreparedDirectorySynchronizing [SynchronizeDirectory]),
      ([CommitPreparedDirectorySynchronizing],
       [AnyAcknowledged], step CommitPreparedRecordAppending [AppendTransitionRecord]),
      ([CommitPreparedRecordAppending],
       [AnyAcknowledged], step CommitPreparedJournalSynchronizing [SynchronizeJournal]),
      ([CommitPreparedJournalSynchronizing, CommitVerifyingPrepared],
       [AnyAcknowledged], step CommitPrepared []),
      ([CommitPrepared], [On Rename], step CommitRenaming COMMIT_RENAME_EFFECTS),
      ([CommitRenaming],
       [AnyAcknowledged], step CommitRenameDirectorySynchronizing [SynchronizeDirectory]),
      ([CommitRenameDirectorySynchronizing],
       [AnyAcknowledged], step CommitRenamedRecordAppending [AppendTransitionRecord]),
      ([CommitRenamedRecordAppending],
       [AnyAcknowledged], step CommitRenamedJournalSynchronizing [SynchronizeJournal]),
      ([CommitRenamedJournalSynchronizing, CommitVerifyingRenamed],
       [AnyAcknowledged], step CommitRenamed []),
      ([CommitRenamed], [On Archive], step CommitArchiving [InsertArchiveRow]),
      ([CommitArchiving],
       [AnyAcknowledged], step CommitArchivedRecordAppending [AppendTransitionRecord]),
      ([CommitArchivedRecordAppending],
       [AnyAcknowledged], step CommitArchivedJournalSynchronizing [SynchronizeJournal]),
      ([CommitArchivedJournalSynchronizing, CommitVerifyingArchived],
       [AnyAcknowledged], step CommitArchived []),
      ([CommitArchived], [On Cleanup], step CommitCleaning [RemoveTemporaryState]),
      ([CommitCleaning],
       [AnyAcknowledged], step CommitCleanedRecordAppending [AppendTransitionRecord]),
      ([CommitCleanedRecordAppending],
       [AnyAcknowledged], step CommitCleanedJournalSynchronizing [SynchronizeJournal]),
      ([CommitCleanedJournalSynchronizing, CommitVerifyingCleaned],
       [AnyAcknowledged], step CommitCleaned []),
      ([CommitCleaned], [On Reconcile], step CommitReconciling [VerifyArchiveOutputPair]),
      ([CommitReconciling], [AnyAcknowledged], step CommitReconciled []),
      ([CommitPrepared],
       [On Restart, On Reconcile], step CommitVerifyingPrepared [RevalidatePreparedOutput]),
      ([CommitRenamed],
       [On Restart, On Reconcile], step CommitVerifyingRenamed [VerifyFinalArtifact]),
      ([CommitArchived],
       [On Restart, On Reconcile], step CommitVerifyingArchived [VerifyArchiveOutputPair]),
      ([CommitCleaned], [On Restart], step CommitVerifyingCleaned [VerifyArchiveOutputPair]),
      ([CommitWorking, CommitPreparing, CommitDataSynchronizing,
         CommitPreparedDirectorySynchronizing, CommitPreparedRecordAppending,
         CommitPreparedJournalSynchronizing, CommitPrepared, CommitRenaming,
         CommitRenameDirectorySynchronizing, CommitRenamedRecordAppending,
         CommitRenamedJournalSynchronizing, CommitRenamed, CommitArchiving,
         CommitArchivedRecordAppending, CommitArchivedJournalSynchronizing, CommitArchived,
         CommitCleaning, CommitCleanedRecordAppending, CommitCleanedJournalSynchronizing,
         CommitCleaned], [On Fail], step CommitInconsistent [PreserveDiagnostics]),
      ([CommitWorking, CommitPreparing, CommitDataSynchronizing,
         CommitPreparedDirectorySynchronizing, CommitPreparedRecordAppending,
         CommitPreparedJournalSynchronizing, CommitPrepared, CommitRenaming,
         CommitRenameDirectorySynchronizing, CommitRenamedRecordAppending,
         CommitRenamedJournalSynchronizing, CommitRenamed, CommitArchiving,
         CommitArchivedRecordAppending, CommitArchivedJournalSynchronizing, CommitArchived,
         CommitCleaning, CommitCleanedRecordAppending, CommitCleanedJournalSynchronizing,
         CommitCleaned, CommitReconciling, CommitVerifyingPrepared, CommitVerifyingRenamed,
         CommitVerifyingArchived, CommitVerifyingCleaned],
       [On Cancel], step CommitCancelling [PreserveDiagnostics, DrainInFlightEffect]),
      ([CommitCancelling], [AnyAcknowledged], step CommitCancelled [ReleaseResources])]"

definition commit :: "State \<Rightarrow> Event \<Rightarrow> target option" where
  "commit state event = match_arms commit_arms state event"

definition filesystem_arms :: "arm list" where
  "filesystem_arms =
     [([FilesystemUnknown], [On Probe], step FilesystemProbing [ProbeFilesystem]),
      ([FilesystemProbing], [AnyAcknowledged], step FilesystemProbed []),
      ([FilesystemProbing], [AnyFailed], step FilesystemProbeFailed []),
      ([FilesystemProbing], [AnyCancelled], step FilesystemProbeCancelled []),
      ([FilesystemProbed], [On Confine], step FilesystemConfining [EstablishConfinedPath]),
      ([FilesystemConfining], [AnyAcknowledged], step FilesystemConfined []),
      ([FilesystemConfining], [AnyFailed], step FilesystemConfinementFailed []),
      ([FilesystemConfining], [AnyCancelled], step FilesystemConfinementCancelled []),
      ([FilesystemProbed], [On Degrade], step FilesystemDegrading [ReportDegradedGuarantees]),
      ([FilesystemDegrading], [AnyAcknowledged], step FilesystemDegraded []),
      ([FilesystemDegrading], [AnyFailed], step FilesystemDegradationFailed []),
      ([FilesystemDegrading], [AnyCancelled], step FilesystemDegradationCancelled []),
      ([FilesystemProbed], [On Reject], step FilesystemRejecting [RejectFilesystem]),
      ([FilesystemRejecting], [AnyAcknowledged], step FilesystemUnsupported []),
      ([FilesystemRejecting], [AnyFailed], step FilesystemRejectionFailed []),
      ([FilesystemRejecting], [AnyCancelled], step FilesystemRejectionCancelled []),
      ([FilesystemProbed], [On Cancel], step FilesystemCancelled []),
      ([FilesystemProbeFailed, FilesystemProbeCancelled], [On Restart], step FilesystemUnknown []),
      ([FilesystemConfinementFailed, FilesystemConfinementCancelled, FilesystemDegradationFailed,
         FilesystemDegradationCancelled, FilesystemRejectionFailed,
         FilesystemRejectionCancelled], [On Restart], step FilesystemProbed []),
      ([FilesystemDegraded, FilesystemUnsupported, FilesystemCancelled],
       [On Restart], step FilesystemUnknown [])]"

definition filesystem :: "State \<Rightarrow> Event \<Rightarrow> target option" where
  "filesystem state event = match_arms filesystem_arms state event"

definition watcher_arms :: "arm list" where
  "watcher_arms =
     [([WatcherStarting],
       [On Ready], step WatcherReady [NegotiateWatcher, SelfTestWatcherStorage]),
      ([WatcherReady], [On Serve], step WatcherServing [VerifyProducerCanary]),
      ([WatcherStarting, WatcherReady, WatcherServing, WatcherStale],
       [On Degrade], step WatcherDegraded [ReportDiagnosticsDegraded]),
      ([WatcherServing], [On MarkStale], step WatcherStale [ReportDiagnosticsDegraded]),
      ([WatcherStarting, WatcherReady, WatcherServing, WatcherDegraded, WatcherStale],
       [On Drain, On Cancel], step WatcherDraining [FlushWatcher]),
      ([WatcherDraining], [AnyAcknowledged], step WatcherStopped []),
      ([WatcherDegraded, WatcherStale, WatcherStopped],
       [On Restart], step WatcherStarting [PreserveDiagnostics])]"

definition watcher :: "State \<Rightarrow> Event \<Rightarrow> target option" where
  "watcher state event = match_arms watcher_arms state event"

definition unsuccessful_effect_recovery :: "MachineKind \<Rightarrow> State \<Rightarrow> target option" where
  "unsuccessful_effect_recovery kind state =
     (if kind = Ffmpeg then ffmpeg_recovery_after_all_outcomes state else None)"

fun kind_transition :: "MachineKind \<Rightarrow> State \<Rightarrow> Event \<Rightarrow> target option" where
  "kind_transition JobCancellation state event = job state event"
| "kind_transition SourceRedirect state event = source state event"
| "kind_transition AtomicAdmission state event = admission state event"
| "kind_transition ByteCreditDurability state event = bytes state event"
| "kind_transition Live state event = live state event"
| "kind_transition Sink state event = sink state event"
| "kind_transition Ffmpeg state event = ffmpeg state event"
| "kind_transition JavascriptWorker state event = javascript state event"
| "kind_transition PluginIpc state event = plugin state event"
| "kind_transition CommitArchiveReconciliation state event = commit state event"
| "kind_transition FilesystemCapability state event = filesystem state event"
| "kind_transition Watcher state event = watcher state event"

lemmas [table_defs] =
  job_arms_def source_arms_def admission_arms_def bytes_arms_def live_arms_def sink_arms_def
  ffmpeg_arms_def javascript_arms_def plugin_arms_def commit_arms_def filesystem_arms_def
  watcher_arms_def COMMIT_PREPARE_EFFECTS_def COMMIT_RENAME_EFFECTS_def step_def
  acknowledgement_arms_def

end
