(* ===== verification/State_Machine.thy ===== *)
theory State_Machine
  imports Lifecycle_Tables
begin

text \<open>
  The bounded deterministic lifecycle machine, \<^verbatim>\<open>StateMachine\<close> in
  \<^verbatim>\<open>fforager-core/src/lifecycle.rs\<close>: construction, restoration at a durable prefix, one event,
  and the replay of a trace.

  A method with \<^verbatim>\<open>&mut self\<close> returns the machine it leaves behind together with its result, on
  every path: an error path that has already changed a field is an error with a changed machine.
  The byte-credit broker a machine may hold is named by its address in the heap of brokers.
\<close>

record Transition =
  tr_previous :: State
  tr_event :: Event
  tr_next :: State
  tr_effects :: "EffectIntent list"

record EffectAcknowledgement =
  ak_instance_id :: MachineInstanceId
  ak_effect :: EffectIntent
  ak_generation :: u64

record DeferredEffects =
  de_target :: State
  de_effects :: "EffectIntent list"
  de_has_unsuccessful_outcome :: bool

datatype TransitionError =
    StateDoesNotBelongToMachine MachineKind State
  | StateIsNotDurable MachineKind State
  | InvalidRestorationGeneration
  | EffectGenerationExhausted
  | UnexpectedAcknowledgement MachineInstanceId EffectIntent u64 "EffectAcknowledgement list"
  | UnexpectedEffectFailure MachineInstanceId EffectIntent u64 "EffectAcknowledgement list"
  | UnexpectedEffectCancellation MachineInstanceId EffectIntent u64 "EffectAcknowledgement list"
  | ByteDurabilityAcknowledgementRequired EffectIntent
  | ByteDurabilityRestorationEvidenceRequired State
  | InvalidTransition MachineKind State Event
  | TraceLimitReached usize
  | ReplayMismatch usize

record StateMachine =
  sm_instance_id :: MachineInstanceId
  sm_kind :: MachineKind
  sm_state :: State
  sm_trace_limit :: usize
  sm_trace :: "Transition list"
  pending_acknowledgements :: "EffectAcknowledgement list"
  pending_unsuccessful_effect_outcome :: bool
  deferred_effects :: "DeferredEffects option"
  next_effect_generation :: u64
  byte_durability_acknowledgement_authorized :: bool
  byte_durability_broker :: "nat option"

type_synonym 'a machine_result = "StateMachine \<times> (TransitionError + 'a)"

section \<open>Construction and restoration\<close>

definition restored ::
    "MachineKind \<Rightarrow> State \<Rightarrow> MachineInstanceId \<Rightarrow> usize \<Rightarrow> u64 \<Rightarrow> StateMachine" where
  "restored kind state instance_id trace_limit generation =
     \<lparr> sm_instance_id = instance_id, sm_kind = kind, sm_state = state, sm_trace_limit = trace_limit,
       sm_trace = [], pending_acknowledgements = [], pending_unsuccessful_effect_outcome = False,
       deferred_effects = None, next_effect_generation = generation,
       byte_durability_acknowledgement_authorized = False, byte_durability_broker = None \<rparr>"

definition machine_new :: "MachineKind \<Rightarrow> MachineInstanceId \<Rightarrow> usize \<Rightarrow> StateMachine" where
  "machine_new kind instance_id trace_limit =
     \<lparr> sm_instance_id = instance_id, sm_kind = kind, sm_state = initial kind,
       sm_trace_limit = trace_limit, sm_trace = [], pending_acknowledgements = [],
       pending_unsuccessful_effect_outcome = False, deferred_effects = None,
       next_effect_generation = 1, byte_durability_acknowledgement_authorized = False,
       byte_durability_broker = None \<rparr>"

definition from_state ::
    "MachineKind \<Rightarrow> State \<Rightarrow> MachineInstanceId \<Rightarrow> usize \<Rightarrow> u64 \<Rightarrow> TransitionError + StateMachine" where
  "from_state kind state instance_id trace_limit generation =
     (if \<not> belongs kind state then Inl (StateDoesNotBelongToMachine kind state)
      else if \<not> is_durable_state kind state then Inl (StateIsNotDurable kind state)
      else if kind = ByteCreditDurability then Inl (ByteDurabilityRestorationEvidenceRequired state)
      else if generation = 0 then Inl InvalidRestorationGeneration
      else Inr (restored kind state instance_id trace_limit generation))"

section \<open>One event\<close>

definition transition :: "MachineKind \<Rightarrow> State \<Rightarrow> Event \<Rightarrow> TransitionError + target" where
  "transition kind state event =
     (if \<not> belongs kind state then Inl (StateDoesNotBelongToMachine kind state)
      else ok_or (InvalidTransition kind state event) (kind_transition kind state event))"

definition machine_invalid :: "StateMachine \<Rightarrow> Event \<Rightarrow> TransitionError" where
  "machine_invalid m event = InvalidTransition (sm_kind m) (sm_state m) event"

definition trace_record :: "StateMachine \<Rightarrow> Event \<Rightarrow> State \<Rightarrow> EffectIntent list \<Rightarrow> Transition" where
  "trace_record m event after effects =
     \<lparr> tr_previous = sm_state m, tr_event = event, tr_next = after, tr_effects = effects \<rparr>"

definition record_transition ::
    "StateMachine \<Rightarrow> Event \<Rightarrow> State \<Rightarrow> EffectIntent list \<Rightarrow> EffectIntent list
       \<Rightarrow> DeferredEffects option \<Rightarrow> usize machine_result" where
  "record_transition m event after effects required deferred =
     (case if required = [] then Some (next_effect_generation m)
           else checked_add (next_effect_generation m) 1 of
        None \<Rightarrow> (m, Inl EffectGenerationExhausted)
      | Some next_generation \<Rightarrow>
          (m\<lparr> sm_state := after,
              pending_acknowledgements :=
                map (\<lambda>effect. \<lparr> ak_instance_id = sm_instance_id m, ak_effect = effect,
                               ak_generation = next_effect_generation m \<rparr>) required,
              pending_unsuccessful_effect_outcome := False,
              deferred_effects := deferred,
              next_effect_generation := next_generation,
              sm_trace := sm_trace m @ [trace_record m event after effects] \<rparr>,
           Inr (length (sm_trace m))))"

definition apply_transition_index ::
    "StateMachine \<Rightarrow> Event \<Rightarrow> State \<Rightarrow> EffectIntent list \<Rightarrow> usize machine_result" where
  "apply_transition_index m event after effects =
     (if uses_generic_effect_wrapper (sm_kind m) \<and> effects \<noteq> []
      then record_transition m event EffectPending effects effects
             (Some \<lparr> de_target = after, de_effects = effects, de_has_unsuccessful_outcome = False \<rparr>)
      else let required = acknowledgement_effects after effects in
        if \<not> uses_generic_effect_wrapper (sm_kind m) \<and> length required \<noteq> length effects
        then (m, Inl (machine_invalid m event))
        else record_transition m event after effects required None)"

text \<open>\<^verbatim>\<open>self.trace.get(index).ok_or(ReplayMismatch)\<close>, the common tail of the mutating methods.\<close>

definition trace_get :: "usize machine_result \<Rightarrow> Transition machine_result" where
  "trace_get r =
     (case r of
        (m, Inl e) \<Rightarrow> (m, Inl e)
      | (m, Inr index) \<Rightarrow>
          (m, if index < length (sm_trace m) then Inr (sm_trace m ! index)
              else Inl (ReplayMismatch index)))"

definition apply_transition ::
    "StateMachine \<Rightarrow> Event \<Rightarrow> State \<Rightarrow> EffectIntent list \<Rightarrow> Transition machine_result" where
  "apply_transition m event after effects = trace_get (apply_transition_index m event after effects)"

definition outcome_error ::
    "StateMachine \<Rightarrow> Event \<Rightarrow> MachineInstanceId \<Rightarrow> EffectIntent \<Rightarrow> u64 \<Rightarrow> TransitionError" where
  "outcome_error m event instance_id effect generation =
     (let expected = pending_acknowledgements m in
      if is_acknowledged event then UnexpectedAcknowledgement instance_id effect generation expected
      else if is_failed event then UnexpectedEffectFailure instance_id effect generation expected
      else if is_cancelled event
        then UnexpectedEffectCancellation instance_id effect generation expected
      else machine_invalid m event)"

text \<open>
  The outcome carried by an event: the machine, effect and generation it answers, and whether the
  effect succeeded. Both \<^verbatim>\<open>deferred_effect_outcome\<close> and \<^verbatim>\<open>apply\<close> extract it.
\<close>

definition event_outcome :: "Event \<Rightarrow> (MachineInstanceId \<times> EffectIntent \<times> u64 \<times> bool) option" where
  "event_outcome event =
     (case event of
        EffectAcknowledged instance_id effect generation \<Rightarrow> Some (instance_id, effect, generation, True)
      | EffectFailed instance_id effect generation \<Rightarrow> Some (instance_id, effect, generation, False)
      | EffectCancelled instance_id effect generation \<Rightarrow> Some (instance_id, effect, generation, False)
      | _ \<Rightarrow> None)"

definition deferred_effect_outcome ::
    "StateMachine \<Rightarrow> Event \<Rightarrow> TransitionError + MachineInstanceId \<times> EffectIntent \<times> u64 \<times> bool" where
  "deferred_effect_outcome m event = ok_or (machine_invalid m event) (event_outcome event)"

definition pending_position ::
    "StateMachine \<Rightarrow> MachineInstanceId \<Rightarrow> EffectIntent \<Rightarrow> u64 \<Rightarrow> usize option" where
  "pending_position m instance_id effect generation =
     position (\<lambda>expected. ak_instance_id expected = instance_id \<and> ak_effect expected = effect \<and>
       ak_generation expected = generation) (pending_acknowledgements m)"

definition restart_deferred_effect :: "StateMachine \<Rightarrow> Event \<Rightarrow> usize machine_result" where
  "restart_deferred_effect m event =
     (if event \<noteq> Restart then (m, Inl (machine_invalid m event))
      else case deferred_effects m of
          None \<Rightarrow> (m, Inl (ReplayMismatch (length (sm_trace m))))
        | Some deferred \<Rightarrow>
            (case apply_transition_index (m\<lparr> deferred_effects := None \<rparr>) event
                    (de_target deferred) (de_effects deferred) of
               (m', Inr index) \<Rightarrow> (m', Inr index)
             | (m', Inl error) \<Rightarrow> (m'\<lparr> deferred_effects := Some deferred \<rparr>, Inl error)))"

text \<open>A deferred target without a transition on the outcome is entered as it is.\<close>

definition deferred_transition :: "MachineKind \<Rightarrow> State \<Rightarrow> Event \<Rightarrow> TransitionError + target" where
  "deferred_transition kind target event =
     (case transition kind target event of
        Inr found \<Rightarrow> Inr found
      | Inl (InvalidTransition _ _ _) \<Rightarrow> Inr (target, [])
      | Inl error \<Rightarrow> Inl error)"

definition complete_deferred_effect :: "StateMachine \<Rightarrow> Event \<Rightarrow> usize machine_result" where
  "complete_deferred_effect m event =
     (case deferred_effect_outcome m event of
        Inl e \<Rightarrow> (m, Inl e)
      | Inr (instance_id, effect, generation, successful) \<Rightarrow>
        (case pending_position m instance_id effect generation of
           None \<Rightarrow> (m, Inl (outcome_error m event instance_id effect generation))
         | Some index \<Rightarrow>
           (let remaining = remove_at index (pending_acknowledgements m) in
            case deferred_effects m of
              None \<Rightarrow> (m, Inl (ReplayMismatch (length (sm_trace m))))
            | Some taken \<Rightarrow>
              (let m0 = m\<lparr> deferred_effects := None \<rparr>;
                   deferred = taken\<lparr> de_has_unsuccessful_outcome :=
                                de_has_unsuccessful_outcome taken \<or> \<not> successful \<rparr> in
               if remaining \<noteq> []
               then (m0\<lparr> pending_acknowledgements := remaining, deferred_effects := Some deferred,
                         sm_trace := sm_trace m0 @ [trace_record m0 event EffectPending []] \<rparr>,
                     Inr (length (sm_trace m0)))
               else if de_has_unsuccessful_outcome deferred
               then record_transition m0 event EffectRecovery [] [] (Some deferred)
               else case deferred_transition (sm_kind m0) (de_target deferred) event of
                   Inl error \<Rightarrow> (m0, Inl error)
                 | Inr (after, effects) \<Rightarrow>
                     (case apply_transition_index m0 event after effects of
                        (m', Inr i) \<Rightarrow> (m', Inr i)
                      | (m', Inl error) \<Rightarrow> (m'\<lparr> deferred_effects := Some deferred \<rparr>, Inl error))))))"

definition apply_deferred_effect :: "StateMachine \<Rightarrow> Event \<Rightarrow> Transition machine_result" where
  "apply_deferred_effect m event =
     trace_get (if sm_state m = EffectRecovery then restart_deferred_effect m event
                else complete_deferred_effect m event)"

text \<open>The tail of \<^verbatim>\<open>apply\<close>: the table decides, the transition is recorded.\<close>

definition apply_table :: "StateMachine \<Rightarrow> Event \<Rightarrow> Transition machine_result" where
  "apply_table m event =
     (case transition (sm_kind m) (sm_state m) event of
        Inl e \<Rightarrow> (m, Inl e)
      | Inr (after, effects) \<Rightarrow> apply_transition m event after effects)"

text \<open>The block of \<^verbatim>\<open>apply\<close> that settles an outcome against the pending acknowledgements.\<close>

definition apply_outcome ::
    "StateMachine \<Rightarrow> Event \<Rightarrow> MachineInstanceId \<Rightarrow> EffectIntent \<Rightarrow> u64 \<Rightarrow> bool
       \<Rightarrow> Transition machine_result" where
  "apply_outcome m event instance_id effect generation successful =
     (case pending_position m instance_id effect generation of
        None \<Rightarrow> (m, Inl (outcome_error m event instance_id effect generation))
      | Some index \<Rightarrow>
        (let remaining = remove_at index (pending_acknowledgements m);
             unsuccessful = (pending_unsuccessful_effect_outcome m \<or> \<not> successful) in
         if remaining \<noteq> []
         then trace_get
                (m\<lparr> pending_unsuccessful_effect_outcome := unsuccessful,
                    pending_acknowledgements := remaining,
                    sm_trace := sm_trace m @ [trace_record m event (sm_state m) []] \<rparr>,
                 Inr (length (sm_trace m)))
         else let m' = m\<lparr> pending_acknowledgements := [],
                          pending_unsuccessful_effect_outcome := False \<rparr> in
           case if unsuccessful then unsuccessful_effect_recovery (sm_kind m') (sm_state m')
                else None of
             Some (after, effects) \<Rightarrow> apply_transition m' event after effects
           | None \<Rightarrow> apply_table m' event))"

definition byte_effect :: "EffectIntent \<Rightarrow> bool" where
  "byte_effect effect = (effect \<in> {AcceptBoundedBytes, ValidateAndWrite, SynchronizeData})"

definition byte_acknowledgement :: "StateMachine \<Rightarrow> Event \<Rightarrow> EffectIntent option" where
  "byte_acknowledgement m event =
     (if sm_kind m = ByteCreditDurability
      then (case event of
              EffectAcknowledged _ effect _ \<Rightarrow> if byte_effect effect then Some effect else None
            | _ \<Rightarrow> None)
      else None)"

definition apply_checked :: "StateMachine \<Rightarrow> Event \<Rightarrow> Transition machine_result" where
  "apply_checked m event =
     (if length (sm_trace m) \<ge> sm_trace_limit m
      then (m, Inl (TraceLimitReached (sm_trace_limit m)))
      else if deferred_effects m \<noteq> None then apply_deferred_effect m event
      else if pending_acknowledgements m \<noteq> [] \<and> \<not> is_outcome event
      then (m, Inl (machine_invalid m event))
      else case event_outcome event of
          Some (instance_id, effect, generation, successful) \<Rightarrow>
            if \<not> successful \<or> pending_acknowledgements m \<noteq> []
            then apply_outcome m event instance_id effect generation successful
            else apply_table m event
        | None \<Rightarrow> apply_table m event)"

definition apply_event :: "StateMachine \<Rightarrow> Event \<Rightarrow> Transition machine_result" where
  "apply_event m event =
     (let m' = m\<lparr> byte_durability_acknowledgement_authorized := False \<rparr> in
      case byte_acknowledgement m event of
        Some effect \<Rightarrow>
          if byte_durability_acknowledgement_authorized m then apply_checked m' event
          else (m', Inl (ByteDurabilityAcknowledgementRequired effect))
      | None \<Rightarrow> apply_checked m' event)"

section \<open>Replay of a trace\<close>

fun replay_records ::
    "StateMachine \<Rightarrow> usize \<Rightarrow> Transition list \<Rightarrow> TransitionError + StateMachine" where
  "replay_records m index [] = Inr m"
| "replay_records m index (expected # records) =
     (case apply_event m (tr_event expected) of
        (m', Inl e) \<Rightarrow> Inl e
      | (m', Inr actual) \<Rightarrow>
          if actual \<noteq> expected then Inl (ReplayMismatch index)
          else replay_records m' (Suc index) records)"

definition replay ::
    "MachineKind \<Rightarrow> MachineInstanceId \<Rightarrow> usize \<Rightarrow> Transition list \<Rightarrow> TransitionError + StateMachine" where
  "replay kind instance_id trace_limit expected =
     replay_records (machine_new kind instance_id trace_limit) 0 expected"

end
