(* ===== verification/Lifecycle_Arcs.thy ===== *)
theory Lifecycle_Arcs
  imports State_Machine
begin

text \<open>
  What the transition tables have in common. Every fact about all transitions of all machines is
  one evaluation over the arms of the twelve tables (\<open>arms_all\<close>), lifted to the transition
  function by one lemma.
\<close>

section \<open>Tables as data\<close>

definition arms_all ::
    "(State \<Rightarrow> EventPattern \<Rightarrow> State \<Rightarrow> EffectIntent list \<Rightarrow> bool) \<Rightarrow> arm list \<Rightarrow> bool" where
  "arms_all P arms =
     list_all (\<lambda>(states, patterns, result).
       list_all (\<lambda>s. list_all (\<lambda>p. case result of None \<Rightarrow> False | Some (n, es) \<Rightarrow> P s p n es) patterns)
         states) arms"

lemma arms_all_simps [simp]:
  "arms_all P []"
  "arms_all P ((states, patterns, Some (n, es)) # arms) \<longleftrightarrow>
     list_all (\<lambda>s. list_all (\<lambda>p. P s p n es) patterns) states \<and> arms_all P arms"
  by (simp_all add: arms_all_def)

lemma arms_all_append [simp]: "arms_all P (xs @ ys) \<longleftrightarrow> arms_all P xs \<and> arms_all P ys"
  by (simp add: arms_all_def)

lemma match_arms_append:
  "match_arms (xs @ ys) s e = (case match_arms xs s e of None \<Rightarrow> match_arms ys s e | Some r \<Rightarrow> Some r)"
  if "arms_all P xs"
  using that
proof (induction xs)
  case (Cons arm xs)
  obtain ss ps r where arm: "arm = (ss, ps, r)" by (cases arm) auto
  have rest: "arms_all P xs" using Cons.prems by (simp add: arms_all_def)
  have "r \<noteq> None" if "s \<in> set ss" "list_ex (\<lambda>p. event_matches p e) ps"
    using Cons.prems that by (auto simp: arms_all_def arm list_all_iff list_ex_iff split: option.splits)
  with Cons.IH [OF rest] show ?case by (auto simp: arm split: option.splits)
qed simp

lemma arms_allD:
  assumes "arms_all P arms" "match_arms arms s e = Some (n, es)"
  shows "\<exists>p. event_matches p e \<and> P s p n es"
  using assms
proof (induction arms)
  case (Cons arm arms)
  obtain ss ps r where arm: "arm = (ss, ps, r)" by (cases arm) auto
  show ?case
  proof (cases "s \<in> set ss \<and> list_ex (\<lambda>p. event_matches p e) ps")
    case True
    with Cons.prems show ?thesis by (auto simp: arm arms_all_def list_all_iff list_ex_iff)
  next
    case False
    moreover have "arms_all P arms" using Cons.prems(1) by (simp add: arms_all_def)
    ultimately show ?thesis using Cons.IH Cons.prems(2) by (auto simp: arm split: if_splits)
  qed
qed simp

text \<open>The states an event pattern leaves.\<close>

definition arms_from :: "EventPattern \<Rightarrow> arm list \<Rightarrow> State list" where
  "arms_from p arms = concat (map (\<lambda>(states, patterns, _). if p \<in> set patterns then states else []) arms)"

lemma match_arms_from:
  assumes "arms_all P arms" "event_matches p e" "s \<in> set (arms_from p arms)"
  shows "\<exists>r. match_arms arms s e = Some r"
  using assms
proof (induction arms)
  case (Cons arm arms)
  obtain ss ps r where arm: "arm = (ss, ps, r)" by (cases arm) auto
  have rest: "arms_all P arms" using Cons.prems(1) by (simp add: arms_all_def)
  show ?case
  proof (cases "s \<in> set ss \<and> list_ex (\<lambda>p. event_matches p e) ps")
    case True
    with Cons.prems show ?thesis
      by (auto simp: arm arms_all_def list_all_iff list_ex_iff split: option.splits)
  next
    case False
    with Cons.prems(2,3) have "s \<in> set (arms_from p arms)"
      by (auto simp: arm arms_from_def list_ex_iff split: if_splits)
    with Cons.IH [OF rest Cons.prems(2)] False show ?thesis by (auto simp: arm)
  qed
qed (simp add: arms_from_def)

lemma arms_all_from: "arms_all (\<lambda>s p n es. p = q \<longrightarrow> s \<in> set (arms_from q arms)) arms'"
  if "set arms' \<subseteq> set arms" "arms_all P arms'"
  using that
  by (fastforce simp: arms_all_def arms_from_def list_all_iff split: option.splits)

section \<open>All tables\<close>

definition ffmpeg_recovery_arms :: "arm list" where
  "ffmpeg_recovery_arms =
     [([FfmpegSpawning], [AnyFailed, AnyCancelled], step FfmpegSpawnRecovering [PreserveDiagnostics]),
      ([FfmpegReaping], [AnyFailed, AnyCancelled], step FfmpegReapRecovering [PreserveDiagnostics]),
      ([FfmpegCancelling], [AnyFailed, AnyCancelled],
       step FfmpegCancellationRecovering [PreserveDiagnostics]),
      ([FfmpegFailing], [AnyFailed, AnyCancelled], step FfmpegFailureRecovering [PreserveDiagnostics]),
      ([FfmpegExitReleasing], [AnyFailed, AnyCancelled],
       step FfmpegExitReleaseRecovering [PreserveDiagnostics]),
      ([FfmpegCancellationReleasing], [AnyFailed, AnyCancelled],
       step FfmpegCancellationReleaseRecovering [PreserveDiagnostics]),
      ([FfmpegFailureReleasing], [AnyFailed, AnyCancelled],
       step FfmpegFailureReleaseRecovering [PreserveDiagnostics])] @
     map (\<lambda>s. ([s], [AnyAcknowledged, AnyFailed, AnyCancelled], step s [])) ffmpeg_recovery_states"

lemmas [table_defs] = ffmpeg_recovery_arms_def ffmpeg_recovery_states_def

lemma ffmpeg_recovery_arms: "ffmpeg_recovery s e = match_arms ffmpeg_recovery_arms s e"
proof (cases "is_failed e \<or> is_cancelled e")
  case True
  then have "list_ex (\<lambda>p. event_matches p e) [AnyFailed, AnyCancelled]"
    "list_ex (\<lambda>p. event_matches p e) [AnyAcknowledged, AnyFailed, AnyCancelled]" by auto
  with True show ?thesis
    unfolding ffmpeg_recovery_def ffmpeg_recovery_arms_def ffmpeg_recovery_states_def
      ffmpeg_recovery_after_all_outcomes_def step_def
    by simp
next
  case False
  then have "\<not> list_ex (\<lambda>p. event_matches p e) [AnyFailed, AnyCancelled]" by auto
  with False show ?thesis
    unfolding ffmpeg_recovery_def ffmpeg_recovery_arms_def ffmpeg_recovery_states_def step_def
    by auto
qed

fun kind_arms :: "MachineKind \<Rightarrow> arm list" where
  "kind_arms JobCancellation = job_arms"
| "kind_arms SourceRedirect = source_arms"
| "kind_arms AtomicAdmission = admission_arms"
| "kind_arms ByteCreditDurability = bytes_arms"
| "kind_arms Live = live_arms"
| "kind_arms Sink = sink_arms"
| "kind_arms Ffmpeg = ffmpeg_recovery_arms @ ffmpeg_arms"
| "kind_arms JavascriptWorker = javascript_arms"
| "kind_arms PluginIpc = plugin_arms"
| "kind_arms CommitArchiveReconciliation = commit_arms"
| "kind_arms FilesystemCapability = filesystem_arms"
| "kind_arms Watcher = watcher_arms"

lemma kind_arms_closed: "arms_all (\<lambda>s p n es. n \<in> set (kind_states k)) (kind_arms k)"
  by (cases k) (simp_all add: table_defs)

lemma kind_transition_arms: "kind_transition k s e = match_arms (kind_arms k) s e"
proof (cases "k = Ffmpeg")
  case True
  have "arms_all (\<lambda>s p n es. n \<in> set (kind_states Ffmpeg)) ffmpeg_recovery_arms"
    using kind_arms_closed [of Ffmpeg] by simp
  from match_arms_append [OF this] True show ?thesis
    by (simp add: ffmpeg_def ffmpeg_recovery_arms)
next
  case False
  then show ?thesis
    by (cases k) (simp_all add: job_def source_def admission_def bytes_def live_def sink_def
        javascript_def plugin_def commit_def filesystem_def watcher_def)
qed

section \<open>What holds of every transition\<close>

lemma transition_closed:
  "kind_transition k s e = Some (n, es) \<Longrightarrow> n \<in> set (kind_states k)"
  using arms_allD [OF kind_arms_closed] by (auto simp: kind_transition_arms)

lemma kind_states_proper: "EffectPending \<notin> set (kind_states k)" "EffectRecovery \<notin> set (kind_states k)"
  by (cases k; simp)+

lemma belongs_kind_states: "s \<in> set (kind_states k) \<Longrightarrow> belongs k s"
  using kind_states_proper by (auto simp: belongs_def)

text \<open>A plain pattern is never an effect outcome, so an outcome is matched by its own pattern.\<close>

definition pattern_for :: "Event \<Rightarrow> EventPattern" where
  "pattern_for e = (if is_acknowledged e then AnyAcknowledged else if is_failed e then AnyFailed
     else if is_cancelled e then AnyCancelled else On e)"

lemma outcome_kinds:
  "is_acknowledged e \<Longrightarrow> \<not> is_failed e" "is_acknowledged e \<Longrightarrow> \<not> is_cancelled e"
  "is_failed e \<Longrightarrow> \<not> is_cancelled e"
  by (cases e; simp add: is_acknowledged_def is_failed_def is_cancelled_def)+

lemma pattern_for_matches [simp]: "event_matches (pattern_for e) e"
  by (simp add: pattern_for_def)

lemma kind_arms_plain:
  "arms_all (\<lambda>s p n es. case p of On x \<Rightarrow> \<not> is_outcome x | _ \<Rightarrow> True) (kind_arms k)"
  by (cases k) (simp_all add: table_defs is_outcome_def is_acknowledged_def is_failed_def is_cancelled_def)

definition plain_pattern :: "EventPattern \<Rightarrow> bool" where
  "plain_pattern p = (case p of On x \<Rightarrow> \<not> is_outcome x | _ \<Rightarrow> True)"

lemma plain_pattern_for: "plain_pattern p \<Longrightarrow> event_matches p e \<Longrightarrow> p = pattern_for e"
  using outcome_kinds
  by (cases p) (auto simp: plain_pattern_def pattern_for_def is_outcome_def)

text \<open>The states with a transition on a given pattern.\<close>

definition leaves :: "MachineKind \<Rightarrow> EventPattern \<Rightarrow> State \<Rightarrow> bool" where
  "leaves k p s = (s \<in> set (arms_from p (kind_arms k)))"

lemma transition_iff_leaves: "kind_transition k s e \<noteq> None \<longleftrightarrow> leaves k (pattern_for e) s"
proof
  assume "kind_transition k s e \<noteq> None"
  then obtain n es where t: "match_arms (kind_arms k) s e = Some (n, es)"
    by (auto simp: kind_transition_arms)
  have "arms_all (\<lambda>s p n es. plain_pattern p \<and> s \<in> set (arms_from p (kind_arms k))) (kind_arms k)"
    using kind_arms_plain [of k]
    by (fastforce simp: arms_all_def arms_from_def list_all_iff plain_pattern_def split: option.splits)
  from arms_allD [OF this t] show "leaves k (pattern_for e) s"
    by (auto simp: leaves_def dest: plain_pattern_for)
next
  assume "leaves k (pattern_for e) s"
  then show "kind_transition k s e \<noteq> None"
    using match_arms_from [OF kind_arms_closed pattern_for_matches]
    by (force simp: leaves_def kind_transition_arms)
qed

text \<open>
  A machine rests in a state without pending effects only when the state does not wait for an
  acknowledgement; the seven FFmpeg recovery states are the exception, they have an arm that
  takes acknowledgements and stays.
\<close>

definition resting :: "MachineKind \<Rightarrow> State \<Rightarrow> bool" where
  "resting k s = (s \<in> set (kind_states k) \<and>
     (\<not> leaves k AnyAcknowledged s \<or> k = Ffmpeg \<and> s \<in> set ffmpeg_recovery_states))"

lemma leaves_acknowledged:
  "leaves k AnyAcknowledged s \<longleftrightarrow> s \<in> set (arms_from AnyAcknowledged (kind_arms k))"
  by (simp add: leaves_def)

lemma kind_arms_resting: "arms_all (\<lambda>s p n es. es = [] \<longrightarrow> resting k n) (kind_arms k)"
  by (cases k) (simp_all add: table_defs resting_def leaves_def arms_from_def)

lemma transition_resting:
  "kind_transition k s e = Some (n, []) \<Longrightarrow> resting k n"
  using arms_allD [OF kind_arms_resting] by (auto simp: kind_transition_arms)

lemma initial_resting: "resting k (initial k)"
  by (cases k) (simp_all add: table_defs resting_def leaves_def arms_from_def)

lemma durable_resting: "is_durable_state k s \<Longrightarrow> resting k s"
  by (cases k) (auto simp: is_durable_state_def table_defs resting_def leaves_def arms_from_def)

text \<open>
  The two machines that do not use the wrapper wait in their own states: every effect such a
  transition emits must be acknowledged, and the state it enters takes every outcome.
\<close>

definition waiting :: "MachineKind \<Rightarrow> State \<Rightarrow> bool" where
  "waiting k s = (leaves k AnyAcknowledged s \<and> leaves k AnyFailed s \<and> leaves k AnyCancelled s)"

lemma waiting_ffmpeg:
  "waiting Ffmpeg s \<longleftrightarrow> s \<in> set [FfmpegSpawning, FfmpegReaping, FfmpegCancelling, FfmpegFailing,
     FfmpegExitReleasing, FfmpegCancellationReleasing, FfmpegFailureReleasing] \<union>
     set ffmpeg_recovery_states"
proof -
  have "set (arms_from AnyAcknowledged (kind_arms Ffmpeg)) = set [FfmpegSpawning, FfmpegReaping,
      FfmpegCancelling, FfmpegFailing, FfmpegExitReleasing, FfmpegCancellationReleasing,
      FfmpegFailureReleasing] \<union> set ffmpeg_recovery_states" (is "_ = ?w")
    by (simp add: arms_from_def ffmpeg_recovery_arms_def ffmpeg_arms_def ffmpeg_recovery_states_def)
      blast
  moreover have "set (arms_from AnyFailed (kind_arms Ffmpeg)) = ?w"
    by (simp add: arms_from_def ffmpeg_recovery_arms_def ffmpeg_arms_def ffmpeg_recovery_states_def)
      blast
  moreover have "set (arms_from AnyCancelled (kind_arms Ffmpeg)) = ?w"
    by (simp add: arms_from_def ffmpeg_recovery_arms_def ffmpeg_arms_def ffmpeg_recovery_states_def)
      blast
  ultimately show ?thesis by (simp add: waiting_def leaves_def)
qed

lemma waiting_filesystem:
  "waiting FilesystemCapability s \<longleftrightarrow>
     s \<in> set [FilesystemProbing, FilesystemConfining, FilesystemDegrading, FilesystemRejecting]"
  by (simp add: waiting_def leaves_def arms_from_def filesystem_arms_def)

definition own_wait :: "MachineKind \<Rightarrow> State \<Rightarrow> EffectIntent list \<Rightarrow> bool" where
  "own_wait k n es = (acknowledgement_effects n es = es \<and> (es \<noteq> [] \<longrightarrow> waiting k n))"

lemma own_wait_Nil [simp]: "own_wait k n []"
  by (simp add: own_wait_def acknowledgement_effects_def)

lemma own_wait_targets:
  "own_wait FilesystemCapability FilesystemProbing [ProbeFilesystem]"
  "own_wait FilesystemCapability FilesystemConfining [EstablishConfinedPath]"
  "own_wait FilesystemCapability FilesystemDegrading [ReportDegradedGuarantees]"
  "own_wait FilesystemCapability FilesystemRejecting [RejectFilesystem]"
  "own_wait Ffmpeg FfmpegSpawning [SpawnProcess]"
  "own_wait Ffmpeg FfmpegReaping [ReapProcess]"
  "own_wait Ffmpeg FfmpegCancelling [TerminateProcess, ReapProcess]"
  "own_wait Ffmpeg FfmpegFailing [TerminateProcess, ReapProcess, PreserveDiagnostics]"
  "own_wait Ffmpeg FfmpegExitReleasing [ReleaseResources]"
  "own_wait Ffmpeg FfmpegCancellationReleasing [ReleaseResources]"
  "own_wait Ffmpeg FfmpegFailureReleasing [ReleaseResources]"
  by (simp_all add: own_wait_def acknowledgement_effects_def acknowledgement_arms_def
      waiting_ffmpeg waiting_filesystem)

lemma own_wait_recovery: "s \<in> set ffmpeg_recovery_states \<Longrightarrow> own_wait Ffmpeg s [PreserveDiagnostics]"
  by (auto simp: own_wait_def acknowledgement_effects_def acknowledgement_arms_def
      waiting_ffmpeg ffmpeg_recovery_states_def)

lemma kind_arms_own_wait:
  "\<not> uses_generic_effect_wrapper k \<Longrightarrow> arms_all (\<lambda>s p n es. own_wait k n es) (kind_arms k)"
proof -
  have "arms_all (\<lambda>s p n es. own_wait Ffmpeg n es) (kind_arms Ffmpeg)"
    by (simp add: ffmpeg_recovery_arms_def ffmpeg_arms_def ffmpeg_recovery_states_def step_def
        own_wait_targets own_wait_recovery)
  moreover have "arms_all (\<lambda>s p n es. own_wait FilesystemCapability n es) (kind_arms FilesystemCapability)"
    by (simp add: filesystem_arms_def step_def own_wait_targets)
  moreover assume "\<not> uses_generic_effect_wrapper k"
  ultimately show ?thesis by (auto simp: uses_generic_effect_wrapper_def)
qed

lemma transition_own_wait:
  "\<not> uses_generic_effect_wrapper k \<Longrightarrow> kind_transition k s e = Some (n, es) \<Longrightarrow> own_wait k n es"
  using arms_allD [OF kind_arms_own_wait] by (auto simp: kind_transition_arms)

lemma recovery_transition:
  assumes "unsuccessful_effect_recovery k s = Some (n, es)"
  shows "k = Ffmpeg \<and> n \<in> set ffmpeg_recovery_states \<and> es = [PreserveDiagnostics]"
  using assms
  by (simp add: unsuccessful_effect_recovery_def ffmpeg_recovery_after_all_outcomes_def step_def
      ffmpeg_recovery_states_def split: if_splits)

lemma recovery_states_belong: "s \<in> set ffmpeg_recovery_states \<Longrightarrow> s \<in> set (kind_states Ffmpeg)"
  by (auto simp: ffmpeg_recovery_states_def)

lemma waiting_takes_outcome: "waiting k s \<Longrightarrow> is_outcome e \<Longrightarrow> kind_transition k s e \<noteq> None"
  unfolding transition_iff_leaves using outcome_kinds
  by (auto simp: waiting_def pattern_for_def is_outcome_def)

end
