(* ===== verification/Machine_Steps.thy ===== *)
theory Machine_Steps
  imports Lifecycle_Arcs
begin

text \<open>
  What one accepted event does to a lifecycle machine, as a step relation with one rule per way
  to accept an event, and what a rejected event does: nothing. The rest of the development
  reasons about the rules, never about the nested code of \<^const>\<open>apply_event\<close>.
\<close>

section \<open>Entering a state\<close>

definition request_acks :: "StateMachine \<Rightarrow> EffectIntent list \<Rightarrow> EffectAcknowledgement list" where
  "request_acks m effects =
     map (\<lambda>effect. \<lparr> ak_instance_id = sm_instance_id m, ak_effect = effect,
                    ak_generation = next_effect_generation m \<rparr>) effects"

definition enter :: "StateMachine \<Rightarrow> Event \<Rightarrow> State \<Rightarrow> EffectIntent list \<Rightarrow> StateMachine" where
  "enter m event n es =
     (let wraps = uses_generic_effect_wrapper (sm_kind m) \<and> es \<noteq> [];
          after = (if wraps then EffectPending else n) in
      m\<lparr> sm_state := after,
         pending_acknowledgements := request_acks m es,
         pending_unsuccessful_effect_outcome := False,
         deferred_effects := (if wraps then Some \<lparr> de_target = n, de_effects = es,
                                de_has_unsuccessful_outcome = False \<rparr> else None),
         next_effect_generation := next_effect_generation m + (if es = [] then 0 else 1),
         sm_trace := sm_trace m @ [trace_record m event after es] \<rparr>)"

lemma record_transition_room:
  "required = [] \<or> next_effect_generation m \<noteq> - 1 \<Longrightarrow>
   record_transition m event after effects required deferred =
     (m\<lparr> sm_state := after, pending_acknowledgements := request_acks m required,
         pending_unsuccessful_effect_outcome := False, deferred_effects := deferred,
         next_effect_generation := next_effect_generation m + (if required = [] then 0 else 1),
         sm_trace := sm_trace m @ [trace_record m event after effects] \<rparr>,
      Inr (length (sm_trace m)))"
proof -
  assume room: "required = [] \<or> next_effect_generation m \<noteq> - 1"
  have "(if required = [] then Some (next_effect_generation m)
      else checked_add (next_effect_generation m) 1)
    = Some (next_effect_generation m + (if required = [] then 0 else 1))"
    using room unat_Suc_word [of "next_effect_generation m"]
    by (auto simp: checked_add_eq_Some_iff)
  then show ?thesis
    unfolding record_transition_def request_acks_def by simp
qed

lemma record_transition_full:
  "required \<noteq> [] \<Longrightarrow> next_effect_generation m = - 1 \<Longrightarrow>
   record_transition m event after effects required deferred = (m, Inl EffectGenerationExhausted)"
  by (simp add: record_transition_def checked_add_1_None [THEN iffD2])

definition acceptable :: "StateMachine \<Rightarrow> State \<Rightarrow> EffectIntent list \<Rightarrow> bool" where
  "acceptable m n es = (uses_generic_effect_wrapper (sm_kind m) \<or> own_wait (sm_kind m) n es)"

lemma apply_transition_index_room:
  assumes "acceptable m n es" "es = [] \<or> next_effect_generation m \<noteq> - 1"
  shows "apply_transition_index m event n es = (enter m event n es, Inr (length (sm_trace m)))"
proof (cases "uses_generic_effect_wrapper (sm_kind m) \<and> es \<noteq> []")
  case True
  then show ?thesis
    using assms(2) by (simp add: apply_transition_index_def record_transition_room enter_def Let_def)
next
  case False
  then have "acknowledgement_effects n es = es"
    using assms(1) by (auto simp: acceptable_def own_wait_def acknowledgement_effects_def)
  then show ?thesis
    using assms(2) False
    by (auto simp: apply_transition_index_def record_transition_room enter_def Let_def)
qed

lemma apply_transition_index_full:
  assumes "acceptable m n es" "es \<noteq> []" "next_effect_generation m = - 1"
  shows "apply_transition_index m event n es = (m, Inl EffectGenerationExhausted)"
proof (cases "uses_generic_effect_wrapper (sm_kind m)")
  case True
  then show ?thesis using assms by (simp add: apply_transition_index_def record_transition_full)
next
  case False
  then have "acknowledgement_effects n es = es" using assms(1) by (simp add: acceptable_def own_wait_def)
  then show ?thesis
    using False assms by (simp add: apply_transition_index_def record_transition_full)
qed

lemma enter_ignores [simp]:
  "enter (m\<lparr> pending_acknowledgements := p, pending_unsuccessful_effect_outcome := b \<rparr>) e n es
     = enter m e n es"
  "enter (m\<lparr> deferred_effects := d \<rparr>) e n es = enter m e n es"
  unfolding enter_def Let_def request_acks_def trace_record_def by simp_all

lemma enter_simps [simp]:
  "sm_instance_id (enter m e n es) = sm_instance_id m"
  "sm_kind (enter m e n es) = sm_kind m"
  "sm_trace_limit (enter m e n es) = sm_trace_limit m"
  "pending_acknowledgements (enter m e n es) = request_acks m es"
  "pending_unsuccessful_effect_outcome (enter m e n es) = False"
  "byte_durability_acknowledgement_authorized (enter m e n es)
     = byte_durability_acknowledgement_authorized m"
  "byte_durability_broker (enter m e n es) = byte_durability_broker m"
  "next_effect_generation (enter m e n es) = next_effect_generation m + (if es = [] then 0 else 1)"
  "sm_trace (enter m e n es) = sm_trace m @ [trace_record m e (sm_state (enter m e n es)) es]"
  by (simp_all add: enter_def Let_def)

lemma enter_state:
  "sm_state (enter m e n es)
     = (if uses_generic_effect_wrapper (sm_kind m) \<and> es \<noteq> [] then EffectPending else n)"
  "deferred_effects (enter m e n es)
     = (if uses_generic_effect_wrapper (sm_kind m) \<and> es \<noteq> []
        then Some \<lparr> de_target = n, de_effects = es, de_has_unsuccessful_outcome = False \<rparr> else None)"
  by (simp_all add: enter_def Let_def)

lemma request_acks_Nil [simp]: "request_acks m es = [] \<longleftrightarrow> es = []"
  by (simp add: request_acks_def)

lemma trace_get_snoc:
  "sm_trace m' = xs @ [r] \<Longrightarrow> trace_get (m', Inr (length xs)) = (m', Inr r)"
  by (simp add: trace_get_def)

lemma trace_get_Inl [simp]: "trace_get (m, Inl e) = (m, Inl e)"
  by (simp add: trace_get_def)

section \<open>The invariant\<close>

definition pending_ok :: "StateMachine \<Rightarrow> bool" where
  "pending_ok m =
     list_all (\<lambda>a. ak_instance_id a = sm_instance_id m \<and>
       unat (ak_generation a) + 1 = unat (next_effect_generation m)) (pending_acknowledgements m)"

definition deferral_ok :: "StateMachine \<Rightarrow> bool" where
  "deferral_ok m =
     (case deferred_effects m of
        None \<Rightarrow>
          sm_state m \<in> set (kind_states (sm_kind m)) \<and>
          (if pending_acknowledgements m = []
           then resting (sm_kind m) (sm_state m) \<and> \<not> pending_unsuccessful_effect_outcome m
           else \<not> uses_generic_effect_wrapper (sm_kind m) \<and> waiting (sm_kind m) (sm_state m))
      | Some d \<Rightarrow>
          uses_generic_effect_wrapper (sm_kind m) \<and> \<not> pending_unsuccessful_effect_outcome m \<and>
          de_target d \<in> set (kind_states (sm_kind m)) \<and> de_effects d \<noteq> [] \<and>
          set (map ak_effect (pending_acknowledgements m)) \<subseteq> set (de_effects d) \<and>
          (if pending_acknowledgements m = []
           then sm_state m = EffectRecovery \<and> de_has_unsuccessful_outcome d
           else sm_state m = EffectPending))"

text \<open>
  A machine whose generation counter leaves room for the rest of its trace never exhausts it:
  every event that takes a generation also takes a record of the trace.
\<close>

definition generation_room :: "StateMachine \<Rightarrow> bool" where
  "generation_room m =
     (0 < next_effect_generation m \<and> length (sm_trace m) \<le> sm_trace_limit m \<and>
      unat (next_effect_generation m) + (sm_trace_limit m - length (sm_trace m)) < 2 ^ 64)"

definition machine_ok :: "StateMachine \<Rightarrow> bool" where
  "machine_ok m =
     (pending_ok m \<and> deferral_ok m \<and> generation_room m \<and>
      \<not> byte_durability_acknowledgement_authorized m)"

section \<open>Accepted events\<close>

definition settle_target :: "StateMachine \<Rightarrow> Event \<Rightarrow> bool \<Rightarrow> target option" where
  "settle_target m e ok =
     (case if pending_unsuccessful_effect_outcome m \<or> \<not> ok
           then unsuccessful_effect_recovery (sm_kind m) (sm_state m) else None of
        Some r \<Rightarrow> Some r | None \<Rightarrow> kind_transition (sm_kind m) (sm_state m) e)"

definition deferred_target :: "StateMachine \<Rightarrow> DeferredEffects \<Rightarrow> Event \<Rightarrow> target" where
  "deferred_target m d e =
     (case kind_transition (sm_kind m) (de_target d) e of
        Some r \<Rightarrow> r | None \<Rightarrow> (de_target d, []))"

inductive lifecycle_step :: "StateMachine \<Rightarrow> Event \<Rightarrow> StateMachine \<Rightarrow> bool" where
  table:
    "deferred_effects m = None \<Longrightarrow> pending_acknowledgements m = [] \<Longrightarrow>
     \<not> is_failed e \<Longrightarrow> \<not> is_cancelled e \<Longrightarrow>
     kind_transition (sm_kind m) (sm_state m) e = Some (n, es) \<Longrightarrow>
     lifecycle_step m e (enter m e n es)"
| partial:
    "deferred_effects m = None \<Longrightarrow> event_outcome e = Some (i, eff, g, ok) \<Longrightarrow>
     pending_position m i eff g = Some idx \<Longrightarrow>
     remove_at idx (pending_acknowledgements m) \<noteq> [] \<Longrightarrow>
     lifecycle_step m e
       (m\<lparr> pending_unsuccessful_effect_outcome := pending_unsuccessful_effect_outcome m \<or> \<not> ok,
           pending_acknowledgements := remove_at idx (pending_acknowledgements m),
           sm_trace := sm_trace m @ [trace_record m e (sm_state m) []] \<rparr>)"
| settled:
    "deferred_effects m = None \<Longrightarrow> event_outcome e = Some (i, eff, g, ok) \<Longrightarrow>
     pending_position m i eff g = Some idx \<Longrightarrow>
     remove_at idx (pending_acknowledgements m) = [] \<Longrightarrow>
     settle_target m e ok = Some (n, es) \<Longrightarrow>
     lifecycle_step m e (enter m e n es)"
| deferred_partial:
    "deferred_effects m = Some d \<Longrightarrow> event_outcome e = Some (i, eff, g, ok) \<Longrightarrow>
     pending_position m i eff g = Some idx \<Longrightarrow>
     remove_at idx (pending_acknowledgements m) \<noteq> [] \<Longrightarrow>
     lifecycle_step m e
       (m\<lparr> pending_acknowledgements := remove_at idx (pending_acknowledgements m),
           deferred_effects := Some (d\<lparr> de_has_unsuccessful_outcome :=
             de_has_unsuccessful_outcome d \<or> \<not> ok \<rparr>),
           sm_trace := sm_trace m @ [trace_record m e EffectPending []] \<rparr>)"
| deferred_failed:
    "deferred_effects m = Some d \<Longrightarrow> event_outcome e = Some (i, eff, g, ok) \<Longrightarrow>
     pending_position m i eff g = Some idx \<Longrightarrow>
     remove_at idx (pending_acknowledgements m) = [] \<Longrightarrow>
     de_has_unsuccessful_outcome d \<or> \<not> ok \<Longrightarrow>
     lifecycle_step m e
       (m\<lparr> sm_state := EffectRecovery, pending_acknowledgements := [],
           pending_unsuccessful_effect_outcome := False,
           deferred_effects := Some (d\<lparr> de_has_unsuccessful_outcome := True \<rparr>),
           sm_trace := sm_trace m @ [trace_record m e EffectRecovery []] \<rparr>)"
| deferred_done:
    "deferred_effects m = Some d \<Longrightarrow> event_outcome e = Some (i, eff, g, True) \<Longrightarrow>
     pending_position m i eff g = Some idx \<Longrightarrow>
     remove_at idx (pending_acknowledgements m) = [] \<Longrightarrow>
     \<not> de_has_unsuccessful_outcome d \<Longrightarrow>
     deferred_target m d e = (n, es) \<Longrightarrow>
     lifecycle_step m e (enter m e n es)"
| restart:
    "deferred_effects m = Some d \<Longrightarrow> sm_state m = EffectRecovery \<Longrightarrow> e = Restart \<Longrightarrow>
     lifecycle_step m e (enter m e (de_target d) (de_effects d))"

lemma event_outcome_cases:
  "event_outcome e = Some (i, eff, g, ok) \<Longrightarrow>
     is_outcome e \<and> (ok \<longleftrightarrow> is_acknowledged e)"
  by (cases e) (auto simp: event_outcome_def is_outcome_def is_acknowledged_def is_failed_def
      is_cancelled_def)

lemma event_outcome_None: "event_outcome e = None \<longleftrightarrow> \<not> is_outcome e"
  by (cases e) (auto simp: event_outcome_def is_outcome_def is_acknowledged_def is_failed_def
      is_cancelled_def)

lemma generation_not_full:
  "generation_room m \<Longrightarrow> length (sm_trace m) < sm_trace_limit m \<Longrightarrow> next_effect_generation m \<noteq> - 1"
  by (auto simp: generation_room_def unsigned_minus_1_eq_mask mask_eq_exp_minus_1)

lemma transition_table:
  "sm_state m \<in> set (kind_states (sm_kind m)) \<Longrightarrow>
   transition (sm_kind m) (sm_state m) e
     = ok_or (InvalidTransition (sm_kind m) (sm_state m) e) (kind_transition (sm_kind m) (sm_state m) e)"
  by (simp add: transition_def belongs_kind_states)

lemma kind_transition_acceptable:
  "kind_transition (sm_kind m) s e = Some (n, es) \<Longrightarrow> acceptable m n es"
  using transition_own_wait by (metis acceptable_def)

lemma recovery_acceptable:
  "unsuccessful_effect_recovery (sm_kind m) s = Some (n, es) \<Longrightarrow> acceptable m n es"
  using recovery_transition own_wait_recovery by (metis acceptable_def)

lemma acceptable_fields [simp]:
  "acceptable (m\<lparr> pending_acknowledgements := p, pending_unsuccessful_effect_outcome := b \<rparr>) n es
     = acceptable m n es"
  "acceptable (m\<lparr> deferred_effects := d \<rparr>) n es = acceptable m n es"
  by (simp_all add: acceptable_def)

lemma apply_transition_room:
  assumes "acceptable m n es" "next_effect_generation m \<noteq> - 1"
  shows "apply_transition m e n es
    = (enter m e n es, Inr (trace_record m e (sm_state (enter m e n es)) es))"
  using apply_transition_index_room [OF assms(1)] assms(2)
  by (simp add: apply_transition_def trace_get_snoc)

lemma apply_table_room:
  assumes "sm_state m \<in> set (kind_states (sm_kind m))" "next_effect_generation m \<noteq> - 1"
  shows "apply_table m e =
    (case kind_transition (sm_kind m) (sm_state m) e of
       None \<Rightarrow> (m, Inl (InvalidTransition (sm_kind m) (sm_state m) e))
     | Some (n, es) \<Rightarrow> (enter m e n es, Inr (trace_record m e (sm_state (enter m e n es)) es)))"
  using apply_transition_room [OF kind_transition_acceptable assms(2)]
  by (simp add: apply_table_def transition_table [OF assms(1)] split: option.split)

text \<open>
  The two verdicts on an event: rejected without a change, or accepted by a step that appends
  exactly the returned record.
\<close>

definition verdict :: "StateMachine \<Rightarrow> Event \<Rightarrow> Transition machine_result \<Rightarrow> bool" where
  "verdict m e r =
     ((\<exists>x. r = (m, Inl x)) \<or>
      (\<exists>m' t. r = (m', Inr t) \<and> lifecycle_step m e m' \<and> sm_trace m' = sm_trace m @ [t]))"

lemma verdict_rejected [simp]: "verdict m e (m, Inl x)"
  by (simp add: verdict_def)

lemma verdict_accepted:
  "lifecycle_step m e m' \<Longrightarrow> sm_trace m' = sm_trace m @ [t] \<Longrightarrow> verdict m e (m', Inr t)"
  by (simp add: verdict_def)

lemma verdict_enter:
  "lifecycle_step m e (enter m e n es) \<Longrightarrow>
   verdict m e (enter m e n es, Inr (trace_record m e (sm_state (enter m e n es)) es))"
  by (rule verdict_accepted) simp_all

lemma apply_outcome_verdict:
  assumes ok: "deferral_ok m" and none: "deferred_effects m = None"
    and room: "next_effect_generation m \<noteq> - 1"
    and out: "event_outcome e = Some (i, eff, g, s)"
  shows "verdict m e (apply_outcome m e i eff g s) \<and>
    (pending_position m i eff g \<noteq> None \<longrightarrow> is_ok (snd (apply_outcome m e i eff g s)))"
proof (cases "pending_position m i eff g")
  case None
  then show ?thesis by (simp add: apply_outcome_def)
next
  case (Some idx)
  then have nonempty: "pending_acknowledgements m \<noteq> []"
    by (auto simp: pending_position_def)
  show ?thesis
  proof (cases "remove_at idx (pending_acknowledgements m) = []")
    case False
    have "lifecycle_step m e
       (m\<lparr> pending_unsuccessful_effect_outcome := pending_unsuccessful_effect_outcome m \<or> \<not> s,
           pending_acknowledgements := remove_at idx (pending_acknowledgements m),
           sm_trace := sm_trace m @ [trace_record m e (sm_state m) []] \<rparr>)"
      using none out Some False by (rule lifecycle_step.partial)
    from verdict_accepted [OF this] show ?thesis
      using Some False by (simp add: apply_outcome_def trace_get_snoc)
  next
    case True
    let ?m = "m\<lparr> pending_acknowledgements := [], pending_unsuccessful_effect_outcome := False \<rparr>"
    have state: "sm_state m \<in> set (kind_states (sm_kind m))" "waiting (sm_kind m) (sm_state m)"
      using ok none nonempty by (auto simp: deferral_ok_def)
    have "settle_target m e s \<noteq> None"
      using waiting_takes_outcome [OF state(2), of e] event_outcome_cases [OF out]
      unfolding settle_target_def by (cases "if pending_unsuccessful_effect_outcome m \<or> \<not> s
        then unsuccessful_effect_recovery (sm_kind m) (sm_state m) else None") simp_all
    then obtain n es where tgt: "settle_target m e s = Some (n, es)" by auto
    have "apply_outcome m e i eff g s
        = (enter m e n es, Inr (trace_record m e (sm_state (enter m e n es)) es))"
    proof (cases "(if pending_unsuccessful_effect_outcome m \<or> \<not> s
           then unsuccessful_effect_recovery (sm_kind m) (sm_state m) else None) = None")
      case False
      then have rec: "unsuccessful_effect_recovery (sm_kind m) (sm_state m) = Some (n, es)"
        "pending_unsuccessful_effect_outcome m \<or> \<not> s"
        using tgt by (auto simp: settle_target_def split: if_splits)
      then have "acceptable ?m n es" using recovery_acceptable by simp
      from apply_transition_room [OF this] room rec True Some show ?thesis
        by (simp add: apply_outcome_def trace_record_def)
    next
      case none: True
      then have "kind_transition (sm_kind m) (sm_state m) e = Some (n, es)"
        using tgt by (simp add: settle_target_def)
      with apply_table_room [of ?m e] none state room True Some show ?thesis
        by (simp add: apply_outcome_def trace_record_def Let_def split: if_splits)
    qed
    moreover have "lifecycle_step m e (enter m e n es)"
      using none out Some True tgt by (rule lifecycle_step.settled)
    ultimately show ?thesis using verdict_enter by simp
  qed
qed

lemma restart_verdict:
  assumes "deferred_effects m = Some d" "sm_state m = EffectRecovery"
    and "uses_generic_effect_wrapper (sm_kind m)" and room: "next_effect_generation m \<noteq> - 1"
  shows "verdict m e (trace_get (restart_deferred_effect m e)) \<and>
    (e = Restart \<longrightarrow> is_ok (snd (trace_get (restart_deferred_effect m e))))"
proof (cases "e = Restart")
  case True
  have "acceptable (m\<lparr> deferred_effects := None \<rparr>) (de_target d) (de_effects d)"
    using assms(3) by (simp add: acceptable_def)
  from apply_transition_index_room [OF this] room
  have "trace_get (restart_deferred_effect m e) = (enter m e (de_target d) (de_effects d),
      Inr (trace_record m e (sm_state (enter m e (de_target d) (de_effects d))) (de_effects d)))"
    using assms(1) True by (simp add: restart_deferred_effect_def trace_get_snoc)
  with verdict_enter [OF lifecycle_step.restart [OF assms(1,2) True]] True show ?thesis by simp
next
  case False
  then show ?thesis by (simp add: restart_deferred_effect_def)
qed

text \<open>The target a completed deferral settles in, or the next request it makes.\<close>

lemma deferred_found:
  "de_target d \<in> set (kind_states (sm_kind m)) \<Longrightarrow>
   deferred_transition (sm_kind m) (de_target d) e = Inr (deferred_target m d e)"
  by (cases "kind_transition (sm_kind m) (de_target d) e")
    (simp_all add: deferred_transition_def transition_def belongs_kind_states deferred_target_def)

lemma complete_verdict:
  assumes d: "deferred_effects m = Some d" and ok: "deferral_ok m"
    and room: "next_effect_generation m \<noteq> - 1"
  shows "verdict m e (trace_get (complete_deferred_effect m e)) \<and>
    (event_outcome e = Some (i, eff, g, s) \<longrightarrow> pending_position m i eff g \<noteq> None \<longrightarrow>
      is_ok (snd (trace_get (complete_deferred_effect m e))))"
proof (cases "event_outcome e")
  case None
  then show ?thesis by (simp add: complete_deferred_effect_def deferred_effect_outcome_def)
next
  case (Some out)
  then obtain i' eff' g' s' where out: "event_outcome e = Some (i', eff', g', s')" by (cases out) auto
  let ?r = "trace_get (complete_deferred_effect m e)"
  show ?thesis
  proof (cases "pending_position m i' eff' g'")
    case None
    then have "trace_get (complete_deferred_effect m e) = (m, Inl (outcome_error m e i' eff' g'))"
      by (simp add: complete_deferred_effect_def deferred_effect_outcome_def out)
    with None out show ?thesis by auto
  next
    case (Some idx)
    let ?rest = "remove_at idx (pending_acknowledgements m)"
    consider (partly) "?rest \<noteq> []" | (failed) "?rest = []" "de_has_unsuccessful_outcome d \<or> \<not> s'"
      | (fine) "?rest = []" "\<not> de_has_unsuccessful_outcome d" "s'" by blast
    then have "verdict m e ?r \<and> is_ok (snd ?r)"
    proof cases
      case partly
      from verdict_accepted [OF lifecycle_step.deferred_partial [OF d out Some partly]] d partly Some
      show ?thesis
        by (simp add: complete_deferred_effect_def deferred_effect_outcome_def out trace_get_snoc
            trace_record_def)
    next
      case failed
      from verdict_accepted [OF lifecycle_step.deferred_failed [OF d out Some failed]] d failed Some
      show ?thesis
        by (auto simp: complete_deferred_effect_def deferred_effect_outcome_def out trace_get_snoc
            trace_record_def record_transition_room request_acks_def)
    next
      case fine
      obtain n es where tgt: "deferred_target m d e = (n, es)" by fastforce
      have wrap: "uses_generic_effect_wrapper (sm_kind m)" "de_target d \<in> set (kind_states (sm_kind m))"
        using ok d by (auto simp: deferral_ok_def)
      have acc: "acceptable (m\<lparr> deferred_effects := None \<rparr>) n es" using wrap by (simp add: acceptable_def)
      have "trace_get (complete_deferred_effect m e)
          = (enter m e n es, Inr (trace_record m e (sm_state (enter m e n es)) es))"
        using d fine Some wrap deferred_found [of d m e] tgt apply_transition_index_room [OF acc] room
        by (simp add: complete_deferred_effect_def deferred_effect_outcome_def out trace_get_snoc)
      moreover have "lifecycle_step m e (enter m e n es)"
        using d out [unfolded eqTrueI [OF fine(3)]] Some fine(1,2) tgt
        by (rule lifecycle_step.deferred_done)
      ultimately show ?thesis using verdict_enter by simp
    qed
    then show ?thesis by blast
  qed
qed

theorem apply_checked_verdict:
  assumes "machine_ok m"
  shows "verdict m e (apply_checked m e)"
proof (cases "length (sm_trace m) < sm_trace_limit m")
  case False
  then show ?thesis by (simp add: apply_checked_def)
next
  case short: True
  have ok: "deferral_ok m" and room: "next_effect_generation m \<noteq> - 1"
    using assms short generation_not_full by (auto simp: machine_ok_def)
  show ?thesis
  proof (cases "deferred_effects m")
    case (Some d)
    then have "uses_generic_effect_wrapper (sm_kind m)" using ok by (simp add: deferral_ok_def)
    with short Some restart_verdict [OF Some _ _ room] complete_verdict [OF Some ok room]
    show ?thesis by (simp add: apply_checked_def apply_deferred_effect_def)
  next
    case none: None
    then have state: "sm_state m \<in> set (kind_states (sm_kind m))"
      using ok by (simp add: deferral_ok_def)
    have table: "verdict m e (apply_table m e)"
      if "pending_acknowledgements m = []" "\<not> is_failed e" "\<not> is_cancelled e"
      using verdict_enter [OF lifecycle_step.table [OF none that]]
      by (auto simp: apply_table_room [OF state room] split: option.split)
    show ?thesis
    proof (cases "event_outcome e")
      case None
      with short none table event_outcome_None [of e] show ?thesis
        by (auto simp: apply_checked_def is_outcome_def)
    next
      case (Some out)
      then obtain i eff g s where out: "event_outcome e = Some (i, eff, g, s)" by (cases out) auto
      note kinds = event_outcome_cases [OF out] outcome_kinds [of e]
      from short none out table kinds apply_outcome_verdict [OF ok none room out] show ?thesis
        by (auto simp: apply_checked_def)
    qed
  qed
qed

theorem apply_event_verdict:
  assumes "machine_ok m"
  shows "verdict m e (apply_event m e)"
proof -
  have "m\<lparr> byte_durability_acknowledgement_authorized := False \<rparr> = m"
    using assms by (cases m) (simp add: machine_ok_def)
  with apply_checked_verdict [OF assms] show ?thesis
    by (simp add: apply_event_def split: option.split)
qed

end
