(* ===== verification/Machine_Safety.thy ===== *)
theory Machine_Safety
  imports Machine_Steps
begin

text \<open>
  Guarantees of every lifecycle machine: the invariant of its states, the correlation of effect
  outcomes, the atomicity of rejections, and the replay of its trace.
\<close>

section \<open>The invariant is kept\<close>

lemma pending_position_Some:
  "pending_position m i eff g = Some idx \<Longrightarrow>
     pending_acknowledgements m \<noteq> [] \<and> idx < length (pending_acknowledgements m) \<and>
     pending_acknowledgements m ! idx = \<lparr> ak_instance_id = i, ak_effect = eff, ak_generation = g \<rparr>"
  by (auto simp: pending_position_def dest: position_SomeD)

lemma pending_position_mem:
  "pending_position m i eff g = Some idx \<Longrightarrow>
     \<lparr> ak_instance_id = i, ak_effect = eff, ak_generation = g \<rparr> \<in> set (pending_acknowledgements m)"
  using pending_position_Some by (metis nth_mem)

lemma pending_ok_remove:
  "pending_ok m \<Longrightarrow> list_all (\<lambda>a. ak_instance_id a = sm_instance_id m \<and>
     unat (ak_generation a) + 1 = unat (next_effect_generation m))
     (remove_at idx (pending_acknowledgements m))"
  using set_remove_at [of idx "pending_acknowledgements m"]
  by (auto simp: pending_ok_def list_all_iff)

lemma generation_room_step:
  assumes "generation_room m" "length (sm_trace m) < sm_trace_limit m"
    and "sm_trace_limit m' = sm_trace_limit m" "length (sm_trace m') = Suc (length (sm_trace m))"
    and "next_effect_generation m' = next_effect_generation m \<or>
         next_effect_generation m' = next_effect_generation m + 1"
  shows "generation_room m'"
proof -
  have "unat (next_effect_generation m') \<le> Suc (unat (next_effect_generation m))"
    "0 < unat (next_effect_generation m')"
    using assms(5) unat_Suc_word [OF generation_not_full [OF assms(1,2)]] assms(1)
    by (auto simp: generation_room_def word_less_nat_alt)
  with assms(1-4) show ?thesis by (auto simp: generation_room_def word_less_nat_alt)
qed

lemma enter_ok:
  assumes ok: "machine_ok m" and short: "length (sm_trace m) < sm_trace_limit m"
    and n: "n \<in> set (kind_states (sm_kind m))"
    and rest: "es = [] \<Longrightarrow> resting (sm_kind m) n"
    and wait: "\<not> uses_generic_effect_wrapper (sm_kind m) \<Longrightarrow> es \<noteq> [] \<Longrightarrow> waiting (sm_kind m) n"
  shows "machine_ok (enter m e n es)"
proof -
  have room: "generation_room m" using ok by (simp add: machine_ok_def)
  have "generation_room (enter m e n es)"
    by (rule generation_room_step [OF room short]) auto
  moreover have "pending_ok (enter m e n es)"
    using unat_Suc_word [OF generation_not_full [OF room short]]
    by (auto simp: pending_ok_def request_acks_def list_all_iff)
  moreover have "deferral_ok (enter m e n es)"
    using n rest wait by (auto simp: deferral_ok_def enter_state request_acks_def)
  ultimately show ?thesis using ok by (simp add: machine_ok_def)
qed

lemma kind_transition_enter_ok:
  assumes "machine_ok m" "length (sm_trace m) < sm_trace_limit m"
    and "kind_transition (sm_kind m) s e' = Some (n, es)"
  shows "machine_ok (enter m e n es)"
proof (rule enter_ok [OF assms(1,2) transition_closed [OF assms(3)]])
  show "resting (sm_kind m) n" if "es = []" using transition_resting assms(3) that by simp
  show "waiting (sm_kind m) n" if "\<not> uses_generic_effect_wrapper (sm_kind m)" "es \<noteq> []"
    using transition_own_wait [OF that(1) assms(3)] that(2) by (simp add: own_wait_def)
qed

lemma partial_ok:
  assumes ok: "machine_ok m" and short: "length (sm_trace m) < sm_trace_limit m"
    and none: "deferred_effects m = None" and rest: "remove_at idx (pending_acknowledgements m) \<noteq> []"
    and some: "pending_acknowledgements m \<noteq> []"
  shows "machine_ok (m\<lparr> pending_unsuccessful_effect_outcome := b,
    pending_acknowledgements := remove_at idx (pending_acknowledgements m),
    sm_trace := sm_trace m @ [r] \<rparr>)" (is "machine_ok ?m")
proof -
  have "generation_room m" "pending_ok m" "deferral_ok m" "\<not> byte_durability_acknowledgement_authorized m"
    using ok by (simp_all add: machine_ok_def)
  note parts = this
  have "generation_room ?m" by (rule generation_room_step [OF parts(1) short]) simp_all
  moreover have "pending_ok ?m" using pending_ok_remove [OF parts(2)] by (simp add: pending_ok_def)
  moreover have "deferral_ok ?m" using parts(3) none rest some by (simp add: deferral_ok_def)
  ultimately show ?thesis using parts(4) by (simp add: machine_ok_def)
qed

lemma deferred_partial_ok:
  assumes ok: "machine_ok m" and short: "length (sm_trace m) < sm_trace_limit m"
    and d: "deferred_effects m = Some d" and rest: "remove_at idx (pending_acknowledgements m) \<noteq> []"
    and some: "pending_acknowledgements m \<noteq> []"
  shows "machine_ok (m\<lparr> pending_acknowledgements := remove_at idx (pending_acknowledgements m),
    deferred_effects := Some (d\<lparr> de_has_unsuccessful_outcome := b \<rparr>),
    sm_trace := sm_trace m @ [r] \<rparr>)" (is "machine_ok ?m")
proof -
  have "generation_room m" "pending_ok m" "deferral_ok m" "\<not> byte_durability_acknowledgement_authorized m"
    using ok by (simp_all add: machine_ok_def)
  note parts = this
  have "generation_room ?m" by (rule generation_room_step [OF parts(1) short]) simp_all
  moreover have "pending_ok ?m" using pending_ok_remove [OF parts(2)] by (simp add: pending_ok_def)
  moreover have "ak_effect ` set (remove_at idx (pending_acknowledgements m)) \<subseteq> set (de_effects d)"
    using parts(3) d set_remove_at [of idx "pending_acknowledgements m"]
    by (auto simp: deferral_ok_def)
  then have "deferral_ok ?m" using parts(3) d rest some by (simp add: deferral_ok_def)
  ultimately show ?thesis using parts(4) by (simp add: machine_ok_def)
qed

lemma deferred_failed_ok:
  assumes ok: "machine_ok m" and short: "length (sm_trace m) < sm_trace_limit m"
    and d: "deferred_effects m = Some d"
  shows "machine_ok (m\<lparr> sm_state := EffectRecovery, pending_acknowledgements := [],
    pending_unsuccessful_effect_outcome := False,
    deferred_effects := Some (d\<lparr> de_has_unsuccessful_outcome := True \<rparr>),
    sm_trace := sm_trace m @ [r] \<rparr>)" (is "machine_ok ?m")
proof -
  have "generation_room m" "deferral_ok m" "\<not> byte_durability_acknowledgement_authorized m"
    using ok by (simp_all add: machine_ok_def)
  note parts = this
  have "generation_room ?m" by (rule generation_room_step [OF parts(1) short]) simp_all
  moreover have "deferral_ok ?m" using parts(2) d by (simp add: deferral_ok_def)
  ultimately show ?thesis using parts(3) by (simp add: machine_ok_def pending_ok_def)
qed

lemma settle_target_cases:
  assumes "settle_target m e ok = Some (n, es)"
  obtains (moved) "kind_transition (sm_kind m) (sm_state m) e = Some (n, es)"
  | (recovers) "sm_kind m = Ffmpeg" "n \<in> set ffmpeg_recovery_states" "es = [PreserveDiagnostics]"
      "pending_unsuccessful_effect_outcome m \<or> \<not> ok"
proof (cases "if pending_unsuccessful_effect_outcome m \<or> \<not> ok
    then unsuccessful_effect_recovery (sm_kind m) (sm_state m) else None")
  case None
  with assms moved show thesis by (simp add: settle_target_def)
next
  case (Some r)
  with assms have "unsuccessful_effect_recovery (sm_kind m) (sm_state m) = Some (n, es)"
    "pending_unsuccessful_effect_outcome m \<or> \<not> ok"
    by (simp_all add: settle_target_def split: if_splits)
  with recovery_transition recovers show thesis by blast
qed

lemma settled_ok:
  assumes "machine_ok m" "length (sm_trace m) < sm_trace_limit m"
    and tgt: "settle_target m e ok = Some (n, es)"
  shows "machine_ok (enter m e n es)"
  using tgt
proof (cases rule: settle_target_cases)
  case moved
  with assms show ?thesis using kind_transition_enter_ok by blast
next
  case recovers
  from own_wait_recovery [OF recovers(2)] have "waiting Ffmpeg n" by (simp add: own_wait_def recovers(3))
  with recovers recovery_states_belong [OF recovers(2)] show ?thesis
    by (intro enter_ok [OF assms(1,2)]) simp_all
qed

lemma deferred_done_ok:
  assumes "machine_ok m" "length (sm_trace m) < sm_trace_limit m" "deferred_effects m = Some d"
    and "is_acknowledged e" "deferred_target m d e = (n, es)"
  shows "machine_ok (enter m e n es)"
proof (cases "kind_transition (sm_kind m) (de_target d) e")
  case None
  have d: "uses_generic_effect_wrapper (sm_kind m)" "de_target d \<in> set (kind_states (sm_kind m))"
    using assms(1,3) by (simp_all add: machine_ok_def deferral_ok_def)
  have "\<not> leaves (sm_kind m) AnyAcknowledged (de_target d)"
    using transition_iff_leaves [of "sm_kind m" "de_target d" e] None assms(4)
    by (simp add: pattern_for_def)
  with d None assms(5) show ?thesis
    by (intro enter_ok [OF assms(1,2)]) (simp_all add: deferred_target_def resting_def)
next
  case (Some r)
  with assms(5) have "kind_transition (sm_kind m) (de_target d) e = Some (n, es)"
    by (simp add: deferred_target_def)
  with assms(1,2) show ?thesis using kind_transition_enter_ok by blast
qed

lemma restart_ok:
  assumes "machine_ok m" "length (sm_trace m) < sm_trace_limit m" "deferred_effects m = Some d"
  shows "machine_ok (enter m e (de_target d) (de_effects d))"
  using assms(1,3)
  by (intro enter_ok [OF assms(1,2)]) (simp_all add: machine_ok_def deferral_ok_def)

lemma lifecycle_step_ok:
  assumes "lifecycle_step m e m'" "machine_ok m" "length (sm_trace m) < sm_trace_limit m"
  shows "machine_ok m'"
  using assms(1)
proof cases
  case (table n es)
  then show ?thesis using kind_transition_enter_ok assms(2,3) by blast
next
  case (partial i eff g ok idx)
  then show ?thesis using partial_ok [OF assms(2,3)] pending_position_Some by blast
next
  case (settled i eff g ok idx n es)
  then show ?thesis using settled_ok [OF assms(2,3)] by blast
next
  case (deferred_partial d i eff g ok idx)
  then show ?thesis using deferred_partial_ok [OF assms(2,3)] pending_position_Some by blast
next
  case (deferred_failed d i eff g ok idx)
  then show ?thesis using deferred_failed_ok [OF assms(2,3)] by blast
next
  case (deferred_done d i eff g idx n es)
  then show ?thesis using deferred_done_ok [OF assms(2,3)] event_outcome_cases by blast
next
  case (restart d)
  then show ?thesis using restart_ok [OF assms(2,3)] by blast
qed

lemma lifecycle_step_trace:
  assumes "lifecycle_step m e m'" "deferral_ok m"
  shows "\<exists>es. sm_trace m' = sm_trace m @ [trace_record m e (sm_state m') es]"
  using assms
proof (induction rule: lifecycle_step.induct)
  case (deferred_partial m d e i eff g ok idx)
  then have "sm_state m = EffectPending"
    using pending_position_Some [OF deferred_partial(3)] by (simp add: deferral_ok_def)
  then show ?case by auto
qed auto

lemma lifecycle_step_frame:
  "lifecycle_step m e m' \<Longrightarrow> sm_instance_id m' = sm_instance_id m \<and> sm_kind m' = sm_kind m \<and>
     sm_trace_limit m' = sm_trace_limit m \<and> byte_durability_broker m' = byte_durability_broker m"
  by (induction rule: lifecycle_step.induct) auto

text \<open>The next machine: what a caller holds after an event, whatever its result.\<close>

definition advance_machine :: "StateMachine \<Rightarrow> Event \<Rightarrow> StateMachine" where
  "advance_machine m e = fst (apply_event m e)"

lemma apply_event_accepted:
  assumes "machine_ok m" "apply_event m e = (m', Inr t)"
  shows "lifecycle_step m e m'" "length (sm_trace m) < sm_trace_limit m"
    "sm_trace m' = sm_trace m @ [t]"
proof -
  show "lifecycle_step m e m'" "sm_trace m' = sm_trace m @ [t]"
    using apply_event_verdict [OF assms(1), of e] assms(2) by (auto simp: verdict_def)
  show "length (sm_trace m) < sm_trace_limit m"
    using assms(2) by (auto simp: apply_event_def apply_checked_def Let_def
        split: option.splits if_splits)
qed

lemma apply_event_rejected: "machine_ok m \<Longrightarrow> apply_event m e = (m', Inl x) \<Longrightarrow> m' = m"
  using apply_event_verdict [of m e] by (auto simp: verdict_def)

lemma advance_machine_cases:
  assumes "machine_ok m"
  obtains (rejected) x where "apply_event m e = (m, Inl x)" "advance_machine m e = m"
  | (accepted) t where "apply_event m e = (advance_machine m e, Inr t)"
      "lifecycle_step m e (advance_machine m e)" "length (sm_trace m) < sm_trace_limit m"
      "sm_trace (advance_machine m e) = sm_trace m @ [t]"
proof (cases "apply_event m e")
  case (Pair m' r)
  show thesis
  proof (cases r)
    case (Inl x)
    with Pair apply_event_rejected [OF assms] rejected show thesis by (simp add: advance_machine_def)
  next
    case (Inr t)
    with Pair apply_event_accepted [OF assms, of e m' t] accepted show thesis
      by (simp add: advance_machine_def)
  qed
qed

interpretation lifecycle: invariant_system advance_machine machine_ok
proof
  fix m e
  assume ok: "machine_ok m"
  show "machine_ok (advance_machine m e)"
    by (rule advance_machine_cases [OF ok, of e]) (use ok lifecycle_step_ok in auto)
qed

lemma restored_ok:
  "resting kind state \<Longrightarrow> generation \<noteq> 0 \<Longrightarrow> unat generation + limit < 2 ^ 64 \<Longrightarrow>
   machine_ok (restored kind state i limit generation)"
  by (simp add: machine_ok_def restored_def pending_ok_def deferral_ok_def generation_room_def
      resting_def word_gt_0)

lemma machine_new_restored: "machine_new kind i limit = restored kind (initial kind) i limit 1"
  by (simp add: machine_new_def restored_def)

lemma machine_new_ok: "limit + 1 < 2 ^ 64 \<Longrightarrow> machine_ok (machine_new kind i limit)"
  by (simp add: machine_new_restored restored_ok initial_resting)

lemma from_state_Inr:
  "from_state kind state i limit generation = Inr m \<longleftrightarrow>
     is_durable_state kind state \<and> kind \<noteq> ByteCreditDurability \<and> generation \<noteq> 0 \<and>
     m = restored kind state i limit generation"
  using durable_resting [of kind state] belongs_kind_states [of state kind]
  by (auto simp: from_state_def resting_def)

section \<open>Reachable machines\<close>

definition lifecycle_start :: "StateMachine \<Rightarrow> bool" where
  "lifecycle_start m =
     ((\<exists>kind i limit. m = machine_new kind i limit \<and> limit + 1 < 2 ^ 64) \<or>
      (\<exists>kind state i limit generation. from_state kind state i limit generation = Inr m \<and>
         unat generation + limit < 2 ^ 64))"

lemma lifecycle_start_ok: "lifecycle_start m \<Longrightarrow> machine_ok m"
  using machine_new_ok restored_ok [OF durable_resting]
  by (auto simp: lifecycle_start_def from_state_Inr)

lemma lifecycle_start_trace: "lifecycle_start m \<Longrightarrow> sm_trace m = []"
  by (auto simp: lifecycle_start_def from_state_Inr machine_new_restored restored_def)

lemma reachable_ok: "lifecycle_start m0 \<Longrightarrow> machine_ok (run_events advance_machine m0 events)"
  by (rule lifecycle.inv_run [OF lifecycle_start_ok])

text \<open>A trace that leads from one state to another, each record starting where the last ended.\<close>

fun trace_linked :: "State \<Rightarrow> Transition list \<Rightarrow> State \<Rightarrow> bool" where
  "trace_linked s [] s' = (s = s')"
| "trace_linked s (t # ts) s' = (tr_previous t = s \<and> trace_linked (tr_next t) ts s')"

lemma trace_linked_snoc [simp]:
  "trace_linked s (ts @ [t]) s' \<longleftrightarrow> trace_linked s ts (tr_previous t) \<and> tr_next t = s'"
  by (induction ts arbitrary: s) auto

lemma advance_machine_frame:
  assumes "machine_ok m"
  shows "sm_instance_id (advance_machine m e) = sm_instance_id m"
    "sm_kind (advance_machine m e) = sm_kind m"
    "sm_trace_limit (advance_machine m e) = sm_trace_limit m"
    "byte_durability_broker (advance_machine m e) = byte_durability_broker m"
  by (rule advance_machine_cases [OF assms, of e]; use lifecycle_step_frame in simp)+

lemma run_frame:
  assumes "machine_ok m"
  shows "sm_kind (run_events advance_machine m es) = sm_kind m"
    "sm_instance_id (run_events advance_machine m es) = sm_instance_id m"
    "sm_trace_limit (run_events advance_machine m es) = sm_trace_limit m"
  using assms
  by (induction es arbitrary: m) (auto simp: advance_machine_frame lifecycle.inv_step)

lemma run_trace_linked:
  "machine_ok m \<Longrightarrow> trace_linked s (sm_trace m) (sm_state m) \<Longrightarrow>
   trace_linked s (sm_trace (run_events advance_machine m es)) (sm_state (run_events advance_machine m es))"
proof (induction es arbitrary: m)
  case (Cons e es)
  have "trace_linked s (sm_trace (advance_machine m e)) (sm_state (advance_machine m e))"
  proof (rule advance_machine_cases [OF Cons.prems(1), of e])
    fix t
    assume "lifecycle_step m e (advance_machine m e)"
    moreover have "deferral_ok m" using Cons.prems(1) by (simp add: machine_ok_def)
    ultimately obtain rs where "sm_trace (advance_machine m e)
        = sm_trace m @ [trace_record m e (sm_state (advance_machine m e)) rs]"
      using lifecycle_step_trace by blast
    with Cons.prems(2) show ?thesis by (simp add: trace_record_def)
  qed (use Cons.prems(2) in simp)
  with Cons.IH lifecycle.inv_step [OF Cons.prems(1)] show ?case by simp
qed simp

lemma machine_okD:
  assumes "machine_ok m"
  shows "belongs (sm_kind m) (sm_state m)"
    "deferred_effects m \<noteq> None \<longleftrightarrow> sm_state m \<in> {EffectPending, EffectRecovery}"
    "sm_state m = EffectPending \<longrightarrow> pending_acknowledgements m \<noteq> []"
    "sm_state m = EffectRecovery \<longrightarrow> pending_acknowledgements m = []"
proof -
  have ok: "deferral_ok m" using assms by (simp add: machine_ok_def)
  show "belongs (sm_kind m) (sm_state m)"
    using ok belongs_kind_states [of "sm_state m" "sm_kind m"]
    by (auto simp: deferral_ok_def belongs_def split: option.splits if_splits)
  show "deferred_effects m \<noteq> None \<longleftrightarrow> sm_state m \<in> {EffectPending, EffectRecovery}"
    "sm_state m = EffectPending \<longrightarrow> pending_acknowledgements m \<noteq> []"
    "sm_state m = EffectRecovery \<longrightarrow> pending_acknowledgements m = []"
    using ok kind_states_proper [of "sm_kind m"]
    by (auto simp: deferral_ok_def split: option.splits if_splits)
qed

section \<open>Guarantees\<close>

text \<open>
  C12: Every reachable lifecycle machine is well formed: its state belongs to its kind, its trace
  stays within the limit and leads without gaps from the first state to the current one, the
  wrapper states are entered exactly while effects are deferred, and every pending
  acknowledgement is for this instance and the latest generation.
\<close>

theorem lifecycle_invariant:
  assumes "lifecycle_start m0" "m = run_events advance_machine m0 events"
  shows "sm_kind m = sm_kind m0 \<and> belongs (sm_kind m) (sm_state m) \<and>
    length (sm_trace m) \<le> sm_trace_limit m0 \<and>
    trace_linked (sm_state m0) (sm_trace m) (sm_state m) \<and>
    (deferred_effects m \<noteq> None \<longleftrightarrow> sm_state m \<in> {EffectPending, EffectRecovery}) \<and>
    (sm_state m = EffectPending \<longrightarrow> pending_acknowledgements m \<noteq> []) \<and>
    (sm_state m = EffectRecovery \<longrightarrow> pending_acknowledgements m = []) \<and>
    list_all (\<lambda>a. ak_instance_id a = sm_instance_id m0 \<and>
      unat (ak_generation a) + 1 = unat (next_effect_generation m)) (pending_acknowledgements m)"
proof -
  note start = lifecycle_start_ok [OF assms(1)]
  have ok: "machine_ok m" using reachable_ok assms by simp
  have "trace_linked (sm_state m0) (sm_trace m) (sm_state m)"
    using run_trace_linked [OF start] lifecycle_start_trace [OF assms(1)] assms(2) by simp
  moreover note run_frame [OF start, of events] machine_okD [OF ok]
  moreover have "length (sm_trace m) \<le> sm_trace_limit m" "pending_ok m"
    using ok by (simp_all add: machine_ok_def generation_room_def)
  ultimately show ?thesis using assms(2) by (simp add: pending_ok_def)
qed

text \<open>
  An event is applied atomically: on an error the machine is exactly what it was, and on
  success exactly one record is appended, which is the returned one and names the state before,
  the event and the state after.
\<close>

theorem lifecycle_apply_atomic:
  assumes "lifecycle_start m0" "m = run_events advance_machine m0 events"
  shows "case apply_event m e of
      (m', Inl x) \<Rightarrow> m' = m
    | (m', Inr t) \<Rightarrow> length (sm_trace m) < sm_trace_limit m \<and> sm_trace m' = sm_trace m @ [t] \<and>
        tr_previous t = sm_state m \<and> tr_event t = e \<and> tr_next t = sm_state m'"
proof -
  have ok: "machine_ok m" using reachable_ok assms by simp
  then have "deferral_ok m" by (simp add: machine_ok_def)
  note linked = lifecycle_step_trace [OF _ this, of e]
  show ?thesis
    by (rule advance_machine_cases [OF ok, of e])
      (use linked in \<open>fastforce simp: trace_record_def\<close>)+
qed

lemma replay_run:
  "machine_ok m \<Longrightarrow> \<exists>records. sm_trace (run_events advance_machine m es) = sm_trace m @ records \<and>
     replay_records m index records = Inr (run_events advance_machine m es)"
proof (induction es arbitrary: m index)
  case (Cons e es)
  show ?case
  proof (rule advance_machine_cases [OF Cons.prems, of e])
    fix x
    assume "advance_machine m e = m"
    with Cons show ?thesis by simp
  next
    fix t
    assume acc: "apply_event m e = (advance_machine m e, Inr t)"
      "lifecycle_step m e (advance_machine m e)" "sm_trace (advance_machine m e) = sm_trace m @ [t]"
    have "deferral_ok m" using Cons.prems by (simp add: machine_ok_def)
    with lifecycle_step_trace [OF acc(2)] acc(3) have "tr_event t = e"
      by (auto simp: trace_record_def)
    moreover obtain records where
      "sm_trace (run_events advance_machine m (e # es)) = sm_trace m @ t # records"
      "replay_records (advance_machine m e) (Suc index) records
         = Inr (run_events advance_machine m (e # es))"
      using Cons.IH [OF lifecycle.inv_step [OF Cons.prems], of e "Suc index"] acc(3) by auto
    ultimately show ?thesis using acc(1) by (intro exI [of _ "t # records"]) simp
  qed
qed simp



section \<open>Outcomes are settled once\<close>

text \<open>The effects of one request are distinct, so a pending acknowledgement is determined by its effect.\<close>

lemma kind_arms_distinct: "arms_all (\<lambda>s p n es. distinct es) (kind_arms k)"
  by (cases k) (simp_all add: table_defs)

lemma transition_distinct: "kind_transition k s e = Some (n, es) \<Longrightarrow> distinct es"
  using arms_allD [OF kind_arms_distinct] by (auto simp: kind_transition_arms)

definition requests_distinct :: "StateMachine \<Rightarrow> bool" where
  "requests_distinct m =
     (distinct (map ak_effect (pending_acknowledgements m)) \<and>
      (case deferred_effects m of None \<Rightarrow> True | Some d \<Rightarrow> distinct (de_effects d)))"

lemma enter_distinct: "distinct es \<Longrightarrow> requests_distinct (enter m e n es)"
  by (simp add: requests_distinct_def request_acks_def enter_state comp_def)

lemma distinct_remove_at: "distinct (map f xs) \<Longrightarrow> distinct (map f (remove_at i xs))"
proof (induction xs arbitrary: i)
  case (Cons x xs)
  then show ?case
    using set_remove_at [of _ xs] by (cases i) auto
qed (simp add: remove_at_def)

lemma lifecycle_step_distinct:
  assumes "lifecycle_step m e m'" "requests_distinct m"
  shows "requests_distinct m'"
  using assms(1)
proof cases
  case (table n es)
  then show ?thesis using enter_distinct transition_distinct by blast
next
  case (partial i eff g ok idx)
  then show ?thesis using assms(2) distinct_remove_at by (auto simp: requests_distinct_def)
next
  case (settled i eff g ok idx n es)
  have "distinct es"
    by (rule settle_target_cases [OF settled(6)]) (auto dest: transition_distinct)
  with settled show ?thesis using enter_distinct by blast
next
  case (deferred_partial d i eff g ok idx)
  then show ?thesis using assms(2) distinct_remove_at by (auto simp: requests_distinct_def)
next
  case (deferred_failed d i eff g ok idx)
  then show ?thesis using assms(2) by (auto simp: requests_distinct_def)
next
  case (deferred_done d i eff g idx n es)
  then have "distinct es"
    using transition_distinct by (auto simp: deferred_target_def split: option.splits)
  with deferred_done show ?thesis using enter_distinct by blast
next
  case (restart d)
  then show ?thesis using assms(2) enter_distinct by (simp add: requests_distinct_def)
qed

text \<open>
  An acknowledgement is spent once its generation has passed or its effect is no longer pending;
  a spent one stays spent.
\<close>

definition spent :: "StateMachine \<Rightarrow> EffectIntent \<Rightarrow> u64 \<Rightarrow> bool" where
  "spent m eff g =
     (unat g + 1 < unat (next_effect_generation m) \<or>
      unat g + 1 = unat (next_effect_generation m) \<and>
        eff \<notin> ak_effect ` set (pending_acknowledgements m))"

lemma spent_enter:
  assumes "unat g + 1 \<le> unat (next_effect_generation m)" "next_effect_generation m \<noteq> - 1"
  shows "spent (enter m e n es) eff g"
  using assms unat_Suc_word [OF assms(2)] by (auto simp: spent_def request_acks_def)

lemma spent_shrink:
  "spent m eff g \<Longrightarrow> next_effect_generation m' = next_effect_generation m \<Longrightarrow>
   set (pending_acknowledgements m') \<subseteq> set (pending_acknowledgements m) \<Longrightarrow> spent m' eff g"
  by (auto simp: spent_def)

lemma lifecycle_step_spent:
  assumes "lifecycle_step m e m'" "spent m eff g" "next_effect_generation m \<noteq> - 1"
  shows "spent m' eff g"
proof -
  have "unat g + 1 \<le> unat (next_effect_generation m)" using assms(2) by (auto simp: spent_def)
  note entered = spent_enter [OF this assms(3)]
  note less = spent_shrink [OF assms(2)] set_remove_at [of _ "pending_acknowledgements m"]
  from assms(1) show ?thesis by cases (use entered less in simp_all)
qed

lemma outcome_event_position:
  assumes "pending_ok m" "requests_distinct m" "pending_position m i eff g = Some idx"
  shows "eff \<notin> ak_effect ` set (remove_at idx (pending_acknowledgements m))"
    "unat g + 1 = unat (next_effect_generation m)" "i = sm_instance_id m"
proof -
  note at = pending_position_Some [OF assms(3)]
  from pending_position_mem [OF assms(3)] assms(1)
  show "unat g + 1 = unat (next_effect_generation m)" "i = sm_instance_id m"
    by (auto simp: pending_ok_def list_all_iff)
  have "pending_acknowledgements m = take idx (pending_acknowledgements m) @
      \<lparr> ak_instance_id = i, ak_effect = eff, ak_generation = g \<rparr> # drop (Suc idx) (pending_acknowledgements m)"
    using at remove_at_split [of idx "pending_acknowledgements m"] by simp
  then have "map ak_effect (pending_acknowledgements m) = map ak_effect (take idx (pending_acknowledgements m)) @
      eff # map ak_effect (drop (Suc idx) (pending_acknowledgements m))"
    by (metis (no_types, lifting) EffectAcknowledgement.select_convs(2) list.simps(9) map_append)
  with assms(2) show "eff \<notin> ak_effect ` set (remove_at idx (pending_acknowledgements m))"
    unfolding requests_distinct_def remove_at_def by auto
qed

lemma resting_ignores_acknowledgement:
  assumes "machine_ok m" "sm_kind m \<noteq> Ffmpeg" "deferred_effects m = None"
    and "pending_acknowledgements m = []" "is_acknowledged e"
  shows "kind_transition (sm_kind m) (sm_state m) e = None"
proof -
  have "resting (sm_kind m) (sm_state m)" using assms(1,3,4) by (simp add: machine_ok_def deferral_ok_def)
  then have "\<not> leaves (sm_kind m) (pattern_for e) (sm_state m)"
    using assms(2,5) by (simp add: resting_def pattern_for_def)
  then show ?thesis using transition_iff_leaves by blast
qed

lemma accepted_outcome:
  assumes step: "lifecycle_step m e m'" and ok: "machine_ok m" and distinct: "requests_distinct m"
    and room: "next_effect_generation m \<noteq> - 1" and kind: "sm_kind m \<noteq> Ffmpeg"
    and out: "event_outcome e = Some (i, eff, g, s)"
  shows "pending_position m i eff g \<noteq> None \<and> spent m' eff g"
  using step
proof cases
  case (table n es)
  then show ?thesis
    using resting_ignores_acknowledgement [OF ok kind] event_outcome_cases [OF out]
    by (auto simp: is_outcome_def)
next
  case (restart d)
  then show ?thesis using out by (simp add: event_outcome_def)
next
  case (partial i' eff' g' ok' idx)
  have pos: "pending_position m i eff g = Some idx" using partial out by simp
  have "pending_ok m" using ok by (simp add: machine_ok_def)
  from outcome_event_position [OF this distinct pos] partial pos show ?thesis by (simp add: spent_def)
next
  case (deferred_partial d i' eff' g' ok' idx)
  have pos: "pending_position m i eff g = Some idx" using deferred_partial out by simp
  have "pending_ok m" using ok by (simp add: machine_ok_def)
  from outcome_event_position [OF this distinct pos] deferred_partial pos show ?thesis
    by (simp add: spent_def)
next
  case (deferred_failed d i' eff' g' ok' idx)
  have pos: "pending_position m i eff g = Some idx" using deferred_failed out by simp
  have "pending_ok m" using ok by (simp add: machine_ok_def)
  from outcome_event_position [OF this distinct pos] deferred_failed pos show ?thesis
    by (simp add: spent_def)
next
  case (settled i' eff' g' ok' idx n es)
  have pos: "pending_position m i eff g = Some idx" using settled out by simp
  have "pending_ok m" using ok by (simp add: machine_ok_def)
  from outcome_event_position [OF this distinct pos] settled pos show ?thesis
    using spent_enter [OF _ room] by simp
next
  case (deferred_done d i' eff' g' idx n es)
  have pos: "pending_position m i eff g = Some idx" using deferred_done out by simp
  have "pending_ok m" using ok by (simp add: machine_ok_def)
  from outcome_event_position [OF this distinct pos] deferred_done pos show ?thesis
    using spent_enter [OF _ room] by simp
qed

text \<open>The invariant of the once-only argument, for whole runs.\<close>

definition spent_ok :: "EffectIntent \<Rightarrow> u64 \<Rightarrow> StateMachine \<Rightarrow> bool" where
  "spent_ok eff g m = (machine_ok m \<and> requests_distinct m \<and> spent m eff g)"

interpretation settled_once: invariant_system advance_machine "spent_ok eff g" for eff g
proof
  fix m e
  assume ok: "spent_ok eff g m"
  then have m: "machine_ok m" by (simp add: spent_ok_def)
  show "spent_ok eff g (advance_machine m e)"
  proof (rule advance_machine_cases [OF m, of e])
    fix t
    assume acc: "lifecycle_step m e (advance_machine m e)" "length (sm_trace m) < sm_trace_limit m"
    then have "next_effect_generation m \<noteq> - 1" using m generation_not_full by (simp add: machine_ok_def)
    with acc ok lifecycle.inv_step [OF m] lifecycle_step_distinct lifecycle_step_spent show ?thesis
      by (simp add: spent_ok_def)
  qed (use ok in simp)
qed

lemma start_distinct: "lifecycle_start m \<Longrightarrow> requests_distinct m"
  by (auto simp: lifecycle_start_def from_state_Inr machine_new_restored restored_def
      requests_distinct_def)

interpretation distinct_requests: invariant_system advance_machine "\<lambda>m. machine_ok m \<and> requests_distinct m"
proof
  fix m e
  assume ok: "machine_ok m \<and> requests_distinct m"
  then have m: "machine_ok m" by simp
  show "machine_ok (advance_machine m e) \<and> requests_distinct (advance_machine m e)"
    by (rule advance_machine_cases [OF m, of e])
      (use ok lifecycle.inv_step [OF m] lifecycle_step_distinct in auto)
qed

lemma spent_rejected:
  assumes ok: "spent_ok eff g m" and kind: "sm_kind m \<noteq> Ffmpeg"
    and out: "event_outcome e = Some (i, eff, g, s)"
  shows "\<exists>x. apply_event m e = (m, Inl x)"
proof -
  have m: "machine_ok m" and distinct: "requests_distinct m" and spent: "spent m eff g"
    using ok by (simp_all add: spent_ok_def)
  show ?thesis
  proof (rule advance_machine_cases [OF m, of e])
    fix t
    assume acc: "lifecycle_step m e (advance_machine m e)" "length (sm_trace m) < sm_trace_limit m"
    then have "next_effect_generation m \<noteq> - 1" using m generation_not_full by (simp add: machine_ok_def)
    from accepted_outcome [OF acc(1) m distinct this kind out]
    obtain idx where pos: "pending_position m i eff g = Some idx" by auto
    have "pending_ok m" using m by (simp add: machine_ok_def)
    moreover have "eff \<in> ak_effect ` set (pending_acknowledgements m)"
      using pending_position_mem [OF pos] by force
    ultimately have False using outcome_event_position(2) [OF _ distinct pos] spent
      by (auto simp: spent_def)
    then show ?thesis ..
  qed auto
qed

text \<open>
  C13: Effect outcomes are correlated and settled once: outside the FFmpeg kind, an outcome is
  accepted only for an acknowledgement that is pending under exactly its instance, effect and
  generation, and afterwards no outcome of any sort for the same effect and generation is ever
  accepted again, whatever happens in between.
\<close>

theorem lifecycle_outcome_once:
  assumes "lifecycle_start m0" "m = run_events advance_machine m0 events" "sm_kind m0 \<noteq> Ffmpeg"
    and "event_outcome e = Some (i, eff, g, ok)" "apply_event m e = (m', Inr t)"
    and "event_outcome e' = Some (i', eff, g, ok')"
  shows "\<lparr> ak_instance_id = i, ak_effect = eff, ak_generation = g \<rparr> \<in> set (pending_acknowledgements m) \<and>
    (\<exists>x. apply_event (run_events advance_machine m' later) e'
       = (run_events advance_machine m' later, Inl x))"
proof -
  have inv: "machine_ok m \<and> requests_distinct m"
    using distinct_requests.inv_run [of m0 events] lifecycle_start_ok start_distinct assms(1,2) by simp
  then have m: "machine_ok m" by simp
  have kind: "sm_kind m \<noteq> Ffmpeg" using run_frame [OF lifecycle_start_ok [OF assms(1)]] assms(2,3) by simp
  note acc = apply_event_accepted [OF m assms(5)]
  have room: "next_effect_generation m \<noteq> - 1" using m acc(2) generation_not_full by (simp add: machine_ok_def)
  have out: "pending_position m i eff g \<noteq> None" "spent m' eff g"
    using accepted_outcome [OF acc(1) m _ room kind assms(4)] inv by auto
  have pend: "\<lparr> ak_instance_id = i, ak_effect = eff, ak_generation = g \<rparr> \<in> set (pending_acknowledgements m)"
    using out(1) pending_position_mem by blast
  have "spent_ok eff g m'"
    using out(2) lifecycle_step_ok [OF acc(1) m acc(2)] lifecycle_step_distinct [OF acc(1)] inv
    by (simp add: spent_ok_def)
  then have late: "spent_ok eff g (run_events advance_machine m' later)" by (rule settled_once.inv_run)
  have "machine_ok m'" using \<open>spent_ok eff g m'\<close> by (simp add: spent_ok_def)
  then have "sm_kind (run_events advance_machine m' later) \<noteq> Ffmpeg"
    using run_frame lifecycle_step_frame [OF acc(1)] kind by simp
  from spent_rejected [OF late this assms(6)] pend show ?thesis by blast
qed

section \<open>Nothing pending is stuck\<close>

lemma pending_position_found:
  "a \<in> set (pending_acknowledgements m) \<Longrightarrow>
     pending_position m (ak_instance_id a) (ak_effect a) (ak_generation a) \<noteq> None"
  by (auto simp: pending_position_def position_eq_None_iff)

lemma apply_checked_takes_outcome:
  assumes "machine_ok m" and short: "length (sm_trace m) < sm_trace_limit m"
    and out: "event_outcome e = Some (i, eff, g, s)" and pos: "pending_position m i eff g \<noteq> None"
  shows "is_ok (snd (apply_checked m e))"
proof -
  have ok: "deferral_ok m" and room: "next_effect_generation m \<noteq> - 1"
    using assms(1) short generation_not_full by (auto simp: machine_ok_def)
  have some: "pending_acknowledgements m \<noteq> []" using pos pending_position_Some by fastforce
  note outcome = event_outcome_cases [OF out]
  show ?thesis
  proof (cases "deferred_effects m")
    case None
    with apply_outcome_verdict [OF ok None room out] pos some outcome out short show ?thesis
      by (simp add: apply_checked_def)
  next
    case (Some d)
    moreover have "sm_state m = EffectPending" using ok Some some by (simp add: deferral_ok_def)
    ultimately show ?thesis
      using complete_verdict [OF Some ok room, of e i eff g s] pos out short
      by (simp add: apply_checked_def apply_deferred_effect_def)
  qed
qed

lemma apply_checked_restarts:
  assumes "machine_ok m" and short: "length (sm_trace m) < sm_trace_limit m"
    and "sm_state m = EffectRecovery"
  shows "is_ok (snd (apply_checked m Restart))"
proof -
  have ok: "deferral_ok m" and room: "next_effect_generation m \<noteq> - 1"
    using assms(1) short generation_not_full by (auto simp: machine_ok_def)
  obtain d where d: "deferred_effects m = Some d" using machine_okD(2) [OF assms(1)] assms(3) by auto
  then have "uses_generic_effect_wrapper (sm_kind m)" using ok by (simp add: deferral_ok_def)
  from restart_verdict [OF d assms(3) this room] d short assms(3) show ?thesis
    by (simp add: apply_checked_def apply_deferred_effect_def)
qed

lemma apply_event_plain:
  "machine_ok m \<Longrightarrow> byte_acknowledgement m e = None \<Longrightarrow> apply_event m e = apply_checked m e"
proof -
  assume "machine_ok m" "byte_acknowledgement m e = None"
  moreover from this have "m\<lparr> byte_durability_acknowledgement_authorized := False \<rparr> = m"
    by (cases m) (simp add: machine_ok_def)
  ultimately show ?thesis by (simp add: apply_event_def)
qed


section \<open>Witnesses\<close>

lemmas machine_eval =
  machine_new_def advance_machine_def apply_event_def apply_checked_def apply_table_def
  apply_transition_def apply_transition_index_def record_transition_def trace_record_def trace_get_def
  transition_def byte_acknowledgement_def event_outcome_def apply_deferred_effect_def
  complete_deferred_effect_def deferred_effect_outcome_def deferred_transition_def
  restart_deferred_effect_def pending_position_def is_outcome_def is_acknowledged_def is_failed_def
  is_cancelled_def belongs_def uses_generic_effect_wrapper_def checked_add_code

definition sample_job :: StateMachine where
  "sample_job = run_events advance_machine (machine_new JobCancellation 1 10) [Start]"

lemma sample_job_state:
  "sample_job = \<lparr> sm_instance_id = 1, sm_kind = JobCancellation, sm_state = EffectPending,
     sm_trace_limit = 10,
     sm_trace = [\<lparr> tr_previous = JobQueued, tr_event = Start, tr_next = EffectPending,
       tr_effects = [BeginJob] \<rparr>],
     pending_acknowledgements = [\<lparr> ak_instance_id = 1, ak_effect = BeginJob, ak_generation = 1 \<rparr>],
     pending_unsuccessful_effect_outcome = False,
     deferred_effects = Some \<lparr> de_target = JobRunning, de_effects = [BeginJob],
       de_has_unsuccessful_outcome = False \<rparr>,
     next_effect_generation = 2, byte_durability_acknowledgement_authorized = False,
     byte_durability_broker = None \<rparr>"
  by (simp add: sample_job_def machine_eval job_def table_defs)

lemma machine_new_start: "limit + 1 < 2 ^ 64 \<Longrightarrow> lifecycle_start (machine_new kind i limit)"
  unfolding lifecycle_start_def by blast

lemma sample_job_start: "lifecycle_start (machine_new JobCancellation 1 10)"
  by (rule machine_new_start) simp

theorem lifecycle_invariant_witness:
  "belongs (sm_kind sample_job) (sm_state sample_job) \<and>
   trace_linked JobQueued (sm_trace sample_job) (sm_state sample_job)"
proof -
  have "sm_state (machine_new JobCancellation 1 10) = JobQueued" by (simp add: machine_new_def)
  with lifecycle_invariant [OF sample_job_start sample_job_def] show ?thesis by metis
qed

theorem lifecycle_apply_atomic_witness:
  "case apply_event sample_job Cancel of (m', Inl x) \<Rightarrow> m' = sample_job | (m', Inr t) \<Rightarrow> tr_event t = Cancel"
  using lifecycle_apply_atomic [OF sample_job_start sample_job_def, of Cancel]
  by (auto split: prod.splits sum.splits)


definition sample_outcome :: Event where
  "sample_outcome = EffectAcknowledged 1 BeginJob 1"

definition sample_running :: StateMachine where
  "sample_running = fst (apply_event sample_job sample_outcome)"

lemma sample_accepted:
  "apply_event sample_job sample_outcome
     = (sample_running, Inr \<lparr> tr_previous = EffectPending, tr_event = sample_outcome,
          tr_next = JobRunning, tr_effects = [] \<rparr>)"
  unfolding sample_running_def
  by (simp add: sample_outcome_def sample_job_state machine_eval job_def table_defs remove_at_def
      acknowledgement_effects_def)

theorem lifecycle_outcome_once_witness:
  "\<lparr> ak_instance_id = 1, ak_effect = BeginJob, ak_generation = 1 \<rparr>
     \<in> set (pending_acknowledgements sample_job) \<and>
   (\<exists>x. apply_event (run_events advance_machine sample_running [Reconcile]) sample_outcome
     = (run_events advance_machine sample_running [Reconcile], Inl x))"
  by (rule lifecycle_outcome_once [OF sample_job_start sample_job_def _ _ sample_accepted])
    (simp_all add: machine_new_def event_outcome_def sample_outcome_def)


section \<open>An uncorrelated acknowledgement\<close>

text \<open>
  The FFmpeg kind is excluded from \<open>lifecycle_outcome_once\<close> for a reason: once the diagnostics of
  a failed spawn are preserved, the recovery state accepts an acknowledgement of another
  instance, for an effect and a generation that were never requested. The state does not change,
  but the event enters the trace and uses up one record of its limit.
\<close>

lemma ffmpeg_recovery_accepts_uncorrelated:
  "is_ok (snd (apply_event
     (run_events advance_machine (machine_new Ffmpeg 1 10)
       [Spawn, EffectFailed 1 SpawnProcess 1, EffectAcknowledged 1 PreserveDiagnostics 2])
     (EffectAcknowledged 99 BeginJob 77)))"
  by (simp add: machine_eval ffmpeg_def ffmpeg_recovery_def ffmpeg_recovery_after_all_outcomes_def
      apply_outcome_def unsuccessful_effect_recovery_def table_defs remove_at_def
      acknowledgement_effects_def)

end
