(* ===== verification/Commit_Order.thy ===== *)
theory Commit_Order
  imports Machine_Safety "HOL-Library.Sublist"
begin

text \<open>
  The order of durable effects in the commit lifecycle. A commit machine settles in a durable
  prefix only after the adapter acknowledged, in order, every effect that makes the prefix
  durable, and an irreversible effect is requested only when the previous prefix is durable.
\<close>

section \<open>The requests of a table\<close>

definition arms_requests :: "arm list \<Rightarrow> target list" where
  "arms_requests arms =
     concat (map (\<lambda>(_, _, result). case result of None \<Rightarrow> [] | Some (n, es) \<Rightarrow>
       if es = [] then [] else [(n, es)]) arms)"

lemma match_arms_request:
  "match_arms arms s e = Some (n, es) \<Longrightarrow> es \<noteq> [] \<Longrightarrow> (n, es) \<in> set (arms_requests arms)"
proof (induction arms s e rule: match_arms.induct)
  case (2 states patterns result arms state event)
  then show ?case by (cases "state \<in> set states \<and> list_ex (\<lambda>p. event_matches p event) patterns")
    (auto simp: arms_requests_def)
qed simp

text \<open>A deferred target with its effects is always one of the requests of the machine's table.\<close>

definition request_known :: "StateMachine \<Rightarrow> bool" where
  "request_known m =
     (case deferred_effects m of None \<Rightarrow> True
      | Some d \<Rightarrow> (de_target d, de_effects d) \<in> set (arms_requests (kind_arms (sm_kind m))))"

lemma enter_request_known:
  "(es \<noteq> [] \<Longrightarrow> (n, es) \<in> set (arms_requests (kind_arms (sm_kind m)))) \<Longrightarrow>
     request_known (enter m e n es)"
  by (simp add: request_known_def enter_state)

lemma enter_transition_known:
  "kind_transition (sm_kind m) s e' = Some (n, es) \<Longrightarrow> request_known (enter m e n es)"
  by (rule enter_request_known) (simp add: kind_transition_arms match_arms_request)

lemma lifecycle_step_request_known:
  assumes "lifecycle_step m e m'" "request_known m"
  shows "request_known m'"
  using assms(1)
proof cases
  case (table n es)
  then show ?thesis using enter_transition_known by blast
next
  case (partial i eff g ok idx)
  then show ?thesis using assms(2) by (simp add: request_known_def)
next
  case (settled i eff g ok idx n es)
  show ?thesis
    by (rule settle_target_cases [OF settled(6)])
      (use settled(1) enter_transition_known enter_state uses_generic_effect_wrapper_def
        in \<open>auto simp: request_known_def\<close>)
next
  case (deferred_partial d i eff g ok idx)
  then show ?thesis using assms(2) by (simp add: request_known_def)
next
  case (deferred_failed d i eff g ok idx)
  then show ?thesis using assms(2) by (simp add: request_known_def)
next
  case (deferred_done d i eff g idx n es)
  then have "kind_transition (sm_kind m) (de_target d) e = Some (n, es) \<or> es = []"
    by (auto simp: deferred_target_def split: option.splits)
  then show ?thesis using deferred_done(1) enter_transition_known enter_request_known by blast
next
  case (restart d)
  then show ?thesis using assms(2) enter_request_known by (simp add: request_known_def)
qed

section \<open>Acknowledged effects\<close>

definition acknowledged_effect :: "Event \<Rightarrow> EffectIntent list" where
  "acknowledged_effect e = (case e of EffectAcknowledged _ effect _ \<Rightarrow> [effect] | _ \<Rightarrow> [])"

definition acknowledged_effects :: "Transition list \<Rightarrow> EffectIntent list" where
  "acknowledged_effects ts = concat (map (\<lambda>t. acknowledged_effect (tr_event t)) ts)"

lemma acknowledged_effects_snoc [simp]:
  "acknowledged_effects (ts @ [t]) = acknowledged_effects ts @ acknowledged_effect (tr_event t)"
  by (simp add: acknowledged_effects_def)

lemma acknowledged_effects_Nil [simp]: "acknowledged_effects [] = []"
  by (simp add: acknowledged_effects_def)

lemma subseq_longer: "subseq xs ys \<Longrightarrow> subseq xs (ys @ zs)"
  by (metis append_Nil2 list_emb_Nil list_emb_append_mono)

section \<open>The durable logs\<close>

definition prepared_log :: "EffectIntent list" where
  "prepared_log = [ValidateOutput, SynchronizeData, SynchronizeDirectory, AppendTransitionRecord,
     SynchronizeJournal]"

definition renamed_log :: "EffectIntent list" where
  "renamed_log = prepared_log @ [RenameOutput, SynchronizeDirectory, AppendTransitionRecord,
     SynchronizeJournal]"

definition archived_log :: "EffectIntent list" where
  "archived_log = renamed_log @ [InsertArchiveRow, AppendTransitionRecord, SynchronizeJournal]"

definition cleaned_log :: "EffectIntent list" where
  "cleaned_log = archived_log @ [RemoveTemporaryState, AppendTransitionRecord, SynchronizeJournal]"

definition reconciled_log :: "EffectIntent list" where
  "reconciled_log = cleaned_log @ [VerifyArchiveOutputPair]"

lemmas log_defs = prepared_log_def renamed_log_def archived_log_def cleaned_log_def reconciled_log_def

text \<open>What must have been acknowledged when a machine rests in a state.\<close>

definition commit_log :: "State \<Rightarrow> EffectIntent list" where
  "commit_log s =
     (if s = CommitPrepared then prepared_log
      else if s = CommitRenamed then renamed_log
      else if s = CommitArchived then archived_log
      else if s = CommitCleaned then cleaned_log
      else if s = CommitReconciled then reconciled_log
      else [])"

text \<open>What must have been acknowledged while the effects of a target are pending.\<close>

definition commit_before :: "State \<Rightarrow> EffectIntent list" where
  "commit_before s =
     (if s = CommitDataSynchronizing then take 1 prepared_log
      else if s = CommitPreparedDirectorySynchronizing then take 2 prepared_log
      else if s = CommitPreparedRecordAppending then take 3 prepared_log
      else if s = CommitPreparedJournalSynchronizing then take 4 prepared_log
      else if s \<in> {CommitRenaming, CommitVerifyingPrepared} then prepared_log
      else if s = CommitRenameDirectorySynchronizing then take 6 renamed_log
      else if s = CommitRenamedRecordAppending then take 7 renamed_log
      else if s = CommitRenamedJournalSynchronizing then take 8 renamed_log
      else if s \<in> {CommitArchiving, CommitVerifyingRenamed} then renamed_log
      else if s = CommitArchivedRecordAppending then take 10 archived_log
      else if s = CommitArchivedJournalSynchronizing then take 11 archived_log
      else if s \<in> {CommitCleaning, CommitVerifyingArchived} then archived_log
      else if s = CommitCleanedRecordAppending then take 13 cleaned_log
      else if s = CommitCleanedJournalSynchronizing then take 14 cleaned_log
      else if s \<in> {CommitReconciling, CommitVerifyingCleaned} then cleaned_log
      else [])"

definition target_log :: "State \<Rightarrow> EffectIntent list \<Rightarrow> EffectIntent list" where
  "target_log n es = (if es = [] then commit_log n else commit_before n)"

text \<open>The single effect of a target, for the targets on the way to a durable prefix.\<close>

definition commit_own :: "State \<Rightarrow> EffectIntent list" where
  "commit_own s = (if s = CommitCancelling then [] else match_states acknowledgement_arms s)"

definition commit_after :: "State \<Rightarrow> EffectIntent list" where
  "commit_after s = commit_before s @ commit_own s"

lemma commit_arms_plain:
  "arms_all (\<lambda>s p n es. case p of On _ \<Rightarrow> subseq (target_log n es) (commit_log s) | _ \<Rightarrow> True) commit_arms"
  by (simp add: table_defs target_log_def commit_log_def commit_before_def log_defs)

lemma commit_after_eqs:
  "commit_after CommitPreparing = take 1 prepared_log"
  "commit_after CommitDataSynchronizing = take 2 prepared_log"
  "commit_after CommitPreparedDirectorySynchronizing = take 3 prepared_log"
  "commit_after CommitPreparedRecordAppending = take 4 prepared_log"
  "commit_after CommitPreparedJournalSynchronizing = prepared_log"
  "commit_after CommitRenaming = take 6 renamed_log"
  "commit_after CommitRenameDirectorySynchronizing = take 7 renamed_log"
  "commit_after CommitRenamedRecordAppending = take 8 renamed_log"
  "commit_after CommitRenamedJournalSynchronizing = renamed_log"
  "commit_after CommitArchiving = take 10 archived_log"
  "commit_after CommitArchivedRecordAppending = take 11 archived_log"
  "commit_after CommitArchivedJournalSynchronizing = archived_log"
  "commit_after CommitCleaning = take 13 cleaned_log"
  "commit_after CommitCleanedRecordAppending = take 14 cleaned_log"
  "commit_after CommitCleanedJournalSynchronizing = cleaned_log"
  "commit_after CommitReconciling = reconciled_log"
  "commit_after CommitVerifyingPrepared = prepared_log @ [RevalidatePreparedOutput]"
  "commit_after CommitVerifyingRenamed = renamed_log @ [VerifyFinalArtifact]"
  "commit_after CommitVerifyingArchived = archived_log @ [VerifyArchiveOutputPair]"
  "commit_after CommitVerifyingCleaned = cleaned_log @ [VerifyArchiveOutputPair]"
  "commit_after CommitCancelling = []"
  by (simp_all add: commit_after_def commit_before_def commit_own_def acknowledgement_arms_def
      COMMIT_PREPARE_EFFECTS_def COMMIT_RENAME_EFFECTS_def log_defs)

lemma commit_arms_acknowledged:
  "arms_all (\<lambda>s p n es. p = AnyAcknowledged \<longrightarrow> subseq (target_log n es) (commit_after s)) commit_arms"
  by (simp add: commit_arms_def COMMIT_PREPARE_EFFECTS_def COMMIT_RENAME_EFFECTS_def step_def
      target_log_def commit_log_def commit_before_def commit_after_eqs subseq_longer)

lemma commit_requests_own:
  "list_all (\<lambda>r. commit_own (fst r) = [] \<or> commit_own (fst r) = snd r \<and> length (snd r) = 1)
     (arms_requests commit_arms)"
  by (simp add: arms_requests_def table_defs commit_own_def)

lemma commit_requests_resting:
  "list_all (\<lambda>r. leaves CommitArchiveReconciliation AnyAcknowledged (fst r) \<or> commit_log (fst r) = [])
     (arms_requests commit_arms)"
  by (simp add: arms_requests_def leaves_def arms_from_def table_defs commit_log_def)

lemma commit_requests_guarded:
  "list_all (\<lambda>r. (RenameOutput \<in> set (snd r) \<longrightarrow> commit_before (fst r) = prepared_log) \<and>
     (InsertArchiveRow \<in> set (snd r) \<longrightarrow> commit_before (fst r) = renamed_log) \<and>
     (RemoveTemporaryState \<in> set (snd r) \<longrightarrow> commit_before (fst r) = archived_log))
     (arms_requests commit_arms)"
  by (simp add: arms_requests_def table_defs commit_before_def)

section \<open>The invariant of commit machines\<close>

definition commit_ok :: "StateMachine \<Rightarrow> bool" where
  "commit_ok m =
     (machine_ok m \<and> request_known m \<and> sm_kind m = CommitArchiveReconciliation \<and>
      subseq (case deferred_effects m of None \<Rightarrow> commit_log (sm_state m)
              | Some d \<Rightarrow> commit_before (de_target d)) (acknowledged_effects (sm_trace m)))"

lemma commit_transition_plain:
  assumes "commit s e = Some (n, es)" "\<not> is_outcome e"
  shows "subseq (target_log n es) (commit_log s)"
proof -
  from arms_allD [OF commit_arms_plain, of s e n es] assms(1)
  obtain p where p: "event_matches p e"
    "case p of On _ \<Rightarrow> subseq (target_log n es) (commit_log s) | _ \<Rightarrow> True"
    by (auto simp: commit_def)
  moreover obtain x where "p = On x"
    using p(1) assms(2) by (cases p) (auto simp: is_outcome_def)
  ultimately show ?thesis by simp
qed

lemma commit_transition_acknowledged:
  assumes "commit s e = Some (n, es)" "is_acknowledged e"
  shows "subseq (target_log n es) (commit_after s)"
proof -
  have "arms_all (\<lambda>s p n es. plain_pattern p \<and> (p = AnyAcknowledged \<longrightarrow> subseq (target_log n es) (commit_after s)))
      commit_arms"
    using kind_arms_plain [of CommitArchiveReconciliation] commit_arms_acknowledged
    by (fastforce simp: arms_all_def list_all_iff plain_pattern_def split: option.splits)
  from arms_allD [OF this, of s e n es] assms(1)
  obtain p where p: "event_matches p e" "plain_pattern p"
    "p = AnyAcknowledged \<longrightarrow> subseq (target_log n es) (commit_after s)"
    by (auto simp: commit_def)
  from plain_pattern_for [OF p(2,1)] assms(2) have "p = AnyAcknowledged" by (simp add: pattern_for_def)
  with p(3) show ?thesis by simp
qed

text \<open>The log a machine that enters a target must have behind it.\<close>

lemma enter_log:
  assumes "sm_kind m = CommitArchiveReconciliation"
    and "subseq (target_log n es) (acknowledged_effects (sm_trace m) @ acknowledged_effect e)"
  shows "subseq (case deferred_effects (enter m e n es) of
      None \<Rightarrow> commit_log (sm_state (enter m e n es)) | Some d \<Rightarrow> commit_before (de_target d))
    (acknowledged_effects (sm_trace (enter m e n es)))"
  using assms
  by (simp add: enter_state uses_generic_effect_wrapper_def target_log_def trace_record_def
      split: if_splits)

lemma deferred_done_log:
  assumes ok: "commit_ok m" and d: "deferred_effects m = Some d"
    and out: "event_outcome e = Some (i, eff, g, True)"
    and pos: "pending_position m i eff g = Some idx"
    and tgt: "deferred_target m d e = (n, es)"
  shows "subseq (target_log n es) (acknowledged_effects (sm_trace m) @ acknowledged_effect e)"
proof -
  have kind: "sm_kind m = CommitArchiveReconciliation" using ok by (simp add: commit_ok_def)
  have "request_known m" using ok by (simp add: commit_ok_def)
  then have req: "(de_target d, de_effects d) \<in> set (arms_requests commit_arms)"
    using d kind by (simp add: request_known_def)
  have "eff \<in> set (de_effects d)"
    using ok d pending_position_mem [OF pos] by (force simp: commit_ok_def machine_ok_def deferral_ok_def)
  then have own: "commit_own (de_target d) = [] \<or> commit_own (de_target d) = [eff]"
    using commit_requests_own req by (auto simp: list_all_iff length_Suc_conv)
  have ack: "is_acknowledged e" "acknowledged_effect e = [eff]"
    using out by (cases e; simp add: event_outcome_def is_acknowledged_def acknowledged_effect_def)+
  have "subseq (commit_before (de_target d)) (acknowledged_effects (sm_trace m))"
    using ok d by (simp add: commit_ok_def)
  then have after: "subseq (commit_after (de_target d)) (acknowledged_effects (sm_trace m) @ [eff])"
    using own subseq_longer by (auto simp: commit_after_def)
  show ?thesis
  proof (cases "commit (de_target d) e")
    case None
    then have "n = de_target d" "es = []" using tgt kind by (simp_all add: deferred_target_def)
    moreover have "\<not> leaves CommitArchiveReconciliation AnyAcknowledged (de_target d)"
      using transition_iff_leaves [of CommitArchiveReconciliation "de_target d" e] None ack(1)
      by (simp add: pattern_for_def)
    ultimately show ?thesis
      using commit_requests_resting req by (auto simp: list_all_iff target_log_def)
  next
    case (Some r)
    then have "commit (de_target d) e = Some (n, es)" using tgt kind by (simp add: deferred_target_def)
    from subseq_order.trans [OF commit_transition_acknowledged [OF this ack(1)] after] ack(2)
    show ?thesis by simp
  qed
qed

lemma commit_step_ok:
  assumes "lifecycle_step m e m'" "commit_ok m" "length (sm_trace m) < sm_trace_limit m"
  shows "commit_ok m'"
proof -
  have m: "machine_ok m" "request_known m" "sm_kind m = CommitArchiveReconciliation"
    using assms(2) by (simp_all add: commit_ok_def)
  note base = lifecycle_step_ok [OF assms(1) m(1) assms(3)] lifecycle_step_request_known [OF assms(1) m(2)]
    lifecycle_step_frame [OF assms(1)]
  have "subseq (case deferred_effects m' of None \<Rightarrow> commit_log (sm_state m')
      | Some d \<Rightarrow> commit_before (de_target d)) (acknowledged_effects (sm_trace m'))"
    using assms(1)
  proof cases
    case (table n es)
    have "\<not> is_outcome e"
      using resting_ignores_acknowledgement [OF m(1) _ table(2,3)] table m(3) by (auto simp: is_outcome_def)
    moreover have "commit (sm_state m) e = Some (n, es)" using table m(3) by simp
    ultimately have "subseq (target_log n es) (commit_log (sm_state m))"
      by (rule commit_transition_plain [rotated])
    moreover have "subseq (commit_log (sm_state m)) (acknowledged_effects (sm_trace m))"
      using assms(2) table(2) by (simp add: commit_ok_def)
    ultimately show ?thesis
      using enter_log [OF m(3)] subseq_longer subseq_order.trans table(1) by blast
  next
    case (partial i eff g ok idx)
    then show ?thesis
      using m pending_position_Some [OF partial(4)]
      by (simp add: machine_ok_def deferral_ok_def uses_generic_effect_wrapper_def)
  next
    case (settled i eff g ok idx n es)
    then show ?thesis
      using m pending_position_Some [OF settled(4)]
      by (simp add: machine_ok_def deferral_ok_def uses_generic_effect_wrapper_def)
  next
    case (deferred_partial d i eff g ok idx)
    then show ?thesis using assms(2) by (simp add: commit_ok_def subseq_longer)
  next
    case (deferred_failed d i eff g ok idx)
    then show ?thesis using assms(2) by (simp add: commit_ok_def subseq_longer)
  next
    case (deferred_done d i eff g idx n es)
    from enter_log [OF m(3) deferred_done_log [OF assms(2) deferred_done(2,3,4,7)]]
    show ?thesis unfolding deferred_done(1) .
  next
    case (restart d)
    have "de_effects d \<noteq> []" using m(1) restart(2) by (simp add: machine_ok_def deferral_ok_def)
    then have "subseq (target_log (de_target d) (de_effects d)) (acknowledged_effects (sm_trace m) @ acknowledged_effect e)"
      using assms(2) restart(2) by (simp add: target_log_def commit_ok_def subseq_longer)
    from enter_log [OF m(3) this] show ?thesis unfolding restart(1) .
  qed
  with base m(3) show ?thesis by (simp add: commit_ok_def)
qed

interpretation commit_order: invariant_system advance_machine commit_ok
proof
  fix m e
  assume ok: "commit_ok m"
  then have m: "machine_ok m" by (simp add: commit_ok_def)
  show "commit_ok (advance_machine m e)"
    by (rule advance_machine_cases [OF m, of e]) (use ok commit_step_ok in auto)
qed

lemma commit_new_ok:
  assumes "limit + 1 < 2 ^ 64"
  shows "commit_ok (machine_new CommitArchiveReconciliation i limit)"
proof -
  have "request_known (machine_new CommitArchiveReconciliation i limit)"
    by (simp add: request_known_def machine_new_def)
  with machine_new_ok [OF assms, of CommitArchiveReconciliation i] show ?thesis
    unfolding commit_ok_def by (simp add: machine_new_def [of CommitArchiveReconciliation] commit_log_def)
qed

text \<open>
  C8: Commit ordering: a commit machine rests in Prepared, Renamed, Archived, Cleaned or Reconciled
  only after the adapter acknowledged, in this order, every effect of the durable prefix up to
  there; and it asks for the rename only with the prepared record synchronized in the journal,
  for the archive row only with the rename recorded and synchronized, and for the removal of
  temporary state only with the archive row recorded and synchronized.
\<close>

theorem commit_durable_order:
  assumes "limit + 1 < 2 ^ 64"
    and "m = run_events advance_machine (machine_new CommitArchiveReconciliation i limit) events"
    and "acked = acknowledged_effects (sm_trace m)"
  shows "subseq (commit_log (sm_state m)) acked \<and>
    list_all (\<lambda>a. (ak_effect a = RenameOutput \<longrightarrow> subseq prepared_log acked) \<and>
      (ak_effect a = InsertArchiveRow \<longrightarrow> subseq renamed_log acked) \<and>
      (ak_effect a = RemoveTemporaryState \<longrightarrow> subseq archived_log acked)) (pending_acknowledgements m)"
proof -
  have ok: "commit_ok m" using commit_order.inv_run [OF commit_new_ok [OF assms(1)]] assms(2) by simp
  have kind: "sm_kind m = CommitArchiveReconciliation" and req: "request_known m"
    and m: "deferral_ok m" using ok by (simp_all add: commit_ok_def machine_ok_def)
  show ?thesis
  proof (cases "deferred_effects m")
    case None
    then have "pending_acknowledgements m = []"
      using m kind by (auto simp: deferral_ok_def uses_generic_effect_wrapper_def split: if_splits)
    with ok None assms(3) show ?thesis by (simp add: commit_ok_def)
  next
    case (Some d)
    have before: "subseq (commit_before (de_target d)) acked" using ok Some assms(3) by (simp add: commit_ok_def)
    have "(de_target d, de_effects d) \<in> set (arms_requests commit_arms)"
      using req Some kind by (simp add: request_known_def)
    then have guarded: "(eff = RenameOutput \<longrightarrow> subseq prepared_log acked) \<and>
        (eff = InsertArchiveRow \<longrightarrow> subseq renamed_log acked) \<and>
        (eff = RemoveTemporaryState \<longrightarrow> subseq archived_log acked)" if "eff \<in> set (de_effects d)" for eff
      using commit_requests_guarded before that by (fastforce simp: list_all_iff)
    have "commit_log (sm_state m) = []"
      using m Some by (auto simp: deferral_ok_def commit_log_def split: if_splits)
    moreover have "ak_effect a \<in> set (de_effects d)" if "a \<in> set (pending_acknowledgements m)" for a
      using m Some that by (auto simp: deferral_ok_def)
    ultimately show ?thesis using guarded by (simp add: list_all_iff) blast
  qed
qed

section \<open>Witness\<close>

definition sample_commit :: StateMachine where
  "sample_commit = run_events advance_machine (machine_new CommitArchiveReconciliation 1 20)
     [Prepare, EffectAcknowledged 1 ValidateOutput 1, EffectAcknowledged 1 SynchronizeData 2,
      EffectAcknowledged 1 SynchronizeDirectory 3, EffectAcknowledged 1 AppendTransitionRecord 4,
      EffectAcknowledged 1 SynchronizeJournal 5, Rename]"

lemma sample_commit_pending:
  "sm_state sample_commit = EffectPending \<and>
   pending_acknowledgements sample_commit = [\<lparr> ak_instance_id = 1, ak_effect = RenameOutput, ak_generation = 6 \<rparr>]"
  by (simp add: sample_commit_def machine_eval commit_def table_defs remove_at_def acknowledgement_effects_def)

theorem commit_durable_order_witness:
  "subseq prepared_log (acknowledged_effects (sm_trace sample_commit))"
proof -
  have "(20::nat) + 1 < 2 ^ 64" by simp
  from commit_durable_order [OF this sample_commit_def refl] sample_commit_pending show ?thesis by simp
qed

end
