(* ===== verification/Commit_Refinement.thy ===== *)
theory Commit_Refinement
  imports Journal Commit_Order
begin

text \<open>
  The commit lifecycle against the journal contract. The state of a commit machine abstracts to
  the durable prefix the journal scan computes (\<^typ>\<open>CommitState\<close> of
  \<^verbatim>\<open>fforager-contracts/src/storage.rs\<close>); the machine simulates the chain that
  \<^const>\<open>advance_commit_prefix\<close> accepts.
\<close>

definition commit_phase :: "State \<Rightarrow> CommitState option" where
  "commit_phase s =
     (if s \<in> set [CommitWorking, CommitPreparing, CommitDataSynchronizing,
          CommitPreparedDirectorySynchronizing, CommitPreparedRecordAppending,
          CommitPreparedJournalSynchronizing] then Some Collecting
      else if s \<in> set [State.CommitPrepared, CommitVerifyingPrepared, CommitRenaming,
          CommitRenameDirectorySynchronizing, CommitRenamedRecordAppending,
          CommitRenamedJournalSynchronizing] then Some Prepared
      else if s \<in> set [State.CommitRenamed, CommitVerifyingRenamed, CommitArchiving,
          CommitArchivedRecordAppending, CommitArchivedJournalSynchronizing] then Some Renamed
      else if s \<in> set [CommitArchived, CommitVerifyingArchived, CommitCleaning,
          CommitCleanedRecordAppending, CommitCleanedJournalSynchronizing] then Some Archived
      else if s \<in> set [CommitCleaned, CommitVerifyingCleaned, CommitReconciling, CommitReconciled]
        then Some Cleaned
      else if s = CommitInconsistent then Some Inconsistent
      else None)"

text \<open>A waiting machine is in the phase of the target it is working towards.\<close>

definition machine_phase :: "StateMachine \<Rightarrow> CommitState option" where
  "machine_phase m =
     commit_phase (case deferred_effects m of None \<Rightarrow> sm_state m | Some d \<Rightarrow> de_target d)"

definition abandoned :: "CommitState option \<Rightarrow> bool" where
  "abandoned p = (p = None \<or> p = Some Inconsistent)"

definition journal_advances :: "CommitState option \<Rightarrow> CommitState option \<Rightarrow> bool" where
  "journal_advances p p' =
     ((p, p') \<in> {(Some Collecting, Some Prepared), (Some Prepared, Some Renamed),
       (Some Renamed, Some Archived), (Some Archived, Some Cleaned)})"

lemma journal_advances_accepted:
  "journal_advances (Some p) (Some p') \<longleftrightarrow>
     (\<exists>payload. commit_transition payload \<noteq> None \<and> advance_commit_prefix p payload = Inr p')"
proof
  assume "journal_advances (Some p) (Some p')"
  then consider "p = Collecting" "p' = Prepared" | "p = Prepared" "p' = Renamed"
    | "p = Renamed" "p' = Archived" | "p = Archived" "p' = Cleaned"
    by (auto simp: journal_advances_def)
  then show "\<exists>payload. commit_transition payload \<noteq> None \<and> advance_commit_prefix p payload = Inr p'"
  proof cases
    case 1
    then show ?thesis
      by (intro exI [of _ "JournalPayload.CommitPrepared b" for b]) (simp add: advance_commit_prefix_def)
  next
    case 2
    then show ?thesis
      by (intro exI [of _ "JournalPayload.CommitRenamed b" for b]) (simp add: advance_commit_prefix_def)
  next
    case 3
    then show ?thesis
      by (intro exI [of _ "ArchiveCommitted b" for b]) (simp add: advance_commit_prefix_def)
  next
    case 4
    then show ?thesis
      by (intro exI [of _ "CleanupCompleted b" for b]) (simp add: advance_commit_prefix_def)
  qed
next
  assume "\<exists>payload. commit_transition payload \<noteq> None \<and> advance_commit_prefix p payload = Inr p'"
  then obtain payload where "commit_transition payload \<noteq> None" "advance_commit_prefix p payload = Inr p'"
    by blast
  then show "journal_advances (Some p) (Some p')"
    by (cases payload) (auto simp: advance_commit_prefix_def journal_advances_def split: if_splits)
qed

lemma commit_arms_phase:
  "arms_all (\<lambda>s p n es. commit_phase n = commit_phase s \<or> abandoned (commit_phase n) \<or>
     p = AnyAcknowledged \<and> commit_own s = [SynchronizeJournal] \<and>
       journal_advances (commit_phase s) (commit_phase n)) commit_arms"
  by (simp add: table_defs commit_phase_def abandoned_def journal_advances_def commit_own_def)

lemma commit_transition_phase:
  assumes "commit s e = Some (n, es)"
  shows "commit_phase n = commit_phase s \<or> abandoned (commit_phase n) \<or>
    is_acknowledged e \<and> commit_own s = [SynchronizeJournal] \<and>
      journal_advances (commit_phase s) (commit_phase n)"
  using arms_allD [OF commit_arms_phase, of s e n es] assms by (fastforce simp: commit_def)

lemma enter_phase:
  "sm_kind m = CommitArchiveReconciliation \<Longrightarrow> machine_phase (enter m e n es) = commit_phase n"
  by (simp add: machine_phase_def enter_state uses_generic_effect_wrapper_def)

lemma own_effect:
  assumes "commit_ok m" "deferred_effects m = Some d" "pending_position m i eff g = Some idx"
    and "commit_own (de_target d) \<noteq> []"
  shows "commit_own (de_target d) = [eff]"
proof -
  have "request_known m" "sm_kind m = CommitArchiveReconciliation" using assms(1) by (simp_all add: commit_ok_def)
  then have "(de_target d, de_effects d) \<in> set (arms_requests commit_arms)"
    using assms(2) by (simp add: request_known_def)
  with commit_requests_own assms(4) have "commit_own (de_target d) = de_effects d" "length (de_effects d) = 1"
    by (auto simp: list_all_iff)
  moreover have "eff \<in> set (de_effects d)"
    using assms(1,2) pending_position_mem [OF assms(3)]
    by (force simp: commit_ok_def machine_ok_def deferral_ok_def)
  ultimately show ?thesis by (auto simp: length_Suc_conv)
qed

lemma step_phase:
  assumes "lifecycle_step m e m'" "commit_ok m"
  shows "machine_phase m' = machine_phase m \<or> abandoned (machine_phase m') \<or>
    acknowledged_effect e = [SynchronizeJournal] \<and> journal_advances (machine_phase m) (machine_phase m')"
proof -
  have m: "machine_ok m" "sm_kind m = CommitArchiveReconciliation"
    using assms(2) by (simp_all add: commit_ok_def)
  from assms(1) show ?thesis
  proof cases
    case (table n es)
    have "\<not> is_acknowledged e"
      using resting_ignores_acknowledgement [OF m(1) _ table(2,3)] table m(2) by auto
    moreover have "commit (sm_state m) e = Some (n, es)" using table m(2) by simp
    ultimately show ?thesis
      using commit_transition_phase enter_phase [OF m(2)] table(1,2) by (simp add: machine_phase_def) blast
  next
    case (partial i eff g ok idx)
    then show ?thesis by (simp add: machine_phase_def)
  next
    case (settled i eff g ok idx n es)
    then show ?thesis
      using m pending_position_Some [OF settled(4)]
      by (simp add: machine_ok_def deferral_ok_def uses_generic_effect_wrapper_def)
  next
    case (deferred_partial d i eff g ok idx)
    then show ?thesis by (simp add: machine_phase_def)
  next
    case (deferred_failed d i eff g ok idx)
    then show ?thesis by (simp add: machine_phase_def)
  next
    case (deferred_done d i eff g idx n es)
    have phases: "machine_phase m = commit_phase (de_target d)" "machine_phase m' = commit_phase n"
      using deferred_done(1,2) enter_phase [OF m(2)] by (simp_all add: machine_phase_def)
    show ?thesis
    proof (cases "commit (de_target d) e")
      case None
      then show ?thesis using deferred_done(7) phases m(2) by (simp add: deferred_target_def)
    next
      case (Some r)
      then have "commit (de_target d) e = Some (n, es)"
        using deferred_done(7) m(2) by (simp add: deferred_target_def)
      moreover have "acknowledged_effect e = [eff]"
        using deferred_done(3) by (cases e) (simp_all add: event_outcome_def acknowledged_effect_def)
      ultimately show ?thesis
        using commit_transition_phase own_effect [OF assms(2) deferred_done(2,4)] phases by fastforce
    qed
  next
    case (restart d)
    then show ?thesis using enter_phase [OF m(2)] by (simp add: machine_phase_def)
  qed
qed

text \<open>
  C9: The commit lifecycle refines the journal's commit chain: an accepted event keeps the phase
  of the machine, abandons the commit (cancellation or inconsistency), or moves it along exactly
  one transition that the journal scan accepts after the current prefix; and it moves only on
  the acknowledgement that the journal was synchronized.
\<close>

theorem commit_refines_journal:
  assumes "limit + 1 < 2 ^ 64"
    and "m = run_events advance_machine (machine_new CommitArchiveReconciliation i limit) events"
    and "apply_event m e = (m', Inr t)"
  shows "machine_phase m' = machine_phase m \<or> abandoned (machine_phase m') \<or>
    (\<exists>p p' payload. machine_phase m = Some p \<and> machine_phase m' = Some p' \<and>
       commit_transition payload \<noteq> None \<and> advance_commit_prefix p payload = Inr p' \<and>
       acknowledged_effect e = [SynchronizeJournal])"
proof -
  have ok: "commit_ok m" using commit_order.inv_run [OF commit_new_ok [OF assms(1)]] assms(2) by simp
  then have "machine_ok m" by (simp add: commit_ok_def)
  from step_phase [OF apply_event_accepted(1) [OF this assms(3)] ok]
  consider "machine_phase m' = machine_phase m" | "abandoned (machine_phase m')"
    | (moved) "acknowledged_effect e = [SynchronizeJournal]"
        "journal_advances (machine_phase m) (machine_phase m')" by blast
  then show ?thesis
  proof cases
    case moved
    then obtain p p' where "machine_phase m = Some p" "machine_phase m' = Some p'"
      by (auto simp: journal_advances_def)
    with moved journal_advances_accepted show ?thesis by metis
  qed blast+
qed

section \<open>Witness\<close>

definition sample_syncing :: StateMachine where
  "sample_syncing = run_events advance_machine (machine_new CommitArchiveReconciliation 1 20)
     [Prepare, EffectAcknowledged 1 ValidateOutput 1, EffectAcknowledged 1 SynchronizeData 2,
      EffectAcknowledged 1 SynchronizeDirectory 3, EffectAcknowledged 1 AppendTransitionRecord 4]"

definition sample_synced :: StateMachine where
  "sample_synced = fst (apply_event sample_syncing (EffectAcknowledged 1 SynchronizeJournal 5))"

lemma sample_syncing_state:
  "sm_state sample_syncing = EffectPending \<and> length (sm_trace sample_syncing) = 5 \<and>
   pending_acknowledgements sample_syncing
     = [\<lparr> ak_instance_id = 1, ak_effect = SynchronizeJournal, ak_generation = 5 \<rparr>] \<and>
   sm_kind sample_syncing = CommitArchiveReconciliation \<and> sm_trace_limit sample_syncing = 20"
  by (simp add: sample_syncing_def machine_eval commit_def table_defs remove_at_def
      acknowledgement_effects_def)

lemma sample_synced_accepted:
  "\<exists>t. apply_event sample_syncing (EffectAcknowledged 1 SynchronizeJournal 5) = (sample_synced, Inr t)"
proof -
  have limit: "(20::nat) + 1 < 2 ^ 64" by simp
  have short: "length (sm_trace sample_syncing) < sm_trace_limit sample_syncing"
    using sample_syncing_state by simp
  have "machine_ok sample_syncing"
    unfolding sample_syncing_def by (rule reachable_ok [OF machine_new_start [OF limit]])
  moreover have "byte_acknowledgement sample_syncing (EffectAcknowledged 1 SynchronizeJournal 5) = None"
    using sample_syncing_state by (simp add: byte_acknowledgement_def)
  moreover have "pending_position sample_syncing 1 SynchronizeJournal 5 \<noteq> None"
    using sample_syncing_state by (simp add: pending_position_def)
  ultimately have "is_ok (snd (apply_event sample_syncing (EffectAcknowledged 1 SynchronizeJournal 5)))"
    using apply_checked_takes_outcome [OF _ short] apply_event_plain
    by (simp add: event_outcome_def)
  then show ?thesis
    unfolding sample_synced_def
    by (cases "apply_event sample_syncing (EffectAcknowledged 1 SynchronizeJournal 5)")
      (auto simp: is_ok_def split: sum.splits)
qed

theorem commit_refines_journal_witness:
  "machine_phase sample_synced = machine_phase sample_syncing \<or> abandoned (machine_phase sample_synced) \<or>
    (\<exists>p p' payload. machine_phase sample_syncing = Some p \<and> machine_phase sample_synced = Some p' \<and>
       commit_transition payload \<noteq> None \<and> advance_commit_prefix p payload = Inr p' \<and>
       acknowledged_effect (EffectAcknowledged 1 SynchronizeJournal 5) = [SynchronizeJournal])"
proof -
  have limit: "(20::nat) + 1 < 2 ^ 64" by simp
  obtain t where "apply_event sample_syncing (EffectAcknowledged 1 SynchronizeJournal 5) = (sample_synced, Inr t)"
    using sample_synced_accepted by blast
  from commit_refines_journal [OF limit sample_syncing_def this] show ?thesis .
qed

end
