(* ===== verification/Credit_Ledger.thy ===== *)
theory Credit_Ledger
  imports Resource_Ledger
begin

text \<open>
  The byte-credit ledger of \<^verbatim>\<open>product/crates/fforager-core/src/resource.rs\<close>
  (\<^verbatim>\<open>ByteCreditLedger\<close>). Every method that can fail works on a clone or returns before its first
  write, so a failing call returns the error alone; a successful one returns the new ledger.
\<close>

section \<open>Data\<close>

datatype CreditLimitScope = ScopeGlobal | ScopeOwner | ScopeStage

record CreditPressure =
  cp_scope :: CreditLimitScope
  cp_stage :: ByteCreditStage
  cp_requested_items :: u64
  cp_requested_bytes :: u64
  cp_occupied_items :: u64
  cp_occupied_bytes :: u64
  cp_limit_items :: u64
  cp_limit_bytes :: u64

datatype CreditError =
    CreditInvalidConfiguration
  | ZeroClaim
  | CreditBackpressured CreditPressure
  | CreditSpillRequired CreditPressure
  | RequiredLossRejected u64 ByteCreditComponent ByteCreditStage u64
  | CreditArithmeticOverflow
  | CreditIdExhausted
  | UnknownClaim u64
  | ClaimAlreadyReleased u64
  | UnknownComponent u64 ByteCreditComponent
  | ConsumedComponentCannotTransfer ByteCreditComponent u64
  | UncreditedBytes ByteCreditComponent u64 u64
  | PositionRegressed
  | ReceivedAheadOfConsumed
  | WrittenAheadOfConsumed
  | WrittenAheadOfReceived
  | DurableAheadOfWritten
  | AcknowledgementBrokerMismatch
  | CreditBrokerDropped
  | CreditInvariantViolation

record ByteCreditOccupancy =
  oc_global_items :: u64
  oc_global_bytes :: u64
  oc_owner_items :: u64
  oc_owner_bytes :: u64
  oc_stage_items :: u64
  oc_stage_bytes :: u64

record ByteComponentClaim =
  cc_owner :: OwnerId
  cc_stage :: ByteCreditStage
  cc_bytes :: u64
  cc_consumed :: u64

record ByteClaim =
  cl_components :: "(ByteCreditComponent, ByteComponentClaim) btree"

record CreditComponentAttribution =
  at_component :: ByteCreditComponent
  at_owner :: OwnerId
  at_stage :: ByteCreditStage
  at_bytes :: u64
  at_consumed :: u64

record CreditAttribution =
  at_claim_id :: u64
  at_components :: "CreditComponentAttribution list"

record ByteCreditLedger =
  bl_contract :: ByteCreditContractV1
  bl_in_use :: u64
  bl_next_claim :: u64
  bl_active :: "(u64, ByteClaim) btree"
  bl_lifetime_consumed :: "(ByteCreditStage, u64) btree"
  bl_position :: ByteCreditPosition

section \<open>Construction and queries\<close>

definition credit_from_contract :: "ByteCreditContractV1 \<Rightarrow> CreditError + ByteCreditLedger" where
  "credit_from_contract contract =
     rbind (map_err (\<lambda>_. CreditInvalidConfiguration) (byte_credit_contract_validate contract)) (\<lambda>_.
       Inr \<lparr> bl_contract = contract, bl_in_use = 0, bl_next_claim = 1, bl_active = [],
             bl_lifetime_consumed = [],
             bl_position = \<lparr> received = 0, validated_written_contiguous = 0,
                             durable_contiguous = 0 \<rparr> \<rparr>)"

definition stage_policy ::
    "ByteCreditLedger \<Rightarrow> ByteCreditStage \<Rightarrow> CreditError + ByteCreditStagePolicy" where
  "stage_policy l stage =
     ok_or CreditInvalidConfiguration
       (List.find (\<lambda>policy. sp_stage policy = stage) (bc_stage_policies (bl_contract l)))"

definition component_count :: "ByteCreditLedger \<Rightarrow> CreditError + u64" where
  "component_count l =
     ok_or CreditArithmeticOverflow
       (try_fold checked_add 0
         (map (\<lambda>claim. of_nat (length (cl_components claim))) (bt_values (bl_active l))))"

definition components :: "ByteCreditLedger \<Rightarrow> ByteComponentClaim list" where
  "components l = concat (map (\<lambda>claim. bt_values (cl_components claim)) (bt_values (bl_active l)))"

fun occupancy_loop ::
    "OwnerId \<Rightarrow> ByteCreditStage \<Rightarrow> ByteCreditOccupancy \<Rightarrow> ByteComponentClaim list
       \<Rightarrow> CreditError + ByteCreditOccupancy" where
  "occupancy_loop owner stage occ [] = Inr occ"
| "occupancy_loop owner stage occ (c # cs) =
     rbind (if cc_owner c = owner
            then rbind (ok_or CreditArithmeticOverflow (checked_add (oc_owner_items occ) 1)) (\<lambda>items.
                 rbind (ok_or CreditArithmeticOverflow
                     (checked_add (oc_owner_bytes occ) (cc_bytes c))) (\<lambda>bytes.
                   Inr (occ\<lparr> oc_owner_items := items, oc_owner_bytes := bytes \<rparr>)))
            else Inr occ) (\<lambda>occ.
     rbind (if cc_stage c = stage
            then rbind (ok_or CreditArithmeticOverflow (checked_add (oc_stage_items occ) 1)) (\<lambda>items.
                 rbind (ok_or CreditArithmeticOverflow
                     (checked_add (oc_stage_bytes occ) (cc_bytes c))) (\<lambda>bytes.
                   Inr (occ\<lparr> oc_stage_items := items, oc_stage_bytes := bytes \<rparr>)))
            else Inr occ) (\<lambda>occ.
     occupancy_loop owner stage occ cs))"

definition occupancy_for ::
    "ByteCreditLedger \<Rightarrow> OwnerId \<Rightarrow> ByteCreditStage \<Rightarrow> CreditError + ByteCreditOccupancy" where
  "occupancy_for l owner stage =
     rbind (component_count l) (\<lambda>count.
       occupancy_loop owner stage
         \<lparr> oc_global_items = count, oc_global_bytes = bl_in_use l, oc_owner_items = 0,
           oc_owner_bytes = 0, oc_stage_items = 0, oc_stage_bytes = 0 \<rparr> (components l))"

definition pressure_error ::
    "ByteCreditLedger \<Rightarrow> ByteCreditStage \<Rightarrow> CreditPressure \<Rightarrow> CreditError + CreditError" where
  "pressure_error l stage pressure =
     rbind (stage_policy l stage) (\<lambda>policy.
       Inr (case sp_saturation_policy policy of
              Backpressured \<Rightarrow> CreditBackpressured pressure
            | SpillRequired \<Rightarrow> CreditSpillRequired pressure))"

text \<open>\<open>return Err(self.pressure_error(\<dots>)?)\<close>: either way the caller returns an error.\<close>

definition fail_with :: "CreditError + CreditError \<Rightarrow> CreditError + 'a" where
  "fail_with r = (case r of Inl e \<Rightarrow> Inl e | Inr e \<Rightarrow> Inl e)"

abbreviation overflow_checked :: "u64 option \<Rightarrow> CreditError + u64" where
  "overflow_checked \<equiv> ok_or CreditArithmeticOverflow"

definition check_component_admission ::
    "ByteCreditLedger \<Rightarrow> OwnerId \<Rightarrow> ByteCreditStage \<Rightarrow> u64 \<Rightarrow> u64 \<Rightarrow> u64 \<Rightarrow> u64
       \<Rightarrow> CreditError + unit" where
  "check_component_admission l owner stage requested_items requested_bytes
       prior_requested_items prior_requested_bytes =
     rbind (occupancy_for l owner stage) (\<lambda>occ.
     rbind (overflow_checked (Option.bind (checked_add (oc_global_items occ) prior_requested_items)
         (\<lambda>value. checked_add value requested_items))) (\<lambda>global_items.
     rbind (overflow_checked (Option.bind (checked_add (oc_global_bytes occ) prior_requested_bytes)
         (\<lambda>value. checked_add value requested_bytes))) (\<lambda>global_bytes.
     if global_items > bc_max_claim_items (bl_contract l) \<or>
        global_bytes > bc_capacity_bytes (bl_contract l)
     then
       rbind (overflow_checked (checked_add (oc_global_items occ) prior_requested_items)) (\<lambda>occupied_items.
       rbind (overflow_checked (checked_add (oc_global_bytes occ) prior_requested_bytes)) (\<lambda>occupied_bytes.
         fail_with (pressure_error l stage
           \<lparr> cp_scope = ScopeGlobal, cp_stage = stage, cp_requested_items = requested_items,
             cp_requested_bytes = requested_bytes, cp_occupied_items = occupied_items,
             cp_occupied_bytes = occupied_bytes,
             cp_limit_items = bc_max_claim_items (bl_contract l),
             cp_limit_bytes = bc_capacity_bytes (bl_contract l) \<rparr>)))
     else
     rbind (overflow_checked (Option.bind (checked_add (oc_owner_items occ) prior_requested_items)
         (\<lambda>value. checked_add value requested_items))) (\<lambda>owner_items.
     rbind (overflow_checked (Option.bind (checked_add (oc_owner_bytes occ) prior_requested_bytes)
         (\<lambda>value. checked_add value requested_bytes))) (\<lambda>owner_bytes.
     if owner_items > bc_max_owner_claim_items (bl_contract l) \<or>
        owner_bytes > bc_max_owner_bytes (bl_contract l)
     then
       rbind (overflow_checked (checked_add (oc_owner_items occ) prior_requested_items)) (\<lambda>occupied_items.
       rbind (overflow_checked (checked_add (oc_owner_bytes occ) prior_requested_bytes)) (\<lambda>occupied_bytes.
         fail_with (pressure_error l stage
           \<lparr> cp_scope = ScopeOwner, cp_stage = stage, cp_requested_items = requested_items,
             cp_requested_bytes = requested_bytes, cp_occupied_items = occupied_items,
             cp_occupied_bytes = occupied_bytes,
             cp_limit_items = bc_max_owner_claim_items (bl_contract l),
             cp_limit_bytes = bc_max_owner_bytes (bl_contract l) \<rparr>)))
     else
     rbind (stage_policy l stage) (\<lambda>policy.
     rbind (overflow_checked (checked_add (oc_stage_items occ) requested_items)) (\<lambda>stage_items.
     rbind (overflow_checked (checked_add (oc_stage_bytes occ) requested_bytes)) (\<lambda>stage_bytes.
     if stage_items > sp_max_claim_items policy \<or> stage_bytes > sp_max_bytes policy
     then
       fail_with (pressure_error l stage
         \<lparr> cp_scope = ScopeStage, cp_stage = stage, cp_requested_items = requested_items,
           cp_requested_bytes = requested_bytes, cp_occupied_items = oc_stage_items occ,
           cp_occupied_bytes = oc_stage_bytes occ, cp_limit_items = sp_max_claim_items policy,
           cp_limit_bytes = sp_max_bytes policy \<rparr>)
     else Inr ()))))))))"

section \<open>Claims\<close>

definition insert_claim ::
    "ByteCreditLedger \<Rightarrow> (ByteCreditComponent, ByteComponentClaim) btree \<Rightarrow> u64
       \<Rightarrow> CreditError + ByteCreditLedger \<times> u64" where
  "insert_claim l comps bytes =
     rbind (overflow_checked (checked_add (bl_in_use l) bytes)) (\<lambda>combined.
     rbind (ok_or CreditIdExhausted (checked_add (bl_next_claim l) 1)) (\<lambda>next_claim.
       Inr (l\<lparr> bl_active := bt_insert (bl_next_claim l) \<lparr> cl_components = comps \<rparr> (bl_active l),
               bl_in_use := combined, bl_next_claim := next_claim \<rparr>,
            bl_next_claim l)))"

definition claim_single ::
    "ByteCreditLedger \<Rightarrow> OwnerId \<Rightarrow> ByteCreditStage \<Rightarrow> u64
       \<Rightarrow> CreditError + ByteCreditLedger \<times> u64" where
  "claim_single l owner stage bytes =
     (if bytes = 0 then Inl ZeroClaim
      else rbind (check_component_admission l owner stage 1 bytes 0 0) (\<lambda>_.
        insert_claim l
          (bt_insert Single \<lparr> cc_owner = owner, cc_stage = stage, cc_bytes = bytes,
                              cc_consumed = 0 \<rparr> []) bytes))"

definition claim_coupled ::
    "ByteCreditLedger \<Rightarrow> OwnerId \<Rightarrow> CoupledByteReservation
       \<Rightarrow> CreditError + ByteCreditLedger \<times> u64" where
  "claim_coupled l owner r =
     rbind (map_err (\<lambda>error. case error of
          ZeroInput \<Rightarrow> ZeroClaim | ZeroOutput \<Rightarrow> ZeroClaim
        | CoupledArithmeticOverflow \<Rightarrow> CreditArithmeticOverflow) (total_bytes r)) (\<lambda>total.
     rbind (check_component_admission l owner (cr_input_stage r) 1 (cr_input_bytes r) 0 0) (\<lambda>_.
     rbind (check_component_admission l owner (cr_output_stage r) 1 (cr_output_bytes r)
         1 (cr_input_bytes r)) (\<lambda>_.
     rbind (if cr_output_stage r = cr_input_stage r then
         rbind (occupancy_for l owner (cr_input_stage r)) (\<lambda>occ.
         rbind (stage_policy l (cr_input_stage r)) (\<lambda>policy.
         rbind (overflow_checked (checked_add (oc_stage_items occ) 2)) (\<lambda>items.
         let pressure = fail_with (pressure_error l (cr_input_stage r)
               \<lparr> cp_scope = ScopeStage, cp_stage = cr_input_stage r, cp_requested_items = 2,
                 cp_requested_bytes = total, cp_occupied_items = oc_stage_items occ,
                 cp_occupied_bytes = oc_stage_bytes occ,
                 cp_limit_items = sp_max_claim_items policy,
                 cp_limit_bytes = sp_max_bytes policy \<rparr>)
         in if items > sp_max_claim_items policy then pressure
            else rbind (overflow_checked (checked_add (oc_stage_bytes occ) total)) (\<lambda>bytes.
              if bytes > sp_max_bytes policy then pressure else Inr ()))))
       else Inr ()) (\<lambda>_.
     insert_claim l
       (bt_insert OutputComponent
          \<lparr> cc_owner = owner, cc_stage = cr_output_stage r, cc_bytes = cr_output_bytes r,
            cc_consumed = 0 \<rparr>
          (bt_insert InputComponent
            \<lparr> cc_owner = owner, cc_stage = cr_input_stage r, cc_bytes = cr_input_bytes r,
              cc_consumed = 0 \<rparr> [])) total))))"

definition missing_claim :: "ByteCreditLedger \<Rightarrow> u64 \<Rightarrow> CreditError + 'a" where
  "missing_claim l claim_id =
     (if claim_id > 0 \<and> claim_id < bl_next_claim l then Inl (ClaimAlreadyReleased claim_id)
      else Inl (UnknownClaim claim_id))"

definition missing_component ::
    "ByteCreditLedger \<Rightarrow> u64 \<Rightarrow> ByteCreditComponent \<Rightarrow> CreditError + 'a" where
  "missing_component l claim_id component =
     (if bt_get (bl_active l) claim_id \<noteq> None then Inl (UnknownComponent claim_id component)
      else missing_claim l claim_id)"

definition check_owner_transfer ::
    "ByteCreditLedger \<Rightarrow> OwnerId \<Rightarrow> ByteComponentClaim \<Rightarrow> CreditError + unit" where
  "check_owner_transfer l to component =
     rbind (occupancy_for l to (cc_stage component)) (\<lambda>occ.
     let pressure = fail_with (pressure_error l (cc_stage component)
           \<lparr> cp_scope = ScopeOwner, cp_stage = cc_stage component, cp_requested_items = 1,
             cp_requested_bytes = cc_bytes component, cp_occupied_items = oc_owner_items occ,
             cp_occupied_bytes = oc_owner_bytes occ,
             cp_limit_items = bc_max_owner_claim_items (bl_contract l),
             cp_limit_bytes = bc_max_owner_bytes (bl_contract l) \<rparr>)
     in rbind (overflow_checked (checked_add (oc_owner_items occ) 1)) (\<lambda>items.
        if items > bc_max_owner_claim_items (bl_contract l) then pressure
        else rbind (overflow_checked (checked_add (oc_owner_bytes occ) (cc_bytes component))) (\<lambda>bytes.
          if bytes > bc_max_owner_bytes (bl_contract l) then pressure else Inr ())))"

text \<open>Looking up a component and writing it back (\<open>get_mut\<close> through both maps).\<close>

definition get_component ::
    "ByteCreditLedger \<Rightarrow> u64 \<Rightarrow> ByteCreditComponent \<Rightarrow> ByteComponentClaim option" where
  "get_component l claim_id component =
     Option.bind (bt_get (bl_active l) claim_id) (\<lambda>claim. bt_get (cl_components claim) component)"

definition set_component ::
    "ByteCreditLedger \<Rightarrow> u64 \<Rightarrow> ByteCreditComponent \<Rightarrow> ByteComponentClaim \<Rightarrow> ByteCreditLedger" where
  "set_component l claim_id component c =
     (case bt_get (bl_active l) claim_id of
        None \<Rightarrow> l
      | Some claim \<Rightarrow>
          l\<lparr> bl_active := bt_insert claim_id
               (claim\<lparr> cl_components := bt_insert component c (cl_components claim) \<rparr>)
               (bl_active l) \<rparr>)"

definition transfer_component ::
    "ByteCreditLedger \<Rightarrow> u64 \<Rightarrow> ByteCreditComponent \<Rightarrow> OwnerId \<Rightarrow> CreditError + ByteCreditLedger" where
  "transfer_component l claim_id component to =
     (case get_component l claim_id component of
        None \<Rightarrow> missing_component l claim_id component
      | Some existing \<Rightarrow>
          if cc_consumed existing \<noteq> 0
          then Inl (ConsumedComponentCannotTransfer component (cc_consumed existing))
          else if cc_owner existing \<noteq> to
          then rbind (check_owner_transfer l to existing) (\<lambda>_.
            Inr (set_component l claim_id component (existing\<lparr> cc_owner := to \<rparr>)))
          else Inr l)"

definition consumed_for_stage :: "ByteCreditLedger \<Rightarrow> ByteCreditStage \<Rightarrow> u64" where
  "consumed_for_stage l stage =
     (case bt_get (bl_lifetime_consumed l) stage of None \<Rightarrow> 0 | Some n \<Rightarrow> n)"

definition consume_component ::
    "ByteCreditLedger \<Rightarrow> u64 \<Rightarrow> ByteCreditComponent \<Rightarrow> u64 \<Rightarrow> CreditError + ByteCreditLedger" where
  "consume_component l claim_id component bytes =
     (case get_component l claim_id component of
        None \<Rightarrow> missing_component l claim_id component
      | Some target \<Rightarrow>
          rbind (ok_or CreditInvariantViolation
              (checked_sub (cc_bytes target) (cc_consumed target))) (\<lambda>available.
          if bytes > available then Inl (UncreditedBytes component bytes available)
          else rbind (overflow_checked (checked_add (cc_consumed target) bytes)) (\<lambda>consumed.
          rbind (overflow_checked (checked_add (consumed_for_stage l (cc_stage target)) bytes)) (\<lambda>total.
            Inr ((set_component l claim_id component (target\<lparr> cc_consumed := consumed \<rparr>))
              \<lparr> bl_lifetime_consumed :=
                  bt_insert (cc_stage target) total (bl_lifetime_consumed l) \<rparr>)))))"

definition attribution_from_claim :: "u64 \<Rightarrow> ByteClaim \<Rightarrow> CreditAttribution" where
  "attribution_from_claim claim_id claim =
     \<lparr> at_claim_id = claim_id,
       at_components = map (\<lambda>(component, c).
         \<lparr> at_component = component, at_owner = cc_owner c, at_stage = cc_stage c,
           at_bytes = cc_bytes c, at_consumed = cc_consumed c \<rparr>) (cl_components claim) \<rparr>"

definition credit_release ::
    "ByteCreditLedger \<Rightarrow> u64 \<Rightarrow> CreditError + ByteCreditLedger \<times> CreditAttribution" where
  "credit_release l claim_id =
     (case bt_get (bl_active l) claim_id of
        None \<Rightarrow> missing_claim l claim_id
      | Some claim \<Rightarrow>
          rbind (overflow_checked
              (try_fold checked_add 0 (map cc_bytes (bt_values (cl_components claim))))) (\<lambda>bytes.
          rbind (ok_or CreditInvariantViolation (checked_sub (bl_in_use l) bytes)) (\<lambda>in_use.
            Inr (l\<lparr> bl_active := bt_remove claim_id (bl_active l), bl_in_use := in_use \<rparr>,
                 attribution_from_claim claim_id claim))))"

definition attribution :: "ByteCreditLedger \<Rightarrow> u64 \<Rightarrow> CreditError + CreditAttribution" where
  "attribution l claim_id =
     (case bt_get (bl_active l) claim_id of
        None \<Rightarrow> missing_claim l claim_id
      | Some claim \<Rightarrow> Inr (attribution_from_claim claim_id claim))"

section \<open>Positions and verification\<close>

definition validate_next_position :: "ByteCreditLedger \<Rightarrow> ByteCreditPosition \<Rightarrow> CreditError + unit" where
  "validate_next_position l next =
     (if received next < received (bl_position l) \<or>
         validated_written_contiguous next < validated_written_contiguous (bl_position l) \<or>
         durable_contiguous next < durable_contiguous (bl_position l)
      then Inl PositionRegressed
      else if received next > consumed_for_stage l HttpReceive then Inl ReceivedAheadOfConsumed
      else if validated_written_contiguous next > consumed_for_stage l Writer
        then Inl WrittenAheadOfConsumed
      else if validated_written_contiguous next > received next then Inl WrittenAheadOfReceived
      else if durable_contiguous next > validated_written_contiguous next
        then Inl DurableAheadOfWritten
      else Inr ())"

definition advance_acknowledged ::
    "ByteCreditLedger \<Rightarrow> ByteCreditPosition \<Rightarrow> CreditError + ByteCreditLedger" where
  "advance_acknowledged l next =
     rbind (validate_next_position l next) (\<lambda>_. Inr (l\<lparr> bl_position := next \<rparr>))"

fun verify_total :: "u64 \<Rightarrow> ByteComponentClaim list \<Rightarrow> CreditError + u64" where
  "verify_total acc [] = Inr acc"
| "verify_total acc (c # cs) =
     (if cc_consumed c > cc_bytes c then Inl CreditInvariantViolation
      else rbind (overflow_checked (checked_add acc (cc_bytes c))) (\<lambda>acc. verify_total acc cs))"

fun verify_stages :: "ByteCreditLedger \<Rightarrow> ByteCreditStage list \<Rightarrow> CreditError + unit" where
  "verify_stages l [] = Inr ()"
| "verify_stages l (stage # stages) =
     rbind (stage_policy l stage) (\<lambda>policy.
     rbind (occupancy_for l (- 1) stage) (\<lambda>occ.
       if oc_stage_items occ > sp_max_claim_items policy \<or> oc_stage_bytes occ > sp_max_bytes policy
       then Inl CreditInvariantViolation else verify_stages l stages))"

fun verify_owners :: "ByteCreditLedger \<Rightarrow> OwnerId list \<Rightarrow> CreditError + unit" where
  "verify_owners l [] = Inr ()"
| "verify_owners l (owner # owners) =
     rbind (occupancy_for l owner HttpReceive) (\<lambda>occ.
       if oc_owner_items occ > bc_max_owner_claim_items (bl_contract l) \<or>
          oc_owner_bytes occ > bc_max_owner_bytes (bl_contract l)
       then Inl CreditInvariantViolation else verify_owners l owners)"

definition credit_verify :: "ByteCreditLedger \<Rightarrow> CreditError + unit" where
  "credit_verify l =
     rbind (verify_total 0 (components l)) (\<lambda>total.
       if total \<noteq> bl_in_use l \<or> bl_in_use l > bc_capacity_bytes (bl_contract l)
       then Inl CreditInvariantViolation
       else rbind (validate_next_position l (bl_position l)) (\<lambda>_.
         rbind (verify_stages l (bc_stages (bl_contract l))) (\<lambda>_.
           verify_owners l (sort (remdups (map cc_owner (components l)))))))"

section \<open>Sums over the live components\<close>

definition items :: "(ByteComponentClaim \<Rightarrow> bool) \<Rightarrow> ByteComponentClaim \<Rightarrow> nat" where
  "items P c = (if P c then 1 else 0)"

definition weight :: "(ByteComponentClaim \<Rightarrow> bool) \<Rightarrow> ByteComponentClaim \<Rightarrow> nat" where
  "weight P c = (if P c then unat (cc_bytes c) else 0)"

abbreviation every :: "ByteComponentClaim \<Rightarrow> bool" where
  "every \<equiv> \<lambda>_. True"

abbreviation owned_by :: "OwnerId \<Rightarrow> ByteComponentClaim \<Rightarrow> bool" where
  "owned_by owner \<equiv> \<lambda>c. cc_owner c = owner"

abbreviation at_stage_of :: "ByteCreditStage \<Rightarrow> ByteComponentClaim \<Rightarrow> bool" where
  "at_stage_of stage \<equiv> \<lambda>c. cc_stage c = stage"

definition claim_sum :: "(ByteComponentClaim \<Rightarrow> nat) \<Rightarrow> ByteClaim \<Rightarrow> nat" where
  "claim_sum f claim = bt.total f (cl_components claim)"

definition live_sum :: "(ByteComponentClaim \<Rightarrow> nat) \<Rightarrow> ByteCreditLedger \<Rightarrow> nat" where
  "live_sum f l = bt.total (claim_sum f) (bl_active l)"

lemma sum_list_concat_map:
  "sum_list (map f (concat (map g xs))) = sum_list (map (\<lambda>x. sum_list (map f (g x))) xs)"
  for f :: "'a \<Rightarrow> nat"
  by (induction xs) simp_all

lemma live_sum_components: "live_sum f l = sum_list (map f (components l))"
  unfolding components_def sum_list_concat_map
  by (simp add: live_sum_def claim_sum_def bt.total_def comp_def)

lemma live_sum_mono: "(\<And>c. f c \<le> g c) \<Longrightarrow> live_sum f l \<le> live_sum g l"
  by (simp add: live_sum_components sum_list_mono)

lemma live_sum_le_every: "live_sum (items P) l \<le> live_sum (items every) l"
  "live_sum (weight P) l \<le> live_sum (weight every) l"
  by (rule live_sum_mono; simp add: items_def weight_def)+

lemma component_count_ok:
  assumes "live_sum (items every) l < 2 ^ 64"
  obtains n where "component_count l = Inr n" "unat n = live_sum (items every) l"
proof -
  have len: "claim_sum (items every) claim = length (cl_components claim)" for claim
    by (simp add: claim_sum_def bt.total_def items_def comp_def sum_list_triv)
  have small: "claim_sum (items every) claim < 2 ^ 64" if "claim \<in> set (bt_values (bl_active l))" for claim
  proof -
    have "claim_sum (items every) claim \<le> live_sum (items every) l"
      using member_le_sum_list [of "claim_sum (items every) claim"
          "map (claim_sum (items every)) (bt_values (bl_active l))"] that
      by (auto simp: live_sum_def bt.total_def)
    with assms show ?thesis by simp
  qed
  let ?n = "of_nat (live_sum (items every) l) :: u64"
  have n: "unat ?n = live_sum (items every) l" by (rule unat_of_nat_u64 [OF assms])
  have "try_fold checked_add 0
      (map (\<lambda>claim. of_nat (length (cl_components claim))) (bt_values (bl_active l))) = Some ?n"
  proof (rule bytes.sum_complete)
    have "sum_list (map (\<lambda>x. unat x)
        (map (\<lambda>claim. of_nat (length (cl_components claim)) :: u64) (bt_values (bl_active l)))) =
      sum_list (map (claim_sum (items every)) (bt_values (bl_active l)))"
      unfolding map_map using small by (intro arg_cong [where f = sum_list] map_cong)
        (simp_all add: len unat_of_nat_u64)
    also have "\<dots> = live_sum (items every) l" by (simp add: live_sum_def bt.total_def comp_def)
    finally show "unat ?n = unat (0 :: u64) + sum_list (map unat
        (map (\<lambda>claim. of_nat (length (cl_components claim)) :: u64) (bt_values (bl_active l))))"
      by (simp add: n)
  qed
  with n that show thesis by (simp add: component_count_def)
qed

lemma checked_add_small:
  fixes a b :: u64
  assumes "unat a + unat b < 2 ^ 64"
  shows "checked_add a b = Some (a + b)" "unat (a + b) = unat a + unat b"
  using assms by (simp_all add: checked_add_def unat_sum_word)

lemma occupancy_loop_ok:
  assumes "unat (oc_owner_items occ) + sum_list (map (items (owned_by owner)) cs) < 2 ^ 64"
    "unat (oc_owner_bytes occ) + sum_list (map (weight (owned_by owner)) cs) < 2 ^ 64"
    "unat (oc_stage_items occ) + sum_list (map (items (at_stage_of stage)) cs) < 2 ^ 64"
    "unat (oc_stage_bytes occ) + sum_list (map (weight (at_stage_of stage)) cs) < 2 ^ 64"
  shows "\<exists>occ'. occupancy_loop owner stage occ cs = Inr occ' \<and>
    oc_global_items occ' = oc_global_items occ \<and> oc_global_bytes occ' = oc_global_bytes occ \<and>
    unat (oc_owner_items occ') =
      unat (oc_owner_items occ) + sum_list (map (items (owned_by owner)) cs) \<and>
    unat (oc_owner_bytes occ') =
      unat (oc_owner_bytes occ) + sum_list (map (weight (owned_by owner)) cs) \<and>
    unat (oc_stage_items occ') =
      unat (oc_stage_items occ) + sum_list (map (items (at_stage_of stage)) cs) \<and>
    unat (oc_stage_bytes occ') =
      unat (oc_stage_bytes occ) + sum_list (map (weight (at_stage_of stage)) cs)"
  using assms
proof (induction cs arbitrary: occ)
  case (Cons c cs)
  let ?o = "if cc_owner c = owner then occ\<lparr> oc_owner_items := oc_owner_items occ + 1,
      oc_owner_bytes := oc_owner_bytes occ + cc_bytes c \<rparr> else occ"
  let ?s = "if cc_stage c = stage then ?o\<lparr> oc_stage_items := oc_stage_items ?o + 1,
      oc_stage_bytes := oc_stage_bytes ?o + cc_bytes c \<rparr> else ?o"
  have fields: "oc_stage_items ?o = oc_stage_items occ" "oc_stage_bytes ?o = oc_stage_bytes occ"
    by simp_all
  have own: "unat (oc_owner_items ?s) = unat (oc_owner_items occ) + items (owned_by owner) c"
    "unat (oc_owner_bytes ?s) = unat (oc_owner_bytes occ) + weight (owned_by owner) c"
    using Cons.prems(1,2) by (auto simp: items_def weight_def checked_add_small(2))
  have stg: "unat (oc_stage_items ?s) = unat (oc_stage_items occ) + items (at_stage_of stage) c"
    "unat (oc_stage_bytes ?s) = unat (oc_stage_bytes occ) + weight (at_stage_of stage) c"
    using Cons.prems(3,4) by (auto simp: items_def weight_def checked_add_small(2))
  have "occupancy_loop owner stage occ (c # cs) = occupancy_loop owner stage ?s cs"
    using Cons.prems
    by (auto simp: items_def weight_def checked_add_small(1))
  moreover have "oc_global_items ?s = oc_global_items occ" "oc_global_bytes ?s = oc_global_bytes occ"
    by simp_all
  ultimately show ?case
    using Cons.IH [of ?s] Cons.prems own stg by (simp add: add.assoc)
qed simp

section \<open>The ledger invariant\<close>

definition within_limits :: "ByteCreditLedger \<Rightarrow> bool" where
  "within_limits l \<longleftrightarrow>
     live_sum (weight every) l \<le> unat (bc_capacity_bytes (bl_contract l)) \<and>
     live_sum (items every) l \<le> unat (bc_max_claim_items (bl_contract l)) \<and>
     (\<forall>owner.
        live_sum (items (owned_by owner)) l \<le> unat (bc_max_owner_claim_items (bl_contract l)) \<and>
        live_sum (weight (owned_by owner)) l \<le> unat (bc_max_owner_bytes (bl_contract l))) \<and>
     (\<forall>stage policy. stage_policy l stage = Inr policy \<longrightarrow>
        live_sum (items (at_stage_of stage)) l \<le> unat (sp_max_claim_items policy) \<and>
        live_sum (weight (at_stage_of stage)) l \<le> unat (sp_max_bytes policy))"

definition claim_ok :: "ByteClaim \<Rightarrow> bool" where
  "claim_ok claim \<longleftrightarrow> bt_ok (cl_components claim) \<and>
     (\<forall>c \<in> set (bt_values (cl_components claim)). cc_consumed c \<le> cc_bytes c)"

definition claims_ok :: "ByteCreditLedger \<Rightarrow> bool" where
  "claims_ok l \<longleftrightarrow>
     bt_ok (bl_active l) \<and> 0 < bl_next_claim l \<and>
     (\<forall>(k, claim) \<in> set (bl_active l). 0 < k \<and> k < bl_next_claim l \<and> claim_ok claim) \<and>
     unat (bl_in_use l) = live_sum (weight every) l"

definition contract_ok :: "ByteCreditContractV1 \<Rightarrow> bool" where
  "contract_ok contract \<longleftrightarrow>
     byte_credit_contract_validate contract = Inr () \<and> length (bc_stage_policies contract) = 9"

definition credit_ok :: "ByteCreditLedger \<Rightarrow> bool" where
  "credit_ok l \<longleftrightarrow>
     contract_ok (bl_contract l) \<and> claims_ok l \<and> within_limits l \<and>
     validate_next_position l (bl_position l) = Inr ()"

lemma credit_okD:
  assumes "credit_ok l"
  shows "contract_ok (bl_contract l)" "claims_ok l" "within_limits l"
    "validate_next_position l (bl_position l) = Inr ()"
  using assms by (simp_all add: credit_ok_def)

text \<open>A validated contract names a policy for every stage.\<close>

lemma list_of_nine:
  assumes "length xs = 9"
  obtains a b c d e f g h i where "xs = [a, b, c, d, e, f, g, h, i]"
  using assms by (auto simp: eval_nat_numeral length_Suc_conv)

lemma stage_policy_ok:
  assumes "contract_ok (bl_contract l)"
  obtains policy where "stage_policy l stage = Inr policy"
proof -
  obtain p0 p1 p2 p3 p4 p5 p6 p7 p8 where
    p: "bc_stage_policies (bl_contract l) = [p0, p1, p2, p3, p4, p5, p6, p7, p8]"
    using assms list_of_nine unfolding contract_ok_def by metis
  have "sp_stage p0 = HttpReceive \<and> sp_stage p1 = Decompression \<and> sp_stage p2 = DecryptOrPackInput \<and>
      sp_stage p3 = DecryptOrPackOutput \<and> sp_stage p4 = Reorder \<and> sp_stage p5 = Writer \<and>
      sp_stage p6 = JournalStage \<and> sp_stage p7 = FfmpegPipe \<and> sp_stage p8 = SpillAndSink"
    using assms
    by (simp add: contract_ok_def byte_credit_contract_validate_def p BYTE_CREDIT_STAGES_V1_def
        split: if_splits)
  then have "\<exists>policy. stage_policy l stage = Inr policy"
    by (cases stage) (simp_all add: stage_policy_def p)
  with that show thesis by blast
qed

lemma live_sums_small:
  assumes "within_limits l"
  shows "live_sum (items P) l < 2 ^ 64" "live_sum (weight P) l < 2 ^ 64"
proof -
  have "live_sum (items every) l < 2 ^ 64" "live_sum (weight every) l < 2 ^ 64"
    using assms unat_bound [of "bc_max_claim_items (bl_contract l)"]
      unat_bound [of "bc_capacity_bytes (bl_contract l)"]
    by (simp_all add: within_limits_def)
  with live_sum_le_every [of P l] show "live_sum (items P) l < 2 ^ 64" "live_sum (weight P) l < 2 ^ 64"
    by simp_all
qed

lemma occupancy_for_ok:
  assumes "claims_ok l" "within_limits l"
  obtains occ where "occupancy_for l owner stage = Inr occ"
    "unat (oc_global_items occ) = live_sum (items every) l"
    "unat (oc_global_bytes occ) = live_sum (weight every) l"
    "unat (oc_owner_items occ) = live_sum (items (owned_by owner)) l"
    "unat (oc_owner_bytes occ) = live_sum (weight (owned_by owner)) l"
    "unat (oc_stage_items occ) = live_sum (items (at_stage_of stage)) l"
    "unat (oc_stage_bytes occ) = live_sum (weight (at_stage_of stage)) l"
proof -
  note small = live_sums_small [OF assms(2)]
  obtain n where n: "component_count l = Inr n" "unat n = live_sum (items every) l"
    by (rule component_count_ok [OF small(1)])
  let ?occ = "\<lparr> oc_global_items = n, oc_global_bytes = bl_in_use l, oc_owner_items = 0,
      oc_owner_bytes = 0, oc_stage_items = 0, oc_stage_bytes = 0 \<rparr>"
  have "\<exists>occ. occupancy_loop owner stage ?occ (components l) = Inr occ \<and>
    oc_global_items occ = n \<and> oc_global_bytes occ = bl_in_use l \<and>
    unat (oc_owner_items occ) = live_sum (items (owned_by owner)) l \<and>
    unat (oc_owner_bytes occ) = live_sum (weight (owned_by owner)) l \<and>
    unat (oc_stage_items occ) = live_sum (items (at_stage_of stage)) l \<and>
    unat (oc_stage_bytes occ) = live_sum (weight (at_stage_of stage)) l"
    using occupancy_loop_ok [of ?occ owner "components l" stage] small
    by (simp add: live_sum_components)
  with n assms(1) that show thesis by (auto simp: occupancy_for_def claims_ok_def)
qed

text \<open>What an accepted admission check establishes.\<close>

lemma fail_with_not_Inr [simp]: "fail_with r \<noteq> Inr x"
  by (simp add: fail_with_def split: sum.splits)

lemma if_fail_with_eq_Inr [result_simps]:
  "(if c then fail_with r else s) = Inr x \<longleftrightarrow> \<not> c \<and> s = Inr x"
  by simp

lemma if_rbind_fail_eq_Inr [result_simps]:
  "(if c then rbind p (\<lambda>a. rbind q (\<lambda>b. fail_with (r a b))) else s) = Inr x \<longleftrightarrow> \<not> c \<and> s = Inr x"
  by (simp add: rbind_eq_Inr_iff)

definition admits :: "ByteCreditLedger \<Rightarrow> OwnerId \<Rightarrow> ByteCreditStage \<Rightarrow> nat \<Rightarrow> nat \<Rightarrow> nat \<Rightarrow> nat \<Rightarrow> bool" where
  "admits l owner stage n b pn pb \<longleftrightarrow>
     live_sum (items every) l + pn + n \<le> unat (bc_max_claim_items (bl_contract l)) \<and>
     live_sum (weight every) l + pb + b \<le> unat (bc_capacity_bytes (bl_contract l)) \<and>
     live_sum (items (owned_by owner)) l + pn + n \<le> unat (bc_max_owner_claim_items (bl_contract l)) \<and>
     live_sum (weight (owned_by owner)) l + pb + b \<le> unat (bc_max_owner_bytes (bl_contract l)) \<and>
     (\<forall>policy. stage_policy l stage = Inr policy \<longrightarrow>
        live_sum (items (at_stage_of stage)) l + n \<le> unat (sp_max_claim_items policy) \<and>
        live_sum (weight (at_stage_of stage)) l + b \<le> unat (sp_max_bytes policy))"

lemma check_component_admission_ok:
  assumes "claims_ok l" "within_limits l"
    and "check_component_admission l owner stage n b pn pb = Inr ()"
  shows "admits l owner stage (unat n) (unat b) (unat pn) (unat pb)"
proof -
  obtain occ where occ: "occupancy_for l owner stage = Inr occ"
    "unat (oc_global_items occ) = live_sum (items every) l"
    "unat (oc_global_bytes occ) = live_sum (weight every) l"
    "unat (oc_owner_items occ) = live_sum (items (owned_by owner)) l"
    "unat (oc_owner_bytes occ) = live_sum (weight (owned_by owner)) l"
    "unat (oc_stage_items occ) = live_sum (items (at_stage_of stage)) l"
    "unat (oc_stage_bytes occ) = live_sum (weight (at_stage_of stage)) l"
    by (rule occupancy_for_ok [OF assms(1,2)])
  from assms(3) show ?thesis
    unfolding check_component_admission_def occ(1) rbind_simps
    unfolding rbind_eq_Inr_iff ok_or_eq_Inr_iff if_rbind_fail_eq_Inr if_fail_with_eq_Inr
      bind_eq_Some_conv
    by (elim exE conjE)
      (simp add: admits_def checked_add_eq_Some_iff occ(2-7) not_less word_le_nat_alt)
qed

section \<open>Each operation keeps the invariant\<close>

definition same_frame :: "ByteCreditLedger \<Rightarrow> ByteCreditLedger \<Rightarrow> bool" where
  "same_frame l l' \<longleftrightarrow>
     bl_contract l' = bl_contract l \<and> bl_position l' = bl_position l \<and>
     bl_lifetime_consumed l' = bl_lifetime_consumed l"

lemma same_frame_queries:
  assumes "same_frame l l'"
  shows "stage_policy l' stage = stage_policy l stage"
    "validate_next_position l' next = validate_next_position l next"
  using assms
  by (simp_all add: same_frame_def stage_policy_def validate_next_position_def consumed_for_stage_def)

lemma insert_claim_ok:
  assumes "claims_ok l" "insert_claim l comps bytes = Inr (l', k)" "bt_ok comps"
    and "\<forall>c \<in> set (bt_values comps). cc_consumed c \<le> cc_bytes c"
    and "unat bytes = bt.total (weight every) comps"
  shows "claims_ok l'" "same_frame l l'" "k = bl_next_claim l"
    "bl_active l' = bl_active l @ [(k, \<lparr> cl_components = comps \<rparr>)]"
    "live_sum f l' = live_sum f l + bt.total f comps"
proof -
  obtain combined "next" where c: "checked_add (bl_in_use l) bytes = Some combined"
      "checked_add (bl_next_claim l) 1 = Some next" and k: "k = bl_next_claim l"
    and l': "l' = l\<lparr> bl_active := bt_insert k \<lparr> cl_components = comps \<rparr> (bl_active l),
               bl_in_use := combined, bl_next_claim := next \<rparr>"
    using assms(2) by (auto simp: insert_claim_def result_simps)
  have below: "\<forall>j \<in> fst ` set (bl_active l). j < k"
    using assms(1) k by (auto simp: claims_ok_def)
  then have active: "bl_active l' = bl_active l @ [(k, \<lparr> cl_components = comps \<rparr>)]"
    by (simp add: l' bt_insert_largest)
  have less: "k < next" using checked_add_1_less [OF c(2)] k by simp
  have sum: "live_sum f l' = live_sum f l + bt.total f comps" for f
    unfolding live_sum_def active by (simp add: bt.total_def claim_sum_def)
  have "bt_ok (bl_active l')"
    using assms(1) by (simp add: l' bt_ok_insert claims_ok_def)
  moreover have "unat (bl_in_use l') = live_sum (weight every) l'"
    using assms(1,5) c(1) unfolding sum by (simp add: l' claims_ok_def checked_add_eq_Some_iff)
  moreover have "0 < bl_next_claim l'" "0 < k" "k < bl_next_claim l'"
    using assms(1) less k by (auto simp: l' claims_ok_def dest: le_less_trans)
  moreover have "\<forall>(j, claim) \<in> set (bl_active l). 0 < j \<and> j < bl_next_claim l' \<and> claim_ok claim"
    using assms(1) less k by (auto simp: l' claims_ok_def dest: less_trans)
  moreover have "claim_ok \<lparr> cl_components = comps \<rparr>" using assms(3,4) by (simp add: claim_ok_def)
  ultimately show "claims_ok l'" unfolding claims_ok_def active by auto
  show "same_frame l l'" by (simp add: l' same_frame_def)
  show "k = bl_next_claim l" "bl_active l' = bl_active l @ [(k, \<lparr> cl_components = comps \<rparr>)]"
    "live_sum f l' = live_sum f l + bt.total f comps" by (rule k active sum)+
qed

lemma credit_ok_frame:
  assumes "credit_ok l" "same_frame l l'" "claims_ok l'" "within_limits l'"
  shows "credit_ok l'"
  using assms same_frame_queries(2) [OF assms(2)] by (simp add: credit_ok_def same_frame_def)

lemma claim_single_ok:
  assumes "credit_ok l" "claim_single l owner stage bytes = Inr (l', k)"
  shows "credit_ok l'" "k = bl_next_claim l"
    "bl_active l' = bl_active l @ [(k, \<lparr> cl_components = [(Single,
       \<lparr> cc_owner = owner, cc_stage = stage, cc_bytes = bytes, cc_consumed = 0 \<rparr>)] \<rparr>)]"
    "bl_contract l' = bl_contract l" "bl_position l' = bl_position l"
proof -
  note ok = credit_okD [OF assms(1)]
  let ?c = "\<lparr> cc_owner = owner, cc_stage = stage, cc_bytes = bytes, cc_consumed = 0 \<rparr>"
  from assms(2) have check: "check_component_admission l owner stage 1 bytes 0 0 = Inr ()"
    and ins: "insert_claim l [(Single, ?c)] bytes = Inr (l', k)"
    by (auto simp: claim_single_def result_simps)
  note adm = check_component_admission_ok [OF ok(2,3) check]
  have comp: "bt_ok [(Single, ?c)]" "\<forall>c \<in> set (bt_values [(Single, ?c)]). cc_consumed c \<le> cc_bytes c"
    "unat bytes = bt.total (weight every) [(Single, ?c)]"
    by (simp_all add: bt_ok_def bt.total_def weight_def)
  note new = insert_claim_ok [OF ok(2) ins comp]
  have "live_sum f l' = live_sum f l + f ?c" for f
    using new(5) [of f] by (simp add: bt.total_def)
  then have "within_limits l'"
    using ok(3) adm new(2) same_frame_queries(1) [OF new(2)]
    by (auto simp: within_limits_def admits_def same_frame_def items_def weight_def)
  with new(1,2) assms(1) show "credit_ok l'" by (blast intro: credit_ok_frame)
  show "k = bl_next_claim l" "bl_active l' = bl_active l @ [(k, \<lparr> cl_components = [(Single, ?c)] \<rparr>)]"
    "bl_contract l' = bl_contract l" "bl_position l' = bl_position l"
    using new(2-4) by (simp_all add: same_frame_def)
qed

lemma total_bytes_Inr_iff:
  "total_bytes r = Inr tot \<longleftrightarrow>
     cr_input_bytes r \<noteq> 0 \<and> cr_output_bytes r \<noteq> 0 \<and>
     unat tot = unat (cr_input_bytes r) + unat (cr_output_bytes r)"
  by (auto simp: total_bytes_def result_simps checked_add_eq_Some_iff)

lemma claim_coupled_ok:
  fixes r owner
  defines "input \<equiv> \<lparr> cc_owner = owner, cc_stage = cr_input_stage r, cc_bytes = cr_input_bytes r,
      cc_consumed = 0 \<rparr>"
    and "output \<equiv> \<lparr> cc_owner = owner, cc_stage = cr_output_stage r, cc_bytes = cr_output_bytes r,
      cc_consumed = 0 \<rparr>"
  assumes "credit_ok l" "claim_coupled l owner r = Inr (l', k)"
  shows "credit_ok l'" "k = bl_next_claim l"
    "bl_active l' = bl_active l @ [(k, \<lparr> cl_components =
       [(InputComponent, input), (OutputComponent, output)] \<rparr>)]"
    "bl_contract l' = bl_contract l" "bl_position l' = bl_position l"
proof -
  note ok = credit_okD [OF assms(3)]
  let ?comps = "[(InputComponent, input), (OutputComponent, output)]"
  have sorted: "bt_insert OutputComponent output (bt_insert InputComponent input []) = ?comps"
    by (simp add: less_ByteCreditComponent_def)
  obtain tot where total: "total_bytes r = Inr tot"
    and check1: "check_component_admission l owner (cr_input_stage r) 1 (cr_input_bytes r) 0 0 = Inr ()"
    and check2: "check_component_admission l owner (cr_output_stage r) 1 (cr_output_bytes r) 1
        (cr_input_bytes r) = Inr ()"
    and same: "cr_output_stage r = cr_input_stage r \<Longrightarrow>
        \<exists>occ policy nitems nbytes. occupancy_for l owner (cr_input_stage r) = Inr occ \<and>
          stage_policy l (cr_input_stage r) = Inr policy \<and>
          checked_add (oc_stage_items occ) 2 = Some nitems \<and> nitems \<le> sp_max_claim_items policy \<and>
          checked_add (oc_stage_bytes occ) tot = Some nbytes \<and> nbytes \<le> sp_max_bytes policy"
    and ins: "insert_claim l ?comps tot = Inr (l', k)"
    using assms(4) unfolding claim_coupled_def input_def [symmetric] output_def [symmetric] sorted
    by (auto simp: result_simps Let_def not_less split: if_splits)
  note adm1 = check_component_admission_ok [OF ok(2,3) check1]
  note adm2 = check_component_admission_ok [OF ok(2,3) check2]
  have both: "live_sum (items (at_stage_of (cr_input_stage r))) l + 2 \<le> unat (sp_max_claim_items policy) \<and>
      live_sum (weight (at_stage_of (cr_input_stage r))) l + unat (cr_input_bytes r) +
        unat (cr_output_bytes r) \<le> unat (sp_max_bytes policy)"
    if "cr_output_stage r = cr_input_stage r" "stage_policy l (cr_input_stage r) = Inr policy" for policy
  proof -
    obtain occ where occ: "occupancy_for l owner (cr_input_stage r) = Inr occ"
      "unat (oc_stage_items occ) = live_sum (items (at_stage_of (cr_input_stage r))) l"
      "unat (oc_stage_bytes occ) = live_sum (weight (at_stage_of (cr_input_stage r))) l"
      by (rule occupancy_for_ok [OF ok(2,3)])
    with same [OF that(1)] that(2) total show ?thesis
      by (auto simp: checked_add_eq_Some_iff total_bytes_Inr_iff word_le_nat_alt)
  qed
  have comp: "bt_ok ?comps" "\<forall>c \<in> set (bt_values ?comps). cc_consumed c \<le> cc_bytes c"
    "unat tot = bt.total (weight every) ?comps"
    using total
    by (simp_all add: bt_ok_def bt.total_def weight_def input_def output_def total_bytes_Inr_iff
        less_ByteCreditComponent_def)
  note new = insert_claim_ok [OF ok(2) ins comp]
  have sum: "live_sum f l' = live_sum f l + f input + f output" for f
    using new(5) [of f] by (simp add: bt.total_def)
  have contract: "bl_contract l' = bl_contract l" using new(2) by (simp add: same_frame_def)
  have "within_limits l'"
    unfolding within_limits_def sum contract same_frame_queries(1) [OF new(2)]
  proof (intro conjI allI impI)
    fix stage policy assume p: "stage_policy l stage = Inr policy"
    note old = ok(3) [unfolded within_limits_def, THEN conjunct2, THEN conjunct2, THEN conjunct2,
        rule_format, OF p]
    show "live_sum (items (at_stage_of stage)) l + items (at_stage_of stage) input +
        items (at_stage_of stage) output \<le> unat (sp_max_claim_items policy)"
      using old adm1 adm2 both [of policy] p
      by (auto simp: admits_def items_def input_def output_def)
    show "live_sum (weight (at_stage_of stage)) l + weight (at_stage_of stage) input +
        weight (at_stage_of stage) output \<le> unat (sp_max_bytes policy)"
      using old adm1 adm2 both [of policy] p
      by (auto simp: admits_def weight_def input_def output_def)
  qed (use ok(3) adm2 in \<open>auto simp: within_limits_def admits_def items_def weight_def input_def output_def\<close>)
  with new(1,2) assms(3) show "credit_ok l'" by (blast intro: credit_ok_frame)
  show "k = bl_next_claim l" "bl_active l' = bl_active l @ [(k, \<lparr> cl_components = ?comps \<rparr>)]"
    "bl_contract l' = bl_contract l" "bl_position l' = bl_position l"
    using new(2-4) by (simp_all add: same_frame_def)
qed

lemma get_component_Some:
  assumes "claims_ok l" "get_component l k part = Some c"
  obtains claim where "bt_get (bl_active l) k = Some claim" "bt_get (cl_components claim) part = Some c"
    "bt_ok (bl_active l)" "bt_ok (cl_components claim)" "cc_consumed c \<le> cc_bytes c"
    "\<forall>d \<in> set (bt_values (cl_components claim)). cc_consumed d \<le> cc_bytes d"
    "0 < k" "k < bl_next_claim l"
proof -
  obtain claim where get: "bt_get (bl_active l) k = Some claim" "bt_get (cl_components claim) part = Some c"
    using assms(2) by (auto simp: get_component_def bind_eq_Some_conv)
  have bt: "bt_ok (bl_active l)" using assms(1) by (simp add: claims_ok_def)
  then have "(k, claim) \<in> set (bl_active l)" using get(1) by (simp add: bt_get_Some_iff)
  then have claim: "bt_ok (cl_components claim)" "0 < k" "k < bl_next_claim l"
    "\<forall>d \<in> set (bt_values (cl_components claim)). cc_consumed d \<le> cc_bytes d"
    using assms(1) by (auto simp: claims_ok_def claim_ok_def)
  moreover have "c \<in> set (bt_values (cl_components claim))"
    using get(2) claim(1) by (force simp: bt_get_Some_iff)
  ultimately show thesis using that get bt by blast
qed

lemma bt_insert_values: "v \<in> set (bt_values (bt_insert k w m)) \<Longrightarrow> v = w \<or> v \<in> set (bt_values m)"
  by (induction k w m rule: bt_insert.induct) (auto split: if_splits)

lemma set_bt_insert: "(j, v) \<in> set (bt_insert k w m) \<Longrightarrow> (j = k \<and> v = w) \<or> (j, v) \<in> set m"
  by (induction k w m rule: bt_insert.induct) (auto split: if_splits)

text \<open>Overwriting one live component changes every sum by exactly that component.\<close>

lemma set_component_ok:
  assumes "claims_ok l" "get_component l k part = Some c" "cc_consumed c' \<le> cc_bytes c'"
    and "cc_bytes c' = cc_bytes c"
  shows "claims_ok (set_component l k part c')" "same_frame l (set_component l k part c')"
    "mset (map fst (bl_active (set_component l k part c'))) = mset (map fst (bl_active l))"
    "live_sum f (set_component l k part c') + f c = live_sum f l + f c'"
proof -
  obtain claim where g: "bt_get (bl_active l) k = Some claim" "bt_get (cl_components claim) part = Some c"
    "bt_ok (bl_active l)" "bt_ok (cl_components claim)" "cc_consumed c \<le> cc_bytes c"
    "\<forall>d \<in> set (bt_values (cl_components claim)). cc_consumed d \<le> cc_bytes d"
    "0 < k" "k < bl_next_claim l"
    by (rule get_component_Some [OF assms(1,2)])
  let ?claim = "claim\<lparr> cl_components := bt_insert part c' (cl_components claim) \<rparr>"
  have l': "set_component l k part c' = l\<lparr> bl_active := bt_insert k ?claim (bl_active l) \<rparr>"
    using g(1) by (simp add: set_component_def)
  have inner: "claim_sum f ?claim + f c = claim_sum f claim + f c'" for f
    using bt.total_upd [OF g(4,2), of f c'] by (simp add: claim_sum_def)
  have sum: "live_sum f (set_component l k part c') + f c = live_sum f l + f c'" for f
    using bt.total_upd [OF g(3,1), of "claim_sum f" ?claim] inner [of f]
    by (simp add: l' live_sum_def)
  show "same_frame l (set_component l k part c')" by (simp add: l' same_frame_def)
  show "mset (map fst (bl_active (set_component l k part c'))) = mset (map fst (bl_active l))"
    using bt.keys_upd [OF g(3,1)] by (simp add: l')
  have "live_sum (weight every) (set_component l k part c') = live_sum (weight every) l"
    using sum [of "weight every"] assms(4) by (simp add: weight_def)
  moreover have "cc_consumed d \<le> cc_bytes d" if "d \<in> set (bt_values (cl_components ?claim))" for d
    using bt_insert_values [of d part c' "cl_components claim"] that g(6) assms(3) by auto
  then have "claim_ok ?claim" using g(4) by (simp add: bt_ok_insert claim_ok_def)
  ultimately show "claims_ok (set_component l k part c')"
    using assms(1) g(3,7,8) unfolding claims_ok_def l'
    by (auto simp: bt_ok_insert dest!: set_bt_insert)
  show "live_sum f (set_component l k part c') + f c = live_sum f l + f c'" by (rule sum)
qed

lemma transfer_component_ok:
  assumes "credit_ok l" "transfer_component l k part to = Inr l'"
  shows "credit_ok l'" "same_frame l l'" "mset (map fst (bl_active l')) = mset (map fst (bl_active l))"
proof -
  note ok = credit_okD [OF assms(1)]
  obtain c where c: "get_component l k part = Some c"
    using assms(2) by (auto simp: transfer_component_def missing_component_def missing_claim_def
        split: option.splits if_splits)
  let ?c = "c\<lparr> cc_owner := to \<rparr>"
  have "credit_ok l' \<and> same_frame l l' \<and> mset (map fst (bl_active l')) = mset (map fst (bl_active l))"
  proof (cases "cc_owner c = to")
    case True
    with assms(2) c have "l' = l" by (auto simp: transfer_component_def split: if_splits)
    with assms(1) show ?thesis by (simp add: same_frame_def)
  next
    case False
    then have check: "check_owner_transfer l to c = Inr ()" and l': "l' = set_component l k part ?c"
      using assms(2) c by (auto simp: transfer_component_def result_simps split: if_splits)
    obtain occ where occ: "occupancy_for l to (cc_stage c) = Inr occ"
      "unat (oc_owner_items occ) = live_sum (items (owned_by to)) l"
      "unat (oc_owner_bytes occ) = live_sum (weight (owned_by to)) l"
      by (rule occupancy_for_ok [OF ok(2,3)])
    have room: "live_sum (items (owned_by to)) l + 1 \<le> unat (bc_max_owner_claim_items (bl_contract l))"
      "live_sum (weight (owned_by to)) l + unat (cc_bytes c) \<le> unat (bc_max_owner_bytes (bl_contract l))"
      using check unfolding check_owner_transfer_def occ(1) rbind_simps Let_def
      by (auto simp: result_simps checked_add_eq_Some_iff occ(2,3) word_le_nat_alt not_less)
    have "cc_consumed ?c \<le> cc_bytes ?c" using get_component_Some [OF ok(2) c] by simp
    note new = set_component_ok [OF ok(2) c this, simplified, folded l']
    have stage: "live_sum (items (at_stage_of s)) l' = live_sum (items (at_stage_of s)) l"
      "live_sum (weight (at_stage_of s)) l' = live_sum (weight (at_stage_of s)) l"
      "live_sum (items every) l' = live_sum (items every) l"
      "live_sum (weight every) l' = live_sum (weight every) l" for s
      using new(4) [of "items (at_stage_of s)"] new(4) [of "weight (at_stage_of s)"]
        new(4) [of "items every"] new(4) [of "weight every"]
      by (simp_all add: items_def weight_def split: if_splits)
    have owner: "live_sum (items (owned_by o')) l' \<le> unat (bc_max_owner_claim_items (bl_contract l))"
      "live_sum (weight (owned_by o')) l' \<le> unat (bc_max_owner_bytes (bl_contract l))" for o'
    proof -
      have "live_sum (items (owned_by o')) l \<le> unat (bc_max_owner_claim_items (bl_contract l))"
        "live_sum (weight (owned_by o')) l \<le> unat (bc_max_owner_bytes (bl_contract l))"
        using ok(3) by (auto simp: within_limits_def)
      then show "live_sum (items (owned_by o')) l' \<le> unat (bc_max_owner_claim_items (bl_contract l))"
        "live_sum (weight (owned_by o')) l' \<le> unat (bc_max_owner_bytes (bl_contract l))"
        using new(4) [of "items (owned_by o')"] new(4) [of "weight (owned_by o')"] room
        by (auto simp: items_def weight_def split: if_splits)
    qed
    have "within_limits l'"
      using ok(3) owner new(2) same_frame_queries(1) [OF new(2)]
      unfolding within_limits_def stage by (simp add: same_frame_def)
    with new(2,3) credit_ok_frame [OF assms(1) new(2,1)] show ?thesis by simp
  qed
  then show "credit_ok l'" "same_frame l l'" "mset (map fst (bl_active l')) = mset (map fst (bl_active l))"
    by simp_all
qed

lemma consume_component_ok:
  assumes "credit_ok l" "consume_component l k part bytes = Inr l'"
  shows "credit_ok l'" "bl_contract l' = bl_contract l" "bl_position l' = bl_position l"
    "mset (map fst (bl_active l')) = mset (map fst (bl_active l))"
    "consumed_for_stage l s \<le> consumed_for_stage l' s"
proof -
  note ok = credit_okD [OF assms(1)]
  obtain c where c: "get_component l k part = Some c"
    using assms(2) by (auto simp: consume_component_def missing_component_def missing_claim_def
        split: option.splits if_splits)
  obtain available consumed tot where
    a: "checked_sub (cc_bytes c) (cc_consumed c) = Some available" "bytes \<le> available"
      "checked_add (cc_consumed c) bytes = Some consumed"
      "checked_add (consumed_for_stage l (cc_stage c)) bytes = Some tot"
    and l': "l' = (set_component l k part (c\<lparr> cc_consumed := consumed \<rparr>))
       \<lparr> bl_lifetime_consumed := bt_insert (cc_stage c) tot (bl_lifetime_consumed l) \<rparr>"
    using assms(2) c by (auto simp: consume_component_def result_simps)
  let ?l = "set_component l k part (c\<lparr> cc_consumed := consumed \<rparr>)"
  have "consumed \<le> cc_bytes c"
    using a(1-3) by (auto simp: checked_sub_eq_Some_iff checked_add_eq_Some_iff word_le_nat_alt)
  then have "cc_consumed (c\<lparr> cc_consumed := consumed \<rparr>) \<le> cc_bytes (c\<lparr> cc_consumed := consumed \<rparr>)"
    by simp
  note new = set_component_ok [OF ok(2) c this, simplified]
  have active: "bl_active l' = bl_active ?l" "bl_contract l' = bl_contract l" "bl_position l' = bl_position l"
    "bl_next_claim l' = bl_next_claim ?l" "bl_in_use l' = bl_in_use ?l"
    using new(2) by (simp_all add: l' same_frame_def)
  have sums: "live_sum f l' = live_sum f l" if "f (c\<lparr> cc_consumed := consumed \<rparr>) = f c" for f
    using new(4) [of f] that by (simp add: live_sum_def active(1))
  have limits: "within_limits l'"
    using ok(3) by (simp add: within_limits_def sums items_def weight_def active stage_policy_def)
  have claims: "claims_ok l'"
    using new(1) by (simp add: claims_ok_def active live_sum_def)
  have mono: "consumed_for_stage l s \<le> consumed_for_stage l' s" for s
    using a(4) by (auto simp: l' consumed_for_stage_def bt_get_insert checked_add_eq_Some_iff
        word_le_nat_alt split: option.splits)
  have "validate_next_position l' (bl_position l') = Inr ()"
    using ok(4) mono [of HttpReceive] mono [of Writer]
    by (auto simp: validate_next_position_def active not_less split: if_splits intro: order_trans)
  with limits claims ok(1) show "credit_ok l'" by (simp add: credit_ok_def active)
  show "bl_contract l' = bl_contract l" "bl_position l' = bl_position l"
    "mset (map fst (bl_active l')) = mset (map fst (bl_active l))"
    "consumed_for_stage l s \<le> consumed_for_stage l' s"
    using active new(3) mono by simp_all
qed

lemma within_limits_mono:
  assumes "within_limits l" "same_frame l l'" "\<And>f. live_sum f l' \<le> live_sum f l"
  shows "within_limits l'"
proof -
  have "bl_contract l' = bl_contract l" using assms(2) by (simp add: same_frame_def)
  then show ?thesis
    using assms(1,3) unfolding within_limits_def same_frame_queries(1) [OF assms(2)]
    by (metis (no_types, lifting) order_trans)
qed

lemma credit_release_ok:
  assumes "credit_ok l" "bt_get (bl_active l) k = Some claim"
  obtains l' where "credit_release l k = Inr (l', attribution_from_claim k claim)" "credit_ok l'"
    "same_frame l l'" "mset (map fst (bl_active l)) = add_mset k (mset (map fst (bl_active l')))"
    "bl_next_claim l' = bl_next_claim l" "bl_active l' = bt_remove k (bl_active l)"
proof -
  note ok = credit_okD [OF assms(1)]
  have bt: "bt_ok (bl_active l)" using ok(2) by (simp add: claims_ok_def)
  let ?rest = "\<lambda>f. bt.total (claim_sum f) (bt_remove k (bl_active l))"
  have split: "live_sum f l = claim_sum f claim + ?rest f" for f
    unfolding live_sum_def by (rule bt.total_rem [OF bt assms(2)])
  have "claim_sum (weight every) claim < 2 ^ 64"
    using live_sums_small(2) [OF ok(3), of every] split [of "weight every"] by simp
  then obtain b :: u64 where b: "unat b = claim_sum (weight every) claim"
    using unat_of_nat_u64 by blast
  have fold: "try_fold checked_add 0 (map cc_bytes (bt_values (cl_components claim))) = Some b"
    by (rule bytes.sum_complete) (simp add: b claim_sum_def bt.total_def weight_def comp_def)
  obtain u where u: "checked_sub (bl_in_use l) b = Some u" "unat u = ?rest (weight every)"
    using bytes.sub_total [of "bl_in_use l" b "\<lambda>_. ?rest (weight every)"] ok(2) b split [of "weight every"]
    by (auto simp: claims_ok_def)
  let ?l = "l\<lparr> bl_active := bt_remove k (bl_active l), bl_in_use := u \<rparr>"
  have frame: "same_frame l ?l" by (simp add: same_frame_def)
  have less: "live_sum f ?l \<le> live_sum f l" for f using split [of f] by (simp add: live_sum_def)
  have "claims_ok ?l"
    using ok(2) u(2) bt_ok_remove [OF bt, of k]
    by (auto simp: claims_ok_def live_sum_def dest!: set_remove_subset)
  moreover have "within_limits ?l" by (rule within_limits_mono [OF ok(3) frame less])
  ultimately have "credit_ok ?l" using credit_ok_frame [OF assms(1) frame] by blast
  moreover have "credit_release l k = Inr (?l, attribution_from_claim k claim)"
    using assms(2) fold u(1) by (simp add: credit_release_def)
  moreover have "mset (map fst (bl_active l)) = add_mset k (mset (map fst (bl_active ?l)))"
    using bt.entries_rem [OF bt assms(2)] by simp
  ultimately show thesis using that [of ?l] frame by simp
qed

section \<open>Verification accepts every reachable ledger\<close>

lemma component_consumed:
  assumes "claims_ok l" "c \<in> set (components l)"
  shows "cc_consumed c \<le> cc_bytes c"
  using assms by (force simp: components_def claims_ok_def claim_ok_def)

lemma verify_total_ok:
  assumes "\<forall>c \<in> set cs. cc_consumed c \<le> cc_bytes c"
    and "unat acc + sum_list (map (weight every) cs) = unat tot"
  shows "verify_total acc cs = Inr tot"
  using assms
proof (induction cs arbitrary: acc)
  case Nil
  then show ?case by (simp add: unat_eq_iff)
next
  case (Cons c cs)
  have "unat acc + unat (cc_bytes c) \<le> unat tot" using Cons.prems(2) by (simp add: weight_def)
  then have "checked_add acc (cc_bytes c) = Some (acc + cc_bytes c)"
    "unat (acc + cc_bytes c) = unat acc + unat (cc_bytes c)"
    using checked_add_small [of acc "cc_bytes c"] unat_bound [of tot] by auto
  with Cons show ?case by (simp add: not_less weight_def add.assoc)
qed

lemma verify_stages_ok:
  assumes "credit_ok l"
  shows "verify_stages l stages = Inr ()"
proof (induction stages)
  case (Cons stage stages)
  note ok = credit_okD [OF assms]
  obtain policy where p: "stage_policy l stage = Inr policy" by (rule stage_policy_ok [OF ok(1)])
  obtain occ where occ: "occupancy_for l (- 1) stage = Inr occ"
    "unat (oc_stage_items occ) = live_sum (items (at_stage_of stage)) l"
    "unat (oc_stage_bytes occ) = live_sum (weight (at_stage_of stage)) l"
    by (rule occupancy_for_ok [OF ok(2,3)])
  have "unat (oc_stage_items occ) \<le> unat (sp_max_claim_items policy)"
    "unat (oc_stage_bytes occ) \<le> unat (sp_max_bytes policy)"
    using ok(3) p occ(2,3) by (auto simp: within_limits_def)
  with p occ(1) Cons show ?case by (simp add: not_less word_le_nat_alt)
qed simp

lemma verify_owners_ok:
  assumes "credit_ok l"
  shows "verify_owners l owners = Inr ()"
proof (induction owners)
  case (Cons owner owners)
  note ok = credit_okD [OF assms]
  obtain occ where occ: "occupancy_for l owner HttpReceive = Inr occ"
    "unat (oc_owner_items occ) = live_sum (items (owned_by owner)) l"
    "unat (oc_owner_bytes occ) = live_sum (weight (owned_by owner)) l"
    by (rule occupancy_for_ok [OF ok(2,3)])
  have "unat (oc_owner_items occ) \<le> unat (bc_max_owner_claim_items (bl_contract l))"
    "unat (oc_owner_bytes occ) \<le> unat (bc_max_owner_bytes (bl_contract l))"
    using ok(3) occ(2,3) by (auto simp: within_limits_def)
  with occ(1) Cons show ?case by (simp add: not_less word_le_nat_alt)
qed simp

lemma credit_ok_verifies:
  assumes "credit_ok l"
  shows "credit_verify l = Inr ()"
proof -
  note ok = credit_okD [OF assms]
  have "verify_total 0 (components l) = Inr (bl_in_use l)"
    using ok(2) component_consumed [OF ok(2)]
    by (intro verify_total_ok) (auto simp: claims_ok_def live_sum_components)
  moreover have "bl_in_use l \<le> bc_capacity_bytes (bl_contract l)"
    using ok(2,3) by (simp add: claims_ok_def within_limits_def word_le_nat_alt)
  ultimately show ?thesis
    using ok(4) verify_stages_ok [OF assms] verify_owners_ok [OF assms]
    by (simp add: credit_verify_def not_less)
qed

lemma credit_from_contract_ok:
  assumes "credit_from_contract contract = Inr l" "length (bc_stage_policies contract) = 9"
  shows "credit_ok l" "bl_contract l = contract" "bl_active l = []"
    "bl_position l = \<lparr> received = 0, validated_written_contiguous = 0, durable_contiguous = 0 \<rparr>"
proof -
  from assms(1) have v: "byte_credit_contract_validate contract = Inr ()"
    and l: "l = \<lparr> bl_contract = contract, bl_in_use = 0, bl_next_claim = 1, bl_active = [],
             bl_lifetime_consumed = [],
             bl_position = \<lparr> received = 0, validated_written_contiguous = 0,
                             durable_contiguous = 0 \<rparr> \<rparr>"
    by (auto simp: credit_from_contract_def result_simps)
  have sum: "live_sum f l = 0" for f by (simp add: live_sum_def l bt.total_def)
  have "within_limits l" by (simp add: within_limits_def sum)
  moreover have "claims_ok l" using sum by (simp add: claims_ok_def l)
  ultimately show "credit_ok l"
    using v assms(2) by (simp add: credit_ok_def contract_ok_def l validate_next_position_def)
  show "bl_contract l = contract" "bl_active l = []"
    "bl_position l = \<lparr> received = 0, validated_written_contiguous = 0, durable_contiguous = 0 \<rparr>"
    by (simp_all add: l)
qed

end
