(* ===== verification/Credit_Broker.thy ===== *)
theory Credit_Broker
  imports Credit_Ledger
begin

text \<open>
  The owned byte-credit boundary (\<^verbatim>\<open>OwnedByteCreditBroker\<close>, \<^verbatim>\<open>OwnedByteCreditLease\<close> and
  \<^verbatim>\<open>DurabilityAcknowledgement\<close> in \<^verbatim>\<open>product/crates/fforager-core/src/resource.rs\<close>). Leases and
  acknowledgements refer to their broker's ledger weakly and \<open>advance\<close> compares ledgers by
  identity, so the ledgers live in a heap: an address is the identity, and an address without a
  ledger is one whose last broker handle is gone.
\<close>

section \<open>Heap, leases and acknowledgements\<close>

type_synonym credit_heap = "nat \<Rightarrow> ByteCreditLedger option"

record OwnedByteCreditLease =
  bcl_ledger :: nat
  bcl_claim_id :: u64
  bcl_active :: bool

record DurabilityAcknowledgement =
  da_ledger :: nat
  da_next :: ByteCreditPosition

text \<open>A broker method on a live broker, whose handle keeps the ledger allocated.\<close>

definition credit_claim ::
    "credit_heap \<Rightarrow> nat \<Rightarrow> OwnerId \<Rightarrow> ByteCreditStage \<Rightarrow> u64
       \<Rightarrow> credit_heap \<times> (CreditError + OwnedByteCreditLease)" where
  "credit_claim heap self owner stage bytes =
     (case heap self of
        None \<Rightarrow> (heap, Inl CreditBrokerDropped)
      | Some l \<Rightarrow>
          (case claim_single l owner stage bytes of
             Inl e \<Rightarrow> (heap, Inl e)
           | Inr (l', claim_id) \<Rightarrow>
               (heap(self \<mapsto> l'),
                Inr \<lparr> bcl_ledger = self, bcl_claim_id = claim_id, bcl_active = True \<rparr>)))"

definition credit_claim_coupled ::
    "credit_heap \<Rightarrow> nat \<Rightarrow> OwnerId \<Rightarrow> CoupledByteReservation
       \<Rightarrow> credit_heap \<times> (CreditError + OwnedByteCreditLease)" where
  "credit_claim_coupled heap self owner reservation =
     (case heap self of
        None \<Rightarrow> (heap, Inl CreditBrokerDropped)
      | Some l \<Rightarrow>
          (case claim_coupled l owner reservation of
             Inl e \<Rightarrow> (heap, Inl e)
           | Inr (l', claim_id) \<Rightarrow>
               (heap(self \<mapsto> l'),
                Inr \<lparr> bcl_ledger = self, bcl_claim_id = claim_id, bcl_active = True \<rparr>)))"

definition global_occupancy :: "ByteCreditLedger \<Rightarrow> CreditError + u64 \<times> u64" where
  "global_occupancy l = rbind (component_count l) (\<lambda>count. Inr (count, bl_in_use l))"

definition acknowledge_durability_effects ::
    "credit_heap \<Rightarrow> nat \<Rightarrow> ByteCreditPosition \<Rightarrow> CreditError + DurabilityAcknowledgement" where
  "acknowledge_durability_effects heap self next =
     (case heap self of
        None \<Rightarrow> Inl CreditBrokerDropped
      | Some l \<Rightarrow> rbind (validate_next_position l next) (\<lambda>_.
          Inr \<lparr> da_ledger = self, da_next = next \<rparr>))"

definition advance ::
    "credit_heap \<Rightarrow> nat \<Rightarrow> DurabilityAcknowledgement \<Rightarrow> credit_heap \<times> (CreditError + unit)" where
  "advance heap self ack =
     (case heap (da_ledger ack) of
        None \<Rightarrow> (heap, Inl CreditBrokerDropped)
      | Some l \<Rightarrow>
          if da_ledger ack \<noteq> self then (heap, Inl AcknowledgementBrokerMismatch)
          else (case advance_acknowledged l (da_next ack) of
                  Inl e \<Rightarrow> (heap, Inl e)
                | Inr l' \<Rightarrow> (heap(self \<mapsto> l'), Inr ())))"

definition lease_transfer ::
    "credit_heap \<Rightarrow> OwnedByteCreditLease \<Rightarrow> ByteCreditComponent \<Rightarrow> OwnerId
       \<Rightarrow> credit_heap \<times> (CreditError + unit)" where
  "lease_transfer heap held component to =
     (case heap (bcl_ledger held) of
        None \<Rightarrow> (heap, Inl CreditBrokerDropped)
      | Some l \<Rightarrow>
          (case transfer_component l (bcl_claim_id held) component to of
             Inl e \<Rightarrow> (heap, Inl e)
           | Inr l' \<Rightarrow> (heap(bcl_ledger held \<mapsto> l'), Inr ())))"

definition lease_consume ::
    "credit_heap \<Rightarrow> OwnedByteCreditLease \<Rightarrow> ByteCreditComponent \<Rightarrow> u64
       \<Rightarrow> credit_heap \<times> (CreditError + unit)" where
  "lease_consume heap held component bytes =
     (case heap (bcl_ledger held) of
        None \<Rightarrow> (heap, Inl CreditBrokerDropped)
      | Some l \<Rightarrow>
          (case consume_component l (bcl_claim_id held) component bytes of
             Inl e \<Rightarrow> (heap, Inl e)
           | Inr l' \<Rightarrow> (heap(bcl_ledger held \<mapsto> l'), Inr ())))"

definition lease_attribution ::
    "credit_heap \<Rightarrow> OwnedByteCreditLease \<Rightarrow> CreditError + CreditAttribution" where
  "lease_attribution heap held =
     (case heap (bcl_ledger held) of
        None \<Rightarrow> Inl CreditBrokerDropped
      | Some l \<Rightarrow> attribution l (bcl_claim_id held))"

definition attempt_required_loss ::
    "credit_heap \<Rightarrow> OwnedByteCreditLease \<Rightarrow> ByteCreditComponent \<Rightarrow> u64 \<Rightarrow> CreditError + unit" where
  "attempt_required_loss heap held component bytes =
     (if bytes = 0 then Inr ()
      else case heap (bcl_ledger held) of
          None \<Rightarrow> Inl CreditBrokerDropped
        | Some l \<Rightarrow>
            rbind (attribution l (bcl_claim_id held)) (\<lambda>a.
              case List.find (\<lambda>c. at_component c = component) (at_components a) of
                None \<Rightarrow> Inl (UnknownComponent (bcl_claim_id held) component)
              | Some c \<Rightarrow>
                  Inl (RequiredLossRejected (bcl_claim_id held) component (at_stage c) bytes)))"

definition credit_lease_drop :: "credit_heap \<Rightarrow> OwnedByteCreditLease \<Rightarrow> credit_heap" where
  "credit_lease_drop heap held =
     (if \<not> bcl_active held then heap
      else case heap (bcl_ledger held) of
          None \<Rightarrow> heap
        | Some l \<Rightarrow>
            (case credit_release l (bcl_claim_id held) of
               Inl _ \<Rightarrow> heap
             | Inr (l', _) \<Rightarrow> heap(bcl_ledger held \<mapsto> l')))"

definition credit_lease_release ::
    "credit_heap \<Rightarrow> OwnedByteCreditLease \<Rightarrow> credit_heap \<times> (CreditError + CreditAttribution)" where
  "credit_lease_release heap held =
     (case heap (bcl_ledger held) of
        None \<Rightarrow> (credit_lease_drop heap (held\<lparr> bcl_active := False \<rparr>), Inl CreditBrokerDropped)
      | Some l \<Rightarrow>
          (case credit_release l (bcl_claim_id held) of
             Inl e \<Rightarrow> (credit_lease_drop heap held, Inl e)
           | Inr (l', a) \<Rightarrow>
               (credit_lease_drop (heap(bcl_ledger held \<mapsto> l')) (held\<lparr> bcl_active := False \<rparr>), Inr a)))"

definition credit_lease_cancel ::
    "credit_heap \<Rightarrow> OwnedByteCreditLease \<Rightarrow> credit_heap \<times> (CreditError + CreditAttribution)" where
  "credit_lease_cancel heap held = credit_lease_release heap held"

section \<open>A client of the boundary\<close>

record credit_client =
  ch_heap :: credit_heap
  ch_next :: nat
  ch_leases :: "OwnedByteCreditLease list"
  ch_tokens :: "DurabilityAcknowledgement list"

datatype credit_call =
    NewBroker ByteCreditContractV1
  | DropBroker nat
  | Claim nat OwnerId ByteCreditStage u64
  | ClaimCoupled nat OwnerId CoupledByteReservation
  | Transfer nat ByteCreditComponent OwnerId
  | Consume nat ByteCreditComponent u64
  | ReleaseCredit nat
  | DropCredit nat
  | Acknowledge nat ByteCreditPosition
  | Advance nat nat

definition on_claim ::
    "credit_client \<Rightarrow> credit_heap \<times> (CreditError + OwnedByteCreditLease) \<Rightarrow> credit_client" where
  "on_claim c r =
     (case r of (heap, Inl _) \<Rightarrow> c\<lparr> ch_heap := heap \<rparr>
      | (heap, Inr held) \<Rightarrow> c\<lparr> ch_heap := heap, ch_leases := ch_leases c @ [held] \<rparr>)"

fun credit_step :: "credit_client \<Rightarrow> credit_call \<Rightarrow> credit_client" where
  "credit_step c (NewBroker contract) =
     (case credit_from_contract contract of
        Inl _ \<Rightarrow> c
      | Inr l \<Rightarrow> c\<lparr> ch_heap := (ch_heap c)(ch_next c \<mapsto> l), ch_next := Suc (ch_next c) \<rparr>)"
| "credit_step c (DropBroker a) = c\<lparr> ch_heap := (ch_heap c)(a := None) \<rparr>"
| "credit_step c (Claim a owner stage bytes) =
     on_claim c (credit_claim (ch_heap c) a owner stage bytes)"
| "credit_step c (ClaimCoupled a owner r) =
     on_claim c (credit_claim_coupled (ch_heap c) a owner r)"
| "credit_step c (Transfer i component to) =
     (if i < length (ch_leases c)
      then c\<lparr> ch_heap := fst (lease_transfer (ch_heap c) (ch_leases c ! i) component to) \<rparr> else c)"
| "credit_step c (Consume i component bytes) =
     (if i < length (ch_leases c)
      then c\<lparr> ch_heap := fst (lease_consume (ch_heap c) (ch_leases c ! i) component bytes) \<rparr> else c)"
| "credit_step c (ReleaseCredit i) =
     (if i < length (ch_leases c)
      then c\<lparr> ch_heap := fst (credit_lease_release (ch_heap c) (ch_leases c ! i)),
             ch_leases := remove_at i (ch_leases c) \<rparr> else c)"
| "credit_step c (DropCredit i) =
     (if i < length (ch_leases c)
      then c\<lparr> ch_heap := credit_lease_drop (ch_heap c) (ch_leases c ! i),
             ch_leases := remove_at i (ch_leases c) \<rparr> else c)"
| "credit_step c (Acknowledge a next) =
     (case acknowledge_durability_effects (ch_heap c) a next of
        Inl _ \<Rightarrow> c
      | Inr token \<Rightarrow> c\<lparr> ch_tokens := ch_tokens c @ [token] \<rparr>)"
| "credit_step c (Advance a i) =
     (if i < length (ch_tokens c)
      then c\<lparr> ch_heap := fst (advance (ch_heap c) a (ch_tokens c ! i)),
             ch_tokens := remove_at i (ch_tokens c) \<rparr> else c)"

definition no_client :: credit_client where
  "no_client = \<lparr> ch_heap = (\<lambda>_. None), ch_next = 0, ch_leases = [], ch_tokens = [] \<rparr>"

definition held_claims :: "credit_client \<Rightarrow> nat \<Rightarrow> u64 list" where
  "held_claims c a = map bcl_claim_id (filter (\<lambda>held. bcl_ledger held = a) (ch_leases c))"

text \<open>The stage policies of a contract are an array of nine.\<close>

definition typed_call :: "credit_call \<Rightarrow> bool" where
  "typed_call call =
     (case call of NewBroker contract \<Rightarrow> length (bc_stage_policies contract) = 9 | _ \<Rightarrow> True)"

section \<open>Ownership is exact\<close>

definition credit_client_ok :: "credit_client \<Rightarrow> bool" where
  "credit_client_ok c \<longleftrightarrow>
     list_all bcl_active (ch_leases c) \<and>
     list_all (\<lambda>held. bcl_ledger held < ch_next c) (ch_leases c) \<and>
     (\<forall>a l. ch_heap c a = Some l \<longrightarrow>
        a < ch_next c \<and> credit_ok l \<and> mset (map fst (bl_active l)) = mset (held_claims c a))"

definition forward :: "ByteCreditLedger \<Rightarrow> ByteCreditLedger \<Rightarrow> bool" where
  "forward l l' \<longleftrightarrow>
     bl_contract l' = bl_contract l \<and>
     received (bl_position l) \<le> received (bl_position l') \<and>
     validated_written_contiguous (bl_position l) \<le> validated_written_contiguous (bl_position l') \<and>
     durable_contiguous (bl_position l) \<le> durable_contiguous (bl_position l')"

lemma forward_refl [simp]: "forward l l"
  by (simp add: forward_def)

lemma forward_trans: "forward a b \<Longrightarrow> forward b c \<Longrightarrow> forward a c"
  by (auto simp: forward_def intro: order_trans)

text \<open>Replacing one ledger by a good one with the same claims.\<close>

lemma credit_client_ok_write:
  assumes "credit_client_ok c" "ch_heap c a = Some l" "credit_ok l'"
    "mset (map fst (bl_active l')) = mset (map fst (bl_active l))"
  shows "credit_client_ok (c\<lparr> ch_heap := (ch_heap c)(a \<mapsto> l') \<rparr>)"
  using assms by (auto simp: credit_client_ok_def held_claims_def)

lemma credit_client_ok_claim:
  assumes "credit_client_ok c" "ch_heap c a = Some l" "credit_ok l'"
    "mset (map fst (bl_active l')) = add_mset k (mset (map fst (bl_active l)))"
  shows "credit_client_ok (c\<lparr> ch_heap := (ch_heap c)(a \<mapsto> l'),
    ch_leases := ch_leases c @ [\<lparr> bcl_ledger = a, bcl_claim_id = k, bcl_active = True \<rparr>] \<rparr>)"
  using assms by (auto simp: credit_client_ok_def held_claims_def)

lemma held_claims_remove:
  assumes "i < length (ch_leases c)"
  shows "mset (held_claims c a) =
    (if bcl_ledger (ch_leases c ! i) = a then {#bcl_claim_id (ch_leases c ! i)#} else {#}) +
    mset (held_claims (c\<lparr> ch_heap := h, ch_leases := remove_at i (ch_leases c) \<rparr>) a)"
  using mset_remove_at [OF assms] by (simp add: held_claims_def mset_filter)

lemma lease_live:
  assumes "credit_client_ok c" "i < length (ch_leases c)" "ch_heap c (bcl_ledger (ch_leases c ! i)) = Some l"
  obtains claim where "bt_get (bl_active l) (bcl_claim_id (ch_leases c ! i)) = Some claim" "credit_ok l"
proof -
  let ?held = "ch_leases c ! i"
  have ok: "credit_ok l" and m: "mset (map fst (bl_active l)) = mset (held_claims c (bcl_ledger ?held))"
    using assms(1,3) by (auto simp: credit_client_ok_def)
  have "bcl_claim_id ?held \<in> set (held_claims c (bcl_ledger ?held))"
    using assms(2) by (auto simp: held_claims_def)
  then have "bcl_claim_id ?held \<in> fst ` set (bl_active l)"
    using m by (metis list.set_map set_mset_mset)
  then have "bt_get (bl_active l) (bcl_claim_id ?held) \<noteq> None" by (simp add: bt_get_None_iff)
  with ok that show thesis by blast
qed

definition advances :: "credit_client \<Rightarrow> credit_client \<Rightarrow> bool" where
  "advances c c' \<longleftrightarrow>
     ch_next c \<le> ch_next c' \<and>
     (\<forall>a l'. a < ch_next c \<longrightarrow> ch_heap c' a = Some l' \<longrightarrow>
        (\<exists>l. ch_heap c a = Some l \<and> forward l l'))"

lemma advances_refl [simp]: "advances c c"
  by (auto simp: advances_def)

lemma advances_trans:
  assumes "advances a b" "advances b c"
  shows "advances a c"
  unfolding advances_def
proof (intro conjI allI impI)
  show "ch_next a \<le> ch_next c" using assms by (simp add: advances_def)
  fix i l'' assume i: "i < ch_next a" and l'': "ch_heap c i = Some l''"
  then have "i < ch_next b" using assms(1) by (auto simp: advances_def)
  with l'' assms(2) obtain l' where l': "ch_heap b i = Some l'" "forward l' l''"
    by (auto simp: advances_def)
  with i assms(1) obtain l where "ch_heap a i = Some l" "forward l l'" by (auto simp: advances_def)
  with l'(2) show "\<exists>l. ch_heap a i = Some l \<and> forward l l''" by (blast intro: forward_trans)
qed

lemma advances_write:
  "ch_heap c a = Some l \<Longrightarrow> forward l l' \<Longrightarrow> ch_next c' = ch_next c \<Longrightarrow>
     ch_heap c' = (ch_heap c)(a \<mapsto> l') \<Longrightarrow> advances c c'"
  by (auto simp: advances_def)

text \<open>The one-step facts, per call.\<close>

definition good_step :: "credit_client \<Rightarrow> credit_client \<Rightarrow> bool" where
  "good_step c c' \<longleftrightarrow> credit_client_ok c' \<and> advances c c'"

lemma good_refl: "credit_client_ok c \<Longrightarrow> good_step c c"
  by (simp add: good_step_def)

lemma good_claim:
  assumes "credit_client_ok c"
  shows "good_step c (on_claim c (credit_claim (ch_heap c) a owner stage bytes))"
    "good_step c (on_claim c (credit_claim_coupled (ch_heap c) a owner r))"
proof -
  have keep: "c\<lparr> ch_heap := ch_heap c \<rparr> = c" by simp
  have claim: "good_step c (c\<lparr> ch_heap := (ch_heap c)(a \<mapsto> l'),
      ch_leases := ch_leases c @ [\<lparr> bcl_ledger = a, bcl_claim_id = k, bcl_active = True \<rparr>] \<rparr>)"
    if "ch_heap c a = Some l" "credit_ok l'" "bl_active l' = bl_active l @ [(k, claim)]"
      "bl_contract l' = bl_contract l" "bl_position l' = bl_position l" for l l' k claim
  proof -
    have "mset (map fst (bl_active l')) = add_mset k (mset (map fst (bl_active l)))"
      using that(3) by simp
    from credit_client_ok_claim [OF assms that(1,2) this] advances_write [OF that(1), of l'] that(4,5)
    show ?thesis by (auto simp: good_step_def forward_def)
  qed
  have ok: "credit_ok l" if "ch_heap c a = Some l" for l
    using assms that by (auto simp: credit_client_ok_def)
  have idle: "good_step c (on_claim c (ch_heap c, Inl e))" for e
    using assms by (simp add: on_claim_def good_refl)
  show "good_step c (on_claim c (credit_claim (ch_heap c) a owner stage bytes))"
  proof (cases "\<exists>l l' k. ch_heap c a = Some l \<and> claim_single l owner stage bytes = Inr (l', k)")
    case True
    then obtain l l' k where l: "ch_heap c a = Some l" "claim_single l owner stage bytes = Inr (l', k)"
      by blast
    note new = claim_single_ok [OF ok [OF l(1)] l(2)]
    from claim [OF l(1) new(1,3-5)] l show ?thesis by (simp add: credit_claim_def on_claim_def)
  next
    case False
    with idle show ?thesis by (auto simp: credit_claim_def split: option.splits sum.splits)
  qed
  show "good_step c (on_claim c (credit_claim_coupled (ch_heap c) a owner r))"
  proof (cases "\<exists>l l' k. ch_heap c a = Some l \<and> claim_coupled l owner r = Inr (l', k)")
    case True
    then obtain l l' k where l: "ch_heap c a = Some l" "claim_coupled l owner r = Inr (l', k)"
      by blast
    note new = claim_coupled_ok [OF ok [OF l(1)] l(2)]
    from claim [OF l(1) new(1,3-5)] l show ?thesis by (simp add: credit_claim_coupled_def on_claim_def)
  next
    case False
    with idle show ?thesis by (auto simp: credit_claim_coupled_def split: option.splits sum.splits)
  qed
qed

lemma good_write:
  assumes "credit_client_ok c" "ch_heap c a = Some l" "credit_ok l'"
    "mset (map fst (bl_active l')) = mset (map fst (bl_active l))" "forward l l'"
  shows "good_step c (c\<lparr> ch_heap := (ch_heap c)(a \<mapsto> l') \<rparr>)"
  using credit_client_ok_write [OF assms(1-4)] advances_write [OF assms(2,5)]
  by (simp add: good_step_def)

lemma good_lease:
  assumes "credit_client_ok c"
  shows "good_step c (c\<lparr> ch_heap := fst (lease_transfer (ch_heap c) held part to) \<rparr>)"
    "good_step c (c\<lparr> ch_heap := fst (lease_consume (ch_heap c) held part bytes) \<rparr>)"
proof -
  have keep: "good_step c (c\<lparr> ch_heap := ch_heap c \<rparr>)" using assms by (simp add: good_refl)
  have ok: "credit_ok l" if "ch_heap c (bcl_ledger held) = Some l" for l
    using assms that by (auto simp: credit_client_ok_def)
  show "good_step c (c\<lparr> ch_heap := fst (lease_transfer (ch_heap c) held part to) \<rparr>)"
  proof (cases "\<exists>l l'. ch_heap c (bcl_ledger held) = Some l \<and>
      transfer_component l (bcl_claim_id held) part to = Inr l'")
    case True
    then obtain l l' where l: "ch_heap c (bcl_ledger held) = Some l"
      "transfer_component l (bcl_claim_id held) part to = Inr l'" by blast
    note new = transfer_component_ok [OF ok [OF l(1)] l(2)]
    have "forward l l'" using new(2) by (simp add: same_frame_def forward_def)
    from good_write [OF assms l(1) new(1,3) this] l show ?thesis by (simp add: lease_transfer_def)
  next
    case False
    with keep show ?thesis by (auto simp: lease_transfer_def split: option.splits sum.splits)
  qed
  show "good_step c (c\<lparr> ch_heap := fst (lease_consume (ch_heap c) held part bytes) \<rparr>)"
  proof (cases "\<exists>l l'. ch_heap c (bcl_ledger held) = Some l \<and>
      consume_component l (bcl_claim_id held) part bytes = Inr l'")
    case True
    then obtain l l' where l: "ch_heap c (bcl_ledger held) = Some l"
      "consume_component l (bcl_claim_id held) part bytes = Inr l'" by blast
    note new = consume_component_ok [OF ok [OF l(1)] l(2)]
    have "forward l l'" using new(2,3) by (simp add: forward_def)
    from good_write [OF assms l(1) new(1,4) this] l show ?thesis by (simp add: lease_consume_def)
  next
    case False
    with keep show ?thesis by (auto simp: lease_consume_def split: option.splits sum.splits)
  qed
qed

lemma advance_acknowledged_ok:
  assumes "credit_ok l" "advance_acknowledged l next = Inr l'"
  shows "credit_ok l'" "forward l l'" "bl_active l' = bl_active l"
proof -
  have v: "validate_next_position l next = Inr ()" and l': "l' = l\<lparr> bl_position := next \<rparr>"
    using assms(2) by (auto simp: advance_acknowledged_def result_simps)
  have sum: "live_sum f l' = live_sum f l" for f by (simp add: l' live_sum_def)
  have "within_limits l'" using credit_okD(3) [OF assms(1)]
    by (simp add: within_limits_def sum) (simp add: l' stage_policy_def)
  moreover have "claims_ok l'" using credit_okD(2) [OF assms(1)] sum by (simp add: claims_ok_def l')
  moreover have "validate_next_position l' (bl_position l') = Inr ()"
    using v by (auto simp: l' validate_next_position_def consumed_for_stage_def split: if_splits)
  ultimately show "credit_ok l'" using credit_okD(1) [OF assms(1)] by (simp add: credit_ok_def l')
  show "forward l l'" "bl_active l' = bl_active l"
    using v by (auto simp: l' forward_def validate_next_position_def not_less split: if_splits)
qed

lemma good_advance:
  assumes "credit_client_ok c"
  shows "good_step c (c\<lparr> ch_heap := fst (advance (ch_heap c) a token), ch_tokens := ts \<rparr>)"
proof -
  have tokens: "good_step c (d\<lparr> ch_tokens := ts \<rparr>)" if "good_step c d" for d
    using that by (auto simp: good_step_def credit_client_ok_def advances_def held_claims_def)
  have ok: "credit_ok l" if "ch_heap c a = Some l" for l
    using assms that by (auto simp: credit_client_ok_def)
  show ?thesis
  proof (cases "\<exists>l l'. ch_heap c a = Some l \<and> da_ledger token = a \<and>
      advance_acknowledged l (da_next token) = Inr l'")
    case True
    then obtain l l' where l: "ch_heap c a = Some l" "da_ledger token = a"
      "advance_acknowledged l (da_next token) = Inr l'" by blast
    note new = advance_acknowledged_ok [OF ok [OF l(1)] l(3)]
    have "good_step c (c\<lparr> ch_heap := (ch_heap c)(a \<mapsto> l') \<rparr>)"
      by (rule good_write [OF assms l(1) new(1) _ new(2)]) (simp add: new(3))
    from tokens [OF this] l show ?thesis by (simp add: advance_def)
  next
    case False
    have "good_step c (c\<lparr> ch_heap := ch_heap c \<rparr>)" using assms by (simp add: good_refl)
    from tokens [OF this] False show ?thesis
      by (auto simp: advance_def split: option.splits sum.splits)
  qed
qed

lemma good_release:
  assumes "credit_client_ok c" "i < length (ch_leases c)"
  shows "good_step c (c\<lparr> ch_heap := credit_lease_drop (ch_heap c) (ch_leases c ! i),
      ch_leases := remove_at i (ch_leases c) \<rparr>)"
    "fst (credit_lease_release (ch_heap c) (ch_leases c ! i)) =
       credit_lease_drop (ch_heap c) (ch_leases c ! i)"
proof -
  let ?held = "ch_leases c ! i"
  let ?c = "\<lambda>h. c\<lparr> ch_heap := h, ch_leases := remove_at i (ch_leases c) \<rparr>"
  have active: "bcl_active ?held" using assms by (auto simp: credit_client_ok_def list_all_length)
  have rest: "list_all bcl_active (remove_at i (ch_leases c))"
    "list_all (\<lambda>held. bcl_ledger held < ch_next c) (remove_at i (ch_leases c))"
    using assms(1) set_remove_at [of i "ch_leases c"] by (auto simp: credit_client_ok_def list_all_iff)
  have other: "mset (held_claims c a) = mset (held_claims (?c h) a)" if "a \<noteq> bcl_ledger ?held" for a h
    using held_claims_remove [OF assms(2), of a h] that by simp
  show "good_step c (?c (credit_lease_drop (ch_heap c) ?held))"
  proof (cases "ch_heap c (bcl_ledger ?held)")
    case None
    then have "credit_lease_drop (ch_heap c) ?held = ch_heap c" by (simp add: credit_lease_drop_def)
    moreover have "credit_client_ok (?c (ch_heap c))"
      unfolding credit_client_ok_def
    proof (intro conjI allI impI)
      fix a l assume a: "ch_heap (?c (ch_heap c)) a = Some l"
      then have "ch_heap c a = Some l" by simp
      with assms(1) show "a < ch_next (?c (ch_heap c))" "credit_ok l"
        by (auto simp: credit_client_ok_def)
      show "mset (map fst (bl_active l)) = mset (held_claims (?c (ch_heap c)) a)"
      proof -
        have "a \<noteq> bcl_ledger ?held" using None \<open>ch_heap c a = Some l\<close> by auto
        from other [OF this, of "ch_heap c"] assms(1) \<open>ch_heap c a = Some l\<close> show ?thesis
          by (auto simp: credit_client_ok_def)
      qed
    qed (use rest in simp_all)
    ultimately show ?thesis by (auto simp: good_step_def advances_def)
  next
    case (Some l)
    obtain claim where claim: "bt_get (bl_active l) (bcl_claim_id ?held) = Some claim" "credit_ok l"
      by (rule lease_live [OF assms Some])
    obtain l' where l': "credit_release l (bcl_claim_id ?held) =
        Inr (l', attribution_from_claim (bcl_claim_id ?held) claim)" "credit_ok l'" "same_frame l l'"
      "mset (map fst (bl_active l)) = add_mset (bcl_claim_id ?held) (mset (map fst (bl_active l')))"
      by (rule credit_release_ok [OF claim(2,1)])
    let ?h = "(ch_heap c)(bcl_ledger ?held \<mapsto> l')"
    have drop: "credit_lease_drop (ch_heap c) ?held = ?h"
      using active Some l'(1) by (simp add: credit_lease_drop_def)
    have "credit_client_ok (?c ?h)"
      unfolding credit_client_ok_def
    proof (intro conjI allI impI)
      fix a k assume a: "ch_heap (?c ?h) a = Some k"
      show "a < ch_next (?c ?h)" "credit_ok k"
        using a assms(1) l'(2) Some by (auto simp: credit_client_ok_def split: if_splits)
      show "mset (map fst (bl_active k)) = mset (held_claims (?c ?h) a)"
      proof (cases "a = bcl_ledger ?held")
        case True
        with a have "k = l'" by simp
        moreover have "mset (map fst (bl_active l)) = mset (held_claims c a)"
          using assms(1) Some True by (auto simp: credit_client_ok_def)
        ultimately show ?thesis
          using l'(4) held_claims_remove [OF assms(2), of a ?h] True by simp
      next
        case False
        with a assms(1) other [OF False, of ?h] show ?thesis by (auto simp: credit_client_ok_def)
      qed
    qed (use rest in simp_all)
    moreover have "forward l l'" using l'(3) by (simp add: same_frame_def forward_def)
    ultimately show ?thesis
      using advances_write [OF Some, of l' "?c ?h"] by (simp add: good_step_def drop)
  qed
  show "fst (credit_lease_release (ch_heap c) ?held) = credit_lease_drop (ch_heap c) ?held"
    using active
    by (auto simp: credit_lease_release_def credit_lease_drop_def split: option.splits sum.splits)
qed

lemma credit_step_good:
  assumes "credit_client_ok c" "typed_call call"
  shows "good_step c (credit_step c call)"
proof (cases call)
  case (NewBroker contract)
  show ?thesis
  proof (cases "credit_from_contract contract")
    case (Inr l)
    have "credit_ok l" "bl_active l = []"
      using credit_from_contract_ok [OF Inr] assms(2) NewBroker by (auto simp: typed_call_def)
    moreover have "held_claims c (ch_next c) = []"
      using assms(1) by (auto simp: credit_client_ok_def held_claims_def list_all_iff filter_empty_conv)
    ultimately show ?thesis
      using assms(1) NewBroker Inr
      by (auto simp: good_step_def credit_client_ok_def advances_def held_claims_def list_all_iff
          less_Suc_eq split: if_splits)
  qed (use NewBroker assms(1) in \<open>simp add: good_refl\<close>)
next
  case (DropBroker a)
  then show ?thesis
    using assms(1) by (auto simp: good_step_def credit_client_ok_def advances_def held_claims_def)
next
  case (Acknowledge a position)
  then show ?thesis
    using assms(1)
    by (auto simp: good_step_def credit_client_ok_def advances_def held_claims_def split: sum.splits)
next
  case (Advance a i)
  then show ?thesis using assms(1) by (simp add: good_advance good_refl)
next
  case (ReleaseCredit i)
  then show ?thesis using assms(1) good_release [OF assms(1)] by (simp add: good_refl)
next
  case (DropCredit i)
  then show ?thesis using assms(1) good_release [OF assms(1)] by (simp add: good_refl)
qed (use assms(1) in \<open>simp_all add: good_claim good_lease good_refl\<close>)

section \<open>Guarantees for every client\<close>

lemma credit_run_good:
  "credit_client_ok c \<Longrightarrow> list_all typed_call calls \<Longrightarrow>
     good_step c (run_events credit_step c calls)"
proof (induction calls arbitrary: c)
  case (Cons call calls)
  then have step: "good_step c (credit_step c call)" by (simp add: credit_step_good)
  with Cons have "good_step (credit_step c call) (run_events credit_step (credit_step c call) calls)"
    by (simp add: good_step_def)
  with step show ?case by (auto simp: good_step_def intro: advances_trans)
qed (simp add: good_refl)

lemma no_client_ok: "credit_client_ok no_client"
  by (simp add: credit_client_ok_def no_client_def)

lemma reachable_credit:
  assumes "list_all typed_call calls" "c = run_events credit_step no_client calls" "ch_heap c a = Some l"
  shows "credit_client_ok c" "credit_ok l" "mset (map fst (bl_active l)) = mset (held_claims c a)"
    "a < ch_next c"
proof -
  show "credit_client_ok c"
    using credit_run_good [OF no_client_ok assms(1)] assms(2) by (simp add: good_step_def)
  with assms(3) show "credit_ok l" "mset (map fst (bl_active l)) = mset (held_claims c a)"
    "a < ch_next c" by (auto simp: credit_client_ok_def)
qed

text \<open>
  C21: Byte-credit ownership is exact: whatever clients do with any number of brokers, the live
  claims of a ledger are exactly the claims of the leases held on it, the ledger's own
  verification accepts it, and when no lease is left no byte is in use.
\<close>

theorem credit_ownership_exact:
  assumes "list_all typed_call calls" "c = run_events credit_step no_client calls"
    and "ch_heap c a = Some l"
  shows "mset (map fst (bl_active l)) = mset (held_claims c a) \<and> credit_verify l = Inr () \<and>
    (held_claims c a = [] \<longrightarrow> bl_in_use l = 0)"
proof -
  note reach = reachable_credit [OF assms]
  have "bl_in_use l = 0" if "held_claims c a = []"
  proof -
    have "bl_active l = []" using reach(3) that by simp
    then have "unat (bl_in_use l) = 0"
      using credit_okD(2) [OF reach(2)] by (simp add: claims_ok_def live_sum_def bt.total_def)
    then show ?thesis by (simp add: unat_eq_zero)
  qed
  with reach(3) credit_ok_verifies [OF reach(2)] show ?thesis by blast
qed

lemma sum_filter_weight:
  "sum_list (map (\<lambda>c. unat (cc_bytes c)) (filter P cs)) = sum_list (map (weight P) cs)"
  "length (filter P cs) = sum_list (map (items P) cs)"
  by (induction cs) (simp_all add: weight_def items_def)

text \<open>
  Byte credits are never oversubscribed: the bytes and components claimed on a ledger stay
  within the contract's global limits, within the limits of each owner, also after transfers,
  and within the policy of each stage, and no component is consumed beyond its claim.
\<close>

theorem credit_limits_respected:
  assumes "list_all typed_call calls" "c = run_events credit_step no_client calls"
    and "ch_heap c a = Some l" and "stage_policy l stage = Inr policy"
  shows "sum_list (map (\<lambda>c. unat (cc_bytes c)) (components l)) \<le> unat (bc_capacity_bytes (bl_contract l)) \<and>
    length (components l) \<le> unat (bc_max_claim_items (bl_contract l)) \<and>
    sum_list (map (\<lambda>c. unat (cc_bytes c)) (filter (\<lambda>c. cc_owner c = owner) (components l)))
      \<le> unat (bc_max_owner_bytes (bl_contract l)) \<and>
    length (filter (\<lambda>c. cc_owner c = owner) (components l))
      \<le> unat (bc_max_owner_claim_items (bl_contract l)) \<and>
    sum_list (map (\<lambda>c. unat (cc_bytes c)) (filter (\<lambda>c. cc_stage c = stage) (components l)))
      \<le> unat (sp_max_bytes policy) \<and>
    length (filter (\<lambda>c. cc_stage c = stage) (components l)) \<le> unat (sp_max_claim_items policy) \<and>
    list_all (\<lambda>c. cc_consumed c \<le> cc_bytes c) (components l)"
proof -
  note ok = credit_okD [OF reachable_credit(2) [OF assms(1-3)]]
  have all: "sum_list (map (\<lambda>c. unat (cc_bytes c)) (components l)) = live_sum (weight every) l"
    "length (components l) = live_sum (items every) l"
    using sum_filter_weight [of every "components l"] by (simp_all add: live_sum_components)
  have lims: "within_limits l" using ok(3) .
  have "list_all (\<lambda>c. cc_consumed c \<le> cc_bytes c) (components l)"
    using component_consumed [OF ok(2)] by (simp add: list_all_iff)
  then show ?thesis
    using lims assms(4) unfolding all(1) all(2) sum_filter_weight
    unfolding live_sum_components [symmetric] within_limits_def by blast
qed

text \<open>
  Durability never runs ahead and never runs back: at every moment of a ledger's life
  durable \<open>\<le>\<close> validated-and-written \<open>\<le>\<close> received, received does not exceed the bytes consumed by
  the receive stage nor written those consumed by the writer stage, and no later moment has a
  smaller position.
\<close>

theorem credit_position_monotone:
  assumes "list_all typed_call calls" "list_all typed_call later"
    and "c = run_events credit_step no_client calls" "c' = run_events credit_step c later"
    and "ch_heap c a = Some l" "ch_heap c' a = Some l'"
  shows "durable_contiguous (bl_position l') \<le> validated_written_contiguous (bl_position l') \<and>
    validated_written_contiguous (bl_position l') \<le> received (bl_position l') \<and>
    received (bl_position l') \<le> consumed_for_stage l' HttpReceive \<and>
    validated_written_contiguous (bl_position l') \<le> consumed_for_stage l' Writer \<and>
    received (bl_position l) \<le> received (bl_position l') \<and>
    validated_written_contiguous (bl_position l) \<le> validated_written_contiguous (bl_position l') \<and>
    durable_contiguous (bl_position l) \<le> durable_contiguous (bl_position l')"
proof -
  note reach = reachable_credit [OF assms(1,3,5)]
  have good: "good_step c c'" using credit_run_good [OF reach(1) assms(2)] assms(4) by simp
  then have "forward l l'" using assms(5,6) reach(4) by (auto simp: good_step_def advances_def)
  moreover have "validate_next_position l' (bl_position l') = Inr ()"
    using good assms(6) credit_okD(4) by (auto simp: good_step_def credit_client_ok_def)
  ultimately show ?thesis
    by (auto simp: forward_def validate_next_position_def not_less split: if_splits)
qed

text \<open>
  A coupled claim is all or nothing: on success exactly its input and its output component are
  added under one new claim and the bytes in use grow by their sum; on any error no ledger
  changes.
\<close>

theorem credit_coupled_atomic:
  assumes "list_all typed_call calls" "c = run_events credit_step no_client calls"
    and "ch_heap c a = Some l"
  shows "case credit_claim_coupled (ch_heap c) a owner r of
      (heap, Inl e) \<Rightarrow> heap = ch_heap c
    | (heap, Inr held) \<Rightarrow>
        (\<exists>l'. heap = (ch_heap c)(a \<mapsto> l') \<and>
          components l' = components l @
            [\<lparr> cc_owner = owner, cc_stage = cr_input_stage r, cc_bytes = cr_input_bytes r,
               cc_consumed = 0 \<rparr>,
             \<lparr> cc_owner = owner, cc_stage = cr_output_stage r, cc_bytes = cr_output_bytes r,
               cc_consumed = 0 \<rparr>] \<and>
          unat (bl_in_use l') =
            unat (bl_in_use l) + unat (cr_input_bytes r) + unat (cr_output_bytes r))"
proof (cases "claim_coupled l owner r")
  case (Inl e)
  with assms(3) show ?thesis by (simp add: credit_claim_coupled_def)
next
  case (Inr res)
  then obtain l' k where l': "claim_coupled l owner r = Inr (l', k)" by (cases res) auto
  note ok = reachable_credit(2) [OF assms]
  note new = claim_coupled_ok [OF ok l']
  have comps: "components l' = components l @
      [\<lparr> cc_owner = owner, cc_stage = cr_input_stage r, cc_bytes = cr_input_bytes r, cc_consumed = 0 \<rparr>,
       \<lparr> cc_owner = owner, cc_stage = cr_output_stage r, cc_bytes = cr_output_bytes r, cc_consumed = 0 \<rparr>]"
    using new(3) by (simp add: components_def)
  have "unat (bl_in_use k) = sum_list (map (weight every) (components k))" if "credit_ok k" for k
    using credit_okD(2) [OF that] by (simp add: claims_ok_def live_sum_components)
  from this [OF new(1)] this [OF ok] comps
  have "unat (bl_in_use l') =
      unat (bl_in_use l) + unat (cr_input_bytes r) + unat (cr_output_bytes r)"
    by (simp add: weight_def)
  with comps have "\<exists>l'a. (ch_heap c)(a \<mapsto> l') = (ch_heap c)(a \<mapsto> l'a) \<and> components l'a = components l @
      [\<lparr> cc_owner = owner, cc_stage = cr_input_stage r, cc_bytes = cr_input_bytes r, cc_consumed = 0 \<rparr>,
       \<lparr> cc_owner = owner, cc_stage = cr_output_stage r, cc_bytes = cr_output_bytes r, cc_consumed = 0 \<rparr>] \<and>
      unat (bl_in_use l'a) = unat (bl_in_use l) + unat (cr_input_bytes r) + unat (cr_output_bytes r)"
    by blast
  with l' assms(3) show ?thesis by (simp add: credit_claim_coupled_def)
qed

section \<open>Witnesses\<close>

definition sample_credit_calls :: "credit_call list" where
  "sample_credit_calls =
     [NewBroker (byte_credit_contract_new 100 4),
      Claim 0 1 HttpReceive 40, Consume 0 Single 10,
      ClaimCoupled 0 2 \<lparr> cr_input_stage = DecryptOrPackInput, cr_input_bytes = 20,
                         cr_output_stage = DecryptOrPackOutput, cr_output_bytes = 30 \<rparr>,
      Acknowledge 0 \<lparr> received = 10, validated_written_contiguous = 0, durable_contiguous = 0 \<rparr>,
      Advance 0 0]"

definition sample_credit :: credit_client where
  "sample_credit = run_events credit_step no_client sample_credit_calls"

lemma sample_credit_typed: "list_all typed_call sample_credit_calls"
  by (simp add: sample_credit_calls_def typed_call_def byte_credit_contract_new_def
      byte_credit_stage_policies_v1_def)

lemma sample_credit_state:
  "ch_heap sample_credit 0 \<noteq> None \<and> bl_in_use (the (ch_heap sample_credit 0)) = 90 \<and>
   held_claims sample_credit 0 = [1, 2]"
  by code_simp

lemma sample_credit_heap: "ch_heap sample_credit 0 = Some (the (ch_heap sample_credit 0))"
  using sample_credit_state by simp

theorem credit_ownership_exact_witness:
  "mset (map fst (bl_active (the (ch_heap sample_credit 0)))) = {#1, 2#} \<and>
   credit_verify (the (ch_heap sample_credit 0)) = Inr ()"
  using credit_ownership_exact [OF sample_credit_typed sample_credit_def sample_credit_heap]
    sample_credit_state by simp

lemma sample_credit_policy:
  "stage_policy (the (ch_heap sample_credit 0)) DecryptOrPackInput
     = Inr (byte_credit_stage_policies_v1 4 100 ! 2)"
  by code_simp

theorem credit_limits_respected_witness:
  "sum_list (map (\<lambda>c. unat (cc_bytes c)) (components (the (ch_heap sample_credit 0))))
     \<le> unat (bc_capacity_bytes (bl_contract (the (ch_heap sample_credit 0))))"
  using credit_limits_respected
    [OF sample_credit_typed sample_credit_def sample_credit_heap sample_credit_policy] by blast

definition sample_credit_later :: "credit_call list" where
  "sample_credit_later = [Consume 0 Single 5,
     Acknowledge 0 \<lparr> received = 15, validated_written_contiguous = 0, durable_contiguous = 0 \<rparr>,
     Advance 0 0]"

definition sample_credit_end :: credit_client where
  "sample_credit_end = run_events credit_step sample_credit sample_credit_later"

lemma sample_credit_later_typed: "list_all typed_call sample_credit_later"
  by (simp add: sample_credit_later_def typed_call_def)

lemma sample_credit_end_state:
  "ch_heap sample_credit_end 0 \<noteq> None \<and> received (bl_position (the (ch_heap sample_credit_end 0))) = 15"
  by code_simp

lemma sample_credit_end_heap: "ch_heap sample_credit_end 0 = Some (the (ch_heap sample_credit_end 0))"
  using sample_credit_end_state by simp

theorem credit_position_monotone_witness:
  "received (bl_position (the (ch_heap sample_credit 0)))
     \<le> received (bl_position (the (ch_heap sample_credit_end 0)))"
  using credit_position_monotone [OF sample_credit_typed sample_credit_later_typed
    sample_credit_def sample_credit_end_def sample_credit_heap sample_credit_end_heap] by blast

theorem credit_coupled_atomic_witness:
  "case credit_claim_coupled (ch_heap sample_credit) 0 3
      \<lparr> cr_input_stage = DecryptOrPackInput, cr_input_bytes = 20,
        cr_output_stage = DecryptOrPackOutput, cr_output_bytes = 30 \<rparr> of
      (heap, Inl e) \<Rightarrow> heap = ch_heap sample_credit
    | (heap, Inr held) \<Rightarrow> True"
  using credit_coupled_atomic [OF sample_credit_typed sample_credit_def sample_credit_heap,
    where owner = 3 and r = "\<lparr> cr_input_stage = DecryptOrPackInput, cr_input_bytes = 20,
        cr_output_stage = DecryptOrPackOutput, cr_output_bytes = 30 \<rparr>"]
  by (auto split: prod.splits sum.splits)

end
