(* ===== verification/Byte_Durability.thy ===== *)
theory Byte_Durability
  imports Credit_Broker Commit_Order
begin

text \<open>
  The byte lifecycle coupled to its credit broker
  (\<^verbatim>\<open>acknowledge_byte_durability_effect\<close> and \<^verbatim>\<open>from_byte_durability_state\<close> of
  \<^verbatim>\<open>fforager-core/src/lifecycle.rs\<close>). A byte effect is acknowledged only together with the
  position of the authoritative ledger, so that the state of the lifecycle is always
  substantiated by the ledger.

  Brokers are addresses in the heap of \<^verbatim>\<open>Credit_Broker\<close>. A method receives a live broker; the
  branch for an address without a ledger, which a live handle rules out, changes nothing.
\<close>

datatype ByteDurabilityEffectError =
    WrongMachine
  | UnsupportedEffect EffectIntent
  | PositionDoesNotMatchEffect EffectIntent
  | EffectTransition TransitionError
  | EffectCredit CreditError

datatype ByteDurabilityRestorationError =
    PositionDoesNotMatchState State ByteCreditPosition
  | RestorationTransition TransitionError
  | RestorationCredit CreditError

definition byte_position_matches_effect ::
    "ByteCreditPosition \<Rightarrow> ByteCreditPosition \<Rightarrow> EffectIntent \<Rightarrow> bool" where
  "byte_position_matches_effect current after effect =
     (if effect = AcceptBoundedBytes then
        received after > received current \<and>
        validated_written_contiguous after = validated_written_contiguous current \<and>
        durable_contiguous after = durable_contiguous current
      else if effect = ValidateAndWrite then
        received after = received current \<and>
        validated_written_contiguous after > validated_written_contiguous current \<and>
        durable_contiguous after = durable_contiguous current
      else if effect = SynchronizeData then
        received after = received current \<and>
        validated_written_contiguous after = validated_written_contiguous current \<and>
        durable_contiguous after > durable_contiguous current \<and>
        durable_contiguous after = validated_written_contiguous after \<and>
        validated_written_contiguous after = received after
      else False)"

definition byte_position_matches_state :: "ByteCreditPosition \<Rightarrow> State \<Rightarrow> bool" where
  "byte_position_matches_state pos state =
     (if state = BytesReceived then
        received pos > validated_written_contiguous pos \<and>
        validated_written_contiguous pos \<ge> durable_contiguous pos
      else if state = BytesWritten then
        received pos \<ge> validated_written_contiguous pos \<and>
        validated_written_contiguous pos > durable_contiguous pos
      else if state = BytesDurable then
        durable_contiguous pos > 0 \<and>
        durable_contiguous pos = validated_written_contiguous pos \<and>
        validated_written_contiguous pos = received pos
      else False)"

definition from_byte_durability_state ::
    "credit_heap \<Rightarrow> State \<Rightarrow> nat \<Rightarrow> MachineInstanceId \<Rightarrow> usize \<Rightarrow> u64
       \<Rightarrow> ByteDurabilityRestorationError + StateMachine" where
  "from_byte_durability_state heap state broker instance_id trace_limit generation =
     (let kind = ByteCreditDurability in
      if \<not> belongs kind state
      then Inl (RestorationTransition (StateDoesNotBelongToMachine kind state))
      else if \<not> is_durable_state kind state
      then Inl (RestorationTransition (StateIsNotDurable kind state))
      else if generation = 0 then Inl (RestorationTransition InvalidRestorationGeneration)
      else case heap broker of
          None \<Rightarrow> Inl (RestorationCredit CreditBrokerDropped)
        | Some l \<Rightarrow>
            rbind (map_err RestorationCredit (credit_verify l)) (\<lambda>_.
              if \<not> byte_position_matches_state (bl_position l) state
              then Inl (PositionDoesNotMatchState state (bl_position l))
              else Inr ((restored kind state instance_id trace_limit generation)
                          \<lparr> byte_durability_broker := Some broker \<rparr>)))"

definition verify_byte_durability_broker ::
    "StateMachine \<Rightarrow> credit_heap \<Rightarrow> nat \<Rightarrow> credit_heap \<times> (CreditError + unit)" where
  "verify_byte_durability_broker m heap broker =
     (case byte_durability_broker m of
        None \<Rightarrow> (heap, Inr ())
      | Some authoritative \<Rightarrow>
          (case heap authoritative of
             None \<Rightarrow> (heap, Inl CreditBrokerDropped)
           | Some l \<Rightarrow>
               (case acknowledge_durability_effects heap authoritative (bl_position l) of
                  Inl e \<Rightarrow> (heap, Inl e)
                | Inr identity_receipt \<Rightarrow> advance heap broker identity_receipt)))"

type_synonym byte_result =
  "(StateMachine \<times> credit_heap) \<times> (ByteDurabilityEffectError + Transition)"

text \<open>The steps after the effect was found to be a byte effect.\<close>

definition couple_byte_effect ::
    "StateMachine \<Rightarrow> credit_heap \<Rightarrow> nat \<Rightarrow> Event \<Rightarrow> EffectIntent \<Rightarrow> ByteCreditPosition \<Rightarrow> byte_result" where
  "couple_byte_effect m heap broker event effect after =
     (case verify_byte_durability_broker m heap broker of
        (heap1, Inl e) \<Rightarrow> ((m, heap1), Inl (EffectCredit e))
      | (heap1, Inr _) \<Rightarrow>
        (case heap1 broker of
           None \<Rightarrow> ((m, heap1), Inl (EffectCredit CreditBrokerDropped))
         | Some l \<Rightarrow>
           if \<not> byte_position_matches_effect (bl_position l) after effect
           then ((m, heap1), Inl (PositionDoesNotMatchEffect effect))
           else (case acknowledge_durability_effects heap1 broker after of
               Inl e \<Rightarrow> ((m, heap1), Inl (EffectCredit e))
             | Inr acknowledgement \<Rightarrow>
               (case apply_event (m\<lparr> byte_durability_acknowledgement_authorized := True \<rparr>) event of
                  (m1, Inl e) \<Rightarrow> ((m1, heap1), Inl (EffectTransition e))
                | (m1, Inr _) \<Rightarrow>
                  (case advance heap1 broker acknowledgement of
                     (heap2, Inl e) \<Rightarrow> ((m1, heap2), Inl (EffectCredit e))
                   | (heap2, Inr _) \<Rightarrow>
                     (let m2 = (if byte_durability_broker m1 = None
                                then m1\<lparr> byte_durability_broker := Some broker \<rparr> else m1) in
                      ((m2, heap2),
                       if sm_trace m2 = [] then Inl (EffectTransition (ReplayMismatch 0))
                       else Inr (last (sm_trace m2)))))))))"

definition acknowledge_byte_durability_effect ::
    "StateMachine \<Rightarrow> credit_heap \<Rightarrow> nat \<Rightarrow> Event \<Rightarrow> ByteCreditPosition \<Rightarrow> byte_result" where
  "acknowledge_byte_durability_effect m heap broker event after =
     (if sm_kind m \<noteq> ByteCreditDurability then ((m, heap), Inl WrongMachine)
      else case event of
          EffectAcknowledged _ effect _ \<Rightarrow>
            if \<not> byte_effect effect then ((m, heap), Inl (UnsupportedEffect effect))
            else couple_byte_effect m heap broker event effect after
        | _ \<Rightarrow> ((m, heap), Inl (EffectTransition (machine_invalid m event))))"

section \<open>Positions of the ledger\<close>

text \<open>No credit operation but the advance of an acknowledgement moves a position.\<close>

lemma insert_claim_position: "insert_claim l comps b = Inr (l', k) \<Longrightarrow> bl_position l' = bl_position l"
  by (auto simp: insert_claim_def result_simps)

lemma claim_position:
  "claim_single l owner stage b = Inr (l', k) \<Longrightarrow> bl_position l' = bl_position l"
  "claim_coupled l owner r = Inr (l', k) \<Longrightarrow> bl_position l' = bl_position l"
  unfolding claim_single_def claim_coupled_def rbind_eq_Inr_iff if_Inl_eq_Inr_iff
  by (blast intro: insert_claim_position)+

lemma set_component_position [simp]: "bl_position (set_component l k part c) = bl_position l"
  by (simp add: set_component_def split: option.split)

lemma lease_position:
  "transfer_component l k part to = Inr l' \<Longrightarrow> bl_position l' = bl_position l"
  "consume_component l k part b = Inr l' \<Longrightarrow> bl_position l' = bl_position l"
  "credit_release l k = Inr (l', at) \<Longrightarrow> bl_position l' = bl_position l"
  by (auto simp: transfer_component_def consume_component_def credit_release_def missing_component_def
      missing_claim_def result_simps split: option.splits if_splits)

definition positions_kept :: "credit_heap \<Rightarrow> credit_heap \<Rightarrow> bool" where
  "positions_kept heap heap' =
     (\<forall>a l. heap a = Some l \<longrightarrow> (\<exists>l'. heap' a = Some l' \<and> bl_position l' = bl_position l))"

lemma positions_kept_refl [simp]: "positions_kept heap heap"
  by (simp add: positions_kept_def)

lemma positions_kept_write:
  "heap a = Some l \<Longrightarrow> bl_position l' = bl_position l \<Longrightarrow> positions_kept heap (heap(a \<mapsto> l'))"
  by (auto simp: positions_kept_def)

text \<open>What code outside the crate can ask of the broker the machine is coupled to.\<close>

definition outside_call :: "StateMachine \<Rightarrow> credit_call \<Rightarrow> bool" where
  "outside_call m call =
     (case call of credit_call.Acknowledge _ _ \<Rightarrow> False | Advance _ _ \<Rightarrow> False
      | DropBroker a \<Rightarrow> byte_durability_broker m \<noteq> Some a | _ \<Rightarrow> True)"

lemma release_drop_kept:
  "positions_kept heap (credit_lease_drop heap held)"
  "positions_kept heap (fst (credit_lease_release heap held))"
  by (auto simp: credit_lease_drop_def credit_lease_release_def positions_kept_def dest: lease_position
      split: option.splits sum.splits)

lemma credit_step_positions:
  assumes "outside_call m call" "credit_client_ok c" "ch_heap c a = Some l"
    and "byte_durability_broker m = Some a"
  shows "\<exists>l'. ch_heap (credit_step c call) a = Some l' \<and> bl_position l' = bl_position l"
proof (cases call)
  case (NewBroker contract)
  then show ?thesis using assms by (auto simp: credit_client_ok_def split: sum.splits)
next
  case (DropBroker b)
  then show ?thesis using assms by (auto simp: outside_call_def)
next
  case (Claim b owner stage n)
  then show ?thesis
    using assms(3) by (auto simp: on_claim_def credit_claim_def dest: claim_position
        split: option.splits sum.splits prod.splits)
next
  case (ClaimCoupled b owner r)
  then show ?thesis
    using assms(3) by (auto simp: on_claim_def credit_claim_coupled_def dest: claim_position
        split: option.splits sum.splits prod.splits)
next
  case (Transfer i part to)
  then show ?thesis
    using assms(3) by (auto simp: lease_transfer_def dest: lease_position split: option.splits sum.splits)
next
  case (Consume i part n)
  then show ?thesis
    using assms(3) by (auto simp: lease_consume_def dest: lease_position split: option.splits sum.splits)
next
  case (ReleaseCredit i)
  then show ?thesis
    using assms(3) release_drop_kept(2) [of "ch_heap c"] by (auto simp: positions_kept_def)
next
  case (DropCredit i)
  then show ?thesis
    using assms(3) release_drop_kept(1) [of "ch_heap c"] by (auto simp: positions_kept_def)
qed (use assms(1) in \<open>simp_all add: outside_call_def\<close>)

section \<open>How a byte machine settles\<close>

definition byte_settles :: "EffectIntent \<Rightarrow> State \<Rightarrow> bool" where
  "byte_settles eff s =
     ((eff, s) \<in> {(AcceptBoundedBytes, BytesReceived), (ValidateAndWrite, BytesWritten),
       (SynchronizeData, BytesDurable)})"

lemma bytes_arms_plain:
  "arms_all (\<lambda>s p n es. case p of On _ \<Rightarrow> es = [] \<longrightarrow> \<not> is_durable_state ByteCreditDurability n | _ \<Rightarrow> True)
     bytes_arms"
  by (simp add: table_defs is_durable_state_def)

text \<open>The effect of a deferred target, and the state in which its acknowledgement settles.\<close>

definition byte_target_settles :: "State \<Rightarrow> EffectIntent list \<Rightarrow> State \<Rightarrow> bool" where
  "byte_target_settles target effects n =
     (\<not> is_durable_state ByteCreditDurability n \<or> (\<exists>eff. effects = [eff] \<and> byte_settles eff n))"

lemma bytes_acknowledged:
  "is_acknowledged e \<Longrightarrow> bytes s e = (if s = BytesWriting then Some (BytesWritten, [])
     else if s = BytesSynchronizing then Some (BytesDurable, []) else None)"
  using outcome_kinds
  by (auto simp: bytes_def table_defs is_acknowledged_def split: Event.splits)

lemma bytes_requests:
  "list_all (\<lambda>r. byte_target_settles (fst r) (snd r)
       (if fst r = BytesWriting then BytesWritten
        else if fst r = BytesSynchronizing then BytesDurable else fst r)) (arms_requests bytes_arms)"
  by (simp add: arms_requests_def table_defs byte_target_settles_def is_durable_state_def byte_settles_def)

lemma step_settles:
  assumes step: "lifecycle_step m e m'" and ok: "machine_ok m" "request_known m"
    and kind: "sm_kind m = ByteCreditDurability"
    and rest: "deferred_effects m' = None" "is_durable_state ByteCreditDurability (sm_state m')"
  shows "\<exists>eff. acknowledged_effect e = [eff] \<and> byte_settles eff (sm_state m')"
  using step
proof cases
  case (table n es)
  have wrap: "es = []" "sm_state m' = n"
    using table(1) rest(1) kind by (auto simp: enter_state uses_generic_effect_wrapper_def split: if_splits)
  have "\<not> is_outcome e"
    using resting_ignores_acknowledgement [OF ok(1) _ table(2,3)] table kind by (auto simp: is_outcome_def)
  moreover have "bytes (sm_state m) e = Some (n, es)" using table kind by simp
  then obtain q where "event_matches q e"
    "case q of On _ \<Rightarrow> es = [] \<longrightarrow> \<not> is_durable_state ByteCreditDurability n | _ \<Rightarrow> True"
    using arms_allD [OF bytes_arms_plain] by (fastforce simp: bytes_def)
  ultimately show ?thesis using wrap rest(2) by (cases q) (auto simp: is_outcome_def)
next
  case (partial i eff g s idx)
  then show ?thesis
    using ok kind pending_position_Some [OF partial(4)]
    by (simp add: machine_ok_def deferral_ok_def uses_generic_effect_wrapper_def)
next
  case (settled i eff g s idx n es)
  then show ?thesis
    using ok kind pending_position_Some [OF settled(4)]
    by (simp add: machine_ok_def deferral_ok_def uses_generic_effect_wrapper_def)
next
  case (deferred_done d i eff g idx n es)
  have wrap: "es = []" "sm_state m' = n"
    using deferred_done(1) rest(1) kind
    by (auto simp: enter_state uses_generic_effect_wrapper_def split: if_splits)
  have ack: "is_acknowledged e" "acknowledged_effect e = [eff]"
    using deferred_done(3) by (cases e; simp add: event_outcome_def is_acknowledged_def acknowledged_effect_def)+
  have "n = (if de_target d = BytesWriting then BytesWritten
      else if de_target d = BytesSynchronizing then BytesDurable else de_target d)"
    using deferred_done(7) bytes_acknowledged [OF ack(1), of "de_target d"] kind
    by (simp add: deferred_target_def split: if_splits)
  moreover have "(de_target d, de_effects d) \<in> set (arms_requests bytes_arms)"
    using ok(2) deferred_done(2) kind by (simp add: request_known_def)
  ultimately have "byte_target_settles (de_target d) (de_effects d) n"
    using bytes_requests by (auto simp: list_all_iff)
  moreover have "eff \<in> set (de_effects d)"
    using ok(1) deferred_done(2) pending_position_mem [OF deferred_done(4)]
    by (force simp: machine_ok_def deferral_ok_def)
  ultimately show ?thesis using wrap rest(2) ack(2) by (auto simp: byte_target_settles_def)
next
  case (restart d)
  then show ?thesis
    using rest(1) ok(1) by (simp add: enter_state machine_ok_def deferral_ok_def)
qed (use rest in simp_all)

lemma byte_settles_effect: "byte_settles eff s \<Longrightarrow> byte_effect eff"
  by (auto simp: byte_settles_def byte_effect_def)

text \<open>Ordinary events never settle a byte machine in a durable state.\<close>

lemma ordinary_event_not_durable:
  assumes "machine_ok m" "request_known m" "sm_kind m = ByteCreditDurability"
    and "apply_event m e = (m', Inr t)" "deferred_effects m' = None"
  shows "\<not> is_durable_state ByteCreditDurability (sm_state m')"
proof
  assume "is_durable_state ByteCreditDurability (sm_state m')"
  from step_settles [OF apply_event_accepted(1) [OF assms(1,4)] assms(1-3,5) this]
  obtain eff where "acknowledged_effect e = [eff]" "byte_effect eff"
    using byte_settles_effect by blast
  then have "byte_acknowledgement m e = Some eff"
    using assms(3) by (cases e) (simp_all add: acknowledged_effect_def byte_acknowledgement_def)
  moreover have "\<not> byte_durability_acknowledgement_authorized m" using assms(1) by (simp add: machine_ok_def)
  ultimately show False using assms(4) by (simp add: apply_event_def)
qed

section \<open>The coupled step\<close>

lemma identity_write: "heap a = Some l \<Longrightarrow> heap(a \<mapsto> l\<lparr> bl_position := bl_position l \<rparr>) = heap"
  by auto

lemma verify_broker:
  "fst (verify_byte_durability_broker m heap b) = heap"
  "verify_byte_durability_broker m heap b = (heap', Inr u) \<Longrightarrow>
     byte_durability_broker m = None \<or> byte_durability_broker m = Some b"
  by (auto simp: verify_byte_durability_broker_def acknowledge_durability_effects_def advance_def
      advance_acknowledged_def rbind_def identity_write split: option.splits sum.splits if_splits)

lemma advance_after_acknowledge:
  assumes "acknowledge_durability_effects heap b after = Inr ack"
  obtains l where "heap b = Some l" "validate_next_position l after = Inr ()"
    "advance heap b ack = (heap(b \<mapsto> l\<lparr> bl_position := after \<rparr>), Inr ())"
  using assms
  by (auto simp: acknowledge_durability_effects_def advance_def advance_acknowledged_def result_simps
      split: option.splits)

lemma authorized_apply:
  assumes "machine_ok m"
  shows "apply_event (m\<lparr> byte_durability_acknowledgement_authorized := True \<rparr>) e = apply_checked m e"
proof -
  have "m\<lparr> byte_durability_acknowledgement_authorized := False \<rparr> = m"
    using assms by (cases m) (simp add: machine_ok_def)
  then show ?thesis by (simp add: apply_event_def split: option.split)
qed

definition coupled_step ::
    "StateMachine \<Rightarrow> credit_heap \<Rightarrow> nat \<Rightarrow> Event \<Rightarrow> ByteCreditPosition \<Rightarrow> StateMachine \<Rightarrow> ByteCreditLedger \<Rightarrow> bool" where
  "coupled_step m heap b e after m1 l =
     (sm_kind m = ByteCreditDurability \<and> lifecycle_step m e m1 \<and>
      length (sm_trace m) < sm_trace_limit m \<and> byte_durability_broker m \<in> {None, Some b} \<and>
      heap b = Some l \<and> validate_next_position l after = Inr () \<and>
      (\<exists>eff. acknowledged_effect e = [eff] \<and> byte_position_matches_effect (bl_position l) after eff))"

lemma apply_checked_short: "apply_checked m e = (m', Inr t) \<Longrightarrow> length (sm_trace m) < sm_trace_limit m"
  by (auto simp: apply_checked_def split: if_splits)

lemma couple_verdict:
  assumes ok: "machine_ok m" and kind: "sm_kind m = ByteCreditDurability"
    and e: "acknowledged_effect e = [eff]"
  shows "(\<exists>x. couple_byte_effect m heap b e eff after = ((m, heap), Inl x)) \<or>
    (\<exists>m1 l. coupled_step m heap b e after m1 l \<and> couple_byte_effect m heap b e eff after =
      ((m1\<lparr> byte_durability_broker := Some b \<rparr>, heap(b \<mapsto> l\<lparr> bl_position := after \<rparr>)), Inr (last (sm_trace m1))))"
proof -
  obtain r where v: "verify_byte_durability_broker m heap b = (heap, r)"
    using verify_broker(1) [of m heap b] by (cases "verify_byte_durability_broker m heap b") auto
  show ?thesis
  proof (cases "\<exists>u l ack. r = Inr u \<and> heap b = Some l \<and> byte_position_matches_effect (bl_position l) after eff \<and>
      acknowledge_durability_effects heap b after = Inr ack")
    case False
    then show ?thesis by (auto simp: couple_byte_effect_def v split: sum.splits option.splits)
  next
    case True
    then obtain u l ack where c: "r = Inr u" "heap b = Some l"
      "byte_position_matches_effect (bl_position l) after eff"
      "acknowledge_durability_effects heap b after = Inr ack" by blast
    have adv: "validate_next_position l after = Inr ()"
      "advance heap b ack = (heap(b \<mapsto> l\<lparr> bl_position := after \<rparr>), Inr ())"
      using advance_after_acknowledge [OF c(4)] c(2) by fastforce+
    from apply_checked_verdict [OF ok, of e] consider x where "apply_checked m e = (m, Inl x)"
      | (taken) m1 t where "apply_checked m e = (m1, Inr t)" "lifecycle_step m e m1"
          "sm_trace m1 = sm_trace m @ [t]" by (auto simp: verdict_def)
    then show ?thesis
    proof cases
      case 1
      then show ?thesis by (simp add: couple_byte_effect_def v c authorized_apply [OF ok])
    next
      case taken
      have broker: "byte_durability_broker m1 = None \<or> byte_durability_broker m1 = Some b"
        using lifecycle_step_frame [OF taken(2)] verify_broker(2) v c(1) by metis
      then have same: "(if byte_durability_broker m1 = None
          then m1\<lparr> byte_durability_broker := Some b \<rparr> else m1) = m1\<lparr> byte_durability_broker := Some b \<rparr>"
        by (cases m1) auto
      have "coupled_step m heap b e after m1 l"
        unfolding coupled_step_def
        using kind taken(2) apply_checked_short [OF taken(1)] broker lifecycle_step_frame [OF taken(2)]
          c(2,3) adv(1) e by auto
      moreover have "couple_byte_effect m heap b e eff after
          = ((m1\<lparr> byte_durability_broker := Some b \<rparr>, heap(b \<mapsto> l\<lparr> bl_position := after \<rparr>)), Inr (last (sm_trace m1)))"
        using c adv(2) taken same by (simp add: couple_byte_effect_def v authorized_apply [OF ok] Let_def)
      ultimately show ?thesis by blast
    qed
  qed
qed

lemma acknowledge_byte_verdict:
  assumes ok: "machine_ok m"
  obtains (rejected) x where "acknowledge_byte_durability_effect m heap b e after = ((m, heap), Inl x)"
  | (accepted) m1 l where "coupled_step m heap b e after m1 l"
      "acknowledge_byte_durability_effect m heap b e after =
        ((m1\<lparr> byte_durability_broker := Some b \<rparr>, heap(b \<mapsto> l\<lparr> bl_position := after \<rparr>)),
         Inr (last (sm_trace m1)))"
proof (cases "sm_kind m = ByteCreditDurability \<and> (\<exists>eff. acknowledged_effect e = [eff] \<and> byte_effect eff)")
  case True
  then obtain eff where eff: "sm_kind m = ByteCreditDurability" "acknowledged_effect e = [eff]" "byte_effect eff"
    by blast
  then have "acknowledge_byte_durability_effect m heap b e after = couple_byte_effect m heap b e eff after"
    by (cases e) (simp_all add: acknowledge_byte_durability_effect_def acknowledged_effect_def)
  with couple_verdict [OF ok eff(1,2)] rejected accepted show thesis by metis
next
  case False
  then have "\<exists>x. acknowledge_byte_durability_effect m heap b e after = ((m, heap), Inl x)"
    by (cases e) (auto simp: acknowledge_byte_durability_effect_def acknowledged_effect_def)
  with rejected show thesis by blast
qed

section \<open>A machine and its brokers\<close>

record byte_world =
  bw_machine :: StateMachine
  bw_client :: credit_client

datatype byte_call =
    LifecycleEvent Event
  | AcknowledgeBytes nat Event ByteCreditPosition
  | CreditCall credit_call

fun byte_step :: "byte_world \<Rightarrow> byte_call \<Rightarrow> byte_world" where
  "byte_step w (LifecycleEvent e) = w\<lparr> bw_machine := fst (apply_event (bw_machine w) e) \<rparr>"
| "byte_step w (AcknowledgeBytes b e after) =
     (let r = fst (acknowledge_byte_durability_effect (bw_machine w) (ch_heap (bw_client w)) b e after) in
      w\<lparr> bw_machine := fst r, bw_client := (bw_client w)\<lparr> ch_heap := snd r \<rparr> \<rparr>)"
| "byte_step w (CreditCall call) =
     (if outside_call (bw_machine w) call \<and> typed_call call
      then w\<lparr> bw_client := credit_step (bw_client w) call \<rparr> else w)"

definition byte_start :: "MachineInstanceId \<Rightarrow> usize \<Rightarrow> byte_world" where
  "byte_start i limit =
     \<lparr> bw_machine = machine_new ByteCreditDurability i limit, bw_client = no_client \<rparr>"

definition substantiated :: "StateMachine \<Rightarrow> credit_client \<Rightarrow> bool" where
  "substantiated m c =
     (deferred_effects m = None \<and> is_durable_state ByteCreditDurability (sm_state m) \<longrightarrow>
        (\<exists>a l. byte_durability_broker m = Some a \<and> ch_heap c a = Some l \<and>
           byte_position_matches_state (bl_position l) (sm_state m)))"

definition byte_ok :: "byte_world \<Rightarrow> bool" where
  "byte_ok w =
     (machine_ok (bw_machine w) \<and> request_known (bw_machine w) \<and>
      sm_kind (bw_machine w) = ByteCreditDurability \<and> credit_client_ok (bw_client w) \<and>
      substantiated (bw_machine w) (bw_client w))"

lemma position_settles:
  assumes "byte_settles eff s" "byte_position_matches_effect current after eff"
    and "validate_next_position l after = Inr ()"
    and "validated_written_contiguous current \<le> received current"
      "durable_contiguous current \<le> validated_written_contiguous current"
  shows "byte_position_matches_state after s"
  using assms
  by (auto simp: byte_settles_def byte_position_matches_effect_def byte_position_matches_state_def
      validate_next_position_def not_less word_gt_0 split: if_splits)

lemma machine_ok_broker:
  "machine_ok (m\<lparr> byte_durability_broker := b \<rparr>) = machine_ok m"
  "request_known (m\<lparr> byte_durability_broker := b \<rparr>) = request_known m"
  by (cases "deferred_effects m";
      simp add: machine_ok_def pending_ok_def deferral_ok_def generation_room_def request_known_def)+

lemma byte_ok_event:
  assumes "byte_ok w"
  shows "byte_ok (byte_step w (LifecycleEvent e))"
proof -
  let ?m = "bw_machine w"
  have ok: "machine_ok ?m" "request_known ?m" "sm_kind ?m = ByteCreditDurability"
    using assms by (simp_all add: byte_ok_def)
  show ?thesis
  proof (rule advance_machine_cases [OF ok(1), of e])
    fix x
    assume "advance_machine ?m e = ?m"
    with assms show ?thesis by (simp add: advance_machine_def)
  next
    fix t
    assume acc: "apply_event ?m e = (advance_machine ?m e, Inr t)" "lifecycle_step ?m e (advance_machine ?m e)"
    have "substantiated (advance_machine ?m e) (bw_client w)"
      using ordinary_event_not_durable [OF ok acc(1)] by (auto simp: substantiated_def)
    with acc lifecycle.inv_step [OF ok(1), of e] lifecycle_step_request_known [OF acc(2) ok(2)]
      lifecycle_step_frame [OF acc(2)] assms ok(3)
    show ?thesis by (simp add: byte_ok_def advance_machine_def)
  qed
qed

lemma byte_ok_acknowledge:
  assumes "byte_ok w"
  shows "byte_ok (byte_step w (AcknowledgeBytes b e after))"
proof -
  let ?m = "bw_machine w" and ?c = "bw_client w"
  have ok: "machine_ok ?m" "request_known ?m" "sm_kind ?m = ByteCreditDurability" and c: "credit_client_ok ?c"
    using assms by (simp_all add: byte_ok_def)
  show ?thesis
  proof (rule acknowledge_byte_verdict [OF ok(1), of "ch_heap ?c" b e after])
    fix x
    assume "acknowledge_byte_durability_effect ?m (ch_heap ?c) b e after = ((?m, ch_heap ?c), Inl x)"
    with assms show ?thesis by simp
  next
    fix m1 l
    assume step: "coupled_step ?m (ch_heap ?c) b e after m1 l"
      and res: "acknowledge_byte_durability_effect ?m (ch_heap ?c) b e after =
        ((m1\<lparr> byte_durability_broker := Some b \<rparr>, (ch_heap ?c)(b \<mapsto> l\<lparr> bl_position := after \<rparr>)),
         Inr (last (sm_trace m1)))"
    have s: "lifecycle_step ?m e m1" "length (sm_trace ?m) < sm_trace_limit ?m" "ch_heap ?c b = Some l"
      "validate_next_position l after = Inr ()"
      using step by (auto simp: coupled_step_def)
    let ?l = "l\<lparr> bl_position := after \<rparr>"
    have "credit_ok l" using c s(3) by (auto simp: credit_client_ok_def)
    note cur = credit_okD(4) [OF this]
    have "advance_acknowledged l after = Inr ?l" using s(4) by (simp add: advance_acknowledged_def)
    note new = advance_acknowledged_ok [OF \<open>credit_ok l\<close> this]
    have client: "credit_client_ok (?c\<lparr> ch_heap := (ch_heap ?c)(b \<mapsto> ?l) \<rparr>)"
      by (rule credit_client_ok_write [OF c s(3) new(1)]) simp
    have "substantiated (m1\<lparr> byte_durability_broker := Some b \<rparr>) (?c\<lparr> ch_heap := (ch_heap ?c)(b \<mapsto> ?l) \<rparr>)"
      unfolding substantiated_def
    proof
      assume "deferred_effects (m1\<lparr> byte_durability_broker := Some b \<rparr>) = None \<and>
        is_durable_state ByteCreditDurability (sm_state (m1\<lparr> byte_durability_broker := Some b \<rparr>))"
      then obtain eff where "acknowledged_effect e = [eff]" "byte_settles eff (sm_state m1)"
        using step_settles [OF s(1) ok] by auto
      with step have "byte_position_matches_state after (sm_state m1)"
        using position_settles [OF _ _ s(4)] cur
        by (auto simp: coupled_step_def validate_next_position_def not_less split: if_splits)
      then show "\<exists>a k. byte_durability_broker (m1\<lparr> byte_durability_broker := Some b \<rparr>) = Some a \<and>
          ch_heap (?c\<lparr> ch_heap := (ch_heap ?c)(b \<mapsto> ?l) \<rparr>) a = Some k \<and>
          byte_position_matches_state (bl_position k) (sm_state (m1\<lparr> byte_durability_broker := Some b \<rparr>))"
        by simp
    qed
    with res client lifecycle_step_ok [OF s(1) ok(1) s(2)] lifecycle_step_request_known [OF s(1) ok(2)]
      lifecycle_step_frame [OF s(1)] ok(3)
    show ?thesis by (simp add: byte_ok_def machine_ok_broker)
  qed
qed

lemma byte_ok_credit:
  assumes "byte_ok w"
  shows "byte_ok (byte_step w (CreditCall call))"
proof (cases "outside_call (bw_machine w) call \<and> typed_call call")
  case True
  let ?c = "credit_step (bw_client w) call"
  have "credit_client_ok ?c"
    using credit_step_good [of "bw_client w" call] assms True by (simp add: byte_ok_def good_step_def)
  moreover have "substantiated (bw_machine w) ?c"
    unfolding substantiated_def
  proof
    assume "deferred_effects (bw_machine w) = None \<and> is_durable_state ByteCreditDurability (sm_state (bw_machine w))"
    then obtain a l where a: "byte_durability_broker (bw_machine w) = Some a" "ch_heap (bw_client w) a = Some l"
      "byte_position_matches_state (bl_position l) (sm_state (bw_machine w))"
      using assms by (auto simp: byte_ok_def substantiated_def)
    with credit_step_positions [of "bw_machine w" call "bw_client w" a l] True assms
    show "\<exists>a l. byte_durability_broker (bw_machine w) = Some a \<and> ch_heap ?c a = Some l \<and>
        byte_position_matches_state (bl_position l) (sm_state (bw_machine w))"
      by (auto simp: byte_ok_def)
  qed
  ultimately show ?thesis using assms True by (simp add: byte_ok_def)
next
  case False
  with assms show ?thesis by auto
qed

interpretation byte_durability: invariant_system byte_step byte_ok
proof
  show "byte_ok (byte_step w call)" if "byte_ok w" for w call
    using that byte_ok_event byte_ok_acknowledge byte_ok_credit by (cases call) auto
qed

lemma byte_start_ok:
  assumes "limit + 1 < 2 ^ 64"
  shows "byte_ok (byte_start i limit)"
proof -
  have "request_known (machine_new ByteCreditDurability i limit)"
    "substantiated (machine_new ByteCreditDurability i limit) no_client"
    "sm_kind (machine_new ByteCreditDurability i limit) = ByteCreditDurability"
    by (simp_all add: request_known_def substantiated_def machine_new_def is_durable_state_def)
  with machine_new_ok [OF assms] no_client_ok show ?thesis by (simp add: byte_ok_def byte_start_def)
qed

section \<open>Guarantees\<close>


text \<open>
  C11: Acknowledging a byte effect is atomic across the two components: on an error neither the
  machine nor any ledger changes; on success the machine has accepted exactly that event and the
  position of exactly its broker is the new one.
\<close>

theorem byte_acknowledgement_atomic:
  assumes "limit + 1 < 2 ^ 64" "w = run_events byte_step (byte_start i limit) calls"
    and "m = bw_machine w" "heap = ch_heap (bw_client w)"
  shows "case acknowledge_byte_durability_effect m heap b e after of
      ((m', heap'), Inl x) \<Rightarrow> m' = m \<and> heap' = heap
    | ((m', heap'), Inr t) \<Rightarrow> sm_trace m' = sm_trace m @ [t] \<and> tr_event t = e \<and>
        byte_durability_broker m' = Some b \<and>
        (\<exists>l. heap b = Some l \<and> heap' = heap(b \<mapsto> l\<lparr> bl_position := after \<rparr>))"
proof -
  have "byte_ok w" using byte_durability.inv_run [OF byte_start_ok [OF assms(1)]] assms(2) by simp
  then have ok: "machine_ok m" by (simp add: byte_ok_def assms(3))
  then have def_ok: "deferral_ok m" by (simp add: machine_ok_def)
  show ?thesis
  proof (rule acknowledge_byte_verdict [OF ok, of heap b e after])
    fix m1 l
    assume step: "coupled_step m heap b e after m1 l"
      and res: "acknowledge_byte_durability_effect m heap b e after =
        ((m1\<lparr> byte_durability_broker := Some b \<rparr>, heap(b \<mapsto> l\<lparr> bl_position := after \<rparr>)), Inr (last (sm_trace m1)))"
    have "lifecycle_step m e m1" "heap b = Some l" using step by (simp_all add: coupled_step_def)
    with lifecycle_step_trace [OF _ def_ok] obtain es where
      "sm_trace m1 = sm_trace m @ [trace_record m e (sm_state m1) es]" by blast
    with res \<open>heap b = Some l\<close> show ?thesis by (simp add: trace_record_def)
  qed simp
qed

section \<open>Witnesses\<close>

definition sample_byte_position :: ByteCreditPosition where
  "sample_byte_position = \<lparr> received = 10, validated_written_contiguous = 0, durable_contiguous = 0 \<rparr>"

definition sample_byte_credit :: credit_client where
  "sample_byte_credit = run_events credit_step no_client
     [NewBroker (byte_credit_contract_new 100 4), Claim 0 1 HttpReceive 40, Consume 0 Single 10]"

lemma sample_byte_receipt:
  "acknowledge_durability_effects (ch_heap sample_byte_credit) 0 sample_byte_position
     = Inr \<lparr> da_ledger = 0, da_next = sample_byte_position \<rparr> \<and>
   map_option bl_position (ch_heap sample_byte_credit 0)
     = Some \<lparr> received = 0, validated_written_contiguous = 0, durable_contiguous = 0 \<rparr>"
  by code_simp

definition sample_byte_calls :: "byte_call list" where
  "sample_byte_calls =
     [CreditCall (NewBroker (byte_credit_contract_new 100 4)), CreditCall (Claim 0 1 HttpReceive 40),
      CreditCall (Consume 0 Single 10), LifecycleEvent Receive,
      AcknowledgeBytes 0 (EffectAcknowledged 1 AcceptBoundedBytes 1) sample_byte_position]"

definition sample_byte_world :: byte_world where
  "sample_byte_world = run_events byte_step (byte_start 1 10) sample_byte_calls"

definition sample_receiving :: StateMachine where
  "sample_receiving = fst (apply_event (machine_new ByteCreditDurability 1 10) Receive)"

lemma sample_receiving_state:
  "sample_receiving = \<lparr> sm_instance_id = 1, sm_kind = ByteCreditDurability, sm_state = EffectPending,
     sm_trace_limit = 10,
     sm_trace = [\<lparr> tr_previous = BytesEmpty, tr_event = Receive, tr_next = EffectPending,
       tr_effects = [AcceptBoundedBytes] \<rparr>],
     pending_acknowledgements = [\<lparr> ak_instance_id = 1, ak_effect = AcceptBoundedBytes, ak_generation = 1 \<rparr>],
     pending_unsuccessful_effect_outcome = False,
     deferred_effects = Some \<lparr> de_target = BytesReceived, de_effects = [AcceptBoundedBytes],
       de_has_unsuccessful_outcome = False \<rparr>,
     next_effect_generation = 2, byte_durability_acknowledgement_authorized = False,
     byte_durability_broker = None \<rparr>"
  by (simp add: sample_receiving_def machine_eval bytes_def table_defs)

lemma sample_byte_before:
  "run_events byte_step (byte_start 1 10) (butlast sample_byte_calls)
     = \<lparr> bw_machine = sample_receiving, bw_client = sample_byte_credit \<rparr>"
  by (simp add: sample_byte_calls_def byte_start_def outside_call_def typed_call_def
      byte_credit_contract_new_def byte_credit_stage_policies_v1_def sample_receiving_def
      sample_byte_credit_def del: credit_step.simps)

lemma sample_byte_state: "sm_state (bw_machine sample_byte_world) = BytesReceived"
proof -
  let ?e = "EffectAcknowledged 1 AcceptBoundedBytes 1"
  let ?heap = "ch_heap sample_byte_credit"
  obtain l where l: "?heap 0 = Some l"
    "bl_position l = \<lparr> received = 0, validated_written_contiguous = 0, durable_contiguous = 0 \<rparr>"
    using sample_byte_receipt by auto
  have receipt: "acknowledge_durability_effects ?heap 0 sample_byte_position
      = Inr \<lparr> da_ledger = 0, da_next = sample_byte_position \<rparr>"
    using sample_byte_receipt by blast
  obtain heap' where adv: "advance ?heap 0 \<lparr> da_ledger = 0, da_next = sample_byte_position \<rparr> = (heap', Inr ())"
    by (rule advance_after_acknowledge [OF receipt]) blast
  have taken: "\<exists>t. apply_event (sample_receiving\<lparr> byte_durability_acknowledgement_authorized := True \<rparr>) ?e
      = (sample_receiving\<lparr> sm_state := BytesReceived, pending_acknowledgements := [], deferred_effects := None,
           sm_trace := sm_trace sample_receiving @ [t] \<rparr>, Inr t)"
    by (simp add: sample_receiving_state machine_eval byte_effect_def bytes_def table_defs remove_at_def
        acknowledgement_effects_def)
  have "bw_machine (byte_step \<lparr> bw_machine = sample_receiving, bw_client = sample_byte_credit \<rparr>
      (AcknowledgeBytes 0 ?e sample_byte_position))
    = bw_machine sample_byte_world"
    unfolding sample_byte_world_def sample_byte_before [symmetric]
    by (simp add: sample_byte_calls_def del: byte_step.simps)
  moreover have "sm_state (fst (fst (acknowledge_byte_durability_effect sample_receiving ?heap 0 ?e
      sample_byte_position))) = BytesReceived"
    using taken l receipt adv
    by (auto simp: acknowledge_byte_durability_effect_def couple_byte_effect_def byte_effect_def
        verify_byte_durability_broker_def sample_receiving_state byte_position_matches_effect_def
        sample_byte_position_def)
  ultimately show ?thesis by (simp add: Let_def)
qed


theorem byte_acknowledgement_atomic_witness:
  "case acknowledge_byte_durability_effect (bw_machine sample_byte_world)
       (ch_heap (bw_client sample_byte_world)) 0 Restart sample_byte_position of
     ((m', heap'), Inl x) \<Rightarrow> m' = bw_machine sample_byte_world
   | ((m', heap'), Inr t) \<Rightarrow> tr_event t = Restart"
proof -
  have limit: "(10::nat) + 1 < 2 ^ 64" by simp
  from byte_acknowledgement_atomic [OF limit sample_byte_world_def refl refl, where b = 0 and e = Restart and
      after = sample_byte_position]
  show ?thesis by (auto split: prod.splits sum.splits)
qed

end
