(* ===== verification/Byte_Strings.thy ===== *)
theory Byte_Strings
  imports Prelude
begin

text \<open>
  Bytes and text as the standard library treats them.

  \<^item> \<open>u32::from_be_bytes\<close> and \<open>to_be_bytes\<close>, inverse to each other.
  \<^item> The checked \<open>usize\<close> operations and conversions to \<open>u64\<close> of a 64-bit host.
  \<^item> \<open>slice::split\<close> and \<open>str::split_once\<close>, with the facts that relate the pieces to the input.
  \<^item> \<open>str::from_utf8\<close>: the well-formed byte sequences of the Unicode standard.
  A Rust \<open>String\<close> is its sequence of UTF-8 bytes; a \<open>string\<close> literal stands for its ASCII bytes.
\<close>

section \<open>Conversions\<close>

definition usize_checked_add :: "usize \<Rightarrow> usize \<Rightarrow> usize option" where
  "usize_checked_add a b = (if a + b < 2 ^ 64 then Some (a + b) else None)"

definition usize_checked_mul :: "usize \<Rightarrow> usize \<Rightarrow> usize option" where
  "usize_checked_mul a b = (if a * b < 2 ^ 64 then Some (a * b) else None)"

definition usize_checked_sub :: "usize \<Rightarrow> usize \<Rightarrow> usize option" where
  "usize_checked_sub a b = (if b \<le> a then Some (a - b) else None)"

definition u64_try_from :: "usize \<Rightarrow> u64 option" where
  "u64_try_from n = (if n < 2 ^ 64 then Some (of_nat n) else None)"

definition u64_or_max :: "usize \<Rightarrow> u64" where
  "u64_or_max n = (case u64_try_from n of Some w \<Rightarrow> w | None \<Rightarrow> - 1)"

definition u32_try_from :: "usize \<Rightarrow> u32 option" where
  "u32_try_from n = (if n < 2 ^ 32 then Some (of_nat n) else None)"

lemma u64_try_from_eq_Some_iff: "u64_try_from n = Some w \<longleftrightarrow> unat w = n"
proof
  assume "u64_try_from n = Some w"
  then show "unat w = n" by (auto simp: u64_try_from_def unat_of_nat_u64 split: if_splits)
next
  assume "unat w = n"
  moreover from this have "n < 2 ^ 64" using unat_bound [of w] by auto
  ultimately show "u64_try_from n = Some w"
    by (auto simp: u64_try_from_def)
qed

lemma u64_try_from_eq_None_iff: "u64_try_from n = None \<longleftrightarrow> 2 ^ 64 \<le> n"
  by (auto simp: u64_try_from_def)

lemma unat_u64_or_max: "n < 2 ^ 64 \<Longrightarrow> unat (u64_or_max n) = n"
  by (simp add: u64_or_max_def u64_try_from_def unat_of_nat_u64)

lemma u64_or_max_le_iff: "n < 2 ^ 64 \<Longrightarrow> u64_or_max n \<le> m \<longleftrightarrow> n \<le> unat m"
  by (simp add: word_le_nat_alt unat_u64_or_max)

section \<open>Big-endian words\<close>

definition u32_from_be_bytes :: "u8 list \<Rightarrow> u32" where
  "u32_from_be_bytes bs = of_nat (foldl (\<lambda>n b. 256 * n + unat b) 0 bs)"

definition u32_to_be_bytes :: "u32 \<Rightarrow> u8 list" where
  "u32_to_be_bytes w = map (\<lambda>k. of_nat (unat w div 256 ^ k)) [3, 2, 1, 0]"

lemma length_u32_to_be_bytes [simp]: "length (u32_to_be_bytes w) = 4"
  by (simp add: u32_to_be_bytes_def)

lemma base256_digits:
  assumes "n < 256 ^ 4"
  shows "((n div 256 ^ 3 mod 256 * 256 + n div 256 ^ 2 mod 256) * 256
      + n div 256 mod 256) * 256 + n mod 256 = (n :: nat)"
proof -
  have small: "n div 256 ^ 3 < 256"
    using assms by (simp add: less_mult_imp_div_less)
  have "n div 256 ^ 3 mod 256 * 256 + n div 256 ^ 2 mod 256 = n div 256 ^ 2"
    using small div_mult_mod_eq [of "n div 256 ^ 2" 256]
    by (simp add: div_mult2_eq [symmetric] power3_eq_cube power2_eq_square)
  moreover have "n div 256 ^ 2 * 256 + n div 256 mod 256 = n div 256"
    using div_mult_mod_eq [of "n div 256" 256]
    by (simp add: div_mult2_eq [symmetric] power2_eq_square)
  ultimately show ?thesis by simp
qed

lemma u32_be_bytes_inverse [simp]: "u32_from_be_bytes (u32_to_be_bytes w) = w"
proof -
  define n where "n = unat w"
  have byte: "unat (of_nat k :: u8) = k mod 256" for k
    by (simp add: unat_of_nat take_bit_eq_mod)
  have "n < 256 ^ 4" using unat_bound [of w] by (simp add: n_def)
  then have "foldl (\<lambda>n b. 256 * n + unat b) 0 (u32_to_be_bytes w) = n"
    unfolding u32_to_be_bytes_def n_def [symmetric]
    by (simp only: list.map foldl.simps byte power_0 div_by_1 power_one_right)
      (use base256_digits [of n] in \<open>simp add: mult.commute\<close>)
  then show ?thesis by (simp add: u32_from_be_bytes_def n_def)
qed

section \<open>Splitting\<close>

text \<open>\<open>slice::split\<close>: one piece more than there are separators.\<close>

fun split_on :: "('a \<Rightarrow> bool) \<Rightarrow> 'a list \<Rightarrow> 'a list list" where
  "split_on P [] = [[]]"
| "split_on P (x # xs) =
     (if P x then [] # split_on P xs
      else case split_on P xs of [] \<Rightarrow> [[x]] | piece # rest \<Rightarrow> (x # piece) # rest)"

text \<open>\<open>str::split_once\<close> on a one-byte separator: the text before and after its first occurrence.\<close>

fun split_once :: "'a \<Rightarrow> 'a list \<Rightarrow> ('a list \<times> 'a list) option" where
  "split_once c [] = None"
| "split_once c (x # xs) =
     (if x = c then Some ([], xs)
      else map_option (\<lambda>(before, after). (x # before, after)) (split_once c xs))"

lemma split_on_ne [simp]: "split_on P xs \<noteq> []"
  by (induction xs) (auto split: list.splits)

lemma split_on_append:
  "P x \<Longrightarrow> split_on P (xs @ x # ys) = split_on P xs @ split_on P ys"
  by (induction xs) (auto split: list.splits)

lemma split_on_none: "\<forall>x \<in> set xs. \<not> P x \<Longrightarrow> split_on P xs = [xs]"
  by (induction xs) auto

lemma split_once_eq_None_iff: "split_once c xs = None \<longleftrightarrow> c \<notin> set xs"
  by (induction xs) auto

lemma split_once_eq_Some_iff:
  "split_once c xs = Some (a, b) \<longleftrightarrow> xs = a @ c # b \<and> c \<notin> set a"
proof (induction xs arbitrary: a)
  case (Cons x xs)
  show ?case
  proof (cases "x = c")
    case True
    then show ?thesis by (cases a) auto
  next
    case False
    then show ?thesis by (cases a) (auto simp: Cons)
  qed
qed simp

lemma split_once_append: "c \<notin> set a \<Longrightarrow> split_once c (a @ c # b) = Some (a, b)"
  by (simp add: split_once_eq_Some_iff)

section \<open>UTF-8\<close>

definition utf8_tail :: "u8 \<Rightarrow> bool" where
  "utf8_tail b = (0x80 \<le> b \<and> b \<le> 0xBF)"

text \<open>The length of the well-formed sequence at the front, by the table of the standard.\<close>

fun utf8_width :: "u8 list \<Rightarrow> nat option" where
  "utf8_width [] = None"
| "utf8_width (a # bs) =
     (if a \<le> 0x7F then Some 1
      else case bs of
        [] \<Rightarrow> None
      | b # cs \<Rightarrow>
          if 0xC2 \<le> a \<and> a \<le> 0xDF then (if utf8_tail b then Some 2 else None)
          else (case cs of
            [] \<Rightarrow> None
          | c # ds \<Rightarrow>
              if (a = 0xE0 \<and> 0xA0 \<le> b \<and> b \<le> 0xBF
                  \<or> 0xE1 \<le> a \<and> a \<le> 0xEC \<and> utf8_tail b
                  \<or> a = 0xED \<and> 0x80 \<le> b \<and> b \<le> 0x9F
                  \<or> 0xEE \<le> a \<and> a \<le> 0xEF \<and> utf8_tail b) \<and> utf8_tail c
              then Some 3
              else (case ds of
                [] \<Rightarrow> None
              | d # _ \<Rightarrow>
                  if (a = 0xF0 \<and> 0x90 \<le> b \<and> b \<le> 0xBF
                      \<or> 0xF1 \<le> a \<and> a \<le> 0xF3 \<and> utf8_tail b
                      \<or> a = 0xF4 \<and> 0x80 \<le> b \<and> b \<le> 0x8F)
                     \<and> utf8_tail c \<and> utf8_tail d
                  then Some 4 else None)))"

lemma utf8_width_pos: "utf8_width bs = Some n \<Longrightarrow> 0 < n \<and> bs \<noteq> []"
  by (cases bs) (auto split: if_splits list.splits)

function utf8_valid :: "u8 list \<Rightarrow> bool" where
  "utf8_valid bs =
     (bs = [] \<or> (case utf8_width bs of None \<Rightarrow> False | Some n \<Rightarrow> utf8_valid (drop n bs)))"
  by pat_completeness auto

termination utf8_valid
  by (relation "measure length") (auto dest!: utf8_width_pos)

declare utf8_valid.simps [simp del]

lemma utf8_valid_Nil [simp]: "utf8_valid []"
  by (subst utf8_valid.simps) simp

lemma utf8_valid_Cons [simp]:
  "utf8_valid (a # bs) = (case utf8_width (a # bs) of None \<Rightarrow> False
     | Some n \<Rightarrow> utf8_valid (drop n (a # bs)))"
  by (subst utf8_valid.simps) (simp del: utf8_width.simps)

lemma utf8_valid_ascii: "\<forall>b \<in> set bs. b \<le> 0x7F \<Longrightarrow> utf8_valid bs"
  by (induction bs) auto

section \<open>Byte classes\<close>

definition ascii :: "string \<Rightarrow> u8 list" where
  "ascii s = map of_char s"

definition is_ascii_lowercase :: "u8 \<Rightarrow> bool" where
  "is_ascii_lowercase b = (0x61 \<le> b \<and> b \<le> 0x7A)"

definition is_ascii_digit :: "u8 \<Rightarrow> bool" where
  "is_ascii_digit b = (0x30 \<le> b \<and> b \<le> 0x39)"

definition is_ascii_control :: "u8 \<Rightarrow> bool" where
  "is_ascii_control b = (b \<le> 0x1F \<or> b = 0x7F)"

lemma ascii_simps [simp]: "ascii [] = []" "ascii (c # s) = of_char c # ascii s"
  by (simp_all add: ascii_def)

end
