(* ===== verification/Progress.thy ===== *)
theory Progress
  imports Byte_Strings
begin

text \<open>
  The incremental parser of \<open>ffmpeg -progress\<close> records (\<open>fforager-ffmpeg/src/progress.rs\<close>).

  A call that fails has already changed part of the parser, so every operation returns the
  parser together with its result. \<open>Vec::with_capacity\<close> only reserves memory and has no
  counterpart here.
\<close>

section \<open>Data\<close>

record ProgressSummary =
  ps_record_count :: u64
  ps_total_bytes :: u64
  ps_parser_steps :: u64
  ps_saw_terminal :: bool
  ps_raw_transcript :: "u8 list"

datatype ProgressError =
    TotalBytesExceeded
  | RecordCountExceeded
  | RecordBytesExceeded
  | FieldBytesExceeded
  | ParserWorkExceeded
  | EvidenceBytesExceeded
  | MalformedLine
  | DuplicateField
  | ReorderedAfterTerminal
  | TruncatedRecord
  | MissingTerminal

record ProgressLimits =
  max_records :: u64
  max_total_bytes :: u64
  max_record_bytes :: u64
  max_field_bytes :: u64
  max_parser_steps :: u64

record ProgressParser =
  pp_limits :: ProgressLimits
  pp_summary :: ProgressSummary
  pp_line :: "u8 list"
  pp_record :: "u8 list"
  pp_record_bytes :: u64
  pp_transcript_capacity :: usize

type_synonym progress_result = "ProgressParser \<times> (ProgressError + unit)"

definition progress_then :: "progress_result \<Rightarrow> (ProgressParser \<Rightarrow> progress_result) \<Rightarrow> progress_result" where
  "progress_then r f = (case snd r of Inl e \<Rightarrow> r | Inr _ \<Rightarrow> f (fst r))"

abbreviation newline :: u8 where "newline \<equiv> 0x0A"
abbreviation carriage_return :: u8 where "carriage_return \<equiv> 0x0D"
abbreviation equals_sign :: u8 where "equals_sign \<equiv> 0x3D"
abbreviation underscore :: u8 where "underscore \<equiv> 0x5F"

section \<open>Operations\<close>

definition empty_summary :: ProgressSummary where
  "empty_summary = \<lparr> ps_record_count = 0, ps_total_bytes = 0, ps_parser_steps = 0,
     ps_saw_terminal = False, ps_raw_transcript = [] \<rparr>"

definition progress_new :: "ProgressLimits \<Rightarrow> usize \<Rightarrow> ProgressParser" where
  "progress_new limits transcript_capacity =
     \<lparr> pp_limits = limits, pp_summary = empty_summary, pp_line = [], pp_record = [],
       pp_record_bytes = 0, pp_transcript_capacity = transcript_capacity \<rparr>"

definition record_contains_key :: "u8 list \<Rightarrow> u8 list \<Rightarrow> bool" where
  "record_contains_key record candidate =
     list_ex (\<lambda>line. case position (\<lambda>b. b = equals_sign) line of
         None \<Rightarrow> False
       | Some separator \<Rightarrow> take separator line = candidate)
       (split_on (\<lambda>b. b = newline) record)"

text \<open>Parser work is charged before it is compared with its limit.\<close>

definition charge_steps :: "u64 \<Rightarrow> ProgressParser \<Rightarrow> progress_result" where
  "charge_steps steps p =
     (case checked_add (ps_parser_steps (pp_summary p)) steps of
        None \<Rightarrow> (p, Inl ParserWorkExceeded)
      | Some total_steps \<Rightarrow>
          let p1 = p\<lparr> pp_summary := (pp_summary p)\<lparr> ps_parser_steps := total_steps \<rparr> \<rparr>
          in if total_steps > max_parser_steps (pp_limits p)
             then (p1, Inl ParserWorkExceeded) else (p1, Inr ()))"

text \<open>The bytes of the current record, with the line separator.\<close>

definition charge_record :: "u8 list \<Rightarrow> ProgressParser \<Rightarrow> progress_result" where
  "charge_record line p =
     (case checked_add (pp_record_bytes p) (u64_or_max (length line + 1)) of
        None \<Rightarrow> (p, Inl RecordBytesExceeded)
      | Some bytes \<Rightarrow>
          let p1 = p\<lparr> pp_record_bytes := bytes \<rparr>
          in if bytes > max_record_bytes (pp_limits p)
             then (p1, Inl RecordBytesExceeded) else (p1, Inr ()))"

text \<open>The checks on one field, in the order of the source; the result is its key and value.\<close>

definition parse_field :: "ProgressLimits \<Rightarrow> u8 list \<Rightarrow> ProgressError + u8 list \<times> u8 list" where
  "parse_field limits line =
     (if \<not> utf8_valid line then Inl MalformedLine
      else rbind (ok_or MalformedLine (split_once equals_sign line)) (\<lambda>(key, val).
        if key = [] \<or> u64_or_max (length key) > max_field_bytes limits
           \<or> u64_or_max (length val) > max_field_bytes limits
        then Inl FieldBytesExceeded
        else if \<not> list_all (\<lambda>b. is_ascii_lowercase b \<or> is_ascii_digit b \<or> b = underscore) key
        then Inl MalformedLine
        else Inr (key, val)))"

definition duplicate_scan_steps :: "u8 list \<Rightarrow> u8 list \<Rightarrow> u64 option" where
  "duplicate_scan_steps record key =
     Option.bind (usize_checked_mul (length record) 2) (\<lambda>steps.
     Option.bind (usize_checked_add steps (length key)) u64_try_from)"

text \<open>The \<open>progress\<close> key closes the record; every other field joins it.\<close>

definition close_record :: "u8 list \<Rightarrow> ProgressParser \<Rightarrow> progress_result" where
  "close_record val p =
     (if val \<noteq> ascii ''continue'' \<and> val \<noteq> ascii ''end'' then (p, Inl MalformedLine)
      else if ps_record_count (pp_summary p) \<ge> max_records (pp_limits p)
      then (p, Inl RecordCountExceeded)
      else case checked_add (ps_record_count (pp_summary p)) 1 of
        None \<Rightarrow> (p, Inl RecordCountExceeded)
      | Some count \<Rightarrow>
          (p\<lparr> pp_summary := (pp_summary p)\<lparr> ps_record_count := count,
                ps_saw_terminal := (val = ascii ''end'') \<rparr>,
              pp_record := [], pp_record_bytes := 0 \<rparr>, Inr ()))"

definition parse_line :: "u8 list \<Rightarrow> ProgressParser \<Rightarrow> progress_result" where
  "parse_line line p =
     (if ps_saw_terminal (pp_summary p) then (p, Inl ReorderedAfterTerminal)
      else progress_then (charge_record line p) (\<lambda>p.
        case parse_field (pp_limits p) line of
          Inl e \<Rightarrow> (p, Inl e)
        | Inr (key, val) \<Rightarrow>
            (case duplicate_scan_steps (pp_record p) key of
               None \<Rightarrow> (p, Inl ParserWorkExceeded)
             | Some steps \<Rightarrow> progress_then (charge_steps steps p) (\<lambda>p.
                 if record_contains_key (pp_record p) key then (p, Inl DuplicateField)
                 else if key = ascii ''progress'' then close_record val p
                 else (p\<lparr> pp_record := pp_record p @ line @ [newline] \<rparr>, Inr ())))))"

text \<open>A line loses one trailing carriage return.\<close>

definition strip_cr :: "u8 list \<Rightarrow> u8 list" where
  "strip_cr line = (if line \<noteq> [] \<and> last line = carriage_return then butlast line else line)"

definition feed_byte :: "u8 \<Rightarrow> ProgressParser \<Rightarrow> progress_result" where
  "feed_byte byte p = progress_then (charge_steps 1 p) (\<lambda>p.
     if byte = newline then parse_line (strip_cr (pp_line p)) (p\<lparr> pp_line := [] \<rparr>)
     else let p1 = p\<lparr> pp_line := pp_line p @ [byte] \<rparr>
          in if u64_or_max (length (pp_line p1)) > max_record_bytes (pp_limits p)
             then (p1, Inl RecordBytesExceeded) else (p1, Inr ()))"

fun feed_bytes :: "u8 list \<Rightarrow> ProgressParser \<Rightarrow> progress_result" where
  "feed_bytes [] p = (p, Inr ())"
| "feed_bytes (byte # bytes) p = progress_then (feed_byte byte p) (feed_bytes bytes)"

definition feed :: "u8 list \<Rightarrow> ProgressParser \<Rightarrow> progress_result" where
  "feed bytes p =
     (case usize_checked_add (length (ps_raw_transcript (pp_summary p))) (length bytes) of
        None \<Rightarrow> (p, Inl EvidenceBytesExceeded)
      | Some transcript_bytes \<Rightarrow>
          if transcript_bytes > pp_transcript_capacity p then (p, Inl EvidenceBytesExceeded)
          else case u64_try_from (length bytes) of
            None \<Rightarrow> (p, Inl TotalBytesExceeded)
          | Some count \<Rightarrow>
             (case checked_add (ps_total_bytes (pp_summary p)) count of
                None \<Rightarrow> (p, Inl TotalBytesExceeded)
              | Some total_bytes \<Rightarrow>
                  let p1 = p\<lparr> pp_summary := (pp_summary p)\<lparr> ps_total_bytes := total_bytes \<rparr> \<rparr>
                  in if total_bytes > max_total_bytes (pp_limits p)
                     then (p1, Inl TotalBytesExceeded)
                     else feed_bytes bytes
                       (p1\<lparr> pp_summary := (pp_summary p1)
                          \<lparr> ps_raw_transcript := ps_raw_transcript (pp_summary p1) @ bytes \<rparr> \<rparr>)))"

definition progress_finish :: "ProgressParser \<Rightarrow> ProgressError + ProgressSummary" where
  "progress_finish p =
     (if pp_line p \<noteq> [] \<or> pp_record p \<noteq> [] then Inl TruncatedRecord
      else if \<not> ps_saw_terminal (pp_summary p) then Inl MissingTerminal
      else Inr (pp_summary p))"

definition replay_progress_transcript :: "u8 list \<Rightarrow> ProgressLimits \<Rightarrow> ProgressError + ProgressSummary" where
  "replay_progress_transcript transcript limits =
     (let (p, fed) = feed transcript (progress_new limits (length transcript))
      in rbind fed (\<lambda>_. progress_finish p))"

section \<open>Feeding in chunks\<close>

text \<open>
  A reader hands the stream over in chunks of any size. Only the up-front checks of each chunk
  look at the transcript, so the scan of the bytes does not see where the chunks end.
\<close>

fun feed_all :: "u8 list list \<Rightarrow> ProgressParser \<Rightarrow> progress_result" where
  "feed_all [] p = (p, Inr ())"
| "feed_all (chunk # chunks) p = progress_then (feed chunk p) (feed_all chunks)"

definition parse_chunks :: "u8 list list \<Rightarrow> ProgressLimits \<Rightarrow> usize \<Rightarrow> ProgressError + ProgressSummary" where
  "parse_chunks chunks limits capacity =
     (let (p, fed) = feed_all chunks (progress_new limits capacity)
      in rbind fed (\<lambda>_. progress_finish p))"

definition with_evidence :: "u64 \<Rightarrow> u8 list \<Rightarrow> usize \<Rightarrow> ProgressParser \<Rightarrow> ProgressParser" where
  "with_evidence bytes raw capacity p =
     p\<lparr> pp_summary := (pp_summary p)\<lparr> ps_total_bytes := bytes, ps_raw_transcript := raw \<rparr>,
        pp_transcript_capacity := capacity \<rparr>"

definition evidence_ok :: "ProgressParser \<Rightarrow> bool" where
  "evidence_ok p \<longleftrightarrow>
     unat (ps_total_bytes (pp_summary p)) = length (ps_raw_transcript (pp_summary p)) \<and>
     length (ps_raw_transcript (pp_summary p)) \<le> pp_transcript_capacity p \<and>
     ps_total_bytes (pp_summary p) \<le> max_total_bytes (pp_limits p)"

lemma progress_then_simps [simp]:
  "progress_then (p, Inl e) f = (p, Inl e)"
  "progress_then (p, Inr u) f = f p"
  by (simp_all add: progress_then_def)

lemma progress_then_assoc:
  "progress_then (progress_then r f) g = progress_then r (\<lambda>p. progress_then (f p) g)"
  by (cases r) (auto simp: progress_then_def split: sum.splits)

lemma progress_then_ok_iff [result_simps]:
  "progress_then r f = (q, Inr u) \<longleftrightarrow> (\<exists>p. r = (p, Inr ()) \<and> f p = (q, Inr u))"
  by (cases r) (auto simp: progress_then_def split: sum.splits)

lemma feed_bytes_append: "feed_bytes (xs @ ys) p = progress_then (feed_bytes xs p) (feed_bytes ys)"
proof (induction xs arbitrary: p)
  case (Cons x xs)
  then have "feed_bytes (xs @ ys) = (\<lambda>p. progress_then (feed_bytes xs p) (feed_bytes ys))"
    by blast
  then show ?case by (simp add: progress_then_assoc)
qed simp

lemma feed_bytes_one [simp]: "feed_bytes [b] p = feed_byte b p"
  by (auto simp: progress_then_def split: sum.splits) (metis old.unit.exhaust prod.collapse)

lemma progress_then_evidence:
  assumes "\<And>p. f (with_evidence a r c p) = map_prod (with_evidence a r c) id (f p)"
  shows "progress_then (map_prod (with_evidence a r c) id x) f =
    map_prod (with_evidence a r c) id (progress_then x f)"
  using assms by (cases x) (auto simp: progress_then_def split: sum.splits)

lemma with_evidence_proj [simp]:
  "pp_limits (with_evidence a r c p) = pp_limits p"
  "pp_line (with_evidence a r c p) = pp_line p"
  "pp_record (with_evidence a r c p) = pp_record p"
  "pp_record_bytes (with_evidence a r c p) = pp_record_bytes p"
  "ps_parser_steps (pp_summary (with_evidence a r c p)) = ps_parser_steps (pp_summary p)"
  "ps_record_count (pp_summary (with_evidence a r c p)) = ps_record_count (pp_summary p)"
  "ps_saw_terminal (pp_summary (with_evidence a r c p)) = ps_saw_terminal (pp_summary p)"
  by (simp_all add: with_evidence_def)

lemma with_evidence_again [simp]:
  "with_evidence b s d (with_evidence a r c p) = with_evidence b s d p"
  by (simp add: with_evidence_def)

lemma charge_steps_evidence:
  "charge_steps n (with_evidence a r c p) = map_prod (with_evidence a r c) id (charge_steps n p)"
  by (simp add: charge_steps_def Let_def split: option.splits) (simp add: with_evidence_def)

lemma charge_record_evidence:
  "charge_record l (with_evidence a r c p) = map_prod (with_evidence a r c) id (charge_record l p)"
  by (simp add: charge_record_def Let_def split: option.splits) (simp add: with_evidence_def)

lemma close_record_evidence:
  "close_record v (with_evidence a r c p) = map_prod (with_evidence a r c) id (close_record v p)"
  by (simp add: close_record_def Let_def split: option.splits) (simp add: with_evidence_def)

lemma parse_line_evidence:
  "parse_line l (with_evidence a r c p) = map_prod (with_evidence a r c) id (parse_line l p)"
  unfolding parse_line_def
  by (auto simp: charge_record_evidence charge_steps_evidence close_record_evidence
      intro!: progress_then_evidence split: sum.splits option.splits prod.splits)
    (simp_all add: with_evidence_def)

lemma feed_byte_evidence:
  "feed_byte b (with_evidence a r c p) = map_prod (with_evidence a r c) id (feed_byte b p)"
proof -
  have line: "(with_evidence a r c p)\<lparr>pp_line := l\<rparr> = with_evidence a r c (p\<lparr>pp_line := l\<rparr>)" for p l
    by (simp add: with_evidence_def)
  show ?thesis
    unfolding feed_byte_def charge_steps_evidence
    by (rule progress_then_evidence) (simp add: line parse_line_evidence Let_def)
qed

lemma feed_bytes_evidence:
  "feed_bytes bs (with_evidence a r c p) = map_prod (with_evidence a r c) id (feed_bytes bs p)"
  by (induction bs arbitrary: p) (simp_all add: feed_byte_evidence progress_then_evidence)

lemma feed_bytes_raw:
  "feed_bytes bs p = (q, res) \<Longrightarrow> q = with_evidence (ps_total_bytes (pp_summary p))
     (ps_raw_transcript (pp_summary p)) (pp_transcript_capacity p) q"
proof -
  let ?w = "with_evidence (ps_total_bytes (pp_summary p)) (ps_raw_transcript (pp_summary p))
    (pp_transcript_capacity p)"
  assume "feed_bytes bs p = (q, res)"
  moreover have "feed_bytes bs (?w p) = map_prod ?w id (feed_bytes bs p)"
    by (rule feed_bytes_evidence)
  moreover have "?w p = p" by (simp add: with_evidence_def)
  ultimately show ?thesis by simp
qed

lemma feed_ok_iff:
  assumes "evidence_ok p"
  shows "feed bs p = (q, Inr ()) \<longleftrightarrow>
    length (ps_raw_transcript (pp_summary p) @ bs) \<le> pp_transcript_capacity p \<and>
    length (ps_raw_transcript (pp_summary p) @ bs) \<le> unat (max_total_bytes (pp_limits p)) \<and>
    feed_bytes bs (with_evidence (of_nat (length (ps_raw_transcript (pp_summary p) @ bs)))
      (ps_raw_transcript (pp_summary p) @ bs) (pp_transcript_capacity p) p) = (q, Inr ())"
    (is "?l \<longleftrightarrow> ?r")
proof (cases "length (ps_raw_transcript (pp_summary p) @ bs) < 2 ^ 64")
  case True
  let ?raw = "ps_raw_transcript (pp_summary p)" and ?t = "ps_total_bytes (pp_summary p)"
  have t: "unat ?t = length ?raw" using assms by (simp add: evidence_ok_def)
  have count: "checked_add ?t (of_nat (length bs)) = Some (of_nat (length (?raw @ bs)))"
    using True by (simp add: checked_add_eq_Some_iff t unat_of_nat_u64 del: of_nat_add)
  have le: "\<not> max_total_bytes (pp_limits p) < of_nat (length (?raw @ bs)) \<longleftrightarrow>
      length (?raw @ bs) \<le> unat (max_total_bytes (pp_limits p))"
    using True by (simp add: not_less word_le_nat_alt unat_of_nat_u64 del: of_nat_add)
  have "usize_checked_add (length ?raw) (length bs) = Some (length (?raw @ bs))"
    "u64_try_from (length bs) = Some (of_nat (length bs))"
    using True by (simp_all add: usize_checked_add_def u64_try_from_def)
  moreover have "p\<lparr>pp_summary := (pp_summary p)\<lparr>ps_total_bytes := a, ps_raw_transcript := r\<rparr>\<rparr> =
      with_evidence a r (pp_transcript_capacity p) p" for a r
    by (simp add: with_evidence_def)
  ultimately show ?thesis
    using count le by (auto simp: feed_def Let_def simp del: length_append)
next
  case False
  then show ?thesis using unat_bound [of "max_total_bytes (pp_limits p)"]
    by (auto simp: feed_def usize_checked_add_def split: if_splits)
qed

text \<open>No operation changes the limits.\<close>

lemma progress_then_limits:
  assumes "pp_limits (fst r) = l" and "\<And>p. pp_limits p = l \<Longrightarrow> pp_limits (fst (f p)) = l"
  shows "pp_limits (fst (progress_then r f)) = l"
  using assms by (cases r) (auto simp: progress_then_def split: sum.splits)

lemma charge_limits [simp]:
  "pp_limits (fst (charge_steps n p)) = pp_limits p"
  "pp_limits (fst (charge_record line p)) = pp_limits p"
  "pp_limits (fst (close_record val p)) = pp_limits p"
  by (simp_all add: charge_steps_def charge_record_def close_record_def Let_def split: option.splits)

lemma parse_line_limits [simp]: "pp_limits (fst (parse_line line p)) = pp_limits p"
  unfolding parse_line_def
  by (auto intro!: progress_then_limits split: sum.splits option.splits prod.splits)

lemma feed_byte_limits [simp]: "pp_limits (fst (feed_byte b p)) = pp_limits p"
  unfolding feed_byte_def by (auto intro!: progress_then_limits simp: Let_def)

lemma feed_bytes_limits: "pp_limits (fst (feed_bytes bs p)) = pp_limits p"
  by (induction bs arbitrary: p) (auto intro!: progress_then_limits)

lemma feed_ok_evidence:
  assumes "evidence_ok p" and "feed bs p = (q, Inr ())"
  shows "evidence_ok q" and "pp_limits q = pp_limits p"
    and "pp_transcript_capacity q = pp_transcript_capacity p"
    and "ps_raw_transcript (pp_summary q) = ps_raw_transcript (pp_summary p) @ bs"
proof -
  let ?raw = "ps_raw_transcript (pp_summary p) @ bs"
  let ?w = "with_evidence (of_nat (length ?raw)) ?raw (pp_transcript_capacity p)"
  from assms have ok: "length ?raw \<le> pp_transcript_capacity p"
      "length ?raw \<le> unat (max_total_bytes (pp_limits p))"
    and fed: "feed_bytes bs (?w p) = (q, Inr ())"
    by (simp_all add: feed_ok_iff)
  have q: "q = ?w q"
    using feed_bytes_raw [OF fed] by (simp add: with_evidence_def)
  have "ps_raw_transcript (pp_summary q) = ?raw"
    "ps_total_bytes (pp_summary q) = of_nat (length ?raw)"
    "pp_transcript_capacity q = pp_transcript_capacity p"
    by (subst q, simp add: with_evidence_def)+
  moreover show limits: "pp_limits q = pp_limits p"
    using feed_bytes_limits [of bs "?w p"] fed by simp
  moreover have "length ?raw < 2 ^ 64"
    using ok(2) unat_bound [of "max_total_bytes (pp_limits p)"] by simp
  ultimately show "evidence_ok q"
    and "pp_transcript_capacity q = pp_transcript_capacity p"
    and "ps_raw_transcript (pp_summary q) = ?raw"
    using ok by (simp_all add: evidence_ok_def word_le_nat_alt unat_of_nat_u64 del: of_nat_add)
qed

lemma feed_Nil: "evidence_ok p \<Longrightarrow> feed [] p = (p, Inr ())"
proof -
  assume ok: "evidence_ok p"
  let ?raw = "ps_raw_transcript (pp_summary p)"
  have "of_nat (length ?raw) = ps_total_bytes (pp_summary p)"
    using ok unat_bound [of "ps_total_bytes (pp_summary p)"]
    by (simp add: evidence_ok_def unat_of_nat_u64 unat_eq_iff [symmetric])
  then have "with_evidence (of_nat (length ?raw)) ?raw (pp_transcript_capacity p) p = p"
    by (simp add: with_evidence_def)
  with ok show ?thesis
    by (subst feed_ok_iff) (auto simp: evidence_ok_def word_le_nat_alt)
qed

lemma feed_append_ok_iff:
  assumes "evidence_ok p"
  shows "feed (xs @ ys) p = (r, Inr ()) \<longleftrightarrow>
    (\<exists>q. feed xs p = (q, Inr ()) \<and> feed ys q = (r, Inr ()))"
proof -
  let ?raw = "ps_raw_transcript (pp_summary p)" and ?cap = "pp_transcript_capacity p"
    and ?lim = "unat (max_total_bytes (pp_limits p))"
  let ?w = "\<lambda>bs. with_evidence (of_nat (length bs)) bs ?cap"
  have second: "feed ys q = (r, Inr ()) \<longleftrightarrow>
      length (?raw @ xs @ ys) \<le> ?cap \<and> length (?raw @ xs @ ys) \<le> ?lim \<and>
      feed_bytes ys (?w (?raw @ xs @ ys) q) = (r, Inr ())"
    if "feed xs p = (q, Inr ())" for q
    using feed_ok_evidence [OF assms that] by (subst feed_ok_iff) (auto simp del: of_nat_add)
  have scan: "feed_bytes xs (?w (?raw @ xs @ ys) p) = (s, Inr ()) \<longleftrightarrow>
      (\<exists>q. feed_bytes xs (?w (?raw @ xs) p) = (q, Inr ()) \<and> s = ?w (?raw @ xs @ ys) q)" for s
    by (cases "feed_bytes xs p") (auto simp: feed_bytes_evidence simp del: of_nat_add)
  have "feed (xs @ ys) p = (r, Inr ()) \<longleftrightarrow>
      length (?raw @ xs @ ys) \<le> ?cap \<and> length (?raw @ xs @ ys) \<le> ?lim \<and>
      (\<exists>q. feed_bytes xs (?w (?raw @ xs) p) = (q, Inr ()) \<and>
           feed_bytes ys (?w (?raw @ xs @ ys) q) = (r, Inr ()))"
    by (simp only: feed_ok_iff [OF assms] feed_bytes_append progress_then_ok_iff scan) blast
  also have "\<dots> \<longleftrightarrow> (\<exists>q. feed xs p = (q, Inr ()) \<and> feed ys q = (r, Inr ()))"
    using second by (auto simp: feed_ok_iff [OF assms, of xs] simp del: of_nat_add)
  finally show ?thesis .
qed

lemma feed_all_ok_iff:
  "evidence_ok p \<Longrightarrow> feed_all chunks p = (q, Inr ()) \<longleftrightarrow> feed (concat chunks) p = (q, Inr ())"
proof (induction chunks arbitrary: p)
  case Nil
  then show ?case by (auto simp: feed_Nil)
next
  case (Cons chunk chunks)
  have "feed_all (chunk # chunks) p = (q, Inr ()) \<longleftrightarrow>
      (\<exists>p'. feed chunk p = (p', Inr ()) \<and> feed_all chunks p' = (q, Inr ()))"
    by (simp add: progress_then_ok_iff)
  also have "\<dots> \<longleftrightarrow> (\<exists>p'. feed chunk p = (p', Inr ()) \<and> feed (concat chunks) p' = (q, Inr ()))"
    using Cons.IH feed_ok_evidence(1) [OF Cons.prems] by blast
  finally show ?case by (simp add: feed_append_ok_iff [OF Cons.prems])
qed

lemma progress_new_evidence [simp]: "evidence_ok (progress_new limits capacity)"
  by (simp add: evidence_ok_def progress_new_def empty_summary_def)

lemma feed_new_capacity:
  "feed bs (progress_new limits capacity) = (q, Inr ()) \<longleftrightarrow>
     length bs \<le> capacity \<and>
     (\<exists>p. feed bs (progress_new limits (length bs)) = (p, Inr ()) \<and>
          q = p\<lparr> pp_transcript_capacity := capacity \<rparr>)"
proof -
  let ?w = "\<lambda>capacity. with_evidence (of_nat (length bs)) bs capacity (progress_new limits 0)"
  have new: "with_evidence (of_nat (length bs)) bs c (progress_new limits c) = ?w c" for c
    by (simp add: with_evidence_def progress_new_def)
  have cap: "with_evidence a r c p = (with_evidence a r d p)\<lparr> pp_transcript_capacity := c \<rparr>"
    for a r c d p by (simp add: with_evidence_def)
  have "feed bs (progress_new limits c) = (p, Inr ()) \<longleftrightarrow>
      length bs \<le> c \<and> length bs \<le> unat (max_total_bytes limits) \<and>
      feed_bytes bs (?w c) = (p, Inr ())" for c p
    by (simp add: feed_ok_iff) (simp add: progress_new_def empty_summary_def with_evidence_def)
  then show ?thesis
    by (cases "feed_bytes bs (progress_new limits 0)")
      (auto simp: feed_bytes_evidence cap [of _ _ capacity _ "length bs"])
qed

lemma progress_finish_capacity [simp]:
  "progress_finish (p\<lparr> pp_transcript_capacity := c \<rparr>) = progress_finish p"
  by (simp add: progress_finish_def)

lemma parse_chunks_iff_replay:
  "parse_chunks chunks limits capacity = Inr s \<longleftrightarrow>
     length (concat chunks) \<le> capacity \<and>
     replay_progress_transcript (concat chunks) limits = Inr s"
proof -
  have ok: "(case r of (p, fed) \<Rightarrow> rbind fed (\<lambda>_. progress_finish p)) = Inr s \<longleftrightarrow>
      (\<exists>p. r = (p, Inr ()) \<and> progress_finish p = Inr s)" for r :: progress_result
    by (cases r) (auto simp: rbind_def split: sum.splits)
  show ?thesis
    unfolding parse_chunks_def replay_progress_transcript_def Let_def ok
    by (auto simp: feed_all_ok_iff feed_new_capacity [of _ _ capacity])
qed

end
