(* ===== verification/Bounded_IO.thy ===== *)
theory Bounded_IO
  imports Progress
begin

text \<open>
  The pipe drains of \<open>fforager-ffmpeg/src/bounded_io.rs\<close>.

  A reader is the sequence of its read results; a read of no bytes, or the end of the sequence,
  is the end of the stream. The progress drain runs a reader thread against a one-item channel;
  the times of its messages, the outcome of each send and the point at which the receiver times
  out belong to the environment and are arguments.
\<close>

section \<open>Readers\<close>

datatype io_error = OsError string | InvalidData string | OtherError string

datatype read_outcome = ReadBytes "u8 list" | ReadFailed io_error

text \<open>The bytes a reader delivers before its end of stream.\<close>

fun read_stream :: "read_outcome list \<Rightarrow> io_error + u8 list" where
  "read_stream [] = Inr []"
| "read_stream (ReadFailed e # rs) = Inl e"
| "read_stream (ReadBytes bs # rs) =
     (if bs = [] then Inr [] else rbind (read_stream rs) (\<lambda>more_bytes. Inr (bs @ more_bytes)))"

section \<open>Diagnostics\<close>

record BoundedDrainLimits =
  bd_max_total_bytes :: u64
  bd_tail_bytes :: usize

datatype DiagnosticLoss = NoLoss | PrefixTruncated u64

record BoundedDrainResult =
  br_total_bytes :: u64
  br_tail :: "u8 list"
  br_loss :: DiagnosticLoss
  br_total_limit_exceeded :: bool

definition complete_transcript :: "BoundedDrainResult \<Rightarrow> u8 list option" where
  "complete_transcript r =
     (if br_loss r = NoLoss \<and> br_total_bytes r = u64_or_max (length (br_tail r))
      then Some (br_tail r) else None)"

definition push_tail :: "usize \<Rightarrow> u8 \<Rightarrow> u8 list \<Rightarrow> u8 list" where
  "push_tail tail_bytes byte tail =
     (let kept = (if length tail = tail_bytes \<and> tail_bytes \<noteq> 0 then tl tail else tail)
      in if tail_bytes \<noteq> 0 then kept @ [byte] else kept)"

fun drain_tail :: "usize \<Rightarrow> u64 \<Rightarrow> u8 list \<Rightarrow> read_outcome list \<Rightarrow> io_error + u64 \<times> u8 list" where
  "drain_tail n count tail [] = Inr (count, tail)"
| "drain_tail n count tail (ReadFailed e # rs) = Inl e"
| "drain_tail n count tail (ReadBytes bs # rs) =
     (if bs = [] then Inr (count, tail)
      else drain_tail n (saturating_add count (u64_or_max (length bs)))
             (fold (push_tail n) bs tail) rs)"

definition drain_diagnostics :: "read_outcome list \<Rightarrow> BoundedDrainLimits \<Rightarrow> io_error + BoundedDrainResult" where
  "drain_diagnostics reader limits =
     rbind (drain_tail (bd_tail_bytes limits) 0 [] reader) (\<lambda>(count, tail).
       let dropped = saturating_sub count (u64_or_max (length tail))
       in Inr \<lparr> br_total_bytes = count, br_tail = tail,
            br_loss = (if dropped = 0 then NoLoss else PrefixTruncated dropped),
            br_total_limit_exceeded = (count > bd_max_total_bytes limits) \<rparr>)"

section \<open>Required bytes\<close>

fun drain_required :: "u64 \<Rightarrow> u8 list \<Rightarrow> bool \<Rightarrow> read_outcome list \<Rightarrow> io_error + u8 list \<times> bool" where
  "drain_required maximum output exceeded [] = Inr (output, exceeded)"
| "drain_required maximum output exceeded (ReadFailed e # rs) = Inl e"
| "drain_required maximum output exceeded (ReadBytes bs # rs) =
     (if bs = [] then Inr (output, exceeded)
      else let grown = saturating_add (u64_or_max (length output)) (u64_or_max (length bs))
           in if grown \<le> maximum \<and> \<not> exceeded then drain_required maximum (output @ bs) exceeded rs
              else drain_required maximum output True rs)"

definition drain_required_bytes :: "read_outcome list \<Rightarrow> u64 \<Rightarrow> io_error + u8 list" where
  "drain_required_bytes reader maximum =
     rbind (drain_required maximum [] False reader) (\<lambda>(output, exceeded).
       if exceeded then Inl (InvalidData ''required pipe byte limit exceeded'') else Inr output)"

section \<open>Supervised progress\<close>

type_synonym instant = nat

record ProgressRuntimeLimits =
  allocation_bytes :: usize
  cadence_timeout :: nat
  consumer_stall_timeout :: nat

datatype ProgressDrainError =
    DrainIo io_error
  | DrainProgress ProgressError
  | InvalidRuntimeLimits
  | CadenceTimedOut
  | ConsumerStalled
  | ReaderJoinFailed

datatype send_outcome = Sent | SendStalled | SendDisconnected

type_synonym progress_message = "instant \<times> u8 list option"

text \<open>The reader thread: each read, the time of its message and what became of the send.\<close>

fun progress_reader ::
  "(read_outcome \<times> instant \<times> send_outcome) list \<Rightarrow> progress_message list \<times> bool \<times> io_error option" where
  "progress_reader [] = ([], False, None)"
| "progress_reader ((ReadFailed e, now, sent) # reads) = ([], False, Some e)"
| "progress_reader ((ReadBytes bs, now, sent) # reads) =
     (let message = (now, if bs = [] then None else Some bs) in
      case sent of
        SendStalled \<Rightarrow> ([], True, None)
      | SendDisconnected \<Rightarrow> ([], False, None)
      | Sent \<Rightarrow>
          if bs = [] then ([message], False, None)
          else let (messages, rest) = progress_reader reads in (message # messages, rest))"

datatype progress_receipt = Received progress_message | ReceiveTimedOut

text \<open>The receiver: the end of the receipts is the disconnected channel.\<close>

fun receive_progress ::
  "progress_receipt list \<Rightarrow> nat \<Rightarrow> instant \<Rightarrow> bool \<Rightarrow> io_error option \<Rightarrow> ProgressParser
   \<Rightarrow> ProgressDrainError + ProgressSummary" where
  "receive_progress [] cadence deadline stalled read_error p =
     Inl (if stalled then ConsumerStalled
          else DrainIo (case read_error of Some e \<Rightarrow> e
                        | None \<Rightarrow> OtherError ''progress reader disconnected''))"
| "receive_progress (ReceiveTimedOut # rs) cadence deadline stalled read_error p = Inl CadenceTimedOut"
| "receive_progress (Received (observed_at, payload) # rs) cadence deadline stalled read_error p =
     (if observed_at > deadline then Inl CadenceTimedOut
      else case payload of
        None \<Rightarrow> map_err DrainProgress (progress_finish p)
      | Some bytes \<Rightarrow>
          (case feed bytes p of
             (q, Inl e) \<Rightarrow> Inl (DrainProgress e)
           | (q, Inr _) \<Rightarrow>
               receive_progress rs cadence (observed_at + cadence) stalled read_error q))"

text \<open>How the allocation is split between the parser, four chunks and the transcript.\<close>

definition plan_progress :: "ProgressLimits \<Rightarrow> ProgressRuntimeLimits \<Rightarrow> ProgressDrainError + usize \<times> usize" where
  "plan_progress parser_limits runtime_limits =
     rbind (ok_or InvalidRuntimeLimits (usize_checked_mul (unat (max_record_bytes parser_limits)) 2))
       (\<lambda>parser_bytes.
     rbind (ok_or InvalidRuntimeLimits (usize_checked_sub (allocation_bytes runtime_limits) parser_bytes))
       (\<lambda>available_bytes.
     let chunk_bytes = min (available_bytes div 8) (8 * 1024) in
     rbind (ok_or InvalidRuntimeLimits (usize_checked_mul chunk_bytes 4)) (\<lambda>chunk_allocation.
     rbind (ok_or InvalidRuntimeLimits (usize_checked_sub available_bytes chunk_allocation)) (\<lambda>rest.
     let transcript_capacity = min rest (unat (max_total_bytes parser_limits)) in
     if chunk_bytes = 0 \<or> transcript_capacity = 0 \<or> cadence_timeout runtime_limits = 0
        \<or> consumer_stall_timeout runtime_limits = 0
     then Inl InvalidRuntimeLimits
     else Inr (chunk_bytes, transcript_capacity)))))"

definition drain_progress_supervised ::
  "(read_outcome \<times> instant \<times> send_outcome) list \<Rightarrow> nat option \<Rightarrow> bool \<Rightarrow> instant
   \<Rightarrow> ProgressLimits \<Rightarrow> ProgressRuntimeLimits \<Rightarrow> ProgressDrainError + ProgressSummary" where
  "drain_progress_supervised reads timeout_after joined started parser_limits runtime_limits =
     rbind (plan_progress parser_limits runtime_limits) (\<lambda>(chunk_bytes, transcript_capacity).
       let (messages, stalled, read_error) = progress_reader reads;
           receipts = (case timeout_after of
               None \<Rightarrow> map Received messages
             | Some n \<Rightarrow> map Received (take n messages) @ [ReceiveTimedOut]);
           parsed = receive_progress receipts (cadence_timeout runtime_limits)
             (started + cadence_timeout runtime_limits) stalled read_error
             (progress_new parser_limits transcript_capacity)
       in if \<not> joined then Inl ReaderJoinFailed else parsed)"

section \<open>The drains keep what they promise\<close>

lemma push_tail_suffix:
  "push_tail n b (drop (length xs - n) xs) = drop (length (xs @ [b]) - n) (xs @ [b])"
proof (cases "n \<le> length xs")
  case True
  moreover have "tl (drop k xs) = drop (Suc k) xs" for k
    by (simp add: drop_Suc tl_drop)
  ultimately show ?thesis
    by (cases n) (auto simp: push_tail_def Let_def Suc_diff_Suc)
next
  case False
  then show ?thesis by (auto simp: push_tail_def Let_def)
qed

lemma fold_push_tail:
  "fold (push_tail n) bs (drop (length xs - n) xs) = drop (length (xs @ bs) - n) (xs @ bs)"
proof (induction bs arbitrary: xs)
  case (Cons b bs)
  have "fold (push_tail n) (b # bs) (drop (length xs - n) xs) =
      fold (push_tail n) bs (drop (length (xs @ [b]) - n) (xs @ [b]))"
    by (simp only: fold_simps push_tail_suffix)
  also have "\<dots> = drop (length ((xs @ [b]) @ bs) - n) ((xs @ [b]) @ bs)"
    by (rule Cons.IH)
  finally show ?case by simp
qed simp

lemma saturating_lengths:
  "m + n < 2 ^ 64 \<Longrightarrow> saturating_add (of_nat m) (u64_or_max n) = of_nat (m + n)"
proof -
  assume lt: "m + n < 2 ^ 64"
  then have "checked_add (of_nat m) (u64_or_max n) = Some (of_nat (m + n) :: u64)"
    by (simp add: checked_add_eq_Some_iff unat_of_nat_u64 unat_u64_or_max del: of_nat_add)
  then show ?thesis by (simp add: saturating_add_def)
qed

lemma u64_or_max_of_nat: "n < 2 ^ 64 \<Longrightarrow> u64_or_max n = of_nat n"
  by (simp add: u64_or_max_def u64_try_from_def)

lemma drain_tail_stream:
  "read_stream reader = Inr stream \<Longrightarrow> length xs + length stream < 2 ^ 64 \<Longrightarrow>
     drain_tail n (of_nat (length xs)) (drop (length xs - n) xs) reader =
       Inr (of_nat (length (xs @ stream)), drop (length (xs @ stream) - n) (xs @ stream))"
proof (induction reader arbitrary: xs stream rule: read_stream.induct)
  case (3 bs rs)
  show ?case
  proof (cases "bs = []")
    case False
    with 3 obtain tail where tail: "read_stream rs = Inr tail" "stream = bs @ tail"
      by (auto simp: rbind_eq_Inr_iff)
    with 3 False have "drain_tail n (of_nat (length (xs @ bs))) (drop (length (xs @ bs) - n) (xs @ bs)) rs =
        Inr (of_nat (length ((xs @ bs) @ tail)), drop (length ((xs @ bs) @ tail) - n) ((xs @ bs) @ tail))"
      by (intro "3.IH") auto
    moreover have "saturating_add (of_nat (length xs)) (u64_or_max (length bs)) = of_nat (length (xs @ bs))"
      using 3 tail by (simp add: saturating_lengths del: of_nat_add)
    ultimately show ?thesis
      using False tail by (simp only: drain_tail.simps fold_push_tail append_assoc if_False)
  qed (use 3 in auto)
qed auto

lemma drain_tail_failed: "read_stream reader = Inl e \<Longrightarrow> drain_tail n count tail reader = Inl e"
  by (induction reader arbitrary: count tail rule: read_stream.induct)
    (auto simp: rbind_eq_Inl_iff split: if_splits)

lemma drain_required_failed: "read_stream reader = Inl e \<Longrightarrow> drain_required m out ex reader = Inl e"
  by (induction reader arbitrary: out ex rule: read_stream.induct)
    (auto simp: rbind_eq_Inl_iff Let_def split: if_splits)

lemma drain_required_exceeded:
  "read_stream reader = Inr stream \<Longrightarrow> drain_required m out True reader = Inr (out, True)"
  by (induction reader arbitrary: stream rule: read_stream.induct)
    (auto simp: rbind_eq_Inr_iff Let_def split: if_splits)

lemma drain_required_stream:
  "read_stream reader = Inr stream \<Longrightarrow> length out + length stream < 2 ^ 64 \<Longrightarrow>
     (if length (out @ stream) \<le> unat m
      then drain_required m out False reader = Inr (out @ stream, False)
      else length out \<le> unat m \<longrightarrow> (\<exists>kept. drain_required m out False reader = Inr (kept, True)))"
proof (induction reader arbitrary: out stream rule: read_stream.induct)
  case (3 bs rs)
  show ?case
  proof (cases "bs = []")
    case False
    with 3 obtain tail where tail: "read_stream rs = Inr tail" "stream = bs @ tail"
      by (auto simp: rbind_eq_Inr_iff)
    have grown: "saturating_add (u64_or_max (length out)) (u64_or_max (length bs)) \<le> m
        \<longleftrightarrow> length (out @ bs) \<le> unat m"
      using 3 tail by (simp add: u64_or_max_of_nat [of "length out"] saturating_lengths
          word_le_nat_alt unat_of_nat_u64 del: of_nat_add)
    show ?thesis
    proof (cases "length (out @ bs) \<le> unat m")
      case True
      have "drain_required m out False (ReadBytes bs # rs) = drain_required m (out @ bs) False rs"
        using False True grown by (simp only: drain_required.simps Let_def if_False simp_thms if_True)
      then show ?thesis
        using "3.IH" [of tail "out @ bs"] 3 False True tail by simp
    next
      case exceeded: False
      then show ?thesis
        using False grown tail drain_required_exceeded [OF tail(1), of m out]
        by (simp add: Let_def)
    qed
  qed (use 3 in auto)
qed auto

lemma saturating_lengths_sub:
  "k \<le> n \<Longrightarrow> n < 2 ^ 64 \<Longrightarrow> saturating_sub (of_nat n) (u64_or_max k) = of_nat (n - k)"
  by (simp add: saturating_sub_def word_le_nat_alt unat_of_nat_u64 u64_or_max_of_nat of_nat_diff)

lemma of_nat_u64_eq_0_iff: "n < 2 ^ 64 \<Longrightarrow> (of_nat n :: u64) = 0 \<longleftrightarrow> n = 0"
  using unat_of_nat_u64 [of n] by fastforce

lemma drain_diagnostics_stream:
  assumes "read_stream reader = Inr stream" and lt: "length stream < 2 ^ 64"
  shows "drain_diagnostics reader limits = Inr
    \<lparr> br_total_bytes = of_nat (length stream),
      br_tail = drop (length stream - bd_tail_bytes limits) stream,
      br_loss = (if length stream \<le> bd_tail_bytes limits then NoLoss
        else PrefixTruncated (of_nat (length stream - bd_tail_bytes limits))),
      br_total_limit_exceeded = (length stream > unat (bd_max_total_bytes limits)) \<rparr>"
proof -
  let ?n = "bd_tail_bytes limits"
  let ?kept = "drop (length stream - ?n) stream"
  have "drain_tail ?n 0 [] reader = Inr (of_nat (length stream), ?kept)"
    using drain_tail_stream [OF assms(1), of "[]" ?n] lt by simp
  moreover have "saturating_sub (of_nat (length stream)) (u64_or_max (length ?kept)) =
      of_nat (length stream - length ?kept)"
    using lt by (intro saturating_lengths_sub) auto
  moreover have "length stream - length ?kept = length stream - ?n" by auto
  ultimately show ?thesis
    using lt by (auto simp: drain_diagnostics_def Let_def of_nat_u64_eq_0_iff word_less_nat_alt
        unat_of_nat_u64 simp del: length_drop)
qed

text \<open>
  The pipe drains lose nothing silently. Unless a read fails, in which case both report that
  failure, the diagnostic drain reports the exact length of the stream, keeps exactly its last
  \<open>tail_bytes\<close> bytes, declares exactly how many it dropped, and offers a complete transcript only
  when that is the whole stream; the required drain returns the whole stream, or an error when it
  is longer than the limit.
\<close>

theorem pipe_drains_exact:
  "case read_stream reader of
     Inl e \<Rightarrow> drain_diagnostics reader limits = Inl e \<and> drain_required_bytes reader maximum = Inl e
   | Inr stream \<Rightarrow> length stream < 2 ^ 64 \<longrightarrow>
      (\<exists>r. drain_diagnostics reader limits = Inr r \<and>
         unat (br_total_bytes r) = length stream \<and>
         br_tail r = drop (length stream - bd_tail_bytes limits) stream \<and>
         br_loss r = (if length stream \<le> bd_tail_bytes limits then NoLoss
           else PrefixTruncated (of_nat (length stream - bd_tail_bytes limits))) \<and>
         complete_transcript r = (if length stream \<le> bd_tail_bytes limits then Some stream else None) \<and>
         br_total_limit_exceeded r = (length stream > unat (bd_max_total_bytes limits))) \<and>
      drain_required_bytes reader maximum =
        (if length stream \<le> unat maximum then Inr stream
         else Inl (InvalidData ''required pipe byte limit exceeded''))"
proof (cases "read_stream reader")
  case (Inl e)
  then show ?thesis
    by (simp add: drain_diagnostics_def drain_required_bytes_def drain_tail_failed drain_required_failed)
next
  case (Inr stream)
  show ?thesis
    unfolding Inr sum.case
  proof (intro impI conjI)
    assume lt: "length stream < 2 ^ 64"
    show "drain_required_bytes reader maximum = (if length stream \<le> unat maximum then Inr stream
        else Inl (InvalidData ''required pipe byte limit exceeded''))"
      using drain_required_stream [OF Inr, of "[]" maximum] lt
      by (auto simp: drain_required_bytes_def split: if_splits)
    show "\<exists>r. drain_diagnostics reader limits = Inr r \<and>
         unat (br_total_bytes r) = length stream \<and>
         br_tail r = drop (length stream - bd_tail_bytes limits) stream \<and>
         br_loss r = (if length stream \<le> bd_tail_bytes limits then NoLoss
           else PrefixTruncated (of_nat (length stream - bd_tail_bytes limits))) \<and>
         complete_transcript r = (if length stream \<le> bd_tail_bytes limits then Some stream else None) \<and>
         br_total_limit_exceeded r = (length stream > unat (bd_max_total_bytes limits))"
      unfolding drain_diagnostics_stream [OF Inr lt]
      using lt by (intro exI conjI) (auto simp: complete_transcript_def unat_of_nat_u64 u64_or_max_of_nat split: if_splits)
  qed
qed

theorem pipe_drains_exact_witness:
  "complete_transcript \<lparr> br_total_bytes = 3, br_tail = [1, 2, 3], br_loss = NoLoss,
      br_total_limit_exceeded = False \<rparr> = Some [1, 2, 3]
   \<and> drain_required_bytes [ReadBytes [1, 2], ReadBytes [3]] 2 =
       Inl (InvalidData ''required pipe byte limit exceeded'')"
  using pipe_drains_exact [of "[ReadBytes [1, 2], ReadBytes [3]]"
      "\<lparr> bd_max_total_bytes = 8, bd_tail_bytes = 4 \<rparr>" 2]
  by (simp add: drain_diagnostics_def push_tail_def u64_or_max_def u64_try_from_def
      saturating_add_def saturating_sub_def checked_add_code)

section \<open>The memory of a progress drain\<close>

lemma usize_checked_ok [result_simps]:
  "usize_checked_mul a b = Some c \<longleftrightarrow> a * b < 2 ^ 64 \<and> c = a * b"
  "usize_checked_sub a b = Some c \<longleftrightarrow> b + c = a"
  by (auto simp: usize_checked_mul_def usize_checked_sub_def)

lemma plan_progress_ok:
  assumes "plan_progress parser_limits runtime_limits = Inr (chunk_bytes, capacity)"
  shows "\<exists>available rest.
    2 * unat (max_record_bytes parser_limits) + available = allocation_bytes runtime_limits \<and>
    chunk_bytes = min (available div 8) (8 * 1024) \<and> chunk_bytes \<noteq> 0 \<and>
    4 * chunk_bytes + rest = available \<and>
    capacity = min rest (unat (max_total_bytes parser_limits)) \<and> capacity \<noteq> 0"
proof -
  from assms obtain parser_bytes available alloc rest where
    "usize_checked_mul (unat (max_record_bytes parser_limits)) 2 = Some parser_bytes"
    "usize_checked_sub (allocation_bytes runtime_limits) parser_bytes = Some available"
    "usize_checked_mul (min (available div 8) (8 * 1024)) 4 = Some alloc"
    "usize_checked_sub available alloc = Some rest"
    "chunk_bytes = min (available div 8) (8 * 1024)" "chunk_bytes \<noteq> 0"
    "capacity = min rest (unat (max_total_bytes parser_limits))" "capacity \<noteq> 0"
    unfolding plan_progress_def Let_def rbind_eq_Inr_iff ok_or_eq_Inr_iff if_Inl_eq_Inr_iff
      sum.inject prod.inject de_Morgan_disj
    by blast
  then show ?thesis
    unfolding usize_checked_ok by (metis mult.commute)
qed

text \<open>
  A progress drain that starts has split its allocation soundly: the two line buffers of the
  parser, the four chunks that may be alive at once and the transcript fit together in the
  allocation, every chunk has between 1 and 8192 bytes, and the transcript never holds more than
  the byte limit of the stream.
\<close>

theorem progress_allocation_bounded:
  assumes "plan_progress parser_limits runtime_limits = Inr (chunk_bytes, capacity)"
  shows "2 * unat (max_record_bytes parser_limits) + 4 * chunk_bytes + capacity
      \<le> allocation_bytes runtime_limits
    \<and> 1 \<le> chunk_bytes \<and> chunk_bytes \<le> 8192
    \<and> 1 \<le> capacity \<and> capacity \<le> unat (max_total_bytes parser_limits)"
proof -
  obtain available rest where
    "2 * unat (max_record_bytes parser_limits) + available = allocation_bytes runtime_limits"
    and chunk: "chunk_bytes = min (available div 8) (8 * 1024)" and "chunk_bytes \<noteq> 0"
    and "4 * chunk_bytes + rest = available"
    and "capacity = min rest (unat (max_total_bytes parser_limits))" and "capacity \<noteq> 0"
    using plan_progress_ok [OF assms] by blast
  moreover from chunk have "chunk_bytes \<le> 8192" by simp
  ultimately show ?thesis by simp
qed

theorem progress_allocation_bounded_witness:
  "2 * unat (max_record_bytes \<lparr> max_records = 4, max_total_bytes = 256, max_record_bytes = 128,
      max_field_bytes = 64, max_parser_steps = 512 \<rparr>) + 4 * 224 + 256 \<le> (2048 :: nat)"
  using progress_allocation_bounded [of "\<lparr> max_records = 4, max_total_bytes = 256,
      max_record_bytes = 128, max_field_bytes = 64, max_parser_steps = 512 \<rparr>"
      "\<lparr> allocation_bytes = 2048, cadence_timeout = 5, consumer_stall_timeout = 5 \<rparr>" 224 256]
  by (simp add: plan_progress_def usize_checked_mul_def usize_checked_sub_def)

section \<open>Live parsing and replay\<close>

text \<open>A receipt sequence that delivers chunks in time and ends with the end of the stream.\<close>

fun timely_chunks :: "progress_receipt list \<Rightarrow> nat \<Rightarrow> instant \<Rightarrow> u8 list list option" where
  "timely_chunks (Received (observed_at, payload) # rs) cadence deadline =
     (if observed_at > deadline then None
      else case payload of
        None \<Rightarrow> Some []
      | Some bytes \<Rightarrow> map_option (Cons bytes) (timely_chunks rs cadence (observed_at + cadence)))"
| "timely_chunks _ _ _ = None"

lemma receive_progress_feeds:
  "receive_progress rs cadence deadline stalled err p = Inr s \<longleftrightarrow>
     (\<exists>chunks q. timely_chunks rs cadence deadline = Some chunks \<and>
        feed_all chunks p = (q, Inr ()) \<and> progress_finish q = Inr s)"
proof (induction rs cadence deadline stalled err p rule: receive_progress.induct)
  case (3 at payload rs cadence deadline stalled err p)
  show ?case
  proof (cases payload)
    case None
    then show ?thesis by (auto simp: map_err_eq_Inr_iff)
  next
    case (Some bytes)
    then show ?thesis
      using 3 by (cases "feed bytes p") (auto simp: progress_then_def split: sum.splits)
  qed
qed auto

lemma receive_progress_iff_replay:
  "receive_progress receipts cadence deadline stalled read_error (progress_new limits capacity)
     = Inr summary \<longleftrightarrow>
   (\<exists>chunks. timely_chunks receipts cadence deadline = Some chunks \<and>
      length (concat chunks) \<le> capacity \<and>
      replay_progress_transcript (concat chunks) limits = Inr summary)"
proof -
  have "(\<exists>q. feed_all chunks (progress_new limits capacity) = (q, Inr ()) \<and>
      progress_finish q = Inr summary) \<longleftrightarrow> parse_chunks chunks limits capacity = Inr summary" for chunks
    by (auto simp: parse_chunks_def Let_def rbind_def split: prod.splits sum.splits)
  then show ?thesis
    by (simp add: receive_progress_feeds parse_chunks_iff_replay [symmetric])
qed

text \<open>
  How the pipe cuts the stream into chunks has no influence on the result. The live drain of
  a stream that arrives in time returns a summary exactly when the transcript capacity holds the
  stream and the one-shot replay of the whole stream returns that same summary.
\<close>

theorem progress_chunking_equivalence:
  "receive_progress receipts cadence deadline stalled read_error (progress_new limits capacity)
     = Inr summary \<longleftrightarrow>
   (\<exists>chunks. timely_chunks receipts cadence deadline = Some chunks \<and>
      length (concat chunks) \<le> capacity \<and>
      replay_progress_transcript (concat chunks) limits = Inr summary)"
  by (rule receive_progress_iff_replay)

end
