(* ===== verification/Progress_Grammar.thy ===== *)
theory Progress_Grammar
  imports Progress
begin

text \<open>
  What an accepted progress transcript looks like: complete lines of \<open>key=value\<close> fields,
  grouped into records that the \<open>progress\<close> key closes, with distinct keys in each record and
  one terminal record at the very end.
\<close>

section \<open>The grammar\<close>

definition progress_key :: "u8 list" where
  "progress_key = ascii ''progress''"

definition field_of :: "u8 list \<Rightarrow> u8 list \<times> u8 list" where
  "field_of line = (case split_once equals_sign (strip_cr line) of Some f \<Rightarrow> f | None \<Rightarrow> ([], []))"

definition transcript_fields :: "u8 list \<Rightarrow> (u8 list \<times> u8 list) list" where
  "transcript_fields bs = map field_of (butlast (split_on (\<lambda>b. b = newline) bs))"

definition field_ok :: "ProgressLimits \<Rightarrow> u8 list \<times> u8 list \<Rightarrow> bool" where
  "field_ok limits f \<longleftrightarrow>
     fst f \<noteq> [] \<and> list_all (\<lambda>b. is_ascii_lowercase b \<or> is_ascii_digit b \<or> b = underscore) (fst f) \<and>
     u64_or_max (length (fst f)) \<le> max_field_bytes limits \<and>
     u64_or_max (length (snd f)) \<le> max_field_bytes limits \<and>
     (fst f = progress_key \<longrightarrow> snd f = ascii ''continue'' \<or> snd f = ascii ''end'')"

fun open_keys :: "u8 list list \<Rightarrow> (u8 list \<times> u8 list) list \<Rightarrow> u8 list list" where
  "open_keys seen [] = seen"
| "open_keys seen (f # fs) = open_keys (if fst f = progress_key then [] else fst f # seen) fs"

fun records_distinct :: "u8 list list \<Rightarrow> (u8 list \<times> u8 list) list \<Rightarrow> bool" where
  "records_distinct seen [] = True"
| "records_distinct seen (f # fs) \<longleftrightarrow>
     fst f \<notin> set seen \<and>
     records_distinct (if fst f = progress_key then [] else fst f # seen) fs"

definition terminal_field :: "u8 list \<times> u8 list" where
  "terminal_field = (progress_key, ascii ''end'')"

definition record_total :: "(u8 list \<times> u8 list) list \<Rightarrow> nat" where
  "record_total fs = length (filter (\<lambda>f. fst f = progress_key) fs)"

definition progress_grammar :: "ProgressLimits \<Rightarrow> u8 list \<Rightarrow> bool" where
  "progress_grammar limits transcript \<longleftrightarrow>
     (let fs = transcript_fields transcript in
      last (split_on (\<lambda>b. b = newline) transcript) = [] \<and>
      list_all (field_ok limits) fs \<and> records_distinct [] fs \<and>
      fs \<noteq> [] \<and> last fs = terminal_field \<and> terminal_field \<notin> set (butlast fs))"

section \<open>Lines and fields\<close>

lemma split_on_snoc:
  "split_on P (xs @ [x]) = (if P x then split_on P xs @ [[]]
     else butlast (split_on P xs) @ [last (split_on P xs) @ [x]])"
  by (induction xs) (auto split: list.splits)

lemma split_on_pieces: "piece \<in> set (split_on P xs) \<Longrightarrow> x \<in> set piece \<Longrightarrow> \<not> P x"
  by (induction xs arbitrary: piece) (fastforce split: list.splits if_splits)+

lemma split_on_length: "piece \<in> set (split_on P xs) \<Longrightarrow> length piece \<le> length xs"
  by (induction xs arbitrary: piece) (fastforce split: list.splits if_splits)+

lemma split_on_lines:
  "\<forall>l \<in> set ls. newline \<notin> set l \<Longrightarrow>
     split_on (\<lambda>b. b = newline) (concat (map (\<lambda>l. l @ [newline]) ls)) = ls @ [[]]"
proof (induction ls)
  case (Cons l ls)
  have "split_on (\<lambda>b. b = newline) (l @ newline # xs) = l # split_on (\<lambda>b. b = newline) xs" for xs
    using Cons.prems split_on_none [of l "\<lambda>b. b = newline"]
    by (subst split_on_append) auto
  with Cons show ?case by simp
qed simp

lemma transcript_fields_snoc:
  "transcript_fields (bs @ [b]) =
     (if b = newline then transcript_fields bs @ [field_of (last (split_on (\<lambda>b. b = newline) bs))]
      else transcript_fields bs)"
proof -
  obtain ls cur where "split_on (\<lambda>b. b = newline) bs = ls @ [cur]"
    by (metis append_butlast_last_id split_on_ne)
  then show ?thesis by (simp add: transcript_fields_def split_on_snoc butlast_append)
qed

lemma open_keys_snoc:
  "open_keys seen (fs @ [f]) = (if fst f = progress_key then [] else fst f # open_keys seen fs)"
  by (induction fs arbitrary: seen) auto

lemma records_distinct_snoc:
  "records_distinct seen (fs @ [f]) \<longleftrightarrow>
     records_distinct seen fs \<and> fst f \<notin> set (open_keys seen fs)"
  by (induction fs arbitrary: seen) auto

lemma position_split_once:
  "position (\<lambda>b. b = c) xs = map_option (\<lambda>(a, b). length a) (split_once c xs)"
  by (induction xs) (auto simp: option.map_comp comp_def split: prod.splits intro!: option.map_cong)

lemma strip_cr_length: "length (strip_cr l) \<le> length l"
  by (simp add: strip_cr_def)

lemma strip_cr_set: "set (strip_cr l) \<subseteq> set l"
  by (auto simp: strip_cr_def dest: in_set_butlastD)

lemma field_of_length: "length (fst (field_of l)) \<le> length l \<and> length (snd (field_of l)) \<le> length l"
  using strip_cr_length [of l]
  by (auto simp: field_of_def split_once_eq_Some_iff split: option.splits)

lemma transcript_fields_length:
  "f \<in> set (transcript_fields bs) \<Longrightarrow> length (fst f) \<le> length bs \<and> length (snd f) \<le> length bs"
  unfolding transcript_fields_def
  using field_of_length split_on_length by (fastforce dest!: in_set_butlastD intro: le_trans)

text \<open>The record buffer holds the open fields, one line each.\<close>

definition field_line :: "u8 list \<times> u8 list \<Rightarrow> u8 list" where
  "field_line f = fst f @ equals_sign # snd f"

definition record_lines :: "(u8 list \<times> u8 list) list \<Rightarrow> u8 list" where
  "record_lines fs = concat (map (\<lambda>f. field_line f @ [newline]) fs)"

lemma record_contains_key_lines:
  assumes "\<forall>f \<in> set fs. newline \<notin> set (field_line f) \<and> equals_sign \<notin> set (fst f)"
  shows "record_contains_key (record_lines fs) key \<longleftrightarrow> key \<in> set (map fst fs)"
proof -
  have "split_on (\<lambda>b. b = newline) (record_lines fs) = map field_line fs @ [[]]"
    using split_on_lines [of "map field_line fs"] assms by (simp add: record_lines_def comp_def)
  moreover have "(case position (\<lambda>b. b = equals_sign) (field_line f) of None \<Rightarrow> False
      | Some separator \<Rightarrow> take separator (field_line f) = key) \<longleftrightarrow> fst f = key" if "f \<in> set fs" for f
    using assms that
    by (cases f) (auto simp: position_split_once field_line_def split_once_append)
  ultimately show ?thesis
    by (auto simp: record_contains_key_def list_ex_iff)
qed

section \<open>Accepted lines\<close>

lemma charge_steps_ok:
  "charge_steps n p = (q, Inr ()) \<Longrightarrow>
     pp_line q = pp_line p \<and> pp_record q = pp_record p \<and> pp_limits q = pp_limits p \<and>
     ps_record_count (pp_summary q) = ps_record_count (pp_summary p) \<and>
     ps_saw_terminal (pp_summary q) = ps_saw_terminal (pp_summary p)"
  by (auto simp: charge_steps_def Let_def split: option.splits if_splits)

lemma charge_record_ok:
  "charge_record line p = (q, Inr ()) \<Longrightarrow>
     pp_line q = pp_line p \<and> pp_record q = pp_record p \<and> pp_limits q = pp_limits p \<and>
     pp_summary q = pp_summary p"
  by (auto simp: charge_record_def Let_def split: option.splits if_splits)

lemma parse_field_ok:
  "parse_field limits line = Inr (key, val) \<Longrightarrow>
     split_once equals_sign line = Some (key, val) \<and> key \<noteq> [] \<and>
     list_all (\<lambda>b. is_ascii_lowercase b \<or> is_ascii_digit b \<or> b = underscore) key \<and>
     u64_or_max (length key) \<le> max_field_bytes limits \<and>
     u64_or_max (length val) \<le> max_field_bytes limits"
  by (auto simp: parse_field_def result_simps split: if_splits prod.splits)

lemma close_record_ok:
  "close_record val p = (q, Inr ()) \<Longrightarrow>
     (val = ascii ''continue'' \<or> val = ascii ''end'') \<and>
     ps_record_count (pp_summary p) < max_records (pp_limits p) \<and>
     unat (ps_record_count (pp_summary q)) = Suc (unat (ps_record_count (pp_summary p))) \<and>
     ps_saw_terminal (pp_summary q) = (val = ascii ''end'') \<and>
     pp_record q = [] \<and> pp_line q = pp_line p \<and> pp_limits q = pp_limits p"
  by (simp add: close_record_def split: option.splits if_splits)
    (auto simp: checked_add_eq_Some_iff)

lemma parse_line_ok:
  assumes "parse_line line p = (q, Inr ())"
  obtains key val p1 where
    "\<not> ps_saw_terminal (pp_summary p)" "parse_field (pp_limits p) line = Inr (key, val)"
    "\<not> record_contains_key (pp_record p) key"
    "pp_line p1 = pp_line p" "pp_record p1 = pp_record p" "pp_limits p1 = pp_limits p"
    "ps_record_count (pp_summary p1) = ps_record_count (pp_summary p)"
    "ps_saw_terminal (pp_summary p1) = ps_saw_terminal (pp_summary p)"
    "if key = progress_key then close_record val p1 = (q, Inr ())
     else q = p1\<lparr> pp_record := pp_record p @ line @ [newline] \<rparr>"
proof -
  from assms obtain p0 where p0: "charge_record line p = (p0, Inr ())"
    and fresh: "\<not> ps_saw_terminal (pp_summary p)"
    by (auto simp: parse_line_def progress_then_ok_iff split: if_splits)
  from assms p0 fresh obtain key val steps p1 where
    "parse_field (pp_limits p0) line = Inr (key, val)"
    "charge_steps steps p0 = (p1, Inr ())" "\<not> record_contains_key (pp_record p1) key"
    "if key = progress_key then close_record val p1 = (q, Inr ())
     else q = p1\<lparr> pp_record := pp_record p1 @ line @ [newline] \<rparr>"
    by (auto simp: parse_line_def progress_then_ok_iff progress_key_def
        split: if_splits sum.splits prod.splits option.splits)
  with charge_record_ok [OF p0] charge_steps_ok [of steps p0 p1] fresh show thesis
    by (intro that [of key val p1]) auto
qed

section \<open>The invariant of the scan\<close>

definition scan_inv :: "ProgressLimits \<Rightarrow> u8 list \<Rightarrow> ProgressParser \<Rightarrow> bool" where
  "scan_inv limits bs p \<longleftrightarrow>
     (let fs = transcript_fields bs in
      pp_limits p = limits \<and> pp_line p = last (split_on (\<lambda>b. b = newline) bs) \<and>
      (\<exists>os. pp_record p = record_lines os \<and> open_keys [] fs = rev (map fst os) \<and>
         (\<forall>f \<in> set os. newline \<notin> set (field_line f) \<and> equals_sign \<notin> set (fst f))) \<and>
      list_all (field_ok limits) fs \<and> records_distinct [] fs \<and>
      unat (ps_record_count (pp_summary p)) = record_total fs \<and>
      ps_record_count (pp_summary p) \<le> max_records limits \<and>
      ps_saw_terminal (pp_summary p) = (fs \<noteq> [] \<and> last fs = terminal_field) \<and>
      terminal_field \<notin> set (butlast fs))"

lemma scan_inv_new: "scan_inv limits [] (progress_new limits capacity)"
  by (auto simp: scan_inv_def transcript_fields_def progress_new_def empty_summary_def
      record_lines_def record_total_def)

lemma scan_inv_line:
  assumes inv: "scan_inv limits bs p"
    and line: "parse_line (strip_cr (pp_line p)) (p\<lparr> pp_line := [] \<rparr>) = (q, Inr ())"
  shows "scan_inv limits (bs @ [newline]) q"
proof -
  let ?fs = "transcript_fields bs" and ?l = "strip_cr (pp_line p)"
  from inv obtain os where os: "pp_record p = record_lines os" "open_keys [] ?fs = rev (map fst os)"
    "\<forall>f \<in> set os. newline \<notin> set (field_line f) \<and> equals_sign \<notin> set (fst f)"
    by (auto simp: scan_inv_def Let_def)
  from line obtain key val p1 where fresh: "\<not> ps_saw_terminal (pp_summary p)"
    and pf: "parse_field (pp_limits p) ?l = Inr (key, val)"
    and new: "\<not> record_contains_key (pp_record p) key"
    and p1: "pp_line p1 = []" "pp_record p1 = pp_record p" "pp_limits p1 = pp_limits p"
      "ps_record_count (pp_summary p1) = ps_record_count (pp_summary p)"
      "ps_saw_terminal (pp_summary p1) = ps_saw_terminal (pp_summary p)"
    and q: "if key = progress_key then close_record val p1 = (q, Inr ())
      else q = p1\<lparr> pp_record := pp_record p @ ?l @ [newline] \<rparr>"
    by (elim parse_line_ok) auto
  note field = parse_field_ok [OF pf]
  have cur: "pp_line p = last (split_on (\<lambda>b. b = newline) bs)" and lim: "pp_limits p = limits"
    using inv by (simp_all add: scan_inv_def Let_def)
  have fs: "transcript_fields (bs @ [newline]) = ?fs @ [(key, val)]"
    using field by (simp add: transcript_fields_snoc field_of_def cur [symmetric])
  have nl: "newline \<notin> set (field_line (key, val))"
    using field strip_cr_set [of "pp_line p"] split_on_pieces [of "pp_line p" "\<lambda>b. b = newline" bs newline]
    by (auto simp: split_once_eq_Some_iff field_line_def cur)
  have eq: "?l = key @ equals_sign # val" "equals_sign \<notin> set key"
    using field by (auto simp: split_once_eq_Some_iff)
  have unused: "key \<notin> set (open_keys [] ?fs)"
    using new os record_contains_key_lines [of os key] by auto
  have tail: "terminal_field \<notin> set ?fs"
    using inv fresh by (auto simp: scan_inv_def Let_def dest: in_set_butlastD)
      (metis append_butlast_last_id insert_iff list.simps(15) rotate1.simps(2) set_rotate1 empty_iff list.set(1))
  have buffers: "pp_line q = [] \<and> pp_limits q = limits \<and>
      (\<exists>os. pp_record q = record_lines os \<and> open_keys [] (?fs @ [(key, val)]) = rev (map fst os) \<and>
         (\<forall>f \<in> set os. newline \<notin> set (field_line f) \<and> equals_sign \<notin> set (fst f)))"
  proof (cases "key = progress_key")
    case True
    with q close_record_ok [of val p1 q] p1 lim show ?thesis
      by (auto simp: open_keys_snoc record_lines_def intro!: exI [of _ "[]"])
  next
    case False
    with q p1 lim os eq nl show ?thesis
      by (auto simp: open_keys_snoc record_lines_def field_line_def
          intro!: exI [of _ "os @ [(key, val)]"])
  qed
  have counts: "field_ok limits (key, val) \<and>
      unat (ps_record_count (pp_summary q)) = record_total (?fs @ [(key, val)]) \<and>
      ps_record_count (pp_summary q) \<le> max_records limits \<and>
      ps_saw_terminal (pp_summary q) = ((key, val) = terminal_field)"
  proof (cases "key = progress_key")
    case True
    with q have "close_record val p1 = (q, Inr ())" by simp
    note close = close_record_ok [OF this]
    with True inv field p1 lim show ?thesis
      by (auto simp: scan_inv_def Let_def field_ok_def record_total_def terminal_field_def
          word_less_nat_alt word_le_nat_alt)
  next
    case False
    with q p1 lim inv field fresh show ?thesis
      by (auto simp: scan_inv_def Let_def field_ok_def record_total_def terminal_field_def)
  qed
  from buffers counts inv unused tail show ?thesis
    by (simp add: scan_inv_def Let_def fs records_distinct_snoc split_on_snoc butlast_append)
qed

lemma scan_inv_byte:
  assumes inv: "scan_inv limits bs p" and step: "feed_byte b p = (q, Inr ())"
  shows "scan_inv limits (bs @ [b]) q"
proof -
  from step obtain p1 where p1: "charge_steps 1 p = (p1, Inr ())"
    and rest: "(if b = newline then parse_line (strip_cr (pp_line p1)) (p1\<lparr> pp_line := [] \<rparr>)
      else let p2 = p1\<lparr> pp_line := pp_line p1 @ [b] \<rparr>
           in if u64_or_max (length (pp_line p2)) > max_record_bytes (pp_limits p1)
              then (p2, Inl RecordBytesExceeded) else (p2, Inr ())) = (q, Inr ())"
    by (auto simp: feed_byte_def progress_then_ok_iff)
  from inv charge_steps_ok [OF p1] have inv1: "scan_inv limits bs p1"
    by (simp add: scan_inv_def)
  show ?thesis
  proof (cases "b = newline")
    case True
    with rest inv1 show ?thesis by (auto intro: scan_inv_line)
  next
    case False
    with rest have "q = p1\<lparr> pp_line := pp_line p1 @ [b] \<rparr>"
      by (auto simp: Let_def split: if_splits)
    with inv1 False show ?thesis
      by (simp add: scan_inv_def transcript_fields_snoc split_on_snoc)
  qed
qed

lemma scan_inv_bytes:
  "scan_inv limits bs p \<Longrightarrow> feed_bytes cs p = (q, Inr ()) \<Longrightarrow> scan_inv limits (bs @ cs) q"
proof (induction cs arbitrary: bs p)
  case (Cons c cs)
  then obtain p1 where "feed_byte c p = (p1, Inr ())" "feed_bytes cs p1 = (q, Inr ())"
    by (auto simp: progress_then_ok_iff)
  with Cons.IH [of "bs @ [c]" p1] Cons.prems(1) scan_inv_byte show ?case by simp
qed simp

lemma scan_inv_evidence [simp]: "scan_inv limits bs (with_evidence a r c p) = scan_inv limits bs p"
  by (simp add: scan_inv_def)

lemma replay_scan:
  assumes "replay_progress_transcript t limits = Inr s"
  obtains p where "scan_inv limits t p" "progress_finish p = Inr s" "evidence_ok p"
    "ps_raw_transcript (pp_summary p) = t" "pp_limits p = limits"
proof -
  from assms obtain p where fed: "feed t (progress_new limits (length t)) = (p, Inr ())"
    and fin: "progress_finish p = Inr s"
    by (auto simp: replay_progress_transcript_def Let_def rbind_eq_Inr_iff split: prod.splits)
  note evidence = feed_ok_evidence [OF progress_new_evidence fed]
  from fed obtain a r c where
    "feed_bytes t (with_evidence a r c (progress_new limits (length t))) = (p, Inr ())"
    by (auto simp: feed_ok_iff)
  then have "scan_inv limits ([] @ t) p"
    by (rule scan_inv_bytes [rotated]) (simp add: scan_inv_new)
  with fin evidence show thesis
    by (intro that) (simp_all add: progress_new_def empty_summary_def)
qed

section \<open>The properties\<close>

text \<open>
  An accepted transcript obeys the progress grammar: it consists of complete lines, every
  line is a field with a well-formed bounded key and a bounded value, no record repeats a key,
  the last line is \<open>progress=end\<close> and no earlier line is. The summary counts its records and
  bytes exactly, within the limits.
\<close>

theorem progress_grammar_sound:
  assumes "replay_progress_transcript transcript limits = Inr summary"
  shows "progress_grammar limits transcript
    \<and> ps_raw_transcript summary = transcript \<and> ps_saw_terminal summary
    \<and> unat (ps_record_count summary) = record_total (transcript_fields transcript)
    \<and> unat (ps_total_bytes summary) = length transcript
    \<and> ps_record_count summary \<le> max_records limits
    \<and> ps_total_bytes summary \<le> max_total_bytes limits
    \<and> (\<forall>f \<in> set (transcript_fields transcript).
         length (fst f) \<le> unat (max_field_bytes limits) \<and> length (snd f) \<le> unat (max_field_bytes limits))"
proof -
  from assms obtain p where inv: "scan_inv limits transcript p" and fin: "progress_finish p = Inr summary"
    and ev: "evidence_ok p" "ps_raw_transcript (pp_summary p) = transcript" "pp_limits p = limits"
    by (rule replay_scan)
  from fin have ended: "pp_line p = []" "ps_saw_terminal (pp_summary p)" "summary = pp_summary p"
    by (auto simp: progress_finish_def split: if_splits)
  have "length transcript < 2 ^ 64"
    using ev unat_bound [of "ps_total_bytes (pp_summary p)"] by (simp add: evidence_ok_def)
  then have "length (fst f) \<le> unat (max_field_bytes limits) \<and> length (snd f) \<le> unat (max_field_bytes limits)"
    if "f \<in> set (transcript_fields transcript)" for f
    using transcript_fields_length [OF that] inv that
    by (auto simp: scan_inv_def Let_def list_all_iff field_ok_def u64_or_max_le_iff)
  with inv ev ended show ?thesis
    by (simp add: scan_inv_def progress_grammar_def Let_def evidence_ok_def)
qed

definition sample_limits :: ProgressLimits where
  "sample_limits = \<lparr> max_records = 4, max_total_bytes = 256, max_record_bytes = 128,
     max_field_bytes = 64, max_parser_steps = 512 \<rparr>"

definition sample_transcript :: "u8 list" where
  "sample_transcript = ascii ''a=1'' @ [newline] @ ascii ''progress=end'' @ [newline]"

lemmas progress_eval = feed_def feed_byte_def charge_steps_def charge_record_def parse_line_def
  parse_field_def close_record_def duplicate_scan_steps_def record_contains_key_def
  progress_new_def empty_summary_def usize_checked_add_def usize_checked_mul_def u64_try_from_def
  u64_or_max_def checked_add_code strip_cr_def progress_finish_def is_ascii_lowercase_def
  is_ascii_digit_def progress_then_def

lemma sample_replay:
  "replay_progress_transcript sample_transcript sample_limits =
     Inr \<lparr> ps_record_count = 1, ps_total_bytes = 17, ps_parser_steps = 34, ps_saw_terminal = True,
           ps_raw_transcript = sample_transcript \<rparr>"
  by (simp add: replay_progress_transcript_def sample_limits_def sample_transcript_def
      progress_eval Let_def)

theorem progress_grammar_sound_witness: "progress_grammar sample_limits sample_transcript"
  using progress_grammar_sound [OF sample_replay] by simp

end
