(* ===== verification/Progress_Evidence.thy ===== *)
theory Progress_Evidence
  imports Bounded_IO Progress_Grammar
begin

text \<open>
  The independent verifier of progress evidence (\<open>fforager-xtask/src/ffmpeg_report.rs\<close>): it
  replays the transcript of a report with a parser of its own and recomputes the transcript
  capacity from the declared resources.
\<close>

section \<open>Data\<close>

record ProgressObservationsV1 =
  po_record_count :: u64
  po_total_bytes :: u64
  po_parser_steps :: u64
  po_saw_terminal :: bool

record LimitsEvidenceV1 =
  startup_timeout_millis :: u64
  execution_timeout_millis :: u64
  graceful_stop_timeout_millis :: u64
  forced_kill_timeout_millis :: u64
  reap_timeout_millis :: u64
  ffprobe_timeout_millis :: u64
  progress_max_records :: u64
  progress_max_total_bytes :: u64
  progress_max_record_bytes :: u64
  progress_max_field_bytes :: u64
  progress_max_parser_steps :: u64
  progress_max_silence_millis :: u64
  consumer_stall_timeout_millis :: u64
  stderr_max_total_bytes :: u64
  stderr_tail_bytes :: u64
  pipe_allocation_bytes :: u64
  output_max_streams :: u32
  output_max_duration_millis :: u64
  output_max_file_size_bytes :: u64
  output_max_width :: u32
  output_max_height :: u32
  output_max_channels :: u32

definition raw_progress_error :: "string \<Rightarrow> string" where
  "raw_progress_error message = ''FF-WP010-E-RAW-PROGRESS: '' @ message"

text \<open>The local variables of the replay loop.\<close>

record replay_state =
  rp_line :: "u8 list"
  rp_record :: "u8 list"
  rp_record_bytes :: u64
  rp_observation :: ProgressObservationsV1

section \<open>Operations\<close>

definition record_contains_progress_key :: "u8 list \<Rightarrow> u8 list \<Rightarrow> bool" where
  "record_contains_progress_key record candidate =
     list_ex (\<lambda>line. case position (\<lambda>b. b = equals_sign) line of
         None \<Rightarrow> False
       | Some separator \<Rightarrow> take separator line = candidate)
       (split_on (\<lambda>b. b = newline) record)"

definition evidence_close :: "LimitsEvidenceV1 \<Rightarrow> u8 list \<Rightarrow> replay_state \<Rightarrow> string + replay_state" where
  "evidence_close limits val s =
     (if val \<noteq> ascii ''continue'' \<and> val \<noteq> ascii ''end''
      then Inl (raw_progress_error ''invalid progress marker'')
      else rbind (ok_or (raw_progress_error ''record count overflow'')
             (checked_add (po_record_count (rp_observation s)) 1)) (\<lambda>count.
           if count > progress_max_records limits
           then Inl (raw_progress_error ''record count bound exceeded'')
           else Inr (s\<lparr> rp_record := [], rp_record_bytes := 0,
                  rp_observation := (rp_observation s)
                    \<lparr> po_saw_terminal := (val = ascii ''end''), po_record_count := count \<rparr> \<rparr>)))"

definition evidence_line :: "LimitsEvidenceV1 \<Rightarrow> replay_state \<Rightarrow> string + replay_state" where
  "evidence_line limits s =
     (let line = strip_cr (rp_line s) in
      rbind (ok_or (raw_progress_error ''record size overflow'')
        (checked_add (rp_record_bytes s) (of_nat (length line) + 1))) (\<lambda>bytes.
      if bytes > progress_max_record_bytes limits
      then Inl (raw_progress_error ''record bound exceeded'')
      else if \<not> utf8_valid line then Inl (raw_progress_error ''non-UTF-8 field'')
      else rbind (ok_or (raw_progress_error ''malformed field'') (split_once equals_sign line))
        (\<lambda>(key, val).
      if key = [] \<or> of_nat (length key) > progress_max_field_bytes limits
         \<or> of_nat (length val) > progress_max_field_bytes limits
         \<or> \<not> list_all (\<lambda>b. is_ascii_lowercase b \<or> is_ascii_digit b \<or> b = underscore) key
      then Inl (raw_progress_error ''invalid field'')
      else rbind (ok_or (raw_progress_error ''parser work overflow'')
        (Option.bind (usize_checked_mul (length (rp_record s)) 2) (\<lambda>v.
         Option.bind (usize_checked_add v (length key)) u64_try_from))) (\<lambda>scan_steps.
      rbind (ok_or (raw_progress_error ''parser work overflow'')
        (checked_add (po_parser_steps (rp_observation s)) scan_steps)) (\<lambda>steps.
      if steps > progress_max_parser_steps limits
         \<or> record_contains_progress_key (rp_record s) key
      then Inl (raw_progress_error ''duplicate field or work bound'')
      else let t = s\<lparr> rp_line := line, rp_record_bytes := bytes,
             rp_observation := (rp_observation s)\<lparr> po_parser_steps := steps \<rparr> \<rparr>
        in rbind (if key = ascii ''progress'' then evidence_close limits val t
                  else Inr (t\<lparr> rp_record := rp_record t @ line @ [newline] \<rparr>))
             (\<lambda>t. Inr (t\<lparr> rp_line := [] \<rparr>)))))))"

definition evidence_byte :: "LimitsEvidenceV1 \<Rightarrow> u8 \<Rightarrow> replay_state \<Rightarrow> string + replay_state" where
  "evidence_byte limits byte s =
     rbind (ok_or (raw_progress_error ''parser work overflow'')
       (checked_add (po_parser_steps (rp_observation s)) 1)) (\<lambda>steps.
     if steps > progress_max_parser_steps limits
     then Inl (raw_progress_error ''parser work bound exceeded'')
     else let t = s\<lparr> rp_observation := (rp_observation s)\<lparr> po_parser_steps := steps \<rparr> \<rparr> in
       if byte \<noteq> newline
       then (let t = t\<lparr> rp_line := rp_line t @ [byte] \<rparr>
             in if of_nat (length (rp_line t)) > progress_max_record_bytes limits
                then Inl (raw_progress_error ''line bound exceeded'') else Inr t)
       else if po_saw_terminal (rp_observation t)
       then Inl (raw_progress_error ''bytes follow terminal record'')
       else evidence_line limits t)"

fun evidence_bytes :: "LimitsEvidenceV1 \<Rightarrow> u8 list \<Rightarrow> replay_state \<Rightarrow> string + replay_state" where
  "evidence_bytes limits [] s = Inr s"
| "evidence_bytes limits (byte # bytes) s =
     rbind (evidence_byte limits byte s) (evidence_bytes limits bytes)"

definition evidence_replay :: "u8 list \<Rightarrow> LimitsEvidenceV1 \<Rightarrow> string + ProgressObservationsV1" where
  "evidence_replay transcript limits =
     (if transcript = [] \<or> of_nat (length transcript) > progress_max_total_bytes limits
      then Inl (raw_progress_error ''transcript byte bound exceeded'')
      else rbind (evidence_bytes limits transcript
          \<lparr> rp_line = [], rp_record = [], rp_record_bytes = 0,
            rp_observation = \<lparr> po_record_count = 0, po_total_bytes = of_nat (length transcript),
              po_parser_steps = 0, po_saw_terminal = False \<rparr> \<rparr>) (\<lambda>s.
        if rp_line s \<noteq> [] \<or> rp_record s \<noteq> [] \<or> \<not> po_saw_terminal (rp_observation s)
        then Inl (raw_progress_error ''truncated or missing terminal record'')
        else Inr (rp_observation s)))"

text \<open>The capacity the verifier grants, from the declared stdout share and limits.\<close>

definition progress_transcript_capacity :: "u64 \<Rightarrow> LimitsEvidenceV1 \<Rightarrow> string + usize" where
  "progress_transcript_capacity progress_pipe_bytes limits =
     (let allocation = unat progress_pipe_bytes in
      rbind (ok_or (raw_progress_error ''parser allocation overflow'')
        (usize_checked_mul (unat (progress_max_record_bytes limits)) 2)) (\<lambda>parser_bytes.
      rbind (ok_or (raw_progress_error ''parser allocation exceeds credit'')
        (usize_checked_sub allocation parser_bytes)) (\<lambda>available.
      let chunk_bytes = min (available div 8) (8 * 1024) in
      rbind (ok_or (raw_progress_error ''chunk allocation overflow'')
        (usize_checked_mul chunk_bytes 4)) (\<lambda>chunk_allocation.
      rbind (ok_or (raw_progress_error ''transcript allocation underflow'')
        (usize_checked_sub available chunk_allocation)) (\<lambda>rest.
      let transcript_capacity = min rest (unat (progress_max_total_bytes limits)) in
      if chunk_bytes = 0 \<or> transcript_capacity = 0
      then Inl (raw_progress_error ''invalid governed allocation'')
      else Inr transcript_capacity)))))"

section \<open>The limits the supervisor passes on\<close>

definition supervisor_progress_limits :: "LimitsEvidenceV1 \<Rightarrow> ProgressLimits" where
  "supervisor_progress_limits limits =
     \<lparr> max_records = progress_max_records limits,
       max_total_bytes = progress_max_total_bytes limits,
       max_record_bytes = progress_max_record_bytes limits,
       max_field_bytes = progress_max_field_bytes limits,
       max_parser_steps = progress_max_parser_steps limits \<rparr>"

definition supervisor_runtime_limits :: "u64 \<Rightarrow> LimitsEvidenceV1 \<Rightarrow> ProgressRuntimeLimits" where
  "supervisor_runtime_limits progress_pipe_bytes limits =
     \<lparr> allocation_bytes = unat progress_pipe_bytes,
       cadence_timeout = unat (progress_max_silence_millis limits),
       consumer_stall_timeout = unat (consumer_stall_timeout_millis limits) \<rparr>"

section \<open>The two parsers agree\<close>

definition sim :: "ProgressParser \<Rightarrow> replay_state \<Rightarrow> bool" where
  "sim p s \<longleftrightarrow>
     rp_line s = pp_line p \<and> rp_record s = pp_record p \<and> rp_record_bytes s = pp_record_bytes p \<and>
     po_record_count (rp_observation s) = ps_record_count (pp_summary p) \<and>
     po_parser_steps (rp_observation s) = ps_parser_steps (pp_summary p) \<and>
     po_saw_terminal (rp_observation s) = ps_saw_terminal (pp_summary p)"

definition agree :: "progress_result \<Rightarrow> string + replay_state \<Rightarrow> bool" where
  "agree r e = (case (snd r, e) of (Inr _, Inr s) \<Rightarrow> sim (fst r) s | (Inl _, Inl _) \<Rightarrow> True | _ \<Rightarrow> False)"

lemma agree_simps [simp]:
  "agree (p, Inr u) (Inr s) = sim p s" "agree (p, Inl a) (Inl b)"
  "\<not> agree (p, Inr u) (Inl b)" "\<not> agree (p, Inl a) (Inr s)"
  by (simp_all add: agree_def)

lemma close_agree:
  assumes "sim p s" and "pp_limits p = supervisor_progress_limits limits"
  shows "agree (close_record val p) (evidence_close limits val s)"
proof -
  have count: "count > max \<longleftrightarrow> ps_record_count (pp_summary p) \<ge> max"
    if "checked_add (ps_record_count (pp_summary p)) 1 = Some count" for count max
    using that by (auto simp: checked_add_eq_Some_iff word_less_nat_alt word_le_nat_alt)
  have top: "max \<le> ps_record_count (pp_summary p)"
    if "checked_add (ps_record_count (pp_summary p)) 1 = None" for max
    using that by (simp add: checked_add_1_None)
  show ?thesis
    using assms
    by (auto simp: close_record_def evidence_close_def sim_def supervisor_progress_limits_def
        count top not_le split: option.splits)
qed

definition field_fits :: "LimitsEvidenceV1 \<Rightarrow> u8 list \<Rightarrow> u8 list \<Rightarrow> u8 list \<Rightarrow> bool" where
  "field_fits limits line key val \<longleftrightarrow>
     utf8_valid line \<and> split_once equals_sign line = Some (key, val) \<and> key \<noteq> [] \<and>
     of_nat (length key) \<le> progress_max_field_bytes limits \<and>
     of_nat (length val) \<le> progress_max_field_bytes limits \<and>
     list_all (\<lambda>b. is_ascii_lowercase b \<or> is_ascii_digit b \<or> b = underscore) key"

lemma parse_field_fits:
  assumes "length line < 2 ^ 64"
  shows "parse_field (supervisor_progress_limits limits) line = Inr (key, val) \<longleftrightarrow>
    field_fits limits line key val"
proof -
  show ?thesis
  proof (cases "split_once equals_sign line")
    case None
    then show ?thesis by (simp add: parse_field_def field_fits_def)
  next
    case (Some f)
    moreover from this assms have "length (fst f) < 2 ^ 64" "length (snd f) < 2 ^ 64"
      by (cases f; auto simp: split_once_eq_Some_iff)+
    ultimately show ?thesis
      by (cases f) (auto simp: parse_field_def field_fits_def supervisor_progress_limits_def
          u64_or_max_of_nat not_less)
  qed
qed

text \<open>What the verifier does with a line, by the verdict on its field.\<close>

definition evidence_tail ::
  "LimitsEvidenceV1 \<Rightarrow> u8 list \<Rightarrow> u64 \<Rightarrow> u8 list \<Rightarrow> u8 list \<Rightarrow> replay_state \<Rightarrow> string + replay_state" where
  "evidence_tail limits line bytes key val s =
     (case Option.bind (duplicate_scan_steps (rp_record s) key)
         (checked_add (po_parser_steps (rp_observation s))) of
        None \<Rightarrow> Inl (raw_progress_error ''parser work overflow'')
      | Some steps \<Rightarrow>
          if steps > progress_max_parser_steps limits
             \<or> record_contains_progress_key (rp_record s) key
          then Inl (raw_progress_error ''duplicate field or work bound'')
          else let t = s\<lparr> rp_line := line, rp_record_bytes := bytes,
                 rp_observation := (rp_observation s)\<lparr> po_parser_steps := steps \<rparr> \<rparr>
            in rbind (if key = ascii ''progress'' then evidence_close limits val t
                      else Inr (t\<lparr> rp_record := rp_record t @ line @ [newline] \<rparr>))
                 (\<lambda>t. Inr (t\<lparr> rp_line := [] \<rparr>)))"

lemma evidence_line_fits:
  assumes "checked_add (rp_record_bytes s) (of_nat (length (strip_cr (rp_line s))) + 1) = Some bytes"
    and "\<not> bytes > progress_max_record_bytes limits"
    and "field_fits limits (strip_cr (rp_line s)) key val"
  shows "evidence_line limits s = evidence_tail limits (strip_cr (rp_line s)) bytes key val s"
proof -
  have "evidence_line limits s =
      rbind (ok_or (raw_progress_error ''parser work overflow'') (duplicate_scan_steps (rp_record s) key))
        (\<lambda>scan. rbind (ok_or (raw_progress_error ''parser work overflow'')
          (checked_add (po_parser_steps (rp_observation s)) scan)) (\<lambda>steps.
        if steps > progress_max_parser_steps limits
           \<or> record_contains_progress_key (rp_record s) key
        then Inl (raw_progress_error ''duplicate field or work bound'')
        else let t = s\<lparr> rp_line := strip_cr (rp_line s), rp_record_bytes := bytes,
               rp_observation := (rp_observation s)\<lparr> po_parser_steps := steps \<rparr> \<rparr>
          in rbind (if key = ascii ''progress'' then evidence_close limits val t
                    else Inr (t\<lparr> rp_record := rp_record t @ strip_cr (rp_line s) @ [newline] \<rparr>))
               (\<lambda>t. Inr (t\<lparr> rp_line := [] \<rparr>))))"
    using assms
    by (simp add: evidence_line_def field_fits_def Let_def not_less [symmetric] duplicate_scan_steps_def
        del: ascii_simps not_less)
  also have "\<dots> = evidence_tail limits (strip_cr (rp_line s)) bytes key val s"
    by (cases "duplicate_scan_steps (rp_record s) key")
      (simp_all add: evidence_tail_def rbind_def ok_or_def del: ascii_simps split: option.splits)
  finally show ?thesis .
qed

lemma evidence_line_unfit:
  assumes "checked_add (rp_record_bytes s) (of_nat (length (strip_cr (rp_line s))) + 1) = Some bytes"
    and "\<not> bytes > progress_max_record_bytes limits"
    and "\<And>key val. \<not> field_fits limits (strip_cr (rp_line s)) key val"
  shows "\<exists>m. evidence_line limits s = Inl m"
proof (cases "split_once equals_sign (strip_cr (rp_line s))")
  case None
  then show ?thesis using assms(1,2) by (auto simp: evidence_line_def Let_def not_less)
next
  case (Some f)
  then show ?thesis
    using assms(1,2) assms(3) [of "fst f" "snd f"]
    by (cases f) (auto simp: evidence_line_def field_fits_def Let_def not_less)
qed

lemma tail_agree:
  assumes sim: "sim p s" and lim: "pp_limits p = supervisor_progress_limits limits"
  shows "agree
    (case duplicate_scan_steps (pp_record p) key of
       None \<Rightarrow> (p\<lparr> pp_line := [], pp_record_bytes := bytes \<rparr>, Inl ParserWorkExceeded)
     | Some steps \<Rightarrow> progress_then (charge_steps steps (p\<lparr> pp_line := [], pp_record_bytes := bytes \<rparr>)) (\<lambda>p.
         if record_contains_key (pp_record p) key then (p, Inl DuplicateField)
         else if key = ascii ''progress'' then close_record val p
         else (p\<lparr> pp_record := pp_record p @ line @ [newline] \<rparr>, Inr ())))
    (evidence_tail limits line bytes key val s)"
proof (cases "Option.bind (duplicate_scan_steps (pp_record p) key)
    (checked_add (ps_parser_steps (pp_summary p)))")
  case None
  then show ?thesis
    using sim by (cases "duplicate_scan_steps (pp_record p) key")
      (auto simp: evidence_tail_def sim_def charge_steps_def)
next
  case (Some steps)
  then obtain scan where scan: "duplicate_scan_steps (pp_record p) key = Some scan"
    and steps: "checked_add (ps_parser_steps (pp_summary p)) scan = Some steps"
    by (auto simp: bind_eq_Some_conv)
  let ?p = "p\<lparr> pp_line := [], pp_record_bytes := bytes,
    pp_summary := (pp_summary p)\<lparr> ps_parser_steps := steps \<rparr> \<rparr>"
  let ?t = "\<lambda>line. s\<lparr> rp_line := line, rp_record_bytes := bytes,
    rp_observation := (rp_observation s)\<lparr> po_parser_steps := steps \<rparr> \<rparr>"
  have close: "agree (close_record val ?p)
      (rbind (evidence_close limits val (?t line)) (\<lambda>t. Inr (t\<lparr> rp_line := [] \<rparr>)))"
  proof -
    have "rbind (evidence_close limits val (?t line)) (\<lambda>t. Inr (t\<lparr> rp_line := [] \<rparr>)) =
        evidence_close limits val (?t [])"
      by (simp add: evidence_close_def rbind_def ok_or_def split: option.splits)
    then show ?thesis using sim lim by (auto simp: sim_def intro!: close_agree)
  qed
  have "record_contains_progress_key = record_contains_key"
    by (simp add: fun_eq_iff record_contains_progress_key_def record_contains_key_def)
  then show ?thesis
    using sim lim scan steps close
    by (auto simp: evidence_tail_def sim_def charge_steps_def Let_def supervisor_progress_limits_def)
qed

lemma line_agree:
  assumes sim: "sim p s" and lim: "pp_limits p = supervisor_progress_limits limits"
    and len: "length (pp_line p) + 1 < 2 ^ 64"
  shows "agree (parse_line (strip_cr (pp_line p)) (p\<lparr> pp_line := [] \<rparr>))
    (if po_saw_terminal (rp_observation s) then Inl m else evidence_line limits s)"
proof (cases "ps_saw_terminal (pp_summary p)")
  case True
  with sim show ?thesis by (simp add: parse_line_def sim_def)
next
  case False
  let ?line = "strip_cr (pp_line p)"
  have short: "length ?line + 1 < 2 ^ 64"
    using len by (auto simp: strip_cr_def)
  have bytes: "u64_or_max (length ?line + 1) = of_nat (length ?line) + 1"
    using short by (simp add: u64_or_max_of_nat)
  have s: "rp_line s = pp_line p" "rp_record_bytes s = pp_record_bytes p"
    "\<not> po_saw_terminal (rp_observation s)"
    using sim False by (simp_all add: sim_def)
  show ?thesis
  proof (cases "checked_add (pp_record_bytes p) (of_nat (length ?line) + 1)")
    case None
    with False s bytes show ?thesis
      by (simp add: parse_line_def charge_record_def evidence_line_def Let_def)
  next
    case (Some total)
    show ?thesis
    proof (cases "total > progress_max_record_bytes limits")
      case True
      with False s bytes Some lim show ?thesis
        by (simp add: parse_line_def charge_record_def evidence_line_def Let_def
            supervisor_progress_limits_def)
    next
      case fits: False
      let ?p = "p\<lparr> pp_line := [], pp_record_bytes := total \<rparr>"
      have charged: "charge_record ?line (p\<lparr> pp_line := [] \<rparr>) = (?p, Inr ())"
        using Some bytes fits lim by (simp add: charge_record_def supervisor_progress_limits_def)
      note total = Some [folded s(1) s(2)]
      show ?thesis
      proof (cases "parse_field (pp_limits p) ?line")
        case (Inl e)
        then have "\<not> field_fits limits ?line key val" for key val
          using parse_field_fits [of ?line limits key val] short lim by auto
        then show ?thesis
          using evidence_line_unfit [OF total fits] s False charged Inl by (auto simp: parse_line_def)
      next
        case (Inr f)
        then obtain key val where f: "parse_field (pp_limits p) ?line = Inr (key, val)"
          by (cases f) simp
        then have "field_fits limits ?line key val"
          using parse_field_fits [of ?line limits key val] short lim by auto
        then show ?thesis
          using tail_agree [OF sim lim, where key = key and val = val and line = ?line and bytes = total]
            evidence_line_fits [OF total fits, of key val] s False charged f
          by (simp add: parse_line_def del: ascii_simps)
      qed
    qed
  qed
qed

lemma byte_agree:
  assumes sim: "sim p s" and lim: "pp_limits p = supervisor_progress_limits limits"
    and len: "length (pp_line p) + 1 < 2 ^ 64"
  shows "agree (feed_byte b p) (evidence_byte limits b s)"
proof (cases "checked_add (ps_parser_steps (pp_summary p)) 1")
  case None
  with sim show ?thesis by (simp add: feed_byte_def charge_steps_def evidence_byte_def sim_def)
next
  case (Some steps)
  let ?p = "p\<lparr> pp_summary := (pp_summary p)\<lparr> ps_parser_steps := steps \<rparr> \<rparr>"
  let ?s = "s\<lparr> rp_observation := (rp_observation s)\<lparr> po_parser_steps := steps \<rparr> \<rparr>"
  have sim': "sim ?p ?s" using sim by (simp add: sim_def)
  have line: "agree (parse_line (strip_cr (pp_line ?p)) (?p\<lparr> pp_line := [] \<rparr>))
      (if po_saw_terminal (rp_observation ?s)
       then Inl (raw_progress_error ''bytes follow terminal record'') else evidence_line limits ?s)"
    using lim len by (intro line_agree [OF sim']) simp_all
  show ?thesis
    using Some sim lim len line
    by (auto simp: feed_byte_def charge_steps_def evidence_byte_def sim_def Let_def
        supervisor_progress_limits_def u64_or_max_of_nat)
qed

lemma bytes_agree:
  "scan_inv (supervisor_progress_limits limits) xs p \<Longrightarrow> sim p s \<Longrightarrow>
     length (xs @ bs) + 1 < 2 ^ 64 \<Longrightarrow> agree (feed_bytes bs p) (evidence_bytes limits bs s)"
proof (induction bs arbitrary: xs p s)
  case (Cons b bs)
  have lim: "pp_limits p = supervisor_progress_limits limits"
    and line: "pp_line p = last (split_on (\<lambda>b. b = newline) xs)"
    using Cons.prems(1) by (simp_all add: scan_inv_def Let_def)
  have "length (pp_line p) + 1 < 2 ^ 64"
    using split_on_length [of "pp_line p" "\<lambda>b. b = newline" xs] Cons.prems(3) by (simp add: line)
  from byte_agree [OF Cons.prems(2) lim this, of b] show ?case
    using Cons scan_inv_byte [OF Cons.prems(1), of b]
    by (cases "feed_byte b p"; cases "evidence_byte limits b s"; cases "snd (feed_byte b p)") auto
qed simp

definition progress_observations_of :: "ProgressSummary \<Rightarrow> ProgressObservationsV1" where
  "progress_observations_of summary =
     \<lparr> po_record_count = ps_record_count summary, po_total_bytes = ps_total_bytes summary,
       po_parser_steps = ps_parser_steps summary, po_saw_terminal = ps_saw_terminal summary \<rparr>"

lemma evidence_bytes_total:
  "evidence_bytes limits bs s = Inr t \<Longrightarrow> po_total_bytes (rp_observation t) = po_total_bytes (rp_observation s)"
proof (induction bs arbitrary: s)
  case (Cons b bs)
  have "po_total_bytes (rp_observation t) = po_total_bytes (rp_observation s)"
    if "evidence_line limits s = Inr t" for s t
    using that by (auto simp: evidence_line_def evidence_close_def Let_def result_simps
        split: if_splits prod.splits)
  then have "po_total_bytes (rp_observation t) = po_total_bytes (rp_observation s)"
    if "evidence_byte limits b s = Inr t" for s t
    using that by (fastforce simp: evidence_byte_def Let_def result_simps split: if_splits)
  with Cons show ?case by (auto simp: rbind_eq_Inr_iff)
qed simp

lemma evidence_judges:
  assumes "length transcript < 2 ^ 63"
  shows "case replay_progress_transcript transcript (supervisor_progress_limits limits) of
     Inr summary \<Rightarrow> evidence_replay transcript limits = Inr (progress_observations_of summary)
   | Inl _ \<Rightarrow> \<exists>message. evidence_replay transcript limits = Inl message"
proof -
  let ?lim = "supervisor_progress_limits limits" and ?n = "length transcript"
  let ?new = "progress_new ?lim ?n"
  let ?p = "with_evidence (of_nat ?n) transcript ?n ?new"
  let ?s = "\<lparr> rp_line = [], rp_record = [], rp_record_bytes = 0,
    rp_observation = \<lparr> po_record_count = 0, po_total_bytes = of_nat ?n,
      po_parser_steps = 0, po_saw_terminal = False \<rparr> \<rparr>"
  have big: "of_nat ?n > progress_max_total_bytes limits \<longleftrightarrow> ?n > unat (progress_max_total_bytes limits)"
    using assms by (simp add: word_less_nat_alt unat_of_nat_u64)
  have fed: "feed transcript ?new = (q, Inr ()) \<longleftrightarrow>
      ?n \<le> unat (progress_max_total_bytes limits) \<and> feed_bytes transcript ?p = (q, Inr ())" for q
    by (simp add: feed_ok_iff)
      (simp add: progress_new_def empty_summary_def supervisor_progress_limits_def)
  have agree: "agree (feed_bytes transcript ?p) (evidence_bytes limits transcript ?s)"
    by (rule bytes_agree [of _ "[]"])
      (use assms in \<open>simp_all add: scan_inv_new, simp add: sim_def progress_new_def empty_summary_def\<close>)
  have rejected: "\<exists>e. replay_progress_transcript transcript ?lim = Inl e"
    if "\<nexists>q. feed transcript ?new = (q, Inr ())"
    using that by (cases "feed transcript ?new"; cases "snd (feed transcript ?new)")
      (auto simp: replay_progress_transcript_def)
  show ?thesis
  proof (cases "?n \<le> unat (progress_max_total_bytes limits)")
    case False
    with rejected fed big show ?thesis by (auto simp: evidence_replay_def split: sum.splits)
  next
    case short: True
    show ?thesis
    proof (cases "evidence_bytes limits transcript ?s")
      case (Inl m)
      with agree have "\<nexists>q. feed_bytes transcript ?p = (q, Inr ())" by auto
      with rejected fed Inl show ?thesis by (auto simp: evidence_replay_def split: sum.splits)
    next
      case (Inr t)
      with agree obtain q where q: "feed_bytes transcript ?p = (q, Inr ())" and sim: "sim q t"
        by (cases "feed_bytes transcript ?p"; cases "snd (feed_bytes transcript ?p)") auto
      have replay: "replay_progress_transcript transcript ?lim = progress_finish q"
      proof -
        have "feed transcript ?new = (q, Inr ())" using q fed short by blast
        then show ?thesis by (simp add: replay_progress_transcript_def)
      qed
      have "ps_total_bytes (pp_summary q) = of_nat ?n"
        by (subst feed_bytes_raw [OF q]) (simp add: with_evidence_def)
      then have "progress_observations_of (pp_summary q) = rp_observation t"
        using sim evidence_bytes_total [OF Inr] by (simp add: progress_observations_of_def sim_def)
      moreover have "\<not> ps_saw_terminal (pp_summary q)" if "transcript = []"
        using q that by (auto simp: progress_new_def empty_summary_def with_evidence_def)
      ultimately show ?thesis
        using sim short big Inr
        by (auto simp: replay progress_finish_def evidence_replay_def sim_def split: if_splits)
    qed
  qed
qed

lemma evidence_accepts:
  assumes "length transcript < 2 ^ 63"
    and "replay_progress_transcript transcript (supervisor_progress_limits limits) = Inr summary"
  shows "evidence_replay transcript limits = Inr (progress_observations_of summary)"
  using evidence_judges [OF assms(1), of limits] assms(2) by simp

text \<open>
  C18: The verifier's own replay and the product's parser are the same judge: on every transcript
  a vector can hold, the verifier accepts exactly the transcripts the product's replay accepts,
  and then reports exactly the observations of the product's summary.
\<close>

theorem progress_evidence_equivalence:
  assumes "length transcript < 2 ^ 63"
  shows "case replay_progress_transcript transcript (supervisor_progress_limits limits) of
     Inr summary \<Rightarrow> evidence_replay transcript limits = Inr (progress_observations_of summary)
   | Inl _ \<Rightarrow> \<exists>message. evidence_replay transcript limits = Inl message"
  using assms by (rule evidence_judges)

definition sample_evidence_limits :: LimitsEvidenceV1 where
  "sample_evidence_limits =
     \<lparr> startup_timeout_millis = 1, execution_timeout_millis = 1, graceful_stop_timeout_millis = 1,
       forced_kill_timeout_millis = 1, reap_timeout_millis = 1, ffprobe_timeout_millis = 1,
       progress_max_records = 4, progress_max_total_bytes = 256, progress_max_record_bytes = 128,
       progress_max_field_bytes = 64, progress_max_parser_steps = 512,
       progress_max_silence_millis = 5, consumer_stall_timeout_millis = 5,
       stderr_max_total_bytes = 1, stderr_tail_bytes = 1, pipe_allocation_bytes = 1,
       output_max_streams = 1, output_max_duration_millis = 1, output_max_file_size_bytes = 1,
       output_max_width = 1, output_max_height = 1, output_max_channels = 1 \<rparr>"

lemma sample_evidence_supervisor: "supervisor_progress_limits sample_evidence_limits = sample_limits"
  by (simp add: supervisor_progress_limits_def sample_evidence_limits_def sample_limits_def)

theorem progress_evidence_equivalence_witness:
  "evidence_replay sample_transcript sample_evidence_limits =
     Inr \<lparr> po_record_count = 1, po_total_bytes = 17, po_parser_steps = 34, po_saw_terminal = True \<rparr>"
  using progress_evidence_equivalence [of sample_transcript sample_evidence_limits]
  by (simp add: sample_evidence_supervisor sample_replay progress_observations_of_def)
    (simp add: sample_transcript_def)

section \<open>Evidence of a live run\<close>

text \<open>Both sides compute the same transcript capacity.\<close>

lemma capacity_agrees:
  assumes "plan_progress (supervisor_progress_limits limits)
    (supervisor_runtime_limits progress_pipe_bytes limits) = Inr (chunk_bytes, capacity)"
  shows "progress_transcript_capacity progress_pipe_bytes limits = Inr capacity"
proof -
  let ?line_bytes = "unat (progress_max_record_bytes limits)"
  from assms obtain parser_bytes available alloc rest where
    "usize_checked_mul ?line_bytes 2 = Some parser_bytes"
    "usize_checked_sub (unat progress_pipe_bytes) parser_bytes = Some available"
    "usize_checked_mul (min (available div 8) (8 * 1024)) 4 = Some alloc"
    "usize_checked_sub available alloc = Some rest"
    "chunk_bytes = min (available div 8) (8 * 1024)" "chunk_bytes \<noteq> 0"
    "capacity = min rest (unat (progress_max_total_bytes limits))" "capacity \<noteq> 0"
    unfolding plan_progress_def Let_def rbind_eq_Inr_iff ok_or_eq_Inr_iff if_Inl_eq_Inr_iff
      sum.inject prod.inject de_Morgan_disj supervisor_progress_limits_def
      supervisor_runtime_limits_def ProgressLimits.simps ProgressRuntimeLimits.simps
    by blast
  then show ?thesis
    by (simp only: progress_transcript_capacity_def Let_def ok_or_simps rbind_simps simp_thms if_False)
qed

text \<open>The bytes that the reader thread read before the end of the stream.\<close>

lemma reader_chunks:
  "timely_chunks (map Received (fst (progress_reader reads))) cadence deadline = Some chunks \<Longrightarrow>
     read_stream (map fst reads) = Inr (concat chunks)"
proof (induction reads arbitrary: deadline chunks rule: progress_reader.induct)
  case (3 bs now sent reads)
  show ?case
  proof (cases "sent = Sent \<and> bs \<noteq> []")
    case True
    with 3 show ?thesis
      by (cases "progress_reader reads") (auto split: if_splits)
  qed (use 3 in \<open>auto simp: Let_def split: send_outcome.splits if_splits\<close>)
qed simp_all

lemma timely_chunks_take:
  "timely_chunks (map Received (take n ms) @ [ReceiveTimedOut]) cadence deadline = Some chunks \<Longrightarrow>
     timely_chunks (map Received ms) cadence deadline = Some chunks"
proof (induction ms arbitrary: n deadline chunks)
  case (Cons m ms)
  show ?case
  proof (cases n)
    case (Suc k)
    with Cons show ?thesis by (cases m) (auto split: if_splits option.splits)
  qed (use Cons.prems in simp)
qed simp

text \<open>
  C17: A live progress drain that returns a summary has read its pipe to the end without a read
  error, its transcript is exactly the bytes of the pipe, the product's replay of that transcript
  returns the same summary, and the verifier, which knows only the declared limits and the stdout
  share, grants a capacity that holds the transcript and reports exactly the observations of
  the summary.
\<close>

theorem progress_drain_verifiable:
  assumes "drain_progress_supervised reads timeout_after joined started
      (supervisor_progress_limits limits) (supervisor_runtime_limits progress_pipe_bytes limits)
      = Inr summary"
    and "length (ps_raw_transcript summary) < 2 ^ 63"
  shows "read_stream (map fst reads) = Inr (ps_raw_transcript summary)
    \<and> replay_progress_transcript (ps_raw_transcript summary) (supervisor_progress_limits limits)
        = Inr summary
    \<and> (\<exists>capacity. progress_transcript_capacity progress_pipe_bytes limits = Inr capacity
        \<and> length (ps_raw_transcript summary) \<le> capacity)
    \<and> evidence_replay (ps_raw_transcript summary) limits = Inr (progress_observations_of summary)"
proof -
  let ?lim = "supervisor_progress_limits limits"
    and ?run = "supervisor_runtime_limits progress_pipe_bytes limits"
  obtain messages stalled err where reader: "progress_reader reads = (messages, stalled, err)"
    by (cases "progress_reader reads") auto
  let ?receipts = "case timeout_after of None \<Rightarrow> map Received messages
    | Some n \<Rightarrow> map Received (take n messages) @ [ReceiveTimedOut]"
  let ?cadence = "cadence_timeout ?run"
  from assms(1) obtain chunk_bytes capacity where
    plan: "plan_progress ?lim ?run = Inr (chunk_bytes, capacity)" and
    "receive_progress ?receipts ?cadence (started + ?cadence) stalled err (progress_new ?lim capacity)
      = Inr summary"
    by (cases joined) (auto simp: drain_progress_supervised_def rbind_eq_Inr_iff Let_def reader)
  then obtain chunks where chunks: "timely_chunks ?receipts ?cadence (started + ?cadence) = Some chunks"
    and fits: "length (concat chunks) \<le> capacity"
    and replay: "replay_progress_transcript (concat chunks) ?lim = Inr summary"
    by (auto simp: receive_progress_iff_replay)
  from chunks have "timely_chunks (map Received messages) ?cadence (started + ?cadence) = Some chunks"
    by (auto intro: timely_chunks_take split: option.splits)
  with reader have "read_stream (map fst reads) = Inr (concat chunks)"
    by (intro reader_chunks) simp
  moreover from replay have raw: "ps_raw_transcript summary = concat chunks"
    by (rule replay_scan) (auto simp: progress_finish_def split: if_splits)
  moreover have "evidence_replay (concat chunks) limits = Inr (progress_observations_of summary)"
    using evidence_accepts [OF _ replay] assms(2) raw by simp
  ultimately show ?thesis
    using replay fits capacity_agrees [OF plan] by auto
qed

definition sample_reads :: "(read_outcome \<times> instant \<times> send_outcome) list" where
  "sample_reads = [(ReadBytes (take 7 sample_transcript), 1, Sent),
     (ReadBytes (drop 7 sample_transcript), 4, Sent), (ReadBytes [], 6, Sent)]"

lemma sample_drain:
  "drain_progress_supervised sample_reads None True 0 (supervisor_progress_limits sample_evidence_limits)
     (supervisor_runtime_limits 2048 sample_evidence_limits) =
   Inr \<lparr> ps_record_count = 1, ps_total_bytes = 17, ps_parser_steps = 34, ps_saw_terminal = True,
         ps_raw_transcript = sample_transcript \<rparr>"
  unfolding sample_evidence_supervisor
  by (simp add: drain_progress_supervised_def plan_progress_def supervisor_runtime_limits_def
      sample_evidence_limits_def sample_limits_def usize_checked_sub_def sample_reads_def
      sample_transcript_def progress_eval Let_def)

theorem progress_drain_verifiable_witness:
  "evidence_replay sample_transcript sample_evidence_limits =
     Inr \<lparr> po_record_count = 1, po_total_bytes = 17, po_parser_steps = 34, po_saw_terminal = True \<rparr>
   \<and> read_stream (map fst sample_reads) = Inr sample_transcript"
  using progress_drain_verifiable [OF sample_drain]
  by (simp add: progress_observations_of_def) (simp add: sample_transcript_def)

end
