(* ===== verification/Framing.thy ===== *)
theory Framing
  imports Byte_Strings
begin

text \<open>
  Length-prefixed frames: the incremental decoder of \<open>fforager-contracts/src/framing.rs\<close> and the
  blocking reader and writer of \<open>fforager-javascript/src/lib.rs\<close>.
\<close>

section \<open>The incremental decoder\<close>

definition HEADER_BYTES :: usize where
  "HEADER_BYTES = 4"

record FrameLimits =
  maximum_frame_bytes :: usize

definition frame_limits_default :: FrameLimits where
  "frame_limits_default = \<lparr> maximum_frame_bytes = 1024 * 1024 \<rparr>"

datatype FrameError =
    ZeroLength
  | Oversized usize usize
  | PartialHeader usize
  | PartialPayload usize usize
  | InvalidJson string
  | IncompatibleVersion u16 u16
  | UnknownMandatoryKind string
  | DuplicateRequestId string

record FrameDecoder =
  fd_limits :: FrameLimits
  fd_header :: "u8 list"
  fd_header_len :: usize
  fd_declared :: "usize option"
  fd_payload :: "u8 list"

definition frame_decoder_new :: "FrameLimits \<Rightarrow> FrameDecoder" where
  "frame_decoder_new limits =
     \<lparr> fd_limits = limits, fd_header = replicate HEADER_BYTES 0, fd_header_len = 0,
       fd_declared = None, fd_payload = [] \<rparr>"

definition reset :: "FrameDecoder \<Rightarrow> FrameDecoder" where
  "reset d = d\<lparr> fd_header := replicate HEADER_BYTES 0, fd_header_len := 0,
     fd_declared := None, fd_payload := [] \<rparr>"

text \<open>\<open>copy_from_slice\<close> into the middle of an array.\<close>

definition copy_into :: "usize \<Rightarrow> 'a list \<Rightarrow> 'a list \<Rightarrow> 'a list" where
  "copy_into at xs array = take at array @ xs @ drop (at + length xs) array"

type_synonym push_result = "FrameDecoder \<times> (FrameError + usize \<times> u8 list option)"

definition push_payload :: "usize \<Rightarrow> usize \<Rightarrow> u8 list \<Rightarrow> FrameDecoder \<Rightarrow> push_result" where
  "push_payload declared used input d =
     (let remaining = declared - length (fd_payload d);
          count = min remaining (length input - used);
          d = d\<lparr> fd_payload := fd_payload d @ take count (drop used input) \<rparr>
      in if length (fd_payload d) = declared
         then (reset d, Inr (used + count, Some (fd_payload d)))
         else (d, Inr (used + count, None)))"

definition push :: "u8 list \<Rightarrow> FrameDecoder \<Rightarrow> push_result" where
  "push input d =
     (case fd_declared d of
        Some declared \<Rightarrow> push_payload declared 0 input d
      | None \<Rightarrow>
          let wanted = HEADER_BYTES - fd_header_len d;
              count = min wanted (length input);
              d = d\<lparr> fd_header := copy_into (fd_header_len d) (take count input) (fd_header d),
                     fd_header_len := fd_header_len d + count \<rparr>
          in if fd_header_len d < HEADER_BYTES then (d, Inr (count, None))
             else let declared = unat (u32_from_be_bytes (fd_header d))
               in if declared = 0 then (reset d, Inl ZeroLength)
                  else if declared > maximum_frame_bytes (fd_limits d)
                  then (reset d, Inl (Oversized declared (maximum_frame_bytes (fd_limits d))))
                  else push_payload declared count input
                    (d\<lparr> fd_payload := [], fd_declared := Some declared \<rparr>))"

definition frame_finish :: "FrameDecoder \<Rightarrow> FrameDecoder \<times> (FrameError + unit)" where
  "frame_finish d =
     (let error = (if fd_header_len d > 0 \<and> fd_declared d = None
                   then Some (PartialHeader (fd_header_len d))
                   else map_option (\<lambda>declared. PartialPayload declared (length (fd_payload d)))
                     (fd_declared d))
      in (reset d, case error of None \<Rightarrow> Inr () | Some e \<Rightarrow> Inl e))"

section \<open>The blocking reader and writer\<close>

text \<open>
  A reader delivers its remaining bytes and then ends or fails; a writer accepts bytes until it
  fails, if it ever does. Error texts of the operating system and the printed form of a frame
  error are supplied by the environment.
\<close>

datatype SolverError =
    ProgramTooLarge usize usize
  | InvalidProgram string
  | UnsupportedPlayerStructure
  | NoChallengeCandidate
  | InvalidCandidate string
  | ScriptHashMismatch string string
  | Evaluation string
  | InvalidResult string
  | OutputTooLarge usize usize
  | Io string
  | Frame string

record byte_reader =
  rd_bytes :: "u8 list"
  rd_fault :: "string option"

definition unexpected_eof :: string where
  "unexpected_eof = ''failed to fill whole buffer''"

definition read_exact :: "usize \<Rightarrow> byte_reader \<Rightarrow> byte_reader \<times> (string + u8 list)" where
  "read_exact n r =
     (if n \<le> length (rd_bytes r)
      then (r\<lparr> rd_bytes := drop n (rd_bytes r) \<rparr>, Inr (take n (rd_bytes r)))
      else (r\<lparr> rd_bytes := [] \<rparr>, Inl (case rd_fault r of Some e \<Rightarrow> e | None \<Rightarrow> unexpected_eof)))"

definition read_frame ::
  "(FrameError \<Rightarrow> string) \<Rightarrow> byte_reader \<Rightarrow> FrameLimits \<Rightarrow> byte_reader \<times> (SolverError + u8 list option)" where
  "read_frame display r limits =
     (case rd_bytes r of
        [] \<Rightarrow> (r, case rd_fault r of Some e \<Rightarrow> Inl (Io e) | None \<Rightarrow> Inr None)
      | first # rest \<Rightarrow>
          (case read_exact 3 (r\<lparr> rd_bytes := rest \<rparr>) of
             (r, Inl e) \<Rightarrow> (r, Inl (Frame (''partial header: '' @ e)))
           | (r, Inr header) \<Rightarrow>
               let declared = unat (u32_from_be_bytes (first # header)) in
               if declared = 0 then (r, Inl (Frame (display ZeroLength)))
               else if declared > maximum_frame_bytes limits
               then (r, Inl (Frame (display (Oversized declared (maximum_frame_bytes limits)))))
               else (case read_exact declared r of
                  (r, Inl e) \<Rightarrow> (r, Inl (Frame (''partial payload: '' @ e)))
                | (r, Inr payload) \<Rightarrow> (r, Inr (Some payload)))))"

text \<open>The bytes handed to the writer; an error of the writer itself is reported as \<open>Io\<close>.\<close>

definition write_frame ::
  "(FrameError \<Rightarrow> string) \<Rightarrow> (u8 list \<Rightarrow> string + u8 list) \<Rightarrow> u8 list \<Rightarrow> FrameLimits \<Rightarrow> SolverError + u8 list" where
  "write_frame display write_all payload limits =
     (if payload = [] then Inl (Frame (display ZeroLength))
      else if length payload > maximum_frame_bytes limits
      then Inl (Frame (display (Oversized (length payload) (maximum_frame_bytes limits))))
      else rbind (ok_or (Frame ''payload length exceeds u32'') (u32_try_from (length payload)))
        (\<lambda>declared. map_err Io (rbind (write_all (u32_to_be_bytes declared)) (\<lambda>header.
           rbind (write_all payload) (\<lambda>body. Inr (header @ body))))))"

section \<open>A reference: the frames of a byte stream\<close>

datatype frame_verdict = NeedMore | FrameRejected FrameError | FrameReady "u8 list" "u8 list"

definition first_frame :: "usize \<Rightarrow> u8 list \<Rightarrow> frame_verdict" where
  "first_frame maximum bs =
     (if length bs < 4 then NeedMore
      else let declared = unat (u32_from_be_bytes (take 4 bs)) in
        if declared = 0 then FrameRejected ZeroLength
        else if declared > maximum then FrameRejected (Oversized declared maximum)
        else if length bs < 4 + declared then NeedMore
        else FrameReady (take declared (drop 4 bs)) (drop (4 + declared) bs))"

datatype stream_end = Leftover "u8 list" | Rejected FrameError

lemma first_frame_ready_shorter: "first_frame m bs = FrameReady f rest \<Longrightarrow> length rest < length bs"
  by (auto simp: first_frame_def Let_def split: if_splits)

function split_frames :: "usize \<Rightarrow> u8 list \<Rightarrow> u8 list list \<times> stream_end" where
  "split_frames m bs =
     (case first_frame m bs of
        NeedMore \<Rightarrow> ([], Leftover bs)
      | FrameRejected e \<Rightarrow> ([], Rejected e)
      | FrameReady f rest \<Rightarrow> (let (fs, e) = split_frames m rest in (f # fs, e)))"
  by pat_completeness auto

termination split_frames
  by (relation "measure (\<lambda>(m, bs). length bs)") (auto dest: first_frame_ready_shorter)

declare split_frames.simps [simp del]

section \<open>One push against the reference\<close>

definition pending :: "FrameDecoder \<Rightarrow> u8 list" where
  "pending d = (case fd_declared d of
     None \<Rightarrow> take (fd_header_len d) (fd_header d) | Some _ \<Rightarrow> fd_header d @ fd_payload d)"

definition decoder_ok :: "FrameDecoder \<Rightarrow> bool" where
  "decoder_ok d \<longleftrightarrow> length (fd_header d) = 4 \<and>
     (case fd_declared d of
        None \<Rightarrow> fd_header_len d < 4 \<and> fd_payload d = []
      | Some n \<Rightarrow> fd_header_len d = 4 \<and> n = unat (u32_from_be_bytes (fd_header d)) \<and> 0 < n \<and>
          n \<le> maximum_frame_bytes (fd_limits d) \<and> length (fd_payload d) < n)"

lemma decoder_ok_new [simp]: "decoder_ok (frame_decoder_new limits)"
  by (simp add: decoder_ok_def frame_decoder_new_def HEADER_BYTES_def)

lemma pending_new [simp]: "pending (frame_decoder_new limits) = []"
  by (simp add: pending_def frame_decoder_new_def)

lemma reset_new [simp]: "reset d = frame_decoder_new (fd_limits d)"
  by (simp add: reset_def frame_decoder_new_def)

lemma frame_decoder_new_limits [simp]: "fd_limits (frame_decoder_new limits) = limits"
  by (simp add: frame_decoder_new_def)

lemma pending_bounded:
  "decoder_ok d \<Longrightarrow> length (pending d) < 4 + maximum_frame_bytes (fd_limits d) \<or> length (pending d) < 4"
  by (auto simp: decoder_ok_def pending_def split: option.splits)

lemma first_frame_pending: "decoder_ok d \<Longrightarrow> first_frame (maximum_frame_bytes (fd_limits d)) (pending d) = NeedMore"
  by (auto simp: decoder_ok_def pending_def first_frame_def split: option.splits)

definition push_spec :: "u8 list \<Rightarrow> FrameDecoder \<Rightarrow> push_result \<Rightarrow> bool" where
  "push_spec input d r = (case first_frame (maximum_frame_bytes (fd_limits d)) (pending d @ input) of
     NeedMore \<Rightarrow> snd r = Inr (length input, None) \<and> decoder_ok (fst r) \<and>
       fd_limits (fst r) = fd_limits d \<and> pending (fst r) = pending d @ input
   | FrameRejected e \<Rightarrow> r = (frame_decoder_new (fd_limits d), Inl e)
   | FrameReady f rest \<Rightarrow> length rest < length input \<and> drop (length input - length rest) input = rest \<and>
       r = (frame_decoder_new (fd_limits d), Inr (length input - length rest, Some f)))"

lemma push_payload_eq:
  assumes "length (fd_payload d) < n" and "used \<le> length input"
  shows "push_payload n used input d =
    (if length (fd_payload d) + (length input - used) < n
     then (d\<lparr> fd_payload := fd_payload d @ drop used input \<rparr>, Inr (length input, None))
     else (frame_decoder_new (fd_limits d),
       Inr (used + (n - length (fd_payload d)), Some (take n (fd_payload d @ drop used input)))))"
  using assms by (auto simp: push_payload_def Let_def min_def)

lemma push_declared:
  assumes ok: "decoder_ok d" and declared: "fd_declared d = Some n"
  shows "push_spec input d (push input d)"
proof -
  let ?m = "maximum_frame_bytes (fd_limits d)"
  from ok declared have d: "length (fd_header d) = 4" "fd_header_len d = 4"
      "unat (u32_from_be_bytes (fd_header d)) = n" "0 < n" "n \<le> ?m" "length (fd_payload d) < n"
    by (simp_all add: decoder_ok_def)
  have "first_frame ?m (pending d @ input) =
      (if length (fd_payload d) + length input < n then NeedMore
       else FrameReady (take n (fd_payload d @ input)) (drop (n - length (fd_payload d)) input))"
    using d declared by (auto simp: first_frame_def pending_def)
  moreover have "push input d =
      (if length (fd_payload d) + length input < n
       then (d\<lparr> fd_payload := fd_payload d @ input \<rparr>, Inr (length input, None))
       else (frame_decoder_new (fd_limits d), Inr (n - length (fd_payload d), Some (take n (fd_payload d @ input)))))"
    using d declared by (simp add: push_def push_payload_eq)
  ultimately show ?thesis
    using d declared by (auto simp: push_spec_def decoder_ok_def pending_def)
qed

lemma push_undeclared:
  assumes ok: "decoder_ok d" and declared: "fd_declared d = None"
  shows "push_spec input d (push input d)"
proof -
  let ?m = "maximum_frame_bytes (fd_limits d)" and ?k = "4 - fd_header_len d"
  from ok declared have d: "length (fd_header d) = 4" "fd_header_len d < 4" "fd_payload d = []"
    by (simp_all add: decoder_ok_def)
  have pending: "pending d = take (fd_header_len d) (fd_header d)"
    using declared by (simp add: pending_def)
  show ?thesis
  proof (cases "length input < ?k")
    case True
    then have short: "fd_header_len d + length input < 4" by linarith
    have "first_frame ?m (pending d @ input) = NeedMore"
      using d pending short by (simp add: first_frame_def)
    moreover have "min ?k (length input) = length input" using True by simp
    ultimately show ?thesis
      using short d declared pending
      by (simp add: push_spec_def push_def HEADER_BYTES_def copy_into_def Let_def
          decoder_ok_def pending_def)
  next
    case False
    define h where "h = pending d @ take ?k input"
    define n where "n = unat (u32_from_be_bytes h)"
    have h: "length h = 4" using False d pending by (simp add: h_def)
    have copied: "copy_into (fd_header_len d) (take ?k input) (fd_header d) = h"
      using False d pending by (simp add: copy_into_def h_def)
    have split: "pending d @ input = h @ drop ?k input" by (simp add: h_def)
    have first: "first_frame ?m (pending d @ input) =
        (if n = 0 then FrameRejected ZeroLength
         else if n > ?m then FrameRejected (Oversized n ?m)
         else if length input - ?k < n then NeedMore
         else FrameReady (take n (drop ?k input)) (drop (n + ?k) input))"
      using h False by (auto simp: split first_frame_def n_def Let_def)
    let ?d = "d\<lparr> fd_header := h, fd_header_len := 4, fd_payload := [], fd_declared := Some n \<rparr>"
    have "min ?k (length input) = ?k" using False by simp
    then have pushed: "push input d =
        (if n = 0 then (frame_decoder_new (fd_limits d), Inl ZeroLength)
         else if n > ?m then (frame_decoder_new (fd_limits d), Inl (Oversized n ?m))
         else push_payload n ?k input ?d)"
      using d declared by (simp add: push_def HEADER_BYTES_def copied n_def Let_def)
    show ?thesis
      using h d False first pushed
      by (auto simp: push_spec_def push_payload_eq decoder_ok_def pending_def n_def declared
          split [unfolded pending] split: if_splits)
  qed
qed

lemma push_refines: "decoder_ok d \<Longrightarrow> push_spec input d (push input d)"
  by (cases "fd_declared d") (auto intro: push_declared push_undeclared)

section \<open>Whole streams\<close>

text \<open>
  A reader of a pipe pushes each chunk until it is used up, collecting the frames, and stops at
  the first error.
\<close>

function push_chunk :: "u8 list \<Rightarrow> FrameDecoder \<Rightarrow> FrameDecoder \<times> u8 list list \<times> FrameError option" where
  "push_chunk input d =
     (case push input d of
        (d, Inl e) \<Rightarrow> (d, [], Some e)
      | (d, Inr (used, frame)) \<Rightarrow>
          if used = 0 \<or> length input \<le> used then (d, case frame of None \<Rightarrow> [] | Some f \<Rightarrow> [f], None)
          else let (d, fs, e) = push_chunk (drop used input) d
            in (d, (case frame of None \<Rightarrow> fs | Some f \<Rightarrow> f # fs), e))"
  by pat_completeness auto

termination push_chunk
  by (relation "measure (\<lambda>(input, d). length input)") auto

declare push_chunk.simps [simp del]

fun push_chunks :: "u8 list list \<Rightarrow> FrameDecoder \<Rightarrow> FrameDecoder \<times> u8 list list \<times> FrameError option" where
  "push_chunks [] d = (d, [], None)"
| "push_chunks (chunk # chunks) d =
     (case push_chunk chunk d of
        (d, fs, Some e) \<Rightarrow> (d, fs, Some e)
      | (d, fs, None) \<Rightarrow> let (d, gs, e) = push_chunks chunks d in (d, fs @ gs, e))"

definition stream_spec ::
  "u8 list \<Rightarrow> FrameDecoder \<Rightarrow> FrameDecoder \<times> u8 list list \<times> FrameError option \<Rightarrow> bool" where
  "stream_spec input d r \<longleftrightarrow>
     fst (snd r) = fst (split_frames (maximum_frame_bytes (fd_limits d)) (pending d @ input)) \<and>
     fd_limits (fst r) = fd_limits d \<and> decoder_ok (fst r) \<and>
     (case snd (split_frames (maximum_frame_bytes (fd_limits d)) (pending d @ input)) of
        Leftover bs \<Rightarrow> snd (snd r) = None \<and> pending (fst r) = bs
      | Rejected e \<Rightarrow> snd (snd r) = Some e)"

lemma push_chunk_spec: "decoder_ok d \<Longrightarrow> stream_spec input d (push_chunk input d)"
proof (induction input d rule: push_chunk.induct)
  case (1 input d)
  let ?m = "maximum_frame_bytes (fd_limits d)"
  note spec = push_refines [OF "1.prems", of input]
  show ?case
  proof (cases "first_frame ?m (pending d @ input)")
    case NeedMore
    with spec show ?thesis
      by (cases "push input d")
        (auto simp: push_spec_def stream_spec_def push_chunk.simps [of input d] split_frames.simps)
  next
    case (FrameRejected e)
    with spec show ?thesis
      by (simp add: push_spec_def stream_spec_def push_chunk.simps [of input d] split_frames.simps)
  next
    case (FrameReady f rest)
    let ?n = "length input - length rest"
    from spec FrameReady have rest: "length rest < length input" "drop ?n input = rest"
      and pushed: "push input d = (frame_decoder_new (fd_limits d), Inr (?n, Some f))"
      by (simp_all add: push_spec_def)
    have step: "split_frames ?m (pending d @ input) =
        (f # fst (split_frames ?m rest), snd (split_frames ?m rest))"
      using FrameReady by (subst split_frames.simps) (simp add: case_prod_beta Let_def)
    show ?thesis
    proof (cases "rest = []")
      case True
      have "split_frames ?m [] = ([], Leftover [])"
        by (subst split_frames.simps) (simp add: first_frame_def)
      with True step pushed show ?thesis
        by (simp add: stream_spec_def push_chunk.simps [of input d])
    next
      case False
      then have "0 < length rest" by simp
      with rest have used: "\<not> length input \<le> ?n" by linarith
      have "stream_spec rest (frame_decoder_new (fd_limits d))
          (push_chunk rest (frame_decoder_new (fd_limits d)))"
        using "1.IH" [OF pushed [symmetric] refl refl] rest used by simp
      moreover have "push_chunk input d =
          (let (d', fs, e) = push_chunk rest (frame_decoder_new (fd_limits d)) in (d', f # fs, e))"
        using pushed rest used by (simp add: push_chunk.simps [of input d])
      ultimately show ?thesis
        using step by (auto simp: stream_spec_def Let_def case_prod_beta split: stream_end.splits)
    qed
  qed
qed

text \<open>The frames of a longer stream begin with those of its front.\<close>

lemma first_frame_append:
  "first_frame m bs = FrameReady f rest \<Longrightarrow> first_frame m (bs @ cs) = FrameReady f (rest @ cs)"
  "first_frame m bs = FrameRejected e \<Longrightarrow> first_frame m (bs @ cs) = FrameRejected e"
  by (auto simp: first_frame_def Let_def split: if_splits)

lemma split_frames_append:
  "split_frames m (bs @ cs) =
     (case split_frames m bs of
        (fs, Rejected e) \<Rightarrow> (fs, Rejected e)
      | (fs, Leftover left) \<Rightarrow> let (gs, e) = split_frames m (left @ cs) in (fs @ gs, e))"
proof (induction m bs rule: split_frames.induct)
  case (1 m bs)
  show ?case
  proof (cases "first_frame m bs")
    case NeedMore
    then show ?thesis
      by (simp add: split_frames.simps [of m bs])
  next
    case (FrameRejected e)
    then show ?thesis
      using first_frame_append(2) [OF FrameRejected, of cs]
      by (simp add: split_frames.simps [of m bs] split_frames.simps [of m "bs @ cs"])
  next
    case (FrameReady f rest)
    then show ?thesis
      using first_frame_append(1) [OF FrameReady, of cs] 1 [OF FrameReady]
      by (simp add: split_frames.simps [of m bs] split_frames.simps [of m "bs @ cs"] Let_def
          case_prod_beta split: stream_end.splits)
  qed
qed

lemma push_chunks_spec: "decoder_ok d \<Longrightarrow> stream_spec (concat chunks) d (push_chunks chunks d)"
proof (induction chunks arbitrary: d)
  case Nil
  then show ?case
    using first_frame_pending [OF Nil]
    by (simp add: stream_spec_def split_frames.simps)
next
  case (Cons chunk chunks)
  let ?m = "maximum_frame_bytes (fd_limits d)"
  obtain d1 fs e where chunk: "push_chunk chunk d = (d1, fs, e)" by (cases "push_chunk chunk d")
  from push_chunk_spec [OF Cons.prems, of chunk] chunk
  have d1: "fd_limits d1 = fd_limits d" "decoder_ok d1" "fs = fst (split_frames ?m (pending d @ chunk))"
    and ends: "case snd (split_frames ?m (pending d @ chunk)) of
        Leftover bs \<Rightarrow> e = None \<and> pending d1 = bs | Rejected r \<Rightarrow> e = Some r"
    by (simp_all add: stream_spec_def split: stream_end.splits)
  have whole: "split_frames ?m (pending d @ concat (chunk # chunks)) =
      (case split_frames ?m (pending d @ chunk) of
        (fs, Rejected e) \<Rightarrow> (fs, Rejected e)
      | (fs, Leftover left) \<Rightarrow>
          let (gs, e) = split_frames ?m (left @ concat chunks) in (fs @ gs, e))"
    using split_frames_append [of ?m "pending d @ chunk" "concat chunks"] by simp
  show ?case
  proof (cases "snd (split_frames ?m (pending d @ chunk))")
    case (Rejected r)
    with ends d1 chunk whole show ?thesis
      by (cases "split_frames ?m (pending d @ chunk)") (simp add: stream_spec_def)
  next
    case (Leftover bs)
    with ends have "e = None" "pending d1 = bs" by simp_all
    with Leftover d1 chunk whole Cons.IH [OF d1(2)] show ?thesis
      by (cases "split_frames ?m (pending d @ chunk)")
        (auto simp: stream_spec_def Let_def case_prod_beta split: stream_end.splits)
  qed
qed

section \<open>The blocking reader against the reference\<close>

lemma read_exact_simps:
  "n \<le> length (rd_bytes r) \<Longrightarrow>
     read_exact n r = (r\<lparr> rd_bytes := drop n (rd_bytes r) \<rparr>, Inr (take n (rd_bytes r)))"
  "length (rd_bytes r) < n \<Longrightarrow> rd_fault r = None \<Longrightarrow>
     read_exact n r = (r\<lparr> rd_bytes := [] \<rparr>, Inl unexpected_eof)"
  by (simp_all add: read_exact_def)

lemma read_frame_first:
  assumes "rd_fault r = None"
  shows "snd (read_frame display r limits) =
    (case first_frame (maximum_frame_bytes limits) (rd_bytes r) of
       NeedMore \<Rightarrow> (if rd_bytes r = [] then Inr None
         else Inl (Frame ((if length (rd_bytes r) < 4 then ''partial header: ''
           else ''partial payload: '') @ unexpected_eof)))
     | FrameRejected e \<Rightarrow> Inl (Frame (display e))
     | FrameReady f rest \<Rightarrow> Inr (Some f))"
    and "first_frame (maximum_frame_bytes limits) (rd_bytes r) = FrameReady f rest \<Longrightarrow>
      read_frame display r limits = (r\<lparr> rd_bytes := rest \<rparr>, Inr (Some f))"
proof -
  have both: "snd (read_frame display r limits) =
      (case first_frame (maximum_frame_bytes limits) (rd_bytes r) of
         NeedMore \<Rightarrow> (if rd_bytes r = [] then Inr None
           else Inl (Frame ((if length (rd_bytes r) < 4 then ''partial header: ''
             else ''partial payload: '') @ unexpected_eof)))
       | FrameRejected e \<Rightarrow> Inl (Frame (display e))
       | FrameReady f rest \<Rightarrow> Inr (Some f)) \<and>
    (\<forall>f rest. first_frame (maximum_frame_bytes limits) (rd_bytes r) = FrameReady f rest \<longrightarrow>
      read_frame display r limits = (r\<lparr> rd_bytes := rest \<rparr>, Inr (Some f)))"
  proof (cases "rd_bytes r")
    case Nil
    with assms show ?thesis by (simp add: read_frame_def first_frame_def)
  next
    case (Cons b bs)
    show ?thesis
    proof (cases "length bs < 3")
      case True
      with Cons assms show ?thesis
        by (simp add: read_frame_def first_frame_def read_exact_simps)
    next
      case False
      define n where "n = unat (u32_from_be_bytes (b # take 3 bs))"
      have four: "take 4 (b # bs) = b # take 3 bs" "drop 4 (b # bs) = drop 3 bs"
        "drop (4 + n) (b # bs) = drop (3 + n) bs" "\<not> length (b # bs) < 4"
        "length (b # bs) < 4 + n \<longleftrightarrow> length bs < 3 + n"
        using False by (auto simp: take_Cons' drop_Cons')
      have header: "read_exact 3 (r\<lparr> rd_bytes := bs \<rparr>) = (r\<lparr> rd_bytes := drop 3 bs \<rparr>, Inr (take 3 bs))"
        using False by (simp add: read_exact_simps)
      have payload: "read_exact n (r\<lparr> rd_bytes := drop 3 bs \<rparr>) =
          (if length bs < 3 + n then (r\<lparr> rd_bytes := [] \<rparr>, Inl unexpected_eof)
           else (r\<lparr> rd_bytes := drop (3 + n) bs \<rparr>, Inr (take n (drop 3 bs))))"
        using assms False by (auto simp: read_exact_def add.commute)
      have "first_frame (maximum_frame_bytes limits) (b # bs) =
          (if n = 0 then FrameRejected ZeroLength
           else if n > maximum_frame_bytes limits
           then FrameRejected (Oversized n (maximum_frame_bytes limits))
           else if length bs < 3 + n then NeedMore
           else FrameReady (take n (drop 3 bs)) (drop (3 + n) bs))"
        unfolding first_frame_def four Let_def n_def [symmetric] using four by simp
      moreover have "read_frame display r limits =
          (if n = 0 then (r\<lparr> rd_bytes := drop 3 bs \<rparr>, Inl (Frame (display ZeroLength)))
           else if n > maximum_frame_bytes limits
           then (r\<lparr> rd_bytes := drop 3 bs \<rparr>,
             Inl (Frame (display (Oversized n (maximum_frame_bytes limits)))))
           else if length bs < 3 + n
           then (r\<lparr> rd_bytes := [] \<rparr>, Inl (Frame (''partial payload: '' @ unexpected_eof)))
           else (r\<lparr> rd_bytes := drop (3 + n) bs \<rparr>, Inr (Some (take n (drop 3 bs)))))"
        using Cons by (simp add: read_frame_def header payload n_def [symmetric] Let_def)
      ultimately show ?thesis
        using Cons four by simp
    qed
  qed
  then show "snd (read_frame display r limits) =
    (case first_frame (maximum_frame_bytes limits) (rd_bytes r) of
       NeedMore \<Rightarrow> (if rd_bytes r = [] then Inr None
         else Inl (Frame ((if length (rd_bytes r) < 4 then ''partial header: ''
           else ''partial payload: '') @ unexpected_eof)))
     | FrameRejected e \<Rightarrow> Inl (Frame (display e))
     | FrameReady f rest \<Rightarrow> Inr (Some f))"
    and "first_frame (maximum_frame_bytes limits) (rd_bytes r) = FrameReady f rest \<Longrightarrow>
      read_frame display r limits = (r\<lparr> rd_bytes := rest \<rparr>, Inr (Some f))"
    by blast+
qed

text \<open>The reader called until the stream ends or fails.\<close>

lemma read_frame_shorter:
  "read_frame display r limits = (r', Inr (Some f)) \<Longrightarrow> length (rd_bytes r') < length (rd_bytes r)"
  by (auto simp: read_frame_def read_exact_def Let_def split: list.splits if_splits option.splits)

function read_frames ::
  "(FrameError \<Rightarrow> string) \<Rightarrow> byte_reader \<Rightarrow> FrameLimits \<Rightarrow> u8 list list \<times> SolverError option" where
  "read_frames display r limits =
     (case read_frame display r limits of
        (r', Inl e) \<Rightarrow> ([], Some e)
      | (r', Inr None) \<Rightarrow> ([], None)
      | (r', Inr (Some f)) \<Rightarrow> (let (fs, e) = read_frames display r' limits in (f # fs, e)))"
  by pat_completeness auto

termination read_frames
  by (relation "measure (\<lambda>(display, r, limits). length (rd_bytes r))")
    (auto dest!: read_frame_shorter [OF sym])

declare read_frames.simps [simp del]

definition end_report :: "(FrameError \<Rightarrow> string) \<Rightarrow> stream_end \<Rightarrow> SolverError option" where
  "end_report display e = (case e of
     Rejected r \<Rightarrow> Some (Frame (display r))
   | Leftover bs \<Rightarrow> (if bs = [] then None
       else Some (Frame ((if length bs < 4 then ''partial header: '' else ''partial payload: '')
         @ unexpected_eof))))"

lemma read_frames_split:
  "read_frames display \<lparr> rd_bytes = bs, rd_fault = None \<rparr> limits =
     (fst (split_frames (maximum_frame_bytes limits) bs),
      end_report display (snd (split_frames (maximum_frame_bytes limits) bs)))"
proof (induction "maximum_frame_bytes limits" bs rule: split_frames.induct)
  case (1 bs)
  let ?r = "\<lparr> rd_bytes = bs, rd_fault = None \<rparr>"
  have one: "rd_fault ?r = None" by simp
  show ?case
  proof (cases "first_frame (maximum_frame_bytes limits) bs")
    case (FrameReady f rest)
    then show ?thesis
      using read_frame_first(2) [OF one, of limits f rest display] 1 [OF FrameReady]
      by (simp add: read_frames.simps [of display ?r] split_frames.simps [of _ bs] Let_def case_prod_beta)
  next
    case NeedMore
    then show ?thesis
      using read_frame_first(1) [OF one, of display limits]
      by (cases "read_frame display ?r limits")
        (simp add: read_frames.simps [of display ?r] split_frames.simps [of _ bs] end_report_def)
  next
    case (FrameRejected e)
    then show ?thesis
      using read_frame_first(1) [OF one, of display limits]
      by (cases "read_frame display ?r limits")
        (simp add: read_frames.simps [of display ?r] split_frames.simps [of _ bs] end_report_def)
  qed
qed

lemma frame_finish_pending:
  assumes "decoder_ok d"
  shows "snd (frame_finish d) =
    (let bs = pending d in
     if bs = [] then Inr ()
     else if length bs < 4 then Inl (PartialHeader (length bs))
     else Inl (PartialPayload (unat (u32_from_be_bytes (take 4 bs))) (length bs - 4)))"
  using assms by (auto simp: decoder_ok_def frame_finish_def pending_def Let_def split: option.splits)

lemma decoder_memory:
  "decoder_ok d \<Longrightarrow>
     length (fd_header d) = 4 \<and> length (fd_payload d) \<le> maximum_frame_bytes (fd_limits d)"
  by (auto simp: decoder_ok_def split: option.splits)


section \<open>Round trip\<close>

lemma write_frame_Inr:
  "write_frame display Inr payload limits = Inr wire \<longleftrightarrow>
     payload \<noteq> [] \<and> length payload \<le> maximum_frame_bytes limits \<and> length payload < 2 ^ 32 \<and>
     wire = u32_to_be_bytes (of_nat (length payload)) @ payload"
  by (auto simp: write_frame_def u32_try_from_def not_le)

lemma first_frame_written:
  assumes "payload \<noteq> []" "length payload \<le> m" "length payload < 2 ^ 32"
  shows "first_frame m (u32_to_be_bytes (of_nat (length payload)) @ payload @ rest) =
    FrameReady payload rest"
proof -
  have "unat (of_nat (length payload) :: u32) = length payload"
    using assms(3) by (simp add: unat_of_nat take_bit_nat_eq_self)
  with assms show ?thesis by (simp add: first_frame_def)
qed

lemma split_frames_written:
  "list_all2 (\<lambda>payload wire. write_frame display Inr payload limits = Inr wire) payloads wires \<Longrightarrow>
     split_frames (maximum_frame_bytes limits) (concat wires) = (payloads, Leftover [])"
proof (induction rule: list_all2_induct)
  case Nil
  then show ?case by (subst split_frames.simps) (simp add: first_frame_def)
next
  case (Cons payload payloads wire wires)
  then show ?case
    by (subst split_frames.simps) (simp add: write_frame_Inr first_frame_written)
qed



end
