(* ===== verification/Contract_Identity.thy ===== *)
theory Contract_Identity
  imports Byte_Strings Schema_Version "HOL-Library.List_Lexorder" "HOL-Library.Char_ord"
begin

text \<open>
  Stable identifiers, schema versions, compatibility ranges and bounded extension maps
  (\<open>fforager-contracts/src/identity.rs\<close>).

  A Rust \<open>String\<close> is the list of its UTF-8 bytes, each as a \<^typ>\<open>char\<close>, so that \<open>len\<close> is
  \<^const>\<open>length\<close> and the order of keys is the lexical one. JSON values and their serializer belong
  to \<open>serde_json\<close>: values are a type parameter and the serializer is an argument.
\<close>

section \<open>Bytes of a string\<close>

definition byte :: "char \<Rightarrow> u8" where
  "byte c = of_char c"

definition has_control :: "string \<Rightarrow> bool" where
  "has_control s = list_ex (\<lambda>c. is_ascii_control (byte c)) s"

definition id_char :: "char \<Rightarrow> bool" where
  "id_char c = (is_ascii_lowercase (byte c) \<or> is_ascii_digit (byte c) \<or> c \<in> {CHR ''_'', CHR ''-'', CHR ''.''})"

definition hex_char :: "char \<Rightarrow> bool" where
  "hex_char c = (is_ascii_digit (byte c) \<or> 0x61 \<le> byte c \<and> byte c \<le> 0x66)"

lemma id_char_visible: "id_char c \<Longrightarrow> \<not> is_ascii_control (byte c)"
  by (auto simp: id_char_def is_ascii_control_def is_ascii_lowercase_def is_ascii_digit_def byte_def
      word_le_nat_alt)

lemma digit_visible: "is_ascii_digit b \<Longrightarrow> \<not> is_ascii_control b"
  by (auto simp: is_ascii_control_def is_ascii_digit_def word_le_nat_alt)

definition starts_with :: "'a list \<Rightarrow> 'a list \<Rightarrow> bool" where
  "starts_with s prefix = (take (length prefix) s = prefix)"

definition strip_prefix :: "string \<Rightarrow> string \<Rightarrow> string option" where
  "strip_prefix prefix s = (if starts_with s prefix then Some (drop (length prefix) s) else None)"

section \<open>Stable identifiers\<close>

text \<open>The identifier types of the macro \<open>stable_id!\<close>, by their prefixes.\<close>

datatype stable_id =
    ItemId | RepresentationId | TrackId | AssetId | DerivedOutputId | NodeId | EdgeId
  | ContinuationId | JobId | RequestId | ProducerId | TransactionId | CapabilityId

fun id_prefix :: "stable_id \<Rightarrow> string" where
  "id_prefix ItemId = ''item_''"
| "id_prefix RepresentationId = ''repr_''"
| "id_prefix TrackId = ''track_''"
| "id_prefix AssetId = ''asset_''"
| "id_prefix DerivedOutputId = ''output_''"
| "id_prefix NodeId = ''node_''"
| "id_prefix EdgeId = ''edge_''"
| "id_prefix ContinuationId = ''continuation_''"
| "id_prefix JobId = ''job_''"
| "id_prefix RequestId = ''request_''"
| "id_prefix ProducerId = ''producer_''"
| "id_prefix TransactionId = ''transaction_''"
| "id_prefix CapabilityId = ''capability_''"

definition MAX_ID_LEN :: usize where
  "MAX_ID_LEN = 128"

datatype IdError = InvalidPrefix string | TooLong usize usize | InvalidCharacter usize

definition validate_id :: "string \<Rightarrow> string \<Rightarrow> IdError + unit" where
  "validate_id val prefix =
     (if \<not> starts_with val prefix \<or> length val = length prefix then Inl (InvalidPrefix prefix)
      else if length val > MAX_ID_LEN then Inl (TooLong (length val) MAX_ID_LEN)
      else case position (\<lambda>c. \<not> id_char c) val of
        Some index \<Rightarrow> Inl (InvalidCharacter index)
      | None \<Rightarrow> Inr ())"

definition stable_id_new :: "stable_id \<Rightarrow> string \<Rightarrow> IdError + string" where
  "stable_id_new kind val = rbind (validate_id val (id_prefix kind)) (\<lambda>_. Inr val)"

lemma validate_id_iff:
  "validate_id val prefix = Inr () \<longleftrightarrow>
     starts_with val prefix \<and> length val \<noteq> length prefix \<and> length val \<le> 128 \<and> list_all id_char val"
  using position_eq_None_iff [of "\<lambda>c. \<not> id_char c" val]
  by (cases "position (\<lambda>c. \<not> id_char c) val")
    (auto simp: validate_id_def MAX_ID_LEN_def list_all_iff)

lemma stable_id_new_iff:
  "stable_id_new kind val = Inr v \<longleftrightarrow> v = val \<and> starts_with val (id_prefix kind) \<and>
     length val \<noteq> length (id_prefix kind) \<and> length val \<le> 128 \<and> list_all id_char val"
  by (auto simp: stable_id_new_def rbind_eq_Inr_iff validate_id_iff)

section \<open>Versions\<close>

record CompatibilityRange =
  cr_major :: u16
  cr_minimum_minor :: u16
  cr_maximum_minor :: u16

datatype CompatibilityError = IncompatibleMajor u16 u16 | UnsupportedMinor u16 u16 u16

definition compatibility_check :: "CompatibilityRange \<Rightarrow> SchemaVersion \<Rightarrow> CompatibilityError + unit" where
  "compatibility_check supported version =
     (if sv_major version \<noteq> cr_major supported
      then Inl (IncompatibleMajor (sv_major version) (cr_major supported))
      else if sv_minor version < cr_minimum_minor supported \<or> sv_minor version > cr_maximum_minor supported
      then Inl (UnsupportedMinor (sv_minor version) (cr_minimum_minor supported) (cr_maximum_minor supported))
      else Inr ())"

definition in_range :: "CompatibilityRange \<Rightarrow> SchemaVersion \<Rightarrow> bool" where
  "in_range supported version \<longleftrightarrow> sv_major version = cr_major supported \<and>
     cr_minimum_minor supported \<le> sv_minor version \<and> sv_minor version \<le> cr_maximum_minor supported"

lemma compatibility_check_iff: "compatibility_check supported version = Inr () \<longleftrightarrow> in_range supported version"
  by (auto simp: compatibility_check_def in_range_def)

lemma in_range_bounds: "in_range supported version \<Longrightarrow> cr_minimum_minor supported \<le> cr_maximum_minor supported"
  by (auto simp: in_range_def)

section \<open>Metadata values and extension maps\<close>

datatype 'a TriState = Unknown | NotApplicable | Present 'a

text \<open>The serializer: a value, and a whole map, to the length of its encoding.\<close>

record 'json json_codec =
  value_bytes :: "'json \<Rightarrow> usize option"
  map_bytes :: "(string \<times> 'json) list \<Rightarrow> usize option"

record ExtensionLimits =
  maximum_entries :: usize
  maximum_key_bytes :: usize
  maximum_value_bytes :: usize
  maximum_total_bytes :: usize

definition extension_limits_default :: ExtensionLimits where
  "extension_limits_default = \<lparr> maximum_entries = 64, maximum_key_bytes = 128,
     maximum_value_bytes = 16 * 1024, maximum_total_bytes = 64 * 1024 \<rparr>"

datatype ExtensionError =
    TooManyEntries usize usize
  | InvalidNamespace string
  | KeyTooLong string usize
  | ValueTooLarge string usize usize
  | TotalTooLarge usize usize
  | Serialization string

definition valid_namespace :: "string \<Rightarrow> bool" where
  "valid_namespace key =
     (case split_on (\<lambda>c. c = CHR ''.'') key of
        namespace # name # segments \<Rightarrow>
          namespace \<noteq> [] \<and> name \<noteq> [] \<and> list_all (\<lambda>s. s \<noteq> []) segments \<and> list_all id_char key
      | _ \<Rightarrow> False)"

fun validate_entries ::
  "'json json_codec \<Rightarrow> ExtensionLimits \<Rightarrow> (string \<times> 'json) list \<Rightarrow> ExtensionError + unit" where
  "validate_entries codec limits [] = Inr ()"
| "validate_entries codec limits ((key, val) # entries) =
     (if length key > maximum_key_bytes limits then Inl (KeyTooLong key (maximum_key_bytes limits))
      else if \<not> valid_namespace key then Inl (InvalidNamespace key)
      else rbind (ok_or (Serialization key) (value_bytes codec val)) (\<lambda>encoded.
        if encoded > maximum_value_bytes limits
        then Inl (ValueTooLarge key encoded (maximum_value_bytes limits))
        else validate_entries codec limits entries))"

definition extensions_validate ::
  "'json json_codec \<Rightarrow> ExtensionLimits \<Rightarrow> (string \<times> 'json) list \<Rightarrow> ExtensionError + unit" where
  "extensions_validate codec limits m =
     (if length m > maximum_entries limits
      then Inl (TooManyEntries (length m) (maximum_entries limits))
      else rbind (ok_or (Serialization ''<extension-map>'') (map_bytes codec m)) (\<lambda>encoded.
        if encoded > maximum_total_bytes limits
        then Inl (TotalTooLarge encoded (maximum_total_bytes limits))
        else validate_entries codec limits m))"

definition extension_map_new ::
  "'json json_codec \<Rightarrow> (string \<times> 'json) list \<Rightarrow> ExtensionLimits \<Rightarrow> ExtensionError + (string \<times> 'json) list" where
  "extension_map_new codec values limits =
     rbind (extensions_validate codec limits values) (\<lambda>_. Inr values)"

end
