(* ===== verification/Source_Graph.thy ===== *)
theory Source_Graph
  imports Contract_Identity BTree_Map
begin

text \<open>
  The canonical source graph and its validation (\<open>fforager-contracts/src/graph.rs\<close>).

  A \<open>BTreeMap\<close> is the association list of its entries in key order; a \<open>BTreeSet\<close> that is only
  asked for membership is a set, and one that is iterated is the list of its keys. A \<open>Vec\<close> used
  as a stack has its top at the head.
\<close>

section \<open>Data\<close>

record GraphLimits =
  gl_accepted_schema :: CompatibilityRange
  gl_maximum_roots :: usize
  gl_maximum_nodes :: usize
  gl_maximum_edges :: usize
  gl_maximum_continuations :: usize
  gl_maximum_identity_values_per_node :: usize
  gl_maximum_string_bytes :: usize
  gl_maximum_redirect_depth :: usize
  gl_maximum_provenance_depth :: usize
  gl_extensions :: ExtensionLimits

definition graph_limits_default :: GraphLimits where
  "graph_limits_default = \<lparr> gl_accepted_schema = \<lparr> cr_major = 1, cr_minimum_minor = 0, cr_maximum_minor = 1 \<rparr>,
     gl_maximum_roots = 64, gl_maximum_nodes = 10000, gl_maximum_edges = 40000,
     gl_maximum_continuations = 1000, gl_maximum_identity_values_per_node = 4096,
     gl_maximum_string_bytes = 16 * 1024, gl_maximum_redirect_depth = 16,
     gl_maximum_provenance_depth = 64, gl_extensions = extension_limits_default \<rparr>"

datatype NodeKind = Media | Collection | Live | Redirect | MetadataRecord | UnsupportedOrProtected

datatype EdgeKind =
    Contains | Embeds | TransparentlyOverlays | Alternate | Complementary | Additional
  | Continuation | DerivedOutput

record EntityIdentities =
  ei_item :: "string option"
  ei_representations :: "string list"
  ei_tracks :: "string list"
  ei_assets :: "string list"
  ei_derived_outputs :: "string list"

record Provenance =
  pv_extractor_key :: string
  pv_source_identity :: string
  pv_canonical_url :: string
  pv_parent_node :: "string option"

record 'json SourceNode =
  sn_id :: string
  sn_kind :: NodeKind
  sn_identities :: EntityIdentities
  sn_provenance :: Provenance
  sn_title :: "string TriState"
  sn_description :: "string TriState"
  sn_extensions :: "(string \<times> 'json) list"

record SourceEdge =
  se_id :: string
  se_from :: string
  se_to :: string
  se_kind :: EdgeKind

record 'json ContinuationDescriptor =
  cd_id :: string
  cd_owner :: string
  cd_opaque_token :: string
  cd_extensions :: "(string \<times> 'json) list"

record 'json SourceGraph =
  sg_schema :: SchemaVersion
  sg_roots :: "string list"
  sg_nodes :: "'json SourceNode list"
  sg_edges :: "SourceEdge list"
  sg_continuations :: "'json ContinuationDescriptor list"

datatype GraphError =
    InvalidSchema SchemaVersion CompatibilityRange
  | LimitExceeded string usize usize
  | DuplicateId string string
  | DanglingRoot string
  | DanglingEdge string string
  | DanglingContinuation string string
  | DanglingProvenanceParent string string
  | ProvenanceCycle string
  | ProvenanceBudgetExceeded string usize
  | DuplicateEntityId string string
  | StringTooLong string string usize usize
  | InvalidString string string
  | InvalidExtensions string
  | RelationshipCycle string
  | RedirectCycle string
  | InvalidRedirectSource string string
  | RedirectBudgetExceeded string usize
  | AmbiguousRedirect string usize
  | AmbiguousCanonicalSource string string

type_synonym 'json node_map = "(string \<times> 'json SourceNode) list"

section \<open>Schema, limits and nodes\<close>

definition check_limit :: "string \<Rightarrow> usize \<Rightarrow> usize \<Rightarrow> GraphError + unit" where
  "check_limit field actual maximum =
     (if actual > maximum then Inl (LimitExceeded field actual maximum) else Inr ())"

definition validate_graph_schema_and_limits :: "'json SourceGraph \<Rightarrow> GraphLimits \<Rightarrow> GraphError + unit" where
  "validate_graph_schema_and_limits graph limits =
     (if cr_minimum_minor (gl_accepted_schema limits) > cr_maximum_minor (gl_accepted_schema limits)
         \<or> \<not> is_ok (compatibility_check (gl_accepted_schema limits) (sg_schema graph))
      then Inl (InvalidSchema (sg_schema graph) (gl_accepted_schema limits))
      else
        rbind (check_limit ''roots'' (length (sg_roots graph)) (gl_maximum_roots limits)) (\<lambda>_.
        rbind (check_limit ''nodes'' (length (sg_nodes graph)) (gl_maximum_nodes limits)) (\<lambda>_.
        rbind (check_limit ''edges'' (length (sg_edges graph)) (gl_maximum_edges limits)) (\<lambda>_.
        check_limit ''continuations'' (length (sg_continuations graph))
          (gl_maximum_continuations limits)))))"

fun validate_strings :: "string \<Rightarrow> usize \<Rightarrow> (string \<times> string) list \<Rightarrow> GraphError + unit" where
  "validate_strings node maximum [] = Inr ()"
| "validate_strings node maximum ((field, val) # fs) =
     (if val = [] \<or> has_control val then Inl (InvalidString field node)
      else if length val > maximum then Inl (StringTooLong field node (length val) maximum)
      else validate_strings node maximum fs)"

fun validate_texts :: "string \<Rightarrow> usize \<Rightarrow> (string \<times> string TriState) list \<Rightarrow> GraphError + unit" where
  "validate_texts node maximum [] = Inr ()"
| "validate_texts node maximum ((field, text_value) # fs) =
     (case text_value of
        Present val \<Rightarrow>
          if length val > maximum then Inl (StringTooLong field node (length val) maximum)
          else validate_texts node maximum fs
      | _ \<Rightarrow> validate_texts node maximum fs)"

definition entity_values :: "EntityIdentities \<Rightarrow> (string \<times> string) list" where
  "entity_values ids =
     (case ei_item ids of Some item \<Rightarrow> [(''item'', item)] | None \<Rightarrow> [])
     @ map (Pair ''representation'') (ei_representations ids)
     @ map (Pair ''track'') (ei_tracks ids)
     @ map (Pair ''asset'') (ei_assets ids)
     @ map (Pair ''derived_output'') (ei_derived_outputs ids)"

definition identity_count :: "EntityIdentities \<Rightarrow> usize" where
  "identity_count ids =
     (case fold (\<lambda>n acc. Option.bind acc (\<lambda>a. usize_checked_add a n))
         [if ei_item ids \<noteq> None then 1 else 0, length (ei_representations ids),
          length (ei_tracks ids), length (ei_assets ids), length (ei_derived_outputs ids)] (Some 0) of
        Some n \<Rightarrow> n
      | None \<Rightarrow> 2 ^ 64 - 1)"

fun insert_entities :: "(string \<times> string) list \<Rightarrow> string set \<Rightarrow> GraphError + string set" where
  "insert_entities [] seen = Inr seen"
| "insert_entities ((kind, val) # ids) seen =
     (if val \<in> seen then Inl (DuplicateEntityId kind val)
      else insert_entities ids (insert val seen))"

definition validate_node ::
  "'json json_codec \<Rightarrow> GraphLimits \<Rightarrow> 'json SourceNode \<Rightarrow> string set \<Rightarrow> GraphError + string set" where
  "validate_node codec limits node entity_ids =
     rbind (validate_strings (sn_id node) (gl_maximum_string_bytes limits)
       [(''extractor_key'', pv_extractor_key (sn_provenance node)),
        (''source_identity'', pv_source_identity (sn_provenance node)),
        (''canonical_url'', pv_canonical_url (sn_provenance node))]) (\<lambda>_.
     rbind (check_limit ''identities_per_node'' (identity_count (sn_identities node))
       (gl_maximum_identity_values_per_node limits)) (\<lambda>_.
     rbind (insert_entities (entity_values (sn_identities node)) entity_ids) (\<lambda>entity_ids.
     rbind (validate_texts (sn_id node) (gl_maximum_string_bytes limits)
       [(''title'', sn_title node), (''description'', sn_description node)]) (\<lambda>_.
     rbind (map_err (\<lambda>_. InvalidExtensions (sn_id node))
       (extensions_validate codec (gl_extensions limits) (sn_extensions node))) (\<lambda>_.
     Inr entity_ids)))))"

fun collect_nodes ::
  "'json json_codec \<Rightarrow> GraphLimits \<Rightarrow> 'json SourceNode list \<Rightarrow> 'json node_map \<Rightarrow> string set
   \<Rightarrow> (string \<times> string) set \<Rightarrow> GraphError + 'json node_map" where
  "collect_nodes codec limits [] nodes entity_ids canonical = Inr nodes"
| "collect_nodes codec limits (node # rest) nodes entity_ids canonical =
     (if bt_get nodes (sn_id node) \<noteq> None then Inl (DuplicateId ''node'' (sn_id node))
      else rbind (validate_node codec limits node entity_ids) (\<lambda>entity_ids.
        let key = (pv_canonical_url (sn_provenance node), pv_source_identity (sn_provenance node)) in
        if key \<in> canonical then Inl (AmbiguousCanonicalSource (fst key) (snd key))
        else collect_nodes codec limits rest (bt_insert (sn_id node) node nodes) entity_ids
               (insert key canonical)))"

definition collect_validated_nodes ::
  "'json json_codec \<Rightarrow> 'json SourceGraph \<Rightarrow> GraphLimits \<Rightarrow> GraphError + 'json node_map" where
  "collect_validated_nodes codec graph limits =
     collect_nodes codec limits (sg_nodes graph) [] {} {}"

section \<open>Roots, parents and edges\<close>

fun validate_roots :: "string list \<Rightarrow> 'json node_map \<Rightarrow> string set \<Rightarrow> GraphError + unit" where
  "validate_roots [] nodes seen = Inr ()"
| "validate_roots (root # roots) nodes seen =
     (if root \<in> seen then Inl (DuplicateId ''root'' root)
      else if bt_get nodes root = None then Inl (DanglingRoot root)
      else validate_roots roots nodes (insert root seen))"

fun validate_parents :: "'json SourceNode list \<Rightarrow> 'json node_map \<Rightarrow> GraphError + unit" where
  "validate_parents [] nodes = Inr ()"
| "validate_parents (node # rest) nodes =
     (case pv_parent_node (sn_provenance node) of
        Some parent \<Rightarrow>
          if bt_get nodes parent = None then Inl (DanglingProvenanceParent (sn_id node) parent)
          else validate_parents rest nodes
      | None \<Rightarrow> validate_parents rest nodes)"

text \<open>One chain: \<open>depth = maximum - remaining\<close>.\<close>

fun provenance_chain ::
  "'json node_map \<Rightarrow> usize \<Rightarrow> string \<Rightarrow> nat \<Rightarrow> string set \<Rightarrow> 'json SourceNode \<Rightarrow> GraphError + unit" where
  "provenance_chain nodes maximum start remaining seen current =
     (if sn_id current \<in> seen then Inl (ProvenanceCycle (sn_id current))
      else case pv_parent_node (sn_provenance current) of
        None \<Rightarrow> Inr ()
      | Some parent \<Rightarrow>
          (case remaining of
             0 \<Rightarrow> Inl (ProvenanceBudgetExceeded start maximum)
           | Suc rest \<Rightarrow>
               (case bt_get nodes parent of
                  None \<Rightarrow> Inl (DanglingProvenanceParent (sn_id current) parent)
                | Some parent_node \<Rightarrow>
                    provenance_chain nodes maximum start rest (insert (sn_id current) seen) parent_node)))"

declare provenance_chain.simps [simp del]

fun validate_provenance_from :: "'json node_map \<Rightarrow> usize \<Rightarrow> 'json SourceNode list \<Rightarrow> GraphError + unit" where
  "validate_provenance_from nodes maximum [] = Inr ()"
| "validate_provenance_from nodes maximum (node # rest) =
     rbind (provenance_chain nodes maximum (sn_id node) maximum {} node) (\<lambda>_.
       validate_provenance_from nodes maximum rest)"

definition validate_provenance_chains :: "'json node_map \<Rightarrow> usize \<Rightarrow> GraphError + unit" where
  "validate_provenance_chains nodes maximum = validate_provenance_from nodes maximum (bt_values nodes)"

definition validate_roots_and_parents ::
  "'json SourceGraph \<Rightarrow> 'json node_map \<Rightarrow> usize \<Rightarrow> GraphError + unit" where
  "validate_roots_and_parents graph nodes maximum_provenance_depth =
     rbind (validate_roots (sg_roots graph) nodes {}) (\<lambda>_.
     rbind (validate_parents (sg_nodes graph) nodes) (\<lambda>_.
     validate_provenance_chains nodes maximum_provenance_depth))"

fun validate_edge_list :: "SourceEdge list \<Rightarrow> 'json node_map \<Rightarrow> string set \<Rightarrow> GraphError + unit" where
  "validate_edge_list [] nodes edge_ids = Inr ()"
| "validate_edge_list (edge # edges) nodes edge_ids =
     (if se_id edge \<in> edge_ids then Inl (DuplicateId ''edge'' (se_id edge))
      else if bt_get nodes (se_from edge) = None then Inl (DanglingEdge (se_id edge) (se_from edge))
      else if bt_get nodes (se_to edge) = None then Inl (DanglingEdge (se_id edge) (se_to edge))
      else validate_edge_list edges nodes (insert (se_id edge) edge_ids))"

definition validate_edges :: "'json SourceGraph \<Rightarrow> 'json node_map \<Rightarrow> GraphError + unit" where
  "validate_edges graph nodes = validate_edge_list (sg_edges graph) nodes {}"

section \<open>Continuations\<close>

fun validate_continuation_list ::
  "'json json_codec \<Rightarrow> GraphLimits \<Rightarrow> 'json ContinuationDescriptor list \<Rightarrow> 'json node_map \<Rightarrow> string set
   \<Rightarrow> GraphError + unit" where
  "validate_continuation_list codec limits [] nodes seen = Inr ()"
| "validate_continuation_list codec limits (c # rest) nodes seen =
     (if cd_id c \<in> seen then Inl (DuplicateId ''continuation'' (cd_id c))
      else if bt_get nodes (cd_owner c) = None then Inl (DanglingContinuation (cd_id c) (cd_owner c))
      else if length (cd_opaque_token c) > gl_maximum_string_bytes limits
      then Inl (LimitExceeded ''continuation_token'' (length (cd_opaque_token c))
        (gl_maximum_string_bytes limits))
      else rbind (map_err (\<lambda>_. InvalidExtensions (cd_id c))
          (extensions_validate codec (gl_extensions limits) (cd_extensions c))) (\<lambda>_.
        validate_continuation_list codec limits rest nodes (insert (cd_id c) seen)))"

definition validate_continuations ::
  "'json json_codec \<Rightarrow> 'json SourceGraph \<Rightarrow> 'json node_map \<Rightarrow> GraphLimits \<Rightarrow> GraphError + unit" where
  "validate_continuations codec graph nodes limits =
     validate_continuation_list codec limits (sg_continuations graph) nodes {}"

section \<open>Redirects\<close>

fun collect_redirects ::
  "SourceEdge list \<Rightarrow> 'json node_map \<Rightarrow> (string \<times> string list) list
   \<Rightarrow> GraphError + (string \<times> string list) list" where
  "collect_redirects [] nodes targets = Inr targets"
| "collect_redirects (edge # edges) nodes targets =
     (if se_kind edge \<noteq> TransparentlyOverlays then collect_redirects edges nodes targets
      else case bt_get nodes (se_from edge) of
        None \<Rightarrow> Inl (DanglingEdge (se_id edge) (se_from edge))
      | Some source \<Rightarrow>
          if sn_kind source \<noteq> Redirect then Inl (InvalidRedirectSource (se_id edge) (se_from edge))
          else collect_redirects edges nodes
            (bt_insert (se_from edge)
              ((case bt_get targets (se_from edge) of None \<Rightarrow> [] | Some ts \<Rightarrow> ts) @ [se_to edge]) targets))"

fun check_ambiguous :: "(string \<times> string list) list \<Rightarrow> GraphError + unit" where
  "check_ambiguous [] = Inr ()"
| "check_ambiguous ((node, targets) # rest) =
     (if length targets > 1 then Inl (AmbiguousRedirect node (length targets)) else check_ambiguous rest)"

definition redirect_next :: "(string \<times> string list) list \<Rightarrow> string \<Rightarrow> string option" where
  "redirect_next targets current =
     (case bt_get targets current of Some (next_node # _) \<Rightarrow> Some next_node | _ \<Rightarrow> None)"

fun redirect_chain ::
  "(string \<times> string list) list \<Rightarrow> usize \<Rightarrow> string \<Rightarrow> nat \<Rightarrow> string set \<Rightarrow> string \<Rightarrow> GraphError + unit" where
  "redirect_chain targets maximum start remaining seen current =
     (if current \<in> seen then Inl (RedirectCycle current)
      else case redirect_next targets current of
        None \<Rightarrow> Inr ()
      | Some next_node \<Rightarrow>
          (case remaining of
             0 \<Rightarrow> Inl (RedirectBudgetExceeded start maximum)
           | Suc rest \<Rightarrow> redirect_chain targets maximum start rest (insert current seen) next_node))"

declare redirect_chain.simps [simp del]

fun redirect_chains ::
  "(string \<times> string list) list \<Rightarrow> usize \<Rightarrow> 'json SourceNode list \<Rightarrow> GraphError + unit" where
  "redirect_chains targets maximum [] = Inr ()"
| "redirect_chains targets maximum (node # rest) =
     (if sn_kind node \<noteq> Redirect then redirect_chains targets maximum rest
      else rbind (redirect_chain targets maximum (sn_id node) maximum {} (sn_id node)) (\<lambda>_.
        redirect_chains targets maximum rest))"

definition validate_redirects :: "'json SourceGraph \<Rightarrow> 'json node_map \<Rightarrow> usize \<Rightarrow> GraphError + unit" where
  "validate_redirects graph nodes maximum =
     rbind (collect_redirects (sg_edges graph) nodes []) (\<lambda>targets.
     rbind (check_ambiguous targets) (\<lambda>_.
     redirect_chains targets maximum (bt_values nodes)))"

section \<open>Relationship cycles\<close>

datatype RelationshipTraversal = Recursive | Descriptive

fun relationship_traversal :: "EdgeKind \<Rightarrow> RelationshipTraversal" where
  "relationship_traversal Contains = Recursive"
| "relationship_traversal Embeds = Recursive"
| "relationship_traversal TransparentlyOverlays = Recursive"
| "relationship_traversal Continuation = Recursive"
| "relationship_traversal Alternate = Descriptive"
| "relationship_traversal Complementary = Descriptive"
| "relationship_traversal Additional = Descriptive"
| "relationship_traversal DerivedOutput = Descriptive"

definition relationship_cycle_is_forbidden :: "EdgeKind \<Rightarrow> bool" where
  "relationship_cycle_is_forbidden kind = (relationship_traversal kind = Recursive)"

type_synonym adjacency = "(string \<times> (string \<times> unit) list) list"

fun adjacency_nodes :: "'json SourceNode list \<Rightarrow> adjacency \<Rightarrow> adjacency" where
  "adjacency_nodes [] adj = adj"
| "adjacency_nodes (node # rest) adj =
     adjacency_nodes rest (if bt_get adj (sn_id node) = None then bt_insert (sn_id node) [] adj else adj)"

fun adjacency_edges :: "SourceEdge list \<Rightarrow> adjacency \<Rightarrow> adjacency" where
  "adjacency_edges [] adj = adj"
| "adjacency_edges (edge # edges) adj =
     adjacency_edges edges
       (if relationship_cycle_is_forbidden (se_kind edge)
        then bt_insert (se_from edge) (bt_insert (se_to edge) ()
          (case bt_get adj (se_from edge) of None \<Rightarrow> [] | Some ts \<Rightarrow> ts)) adj
        else adj)"

definition relationship_adjacency :: "'json SourceGraph \<Rightarrow> adjacency" where
  "relationship_adjacency graph = adjacency_edges (sg_edges graph) (adjacency_nodes (sg_nodes graph) [])"

definition targets_of :: "adjacency \<Rightarrow> string \<Rightarrow> string list" where
  "targets_of adj node = (case bt_get adj node of None \<Rightarrow> [] | Some ts \<Rightarrow> map fst ts)"

fun push_targets ::
  "string set \<Rightarrow> string set \<Rightarrow> string list \<Rightarrow> (string \<times> bool) list \<Rightarrow> GraphError + (string \<times> bool) list" where
  "push_targets visiting visited [] stack = Inr stack"
| "push_targets visiting visited (target # rest) stack =
     (if target \<in> visiting then Inl (RelationshipCycle target)
      else push_targets visiting visited rest
        (if target \<notin> visited then (target, False) # stack else stack))"

definition unexplored :: "adjacency \<Rightarrow> string set \<Rightarrow> string set \<Rightarrow> nat" where
  "unexplored adj visiting visited =
     length (filter (\<lambda>k. k \<notin> visiting \<and> k \<notin> visited) (map fst adj))"

lemma length_filter_mono:
  "(\<And>x. x \<in> set xs \<Longrightarrow> P x \<Longrightarrow> Q x) \<Longrightarrow> length (filter P xs) \<le> length (filter Q xs)"
  by (induction xs) auto

lemma length_filter_strict:
  "(\<And>x. x \<in> set xs \<Longrightarrow> P x \<Longrightarrow> Q x) \<Longrightarrow> y \<in> set xs \<Longrightarrow> Q y \<Longrightarrow> \<not> P y \<Longrightarrow>
     length (filter P xs) < length (filter Q xs)"
  using length_filter_mono [of _ P Q] by (induction xs) (auto simp: less_Suc_eq_le)

lemma push_targets_open:
  "push_targets visiting visited targets stack = Inr stack' \<Longrightarrow>
     stack' = map (\<lambda>t. (t, False)) (rev (filter (\<lambda>t. t \<notin> visited) targets)) @ stack
     \<and> set targets \<inter> visiting = {}"
  by (induction targets arbitrary: stack) (auto split: if_splits)

function dfs ::
  "adjacency \<Rightarrow> string set \<Rightarrow> string set \<Rightarrow> (string \<times> bool) list \<Rightarrow> GraphError + string set \<times> string set" where
  "dfs adj visiting visited [] = Inr (visiting, visited)"
| "dfs adj visiting visited ((node, True) # stack) =
     dfs adj (visiting - {node}) (insert node visited) stack"
| "dfs adj visiting visited ((node, False) # stack) =
     (if node \<in> visited then dfs adj visiting visited stack
      else if node \<in> visiting then Inl (RelationshipCycle node)
      else case push_targets (insert node visiting) visited (rev (targets_of adj node))
             ((node, True) # stack) of
        Inl e \<Rightarrow> Inl e
      | Inr stack \<Rightarrow> dfs adj (insert node visiting) visited stack)"
  by pat_completeness auto

termination dfs
proof (relation "inv_image ({(a, b). a < b} <*lex*> {(a, b). a < b} <*lex*> {(a, b). a < b})
    (\<lambda>(adj, visiting, visited, stack). (unexplored adj visiting visited,
       length (filter (\<lambda>(n, exiting). \<not> exiting) stack), length stack))", goal_cases)
  case 1
  show ?case by (auto simp: wf_less intro!: wf_inv_image wf_lex_prod)
next
  case (2 adj visiting visited node stack)
  have "unexplored adj (visiting - {node}) (insert node visited) \<le> unexplored adj visiting visited"
    unfolding unexplored_def by (rule length_filter_mono) auto
  then show ?case by auto
next
  case (3 adj visiting visited node stack)
  then show ?case by auto
next
  case (4 adj visiting visited node stack stack')
  show ?case
  proof (cases "node \<in> set (map fst adj)")
    case True
    have "unexplored adj (insert node visiting) visited < unexplored adj visiting visited"
      unfolding unexplored_def by (rule length_filter_strict [of _ _ _ node]) (use 4 True in auto)
    then show ?thesis by simp
  next
    case False
    then have "bt_get adj node = None" by (auto simp: bt_get_None_iff)
    then have "stack' = (node, True) # stack" using 4 by (simp add: targets_of_def)
    moreover have "unexplored adj (insert node visiting) visited \<le> unexplored adj visiting visited"
      unfolding unexplored_def by (rule length_filter_mono) auto
    ultimately show ?thesis by auto
  qed
qed

fun explore_roots :: "adjacency \<Rightarrow> string set \<Rightarrow> string set \<Rightarrow> string list \<Rightarrow> GraphError + unit" where
  "explore_roots adj visiting visited [] = Inr ()"
| "explore_roots adj visiting visited (root # roots) =
     (if root \<in> visited then explore_roots adj visiting visited roots
      else rbind (dfs adj visiting visited [(root, False)]) (\<lambda>(visiting, visited).
        explore_roots adj visiting visited roots))"

definition validate_relationship_cycles :: "'json SourceGraph \<Rightarrow> GraphError + unit" where
  "validate_relationship_cycles graph =
     (let adj = relationship_adjacency graph in explore_roots adj {} {} (map fst adj))"

section \<open>The whole validation\<close>

definition graph_validate :: "'json json_codec \<Rightarrow> 'json SourceGraph \<Rightarrow> GraphLimits \<Rightarrow> GraphError + unit" where
  "graph_validate codec graph limits =
     rbind (validate_graph_schema_and_limits graph limits) (\<lambda>_.
     rbind (collect_validated_nodes codec graph limits) (\<lambda>nodes.
     rbind (validate_roots_and_parents graph nodes (gl_maximum_provenance_depth limits)) (\<lambda>_.
     rbind (validate_edges graph nodes) (\<lambda>_.
     rbind (validate_continuations codec graph nodes limits) (\<lambda>_.
     rbind (validate_redirects graph nodes (gl_maximum_redirect_depth limits)) (\<lambda>_.
     validate_relationship_cycles graph))))))"

end
