(* ===== verification/Graph_Cycles.thy ===== *)
theory Graph_Cycles
  imports Source_Graph
begin

text \<open>
  The depth-first search of \<open>validate_relationship_cycles\<close> is exact: it accepts exactly the
  graphs whose recursive relationships have no cycle, and the node it reports lies on one.

  Its stack holds the nodes on the current path (their exit entries) and, above each of them, the
  successors still to be entered. The invariant says that the path follows edges and that every
  successor of a path node is finished, pending above it, or the next node of the path.
\<close>

section \<open>The invariant of the stack\<close>

definition on_path :: "('a \<times> bool) list \<Rightarrow> 'a set" where
  "on_path stack = {n. (n, True) \<in> set stack}"

fun stack_ok ::
  "('a \<times> 'a) set \<Rightarrow> 'a set \<Rightarrow> 'a set \<Rightarrow> 'a option \<Rightarrow> ('a \<times> bool) list \<Rightarrow> bool" where
  "stack_ok E finished waiting child [] = True"
| "stack_ok E finished waiting child ((n, False) # stack) \<longleftrightarrow>
     n \<notin> on_path stack \<and> stack_ok E finished (insert n waiting) child stack"
| "stack_ok E finished waiting child ((n, True) # stack) \<longleftrightarrow>
     n \<notin> on_path stack \<and>
     (\<forall>m. (n, m) \<in> E \<longrightarrow> m \<in> finished \<or> m \<in> waiting \<or> child = Some m) \<and>
     (\<forall>m. m \<in> waiting \<or> child = Some m \<longrightarrow> (n, m) \<in> E) \<and>
     stack_ok E finished {} (Some n) stack"

definition finished_ok :: "('a \<times> 'a) set \<Rightarrow> 'a set \<Rightarrow> bool" where
  "finished_ok E finished \<longleftrightarrow>
     (\<forall>n m. n \<in> finished \<longrightarrow> (n, m) \<in> E \<longrightarrow> m \<in> finished) \<and> (\<forall>n \<in> finished. (n, n) \<notin> E\<^sup>+)"

lemma on_path_simps [simp]:
  "on_path [] = {}"
  "on_path ((n, True) # stack) = insert n (on_path stack)"
  "on_path ((n, False) # stack) = on_path stack"
  by (auto simp: on_path_def)

lemma on_path_pending [simp]: "on_path (map (\<lambda>t. (t, False)) ts @ stack) = on_path stack"
  by (auto simp: on_path_def)

lemma stack_ok_mono:
  "stack_ok E finished waiting child stack \<Longrightarrow> finished \<subseteq> finished' \<Longrightarrow>
     stack_ok E finished' waiting child stack"
proof (induction E finished waiting child stack arbitrary: finished' rule: stack_ok.induct)
  case (3 E finished waiting child n stack)
  then show ?case by fastforce
qed simp_all

text \<open>The node just finished is no longer the child of the path.\<close>

lemma stack_ok_close:
  "stack_ok E finished waiting (Some n) stack \<Longrightarrow> stack_ok E (insert n finished) waiting None stack"
proof (induction stack arbitrary: waiting)
  case (Cons e stack)
  show ?case
  proof (cases e)
    case (Pair m b)
    with Cons show ?thesis
      by (cases b) (auto intro: stack_ok_mono)
  qed
qed simp

text \<open>A pending node that is finished by now needs no visit.\<close>

lemma stack_ok_skip:
  "stack_ok E finished (insert n waiting) child stack \<Longrightarrow> n \<in> finished \<Longrightarrow>
     stack_ok E finished waiting child stack"
proof (induction stack arbitrary: waiting)
  case (Cons e stack)
  show ?case
  proof (cases e)
    case (Pair m b)
    with Cons show ?thesis
      by (cases b) (auto simp: insert_commute)
  qed
qed simp

text \<open>A pending node that is entered becomes the child of the path.\<close>

lemma stack_ok_enter:
  "stack_ok E finished (insert n waiting) None stack \<Longrightarrow> stack_ok E finished waiting (Some n) stack"
proof (induction stack arbitrary: waiting)
  case (Cons e stack)
  show ?case
  proof (cases e)
    case (Pair m b)
    with Cons show ?thesis
      by (cases b) (auto simp: insert_commute)
  qed
qed simp

lemma stack_ok_pending:
  "set ts \<inter> on_path stack = {} \<Longrightarrow> stack_ok E finished (set ts \<union> waiting) child stack \<Longrightarrow>
     stack_ok E finished waiting child (map (\<lambda>t. (t, False)) ts @ stack)"
proof (induction ts arbitrary: waiting)
  case (Cons t ts)
  then have "stack_ok E finished (insert t waiting) child (map (\<lambda>t. (t, False)) ts @ stack)"
    by (intro Cons.IH) auto
  with Cons.prems show ?case by simp
qed simp

text \<open>The top of the path is reachable from every node of the path.\<close>

lemma stack_ok_reach:
  "stack_ok E finished waiting child stack \<Longrightarrow> n \<in> on_path stack \<Longrightarrow>
     m \<in> waiting \<or> child = Some m \<Longrightarrow> (n, m) \<in> E\<^sup>+"
proof (induction E finished waiting child stack arbitrary: m rule: stack_ok.induct)
  case (3 E finished waiting child k stack)
  then have km: "(k, m) \<in> E" by auto
  show ?case
  proof (cases "n = k")
    case True
    with km show ?thesis by auto
  next
    case False
    with 3 have "(n, k) \<in> E\<^sup>+" by auto
    with km show ?thesis by auto
  qed
qed auto

lemma finished_insert:
  assumes "finished_ok E finished" and "\<And>m. (n, m) \<in> E \<Longrightarrow> m \<in> finished"
  shows "finished_ok E (insert n finished)"
proof -
  have closed: "m \<in> finished" if "(k, m) \<in> E\<^sup>*" "k \<in> finished" for k m
    using that assms(1) by (induction rule: rtrancl_induct) (auto simp: finished_ok_def)
  have "(n, n) \<notin> E\<^sup>+" 
  proof
    assume cycle: "(n, n) \<in> E\<^sup>+"
    then obtain m where "(n, m) \<in> E" "(m, n) \<in> E\<^sup>*" by (meson tranclD)
    then have "n \<in> finished" using assms(2) closed by blast
    with cycle assms(1) show False by (simp add: finished_ok_def)
  qed
  with assms show ?thesis by (auto simp: finished_ok_def)
qed

section \<open>The search\<close>

definition adj_edges :: "adjacency \<Rightarrow> (string \<times> string) set" where
  "adj_edges adj = {(n, m). m \<in> set (targets_of adj n)}"

lemma push_targets_cycle:
  "push_targets visiting visited targets stack = Inl e \<Longrightarrow>
     \<exists>t \<in> set targets. t \<in> visiting \<and> e = RelationshipCycle t"
  by (induction targets arbitrary: stack) (auto split: if_splits)

lemma dfs_exact:
  assumes "stack_ok (adj_edges adj) visited {} None stack" and "visiting = on_path stack"
    and "finished_ok (adj_edges adj) visited"
  shows "case dfs adj visiting visited stack of
     Inr (visiting', visited') \<Rightarrow> visiting' = {} \<and> finished_ok (adj_edges adj) visited' \<and>
       visited \<subseteq> visited' \<and> fst ` set stack \<subseteq> visited'
   | Inl e \<Rightarrow> \<exists>n. e = RelationshipCycle n \<and> (n, n) \<in> (adj_edges adj)\<^sup>+"
  using assms
proof (induction adj visiting visited stack rule: dfs.induct)
  case (1 adj visiting visited)
  then show ?case by simp
next
  case (2 adj visiting visited node stack)
  let ?E = "adj_edges adj"
  from "2.prems"(1) have rest: "node \<notin> on_path stack" "stack_ok ?E visited {} (Some node) stack"
    and succs: "\<And>m. (node, m) \<in> ?E \<Longrightarrow> m \<in> visited"
    by auto
  have ok: "stack_ok ?E (insert node visited) {} None stack"
    using rest(2) by (rule stack_ok_close)
  have path: "visiting - {node} = on_path stack"
    using "2.prems"(2) rest(1) by auto
  have finished: "finished_ok ?E (insert node visited)"
    using "2.prems"(3) succs by (rule finished_insert)
  show ?case
    using "2.IH" [OF ok path finished] by (auto split: sum.splits)
next
  case (3 adj visiting visited node stack)
  let ?E = "adj_edges adj" and ?ts = "rev (targets_of adj node)"
  from "3.prems"(1,2) have fresh: "node \<notin> visiting" and path: "visiting = on_path stack"
    and rest: "stack_ok ?E visited {node} None stack"
    by simp_all
  show ?case
  proof (cases "node \<in> visited")
    case True
    have skip: "stack_ok ?E visited {} None stack" using rest True by (rule stack_ok_skip)
    show ?thesis
      using "3.IH"(1) [OF True skip path "3.prems"(3)] True by (auto split: sum.splits)
  next
    case False
    from rest have entered: "stack_ok ?E visited {} (Some node) stack" by (rule stack_ok_enter)
    show ?thesis
    proof (cases "push_targets (insert node visiting) visited ?ts ((node, True) # stack)")
      case (Inl e)
      then obtain t where t: "t \<in> set ?ts" "t = node \<or> t \<in> on_path stack" "e = RelationshipCycle t"
        using push_targets_cycle [OF Inl] path by auto
      then have edge: "(node, t) \<in> ?E" by (simp add: adj_edges_def)
      have "(t, t) \<in> ?E\<^sup>+"
      proof (cases "t = node")
        case True
        with edge show ?thesis by (simp add: r_into_trancl)
      next
        case False
        with t have "t \<in> on_path stack" by simp
        from stack_ok_reach [OF entered this] have "(t, node) \<in> ?E\<^sup>+" by simp
        from this edge show ?thesis by (rule trancl_into_trancl)
      qed
      with t show ?thesis using Inl False fresh by simp
    next
      case (Inr stack')
      let ?open = "rev (filter (\<lambda>t. t \<notin> visited) ?ts)"
      from push_targets_open [OF Inr] path
      have stack': "stack' = map (\<lambda>t. (t, False)) ?open @ (node, True) # stack"
        and apart: "set ?ts \<inter> insert node (on_path stack) = {}" by auto
      have "stack_ok ?E visited (set ?open) None ((node, True) # stack)"
        using entered fresh path by (auto simp: adj_edges_def)
      with apart have ok: "stack_ok ?E visited {} None stack'"
        unfolding stack' by (intro stack_ok_pending) auto
      have path': "insert node visiting = on_path stack'"
        using path by (simp add: stack')
      from "3.IH"(2) [OF False fresh Inr ok path' "3.prems"(3)] Inr False fresh show ?thesis
        by (auto simp: stack' split: sum.splits)
    qed
  qed
qed

section \<open>The edges that are searched\<close>

definition recursive_edges :: "'json SourceGraph \<Rightarrow> (string \<times> string) set" where
  "recursive_edges graph =
     {(se_from e, se_to e) | e. e \<in> set (sg_edges graph) \<and> relationship_cycle_is_forbidden (se_kind e)}"

lemma targets_of_insert:
  "targets_of (bt_insert n ts adj) m = (if m = n then map fst ts else targets_of adj m)"
  by (simp add: targets_of_def bt_get_insert)

lemma adjacency_nodes_edges: "adj_edges (adjacency_nodes nodes adj) = adj_edges adj"
proof (induction nodes arbitrary: adj)
  case (Cons node nodes)
  have "targets_of (if bt_get adj (sn_id node) = None then bt_insert (sn_id node) [] adj else adj) n =
      targets_of adj n" for n
    by (simp add: targets_of_def bt_get_insert)
  with Cons show ?case by (simp add: adj_edges_def)
qed simp

lemma targets_of_get: "bt_get adj n = Some ts \<Longrightarrow> targets_of adj n = map fst ts"
  and targets_of_none: "bt_get adj n = None \<Longrightarrow> targets_of adj n = []"
  by (simp_all add: targets_of_def)

lemma adj_edges_insert:
  "adj_edges (bt_insert a (bt_insert b () (case bt_get adj a of None \<Rightarrow> [] | Some ts \<Rightarrow> ts)) adj) =
     insert (a, b) (adj_edges adj)"
proof (cases "bt_get adj a")
  case None
  then show ?thesis
    by (auto simp: adj_edges_def targets_of_insert targets_of_none fst_set_insert split: if_splits)
next
  case (Some ts)
  then show ?thesis
    by (auto simp: adj_edges_def targets_of_insert targets_of_get fst_set_insert split: if_splits)
qed

lemma adjacency_edges_edges:
  "adj_edges (adjacency_edges es adj) = adj_edges adj \<union>
     {(se_from e, se_to e) | e. e \<in> set es \<and> relationship_cycle_is_forbidden (se_kind e)}"
proof (induction es arbitrary: adj)
  case (Cons e es)
  have "adj_edges (bt_insert (se_from e) (bt_insert (se_to e) ()
      (case bt_get adj (se_from e) of None \<Rightarrow> [] | Some ts \<Rightarrow> ts)) adj) =
      insert (se_from e, se_to e) (adj_edges adj)"
    by (rule adj_edges_insert)
  with Cons show ?case by auto
qed simp

lemma adjacency_exact: "adj_edges (relationship_adjacency graph) = recursive_edges graph"
proof -
  have "adj_edges [] = {}" by (simp add: adj_edges_def targets_of_def)
  then show ?thesis
    by (simp add: relationship_adjacency_def adjacency_edges_edges adjacency_nodes_edges
        recursive_edges_def)
qed

lemma explore_exact:
  assumes "finished_ok (adj_edges adj) visited"
  shows "case explore_roots adj {} visited roots of
     Inr _ \<Rightarrow> \<exists>visited'. finished_ok (adj_edges adj) visited' \<and> set roots \<subseteq> visited' \<and> visited \<subseteq> visited'
   | Inl e \<Rightarrow> \<exists>n. e = RelationshipCycle n \<and> (n, n) \<in> (adj_edges adj)\<^sup>+"
  using assms
proof (induction roots arbitrary: visited)
  case (Cons root roots)
  show ?case
  proof (cases "root \<in> visited")
    case True
    with Cons.IH [OF Cons.prems] show ?thesis by (auto split: sum.splits)
  next
    case False
    note search = dfs_exact [of adj visited "[(root, False)]" "{}", OF _ _ Cons.prems]
    show ?thesis
    proof (cases "dfs adj {} visited [(root, False)]")
      case (Inl e)
      with search False show ?thesis by simp
    next
      case (Inr r)
      with search obtain visited' where r: "r = ({}, visited')" "finished_ok (adj_edges adj) visited'"
        "insert root visited \<subseteq> visited'" by (cases r) auto
      with Cons.IH [OF r(2)] Inr False show ?thesis by (fastforce split: sum.splits)
    qed
  qed
qed auto

lemma cycles_exact:
  "case validate_relationship_cycles graph of
     Inr _ \<Rightarrow> acyclic (recursive_edges graph)
   | Inl e \<Rightarrow> \<exists>n. e = RelationshipCycle n \<and> (n, n) \<in> (recursive_edges graph)\<^sup>+"
proof -
  let ?adj = "relationship_adjacency graph"
  have ok: "finished_ok (adj_edges ?adj) {}" by (simp add: finished_ok_def)
  show ?thesis
  proof (cases "explore_roots ?adj {} {} (map fst ?adj)")
    case (Inl e)
    with explore_exact [OF ok, of "map fst ?adj"] show ?thesis
      by (simp add: validate_relationship_cycles_def adjacency_exact Let_def)
  next
    case (Inr u)
    with explore_exact [OF ok, of "map fst ?adj"] obtain visited where
      visited: "finished_ok (recursive_edges graph) visited" "fst ` set ?adj \<subseteq> visited"
      by (auto simp: adjacency_exact)
    have "(n, n) \<notin> (recursive_edges graph)\<^sup>+" for n
    proof
      assume cycle: "(n, n) \<in> (recursive_edges graph)\<^sup>+"
      then obtain m where "(n, m) \<in> adj_edges ?adj" by (metis adjacency_exact tranclD)
      then have "targets_of ?adj n \<noteq> []" by (auto simp: adj_edges_def)
      then have "bt_get ?adj n \<noteq> None" using targets_of_none by blast
      then have "n \<in> visited" using visited(2) by (auto simp: bt_get_None_iff)
      with visited(1) cycle show False by (simp add: finished_ok_def)
    qed
    with Inr show ?thesis
      by (simp add: validate_relationship_cycles_def acyclic_def Let_def)
  qed
qed

lemma cycles_accepted_iff:
  "validate_relationship_cycles graph = Inr () \<longleftrightarrow> acyclic (recursive_edges graph)"
  using cycles_exact [of graph]
  by (cases "validate_relationship_cycles graph") (auto simp: acyclic_def)

text \<open>
  The cycle check of a source graph is exact. It accepts a graph precisely when no node
  reaches itself along containment, embedding, overlay and continuation edges, whatever the
  descriptive edges do, and when it rejects, the node in the error lies on such a cycle.
\<close>

theorem relationship_cycles_exact:
  "case validate_relationship_cycles graph of
     Inr _ \<Rightarrow> acyclic (recursive_edges graph)
   | Inl e \<Rightarrow> \<exists>n. e = RelationshipCycle n \<and> (n, n) \<in> (recursive_edges graph)\<^sup>+"
  by (rule cycles_exact)

end
