(* ===== verification/Graph_Validity.thy ===== *)
theory Graph_Validity
  imports Graph_Cycles
begin

text \<open>
  What \<open>SourceGraph::validate\<close> accepts, stated without the order of its passes, its lookup tables
  or its early returns. Both bounded walks of the validation (up the provenance parents, along the
  redirects) are instances of one contract, \<open>chain_walk\<close>: they keep a set of the nodes already
  met, and accept exactly when the chain ends within the budget.
\<close>

section \<open>Bounded walks\<close>

fun chain_ends :: "('a \<Rightarrow> 'a option) \<Rightarrow> nat \<Rightarrow> 'a \<Rightarrow> bool" where
  "chain_ends advance budget k =
     (case advance k of
        None \<Rightarrow> True
      | Some k' \<Rightarrow> (case budget of 0 \<Rightarrow> False | Suc rest \<Rightarrow> chain_ends advance rest k'))"

declare chain_ends.simps [simp del]

lemma chain_ends_stop: "advance k = None \<Longrightarrow> chain_ends advance budget k"
  by (simp add: chain_ends.simps [of _ _ k])

abbreviation steps_of :: "('a \<Rightarrow> 'a option) \<Rightarrow> ('a \<times> 'a) set" where
  "steps_of advance \<equiv> {(a, b). advance a = Some b}"

lemma chain_ends_acyclic: "chain_ends advance budget k \<Longrightarrow> (k, k) \<notin> (steps_of advance)\<^sup>+"
proof (induction advance budget k rule: chain_ends.induct)
  case (1 advance budget k)
  show ?case
  proof
    assume cycle: "(k, k) \<in> (steps_of advance)\<^sup>+"
    then obtain k' where k': "advance k = Some k'" "(k', k) \<in> (steps_of advance)\<^sup>*"
      by (auto dest: tranclD)
    then have "(k', k') \<in> (steps_of advance)\<^sup>+" by (auto intro: rtrancl_into_trancl1)
    moreover obtain rest where "budget = Suc rest" "chain_ends advance rest k'"
      using "1.prems" k'(1) by (auto simp: chain_ends.simps [of advance budget k] split: nat.splits)
    ultimately show False using "1.IH" k'(1) by blast
  qed
qed

text \<open>Two lookups that agree on a closed set of nodes walk alike there.\<close>


locale chain_walk =
  fixes wf :: "'m \<Rightarrow> bool"
    and present :: "'m \<Rightarrow> 's \<Rightarrow> bool"
    and key :: "'s \<Rightarrow> 'k"
    and advance :: "'m \<Rightarrow> 's \<Rightarrow> 's option"
    and accepts :: "'m \<Rightarrow> nat \<Rightarrow> 'k set \<Rightarrow> 's \<Rightarrow> bool"
  assumes key_inj: "present m s \<Longrightarrow> present m s' \<Longrightarrow> key s = key s' \<Longrightarrow> s = s'"
    and advance_present: "wf m \<Longrightarrow> present m s \<Longrightarrow> advance m s = Some s' \<Longrightarrow> present m s'"
    and accepts_eq: "wf m \<Longrightarrow> present m s \<Longrightarrow> accepts m budget seen s \<longleftrightarrow>
      key s \<notin> seen \<and> (case advance m s of
        None \<Rightarrow> True
      | Some s' \<Rightarrow> (case budget of 0 \<Rightarrow> False | Suc rest \<Rightarrow> accepts m rest (insert (key s) seen) s'))"
begin

lemma met_not_again:
  assumes "chain_ends (advance m) budget s" "present m s"
    "\<forall>k \<in> seen. \<exists>t. key t = k \<and> present m t \<and> (t, s) \<in> (steps_of (advance m))\<^sup>+"
  shows "key s \<notin> seen"
proof
  assume "key s \<in> seen"
  with assms(3) obtain t where "key t = key s" "present m t" "(t, s) \<in> (steps_of (advance m))\<^sup>+"
    by blast
  moreover from this have "t = s" using key_inj [OF _ assms(2)] by blast
  ultimately show False using chain_ends_acyclic [OF assms(1)] by simp
qed

lemma accepts_from:
  assumes "wf m" "present m s"
    "\<forall>k \<in> seen. \<exists>t. key t = k \<and> present m t \<and> (t, s) \<in> (steps_of (advance m))\<^sup>+"
  shows "accepts m budget seen s \<longleftrightarrow> chain_ends (advance m) budget s"
  using assms(2,3)
proof (induction budget arbitrary: s seen)
  case 0
  show ?case
    using accepts_eq [OF assms(1) "0.prems"(1), of 0 seen] met_not_again [where budget = 0, OF _ "0.prems"]
    by (cases "advance m s") (auto simp: chain_ends.simps [of _ _ s])
next
  case (Suc rest)
  show ?case
  proof (cases "advance m s")
    case None
    then show ?thesis
      using accepts_eq [OF assms(1) Suc.prems(1), of "Suc rest" seen] met_not_again [where budget = "Suc rest", OF _ Suc.prems]
      by (auto simp: chain_ends.simps [of _ _ s])
  next
    case (Some s')
    have "(s, s') \<in> steps_of (advance m)" using Some by simp
    then have met: "\<forall>k \<in> insert (key s) seen. \<exists>t. key t = k \<and> present m t \<and> (t, s') \<in> (steps_of (advance m))\<^sup>+"
      using Suc.prems by (blast intro: trancl_into_trancl)
    note on_tail = Suc.IH [OF advance_present [OF assms(1) Suc.prems(1) Some] met]
    show ?thesis
      using accepts_eq [OF assms(1) Suc.prems(1), of "Suc rest" seen] met_not_again [where budget = "Suc rest", OF _ Suc.prems]
      by (auto simp: chain_ends.simps [of _ _ s] Some on_tail)
  qed
qed

theorem accepts_iff:
  "wf m \<Longrightarrow> present m s \<Longrightarrow> accepts m budget {} s \<longleftrightarrow> chain_ends (advance m) budget s"
  by (rule accepts_from) simp_all

end
definition parent_known :: "'json node_map \<Rightarrow> bool" where
  "parent_known nodes \<longleftrightarrow> (\<forall>k node. bt_get nodes k = Some node \<longrightarrow>
     sn_id node = k \<and> (\<forall>p. pv_parent_node (sn_provenance node) = Some p \<longrightarrow> bt_get nodes p \<noteq> None))"

definition stored :: "'json node_map \<Rightarrow> 'json SourceNode \<Rightarrow> bool" where
  "stored nodes node \<longleftrightarrow> bt_get nodes (sn_id node) = Some node"

definition parent_in :: "'json node_map \<Rightarrow> 'json SourceNode \<Rightarrow> 'json SourceNode option" where
  "parent_in nodes node = Option.bind (pv_parent_node (sn_provenance node)) (bt_get nodes)"

lemma provenance_accepts:
  assumes "parent_known nodes" "stored nodes node"
  shows "provenance_chain nodes maximum start budget seen node = Inr () \<longleftrightarrow>
     sn_id node \<notin> seen \<and> (case parent_in nodes node of
        None \<Rightarrow> True
      | Some p \<Rightarrow> (case budget of 0 \<Rightarrow> False | Suc rest \<Rightarrow>
          provenance_chain nodes maximum start rest (insert (sn_id node) seen) p = Inr ()))"
proof (cases "pv_parent_node (sn_provenance node)")
  case None
  then show ?thesis by (simp add: provenance_chain.simps [of _ _ _ _ _ node] parent_in_def)
next
  case (Some p)
  moreover from this obtain parent where "bt_get nodes p = Some parent"
    using assms unfolding parent_known_def stored_def by (metis not_None_eq)
  ultimately show ?thesis
    by (simp add: provenance_chain.simps [of _ _ _ budget] parent_in_def split: nat.splits)
qed

interpretation provenance: chain_walk parent_known stored sn_id parent_in
    "\<lambda>nodes budget seen node. provenance_chain nodes maximum start budget seen node = Inr ()"
  for maximum start
proof (unfold_locales, goal_cases)
  case (1 m s s')
  then show ?case by (simp add: stored_def)
next
  case (2 m s s')
  then show ?case by (auto simp: parent_known_def stored_def parent_in_def bind_eq_Some_conv)
next
  case (3 m s budget seen)
  then show ?case
    by (rule provenance_accepts)
qed

interpretation redirect: chain_walk "\<lambda>_. True" "\<lambda>_ _. True" "\<lambda>k. k" redirect_next
    "\<lambda>targets budget seen k. redirect_chain targets maximum start budget seen k = Inr ()"
  for maximum start
proof (unfold_locales, goal_cases)
  case (3 m s budget seen)
  then show ?case
    by (subst redirect_chain.simps) (auto split: option.splits nat.splits)
qed simp_all

section \<open>What a node must satisfy\<close>

definition bounded_text :: "usize \<Rightarrow> string TriState \<Rightarrow> bool" where
  "bounded_text maximum t = (case t of Present val \<Rightarrow> length val \<le> maximum | _ \<Rightarrow> True)"

definition node_fields_ok :: "'json json_codec \<Rightarrow> GraphLimits \<Rightarrow> 'json SourceNode \<Rightarrow> bool" where
  "node_fields_ok codec limits node \<longleftrightarrow>
     (\<forall>val \<in> {pv_extractor_key (sn_provenance node), pv_source_identity (sn_provenance node),
         pv_canonical_url (sn_provenance node)}.
       val \<noteq> [] \<and> \<not> has_control val \<and> length val \<le> gl_maximum_string_bytes limits) \<and>
     min (length (entity_values (sn_identities node))) (2 ^ 64 - 1)
       \<le> gl_maximum_identity_values_per_node limits \<and>
     bounded_text (gl_maximum_string_bytes limits) (sn_title node) \<and>
     bounded_text (gl_maximum_string_bytes limits) (sn_description node) \<and>
     extensions_validate codec (gl_extensions limits) (sn_extensions node) = Inr ()"

definition entities_of :: "'json SourceNode \<Rightarrow> string list" where
  "entities_of node = map snd (entity_values (sn_identities node))"

definition canonical_of :: "'json SourceNode \<Rightarrow> string \<times> string" where
  "canonical_of node = (pv_canonical_url (sn_provenance node), pv_source_identity (sn_provenance node))"

lemma identity_count_exact:
  "identity_count ids = min (length (entity_values ids)) (2 ^ 64 - 1)"
  by (simp add: identity_count_def entity_values_def usize_checked_add_def split: option.splits)

lemma validate_texts_iff:
  "validate_texts node maximum fs = Inr () \<longleftrightarrow> (\<forall>(f, t) \<in> set fs. bounded_text maximum t)"
  by (induction node maximum fs rule: validate_texts.induct)
    (auto simp: bounded_text_def split: TriState.splits)

lemma validate_strings_iff:
  "validate_strings node maximum fs = Inr () \<longleftrightarrow>
     (\<forall>(f, val) \<in> set fs. val \<noteq> [] \<and> \<not> has_control val \<and> length val \<le> maximum)"
  by (induction node maximum fs rule: validate_strings.induct) auto

lemma insert_entities_iff:
  "insert_entities ids seen = Inr seen' \<longleftrightarrow>
     distinct (map snd ids) \<and> snd ` set ids \<inter> seen = {} \<and> seen' = seen \<union> snd ` set ids"
  by (induction ids seen rule: insert_entities.induct) auto

lemma validate_node_iff:
  "validate_node codec limits node seen = Inr seen' \<longleftrightarrow>
     node_fields_ok codec limits node \<and> distinct (entities_of node) \<and>
     set (entities_of node) \<inter> seen = {} \<and> seen' = seen \<union> set (entities_of node)"
  by (auto simp: validate_node_def result_simps validate_strings_iff insert_entities_iff
      validate_texts_iff check_limit_def identity_count_exact node_fields_ok_def entities_of_def
      not_less simp del: validate_strings.simps validate_texts.simps)

section \<open>The node table\<close>

definition node_table :: "'json SourceNode list \<Rightarrow> 'json node_map \<Rightarrow> 'json node_map" where
  "node_table ns nodes = fold (\<lambda>n m. bt_insert (sn_id n) n m) ns nodes"

lemma collect_nodes_iff:
  "collect_nodes codec limits ns nodes seen canonical = Inr nodes' \<longleftrightarrow>
     distinct (map sn_id ns) \<and> (\<forall>n \<in> set ns. bt_get nodes (sn_id n) = None) \<and>
     (\<forall>n \<in> set ns. node_fields_ok codec limits n) \<and>
     distinct (concat (map entities_of ns)) \<and> set (concat (map entities_of ns)) \<inter> seen = {} \<and>
     distinct (map canonical_of ns) \<and> canonical_of ` set ns \<inter> canonical = {} \<and>
     nodes' = node_table ns nodes"
proof (induction ns arbitrary: nodes seen canonical)
  case (Cons n ns)
  show ?case
    by (simp add: result_simps validate_node_iff Let_def canonical_of_def [symmetric]
        Cons.IH bt_get_insert node_table_def, auto) (metis image_eqI)
qed (auto simp: node_table_def)

lemma table_get:
  "distinct (map sn_id ns) \<Longrightarrow> bt_get (node_table ns nodes) k =
     (case map_of (map (\<lambda>n. (sn_id n, n)) ns) k of None \<Rightarrow> bt_get nodes k | Some n \<Rightarrow> Some n)"
  by (induction ns arbitrary: nodes)
    (auto simp: node_table_def bt_get_insert map_of_eq_None_iff image_iff split: option.splits
      dest!: map_of_SomeD)

lemma table_ok: "bt_ok nodes \<Longrightarrow> bt_ok (node_table ns nodes)"
  by (induction ns arbitrary: nodes) (simp_all add: node_table_def bt_ok_insert)

lemma table_values:
  assumes "distinct (map sn_id ns)"
  shows "set (bt_values (node_table ns [])) = set ns"
proof -
  have get: "bt_get (node_table ns []) = map_of (map (\<lambda>n. (sn_id n, n)) ns)"
    using assms by (auto simp: table_get split: option.splits)
  have "(k, n) \<in> set (node_table ns []) \<longleftrightarrow> n \<in> set ns \<and> k = sn_id n" for k n
  proof -
    have "(k, n) \<in> set (node_table ns []) \<longleftrightarrow> map_of (map (\<lambda>n. (sn_id n, n)) ns) k = Some n"
      using bt_get_Some_iff [OF table_ok [OF bt_ok_Nil], of ns k n] get by simp
    also have "\<dots> \<longleftrightarrow> (k, n) \<in> set (map (\<lambda>n. (sn_id n, n)) ns)"
      by (rule map_of_eq_Some_iff) (simp add: assms comp_def)
    finally show ?thesis by auto
  qed
  moreover have "n \<in> set (bt_values m) \<longleftrightarrow> (\<exists>k. (k, n) \<in> set m)" for n and m :: "'a node_map"
    by force
  ultimately show ?thesis by blast
qed

section \<open>The other passes\<close>

lemma validate_roots_iff:
  "validate_roots roots nodes seen = Inr () \<longleftrightarrow>
     distinct roots \<and> set roots \<inter> seen = {} \<and> (\<forall>r \<in> set roots. bt_get nodes r \<noteq> None)"
  by (induction roots nodes seen rule: validate_roots.induct) auto

lemma validate_parents_iff:
  "validate_parents ns nodes = Inr () \<longleftrightarrow>
     (\<forall>n \<in> set ns. \<forall>p. pv_parent_node (sn_provenance n) = Some p \<longrightarrow> bt_get nodes p \<noteq> None)"
  by (induction ns nodes rule: validate_parents.induct) (auto split: option.splits)

lemma validate_provenance_from_iff:
  "validate_provenance_from nodes maximum ns = Inr () \<longleftrightarrow>
     (\<forall>n \<in> set ns. provenance_chain nodes maximum (sn_id n) maximum {} n = Inr ())"
  by (induction nodes maximum ns rule: validate_provenance_from.induct) (auto simp: result_simps)

lemma validate_edge_list_iff:
  "validate_edge_list es nodes seen = Inr () \<longleftrightarrow>
     distinct (map se_id es) \<and> se_id ` set es \<inter> seen = {} \<and>
     (\<forall>e \<in> set es. bt_get nodes (se_from e) \<noteq> None \<and> bt_get nodes (se_to e) \<noteq> None)"
  by (induction es nodes seen rule: validate_edge_list.induct) auto

definition continuation_ok ::
  "'json json_codec \<Rightarrow> GraphLimits \<Rightarrow> 'json ContinuationDescriptor \<Rightarrow> bool" where
  "continuation_ok codec limits c \<longleftrightarrow>
     length (cd_opaque_token c) \<le> gl_maximum_string_bytes limits \<and>
     extensions_validate codec (gl_extensions limits) (cd_extensions c) = Inr ()"

lemma validate_continuation_list_iff:
  "validate_continuation_list codec limits cs nodes seen = Inr () \<longleftrightarrow>
     distinct (map cd_id cs) \<and> cd_id ` set cs \<inter> seen = {} \<and>
     (\<forall>c \<in> set cs. bt_get nodes (cd_owner c) \<noteq> None \<and> continuation_ok codec limits c)"
  by (induction codec limits cs nodes seen rule: validate_continuation_list.induct)
    (auto simp: result_simps continuation_ok_def)

section \<open>Redirects\<close>

definition overlays :: "SourceEdge list \<Rightarrow> SourceEdge list" where
  "overlays es = filter (\<lambda>e. se_kind e = TransparentlyOverlays) es"

definition overlays_from :: "SourceEdge list \<Rightarrow> string \<Rightarrow> string list" where
  "overlays_from es k = map se_to (filter (\<lambda>e. se_from e = k) (overlays es))"

lemma collect_redirects_shape:
  "collect_redirects es nodes targets = Inr targets' \<Longrightarrow> bt_ok targets \<Longrightarrow>
     bt_ok targets' \<and> (\<forall>k. bt_get targets' k =
       (if overlays_from es k = [] then bt_get targets k
        else Some ((case bt_get targets k of None \<Rightarrow> [] | Some ts \<Rightarrow> ts) @ overlays_from es k)))"
proof (induction es nodes targets rule: collect_redirects.induct)
  case (2 e es nodes targets)
  then show ?case
    by (cases "se_kind e = TransparentlyOverlays")
      (auto simp: overlays_from_def overlays_def bt_ok_insert bt_get_insert
        split: option.splits if_splits)
qed (simp add: overlays_from_def overlays_def)

lemma collect_redirects_ok_iff:
  "(\<exists>targets'. collect_redirects es nodes targets = Inr targets') \<longleftrightarrow>
     (\<forall>e \<in> set (overlays es). \<exists>n. bt_get nodes (se_from e) = Some n \<and> sn_kind n = Redirect)"
  by (induction es nodes targets rule: collect_redirects.induct)
    (auto simp: overlays_def split: option.splits)

lemma check_ambiguous_iff: "check_ambiguous m = Inr () \<longleftrightarrow> (\<forall>(k, ts) \<in> set m. length ts \<le> 1)"
  by (induction m rule: check_ambiguous.induct) auto

lemma redirect_chains_iff:
  "redirect_chains targets maximum ns = Inr () \<longleftrightarrow>
     (\<forall>n \<in> set ns. sn_kind n = Redirect \<longrightarrow>
        redirect_chain targets maximum (sn_id n) maximum {} (sn_id n) = Inr ())"
  by (induction targets maximum ns rule: redirect_chains.induct) (auto simp: result_simps)

lemma distinct_map_iff_unique:
  "distinct (map f xs) \<longleftrightarrow> (\<forall>k. length (filter (\<lambda>x. f x = k) xs) \<le> 1)"
proof (induction xs)
  case (Cons x xs)
  have "f x \<notin> f ` set xs \<longleftrightarrow> filter (\<lambda>y. f y = f x) xs = []"
    by (auto simp: filter_empty_conv image_iff)
  with Cons show ?case by (auto simp: le_Suc_eq)
qed simp

lemma map_of_first:
  "map_of (map (\<lambda>x. (f x, g x)) xs) k =
     (case map g (filter (\<lambda>x. f x = k) xs) of [] \<Rightarrow> None | y # ys \<Rightarrow> Some y)"
  by (induction xs) auto

definition redirect_of :: "'json SourceGraph \<Rightarrow> string \<Rightarrow> string option" where
  "redirect_of graph = map_of (map (\<lambda>e. (se_from e, se_to e)) (overlays (sg_edges graph)))"

lemma validate_redirects_iff:
  "validate_redirects graph nodes maximum = Inr () \<longleftrightarrow>
     (\<forall>e \<in> set (overlays (sg_edges graph)).
        \<exists>n. bt_get nodes (se_from e) = Some n \<and> sn_kind n = Redirect) \<and>
     distinct (map se_from (overlays (sg_edges graph))) \<and>
     (\<forall>n \<in> set (bt_values nodes). sn_kind n = Redirect \<longrightarrow>
        chain_ends (redirect_of graph) maximum (sn_id n))"
proof (cases "collect_redirects (sg_edges graph) nodes []")
  case (Inl e)
  then show ?thesis
    using collect_redirects_ok_iff [of "sg_edges graph" nodes "[]"]
    by (simp add: validate_redirects_def del: not_ex)
next
  case (Inr targets)
  let ?from = "overlays_from (sg_edges graph)"
  have shape: "bt_ok targets" "\<And>k. bt_get targets k = (if ?from k = [] then None else Some (?from k))"
    using collect_redirects_shape [OF Inr] by simp_all
  have entry: "(k, ts) \<in> set targets \<longleftrightarrow> ?from k \<noteq> [] \<and> ts = ?from k" for k ts
    using bt_get_Some_iff [OF shape(1), of k ts] shape(2) [of k] by (auto split: if_splits)
  have advance: "redirect_next targets = redirect_of graph"
    by (rule ext) (auto simp: redirect_next_def redirect_of_def map_of_first shape(2)
        overlays_from_def split: list.splits)
  have "check_ambiguous targets = Inr () \<longleftrightarrow> (\<forall>k. length (?from k) \<le> 1)"
  proof
    assume small: "check_ambiguous targets = Inr ()"
    show "\<forall>k. length (?from k) \<le> 1"
    proof
      fix k
      show "length (?from k) \<le> 1"
        using small entry [of k "?from k"] by (cases "?from k = []") (auto simp: check_ambiguous_iff)
    qed
  qed (auto simp: check_ambiguous_iff entry)
  also have "\<dots> \<longleftrightarrow> distinct (map se_from (overlays (sg_edges graph)))"
    by (simp add: distinct_map_iff_unique overlays_from_def)
  finally show ?thesis
    using Inr collect_redirects_ok_iff [of "sg_edges graph" nodes "[]"]
    by (simp add: validate_redirects_def result_simps redirect_chains_iff redirect.accepts_iff advance)
qed

section \<open>The whole validation\<close>

definition node_of :: "'json SourceGraph \<Rightarrow> string \<Rightarrow> 'json SourceNode option" where
  "node_of graph = map_of (map (\<lambda>n. (sn_id n, n)) (sg_nodes graph))"

definition parent_of :: "'json SourceGraph \<Rightarrow> 'json SourceNode \<Rightarrow> 'json SourceNode option" where
  "parent_of graph n = Option.bind (pv_parent_node (sn_provenance n)) (node_of graph)"

abbreviation node_ids :: "'json SourceGraph \<Rightarrow> string set" where
  "node_ids graph \<equiv> sn_id ` set (sg_nodes graph)"

definition within_limits :: "'json SourceGraph \<Rightarrow> GraphLimits \<Rightarrow> bool" where
  "within_limits graph limits \<longleftrightarrow>
     in_range (gl_accepted_schema limits) (sg_schema graph) \<and>
     length (sg_roots graph) \<le> gl_maximum_roots limits \<and>
     length (sg_nodes graph) \<le> gl_maximum_nodes limits \<and>
     length (sg_edges graph) \<le> gl_maximum_edges limits \<and>
     length (sg_continuations graph) \<le> gl_maximum_continuations limits"

text \<open>Every identifier is used once, and every reference names a node of the graph.\<close>

definition identities_unique :: "'json SourceGraph \<Rightarrow> bool" where
  "identities_unique graph \<longleftrightarrow>
     distinct (sg_roots graph) \<and> distinct (map sn_id (sg_nodes graph)) \<and>
     distinct (map se_id (sg_edges graph)) \<and> distinct (map cd_id (sg_continuations graph)) \<and>
     distinct (concat (map entities_of (sg_nodes graph))) \<and> distinct (map canonical_of (sg_nodes graph))"

definition references_resolve :: "'json SourceGraph \<Rightarrow> bool" where
  "references_resolve graph \<longleftrightarrow>
     set (sg_roots graph) \<subseteq> node_ids graph \<and>
     (\<forall>e \<in> set (sg_edges graph). se_from e \<in> node_ids graph \<and> se_to e \<in> node_ids graph) \<and>
     (\<forall>c \<in> set (sg_continuations graph). cd_owner c \<in> node_ids graph) \<and>
     (\<forall>n \<in> set (sg_nodes graph). \<forall>p. pv_parent_node (sn_provenance n) = Some p \<longrightarrow> p \<in> node_ids graph)"

definition redirects_resolve :: "'json SourceGraph \<Rightarrow> usize \<Rightarrow> bool" where
  "redirects_resolve graph maximum \<longleftrightarrow>
     (\<forall>e \<in> set (overlays (sg_edges graph)).
        \<exists>n. node_of graph (se_from e) = Some n \<and> sn_kind n = Redirect) \<and>
     distinct (map se_from (overlays (sg_edges graph))) \<and>
     (\<forall>n \<in> set (sg_nodes graph). sn_kind n = Redirect \<longrightarrow> chain_ends (redirect_of graph) maximum (sn_id n))"

definition source_graph_ok :: "'json json_codec \<Rightarrow> 'json SourceGraph \<Rightarrow> GraphLimits \<Rightarrow> bool" where
  "source_graph_ok codec graph limits \<longleftrightarrow>
     within_limits graph limits \<and> identities_unique graph \<and> references_resolve graph \<and>
     (\<forall>n \<in> set (sg_nodes graph). node_fields_ok codec limits n) \<and>
     (\<forall>c \<in> set (sg_continuations graph). continuation_ok codec limits c) \<and>
     (\<forall>n \<in> set (sg_nodes graph). chain_ends (parent_of graph) (gl_maximum_provenance_depth limits) n) \<and>
     redirects_resolve graph (gl_maximum_redirect_depth limits) \<and>
     acyclic (recursive_edges graph)"

lemma schema_and_limits_iff:
  "validate_graph_schema_and_limits graph limits = Inr () \<longleftrightarrow> within_limits graph limits"
proof -
  have "is_ok (compatibility_check r v) \<longleftrightarrow> in_range r v" for r v
    using compatibility_check_iff [of r v] by (cases "compatibility_check r v") auto
  then show ?thesis
    using in_range_bounds [of "gl_accepted_schema limits" "sg_schema graph"]
    by (auto simp: validate_graph_schema_and_limits_def within_limits_def check_limit_def
        result_simps not_less)
qed

lemma collect_validated_iff:
  "collect_validated_nodes codec graph limits = Inr nodes \<longleftrightarrow>
     distinct (map sn_id (sg_nodes graph)) \<and>
     (\<forall>n \<in> set (sg_nodes graph). node_fields_ok codec limits n) \<and>
     distinct (concat (map entities_of (sg_nodes graph))) \<and>
     distinct (map canonical_of (sg_nodes graph)) \<and> nodes = node_table (sg_nodes graph) []"
  by (auto simp: collect_validated_nodes_def collect_nodes_iff)

lemma node_of_None_iff: "node_of graph k = None \<longleftrightarrow> k \<notin> node_ids graph"
  by (auto simp: node_of_def map_of_eq_None_iff image_image)

lemma table_node_of:
  "distinct (map sn_id (sg_nodes graph)) \<Longrightarrow> bt_get (node_table (sg_nodes graph) []) = node_of graph"
  by (auto simp: table_get node_of_def split: option.splits)

lemma roots_and_parents_iff:
  assumes "distinct (map sn_id (sg_nodes graph))"
  shows "validate_roots_and_parents graph (node_table (sg_nodes graph) []) maximum = Inr () \<longleftrightarrow>
    distinct (sg_roots graph) \<and> set (sg_roots graph) \<subseteq> node_ids graph \<and>
    (\<forall>n \<in> set (sg_nodes graph). \<forall>p. pv_parent_node (sn_provenance n) = Some p \<longrightarrow> p \<in> node_ids graph) \<and>
    (\<forall>n \<in> set (sg_nodes graph). chain_ends (parent_of graph) maximum n)"
    (is "_ \<longleftrightarrow> _ \<and> _ \<and> ?parents \<and> _")
proof -
  let ?table = "node_table (sg_nodes graph) []"
  have lookup: "n \<in> set (sg_nodes graph) \<Longrightarrow> node_of graph (sn_id n) = Some n" for n
    using assms by (simp add: node_of_def map_of_eq_Some_iff comp_def)
  have known: "parent_known ?table" if ?parents
    using that unfolding parent_known_def table_node_of [OF assms] node_of_None_iff
    by (auto simp: node_of_def dest!: map_of_SomeD)
  have "validate_provenance_chains ?table maximum = Inr () \<longleftrightarrow>
      (\<forall>n \<in> set (sg_nodes graph). chain_ends (parent_of graph) maximum n)" if ?parents
  proof -
    have "parent_in ?table = parent_of graph"
      by (rule ext) (simp add: parent_in_def parent_of_def table_node_of [OF assms])
    then show ?thesis
      using provenance.accepts_iff [OF known [OF that]] lookup
      by (simp add: validate_provenance_chains_def validate_provenance_from_iff
          table_values [OF assms] stored_def table_node_of [OF assms] del: set_map)
  qed
  then show ?thesis
    by (auto simp: validate_roots_and_parents_def result_simps validate_roots_iff
        validate_parents_iff table_node_of [OF assms] node_of_None_iff)
qed

lemma redirects_iff:
  "distinct (map sn_id (sg_nodes graph)) \<Longrightarrow>
     validate_redirects graph (node_table (sg_nodes graph) []) maximum = Inr () \<longleftrightarrow>
     redirects_resolve graph maximum"
  by (simp only: validate_redirects_iff redirects_resolve_def table_node_of table_values)

lemma graph_validate_iff:
  "graph_validate codec graph limits = Inr () \<longleftrightarrow> source_graph_ok codec graph limits"
proof (cases "distinct (map sn_id (sg_nodes graph))")
  case False
  then show ?thesis
    by (auto simp: graph_validate_def result_simps collect_validated_iff source_graph_ok_def
        identities_unique_def)
next
  case True
  have "graph_validate codec graph limits = Inr () \<longleftrightarrow>
    within_limits graph limits \<and>
    (\<exists>nodes. collect_validated_nodes codec graph limits = Inr nodes \<and>
      validate_roots_and_parents graph nodes (gl_maximum_provenance_depth limits) = Inr () \<and>
      validate_edges graph nodes = Inr () \<and> validate_continuations codec graph nodes limits = Inr () \<and>
      validate_redirects graph nodes (gl_maximum_redirect_depth limits) = Inr () \<and>
      acyclic (recursive_edges graph))"
    by (simp add: graph_validate_def result_simps schema_and_limits_iff cycles_accepted_iff)
  also have "\<dots> \<longleftrightarrow> source_graph_ok codec graph limits"
    using True
    by (simp add: collect_validated_iff roots_and_parents_iff validate_edges_def
        validate_continuations_def validate_edge_list_iff validate_continuation_list_iff
        redirects_iff table_node_of node_of_None_iff source_graph_ok_def
        identities_unique_def references_resolve_def del: not_None_eq) blast
  finally show ?thesis .
qed

text \<open>
  C24: Validation of a source graph accepts exactly the graphs that satisfy the declarative
  conditions: supported schema, sizes within the limits, every identifier used once, every
  reference resolved, the fields of nodes and continuations within their bounds, every provenance
  and redirect chain ending within its depth budget, overlays leaving redirect nodes only and at
  most one per node, and no cycle of recursive relationships. Neither the order of the passes nor
  the lookup tables they build matter.
\<close>

theorem source_graph_exact:
  "graph_validate codec graph limits = Inr () \<longleftrightarrow> source_graph_ok codec graph limits"
  by (rule graph_validate_iff)

end
