(* ===== verification/Path_References.thy ===== *)
theory Path_References
  imports Contract_Identity
begin

text \<open>
  Relative path references, as the contracts pass them instead of paths.

  A reference is read by splitting it at both separators and walking down from a root that is not
  named. The walk below is what a file system does with the segments: empty and current-directory
  segments stay, a parent segment goes up, and going up from the root is an escape. The locale
  \<open>path_reference\<close> collects what every check of a reference must establish and what follows
  from it; the checks of \<open>protocol.rs\<close> and \<open>graph.rs\<close> interpret it.
\<close>

section \<open>Segments\<close>

text \<open>\<open>str::replace\<close> of one byte by another.\<close>

definition normalize_separators :: "string \<Rightarrow> string" where
  "normalize_separators val = map (\<lambda>c. if c = CHR 92 then CHR ''/'' else c) val"

definition path_segments :: "string \<Rightarrow> string list" where
  "path_segments val = split_on (\<lambda>c. c = CHR ''/'') (normalize_separators val)"

fun walk :: "string list \<Rightarrow> string list \<Rightarrow> string list option" where
  "walk here [] = Some here"
| "walk here (segment # segments) =
     (if segment \<in> {[], ''.''} then walk here segments
      else if segment = ''..'' then (case here of [] \<Rightarrow> None | parent # up \<Rightarrow> walk up segments)
      else walk (segment # here) segments)"

lemma walk_plain:
  "\<forall>s \<in> set segments. s \<notin> {[], ''.'', ''..''} \<Longrightarrow> walk here segments = Some (rev segments @ here)"
  by (induction segments arbitrary: here) auto

text \<open>Some file systems drop the dots and spaces a name ends in.\<close>

definition trim_end :: "string \<Rightarrow> string" where
  "trim_end s = rev (dropWhile (\<lambda>c. c \<in> {CHR ''.'', CHR '' ''}) (rev s))"

lemma trim_end_same_iff: "trim_end s = s \<longleftrightarrow> s = [] \<or> last s \<notin> {CHR ''.'', CHR '' ''}"
proof (cases s rule: rev_cases)
  case (snoc ys y)
  show ?thesis
  proof (cases "y \<in> {CHR ''.'', CHR '' ''}")
    case True
    then have "length (trim_end s) \<le> length ys"
      using snoc length_dropWhile_le [of "\<lambda>c. c \<in> {CHR ''.'', CHR '' ''}" "rev ys"]
      by (auto simp: trim_end_def)
    then have "trim_end s \<noteq> s" using snoc by auto
    with True snoc show ?thesis by auto
  next
    case False
    with snoc show ?thesis by (simp add: trim_end_def)
  qed
qed (simp add: trim_end_def)

section \<open>The interface\<close>

locale path_reference =
  fixes accepts :: "string \<Rightarrow> bool"
  assumes segments_plain: "accepts val \<Longrightarrow> s \<in> set (path_segments val) \<Longrightarrow> s \<notin> {[], ''.'', ''..''}"
    and no_colon: "accepts val \<Longrightarrow> CHR '':'' \<notin> set val"
begin

lemma confined:
  "accepts val \<Longrightarrow> walk here (path_segments val) = Some (rev (path_segments val) @ here)"
  by (rule walk_plain) (use segments_plain in blast)

lemma below_root: "accepts val \<Longrightarrow> path_segments val \<noteq> [] \<and> hd (path_segments val) \<noteq> []"
  by (metis hd_in_set insertCI path_segments_def segments_plain split_on_ne)

text \<open>The reference names a place strictly inside the root, whatever the root is.\<close>

theorem inside:
  "accepts val \<Longrightarrow>
     \<exists>name below. walk here (path_segments val) = Some (name # below @ here) \<and> CHR '':'' \<notin> set val"
  using confined [of val here] below_root [of val] no_colon [of val]
  by (cases "path_segments val" rule: rev_cases) auto

end

lemma starts_with_slash: "starts_with s ''/'' \<Longrightarrow> [] \<in> set (split_on (\<lambda>c. c = CHR ''/'') s)"
  by (cases s) (auto simp: starts_with_def)

lemma colon_normalized: "CHR '':'' \<in> set (normalize_separators val) \<longleftrightarrow> CHR '':'' \<in> set val"
  by (auto simp: normalize_separators_def image_iff split: if_splits)

end
