(* ===== verification/Data_Contract.thy ===== *)
theory Data_Contract
  imports Path_References
begin

text \<open>
  Acquisition sources and output sinks, the data-only descriptors that accompany a source graph
  (\<open>fforager-contracts/src/graph.rs\<close>), and the confinement of their path references.
  Whether the host regards a path as absolute is an argument of the validation.
\<close>

section \<open>Data\<close>

record DataContractLimits =
  dl_maximum_fragments :: usize
  dl_maximum_text_bytes :: usize
  dl_maximum_path_reference_bytes :: usize
  dl_maximum_buffer_items :: u64
  dl_maximum_buffer_bytes :: u64
  dl_maximum_sink_lifetime_seconds :: u64

definition data_contract_limits_default :: DataContractLimits where
  "data_contract_limits_default = \<lparr> dl_maximum_fragments = 10000, dl_maximum_text_bytes = 16 * 1024,
     dl_maximum_path_reference_bytes = 4 * 1024, dl_maximum_buffer_items = 4096,
     dl_maximum_buffer_bytes = 64 * 1024 * 1024, dl_maximum_sink_lifetime_seconds = 31 * 24 * 60 * 60 \<rparr>"

datatype DataContractError =
    LimitExceeded string u64 u64
  | EmptyCollection string
  | EmptyText string
  | InvalidText string
  | InvalidPathReference string string
  | InvalidChecksum u64
  | DuplicateFragmentSequence u64
  | InvalidBoundedBuffer

record FragmentDescriptor =
  fg_sequence :: u64
  fg_url :: string
  fg_expected_bytes :: "u64 option"
  fg_checksum :: "string option"

datatype AcquisitionSource =
    DirectUrl string
  | Manifest string string
  | Fragments string "FragmentDescriptor list"

datatype PlayerTransport = Stdin | NamedPipe | LocalHttp | UrlPassthrough

datatype OutputSinkSpec =
    AtomicFile string
  | Stdout
  | NamedPipe string
  | LocalHttp string "string option"
  | Player string PlayerTransport
  | HostCallback string
  | Null

datatype BackpressureMode = BlockProducer | BoundedBuffer u64 u64 | DropDeclaredTelemetryOnly

record SinkSemantics =
  sk_backpressure :: BackpressureMode
  sk_seekable :: bool
  sk_atomic :: bool
  sk_postprocessing_requires_seekable_temporary :: bool
  sk_expected_lifetime_seconds :: "u64 option"

section \<open>Field checks\<close>

definition validate_data_text :: "string \<Rightarrow> string \<Rightarrow> DataContractLimits \<Rightarrow> DataContractError + unit" where
  "validate_data_text field val limits =
     (if val = [] then Inl (EmptyText field)
      else if has_control val then Inl (InvalidText field)
      else if length val > dl_maximum_text_bytes limits
      then Inl (LimitExceeded field (of_nat (length val)) (of_nat (dl_maximum_text_bytes limits)))
      else Inr ())"

definition ends_in_dot_or_space :: "string \<Rightarrow> bool" where
  "ends_in_dot_or_space s = (s \<noteq> [] \<and> last s \<in> {CHR ''.'', CHR '' ''})"

definition validate_rooted_path_reference ::
  "(string \<Rightarrow> bool) \<Rightarrow> string \<Rightarrow> string \<Rightarrow> DataContractLimits \<Rightarrow> DataContractError + unit" where
  "validate_rooted_path_reference is_absolute field val limits =
     (if length val > dl_maximum_path_reference_bytes limits
      then Inl (LimitExceeded field (of_nat (length val))
        (of_nat (dl_maximum_path_reference_bytes limits)))
      else if val = [] \<or> is_absolute val \<or> has_control val
      then Inl (InvalidPathReference field val)
      else if starts_with (normalize_separators val) ''/''
        \<or> CHR '':'' \<in> set (normalize_separators val)
        \<or> list_ex (\<lambda>segment. segment \<in> {[], ''.'', ''..''} \<or> ends_in_dot_or_space segment)
            (path_segments val)
      then Inl (InvalidPathReference field val)
      else Inr ())"

section \<open>Descriptors\<close>

definition fragment_validate :: "FragmentDescriptor \<Rightarrow> DataContractLimits \<Rightarrow> DataContractError + unit" where
  "fragment_validate fragment limits =
     rbind (validate_data_text ''fragment_url'' (fg_url fragment) limits) (\<lambda>_.
     case fg_checksum fragment of
       Some checksum \<Rightarrow>
         if length checksum \<noteq> 64 \<or> \<not> list_all hex_char checksum
         then Inl (InvalidChecksum (fg_sequence fragment))
         else Inr ()
     | None \<Rightarrow> Inr ())"

fun validate_fragments ::
  "FragmentDescriptor list \<Rightarrow> DataContractLimits \<Rightarrow> u64 set \<Rightarrow> DataContractError + unit" where
  "validate_fragments [] limits sequences = Inr ()"
| "validate_fragments (fragment # rest) limits sequences =
     (if fg_sequence fragment \<in> sequences then Inl (DuplicateFragmentSequence (fg_sequence fragment))
      else rbind (fragment_validate fragment limits) (\<lambda>_.
        validate_fragments rest limits (insert (fg_sequence fragment) sequences)))"

fun acquisition_validate :: "AcquisitionSource \<Rightarrow> DataContractLimits \<Rightarrow> DataContractError + unit" where
  "acquisition_validate (DirectUrl url) limits = validate_data_text ''direct_url'' url limits"
| "acquisition_validate (Manifest url manifest_identity) limits =
     rbind (validate_data_text ''manifest_url'' url limits) (\<lambda>_.
     validate_data_text ''manifest_identity'' manifest_identity limits)"
| "acquisition_validate (Fragments manifest_identity fragments) limits =
     rbind (validate_data_text ''manifest_identity'' manifest_identity limits) (\<lambda>_.
     if fragments = [] then Inl (EmptyCollection ''fragments'')
     else if length fragments > dl_maximum_fragments limits
     then Inl (LimitExceeded ''fragments'' (of_nat (length fragments))
       (of_nat (dl_maximum_fragments limits)))
     else validate_fragments fragments limits {})"

fun sink_validate ::
  "(string \<Rightarrow> bool) \<Rightarrow> OutputSinkSpec \<Rightarrow> DataContractLimits \<Rightarrow> DataContractError + unit" where
  "sink_validate is_absolute (AtomicFile rooted_path) limits =
     validate_rooted_path_reference is_absolute ''rooted_path'' rooted_path limits"
| "sink_validate is_absolute (NamedPipe rooted_path) limits =
     validate_rooted_path_reference is_absolute ''rooted_path'' rooted_path limits"
| "sink_validate is_absolute (LocalHttp bind secret_reference) limits =
     rbind (validate_data_text ''local_http_bind'' bind limits) (\<lambda>_.
     case secret_reference of
       Some reference \<Rightarrow> validate_data_text ''secret_reference'' reference limits
     | None \<Rightarrow> Inr ())"
| "sink_validate is_absolute (Player executable_reference transport) limits =
     validate_data_text ''executable_reference'' executable_reference limits"
| "sink_validate is_absolute (HostCallback endpoint_id) limits =
     validate_data_text ''host_callback_endpoint'' endpoint_id limits"
| "sink_validate is_absolute Stdout limits = Inr ()"
| "sink_validate is_absolute Null limits = Inr ()"

definition sink_semantics_validate :: "SinkSemantics \<Rightarrow> DataContractLimits \<Rightarrow> DataContractError + unit" where
  "sink_semantics_validate semantics limits =
     rbind (case sk_expected_lifetime_seconds semantics of
       Some lifetime \<Rightarrow>
         if lifetime = 0 \<or> lifetime > dl_maximum_sink_lifetime_seconds limits
         then Inl (LimitExceeded ''expected_lifetime_seconds'' lifetime
           (dl_maximum_sink_lifetime_seconds limits))
         else Inr ()
     | None \<Rightarrow> Inr ()) (\<lambda>_.
     case sk_backpressure semantics of
       BoundedBuffer maximum_items maximum_bytes \<Rightarrow>
         if maximum_items = 0 \<or> maximum_bytes = 0 \<or> maximum_items > dl_maximum_buffer_items limits
            \<or> maximum_bytes > dl_maximum_buffer_bytes limits
         then Inl InvalidBoundedBuffer
         else Inr ()
     | _ \<Rightarrow> Inr ())"

section \<open>Confinement of sink paths\<close>

lemma rooted_path_iff:
  "validate_rooted_path_reference is_absolute field val limits = Inr () \<longleftrightarrow>
     length val \<le> dl_maximum_path_reference_bytes limits \<and> \<not> is_absolute val \<and> \<not> has_control val \<and>
     CHR '':'' \<notin> set val \<and> (\<forall>s \<in> set (path_segments val). s \<noteq> [] \<and> trim_end s = s)"
proof -
  have "\<not> ends_in_dot_or_space s \<longleftrightarrow> s = [] \<or> trim_end s = s" for s
    by (auto simp: ends_in_dot_or_space_def trim_end_same_iff)
  moreover have "ends_in_dot_or_space ''.''" "ends_in_dot_or_space ''..''"
    by (simp_all add: ends_in_dot_or_space_def)
  moreover have "path_segments [] = [[]]"
    by (simp add: path_segments_def normalize_separators_def)
  ultimately show ?thesis
    using starts_with_slash [of "normalize_separators val"]
    by (auto simp: validate_rooted_path_reference_def list_ex_iff colon_normalized not_less
        path_segments_def)
qed

interpretation rooted: path_reference
    "\<lambda>val. validate_rooted_path_reference is_absolute field val limits = Inr ()"
  for is_absolute field limits
proof (unfold_locales, goal_cases)
  case (1 val s)
  then show ?case using trim_end_same_iff [of "''.''"] trim_end_same_iff [of "''..''"]
    by (auto simp: rooted_path_iff)
next
  case (2 val)
  then show ?case by (simp add: rooted_path_iff)
qed

definition sink_path :: "OutputSinkSpec \<Rightarrow> string option" where
  "sink_path sink = (case sink of AtomicFile p \<Rightarrow> Some p | NamedPipe p \<Rightarrow> Some p | _ \<Rightarrow> None)"

text \<open>
  C27: A path reference of an accepted output sink stays inside the root it is resolved against.
  Walking its segments, split at either separator, from any place in the root ends at a named entry
  below that place and never steps above it; the same walk is taken by a file system that drops the
  dots and spaces at the end of each name, and no segment can name a drive or a stream.
\<close>

theorem sink_path_confined:
  assumes "sink_validate is_absolute sink limits = Inr ()" "sink_path sink = Some val"
  shows "\<exists>name below. walk here (map trim_end (path_segments val)) = Some (name # below @ here) \<and>
    walk here (path_segments val) = Some (name # below @ here) \<and> CHR '':'' \<notin> set val"
proof -
  have accepted: "validate_rooted_path_reference is_absolute ''rooted_path'' val limits = Inr ()"
    using assms by (cases sink) (auto simp: sink_path_def)
  then have "map trim_end (path_segments val) = path_segments val"
    by (auto simp: rooted_path_iff intro: map_idI)
  with rooted.inside [OF accepted, of here] show ?thesis by simp
qed

theorem sink_path_confined_witness:
  "\<exists>name below. walk [''root''] (map trim_end (path_segments ''media/clip.mp4'')) =
      Some (name # below @ [''root'']) \<and>
    walk [''root''] (path_segments ''media/clip.mp4'') = Some (name # below @ [''root'']) \<and>
    CHR '':'' \<notin> set ''media/clip.mp4''"
  by (rule sink_path_confined [where is_absolute = "\<lambda>val. starts_with val ''/''"
        and sink = "AtomicFile ''media/clip.mp4''" and limits = data_contract_limits_default])
    (simp_all add: sink_path_def validate_rooted_path_reference_def data_contract_limits_default_def
      has_control_def byte_def is_ascii_control_def starts_with_def normalize_separators_def
      path_segments_def ends_in_dot_or_space_def)

end
