(* ===== verification/Protocol.thy ===== *)
theory Protocol
  imports Path_References BTree_Map
begin

text \<open>
  The typed envelopes of the process, plugin and JavaScript-worker boundaries and their validation
  (\<open>fforager-contracts/src/protocol.rs\<close>).

  JSON payloads are a type parameter; the length of their encoding comes from the serializer, an
  argument of every validation that bounds a payload.
\<close>

section \<open>Envelopes\<close>

definition CONFIG_SCHEMA :: string where "CONFIG_SCHEMA = ''ff.config''"
definition EVENT_SCHEMA :: string where "EVENT_SCHEMA = ''ff.event''"
definition ERROR_SCHEMA :: string where "ERROR_SCHEMA = ''ff.error''"
definition CANCELLATION_SCHEMA :: string where "CANCELLATION_SCHEMA = ''ff.cancel''"
definition PROCESS_SCHEMA :: string where "PROCESS_SCHEMA = ''ff.process''"
definition PLUGIN_SCHEMA :: string where "PLUGIN_SCHEMA = ''ff.plugin''"
definition JAVASCRIPT_WORKER_SCHEMA :: string where
  "JAVASCRIPT_WORKER_SCHEMA = ''ff.javascript-worker''"

lemmas schema_names = CONFIG_SCHEMA_def EVENT_SCHEMA_def ERROR_SCHEMA_def CANCELLATION_SCHEMA_def
  PROCESS_SCHEMA_def PLUGIN_SCHEMA_def JAVASCRIPT_WORKER_SCHEMA_def

record EnvelopeHeader =
  eh_schema_id :: string
  eh_version :: SchemaVersion
  eh_request_id :: string
  eh_producer_id :: string
  eh_job_id :: "string option"
  eh_sequence :: u64

record 'json ConfigEnvelope =
  ce_header :: EnvelopeHeader
  ce_compatibility :: CompatibilityRange
  ce_values :: "(string \<times> 'json) list"

datatype EventCriticality = Telemetry | Operational | Terminal | Crash | InvariantBreach

datatype Sensitivity = Public | Operational | SensitiveRedacted

record 'json EventEnvelope =
  ev_header :: EnvelopeHeader
  ev_kind :: string
  ev_criticality :: EventCriticality
  ev_sensitivity :: Sensitivity
  ev_payload :: 'json

datatype ErrorCode =
    InvalidInput | UnsupportedVersion | UnknownMandatoryKind | ResourceExhausted | Cancelled | TimedOut
  | DependencyFailed | InvariantViolation | Internal

record 'json ErrorEnvelope =
  ee_header :: EnvelopeHeader
  ee_code :: ErrorCode
  ee_message :: string
  ee_retryable :: bool
  ee_details :: "(string \<times> 'json) list"

record CancellationRequest =
  cq_header :: EnvelopeHeader
  cq_target_request_id :: string
  cq_generation :: u64
  cq_reason :: string

datatype CancellationOutcome = Accepted | AlreadyCompleted | AlreadyCancelled | UnknownRequest

record CancellationAcknowledgement =
  ca_header :: EnvelopeHeader
  ca_target_request_id :: string
  ca_generation :: u64
  ca_outcome :: CancellationOutcome

record Hello =
  he_header :: EnvelopeHeader
  he_accepted :: CompatibilityRange
  he_artifact_id :: string
  he_schema_hash :: string

record 'json ProcessRequest =
  rq_header :: EnvelopeHeader
  rq_operation :: string
  rq_payload :: 'json

record Goodbye =
  gb_header :: EnvelopeHeader
  gb_completed :: bool

datatype 'json ProcessEnvelope =
    Hello Hello
  | Request "'json ProcessRequest"
  | Event "'json EventEnvelope"
  | Error "'json ErrorEnvelope"
  | Cancel CancellationRequest
  | CancelAcknowledged CancellationAcknowledgement
  | Goodbye Goodbye

datatype 'json PluginMessage =
    Describe
  | Invoke string string 'json
  | Result 'json
  | Failed ErrorCode string

datatype 'json JavaScriptWorkerMessage =
    Evaluate string 'json u64 u64
  | Result 'json
  | Failed ErrorCode string
  | Cancelled u64

record BoundaryProvenance =
  bp_artifact_id :: string
  bp_schema_hash :: string
  bp_capability_grant_id :: string

record 'json PluginEnvelope =
  pe_header :: EnvelopeHeader
  pe_compatibility :: CompatibilityRange
  pe_provenance :: BoundaryProvenance
  pe_message :: "'json PluginMessage"

record 'json JavaScriptWorkerEnvelope =
  je_header :: EnvelopeHeader
  je_compatibility :: CompatibilityRange
  je_provenance :: BoundaryProvenance
  je_message :: "'json JavaScriptWorkerMessage"

record ProtocolLimits =
  pl_accepted_version :: CompatibilityRange
  pl_maximum_schema_id_bytes :: usize
  pl_maximum_kind_bytes :: usize
  pl_maximum_message_bytes :: usize
  pl_maximum_reference_bytes :: usize
  pl_maximum_javascript_deadline_millis :: u64
  pl_maximum_javascript_memory_bytes :: u64

definition protocol_limits_default :: ProtocolLimits where
  "protocol_limits_default = \<lparr>
     pl_accepted_version = \<lparr> cr_major = 1, cr_minimum_minor = 0, cr_maximum_minor = 1 \<rparr>,
     pl_maximum_schema_id_bytes = 128, pl_maximum_kind_bytes = 128,
     pl_maximum_message_bytes = 8 * 1024, pl_maximum_reference_bytes = 4 * 1024,
     pl_maximum_javascript_deadline_millis = 5 * 60 * 1000,
     pl_maximum_javascript_memory_bytes = 512 * 1024 * 1024 \<rparr>"

datatype ProtocolError =
    FieldTooLong string usize usize
  | UnknownMandatoryKind string
  | DuplicateRequestId string
  | InvalidSequence
  | InvalidVersion
  | UnexpectedSchema string string
  | IncompatibleVersion SchemaVersion CompatibilityRange
  | InvalidExtensions
  | InvalidField string
  | NumericLimitExceeded string u64 u64
  | CorrelationMismatch string

section \<open>Field checks\<close>

definition validate_text :: "string \<Rightarrow> string \<Rightarrow> usize \<Rightarrow> ProtocolError + unit" where
  "validate_text field val maximum =
     (if val = [] \<or> has_control val then Inl (InvalidField field)
      else if length val > maximum then Inl (FieldTooLong field (length val) maximum)
      else Inr ())"

definition validate_reference :: "string \<Rightarrow> string \<Rightarrow> usize \<Rightarrow> ProtocolError + unit" where
  "validate_reference field val maximum =
     rbind (validate_text field val maximum) (\<lambda>_.
     if starts_with (normalize_separators val) ''/'' \<or> CHR '':'' \<in> set (normalize_separators val)
        \<or> list_ex (\<lambda>segment. segment \<in> {[], ''.'', ''..''}) (path_segments val)
     then Inl (InvalidField field)
     else Inr ())"

definition validate_numeric_limit :: "string \<Rightarrow> u64 \<Rightarrow> u64 \<Rightarrow> ProtocolError + unit" where
  "validate_numeric_limit field actual maximum =
     (if actual = 0 \<or> actual > maximum then Inl (NumericLimitExceeded field actual maximum)
      else Inr ())"

definition validate_json :: "'json json_codec \<Rightarrow> string \<Rightarrow> 'json \<Rightarrow> usize \<Rightarrow> ProtocolError + unit" where
  "validate_json codec field val maximum =
     rbind (ok_or (FieldTooLong field (2 ^ 64 - 1) maximum) (value_bytes codec val)) (\<lambda>actual.
     if actual > maximum then Inl (FieldTooLong field actual maximum) else Inr ())"

definition validate_compatibility :: "SchemaVersion \<Rightarrow> CompatibilityRange \<Rightarrow> ProtocolError + unit" where
  "validate_compatibility version compatibility =
     (if cr_minimum_minor compatibility > cr_maximum_minor compatibility
         \<or> \<not> is_ok (compatibility_check compatibility version)
      then Inl (IncompatibleVersion version compatibility)
      else Inr ())"

section \<open>Headers\<close>

text \<open>\<open>str::parse::<u16>\<close>: an optional plus sign, then at least one digit, without overflow.\<close>

fun decimal_value :: "nat \<Rightarrow> string \<Rightarrow> nat option" where
  "decimal_value n [] = Some n"
| "decimal_value n (c # cs) =
     (if is_ascii_digit (byte c) then decimal_value (10 * n + (unat (byte c) - 48)) cs else None)"

definition u16_from_str :: "string \<Rightarrow> u16 option" where
  "u16_from_str s =
     (let digits = (if starts_with s ''+'' then tl s else s) in
      if digits = [] then None
      else case decimal_value 0 digits of
        Some n \<Rightarrow> if n < 2 ^ 16 then Some (of_nat n) else None
      | None \<Rightarrow> None)"

definition parse_schema_id :: "string \<Rightarrow> u16 option" where
  "parse_schema_id schema_id =
     (case split_on (\<lambda>c. c = CHR ''@'') schema_id of
        name # major # rest \<Rightarrow>
          (case u16_from_str major of
             None \<Rightarrow> None
           | Some major \<Rightarrow>
               if rest \<noteq> [] \<or> name = [] \<or> \<not> list_all id_char name then None else Some major)
      | _ \<Rightarrow> None)"

definition header_validate :: "EnvelopeHeader \<Rightarrow> ProtocolLimits \<Rightarrow> ProtocolError + unit" where
  "header_validate header limits =
     rbind (validate_text ''schema_id'' (eh_schema_id header) (pl_maximum_schema_id_bytes limits)) (\<lambda>_.
     if eh_sequence header = 0 then Inl InvalidSequence
     else if parse_schema_id (eh_schema_id header) \<noteq> Some (sv_major (eh_version header))
       \<or> sv_major (eh_version header) = 0
     then Inl InvalidVersion
     else validate_compatibility (eh_version header) (pl_accepted_version limits))"

definition validate_header_schema ::
  "EnvelopeHeader \<Rightarrow> string \<Rightarrow> ProtocolLimits \<Rightarrow> ProtocolError + unit" where
  "validate_header_schema header expected limits =
     rbind (header_validate header limits) (\<lambda>_.
     case split_once CHR ''@'' (eh_schema_id header) of
       None \<Rightarrow> Inl InvalidVersion
     | Some (name, _) \<Rightarrow>
         if name \<noteq> expected then Inl (UnexpectedSchema expected (eh_schema_id header)) else Inr ())"

definition validate_boundary_header ::
  "EnvelopeHeader \<Rightarrow> string \<Rightarrow> ProtocolLimits \<Rightarrow> ProtocolError + unit" where
  "validate_boundary_header header expected limits =
     rbind (validate_header_schema header expected limits) (\<lambda>_.
     if eh_job_id header = None then Inl (InvalidField ''header.job_id'') else Inr ())"

definition validate_provenance :: "BoundaryProvenance \<Rightarrow> ProtocolLimits \<Rightarrow> ProtocolError + unit" where
  "validate_provenance provenance limits =
     rbind (validate_reference ''artifact_id'' (bp_artifact_id provenance)
       (pl_maximum_reference_bytes limits)) (\<lambda>_.
     rbind (validate_reference ''capability_grant_id'' (bp_capability_grant_id provenance)
       (pl_maximum_reference_bytes limits)) (\<lambda>_.
     if length (bp_schema_hash provenance) \<noteq> 64 \<or> \<not> list_all hex_char (bp_schema_hash provenance)
     then Inl (InvalidField ''schema_hash'')
     else Inr ()))"

section \<open>Whole envelopes\<close>

definition config_validate ::
  "'json json_codec \<Rightarrow> 'json ConfigEnvelope \<Rightarrow> ProtocolLimits \<Rightarrow> ProtocolError + unit" where
  "config_validate codec e limits =
     rbind (validate_header_schema (ce_header e) CONFIG_SCHEMA limits) (\<lambda>_.
     rbind (validate_compatibility (eh_version (ce_header e)) (ce_compatibility e)) (\<lambda>_.
     map_err (\<lambda>_. InvalidExtensions)
       (extensions_validate codec extension_limits_default (ce_values e))))"

definition event_validate ::
  "'json json_codec \<Rightarrow> 'json EventEnvelope \<Rightarrow> ProtocolLimits \<Rightarrow> ProtocolError + unit" where
  "event_validate codec e limits =
     rbind (validate_header_schema (ev_header e) EVENT_SCHEMA limits) (\<lambda>_.
     rbind (validate_text ''event_kind'' (ev_kind e) (pl_maximum_kind_bytes limits)) (\<lambda>_.
     validate_json codec ''event_payload'' (ev_payload e) (pl_maximum_message_bytes limits)))"

definition error_validate ::
  "'json json_codec \<Rightarrow> 'json ErrorEnvelope \<Rightarrow> ProtocolLimits \<Rightarrow> ProtocolError + unit" where
  "error_validate codec e limits =
     rbind (validate_header_schema (ee_header e) ERROR_SCHEMA limits) (\<lambda>_.
     rbind (validate_text ''error_message'' (ee_message e) (pl_maximum_message_bytes limits)) (\<lambda>_.
     map_err (\<lambda>_. InvalidExtensions)
       (extensions_validate codec extension_limits_default (ee_details e))))"

definition cancellation_request_validate ::
  "CancellationRequest \<Rightarrow> ProtocolLimits \<Rightarrow> ProtocolError + unit" where
  "cancellation_request_validate e limits =
     rbind (validate_header_schema (cq_header e) CANCELLATION_SCHEMA limits) (\<lambda>_.
     if cq_generation e = 0 then Inl InvalidSequence
     else validate_text ''cancel_reason'' (cq_reason e) (pl_maximum_message_bytes limits))"

definition cancellation_acknowledgement_validate ::
  "CancellationAcknowledgement \<Rightarrow> ProtocolLimits \<Rightarrow> ProtocolError + unit" where
  "cancellation_acknowledgement_validate e limits =
     rbind (validate_header_schema (ca_header e) CANCELLATION_SCHEMA limits) (\<lambda>_.
     if ca_generation e = 0 then Inl InvalidSequence else Inr ())"

fun first_mismatch :: "(bool \<times> string) list \<Rightarrow> ProtocolError + unit" where
  "first_mismatch [] = Inr ()"
| "first_mismatch ((matches, field) # checks) =
     (if \<not> matches then Inl (CorrelationMismatch field) else first_mismatch checks)"

definition validate_cancellation_correlation ::
  "CancellationRequest \<Rightarrow> CancellationAcknowledgement \<Rightarrow> string \<Rightarrow> ProtocolLimits
   \<Rightarrow> ProtocolError + unit" where
  "validate_cancellation_correlation request acknowledgement expected_producer limits =
     rbind (cancellation_request_validate request limits) (\<lambda>_.
     rbind (cancellation_acknowledgement_validate acknowledgement limits) (\<lambda>_.
     let sent = cq_header request; reply = ca_header acknowledgement in
     first_mismatch [
       (eh_request_id sent = eh_request_id reply, ''header.request_id''),
       (eh_schema_id sent = eh_schema_id reply, ''header.schema_id''),
       (eh_version sent = eh_version reply, ''header.version''),
       (eh_job_id sent = eh_job_id reply, ''header.job_id''),
       (eh_producer_id reply = expected_producer, ''header.producer_id''),
       (cq_target_request_id request = ca_target_request_id acknowledgement, ''target_request_id''),
       (cq_generation request = ca_generation acknowledgement, ''generation''),
       (eh_sequence reply > eh_sequence sent, ''header.sequence'')]))"

fun process_validate ::
  "'json json_codec \<Rightarrow> 'json ProcessEnvelope \<Rightarrow> ProtocolLimits \<Rightarrow> ProtocolError + unit" where
  "process_validate codec (Hello e) limits =
     rbind (validate_header_schema (he_header e) PROCESS_SCHEMA limits) (\<lambda>_.
     rbind (validate_compatibility (eh_version (he_header e)) (he_accepted e)) (\<lambda>_.
     rbind (validate_text ''artifact_id'' (he_artifact_id e) (pl_maximum_kind_bytes limits)) (\<lambda>_.
     validate_text ''schema_hash'' (he_schema_hash e) (pl_maximum_kind_bytes limits))))"
| "process_validate codec (Request e) limits =
     rbind (validate_header_schema (rq_header e) PROCESS_SCHEMA limits) (\<lambda>_.
     rbind (validate_text ''operation'' (rq_operation e) (pl_maximum_kind_bytes limits)) (\<lambda>_.
     validate_json codec ''request_payload'' (rq_payload e) (pl_maximum_message_bytes limits)))"
| "process_validate codec (Event e) limits = event_validate codec e limits"
| "process_validate codec (Error e) limits = error_validate codec e limits"
| "process_validate codec (Cancel e) limits = cancellation_request_validate e limits"
| "process_validate codec (CancelAcknowledged e) limits = cancellation_acknowledgement_validate e limits"
| "process_validate codec (Goodbye e) limits = validate_header_schema (gb_header e) PROCESS_SCHEMA limits"

definition plugin_validate ::
  "'json json_codec \<Rightarrow> 'json PluginEnvelope \<Rightarrow> ProtocolLimits \<Rightarrow> ProtocolError + unit" where
  "plugin_validate codec e limits =
     rbind (validate_boundary_header (pe_header e) PLUGIN_SCHEMA limits) (\<lambda>_.
     rbind (validate_compatibility (eh_version (pe_header e)) (pe_compatibility e)) (\<lambda>_.
     rbind (validate_provenance (pe_provenance e) limits) (\<lambda>_.
     case pe_message e of
       Describe \<Rightarrow> Inr ()
     | Invoke plugin_id capability input \<Rightarrow>
         rbind (validate_text ''plugin_id'' plugin_id (pl_maximum_kind_bytes limits)) (\<lambda>_.
         rbind (validate_text ''plugin_capability'' capability (pl_maximum_kind_bytes limits)) (\<lambda>_.
         validate_json codec ''plugin_input'' input (pl_maximum_message_bytes limits)))
     | PluginMessage.Result output \<Rightarrow>
         validate_json codec ''plugin_output'' output (pl_maximum_message_bytes limits)
     | PluginMessage.Failed code message \<Rightarrow>
         validate_text ''plugin_error'' message (pl_maximum_message_bytes limits))))"

definition worker_validate ::
  "'json json_codec \<Rightarrow> 'json JavaScriptWorkerEnvelope \<Rightarrow> ProtocolLimits \<Rightarrow> ProtocolError + unit" where
  "worker_validate codec e limits =
     rbind (validate_boundary_header (je_header e) JAVASCRIPT_WORKER_SCHEMA limits) (\<lambda>_.
     rbind (validate_compatibility (eh_version (je_header e)) (je_compatibility e)) (\<lambda>_.
     rbind (validate_provenance (je_provenance e) limits) (\<lambda>_.
     case je_message e of
       Evaluate program_reference input deadline_millis memory_limit_bytes \<Rightarrow>
         rbind (validate_reference ''program_reference'' program_reference
           (pl_maximum_reference_bytes limits)) (\<lambda>_.
         rbind (validate_numeric_limit ''javascript_deadline_millis'' deadline_millis
           (pl_maximum_javascript_deadline_millis limits)) (\<lambda>_.
         rbind (validate_numeric_limit ''javascript_memory_limit_bytes'' memory_limit_bytes
           (pl_maximum_javascript_memory_bytes limits)) (\<lambda>_.
         validate_json codec ''javascript_input'' input (pl_maximum_message_bytes limits))))
     | JavaScriptWorkerMessage.Result output \<Rightarrow>
         validate_json codec ''javascript_output'' output (pl_maximum_message_bytes limits)
     | JavaScriptWorkerMessage.Failed code message \<Rightarrow>
         validate_text ''javascript_error'' message (pl_maximum_message_bytes limits)
     | JavaScriptWorkerMessage.Cancelled generation \<Rightarrow> if generation = 0 then Inl InvalidSequence else Inr ())))"

section \<open>The request registry\<close>

record RequestRegistry =
  rr_maximum_entries :: usize
  rr_entries :: "(string \<times> unit) list"

definition registry_new :: "usize \<Rightarrow> RequestRegistry" where
  "registry_new capacity = \<lparr> rr_maximum_entries = capacity, rr_entries = [] \<rparr>"

definition registry_register :: "string \<Rightarrow> RequestRegistry \<Rightarrow> ProtocolError + RequestRegistry" where
  "registry_register request_id r =
     (if bt_get (rr_entries r) request_id \<noteq> None then Inl (DuplicateRequestId request_id)
      else if length (rr_entries r) \<ge> rr_maximum_entries r
      then Inl (FieldTooLong ''request_registry'' (length (rr_entries r) + 1) (rr_maximum_entries r))
      else Inr (r\<lparr> rr_entries := bt_insert request_id () (rr_entries r) \<rparr>))"

definition registry_retire :: "string \<Rightarrow> RequestRegistry \<Rightarrow> bool \<times> RequestRegistry" where
  "registry_retire request_id r =
     (bt_get (rr_entries r) request_id \<noteq> None,
      r\<lparr> rr_entries := bt_remove request_id (rr_entries r) \<rparr>)"

section \<open>What the checks establish\<close>

lemma validate_text_iff:
  "validate_text field val maximum = Inr () \<longleftrightarrow> val \<noteq> [] \<and> \<not> has_control val \<and> length val \<le> maximum"
  by (auto simp: validate_text_def not_less)

lemma validate_compatibility_iff:
  "validate_compatibility version supported = Inr () \<longleftrightarrow> in_range supported version"
proof -
  have "is_ok (compatibility_check supported version) \<longleftrightarrow> in_range supported version"
    using compatibility_check_iff [of supported version]
    by (cases "compatibility_check supported version") auto
  then show ?thesis
    using in_range_bounds [of supported version] by (auto simp: validate_compatibility_def not_less)
qed

lemma validate_reference_iff:
  "validate_reference field val maximum = Inr () \<longleftrightarrow>
     validate_text field val maximum = Inr () \<and> CHR '':'' \<notin> set val \<and>
     (\<forall>s \<in> set (path_segments val). s \<notin> {[], ''.'', ''..''})"
  using starts_with_slash [of "normalize_separators val"]
  by (auto simp: validate_reference_def result_simps list_ex_iff colon_normalized path_segments_def)

interpretation reference: path_reference "\<lambda>val. validate_reference field val maximum = Inr ()"
  for field maximum
  by unfold_locales (auto simp: validate_reference_iff)

lemma decimal_value_digits: "decimal_value n s = Some m \<Longrightarrow> \<forall>c \<in> set s. is_ascii_digit (byte c)"
  by (induction n s rule: decimal_value.induct) (auto split: if_splits)

lemma u16_from_str_chars:
  "u16_from_str s = Some m \<Longrightarrow> \<forall>c \<in> set s. is_ascii_digit (byte c) \<or> c = CHR ''+''"
proof -
  assume parsed: "u16_from_str s = Some m"
  have "set s \<subseteq> insert CHR ''+'' (set (if starts_with s ''+'' then tl s else s))"
    by (cases s) (auto simp: starts_with_def)
  moreover from parsed obtain n where "decimal_value 0 (if starts_with s ''+'' then tl s else s) = Some n"
    by (auto simp: u16_from_str_def Let_def split: option.splits if_splits)
  ultimately show ?thesis using decimal_value_digits by blast
qed

lemma u16_from_str_no_at: "u16_from_str s = Some m \<Longrightarrow> CHR ''@'' \<notin> set s"
  using u16_from_str_chars [of s m] by (auto simp: is_ascii_digit_def byte_def)

lemma id_char_not_at: "list_all id_char s \<Longrightarrow> CHR ''@'' \<notin> set s"
  by (auto simp: list_all_iff id_char_def byte_def is_ascii_lowercase_def is_ascii_digit_def)

lemma parse_schema_id_at:
  assumes "CHR ''@'' \<notin> set name"
  shows "parse_schema_id (name @ CHR ''@'' # digits) = Some m \<longleftrightarrow>
    name \<noteq> [] \<and> list_all id_char name \<and> u16_from_str digits = Some m"
proof -
  have split_at: "CHR ''@'' \<notin> set s \<Longrightarrow> split_on (\<lambda>c. c = CHR ''@'') s = [s]" for s
    by (rule split_on_none) auto
  show ?thesis
  proof (cases "CHR ''@'' \<in> set digits")
    case False
    with split_at assms show ?thesis
      by (auto simp: parse_schema_id_def split_on_append split: option.splits)
  next
    case True
    then obtain d1 d2 where digits: "digits = d1 @ CHR ''@'' # d2" "CHR ''@'' \<notin> set d1"
      by (metis split_list_first)
    have "u16_from_str digits \<noteq> Some m" using True u16_from_str_no_at by blast
    with split_at assms digits show ?thesis
      by (auto simp: parse_schema_id_def split_on_append split: option.splits)
  qed
qed

text \<open>The schema identifier of a header names the expected schema and the major of its version.\<close>

definition header_ok :: "string \<Rightarrow> EnvelopeHeader \<Rightarrow> ProtocolLimits \<Rightarrow> bool" where
  "header_ok expected header limits \<longleftrightarrow>
     (\<exists>digits. eh_schema_id header = expected @ CHR ''@'' # digits \<and>
        u16_from_str digits = Some (sv_major (eh_version header))) \<and>
     sv_major (eh_version header) \<noteq> 0 \<and> in_range (pl_accepted_version limits) (eh_version header) \<and>
     eh_sequence header \<noteq> 0 \<and> length (eh_schema_id header) \<le> pl_maximum_schema_id_bytes limits"

lemma schema_id_visible:
  assumes "list_all id_char name" "u16_from_str digits = Some m"
  shows "\<not> has_control (name @ CHR ''@'' # digits)"
proof -
  have "\<not> is_ascii_control (byte c)" if "c \<in> set digits" for c
    using u16_from_str_chars [OF assms(2)] that digit_visible
    by (auto simp: is_ascii_control_def byte_def)
  with assms(1) id_char_visible show ?thesis
    by (auto simp: has_control_def list_ex_iff list_all_iff)
      (simp add: is_ascii_control_def byte_def)
qed

lemma validate_header_schema_iff:
  assumes "list_all id_char expected" "expected \<noteq> []"
  shows "validate_header_schema header expected limits = Inr () \<longleftrightarrow> header_ok expected header limits"
proof
  assume valid: "validate_header_schema header expected limits = Inr ()"
  then obtain digits where id: "eh_schema_id header = expected @ CHR ''@'' # digits"
    by (auto simp: validate_header_schema_def result_simps split_once_eq_Some_iff
        split: option.splits if_splits)
  with valid assms show "header_ok expected header limits"
    by (auto simp: validate_header_schema_def header_validate_def result_simps header_ok_def
        validate_compatibility_iff validate_text_iff parse_schema_id_at id_char_not_at split: if_splits)
next
  assume "header_ok expected header limits"
  then obtain digits where id: "eh_schema_id header = expected @ CHR ''@'' # digits"
      and major: "u16_from_str digits = Some (sv_major (eh_version header))"
      and others: "sv_major (eh_version header) \<noteq> 0"
        "in_range (pl_accepted_version limits) (eh_version header)" "eh_sequence header \<noteq> 0"
        "length (eh_schema_id header) \<le> pl_maximum_schema_id_bytes limits"
    by (auto simp: header_ok_def)
  have "parse_schema_id (eh_schema_id header) = Some (sv_major (eh_version header))"
    using assms major by (simp add: id parse_schema_id_at id_char_not_at)
  with assms others schema_id_visible [OF assms(1) major]
  show "validate_header_schema header expected limits = Inr ()"
    by (simp add: validate_header_schema_def header_validate_def validate_text_iff rbind_eq_Inr_iff
        validate_compatibility_iff id split_once_append id_char_not_at)
qed

text \<open>The number of a schema id has more than one spelling.\<close>

lemma schema_major_not_canonical:
  "parse_schema_id ''ff.event@1'' = Some 1" "parse_schema_id ''ff.event@01'' = Some 1"
  "parse_schema_id ''ff.event@+1'' = Some 1"
  by (simp_all add: parse_schema_id_def u16_from_str_def starts_with_def is_ascii_digit_def byte_def
      id_char_def is_ascii_lowercase_def)

end
