(* ===== verification/Conformance.thy ===== *)
theory Conformance
  imports Protocol Framing
begin

text \<open>
  Decoding of framed envelopes and the stateful conformance decoder
  (\<open>fforager-contracts/src/framing.rs\<close>).

  The JSON parser, the typed deserializers and the printed form of an error are \<open>serde_json\<close> and
  derived code: they are the fields of \<open>serde\<close>, an argument of every operation that decodes. The
  conformance decoder and the request registry keep the same promise, stated once in the locale
  \<open>admission_once\<close>.
\<close>

section \<open>Decoding\<close>

record 'json serde =
  from_slice :: "u8 list \<Rightarrow> string + 'json"
  json_get :: "'json \<Rightarrow> string \<Rightarrow> 'json option"
  json_as_str :: "'json \<Rightarrow> string option"
  process_from_value :: "'json \<Rightarrow> string + 'json ProcessEnvelope"
  plugin_from_value :: "'json \<Rightarrow> string + 'json PluginEnvelope"
  worker_from_value :: "'json \<Rightarrow> string + 'json JavaScriptWorkerEnvelope"
  codec :: "'json json_codec"
  show_protocol_error :: "ProtocolError \<Rightarrow> string"

definition invalid_json :: "string \<Rightarrow> FrameError" where
  "invalid_json error = InvalidJson error"

definition invalid_protocol :: "'json serde \<Rightarrow> ProtocolError \<Rightarrow> FrameError" where
  "invalid_protocol serde error =
     InvalidJson (''protocol validation failed: '' @ show_protocol_error serde error)"

definition decode_json ::
  "(u8 list \<Rightarrow> string + 'a) \<Rightarrow> u8 list \<Rightarrow> FrameLimits \<Rightarrow> FrameError + 'a" where
  "decode_json parse payload limits =
     (if length payload > maximum_frame_bytes limits
      then Inl (Oversized (length payload) (maximum_frame_bytes limits))
      else map_err invalid_json (parse payload))"

definition decode_bounded_value :: "'json serde \<Rightarrow> u8 list \<Rightarrow> FrameLimits \<Rightarrow> FrameError + 'json" where
  "decode_bounded_value serde payload limits =
     (if length payload > maximum_frame_bytes limits
      then Inl (Oversized (length payload) (maximum_frame_bytes limits))
      else decode_json (from_slice serde) payload limits)"

definition KNOWN :: "string list" where
  "KNOWN = [''hello'', ''request'', ''event'', ''error'', ''cancel'', ''cancel_acknowledged'', ''goodbye'']"

definition decode_process_with_limits ::
  "'json serde \<Rightarrow> u8 list \<Rightarrow> FrameLimits \<Rightarrow> ProtocolLimits \<Rightarrow> FrameError + 'json ProcessEnvelope" where
  "decode_process_with_limits serde payload limits protocol_limits =
     (if length payload > maximum_frame_bytes limits
      then Inl (Oversized (length payload) (maximum_frame_bytes limits))
      else
        rbind (decode_json (from_slice serde) payload limits) (\<lambda>val.
        rbind (case Option.bind (json_get serde val ''kind'') (json_as_str serde) of
          Some kind \<Rightarrow> if kind \<notin> set KNOWN then Inl (FrameError.UnknownMandatoryKind kind) else Inr ()
        | None \<Rightarrow> Inr ()) (\<lambda>_.
        rbind (map_err invalid_json (process_from_value serde val)) (\<lambda>envelope.
        rbind (map_err (invalid_protocol serde) (process_validate (codec serde) envelope protocol_limits)) (\<lambda>_.
        Inr envelope)))))"

definition decode_process ::
  "'json serde \<Rightarrow> u8 list \<Rightarrow> FrameLimits \<Rightarrow> FrameError + 'json ProcessEnvelope" where
  "decode_process serde payload limits =
     decode_process_with_limits serde payload limits protocol_limits_default"

definition reject_unknown_nested_kind :: "'json serde \<Rightarrow> 'json \<Rightarrow> string list \<Rightarrow> FrameError + unit" where
  "reject_unknown_nested_kind serde val known =
     (case Option.bind (Option.bind (json_get serde val ''message'') (\<lambda>message. json_get serde message ''kind''))
         (json_as_str serde) of
        Some kind \<Rightarrow> if kind \<notin> set known then Inl (FrameError.UnknownMandatoryKind kind) else Inr ()
      | None \<Rightarrow> Inr ())"

definition decode_plugin_with_limits ::
  "'json serde \<Rightarrow> u8 list \<Rightarrow> FrameLimits \<Rightarrow> ProtocolLimits \<Rightarrow> FrameError + 'json PluginEnvelope" where
  "decode_plugin_with_limits serde payload limits protocol_limits =
     rbind (decode_bounded_value serde payload limits) (\<lambda>val.
     rbind (reject_unknown_nested_kind serde val [''describe'', ''invoke'', ''result'', ''failed'']) (\<lambda>_.
     rbind (map_err invalid_json (plugin_from_value serde val)) (\<lambda>envelope.
     rbind (map_err (invalid_protocol serde) (plugin_validate (codec serde) envelope protocol_limits)) (\<lambda>_.
     Inr envelope))))"

definition decode_plugin ::
  "'json serde \<Rightarrow> u8 list \<Rightarrow> FrameLimits \<Rightarrow> FrameError + 'json PluginEnvelope" where
  "decode_plugin serde payload limits =
     decode_plugin_with_limits serde payload limits protocol_limits_default"

definition decode_javascript_worker_with_limits ::
  "'json serde \<Rightarrow> u8 list \<Rightarrow> FrameLimits \<Rightarrow> ProtocolLimits \<Rightarrow> FrameError + 'json JavaScriptWorkerEnvelope" where
  "decode_javascript_worker_with_limits serde payload limits protocol_limits =
     rbind (decode_bounded_value serde payload limits) (\<lambda>val.
     rbind (reject_unknown_nested_kind serde val [''evaluate'', ''result'', ''failed'', ''cancelled'']) (\<lambda>_.
     rbind (map_err invalid_json (worker_from_value serde val)) (\<lambda>envelope.
     rbind (map_err (invalid_protocol serde) (worker_validate (codec serde) envelope protocol_limits)) (\<lambda>_.
     Inr envelope))))"

definition decode_javascript_worker ::
  "'json serde \<Rightarrow> u8 list \<Rightarrow> FrameLimits \<Rightarrow> FrameError + 'json JavaScriptWorkerEnvelope" where
  "decode_javascript_worker serde payload limits =
     decode_javascript_worker_with_limits serde payload limits protocol_limits_default"

section \<open>The conformance decoder\<close>

record ProcessConformance =
  pc_compatibility :: CompatibilityRange
  pc_protocol_limits :: ProtocolLimits
  pc_maximum_seen_requests :: usize
  pc_seen_requests :: "(string \<times> unit) list"

definition conformance_new :: "CompatibilityRange \<Rightarrow> usize \<Rightarrow> ProcessConformance" where
  "conformance_new compatibility maximum_seen_requests =
     \<lparr> pc_compatibility = compatibility,
       pc_protocol_limits = protocol_limits_default\<lparr> pl_accepted_version := compatibility \<rparr>,
       pc_maximum_seen_requests = maximum_seen_requests, pc_seen_requests = [] \<rparr>"

fun process_header :: "'json ProcessEnvelope \<Rightarrow> EnvelopeHeader" where
  "process_header (Hello e) = he_header e"
| "process_header (Request e) = rq_header e"
| "process_header (Event e) = ev_header e"
| "process_header (Error e) = ee_header e"
| "process_header (Cancel e) = cq_header e"
| "process_header (CancelAcknowledged e) = ca_header e"
| "process_header (Goodbye e) = gb_header e"

definition conformance_validate ::
  "'json serde \<Rightarrow> 'json ProcessEnvelope \<Rightarrow> ProcessConformance \<Rightarrow> FrameError + ProcessConformance" where
  "conformance_validate serde envelope c =
     rbind (map_err (invalid_protocol serde)
       (process_validate (codec serde) envelope (pc_protocol_limits c))) (\<lambda>_.
     rbind (map_err (\<lambda>_. FrameError.IncompatibleVersion (sv_major (eh_version (process_header envelope)))
         (cr_major (pc_compatibility c)))
       (compatibility_check (pc_compatibility c) (eh_version (process_header envelope)))) (\<lambda>_.
     case envelope of
       Request request_envelope \<Rightarrow>
         let request = eh_request_id (rq_header request_envelope) in
         if bt_get (pc_seen_requests c) request \<noteq> None then Inl (FrameError.DuplicateRequestId request)
         else if length (pc_seen_requests c) \<ge> pc_maximum_seen_requests c
         then Inl (Oversized (length (pc_seen_requests c) + 1) (pc_maximum_seen_requests c))
         else Inr (c\<lparr> pc_seen_requests := bt_insert request () (pc_seen_requests c) \<rparr>)
     | _ \<Rightarrow> Inr c))"

section \<open>Each request once\<close>

text \<open>Messages offered in turn; a refused one changes nothing. Returns the accepted ones.\<close>

fun admit_all :: "('m \<Rightarrow> 's \<Rightarrow> 'e + 's) \<Rightarrow> 'm list \<Rightarrow> 's \<Rightarrow> 's \<times> 'm list" where
  "admit_all admit [] s = (s, [])"
| "admit_all admit (m # ms) s =
     (case admit m s of
        Inl _ \<Rightarrow> admit_all admit ms s
      | Inr s' \<Rightarrow> (case admit_all admit ms s' of (t, accepted) \<Rightarrow> (t, m # accepted)))"

locale admission_once =
  fixes ok :: "'s \<Rightarrow> bool"
    and seen :: "'s \<Rightarrow> 'k set"
    and capacity :: "'s \<Rightarrow> nat"
    and tracked :: "'m \<Rightarrow> 'k option"
    and admit :: "'m \<Rightarrow> 's \<Rightarrow> 'e + 's"
  assumes finite_seen: "ok s \<Longrightarrow> finite (seen s)"
    and admit_keeps: "ok s \<Longrightarrow> admit m s = Inr s' \<Longrightarrow> ok s' \<and> capacity s' = capacity s"
    and admit_tracked: "ok s \<Longrightarrow> admit m s = Inr s' \<Longrightarrow> tracked m = Some k \<Longrightarrow>
      k \<notin> seen s \<and> card (seen s) < capacity s \<and> seen s' = insert k (seen s)"
    and admit_other: "ok s \<Longrightarrow> admit m s = Inr s' \<Longrightarrow> tracked m = None \<Longrightarrow> seen s' = seen s"
begin

theorem admitted_once:
  assumes "ok s" "card (seen s) \<le> capacity s" "admit_all admit ms s = (t, accepted)"
  shows "distinct (List.map_filter tracked accepted)
    \<and> set (List.map_filter tracked accepted) \<inter> seen s = {}
    \<and> seen t = seen s \<union> set (List.map_filter tracked accepted)
    \<and> card (seen t) \<le> capacity s"
  using assms
proof (induction ms arbitrary: s accepted)
  case (Cons m ms)
  show ?case
  proof (cases "admit m s")
    case (Inl e)
    with Cons.prems have "admit_all admit ms s = (t, accepted)" by simp
    with Cons.IH [OF Cons.prems(1,2)] show ?thesis by blast
  next
    case (Inr s')
    then obtain rest where rest: "admit_all admit ms s' = (t, rest)" "accepted = m # rest"
      using Cons.prems(3) by (auto split: prod.splits)
    note keeps = admit_keeps [OF Cons.prems(1) Inr]
    show ?thesis
    proof (cases "tracked m")
      case None
      then have "seen s' = seen s" by (rule admit_other [OF Cons.prems(1) Inr])
      moreover have "List.map_filter tracked accepted = List.map_filter tracked rest"
        by (simp add: rest(2) None map_filter_simps)
      ultimately show ?thesis
        using Cons.IH [of s' rest] keeps Cons.prems(2) rest(1) by metis
    next
      case (Some k)
      note new = admit_tracked [OF Cons.prems(1) Inr Some]
      then have "card (seen s') \<le> capacity s'"
        using keeps finite_seen [OF Cons.prems(1)] by simp
      with Cons.IH [of s' rest] keeps new rest Some show ?thesis
        by (auto simp: map_filter_simps)
    qed
  qed
qed (simp add: map_filter_simps)

end

definition bt_keys :: "('k \<times> 'v) list \<Rightarrow> 'k set" where
  "bt_keys m = fst ` set m"

lemma bt_keys_Nil [simp]: "bt_keys [] = {}" and finite_bt_keys [simp]: "finite (bt_keys m)"
  and bt_keys_insert: "bt_keys (bt_insert k v m) = insert k (bt_keys m)"
  and bt_get_None_keys: "bt_get m k = None \<longleftrightarrow> k \<notin> bt_keys m"
  by (simp_all add: bt_keys_def fst_set_insert bt_get_None_iff)

lemma card_keys: "bt_ok m \<Longrightarrow> card (bt_keys m) = length m"
proof -
  assume "bt_ok m"
  then have "distinct (map fst m)" by (simp add: bt_ok_def strict_sorted_iff)
  then show ?thesis unfolding bt_keys_def by (metis distinct_card length_map list.set_map)
qed

interpretation registry: admission_once "\<lambda>r. bt_ok (rr_entries r)" "\<lambda>r. bt_keys (rr_entries r)"
    rr_maximum_entries Some registry_register
  by unfold_locales
    (auto simp: registry_register_def bt_ok_insert card_keys bt_keys_insert bt_get_None_keys
      simp del: not_None_eq split: if_splits)

fun tracked_request :: "'json ProcessEnvelope \<Rightarrow> string option" where
  "tracked_request (Request e) = Some (eh_request_id (rq_header e))"
| "tracked_request _ = None"

lemma conformance_validate_iff:
  "conformance_validate serde envelope c = Inr c' \<longleftrightarrow>
     process_validate (codec serde) envelope (pc_protocol_limits c) = Inr () \<and>
     in_range (pc_compatibility c) (eh_version (process_header envelope)) \<and>
     (case tracked_request envelope of
        None \<Rightarrow> c' = c
      | Some request \<Rightarrow> request \<notin> bt_keys (pc_seen_requests c) \<and>
          length (pc_seen_requests c) < pc_maximum_seen_requests c \<and>
          c' = c\<lparr> pc_seen_requests := bt_insert request () (pc_seen_requests c) \<rparr>)"
  by (cases envelope)
    (auto simp: conformance_validate_def result_simps compatibility_check_iff Let_def
      bt_get_None_keys simp del: not_None_eq process_validate.simps split: if_splits)

interpretation conformance: admission_once "\<lambda>c. bt_ok (pc_seen_requests c)"
    "\<lambda>c. bt_keys (pc_seen_requests c)" pc_maximum_seen_requests tracked_request
    "conformance_validate serde"
  for serde
  by unfold_locales
    (auto simp: conformance_validate_iff bt_ok_insert card_keys bt_keys_insert split: option.splits)

section \<open>What an accepted envelope guarantees\<close>

fun process_schema :: "'json ProcessEnvelope \<Rightarrow> string" where
  "process_schema (Event e) = EVENT_SCHEMA"
| "process_schema (Error e) = ERROR_SCHEMA"
| "process_schema (Cancel e) = CANCELLATION_SCHEMA"
| "process_schema (CancelAcknowledged e) = CANCELLATION_SCHEMA"
| "process_schema _ = PROCESS_SCHEMA"

lemma schema_names_valid:
  "list_all id_char EVENT_SCHEMA \<and> EVENT_SCHEMA \<noteq> []"
  "list_all id_char ERROR_SCHEMA \<and> ERROR_SCHEMA \<noteq> []"
  "list_all id_char CANCELLATION_SCHEMA \<and> CANCELLATION_SCHEMA \<noteq> []"
  "list_all id_char PROCESS_SCHEMA \<and> PROCESS_SCHEMA \<noteq> []"
  by (simp_all add: schema_names id_char_def is_ascii_lowercase_def is_ascii_digit_def byte_def)

lemma process_header_ok:
  assumes "process_validate serializer envelope limits = Inr ()"
  shows "header_ok (process_schema envelope) (process_header envelope) limits"
  using assms schema_names_valid
  by (cases envelope)
    (auto simp: rbind_eq_Inr_iff event_validate_def error_validate_def
      cancellation_request_validate_def cancellation_acknowledgement_validate_def
      validate_header_schema_iff)

lemma decode_process_ok:
  assumes "decode_process_with_limits serde payload limits protocol_limits = Inr envelope"
  shows "length payload \<le> maximum_frame_bytes limits
    \<and> process_validate (codec serde) envelope protocol_limits = Inr ()"
  using assms by (auto simp: decode_process_with_limits_def result_simps not_less split: if_splits)

text \<open>
  A process envelope that decoding hands out is identified by its header: the payload was within
  the frame limit, the schema id is the one of its kind followed by the major version of the header
  in decimal, the version is supported and not zero, and the sequence number is positive.
\<close>

theorem decoded_envelope_identified:
  assumes "decode_process_with_limits serde payload limits protocol_limits = Inr envelope"
  shows "length payload \<le> maximum_frame_bytes limits \<and>
    header_ok (process_schema envelope) (process_header envelope) protocol_limits"
  using decode_process_ok [OF assms] process_header_ok by blast

definition sample_goodbye :: "unit ProcessEnvelope" where
  "sample_goodbye = Goodbye \<lparr> gb_header = \<lparr> eh_schema_id = ''ff.process@1'',
     eh_version = \<lparr> sv_major = 1, sv_minor = 0 \<rparr>, eh_request_id = ''request_a'',
     eh_producer_id = ''producer_a'', eh_job_id = None, eh_sequence = 1 \<rparr>, gb_completed = True \<rparr>"

definition sample_serde :: "unit serde" where
  "sample_serde = \<lparr> from_slice = \<lambda>_. Inr (), json_get = \<lambda>_ _. None, json_as_str = \<lambda>_. None,
     process_from_value = \<lambda>_. Inr sample_goodbye, plugin_from_value = \<lambda>_. Inl [],
     worker_from_value = \<lambda>_. Inl [], codec = \<lparr> value_bytes = \<lambda>_. Some 4, map_bytes = \<lambda>_. Some 2 \<rparr>,
     show_protocol_error = \<lambda>_. [] \<rparr>"

lemma sample_decodes:
  "decode_process_with_limits sample_serde [123, 125] frame_limits_default protocol_limits_default =
     Inr sample_goodbye"
proof -
  have "header_ok PROCESS_SCHEMA (process_header sample_goodbye) protocol_limits_default"
    by (simp add: header_ok_def sample_goodbye_def PROCESS_SCHEMA_def protocol_limits_default_def
        in_range_def u16_from_str_def starts_with_def is_ascii_digit_def byte_def)
  then have "validate_header_schema (process_header sample_goodbye) PROCESS_SCHEMA
      protocol_limits_default = Inr ()"
    using schema_names_valid(4) by (simp add: validate_header_schema_iff)
  then show ?thesis
    by (simp add: decode_process_with_limits_def decode_json_def frame_limits_default_def
        sample_serde_def sample_goodbye_def)
qed

theorem decoded_envelope_identified_witness:
  "length [123 :: u8, 125] \<le> maximum_frame_bytes frame_limits_default \<and>
    header_ok (process_schema sample_goodbye) (process_header sample_goodbye) protocol_limits_default"
  by (rule decoded_envelope_identified [OF sample_decodes])

text \<open>
  The version check of the conformance decoder repeats one its envelope check has already made:
  a decoder made by its constructor never reports an incompatible version as such.
\<close>

lemma incompatible_version_unreachable:
  "conformance_validate serde envelope (conformance_new compatibility maximum)
     \<noteq> Inl (FrameError.IncompatibleVersion received supported)"
proof
  let ?limits = "protocol_limits_default\<lparr> pl_accepted_version := compatibility \<rparr>"
  assume refused: "conformance_validate serde envelope (conformance_new compatibility maximum)
     = Inl (FrameError.IncompatibleVersion received supported)"
  then have "process_validate (codec serde) envelope ?limits = Inr ()"
    by (cases "process_validate (codec serde) envelope ?limits")
      (auto simp: conformance_validate_def conformance_new_def invalid_protocol_def)
  then have "in_range compatibility (eh_version (process_header envelope))"
    using process_header_ok by (fastforce simp: header_ok_def)
  then show False
    using refused
    by (auto simp: conformance_validate_def conformance_new_def result_simps Let_def invalid_protocol_def
        compatibility_check_iff [symmetric] split: ProcessEnvelope.splits if_splits)
qed

text \<open>
  Over any sequence of envelopes, valid or not, a new conformance decoder accepts each request
  id at most once and no more requests than it was given room for; the ids it holds at the end are
  exactly those of the requests it accepted, whatever else it accepted or refused in between.
\<close>

theorem conformance_requests_once:
  "case admit_all (conformance_validate serde) envelopes (conformance_new compatibility maximum) of
     (c, accepted) \<Rightarrow>
       distinct (List.map_filter tracked_request accepted) \<and>
       bt_keys (pc_seen_requests c) = set (List.map_filter tracked_request accepted) \<and>
       length (List.map_filter tracked_request accepted) \<le> maximum"
proof -
  obtain c accepted where run:
    "admit_all (conformance_validate serde) envelopes (conformance_new compatibility maximum) = (c, accepted)"
    by fastforce
  have start: "bt_ok (pc_seen_requests (conformance_new compatibility maximum))"
    "bt_keys (pc_seen_requests (conformance_new compatibility maximum)) = {}"
    "pc_maximum_seen_requests (conformance_new compatibility maximum) = maximum"
    by (simp_all add: conformance_new_def)
  have room: "card (bt_keys (pc_seen_requests (conformance_new compatibility maximum))) \<le>
      pc_maximum_seen_requests (conformance_new compatibility maximum)"
    by (simp add: start)
  have once: "distinct (List.map_filter tracked_request accepted)"
      "bt_keys (pc_seen_requests c) = set (List.map_filter tracked_request accepted)"
      "card (bt_keys (pc_seen_requests c)) \<le> maximum"
    using conformance.admitted_once [OF start(1) room run] unfolding start(2,3) Un_empty_left by blast+
  moreover have "length (List.map_filter tracked_request accepted) \<le> maximum"
    using once by (metis distinct_card)
  ultimately show ?thesis by (simp add: run)
qed

end
