(* ===== verification/Unicode_Text.thy ===== *)
theory Unicode_Text
  imports Contract_Identity
begin

text \<open>
  The characters of a Rust string, decoded from its UTF-8 bytes, and the two character classes the
  URL checks ask for.
\<close>

section \<open>Characters of a string\<close>

text \<open>\<open>str::chars\<close> with \<open>char::is_control\<close> and \<open>char::is_whitespace\<close> of the Unicode standard.\<close>

fun utf8_code :: "u8 list \<Rightarrow> nat" where
  "utf8_code [a] = unat a"
| "utf8_code [a, b] = unat a mod 32 * 64 + unat b mod 64"
| "utf8_code [a, b, c] = (unat a mod 16 * 64 + unat b mod 64) * 64 + unat c mod 64"
| "utf8_code [a, b, c, d] =
     ((unat a mod 8 * 64 + unat b mod 64) * 64 + unat c mod 64) * 64 + unat d mod 64"
| "utf8_code _ = 0"

function utf8_chars :: "u8 list \<Rightarrow> nat list" where
  "utf8_chars bs =
     (case utf8_width bs of None \<Rightarrow> [] | Some n \<Rightarrow> utf8_code (take n bs) # utf8_chars (drop n bs))"
  by pat_completeness auto

termination utf8_chars
  by (relation "measure length") (auto dest!: utf8_width_pos)

declare utf8_chars.simps [simp del]

definition is_control :: "nat \<Rightarrow> bool" where
  "is_control c = (c \<le> 0x1F \<or> 0x7F \<le> c \<and> c \<le> 0x9F)"

definition is_whitespace :: "nat \<Rightarrow> bool" where
  "is_whitespace c = (0x9 \<le> c \<and> c \<le> 0xD \<or> 0x2000 \<le> c \<and> c \<le> 0x200A \<or>
     c \<in> {0x20, 0x85, 0xA0, 0x1680, 0x2028, 0x2029, 0x202F, 0x205F, 0x3000})"

definition chars :: "string \<Rightarrow> nat list" where
  "chars s = utf8_chars (map byte s)"

lemma high_byte: "\<not> a \<le> 0x7F \<Longrightarrow> 0x80 \<le> (a :: u8)" "0x90 \<le> a \<Longrightarrow> 0x80 \<le> (a :: u8)"
  "0xA0 \<le> a \<Longrightarrow> 0x80 \<le> (a :: u8)"
  by (simp_all add: word_le_nat_alt)

lemma utf8_width_ascii_or_high:
  assumes "utf8_width bs = Some n"
  shows "(n = 1 \<and> hd bs \<le> 0x7F) \<or> (\<forall>b \<in> set (take n bs). 0x80 \<le> b)"
proof (cases bs)
  case (Cons a rest)
  show ?thesis
  proof (cases "a \<le> 0x7F")
    case True
    with assms Cons show ?thesis by simp
  next
    case False
    with assms Cons have "\<forall>b \<in> set (take (n - 1) rest). 0x80 \<le> b"
      by (auto simp: utf8_tail_def high_byte split: list.splits if_splits)
    then show ?thesis
      using Cons high_byte(1) [OF False] by (cases n) auto
  qed
qed (use assms in simp)

lemma utf8_chars_ascii:
  "utf8_valid bs \<Longrightarrow> b \<in> set bs \<Longrightarrow> b \<le> 0x7F \<Longrightarrow> unat b \<in> set (utf8_chars bs)"
proof (induction bs rule: utf8_valid.induct)
  case (1 bs)
  then obtain n where n: "utf8_width bs = Some n" "utf8_valid (drop n bs)"
    by (auto simp: utf8_valid.simps [of bs] split: option.splits)
  have chars: "utf8_chars bs = utf8_code (take n bs) # utf8_chars (drop n bs)"
    using n(1) by (simp add: utf8_chars.simps [of bs])
  from 1(3) consider "b \<in> set (take n bs)" | "b \<in> set (drop n bs)"
    by (metis Un_iff append_take_drop_id set_append)
  then show ?case
  proof cases
    case 1
    have "\<not> 0x80 \<le> b" using \<open>b \<le> 0x7F\<close> by (auto simp: word_le_nat_alt)
    with 1 utf8_width_ascii_or_high [OF n(1)] have "n = 1" by blast
    with 1 have "take n bs = [b]" by (cases bs) auto
    with chars show ?thesis by simp
  next
    case 2
    with "1.IH" n "1.prems"(3) chars show ?thesis by auto
  qed
qed

end
