(* ===== verification/Address_Policy.thy ===== *)
theory Address_Policy
  imports Unicode_Text
begin

text \<open>
  Which destinations the network adapter may reach (\<open>fforager-net/src/address.rs\<close>).

  The URL type belongs to the HTTP library: its parser is an argument and a parsed URL is the record
  of the values its accessors return. The parser of literal addresses is an argument as well.
\<close>

section \<open>Addresses\<close>

datatype IpAddr =
    V4 u8 u8 u8 u8
  | V6 u16 u16 u16 u16 u16 u16 u16 u16

text \<open>An IPv4 socket has neither a flow label nor a scope: both fields are zero.\<close>

record SocketAddr =
  sa_ip :: IpAddr
  sa_port :: u16
  sa_flowinfo :: u32
  sa_scope_id :: u32

fun is_loopback :: "IpAddr \<Rightarrow> bool" where
  "is_loopback (V4 a b c d) = (a = 127)"
| "is_loopback (V6 a b c d e f g h) = ([a, b, c, d, e, f, g, h] = [0, 0, 0, 0, 0, 0, 0, 1])"

definition public_v4 :: "u8 \<Rightarrow> u8 \<Rightarrow> u8 \<Rightarrow> bool" where
  "public_v4 a b c = (\<not> (a = 0
     \<or> a = 10
     \<or> a = 127
     \<or> a \<ge> 224
     \<or> (a = 100 \<and> 64 \<le> b \<and> b \<le> 127)
     \<or> (a = 169 \<and> b = 254)
     \<or> (a = 172 \<and> 16 \<le> b \<and> b \<le> 31)
     \<or> (a = 192 \<and> b = 0 \<and> c = 0)
     \<or> (a = 192 \<and> b = 0 \<and> c = 2)
     \<or> (a = 192 \<and> b = 88 \<and> c = 99)
     \<or> (a = 192 \<and> b = 168)
     \<or> (a = 192 \<and> b = 31 \<and> c = 196)
     \<or> (a = 192 \<and> b = 52 \<and> c = 193)
     \<or> (a = 192 \<and> b = 175 \<and> c = 48)
     \<or> (a = 198 \<and> (b = 18 \<or> b = 19))
     \<or> (a = 198 \<and> b = 51 \<and> c = 100)
     \<or> (a = 203 \<and> b = 0 \<and> c = 113)))"

text \<open>The bytes of a big-endian pair, as \<open>to_ipv4_mapped\<close> takes them apart.\<close>

definition high_octet :: "u16 \<Rightarrow> u8" where
  "high_octet w = of_nat (unat w div 256)"

definition low_octet :: "u16 \<Rightarrow> u8" where
  "low_octet w = of_nat (unat w mod 256)"

fun public_address :: "IpAddr \<Rightarrow> bool" where
  "public_address (V4 a b c d) = public_v4 a b c"
| "public_address (V6 s0 s1 s2 s3 s4 s5 s6 s7) =
     (if s0 = 0 \<and> s1 = 0 \<and> s2 = 0 \<and> s3 = 0 \<and> s4 = 0 \<and> s5 = 0xFFFF
      then public_v4 (high_octet s6) (low_octet s6) (high_octet s7)
      else and s0 0xE000 = 0x2000
        \<and> \<not> (s0 = 0x2001 \<and> s1 \<le> 0x01FF)
        \<and> \<not> (s0 = 0x2001 \<and> s1 = 0x0DB8)
        \<and> s0 \<noteq> 0x2002
        \<and> and s0 0xFFF0 \<noteq> 0x3FF0)"

section \<open>URLs and answers\<close>

definition MAXIMUM_DNS_ANSWERS :: usize where
  "MAXIMUM_DNS_ANSWERS = 64"

datatype TransportErrorKind =
    InvalidInput | AddressPolicy | AddressMismatch | ResourceExhausted | Cancelled | TimedOut
  | Network | ResponseStatus | RedirectDenied | EncodedResponse | SizeLimit | Sink

record TransportError =
  te_kind :: TransportErrorKind
  te_detail :: string

definition transport_error :: "TransportErrorKind \<Rightarrow> string \<Rightarrow> TransportError" where
  "transport_error kind detail = \<lparr> te_kind = kind, te_detail = detail \<rparr>"

definition transport_input :: "string \<Rightarrow> TransportError" where
  "transport_input detail = transport_error InvalidInput detail"

record url_view =
  url_scheme :: string
  url_username :: string
  url_password :: "string option"
  url_fragment :: "string option"
  url_host_str :: "string option"
  url_port_or_known_default :: "u16 option"

record TransportPolicy =
  tp_max_bytes :: u64
  tp_total_timeout :: nat
  tp_connect_timeout :: nat
  tp_idle_timeout :: nat
  tp_allow_loopback :: "SocketAddr option"

definition parse_url :: "(string \<Rightarrow> url_view option) \<Rightarrow> string \<Rightarrow> TransportError + url_view" where
  "parse_url parse input =
     (if length input > 8 * 1024 \<or> list_ex is_control (chars input)
      then Inl (transport_input ''URL exceeds the bound or contains control characters'')
      else rbind (ok_or (transport_input ''invalid absolute HTTP URL'') (parse input)) (\<lambda>url.
        if url_scheme url \<notin> {''http'', ''https''} \<or> url_username url \<noteq> [] \<or> url_password url \<noteq> None
           \<or> url_fragment url \<noteq> None \<or> url_host_str url = None
           \<or> (case url_port_or_known_default url of None \<Rightarrow> True | Some port \<Rightarrow> port = 0)
        then Inl (transport_input
          ''HTTP(S), an explicit host, and no URL credentials or fragment are required'')
        else Inr url))"

definition trim_start_matches :: "char \<Rightarrow> string \<Rightarrow> string" where
  "trim_start_matches c s = dropWhile (\<lambda>x. x = c) s"

definition trim_end_matches :: "char \<Rightarrow> string \<Rightarrow> string" where
  "trim_end_matches c s = rev (dropWhile (\<lambda>x. x = c) (rev s))"

definition literal_address :: "(string \<Rightarrow> IpAddr option) \<Rightarrow> string \<Rightarrow> IpAddr option" where
  "literal_address parse_ip host =
     parse_ip (trim_end_matches CHR '']'' (trim_start_matches CHR ''['' host))"

fun check_addresses ::
  "u16 \<Rightarrow> IpAddr option \<Rightarrow> TransportPolicy \<Rightarrow> SocketAddr list \<Rightarrow> TransportError + unit" where
  "check_addresses port literal policy [] = Inr ()"
| "check_addresses port literal policy (address # rest) =
     (if sa_port address \<noteq> port \<or> (case literal of None \<Rightarrow> False | Some ip \<Rightarrow> ip \<noteq> sa_ip address)
      then Inl (transport_error AddressPolicy ''address does not match the requested host and port'')
      else let permitted_loopback =
             is_loopback (sa_ip address) \<and> tp_allow_loopback policy = Some address in
        if \<not> permitted_loopback \<and> \<not> public_address (sa_ip address)
        then Inl (transport_error AddressPolicy
          ''destination is not an admitted public address or exact loopback permit'')
        else check_addresses port literal policy rest)"

definition validate_addresses ::
  "(string \<Rightarrow> IpAddr option) \<Rightarrow> url_view \<Rightarrow> SocketAddr list \<Rightarrow> TransportPolicy
   \<Rightarrow> TransportError + SocketAddr" where
  "validate_addresses parse_ip url addresses policy =
     (if addresses = [] \<or> length addresses > MAXIMUM_DNS_ANSWERS
      then Inl (transport_error AddressPolicy ''DNS answers are absent or exceed the admission bound'')
      else rbind (ok_or (transport_input ''missing port'') (url_port_or_known_default url)) (\<lambda>port.
        let literal = Option.bind (url_host_str url) (literal_address parse_ip) in
        rbind (check_addresses port literal policy addresses) (\<lambda>_. Inr (hd addresses))))"

section \<open>A reference: special-use address blocks\<close>

text \<open>A block is its first address and the number of addresses it holds.\<close>

definition in_block :: "nat \<Rightarrow> nat \<times> nat \<Rightarrow> bool" where
  "in_block x block \<longleftrightarrow> fst block \<le> x \<and> x < fst block + snd block"

definition ipv4 :: "nat \<Rightarrow> nat \<Rightarrow> nat \<Rightarrow> nat \<Rightarrow> nat" where
  "ipv4 a b c d = ((a * 256 + b) * 256 + c) * 256 + d"

definition cidr4 :: "nat \<Rightarrow> nat \<Rightarrow> nat \<Rightarrow> nat \<Rightarrow> nat \<Rightarrow> nat \<times> nat" where
  "cidr4 a b c d len = (ipv4 a b c d, 2 ^ (32 - len))"

definition special_use_v4 :: "(nat \<times> nat) list" where
  "special_use_v4 = [cidr4 0 0 0 0 8, cidr4 10 0 0 0 8, cidr4 100 64 0 0 10, cidr4 127 0 0 0 8,
     cidr4 169 254 0 0 16, cidr4 172 16 0 0 12, cidr4 192 0 0 0 24, cidr4 192 0 2 0 24,
     cidr4 192 31 196 0 24, cidr4 192 52 193 0 24, cidr4 192 88 99 0 24, cidr4 192 168 0 0 16,
     cidr4 192 175 48 0 24, cidr4 198 18 0 0 15, cidr4 198 51 100 0 24, cidr4 203 0 113 0 24,
     cidr4 224 0 0 0 3]"

text \<open>An IPv6 block with a prefix of at most 32 bits, by its first two groups.\<close>

definition cidr6 :: "nat \<Rightarrow> nat \<Rightarrow> nat \<Rightarrow> nat \<times> nat" where
  "cidr6 g0 g1 len = (g0 * 2 ^ 16 + g1, 2 ^ (32 - len))"

definition special_use_v6 :: "(nat \<times> nat) list" where
  "special_use_v6 = [cidr6 0x2001 0 23, cidr6 0x2001 0x0DB8 32, cidr6 0x2002 0 16, cidr6 0x3FF0 0 12]"

text \<open>Global addresses: every IPv4 block aside, and for IPv6 by the first two groups.\<close>

fun globally_reachable :: "IpAddr \<Rightarrow> bool" where
  "globally_reachable (V4 a b c d) =
     list_all (\<lambda>block. \<not> in_block (ipv4 (unat a) (unat b) (unat c) (unat d)) block) special_use_v4"
| "globally_reachable (V6 s0 s1 s2 s3 s4 s5 s6 s7) =
     (if [s0, s1, s2, s3, s4, s5] = [0, 0, 0, 0, 0, 0xFFFF]
      then list_all (\<lambda>block. \<not> in_block (unat s6 * 2 ^ 16 + unat s7) block) special_use_v4
      else 0x2000 \<le> unat s0 \<and> unat s0 < 0x4000
        \<and> list_all (\<lambda>block. \<not> in_block (unat s0 * 2 ^ 16 + unat s1) block) special_use_v6)"

lemmas block_defs = in_block_def ipv4_def cidr4_def

lemma in_slash8:
  "b < 256 \<Longrightarrow> c < 256 \<Longrightarrow> d < 256 \<Longrightarrow> in_block (ipv4 a b c d) (cidr4 n 0 0 0 8) \<longleftrightarrow> a = n"
  by (auto simp: block_defs)

lemma in_slash16:
  "b < 256 \<Longrightarrow> c < 256 \<Longrightarrow> d < 256 \<Longrightarrow> n < 256 \<Longrightarrow>
     in_block (ipv4 a b c d) (cidr4 m n 0 0 16) \<longleftrightarrow> a = m \<and> b = n"
  by (cases "a = m") (auto simp: block_defs)

lemma in_slash24:
  assumes "b < 256" "c < 256" "d < 256" "n < 256" "k < 256"
  shows "in_block (ipv4 a b c d) (cidr4 m n k 0 24) \<longleftrightarrow> a = m \<and> b = n \<and> c = k"
proof (cases "a = m")
  case True
  with assms show ?thesis by (cases "b = n") (auto simp: block_defs)
qed (use assms in \<open>auto simp: block_defs\<close>)

lemma in_slash10:
  "b < 256 \<Longrightarrow> c < 256 \<Longrightarrow> d < 256 \<Longrightarrow>
     in_block (ipv4 a b c d) (cidr4 100 64 0 0 10) \<longleftrightarrow> a = 100 \<and> 64 \<le> b \<and> b \<le> 127"
  by (cases "a = 100") (auto simp: block_defs)

lemma in_slash12:
  "b < 256 \<Longrightarrow> c < 256 \<Longrightarrow> d < 256 \<Longrightarrow>
     in_block (ipv4 a b c d) (cidr4 172 16 0 0 12) \<longleftrightarrow> a = 172 \<and> 16 \<le> b \<and> b \<le> 31"
  by (cases "a = 172") (auto simp: block_defs)

lemma in_slash15:
  "b < 256 \<Longrightarrow> c < 256 \<Longrightarrow> d < 256 \<Longrightarrow>
     in_block (ipv4 a b c d) (cidr4 198 18 0 0 15) \<longleftrightarrow> a = 198 \<and> (b = 18 \<or> b = 19)"
  by (cases "a = 198") (auto simp: block_defs)

lemma in_slash3:
  "a < 256 \<Longrightarrow> b < 256 \<Longrightarrow> c < 256 \<Longrightarrow> d < 256 \<Longrightarrow>
     in_block (ipv4 a b c d) (cidr4 224 0 0 0 3) \<longleftrightarrow> 224 \<le> a"
  by (auto simp: block_defs)

lemma octet_bound: "unat (b :: u8) < 256"
  using unat_bound [of b] by simp

lemma octet_eq: "unat (numeral n :: u8) = k \<Longrightarrow> b = (numeral n :: u8) \<longleftrightarrow> unat b = k"
  by (auto simp: word_unat_eq_iff)

lemma octet_zero: "b = (0 :: u8) \<longleftrightarrow> unat b = 0"
  by (auto simp: word_unat_eq_iff)

lemma public_v4_blocks:
  "public_v4 a b c \<longleftrightarrow>
     list_all (\<lambda>block. \<not> in_block (ipv4 (unat a) (unat b) (unat c) (unat (d :: u8))) block) special_use_v4"
  unfolding public_v4_def special_use_v4_def
  by (simp add: in_slash8 in_slash16 in_slash24 in_slash10 in_slash12 in_slash15 in_slash3 octet_bound
      octet_eq octet_zero word_le_nat_alt) argo

lemma and_high: "and (w :: 'a::len word) (not (mask n)) = push_bit n (drop_bit n w)"
  by (rule bit_word_eqI) (auto simp: bit_simps)

lemma unat_high: "unat (and (w :: 'a::len word) (not (mask n))) = unat w div 2 ^ n * 2 ^ n"
proof -
  have "and w (not (mask n)) = w - take_bit n w"
    using bits_ident [of n w] by (simp add: and_high algebra_simps)
  moreover have low: "unat (take_bit n w) = unat w mod 2 ^ n"
    by (simp only: unsigned_take_bit_eq take_bit_eq_mod [where 'a = nat])
  moreover have "take_bit n w \<le> w"
    by (simp add: word_le_nat_alt low)
  ultimately show ?thesis
    by (simp add: unat_sub minus_mod_eq_div_mult)
qed
lemma global_unicast_mask: "and (s :: u16) 0xE000 = 0x2000 \<longleftrightarrow> 0x2000 \<le> unat s \<and> unat s < 0x4000"
proof -
  have m: "(0xE000 :: u16) = not (mask 13)" by (simp add: mask_eq_exp_minus_1 not_eq_complement)
  have "and s 0xE000 = 0x2000 \<longleftrightarrow> unat s div 2 ^ 13 * 2 ^ 13 = 0x2000"
    by (simp add: word_unat_eq_iff m unat_high del: unat_word_ariths) 
  then show ?thesis by auto
qed
lemma documentation_mask: "and (s :: u16) 0xFFF0 = 0x3FF0 \<longleftrightarrow> 0x3FF0 \<le> unat s \<and> unat s < 0x4000"
proof -
  have m: "(0xFFF0 :: u16) = not (mask 4)" by (simp add: mask_eq_exp_minus_1 not_eq_complement)
  have "and s 0xFFF0 = 0x3FF0 \<longleftrightarrow> unat s div 2 ^ 4 * 2 ^ 4 = 0x3FF0"
    unfolding m word_unat_eq_iff unat_high by simp
  then show ?thesis by auto
qed
lemma group_bound: "unat (g :: u16) < 65536"
  using unat_bound [of g] by simp

lemma mapped_octets:
  "ipv4 (unat (high_octet g)) (unat (low_octet g)) (unat (high_octet h)) (unat (low_octet h)) =
     unat g * 2 ^ 16 + unat h"
proof -
  have "unat g div 256 < 256" "unat h div 256 < 256"
    using group_bound [of g] group_bound [of h] by auto
  then have "unat (high_octet g) = unat g div 256" "unat (high_octet h) = unat h div 256"
    by (simp_all add: high_octet_def unat_of_nat take_bit_eq_mod)
  moreover have "unat (low_octet g) = unat g mod 256" "unat (low_octet h) = unat h mod 256"
    by (simp_all add: low_octet_def unat_of_nat take_bit_eq_mod)
  ultimately show ?thesis
    using div_mult_mod_eq [of "unat g" 256] div_mult_mod_eq [of "unat h" 256]
    by (simp add: ipv4_def)
qed

lemma group_eq: "unat (numeral n :: u16) = k \<Longrightarrow> g = (numeral n :: u16) \<longleftrightarrow> unat g = k"
  by (auto simp: word_unat_eq_iff)

lemma in_group_blocks:
  assumes "s0 < 65536" "s1 < 65536"
  shows "in_block (s0 * 65536 + s1) (cidr6 0x2001 0 23) \<longleftrightarrow> s0 = 0x2001 \<and> s1 \<le> 0x1FF"
    "in_block (s0 * 65536 + s1) (cidr6 0x2001 0x0DB8 32) \<longleftrightarrow> s0 = 0x2001 \<and> s1 = 0x0DB8"
    "in_block (s0 * 65536 + s1) (cidr6 0x2002 0 16) \<longleftrightarrow> s0 = 0x2002"
    "in_block (s0 * 65536 + s1) (cidr6 0x3FF0 0 12) \<longleftrightarrow> 0x3FF0 \<le> s0 \<and> s0 < 0x4000"
proof -
  show "in_block (s0 * 65536 + s1) (cidr6 0x2001 0 23) \<longleftrightarrow> s0 = 0x2001 \<and> s1 \<le> 0x1FF"
    using assms by (cases "s0 = 0x2001") (auto simp: in_block_def cidr6_def)
  show "in_block (s0 * 65536 + s1) (cidr6 0x2001 0x0DB8 32) \<longleftrightarrow> s0 = 0x2001 \<and> s1 = 0x0DB8"
    using assms by (cases "s0 = 0x2001") (auto simp: in_block_def cidr6_def)
  show "in_block (s0 * 65536 + s1) (cidr6 0x2002 0 16) \<longleftrightarrow> s0 = 0x2002"
    using assms by (auto simp: in_block_def cidr6_def)
  show "in_block (s0 * 65536 + s1) (cidr6 0x3FF0 0 12) \<longleftrightarrow> 0x3FF0 \<le> s0 \<and> s0 < 0x4000"
    using assms by (auto simp: in_block_def cidr6_def)
qed

lemma public_address_iff: "public_address ip \<longleftrightarrow> globally_reachable ip"
proof (cases ip)
  case (V4 a b c d)
  then show ?thesis using public_v4_blocks [of a b c d] by simp
next
  case (V6 s0 s1 s2 s3 s4 s5 s6 s7)
  show ?thesis
  proof (cases "[s0, s1, s2, s3, s4, s5] = [0, 0, 0, 0, 0, 0xFFFF]")
    case True
    then show ?thesis
      using V6 public_v4_blocks [of "high_octet s6" "low_octet s6" "high_octet s7" "low_octet s7"]
      by (simp add: mapped_octets)
  next
    case False
    then have plain: "\<not> (s0 = 0 \<and> s1 = 0 \<and> s2 = 0 \<and> s3 = 0 \<and> s4 = 0 \<and> s5 = 0xFFFF)" by auto
    have "public_address ip \<longleftrightarrow> and s0 0xE000 = 0x2000 \<and> \<not> (s0 = 0x2001 \<and> s1 \<le> 0x01FF)
        \<and> \<not> (s0 = 0x2001 \<and> s1 = 0x0DB8) \<and> s0 \<noteq> 0x2002 \<and> and s0 0xFFF0 \<noteq> 0x3FF0"
      unfolding V6 public_address.simps if_not_P [OF plain] by (rule refl)
    also have "\<dots> \<longleftrightarrow> globally_reachable ip"
      unfolding global_unicast_mask documentation_mask V6 globally_reachable.simps if_not_P [OF False]
        special_use_v6_def
      by (simp add: in_group_blocks group_bound group_eq word_le_nat_alt)
    finally show ?thesis .
  qed
qed

section \<open>Admission of resolved addresses\<close>

lemma check_addresses_iff:
  "check_addresses port literal policy addresses = Inr () \<longleftrightarrow>
     (\<forall>a \<in> set addresses. sa_port a = port \<and> (literal = None \<or> literal = Some (sa_ip a)) \<and>
        (globally_reachable (sa_ip a) \<or> is_loopback (sa_ip a) \<and> tp_allow_loopback policy = Some a))"
  by (induction addresses)
    (auto simp: Let_def public_address_iff split: option.splits if_splits)

text \<open>
  C30: No transfer can be aimed at a special-use address. A list of resolved addresses is admitted
  exactly when it is neither empty nor longer than the bound, every address has the port of the URL
  and, for a literal host, is that address, and every address lies outside all special-use blocks
  (for IPv4, mapped IPv4 and IPv6, compared as numeric ranges) or is the one loopback socket that
  was permitted. The first address is then the destination.
\<close>

theorem admitted_destinations_exact:
  "validate_addresses parse_ip url addresses policy = Inr destination \<longleftrightarrow>
     addresses \<noteq> [] \<and> length addresses \<le> 64 \<and> destination = hd addresses \<and>
     (\<exists>port. url_port_or_known_default url = Some port \<and>
       (\<forall>a \<in> set addresses. sa_port a = port \<and>
          Option.bind (url_host_str url) (literal_address parse_ip) \<in> {None, Some (sa_ip a)} \<and>
          (globally_reachable (sa_ip a) \<or> is_loopback (sa_ip a) \<and> tp_allow_loopback policy = Some a)))"
  by (auto simp: validate_addresses_def MAXIMUM_DNS_ANSWERS_def result_simps Let_def
      check_addresses_iff not_less split: if_splits)

theorem admitted_destinations_exact_witness:
  "globally_reachable (V4 8 8 8 8) \<and>
   validate_addresses (\<lambda>_. None) \<lparr> url_scheme = ''https'', url_username = [], url_password = None,
       url_fragment = None, url_host_str = Some ''media'', url_port_or_known_default = Some 443 \<rparr>
     [\<lparr> sa_ip = V4 8 8 8 8, sa_port = 443, sa_flowinfo = 0, sa_scope_id = 0 \<rparr>]
     \<lparr> tp_max_bytes = 1, tp_total_timeout = 1, tp_connect_timeout = 1, tp_idle_timeout = 1,
       tp_allow_loopback = None \<rparr> =
     Inr \<lparr> sa_ip = V4 8 8 8 8, sa_port = 443, sa_flowinfo = 0, sa_scope_id = 0 \<rparr>"
proof -
  have "globally_reachable (V4 8 8 8 8)"
    by (simp add: public_v4_def flip: public_address_iff)
  then show ?thesis by (simp add: admitted_destinations_exact literal_address_def)
qed

end
