(* ===== verification/Transport.thy ===== *)
theory Transport
  imports Address_Policy "HOL-Library.Sublist"
begin

text \<open>
  The ordinary HTTP transfer (\<open>fforager-net/src/lib.rs\<close>).

  What the HTTP library, the resolver, the clock and the sink answer is given as data: a response is
  the record of the values its accessors return, a body is the sequence of frames it delivers, and
  every write attempt comes with the outcome of the control check before it. A transfer whose
  answers run out is still waiting and has no result.
\<close>

section \<open>The transport\<close>

definition MAXIMUM_HEADER_BYTES :: usize where
  "MAXIMUM_HEADER_BYTES = 64 * 1024"

definition MAXIMUM_DELIVERY_FRAME :: usize where
  "MAXIMUM_DELIVERY_FRAME = 1024 * 1024"

definition WRITE_CHUNK :: usize where
  "WRITE_CHUNK = 16 * 1024"

text \<open>Durations are in milliseconds.\<close>

definition transport_policy_default :: TransportPolicy where
  "transport_policy_default = \<lparr> tp_max_bytes = 1024 * 1024 * 1024, tp_total_timeout = 2 * 60 * 1000,
     tp_connect_timeout = 15 * 1000, tp_idle_timeout = 30 * 1000, tp_allow_loopback = None \<rparr>"

record OrdinaryTransport =
  ot_policy :: TransportPolicy
  ot_in_flight :: bool

definition transport_new :: "TransportPolicy \<Rightarrow> TransportError + OrdinaryTransport" where
  "transport_new policy =
     (if tp_max_bytes policy = 0 \<or> tp_total_timeout policy = 0
         \<or> tp_total_timeout policy > 24 * 60 * 60 * 1000
         \<or> tp_connect_timeout policy = 0 \<or> tp_idle_timeout policy = 0
         \<or> (case tp_allow_loopback policy of
              None \<Rightarrow> False
            | Some address \<Rightarrow> \<not> is_loopback (sa_ip address) \<or> sa_port address = 0)
      then Inl (transport_input ''invalid transfer limits or loopback permit'')
      else Inr \<lparr> ot_policy = policy\<lparr>
          tp_connect_timeout := min (tp_connect_timeout policy) (tp_total_timeout policy),
          tp_idle_timeout := min (tp_idle_timeout policy) (tp_total_timeout policy) \<rparr>,
        ot_in_flight = False \<rparr>)"

section \<open>Control and resolution\<close>

definition check_control :: "bool \<Rightarrow> nat \<Rightarrow> nat \<Rightarrow> TransportError + unit" where
  "check_control cancelled now deadline =
     (if cancelled then Inl (transport_error Cancelled ''transfer cancelled'')
      else if now \<ge> deadline then Inl (transport_error TimedOut ''transfer deadline exhausted'')
      else Inr ())"

text \<open>
  The control check before a literal address is used, and the answers of the resolver under the same
  control, are arguments.
\<close>

definition resolve_addresses ::
  "(string \<Rightarrow> url_view option) \<Rightarrow> (string \<Rightarrow> IpAddr option) \<Rightarrow> TransportPolicy \<Rightarrow> string
   \<Rightarrow> TransportError + unit \<Rightarrow> (string \<Rightarrow> u16 \<Rightarrow> TransportError + SocketAddr list)
   \<Rightarrow> TransportError + SocketAddr list" where
  "resolve_addresses parse parse_ip policy input control lookup =
     rbind (parse_url parse input) (\<lambda>url.
     rbind (ok_or (transport_input ''missing host'') (url_host_str url)) (\<lambda>host.
     rbind (ok_or (transport_input ''missing port'') (url_port_or_known_default url)) (\<lambda>port.
     rbind (case literal_address parse_ip host of
         Some ip \<Rightarrow> rbind control (\<lambda>_.
           Inr [\<lparr> sa_ip = ip, sa_port = port, sa_flowinfo = 0, sa_scope_id = 0 \<rparr>])
       | None \<Rightarrow> rbind (lookup host port) (\<lambda>answers. Inr (take (MAXIMUM_DNS_ANSWERS + 1) answers)))
       (\<lambda>addresses.
     rbind (validate_addresses parse_ip url addresses policy) (\<lambda>_. Inr addresses)))))"

section \<open>The response\<close>

record http_response =
  hr_remote_addr :: "SocketAddr option"
  hr_status :: u16
  hr_headers :: "(string \<times> string) list"
  hr_content_length :: "u64 option"

definition header_bytes :: "(string \<times> string) list \<Rightarrow> usize option" where
  "header_bytes headers =
     fold (\<lambda>(name, val) total. Option.bind total (\<lambda>t.
       Option.bind (usize_checked_add t (length name)) (\<lambda>t. usize_checked_add t (length val))))
       headers (Some 0)"

definition show_status :: "u16 \<Rightarrow> (nat \<Rightarrow> string) \<Rightarrow> string" where
  "show_status status decimal = ''HTTP status '' @ decimal (unat status)"

definition validate_response ::
  "(nat \<Rightarrow> string) \<Rightarrow> TransportPolicy \<Rightarrow> http_response \<Rightarrow> SocketAddr
   \<Rightarrow> TransportError + u16 \<times> SocketAddr \<times> u64 option" where
  "validate_response decimal policy response selected =
     rbind (ok_or (transport_error AddressMismatch ''connected peer evidence is absent'')
       (hr_remote_addr response)) (\<lambda>connected.
     if connected \<noteq> selected
     then Inl (transport_error AddressMismatch ''connected peer differs from admitted destination'')
     else if 300 \<le> hr_status response \<and> hr_status response < 400
     then Inl (transport_error RedirectDenied ''redirect requires a separately admitted request'')
     else if hr_status response \<noteq> 200
     then Inl (transport_error ResponseStatus (show_status (hr_status response) decimal))
     else if length (hr_headers response) > 128
       \<or> (case header_bytes (hr_headers response) of
            None \<Rightarrow> True
          | Some bytes \<Rightarrow> bytes > MAXIMUM_HEADER_BYTES)
     then Inl (transport_error SizeLimit ''response metadata exceeds its bound'')
     else if list_ex (\<lambda>(name, val). name = ''content-encoding'' \<and> val \<noteq> ''identity'') (hr_headers response)
     then Inl (transport_error EncodedResponse
       ''encoded response is not admitted for direct acquisition'')
     else if (case hr_content_length response of None \<Rightarrow> False | Some n \<Rightarrow> n > tp_max_bytes policy)
     then Inl (transport_error SizeLimit ''declared body exceeds its bound'')
     else Inr (hr_status response, connected, hr_content_length response))"

section \<open>The body\<close>

datatype write_outcome = Wrote usize | Interrupted | WriteFailed

record write_attempt =
  at_control :: "TransportError + unit"
  at_outcome :: write_outcome

type_synonym 'a written = "u8 list \<times> write_attempt list \<times> (TransportError + 'a) option"

text \<open>One part: the bytes the sink took, the attempts left, and the result if there is one.\<close>

fun write_part :: "u8 list \<Rightarrow> write_attempt list \<Rightarrow> unit written" where
  "write_part [] attempts = ([], attempts, Some (Inr ()))"
| "write_part remaining [] = ([], [], None)"
| "write_part remaining (attempt # attempts) =
     (case at_control attempt of
        Inl e \<Rightarrow> ([], attempts, Some (Inl e))
      | Inr _ \<Rightarrow>
          (case at_outcome attempt of
             Wrote n \<Rightarrow>
               if n = 0
               then ([], attempts, Some (Inl (transport_error Sink ''sink made no progress'')))
               else if n \<le> length remaining
               then (case write_part (drop n remaining) attempts of
                 (bytes, rest, r) \<Rightarrow> (take n remaining @ bytes, rest, r))
               else ([], attempts, Some (Inl (transport_error Sink ''sink returned an invalid byte count'')))
           | Interrupted \<Rightarrow> write_part remaining attempts
           | WriteFailed \<Rightarrow> ([], attempts, Some (Inl (transport_error Sink ''sink write failed'')))))"

text \<open>\<open>slice::chunks\<close>.\<close>

function chunks :: "usize \<Rightarrow> 'a list \<Rightarrow> 'a list list" where
  "chunks n xs = (if xs = [] \<or> n = 0 then [] else take n xs # chunks n (drop n xs))"
  by pat_completeness auto

termination chunks
  by (relation "measure (\<lambda>(n, xs). length xs)") auto

declare chunks.simps [simp del]

fun write_parts :: "u8 list list \<Rightarrow> write_attempt list \<Rightarrow> unit written" where
  "write_parts [] attempts = ([], attempts, Some (Inr ()))"
| "write_parts (part # parts) attempts =
     (case write_part part attempts of
        (bytes, rest, Some (Inr _)) \<Rightarrow>
          (case write_parts parts rest of (more_bytes, rest, r) \<Rightarrow> (bytes @ more_bytes, rest, r))
      | stopped \<Rightarrow> stopped)"

datatype delivery = Delivered "u8 list" | EndOfBody | DeliveryFailed TransportError

definition frame_detail :: "(nat \<Rightarrow> string) \<Rightarrow> usize \<Rightarrow> u64 \<Rightarrow> string" where
  "frame_detail decimal n received =
     ''response frame '' @ decimal n @ '' exceeds retained-frame bound '' @ decimal MAXIMUM_DELIVERY_FRAME
       @ '' after '' @ decimal (unat received) @ '' bytes''"

fun copy_response ::
  "(nat \<Rightarrow> string) \<Rightarrow> u64 \<Rightarrow> u64 \<Rightarrow> delivery list \<Rightarrow> write_attempt list
   \<Rightarrow> u8 list \<times> (TransportError + u64) option" where
  "copy_response decimal max_bytes received [] attempts = ([], None)"
| "copy_response decimal max_bytes received (EndOfBody # deliveries) attempts =
     ([], Some (Inr received))"
| "copy_response decimal max_bytes received (DeliveryFailed e # deliveries) attempts =
     ([], Some (Inl e))"
| "copy_response decimal max_bytes received (Delivered chunk # deliveries) attempts =
     (if length chunk > MAXIMUM_DELIVERY_FRAME
      then ([], Some (Inl (transport_error SizeLimit (frame_detail decimal (length chunk) received))))
      else case u64_try_from (length chunk) of
        None \<Rightarrow> ([], Some (Inl (transport_input ''body length overflow'')))
      | Some len \<Rightarrow>
          (case checked_add received len of
             Some next_received \<Rightarrow>
               if next_received \<le> max_bytes
               then (case write_parts (chunks WRITE_CHUNK chunk) attempts of
                 (bytes, rest, Some (Inr _)) \<Rightarrow>
                   (case copy_response decimal max_bytes next_received deliveries rest of
                      (more_bytes, r) \<Rightarrow> (bytes @ more_bytes, r))
               | (bytes, rest, Some (Inl e)) \<Rightarrow> (bytes, Some (Inl e))
               | (bytes, rest, None) \<Rightarrow> (bytes, None))
               else ([], Some (Inl (transport_error SizeLimit ''body exceeds its admitted byte bound'')))
           | None \<Rightarrow> ([], Some (Inl (transport_error SizeLimit ''body exceeds its admitted byte bound'')))))"

section \<open>One transfer\<close>

record TransferReceipt =
  tr_bytes_received :: u64
  tr_status :: u16
  tr_selected_address :: SocketAddr
  tr_connected_address :: SocketAddr
  tr_content_length :: "u64 option"
  tr_elapsed :: nat

record transfer_answers =
  ta_control_at_start :: "TransportError + unit"
  ta_client :: "TransportError + unit"
  ta_response :: "TransportError + http_response"
  ta_body :: "delivery list"
  ta_writes :: "write_attempt list"
  ta_control_at_end :: "TransportError + unit"
  ta_elapsed :: nat

text \<open>The admission guard is set once the capacity is taken and cleared when the call returns.\<close>

definition download ::
  "(nat \<Rightarrow> string) \<Rightarrow> (string \<Rightarrow> url_view option) \<Rightarrow> (string \<Rightarrow> IpAddr option) \<Rightarrow> string
   \<Rightarrow> SocketAddr list \<Rightarrow> transfer_answers \<Rightarrow> OrdinaryTransport
   \<Rightarrow> OrdinaryTransport \<times> u8 list \<times> (TransportError + TransferReceipt) option" where
  "download decimal parse parse_ip input admitted answers t =
     (case rbind (ta_control_at_start answers) (\<lambda>_. rbind (parse_url parse input) (\<lambda>url.
         validate_addresses parse_ip url admitted (ot_policy t))) of
        Inl e \<Rightarrow> (t, [], Some (Inl e))
      | Inr selected \<Rightarrow>
          if ot_in_flight t
          then (t, [], Some (Inl (transport_error ResourceExhausted ''transfer capacity is occupied'')))
          else
            (case rbind (ta_client answers) (\<lambda>_. rbind (ta_response answers) (\<lambda>response.
                validate_response decimal (ot_policy t) response selected)) of
               Inl e \<Rightarrow> (t\<lparr> ot_in_flight := False \<rparr>, [], Some (Inl e))
             | Inr (status, connected, content_length) \<Rightarrow>
                 (case copy_response decimal (tp_max_bytes (ot_policy t)) 0 (ta_body answers)
                     (ta_writes answers) of
                    (bytes, None) \<Rightarrow> (t\<lparr> ot_in_flight := True \<rparr>, bytes, None)
                  | (bytes, Some (Inl e)) \<Rightarrow> (t\<lparr> ot_in_flight := False \<rparr>, bytes, Some (Inl e))
                  | (bytes, Some (Inr received)) \<Rightarrow>
                      (t\<lparr> ot_in_flight := False \<rparr>, bytes, Some (
                        if (case content_length of None \<Rightarrow> False | Some n \<Rightarrow> n \<noteq> received)
                        then Inl (transport_error Network ''response body length is inconsistent'')
                        else rbind (ta_control_at_end answers) (\<lambda>_. Inr
                          \<lparr> tr_bytes_received = received, tr_status = status,
                            tr_selected_address = selected, tr_connected_address = connected,
                            tr_content_length = content_length, tr_elapsed = ta_elapsed answers \<rparr>))))))"

section \<open>What the sink has received\<close>

lemma write_part_prefix:
  "write_part remaining attempts = (bytes, rest, r) \<Longrightarrow>
     prefix bytes remaining \<and> (r = Some (Inr ()) \<longrightarrow> bytes = remaining)"
proof (induction remaining attempts arbitrary: bytes rest r rule: write_part.induct)
  case (3 v va attempt attempts)
  show ?case
  proof (cases "at_control attempt")
    case (Inl e)
    with "3.prems" show ?thesis by auto
  next
    case (Inr u)
    show ?thesis
    proof (cases "at_outcome attempt")
      case (Wrote n)
      show ?thesis
      proof (cases "n = 0 \<or> n > length (v # va)")
        case True
        with "3.prems" Inr Wrote show ?thesis by (auto split: if_splits)
      next
        case False
        obtain bytes' where tail: "write_part (drop n (v # va)) attempts = (bytes', rest, r)"
            "bytes = take n (v # va) @ bytes'"
          using "3.prems" Inr Wrote False by (auto split: prod.splits if_splits)
        with "3.IH"(1) [OF Inr Wrote _ _ tail(1)] False
        have "prefix bytes' (drop n (v # va)) \<and> (r = Some (Inr ()) \<longrightarrow> bytes' = drop n (v # va))"
          by simp
        then show ?thesis
          unfolding tail(2) by (metis append_take_drop_id same_prefix_prefix)
      qed
    next
      case Interrupted
      with "3.prems" "3.IH"(2) [OF Inr] Inr show ?thesis by simp
    next
      case WriteFailed
      with "3.prems" Inr show ?thesis by auto
    qed
  qed
qed auto

lemma write_parts_prefix:
  "write_parts parts attempts = (bytes, rest, r) \<Longrightarrow>
     prefix bytes (concat parts) \<and> (r = Some (Inr ()) \<longrightarrow> bytes = concat parts)"
proof (induction parts arbitrary: attempts bytes rest r)
  case (Cons part parts)
  obtain bytes1 rest1 r1 where first: "write_part part attempts = (bytes1, rest1, r1)"
    by (metis prod_cases3)
  note one = write_part_prefix [OF first]
  show ?case
  proof (cases "r1 = Some (Inr ())")
    case True
    then obtain bytes2 where tail: "write_parts parts rest1 = (bytes2, rest, r)" "bytes = bytes1 @ bytes2"
      using Cons.prems first by (auto split: prod.splits)
    with Cons.IH [OF tail(1)] one True show ?thesis by simp
  next
    case False
    then have "bytes = bytes1 \<and> r = r1"
      using Cons.prems first by (auto split: option.splits sum.splits)
    with one False show ?thesis by (metis concat.simps(2) prefix_prefix)
  qed
qed simp

lemma concat_chunks: "0 < n \<Longrightarrow> concat (chunks n xs) = xs"
proof (induction n xs rule: chunks.induct)
  case (1 n xs)
  then show ?case by (cases "xs = []") (simp_all add: chunks.simps [of n xs] chunks.simps [of n "[]"])
qed

fun body_bytes :: "delivery list \<Rightarrow> u8 list" where
  "body_bytes (Delivered chunk # deliveries) = chunk @ body_bytes deliveries"
| "body_bytes _ = []"

fun body_complete :: "delivery list \<Rightarrow> bool" where
  "body_complete (Delivered chunk # deliveries) = body_complete deliveries"
| "body_complete (EndOfBody # deliveries) = True"
| "body_complete _ = False"

lemma copy_response_bytes:
  "copy_response decimal max_bytes received deliveries attempts = (bytes, r) \<Longrightarrow>
     received \<le> max_bytes \<Longrightarrow>
     prefix bytes (body_bytes deliveries) \<and> unat received + length bytes \<le> unat max_bytes \<and>
     (\<forall>n. r = Some (Inr n) \<longrightarrow> bytes = body_bytes deliveries \<and> body_complete deliveries \<and>
        unat n = unat received + length bytes)"
proof (induction deliveries arbitrary: received attempts bytes r)
  case (Cons delivery deliveries)
  show ?case
  proof (cases delivery)
    case (Delivered chunk)
    obtain bytes0 rest0 r0 where parts0:
        "write_parts (chunks WRITE_CHUNK chunk) attempts = (bytes0, rest0, r0)"
      by (metis prod_cases3)
    consider (refused) e where "bytes = []" "r = Some (Inl e)"
      | (taken) len next_received bytes1 rest r1 where "u64_try_from (length chunk) = Some len"
          "checked_add received len = Some next_received" "next_received \<le> max_bytes"
          "length chunk \<le> MAXIMUM_DELIVERY_FRAME"
          "write_parts (chunks WRITE_CHUNK chunk) attempts = (bytes1, rest, r1)"
      using Cons.prems(1) Delivered
      by (auto simp: parts0 split: if_splits option.splits)
    then show ?thesis
    proof cases
      case refused
      with Cons.prems(2) show ?thesis by (simp add: word_le_nat_alt)
    next
      case taken
      note parts = write_parts_prefix [OF taken(5)]
      have whole: "concat (chunks WRITE_CHUNK chunk) = chunk"
        by (rule concat_chunks) (simp add: WRITE_CHUNK_def)
      have next_received: "unat next_received = unat received + length chunk"
        using taken(1,2) by (simp add: u64_try_from_eq_Some_iff checked_add_eq_Some_iff)
      have room: "unat received + length chunk \<le> unat max_bytes"
        using taken(3) next_received by (simp add: word_le_nat_alt)
      show ?thesis
      proof (cases "r1 = Some (Inr ())")
        case True
        then obtain bytes2 where tail:
            "copy_response decimal max_bytes next_received deliveries rest = (bytes2, r)"
            "bytes = bytes1 @ bytes2"
          using Cons.prems(1) Delivered taken by (auto split: prod.splits)
        with Cons.IH [OF tail(1) taken(3)] parts True whole next_received Delivered
        show ?thesis by simp
      next
        case False
        then have "bytes = bytes1 \<and> (\<forall>n. r \<noteq> Some (Inr n))"
          using Cons.prems(1) Delivered taken by (auto split: option.splits sum.splits if_splits)
        moreover have "prefix bytes1 (chunk @ body_bytes deliveries)" "length bytes1 \<le> length chunk"
          using parts whole by (auto simp: prefix_length_le)
        ultimately show ?thesis using Delivered room by auto
      qed
    qed
  qed (use Cons.prems in \<open>auto simp: word_le_nat_alt\<close>)
qed (simp add: word_le_nat_alt)

lemma validate_response_ok:
  "validate_response decimal policy response selected = Inr (status, connected, content_length) \<Longrightarrow>
     status = 200 \<and> connected = selected \<and> content_length = hr_content_length response"
  by (auto simp: validate_response_def result_simps split: if_splits)

text \<open>
  C29: A completed transfer delivered the whole body, and no transfer delivers anything else. Whatever
  the network, the sink and the clock answer, the sink has received a prefix of the body within the
  byte limit; a receipt is returned only when the body ended, the sink has received all of it, its
  length is the reported and the declared one, the status is 200 and the connected peer is the
  admitted address; and afterwards the transport can be used again.
\<close>

theorem transfer_exact:
  "case download decimal parse parse_ip input admitted answers t of (t', bytes, r) \<Rightarrow>
     prefix bytes (body_bytes (ta_body answers)) \<and>
     length bytes \<le> unat (tp_max_bytes (ot_policy t)) \<and>
     (r \<noteq> None \<and> \<not> ot_in_flight t \<longrightarrow> \<not> ot_in_flight t') \<and>
     (\<forall>receipt. r = Some (Inr receipt) \<longrightarrow>
        body_complete (ta_body answers) \<and> bytes = body_bytes (ta_body answers) \<and>
        unat (tr_bytes_received receipt) = length bytes \<and>
        tr_content_length receipt \<in> {None, Some (tr_bytes_received receipt)} \<and>
        tr_status receipt = 200 \<and> tr_connected_address receipt = tr_selected_address receipt \<and>
        tr_selected_address receipt \<in> set admitted)"
proof -
  obtain t' bytes r where run:
    "download decimal parse parse_ip input admitted answers t = (t', bytes, r)"
    by (metis prod_cases3)
  let ?admit = "rbind (ta_control_at_start answers) (\<lambda>_. rbind (parse_url parse input) (\<lambda>url.
      validate_addresses parse_ip url admitted (ot_policy t)))"
  let ?reply = "\<lambda>selected. rbind (ta_client answers) (\<lambda>_. rbind (ta_response answers) (\<lambda>response.
      validate_response decimal (ot_policy t) response selected))"
  show ?thesis
  proof (cases ?admit)
    case (Inl e)
    with run show ?thesis by (auto simp: download_def)
  next
    case (Inr selected)
    then have selected: "selected \<in> set admitted"
      by (auto simp: result_simps validate_addresses_def Let_def split: if_splits)
    show ?thesis
    proof (cases "ot_in_flight t")
      case True
      with run Inr show ?thesis by (auto simp: download_def)
    next
      case False
      show ?thesis
      proof (cases "?reply selected")
        case (Inl e)
        with run Inr False show ?thesis by (auto simp: download_def)
      next
        case reply: (Inr answer)
        obtain status connected content_length where answer: "answer = (status, connected, content_length)"
          by (metis prod_cases3)
        with reply have ok: "status = 200" "connected = selected"
          by (auto simp: result_simps dest!: validate_response_ok)
        obtain bytes' r' where copy:
          "copy_response decimal (tp_max_bytes (ot_policy t)) 0 (ta_body answers) (ta_writes answers)
             = (bytes', r')"
          by fastforce
        note body = copy_response_bytes [OF copy]
        show ?thesis
          using run Inr False reply answer ok copy body selected
          by (auto simp: download_def result_simps split: option.splits sum.splits if_splits)
      qed
    qed
  qed
qed

definition sample_address :: SocketAddr where
  "sample_address = \<lparr> sa_ip = V4 8 8 8 8, sa_port = 443, sa_flowinfo = 0, sa_scope_id = 0 \<rparr>"

definition sample_url :: url_view where
  "sample_url = \<lparr> url_scheme = ''https'', url_username = [], url_password = None, url_fragment = None,
     url_host_str = Some ''media'', url_port_or_known_default = Some 443 \<rparr>"

definition sample_transport :: OrdinaryTransport where
  "sample_transport = \<lparr> ot_policy = transport_policy_default, ot_in_flight = False \<rparr>"

definition sample_answers :: transfer_answers where
  "sample_answers = \<lparr> ta_control_at_start = Inr (), ta_client = Inr (),
     ta_response = Inr \<lparr> hr_remote_addr = Some sample_address, hr_status = 200, hr_headers = [],
       hr_content_length = Some 3 \<rparr>,
     ta_body = [Delivered [1, 2, 3], EndOfBody],
     ta_writes = [\<lparr> at_control = Inr (), at_outcome = Wrote 2 \<rparr>,
       \<lparr> at_control = Inr (), at_outcome = Interrupted \<rparr>, \<lparr> at_control = Inr (), at_outcome = Wrote 1 \<rparr>],
     ta_control_at_end = Inr (), ta_elapsed = 7 \<rparr>"

lemma sample_admitted:
  "validate_addresses (\<lambda>_. None) sample_url [sample_address] transport_policy_default = Inr sample_address"
  by (simp add: validate_addresses_def MAXIMUM_DNS_ANSWERS_def sample_url_def sample_address_def
      literal_address_def public_v4_def)

lemma sample_download:
  "download (\<lambda>_. []) (\<lambda>_. Some sample_url) (\<lambda>_. None) ''https://media'' [sample_address] sample_answers
     sample_transport = (sample_transport, [1, 2, 3], Some (Inr
       \<lparr> tr_bytes_received = 3, tr_status = 200, tr_selected_address = sample_address,
         tr_connected_address = sample_address, tr_content_length = Some 3, tr_elapsed = 7 \<rparr>))"
proof -
  have url: "parse_url (\<lambda>_. Some sample_url) ''https://media'' = Inr sample_url"
    by (simp add: parse_url_def sample_url_def chars_def utf8_chars.simps byte_def is_control_def)
  have parts: "chunks WRITE_CHUNK [1, 2, 3 :: u8] = [[1, 2, 3]]"
    unfolding WRITE_CHUNK_def by (simp add: chunks.simps [of _ "[1, 2, 3]"] chunks.simps [of _ "[]"])
  show ?thesis
    using sample_admitted
    by (simp add: download_def url sample_answers_def sample_transport_def transport_policy_default_def
        validate_response_def header_bytes_def parts MAXIMUM_DELIVERY_FRAME_def MAXIMUM_HEADER_BYTES_def
        u64_try_from_def checked_add_def)
qed

theorem transfer_exact_witness:
  "prefix [1, 2, 3 :: u8] (body_bytes (ta_body sample_answers)) \<and>
   [1, 2, 3] = body_bytes (ta_body sample_answers) \<and>
   unat (3 :: u64) = length [1, 2, 3 :: u8] \<and> sample_address \<in> set [sample_address]"
  using transfer_exact [where decimal = "\<lambda>_. []" and parse = "\<lambda>_. Some sample_url"
      and parse_ip = "\<lambda>_. None" and input = "''https://media''" and admitted = "[sample_address]"
      and answers = sample_answers and t = sample_transport]
  unfolding sample_download by (simp add: sample_answers_def)

end
