(* ===== verification/Direct_Plan.thy ===== *)
theory Direct_Plan
  imports Graph_Validity Data_Contract Unicode_Text
begin

text \<open>
  The plan of a direct download (\<open>fforager-core/src/direct.rs\<close>): a source graph of one node built
  from a URL and the digest of its source, with the one representation and asset it selects.
\<close>

section \<open>Checks\<close>

record 'json DirectPlan =
  dp_graph :: "'json SourceGraph"
  dp_acquisition :: AcquisitionSource
  dp_selected_representation :: string
  dp_selected_asset :: string

datatype DirectPlanError =
    InvalidIdentity
  | InvalidUrl
  | Identity IdError
  | Graph GraphError
  | Acquisition DataContractError
  | Selection

definition direct_graph_limits :: GraphLimits where
  "direct_graph_limits = graph_limits_default\<lparr> gl_maximum_roots := 1, gl_maximum_nodes := 1,
     gl_maximum_edges := 0, gl_maximum_continuations := 0,
     gl_maximum_identity_values_per_node := 3, gl_maximum_string_bytes := 8 * 1024 \<rparr>"

definition url_authority :: "string \<Rightarrow> string option" where
  "url_authority url =
     map_option (\<lambda>rest. hd (split_on (\<lambda>c. c \<in> {CHR ''/'', CHR ''?'', CHR ''#''}) rest))
       (case strip_prefix ''http://'' url of
          Some rest \<Rightarrow> Some rest
        | None \<Rightarrow> strip_prefix ''https://'' url)"

definition validate_direct_url :: "string \<Rightarrow> DirectPlanError + unit" where
  "validate_direct_url url =
     (if length url > 8 * 1024 \<or> list_ex (\<lambda>c. is_control c \<or> is_whitespace c) (chars url)
         \<or> list_ex (\<lambda>c. c \<in> {CHR ''#'', CHR 92}) url
         \<or> (case url_authority url of
              None \<Rightarrow> True
            | Some authority \<Rightarrow> authority = [] \<or> CHR ''@'' \<in> set authority)
      then Inl InvalidUrl
      else Inr ())"

definition validate_source_identity :: "string \<Rightarrow> DirectPlanError + unit" where
  "validate_source_identity identity =
     (if length identity \<noteq> 64 \<or> \<not> list_all hex_char identity then Inl InvalidIdentity else Inr ())"

definition direct_plan_validate :: "'json json_codec \<Rightarrow> 'json DirectPlan \<Rightarrow> DirectPlanError + unit" where
  "direct_plan_validate codec plan =
     rbind (map_err Graph (graph_validate codec (dp_graph plan) direct_graph_limits)) (\<lambda>_.
     rbind (map_err Acquisition
       (acquisition_validate (dp_acquisition plan) data_contract_limits_default)) (\<lambda>_.
     case sg_nodes (dp_graph plan) of
       [node] \<Rightarrow>
         (case dp_acquisition plan of
            DirectUrl url \<Rightarrow>
              rbind (validate_direct_url url) (\<lambda>_.
              let identity = pv_source_identity (sn_provenance node) in
              rbind (validate_source_identity identity) (\<lambda>_.
              if sn_kind node \<noteq> Media \<or> sg_roots (dp_graph plan) \<noteq> [sn_id node]
                 \<or> sn_id node \<noteq> ''node_'' @ identity
                 \<or> ei_item (sn_identities node) \<noteq> Some (''item_'' @ identity)
                 \<or> dp_selected_representation plan \<noteq> ''repr_'' @ identity
                 \<or> dp_selected_asset plan \<noteq> ''asset_'' @ identity
                 \<or> ei_representations (sn_identities node) \<noteq> [dp_selected_representation plan]
                 \<or> ei_assets (sn_identities node) \<noteq> [dp_selected_asset plan]
                 \<or> ei_tracks (sn_identities node) \<noteq> []
                 \<or> ei_derived_outputs (sn_identities node) \<noteq> []
                 \<or> pv_canonical_url (sn_provenance node) \<noteq> url
              then Inl Selection
              else Inr ()))
          | _ \<Rightarrow> Inl Selection)
     | _ \<Rightarrow> Inl Selection))"

section \<open>Planning\<close>

definition plan_direct :: "'json json_codec \<Rightarrow> string \<Rightarrow> string \<Rightarrow> DirectPlanError + 'json DirectPlan" where
  "plan_direct codec url identity =
     rbind (validate_source_identity identity) (\<lambda>_.
     rbind (validate_direct_url url) (\<lambda>_.
     rbind (map_err Identity (stable_id_new NodeId (''node_'' @ identity))) (\<lambda>node.
     rbind (map_err Identity (stable_id_new ItemId (''item_'' @ identity))) (\<lambda>item.
     rbind (map_err Identity (stable_id_new RepresentationId (''repr_'' @ identity))) (\<lambda>representation.
     rbind (map_err Identity (stable_id_new AssetId (''asset_'' @ identity))) (\<lambda>asset.
     let graph = \<lparr> sg_schema = \<lparr> sv_major = 1, sv_minor = 0 \<rparr>, sg_roots = [node],
           sg_nodes = [\<lparr> sn_id = node, sn_kind = Media,
             sn_identities = \<lparr> ei_item = Some item, ei_representations = [representation],
               ei_tracks = [], ei_assets = [asset], ei_derived_outputs = [] \<rparr>,
             sn_provenance = \<lparr> pv_extractor_key = ''direct_http'', pv_source_identity = identity,
               pv_canonical_url = url, pv_parent_node = None \<rparr>,
             sn_title = Unknown, sn_description = Unknown, sn_extensions = [] \<rparr>],
           sg_edges = [], sg_continuations = [] \<rparr> in
     rbind (map_err Graph (graph_validate codec graph direct_graph_limits)) (\<lambda>_.
     let acquisition = DirectUrl url in
     rbind (map_err Acquisition (acquisition_validate acquisition data_contract_limits_default)) (\<lambda>_.
     let plan = \<lparr> dp_graph = graph, dp_acquisition = acquisition,
           dp_selected_representation = representation, dp_selected_asset = asset \<rparr> in
     rbind (direct_plan_validate codec plan) (\<lambda>_. Inr plan)))))))))"

section \<open>Planning is total on valid input\<close>

lemma url_no_control:
  assumes "utf8_valid (map byte url)" "validate_direct_url url = Inr ()"
  shows "\<not> has_control url"
proof
  assume "has_control url"
  then obtain c where c: "c \<in> set url" "is_ascii_control (byte c)"
    by (auto simp: has_control_def list_ex_iff)
  then have "byte c \<le> 0x7F" "is_control (unat (byte c))"
    by (auto simp: is_ascii_control_def is_control_def word_le_nat_alt)
  moreover from this have "unat (byte c) \<in> set (chars url)"
    unfolding chars_def using utf8_chars_ascii [OF assms(1)] c(1) by simp
  ultimately show False
    using assms(2) by (auto simp: validate_direct_url_def list_ex_iff split: if_splits)
qed

lemma url_bounds:
  "validate_direct_url url = Inr () \<Longrightarrow> url \<noteq> [] \<and> length url \<le> 8192"
  by (auto simp: validate_direct_url_def url_authority_def strip_prefix_def starts_with_def
      split: if_splits)

lemma hex_id_char: "hex_char c \<Longrightarrow> id_char c"
  by (auto simp: hex_char_def id_char_def is_ascii_lowercase_def word_le_nat_alt)

lemma identity_ok_iff:
  "validate_source_identity identity = Inr () \<longleftrightarrow> length identity = 64 \<and> list_all hex_char identity"
  by (simp add: validate_source_identity_def)

lemma derived_id:
  assumes "validate_source_identity identity = Inr ()" "kind \<in> {NodeId, ItemId, RepresentationId, AssetId}"
  shows "stable_id_new kind (id_prefix kind @ identity) = Inr (id_prefix kind @ identity)"
proof -
  have "list_all id_char identity" "length identity = 64"
    using assms(1) hex_id_char by (auto simp: identity_ok_iff list_all_iff)
  with assms(2) show ?thesis
    by (auto simp: stable_id_new_iff starts_with_def id_char_def is_ascii_lowercase_def byte_def)
qed

definition direct_plan :: "string \<Rightarrow> string \<Rightarrow> 'json DirectPlan" where
  "direct_plan url identity = \<lparr> dp_graph = \<lparr> sg_schema = \<lparr> sv_major = 1, sv_minor = 0 \<rparr>,
       sg_roots = [''node_'' @ identity],
       sg_nodes = [\<lparr> sn_id = ''node_'' @ identity, sn_kind = Media,
         sn_identities = \<lparr> ei_item = Some (''item_'' @ identity),
           ei_representations = [''repr_'' @ identity], ei_tracks = [],
           ei_assets = [''asset_'' @ identity], ei_derived_outputs = [] \<rparr>,
         sn_provenance = \<lparr> pv_extractor_key = ''direct_http'', pv_source_identity = identity,
           pv_canonical_url = url, pv_parent_node = None \<rparr>,
         sn_title = Unknown, sn_description = Unknown, sn_extensions = [] \<rparr>],
       sg_edges = [], sg_continuations = [] \<rparr>,
     dp_acquisition = DirectUrl url, dp_selected_representation = ''repr_'' @ identity,
     dp_selected_asset = ''asset_'' @ identity \<rparr>"

lemma identity_visible: "list_all hex_char identity \<Longrightarrow> \<not> has_control identity"
  using id_char_visible hex_id_char by (auto simp: has_control_def list_ex_iff list_all_iff)

lemma direct_graph_ok:
  assumes identity: "validate_source_identity identity = Inr ()"
    and url: "validate_direct_url url = Inr ()" "utf8_valid (map byte url)"
    and codec: "map_bytes codec [] = Some 2"
  shows "graph_validate codec (dp_graph (direct_plan url identity)) direct_graph_limits = Inr ()"
proof -
  let ?graph = "dp_graph (direct_plan url identity)"
  let ?node = "hd (sg_nodes ?graph)"
  have fields: "node_fields_ok codec direct_graph_limits ?node"
    using url_no_control [OF url(2,1)] url_bounds [OF url(1)] identity identity_visible codec
    by (auto simp: node_fields_ok_def direct_plan_def direct_graph_limits_def graph_limits_default_def
        entity_values_def bounded_text_def extensions_validate_def extension_limits_default_def
        identity_ok_iff has_control_def byte_def is_ascii_control_def)
  have "chain_ends (parent_of ?graph) budget ?node" for budget
    by (rule chain_ends_stop) (simp add: parent_of_def direct_plan_def)
  then have ends: "\<forall>n \<in> set (sg_nodes ?graph). chain_ends (parent_of ?graph) budget n" for budget
    by (simp add: direct_plan_def)
  show ?thesis
    using fields ends unfolding graph_validate_iff source_graph_ok_def
    by (simp add: within_limits_def in_range_def identities_unique_def references_resolve_def
        redirects_resolve_def direct_plan_def direct_graph_limits_def graph_limits_default_def
        overlays_def recursive_edges_def entities_of_def entity_values_def acyclic_def)
qed

lemma direct_plan_ok:
  assumes "validate_source_identity identity = Inr ()"
    "validate_direct_url url = Inr ()" "utf8_valid (map byte url)" "map_bytes codec [] = Some 2"
  shows "direct_plan_validate codec (direct_plan url identity) = Inr ()"
  using direct_graph_ok [OF assms] url_no_control [OF assms(3,2)] url_bounds [OF assms(2)] assms(1,2)
  by (simp add: direct_plan_validate_def)
    (simp add: direct_plan_def validate_data_text_def data_contract_limits_default_def)

text \<open>
  Planning a direct download fails for two reasons only. A digest that is not 64 lowercase hex
  digits is refused, then a URL outside the grammar; for every other input the graph, the
  acquisition and the selection that planning builds satisfy their own contracts, so that the plan
  is returned and would be accepted again. The serializer is assumed to write an empty map in two
  bytes, and the URL to be a string.
\<close>

theorem direct_planning_total:
  assumes "utf8_valid (map byte url)" "map_bytes codec [] = Some 2"
  shows "plan_direct codec url identity =
      (if validate_source_identity identity \<noteq> Inr () then Inl InvalidIdentity
       else if validate_direct_url url \<noteq> Inr () then Inl InvalidUrl
       else Inr (direct_plan url identity)) \<and>
    (\<forall>plan. plan_direct codec url identity = Inr plan \<longrightarrow> direct_plan_validate codec plan = Inr ())"
proof (cases "validate_source_identity identity = Inr () \<and> validate_direct_url url = Inr ()")
  case False
  then show ?thesis
    by (auto simp: plan_direct_def validate_source_identity_def validate_direct_url_def split: if_splits)
next
  case True
  then have ok: "validate_source_identity identity = Inr ()" "validate_direct_url url = Inr ()" by auto
  have "acquisition_validate (DirectUrl url) data_contract_limits_default = Inr ()"
    using url_no_control [OF assms(1) ok(2)] url_bounds [OF ok(2)]
    by (simp add: validate_data_text_def data_contract_limits_default_def)
  then have "plan_direct codec url identity = Inr (direct_plan url identity)"
    using ok direct_graph_ok [OF ok(1,2) assms] direct_plan_ok [OF ok(1,2) assms]
      derived_id [OF ok(1), of NodeId] derived_id [OF ok(1), of ItemId]
      derived_id [OF ok(1), of RepresentationId] derived_id [OF ok(1), of AssetId]
    by (simp add: plan_direct_def direct_plan_def Let_def)
  with ok direct_plan_ok [OF ok(1,2) assms] show ?thesis by simp
qed

definition sample_codec :: "unit json_codec" where
  "sample_codec = \<lparr> value_bytes = \<lambda>_. Some 4, map_bytes = \<lambda>m. Some (2 + length m) \<rparr>"

theorem direct_planning_total_witness:
  "plan_direct sample_codec ''http://a/b'' (replicate 64 CHR ''0'') =
     Inr (direct_plan ''http://a/b'' (replicate 64 CHR ''0'')) \<and>
   direct_plan_validate sample_codec (direct_plan ''http://a/b'' (replicate 64 CHR ''0'')) = Inr ()"
proof -
  have valid: "utf8_valid (map byte ''http://a/b'')"
    by (rule utf8_valid_ascii) (simp add: byte_def)
  have url: "validate_direct_url ''http://a/b'' = Inr ()"
    by (simp add: validate_direct_url_def chars_def utf8_chars.simps byte_def is_control_def
        is_whitespace_def url_authority_def strip_prefix_def starts_with_def)
  have identity: "validate_source_identity (replicate 64 CHR ''0'') = Inr ()"
    by (simp add: identity_ok_iff list_all_iff hex_char_def is_ascii_digit_def byte_def)
  show ?thesis
    using direct_planning_total [OF valid, of sample_codec "replicate 64 CHR ''0''"] url identity
    by (simp add: sample_codec_def)
qed

end
