(* ===== verification/Fetch_Engine.thy ===== *)
theory Fetch_Engine
  imports Direct_Plan Address_Policy Resource_Broker
begin

text \<open>
  The direct-media job (\<open>fforager-core/src/engine.rs\<close>) and its resource admission
  (\<open>fforager-core/src/admission.rs\<close>).

  The transport and storage adapters, the cancellation flag and the clock are the traits and the
  environment of the code: the fields of \<open>fetch_ports\<close>, over an environment that every call may
  change. A writer moves through the calls as the code moves it; \<open>download\<close> gets it mutably and
  returns it. The URL grammar and the selection come from the planning of a direct download.
\<close>

section \<open>Requests, results and ports\<close>

datatype FetchError =
    InvalidRequest string
  | Cancelled
  | TimedOut
  | Transport string
  | Storage string
  | LimitExceeded string

record FetchRequest =
  fq_url :: string
  fq_output :: string
  fq_state_dir :: string
  fq_max_bytes :: u64
  fq_timeout_ms :: u64
  fq_cancel_file :: "string option"
  fq_allowed_loopback :: "SocketAddr option"

record FetchResult =
  fr_job_id :: string
  fr_output :: string
  fr_bytes :: u64
  fr_sha256 :: string
  fr_archive_sequence :: u64
  fr_recovered :: bool

text \<open>Instants count nanoseconds.\<close>

record FetchControl =
  fc_deadline :: nat

record ('e, 'w) fetch_ports =
  load_cancel :: "'e \<Rightarrow> 'e \<times> bool"
  clock :: "'e \<Rightarrow> 'e \<times> nat"
  file_name :: "string \<Rightarrow> string option"
  recover :: "FetchRequest \<Rightarrow> FetchControl \<Rightarrow> 'e \<Rightarrow> 'e \<times> (FetchError + FetchResult option)"
  prepare :: "FetchRequest \<Rightarrow> FetchControl \<Rightarrow> 'e \<Rightarrow> 'e \<times> (FetchError + 'w)"
  source_identity :: "'w \<Rightarrow> 'e \<Rightarrow> 'e \<times> (FetchError + string)"
  download :: "FetchRequest \<Rightarrow> 'w \<Rightarrow> FetchControl \<Rightarrow> 'e \<Rightarrow> 'e \<times> 'w \<times> (FetchError + u64)"
  commit :: "FetchRequest \<Rightarrow> 'w \<Rightarrow> u64 \<Rightarrow> FetchControl \<Rightarrow> 'e \<Rightarrow> 'e \<times> (FetchError + FetchResult)"
  abort :: "'w \<Rightarrow> 'e \<Rightarrow> 'e \<times> (FetchError + unit)"

definition request_validate :: "(string \<Rightarrow> string option) \<Rightarrow> FetchRequest \<Rightarrow> FetchError + unit" where
  "request_validate file_name_of req =
     (if fq_url req = [] \<or> length (fq_url req) > 16 * 1024
      then Inl (InvalidRequest ''URL length is outside its bound'')
      else if file_name_of (fq_output req) = None \<or> fq_state_dir req = []
      then Inl (InvalidRequest ''output and state directory are required'')
      else if fq_max_bytes req = 0 \<or> fq_max_bytes req > 1024 ^ 4
        \<or> fq_timeout_ms req = 0 \<or> fq_timeout_ms req > 3600000
      then Inl (InvalidRequest ''byte or deadline limit is outside its bound'')
      else if (case fq_allowed_loopback req of
          None \<Rightarrow> False
        | Some address \<Rightarrow> \<not> is_loopback (sa_ip address) \<or> sa_port address = 0)
      then Inl (InvalidRequest ''loopback permission must name one loopback socket'')
      else Inr ())"

definition control_check :: "('e, 'w) fetch_ports \<Rightarrow> FetchControl \<Rightarrow> 'e \<Rightarrow> 'e \<times> (FetchError + unit)" where
  "control_check ports control e =
     (case load_cancel ports e of
        (e, True) \<Rightarrow> (e, Inl Cancelled)
      | (e, False) \<Rightarrow>
          (case clock ports e of
             (e, now) \<Rightarrow> (e, if now \<ge> fc_deadline control then Inl TimedOut else Inr ())))"

section \<open>Messages\<close>

fun show_fetch_error :: "FetchError \<Rightarrow> string" where
  "show_fetch_error (InvalidRequest detail) = ''invalid_request: '' @ detail"
| "show_fetch_error Cancelled = ''cancelled''"
| "show_fetch_error TimedOut = ''timed_out''"
| "show_fetch_error (Transport detail) = ''transport: '' @ detail"
| "show_fetch_error (Storage detail) = ''storage: '' @ detail"
| "show_fetch_error (LimitExceeded detail) = ''byte_limit_exceeded: '' @ detail"

fun show_plan_error :: "DirectPlanError \<Rightarrow> string" where
  "show_plan_error InvalidIdentity = ''FF-DIRECT-E-PLAN: source identity must be 64 lowercase hexadecimal characters''"
| "show_plan_error InvalidUrl = ''FF-DIRECT-E-PLAN: direct acquisition requires a bounded HTTP(S) URL without credentials or fragments''"
| "show_plan_error (Identity e) = ''FF-DIRECT-E-PLAN: derived identity violates the canonical identifier contract''"
| "show_plan_error (Graph e) = ''FF-DIRECT-E-PLAN: direct source graph violates its canonical contract''"
| "show_plan_error (Acquisition e) = ''FF-DIRECT-E-PLAN: direct acquisition violates its canonical contract''"
| "show_plan_error Selection = ''FF-DIRECT-E-PLAN: selected representation and asset do not belong to the single source''"

section \<open>One job\<close>

definition cleanup_result :: "FetchError \<Rightarrow> FetchError + unit \<Rightarrow> FetchError + 'a" where
  "cleanup_result primary outcome =
     (case outcome of
        Inr _ \<Rightarrow> Inl primary
      | Inl secondary \<Rightarrow> Inl (Storage
          (''primary='' @ show_fetch_error primary @ ''; cleanup='' @ show_fetch_error secondary)))"

definition abort_with ::
  "('e, 'w) fetch_ports \<Rightarrow> 'w \<Rightarrow> FetchError \<Rightarrow> 'e \<Rightarrow> 'e \<times> (FetchError + 'a)" where
  "abort_with ports staged primary e =
     (case abort ports staged e of (e, outcome) \<Rightarrow> (e, cleanup_result primary outcome))"

text \<open>The planning closure: the request with the URL of the selected acquisition.\<close>

definition planning ::
  "'json json_codec \<Rightarrow> ('e, 'w) fetch_ports \<Rightarrow> FetchRequest \<Rightarrow> FetchControl \<Rightarrow> 'w \<Rightarrow> 'e
   \<Rightarrow> 'e \<times> (FetchError + FetchRequest)" where
  "planning codec ports req control staged e =
     (case control_check ports control e of
        (e, Inl error) \<Rightarrow> (e, Inl error)
      | (e, Inr _) \<Rightarrow>
          (case source_identity ports staged e of
             (e, Inl error) \<Rightarrow> (e, Inl error)
           | (e, Inr identity) \<Rightarrow> (e,
               rbind (map_err (\<lambda>error. InvalidRequest (show_plan_error error))
                 (plan_direct codec (fq_url req) identity)) (\<lambda>plan.
               case dp_acquisition plan of
                 DirectUrl url \<Rightarrow> Inr (req\<lparr> fq_url := url \<rparr>)
               | _ \<Rightarrow> Inl (InvalidRequest ''direct acquisition plan required'')))))"

definition settle_transfer ::
  "('e, 'w) fetch_ports \<Rightarrow> FetchRequest \<Rightarrow> FetchControl \<Rightarrow> 'w \<Rightarrow> FetchError + u64 \<Rightarrow> 'e
   \<Rightarrow> 'e \<times> (FetchError + FetchResult)" where
  "settle_transfer ports req control staged transfer e =
     (case transfer of
        Inl primary \<Rightarrow> abort_with ports staged primary e
      | Inr bytes \<Rightarrow>
          let (e, accepted) = (if bytes > 0 \<and> bytes \<le> fq_max_bytes req
              then map_prod (\<lambda>e. e) is_ok (control_check ports control e) else (e, False))
          in if accepted then commit ports req staged bytes control e
             else (case control_check ports control e of
               (e, Inl primary) \<Rightarrow> abort_with ports staged primary e
             | (e, Inr _) \<Rightarrow> abort_with ports staged
                 (if bytes = 0 then Transport ''empty direct-media response''
                  else LimitExceeded ''transport receipt exceeds admitted bytes'') e))"

definition fetch_inner ::
  "'json json_codec \<Rightarrow> ('e, 'w) fetch_ports \<Rightarrow> FetchRequest \<Rightarrow> 'e \<Rightarrow> 'e \<times> (FetchError + FetchResult)" where
  "fetch_inner codec ports req e =
     (case request_validate (file_name ports) req of
        Inl error \<Rightarrow> (e, Inl error)
      | Inr _ \<Rightarrow>
          (case clock ports e of (e, now) \<Rightarrow>
           let control = \<lparr> fc_deadline = now + unat (fq_timeout_ms req) * 1000000 \<rparr> in
           (case control_check ports control e of
              (e, Inl error) \<Rightarrow> (e, Inl error)
            | (e, Inr _) \<Rightarrow>
                (case recover ports req control e of
                   (e, Inl error) \<Rightarrow> (e, Inl error)
                 | (e, Inr (Some recovered)) \<Rightarrow> (e, Inr recovered)
                 | (e, Inr None) \<Rightarrow>
                     (case prepare ports req control e of
                        (e, Inl error) \<Rightarrow> (e, Inl error)
                      | (e, Inr staged) \<Rightarrow>
                          (case planning codec ports req control staged e of
                             (e, Inl primary) \<Rightarrow> abort_with ports staged primary e
                           | (e, Inr selected) \<Rightarrow>
                               (case download ports selected staged control e of
                                  (e, staged, transfer) \<Rightarrow>
                                    settle_transfer ports req control staged transfer e)))))))"

section \<open>The order of effects\<close>

text \<open>The same ports, writing down each effect on the storage and the network and what came of it.\<close>

datatype 'w fetch_event =
    Recovering "FetchError + FetchResult option"
  | Prepared 'w
  | Downloading string 'w 'w "FetchError + u64"
  | Committing 'w u64 "FetchError + FetchResult"
  | Aborting 'w

definition logged :: "('e, 'w) fetch_ports \<Rightarrow> ('e \<times> 'w fetch_event list, 'w) fetch_ports" where
  "logged ports = \<lparr>
     load_cancel = (\<lambda>(e, log). case load_cancel ports e of (e, r) \<Rightarrow> ((e, log), r)),
     clock = (\<lambda>(e, log). case clock ports e of (e, r) \<Rightarrow> ((e, log), r)),
     file_name = file_name ports,
     recover = (\<lambda>req control (e, log). case recover ports req control e of
       (e, r) \<Rightarrow> ((e, log @ [Recovering r]), r)),
     prepare = (\<lambda>req control (e, log). case prepare ports req control e of
       (e, r) \<Rightarrow> ((e, case r of Inl _ \<Rightarrow> log | Inr w \<Rightarrow> log @ [Prepared w]), r)),
     source_identity = (\<lambda>w (e, log). case source_identity ports w e of (e, r) \<Rightarrow> ((e, log), r)),
     download = (\<lambda>req w control (e, log). case download ports req w control e of
       (e, w', r) \<Rightarrow> ((e, log @ [Downloading (fq_url req) w w' r]), w', r)),
     commit = (\<lambda>req w n control (e, log). case commit ports req w n control e of
       (e, r) \<Rightarrow> ((e, log @ [Committing w n r]), r)),
     abort = (\<lambda>w (e, log). case abort ports w e of (e, r) \<Rightarrow> ((e, log @ [Aborting w]), r)) \<rparr>"

text \<open>
  The runs that are allowed: nothing at all; recovery alone; a writer prepared after recovery found
  nothing and aborted before any transfer; a transfer of the planned URL into that writer, which is
  then aborted, or committed with the received number of bytes.
\<close>

inductive orderly :: "FetchRequest \<Rightarrow> 'w fetch_event list \<Rightarrow> FetchError + FetchResult \<Rightarrow> bool"
  for req where
  refused: "orderly req [] (Inl error)"
| recovery_failed: "orderly req [Recovering (Inl error)] (Inl error)"
| recovered: "orderly req [Recovering (Inr (Some found))] (Inr found)"
| not_prepared: "orderly req [Recovering (Inr None)] (Inl error)"
| not_planned: "orderly req [Recovering (Inr None), Prepared w, Aborting w] (Inl error)"
| not_delivered: "validate_direct_url (fq_url req) = Inr () \<Longrightarrow>
    orderly req [Recovering (Inr None), Prepared w, Downloading (fq_url req) w w' transfer, Aborting w']
      (Inl error)"
| committed: "validate_direct_url (fq_url req) = Inr () \<Longrightarrow> 0 < n \<Longrightarrow> n \<le> fq_max_bytes req \<Longrightarrow>
    orderly req [Recovering (Inr None), Prepared w, Downloading (fq_url req) w w' (Inr n),
      Committing w' n outcome] outcome"

lemma control_check_logged:
  "control_check (logged ports) control (e, log) =
     (case control_check ports control e of (e, r) \<Rightarrow> ((e, log), r))"
  by (auto simp: control_check_def logged_def split: prod.splits bool.splits)

lemma abort_with_logged:
  "abort_with (logged ports) staged primary (e, log) =
     (case abort_with ports staged primary e of (e, r) \<Rightarrow> ((e, log @ [Aborting staged]), r))"
  by (auto simp: abort_with_def logged_def split: prod.splits)

lemma abort_with_eq: "abort_with ports staged primary e = (e', r) \<Longrightarrow> \<exists>error. r = Inl error"
  by (auto simp: abort_with_def cleanup_result_def split: prod.splits sum.splits)

lemma abort_with_fails: "\<exists>error. snd (abort_with ports staged primary e) = Inl error"
  by (auto simp: abort_with_def cleanup_result_def split: prod.splits sum.splits)

lemma planning_logged:
  "planning codec (logged ports) req control staged (e, log) =
     (case planning codec ports req control staged e of (e, r) \<Rightarrow> ((e, log), r))"
  by (auto simp: planning_def control_check_logged split: prod.splits sum.splits)
    (auto simp: logged_def)

lemma plan_direct_url:
  "plan_direct codec url identity = Inr plan \<Longrightarrow>
     dp_acquisition plan = DirectUrl url \<and> validate_direct_url url = Inr ()"
  by (auto simp: plan_direct_def result_simps Let_def)

lemma planning_selects:
  "planning codec ports req control staged e = (e', Inr selected) \<Longrightarrow>
     fq_url selected = fq_url req \<and> validate_direct_url (fq_url req) = Inr ()"
proof -
  assume "planning codec ports req control staged e = (e', Inr selected)"
  then obtain identity plan where plan: "plan_direct codec (fq_url req) identity = Inr plan"
      "(case dp_acquisition plan of DirectUrl url \<Rightarrow> Inr (req\<lparr> fq_url := url \<rparr>)
        | _ \<Rightarrow> Inl (InvalidRequest ''direct acquisition plan required'')) = Inr selected"
    by (auto simp: planning_def rbind_eq_Inr_iff map_err_eq_Inr_iff split: prod.splits sum.splits)
  with plan_direct_url [OF plan(1)] show ?thesis by auto
qed

lemma settle_transfer_logged:
  "\<exists>suffix. settle_transfer (logged ports) req control w' transfer (e, log) =
      (case settle_transfer ports req control w' transfer e of (e, r) \<Rightarrow> ((e, log @ suffix), r)) \<and>
    ((suffix = [Aborting w'] \<and> (\<exists>error. snd (settle_transfer ports req control w' transfer e) = Inl error)) \<or>
     (\<exists>n. transfer = Inr n \<and> 0 < n \<and> n \<le> fq_max_bytes req \<and>
       suffix = [Committing w' n (snd (settle_transfer ports req control w' transfer e))]))"
proof (cases transfer)
  case (Inl primary)
  then show ?thesis
    by (auto simp: settle_transfer_def abort_with_logged split: prod.splits intro: abort_with_fails)
next
  case (Inr n)
  obtain e1 r1 where first: "(if n > 0 \<and> n \<le> fq_max_bytes req
      then map_prod (\<lambda>e. e) is_ok (control_check ports control e) else (e, False)) = (e1, r1)"
    by fastforce
  have first': "(if n > 0 \<and> n \<le> fq_max_bytes req
      then map_prod (\<lambda>e. e) is_ok (control_check (logged ports) control (e, log))
      else ((e, log), False)) = ((e1, log), r1)"
    using first by (auto simp: control_check_logged split: if_splits prod.splits)
  show ?thesis
  proof (cases r1)
    case True
    then have "0 < n" "n \<le> fq_max_bytes req" using first by (auto split: if_splits)
    with True Inr first first' show ?thesis
      by (auto simp: settle_transfer_def logged_def split: prod.splits)
  next
    case False
    with Inr first first' show ?thesis
      by (auto simp: settle_transfer_def control_check_logged abort_with_logged
          split: prod.splits sum.splits dest!: abort_with_eq)
  qed
qed

lemma fetch_inner_logged:
  "\<exists>suffix. fetch_inner codec (logged ports) req (e, []) =
      (case fetch_inner codec ports req e of (e, r) \<Rightarrow> ((e, suffix), r)) \<and>
    orderly req suffix (snd (fetch_inner codec ports req e))"
proof (cases "request_validate (file_name ports) req")
  case (Inl error)
  then show ?thesis
    by (intro exI [of _ "[]"]) (simp add: fetch_inner_def logged_def orderly.refused)
next
  case (Inr u)
  obtain e0 now where clock: "clock ports e = (e0, now)" by fastforce
  then have clock': "clock (logged ports) (e, []) = ((e0, []), now)" by (simp add: logged_def)
  let ?control = "\<lparr> fc_deadline = now + unat (fq_timeout_ms req) * 1000000 \<rparr>"
  obtain e1 checked where check: "control_check ports ?control e0 = (e1, checked)" by fastforce
  note head_simps = fetch_inner_def Inr clock clock' check control_check_logged
  have names: "file_name (logged ports) = file_name ports" by (simp add: logged_def)
  show ?thesis
  proof (cases checked)
    case (Inl error)
    then show ?thesis
      by (intro exI [of _ "[]"]) (simp add: head_simps names orderly.refused)
  next
    case checked: (Inr u)
    obtain e2 found where recover: "recover ports req ?control e1 = (e2, found)" by fastforce
    then have recover': "recover (logged ports) req ?control (e1, []) = ((e2, [Recovering found]), found)"
      by (simp add: logged_def)
    consider error where "found = Inl error" | r where "found = Inr (Some r)" | "found = Inr None"
      by (metis option.exhaust sum.exhaust)
    then show ?thesis
    proof cases
      case 1
      then show ?thesis
        by (intro exI [of _ "[Recovering found]"])
          (simp add: head_simps names checked recover recover' orderly.recovery_failed)
    next
      case 2
      then show ?thesis
        by (intro exI [of _ "[Recovering found]"])
          (simp add: head_simps names checked recover recover' orderly.recovered)
    next
      case 3
      note recovery_simps = head_simps names checked recover recover' 3
      obtain e3 w where prepare: "prepare ports req ?control e2 = (e3, w)" by fastforce
      show ?thesis
      proof (cases w)
        case (Inl error)
        with prepare show ?thesis
          by (intro exI [of _ "[Recovering (Inr None)]"])
            (simp add: recovery_simps orderly.not_prepared, simp add: logged_def)
      next
        case w: (Inr staged)
        let ?before = "[Recovering (Inr None), Prepared staged]"
        have prepare': "prepare (logged ports) req ?control (e2, [Recovering (Inr None)]) =
            ((e3, ?before), Inr staged)"
          using prepare w by (simp add: logged_def)
        obtain e4 planned where planned: "planning codec ports req ?control staged e3 = (e4, planned)"
          by fastforce
        then have planned': "planning codec (logged ports) req ?control staged (e3, ?before) =
            ((e4, ?before), planned)"
          by (simp add: planning_logged)
        note prepare_simps = recovery_simps prepare prepare' w planned planned'
        show ?thesis
        proof (cases planned)
          case (Inl primary)
          obtain e5 r where stopped: "abort_with ports staged primary e4 = (e5, r :: FetchError + FetchResult)"
            by fastforce
          obtain error where "r = Inl error" using abort_with_eq [OF stopped] by blast
          with stopped Inl show ?thesis
            by (intro exI [of _ "?before @ [Aborting staged]"])
              (auto simp: prepare_simps abort_with_logged intro: orderly.not_planned split: prod.splits)
        next
          case selected: (Inr selected)
          obtain e5 w' transfer where transfer: "download ports selected staged ?control e4 = (e5, w', transfer)"
            by (metis prod_cases3)
          let ?during = "?before @ [Downloading (fq_url selected) staged w' transfer]"
          have transfer': "download (logged ports) selected staged ?control (e4, ?before) =
              ((e5, ?during), w', transfer)"
            using transfer by (simp add: logged_def)
          note url = planning_selects [OF planned [unfolded selected]]
          from settle_transfer_logged [of ports req ?control w' transfer e5 ?during]
          obtain suffix where settle:
            "settle_transfer (logged ports) req ?control w' transfer (e5, ?during) =
              (case settle_transfer ports req ?control w' transfer e5 of (e, r) \<Rightarrow> ((e, ?during @ suffix), r))"
            and how: "(suffix = [Aborting w'] \<and>
                (\<exists>error. snd (settle_transfer ports req ?control w' transfer e5) = Inl error)) \<or>
              (\<exists>n. transfer = Inr n \<and> 0 < n \<and> n \<le> fq_max_bytes req \<and>
                suffix = [Committing w' n (snd (settle_transfer ports req ?control w' transfer e5))])"
            by blast
          have "orderly req (?during @ suffix) (snd (settle_transfer ports req ?control w' transfer e5))"
            using how url by (auto intro: orderly.not_delivered orderly.committed)
          moreover have "fetch_inner codec ports req e = settle_transfer ports req ?control w' transfer e5"
            "fetch_inner codec (logged ports) req (e, []) =
               settle_transfer (logged ports) req ?control w' transfer (e5, ?during)"
            using selected transfer transfer' by (simp_all add: prepare_simps)
          ultimately show ?thesis using settle by auto
        qed
      qed
    qed
  qed
qed

section \<open>Resource admission of a job\<close>

text \<open>The printed forms of ledger errors and results are derived code.\<close>

record ledger_debug =
  show_ledger_error :: "LedgerError \<Rightarrow> string"
  show_cancellation :: "LedgerError + WaiterId list \<Rightarrow> string"
  show_verification :: "LedgerError + unit \<Rightarrow> string"

definition fetch_resources :: ResourceVector where
  "fetch_resources = \<lparr> metadata_requests = 0, media_requests = 1, memory_bytes = 2 * 1024 * 1024,
     disk_read_bytes_in_flight = 64 * 1024, disk_write_bytes_in_flight = 64 * 1024,
     open_handles = 128, cpu_light_slots = 2, cpu_heavy_slots = 0, javascript_workers = 0,
     ffmpeg_processes = 0, ffmpeg_cpu_threads = 0, archive_writer_slots = 1, sink_bytes = 64 * 1024 \<rparr>"

text \<open>The caller keeps the broker alive, so a consumed handle always finds its state.\<close>

definition kept :: "OwnedResourceState \<Rightarrow> OwnedResourceState option \<Rightarrow> OwnedResourceState" where
  "kept broker st = (case st of None \<Rightarrow> broker | Some s \<Rightarrow> s)"

definition with_fetch_resources ::
  "ledger_debug \<Rightarrow> ('e \<Rightarrow> 'e \<times> (FetchError + 'a)) \<Rightarrow> 'e \<Rightarrow> 'e \<times> (FetchError + 'a)" where
  "with_fetch_resources debug operation e =
     (case broker_from_contract (resource_contract_new fetch_resources 1 1 0 0) of
        Inl error \<Rightarrow> (e, Inl (Storage (''resource contract rejected: '' @ show_ledger_error debug error)))
      | Inr broker \<Rightarrow>
          (case broker_request broker 1 fetch_resources of
             Inl error \<Rightarrow>
               (e, Inl (Storage (''atomic resource admission rejected: '' @ show_ledger_error debug error)))
           | Inr (broker, OwnedQueued waiter) \<Rightarrow>
               (case waiter_cancel (Some broker) waiter of (st, cancelled) \<Rightarrow>
                 (e, Inl (Storage (''queuing is disabled for a single fetch; cancellation=''
                   @ show_cancellation debug cancelled @ ''; ledger=''
                   @ show_verification debug (broker_verify (kept broker st))))))
           | Inr (broker, OwnedGranted held) \<Rightarrow>
               (case operation e of (e, result) \<Rightarrow>
                 (case lease_release (Some broker) held of (st, released) \<Rightarrow>
                   let broker = kept broker st; verified = broker_verify broker in
                   (e, case released of
                      Inl error \<Rightarrow>
                        Inl (Storage (''resource release was not acknowledged: '' @ show_ledger_error debug error))
                    | Inr _ \<Rightarrow>
                        (case verified of
                           Inl error \<Rightarrow>
                             Inl (Storage (''resource ledger failed after release: '' @ show_ledger_error debug error))
                         | Inr _ \<Rightarrow>
                             if rl_in_use (os_ledger broker) \<noteq> rv_default
                                \<or> length (rl_active (os_ledger broker)) \<noteq> 0
                                \<or> (length (rl_waiters (os_ledger broker)), rl_waiter_bytes (os_ledger broker)) \<noteq> (0, 0)
                                \<or> map fst (os_ready broker) \<noteq> []
                             then Inl (Storage ''resource ownership remains after fetch release'')
                             else result))))))"

definition fetch ::
  "ledger_debug \<Rightarrow> 'json json_codec \<Rightarrow> ('e, 'w) fetch_ports \<Rightarrow> FetchRequest \<Rightarrow> 'e \<Rightarrow> 'e \<times> (FetchError + FetchResult)" where
  "fetch debug codec ports req e = with_fetch_resources debug (fetch_inner codec ports req) e"

definition fetch_broker :: OwnedResourceState where
  "fetch_broker =
     \<lparr> os_ledger = \<lparr> rl_capacity = fetch_resources, rl_in_use = rv_default, rl_active = [],
         rl_waiters = [], rl_max_active_grants = 1, rl_max_active_per_owner = 1,
         rl_max_waiters = 0, rl_max_waiter_bytes = 0, rl_waiter_bytes = 0,
         rl_next_grant = 1, rl_next_waiter = 1 \<rparr>, os_ready = [] \<rparr>"

lemma fetch_broker_contract:
  "broker_from_contract (resource_contract_new fetch_resources 1 1 0 0) = Inr fetch_broker"
  by (simp add: broker_from_contract_def ledger_from_contract_def resource_contract_new_def
      resource_contract_validate_def new_with_owner_ceiling_def fetch_broker_def)

lemma fetch_admission_runs:
  "(case broker_request fetch_broker 1 fetch_resources of
      Inr (broker, OwnedGranted held) \<Rightarrow>
        (case lease_release (Some broker) held of
           (Some broker, Inr ready) \<Rightarrow> ready = [] \<and> broker_verify broker = Inr () \<and>
             rl_in_use (os_ledger broker) = rv_default \<and> rl_active (os_ledger broker) = [] \<and>
             rl_waiters (os_ledger broker) = [] \<and> rl_waiter_bytes (os_ledger broker) = 0 \<and>
             os_ready broker = []
         | _ \<Rightarrow> False)
    | _ \<Rightarrow> False)"
  by code_simp

lemma with_fetch_resources_transparent: "with_fetch_resources debug operation e = operation e"
  using fetch_admission_runs
  by (auto simp: with_fetch_resources_def fetch_broker_contract kept_def
      split: sum.splits prod.splits OwnedAdmission.splits option.splits)

text \<open>
  The resource accounting of a job never gets in its way. Whatever the job does, the one-job
  contract is accepted, its whole vector is granted at once, the release is acknowledged and leaves
  an empty, verified ledger: admission runs the job exactly once and returns exactly its result.
\<close>

theorem fetch_admission_transparent: "fetch debug codec ports req e = fetch_inner codec ports req e"
  by (simp add: fetch_def with_fetch_resources_transparent)

text \<open>
  C28: Whatever the adapters, the clock and the cancellation flag do, a job has one of seven shapes.
  It does nothing, recovers, or prepares a writer only after recovery found nothing; a prepared
  writer is transferred into at most once, after planning accepted the URL and with that URL, and
  ends either aborted, with an error, or committed, with the number of bytes the transfer reported,
  which is positive and within the request; and the result of the job is the outcome of the commit
  or of the recovery. Writing the effects down changes nothing.
\<close>

theorem fetch_effects_orderly:
  "\<exists>log. fetch debug codec (logged ports) req (e, []) =
      (case fetch debug codec ports req e of (e', r) \<Rightarrow> ((e', log), r)) \<and>
    orderly req log (snd (fetch debug codec ports req e))"
  unfolding fetch_def with_fetch_resources_transparent by (rule fetch_inner_logged)

end
