(* ===== verification/Diagnostic_Values.thy ===== *)
theory Diagnostic_Values
  imports Contract_Identity
begin

text \<open>
  The vocabulary of the diagnostics contract (\<open>fforager-diagnostics-contract/src\<close>): its errors
  (\<open>error.rs\<close>), bounded identifiers and text (\<open>ids.rs\<close>), and the event taxonomy with its admission
  policies (\<open>event.rs\<close>).

  The newtypes of \<open>ids.rs\<close> have no other constructor than the checked one, also on the wire. Here
  their values are plain strings; \<open>identifier_ok\<close> and \<open>text_ok\<close> state what the constructors admit.
\<close>

section \<open>Limits and errors\<close>

definition MAX_TEXT_BYTES :: usize where "MAX_TEXT_BYTES = 4096"
definition MAX_ID_BYTES :: usize where "MAX_ID_BYTES = 128"
definition MAX_FIELDS :: usize where "MAX_FIELDS = 64"
definition MAX_SCHEMA_IDENTITIES :: usize where "MAX_SCHEMA_IDENTITIES = 16"
definition MAX_HEALTH_LOOPS :: usize where "MAX_HEALTH_LOOPS = 32"
definition MAX_FRAME_BYTES :: usize where "MAX_FRAME_BYTES = 256 * 1024"
definition MAX_OPAQUE_VALUE_BYTES :: usize where "MAX_OPAQUE_VALUE_BYTES = 8192"
definition FIRST_SEQUENCE :: u64 where "FIRST_SEQUENCE = 1"
definition LAST_SEQUENCE :: u64 where "LAST_SEQUENCE = - 1"

lemmas diagnostic_limits = MAX_TEXT_BYTES_def MAX_ID_BYTES_def MAX_FIELDS_def
  MAX_SCHEMA_IDENTITIES_def MAX_HEALTH_LOOPS_def MAX_FRAME_BYTES_def MAX_OPAQUE_VALUE_BYTES_def

datatype LimitKind = Identifier | Text | Fields | Frame | OpaqueValue | SchemaSet | Loops

datatype SequenceFault =
    InvalidStart
  | Duplicate
  | Reordered
  | Gap
  | IdentityChanged
  | DurableAheadOfAdmitted
  | DurableReordered
  | ReplayOutsideWindow
  | Exhausted

datatype ContractError =
    Empty string
  | LimitExceeded LimitKind usize usize
  | InvalidIdentifier string
  | InvalidSchemaHash
  | InvalidRange
  | IncompatibleMajor
  | NoCompatibleMinor
  | SchemaIncompatible
  | UnknownMandatoryKind
  | IllegalEventPolicy
  | PrivacyViolation
  | DuplicateField
  | DuplicateSchema
  | Sequence SequenceFault
  | InvalidTransition
  | MissingReadyEvidence
  | CounterInvariant
  | PartialFrame
  | MalformedFrame
  | RetentionTerminal

section \<open>Identifiers and text\<close>

definition is_ascii_uppercase :: "u8 \<Rightarrow> bool" where
  "is_ascii_uppercase b = (0x41 \<le> b \<and> b \<le> 0x5A)"

definition identifier_char :: "char \<Rightarrow> bool" where
  "identifier_char c = (is_ascii_lowercase (byte c) \<or> is_ascii_uppercase (byte c)
     \<or> is_ascii_digit (byte c)
     \<or> c \<in> {CHR ''-'', CHR ''_'', CHR ''.'', CHR '':'', CHR ''/''})"

definition validate_identifier :: "string \<Rightarrow> string \<Rightarrow> ContractError + unit" where
  "validate_identifier val field =
     (if val = [] then Inl (Empty field)
      else if length val > MAX_ID_BYTES
      then Inl (LimitExceeded Identifier MAX_ID_BYTES (length val))
      else if \<not> list_all identifier_char val then Inl (InvalidIdentifier field)
      else Inr ())"

text \<open>The types the macro \<open>identifier!\<close> declares, with the field name each reports.\<close>

datatype identifier_type =
    ProducerInstanceId | BootSessionId | ChannelId | CapabilityId | ArtifactId | BuildId
  | ProcessStartId | EventId | ReasonCode | RequestId | WorkId

fun identifier_field :: "identifier_type \<Rightarrow> string" where
  "identifier_field ProducerInstanceId = ''producer_instance''"
| "identifier_field BootSessionId = ''boot_session''"
| "identifier_field ChannelId = ''channel''"
| "identifier_field CapabilityId = ''capability_id''"
| "identifier_field ArtifactId = ''artifact_id''"
| "identifier_field BuildId = ''build_id''"
| "identifier_field ProcessStartId = ''process_start_id''"
| "identifier_field EventId = ''event_id''"
| "identifier_field ReasonCode = ''reason_code''"
| "identifier_field RequestId = ''request_id''"
| "identifier_field WorkId = ''work_id''"

definition identifier_new :: "identifier_type \<Rightarrow> string \<Rightarrow> ContractError + string" where
  "identifier_new kind val =
     rbind (validate_identifier val (identifier_field kind)) (\<lambda>_. Inr val)"

definition bounded_text_new :: "string \<Rightarrow> ContractError + string" where
  "bounded_text_new val =
     (if val = [] then Inl (Empty ''text'')
      else if length val > MAX_TEXT_BYTES
      then Inl (LimitExceeded Text MAX_TEXT_BYTES (length val))
      else Inr val)"

definition identifier_ok :: "string \<Rightarrow> bool" where
  "identifier_ok s = (s \<noteq> [] \<and> length s \<le> 128 \<and> list_all identifier_char s)"

definition text_ok :: "string \<Rightarrow> bool" where
  "text_ok s = (s \<noteq> [] \<and> length s \<le> 4096)"

lemma validate_identifier_ok [result_simps]:
  "validate_identifier s field = Inr u \<longleftrightarrow> identifier_ok s"
  by (auto simp: validate_identifier_def identifier_ok_def MAX_ID_BYTES_def)

lemma identifier_new_ok [result_simps]: "identifier_new kind s = Inr t \<longleftrightarrow> t = s \<and> identifier_ok s"
  by (auto simp: identifier_new_def result_simps)

lemma bounded_text_new_ok [result_simps]: "bounded_text_new s = Inr t \<longleftrightarrow> t = s \<and> text_ok s"
  by (auto simp: bounded_text_new_def text_ok_def MAX_TEXT_BYTES_def)

section \<open>Events\<close>

datatype Criticality = LossyTelemetry | Normal | Critical

datatype DiagnosticSensitivity = Public | Internal | Secret

text \<open>The derived order is the order of the constructors.\<close>

fun sensitivity_rank :: "DiagnosticSensitivity \<Rightarrow> nat" where
  "sensitivity_rank Public = 0"
| "sensitivity_rank Internal = 1"
| "sensitivity_rank Secret = 2"

lemma sensitivity_rank_inj: "sensitivity_rank a = sensitivity_rank b \<longleftrightarrow> a = b"
  by (cases a; cases b) simp_all

instantiation DiagnosticSensitivity :: linorder
begin

definition less_eq_DiagnosticSensitivity :: "DiagnosticSensitivity \<Rightarrow> DiagnosticSensitivity \<Rightarrow> bool" where
  "less_eq_DiagnosticSensitivity a b = (sensitivity_rank a \<le> sensitivity_rank b)"

definition less_DiagnosticSensitivity :: "DiagnosticSensitivity \<Rightarrow> DiagnosticSensitivity \<Rightarrow> bool" where
  "less_DiagnosticSensitivity a b = (sensitivity_rank a < sensitivity_rank b)"

instance
  by standard
    (auto simp: less_eq_DiagnosticSensitivity_def less_DiagnosticSensitivity_def
      simp flip: sensitivity_rank_inj)

end

datatype WatcherPolicy = DurableCritical | PersistRedacted | DropWithCounter | Reject

datatype EventKind =
    JobStateChanged
  | ExtractorSelected
  | RequestStarted
  | RequestCompleted
  | RetryScheduled
  | FragmentCompleted
  | ThroughputSample
  | QueuePressure
  | JavascriptWorkerAction
  | FfmpegPlan
  | FfmpegStatus
  | OutputCommitted
  | Warning
  | Error
  | Terminal
  | Crash
  | InvariantBreach
  | ProducerCanary
  | WatcherCanary
  | ProcessExitObserved
  | GapMarker
  | Unknown string bool

definition requires_critical_lane :: "EventKind \<Rightarrow> bool" where
  "requires_critical_lane kind =
     (kind \<in> {Terminal, Crash, InvariantBreach, ProcessExitObserved, GapMarker})"

definition is_declared_lossy :: "EventKind \<Rightarrow> bool" where
  "is_declared_lossy kind = (kind \<in> {ThroughputSample, QueuePressure})"

fun is_unknown_mandatory :: "EventKind \<Rightarrow> bool" where
  "is_unknown_mandatory (Unknown _ mandatory) = mandatory"
| "is_unknown_mandatory _ = False"

fun is_unknown_optional :: "EventKind \<Rightarrow> bool" where
  "is_unknown_optional (Unknown _ mandatory) = (\<not> mandatory)"
| "is_unknown_optional _ = False"

record EventDescriptor =
  ed_stable_id :: string
  ed_kind :: EventKind
  ed_criticality :: Criticality
  ed_sensitivity :: DiagnosticSensitivity
  ed_watcher_policy :: WatcherPolicy

definition descriptor_validate :: "EventDescriptor \<Rightarrow> ContractError + unit" where
  "descriptor_validate d =
     (if is_unknown_mandatory (ed_kind d) then Inl UnknownMandatoryKind
      else if requires_critical_lane (ed_kind d)
        \<and> (ed_criticality d \<noteq> Critical \<or> ed_watcher_policy d \<noteq> DurableCritical)
      then Inl IllegalEventPolicy
      else if ed_watcher_policy d = DropWithCounter
        \<and> (\<not> is_declared_lossy (ed_kind d) \<or> ed_criticality d \<noteq> LossyTelemetry)
      then Inl IllegalEventPolicy
      else if ed_watcher_policy d = Reject then Inl IllegalEventPolicy
      else if ed_criticality d = Critical \<and> ed_watcher_policy d \<noteq> DurableCritical
      then Inl IllegalEventPolicy
      else if is_unknown_optional (ed_kind d) \<and> ed_watcher_policy d = DurableCritical
      then Inl IllegalEventPolicy
      else Inr ())"

definition descriptor_new ::
  "string \<Rightarrow> EventKind \<Rightarrow> Criticality \<Rightarrow> DiagnosticSensitivity \<Rightarrow> WatcherPolicy
    \<Rightarrow> ContractError + EventDescriptor" where
  "descriptor_new stable_id kind criticality sensitivity watcher_policy =
     (let d = \<lparr> ed_stable_id = stable_id, ed_kind = kind, ed_criticality = criticality,
        ed_sensitivity = sensitivity, ed_watcher_policy = watcher_policy \<rparr>
      in rbind (descriptor_validate d) (\<lambda>_. Inr d))"

text \<open>
  The policies an accepted descriptor may declare, by cases on the policy: critical events are
  durable, and only declared lossy telemetry may be dropped.
\<close>

fun policy_legal :: "EventKind \<Rightarrow> Criticality \<Rightarrow> WatcherPolicy \<Rightarrow> bool" where
  "policy_legal kind criticality DurableCritical = (case kind of Unknown _ _ \<Rightarrow> False | _ \<Rightarrow> True)"
| "policy_legal kind criticality PersistRedacted =
     (criticality \<noteq> Critical \<and> \<not> requires_critical_lane kind \<and> \<not> is_unknown_mandatory kind)"
| "policy_legal kind criticality DropWithCounter =
     (criticality = LossyTelemetry \<and> is_declared_lossy kind)"
| "policy_legal kind criticality Reject = False"

definition descriptor_legal :: "EventDescriptor \<Rightarrow> bool" where
  "descriptor_legal d = (policy_legal (ed_kind d) (ed_criticality d) (ed_watcher_policy d)
     \<and> (if requires_critical_lane (ed_kind d) then ed_criticality d = Critical else True))"

lemma descriptor_validate_ok [result_simps]:
  "descriptor_validate d = Inr u \<longleftrightarrow> descriptor_legal d"
  by (cases "ed_watcher_policy d"; cases "ed_kind d")
    (auto simp: descriptor_validate_def descriptor_legal_def requires_critical_lane_def
      is_declared_lossy_def)

end
