(* ===== verification/Negotiation.thy ===== *)
theory Negotiation
  imports Diagnostic_Values
begin

text \<open>
  Protocol and schema negotiation between a diagnostic producer and its watcher
  (\<open>fforager-diagnostics-contract/src/protocol.rs\<close>): versions, minor ranges, schema identities, the
  local registry of reviewed schema transitions, offers and their negotiation.

  The registry that is shipped is empty; the crate's checked constructor for another one is modelled
  with the conditions it imposes.
\<close>

section \<open>Versions and schemas\<close>

record ProtocolVersion =
  pv_major :: u16
  pv_minor :: u16

definition version_new :: "u16 \<Rightarrow> u16 \<Rightarrow> ContractError + ProtocolVersion" where
  "version_new major minor =
     (if major = 0 then Inl InvalidRange else Inr \<lparr> pv_major = major, pv_minor = minor \<rparr>)"

definition version_validate :: "ProtocolVersion \<Rightarrow> ContractError + unit" where
  "version_validate v = rbind (version_new (pv_major v) (pv_minor v)) (\<lambda>_. Inr ())"

record MinorRange =
  mr_major :: u16
  mr_minimum_minor :: u16
  mr_maximum_minor :: u16

definition range_new :: "u16 \<Rightarrow> u16 \<Rightarrow> u16 \<Rightarrow> ContractError + MinorRange" where
  "range_new major minimum_minor maximum_minor =
     (if major = 0 \<or> minimum_minor > maximum_minor then Inl InvalidRange
      else Inr \<lparr> mr_major = major, mr_minimum_minor = minimum_minor,
        mr_maximum_minor = maximum_minor \<rparr>)"

definition range_validate :: "MinorRange \<Rightarrow> ContractError + unit" where
  "range_validate r =
     rbind (range_new (mr_major r) (mr_minimum_minor r) (mr_maximum_minor r)) (\<lambda>_. Inr ())"

datatype SchemaHashAlgorithm = Sha256

definition schema_hash_new :: "string \<Rightarrow> ContractError + string" where
  "schema_hash_new val =
     (if length val \<noteq> 64 \<or> \<not> list_all hex_char val then Inl InvalidSchemaHash else Inr val)"

record SchemaIdentity =
  si_algorithm :: SchemaHashAlgorithm
  si_canonical_input_version :: u16
  si_digest :: string

definition schema_identity_new ::
  "SchemaHashAlgorithm \<Rightarrow> u16 \<Rightarrow> string \<Rightarrow> ContractError + SchemaIdentity" where
  "schema_identity_new algorithm canonical_input_version digest =
     (if canonical_input_version = 0 then Inl InvalidRange
      else Inr \<lparr> si_algorithm = algorithm, si_canonical_input_version = canonical_input_version,
        si_digest = digest \<rparr>)"

definition schema_identity_validate :: "SchemaIdentity \<Rightarrow> ContractError + unit" where
  "schema_identity_validate s =
     (if si_canonical_input_version s = 0 then Inl InvalidRange else Inr ())"

lemma version_validate_ok [result_simps]: "version_validate v = Inr u \<longleftrightarrow> pv_major v \<noteq> 0"
  by (auto simp: version_validate_def version_new_def)

lemma range_validate_ok [result_simps]:
  "range_validate r = Inr u \<longleftrightarrow> mr_major r \<noteq> 0 \<and> mr_minimum_minor r \<le> mr_maximum_minor r"
  by (auto simp: range_validate_def range_new_def)

lemma schema_identity_validate_ok [result_simps]:
  "schema_identity_validate s = Inr u \<longleftrightarrow> si_canonical_input_version s \<noteq> 0"
  by (simp add: schema_identity_validate_def)

section \<open>Reviewed transitions\<close>

record ReviewedSchemaTransition =
  rt_review_id :: string
  rt_review_revision :: u32
  rt_validated_semantics_proof_id :: string
  rt_source :: SchemaIdentity
  rt_target :: SchemaIdentity
  rt_applicable_protocol :: MinorRange

record ReviewedSchemaIdentity =
  ri_algorithm :: SchemaHashAlgorithm
  ri_canonical_input_version :: u16
  ri_digest :: string

record ReviewedTransitionEntry =
  re_review_id :: string
  re_review_revision :: u32
  re_validated_semantics_proof_id :: string
  re_source :: ReviewedSchemaIdentity
  re_target :: ReviewedSchemaIdentity
  re_protocol_major :: u16
  re_minimum_minor :: u16
  re_maximum_minor :: u16

definition from_registry_entry ::
  "ReviewedTransitionEntry \<Rightarrow> SchemaIdentity \<Rightarrow> SchemaIdentity
    \<Rightarrow> ContractError + ReviewedSchemaTransition" where
  "from_registry_entry e source target =
     rbind (bounded_text_new (re_review_id e)) (\<lambda>review_id.
     rbind (bounded_text_new (re_validated_semantics_proof_id e)) (\<lambda>proof_id.
     Inr \<lparr> rt_review_id = review_id, rt_review_revision = re_review_revision e,
       rt_validated_semantics_proof_id = proof_id, rt_source = source, rt_target = target,
       rt_applicable_protocol = \<lparr> mr_major = re_protocol_major e,
         mr_minimum_minor = re_minimum_minor e, mr_maximum_minor = re_maximum_minor e \<rparr> \<rparr>))"

definition reviewed_matches :: "ReviewedSchemaIdentity \<Rightarrow> SchemaIdentity \<Rightarrow> bool" where
  "reviewed_matches r s = (ri_algorithm r = si_algorithm s
     \<and> ri_canonical_input_version r = si_canonical_input_version s \<and> ri_digest r = si_digest s)"

definition reviewed_is_valid :: "ReviewedSchemaIdentity \<Rightarrow> bool" where
  "reviewed_is_valid r = (ri_canonical_input_version r \<noteq> 0 \<and> length (ri_digest r) = 64
     \<and> list_all hex_char (ri_digest r))"

definition entry_matches :: "ReviewedTransitionEntry \<Rightarrow> SchemaIdentity \<Rightarrow> SchemaIdentity \<Rightarrow> bool" where
  "entry_matches e source target =
     (reviewed_matches (re_source e) source \<and> reviewed_matches (re_target e) target)"

definition entry_applies_to :: "ReviewedTransitionEntry \<Rightarrow> ProtocolVersion \<Rightarrow> bool" where
  "entry_applies_to e version = (re_protocol_major e = pv_major version
     \<and> re_minimum_minor e \<le> pv_minor version \<and> pv_minor version \<le> re_maximum_minor e)"

definition has_same_pair :: "ReviewedTransitionEntry \<Rightarrow> ReviewedTransitionEntry \<Rightarrow> bool" where
  "has_same_pair e f = (re_source e = re_source f \<and> re_target e = re_target f)"

definition SHIPPED_REVIEWED_SCHEMA_TRANSITIONS :: "ReviewedTransitionEntry list" where
  "SHIPPED_REVIEWED_SCHEMA_TRANSITIONS = []"

record SchemaCompatibilityAuthority =
  sa_reviewed_transitions :: "ReviewedTransitionEntry list"

definition authority_strict :: SchemaCompatibilityAuthority where
  "authority_strict = \<lparr> sa_reviewed_transitions = SHIPPED_REVIEWED_SCHEMA_TRANSITIONS \<rparr>"

definition transition_for ::
  "SchemaCompatibilityAuthority \<Rightarrow> SchemaIdentity \<Rightarrow> SchemaIdentity \<Rightarrow> ProtocolVersion
    \<Rightarrow> ReviewedTransitionEntry option" where
  "transition_for authority source target version =
     find (\<lambda>e. entry_matches e source target \<and> entry_applies_to e version)
       (sa_reviewed_transitions authority)"

subsection \<open>Validation of a registry\<close>

datatype RegistryValidationError =
    RegistryTooLarge
  | EmptyOrInvalidReviewId
  | InvalidReviewRevision
  | EmptyOrInvalidSemanticsProofId
  | InvalidSchemaIdentity
  | IdentityTransition
  | InvalidProtocolRange
  | DuplicateReviewKey
  | StaleReviewRevision
  | DuplicateOrAmbiguousPair

definition is_valid_registry_identifier :: "string \<Rightarrow> bool" where
  "is_valid_registry_identifier val =
     (val \<noteq> [] \<and> length val \<le> MAX_ID_BYTES \<and> list_all identifier_char val)"

fun previous_check ::
  "ReviewedTransitionEntry \<Rightarrow> ReviewedTransitionEntry list \<Rightarrow> RegistryValidationError + unit" where
  "previous_check e [] = Inr ()"
| "previous_check e (previous # rest) =
     (if re_review_id previous = re_review_id e
      then (if re_review_revision previous = re_review_revision e then Inl DuplicateReviewKey
            else Inl StaleReviewRevision)
      else if has_same_pair previous e then Inl DuplicateOrAmbiguousPair
      else previous_check e rest)"

definition entry_check ::
  "ReviewedTransitionEntry list \<Rightarrow> ReviewedTransitionEntry \<Rightarrow> RegistryValidationError + unit" where
  "entry_check previous e =
     (if \<not> is_valid_registry_identifier (re_review_id e) then Inl EmptyOrInvalidReviewId
      else if re_review_revision e = 0 then Inl InvalidReviewRevision
      else if \<not> is_valid_registry_identifier (re_validated_semantics_proof_id e)
      then Inl EmptyOrInvalidSemanticsProofId
      else if \<not> reviewed_is_valid (re_source e) \<or> \<not> reviewed_is_valid (re_target e)
      then Inl InvalidSchemaIdentity
      else if re_source e = re_target e then Inl IdentityTransition
      else if re_protocol_major e = 0 \<or> re_minimum_minor e > re_maximum_minor e
      then Inl InvalidProtocolRange
      else previous_check e previous)"

fun registry_entries_check ::
  "ReviewedTransitionEntry list \<Rightarrow> ReviewedTransitionEntry list \<Rightarrow> RegistryValidationError + unit" where
  "registry_entries_check previous [] = Inr ()"
| "registry_entries_check previous (e # rest) =
     rbind (entry_check previous e) (\<lambda>_. registry_entries_check (previous @ [e]) rest)"

definition validate_reviewed_registry ::
  "ReviewedTransitionEntry list \<Rightarrow> RegistryValidationError + unit" where
  "validate_reviewed_registry registry =
     (if length registry > MAX_SCHEMA_IDENTITIES then Inl RegistryTooLarge
      else registry_entries_check [] registry)"

definition from_reviewed_registry ::
  "ReviewedTransitionEntry list \<Rightarrow> RegistryValidationError + SchemaCompatibilityAuthority" where
  "from_reviewed_registry registry =
     rbind (validate_reviewed_registry registry) (\<lambda>_. Inr \<lparr> sa_reviewed_transitions = registry \<rparr>)"

section \<open>Offers\<close>

record ProtocolOffer =
  po_versions :: MinorRange
  po_accepted_schemas :: "SchemaIdentity list"

record ProtocolOfferV1 =
  p1_versions :: MinorRange
  p1_accepted_schemas :: "SchemaIdentity list"
  p1_allow_compatible_schema_drift :: bool

fun schemas_check :: "SchemaIdentity list \<Rightarrow> SchemaIdentity list \<Rightarrow> ContractError + unit" where
  "schemas_check previous [] = Inr ()"
| "schemas_check previous (schema # rest) =
     rbind (schema_identity_validate schema) (\<lambda>_.
     if schema \<in> set previous then Inl DuplicateSchema
     else schemas_check (previous @ [schema]) rest)"

definition offer_validate :: "ProtocolOffer \<Rightarrow> ContractError + unit" where
  "offer_validate offer =
     rbind (range_validate (po_versions offer)) (\<lambda>_.
     if po_accepted_schemas offer = [] then Inl (Empty ''accepted_schemas'')
     else if length (po_accepted_schemas offer) > MAX_SCHEMA_IDENTITIES
     then Inl (LimitExceeded SchemaSet MAX_SCHEMA_IDENTITIES (length (po_accepted_schemas offer)))
     else schemas_check [] (po_accepted_schemas offer))"

definition offer_new :: "MinorRange \<Rightarrow> SchemaIdentity list \<Rightarrow> ContractError + ProtocolOffer" where
  "offer_new versions accepted_schemas =
     (let offer = \<lparr> po_versions = versions, po_accepted_schemas = accepted_schemas \<rparr>
      in rbind (offer_validate offer) (\<lambda>_. Inr offer))"

definition into_v2 :: "ProtocolOfferV1 \<Rightarrow> ContractError + ProtocolOffer" where
  "into_v2 legacy = offer_new (p1_versions legacy) (p1_accepted_schemas legacy)"

definition offer_v1_from_wire ::
  "MinorRange \<Rightarrow> SchemaIdentity list \<Rightarrow> bool \<Rightarrow> ContractError + ProtocolOfferV1" where
  "offer_v1_from_wire versions accepted_schemas drift =
     rbind (offer_new versions accepted_schemas) (\<lambda>current.
     Inr \<lparr> p1_versions = po_versions current, p1_accepted_schemas = po_accepted_schemas current,
       p1_allow_compatible_schema_drift = drift \<rparr>)"

section \<open>Negotiation\<close>

datatype SchemaDisposition = Exact SchemaIdentity | ReviewedTransition ReviewedSchemaTransition

record NegotiatedProtocol =
  np_version :: ProtocolVersion
  np_schema :: SchemaDisposition

fun find_map :: "('a \<Rightarrow> 'b option) \<Rightarrow> 'a list \<Rightarrow> 'b option" where
  "find_map f [] = None"
| "find_map f (x # xs) = (case f x of Some y \<Rightarrow> Some y | None \<Rightarrow> find_map f xs)"

definition find_transition ::
  "SchemaCompatibilityAuthority \<Rightarrow> SchemaIdentity list \<Rightarrow> SchemaIdentity list \<Rightarrow> ProtocolVersion
    \<Rightarrow> (ReviewedTransitionEntry \<times> SchemaIdentity \<times> SchemaIdentity) option" where
  "find_transition authority sources targets version =
     find_map (\<lambda>source. find_map (\<lambda>target.
       map_option (\<lambda>e. (e, source, target)) (transition_for authority source target version)) targets)
       sources"

definition negotiate_schema ::
  "ProtocolOffer \<Rightarrow> ProtocolOffer \<Rightarrow> SchemaCompatibilityAuthority \<Rightarrow> ProtocolVersion
    \<Rightarrow> ContractError + SchemaDisposition" where
  "negotiate_schema self peer authority version =
     (case find (\<lambda>schema. schema \<in> set (po_accepted_schemas peer)) (po_accepted_schemas self) of
        Some identity \<Rightarrow> Inr (Exact identity)
      | None \<Rightarrow>
          rbind (ok_or SchemaIncompatible (find_transition authority (po_accepted_schemas self)
            (po_accepted_schemas peer) version)) (\<lambda>(e, source, target).
          rbind (from_registry_entry e source target) (\<lambda>t. Inr (ReviewedTransition t))))"

definition negotiate ::
  "ProtocolOffer \<Rightarrow> ProtocolOffer \<Rightarrow> SchemaCompatibilityAuthority
    \<Rightarrow> ContractError + NegotiatedProtocol" where
  "negotiate self peer authority =
     rbind (offer_validate self) (\<lambda>_.
     rbind (offer_validate peer) (\<lambda>_.
     if mr_major (po_versions self) \<noteq> mr_major (po_versions peer) then Inl IncompatibleMajor
     else
       let minimum = max (mr_minimum_minor (po_versions self)) (mr_minimum_minor (po_versions peer));
           maximum = min (mr_maximum_minor (po_versions self)) (mr_maximum_minor (po_versions peer))
       in if minimum > maximum then Inl NoCompatibleMinor
          else
            let version = \<lparr> pv_major = mr_major (po_versions self), pv_minor = maximum \<rparr>
            in rbind (negotiate_schema self peer authority version) (\<lambda>schema.
               Inr \<lparr> np_version = version, np_schema = schema \<rparr>)))"

section \<open>What negotiation agrees on\<close>

text \<open>The first element of a list with a property.\<close>

definition first_in :: "('a \<Rightarrow> bool) \<Rightarrow> 'a list \<Rightarrow> 'a \<Rightarrow> bool" where
  "first_in P xs x = (\<exists>before after. xs = before @ x # after \<and> P x \<and> (\<forall>y \<in> set before. \<not> P y))"

lemma first_in_Nil [simp]: "\<not> first_in P [] x"
  by (simp add: first_in_def)

lemma first_in_Cons [simp]: "first_in P (y # ys) x \<longleftrightarrow> (if P y then x = y else first_in P ys x)"
proof (cases "P y")
  case True
  then show ?thesis by (force simp: first_in_def Cons_eq_append_conv)
next
  case False
  then show ?thesis
    by (auto simp: first_in_def Cons_eq_append_conv) (metis append_Cons set_ConsD)
qed

lemma first_in_append [simp]:
  "first_in P (xs @ ys) x \<longleftrightarrow> (if \<exists>y \<in> set xs. P y then first_in P xs x else first_in P ys x)"
  by (induction xs) auto

lemma find_eq_first_in: "find P xs = Some x \<longleftrightarrow> first_in P xs x"
  by (induction xs) auto

lemma find_map_eq_None: "find_map f xs = None \<longleftrightarrow> (\<forall>x \<in> set xs. f x = None)"
  by (induction xs) (auto split: option.splits)

text \<open>The offers both peers make, as the sets of minors and schemas they accept.\<close>

definition offer_valid :: "ProtocolOffer \<Rightarrow> bool" where
  "offer_valid offer = (mr_major (po_versions offer) \<noteq> 0
     \<and> mr_minimum_minor (po_versions offer) \<le> mr_maximum_minor (po_versions offer)
     \<and> po_accepted_schemas offer \<noteq> [] \<and> length (po_accepted_schemas offer) \<le> 16
     \<and> distinct (po_accepted_schemas offer)
     \<and> (\<forall>s \<in> set (po_accepted_schemas offer). si_canonical_input_version s \<noteq> 0))"

definition minors :: "ProtocolOffer \<Rightarrow> u16 set" where
  "minors offer = {mr_minimum_minor (po_versions offer) .. mr_maximum_minor (po_versions offer)}"

definition common_minors :: "ProtocolOffer \<Rightarrow> ProtocolOffer \<Rightarrow> u16 set" where
  "common_minors a b = minors a \<inter> minors b"

definition common_schemas :: "ProtocolOffer \<Rightarrow> ProtocolOffer \<Rightarrow> SchemaIdentity set" where
  "common_schemas a b = set (po_accepted_schemas a) \<inter> set (po_accepted_schemas b)"

text \<open>Every directed pair of schemas with every entry of the registry, in order of preference.\<close>

definition candidates ::
  "SchemaCompatibilityAuthority \<Rightarrow> ProtocolOffer \<Rightarrow> ProtocolOffer
    \<Rightarrow> (ReviewedTransitionEntry \<times> SchemaIdentity \<times> SchemaIdentity) list" where
  "candidates authority self peer =
     [(e, source, target). source \<leftarrow> po_accepted_schemas self, target \<leftarrow> po_accepted_schemas peer,
       e \<leftarrow> sa_reviewed_transitions authority]"

fun authorizes :: "ProtocolVersion \<Rightarrow> ReviewedTransitionEntry \<times> SchemaIdentity \<times> SchemaIdentity \<Rightarrow> bool" where
  "authorizes version (e, source, target) =
     (entry_matches e source target \<and> entry_applies_to e version)"

fun schema_agreed ::
  "ProtocolOffer \<Rightarrow> ProtocolOffer \<Rightarrow> SchemaCompatibilityAuthority \<Rightarrow> ProtocolVersion
    \<Rightarrow> SchemaDisposition \<Rightarrow> bool" where
  "schema_agreed self peer authority version (Exact s) =
     first_in (\<lambda>s. s \<in> common_schemas self peer) (po_accepted_schemas self) s"
| "schema_agreed self peer authority version (ReviewedTransition t) =
     (common_schemas self peer = {} \<and> (\<exists>e source target.
        first_in (authorizes version) (candidates authority self peer) (e, source, target)
        \<and> from_registry_entry e source target = Inr t))"

lemma schemas_check_ok:
  "schemas_check previous schemas = Inr u \<longleftrightarrow> distinct schemas \<and> set previous \<inter> set schemas = {}
     \<and> (\<forall>s \<in> set schemas. si_canonical_input_version s \<noteq> 0)"
  by (induction schemas arbitrary: previous) (auto simp: result_simps)

lemma offer_validate_ok [result_simps]: "offer_validate offer = Inr u \<longleftrightarrow> offer_valid offer"
  by (auto simp: offer_validate_def offer_valid_def result_simps schemas_check_ok
      MAX_SCHEMA_IDENTITIES_def)

lemma candidates_row:
  "find_map (\<lambda>target. map_option (\<lambda>e. (e, s, target)) (find (\<lambda>e. P e s target) es)) targets = Some x
    \<longleftrightarrow> first_in (\<lambda>(e, s, t). P e s t) [(e, s, t). t \<leftarrow> targets, e \<leftarrow> es] x"
proof (induction targets)
  case (Cons t ts)
  have row: "first_in (\<lambda>(e, s, t). P e s t) (map (\<lambda>e. (e, s, t)) es) x
      \<longleftrightarrow> (\<exists>e. x = (e, s, t) \<and> find (\<lambda>e. P e s t) es = Some e)"
    by (induction es) auto
  show ?case
  proof (cases "find (\<lambda>e. P e s t) es")
    case None
    then have "\<not> (\<exists>e \<in> set es. P e s t)" by (simp add: find_None_iff)
    then show ?thesis using None Cons.IH by auto
  next
    case (Some e)
    then have "\<exists>e \<in> set es. P e s t" by (auto simp: find_eq_first_in first_in_def)
    then show ?thesis using Some row by auto
  qed
qed simp

lemma find_transition_eq:
  "find_transition authority (po_accepted_schemas self) (po_accepted_schemas peer) version = Some x
    \<longleftrightarrow> first_in (authorizes version) (candidates authority self peer) x"
proof -
  let ?T = "po_accepted_schemas peer" and ?R = "sa_reviewed_transitions authority"
  let ?row = "\<lambda>s. [(e, s, t). t \<leftarrow> ?T, e \<leftarrow> ?R]"
  have row: "find_map (\<lambda>t. map_option (\<lambda>e. (e, s, t)) (transition_for authority s t version)) ?T = Some x
      \<longleftrightarrow> first_in (authorizes version) (?row s) x" for s x
  proof -
    have "authorizes version
        = (\<lambda>(e, s, t). entry_matches e s t \<and> entry_applies_to e version)"
      by (auto simp: fun_eq_iff)
    then show ?thesis
      using candidates_row [of s "\<lambda>e s t. entry_matches e s t \<and> entry_applies_to e version"]
      by (simp add: transition_for_def)
  qed
  have none: "find_map (\<lambda>t. map_option (\<lambda>e. (e, s, t)) (transition_for authority s t version)) ?T = None
      \<longleftrightarrow> \<not> (\<exists>y \<in> set (?row s). authorizes version y)" for s
    by (auto simp: find_map_eq_None transition_for_def find_None_iff)
  have "find_transition authority sources ?T version = Some x
      \<longleftrightarrow> first_in (authorizes version) (concat (map ?row sources)) x" for sources
  proof (induction sources)
    case (Cons s rest)
    show ?case
    proof (cases "find_map (\<lambda>t. map_option (\<lambda>e. (e, s, t)) (transition_for authority s t version)) ?T")
      case None
      then have "\<not> (\<exists>y \<in> set (?row s). authorizes version y)" by (rule iffD1 [OF none])
      then show ?thesis using Cons None by (simp add: find_transition_def del: set_concat)
    next
      case (Some y)
      then have "\<exists>y \<in> set (?row s). authorizes version y" using none [of s] by auto
      moreover have "find_transition authority (s # rest) ?T version = Some y"
        using Some by (simp add: find_transition_def)
      ultimately show ?thesis
        using Some row [of s x] by (simp del: set_concat)
    qed
  qed (simp add: find_transition_def)
  then show ?thesis by (simp add: candidates_def)
qed

lemma find_transition_None:
  "find_transition authority (po_accepted_schemas self) (po_accepted_schemas peer) version = None
    \<longleftrightarrow> \<not> (\<exists>x. first_in (authorizes version) (candidates authority self peer) x)"
  by (metis find_transition_eq not_Some_eq)

lemma no_common_schema:
  "common_schemas self peer = {} \<longleftrightarrow> \<not> (\<exists>s \<in> set (po_accepted_schemas self). s \<in> set (po_accepted_schemas peer))"
  by (auto simp: common_schemas_def)

lemma first_in_mem: "first_in P xs x \<Longrightarrow> x \<in> set xs \<and> P x"
  by (auto simp: first_in_def)

lemma first_in_cong: "(\<And>x. x \<in> set xs \<Longrightarrow> P x = Q x) \<Longrightarrow> first_in P xs = first_in Q xs"
  by (rule ext) (induction xs, auto)

lemma negotiate_schema_ok [result_simps]:
  "negotiate_schema self peer authority version = Inr d \<longleftrightarrow> schema_agreed self peer authority version d"
proof -
  have common: "first_in (\<lambda>s. s \<in> common_schemas self peer) (po_accepted_schemas self)
      = first_in (\<lambda>s. s \<in> set (po_accepted_schemas peer)) (po_accepted_schemas self)"
    by (rule first_in_cong) (auto simp: common_schemas_def)
  show ?thesis
  proof (cases "find (\<lambda>s. s \<in> set (po_accepted_schemas peer)) (po_accepted_schemas self)")
    case None
    then have none: "common_schemas self peer = {}"
      by (auto simp: find_None_iff common_schemas_def)
    then have "\<not> first_in (\<lambda>s. s \<in> common_schemas self peer) (po_accepted_schemas self) s" for s
      by (auto dest: first_in_mem)
    with None none show ?thesis
      by (cases d) (auto simp: negotiate_schema_def result_simps find_transition_eq)
  next
    case (Some s)
    then have "common_schemas self peer \<noteq> {}"
      by (auto simp: find_eq_first_in common_schemas_def dest: first_in_mem)
    with Some show ?thesis
      by (cases d) (auto simp: negotiate_schema_def common simp flip: find_eq_first_in)
  qed
qed

lemma common_minors_eq: "common_minors a b =
  {max (mr_minimum_minor (po_versions a)) (mr_minimum_minor (po_versions b)) ..
   min (mr_maximum_minor (po_versions a)) (mr_maximum_minor (po_versions b))}"
  by (auto simp: common_minors_def minors_def)

lemma Max_interval: "(a :: 'a::linorder) \<le> b \<Longrightarrow> finite {a .. b} \<Longrightarrow> Max {a .. b} = b"
  by (rule Max_eqI) auto

section \<open>Properties\<close>

definition negotiation_agreed ::
  "ProtocolOffer \<Rightarrow> ProtocolOffer \<Rightarrow> SchemaCompatibilityAuthority \<Rightarrow> NegotiatedProtocol \<Rightarrow> bool" where
  "negotiation_agreed self peer authority n = (offer_valid self \<and> offer_valid peer
     \<and> mr_major (po_versions self) = mr_major (po_versions peer)
     \<and> common_minors self peer \<noteq> {}
     \<and> np_version n = \<lparr> pv_major = mr_major (po_versions self),
          pv_minor = Max (common_minors self peer) \<rparr>
     \<and> schema_agreed self peer authority (np_version n) (np_schema n))"

lemma negotiate_ok [result_simps]:
  "negotiate self peer authority = Inr n \<longleftrightarrow> negotiation_agreed self peer authority n"
proof -
  let ?low = "max (mr_minimum_minor (po_versions self)) (mr_minimum_minor (po_versions peer))"
    and ?high = "min (mr_maximum_minor (po_versions self)) (mr_maximum_minor (po_versions peer))"
  have none: "common_minors self peer = {} \<longleftrightarrow> ?high < ?low"
    unfolding common_minors_eq by (simp only: atLeastatMost_empty_iff not_le)
  have greatest: "Max (common_minors self peer) = ?high" if "\<not> ?high < ?low"
    using that unfolding common_minors_eq not_less by (rule Max_interval) simp
  show ?thesis
    by (cases n) (auto simp: negotiate_def negotiation_agreed_def result_simps Let_def none greatest
        simp del: max_less_iff_conj min_less_iff_conj less_max_iff_disj min_less_iff_disj)
qed

text \<open>
  C38: negotiation succeeds exactly when both offers are valid, name the same major version and share
  a minor version and a schema relation. The version is the greatest common minor; the schema is the
  producer's first schema the consumer accepts too, and only where there is none, the first directed
  pair the local registry reviewed for that version.
\<close>

theorem negotiation_exact:
  "negotiate self peer authority = Inr n \<longleftrightarrow> negotiation_agreed self peer authority n"
  by (rule negotiate_ok)

text \<open>Under the shipped registry only a shared schema is accepted, so both directions agree.\<close>

lemma negotiation_strict_exact_schema:
  assumes "negotiate self peer authority_strict = Inr n"
  shows "\<exists>s \<in> common_schemas self peer. np_schema n = Exact s"
  using assms
  by (cases "np_schema n")
    (auto simp: negotiate_ok negotiation_agreed_def authority_strict_def candidates_def
      SHIPPED_REVIEWED_SCHEMA_TRANSITIONS_def dest: first_in_mem)

text \<open>A legacy offer's permissiveness flag has no influence on its current form.\<close>

lemma legacy_drift_ignored:
  "into_v2 (legacy\<lparr> p1_allow_compatible_schema_drift := drift \<rparr>) = into_v2 legacy"
  by (simp add: into_v2_def)

text \<open>In a validated registry at most one entry speaks for a directed pair.\<close>

lemma previous_check_ok:
  "previous_check e previous = Inr u
    \<longleftrightarrow> (\<forall>p \<in> set previous. re_review_id p \<noteq> re_review_id e \<and> \<not> has_same_pair p e)"
  by (induction previous) auto

lemma registry_entries_distinct:
  "registry_entries_check previous entries = Inr u
    \<Longrightarrow> sorted_wrt (\<lambda>p e. \<not> has_same_pair p e) previous
    \<Longrightarrow> sorted_wrt (\<lambda>p e. \<not> has_same_pair p e) (previous @ entries)"
proof (induction entries arbitrary: previous)
  case (Cons e rest)
  from Cons.prems(1) have "entry_check previous e = Inr ()" and
    rest: "registry_entries_check (previous @ [e]) rest = Inr u"
    by (auto simp: result_simps)
  then have "sorted_wrt (\<lambda>p e. \<not> has_same_pair p e) (previous @ [e])"
    using Cons.prems(2)
    by (auto simp: entry_check_def previous_check_ok sorted_wrt_append split: if_splits)
  from Cons.IH [OF rest this] show ?case by simp
qed simp

lemma reviewed_registry_unambiguous:
  assumes "from_reviewed_registry registry = Inr authority"
    and "e \<in> set (sa_reviewed_transitions authority)" "f \<in> set (sa_reviewed_transitions authority)"
    and "entry_matches e source target" "entry_matches f source target"
  shows "e = f"
proof -
  have "sa_reviewed_transitions authority = registry"
    and "sorted_wrt (\<lambda>p e. \<not> has_same_pair p e) registry"
    using assms(1) registry_entries_distinct [of "[]" registry]
    by (auto simp: from_reviewed_registry_def validate_reviewed_registry_def result_simps)
  moreover have "has_same_pair e f" "has_same_pair f e"
    using assms(4,5) by (auto simp: has_same_pair_def entry_matches_def reviewed_matches_def)
  ultimately show ?thesis
    using assms(2,3) by (auto simp: in_set_conv_nth sorted_wrt_iff_nth_less)
      (metis linorder_neqE_nat)
qed

end
