(* ===== verification/Sequence_Tracker.thy ===== *)
theory Sequence_Tracker
  imports Diagnostic_Values
begin

text \<open>
  Sequence identities of diagnostic events and the tracker that admits them
  (\<open>SequenceIdentity\<close> and \<open>SequenceTracker\<close> of \<open>fforager-diagnostics-contract/src/protocol.rs\<close>).

  Over any calls, the admitted sequences of a stream are 1, 2, 3, \<dots> and the acknowledged ones
  never decrease nor pass what was admitted.
\<close>

section \<open>Identities\<close>

record SequenceKey =
  sk_producer_instance :: string
  sk_boot_session :: string
  sk_channel :: string

record SequenceIdentity =
  sq_key :: SequenceKey
  sq_sequence :: u64

definition sequence_in_range :: "u64 \<Rightarrow> bool" where
  "sequence_in_range n = (FIRST_SEQUENCE \<le> n \<and> n \<le> LAST_SEQUENCE)"

definition sequence_identity_new :: "SequenceKey \<Rightarrow> u64 \<Rightarrow> ContractError + SequenceIdentity" where
  "sequence_identity_new key n =
     (if \<not> sequence_in_range n then Inl (Sequence InvalidStart)
      else Inr \<lparr> sq_key = key, sq_sequence = n \<rparr>)"

definition sequence_identity_validate :: "SequenceIdentity \<Rightarrow> ContractError + unit" where
  "sequence_identity_validate identity =
     (if \<not> sequence_in_range (sq_sequence identity) then Inl (Sequence InvalidStart) else Inr ())"

definition checked_next :: "SequenceIdentity \<Rightarrow> ContractError + SequenceIdentity" where
  "checked_next identity =
     rbind (ok_or (Sequence Exhausted) (checked_add (sq_sequence identity) 1)) (\<lambda>n.
     sequence_identity_new (sq_key identity) n)"

lemma sequence_in_range_eq [simp]: "sequence_in_range n \<longleftrightarrow> n \<noteq> 0"
proof -
  have "1 \<le> n \<longleftrightarrow> n \<noteq> 0" by (simp add: word_le_nat_alt Suc_le_eq unat_gt_0)
  then show ?thesis by (simp add: sequence_in_range_def FIRST_SEQUENCE_def LAST_SEQUENCE_def)
qed

lemma sequence_identity_validate_ok [result_simps]:
  "sequence_identity_validate identity = Inr u \<longleftrightarrow> sq_sequence identity \<noteq> 0"
  by (simp add: sequence_identity_validate_def)

text \<open>The next identity of a stream is one larger, and the last sequence has none.\<close>

lemma checked_next_ok:
  "checked_next identity = Inr successor \<longleftrightarrow> sq_key successor = sq_key identity
    \<and> unat (sq_sequence successor) = Suc (unat (sq_sequence identity))"
  by (cases successor)
    (auto simp: checked_next_def sequence_identity_new_def result_simps checked_add_eq_Some_iff)

lemma checked_next_exhausted:
  "checked_next identity = Inl e \<longleftrightarrow> e = Sequence Exhausted \<and> sq_sequence identity = LAST_SEQUENCE"
  by (auto simp: checked_next_def sequence_identity_new_def result_simps checked_add_eq_Some_iff
      checked_add_1_None LAST_SEQUENCE_def)

section \<open>The tracker\<close>

datatype SequenceDisposition = First | Contiguous | Replay

record SequenceTracker =
  sx_key :: SequenceKey
  sx_last_admitted :: "u64 option"
  sx_last_durable :: "u64 option"

definition tracker_new :: "SequenceKey \<Rightarrow> SequenceTracker" where
  "tracker_new key = \<lparr> sx_key = key, sx_last_admitted = None, sx_last_durable = None \<rparr>"

definition ensure_key :: "SequenceTracker \<Rightarrow> SequenceIdentity \<Rightarrow> ContractError + unit" where
  "ensure_key t identity =
     (if sq_key identity \<noteq> sx_key t then Inl (Sequence IdentityChanged) else Inr ())"

definition admit ::
  "SequenceTracker \<Rightarrow> SequenceIdentity \<Rightarrow> ContractError + SequenceTracker \<times> SequenceDisposition" where
  "admit t identity =
     rbind (ensure_key t identity) (\<lambda>_.
     case sx_last_admitted t of
       None \<Rightarrow>
         if sq_sequence identity = FIRST_SEQUENCE
         then Inr (t\<lparr> sx_last_admitted := Some (sq_sequence identity) \<rparr>, First)
         else Inl (Sequence InvalidStart)
     | Some last_seen \<Rightarrow>
         if sq_sequence identity = last_seen then Inl (Sequence Duplicate)
         else if sq_sequence identity < last_seen then Inl (Sequence Reordered)
         else
           rbind (ok_or (Sequence Exhausted) (checked_add last_seen 1)) (\<lambda>expected.
           if sq_sequence identity \<noteq> expected then Inl (Sequence Gap)
           else Inr (t\<lparr> sx_last_admitted := Some (sq_sequence identity) \<rparr>, Contiguous)))"

definition admit_replay ::
  "SequenceTracker \<Rightarrow> SequenceIdentity \<Rightarrow> u64 \<Rightarrow> ContractError + SequenceDisposition" where
  "admit_replay t identity replay_window =
     rbind (sequence_identity_validate identity) (\<lambda>_.
     rbind (ensure_key t identity) (\<lambda>_.
     rbind (ok_or (Sequence ReplayOutsideWindow) (sx_last_admitted t)) (\<lambda>last_seen.
     if sq_sequence identity > last_seen
       \<or> saturating_sub last_seen (sq_sequence identity) \<ge> replay_window
     then Inl (Sequence ReplayOutsideWindow)
     else Inr Replay)))"

definition acknowledge_durable :: "SequenceTracker \<Rightarrow> u64 \<Rightarrow> ContractError + SequenceTracker" where
  "acknowledge_durable t n =
     (if \<not> sequence_in_range n then Inl (Sequence InvalidStart)
      else
        rbind (ok_or (Sequence DurableAheadOfAdmitted) (sx_last_admitted t)) (\<lambda>admitted.
        if n > admitted then Inl (Sequence DurableAheadOfAdmitted)
        else if (case sx_last_durable t of Some durable \<Rightarrow> n < durable | None \<Rightarrow> False)
        then Inl (Sequence DurableReordered)
        else Inr (t\<lparr> sx_last_durable := Some n \<rparr>)))"

lemmas tracker_defs = admit_def admit_replay_def acknowledge_durable_def ensure_key_def

section \<open>Calls on a tracker\<close>

datatype tracker_call = Admit SequenceIdentity | AdmitReplay SequenceIdentity u64 | Acknowledge u64

text \<open>
  A tracker with what it has accepted so far: the admitted sequences and the durable ones, in order.
  A refused call leaves the tracker as it is.
\<close>

record tracker_history =
  th_tracker :: SequenceTracker
  th_admitted :: "u64 list"
  th_durable :: "u64 list"

definition history_new :: "SequenceKey \<Rightarrow> tracker_history" where
  "history_new key = \<lparr> th_tracker = tracker_new key, th_admitted = [], th_durable = [] \<rparr>"

fun history_step :: "tracker_history \<Rightarrow> tracker_call \<Rightarrow> tracker_history" where
  "history_step h (Admit identity) =
     (case admit (th_tracker h) identity of
        Inr (t, _) \<Rightarrow> h\<lparr> th_tracker := t, th_admitted := th_admitted h @ [sq_sequence identity] \<rparr>
      | Inl _ \<Rightarrow> h)"
| "history_step h (AdmitReplay identity window) = h"
| "history_step h (Acknowledge n) =
     (case acknowledge_durable (th_tracker h) n of
        Inr t \<Rightarrow> h\<lparr> th_tracker := t, th_durable := th_durable h @ [n] \<rparr>
      | Inl _ \<Rightarrow> h)"

definition last_option :: "'a list \<Rightarrow> 'a option" where
  "last_option xs = (if xs = [] then None else Some (last xs))"

lemma last_option_append [simp]: "last_option (xs @ [x]) = Some x"
  by (simp add: last_option_def)

lemma last_option_Nil [simp]: "last_option [] = None"
  by (simp add: last_option_def)

lemma last_option_eq_Some: "last_option xs = Some x \<Longrightarrow> xs \<noteq> [] \<and> x = last xs \<and> x \<in> set xs"
  by (auto simp: last_option_def split: if_splits)

definition contiguous :: "u64 list \<Rightarrow> bool" where
  "contiguous ns = (map unat ns = [1 ..< Suc (length ns)])"

lemma contiguous_Nil [simp]: "contiguous []"
  by (simp add: contiguous_def)

lemma contiguous_last: "contiguous ns \<Longrightarrow> last_option ns = Some n \<Longrightarrow> unat n = length ns"
proof -
  assume a: "contiguous ns" "last_option ns = Some n"
  then have "ns \<noteq> []" and n: "n = last ns" by (auto dest: last_option_eq_Some)
  then have "unat n = last (map unat ns)" by (simp add: last_map)
  with a \<open>ns \<noteq> []\<close> show ?thesis by (simp add: contiguous_def last_upt del: upt_Suc)
qed

lemma contiguous_snoc:
  "contiguous ns \<Longrightarrow> unat n = Suc (length ns) \<Longrightarrow> contiguous (ns @ [n])"
  by (simp add: contiguous_def)

lemma contiguous_mem: "contiguous ns \<Longrightarrow> 0 < unat n \<Longrightarrow> unat n \<le> length ns \<Longrightarrow> n \<in> set ns"
proof -
  assume "contiguous ns" "0 < unat n" "unat n \<le> length ns"
  then have "unat n \<in> set (map unat ns)" by (simp add: contiguous_def del: upt_Suc)
  then show "n \<in> set ns" by (auto simp: unat_eq_iff)
qed

definition history_ok :: "SequenceKey \<Rightarrow> tracker_history \<Rightarrow> bool" where
  "history_ok key h = (sx_key (th_tracker h) = key
     \<and> sx_last_admitted (th_tracker h) = last_option (th_admitted h)
     \<and> sx_last_durable (th_tracker h) = last_option (th_durable h)
     \<and> contiguous (th_admitted h)
     \<and> sorted (th_durable h)
     \<and> set (th_durable h) \<subseteq> set (th_admitted h))"

lemma admit_ok:
  "admit t identity = Inr (t', d) \<longleftrightarrow> sq_key identity = sx_key t
    \<and> t' = t\<lparr> sx_last_admitted := Some (sq_sequence identity) \<rparr>
    \<and> (case sx_last_admitted t of
         None \<Rightarrow> sq_sequence identity = 1 \<and> d = First
       | Some n \<Rightarrow> unat (sq_sequence identity) = Suc (unat n) \<and> d = Contiguous)"
  by (auto simp: tracker_defs result_simps FIRST_SEQUENCE_def checked_add_eq_Some_iff
      word_less_nat_alt unat_eq_iff [symmetric] split: option.splits if_splits)

lemma acknowledge_ok:
  "acknowledge_durable t n = Inr t' \<longleftrightarrow> n \<noteq> 0 \<and> t' = t\<lparr> sx_last_durable := Some n \<rparr>
    \<and> (\<exists>m. sx_last_admitted t = Some m \<and> n \<le> m)
    \<and> (case sx_last_durable t of None \<Rightarrow> True | Some durable \<Rightarrow> durable \<le> n)"
  by (auto simp: tracker_defs result_simps not_less split: option.splits if_splits)

lemma sorted_snoc: "sorted xs \<Longrightarrow> (case last_option xs of None \<Rightarrow> True | Some y \<Rightarrow> y \<le> x) \<Longrightarrow> sorted (xs @ [x])"
  for x :: "'a::linorder"
  by (induction xs rule: rev_induct) (auto simp: sorted_append)

lemma history_step_ok: "history_ok key h \<Longrightarrow> history_ok key (history_step h call)"
proof (cases call)
  case (Admit identity)
  assume ok: "history_ok key h"
  show ?thesis
  proof (cases "admit (th_tracker h) identity")
    case (Inr r)
    then obtain t d where r: "admit (th_tracker h) identity = Inr (t, d)" by (cases r) auto
    have "unat (sq_sequence identity) = Suc (length (th_admitted h))"
      using r ok contiguous_last [of "th_admitted h"]
      by (auto simp: admit_ok history_ok_def last_option_def split: option.splits if_splits)
    moreover have "history_step h call
        = h\<lparr> th_tracker := t, th_admitted := th_admitted h @ [sq_sequence identity] \<rparr>"
      using r by (simp add: Admit)
    moreover have "t = (th_tracker h)\<lparr> sx_last_admitted := Some (sq_sequence identity) \<rparr>"
      using r by (simp add: admit_ok)
    ultimately show ?thesis
      using ok by (auto simp: history_ok_def contiguous_snoc)
  qed (use ok Admit in simp)
next
  case (Acknowledge n)
  assume ok: "history_ok key h"
  show ?thesis
  proof (cases "acknowledge_durable (th_tracker h) n")
    case (Inr t)
    then obtain m where m: "last_option (th_admitted h) = Some m" "n \<le> m" "n \<noteq> 0"
      using ok by (auto simp: acknowledge_ok history_ok_def)
    then have "n \<in> set (th_admitted h)"
      using ok contiguous_last [of "th_admitted h" m]
      by (intro contiguous_mem) (auto simp: history_ok_def word_le_nat_alt unat_gt_0)
    moreover have "history_step h call = h\<lparr> th_tracker := t, th_durable := th_durable h @ [n] \<rparr>"
      using Inr by (simp add: Acknowledge)
    moreover have "t = (th_tracker h)\<lparr> sx_last_durable := Some n \<rparr>"
      and "sorted (th_durable h @ [n])"
      using Inr ok sorted_snoc [of "th_durable h" n] by (simp_all add: acknowledge_ok history_ok_def)
    ultimately show ?thesis
      using ok by (auto simp: history_ok_def)
  qed (use ok Acknowledge in simp)
qed simp

interpretation tracker: invariant_system history_step "history_ok key" for key
  by unfold_locales (rule history_step_ok)

lemma history_new_ok: "history_ok key (history_new key)"
  by (simp add: history_ok_def history_new_def tracker_new_def)

text \<open>
  C39: whatever calls a tracker receives, the sequences it has admitted are 1, 2, 3, \<dots> without a gap,
  a duplicate or a reordering, its positions are the last of each kind, and the durable ones are
  nondecreasing and were all admitted.
\<close>

theorem tracker_contiguous:
  "history_ok key (run_events history_step (history_new key) calls)"
  by (rule tracker.inv_run) (rule history_new_ok)

text \<open>A replay is accepted exactly for the last admitted sequences, as many as the window says.\<close>

lemma replay_window_exact:
  "admit_replay t identity window = Inr d \<longleftrightarrow> d = Replay \<and> sq_key identity = sx_key t
    \<and> sq_sequence identity \<noteq> 0
    \<and> (\<exists>m. sx_last_admitted t = Some m \<and> sq_sequence identity \<le> m
        \<and> unat m < unat (sq_sequence identity) + unat window)"
  by (auto simp: tracker_defs result_simps saturating_sub_def word_le_nat_alt word_less_nat_alt
      unat_diff_word not_le not_less split: if_splits)

end
