(* ===== verification/Watcher_Lifecycle.thy ===== *)
theory Watcher_Lifecycle
  imports Negotiation Sequence_Tracker
begin

text \<open>
  The watcher's lifecycle, its loop generations, queue counters and health snapshots
  (\<open>fforager-diagnostics-contract/src/lifecycle.rs\<close>).
\<close>

section \<open>Lifecycle\<close>

datatype WatcherState =
    Starting
  | Ready
  | Serving
  | Degraded string
  | Stale string
  | Draining
  | Stopped

datatype CheckStatus = Passed | Failed

record ReadyEvidence =
  rv_protocol_negotiated :: CheckStatus
  rv_storage_self_test :: CheckStatus
  rv_retention_policy :: CheckStatus
  rv_watcher_canary :: CheckStatus

definition evidence_validate :: "ReadyEvidence \<Rightarrow> ContractError + unit" where
  "evidence_validate e =
     (if rv_protocol_negotiated e = Passed \<and> rv_storage_self_test e = Passed
        \<and> rv_retention_policy e = Passed \<and> rv_watcher_canary e = Passed
      then Inr () else Inl MissingReadyEvidence)"

datatype LifecycleInput =
    LocalReady ReadyEvidence
  | ProducerCanary
  | Degrade string
  | MarkStale string
  | RecoverReady ReadyEvidence
  | RecoverServing
  | BeginDrain
  | Stop

record LifecycleSnapshot =
  ls_state :: WatcherState
  ls_generation :: u64

definition starting :: LifecycleSnapshot where
  "starting = \<lparr> ls_state = Starting, ls_generation = 0 \<rparr>"

fun watcher_state :: "WatcherState \<Rightarrow> LifecycleInput \<Rightarrow> ContractError + WatcherState" where
  "watcher_state Starting (LocalReady evidence) =
     rbind (evidence_validate evidence) (\<lambda>_. Inr Ready)"
| "watcher_state (Degraded _) (RecoverReady evidence) =
     rbind (evidence_validate evidence) (\<lambda>_. Inr Ready)"
| "watcher_state Ready ProducerCanary = Inr Serving"
| "watcher_state (Degraded _) RecoverServing = Inr Serving"
| "watcher_state (Stale _) RecoverServing = Inr Serving"
| "watcher_state Starting (Degrade reason) = Inr (Degraded reason)"
| "watcher_state Ready (Degrade reason) = Inr (Degraded reason)"
| "watcher_state Serving (Degrade reason) = Inr (Degraded reason)"
| "watcher_state (Stale _) (Degrade reason) = Inr (Degraded reason)"
| "watcher_state Serving (MarkStale reason) = Inr (Stale reason)"
| "watcher_state (Degraded _) (MarkStale reason) = Inr (Stale reason)"
| "watcher_state Ready BeginDrain = Inr Draining"
| "watcher_state Serving BeginDrain = Inr Draining"
| "watcher_state (Degraded _) BeginDrain = Inr Draining"
| "watcher_state (Stale _) BeginDrain = Inr Draining"
| "watcher_state Draining Stop = Inr Stopped"
| "watcher_state _ _ = Inl InvalidTransition"

definition watcher_transition :: "LifecycleSnapshot \<Rightarrow> LifecycleInput \<Rightarrow> ContractError + LifecycleSnapshot" where
  "watcher_transition s i =
     rbind (watcher_state (ls_state s) i) (\<lambda>state.
     rbind (ok_or CounterInvariant (checked_add (ls_generation s) 1)) (\<lambda>generation.
     Inr \<lparr> ls_state = state, ls_generation = generation \<rparr>))"

text \<open>The snapshots a watcher publishes for inputs that were all accepted.\<close>

inductive watcher_run :: "LifecycleInput list \<Rightarrow> LifecycleSnapshot \<Rightarrow> bool" where
  start: "watcher_run [] starting"
| step: "watcher_run inputs s \<Longrightarrow> watcher_transition s i = Inr s' \<Longrightarrow> watcher_run (inputs @ [i]) s'"

code_pred watcher_run .

inductive_cases watcher_run_snocE: "watcher_run (inputs @ [i]) s"
inductive_simps watcher_run_Nil: "watcher_run [] s"

definition all_passed :: ReadyEvidence where
  "all_passed = \<lparr> rv_protocol_negotiated = Passed, rv_storage_self_test = Passed,
     rv_retention_policy = Passed, rv_watcher_canary = Passed \<rparr>"

definition evidenced :: "LifecycleInput \<Rightarrow> bool" where
  "evidenced i = (i \<in> {LocalReady all_passed, RecoverReady all_passed})"

lemma evidence_validate_ok [result_simps]: "evidence_validate e = Inr u \<longleftrightarrow> e = all_passed"
  by (cases e) (simp add: evidence_validate_def all_passed_def)

lemma watcher_transition_ok: "watcher_transition s i = Inr s' \<longleftrightarrow> watcher_state (ls_state s) i = Inr (ls_state s')
    \<and> unat (ls_generation s') = Suc (unat (ls_generation s))"
  by (cases s') (auto simp: watcher_transition_def result_simps checked_add_eq_Some_iff)

lemma enters_ready: "watcher_state w i = Inr Ready \<Longrightarrow> evidenced i"
  by (cases "(w, i)" rule: watcher_state.cases) (auto simp: evidenced_def result_simps)

lemma enters_serving:
  "watcher_state w i = Inr Serving \<longleftrightarrow> w = Ready \<and> i = ProducerCanary
    \<or> i = RecoverServing \<and> (\<exists>reason. w = Degraded reason \<or> w = Stale reason)"
  by (cases "(w, i)" rule: watcher_state.cases) (auto simp: result_simps)

lemma enters_stopped: "watcher_state w i = Inr Stopped \<longleftrightarrow> w = Draining \<and> i = Stop"
  by (cases "(w, i)" rule: watcher_state.cases) (auto simp: result_simps)

lemma enters_draining: "watcher_state w i = Inr Draining \<Longrightarrow> i = BeginDrain"
  by (cases "(w, i)" rule: watcher_state.cases) (auto simp: result_simps)

lemma enters_starting: "watcher_state w i \<noteq> Inr Starting"
  by (cases "(w, i)" rule: watcher_state.cases) (auto simp: result_simps)

lemma stopped_absorbing: "watcher_state Stopped i = Inl InvalidTransition"
  by (cases i) simp_all

text \<open>What each state of the lifecycle says about the inputs that led to it.\<close>

fun justified :: "WatcherState \<Rightarrow> LifecycleInput list \<Rightarrow> bool" where
  "justified Starting inputs = (inputs = [])"
| "justified Ready inputs = (\<exists>before i. inputs = before @ [i] \<and> evidenced i)"
| "justified Serving inputs =
     ((\<exists>before i. inputs = before @ [i, ProducerCanary] \<and> evidenced i)
      \<or> (\<exists>before i. inputs = before @ [i, RecoverServing]
           \<and> (case i of Degrade _ \<Rightarrow> True | MarkStale _ \<Rightarrow> True | _ \<Rightarrow> False)))"
| "justified (Degraded reason) inputs = (\<exists>before. inputs = before @ [Degrade reason])"
| "justified (Stale reason) inputs = (\<exists>before. inputs = before @ [MarkStale reason])"
| "justified Draining inputs = (\<exists>before. inputs = before @ [BeginDrain])"
| "justified Stopped inputs = (\<exists>before. inputs = before @ [BeginDrain, Stop])"

lemma justified_step:
  assumes "justified w inputs" "watcher_state w i = Inr w'"
  shows "justified w' (inputs @ [i])"
  using assms
  by (cases "(w, i)" rule: watcher_state.cases) (fastforce simp: evidenced_def result_simps)+

lemma watcher_run_justified:
  "watcher_run inputs s \<Longrightarrow> justified (ls_state s) inputs \<and> unat (ls_generation s) = length inputs"
  by (induction rule: watcher_run.induct)
    (auto simp: starting_def watcher_transition_ok intro: justified_step)

text \<open>
  C40: in every run of accepted inputs the generation counts them, readiness rests on evidence with
  all four checks passed, serving follows either the producer's canary directly after that evidence
  or a recovery from degradation or staleness, and the watcher stops only after it drained.
\<close>

theorem watcher_states_justified:
  assumes "watcher_run inputs s"
  shows "justified (ls_state s) inputs \<and> unat (ls_generation s) = length inputs"
  using assms by (rule watcher_run_justified)

lemma serving_run: "watcher_run [LocalReady all_passed, ProducerCanary] \<lparr> ls_state = Serving, ls_generation = 2 \<rparr>"
proof -
  have ready: "watcher_run [LocalReady all_passed] \<lparr> ls_state = Ready, ls_generation = 1 \<rparr>"
    using watcher_run.step [OF watcher_run.start,
        of "LocalReady all_passed" "\<lparr> ls_state = Ready, ls_generation = 1 \<rparr>"]
    by (simp add: watcher_transition_ok starting_def result_simps)
  show ?thesis
    using watcher_run.step [OF ready, of ProducerCanary "\<lparr> ls_state = Serving, ls_generation = 2 \<rparr>"]
    by (simp add: watcher_transition_ok)
qed

lemma watcher_states_justified_witness:
  "justified Serving [LocalReady all_passed, ProducerCanary]
    \<and> unat (ls_generation \<lparr> ls_state = Serving, ls_generation = 2 \<rparr>) = 2"
  using watcher_states_justified [OF serving_run] by simp

text \<open>
  Serving does not imply that a producer canary, or any evidence, was ever seen: a watcher that
  degrades while it starts may recover straight into serving.
\<close>

lemma serving_without_canary:
  "watcher_run [Degrade reason, RecoverServing] \<lparr> ls_state = Serving, ls_generation = 2 \<rparr>"
proof -
  have degraded: "watcher_run [Degrade reason] \<lparr> ls_state = Degraded reason, ls_generation = 1 \<rparr>"
    using watcher_run.step [OF watcher_run.start,
        of "Degrade reason" "\<lparr> ls_state = Degraded reason, ls_generation = 1 \<rparr>"]
    by (simp add: watcher_transition_ok starting_def)
  show ?thesis
    using watcher_run.step [OF degraded, of RecoverServing "\<lparr> ls_state = Serving, ls_generation = 2 \<rparr>"]
    by (simp add: watcher_transition_ok)
qed

section \<open>Loops\<close>

datatype LoopState =
    Idle "u64 option" "string option"
  | Working string u64
  | Blocked string u64
  | Failed string

record LoopHealth =
  lh_capability_id :: string
  lh_state :: LoopState
  lh_admitted_generation :: u64
  lh_completion_generation :: u64
  lh_responsiveness_generation :: u64

definition loop_new :: "string \<Rightarrow> LoopState \<Rightarrow> LoopHealth" where
  "loop_new capability_id state = \<lparr> lh_capability_id = capability_id, lh_state = state,
     lh_admitted_generation = 0, lh_completion_generation = 0, lh_responsiveness_generation = 0 \<rparr>"

definition admit_work :: "LoopHealth \<Rightarrow> ContractError + LoopHealth \<times> u64" where
  "admit_work l =
     rbind (ok_or CounterInvariant (checked_add (lh_admitted_generation l) 1)) (\<lambda>n.
     Inr (l\<lparr> lh_admitted_generation := n \<rparr>, n))"

definition complete_admitted :: "LoopHealth \<Rightarrow> u64 \<Rightarrow> ContractError + LoopHealth" where
  "complete_admitted l generation =
     (if generation \<noteq> saturating_add (lh_completion_generation l) 1
        \<or> generation > lh_admitted_generation l
      then Inl CounterInvariant
      else Inr (l\<lparr> lh_completion_generation := generation \<rparr>))"

definition record_responsiveness :: "LoopHealth \<Rightarrow> ContractError + LoopHealth" where
  "record_responsiveness l =
     rbind (ok_or CounterInvariant (checked_add (lh_responsiveness_generation l) 1)) (\<lambda>n.
     Inr (l\<lparr> lh_responsiveness_generation := n \<rparr>))"

definition loop_validate :: "LoopHealth \<Rightarrow> ContractError + unit" where
  "loop_validate l =
     (if lh_completion_generation l > lh_admitted_generation l then Inl CounterInvariant
      else Inr ())"

lemma loop_validate_ok [result_simps]:
  "loop_validate l = Inr u \<longleftrightarrow> lh_completion_generation l \<le> lh_admitted_generation l"
  by (auto simp: loop_validate_def)

lemma loop_valid_iff: "is_ok (loop_validate l) \<longleftrightarrow> lh_completion_generation l \<le> lh_admitted_generation l"
  by (auto simp: loop_validate_def)

text \<open>Completions follow admissions one by one, up to the end of the counter.\<close>

lemma complete_admitted_ok:
  assumes "lh_completion_generation l \<noteq> - 1"
  shows "complete_admitted l generation = Inr l' \<longleftrightarrow> l' = l\<lparr> lh_completion_generation := generation \<rparr>
    \<and> unat generation = Suc (unat (lh_completion_generation l))
    \<and> generation \<le> lh_admitted_generation l"
proof -
  obtain c where c: "checked_add (lh_completion_generation l) 1 = Some c"
    using assms checked_add_1_None by (cases "checked_add (lh_completion_generation l) 1") auto
  then have "unat c = Suc (unat (lh_completion_generation l))"
    by (simp add: checked_add_eq_Some_iff)
  with c show ?thesis
    by (auto simp: complete_admitted_def saturating_add_def not_less unat_eq_iff [symmetric])
qed

text \<open>At the last generation the saturating step no longer excludes a duplicate.\<close>

lemma complete_admitted_last:
  "lh_completion_generation l = - 1 \<Longrightarrow> lh_admitted_generation l = - 1
    \<Longrightarrow> complete_admitted l (- 1) = Inr l"
proof -
  have "checked_add (- 1 :: u64) 1 = None" by (simp add: checked_add_1_None)
  then show "lh_completion_generation l = - 1 \<Longrightarrow> lh_admitted_generation l = - 1
      \<Longrightarrow> complete_admitted l (- 1) = Inr l"
    by (cases l) (simp add: complete_admitted_def saturating_add_def)
qed

datatype loop_call = AdmitWork | CompleteAdmitted u64 | RecordResponsiveness

fun loop_step :: "LoopHealth \<Rightarrow> loop_call \<Rightarrow> LoopHealth" where
  "loop_step l AdmitWork = (case admit_work l of Inr (l', _) \<Rightarrow> l' | Inl _ \<Rightarrow> l)"
| "loop_step l (CompleteAdmitted n) = (case complete_admitted l n of Inr l' \<Rightarrow> l' | Inl _ \<Rightarrow> l)"
| "loop_step l RecordResponsiveness = (case record_responsiveness l of Inr l' \<Rightarrow> l' | Inl _ \<Rightarrow> l)"

lemma loop_step_valid: "is_ok (loop_validate l) \<Longrightarrow> is_ok (loop_validate (loop_step l call))"
proof (cases call)
  case AdmitWork
  assume ok: "is_ok (loop_validate l)"
  show ?thesis
  proof (cases "checked_add (lh_admitted_generation l) 1")
    case (Some n)
    then have "lh_admitted_generation l < n" by (rule checked_add_1_less)
    with ok Some show ?thesis
      by (simp add: AdmitWork admit_work_def loop_valid_iff)
  qed (use ok in \<open>simp add: AdmitWork admit_work_def\<close>)
next
  case (CompleteAdmitted n)
  assume "is_ok (loop_validate l)"
  then show ?thesis
    by (auto simp: CompleteAdmitted complete_admitted_def loop_valid_iff)
next
  case RecordResponsiveness
  assume "is_ok (loop_validate l)"
  then show ?thesis
    by (cases "checked_add (lh_responsiveness_generation l) 1")
      (simp_all add: RecordResponsiveness record_responsiveness_def loop_valid_iff)
qed

interpretation loop: invariant_system loop_step "\<lambda>l. is_ok (loop_validate l)"
  by unfold_locales (rule loop_step_valid)

lemma loop_health_valid: "is_ok (loop_validate (run_events loop_step (loop_new capability state) calls))"
  by (rule loop.inv_run) (simp add: loop_validate_def loop_new_def)

section \<open>Counters and snapshots\<close>

record HealthCounters =
  hc_queue_depth :: u32
  hc_queue_high_water :: u32
  hc_queue_capacity :: u32
  hc_dropped_lossy :: u64
  hc_discarded_unknown_optional :: u64
  hc_residual_gap_count :: u64

definition counters_new ::
  "u32 \<Rightarrow> u32 \<Rightarrow> u32 \<Rightarrow> u64 \<Rightarrow> u64 \<Rightarrow> u64 \<Rightarrow> ContractError + HealthCounters" where
  "counters_new queue_depth queue_high_water queue_capacity dropped_lossy
      discarded_unknown_optional residual_gap_count =
     (if queue_capacity = 0 \<or> queue_depth > queue_high_water \<or> queue_high_water > queue_capacity
      then Inl CounterInvariant
      else Inr \<lparr> hc_queue_depth = queue_depth, hc_queue_high_water = queue_high_water,
        hc_queue_capacity = queue_capacity, hc_dropped_lossy = dropped_lossy,
        hc_discarded_unknown_optional = discarded_unknown_optional,
        hc_residual_gap_count = residual_gap_count \<rparr>)"

record HealthSnapshot =
  hs_producer_instance :: string
  hs_boot_session :: string
  hs_process_start_id :: string
  hs_ferric_artifact_id :: string
  hs_watcher_artifact_id :: string
  hs_build_id :: string
  hs_protocol :: ProtocolVersion
  hs_schema :: SchemaIdentity
  hs_observed_monotonic_ns :: u64
  hs_last_admitted :: "SequenceIdentity option"
  hs_last_durable :: "SequenceIdentity option"
  hs_counters :: HealthCounters
  hs_lifecycle :: LifecycleSnapshot
  hs_loops :: "LoopHealth list"

fun loops_check :: "string set \<Rightarrow> LoopHealth list \<Rightarrow> ContractError + unit" where
  "loops_check capabilities [] = Inr ()"
| "loops_check capabilities (l # rest) =
     rbind (loop_validate l) (\<lambda>_.
     if lh_capability_id l \<in> capabilities then Inl DuplicateField
     else loops_check (insert (lh_capability_id l) capabilities) rest)"

definition stream_check :: "HealthSnapshot \<Rightarrow> ContractError + unit" where
  "stream_check s =
     (case hs_last_admitted s of
        Some admitted \<Rightarrow>
          if sk_producer_instance (sq_key admitted) \<noteq> hs_producer_instance s
            \<or> sk_boot_session (sq_key admitted) \<noteq> hs_boot_session s
          then Inl (Sequence IdentityChanged) else Inr ()
      | None \<Rightarrow> Inr ())"

definition durable_check :: "HealthSnapshot \<Rightarrow> ContractError + unit" where
  "durable_check s =
     (case hs_last_durable s of
        Some durable \<Rightarrow>
          rbind (ok_or (Sequence DurableAheadOfAdmitted) (hs_last_admitted s)) (\<lambda>admitted.
          if sq_key durable \<noteq> sq_key admitted \<or> sq_sequence durable > sq_sequence admitted
          then Inl (Sequence DurableAheadOfAdmitted) else Inr ())
      | None \<Rightarrow> Inr ())"

definition snapshot_validate :: "HealthSnapshot \<Rightarrow> ContractError + unit" where
  "snapshot_validate s =
     rbind (version_validate (hs_protocol s)) (\<lambda>_.
     rbind (schema_identity_validate (hs_schema s)) (\<lambda>_.
     if length (hs_loops s) > MAX_HEALTH_LOOPS
     then Inl (LimitExceeded Loops MAX_HEALTH_LOOPS (length (hs_loops s)))
     else
       rbind (loops_check {} (hs_loops s)) (\<lambda>_.
       rbind (stream_check s) (\<lambda>_.
       durable_check s))))"

lemma loops_check_ok: "loops_check seen loops = Inr u \<longleftrightarrow> distinct (map lh_capability_id loops)
    \<and> set (map lh_capability_id loops) \<inter> seen = {}
    \<and> (\<forall>l \<in> set loops. lh_completion_generation l \<le> lh_admitted_generation l)"
  by (induction loops arbitrary: seen) (auto simp: result_simps)

text \<open>
  An accepted snapshot bounds its loops, names each capability once, and reports positions of its own
  producer and boot with the durable one behind the admitted one.
\<close>

lemma snapshot_validate_ok:
  "snapshot_validate s = Inr u \<longleftrightarrow> pv_major (hs_protocol s) \<noteq> 0
    \<and> si_canonical_input_version (hs_schema s) \<noteq> 0
    \<and> length (hs_loops s) \<le> 32 \<and> distinct (map lh_capability_id (hs_loops s))
    \<and> (\<forall>l \<in> set (hs_loops s). lh_completion_generation l \<le> lh_admitted_generation l)
    \<and> (\<forall>a. hs_last_admitted s = Some a \<longrightarrow> sk_producer_instance (sq_key a) = hs_producer_instance s
        \<and> sk_boot_session (sq_key a) = hs_boot_session s)
    \<and> (\<forall>d. hs_last_durable s = Some d \<longrightarrow> (\<exists>a. hs_last_admitted s = Some a
        \<and> sq_key d = sq_key a \<and> sq_sequence d \<le> sq_sequence a))"
  by (auto simp: snapshot_validate_def result_simps loops_check_ok stream_check_def durable_check_def
      MAX_HEALTH_LOOPS_def split: option.splits)

text \<open>The validation looks at neither the queue counters nor the sequence numbers themselves.\<close>

lemma snapshot_counters_unchecked:
  "snapshot_validate (s\<lparr> hs_counters := counters \<rparr>) = snapshot_validate s"
proof -
  have "stream_check (s\<lparr> hs_counters := counters \<rparr>) = stream_check s"
    and "durable_check (s\<lparr> hs_counters := counters \<rparr>) = durable_check s"
    by (cases "hs_last_admitted s"; cases "hs_last_durable s";
        simp add: stream_check_def durable_check_def)+
  then show ?thesis by (simp add: snapshot_validate_def)
qed

end
