(* ===== verification/Diagnostic_Envelope.thy ===== *)
theory Diagnostic_Envelope
  imports Negotiation Sequence_Tracker
begin

text \<open>
  Diagnostic envelopes with their privacy rules, frames, acknowledgements and crash evidence
  (\<open>fforager-diagnostics-contract/src/envelope.rs\<close>).

  \<open>serde_json\<close> is an argument, \<open>frame_codec\<close>: parsing of bytes, the two lookups the decoder makes in
  a parsed value, the typed reading of a value before any \<open>try_from\<close>, and the writer. Everything
  the \<open>try_from\<close> conversions check is modelled.
\<close>

section \<open>Fields\<close>

datatype ValueRepresentation = Plain string | Redacted string | OpaqueUnknown u32 bool

record DiagnosticField =
  df_name :: string
  df_sensitivity :: DiagnosticSensitivity
  df_value :: ValueRepresentation

definition field_validate :: "DiagnosticField \<Rightarrow> ContractError + unit" where
  "field_validate f =
     (case df_value f of
        Plain _ \<Rightarrow> if df_sensitivity f = Secret then Inl PrivacyViolation else Inr ()
      | OpaqueUnknown byte_len exportable \<Rightarrow>
          let size = unat byte_len
          in if size > MAX_OPAQUE_VALUE_BYTES
             then Inl (LimitExceeded OpaqueValue MAX_OPAQUE_VALUE_BYTES size)
             else if size = 0 \<or> exportable \<or> df_sensitivity f = Secret then Inl PrivacyViolation
             else Inr ()
      | Redacted _ \<Rightarrow> Inr ())"

definition field_new ::
  "string \<Rightarrow> DiagnosticSensitivity \<Rightarrow> ValueRepresentation \<Rightarrow> ContractError + DiagnosticField" where
  "field_new name sensitivity val =
     (let f = \<lparr> df_name = name, df_sensitivity = sensitivity, df_value = val \<rparr>
      in rbind (field_validate f) (\<lambda>_. Inr f))"

definition field_public :: "string \<Rightarrow> string \<Rightarrow> ContractError + DiagnosticField" where
  "field_public name val = field_new name Public (Plain val)"

definition field_redacted ::
  "string \<Rightarrow> DiagnosticSensitivity \<Rightarrow> string \<Rightarrow> ContractError + DiagnosticField" where
  "field_redacted name sensitivity marker = field_new name sensitivity (Redacted marker)"

definition field_unknown_optional ::
  "string \<Rightarrow> DiagnosticSensitivity \<Rightarrow> u32 \<Rightarrow> ContractError + DiagnosticField" where
  "field_unknown_optional name sensitivity byte_len =
     field_new name sensitivity (OpaqueUnknown byte_len False)"

text \<open>A secret is only ever present as a redaction marker; unknown values are sizes that stay local.\<close>

definition field_private :: "DiagnosticField \<Rightarrow> bool" where
  "field_private f =
     (case df_value f of
        Plain _ \<Rightarrow> df_sensitivity f \<noteq> Secret
      | Redacted _ \<Rightarrow> True
      | OpaqueUnknown byte_len exportable \<Rightarrow>
          df_sensitivity f \<noteq> Secret \<and> \<not> exportable \<and> 0 < unat byte_len \<and> unat byte_len \<le> 8192)"

lemma field_validate_ok [result_simps]: "field_validate f = Inr u \<longleftrightarrow> field_private f"
  by (auto simp: field_validate_def field_private_def MAX_OPAQUE_VALUE_BYTES_def Let_def
      split: ValueRepresentation.split)

lemma field_redacted_accepted: "field_redacted name sensitivity marker =
    Inr \<lparr> df_name = name, df_sensitivity = sensitivity, df_value = Redacted marker \<rparr>"
  by (simp add: field_redacted_def field_new_def field_validate_def)

lemma field_public_accepted: "field_public name val =
    Inr \<lparr> df_name = name, df_sensitivity = Public, df_value = Plain val \<rparr>"
  by (simp add: field_public_def field_new_def field_validate_def)

section \<open>Envelopes\<close>

record DiagnosticEnvelope =
  de_protocol :: ProtocolVersion
  de_schema :: SchemaIdentity
  de_producer_instance :: string
  de_capability_id :: string
  de_sequence :: SequenceIdentity
  de_observed_monotonic_ns :: u64
  de_descriptor :: EventDescriptor
  de_fields :: "DiagnosticField list"

text \<open>The loop over the fields, with the names seen and the highest sensitivity so far.\<close>

fun fields_check ::
  "string set \<Rightarrow> DiagnosticSensitivity \<Rightarrow> DiagnosticField list
    \<Rightarrow> ContractError + DiagnosticSensitivity" where
  "fields_check names highest [] = Inr highest"
| "fields_check names highest (f # rest) =
     rbind (field_validate f) (\<lambda>_.
     if df_name f \<in> names then Inl DuplicateField
     else fields_check (insert (df_name f) names) (max highest (df_sensitivity f)) rest)"

definition envelope_validate :: "DiagnosticEnvelope \<Rightarrow> ContractError + unit" where
  "envelope_validate e =
     rbind (version_validate (de_protocol e)) (\<lambda>_.
     rbind (schema_identity_validate (de_schema e)) (\<lambda>_.
     rbind (sequence_identity_validate (de_sequence e)) (\<lambda>_.
     if sk_producer_instance (sq_key (de_sequence e)) \<noteq> de_producer_instance e
     then Inl (Sequence IdentityChanged)
     else
       rbind (descriptor_validate (de_descriptor e)) (\<lambda>_.
       if length (de_fields e) > MAX_FIELDS
       then Inl (LimitExceeded Fields MAX_FIELDS (length (de_fields e)))
       else
         rbind (fields_check {} Public (de_fields e)) (\<lambda>highest.
         if highest > ed_sensitivity (de_descriptor e) then Inl PrivacyViolation else Inr ())))))"

definition envelope_legal :: "DiagnosticEnvelope \<Rightarrow> bool" where
  "envelope_legal e = (pv_major (de_protocol e) \<noteq> 0
     \<and> si_canonical_input_version (de_schema e) \<noteq> 0
     \<and> sq_sequence (de_sequence e) \<noteq> 0
     \<and> sk_producer_instance (sq_key (de_sequence e)) = de_producer_instance e
     \<and> descriptor_legal (de_descriptor e)
     \<and> length (de_fields e) \<le> 64
     \<and> distinct (map df_name (de_fields e))
     \<and> list_all (\<lambda>f. field_private f \<and> df_sensitivity f \<le> ed_sensitivity (de_descriptor e))
         (de_fields e))"

lemma fields_check_ok:
  "fields_check names highest fs = Inr h \<longleftrightarrow> distinct (map df_name fs)
    \<and> set (map df_name fs) \<inter> names = {} \<and> list_all field_private fs
    \<and> h = foldl (\<lambda>h f. max h (df_sensitivity f)) highest fs"
  by (induction fs arbitrary: names highest) (auto simp: result_simps)

lemma highest_le:
  "foldl (\<lambda>h f. max h (df_sensitivity f)) highest fs \<le> s
    \<longleftrightarrow> highest \<le> s \<and> list_all (\<lambda>f. df_sensitivity f \<le> s) fs"
  by (induction fs arbitrary: highest) auto

lemma Public_least [simp]: "Public \<le> s"
  by (simp add: less_eq_DiagnosticSensitivity_def)

lemma envelope_validate_ok [result_simps]: "envelope_validate e = Inr u \<longleftrightarrow> envelope_legal e"
  by (auto simp: envelope_validate_def envelope_legal_def result_simps fields_check_ok not_less
      highest_le MAX_FIELDS_def list_all_iff)

section \<open>Frames\<close>

datatype FrameCompleteness = Complete | Partial

record 'json frame_codec =
  jc_from_slice :: "u8 list \<Rightarrow> 'json option"
  jc_pointer_str :: "'json \<Rightarrow> string \<Rightarrow> string option"
  jc_pointer_bool :: "'json \<Rightarrow> string \<Rightarrow> bool option"
  jc_wire :: "'json \<Rightarrow> DiagnosticEnvelope option"
  jc_to_vec :: "DiagnosticEnvelope \<Rightarrow> u8 list option"

text \<open>The conversions of the wire types, from the leaves up to the envelope.\<close>

definition value_from_wire :: "ValueRepresentation \<Rightarrow> ContractError + ValueRepresentation" where
  "value_from_wire v =
     (case v of
        Plain val \<Rightarrow> rbind (bounded_text_new val) (\<lambda>t. Inr (Plain t))
      | Redacted marker \<Rightarrow> rbind (bounded_text_new marker) (\<lambda>t. Inr (Redacted t))
      | OpaqueUnknown byte_len exportable \<Rightarrow> Inr (OpaqueUnknown byte_len exportable))"

definition field_from_wire :: "DiagnosticField \<Rightarrow> ContractError + DiagnosticField" where
  "field_from_wire f =
     rbind (bounded_text_new (df_name f)) (\<lambda>name.
     rbind (value_from_wire (df_value f)) (\<lambda>val.
     field_new name (df_sensitivity f) val))"

fun kind_from_wire :: "EventKind \<Rightarrow> ContractError + EventKind" where
  "kind_from_wire (Unknown unknown_id mandatory) =
     rbind (bounded_text_new unknown_id) (\<lambda>t. Inr (Unknown t mandatory))"
| "kind_from_wire kind = Inr kind"

definition descriptor_from_wire :: "EventDescriptor \<Rightarrow> ContractError + EventDescriptor" where
  "descriptor_from_wire d =
     rbind (identifier_new EventId (ed_stable_id d)) (\<lambda>stable_id.
     rbind (kind_from_wire (ed_kind d)) (\<lambda>kind.
     descriptor_new stable_id kind (ed_criticality d) (ed_sensitivity d) (ed_watcher_policy d)))"

definition schema_from_wire :: "SchemaIdentity \<Rightarrow> ContractError + SchemaIdentity" where
  "schema_from_wire s =
     rbind (schema_hash_new (si_digest s)) (\<lambda>digest.
     schema_identity_new (si_algorithm s) (si_canonical_input_version s) digest)"

definition sequence_from_wire :: "SequenceIdentity \<Rightarrow> ContractError + SequenceIdentity" where
  "sequence_from_wire q =
     rbind (identifier_new ProducerInstanceId (sk_producer_instance (sq_key q))) (\<lambda>producer.
     rbind (identifier_new BootSessionId (sk_boot_session (sq_key q))) (\<lambda>boot.
     rbind (identifier_new ChannelId (sk_channel (sq_key q))) (\<lambda>channel.
     sequence_identity_new \<lparr> sk_producer_instance = producer, sk_boot_session = boot,
       sk_channel = channel \<rparr> (sq_sequence q))))"

fun fields_from_wire :: "DiagnosticField list \<Rightarrow> ContractError + DiagnosticField list" where
  "fields_from_wire [] = Inr []"
| "fields_from_wire (f # rest) =
     rbind (field_from_wire f) (\<lambda>g. rbind (fields_from_wire rest) (\<lambda>gs. Inr (g # gs)))"

definition envelope_from_wire :: "DiagnosticEnvelope \<Rightarrow> ContractError + DiagnosticEnvelope" where
  "envelope_from_wire w =
     rbind (version_new (pv_major (de_protocol w)) (pv_minor (de_protocol w))) (\<lambda>protocol.
     rbind (schema_from_wire (de_schema w)) (\<lambda>schema.
     rbind (identifier_new ProducerInstanceId (de_producer_instance w)) (\<lambda>producer.
     rbind (identifier_new CapabilityId (de_capability_id w)) (\<lambda>capability.
     rbind (sequence_from_wire (de_sequence w)) (\<lambda>sequence.
     rbind (descriptor_from_wire (de_descriptor w)) (\<lambda>descriptor.
     rbind (fields_from_wire (de_fields w)) (\<lambda>fs.
     let e = \<lparr> de_protocol = protocol, de_schema = schema, de_producer_instance = producer,
       de_capability_id = capability, de_sequence = sequence,
       de_observed_monotonic_ns = de_observed_monotonic_ns w, de_descriptor = descriptor,
       de_fields = fs \<rparr>
     in rbind (envelope_validate e) (\<lambda>_. Inr e))))))))"

definition decode_json_frame ::
  "'json frame_codec \<Rightarrow> u8 list \<Rightarrow> FrameCompleteness \<Rightarrow> ContractError + DiagnosticEnvelope" where
  "decode_json_frame codec bytes completeness =
     (if completeness = Partial then Inl PartialFrame
      else if bytes = [] then Inl MalformedFrame
      else if length bytes > MAX_FRAME_BYTES
      then Inl (LimitExceeded Frame MAX_FRAME_BYTES (length bytes))
      else
        rbind (ok_or MalformedFrame (jc_from_slice codec bytes)) (\<lambda>val.
        if jc_pointer_str codec val ''/descriptor/kind/kind'' = Some ''unknown''
          \<and> jc_pointer_bool codec val ''/descriptor/kind/mandatory'' = Some True
        then Inl UnknownMandatoryKind
        else
          rbind (ok_or MalformedFrame (jc_wire codec val)) (\<lambda>w.
          map_err (\<lambda>_. MalformedFrame) (envelope_from_wire w))))"

definition encode_json_frame :: "'json frame_codec \<Rightarrow> DiagnosticEnvelope \<Rightarrow> ContractError + u8 list" where
  "encode_json_frame codec e =
     rbind (envelope_validate e) (\<lambda>_.
     rbind (ok_or MalformedFrame (jc_to_vec codec e)) (\<lambda>bytes.
     if length bytes > MAX_FRAME_BYTES
     then Inl (LimitExceeded Frame MAX_FRAME_BYTES (length bytes))
     else Inr bytes))"

text \<open>The newtypes of an envelope hold what their constructors admit.\<close>

definition value_texts_ok :: "ValueRepresentation \<Rightarrow> bool" where
  "value_texts_ok v = (case v of Plain t \<Rightarrow> text_ok t | Redacted t \<Rightarrow> text_ok t | _ \<Rightarrow> True)"

definition envelope_typed :: "DiagnosticEnvelope \<Rightarrow> bool" where
  "envelope_typed e = (length (si_digest (de_schema e)) = 64 \<and> list_all hex_char (si_digest (de_schema e))
     \<and> identifier_ok (de_producer_instance e) \<and> identifier_ok (de_capability_id e)
     \<and> identifier_ok (sk_producer_instance (sq_key (de_sequence e)))
     \<and> identifier_ok (sk_boot_session (sq_key (de_sequence e)))
     \<and> identifier_ok (sk_channel (sq_key (de_sequence e)))
     \<and> identifier_ok (ed_stable_id (de_descriptor e))
     \<and> (case ed_kind (de_descriptor e) of Unknown t _ \<Rightarrow> text_ok t | _ \<Rightarrow> True)
     \<and> list_all (\<lambda>f. text_ok (df_name f) \<and> value_texts_ok (df_value f)) (de_fields e))"

lemma value_from_wire_ok [result_simps]: "value_from_wire v = Inr v' \<longleftrightarrow> v' = v \<and> value_texts_ok v"
  by (cases v) (auto simp: value_from_wire_def value_texts_ok_def result_simps)

lemma field_new_ok [result_simps]: "field_new name sensitivity val = Inr f
    \<longleftrightarrow> f = \<lparr> df_name = name, df_sensitivity = sensitivity, df_value = val \<rparr> \<and> field_private f"
  by (auto simp: field_new_def result_simps Let_def)

lemma field_from_wire_ok [result_simps]: "field_from_wire f = Inr g
    \<longleftrightarrow> g = f \<and> field_private f \<and> text_ok (df_name f) \<and> value_texts_ok (df_value f)"
  by (cases f) (auto simp: field_from_wire_def result_simps)

lemma kind_from_wire_ok [result_simps]: "kind_from_wire kind = Inr k
    \<longleftrightarrow> k = kind \<and> (case kind of Unknown t _ \<Rightarrow> text_ok t | _ \<Rightarrow> True)"
  by (cases kind) (auto simp: result_simps)

lemma descriptor_from_wire_ok [result_simps]: "descriptor_from_wire d = Inr e
    \<longleftrightarrow> e = d \<and> descriptor_legal d \<and> identifier_ok (ed_stable_id d)
      \<and> (case ed_kind d of Unknown t _ \<Rightarrow> text_ok t | _ \<Rightarrow> True)"
  by (cases d) (auto simp: descriptor_from_wire_def descriptor_new_def result_simps Let_def)

lemma schema_from_wire_ok [result_simps]: "schema_from_wire s = Inr t
    \<longleftrightarrow> t = s \<and> si_canonical_input_version s \<noteq> 0 \<and> length (si_digest s) = 64
      \<and> list_all hex_char (si_digest s)"
  by (cases s) (auto simp: schema_from_wire_def schema_hash_new_def schema_identity_new_def result_simps)

lemma sequence_from_wire_ok [result_simps]: "sequence_from_wire q = Inr r
    \<longleftrightarrow> r = q \<and> sq_sequence q \<noteq> 0 \<and> identifier_ok (sk_producer_instance (sq_key q))
      \<and> identifier_ok (sk_boot_session (sq_key q)) \<and> identifier_ok (sk_channel (sq_key q))"
  by (cases q; cases "sq_key q")
    (auto simp: sequence_from_wire_def sequence_identity_new_def result_simps)

lemma fields_from_wire_ok [result_simps]: "fields_from_wire fs = Inr gs \<longleftrightarrow> gs = fs
    \<and> list_all (\<lambda>f. field_private f \<and> text_ok (df_name f) \<and> value_texts_ok (df_value f)) fs"
  by (induction fs arbitrary: gs) (auto simp: result_simps)

lemma envelope_from_wire_ok [result_simps]:
  "envelope_from_wire w = Inr e \<longleftrightarrow> e = w \<and> envelope_legal w \<and> envelope_typed w"
proof -
  have version: "version_new (pv_major v) (pv_minor v) = Inr v' \<longleftrightarrow> v' = v \<and> pv_major v \<noteq> 0" for v v'
    by (cases v) (auto simp: version_new_def)
  show ?thesis
    by (cases w)
      (auto simp: envelope_from_wire_def result_simps version Let_def envelope_legal_def
        envelope_typed_def list_all_iff)
qed

section \<open>Properties\<close>

text \<open>
  C37: a frame is decoded to an envelope exactly when it is complete, nonempty and within the bound,
  parses, does not announce an unknown mandatory kind, and its content has legal identifiers and
  texts and is a legal envelope: no secret but as a redaction marker, no field above the sensitivity
  of its event, unknown values bounded and local, field names distinct, critical events durable, and
  a sequence of its own producer. Whatever the decoder accepts is what the wire content says.
\<close>

theorem diagnostic_frame_exact:
  "decode_json_frame codec bytes completeness = Inr e \<longleftrightarrow> completeness = Complete \<and> bytes \<noteq> []
    \<and> length bytes \<le> 256 * 1024
    \<and> (\<exists>val. jc_from_slice codec bytes = Some val
        \<and> \<not> (jc_pointer_str codec val ''/descriptor/kind/kind'' = Some ''unknown''
             \<and> jc_pointer_bool codec val ''/descriptor/kind/mandatory'' = Some True)
        \<and> jc_wire codec val = Some e)
    \<and> envelope_legal e \<and> envelope_typed e"
  by (cases completeness)
    (auto simp: decode_json_frame_def result_simps MAX_FRAME_BYTES_def not_less)

text \<open>What encoding produces, decoding reads back, when the codec reads what it writes.\<close>

definition codec_faithful :: "'json frame_codec \<Rightarrow> bool" where
  "codec_faithful codec = (\<forall>e bytes. jc_to_vec codec e = Some bytes \<longrightarrow> bytes \<noteq> []
     \<and> (\<exists>val. jc_from_slice codec bytes = Some val \<and> jc_wire codec val = Some e
          \<and> (jc_pointer_bool codec val ''/descriptor/kind/mandatory'' = Some True
               \<longrightarrow> is_unknown_mandatory (ed_kind (de_descriptor e)))))"

lemma diagnostic_frame_roundtrip:
  assumes "codec_faithful codec" "envelope_typed e" "encode_json_frame codec e = Inr bytes"
  shows "decode_json_frame codec bytes Complete = Inr e"
proof -
  have legal: "envelope_legal e" and bytes: "jc_to_vec codec e = Some bytes" "length bytes \<le> MAX_FRAME_BYTES"
    using assms(3) by (auto simp: encode_json_frame_def result_simps)
  obtain val where val: "bytes \<noteq> []" "jc_from_slice codec bytes = Some val" "jc_wire codec val = Some e"
    "jc_pointer_bool codec val ''/descriptor/kind/mandatory'' = Some True
      \<longrightarrow> is_unknown_mandatory (ed_kind (de_descriptor e))"
    using assms(1) bytes(1) unfolding codec_faithful_def by blast
  have "\<not> is_unknown_mandatory (ed_kind (de_descriptor e))"
    using legal by (cases "ed_kind (de_descriptor e)"; cases "ed_watcher_policy (de_descriptor e)")
      (auto simp: envelope_legal_def descriptor_legal_def is_declared_lossy_def)
  moreover have "envelope_from_wire e = Inr e"
    using legal assms(2) by (simp add: envelope_from_wire_ok)
  ultimately show ?thesis
    using val bytes(2) by (auto simp: decode_json_frame_def)
qed

section \<open>Acknowledgements and crash evidence\<close>

datatype Durability = Admitted | Written | Synced

record DiagnosticAck =
  dk_sequence :: SequenceIdentity
  dk_durability :: Durability
  dk_acknowledged_monotonic_ns :: u64

record DiagnosticCancellationRequest =
  dr_cancellation_id :: string
  dr_target_request_id :: string
  dr_requested_monotonic_ns :: u64

datatype CancellationDisposition = Accepted | AlreadyTerminal | UnknownRequest

record CancellationAck =
  dc_cancellation_id :: string
  dc_target_request_id :: string
  dc_disposition :: CancellationDisposition
  dc_acknowledged_monotonic_ns :: u64

datatype DiagnosticStartupStatus = Ready | Degraded string | Incompatible string

record DiagnosticResult =
  dt_request_id :: string
  dt_status :: DiagnosticStartupStatus
  dt_completed_monotonic_ns :: u64

datatype CrashObservation = ProcessExitObserved

datatype ExitKind = ExitCode i32 | Signal u32 | UnknownExit

record CollectionAck =
  ck_request_id :: string
  ck_acknowledged_monotonic_ns :: u64

datatype EvidenceRetention = Retained | Collected CollectionAck | Expired u64

definition retention_acknowledge :: "EvidenceRetention \<Rightarrow> CollectionAck \<Rightarrow> ContractError + EvidenceRetention" where
  "retention_acknowledge r acknowledgement =
     (if r \<noteq> Retained then Inl RetentionTerminal else Inr (Collected acknowledgement))"

definition retention_expire :: "EvidenceRetention \<Rightarrow> u64 \<Rightarrow> ContractError + EvidenceRetention" where
  "retention_expire r expired_monotonic_ns =
     (if r \<noteq> Retained then Inl RetentionTerminal else Inr (Expired expired_monotonic_ns))"

record CrashEnvelope =
  cv_observation :: CrashObservation
  cv_producer_instance :: string
  cv_watcher_artifact_id :: string
  cv_exit :: ExitKind
  cv_observed_monotonic_ns :: u64
  cv_last_durable_producer_sequence :: "SequenceIdentity option"
  cv_retention :: EvidenceRetention

definition crash_validate :: "CrashEnvelope \<Rightarrow> ContractError + unit" where
  "crash_validate c =
     (case cv_last_durable_producer_sequence c of
        Some q \<Rightarrow>
          if sk_producer_instance (sq_key q) \<noteq> cv_producer_instance c
          then Inl (Sequence IdentityChanged) else Inr ()
      | None \<Rightarrow> Inr ())"

definition crash_new ::
  "string \<Rightarrow> string \<Rightarrow> ExitKind \<Rightarrow> u64 \<Rightarrow> SequenceIdentity option \<Rightarrow> ContractError + CrashEnvelope" where
  "crash_new producer_instance watcher_artifact_id exit_kind observed last_durable =
     (let c = \<lparr> cv_observation = ProcessExitObserved, cv_producer_instance = producer_instance,
        cv_watcher_artifact_id = watcher_artifact_id, cv_exit = exit_kind,
        cv_observed_monotonic_ns = observed, cv_last_durable_producer_sequence = last_durable,
        cv_retention = Retained \<rparr>
      in rbind (crash_validate c) (\<lambda>_. Inr c))"

text \<open>Retained evidence ends once: no step leaves a terminal retention.\<close>

lemma retention_ends_once:
  "retention_acknowledge r a = Inr r' \<or> retention_expire r t = Inr r' \<Longrightarrow> r = Retained \<and> r' \<noteq> Retained"
  by (auto simp: retention_acknowledge_def retention_expire_def split: if_splits)

lemma crash_new_retained: "crash_new p w x n q = Inr c \<Longrightarrow> cv_retention c = Retained
    \<and> (case q of None \<Rightarrow> True | Some s \<Rightarrow> sk_producer_instance (sq_key s) = p)"
  by (auto simp: crash_new_def crash_validate_def result_simps Let_def split: option.splits if_splits)

end
