(* ===== verification/Archive_Keys.thy ===== *)
theory Archive_Keys
  imports Contract_Identity Storage_Contract Decimal_Text
begin

text \<open>
  Archive identities, canonical keys and leases (\<open>fforager-contracts/src/archive.rs\<close>).

  The identifier newtypes are strings, as in \<open>Contract_Identity\<close>; so is \<open>LeaseToken\<close>, whose only
  constructor is the checked one. The canonical key of an identity is the row key of every table of
  the archive store: it determines the identity, and different identities never share one.
\<close>

section \<open>Limits and errors\<close>

definition ARCHIVE_SCHEMA :: SchemaVersion where
  "ARCHIVE_SCHEMA = \<lparr> sv_major = 1, sv_minor = 0 \<rparr>"

record ArchiveLimits =
  al_maximum_wire_bytes :: usize
  al_maximum_text_bytes :: usize
  al_maximum_identities_per_output :: usize
  al_maximum_import_entries :: usize
  al_maximum_lease_millis :: u64
  al_maximum_migration_batch_records :: u32

definition archive_limits_default :: ArchiveLimits where
  "archive_limits_default = \<lparr> al_maximum_wire_bytes = 1024 * 1024, al_maximum_text_bytes = 4096,
     al_maximum_identities_per_output = 64, al_maximum_import_entries = 1024,
     al_maximum_lease_millis = 24 * 60 * 60 * 1000, al_maximum_migration_batch_records = 4096 \<rparr>"

datatype ArchiveContractError =
    UnsupportedSchema SchemaVersion
  | InvalidField string
  | EmptyField string
  | ZeroValue string
  | LimitExceeded string usize usize
  | IdentityMismatch string
  | DuplicateIdentity string
  | NonCanonicalOrder string
  | InvalidIdentityEventCombination
  | UnknownFilesystemProfile
  | DegradedFilesystemProfile
  | FilesystemProfileMismatch
  | UnsupportedFilesystemProfile
  | FilesystemCommitmentMissing string
  | ReconciliationClockBeforeLeaseAcquisition
  | TimeOverflow
  | GenerationOverflow
  | InvalidTimeRange
  | LeaseExpired
  | InvalidMigrationRange
  | InvalidMigrationCheckpoint
  | NonMonotonicImportLine
  | WireEncoding
  | WireDecoding

section \<open>Field checks\<close>

definition validate_schema :: "SchemaVersion \<Rightarrow> ArchiveContractError + unit" where
  "validate_schema schema =
     (if sv_major schema \<noteq> sv_major ARCHIVE_SCHEMA then Inl (UnsupportedSchema schema) else Inr ())"

definition validate_archive_text :: "string \<Rightarrow> string \<Rightarrow> usize \<Rightarrow> ArchiveContractError + unit" where
  "validate_archive_text field val maximum =
     (if val = [] then Inl (EmptyField field)
      else if length val > maximum then Inl (LimitExceeded field (length val) maximum)
      else if has_control val then Inl (InvalidField field)
      else Inr ())"

definition validate_component :: "string \<Rightarrow> string \<Rightarrow> usize \<Rightarrow> ArchiveContractError + unit" where
  "validate_component field val maximum =
     rbind (validate_archive_text field val maximum) (\<lambda>_.
     if \<not> list_all id_char val then Inl (InvalidField field) else Inr ())"

definition validate_digest :: "string \<Rightarrow> string \<Rightarrow> ArchiveContractError + unit" where
  "validate_digest field val =
     (if length val \<noteq> 64 \<or> \<not> list_all hex_char val then Inl (InvalidField field) else Inr ())"

definition require_nonzero :: "string \<Rightarrow> u64 \<Rightarrow> ArchiveContractError + unit" where
  "require_nonzero field n = (if n = 0 then Inl (ZeroValue field) else Inr ())"

definition validate_nonempty_bounded :: "string \<Rightarrow> usize \<Rightarrow> usize \<Rightarrow> ArchiveContractError + unit" where
  "validate_nonempty_bounded field actual maximum =
     (if actual = 0 then Inl (EmptyField field)
      else if actual > maximum then Inl (LimitExceeded field actual maximum)
      else Inr ())"

fun reject_adjacent_duplicates :: "string \<Rightarrow> string list \<Rightarrow> ArchiveContractError + unit" where
  "reject_adjacent_duplicates field (a # b # rest) =
     (if a = b then Inl (DuplicateIdentity field)
      else if b < a then Inl (NonCanonicalOrder field)
      else reject_adjacent_duplicates field (b # rest))"
| "reject_adjacent_duplicates field vs = Inr ()"

lemma validate_schema_ok [result_simps]: "validate_schema s = Inr u \<longleftrightarrow> sv_major s = 1"
  by (simp add: validate_schema_def ARCHIVE_SCHEMA_def)

definition archive_text_ok :: "string \<Rightarrow> usize \<Rightarrow> bool" where
  "archive_text_ok val maximum = (val \<noteq> [] \<and> length val \<le> maximum \<and> \<not> has_control val)"

definition component_ok :: "string \<Rightarrow> usize \<Rightarrow> bool" where
  "component_ok val maximum = (val \<noteq> [] \<and> length val \<le> maximum \<and> list_all id_char val)"

definition digest_ok :: "string \<Rightarrow> bool" where
  "digest_ok val = (length val = 64 \<and> list_all hex_char val)"

lemma validate_archive_text_ok [result_simps]:
  "validate_archive_text field val maximum = Inr u \<longleftrightarrow> archive_text_ok val maximum"
  by (auto simp: validate_archive_text_def archive_text_ok_def)

lemma validate_component_ok [result_simps]:
  "validate_component field val maximum = Inr u \<longleftrightarrow> component_ok val maximum"
  by (auto simp: validate_component_def archive_text_ok_def component_ok_def result_simps
      has_control_def list_all_iff list_ex_iff id_char_visible)

lemma validate_digest_ok [result_simps]: "validate_digest field val = Inr u \<longleftrightarrow> digest_ok val"
  by (auto simp: validate_digest_def digest_ok_def)

lemma require_nonzero_ok [result_simps]: "require_nonzero field n = Inr u \<longleftrightarrow> n \<noteq> 0"
  by (simp add: require_nonzero_def)

lemma validate_nonempty_bounded_ok [result_simps]:
  "validate_nonempty_bounded field actual maximum = Inr u \<longleftrightarrow> 0 < actual \<and> actual \<le> maximum"
  by (auto simp: validate_nonempty_bounded_def)

lemma reject_adjacent_duplicates_ok [result_simps]:
  "reject_adjacent_duplicates field vs = Inr u \<longleftrightarrow> sorted_wrt (<) vs"
  by (induction field vs rule: reject_adjacent_duplicates.induct) (auto simp: not_less)

section \<open>Identities and keys\<close>

datatype ArchiveIdentityLevel = ItemLevel | RepresentationLevel | TrackLevel | AssetLevel | DerivedOutputLevel

fun level_wire_name :: "ArchiveIdentityLevel \<Rightarrow> string" where
  "level_wire_name ItemLevel = ''item''"
| "level_wire_name RepresentationLevel = ''representation''"
| "level_wire_name TrackLevel = ''track''"
| "level_wire_name AssetLevel = ''asset''"
| "level_wire_name DerivedOutputLevel = ''derived_output''"

datatype ArchiveIdentity =
    Item string | Representation string | Track string | Asset string | DerivedOutput string

fun identity_level :: "ArchiveIdentity \<Rightarrow> ArchiveIdentityLevel" where
  "identity_level (Item _) = ItemLevel"
| "identity_level (Representation _) = RepresentationLevel"
| "identity_level (Track _) = TrackLevel"
| "identity_level (Asset _) = AssetLevel"
| "identity_level (DerivedOutput _) = DerivedOutputLevel"

fun identity_as_str :: "ArchiveIdentity \<Rightarrow> string" where
  "identity_as_str (Item val) = val"
| "identity_as_str (Representation val) = val"
| "identity_as_str (Track val) = val"
| "identity_as_str (Asset val) = val"
| "identity_as_str (DerivedOutput val) = val"

datatype ArchiveNamespace = SourceAsset | GeneratedMetadata | PostProcessingAction

fun namespace_wire_name :: "ArchiveNamespace \<Rightarrow> string" where
  "namespace_wire_name SourceAsset = ''source_asset''"
| "namespace_wire_name GeneratedMetadata = ''generated_metadata''"
| "namespace_wire_name PostProcessingAction = ''post_processing_action''"

record ArchiveKey =
  ak_schema :: SchemaVersion
  ak_namespace :: ArchiveNamespace
  ak_identity :: ArchiveIdentity
  ak_identity_rule_version :: u16
  ak_extractor_id :: string

definition key_validate :: "ArchiveLimits \<Rightarrow> ArchiveKey \<Rightarrow> ArchiveContractError + unit" where
  "key_validate limits k =
     rbind (validate_schema (ak_schema k)) (\<lambda>_.
     if ak_identity_rule_version k = 0 then Inl (ZeroValue ''identity_rule_version'')
     else validate_component ''extractor_id'' (ak_extractor_id k) (al_maximum_text_bytes limits))"

definition canonical_text :: "ArchiveKey \<Rightarrow> string" where
  "canonical_text k = ''archive-identity-v'' @ decimal (unat (ak_identity_rule_version k)) @ ''|''
     @ namespace_wire_name (ak_namespace k) @ ''|'' @ level_wire_name (identity_level (ak_identity k))
     @ ''|'' @ ak_extractor_id k @ ''|'' @ identity_as_str (ak_identity k)"

definition canonical_key :: "ArchiveLimits \<Rightarrow> ArchiveKey \<Rightarrow> ArchiveContractError + string" where
  "canonical_key limits k = rbind (key_validate limits k) (\<lambda>_. Inr (canonical_text k))"

definition key_valid :: "ArchiveLimits \<Rightarrow> ArchiveKey \<Rightarrow> bool" where
  "key_valid limits k = (sv_major (ak_schema k) = 1 \<and> ak_identity_rule_version k \<noteq> 0
     \<and> component_ok (ak_extractor_id k) (al_maximum_text_bytes limits))"

lemma key_validate_ok [result_simps]: "key_validate limits k = Inr u \<longleftrightarrow> key_valid limits k"
  by (auto simp: key_validate_def key_valid_def result_simps)

lemma canonical_key_ok [result_simps]:
  "canonical_key limits k = Inr c \<longleftrightarrow> key_valid limits k \<and> c = canonical_text k"
  by (auto simp: canonical_key_def result_simps)

subsection \<open>Injectivity\<close>

lemma bar_not_digit: "CHR ''|'' \<notin> set (decimal n)"
proof
  assume "CHR ''|'' \<in> set (decimal n)"
  then obtain d :: nat where d: "d < 10" "CHR ''|'' = char_of (48 + d)" using decimal_digit by blast
  then have "(124 :: nat) = 48 + d" using digit_char [of d] by (simp flip: d(2))
  with d(1) show False by simp
qed

lemma bar_not_id_char: "list_all id_char s \<Longrightarrow> CHR ''|'' \<notin> set s"
  by (auto simp: list_all_iff id_char_def byte_def is_ascii_lowercase_def is_ascii_digit_def)

lemma split_bar:
  "a @ CHR ''|'' # s = b @ CHR ''|'' # t \<Longrightarrow> CHR ''|'' \<notin> set a \<Longrightarrow> CHR ''|'' \<notin> set b \<Longrightarrow> a = b \<and> s = t"
  by (metis option.inject prod.inject split_once_append)

lemma namespace_wire_name_inject: "namespace_wire_name a = namespace_wire_name b \<longleftrightarrow> a = b"
  by (cases a; cases b) simp_all

lemma level_wire_name_inject: "level_wire_name a = level_wire_name b \<longleftrightarrow> a = b"
  by (cases a; cases b) simp_all

lemma bar_not_namespace: "CHR ''|'' \<notin> set (namespace_wire_name n)"
  by (cases n) simp_all

lemma bar_not_level: "CHR ''|'' \<notin> set (level_wire_name l)"
  by (cases l) simp_all

lemma identity_eq_iff: "a = b \<longleftrightarrow> identity_level a = identity_level b \<and> identity_as_str a = identity_as_str b"
  by (cases a; cases b) auto

text \<open>The identity a key stands for: everything but the wire version it was written with.\<close>

definition same_identity :: "ArchiveKey \<Rightarrow> ArchiveKey \<Rightarrow> bool" where
  "same_identity a b = (ak_namespace a = ak_namespace b \<and> ak_identity a = ak_identity b
     \<and> ak_identity_rule_version a = ak_identity_rule_version b
     \<and> ak_extractor_id a = ak_extractor_id b)"

lemma canonical_text_eq_iff:
  assumes "key_valid limits a" "key_valid limits b"
  shows "canonical_text a = canonical_text b \<longleftrightarrow> same_identity a b"
proof
  assume eq: "canonical_text a = canonical_text b"
  have ids: "CHR ''|'' \<notin> set (ak_extractor_id a)" "CHR ''|'' \<notin> set (ak_extractor_id b)"
    using assms by (auto simp: key_valid_def component_ok_def dest: bar_not_id_char)
  have "decimal (unat (ak_identity_rule_version a)) @ CHR ''|'' # namespace_wire_name (ak_namespace a)
      @ CHR ''|'' # level_wire_name (identity_level (ak_identity a))
      @ CHR ''|'' # ak_extractor_id a @ CHR ''|'' # identity_as_str (ak_identity a)
    = decimal (unat (ak_identity_rule_version b)) @ CHR ''|'' # namespace_wire_name (ak_namespace b)
      @ CHR ''|'' # level_wire_name (identity_level (ak_identity b))
      @ CHR ''|'' # ak_extractor_id b @ CHR ''|'' # identity_as_str (ak_identity b)"
    using eq by (simp add: canonical_text_def)
  then have "decimal (unat (ak_identity_rule_version a)) = decimal (unat (ak_identity_rule_version b))"
    and "namespace_wire_name (ak_namespace a) = namespace_wire_name (ak_namespace b)"
    and "level_wire_name (identity_level (ak_identity a)) = level_wire_name (identity_level (ak_identity b))"
    and "ak_extractor_id a = ak_extractor_id b"
    and "identity_as_str (ak_identity a) = identity_as_str (ak_identity b)"
    using ids bar_not_digit bar_not_namespace bar_not_level by (blast dest: split_bar)+
  then show "same_identity a b"
    by (simp add: same_identity_def decimal_inject namespace_wire_name_inject level_wire_name_inject
        identity_eq_iff unat_eq_iff)
next
  assume "same_identity a b"
  then show "canonical_text a = canonical_text b"
    by (simp add: same_identity_def canonical_text_def)
qed

end
