(* ===== verification/Archive_Leases.thy ===== *)
theory Archive_Leases
  imports Archive_Keys
begin

text \<open>
  Claims, leases and their renewal (\<open>fforager-contracts/src/archive.rs\<close>). Instants are milliseconds
  the caller supplies; nothing reads a clock.
\<close>

section \<open>Data\<close>

record ArchiveProvenance =
  av_job_id :: string
  av_transaction_id :: string
  av_source_locator_digest :: string
  av_request_provenance_digest :: string

definition lease_token_new :: "string \<Rightarrow> ArchiveContractError + string" where
  "lease_token_new val =
     (if \<not> starts_with val ''lease_'' \<or> length val = length ''lease_'' \<or> length val > 128
      then Inl (InvalidField ''lease_token'')
      else if \<not> list_all id_char val then Inl (InvalidField ''lease_token'')
      else Inr val)"

record ArchiveClaimRequest =
  cl_key :: ArchiveKey
  cl_owner_job_id :: string
  cl_lease_token :: string
  cl_requested_at_unix_millis :: u64
  cl_lease_duration_millis :: u64
  cl_provenance :: ArchiveProvenance

record ArchiveLease =
  le_key :: ArchiveKey
  le_owner_job_id :: string
  le_claim_provenance :: ArchiveProvenance
  le_token :: string
  le_generation :: u64
  le_acquired_at_unix_millis :: u64
  le_expires_at_unix_millis :: u64

record ArchiveLeaseRenewalRequest =
  ln_current_lease :: ArchiveLease
  ln_new_token :: string
  ln_renewed_at_unix_millis :: u64
  ln_lease_duration_millis :: u64

section \<open>Validation\<close>

definition provenance_validate :: "ArchiveProvenance \<Rightarrow> ArchiveContractError + unit" where
  "provenance_validate p =
     rbind (validate_digest ''source_locator_digest'' (av_source_locator_digest p)) (\<lambda>_.
     validate_digest ''request_provenance_digest'' (av_request_provenance_digest p))"

definition duration_check :: "ArchiveLimits \<Rightarrow> u64 \<Rightarrow> ArchiveContractError + unit" where
  "duration_check limits duration =
     (if duration = 0 \<or> duration > al_maximum_lease_millis limits
      then Inl (LimitExceeded ''lease_duration_millis'' (unat duration) (unat (al_maximum_lease_millis limits)))
      else Inr ())"

definition claim_request_validate :: "ArchiveLimits \<Rightarrow> ArchiveClaimRequest \<Rightarrow> ArchiveContractError + unit" where
  "claim_request_validate limits r =
     rbind (key_validate limits (cl_key r)) (\<lambda>_.
     rbind (provenance_validate (cl_provenance r)) (\<lambda>_.
     if cl_owner_job_id r \<noteq> av_job_id (cl_provenance r) then Inl (IdentityMismatch ''owner_job_id'')
     else if cl_requested_at_unix_millis r = 0 then Inl (ZeroValue ''requested_at_unix_millis'')
     else
       rbind (duration_check limits (cl_lease_duration_millis r)) (\<lambda>_.
       rbind (ok_or TimeOverflow
         (checked_add (cl_requested_at_unix_millis r) (cl_lease_duration_millis r))) (\<lambda>_. Inr ()))))"

definition lease_validate :: "ArchiveLimits \<Rightarrow> ArchiveLease \<Rightarrow> ArchiveContractError + unit" where
  "lease_validate limits l =
     rbind (key_validate limits (le_key l)) (\<lambda>_.
     rbind (provenance_validate (le_claim_provenance l)) (\<lambda>_.
     if le_owner_job_id l \<noteq> av_job_id (le_claim_provenance l)
     then Inl (IdentityMismatch ''lease.owner_job_id'')
     else if le_generation l = 0 then Inl (ZeroValue ''lease_generation'')
     else if le_acquired_at_unix_millis l = 0
       \<or> le_expires_at_unix_millis l \<le> le_acquired_at_unix_millis l
     then Inl InvalidTimeRange
     else
       let duration = le_expires_at_unix_millis l - le_acquired_at_unix_millis l
       in if duration > al_maximum_lease_millis limits
          then Inl (LimitExceeded ''lease_duration_millis'' (unat duration)
            (unat (al_maximum_lease_millis limits)))
          else Inr ()))"

definition is_stale_at :: "ArchiveLease \<Rightarrow> u64 \<Rightarrow> bool" where
  "is_stale_at l now_unix_millis = (now_unix_millis \<ge> le_expires_at_unix_millis l)"

definition renewal_validate :: "ArchiveLimits \<Rightarrow> ArchiveLeaseRenewalRequest \<Rightarrow> ArchiveContractError + unit" where
  "renewal_validate limits r =
     rbind (lease_validate limits (ln_current_lease r)) (\<lambda>_.
     if ln_new_token r = le_token (ln_current_lease r) then Inl (IdentityMismatch ''new_token'')
     else if ln_renewed_at_unix_millis r < le_acquired_at_unix_millis (ln_current_lease r)
       \<or> is_stale_at (ln_current_lease r) (ln_renewed_at_unix_millis r)
     then Inl LeaseExpired
     else
       rbind (duration_check limits (ln_lease_duration_millis r)) (\<lambda>_.
       rbind (ok_or TimeOverflow
         (checked_add (ln_renewed_at_unix_millis r) (ln_lease_duration_millis r))) (\<lambda>_.
       rbind (ok_or GenerationOverflow (checked_add (le_generation (ln_current_lease r)) 1)) (\<lambda>_.
       Inr ()))))"

definition renewed_lease ::
  "ArchiveLimits \<Rightarrow> ArchiveLeaseRenewalRequest \<Rightarrow> ArchiveContractError + ArchiveLease" where
  "renewed_lease limits r =
     rbind (renewal_validate limits r) (\<lambda>_.
     rbind (ok_or TimeOverflow
       (checked_add (ln_renewed_at_unix_millis r) (ln_lease_duration_millis r))) (\<lambda>expires.
     rbind (ok_or GenerationOverflow (checked_add (le_generation (ln_current_lease r)) 1)) (\<lambda>generation.
     Inr \<lparr> le_key = le_key (ln_current_lease r), le_owner_job_id = le_owner_job_id (ln_current_lease r),
       le_claim_provenance = le_claim_provenance (ln_current_lease r), le_token = ln_new_token r,
       le_generation = generation, le_acquired_at_unix_millis = ln_renewed_at_unix_millis r,
       le_expires_at_unix_millis = expires \<rparr>)))"

section \<open>What validation admits\<close>

definition provenance_ok :: "ArchiveProvenance \<Rightarrow> bool" where
  "provenance_ok p = (digest_ok (av_source_locator_digest p) \<and> digest_ok (av_request_provenance_digest p))"

definition lease_ok :: "ArchiveLimits \<Rightarrow> ArchiveLease \<Rightarrow> bool" where
  "lease_ok limits l = (key_valid limits (le_key l) \<and> provenance_ok (le_claim_provenance l)
     \<and> le_owner_job_id l = av_job_id (le_claim_provenance l) \<and> le_generation l \<noteq> 0
     \<and> le_acquired_at_unix_millis l \<noteq> 0
     \<and> unat (le_acquired_at_unix_millis l) < unat (le_expires_at_unix_millis l)
     \<and> unat (le_expires_at_unix_millis l)
         \<le> unat (le_acquired_at_unix_millis l) + unat (al_maximum_lease_millis limits))"

definition claim_request_ok :: "ArchiveLimits \<Rightarrow> ArchiveClaimRequest \<Rightarrow> bool" where
  "claim_request_ok limits r = (key_valid limits (cl_key r) \<and> provenance_ok (cl_provenance r)
     \<and> cl_owner_job_id r = av_job_id (cl_provenance r) \<and> cl_requested_at_unix_millis r \<noteq> 0
     \<and> cl_lease_duration_millis r \<noteq> 0
     \<and> cl_lease_duration_millis r \<le> al_maximum_lease_millis limits
     \<and> unat (cl_requested_at_unix_millis r) + unat (cl_lease_duration_millis r) < 2 ^ 64)"

lemma provenance_validate_ok [result_simps]: "provenance_validate p = Inr u \<longleftrightarrow> provenance_ok p"
  by (auto simp: provenance_validate_def provenance_ok_def result_simps)

lemma duration_check_ok [result_simps]:
  "duration_check limits d = Inr u \<longleftrightarrow> d \<noteq> 0 \<and> d \<le> al_maximum_lease_millis limits"
  by (auto simp: duration_check_def not_less)

lemma checked_add_u64_ex: "(\<exists>c. checked_add a b = Some c) \<longleftrightarrow> unat a + unat b < 2 ^ 64" for a b :: u64
  by (simp add: checked_add_def)

lemma claim_request_validate_ok [result_simps]:
  "claim_request_validate limits r = Inr u \<longleftrightarrow> claim_request_ok limits r"
  by (auto simp: claim_request_validate_def claim_request_ok_def result_simps checked_add_def
      split: if_splits)

lemma lease_validate_ok [result_simps]: "lease_validate limits l = Inr u \<longleftrightarrow> lease_ok limits l"
proof -
  have "le_acquired_at_unix_millis l < le_expires_at_unix_millis l \<Longrightarrow>
    (le_expires_at_unix_millis l - le_acquired_at_unix_millis l \<le> al_maximum_lease_millis limits)
    = (unat (le_expires_at_unix_millis l)
         \<le> unat (le_acquired_at_unix_millis l) + unat (al_maximum_lease_millis limits))"
    by (simp add: word_le_nat_alt word_less_nat_alt unat_diff_word) linarith
  then show ?thesis
    by (auto simp: lease_validate_def lease_ok_def result_simps Let_def not_le not_less
        word_less_nat_alt [symmetric])
qed

text \<open>A renewed lease is valid, belongs to the same claim and is its next generation.\<close>

lemma renewed_lease_ok:
  assumes "renewed_lease limits r = Inr l"
  shows "lease_ok limits l \<and> lease_ok limits (ln_current_lease r)
    \<and> le_key l = le_key (ln_current_lease r)
    \<and> le_claim_provenance l = le_claim_provenance (ln_current_lease r)
    \<and> le_owner_job_id l = le_owner_job_id (ln_current_lease r)
    \<and> le_token l \<noteq> le_token (ln_current_lease r)
    \<and> unat (le_generation l) = Suc (unat (le_generation (ln_current_lease r)))
    \<and> le_acquired_at_unix_millis l \<ge> le_acquired_at_unix_millis (ln_current_lease r)
    \<and> le_acquired_at_unix_millis l < le_expires_at_unix_millis (ln_current_lease r)"
proof -
  let ?c = "ln_current_lease r"
  from assms obtain expires generation where c: "lease_ok limits ?c" "ln_new_token r \<noteq> le_token ?c"
    "ln_renewed_at_unix_millis r \<ge> le_acquired_at_unix_millis ?c"
    "ln_renewed_at_unix_millis r < le_expires_at_unix_millis ?c"
    "ln_lease_duration_millis r \<noteq> 0" "ln_lease_duration_millis r \<le> al_maximum_lease_millis limits"
    and e: "unat expires = unat (ln_renewed_at_unix_millis r) + unat (ln_lease_duration_millis r)"
    and g: "unat generation = Suc (unat (le_generation ?c))"
    and l: "l = \<lparr> le_key = le_key ?c, le_owner_job_id = le_owner_job_id ?c,
       le_claim_provenance = le_claim_provenance ?c, le_token = ln_new_token r,
       le_generation = generation, le_acquired_at_unix_millis = ln_renewed_at_unix_millis r,
       le_expires_at_unix_millis = expires \<rparr>"
    by (auto simp: renewed_lease_def renewal_validate_def result_simps is_stale_at_def not_le not_less
        checked_add_eq_Some_iff)
  have "0 < unat (ln_lease_duration_millis r)" using c(5) by (simp add: unat_gt_0)
  moreover have "0 < unat (ln_renewed_at_unix_millis r)"
    using c(1,3) by (auto simp: lease_ok_def word_le_nat_alt unat_gt_0 [symmetric])
  moreover have "generation \<noteq> 0" using g by auto
  ultimately show ?thesis
    using c e g by (auto simp: l lease_ok_def word_le_nat_alt unat_gt_0)
qed

text \<open>The lease a claim request asks for.\<close>

definition claimed_lease :: "ArchiveClaimRequest \<Rightarrow> u64 \<Rightarrow> u64 \<Rightarrow> ArchiveLease" where
  "claimed_lease r generation expires = \<lparr> le_key = cl_key r, le_owner_job_id = cl_owner_job_id r,
     le_claim_provenance = cl_provenance r, le_token = cl_lease_token r, le_generation = generation,
     le_acquired_at_unix_millis = cl_requested_at_unix_millis r,
     le_expires_at_unix_millis = expires \<rparr>"

lemma claimed_lease_ok:
  assumes "claim_request_ok limits r" "generation \<noteq> 0"
    and "checked_add (cl_requested_at_unix_millis r) (cl_lease_duration_millis r) = Some expires"
  shows "lease_ok limits (claimed_lease r generation expires)"
proof -
  have "unat expires = unat (cl_requested_at_unix_millis r) + unat (cl_lease_duration_millis r)"
    using assms(3) by (simp add: checked_add_eq_Some_iff)
  moreover have "0 < unat (cl_lease_duration_millis r)"
    using assms(1) by (simp add: claim_request_ok_def unat_gt_0)
  ultimately show ?thesis
    using assms(1,2) by (auto simp: claimed_lease_def lease_ok_def claim_request_ok_def word_le_nat_alt)
qed

end
