(* ===== verification/Archive_Contract.thy ===== *)
theory Archive_Contract
  imports Archive_Leases
begin

text \<open>
  Commits, archive rows, imports, migration checkpoints and membership
  (\<open>fforager-contracts/src/archive.rs\<close>), with what each validation admits.
\<close>

section \<open>Reconciled outputs\<close>

datatype ArchivePlacementProof = SameFilesystem | CrossVolume

datatype ArchiveSynchronizationProof = DataAndParentDirectory | DataOnly | SynchronizationUnacknowledged

datatype ArchiveConfinementProof = RootHandleVerified | ConfinementUnacknowledged

record ArchiveFilesystemCommitment =
  af_profile :: FilesystemProfileContract
  af_placement :: ArchivePlacementProof
  af_synchronization :: ArchiveSynchronizationProof
  af_confinement :: ArchiveConfinementProof

fun map_profile_error :: "FilesystemProfileError \<Rightarrow> ArchiveContractError" where
  "map_profile_error UnknownProfile = UnknownFilesystemProfile"
| "map_profile_error ProfileDataMismatch = FilesystemProfileMismatch"
| "map_profile_error ProbeObservationMismatch = FilesystemProfileMismatch"
| "map_profile_error ProfilePathConfinementUnavailable = UnsupportedFilesystemProfile"
| "map_profile_error (ConfinementContractFailed _) = UnsupportedFilesystemProfile"

definition commitment_validate :: "ArchiveFilesystemCommitment \<Rightarrow> ArchiveContractError + unit" where
  "commitment_validate c =
     rbind (map_err map_profile_error (validate_exact (af_profile c))) (\<lambda>_.
     if fp_proof_mode (af_profile c) \<noteq> SupportedLocalPositiveModel then Inl DegradedFilesystemProfile
     else
       rbind (map_err map_profile_error (validate_secure_write_profile (af_profile c))) (\<lambda>_.
       if fc_atomic_replace (fp_capability (af_profile c)) \<noteq> Supported
         \<or> fc_file_sync (fp_capability (af_profile c)) \<noteq> Supported
         \<or> fc_locking (fp_capability (af_profile c)) \<noteq> Supported
       then Inl UnsupportedFilesystemProfile
       else if af_placement c \<noteq> SameFilesystem
       then Inl (FilesystemCommitmentMissing ''same_filesystem'')
       else if af_synchronization c \<noteq> DataAndParentDirectory
       then Inl (FilesystemCommitmentMissing ''data_and_parent_directory_synchronized'')
       else if af_confinement c \<noteq> RootHandleVerified
       then Inl (FilesystemCommitmentMissing ''root_handle_confinement'')
       else Inr ()))"

text \<open>The only commitment that passes names the supported local profile with all three proofs.\<close>

definition local_commitment :: ArchiveFilesystemCommitment where
  "local_commitment = \<lparr> af_profile = windows_11_26200_ntfs_v1, af_placement = SameFilesystem,
     af_synchronization = DataAndParentDirectory, af_confinement = RootHandleVerified \<rparr>"

lemma commitment_validate_ok [result_simps]: "commitment_validate c = Inr u \<longleftrightarrow> c = local_commitment"
proof -
  have exact: "validate_exact p = Inr u \<longleftrightarrow> p = windows_11_26200_ntfs_v1 \<or> p = ubuntu_24_04_wsl2_v9fs_v1" for p u
    by (auto simp: validate_exact_def windows_11_26200_ntfs_v1_def ubuntu_24_04_wsl2_v9fs_v1_def
        split: if_splits)
  have mode: "fp_proof_mode windows_11_26200_ntfs_v1 = SupportedLocalPositiveModel"
    "fp_proof_mode ubuntu_24_04_wsl2_v9fs_v1 \<noteq> SupportedLocalPositiveModel"
    by (simp_all add: windows_11_26200_ntfs_v1_def ubuntu_24_04_wsl2_v9fs_v1_def)
  have secure: "validate_secure_write_profile windows_11_26200_ntfs_v1 = Inr ()"
    by (simp add: validate_secure_write_profile_def result_simps exact capability_validate_secure_write_def
        confinement_validate_secure_write_def)
      (simp add: windows_11_26200_ntfs_v1_def)
  show ?thesis
  proof (cases "af_profile c = windows_11_26200_ntfs_v1")
    case True
    have "commitment_validate c = Inr u \<longleftrightarrow> af_placement c = SameFilesystem
        \<and> af_synchronization c = DataAndParentDirectory \<and> af_confinement c = RootHandleVerified"
      using secure exact [of "af_profile c" "()"]
      by (auto simp: commitment_validate_def result_simps True mode) (simp_all add: windows_11_26200_ntfs_v1_def)
    then show ?thesis by (cases c) (use True in \<open>auto simp: local_commitment_def\<close>)
  next
    case False
    then show ?thesis
      by (auto simp: commitment_validate_def result_simps exact mode local_commitment_def)
  qed
qed

record ReconciledArchiveOutput =
  ro_final_output_identity :: string
  ro_artifact_size_bytes :: u64
  ro_artifact_digest :: string
  ro_reconciliation_receipt_digest :: string
  ro_filesystem_commitment :: ArchiveFilesystemCommitment
  ro_asset_ids :: "string list"
  ro_derived_output_ids :: "string list"

definition output_validate :: "ArchiveLimits \<Rightarrow> ReconciledArchiveOutput \<Rightarrow> ArchiveContractError + unit" where
  "output_validate limits out =
     rbind (validate_archive_text ''final_output_identity'' (ro_final_output_identity out)
       (al_maximum_text_bytes limits)) (\<lambda>_.
     rbind (validate_digest ''artifact_digest'' (ro_artifact_digest out)) (\<lambda>_.
     rbind (validate_digest ''reconciliation_receipt_digest'' (ro_reconciliation_receipt_digest out)) (\<lambda>_.
     rbind (commitment_validate (ro_filesystem_commitment out)) (\<lambda>_.
     rbind (validate_nonempty_bounded ''asset_ids'' (length (ro_asset_ids out))
       (al_maximum_identities_per_output limits)) (\<lambda>_.
     rbind (validate_nonempty_bounded ''derived_output_ids'' (length (ro_derived_output_ids out))
       (al_maximum_identities_per_output limits)) (\<lambda>_.
     rbind (reject_adjacent_duplicates ''asset_ids'' (ro_asset_ids out)) (\<lambda>_.
     reject_adjacent_duplicates ''derived_output_ids'' (ro_derived_output_ids out))))))))"

definition output_ok :: "ArchiveLimits \<Rightarrow> ReconciledArchiveOutput \<Rightarrow> bool" where
  "output_ok limits out = (archive_text_ok (ro_final_output_identity out) (al_maximum_text_bytes limits)
     \<and> digest_ok (ro_artifact_digest out) \<and> digest_ok (ro_reconciliation_receipt_digest out)
     \<and> ro_filesystem_commitment out = local_commitment
     \<and> 0 < length (ro_asset_ids out)
     \<and> length (ro_asset_ids out) \<le> al_maximum_identities_per_output limits
     \<and> 0 < length (ro_derived_output_ids out)
     \<and> length (ro_derived_output_ids out) \<le> al_maximum_identities_per_output limits
     \<and> sorted_wrt (<) (ro_asset_ids out) \<and> sorted_wrt (<) (ro_derived_output_ids out))"

lemma output_validate_ok [result_simps]: "output_validate limits out = Inr u \<longleftrightarrow> output_ok limits out"
  by (simp add: output_validate_def output_ok_def result_simps)

section \<open>Success events\<close>

datatype ArchiveSuccessEvent =
    PerAsset string
  | PerRepresentation string string
  | PerTrack string string
  | PerDerivedOutput string string
  | SuccessfulCollection string

fun event_identity_level :: "ArchiveSuccessEvent \<Rightarrow> ArchiveIdentityLevel" where
  "event_identity_level (SuccessfulCollection _) = ItemLevel"
| "event_identity_level (PerRepresentation _ _) = RepresentationLevel"
| "event_identity_level (PerTrack _ _) = TrackLevel"
| "event_identity_level (PerAsset _) = AssetLevel"
| "event_identity_level (PerDerivedOutput _ _) = DerivedOutputLevel"

definition require_identity_match :: "string \<Rightarrow> string \<Rightarrow> string \<Rightarrow> ArchiveContractError + unit" where
  "require_identity_match field expected received =
     (if expected \<noteq> received then Inl (IdentityMismatch field) else Inr ())"

definition require_output_asset :: "ReconciledArchiveOutput \<Rightarrow> string \<Rightarrow> ArchiveContractError + unit" where
  "require_output_asset out asset_id =
     (if asset_id \<notin> set (ro_asset_ids out) then Inl (IdentityMismatch ''output.asset_ids'') else Inr ())"

definition namespace_supports_level :: "ArchiveNamespace \<Rightarrow> ArchiveIdentityLevel \<Rightarrow> bool" where
  "namespace_supports_level namespace level =
     (case namespace of
        SourceAsset \<Rightarrow> level \<noteq> DerivedOutputLevel
      | GeneratedMetadata \<Rightarrow> True
      | PostProcessingAction \<Rightarrow> level \<in> {AssetLevel, DerivedOutputLevel})"

fun success_event_matches ::
  "ArchiveIdentity \<Rightarrow> ArchiveSuccessEvent \<Rightarrow> ReconciledArchiveOutput \<Rightarrow> ArchiveContractError + unit" where
  "success_event_matches (Item key_id) (SuccessfulCollection item_id) out =
     require_identity_match ''success_event.item_id'' key_id item_id"
| "success_event_matches (Representation key_id) (PerRepresentation representation_id asset_id) out =
     rbind (require_identity_match ''success_event.representation_id'' key_id representation_id) (\<lambda>_.
     require_output_asset out asset_id)"
| "success_event_matches (Track key_id) (PerTrack track_id asset_id) out =
     rbind (require_identity_match ''success_event.track_id'' key_id track_id) (\<lambda>_.
     require_output_asset out asset_id)"
| "success_event_matches (Asset key_id) (PerAsset asset_id) out =
     rbind (require_identity_match ''success_event.asset_id'' key_id asset_id) (\<lambda>_.
     require_output_asset out asset_id)"
| "success_event_matches (DerivedOutput key_id) (PerDerivedOutput derived_output_id asset_id) out =
     rbind (require_identity_match ''success_event.derived_output_id'' key_id derived_output_id) (\<lambda>_.
     if derived_output_id \<notin> set (ro_derived_output_ids out)
     then Inl (IdentityMismatch ''output.derived_output_ids'')
     else require_output_asset out asset_id)"
| "success_event_matches _ _ out = Inl InvalidIdentityEventCombination"

definition event_validate_for ::
  "ArchiveSuccessEvent \<Rightarrow> ArchiveKey \<Rightarrow> ReconciledArchiveOutput \<Rightarrow> ArchiveContractError + unit" where
  "event_validate_for event key out =
     (let level = event_identity_level event
      in if \<not> namespace_supports_level (ak_namespace key) level
           \<or> identity_level (ak_identity key) \<noteq> level
         then Inl InvalidIdentityEventCombination
         else success_event_matches (ak_identity key) event out)"

text \<open>The one event that authorizes an identity, and the assets it says were produced.\<close>

fun event_for :: "ArchiveIdentity \<Rightarrow> ArchiveSuccessEvent \<Rightarrow> ReconciledArchiveOutput \<Rightarrow> bool" where
  "event_for identity (SuccessfulCollection i) out = (identity = Item i)"
| "event_for identity (PerRepresentation i a) out = (identity = Representation i \<and> a \<in> set (ro_asset_ids out))"
| "event_for identity (PerTrack i a) out = (identity = Track i \<and> a \<in> set (ro_asset_ids out))"
| "event_for identity (PerAsset i) out = (identity = Asset i \<and> i \<in> set (ro_asset_ids out))"
| "event_for identity (PerDerivedOutput i a) out = (identity = DerivedOutput i
     \<and> i \<in> set (ro_derived_output_ids out) \<and> a \<in> set (ro_asset_ids out))"

definition event_ok :: "ArchiveSuccessEvent \<Rightarrow> ArchiveKey \<Rightarrow> ReconciledArchiveOutput \<Rightarrow> bool" where
  "event_ok event key out = (event_for (ak_identity key) event out
     \<and> namespace_supports_level (ak_namespace key) (identity_level (ak_identity key)))"

lemma event_validate_for_ok [result_simps]:
  "event_validate_for event key out = Inr u \<longleftrightarrow> event_ok event key out"
  by (cases event; cases "ak_identity key")
    (auto simp: event_validate_for_def event_ok_def Let_def require_identity_match_def
      require_output_asset_def result_simps)

section \<open>Commits and rows\<close>

record ArchiveCommitRequest =
  cm_lease :: ArchiveLease
  cm_success_event :: ArchiveSuccessEvent
  cm_output :: ReconciledArchiveOutput
  cm_provenance :: ArchiveProvenance
  cm_committed_at_unix_millis :: u64

definition commit_request_validate :: "ArchiveLimits \<Rightarrow> ArchiveCommitRequest \<Rightarrow> ArchiveContractError + unit" where
  "commit_request_validate limits r =
     rbind (lease_validate limits (cm_lease r)) (\<lambda>_.
     rbind (output_validate limits (cm_output r)) (\<lambda>_.
     rbind (provenance_validate (cm_provenance r)) (\<lambda>_.
     if le_claim_provenance (cm_lease r) \<noteq> cm_provenance r
     then Inl (IdentityMismatch ''lease.claim_provenance'')
     else if cm_committed_at_unix_millis r < le_acquired_at_unix_millis (cm_lease r)
       \<or> cm_committed_at_unix_millis r \<ge> le_expires_at_unix_millis (cm_lease r)
     then Inl LeaseExpired
     else event_validate_for (cm_success_event r) (le_key (cm_lease r)) (cm_output r))))"

record ArchiveRecord =
  ar_schema :: SchemaVersion
  ar_archive_row_id :: string
  ar_key :: ArchiveKey
  ar_success_event :: ArchiveSuccessEvent
  ar_output :: ReconciledArchiveOutput
  ar_provenance :: ArchiveProvenance
  ar_claim_lease_token :: string
  ar_claim_lease_generation :: u64
  ar_commit_sequence :: u64
  ar_committed_at_unix_millis :: u64

definition record_validate :: "ArchiveLimits \<Rightarrow> ArchiveRecord \<Rightarrow> ArchiveContractError + unit" where
  "record_validate limits r =
     rbind (validate_schema (ar_schema r)) (\<lambda>_.
     rbind (validate_component ''archive_row_id'' (ar_archive_row_id r) (al_maximum_text_bytes limits)) (\<lambda>_.
     rbind (key_validate limits (ar_key r)) (\<lambda>_.
     rbind (output_validate limits (ar_output r)) (\<lambda>_.
     rbind (provenance_validate (ar_provenance r)) (\<lambda>_.
     rbind (require_nonzero ''claim_lease_generation'' (ar_claim_lease_generation r)) (\<lambda>_.
     rbind (require_nonzero ''commit_sequence'' (ar_commit_sequence r)) (\<lambda>_.
     rbind (require_nonzero ''committed_at_unix_millis'' (ar_committed_at_unix_millis r)) (\<lambda>_.
     event_validate_for (ar_success_event r) (ar_key r) (ar_output r)))))))))"

definition commit_request_ok :: "ArchiveLimits \<Rightarrow> ArchiveCommitRequest \<Rightarrow> bool" where
  "commit_request_ok limits r = (lease_ok limits (cm_lease r) \<and> output_ok limits (cm_output r)
     \<and> le_claim_provenance (cm_lease r) = cm_provenance r
     \<and> le_acquired_at_unix_millis (cm_lease r) \<le> cm_committed_at_unix_millis r
     \<and> cm_committed_at_unix_millis r < le_expires_at_unix_millis (cm_lease r)
     \<and> event_ok (cm_success_event r) (le_key (cm_lease r)) (cm_output r))"

definition record_ok :: "ArchiveLimits \<Rightarrow> ArchiveRecord \<Rightarrow> bool" where
  "record_ok limits r = (sv_major (ar_schema r) = 1
     \<and> component_ok (ar_archive_row_id r) (al_maximum_text_bytes limits)
     \<and> key_valid limits (ar_key r) \<and> output_ok limits (ar_output r) \<and> provenance_ok (ar_provenance r)
     \<and> ar_claim_lease_generation r \<noteq> 0 \<and> ar_commit_sequence r \<noteq> 0
     \<and> ar_committed_at_unix_millis r \<noteq> 0
     \<and> event_ok (ar_success_event r) (ar_key r) (ar_output r))"

lemma commit_request_validate_ok [result_simps]:
  "commit_request_validate limits r = Inr u \<longleftrightarrow> commit_request_ok limits r"
  by (auto simp: commit_request_validate_def commit_request_ok_def result_simps not_less not_le lease_ok_def)

lemma record_validate_ok [result_simps]: "record_validate limits r = Inr u \<longleftrightarrow> record_ok limits r"
  by (simp add: record_validate_def record_ok_def result_simps)

datatype ArchiveCommitOutcome = Inserted ArchiveRecord | CommitAlreadyCommitted ArchiveRecord

fun commit_outcome_validate :: "ArchiveLimits \<Rightarrow> ArchiveCommitOutcome \<Rightarrow> ArchiveContractError + unit" where
  "commit_outcome_validate limits (Inserted r) = record_validate limits r"
| "commit_outcome_validate limits (CommitAlreadyCommitted r) = record_validate limits r"

section \<open>Imports\<close>

datatype ArchiveImportMapping =
    ItemIdentity | RepresentationIdentity | TrackIdentity | AssetIdentity | DerivedOutputIdentity

fun target_level :: "ArchiveImportMapping \<Rightarrow> ArchiveIdentityLevel" where
  "target_level ItemIdentity = ItemLevel"
| "target_level RepresentationIdentity = RepresentationLevel"
| "target_level TrackIdentity = TrackLevel"
| "target_level AssetIdentity = AssetLevel"
| "target_level DerivedOutputIdentity = DerivedOutputLevel"

record ArchiveImportEntry =
  ie_source_line_number :: u64
  ie_source_identity :: string
  ie_mapping :: ArchiveImportMapping
  ie_target_key :: ArchiveKey

definition import_entry_validate :: "ArchiveLimits \<Rightarrow> ArchiveImportEntry \<Rightarrow> ArchiveContractError + unit" where
  "import_entry_validate limits e =
     rbind (require_nonzero ''source_line_number'' (ie_source_line_number e)) (\<lambda>_.
     rbind (validate_archive_text ''source_identity'' (ie_source_identity e)
       (al_maximum_text_bytes limits)) (\<lambda>_.
     rbind (key_validate limits (ie_target_key e)) (\<lambda>_.
     if target_level (ie_mapping e) \<noteq> identity_level (ak_identity (ie_target_key e))
     then Inl (IdentityMismatch ''import_mapping'') else Inr ())))"

record ArchiveImportMarker =
  im_schema :: SchemaVersion
  im_key :: ArchiveKey
  im_mapping :: ArchiveImportMapping
  im_source_identity :: string
  im_source_digest :: string
  im_source_line_number :: u64
  im_imported_at_unix_millis :: u64

definition marker_validate :: "ArchiveLimits \<Rightarrow> ArchiveImportMarker \<Rightarrow> ArchiveContractError + unit" where
  "marker_validate limits m =
     rbind (validate_schema (im_schema m)) (\<lambda>_.
     rbind (key_validate limits (im_key m)) (\<lambda>_.
     if target_level (im_mapping m) \<noteq> identity_level (ak_identity (im_key m))
     then Inl (IdentityMismatch ''import_mapping'')
     else
       rbind (validate_archive_text ''source_identity'' (im_source_identity m)
         (al_maximum_text_bytes limits)) (\<lambda>_.
       rbind (validate_digest ''source_digest'' (im_source_digest m)) (\<lambda>_.
       rbind (require_nonzero ''source_line_number'' (im_source_line_number m)) (\<lambda>_.
       require_nonzero ''imported_at_unix_millis'' (im_imported_at_unix_millis m))))))"

definition marker_of :: "ArchiveImportEntry \<Rightarrow> string \<Rightarrow> u64 \<Rightarrow> ArchiveImportMarker" where
  "marker_of e source_digest imported_at = \<lparr> im_schema = ARCHIVE_SCHEMA, im_key = ie_target_key e,
     im_mapping = ie_mapping e, im_source_identity = ie_source_identity e,
     im_source_digest = source_digest, im_source_line_number = ie_source_line_number e,
     im_imported_at_unix_millis = imported_at \<rparr>"

definition marker_from_entry ::
  "ArchiveLimits \<Rightarrow> ArchiveImportEntry \<Rightarrow> string \<Rightarrow> u64 \<Rightarrow> ArchiveContractError + ArchiveImportMarker" where
  "marker_from_entry limits e source_digest imported_at =
     (let marker = marker_of e source_digest imported_at
      in rbind (marker_validate limits marker) (\<lambda>_. Inr marker))"

datatype ArchiveImportFormat = FerricMappedTextV1

record ArchiveImportBatch =
  ib_schema :: SchemaVersion
  ib_format :: ArchiveImportFormat
  ib_source_digest :: string
  ib_entries :: "ArchiveImportEntry list"

fun import_entries_validate ::
  "ArchiveLimits \<Rightarrow> u64 \<Rightarrow> ArchiveKey set \<Rightarrow> ArchiveImportEntry list \<Rightarrow> ArchiveContractError + unit" where
  "import_entries_validate limits previous_line target_keys [] = Inr ()"
| "import_entries_validate limits previous_line target_keys (e # rest) =
     rbind (import_entry_validate limits e) (\<lambda>_.
     if ie_source_line_number e \<le> previous_line then Inl NonMonotonicImportLine
     else if ie_target_key e \<in> target_keys then Inl (DuplicateIdentity ''import_target_key'')
     else import_entries_validate limits (ie_source_line_number e)
       (insert (ie_target_key e) target_keys) rest)"

definition import_batch_validate :: "ArchiveLimits \<Rightarrow> ArchiveImportBatch \<Rightarrow> ArchiveContractError + unit" where
  "import_batch_validate limits b =
     rbind (validate_schema (ib_schema b)) (\<lambda>_.
     rbind (validate_digest ''source_digest'' (ib_source_digest b)) (\<lambda>_.
     rbind (validate_nonempty_bounded ''import_entries'' (length (ib_entries b))
       (al_maximum_import_entries limits)) (\<lambda>_.
     import_entries_validate limits 0 {} (ib_entries b))))"

definition import_entry_ok :: "ArchiveLimits \<Rightarrow> ArchiveImportEntry \<Rightarrow> bool" where
  "import_entry_ok limits e = (ie_source_line_number e \<noteq> 0
     \<and> archive_text_ok (ie_source_identity e) (al_maximum_text_bytes limits)
     \<and> key_valid limits (ie_target_key e)
     \<and> target_level (ie_mapping e) = identity_level (ak_identity (ie_target_key e)))"

definition marker_ok :: "ArchiveLimits \<Rightarrow> ArchiveImportMarker \<Rightarrow> bool" where
  "marker_ok limits m = (sv_major (im_schema m) = 1 \<and> key_valid limits (im_key m)
     \<and> target_level (im_mapping m) = identity_level (ak_identity (im_key m))
     \<and> archive_text_ok (im_source_identity m) (al_maximum_text_bytes limits)
     \<and> digest_ok (im_source_digest m) \<and> im_source_line_number m \<noteq> 0
     \<and> im_imported_at_unix_millis m \<noteq> 0)"

lemma import_entry_validate_ok [result_simps]:
  "import_entry_validate limits e = Inr u \<longleftrightarrow> import_entry_ok limits e"
  by (auto simp: import_entry_validate_def import_entry_ok_def result_simps)

lemma marker_validate_ok [result_simps]: "marker_validate limits m = Inr u \<longleftrightarrow> marker_ok limits m"
  by (auto simp: marker_validate_def marker_ok_def result_simps)

lemma marker_from_entry_ok [result_simps]: "marker_from_entry limits e digest at = Inr m
    \<longleftrightarrow> m = marker_of e digest at \<and> marker_ok limits m"
  by (auto simp: marker_from_entry_def result_simps Let_def)

lemma import_entries_validate_ok:
  "import_entries_validate limits line keys es = Inr u \<longleftrightarrow> list_all (import_entry_ok limits) es
    \<and> sorted_wrt (<) (line # map ie_source_line_number es)
    \<and> distinct (map ie_target_key es) \<and> set (map ie_target_key es) \<inter> keys = {}"
  by (induction es arbitrary: line keys) (auto simp: result_simps not_le)

text \<open>
  The duplicate check of a batch compares whole keys. Two keys of one identity written with
  different minor versions have the same canonical key, and pass it.
\<close>

lemma import_same_identity_accepted:
  assumes "import_entry_ok limits e" "import_entry_ok limits f"
    and "ie_source_line_number e < ie_source_line_number f"
    and "same_identity (ie_target_key e) (ie_target_key f)" "ie_target_key e \<noteq> ie_target_key f"
  shows "import_entries_validate limits 0 {} [e, f] = Inr ()
    \<and> canonical_key limits (ie_target_key e) = canonical_key limits (ie_target_key f)"
proof -
  have valid: "key_valid limits (ie_target_key e)" "key_valid limits (ie_target_key f)"
    using assms(1,2) by (auto simp: import_entry_ok_def)
  then have "canonical_key limits (ie_target_key e) = Inr (canonical_text (ie_target_key f))"
    "canonical_key limits (ie_target_key f) = Inr (canonical_text (ie_target_key f))"
    using canonical_text_eq_iff [OF valid] assms(4) by (auto simp: canonical_key_ok)
  moreover have "0 < ie_source_line_number e"
    using assms(1) by (simp add: import_entry_ok_def word_neq_0_conv)
  ultimately show ?thesis
    using assms valid by (auto simp: import_entries_validate_ok simp del: import_entries_validate.simps)
qed

section \<open>Migration checkpoints\<close>

record ArchiveMigrationPlan =
  mp_migration_id :: string
  mp_from_store_version :: u32
  mp_to_store_version :: u32
  mp_maximum_records_per_batch :: u32

definition migration_plan_validate :: "ArchiveLimits \<Rightarrow> ArchiveMigrationPlan \<Rightarrow> ArchiveContractError + unit" where
  "migration_plan_validate limits p =
     rbind (validate_component ''migration_id'' (mp_migration_id p) (al_maximum_text_bytes limits)) (\<lambda>_.
     if mp_from_store_version p \<ge> mp_to_store_version p then Inl InvalidMigrationRange
     else if mp_maximum_records_per_batch p = 0
       \<or> mp_maximum_records_per_batch p > al_maximum_migration_batch_records limits
     then Inl (LimitExceeded ''maximum_records_per_batch'' (unat (mp_maximum_records_per_batch p))
       (unat (al_maximum_migration_batch_records limits)))
     else Inr ())"

datatype ArchiveMigrationPhase = Prepared | Copying | Verifying | ReadyToActivate | Activated | RolledBack

record ArchiveMigrationState =
  ms_plan :: ArchiveMigrationPlan
  ms_phase :: ArchiveMigrationPhase
  ms_migrated_records :: u64
  ms_last_migrated_key :: "ArchiveKey option"
  ms_source_store_digest :: string

definition migration_state_validate :: "ArchiveLimits \<Rightarrow> ArchiveMigrationState \<Rightarrow> ArchiveContractError + unit" where
  "migration_state_validate limits s =
     rbind (migration_plan_validate limits (ms_plan s)) (\<lambda>_.
     rbind (validate_digest ''source_store_digest'' (ms_source_store_digest s)) (\<lambda>_.
     rbind (case ms_last_migrated_key s of
         Some key \<Rightarrow>
           rbind (key_validate limits key) (\<lambda>_.
           if ms_migrated_records s = 0 then Inl InvalidMigrationCheckpoint else Inr ())
       | None \<Rightarrow> Inr ()) (\<lambda>_.
     if ms_migrated_records s > 0 \<and> ms_last_migrated_key s = None then Inl InvalidMigrationCheckpoint
     else case ms_phase s of
         Prepared \<Rightarrow>
           if ms_migrated_records s \<noteq> 0 \<or> ms_last_migrated_key s \<noteq> None
           then Inl InvalidMigrationCheckpoint else Inr ()
       | Copying \<Rightarrow>
           if ms_migrated_records s = 0 \<or> ms_last_migrated_key s = None
           then Inl InvalidMigrationCheckpoint else Inr ()
       | _ \<Rightarrow> Inr ())))"

definition migration_plan_ok :: "ArchiveLimits \<Rightarrow> ArchiveMigrationPlan \<Rightarrow> bool" where
  "migration_plan_ok limits p = (component_ok (mp_migration_id p) (al_maximum_text_bytes limits)
     \<and> mp_from_store_version p < mp_to_store_version p
     \<and> mp_maximum_records_per_batch p \<noteq> 0
     \<and> mp_maximum_records_per_batch p \<le> al_maximum_migration_batch_records limits)"

definition migration_state_ok :: "ArchiveLimits \<Rightarrow> ArchiveMigrationState \<Rightarrow> bool" where
  "migration_state_ok limits s = (migration_plan_ok limits (ms_plan s) \<and> digest_ok (ms_source_store_digest s)
     \<and> (ms_migrated_records s = 0 \<longleftrightarrow> ms_last_migrated_key s = None)
     \<and> (case ms_last_migrated_key s of Some key \<Rightarrow> key_valid limits key | None \<Rightarrow> True)
     \<and> (ms_phase s = Prepared \<longrightarrow> ms_migrated_records s = 0)
     \<and> (ms_phase s = Copying \<longrightarrow> ms_migrated_records s \<noteq> 0))"

lemma migration_plan_validate_ok [result_simps]:
  "migration_plan_validate limits p = Inr u \<longleftrightarrow> migration_plan_ok limits p"
  by (auto simp: migration_plan_validate_def migration_plan_ok_def result_simps not_le not_less)

lemma migration_state_validate_ok [result_simps]:
  "migration_state_validate limits s = Inr u \<longleftrightarrow> migration_state_ok limits s"
  by (cases "ms_phase s"; cases "ms_last_migrated_key s")
    (auto simp: migration_state_validate_def migration_state_ok_def result_simps word_gt_0)

section \<open>Outcomes and membership\<close>

datatype ArchiveClaimOutcome =
    Acquired ArchiveLease
  | AlreadyCommitted ArchiveRecord
  | AlreadyImported ArchiveImportMarker
  | HeldByOther string u64 u64

fun claim_outcome_validate :: "ArchiveLimits \<Rightarrow> ArchiveClaimOutcome \<Rightarrow> ArchiveContractError + unit" where
  "claim_outcome_validate limits (Acquired l) = lease_validate limits l"
| "claim_outcome_validate limits (AlreadyCommitted r) = record_validate limits r"
| "claim_outcome_validate limits (AlreadyImported m) = marker_validate limits m"
| "claim_outcome_validate limits (HeldByOther owner generation expires) =
     rbind (require_nonzero ''lease_generation'' generation) (\<lambda>_.
     require_nonzero ''expires_at_unix_millis'' expires)"

datatype ArchiveMembership =
    Absent
  | Claimed ArchiveLease
  | Committed ArchiveRecord
  | Imported ArchiveImportMarker

fun membership_validate :: "ArchiveLimits \<Rightarrow> ArchiveMembership \<Rightarrow> ArchiveContractError + unit" where
  "membership_validate limits Absent = Inr ()"
| "membership_validate limits (Claimed l) = lease_validate limits l"
| "membership_validate limits (Committed r) = record_validate limits r"
| "membership_validate limits (Imported m) = marker_validate limits m"

end
