(* ===== verification/Archive_Reconciliation.thy ===== *)
theory Archive_Reconciliation
  imports Archive_Contract
begin

text \<open>
  The decision of startup reconciliation (\<open>ArchiveReconciliationObservation\<close> in
  \<open>fforager-contracts/src/archive.rs\<close>): from what was observed of the output, the row, the lease and
  the recovery material of one identity to one next action.
\<close>

section \<open>Observations\<close>

datatype ArchiveOutputObservation =
    OutputMissing
  | OutputMatching ReconciledArchiveOutput
  | OutputMismatched string

datatype ArchiveRowObservation =
    RowMissing
  | RowMatching ArchiveRecord
  | RowMismatched string

record ArchiveReconciliationObservation =
  rc_key :: ArchiveKey
  rc_now_unix_millis :: u64
  rc_output :: ArchiveOutputObservation
  rc_row :: ArchiveRowObservation
  rc_lease :: "ArchiveLease option"
  rc_staged_output :: "ReconciledArchiveOutput option"
  rc_recovery_record :: "ArchiveRecord option"

datatype ArchiveReconciliationFailure =
    OutputRowMismatch
  | RowWithoutRecoverableOutput
  | OutputIdentityMismatch
  | ArchiveRowMismatch
  | MissingRecoveryRecord
  | FreshLeaseBlocksRecovery
  | UnexpectedLeaseAfterCommit
  | RecoveryLeaseMismatch

datatype ArchiveReconciliationDecision =
    NoArchiveState
  | LeaseStillActive
  | Reconciled
  | InsertMissingRow ArchiveRecord
  | RestoreOutputFromStaged
  | ReclaimStaleLease
  | FailClosed ArchiveReconciliationFailure

fun decision_validate :: "ArchiveLimits \<Rightarrow> ArchiveReconciliationDecision \<Rightarrow> ArchiveContractError + unit" where
  "decision_validate limits (InsertMissingRow r) = record_validate limits r"
| "decision_validate limits _ = Inr ()"

definition observation_validate ::
  "ArchiveLimits \<Rightarrow> ArchiveReconciliationObservation \<Rightarrow> ArchiveContractError + unit" where
  "observation_validate limits ob =
     rbind (key_validate limits (rc_key ob)) (\<lambda>_.
     rbind (require_nonzero ''now_unix_millis'' (rc_now_unix_millis ob)) (\<lambda>_.
     rbind (case rc_lease ob of
         Some held \<Rightarrow>
           rbind (lease_validate limits held) (\<lambda>_.
           if le_key held \<noteq> rc_key ob then Inl (IdentityMismatch ''lease.key'')
           else if rc_now_unix_millis ob < le_acquired_at_unix_millis held
           then Inl ReconciliationClockBeforeLeaseAcquisition
           else Inr ())
       | None \<Rightarrow> Inr ()) (\<lambda>_.
     rbind (case rc_staged_output ob of
         Some out \<Rightarrow> output_validate limits out
       | None \<Rightarrow> Inr ()) (\<lambda>_.
     rbind (case rc_recovery_record ob of
         Some record \<Rightarrow>
           rbind (record_validate limits record) (\<lambda>_.
           if ar_key record \<noteq> rc_key ob then Inl (IdentityMismatch ''recovery_record.key'') else Inr ())
       | None \<Rightarrow> Inr ()) (\<lambda>_.
     rbind (case rc_output ob of
         OutputMissing \<Rightarrow> Inr ()
       | OutputMatching out \<Rightarrow> output_validate limits out
       | OutputMismatched final_output_identity \<Rightarrow>
           validate_archive_text ''final_output_identity'' final_output_identity
             (al_maximum_text_bytes limits)) (\<lambda>_.
     case rc_row ob of
         RowMissing \<Rightarrow> Inr ()
       | RowMatching record \<Rightarrow>
           rbind (record_validate limits record) (\<lambda>_.
           if ar_key record \<noteq> rc_key ob then Inl (IdentityMismatch ''row.record.key'') else Inr ())
       | RowMismatched row_id \<Rightarrow>
           validate_component ''archive_row_id'' row_id (al_maximum_text_bytes limits)))))))"

section \<open>The decision\<close>

definition recover_missing_row ::
  "ArchiveReconciliationObservation \<Rightarrow> ReconciledArchiveOutput \<Rightarrow> ArchiveReconciliationDecision" where
  "recover_missing_row ob out =
     (if (case rc_lease ob of Some held \<Rightarrow> \<not> is_stale_at held (rc_now_unix_millis ob) | None \<Rightarrow> False)
      then FailClosed FreshLeaseBlocksRecovery
      else case rc_recovery_record ob of
        Some record \<Rightarrow>
          if ar_output record = out
          then
            if (case rc_lease ob of
                  Some held \<Rightarrow> ar_provenance record \<noteq> le_claim_provenance held
                    \<or> ar_claim_lease_token record \<noteq> le_token held
                    \<or> ar_claim_lease_generation record \<noteq> le_generation held
                | None \<Rightarrow> False)
            then FailClosed RecoveryLeaseMismatch
            else InsertMissingRow record
          else FailClosed MissingRecoveryRecord
      | None \<Rightarrow> FailClosed MissingRecoveryRecord)"

fun decide_arms ::
  "ArchiveReconciliationObservation \<Rightarrow> ArchiveOutputObservation \<Rightarrow> ArchiveRowObservation
    \<Rightarrow> ArchiveReconciliationDecision" where
  "decide_arms ob (OutputMatching out) (RowMatching record) =
     (if rc_lease ob \<noteq> None then FailClosed UnexpectedLeaseAfterCommit
      else if ar_output record = out then Reconciled
      else FailClosed OutputRowMismatch)"
| "decide_arms ob (OutputMatching out) RowMissing = recover_missing_row ob out"
| "decide_arms ob OutputMissing (RowMatching record) =
     (if rc_lease ob \<noteq> None then FailClosed UnexpectedLeaseAfterCommit
      else if rc_staged_output ob = Some (ar_output record) then RestoreOutputFromStaged
      else FailClosed RowWithoutRecoverableOutput)"
| "decide_arms ob OutputMissing RowMissing =
     (case rc_lease ob of
        Some held \<Rightarrow> if is_stale_at held (rc_now_unix_millis ob) then ReclaimStaleLease else LeaseStillActive
      | None \<Rightarrow> NoArchiveState)"
| "decide_arms ob (OutputMismatched _) row = FailClosed OutputIdentityMismatch"
| "decide_arms ob out (RowMismatched _) = FailClosed ArchiveRowMismatch"

definition reconciliation_decide ::
  "ArchiveLimits \<Rightarrow> ArchiveReconciliationObservation
    \<Rightarrow> ArchiveContractError + ArchiveReconciliationDecision" where
  "reconciliation_decide limits ob =
     rbind (observation_validate limits ob) (\<lambda>_. Inr (decide_arms ob (rc_output ob) (rc_row ob)))"

section \<open>What an observation and a decision mean\<close>

definition observation_ok :: "ArchiveLimits \<Rightarrow> ArchiveReconciliationObservation \<Rightarrow> bool" where
  "observation_ok limits ob = (key_valid limits (rc_key ob) \<and> rc_now_unix_millis ob \<noteq> 0
     \<and> (case rc_lease ob of Some l \<Rightarrow> lease_ok limits l \<and> le_key l = rc_key ob
          \<and> le_acquired_at_unix_millis l \<le> rc_now_unix_millis ob | None \<Rightarrow> True)
     \<and> (case rc_staged_output ob of Some out \<Rightarrow> output_ok limits out | None \<Rightarrow> True)
     \<and> (case rc_recovery_record ob of Some r \<Rightarrow> record_ok limits r \<and> ar_key r = rc_key ob | None \<Rightarrow> True)
     \<and> (case rc_output ob of OutputMissing \<Rightarrow> True | OutputMatching out \<Rightarrow> output_ok limits out
          | OutputMismatched t \<Rightarrow> archive_text_ok t (al_maximum_text_bytes limits))
     \<and> (case rc_row ob of RowMissing \<Rightarrow> True | RowMatching r \<Rightarrow> record_ok limits r \<and> ar_key r = rc_key ob
          | RowMismatched i \<Rightarrow> component_ok i (al_maximum_text_bytes limits)))"

lemma observation_validate_ok [result_simps]:
  "observation_validate limits ob = Inr u \<longleftrightarrow> observation_ok limits ob"
  by (auto simp: observation_validate_def observation_ok_def result_simps not_less
      split: option.splits ArchiveOutputObservation.splits ArchiveRowObservation.splits)

lemma reconciliation_decide_ok [result_simps]: "reconciliation_decide limits ob = Inr d
    \<longleftrightarrow> observation_ok limits ob \<and> d = decide_arms ob (rc_output ob) (rc_row ob)"
  by (auto simp: reconciliation_decide_def result_simps)

text \<open>The evidence each action rests on.\<close>

fun action_evidence :: "ArchiveReconciliationObservation \<Rightarrow> ArchiveReconciliationDecision \<Rightarrow> bool" where
  "action_evidence ob NoArchiveState =
     (rc_output ob = OutputMissing \<and> rc_row ob = RowMissing \<and> rc_lease ob = None)"
| "action_evidence ob LeaseStillActive =
     (rc_output ob = OutputMissing \<and> rc_row ob = RowMissing
      \<and> (\<exists>l. rc_lease ob = Some l \<and> rc_now_unix_millis ob < le_expires_at_unix_millis l))"
| "action_evidence ob Reconciled =
     (rc_lease ob = None \<and> (\<exists>r. rc_row ob = RowMatching r \<and> rc_output ob = OutputMatching (ar_output r)))"
| "action_evidence ob (InsertMissingRow r) =
     (rc_row ob = RowMissing \<and> rc_recovery_record ob = Some r \<and> rc_output ob = OutputMatching (ar_output r)
      \<and> (case rc_lease ob of
           Some l \<Rightarrow> le_expires_at_unix_millis l \<le> rc_now_unix_millis ob
             \<and> ar_provenance r = le_claim_provenance l \<and> ar_claim_lease_token r = le_token l
             \<and> ar_claim_lease_generation r = le_generation l
         | None \<Rightarrow> True))"
| "action_evidence ob RestoreOutputFromStaged =
     (rc_output ob = OutputMissing \<and> rc_lease ob = None
      \<and> (\<exists>r. rc_row ob = RowMatching r \<and> rc_staged_output ob = Some (ar_output r)))"
| "action_evidence ob ReclaimStaleLease =
     (rc_output ob = OutputMissing \<and> rc_row ob = RowMissing
      \<and> (\<exists>l. rc_lease ob = Some l \<and> le_expires_at_unix_millis l \<le> rc_now_unix_millis ob))"
| "action_evidence ob (FailClosed reason) = False"

lemma decide_evidence_iff:
  "(\<forall>reason. d \<noteq> FailClosed reason)
    \<Longrightarrow> decide_arms ob (rc_output ob) (rc_row ob) = d \<longleftrightarrow> action_evidence ob d"
  by (cases d; cases "rc_output ob"; cases "rc_row ob"; cases "rc_lease ob"; cases "rc_recovery_record ob")
    (auto simp: recover_missing_row_def is_stale_at_def not_le)

text \<open>
  A valid observation is decided for an action exactly when the evidence for that action was
  observed: a row is inserted only for an output that is present and equals the recovery record's,
  never against a live lease, and under a stale lease only with its token, generation and provenance;
  a lease is reclaimed only when stale and nothing was committed. Without evidence for any action the
  decision fails closed.
\<close>

theorem reconciliation_evidence_exact:
  "reconciliation_decide limits ob = Inr d \<longleftrightarrow> observation_ok limits ob
    \<and> (case d of
         FailClosed reason \<Rightarrow> {a. action_evidence ob a} = {}
           \<and> decide_arms ob (rc_output ob) (rc_row ob) = FailClosed reason
       | _ \<Rightarrow> action_evidence ob d)"
proof (cases d)
  case (FailClosed reason)
  have "decide_arms ob (rc_output ob) (rc_row ob) = FailClosed reason \<Longrightarrow> \<not> action_evidence ob a" for a
    using decide_evidence_iff [of a ob] by (cases a) auto
  then show ?thesis by (auto simp: FailClosed reconciliation_decide_ok)
qed (use decide_evidence_iff [of d ob] in \<open>auto simp: reconciliation_decide_ok simp del: action_evidence.simps\<close>)

end
