(* ===== verification/Archive_Tables.thy ===== *)
theory Archive_Tables
  imports Archive_Reconciliation BTree_Map "HOL-Library.RBT"
begin

text \<open>
  What the archive store uses of its database and its serializer, and the decoding of rows
  (\<open>fforager-storage/src/lib.rs\<close>, \<open>to_wire\<close> and \<open>from_wire\<close> of \<open>fforager-contracts/src/archive.rs\<close>).

  \<open>redb\<close> is an argument. A table is a value of an abstract type with the operations \<open>table_ops\<close>;
  the locale \<open>sorted_table\<close> states the documented behaviour the store relies on: an ordered map. A
  database call that fails is named by its label (and its position, in a loop): \<open>io\<close> gives the
  failure it returns. A write transaction that is not committed has no effect, so every operation
  returns the tables it commits, or its error. \<open>serde_json\<close> is an argument too: a format per stored
  type, over bytes left abstract.
\<close>

section \<open>Tables\<close>

record ('t, 'v) table_ops =
  to_get :: "'t \<Rightarrow> string \<Rightarrow> 'v option"
  to_insert :: "'t \<Rightarrow> string \<Rightarrow> 'v \<Rightarrow> 't"
  to_remove :: "'t \<Rightarrow> string \<Rightarrow> 't"
  to_rows :: "'t \<Rightarrow> (string \<times> 'v) list"

lemma sorted_rows_unique:
  fixes xs ys :: "('k::linorder \<times> 'v) list"
  assumes "sorted_wrt (<) (map fst xs)" "sorted_wrt (<) (map fst ys)" "set xs = set ys"
  shows "xs = ys"
proof -
  have "map fst xs = map fst ys"
    using assms strict_sorted_equal by (metis list.set_map)
  moreover have "inj_on fst (set xs)"
    using assms(1) by (metis distinct_map strict_sorted_iff)
  ultimately show ?thesis
    using assms(3) by (metis (no_types, lifting) map_inj_on inf_sup_aci(5) sup.idem)
qed

locale sorted_table =
  fixes get :: "'t \<Rightarrow> string \<Rightarrow> 'v option"
    and ins :: "'t \<Rightarrow> string \<Rightarrow> 'v \<Rightarrow> 't"
    and rem :: "'t \<Rightarrow> string \<Rightarrow> 't"
    and rows :: "'t \<Rightarrow> (string \<times> 'v) list"
  assumes get_ins: "get (ins t k v) k' = (if k' = k then Some v else get t k')"
    and get_rem: "get (rem t k) k' = (if k' = k then None else get t k')"
    and get_rows: "get t k = map_of (rows t) k"
    and sorted_rows: "sorted_wrt (<) (map fst (rows t))"
begin

lemma distinct_rows: "distinct (map fst (rows t))"
  using sorted_rows [of t] by (simp add: strict_sorted_iff)

lemma mem_rows: "(k, v) \<in> set (rows t) \<longleftrightarrow> get t k = Some v"
  using distinct_rows [of t] by (simp add: get_rows)

lemma rows_ins: "rows (ins t k v) = bt_insert k v (rows t)"
proof (rule sorted_rows_unique [OF sorted_rows])
  have ok: "bt_ok (rows t)" using sorted_rows by (simp add: bt_ok_def)
  then show "sorted_wrt (<) (map fst (bt_insert k v (rows t)))"
    using bt_ok_insert by (auto simp: bt_ok_def)
  have "(k', v') \<in> set (bt_insert k v (rows t)) \<longleftrightarrow> get (ins t k v) k' = Some v'" for k' v'
    using bt_get_Some_iff [OF bt_ok_insert [OF ok], of k v k' v'] bt_get_Some_iff [OF ok, of k' v']
    by (auto simp: bt_get_insert get_ins mem_rows)
  then show "set (rows (ins t k v)) = set (bt_insert k v (rows t))" by (auto simp: mem_rows)
qed

lemma rows_empty: "rows t = [] \<longleftrightarrow> (\<forall>k. get t k = None)"
  using mem_rows by (metis (no_types, opaque_lifting) list.set_intros(1) map_of.simps(1) get_rows
      neq_Nil_conv option.distinct(1) surj_pair)

end

text \<open>The library's red-black trees are such a table.\<close>

interpretation rbt_table: sorted_table RBT.lookup "\<lambda>t k v. RBT.insert k v t" "\<lambda>t k. RBT.delete k t" RBT.entries
proof
  fix t :: "(string, 'v) rbt"
  show "sorted_wrt (<) (map fst (RBT.entries t))"
    using RBT.distinct_entries [of t] RBT.sorted_entries [of t]
    by (simp add: strict_sorted_iff RBT.keys_entries [symmetric])
qed (auto simp: RBT.lookup_insert RBT.lookup_delete RBT.map_of_entries)

definition rbt_ops :: "((string, 'v) rbt, 'v) table_ops" where
  "rbt_ops = \<lparr> to_get = RBT.lookup, to_insert = (\<lambda>t k v. RBT.insert k v t),
     to_remove = (\<lambda>t k. RBT.delete k t), to_rows = RBT.entries \<rparr>"

definition table_lawful :: "('t, 'v) table_ops \<Rightarrow> bool" where
  "table_lawful ops = sorted_table (to_get ops) (to_insert ops) (to_remove ops) (to_rows ops)"

lemma rbt_lawful: "table_lawful rbt_ops"
  by (simp add: table_lawful_def rbt_ops_def rbt_table.sorted_table_axioms)

section \<open>Wire formats\<close>

record ('a, 'w) wire_format =
  wf_to_vec :: "'a \<Rightarrow> 'w option"
  wf_from_slice :: "'w \<Rightarrow> 'a option"

definition wire_faithful :: "('a, 'w) wire_format \<Rightarrow> bool" where
  "wire_faithful f = (\<forall>x w. wf_to_vec f x = Some w \<longrightarrow> wf_from_slice f w = Some x)"

definition to_wire ::
  "(ArchiveLimits \<Rightarrow> 'a \<Rightarrow> ArchiveContractError + unit) \<Rightarrow> ('a, 'w) wire_format \<Rightarrow> ('w \<Rightarrow> usize)
    \<Rightarrow> ArchiveLimits \<Rightarrow> 'a \<Rightarrow> ArchiveContractError + 'w" where
  "to_wire validate_wire format wire_len limits x =
     rbind (validate_wire limits x) (\<lambda>_.
     rbind (ok_or WireEncoding (wf_to_vec format x)) (\<lambda>encoded.
     if wire_len encoded > al_maximum_wire_bytes limits
     then Inl (LimitExceeded ''wire_bytes'' (wire_len encoded) (al_maximum_wire_bytes limits))
     else Inr encoded))"

definition from_wire ::
  "(ArchiveLimits \<Rightarrow> 'a \<Rightarrow> ArchiveContractError + unit) \<Rightarrow> ('a, 'w) wire_format \<Rightarrow> ('w \<Rightarrow> usize)
    \<Rightarrow> ArchiveLimits \<Rightarrow> 'w \<Rightarrow> ArchiveContractError + 'a" where
  "from_wire validate_wire format wire_len limits bytes =
     (if wire_len bytes > al_maximum_wire_bytes limits
      then Inl (LimitExceeded ''wire_bytes'' (wire_len bytes) (al_maximum_wire_bytes limits))
      else
        rbind (ok_or WireDecoding (wf_from_slice format bytes)) (\<lambda>x.
        rbind (validate_wire limits x) (\<lambda>_. Inr x)))"

lemma from_wire_valid: "from_wire validate_wire format wire_len limits w = Inr x \<Longrightarrow> validate_wire limits x = Inr ()"
  by (auto simp: from_wire_def result_simps)

lemma to_wire_valid: "to_wire validate_wire format wire_len limits x = Inr w \<Longrightarrow> validate_wire limits x = Inr ()"
  by (auto simp: to_wire_def result_simps)

lemma wire_roundtrip:
  "wire_faithful format \<Longrightarrow> to_wire validate_wire format wire_len limits x = Inr w
    \<Longrightarrow> from_wire validate_wire format wire_len limits w = Inr x"
  by (auto simp: to_wire_def from_wire_def wire_faithful_def result_simps)

section \<open>The store\<close>

datatype ArchiveStoreError =
    Contract ArchiveContractError
  | OpenFailed string
  | ReadFailed string
  | WriteFailed string
  | CorruptRecord string
  | Conflict string
  | UnsupportedMapping string
  | StoreLimitExceeded string
  | LeaseNotFound
  | LeaseMismatch
  | StoreLeaseExpired
  | UnsupportedStoreVersion u64
  | MigrationState string

text \<open>The environment of a store: its limits, its database, and how values are written and printed.\<close>

record ('t, 'n, 'w) archive_env =
  ae_limits :: ArchiveLimits
  ae_tables :: "('t, 'w) table_ops"
  ae_meta :: "('n, u64) table_ops"
  ae_size :: "'w \<Rightarrow> usize"
  ae_lease :: "(ArchiveLease, 'w) wire_format"
  ae_record :: "(ArchiveRecord, 'w) wire_format"
  ae_marker :: "(ArchiveImportMarker, 'w) wire_format"
  ae_observation :: "(ArchiveReconciliationObservation, 'w) wire_format"
  ae_migration :: "(ArchiveMigrationState, 'w) wire_format"
  ae_show_error :: "ArchiveContractError \<Rightarrow> string"
  ae_show_cursor :: "string option \<Rightarrow> string"
  ae_show_phase :: "ArchiveMigrationPhase \<Rightarrow> string"

record ('t, 'n) archive_tables =
  at_meta :: 'n
  at_leases :: 't
  at_records_v1 :: 't
  at_records_v2 :: 't
  at_imports :: 't
  at_inconsistencies :: 't
  at_reconciliation_receipts :: 't
  at_migration_records :: 't

text \<open>The failures of the database calls of one operation.\<close>

type_synonym io = "string \<Rightarrow> nat \<Rightarrow> string option"

text \<open>\<open>Display\<close> of a store error, over the debug text of a contract error.\<close>

definition store_error_display :: "('t, 'n, 'w) archive_env \<Rightarrow> ArchiveStoreError \<Rightarrow> string" where
  "store_error_display env e =
     (case e of
        Contract c \<Rightarrow> ae_show_error env c
      | OpenFailed detail \<Rightarrow> ''archive open failed: '' @ detail
      | ReadFailed detail \<Rightarrow> ''archive read failed: '' @ detail
      | WriteFailed detail \<Rightarrow> ''archive write failed: '' @ detail
      | CorruptRecord detail \<Rightarrow> ''archive record is corrupt: '' @ detail
      | Conflict detail \<Rightarrow> ''archive state conflict: '' @ detail
      | UnsupportedMapping detail \<Rightarrow> ''unsupported archive mapping: '' @ detail
      | StoreLimitExceeded detail \<Rightarrow> ''archive limit exceeded: '' @ detail
      | LeaseNotFound \<Rightarrow> ''archive lease not found: no current lease''
      | LeaseMismatch \<Rightarrow> ''archive lease mismatch: ownership token or generation differs''
      | StoreLeaseExpired \<Rightarrow> ''archive lease expired: deterministic expiry boundary reached''
      | UnsupportedStoreVersion version \<Rightarrow> ''unsupported archive store version: '' @ decimal (unat version)
      | MigrationState detail \<Rightarrow> ''archive migration state conflict: '' @ detail)"

definition write_detail :: "string \<Rightarrow> string \<Rightarrow> ArchiveStoreError" where
  "write_detail operation failure = WriteFailed (operation @ '': '' @ failure)"

definition read_detail :: "string \<Rightarrow> string \<Rightarrow> ArchiveStoreError" where
  "read_detail operation failure = ReadFailed (operation @ '': '' @ failure)"

definition call_at :: "(string \<Rightarrow> string \<Rightarrow> ArchiveStoreError) \<Rightarrow> io \<Rightarrow> string \<Rightarrow> nat \<Rightarrow> ArchiveStoreError + unit" where
  "call_at fail io operation n = (case io operation n of Some failure \<Rightarrow> Inl (fail operation failure) | None \<Rightarrow> Inr ())"

abbreviation write_call :: "io \<Rightarrow> string \<Rightarrow> ArchiveStoreError + unit" where
  "write_call io operation \<equiv> call_at write_detail io operation 0"

abbreviation read_call :: "io \<Rightarrow> string \<Rightarrow> ArchiveStoreError + unit" where
  "read_call io operation \<equiv> call_at read_detail io operation 0"

lemma call_at_ok [result_simps]: "call_at fail io operation n = Inr u \<longleftrightarrow> io operation n = None"
  by (simp add: call_at_def split: option.splits)

definition contract :: "ArchiveContractError + 'a \<Rightarrow> ArchiveStoreError + 'a" where
  "contract r = map_err Contract r"

lemma contract_ok [result_simps]: "contract r = Inr x \<longleftrightarrow> r = Inr x"
  by (simp add: contract_def result_simps)

definition corrupt_contract ::
  "('t, 'n, 'w) archive_env \<Rightarrow> string \<Rightarrow> ArchiveContractError + 'a \<Rightarrow> ArchiveStoreError + 'a" where
  "corrupt_contract env record_kind r =
     map_err (\<lambda>e. CorruptRecord (record_kind @ '': '' @ ae_show_error env e)) r"

lemma corrupt_contract_ok [result_simps]: "corrupt_contract env kind r = Inr x \<longleftrightarrow> r = Inr x"
  by (simp add: corrupt_contract_def result_simps)

abbreviation tget :: "('t, 'n, 'w) archive_env \<Rightarrow> 't \<Rightarrow> string \<Rightarrow> 'w option" where
  "tget env \<equiv> to_get (ae_tables env)"

abbreviation tins :: "('t, 'n, 'w) archive_env \<Rightarrow> 't \<Rightarrow> string \<Rightarrow> 'w \<Rightarrow> 't" where
  "tins env \<equiv> to_insert (ae_tables env)"

abbreviation trem :: "('t, 'n, 'w) archive_env \<Rightarrow> 't \<Rightarrow> string \<Rightarrow> 't" where
  "trem env \<equiv> to_remove (ae_tables env)"

abbreviation trows :: "('t, 'n, 'w) archive_env \<Rightarrow> 't \<Rightarrow> (string \<times> 'w) list" where
  "trows env \<equiv> to_rows (ae_tables env)"

abbreviation mget :: "('t, 'n, 'w) archive_env \<Rightarrow> 'n \<Rightarrow> string \<Rightarrow> u64 option" where
  "mget env \<equiv> to_get (ae_meta env)"

abbreviation mins :: "('t, 'n, 'w) archive_env \<Rightarrow> 'n \<Rightarrow> string \<Rightarrow> u64 \<Rightarrow> 'n" where
  "mins env \<equiv> to_insert (ae_meta env)"

text \<open>\<open>Option::map\<close> of a fallible decoder, then \<open>transpose\<close>.\<close>

definition decode_opt :: "('w \<Rightarrow> 'e + 'a) \<Rightarrow> 'w option \<Rightarrow> 'e + 'a option" where
  "decode_opt decode row =
     (case row of None \<Rightarrow> Inr None | Some bytes \<Rightarrow> rbind (decode bytes) (\<lambda>x. Inr (Some x)))"

lemma decode_opt_ok [result_simps]:
  "decode_opt decode row = Inr None \<longleftrightarrow> row = None"
  "decode_opt decode row = Inr (Some x) \<longleftrightarrow> (\<exists>bytes. row = Some bytes \<and> decode bytes = Inr x)"
  by (auto simp: decode_opt_def result_simps split: option.splits)

section \<open>Rows\<close>

definition require_embedded_key ::
  "('t, 'n, 'w) archive_env \<Rightarrow> string \<Rightarrow> string \<Rightarrow> ArchiveKey \<Rightarrow> ArchiveStoreError + unit" where
  "require_embedded_key env record_kind stored_key embedded_key =
     rbind (corrupt_contract env record_kind (canonical_key (ae_limits env) embedded_key)) (\<lambda>embedded.
     if embedded \<noteq> stored_key
     then Inl (CorruptRecord (record_kind @ '' embedded key '' @ embedded @ '' differs from table key ''
       @ stored_key))
     else Inr ())"

definition decode_for_key ::
  "('t, 'n, 'w) archive_env \<Rightarrow> (ArchiveLimits \<Rightarrow> 'a \<Rightarrow> ArchiveContractError + unit) \<Rightarrow> ('a, 'w) wire_format
    \<Rightarrow> ('a \<Rightarrow> ArchiveKey) \<Rightarrow> string \<Rightarrow> string \<Rightarrow> 'w \<Rightarrow> ArchiveStoreError + 'a" where
  "decode_for_key env validate_wire format key_of record_kind stored_key bytes =
     rbind (corrupt_contract env record_kind
       (from_wire validate_wire format (ae_size env) (ae_limits env) bytes)) (\<lambda>x.
     rbind (require_embedded_key env record_kind stored_key (key_of x)) (\<lambda>_. Inr x))"

definition decode_record_for_key ::
  "('t, 'n, 'w) archive_env \<Rightarrow> string \<Rightarrow> string \<Rightarrow> 'w \<Rightarrow> ArchiveStoreError + ArchiveRecord" where
  "decode_record_for_key env record_kind = decode_for_key env record_validate (ae_record env) ar_key record_kind"

definition decode_lease_for_key ::
  "('t, 'n, 'w) archive_env \<Rightarrow> string \<Rightarrow> 'w \<Rightarrow> ArchiveStoreError + ArchiveLease" where
  "decode_lease_for_key env = decode_for_key env lease_validate (ae_lease env) le_key ''lease''"

definition decode_import_for_key ::
  "('t, 'n, 'w) archive_env \<Rightarrow> string \<Rightarrow> 'w \<Rightarrow> ArchiveStoreError + ArchiveImportMarker" where
  "decode_import_for_key env = decode_for_key env marker_validate (ae_marker env) im_key ''import marker''"

definition decode_reconciliation_for_key ::
  "('t, 'n, 'w) archive_env \<Rightarrow> string \<Rightarrow> 'w \<Rightarrow> ArchiveStoreError + ArchiveReconciliationObservation" where
  "decode_reconciliation_for_key env =
     decode_for_key env observation_validate (ae_observation env) rc_key ''reconciliation receipt''"

definition decode_migration_state ::
  "('t, 'n, 'w) archive_env \<Rightarrow> 'w \<Rightarrow> ArchiveStoreError + ArchiveMigrationState" where
  "decode_migration_state env bytes = corrupt_contract env ''migration state''
     (from_wire migration_state_validate (ae_migration env) (ae_size env) (ae_limits env) bytes)"

definition lease_to_wire :: "('t, 'n, 'w) archive_env \<Rightarrow> ArchiveLease \<Rightarrow> ArchiveStoreError + 'w" where
  "lease_to_wire env l = contract (to_wire lease_validate (ae_lease env) (ae_size env) (ae_limits env) l)"

definition record_to_wire :: "('t, 'n, 'w) archive_env \<Rightarrow> ArchiveRecord \<Rightarrow> ArchiveStoreError + 'w" where
  "record_to_wire env r = contract (to_wire record_validate (ae_record env) (ae_size env) (ae_limits env) r)"

definition marker_to_wire :: "('t, 'n, 'w) archive_env \<Rightarrow> ArchiveImportMarker \<Rightarrow> ArchiveStoreError + 'w" where
  "marker_to_wire env m = contract (to_wire marker_validate (ae_marker env) (ae_size env) (ae_limits env) m)"

definition observation_to_wire ::
  "('t, 'n, 'w) archive_env \<Rightarrow> ArchiveReconciliationObservation \<Rightarrow> ArchiveStoreError + 'w" where
  "observation_to_wire env ob =
     contract (to_wire observation_validate (ae_observation env) (ae_size env) (ae_limits env) ob)"

definition migration_to_wire :: "('t, 'n, 'w) archive_env \<Rightarrow> ArchiveMigrationState \<Rightarrow> ArchiveStoreError + 'w" where
  "migration_to_wire env m =
     contract (to_wire migration_state_validate (ae_migration env) (ae_size env) (ae_limits env) m)"

lemma decode_for_key_ok [result_simps]:
  "decode_for_key env validate_wire format key_of kind k bytes = Inr x
    \<longleftrightarrow> from_wire validate_wire format (ae_size env) (ae_limits env) bytes = Inr x
      \<and> key_valid (ae_limits env) (key_of x) \<and> canonical_text (key_of x) = k"
  by (auto simp: decode_for_key_def require_embedded_key_def result_simps)

text \<open>The environments whose database and serializer behave as documented.\<close>

definition env_lawful :: "('t, 'n, 'w) archive_env \<Rightarrow> bool" where
  "env_lawful env = (table_lawful (ae_tables env) \<and> table_lawful (ae_meta env)
     \<and> wire_faithful (ae_lease env) \<and> wire_faithful (ae_record env) \<and> wire_faithful (ae_marker env)
     \<and> wire_faithful (ae_observation env) \<and> wire_faithful (ae_migration env))"

lemma decode_written [simp]:
  assumes "env_lawful env"
  shows "lease_to_wire env l = Inr w \<Longrightarrow> decode_lease_for_key env (canonical_text (le_key l)) w = Inr l"
    and "record_to_wire env r = Inr w \<Longrightarrow> decode_record_for_key env kind (canonical_text (ar_key r)) w = Inr r"
    and "marker_to_wire env m = Inr w \<Longrightarrow> decode_import_for_key env (canonical_text (im_key m)) w = Inr m"
    and "observation_to_wire env ob = Inr w
      \<Longrightarrow> decode_reconciliation_for_key env (canonical_text (rc_key ob)) w = Inr ob"
    and "migration_to_wire env s = Inr w \<Longrightarrow> decode_migration_state env w = Inr s"
proof -
  note laws = assms [unfolded env_lawful_def]
  show "decode_lease_for_key env (canonical_text (le_key l)) w = Inr l" if "lease_to_wire env l = Inr w"
    using that laws to_wire_valid [of lease_validate] wire_roundtrip [of "ae_lease env" lease_validate]
    by (fastforce simp: lease_to_wire_def decode_lease_for_key_def result_simps lease_ok_def)
  show "decode_record_for_key env kind (canonical_text (ar_key r)) w = Inr r" if "record_to_wire env r = Inr w"
    using that laws to_wire_valid [of record_validate] wire_roundtrip [of "ae_record env" record_validate]
    by (fastforce simp: record_to_wire_def decode_record_for_key_def result_simps record_ok_def)
  show "decode_import_for_key env (canonical_text (im_key m)) w = Inr m" if "marker_to_wire env m = Inr w"
    using that laws to_wire_valid [of marker_validate] wire_roundtrip [of "ae_marker env" marker_validate]
    by (fastforce simp: marker_to_wire_def decode_import_for_key_def result_simps marker_ok_def)
  show "decode_reconciliation_for_key env (canonical_text (rc_key ob)) w = Inr ob"
    if "observation_to_wire env ob = Inr w"
    using that laws to_wire_valid [of observation_validate]
      wire_roundtrip [of "ae_observation env" observation_validate]
    by (fastforce simp: observation_to_wire_def decode_reconciliation_for_key_def result_simps
        observation_ok_def)
  show "decode_migration_state env w = Inr s" if "migration_to_wire env s = Inr w"
    using that laws wire_roundtrip [of "ae_migration env" migration_state_validate]
    by (fastforce simp: migration_to_wire_def decode_migration_state_def result_simps)
qed

lemma tables_lawful [simp]:
  assumes "env_lawful env"
  shows "tget env (tins env t k v) k' = (if k' = k then Some v else tget env t k')"
    and "tget env (trem env t k) k' = (if k' = k then None else tget env t k')"
    and "mget env (mins env m k n) k' = (if k' = k then Some n else mget env m k')"
proof -
  have t: "sorted_table (tget env) (tins env) (trem env) (trows env)"
    and m: "sorted_table (mget env) (mins env) (to_remove (ae_meta env)) (to_rows (ae_meta env))"
    using assms by (simp_all add: env_lawful_def table_lawful_def)
  show "tget env (tins env t k v) k' = (if k' = k then Some v else tget env t k')"
    by (rule sorted_table.get_ins [OF t])
  show "tget env (trem env t k) k' = (if k' = k then None else tget env t k')"
    by (rule sorted_table.get_rem [OF t])
  show "mget env (mins env m k n) k' = (if k' = k then Some n else mget env m k')"
    by (rule sorted_table.get_ins [OF m])
qed

end
