(* ===== verification/Archive_Store.thy ===== *)
theory Archive_Store
  imports Archive_Tables
begin

text \<open>
  The ordinary operations of the archive store (\<open>ArchiveStore\<close> in
  \<open>fforager-storage/src/lib.rs\<close>): claims, releases, renewals, commits, reads, reconciliation and
  imports. Each is one transaction. It takes the failures of its database calls and the tables, and
  returns the tables it commits with its result, or an error; an error, and a return before
  \<open>commit\<close>, leave the tables as they were. A label that occurs more than once in an operation is
  counted from 0.
\<close>

definition STORE_VERSION :: string where "STORE_VERSION = ''store_version''"

definition COMMIT_SEQUENCE :: string where "COMMIT_SEQUENCE = ''commit_sequence''"

definition ACTIVE_MIGRATION :: string where "ACTIVE_MIGRATION = ''active''"

definition INITIAL_STORE_VERSION :: u64 where "INITIAL_STORE_VERSION = 1"

definition CURRENT_STORE_VERSION :: u64 where "CURRENT_STORE_VERSION = 2"

record ArchiveDurabilityPolicy =
  dp_immediate :: bool
  dp_two_phase_commit :: bool
  dp_quick_repair :: bool

definition ARCHIVE_DURABILITY_POLICY :: ArchiveDurabilityPolicy where
  "ARCHIVE_DURABILITY_POLICY =
     \<lparr> dp_immediate = True, dp_two_phase_commit = True, dp_quick_repair = True \<rparr>"

section \<open>Transactions\<close>

datatype RecordsTable = RecordsV1 | RecordsV2

fun records_table :: "RecordsTable \<Rightarrow> ('t, 'n) archive_tables \<Rightarrow> 't" where
  "records_table RecordsV1 ts = at_records_v1 ts"
| "records_table RecordsV2 ts = at_records_v2 ts"

fun with_records :: "RecordsTable \<Rightarrow> 't \<Rightarrow> ('t, 'n) archive_tables \<Rightarrow> ('t, 'n) archive_tables" where
  "with_records RecordsV1 t ts = ts\<lparr> at_records_v1 := t \<rparr>"
| "with_records RecordsV2 t ts = ts\<lparr> at_records_v2 := t \<rparr>"

definition records_definition :: "u64 \<Rightarrow> ArchiveStoreError + RecordsTable" where
  "records_definition version =
     (if version = INITIAL_STORE_VERSION then Inr RecordsV1
      else if version = CURRENT_STORE_VERSION then Inr RecordsV2
      else Inl (UnsupportedStoreVersion version))"

definition stored_version ::
  "(string \<Rightarrow> string \<Rightarrow> ArchiveStoreError) \<Rightarrow> ('t, 'n, 'w) archive_env \<Rightarrow> io \<Rightarrow> ('t, 'n) archive_tables
    \<Rightarrow> ArchiveStoreError + u64" where
  "stored_version fail env io ts =
     rbind (call_at fail io ''open metadata'' 0) (\<lambda>_.
     rbind (call_at fail io ''read store version'' 0) (\<lambda>_.
     ok_or (CorruptRecord ''store version missing'') (mget env (at_meta ts) STORE_VERSION)))"

definition active_records_definition ::
  "('t, 'n, 'w) archive_env \<Rightarrow> io \<Rightarrow> ('t, 'n) archive_tables \<Rightarrow> ArchiveStoreError + RecordsTable" where
  "active_records_definition env io ts = rbind (stored_version write_detail env io ts) records_definition"

definition active_records_definition_read ::
  "('t, 'n, 'w) archive_env \<Rightarrow> io \<Rightarrow> ('t, 'n) archive_tables \<Rightarrow> ArchiveStoreError + RecordsTable" where
  "active_records_definition_read env io ts = rbind (stored_version read_detail env io ts) records_definition"

definition active_store_version ::
  "('t, 'n, 'w) archive_env \<Rightarrow> io \<Rightarrow> ('t, 'n) archive_tables \<Rightarrow> ArchiveStoreError + u64" where
  "active_store_version env io ts = stored_version write_detail env io ts"

text \<open>One row of a table: the table opened (for the \<open>n\<close>-th time), the row read and decoded.\<close>

definition read_row ::
  "(string \<Rightarrow> string \<Rightarrow> ArchiveStoreError) \<Rightarrow> ('t, 'n, 'w) archive_env \<Rightarrow> io \<Rightarrow> nat \<Rightarrow> string \<Rightarrow> string
    \<Rightarrow> ('w \<Rightarrow> ArchiveStoreError + 'a) \<Rightarrow> 't \<Rightarrow> string \<Rightarrow> ArchiveStoreError + 'a option" where
  "read_row fail env io n opening reading decode t k =
     rbind (call_at fail io opening n) (\<lambda>_.
     rbind (call_at fail io reading 0) (\<lambda>_.
     decode_opt decode (tget env t k)))"

definition migration_state_write ::
  "('t, 'n, 'w) archive_env \<Rightarrow> io \<Rightarrow> ('t, 'n) archive_tables \<Rightarrow> ArchiveStoreError + ArchiveMigrationState option" where
  "migration_state_write env io ts =
     read_row write_detail env io 0 ''open migration state'' ''read migration state''
       (decode_migration_state env) (at_migration_records ts) ACTIVE_MIGRATION"

definition require_archive_write_allowed ::
  "('t, 'n, 'w) archive_env \<Rightarrow> io \<Rightarrow> ('t, 'n) archive_tables \<Rightarrow> ArchiveStoreError + unit" where
  "require_archive_write_allowed env io ts =
     rbind (migration_state_write env io ts) (\<lambda>state.
     case state of
       None \<Rightarrow> Inr ()
     | Some s \<Rightarrow>
         if ms_phase s \<in> {Activated, RolledBack} then Inr ()
         else Inl (MigrationState
           ''ordinary archive writes are blocked until migration activation or rollback''))"

definition begin_durable_write :: "io \<Rightarrow> ArchiveStoreError + unit" where
  "begin_durable_write io =
     rbind (write_call io ''begin transaction'') (\<lambda>_. write_call io ''set immediate durability'')"

definition begin_archive_write ::
  "('t, 'n, 'w) archive_env \<Rightarrow> io \<Rightarrow> ('t, 'n) archive_tables \<Rightarrow> ArchiveStoreError + unit" where
  "begin_archive_write env io ts =
     rbind (begin_durable_write io) (\<lambda>_. require_archive_write_allowed env io ts)"

definition clear_reconciliation_receipt ::
  "('t, 'n, 'w) archive_env \<Rightarrow> io \<Rightarrow> nat \<Rightarrow> string \<Rightarrow> 't \<Rightarrow> ArchiveStoreError + 't" where
  "clear_reconciliation_receipt env io n canonical receipts =
     rbind (call_at write_detail io ''open reconciliation receipts'' n) (\<lambda>_.
     rbind (call_at write_detail io ''clear reconciliation receipt'' n) (\<lambda>_.
     Inr (trem env receipts canonical)))"

definition lease_generation_key :: "string \<Rightarrow> string" where
  "lease_generation_key canonical = ''lease-generation|'' @ canonical"

section \<open>Claims\<close>

definition existing_claim_outcome ::
  "('t, 'n, 'w) archive_env \<Rightarrow> io \<Rightarrow> ('t, 'n) archive_tables \<Rightarrow> RecordsTable \<Rightarrow> string
    \<Rightarrow> ArchiveStoreError + ArchiveClaimOutcome option" where
  "existing_claim_outcome env io ts active canonical =
     rbind (read_row write_detail env io 0 ''open active records'' ''read committed record''
       (decode_record_for_key env ''committed record'' canonical) (records_table active ts) canonical) (\<lambda>committed.
     case committed of
       Some r \<Rightarrow> Inr (Some (AlreadyCommitted r))
     | None \<Rightarrow>
         rbind (read_row write_detail env io 0 ''open imports'' ''read imported marker''
           (decode_import_for_key env canonical) (at_imports ts) canonical) (\<lambda>imported.
         case imported of
           Some m \<Rightarrow> Inr (Some (AlreadyImported m))
         | None \<Rightarrow> Inr None))"

definition next_generation ::
  "('t, 'n, 'w) archive_env \<Rightarrow> io \<Rightarrow> ('t, 'n) archive_tables \<Rightarrow> ArchiveLease option \<Rightarrow> string
    \<Rightarrow> ArchiveStoreError + u64" where
  "next_generation env io ts current_lease canonical =
     rbind (call_at write_detail io ''open metadata'' 1) (\<lambda>_.
     rbind (write_call io ''read lease generation'') (\<lambda>_.
     let previous = (case mget env (at_meta ts) (lease_generation_key canonical) of None \<Rightarrow> 0 | Some g \<Rightarrow> g);
         durable_previous = (case current_lease of None \<Rightarrow> previous | Some l \<Rightarrow> max previous (le_generation l))
     in rbind (ok_or (StoreLimitExceeded ''lease generation exhausted'') (checked_add durable_previous 1)) (\<lambda>next.
        rbind (write_call io ''advance lease generation'') (\<lambda>_. Inr next))))"

text \<open>What a claim returns about a lease that is still live.\<close>

definition live_lease_outcome ::
  "ArchiveClaimRequest \<Rightarrow> ArchiveLease \<Rightarrow> ArchiveStoreError + ArchiveClaimOutcome" where
  "live_lease_outcome r l =
     (if le_owner_job_id l = cl_owner_job_id r \<and> le_token l = cl_lease_token r
      then if le_claim_provenance l \<noteq> cl_provenance r
        then Inl (Conflict ''claim replay changed immutable transaction or provenance digests'')
        else Inr (Acquired l)
      else Inr (HeldByOther (le_owner_job_id l) (le_generation l) (le_expires_at_unix_millis l)))"

definition is_live :: "ArchiveLease option \<Rightarrow> u64 \<Rightarrow> bool" where
  "is_live current_lease now_unix_millis =
     (case current_lease of None \<Rightarrow> False | Some l \<Rightarrow> \<not> is_stale_at l now_unix_millis)"

text \<open>The claim of an identity that is neither committed nor imported.\<close>

definition acquire_lease ::
  "('t, 'n, 'w) archive_env \<Rightarrow> io \<Rightarrow> ('t, 'n) archive_tables \<Rightarrow> ArchiveClaimRequest \<Rightarrow> string
    \<Rightarrow> ArchiveStoreError + ('t, 'n) archive_tables \<times> ArchiveClaimOutcome" where
  "acquire_lease env io ts r key =
     rbind (read_row write_detail env io 0 ''open leases'' ''read lease''
       (decode_lease_for_key env key) (at_leases ts) key) (\<lambda>current_lease.
     if is_live current_lease (cl_requested_at_unix_millis r)
     then rbind (live_lease_outcome r (the current_lease)) (\<lambda>outcome. Inr (ts, outcome))
     else
       rbind (next_generation env io ts current_lease key) (\<lambda>generation.
       rbind (contract (ok_or TimeOverflow
         (checked_add (cl_requested_at_unix_millis r) (cl_lease_duration_millis r)))) (\<lambda>expires.
       let l = claimed_lease r generation expires
       in rbind (lease_to_wire env l) (\<lambda>wire.
          rbind (call_at write_detail io ''open leases'' 1) (\<lambda>_.
          rbind (write_call io ''persist lease'') (\<lambda>_.
          rbind (clear_reconciliation_receipt env io 0 key (at_reconciliation_receipts ts)) (\<lambda>receipts.
          rbind (write_call io ''commit claim'') (\<lambda>_.
          Inr (ts\<lparr> at_meta := mins env (at_meta ts) (lease_generation_key key) generation,
                   at_leases := tins env (at_leases ts) key wire,
                   at_reconciliation_receipts := receipts \<rparr>, Acquired l)))))))))"

definition archive_claim ::
  "('t, 'n, 'w) archive_env \<Rightarrow> io \<Rightarrow> ('t, 'n) archive_tables \<Rightarrow> ArchiveClaimRequest
    \<Rightarrow> ArchiveStoreError + ('t, 'n) archive_tables \<times> ArchiveClaimOutcome" where
  "archive_claim env io ts r =
     rbind (contract (claim_request_validate (ae_limits env) r)) (\<lambda>_.
     rbind (contract (canonical_key (ae_limits env) (cl_key r))) (\<lambda>key.
     rbind (begin_archive_write env io ts) (\<lambda>_.
     rbind (active_records_definition env io ts) (\<lambda>active.
     rbind (existing_claim_outcome env io ts active key) (\<lambda>existing.
     case existing of
       Some outcome \<Rightarrow> Inr (ts, outcome)
     | None \<Rightarrow> acquire_lease env io ts r key)))))"

definition release_claim ::
  "('t, 'n, 'w) archive_env \<Rightarrow> io \<Rightarrow> ('t, 'n) archive_tables \<Rightarrow> ArchiveLease
    \<Rightarrow> ArchiveStoreError + ('t, 'n) archive_tables" where
  "release_claim env io ts l =
     rbind (contract (lease_validate (ae_limits env) l)) (\<lambda>_.
     rbind (contract (canonical_key (ae_limits env) (le_key l))) (\<lambda>key.
     rbind (begin_archive_write env io ts) (\<lambda>_.
     rbind (read_row write_detail env io 0 ''open released lease'' ''read released lease''
       (decode_lease_for_key env key) (at_leases ts) key) (\<lambda>stored.
     case stored of
       None \<Rightarrow> Inr ts
     | Some held \<Rightarrow>
         if held \<noteq> l then Inl LeaseMismatch
         else
           rbind (write_call io ''remove released lease'') (\<lambda>_.
           rbind (write_call io ''commit released lease'') (\<lambda>_.
           Inr (ts\<lparr> at_leases := trem env (at_leases ts) key \<rparr>)))))))"

definition renew_lease ::
  "('t, 'n, 'w) archive_env \<Rightarrow> io \<Rightarrow> ('t, 'n) archive_tables \<Rightarrow> ArchiveLeaseRenewalRequest
    \<Rightarrow> ArchiveStoreError + ('t, 'n) archive_tables \<times> ArchiveLease" where
  "renew_lease env io ts r =
     rbind (contract (renewal_validate (ae_limits env) r)) (\<lambda>_.
     let current = ln_current_lease r
     in if is_stale_at current (ln_renewed_at_unix_millis r) then Inl StoreLeaseExpired
        else
          rbind (contract (renewed_lease (ae_limits env) r)) (\<lambda>renewed.
          rbind (contract (canonical_key (ae_limits env) (le_key current))) (\<lambda>key.
          rbind (begin_archive_write env io ts) (\<lambda>_.
          rbind (read_row write_detail env io 0 ''open leases'' ''read lease for renewal''
            (\<lambda>bytes. corrupt_contract env ''lease''
              (from_wire lease_validate (ae_lease env) (ae_size env) (ae_limits env) bytes))
            (at_leases ts) key) (\<lambda>found.
          rbind (ok_or LeaseNotFound found) (\<lambda>stored.
          if stored \<noteq> current then Inl LeaseMismatch
          else
            rbind (write_call io ''open metadata'') (\<lambda>_.
            rbind (write_call io ''advance renewed lease generation'') (\<lambda>_.
            rbind (lease_to_wire env renewed) (\<lambda>wire.
            rbind (write_call io ''persist renewed lease'') (\<lambda>_.
            rbind (write_call io ''commit lease renewal'') (\<lambda>_.
            Inr (ts\<lparr> at_meta := mins env (at_meta ts) (lease_generation_key key) (le_generation renewed),
                     at_leases := tins env (at_leases ts) key wire \<rparr>, renewed))))))))))))"

section \<open>Commits\<close>

definition padded :: "nat \<Rightarrow> nat \<Rightarrow> string" where
  "padded width n = replicate (width - length (decimal n)) (CHR ''0'') @ decimal n"

definition committed_record :: "ArchiveCommitRequest \<Rightarrow> u64 \<Rightarrow> ArchiveRecord" where
  "committed_record r sequence = \<lparr> ar_schema = ARCHIVE_SCHEMA,
     ar_archive_row_id = ''archive-row-'' @ padded 20 (unat sequence),
     ar_key = le_key (cm_lease r), ar_success_event = cm_success_event r, ar_output = cm_output r,
     ar_provenance = cm_provenance r, ar_claim_lease_token = le_token (cm_lease r),
     ar_claim_lease_generation = le_generation (cm_lease r), ar_commit_sequence = sequence,
     ar_committed_at_unix_millis = cm_committed_at_unix_millis r \<rparr>"

definition same_commit :: "ArchiveRecord \<Rightarrow> ArchiveCommitRequest \<Rightarrow> bool" where
  "same_commit r q = (ar_key r = le_key (cm_lease q) \<and> ar_success_event r = cm_success_event q
     \<and> ar_output r = cm_output q \<and> ar_provenance r = cm_provenance q
     \<and> ar_claim_lease_token r = le_token (cm_lease q)
     \<and> ar_claim_lease_generation r = le_generation (cm_lease q)
     \<and> ar_committed_at_unix_millis r = cm_committed_at_unix_millis q)"

definition stored_sequence :: "('t, 'n, 'w) archive_env \<Rightarrow> ('t, 'n) archive_tables \<Rightarrow> u64" where
  "stored_sequence env ts = (case mget env (at_meta ts) COMMIT_SEQUENCE of None \<Rightarrow> 0 | Some n \<Rightarrow> n)"

definition commit_success ::
  "('t, 'n, 'w) archive_env \<Rightarrow> io \<Rightarrow> ('t, 'n) archive_tables \<Rightarrow> ArchiveCommitRequest
    \<Rightarrow> ArchiveStoreError + ('t, 'n) archive_tables \<times> ArchiveCommitOutcome" where
  "commit_success env io ts q =
     rbind (contract (commit_request_validate (ae_limits env) q)) (\<lambda>_.
     if is_stale_at (cm_lease q) (cm_committed_at_unix_millis q) then Inl StoreLeaseExpired
     else
       rbind (contract (canonical_key (ae_limits env) (le_key (cm_lease q)))) (\<lambda>key.
       rbind (begin_archive_write env io ts) (\<lambda>_.
       rbind (active_records_definition env io ts) (\<lambda>active.
       rbind (read_row write_detail env io 0 ''open active records'' ''read existing record''
         (decode_record_for_key env ''committed record'' key) (records_table active ts) key) (\<lambda>existing.
       case existing of
         Some r \<Rightarrow>
           if same_commit r q then Inr (ts, CommitAlreadyCommitted r)
           else Inl (Conflict ''identity already has a different committed output'')
       | None \<Rightarrow>
           rbind (read_row write_detail env io 0 ''open leases'' ''read lease for commit''
             (decode_lease_for_key env key) (at_leases ts) key) (\<lambda>found.
           rbind (ok_or LeaseNotFound found) (\<lambda>stored.
           if stored \<noteq> cm_lease q then Inl LeaseMismatch
           else
             rbind (call_at write_detail io ''open metadata'' 1) (\<lambda>_.
             rbind (write_call io ''read commit sequence'') (\<lambda>_.
             rbind (ok_or (StoreLimitExceeded ''commit sequence exhausted'')
               (checked_add (stored_sequence env ts) 1)) (\<lambda>sequence.
             rbind (write_call io ''advance commit sequence'') (\<lambda>_.
             let r = committed_record q sequence
             in rbind (record_to_wire env r) (\<lambda>wire.
                rbind (call_at write_detail io ''open active records'' 1) (\<lambda>_.
                rbind (write_call io ''insert archive record'') (\<lambda>_.
                rbind (call_at write_detail io ''open leases'' 1) (\<lambda>_.
                rbind (write_call io ''release committed lease'') (\<lambda>_.
                rbind (write_call io ''commit archive record'') (\<lambda>_.
                Inr (with_records active (tins env (records_table active ts) key wire)
                  (ts\<lparr> at_meta := mins env (at_meta ts) COMMIT_SEQUENCE sequence,
                       at_leases := trem env (at_leases ts) key \<rparr>), Inserted r))))))))))))))))))"

section \<open>Reads\<close>

definition archive_membership ::
  "('t, 'n, 'w) archive_env \<Rightarrow> io \<Rightarrow> ('t, 'n) archive_tables \<Rightarrow> ArchiveKey
    \<Rightarrow> ArchiveStoreError + ArchiveMembership" where
  "archive_membership env io ts k =
     rbind (contract (canonical_key (ae_limits env) k)) (\<lambda>canonical.
     rbind (read_call io ''begin membership read'') (\<lambda>_.
     rbind (active_records_definition_read env io ts) (\<lambda>active.
     rbind (read_row read_detail env io 0 ''open active records'' ''read committed record''
       (decode_record_for_key env ''committed record'' canonical) (records_table active ts) canonical) (\<lambda>committed.
     case committed of
       Some r \<Rightarrow> Inr (Committed r)
     | None \<Rightarrow>
         rbind (read_row read_detail env io 0 ''open leases'' ''read lease''
           (decode_lease_for_key env canonical) (at_leases ts) canonical) (\<lambda>held.
         case held of
           Some l \<Rightarrow> Inr (Claimed l)
         | None \<Rightarrow>
             rbind (read_row read_detail env io 0 ''open imports'' ''read import marker''
               (decode_import_for_key env canonical) (at_imports ts) canonical) (\<lambda>imported.
             case imported of
               Some m \<Rightarrow> Inr (Imported m)
             | None \<Rightarrow> Inr Absent))))))"

definition archive_contains ::
  "('t, 'n, 'w) archive_env \<Rightarrow> io \<Rightarrow> ('t, 'n) archive_tables \<Rightarrow> ArchiveKey \<Rightarrow> ArchiveStoreError + bool" where
  "archive_contains env io ts k =
     rbind (archive_membership env io ts k) (\<lambda>m.
     Inr (case m of Committed _ \<Rightarrow> True | Imported _ \<Rightarrow> True | _ \<Rightarrow> False))"

end
