(* ===== verification/Archive_Recovery.thy ===== *)
theory Archive_Recovery
  imports Archive_Store
begin

text \<open>
  Reconciliation of one identity and the import of a mapped batch (\<open>reconcile\<close> and
  \<open>import_mapped_text\<close> of \<open>fforager-storage/src/lib.rs\<close>).
\<close>

section \<open>Reconciliation\<close>

definition read_reconciliation_actual ::
  "('t, 'n, 'w) archive_env \<Rightarrow> io \<Rightarrow> ('t, 'n) archive_tables \<Rightarrow> RecordsTable \<Rightarrow> string
    \<Rightarrow> ArchiveStoreError + ArchiveRecord option \<times> ArchiveLease option" where
  "read_reconciliation_actual env io ts active canonical =
     rbind (read_row write_detail env io 0 ''open active records'' ''read reconciliation row''
       (decode_record_for_key env ''committed record'' canonical) (records_table active ts) canonical) (\<lambda>actual_record.
     rbind (read_row write_detail env io 0 ''open leases'' ''read reconciliation lease''
       (decode_lease_for_key env canonical) (at_leases ts) canonical) (\<lambda>actual_lease.
     rbind (read_row write_detail env io 0 ''open imports'' ''read reconciliation import''
       (decode_import_for_key env canonical) (at_imports ts) canonical) (\<lambda>imported.
     case imported of
       Some _ \<Rightarrow> Inl (Conflict ''reconciliation key already exists as a mapped import'')
     | None \<Rightarrow> Inr (actual_record, actual_lease))))"

definition reconciliation_receipt_write ::
  "('t, 'n, 'w) archive_env \<Rightarrow> io \<Rightarrow> ('t, 'n) archive_tables \<Rightarrow> string
    \<Rightarrow> ArchiveStoreError + ArchiveReconciliationObservation option" where
  "reconciliation_receipt_write env io ts canonical =
     read_row write_detail env io 0 ''open reconciliation receipts'' ''read reconciliation receipt''
       (decode_reconciliation_for_key env canonical) (at_reconciliation_receipts ts) canonical"

definition persist_reconciliation_receipt ::
  "('t, 'n, 'w) archive_env \<Rightarrow> io \<Rightarrow> string \<Rightarrow> 'w \<Rightarrow> 't \<Rightarrow> ArchiveStoreError + 't" where
  "persist_reconciliation_receipt env io canonical wire receipts =
     rbind (call_at write_detail io ''open reconciliation receipts'' 1) (\<lambda>_.
     rbind (write_call io ''persist reconciliation receipt'') (\<lambda>_.
     Inr (tins env receipts canonical wire)))"

definition validate_reconciliation_actual ::
  "ArchiveReconciliationObservation \<Rightarrow> ArchiveRecord option \<Rightarrow> ArchiveLease option
    \<Rightarrow> ArchiveStoreError + unit" where
  "validate_reconciliation_actual ob actual_record actual_lease =
     rbind (case rc_row ob of
         RowMissing \<Rightarrow>
           if actual_record \<noteq> None
           then Inl (Conflict ''reconciliation claimed a missing row that exists'') else Inr ()
       | RowMatching r \<Rightarrow>
           if actual_record \<noteq> Some r
           then Inl (Conflict ''reconciliation row observation is stale'') else Inr ()
       | RowMismatched _ \<Rightarrow> Inr ()) (\<lambda>_.
     if rc_lease ob \<noteq> actual_lease
     then Inl (Conflict ''reconciliation lease observation is stale'')
     else Inr ())"

definition replay_applied_reconciliation ::
  "ArchiveLimits \<Rightarrow> ArchiveReconciliationObservation \<Rightarrow> ArchiveRecord option \<Rightarrow> ArchiveLease option
    \<Rightarrow> ArchiveStoreError + ArchiveReconciliationDecision" where
  "replay_applied_reconciliation limits ob actual_record actual_lease =
     rbind (contract (reconciliation_decide limits ob)) (\<lambda>decision.
     let mismatch = Inl (Conflict ''durable reconciliation receipt does not match current terminal state'')
     in case decision of
          InsertMissingRow r \<Rightarrow>
            if actual_record = Some r \<and> actual_lease = None then Inr Reconciled else mismatch
        | ReclaimStaleLease \<Rightarrow>
            if actual_record = None \<and> actual_lease = None then Inr ReclaimStaleLease else mismatch
        | _ \<Rightarrow> mismatch)"

definition insert_missing_row ::
  "('t, 'n, 'w) archive_env \<Rightarrow> io \<Rightarrow> ('t, 'n) archive_tables \<Rightarrow> RecordsTable \<Rightarrow> string \<Rightarrow> 'w
    \<Rightarrow> ArchiveLease option \<Rightarrow> ArchiveRecord \<Rightarrow> ArchiveStoreError + ('t, 'n) archive_tables" where
  "insert_missing_row env io ts active canonical observation_wire actual_lease r =
     rbind (record_to_wire env r) (\<lambda>wire.
     rbind (call_at write_detail io ''open active records'' 1) (\<lambda>_.
     rbind (write_call io ''insert reconciled row'') (\<lambda>_.
     rbind (call_at write_detail io ''open metadata'' 1) (\<lambda>_.
     rbind (write_call io ''read commit sequence'') (\<lambda>_.
     rbind (if ar_commit_sequence r > stored_sequence env ts
       then rbind (write_call io ''advance reconciled commit sequence'') (\<lambda>_.
         Inr (mins env (at_meta ts) COMMIT_SEQUENCE (ar_commit_sequence r)))
       else Inr (at_meta ts)) (\<lambda>meta.
     rbind (if actual_lease \<noteq> None
       then rbind (call_at write_detail io ''open leases'' 1) (\<lambda>_.
         rbind (write_call io ''release reconciled lease'') (\<lambda>_.
         Inr (trem env (at_leases ts) canonical)))
       else Inr (at_leases ts)) (\<lambda>leases.
     rbind (persist_reconciliation_receipt env io canonical observation_wire
       (at_reconciliation_receipts ts)) (\<lambda>receipts.
     rbind (write_call io ''commit missing-row reconciliation'') (\<lambda>_.
     Inr (with_records active (tins env (records_table active ts) canonical wire)
       (ts\<lparr> at_meta := meta, at_leases := leases, at_reconciliation_receipts := receipts \<rparr>)))))))))))"

definition reclaim_stale_lease ::
  "('t, 'n, 'w) archive_env \<Rightarrow> io \<Rightarrow> ('t, 'n) archive_tables \<Rightarrow> ArchiveReconciliationObservation \<Rightarrow> string
    \<Rightarrow> 'w \<Rightarrow> ArchiveLease option \<Rightarrow> ArchiveStoreError + ('t, 'n) archive_tables" where
  "reclaim_stale_lease env io ts ob canonical observation_wire actual_lease =
     rbind (ok_or LeaseNotFound actual_lease) (\<lambda>held.
     if \<not> is_stale_at held (rc_now_unix_millis ob)
     then Inl (Conflict ''reconciliation attempted to reclaim a fresh lease'')
     else
       rbind (call_at write_detail io ''open leases'' 1) (\<lambda>_.
       rbind (write_call io ''reclaim stale lease'') (\<lambda>_.
       rbind (persist_reconciliation_receipt env io canonical observation_wire
         (at_reconciliation_receipts ts)) (\<lambda>receipts.
       rbind (write_call io ''commit stale-lease reconciliation'') (\<lambda>_.
       Inr (ts\<lparr> at_leases := trem env (at_leases ts) canonical,
                at_reconciliation_receipts := receipts \<rparr>))))))"

definition record_inconsistency ::
  "('t, 'n, 'w) archive_env \<Rightarrow> io \<Rightarrow> ('t, 'n) archive_tables \<Rightarrow> ArchiveReconciliationObservation \<Rightarrow> string
    \<Rightarrow> ArchiveStoreError + ('t, 'n) archive_tables" where
  "record_inconsistency env io ts ob canonical =
     rbind (observation_to_wire env ob) (\<lambda>wire.
     rbind (write_call io ''open inconsistencies'') (\<lambda>_.
     rbind (write_call io ''persist inconsistency'') (\<lambda>_.
     rbind (write_call io ''commit fail-closed reconciliation'') (\<lambda>_.
     Inr (ts\<lparr> at_inconsistencies := tins env (at_inconsistencies ts) canonical wire \<rparr>)))))"

definition apply_decision ::
  "('t, 'n, 'w) archive_env \<Rightarrow> io \<Rightarrow> ('t, 'n) archive_tables \<Rightarrow> RecordsTable
    \<Rightarrow> ArchiveReconciliationObservation \<Rightarrow> string \<Rightarrow> 'w \<Rightarrow> ArchiveLease option
    \<Rightarrow> ArchiveReconciliationDecision \<Rightarrow> ArchiveStoreError + ('t, 'n) archive_tables" where
  "apply_decision env io ts active ob canonical observation_wire actual_lease decision =
     (case decision of
        InsertMissingRow r \<Rightarrow> insert_missing_row env io ts active canonical observation_wire actual_lease r
      | ReclaimStaleLease \<Rightarrow> reclaim_stale_lease env io ts ob canonical observation_wire actual_lease
      | FailClosed _ \<Rightarrow> record_inconsistency env io ts ob canonical
      | _ \<Rightarrow> Inr ts)"

definition archive_reconcile ::
  "('t, 'n, 'w) archive_env \<Rightarrow> io \<Rightarrow> ('t, 'n) archive_tables \<Rightarrow> ArchiveReconciliationObservation
    \<Rightarrow> ArchiveStoreError + ('t, 'n) archive_tables \<times> ArchiveReconciliationDecision" where
  "archive_reconcile env io ts ob =
     rbind (contract (observation_validate (ae_limits env) ob)) (\<lambda>_.
     rbind (contract (canonical_key (ae_limits env) (rc_key ob))) (\<lambda>canonical.
     rbind (observation_to_wire env ob) (\<lambda>observation_wire.
     rbind (begin_archive_write env io ts) (\<lambda>_.
     rbind (active_records_definition env io ts) (\<lambda>active.
     rbind (read_reconciliation_actual env io ts active canonical) (\<lambda>(actual_record, actual_lease).
     rbind (reconciliation_receipt_write env io ts canonical) (\<lambda>previous.
     case previous of
       Some applied \<Rightarrow>
         if applied \<noteq> ob
         then Inl (Conflict ''reconciliation replay differs from the durable applied observation'')
         else
           rbind (replay_applied_reconciliation (ae_limits env) ob actual_record actual_lease) (\<lambda>decision.
           Inr (ts, decision))
     | None \<Rightarrow>
         rbind (validate_reconciliation_actual ob actual_record actual_lease) (\<lambda>_.
         rbind (contract (reconciliation_decide (ae_limits env) ob)) (\<lambda>decision.
         rbind (apply_decision env io ts active ob canonical observation_wire actual_lease decision) (\<lambda>committed.
         Inr (committed, decision)))))))))))"

section \<open>Imports\<close>

record ArchiveImportResult =
  ir_inserted :: u64
  ir_already_present :: u64

text \<open>One entry of a batch: the tables and the counts after it, or the error that ends the import.\<close>

definition import_entry ::
  "('t, 'n, 'w) archive_env \<Rightarrow> io \<Rightarrow> RecordsTable \<Rightarrow> string \<Rightarrow> u64 \<Rightarrow> nat \<Rightarrow> ArchiveImportEntry
    \<Rightarrow> ('t, 'n) archive_tables \<times> ArchiveImportResult
    \<Rightarrow> ArchiveStoreError + ('t, 'n) archive_tables \<times> ArchiveImportResult" where
  "import_entry env io active source_digest imported_at n e state = (let (ts, counts) = state in
     rbind (contract (canonical_key (ae_limits env) (ie_target_key e))) (\<lambda>key.
     rbind (call_at write_detail io ''read import lease conflict'' n) (\<lambda>_.
     rbind (decode_opt (decode_lease_for_key env key) (tget env (at_leases ts) key)) (\<lambda>held.
     if held \<noteq> None then Inl (Conflict (''mapped import identity has an active lease: '' @ key))
     else
       rbind (call_at write_detail io ''read import record conflict'' n) (\<lambda>_.
       rbind (decode_opt (decode_record_for_key env ''committed record'' key)
         (tget env (records_table active ts) key)) (\<lambda>committed.
       let present = rbind (ok_or (StoreLimitExceeded ''import result count exhausted'')
             (checked_add (ir_already_present counts) 1)) (\<lambda>c. Inr (ts, counts\<lparr> ir_already_present := c \<rparr>))
       in if committed \<noteq> None then present
          else
            rbind (contract (marker_from_entry (ae_limits env) e source_digest imported_at)) (\<lambda>marker.
            rbind (call_at write_detail io ''read existing import marker'' n) (\<lambda>_.
            rbind (decode_opt (decode_import_for_key env key) (tget env (at_imports ts) key)) (\<lambda>existing.
            case existing of
              Some m \<Rightarrow>
                if im_key m \<noteq> im_key marker \<or> im_mapping m \<noteq> im_mapping marker
                  \<or> im_source_identity m \<noteq> im_source_identity marker
                  \<or> im_source_digest m \<noteq> im_source_digest marker
                  \<or> im_source_line_number m \<noteq> im_source_line_number marker
                then Inl (Conflict (''mapped import identity has different provenance: '' @ key))
                else present
            | None \<Rightarrow>
                rbind (marker_to_wire env marker) (\<lambda>wire.
                rbind (call_at write_detail io ''insert import marker'' n) (\<lambda>_.
                rbind (clear_reconciliation_receipt env io n key (at_reconciliation_receipts ts)) (\<lambda>receipts.
                rbind (ok_or (StoreLimitExceeded ''import result count exhausted'')
                  (checked_add (ir_inserted counts) 1)) (\<lambda>c.
                Inr (ts\<lparr> at_imports := tins env (at_imports ts) key wire,
                         at_reconciliation_receipts := receipts \<rparr>, counts\<lparr> ir_inserted := c \<rparr>))))))))))))))"

fun import_entries ::
  "('t, 'n, 'w) archive_env \<Rightarrow> io \<Rightarrow> RecordsTable \<Rightarrow> string \<Rightarrow> u64 \<Rightarrow> nat \<Rightarrow> ArchiveImportEntry list
    \<Rightarrow> ('t, 'n) archive_tables \<times> ArchiveImportResult
    \<Rightarrow> ArchiveStoreError + ('t, 'n) archive_tables \<times> ArchiveImportResult" where
  "import_entries env io active source_digest imported_at n [] state = Inr state"
| "import_entries env io active source_digest imported_at n (e # rest) state =
     rbind (import_entry env io active source_digest imported_at n e state) (\<lambda>next.
     import_entries env io active source_digest imported_at (Suc n) rest next)"

definition import_mapped_text ::
  "('t, 'n, 'w) archive_env \<Rightarrow> io \<Rightarrow> ('t, 'n) archive_tables \<Rightarrow> ArchiveImportBatch \<Rightarrow> u64
    \<Rightarrow> ArchiveStoreError + ('t, 'n) archive_tables \<times> ArchiveImportResult" where
  "import_mapped_text env io ts batch imported_at =
     rbind (contract (import_batch_validate (ae_limits env) batch)) (\<lambda>_.
     rbind (begin_archive_write env io ts) (\<lambda>_.
     rbind (active_records_definition env io ts) (\<lambda>active.
     rbind (write_call io ''open active records'') (\<lambda>_.
     rbind (write_call io ''open leases'') (\<lambda>_.
     rbind (write_call io ''open imports'') (\<lambda>_.
     rbind (import_entries env io active (ib_source_digest batch) imported_at 0 (ib_entries batch)
       (ts, \<lparr> ir_inserted = 0, ir_already_present = 0 \<rparr>)) (\<lambda>committed.
     rbind (write_call io ''commit mapped import'') (\<lambda>_.
     Inr committed))))))))"

end
