(* ===== verification/Archive_Migration.thy ===== *)
theory Archive_Migration
  imports Archive_Recovery
begin

text \<open>
  The shadow-copy migration of the archive, and what opening an archive checks
  (\<open>begin_migration\<close> to \<open>migration_state\<close>, \<open>open\<close>, \<open>initialize_tables\<close> and
  \<open>validate_store_topology\<close> of \<open>fforager-storage/src/lib.rs\<close>). Rows are copied from the first record
  table to the second in key order, in bounded batches; the cursor of the checkpoint is the key of the
  last row copied.
\<close>

section \<open>Checks over whole tables\<close>

definition verification_reads :: "io \<Rightarrow> nat \<Rightarrow> ArchiveStoreError + unit" where
  "verification_reads io n =
     rbind (call_at write_detail io ''read migration source during verification'' n) (\<lambda>_.
     call_at write_detail io ''read migration target during verification'' n)"

fun verify_rows ::
  "('t, 'n, 'w) archive_env \<Rightarrow> io \<Rightarrow> nat \<Rightarrow> u64 \<Rightarrow> (string \<times> 'w) list \<Rightarrow> (string \<times> 'w) list
    \<Rightarrow> ArchiveStoreError + u64" where
  "verify_rows env io n verified [] [] = rbind (verification_reads io n) (\<lambda>_. Inr verified)"
| "verify_rows env io n verified ((k, v) # source_rest) ((k', v') # target_rest) =
     rbind (verification_reads io n) (\<lambda>_.
     if k = k' \<and> v = v'
     then
       rbind (decode_record_for_key env ''migration source record'' k v) (\<lambda>_.
       rbind (decode_record_for_key env ''migration target record'' k v') (\<lambda>_.
       rbind (ok_or (StoreLimitExceeded ''migration verification count exhausted'')
         (checked_add verified 1)) (\<lambda>next.
       verify_rows env io (Suc n) next source_rest target_rest)))
     else Inl (Conflict ''migration target differs from last-known-good source''))"
| "verify_rows env io n verified source_rows target_rows =
     rbind (verification_reads io n) (\<lambda>_.
     Inl (Conflict ''migration target differs from last-known-good source''))"

definition verify_source_target_exact ::
  "('t, 'n, 'w) archive_env \<Rightarrow> io \<Rightarrow> ('t, 'n) archive_tables \<Rightarrow> ArchiveStoreError + u64" where
  "verify_source_target_exact env io ts =
     rbind (write_call io ''open migration source'') (\<lambda>_.
     rbind (write_call io ''open migration target'') (\<lambda>_.
     rbind (write_call io ''iterate migration source'') (\<lambda>_.
     rbind (write_call io ''iterate migration target'') (\<lambda>_.
     verify_rows env io 0 0 (trows env (at_records_v1 ts)) (trows env (at_records_v2 ts))))))"

fun cursor_tail :: "io \<Rightarrow> nat \<Rightarrow> string option \<Rightarrow> (string \<times> 'w) list \<Rightarrow> ArchiveStoreError + string option" where
  "cursor_tail io n tail [] = Inr tail"
| "cursor_tail io n tail ((k, v) # rest) =
     rbind (call_at write_detail io ''read migration cursor row'' n) (\<lambda>_.
     cursor_tail io (Suc n) (Some k) rest)"

definition cursor_key ::
  "ArchiveLimits \<Rightarrow> ArchiveMigrationState \<Rightarrow> ArchiveContractError + string option" where
  "cursor_key limits s = decode_opt (canonical_key limits) (ms_last_migrated_key s)"

definition validate_migration_cursor ::
  "('t, 'n, 'w) archive_env \<Rightarrow> io \<Rightarrow> ('t, 'n) archive_tables \<Rightarrow> ArchiveMigrationState
    \<Rightarrow> ArchiveStoreError + unit" where
  "validate_migration_cursor env io ts s =
     rbind (write_call io ''open migration target for cursor validation'') (\<lambda>_.
     rbind (write_call io ''iterate migration target for cursor validation'') (\<lambda>_.
     rbind (cursor_tail io 0 None (trows env (at_records_v2 ts))) (\<lambda>tail.
     rbind (corrupt_contract env ''migration cursor key'' (cursor_key (ae_limits env) s)) (\<lambda>checkpoint.
     if checkpoint \<noteq> tail
     then Inl (CorruptRecord (''migration cursor '' @ ae_show_cursor env checkpoint
       @ '' differs from target tail '' @ ae_show_cursor env tail))
     else Inr ()))))"

fun subset_rows ::
  "('t, 'n, 'w) archive_env \<Rightarrow> io \<Rightarrow> nat \<Rightarrow> u64 \<Rightarrow> 't \<Rightarrow> (string \<times> 'w) list \<Rightarrow> ArchiveStoreError + u64" where
  "subset_rows env io n counted outer [] = Inr counted"
| "subset_rows env io n counted outer ((k, v) # rest) =
     rbind (call_at write_detail io ''read migration subset'' n) (\<lambda>_.
     rbind (decode_record_for_key env ''migration subset record'' k v) (\<lambda>_.
     rbind (call_at write_detail io ''read migration superset'' n) (\<lambda>_.
     if tget env outer k \<noteq> Some v
     then Inl (CorruptRecord (''migration generation differs at canonical key '' @ k))
     else
       rbind (ok_or (StoreLimitExceeded ''migration subset count exhausted'') (checked_add counted 1)) (\<lambda>next.
       subset_rows env io (Suc n) next outer rest))))"

definition validate_table_subset ::
  "('t, 'n, 'w) archive_env \<Rightarrow> io \<Rightarrow> 't \<Rightarrow> 't \<Rightarrow> ArchiveStoreError + u64" where
  "validate_table_subset env io inner outer =
     rbind (write_call io ''open migration subset'') (\<lambda>_.
     rbind (write_call io ''open migration superset'') (\<lambda>_.
     rbind (write_call io ''iterate migration subset'') (\<lambda>_.
     subset_rows env io 0 0 outer (trows env inner))))"

definition validate_target_subset_of_source ::
  "('t, 'n, 'w) archive_env \<Rightarrow> io \<Rightarrow> ('t, 'n) archive_tables \<Rightarrow> ArchiveStoreError + u64" where
  "validate_target_subset_of_source env io ts =
     validate_table_subset env io (at_records_v2 ts) (at_records_v1 ts)"

definition validate_source_subset_of_target ::
  "('t, 'n, 'w) archive_env \<Rightarrow> io \<Rightarrow> ('t, 'n) archive_tables \<Rightarrow> ArchiveStoreError + u64" where
  "validate_source_subset_of_target env io ts =
     validate_table_subset env io (at_records_v1 ts) (at_records_v2 ts)"

fun integrity_rows ::
  "('t, 'n, 'w) archive_env \<Rightarrow> io \<Rightarrow> nat \<Rightarrow> (string \<times> 'w) list \<Rightarrow> ArchiveStoreError + unit" where
  "integrity_rows env io n [] = Inr ()"
| "integrity_rows env io n ((k, v) # rest) =
     rbind (call_at write_detail io ''read migration for integrity validation'' n) (\<lambda>_.
     if k \<noteq> ACTIVE_MIGRATION
     then Inl (CorruptRecord (''migration checkpoint stored under foreign key '' @ k))
     else
       rbind (decode_migration_state env v) (\<lambda>_. integrity_rows env io (Suc n) rest))"

definition validate_migration_table_integrity ::
  "('t, 'n, 'w) archive_env \<Rightarrow> io \<Rightarrow> ('t, 'n) archive_tables \<Rightarrow> ArchiveStoreError + unit" where
  "validate_migration_table_integrity env io ts =
     rbind (write_call io ''open migrations for integrity validation'') (\<lambda>_.
     rbind (write_call io ''iterate migrations for integrity validation'') (\<lambda>_.
     integrity_rows env io 0 (trows env (at_migration_records ts))))"

section \<open>Migration\<close>

definition persist_migration_state ::
  "('t, 'n, 'w) archive_env \<Rightarrow> io \<Rightarrow> ArchiveMigrationState \<Rightarrow> ('t, 'n) archive_tables
    \<Rightarrow> ArchiveStoreError + ('t, 'n) archive_tables" where
  "persist_migration_state env io s ts =
     rbind (migration_to_wire env s) (\<lambda>wire.
     rbind (call_at write_detail io ''open migration state'' 1) (\<lambda>_.
     rbind (write_call io ''persist migration state'') (\<lambda>_.
     Inr (ts\<lparr> at_migration_records := tins env (at_migration_records ts) ACTIVE_MIGRATION wire \<rparr>))))"

definition require_migration_id :: "ArchiveMigrationState \<Rightarrow> string \<Rightarrow> ArchiveStoreError + unit" where
  "require_migration_id s migration_id =
     (if mp_migration_id (ms_plan s) = migration_id then Inr ()
      else Inl (MigrationState ''migration identifier does not match active checkpoint''))"

definition table_empty :: "('t, 'n, 'w) archive_env \<Rightarrow> 't \<Rightarrow> bool" where
  "table_empty env t = (length (trows env t) = 0)"

definition prepared_state :: "ArchiveMigrationPlan \<Rightarrow> string \<Rightarrow> ArchiveMigrationState" where
  "prepared_state plan source_store_digest = \<lparr> ms_plan = plan, ms_phase = Prepared,
     ms_migrated_records = 0, ms_last_migrated_key = None,
     ms_source_store_digest = source_store_digest \<rparr>"

definition begin_migration ::
  "('t, 'n, 'w) archive_env \<Rightarrow> io \<Rightarrow> ('t, 'n) archive_tables \<Rightarrow> ArchiveMigrationPlan \<Rightarrow> string
    \<Rightarrow> ArchiveStoreError + ('t, 'n) archive_tables \<times> ArchiveMigrationState" where
  "begin_migration env io ts plan source_store_digest =
     rbind (contract (migration_plan_validate (ae_limits env) plan)) (\<lambda>_.
     if (ucast (mp_from_store_version plan) :: u64) \<noteq> INITIAL_STORE_VERSION
       \<or> (ucast (mp_to_store_version plan) :: u64) \<noteq> CURRENT_STORE_VERSION
     then Inl (UnsupportedMapping ''only store migration 1 -> 2 is implemented'')
     else
       let s = prepared_state plan source_store_digest
       in rbind (contract (migration_state_validate (ae_limits env) s)) (\<lambda>_.
          rbind (begin_archive_write env io ts) (\<lambda>_.
          rbind (active_store_version env io ts) (\<lambda>version.
          if version \<noteq> INITIAL_STORE_VERSION
          then Inl (MigrationState ''source store version is not active'')
          else
            rbind (write_call io ''open migration target'') (\<lambda>_.
            rbind (write_call io ''measure migration target'') (\<lambda>_.
            if \<not> table_empty env (at_records_v2 ts)
            then Inl (CorruptRecord ''v2 target contains rows without an active migration checkpoint'')
            else
              rbind (call_at write_detail io ''open migration state'' 1) (\<lambda>_.
              rbind (call_at write_detail io ''read migration state'' 1) (\<lambda>_.
              if tget env (at_migration_records ts) ACTIVE_MIGRATION \<noteq> None
              then Inl (MigrationState ''a migration checkpoint already exists'')
              else
                rbind (migration_to_wire env s) (\<lambda>wire.
                rbind (call_at write_detail io ''open migration state'' 2) (\<lambda>_.
                rbind (write_call io ''persist prepared migration'') (\<lambda>_.
                rbind (write_call io ''commit prepared migration'') (\<lambda>_.
                Inr (ts\<lparr> at_migration_records := tins env (at_migration_records ts) ACTIVE_MIGRATION wire \<rparr>,
                  s)))))))))))))"

text \<open>
  The batch loop of \<open>resume_migration\<close>: the rows still to read, the target, the number of rows copied
  and the key of the last.
\<close>

fun copy_rows ::
  "('t, 'n, 'w) archive_env \<Rightarrow> io \<Rightarrow> u32 \<Rightarrow> string option \<Rightarrow> nat \<Rightarrow> (string \<times> 'w) list
    \<Rightarrow> 't \<times> u32 \<times> ArchiveKey option \<Rightarrow> ArchiveStoreError + 't \<times> u32 \<times> ArchiveKey option" where
  "copy_rows env io maximum cursor n [] state = Inr state"
| "copy_rows env io maximum cursor n ((k, v) # rest) (target, migrated, last_key) =
     (if \<not> migrated < maximum then Inr (target, migrated, last_key)
      else
        rbind (call_at write_detail io ''read migration source record'' n) (\<lambda>_.
        if cursor = Some k then copy_rows env io maximum cursor (Suc n) rest (target, migrated, last_key)
        else
          rbind (decode_record_for_key env ''migration source record'' k v) (\<lambda>r.
          rbind (call_at write_detail io ''read migration target record'' n) (\<lambda>_.
          rbind (case tget env target k of
              Some existing \<Rightarrow>
                rbind (decode_record_for_key env ''migration target record'' k existing) (\<lambda>_.
                if existing \<noteq> v
                then Inl (Conflict (''migration target already differs at '' @ k)) else Inr ())
            | None \<Rightarrow> Inr ()) (\<lambda>_.
          rbind (call_at write_detail io ''copy migration record'' n) (\<lambda>_.
          copy_rows env io maximum cursor (Suc n) rest (tins env target k v, migrated + 1, Some (ar_key r))))))))"

definition rows_from :: "string option \<Rightarrow> (string \<times> 'w) list \<Rightarrow> (string \<times> 'w) list" where
  "rows_from cursor rows =
     (case cursor of Some start \<Rightarrow> filter (\<lambda>(k, v). start \<le> k) rows | None \<Rightarrow> rows)"

definition existing_migration ::
  "('t, 'n, 'w) archive_env \<Rightarrow> io \<Rightarrow> ('t, 'n) archive_tables \<Rightarrow> string
    \<Rightarrow> ArchiveStoreError + ArchiveMigrationState" where
  "existing_migration env io ts migration_id =
     rbind (begin_durable_write io) (\<lambda>_.
     rbind (migration_state_write env io ts) (\<lambda>found.
     rbind (ok_or (MigrationState ''no migration exists'') found) (\<lambda>s.
     rbind (require_migration_id s migration_id) (\<lambda>_. Inr s))))"

definition resume_migration ::
  "('t, 'n, 'w) archive_env \<Rightarrow> io \<Rightarrow> ('t, 'n) archive_tables \<Rightarrow> string
    \<Rightarrow> ArchiveStoreError + ('t, 'n) archive_tables \<times> ArchiveMigrationState" where
  "resume_migration env io ts migration_id =
     rbind (existing_migration env io ts migration_id) (\<lambda>s.
     if ms_phase s \<notin> {Prepared, Copying}
     then Inl (MigrationState ''migration is not resumable from its current phase'')
     else
       rbind (active_store_version env io ts) (\<lambda>version.
       if version \<noteq> INITIAL_STORE_VERSION
       then Inl (MigrationState ''last-known-good source is not active'')
       else
         rbind (contract (cursor_key (ae_limits env) s)) (\<lambda>cursor.
         rbind (write_call io ''open migration source'') (\<lambda>_.
         rbind (write_call io ''open migration target'') (\<lambda>_.
         rbind (write_call io ''iterate migration source'') (\<lambda>_.
         rbind (copy_rows env io (mp_maximum_records_per_batch (ms_plan s)) cursor 0
           (rows_from cursor (trows env (at_records_v1 ts))) (at_records_v2 ts, 0, None)) (\<lambda>(target, migrated, last_key).
         rbind (ok_or (StoreLimitExceeded ''migration record count exhausted'')
           (checked_add (ms_migrated_records s) (ucast migrated))) (\<lambda>migrated_records.
         let resumed = s\<lparr> ms_migrated_records := migrated_records,
               ms_last_migrated_key := (case last_key of Some key \<Rightarrow> Some key | None \<Rightarrow> ms_last_migrated_key s),
               ms_phase := (if migrated < mp_maximum_records_per_batch (ms_plan s) then Verifying else Copying) \<rparr>
         in rbind (persist_migration_state env io resumed (ts\<lparr> at_records_v2 := target \<rparr>)) (\<lambda>persisted.
            rbind (write_call io ''commit migration batch'') (\<lambda>_.
            Inr (persisted, resumed)))))))))))"

definition verify_migration ::
  "('t, 'n, 'w) archive_env \<Rightarrow> io \<Rightarrow> ('t, 'n) archive_tables \<Rightarrow> string
    \<Rightarrow> ArchiveStoreError + ('t, 'n) archive_tables \<times> ArchiveMigrationState" where
  "verify_migration env io ts migration_id =
     rbind (existing_migration env io ts migration_id) (\<lambda>s.
     if ms_phase s \<noteq> Verifying
     then Inl (MigrationState ''migration has not completed copying'')
     else
       rbind (validate_migration_cursor env io ts s) (\<lambda>_.
       rbind (verify_source_target_exact env io ts) (\<lambda>verified.
       if verified \<noteq> ms_migrated_records s
       then Inl (Conflict (''migration checkpoint count '' @ decimal (unat (ms_migrated_records s))
         @ '' differs from verified '' @ decimal (unat verified)))
       else
         let ready = s\<lparr> ms_phase := ReadyToActivate \<rparr>
         in rbind (persist_migration_state env io ready ts) (\<lambda>persisted.
            rbind (write_call io ''commit verified migration'') (\<lambda>_.
            Inr (persisted, ready))))))"

definition activate_migration ::
  "('t, 'n, 'w) archive_env \<Rightarrow> io \<Rightarrow> ('t, 'n) archive_tables \<Rightarrow> string
    \<Rightarrow> ArchiveStoreError + ('t, 'n) archive_tables \<times> ArchiveMigrationState" where
  "activate_migration env io ts migration_id =
     rbind (existing_migration env io ts migration_id) (\<lambda>s.
     if ms_phase s \<noteq> ReadyToActivate
     then Inl (MigrationState ''migration is not verified and ready'')
     else
       rbind (active_store_version env io ts) (\<lambda>version.
       if version \<noteq> INITIAL_STORE_VERSION
       then Inl (CorruptRecord ''ready migration checkpoint is not coupled to active v1 source'')
       else
         rbind (validate_migration_cursor env io ts s) (\<lambda>_.
         rbind (verify_source_target_exact env io ts) (\<lambda>verified.
         if verified \<noteq> ms_migrated_records s
         then Inl (Conflict (''migration changed after verification: checkpoint=''
           @ decimal (unat (ms_migrated_records s)) @ '', current='' @ decimal (unat verified)))
         else
           rbind (call_at write_detail io ''open metadata'' 1) (\<lambda>_.
           rbind (write_call io ''activate target store version'') (\<lambda>_.
           let activated = s\<lparr> ms_phase := Activated \<rparr>
           in rbind (persist_migration_state env io activated
                (ts\<lparr> at_meta := mins env (at_meta ts) STORE_VERSION CURRENT_STORE_VERSION \<rparr>)) (\<lambda>persisted.
              rbind (write_call io ''commit migration activation'') (\<lambda>_.
              Inr (persisted, activated)))))))))"

definition rollback_migration ::
  "('t, 'n, 'w) archive_env \<Rightarrow> io \<Rightarrow> ('t, 'n) archive_tables \<Rightarrow> string
    \<Rightarrow> ArchiveStoreError + ('t, 'n) archive_tables \<times> ArchiveMigrationState" where
  "rollback_migration env io ts migration_id =
     rbind (existing_migration env io ts migration_id) (\<lambda>s.
     if ms_phase s = RolledBack then Inr (ts, s)
     else if ms_phase s = Activated
     then Inl (MigrationState
       ''activated migration cannot roll back because v2 may contain later writes'')
     else
       rbind (active_store_version env io ts) (\<lambda>version.
       if version \<noteq> INITIAL_STORE_VERSION
       then Inl (CorruptRecord ''non-activated migration is not coupled to active v1 source'')
       else
         rbind (call_at write_detail io ''open metadata'' 1) (\<lambda>_.
         rbind (write_call io ''restore source store version'') (\<lambda>_.
         let restored = s\<lparr> ms_phase := RolledBack \<rparr>
         in rbind (persist_migration_state env io restored
              (ts\<lparr> at_meta := mins env (at_meta ts) STORE_VERSION INITIAL_STORE_VERSION \<rparr>)) (\<lambda>persisted.
            rbind (write_call io ''commit migration rollback'') (\<lambda>_.
            Inr (persisted, restored)))))))"

definition migration_state ::
  "('t, 'n, 'w) archive_env \<Rightarrow> io \<Rightarrow> ('t, 'n) archive_tables \<Rightarrow> ArchiveStoreError + ArchiveMigrationState option" where
  "migration_state env io ts =
     rbind (read_call io ''begin migration-state read'') (\<lambda>_.
     read_row read_detail env io 0 ''open migration state'' ''read migration state''
       (decode_migration_state env) (at_migration_records ts) ACTIVE_MIGRATION)"

section \<open>Opening\<close>

definition initialized_tables ::
  "('t, 'n) archive_tables \<Rightarrow> 't list" where
  "initialized_tables ts = [at_leases ts, at_records_v1 ts, at_records_v2 ts, at_imports ts,
     at_inconsistencies ts, at_migration_records ts, at_reconciliation_receipts ts]"

fun tables_have_rows ::
  "('t, 'n, 'w) archive_env \<Rightarrow> io \<Rightarrow> nat \<Rightarrow> 't list \<Rightarrow> ArchiveStoreError + bool" where
  "tables_have_rows env io n [] = Inr False"
| "tables_have_rows env io n (t # rest) =
     rbind (call_at write_detail io ''open initialized table'' n) (\<lambda>_.
     rbind (call_at write_detail io ''measure initialized table'' n) (\<lambda>_.
     if \<not> table_empty env t then Inr True else tables_have_rows env io (Suc n) rest))"

definition initialized_tables_have_state ::
  "('t, 'n, 'w) archive_env \<Rightarrow> io \<Rightarrow> ('t, 'n) archive_tables \<Rightarrow> ArchiveStoreError + bool" where
  "initialized_tables_have_state env io ts =
     rbind (write_call io ''open metadata'') (\<lambda>_.
     rbind (write_call io ''measure metadata'') (\<lambda>_.
     if length (to_rows (ae_meta env) (at_meta ts)) \<noteq> 0 then Inr True
     else tables_have_rows env io 0 (initialized_tables ts)))"

definition validate_store_topology ::
  "('t, 'n, 'w) archive_env \<Rightarrow> io \<Rightarrow> ('t, 'n) archive_tables \<Rightarrow> u64 \<Rightarrow> ArchiveStoreError + unit" where
  "validate_store_topology env io ts version =
     rbind (validate_migration_table_integrity env io ts) (\<lambda>_.
     rbind (migration_state_write env io ts) (\<lambda>migration.
     if version = INITIAL_STORE_VERSION
     then
       (case migration of
          None \<Rightarrow>
            rbind (write_call io ''open inactive v2 records'') (\<lambda>_.
            rbind (write_call io ''measure inactive v2 records'') (\<lambda>_.
            if \<not> table_empty env (at_records_v2 ts)
            then Inl (CorruptRecord ''v1 metadata has v2 rows without a migration checkpoint'')
            else Inr ()))
        | Some s \<Rightarrow>
            (case ms_phase s of
               Activated \<Rightarrow>
                 Inl (CorruptRecord ''v1 metadata conflicts with an activated migration checkpoint'')
             | Prepared \<Rightarrow>
                 rbind (write_call io ''open prepared migration target'') (\<lambda>_.
                 rbind (write_call io ''measure prepared migration target'') (\<lambda>_.
                 if ms_migrated_records s \<noteq> 0 \<or> \<not> table_empty env (at_records_v2 ts)
                 then Inl (CorruptRecord ''prepared migration has copied target state'')
                 else Inr ()))
             | Copying \<Rightarrow>
                 rbind (validate_target_subset_of_source env io ts) (\<lambda>copied.
                 if copied \<noteq> ms_migrated_records s
                 then Inl (CorruptRecord (''copying checkpoint count '' @ decimal (unat (ms_migrated_records s))
                   @ '' differs from target rows '' @ decimal (unat copied)))
                 else validate_migration_cursor env io ts s)
             | RolledBack \<Rightarrow> Inr ()
             | _ \<Rightarrow>
                 rbind (map_err (\<lambda>e. CorruptRecord (''verified migration tables diverge: ''
                   @ store_error_display env e)) (verify_source_target_exact env io ts)) (\<lambda>verified.
                 if verified \<noteq> ms_migrated_records s
                 then Inl (CorruptRecord (''verified checkpoint count '' @ decimal (unat (ms_migrated_records s))
                   @ '' differs from table rows '' @ decimal (unat verified)))
                 else validate_migration_cursor env io ts s)))
     else if version = CURRENT_STORE_VERSION
     then
       (case migration of
          None \<Rightarrow> Inl (CorruptRecord ''v2 metadata is missing its activated migration checkpoint'')
        | Some s \<Rightarrow>
            if ms_phase s = Activated
            then
              rbind (validate_source_subset_of_target env io ts) (\<lambda>copied.
              if copied \<noteq> ms_migrated_records s
              then Inl (CorruptRecord (''activated checkpoint count '' @ decimal (unat (ms_migrated_records s))
                @ '' differs from preserved source rows '' @ decimal (unat copied)))
              else Inr ())
            else Inl (CorruptRecord (''v2 metadata conflicts with migration phase ''
              @ ae_show_phase env (ms_phase s))))
     else Inl (UnsupportedStoreVersion version)))"

fun open_all :: "io \<Rightarrow> string list \<Rightarrow> ArchiveStoreError + unit" where
  "open_all io [] = Inr ()"
| "open_all io (operation # rest) = rbind (write_call io operation) (\<lambda>_. open_all io rest)"

definition initialize_tables ::
  "('t, 'n, 'w) archive_env \<Rightarrow> io \<Rightarrow> ('t, 'n) archive_tables \<Rightarrow> ArchiveStoreError + ('t, 'n) archive_tables" where
  "initialize_tables env io ts =
     rbind (begin_durable_write io) (\<lambda>_.
     rbind (open_all io [''open metadata table'', ''open lease table'', ''open archive-record table'',
       ''open migrated archive-record table'', ''open import table'', ''open migration table'',
       ''open reconciliation-receipt table'', ''read metadata table'', ''read store version'']) (\<lambda>_.
     let version = mget env (at_meta ts) STORE_VERSION
     in rbind (case version of
            Some v \<Rightarrow>
              if v = INITIAL_STORE_VERSION \<or> v = CURRENT_STORE_VERSION then Inr ts
              else Inl (UnsupportedStoreVersion v)
          | None \<Rightarrow>
              rbind (initialized_tables_have_state env io ts) (\<lambda>occupied.
              if occupied
              then Inl (CorruptRecord ''store version is missing from a non-empty archive'')
              else
                rbind (call_at write_detail io ''open metadata table'' 1) (\<lambda>_.
                rbind (write_call io ''initialize store version'') (\<lambda>_.
                rbind (write_call io ''initialize commit sequence'') (\<lambda>_.
                Inr (ts\<lparr> at_meta := mins env (mins env (at_meta ts) STORE_VERSION INITIAL_STORE_VERSION)
                  COMMIT_SEQUENCE 0 \<rparr>)))))) (\<lambda>opened.
        rbind (validate_store_topology env io opened
          (case version of None \<Rightarrow> INITIAL_STORE_VERSION | Some v \<Rightarrow> v)) (\<lambda>_.
        rbind (write_call io ''initialize schema'') (\<lambda>_.
        Inr opened)))))"

text \<open>Opening the database file: it may panic on torn state, fail, or give its tables.\<close>

datatype 'd database_open = DatabasePanicked | DatabaseFailed string | DatabaseOpened 'd

definition archive_open ::
  "('t, 'n, 'w) archive_env \<Rightarrow> io \<Rightarrow> ('t, 'n) archive_tables database_open
    \<Rightarrow> ArchiveStoreError + ('t, 'n) archive_tables" where
  "archive_open env io database =
     (case database of
        DatabasePanicked \<Rightarrow>
          Inl (OpenFailed ''database candidate panicked while rejecting malformed or torn state'')
      | DatabaseFailed failure \<Rightarrow> Inl (OpenFailed (''database create/open: '' @ failure))
      | DatabaseOpened ts \<Rightarrow> initialize_tables env io ts)"

end
