(* ===== verification/Archive_Ledger.thy ===== *)
theory Archive_Ledger
  imports Archive_Migration
begin

text \<open>
  What the tables of an archive say of one identity, when that is sound, and the life of an identity
  as the abstract machine every operation of the store follows.
\<close>

section \<open>The identity at a key\<close>

definition row_of :: "('w \<Rightarrow> 'e + 'a) \<Rightarrow> 'w option \<Rightarrow> 'a option" where
  "row_of decode row =
     (case row of None \<Rightarrow> None | Some w \<Rightarrow> (case decode w of Inl _ \<Rightarrow> None | Inr x \<Rightarrow> Some x))"

definition row_sound :: "('w \<Rightarrow> 'e + 'a) \<Rightarrow> 'w option \<Rightarrow> bool" where
  "row_sound decode row = (case row of None \<Rightarrow> True | Some w \<Rightarrow> is_ok (decode w))"

lemma row_of_simps [simp]: "row_of decode None = None" "decode w = Inr x \<Longrightarrow> row_of decode (Some w) = Some x"
  by (simp_all add: row_of_def)

lemma row_sound_simps [simp]: "row_sound decode None" "decode w = Inr x \<Longrightarrow> row_sound decode (Some w)"
  by (simp_all add: row_sound_def)

lemma decode_opt_row: "decode_opt decode row = Inr x \<Longrightarrow> row_of decode row = x"
  by (auto simp: decode_opt_def row_of_def split: option.splits sum.splits)

lemma decode_opt_sound: "row_sound decode row \<Longrightarrow> decode_opt decode row = Inr (row_of decode row)"
  by (auto simp: decode_opt_def row_of_def row_sound_def is_ok_def split: option.splits sum.splits)

lemma row_of_None: "row_sound decode row \<Longrightarrow> row_of decode row = None \<longleftrightarrow> row = None"
  by (auto simp: row_of_def row_sound_def is_ok_def split: option.splits sum.splits)

lemma read_row_ok: "read_row fail env io n opening reading decode t k = Inr x \<Longrightarrow> row_of decode (tget env t k) = x"
  by (auto simp: read_row_def result_simps dest: decode_opt_row)

abbreviation decode_row :: "('t, 'n, 'w) archive_env \<Rightarrow> string \<Rightarrow> 'w \<Rightarrow> ArchiveStoreError + ArchiveRecord" where
  "decode_row env \<equiv> decode_record_for_key env ''committed record''"

definition active_table :: "('t, 'n, 'w) archive_env \<Rightarrow> ('t, 'n) archive_tables \<Rightarrow> RecordsTable" where
  "active_table env ts =
     (if mget env (at_meta ts) STORE_VERSION = Some CURRENT_STORE_VERSION then RecordsV2 else RecordsV1)"

definition record_at :: "('t, 'n, 'w) archive_env \<Rightarrow> ('t, 'n) archive_tables \<Rightarrow> string \<Rightarrow> ArchiveRecord option" where
  "record_at env ts k = row_of (decode_row env k) (tget env (records_table (active_table env ts) ts) k)"

definition lease_at :: "('t, 'n, 'w) archive_env \<Rightarrow> ('t, 'n) archive_tables \<Rightarrow> string \<Rightarrow> ArchiveLease option" where
  "lease_at env ts k = row_of (decode_lease_for_key env k) (tget env (at_leases ts) k)"

definition import_at :: "('t, 'n, 'w) archive_env \<Rightarrow> ('t, 'n) archive_tables \<Rightarrow> string \<Rightarrow> ArchiveImportMarker option" where
  "import_at env ts k = row_of (decode_import_for_key env k) (tget env (at_imports ts) k)"

definition generation_at :: "('t, 'n, 'w) archive_env \<Rightarrow> ('t, 'n) archive_tables \<Rightarrow> string \<Rightarrow> u64" where
  "generation_at env ts k =
     (case mget env (at_meta ts) (lease_generation_key k) of None \<Rightarrow> 0 | Some g \<Rightarrow> g)"

definition identity_at ::
  "('t, 'n, 'w) archive_env \<Rightarrow> ('t, 'n) archive_tables \<Rightarrow> string \<Rightarrow> ArchiveMembership" where
  "identity_at env ts k =
     (case record_at env ts k of
        Some r \<Rightarrow> Committed r
      | None \<Rightarrow> (case lease_at env ts k of
          Some l \<Rightarrow> Claimed l
        | None \<Rightarrow> (case import_at env ts k of Some m \<Rightarrow> Imported m | None \<Rightarrow> Absent)))"

text \<open>The life of an identity: what it is, and the generation of its last lease.\<close>

inductive identity_step :: "ArchiveMembership \<times> u64 \<Rightarrow> ArchiveMembership \<times> u64 \<Rightarrow> bool" where
  acquire: "unat (le_generation l) = Suc (unat g) \<Longrightarrow> identity_step (Absent, g) (Claimed l, le_generation l)"
| takeover: "unat (le_generation l) = Suc (unat (le_generation old))
    \<Longrightarrow> le_expires_at_unix_millis old \<le> le_acquired_at_unix_millis l
    \<Longrightarrow> identity_step (Claimed old, le_generation old) (Claimed l, le_generation l)"
| renew: "unat (le_generation l) = Suc (unat (le_generation old))
    \<Longrightarrow> le_owner_job_id l = le_owner_job_id old \<Longrightarrow> le_claim_provenance l = le_claim_provenance old
    \<Longrightarrow> le_acquired_at_unix_millis l < le_expires_at_unix_millis old
    \<Longrightarrow> identity_step (Claimed old, le_generation old) (Claimed l, le_generation l)"
| release: "identity_step (Claimed l, g) (Absent, g)"
| commit: "ar_claim_lease_generation r = le_generation l \<Longrightarrow> ar_claim_lease_token r = le_token l
    \<Longrightarrow> ar_provenance r = le_claim_provenance l
    \<Longrightarrow> identity_step (Claimed l, g) (Committed r, g)"
| recover: "identity_step (Absent, g) (Committed r, g)"
| import_mapped: "identity_step (Absent, g) (Imported m, g)"

definition identity_next :: "ArchiveMembership \<times> u64 \<Rightarrow> ArchiveMembership \<times> u64 \<Rightarrow> bool" where
  "identity_next a b = (a = b \<or> identity_step a b)"

definition life_at ::
  "('t, 'n, 'w) archive_env \<Rightarrow> ('t, 'n) archive_tables \<Rightarrow> string \<Rightarrow> ArchiveMembership \<times> u64" where
  "life_at env ts k = (identity_at env ts k, generation_at env ts k)"

section \<open>Sound keys\<close>

definition key_sound :: "('t, 'n, 'w) archive_env \<Rightarrow> ('t, 'n) archive_tables \<Rightarrow> string \<Rightarrow> bool" where
  "key_sound env ts k = (row_sound (decode_lease_for_key env k) (tget env (at_leases ts) k)
     \<and> row_sound (decode_row env k) (tget env (at_records_v1 ts) k)
     \<and> row_sound (decode_row env k) (tget env (at_records_v2 ts) k)
     \<and> row_sound (decode_import_for_key env k) (tget env (at_imports ts) k)
     \<and> row_sound (decode_reconciliation_for_key env k) (tget env (at_reconciliation_receipts ts) k)
     \<and> (case lease_at env ts k of None \<Rightarrow> True | Some l \<Rightarrow> le_generation l = generation_at env ts k)
     \<and> (record_at env ts k = None \<or> lease_at env ts k = None \<and> import_at env ts k = None)
     \<and> (lease_at env ts k = None \<or> import_at env ts k = None))"

text \<open>Two states of the tables agree on a key.\<close>

definition same_at ::
  "('t, 'n, 'w) archive_env \<Rightarrow> ('t, 'n) archive_tables \<Rightarrow> ('t, 'n) archive_tables \<Rightarrow> string \<Rightarrow> bool" where
  "same_at env ts us k = (tget env (at_leases us) k = tget env (at_leases ts) k
     \<and> tget env (at_records_v1 us) k = tget env (at_records_v1 ts) k
     \<and> tget env (at_records_v2 us) k = tget env (at_records_v2 ts) k
     \<and> tget env (at_imports us) k = tget env (at_imports ts) k
     \<and> tget env (at_reconciliation_receipts us) k = tget env (at_reconciliation_receipts ts) k
     \<and> mget env (at_meta us) (lease_generation_key k) = mget env (at_meta ts) (lease_generation_key k))"

definition same_version ::
  "('t, 'n, 'w) archive_env \<Rightarrow> ('t, 'n) archive_tables \<Rightarrow> ('t, 'n) archive_tables \<Rightarrow> bool" where
  "same_version env ts us = (mget env (at_meta us) STORE_VERSION = mget env (at_meta ts) STORE_VERSION)"

lemma same_active: "same_version env ts us \<Longrightarrow> active_table env us = active_table env ts"
  by (simp add: same_version_def active_table_def)

lemma same_key:
  assumes "same_at env ts us k" "same_version env ts us"
  shows "life_at env us k = life_at env ts k" "key_sound env us k = key_sound env ts k"
proof -
  have "tget env (records_table (active_table env us) us) k = tget env (records_table (active_table env ts) ts) k"
    using assms same_active [OF assms(2)] by (cases "active_table env ts") (auto simp: same_at_def)
  then have "record_at env us k = record_at env ts k" "lease_at env us k = lease_at env ts k"
    "import_at env us k = import_at env ts k" "generation_at env us k = generation_at env ts k"
    using assms by (auto simp: record_at_def lease_at_def import_at_def generation_at_def same_at_def)
  then show "life_at env us k = life_at env ts k" "key_sound env us k = key_sound env ts k"
    using assms by (auto simp: life_at_def identity_at_def key_sound_def same_at_def split: option.split)
qed

section \<open>Sound stores\<close>

definition checkpoint :: "('t, 'n, 'w) archive_env \<Rightarrow> ('t, 'n) archive_tables \<Rightarrow> ArchiveMigrationState option" where
  "checkpoint env ts = row_of (decode_migration_state env) (tget env (at_migration_records ts) ACTIVE_MIGRATION)"

text \<open>A checkpoint at the end of the copied rows.\<close>

definition cursor_at :: "ArchiveMigrationState \<Rightarrow> (string \<times> 'w) list \<Rightarrow> bool" where
  "cursor_at s rows = (unat (ms_migrated_records s) = length rows
     \<and> map_option canonical_text (ms_last_migrated_key s) = (if rows = [] then None else Some (fst (last rows))))"

definition topology_at ::
  "(string \<times> 'w) list \<Rightarrow> (string \<times> 'w) list \<Rightarrow> u64 \<Rightarrow> ArchiveMigrationState option \<Rightarrow> bool" where
  "topology_at v1 v2 version progress =
     (case progress of
        None \<Rightarrow> version = INITIAL_STORE_VERSION \<and> v2 = []
      | Some s \<Rightarrow>
          (case ms_phase s of
             Prepared \<Rightarrow> version = INITIAL_STORE_VERSION \<and> v2 = [] \<and> cursor_at s v2
           | Copying \<Rightarrow> version = INITIAL_STORE_VERSION \<and> (\<exists>n. v2 = take n v1) \<and> cursor_at s v2
           | Verifying \<Rightarrow> version = INITIAL_STORE_VERSION \<and> v2 = v1 \<and> cursor_at s v2
           | ReadyToActivate \<Rightarrow> version = INITIAL_STORE_VERSION \<and> v2 = v1 \<and> cursor_at s v2
           | RolledBack \<Rightarrow> version = INITIAL_STORE_VERSION
           | Activated \<Rightarrow> version = CURRENT_STORE_VERSION \<and> set v1 \<subseteq> set v2
               \<and> unat (ms_migrated_records s) = length v1))"

definition topology_sound :: "('t, 'n, 'w) archive_env \<Rightarrow> ('t, 'n) archive_tables \<Rightarrow> bool" where
  "topology_sound env ts = ((\<exists>version. mget env (at_meta ts) STORE_VERSION = Some version
       \<and> topology_at (trows env (at_records_v1 ts)) (trows env (at_records_v2 ts)) version (checkpoint env ts))
     \<and> row_sound (decode_migration_state env) (tget env (at_migration_records ts) ACTIVE_MIGRATION)
     \<and> (\<forall>k. k \<noteq> ACTIVE_MIGRATION \<longrightarrow> tget env (at_migration_records ts) k = None))"

definition store_sound :: "('t, 'n, 'w) archive_env \<Rightarrow> ('t, 'n) archive_tables \<Rightarrow> bool" where
  "store_sound env ts = ((\<forall>k. key_sound env ts k) \<and> topology_sound env ts)"

section \<open>Updates of one key\<close>

definition quiescent :: "('t, 'n, 'w) archive_env \<Rightarrow> ('t, 'n) archive_tables \<Rightarrow> bool" where
  "quiescent env ts = (case checkpoint env ts of None \<Rightarrow> True | Some s \<Rightarrow> ms_phase s \<in> {Activated, RolledBack})"

fun inactive_table :: "RecordsTable \<Rightarrow> RecordsTable" where
  "inactive_table RecordsV1 = RecordsV2"
| "inactive_table RecordsV2 = RecordsV1"

definition key_update ::
  "('t, 'n, 'w) archive_env \<Rightarrow> ('t, 'n) archive_tables \<Rightarrow> ('t, 'n) archive_tables \<Rightarrow> string \<Rightarrow> bool" where
  "key_update env ts us k = (same_version env ts us \<and> at_migration_records us = at_migration_records ts
     \<and> (\<forall>k'. k' \<noteq> k \<longrightarrow> same_at env ts us k')
     \<and> records_table (inactive_table (active_table env ts)) us = records_table (inactive_table (active_table env ts)) ts
     \<and> (record_at env ts k = None \<or> tget env (records_table (active_table env ts) us) k
          = tget env (records_table (active_table env ts) ts) k))"

lemma allowed_quiescent:
  "require_archive_write_allowed env io ts = Inr u \<Longrightarrow> quiescent env ts"
  by (auto simp: require_archive_write_allowed_def migration_state_write_def result_simps quiescent_def
      checkpoint_def dest!: read_row_ok split: option.splits if_splits)

lemma begin_quiescent: "begin_archive_write env io ts = Inr u \<Longrightarrow> quiescent env ts"
  by (auto simp: begin_archive_write_def result_simps dest: allowed_quiescent)

lemma key_update_sound:
  assumes env: "env_lawful env" and sound: "store_sound env ts" and quiet: "quiescent env ts"
    and update: "key_update env ts us k" and at_k: "key_sound env us k"
  shows "store_sound env us"
proof -
  have version: "same_version env ts us" and same: "k' \<noteq> k \<Longrightarrow> same_at env ts us k'" for k'
    using update by (auto simp: key_update_def)
  have keys: "key_sound env us k'" for k'
    using same_key(2) [OF same version] sound at_k by (cases "k' = k") (auto simp: store_sound_def)
  have table: "sorted_table (tget env) (tins env) (trem env) (trows env)"
    using env by (simp add: env_lawful_def table_lawful_def)
  have migration: "checkpoint env us = checkpoint env ts" "at_migration_records us = at_migration_records ts"
    using update by (auto simp: checkpoint_def key_update_def)
  obtain version where v: "mget env (at_meta ts) STORE_VERSION = Some version"
    and topology: "topology_at (trows env (at_records_v1 ts)) (trows env (at_records_v2 ts)) version (checkpoint env ts)"
    using sound by (auto simp: store_sound_def topology_sound_def)
  have "topology_at (trows env (at_records_v1 us)) (trows env (at_records_v2 us)) version (checkpoint env us)"
  proof (cases "checkpoint env ts")
    case None
    then have "active_table env ts = RecordsV1"
      using topology v by (auto simp: active_table_def topology_at_def INITIAL_STORE_VERSION_def CURRENT_STORE_VERSION_def)
    then have "at_records_v2 us = at_records_v2 ts" using update by (simp add: key_update_def)
    then show ?thesis using topology None migration by (simp add: topology_at_def)
  next
    case (Some s)
    then consider "ms_phase s = RolledBack" | "ms_phase s = Activated"
      using quiet by (auto simp: quiescent_def)
    then show ?thesis
    proof cases
      case 1
      then show ?thesis using topology Some migration by (simp add: topology_at_def)
    next
      case 2
      then have t: "version = CURRENT_STORE_VERSION" "set (trows env (at_records_v1 ts)) \<subseteq> set (trows env (at_records_v2 ts))"
        using topology Some by (auto simp: topology_at_def)
      then have active: "active_table env ts = RecordsV2" using v by (simp add: active_table_def)
      then have frozen: "at_records_v1 us = at_records_v1 ts"
        and at: "record_at env ts k = None \<or> tget env (at_records_v2 us) k = tget env (at_records_v2 ts) k"
        using update by (simp_all add: key_update_def)
      have "tget env (at_records_v2 us) k' = Some w" if "tget env (at_records_v2 ts) k' = Some w" for k' w
      proof (cases "k' = k")
        case True
        have "row_sound (decode_row env k) (tget env (at_records_v2 ts) k)"
          using sound by (simp add: store_sound_def key_sound_def)
        then have "record_at env ts k \<noteq> None"
          using that True active by (simp add: record_at_def row_of_None)
        then show ?thesis using at that True by auto
      next
        case False
        then show ?thesis using same [OF False] that by (simp add: same_at_def)
      qed
      then have "set (trows env (at_records_v1 us)) \<subseteq> set (trows env (at_records_v2 us))"
        using t(2) by (auto simp: frozen sorted_table.mem_rows [OF table])
      then show ?thesis using topology Some 2 migration frozen by (simp add: topology_at_def)
    qed
  qed
  then have "topology_sound env us"
    using sound v version migration by (auto simp: store_sound_def topology_sound_def same_version_def)
  then show ?thesis using keys by (simp add: store_sound_def)
qed

end
