(* ===== verification/Archive_Refinement.thy ===== *)
theory Archive_Refinement
  imports Archive_Ledger
begin

text \<open>
  Every operation of the archive store keeps it sound and moves each identity along its life: a
  refinement of the abstract machine \<open>identity_step\<close>, one identity at a time.
\<close>

definition follows :: "('t, 'n, 'w) archive_env \<Rightarrow> ('t, 'n) archive_tables \<Rightarrow> ('t, 'n) archive_tables \<Rightarrow> bool" where
  "follows env ts us = (store_sound env us \<and> (\<forall>k. identity_next (life_at env ts k) (life_at env us k)))"

lemma follows_refl: "store_sound env ts \<Longrightarrow> follows env ts ts"
  by (simp add: follows_def identity_next_def)

lemma key_update_follows:
  assumes "env_lawful env" "store_sound env ts" "quiescent env ts" "key_update env ts us k"
    and "key_sound env us k" "identity_next (life_at env ts k) (life_at env us k)"
  shows "follows env ts us"
proof -
  have "life_at env us k' = life_at env ts k'" if "k' \<noteq> k" for k'
    using same_key(1) [of env ts us k'] assms(4) that by (simp add: key_update_def)
  then have "identity_next (life_at env ts k') (life_at env us k')" for k'
    using assms(6) by (cases "k' = k") (simp_all add: identity_next_def)
  then show ?thesis using key_update_sound [OF assms(1-5)] by (simp add: follows_def)
qed

lemma metadata_keys [simp]:
  "lease_generation_key k \<noteq> STORE_VERSION" "lease_generation_key k \<noteq> COMMIT_SEQUENCE"
  "STORE_VERSION \<noteq> lease_generation_key k" "COMMIT_SEQUENCE \<noteq> lease_generation_key k"
  "STORE_VERSION \<noteq> COMMIT_SEQUENCE" "COMMIT_SEQUENCE \<noteq> STORE_VERSION"
  "lease_generation_key k = lease_generation_key k' \<longleftrightarrow> k = k'"
  by (auto simp: lease_generation_key_def STORE_VERSION_def COMMIT_SEQUENCE_def)

lemma sound_at: "store_sound env ts \<Longrightarrow> key_sound env ts k"
  by (simp add: store_sound_def)

lemma no_record_row:
  "store_sound env ts \<Longrightarrow> record_at env ts k = None
    \<longleftrightarrow> tget env (records_table (active_table env ts) ts) k = None"
  by (cases "active_table env ts") (auto simp: record_at_def row_of_None dest!: sound_at [of env ts k] simp: key_sound_def)

lemma no_import_row: "store_sound env ts \<Longrightarrow> import_at env ts k = None \<longleftrightarrow> tget env (at_imports ts) k = None"
  using sound_at [of env ts k] by (auto simp: import_at_def row_of_None key_sound_def)

lemma no_lease_row: "store_sound env ts \<Longrightarrow> lease_at env ts k = None \<longleftrightarrow> tget env (at_leases ts) k = None"
  using sound_at [of env ts k] by (auto simp: lease_at_def row_of_None key_sound_def)

text \<open>A receipt table in which at most the receipt of one key changed, to a readable one.\<close>

definition receipts_next :: "('t, 'n, 'w) archive_env \<Rightarrow> ('t, 'n) archive_tables \<Rightarrow> string \<Rightarrow> 't \<Rightarrow> bool" where
  "receipts_next env ts k receipts =
     ((\<forall>k'. k' \<noteq> k \<longrightarrow> tget env receipts k' = tget env (at_reconciliation_receipts ts) k')
      \<and> row_sound (decode_reconciliation_for_key env k) (tget env receipts k))"

lemma receipts_next_same: "store_sound env ts \<Longrightarrow> receipts_next env ts k (at_reconciliation_receipts ts)"
  using sound_at [of env ts k] by (simp add: receipts_next_def key_sound_def)

lemma receipts_next_cleared: "env_lawful env \<Longrightarrow> receipts_next env ts k (trem env (at_reconciliation_receipts ts) k)"
  by (simp add: receipts_next_def)

lemma receipts_next_applied:
  assumes "env_lawful env" "observation_to_wire env ob = Inr wire"
  shows "receipts_next env ts (canonical_text (rc_key ob))
    (tins env (at_reconciliation_receipts ts) (canonical_text (rc_key ob)) wire)"
  using assms decode_written(4) [OF assms] by (simp add: receipts_next_def)

text \<open>A lease written, a lease removed, a row written, a marker written.\<close>

lemma lease_written:
  assumes env: "env_lawful env" and sound: "store_sound env ts" and quiet: "quiescent env ts"
    and wire: "lease_to_wire env l = Inr wire" and receipts: "receipts_next env ts (canonical_text (le_key l)) receipts"
    and free: "record_at env ts (canonical_text (le_key l)) = None" "import_at env ts (canonical_text (le_key l)) = None"
    and step: "identity_step (life_at env ts (canonical_text (le_key l))) (Claimed l, le_generation l)"
  shows "follows env ts (ts\<lparr> at_meta := mins env (at_meta ts) (lease_generation_key (canonical_text (le_key l))) (le_generation l),
    at_leases := tins env (at_leases ts) (canonical_text (le_key l)) wire, at_reconciliation_receipts := receipts \<rparr>)"
    (is "follows env ts ?us")
proof -
  let ?k = "canonical_text (le_key l)"
  have version: "same_version env ts ?us" using env by (simp add: same_version_def)
  note active = same_active [OF version]
  have update: "key_update env ts ?us ?k"
    using env receipts version
    by (cases "active_table env ts") (simp_all add: key_update_def same_at_def receipts_next_def)
  have row: "record_at env ?us ?k = None"
    using free(1) active by (cases "active_table env ts") (simp_all add: record_at_def)
  have held: "lease_at env ?us ?k = Some l"
    using env decode_written(1) [OF env wire] by (simp add: lease_at_def)
  have import_None: "import_at env ?us ?k = None" using free(2) by (simp add: import_at_def)
  have generation: "generation_at env ?us ?k = le_generation l" using env by (simp add: generation_at_def)
  have "key_sound env ?us ?k"
    using sound_at [OF sound, of ?k] row held import_None generation receipts env decode_written(1) [OF env wire]
    by (simp add: key_sound_def receipts_next_def)
  moreover have "life_at env ?us ?k = (Claimed l, le_generation l)"
    by (simp add: life_at_def identity_at_def row held generation)
  ultimately show ?thesis
    using key_update_follows [OF env sound quiet update] step by (simp add: identity_next_def)
qed

lemma lease_removed:
  assumes env: "env_lawful env" and sound: "store_sound env ts" and quiet: "quiescent env ts"
    and receipts: "receipts_next env ts k receipts" and held: "lease_at env ts k = Some l"
  shows "follows env ts (ts\<lparr> at_leases := trem env (at_leases ts) k, at_reconciliation_receipts := receipts \<rparr>)"
    (is "follows env ts ?us")
proof -
  have version: "same_version env ts ?us" by (simp add: same_version_def)
  note active = same_active [OF version]
  have free: "record_at env ts k = None" "import_at env ts k = None"
    using sound_at [OF sound, of k] held by (auto simp: key_sound_def)
  have update: "key_update env ts ?us k"
    using env receipts version
    by (cases "active_table env ts") (simp_all add: key_update_def same_at_def receipts_next_def)
  have gone: "record_at env ?us k = None" "lease_at env ?us k = None" "import_at env ?us k = None"
    using free active env by (cases "active_table env ts"; simp add: record_at_def lease_at_def import_at_def)+
  have generation: "generation_at env ?us k = generation_at env ts k" by (simp add: generation_at_def)
  have "key_sound env ?us k"
    using sound_at [OF sound, of k] gone receipts env by (simp add: key_sound_def receipts_next_def)
  moreover have "identity_next (life_at env ts k) (life_at env ?us k)"
    using identity_step.release [of l "generation_at env ts k"]
    by (simp add: life_at_def identity_at_def gone generation free held identity_next_def)
  ultimately show ?thesis by (rule key_update_follows [OF env sound quiet update])
qed

lemma row_written:
  assumes env: "env_lawful env" and sound: "store_sound env ts" and quiet: "quiescent env ts"
    and wire: "record_to_wire env r = Inr wire" and receipts: "receipts_next env ts (canonical_text (ar_key r)) receipts"
    and free: "record_at env ts (canonical_text (ar_key r)) = None" "import_at env ts (canonical_text (ar_key r)) = None"
    and meta: "\<And>k. k \<noteq> COMMIT_SEQUENCE \<Longrightarrow> mget env meta k = mget env (at_meta ts) k"
    and leases: "\<And>k'. tget env leases k' = (if k' = canonical_text (ar_key r) then None else tget env (at_leases ts) k')"
    and claim: "case lease_at env ts (canonical_text (ar_key r)) of None \<Rightarrow> True
      | Some l \<Rightarrow> ar_claim_lease_generation r = le_generation l \<and> ar_claim_lease_token r = le_token l
          \<and> ar_provenance r = le_claim_provenance l"
  shows "follows env ts (with_records (active_table env ts)
      (tins env (records_table (active_table env ts) ts) (canonical_text (ar_key r)) wire)
      (ts\<lparr> at_meta := meta, at_leases := leases, at_reconciliation_receipts := receipts \<rparr>))"
    (is "follows env ts ?us")
proof -
  let ?k = "canonical_text (ar_key r)"
  have version: "same_version env ts ?us"
    using meta by (cases "active_table env ts") (simp_all add: same_version_def)
  note active = same_active [OF version]
  have decoded: "decode_row env ?k wire = Inr r" by (rule decode_written(2) [OF env wire])
  have update: "key_update env ts ?us ?k"
    using env receipts version free(1) meta leases
    by (cases "active_table env ts") (simp_all add: key_update_def same_at_def receipts_next_def)
  have row: "record_at env ?us ?k = Some r"
    unfolding record_at_def active using env decoded by (cases "active_table env ts") simp_all
  have gone: "lease_at env ?us ?k = None" "import_at env ?us ?k = None"
    using free(2) leases by (cases "active_table env ts"; simp add: lease_at_def import_at_def)+
  have generation: "generation_at env ?us ?k = generation_at env ts ?k"
    using meta by (cases "active_table env ts") (simp_all add: generation_at_def)
  have "key_sound env ?us ?k"
    using sound_at [OF sound, of ?k] row gone receipts env decoded leases
    by (cases "active_table env ts") (simp_all add: key_sound_def receipts_next_def)
  moreover have "identity_next (life_at env ts ?k) (life_at env ?us ?k)"
    using claim free identity_step.recover [of "generation_at env ts ?k" r]
      identity_step.commit [of r _ "generation_at env ts ?k"]
    by (cases "lease_at env ts ?k") (simp_all add: life_at_def identity_at_def row generation identity_next_def)
  ultimately show ?thesis by (rule key_update_follows [OF env sound quiet update])
qed

lemma marker_written:
  assumes env: "env_lawful env" and sound: "store_sound env ts" and quiet: "quiescent env ts"
    and wire: "marker_to_wire env m = Inr wire" and receipts: "receipts_next env ts (canonical_text (im_key m)) receipts"
    and free: "life_at env ts (canonical_text (im_key m)) = (Absent, generation_at env ts (canonical_text (im_key m)))"
  shows "follows env ts (ts\<lparr> at_imports := tins env (at_imports ts) (canonical_text (im_key m)) wire,
      at_reconciliation_receipts := receipts \<rparr>)" (is "follows env ts ?us")
proof -
  let ?k = "canonical_text (im_key m)"
  have absent: "record_at env ts ?k = None" "lease_at env ts ?k = None"
    using free by (auto simp: life_at_def identity_at_def split: option.splits)
  have version: "same_version env ts ?us" by (simp add: same_version_def)
  note active = same_active [OF version]
  have decoded: "decode_import_for_key env ?k wire = Inr m" by (rule decode_written(3) [OF env wire])
  have update: "key_update env ts ?us ?k"
    using env receipts version absent
    by (cases "active_table env ts") (simp_all add: key_update_def same_at_def receipts_next_def)
  have now: "record_at env ?us ?k = None" "lease_at env ?us ?k = None" "import_at env ?us ?k = Some m"
    using absent decoded env
    by (cases "active_table env ts"; simp add: record_at_def active lease_at_def import_at_def)+
  have generation: "generation_at env ?us ?k = generation_at env ts ?k" by (simp add: generation_at_def)
  have "key_sound env ?us ?k"
    using sound_at [OF sound, of ?k] now receipts env decoded by (simp add: key_sound_def receipts_next_def)
  moreover have "identity_next (life_at env ts ?k) (life_at env ?us ?k)"
    using identity_step.import_mapped [of "generation_at env ts ?k" m]
    by (simp add: free) (simp add: life_at_def identity_at_def now generation identity_next_def)
  ultimately show ?thesis by (rule key_update_follows [OF env sound quiet update])
qed

end
