(* ===== verification/Archive_Operations.thy ===== *)
theory Archive_Operations
  imports Archive_Refinement
begin

text \<open>Each operation of the store follows the life of an identity.\<close>

lemma active_ok: "active_records_definition env io ts = Inr active \<Longrightarrow> active = active_table env ts"
  by (auto simp: active_records_definition_def stored_version_def records_definition_def active_table_def
      INITIAL_STORE_VERSION_def CURRENT_STORE_VERSION_def result_simps split: if_splits)

lemma record_read: "read_row fail env io n opening reading (decode_row env k) (records_table (active_table env ts) ts) k
    = Inr x \<Longrightarrow> record_at env ts k = x"
  unfolding record_at_def by (rule read_row_ok)

lemma lease_read: "read_row fail env io n opening reading (decode_lease_for_key env k) (at_leases ts) k
    = Inr x \<Longrightarrow> lease_at env ts k = x"
  unfolding lease_at_def by (rule read_row_ok)

lemma import_read: "read_row fail env io n opening reading (decode_import_for_key env k) (at_imports ts) k
    = Inr x \<Longrightarrow> import_at env ts k = x"
  unfolding import_at_def by (rule read_row_ok)

lemmas reads = record_read lease_read import_read active_ok begin_quiescent

lemma existing_none: "existing_claim_outcome env io ts (active_table env ts) k = Inr None
    \<Longrightarrow> record_at env ts k = None \<and> import_at env ts k = None"
  by (auto simp: existing_claim_outcome_def result_simps dest!: reads split: option.splits)

lemma existing_some: "existing_claim_outcome env io ts (active_table env ts) k = Inr (Some outcome)
    \<Longrightarrow> (\<exists>r. outcome = AlreadyCommitted r \<and> record_at env ts k = Some r)
      \<or> (\<exists>m. outcome = AlreadyImported m \<and> record_at env ts k = None \<and> import_at env ts k = Some m)"
  by (auto simp: existing_claim_outcome_def result_simps dest!: reads split: option.splits)

lemma cleared: "clear_reconciliation_receipt env io n k receipts = Inr t \<Longrightarrow> t = trem env receipts k"
  by (auto simp: clear_reconciliation_receipt_def result_simps)

lemma next_generation_ok:
  assumes "next_generation env io ts held k = Inr g" "lease_at env ts k = held" "store_sound env ts"
  shows "unat g = Suc (unat (generation_at env ts k))"
  using assms(1,2) sound_at [OF assms(3), of k]
  by (auto simp: next_generation_def Let_def result_simps generation_at_def key_sound_def checked_add_eq_Some_iff
      split: option.splits)

text \<open>What a claim may return, and the tables it leaves.\<close>

lemma claim_cases:
  assumes "archive_claim env io ts r = Inr (us, outcome)" "store_sound env ts"
  defines "k \<equiv> canonical_text (cl_key r)"
  obtains (unchanged) "us = ts" "quiescent env ts"
      "(\<exists>c. outcome = AlreadyCommitted c \<and> identity_at env ts k = Committed c)
       \<or> (\<exists>m. outcome = AlreadyImported m \<and> identity_at env ts k = Imported m)
       \<or> (\<exists>l. identity_at env ts k = Claimed l
            \<and> cl_requested_at_unix_millis r < le_expires_at_unix_millis l
            \<and> (outcome = Acquired l \<and> le_owner_job_id l = cl_owner_job_id r \<and> le_token l = cl_lease_token r
                  \<and> le_claim_provenance l = cl_provenance r
               \<or> outcome = HeldByOther (le_owner_job_id l) (le_generation l) (le_expires_at_unix_millis l)
                  \<and> (le_owner_job_id l \<noteq> cl_owner_job_id r \<or> le_token l \<noteq> cl_lease_token r)))"
  | (acquired) g expires wire where "quiescent env ts" "outcome = Acquired (claimed_lease r g expires)"
      "unat g = Suc (unat (generation_at env ts k))" "lease_to_wire env (claimed_lease r g expires) = Inr wire"
      "record_at env ts k = None" "import_at env ts k = None"
      "case lease_at env ts k of None \<Rightarrow> True
        | Some l \<Rightarrow> le_expires_at_unix_millis l \<le> cl_requested_at_unix_millis r"
      "us = ts\<lparr> at_meta := mins env (at_meta ts) (lease_generation_key k) g,
                at_leases := tins env (at_leases ts) k wire,
                at_reconciliation_receipts := trem env (at_reconciliation_receipts ts) k \<rparr>"
proof -
  from assms(1) obtain existing where quiet: "quiescent env ts"
    and existing: "existing_claim_outcome env io ts (active_table env ts) k = Inr existing"
    and rest: "case existing of Some out \<Rightarrow> us = ts \<and> outcome = out
      | None \<Rightarrow> acquire_lease env io ts r k = Inr (us, outcome)"
    by (force simp: archive_claim_def result_simps canonical_key_ok k_def dest!: reads split: option.splits)
  show ?thesis
  proof (cases existing)
    case (Some out)
    then have "(\<exists>c. out = AlreadyCommitted c \<and> identity_at env ts k = Committed c)
       \<or> (\<exists>m. out = AlreadyImported m \<and> identity_at env ts k = Imported m)"
      using existing_some [of env io ts k out] existing sound_at [OF assms(2), of k]
      by (auto simp: identity_at_def key_sound_def)
    then show ?thesis using unchanged rest Some quiet by auto
  next
    case None
    then have free: "record_at env ts k = None" "import_at env ts k = None"
      using existing existing_none [of env io ts k] by auto
    show ?thesis
    proof (cases "is_live (lease_at env ts k) (cl_requested_at_unix_millis r)")
      case True
      then obtain l where "lease_at env ts k = Some l" "cl_requested_at_unix_millis r < le_expires_at_unix_millis l"
        by (auto simp: is_live_def is_stale_at_def not_le split: option.splits)
      moreover from this True have "us = ts" "live_lease_outcome r l = Inr outcome"
        using rest None by (auto simp: acquire_lease_def result_simps dest!: reads)
      ultimately show ?thesis
        using unchanged free quiet by (auto simp: live_lease_outcome_def identity_at_def split: if_splits)
    next
      case False
      then obtain g expires wire where advanced: "next_generation env io ts (lease_at env ts k) k = Inr g"
        and out: "outcome = Acquired (claimed_lease r g expires)" "lease_to_wire env (claimed_lease r g expires) = Inr wire"
          "us = ts\<lparr> at_meta := mins env (at_meta ts) (lease_generation_key k) g,
                at_leases := tins env (at_leases ts) k wire,
                at_reconciliation_receipts := trem env (at_reconciliation_receipts ts) k \<rparr>"
        using rest None by (auto simp: acquire_lease_def result_simps Let_def dest!: reads cleared)
      from advanced have "unat g = Suc (unat (generation_at env ts k))"
        by (rule next_generation_ok [OF _ refl assms(2)])
      moreover have "case lease_at env ts k of None \<Rightarrow> True
        | Some l \<Rightarrow> le_expires_at_unix_millis l \<le> cl_requested_at_unix_millis r"
        using False by (auto simp: is_live_def is_stale_at_def split: option.splits)
      ultimately show ?thesis using acquired [OF quiet out(1) _ out(2) free _ out(3)] by blast
    qed
  qed
qed

lemma claim_follows:
  assumes env: "env_lawful env" and sound: "store_sound env ts"
    and claim: "archive_claim env io ts r = Inr (us, outcome)"
  shows "follows env ts us"
  using claim sound
proof (cases rule: claim_cases)
  case unchanged
  then show ?thesis using sound by (simp add: follows_refl)
next
  case (acquired g expires wire)
  let ?k = "canonical_text (cl_key r)" and ?l = "claimed_lease r g expires"
  have l: "le_key ?l = cl_key r" "le_generation ?l = g" "le_acquired_at_unix_millis ?l = cl_requested_at_unix_millis r"
    by (simp_all add: claimed_lease_def)
  have "identity_step (life_at env ts ?k) (Claimed ?l, le_generation ?l)"
  proof (cases "lease_at env ts ?k")
    case None
    then show ?thesis
      using acquired identity_step.acquire [of ?l "generation_at env ts ?k"]
      by (simp add: life_at_def identity_at_def l)
  next
    case (Some old)
    then have "generation_at env ts ?k = le_generation old"
      using sound_at [OF sound, of ?k] by (simp add: key_sound_def)
    then show ?thesis
      using acquired Some identity_step.takeover [of ?l old] by (simp add: life_at_def identity_at_def l)
  qed
  then show ?thesis
    using lease_written [OF env sound acquired(1,4), of "trem env (at_reconciliation_receipts ts) ?k"]
      receipts_next_cleared [OF env, of ts ?k] acquired(5,6,8) by (simp add: l)
qed

lemma release_cases:
  assumes "release_claim env io ts l = Inr us"
  defines "k \<equiv> canonical_text (le_key l)"
  obtains "us = ts" "lease_at env ts k = None"
  | "quiescent env ts" "lease_at env ts k = Some l" "us = ts\<lparr> at_leases := trem env (at_leases ts) k \<rparr>"
proof -
  obtain stored where "quiescent env ts" "lease_at env ts k = stored"
    "case stored of None \<Rightarrow> us = ts | Some held \<Rightarrow> held = l \<and> us = ts\<lparr> at_leases := trem env (at_leases ts) k \<rparr>"
    using assms by (auto simp: release_claim_def result_simps canonical_key_ok k_def dest!: reads split: option.splits if_splits)
  then show ?thesis using that by (cases stored) auto
qed

lemma release_follows:
  assumes env: "env_lawful env" and sound: "store_sound env ts" and released: "release_claim env io ts l = Inr us"
  shows "follows env ts us"
  using released
proof (cases rule: release_cases)
  case 1
  then show ?thesis using sound by (simp add: follows_refl)
next
  case 2
  then show ?thesis using lease_removed [OF env sound 2(1) receipts_next_same [OF sound] 2(2)] by simp
qed

lemma renew_cases:
  assumes "renew_lease env io ts r = Inr (us, l)"
  defines "k \<equiv> canonical_text (le_key (ln_current_lease r))"
  obtains wire where "quiescent env ts" "renewed_lease (ae_limits env) r = Inr l" "lease_to_wire env l = Inr wire"
    "lease_at env ts k = Some (ln_current_lease r)"
    "us = ts\<lparr> at_meta := mins env (at_meta ts) (lease_generation_key k) (le_generation l),
      at_leases := tins env (at_leases ts) k wire \<rparr>"
proof -
  let ?decode = "\<lambda>bytes. corrupt_contract env ''lease''
    (from_wire lease_validate (ae_lease env) (ae_size env) (ae_limits env) bytes)"
  obtain wire where *: "quiescent env ts" "renewed_lease (ae_limits env) r = Inr l" "lease_to_wire env l = Inr wire"
    and stored: "row_of ?decode (tget env (at_leases ts) k) = Some (ln_current_lease r)"
    and valid: "key_valid (ae_limits env) (le_key (ln_current_lease r))"
    and us: "us = ts\<lparr> at_meta := mins env (at_meta ts) (lease_generation_key k) (le_generation l),
      at_leases := tins env (at_leases ts) k wire \<rparr>"
    using assms(1)
    by (auto simp: renew_lease_def result_simps canonical_key_ok Let_def k_def dest!: read_row_ok begin_quiescent
        split: if_splits)
  from stored obtain bytes where "tget env (at_leases ts) k = Some bytes"
    "from_wire lease_validate (ae_lease env) (ae_size env) (ae_limits env) bytes = Inr (ln_current_lease r)"
    by (auto simp: row_of_def corrupt_contract_ok split: option.splits sum.splits)
  then have "lease_at env ts k = Some (ln_current_lease r)"
    using valid by (simp add: lease_at_def decode_lease_for_key_def decode_for_key_ok k_def)
  then show ?thesis using that * us by blast
qed

lemma renew_follows:
  assumes env: "env_lawful env" and sound: "store_sound env ts" and renewed: "renew_lease env io ts r = Inr (us, l)"
  shows "follows env ts us"
  using renewed
proof (cases rule: renew_cases)
  case (1 wire)
  let ?c = "ln_current_lease r" and ?k = "canonical_text (le_key (ln_current_lease r))"
  note facts = renewed_lease_ok [OF 1(2)]
  have free: "record_at env ts ?k = None" "import_at env ts ?k = None" "generation_at env ts ?k = le_generation ?c"
    using sound_at [OF sound, of ?k] 1(4) by (auto simp: key_sound_def)
  have "identity_step (life_at env ts ?k) (Claimed l, le_generation l)"
    using identity_step.renew [of l ?c] facts by (simp add: life_at_def identity_at_def free 1(4))
  then show ?thesis
    using lease_written [OF env sound 1(1,3), of "at_reconciliation_receipts ts"] receipts_next_same [OF sound]
      facts free 1(5) by simp
qed

text \<open>What a commit may return, and the tables it leaves.\<close>

lemma commit_cases:
  assumes "commit_success env io ts q = Inr (us, outcome)"
  defines "k \<equiv> canonical_text (le_key (cm_lease q))"
  obtains (replayed) r where "us = ts" "outcome = CommitAlreadyCommitted r" "record_at env ts k = Some r" "same_commit r q"
  | (inserted) sequence wire where "quiescent env ts" "commit_request_ok (ae_limits env) q"
      "record_at env ts k = None" "lease_at env ts k = Some (cm_lease q)"
      "outcome = Inserted (committed_record q sequence)"
      "unat sequence = Suc (unat (stored_sequence env ts))"
      "record_to_wire env (committed_record q sequence) = Inr wire"
      "us = with_records (active_table env ts) (tins env (records_table (active_table env ts) ts) k wire)
        (ts\<lparr> at_meta := mins env (at_meta ts) COMMIT_SEQUENCE sequence, at_leases := trem env (at_leases ts) k \<rparr>)"
proof -
  from assms(1) consider r where "us = ts" "outcome = CommitAlreadyCommitted r" "record_at env ts k = Some r" "same_commit r q"
  | sequence wire where "quiescent env ts" "commit_request_ok (ae_limits env) q"
      "record_at env ts k = None" "lease_at env ts k = Some (cm_lease q)"
      "outcome = Inserted (committed_record q sequence)"
      "unat sequence = Suc (unat (stored_sequence env ts))"
      "record_to_wire env (committed_record q sequence) = Inr wire"
      "us = with_records (active_table env ts) (tins env (records_table (active_table env ts) ts) k wire)
        (ts\<lparr> at_meta := mins env (at_meta ts) COMMIT_SEQUENCE sequence, at_leases := trem env (at_leases ts) k \<rparr>)"
    by (auto simp: commit_success_def result_simps canonical_key_ok Let_def k_def checked_add_eq_Some_iff
        dest!: reads split: option.splits if_splits)
  then show ?thesis using replayed inserted by cases auto
qed

lemma commit_follows:
  assumes env: "env_lawful env" and sound: "store_sound env ts" and committed: "commit_success env io ts q = Inr (us, outcome)"
  shows "follows env ts us"
  using committed
proof (cases rule: commit_cases)
  case (replayed r)
  then show ?thesis using sound by (simp add: follows_refl)
next
  case (inserted sequence wire)
  let ?k = "canonical_text (le_key (cm_lease q))" and ?r = "committed_record q sequence"
  have r: "ar_key ?r = le_key (cm_lease q)" "ar_claim_lease_generation ?r = le_generation (cm_lease q)"
    "ar_claim_lease_token ?r = le_token (cm_lease q)" "ar_provenance ?r = le_claim_provenance (cm_lease q)"
    using inserted(2) by (simp_all add: committed_record_def commit_request_ok_def)
  have "import_at env ts ?k = None"
    using sound_at [OF sound, of ?k] inserted(4) by (auto simp: key_sound_def)
  then show ?thesis
    using row_written [OF env sound inserted(1,7), of "at_reconciliation_receipts ts"
        "mins env (at_meta ts) COMMIT_SEQUENCE sequence" "trem env (at_leases ts) ?k"]
      receipts_next_same [OF sound] inserted(3,4) env inserted(8) by (simp add: r)
qed

end
