(* ===== verification/Archive_Reconciled.thy ===== *)
theory Archive_Reconciled
  imports Archive_Operations
begin

text \<open>Reconciliation and imports follow the life of an identity.\<close>

section \<open>Reconciliation\<close>

lemma receipt_read: "reconciliation_receipt_write env io ts k = Inr x
    \<Longrightarrow> row_of (decode_reconciliation_for_key env k) (tget env (at_reconciliation_receipts ts) k) = x"
  unfolding reconciliation_receipt_write_def by (rule read_row_ok)

lemma actual_read:
  "read_reconciliation_actual env io ts (active_table env ts) k = Inr (actual_record, actual_lease)
    \<Longrightarrow> record_at env ts k = actual_record \<and> lease_at env ts k = actual_lease \<and> import_at env ts k = None"
  by (auto simp: read_reconciliation_actual_def result_simps dest!: reads split: option.splits)

lemma actual_validated:
  "validate_reconciliation_actual ob actual_record actual_lease = Inr u
    \<longleftrightarrow> rc_lease ob = actual_lease \<and> (rc_row ob = RowMissing \<longrightarrow> actual_record = None)
      \<and> (\<forall>r. rc_row ob = RowMatching r \<longrightarrow> actual_record = Some r)"
  by (auto simp: validate_reconciliation_actual_def result_simps split: ArchiveRowObservation.splits if_splits)

definition reconciled_row ::
  "('t, 'n, 'w) archive_env \<Rightarrow> ('t, 'n) archive_tables \<Rightarrow> string \<Rightarrow> ArchiveRecord \<Rightarrow> 'w \<Rightarrow> 't
    \<Rightarrow> ('t, 'n) archive_tables" where
  "reconciled_row env ts k r wire receipts =
     with_records (active_table env ts) (tins env (records_table (active_table env ts) ts) k wire)
       (ts\<lparr> at_meta := (if ar_commit_sequence r > stored_sequence env ts
              then mins env (at_meta ts) COMMIT_SEQUENCE (ar_commit_sequence r) else at_meta ts),
            at_leases := (if lease_at env ts k \<noteq> None then trem env (at_leases ts) k else at_leases ts),
            at_reconciliation_receipts := receipts \<rparr>)"

lemma insert_missing_row_ok:
  assumes "insert_missing_row env io ts (active_table env ts) k observation_wire (lease_at env ts k) r = Inr us"
  shows "\<exists>wire. record_to_wire env r = Inr wire
    \<and> us = reconciled_row env ts k r wire (tins env (at_reconciliation_receipts ts) k observation_wire)"
  using assms
  by (auto simp: insert_missing_row_def persist_reconciliation_receipt_def reconciled_row_def result_simps
      simp del: not_None_eq split: if_splits)

lemma reclaim_ok:
  assumes "reclaim_stale_lease env io ts ob k observation_wire held = Inr us"
  shows "\<exists>l. held = Some l \<and> is_stale_at l (rc_now_unix_millis ob)
    \<and> us = ts\<lparr> at_leases := trem env (at_leases ts) k,
        at_reconciliation_receipts := tins env (at_reconciliation_receipts ts) k observation_wire \<rparr>"
  using assms by (auto simp: reclaim_stale_lease_def persist_reconciliation_receipt_def result_simps)

lemma inconsistency_ok:
  "record_inconsistency env io ts ob k = Inr us \<Longrightarrow> \<exists>t. us = ts\<lparr> at_inconsistencies := t \<rparr>"
  by (auto simp: record_inconsistency_def result_simps)

text \<open>What a reconciliation may do: nothing, insert a row, reclaim a lease, or keep an inconsistency.\<close>

lemma reconcile_cases:
  assumes "archive_reconcile env io ts ob = Inr (us, decision)"
  defines "k \<equiv> canonical_text (rc_key ob)"
  obtains (replayed) "us = ts" "quiescent env ts" "import_at env ts k = None"
      "is_ok (observation_to_wire env ob)" "observation_ok (ae_limits env) ob"
      "row_of (decode_reconciliation_for_key env k) (tget env (at_reconciliation_receipts ts) k) = Some ob"
      "replay_applied_reconciliation (ae_limits env) ob (record_at env ts k) (lease_at env ts k) = Inr decision"
  | (decided) observation_wire where "quiescent env ts" "observation_to_wire env ob = Inr observation_wire"
      "row_of (decode_reconciliation_for_key env k) (tget env (at_reconciliation_receipts ts) k) = None"
      "import_at env ts k = None" "rc_lease ob = lease_at env ts k"
      "rc_row ob = RowMissing \<Longrightarrow> record_at env ts k = None"
      "\<And>r. rc_row ob = RowMatching r \<Longrightarrow> record_at env ts k = Some r"
      "reconciliation_decide (ae_limits env) ob = Inr decision"
      "apply_decision env io ts (active_table env ts) ob k observation_wire (lease_at env ts k) decision = Inr us"
proof -
  from assms(1) obtain observation_wire previous where
    quiet: "quiescent env ts" and wire: "observation_to_wire env ob = Inr observation_wire"
    and previous: "row_of (decode_reconciliation_for_key env k) (tget env (at_reconciliation_receipts ts) k) = previous"
    and no_import: "import_at env ts k = None" and valid: "observation_ok (ae_limits env) ob"
    and rest: "case previous of Some applied \<Rightarrow> us = ts \<and> applied = ob
          \<and> replay_applied_reconciliation (ae_limits env) ob (record_at env ts k) (lease_at env ts k) = Inr decision
      | None \<Rightarrow> validate_reconciliation_actual ob (record_at env ts k) (lease_at env ts k) = Inr ()
          \<and> reconciliation_decide (ae_limits env) ob = Inr decision
          \<and> apply_decision env io ts (active_table env ts) ob k observation_wire (lease_at env ts k) decision = Inr us"
    by (force simp: archive_reconcile_def result_simps canonical_key_ok k_def
        dest!: reads actual_read receipt_read split: option.splits if_splits)
  show ?thesis
  proof (cases previous)
    case None
    then show ?thesis
      using rest decided [OF quiet wire _ no_import] previous by (auto simp: actual_validated)
  next
    case (Some applied)
    then show ?thesis using rest replayed [OF _ quiet no_import] wire valid previous by auto
  qed
qed

lemma inconsistency_follows:
  "store_sound env ts \<Longrightarrow> follows env ts (ts\<lparr> at_inconsistencies := t \<rparr>)"
proof -
  let ?us = "ts\<lparr> at_inconsistencies := t \<rparr>"
  assume sound: "store_sound env ts"
  have same: "same_at env ts ?us k" "same_version env ts ?us" for k by (simp_all add: same_at_def same_version_def)
  have "topology_sound env ?us = topology_sound env ts" by (simp add: topology_sound_def checkpoint_def)
  then show ?thesis
    using sound by (simp add: follows_def store_sound_def same_key [OF same] identity_next_def)
qed

lemma reconcile_follows:
  assumes env: "env_lawful env" and sound: "store_sound env ts"
    and reconciled: "archive_reconcile env io ts ob = Inr (us, decision)"
  shows "follows env ts us"
  using reconciled
proof (cases rule: reconcile_cases)
  case replayed
  then show ?thesis using sound by (simp add: follows_refl)
next
  case (decided observation_wire)
  let ?k = "canonical_text (rc_key ob)" and ?receipts = "tins env (at_reconciliation_receipts ts) (canonical_text (rc_key ob)) observation_wire"
  have receipts: "receipts_next env ts ?k ?receipts"
    by (rule receipts_next_applied [OF env decided(2)])
  have decision: "observation_ok (ae_limits env) ob" "decide_arms ob (rc_output ob) (rc_row ob) = decision"
    using decided(8) by (auto simp: reconciliation_decide_ok)
  note evidence = decide_evidence_iff [of decision ob]
  consider (insert) r where "decision = InsertMissingRow r" | (reclaim) "decision = ReclaimStaleLease"
    | (fail) reason where "decision = FailClosed reason" | (nothing) "us = ts"
    using decided(9) by (cases decision) (auto simp: apply_decision_def)
  then show ?thesis
  proof cases
    case (insert r)
    then have e: "rc_row ob = RowMissing" "rc_recovery_record ob = Some r"
      "case rc_lease ob of None \<Rightarrow> True | Some l \<Rightarrow> ar_claim_lease_generation r = le_generation l
        \<and> ar_claim_lease_token r = le_token l \<and> ar_provenance r = le_claim_provenance l"
      using evidence decision(2) by (auto split: option.splits)
    then have key: "ar_key r = rc_key ob" using decision(1) by (auto simp: observation_ok_def)
    obtain wire where "record_to_wire env r = Inr wire" and us: "us = reconciled_row env ts ?k r wire ?receipts"
      using decided(9) insert insert_missing_row_ok [of env io ts ?k observation_wire r us] by (auto simp: apply_decision_def)
    moreover have "tget env (if lease_at env ts ?k \<noteq> None then trem env (at_leases ts) ?k else at_leases ts) k'
        = (if k' = ?k then None else tget env (at_leases ts) k')" for k'
      using no_lease_row [OF sound, of ?k] env by auto
    ultimately show ?thesis
      unfolding us reconciled_row_def
      using row_written [OF env sound decided(1), of r] receipts key e(3) decided(4,5,6) env e(1) by simp
  next
    case reclaim
    then show ?thesis
      using decided(9) reclaim_ok [of env io ts ob ?k observation_wire "lease_at env ts ?k" us]
        lease_removed [OF env sound decided(1) receipts] by (auto simp: apply_decision_def)
  next
    case fail
    then show ?thesis
      using decided(9) inconsistency_ok inconsistency_follows [OF sound] by (fastforce simp: apply_decision_def)
  next
    case nothing
    then show ?thesis using sound by (simp add: follows_refl)
  qed
qed

section \<open>Imports\<close>

definition imports_only :: "('t, 'n, 'w) archive_env \<Rightarrow> ('t, 'n) archive_tables \<Rightarrow> ('t, 'n) archive_tables \<Rightarrow> bool" where
  "imports_only env ts us = (store_sound env us \<and> same_version env ts us
     \<and> at_migration_records us = at_migration_records ts
     \<and> (\<forall>k. life_at env us k = life_at env ts k
          \<or> identity_at env ts k = Absent \<and> (\<exists>m. life_at env us k = (Imported m, generation_at env ts k))))"

lemma imports_only_trans: "imports_only env ts us \<Longrightarrow> imports_only env us vs \<Longrightarrow> imports_only env ts vs"
  unfolding imports_only_def life_at_def same_version_def by (metis ArchiveMembership.distinct(5) fst_conv snd_conv prod.inject)

lemma imports_only_follows: "imports_only env ts us \<Longrightarrow> follows env ts us"
  unfolding follows_def imports_only_def identity_next_def life_at_def by (metis identity_step.import_mapped)

lemma marker_of_key: "im_key (marker_of e digest at) = ie_target_key e"
  by (simp add: marker_of_def)

lemma import_entry_only:
  assumes env: "env_lawful env" and sound: "store_sound env ts" and quiet: "quiescent env ts"
    and entry: "import_entry env io (active_table env ts) digest at n e (ts, counts) = Inr (us, counts')"
  shows "imports_only env ts us"
proof -
  let ?k = "canonical_text (ie_target_key e)" and ?m = "marker_of e digest at"
  have "us = ts \<or> (\<exists>wire. lease_at env ts ?k = None \<and> record_at env ts ?k = None \<and> import_at env ts ?k = None
      \<and> marker_to_wire env ?m = Inr wire
      \<and> us = ts\<lparr> at_imports := tins env (at_imports ts) ?k wire,
          at_reconciliation_receipts := trem env (at_reconciliation_receipts ts) ?k \<rparr>)"
    using entry
    by (auto simp: import_entry_def Let_def result_simps canonical_key_ok lease_at_def record_at_def import_at_def
        marker_from_entry_ok dest!: cleared decode_opt_row split: if_splits option.splits)
  then show ?thesis
  proof
    assume "us = ts"
    then show ?thesis using sound by (simp add: imports_only_def same_version_def)
  next
    assume "\<exists>wire. lease_at env ts ?k = None \<and> record_at env ts ?k = None \<and> import_at env ts ?k = None
      \<and> marker_to_wire env ?m = Inr wire
      \<and> us = ts\<lparr> at_imports := tins env (at_imports ts) ?k wire,
          at_reconciliation_receipts := trem env (at_reconciliation_receipts ts) ?k \<rparr>"
    then obtain wire where free: "identity_at env ts ?k = Absent" "record_at env ts ?k = None" "lease_at env ts ?k = None"
      and wire: "marker_to_wire env ?m = Inr wire"
      and us: "us = ts\<lparr> at_imports := tins env (at_imports ts) ?k wire,
          at_reconciliation_receipts := trem env (at_reconciliation_receipts ts) ?k \<rparr>"
      by (auto simp: identity_at_def)
    have "follows env ts us"
      using marker_written [OF env sound quiet wire, of "trem env (at_reconciliation_receipts ts) ?k"]
        receipts_next_cleared [OF env, of ts ?k] free us by (simp add: marker_of_key life_at_def)
    moreover have version: "same_version env ts us" by (simp add: us same_version_def)
    moreover have "life_at env us k' = life_at env ts k'" if "k' \<noteq> ?k" for k'
      by (rule same_key(1) [OF _ version]) (use that env in \<open>simp add: us same_at_def\<close>)
    moreover have "life_at env us ?k = (Imported ?m, generation_at env ts ?k)"
      using free(2,3) env decode_written(3) [OF env wire] same_active [OF version]
      by (cases "active_table env ts")
        (simp_all add: life_at_def identity_at_def us record_at_def lease_at_def import_at_def generation_at_def marker_of_key)
    moreover have "at_migration_records us = at_migration_records ts" by (simp add: us)
    ultimately show ?thesis
      using free(1) unfolding imports_only_def follows_def by metis
  qed
qed

lemma import_entries_only:
  assumes env: "env_lawful env"
  shows "import_entries env io active digest at n es (ts, counts) = Inr (us, counts')
    \<Longrightarrow> active = active_table env ts \<Longrightarrow> store_sound env ts \<Longrightarrow> quiescent env ts \<Longrightarrow> imports_only env ts us"
proof (induction es arbitrary: n ts counts)
  case Nil
  then show ?case by (simp add: imports_only_def same_version_def)
next
  case (Cons e es)
  then obtain vs counts'' where one: "import_entry env io active digest at n e (ts, counts) = Inr (vs, counts'')"
    and rest: "import_entries env io active digest at (Suc n) es (vs, counts'') = Inr (us, counts')"
    by (auto simp: result_simps)
  have first: "imports_only env ts vs" using import_entry_only [OF env] one Cons.prems by auto
  then have "store_sound env vs" "active = active_table env vs" "quiescent env vs"
    using Cons.prems same_active [of env ts vs] by (auto simp: imports_only_def quiescent_def checkpoint_def)
  then show ?case using imports_only_trans [OF first] Cons.IH [OF rest] by auto
qed

lemma import_follows:
  assumes "env_lawful env" "store_sound env ts" "import_mapped_text env io ts batch at = Inr (us, counts)"
  shows "follows env ts us"
  using assms(3) import_entries_only [OF assms(1)] assms(2)
  by (auto simp: import_mapped_text_def result_simps dest!: reads intro!: imports_only_follows)

end
