(* ===== verification/Archive_Checkpoints.thy ===== *)
theory Archive_Checkpoints
  imports Archive_Reconciled
begin

text \<open>
  The migration keeps the store sound and no identity moves: the copied rows are always the first rows
  of the source, the checkpoint counts them and names the last, and activation switches between equal
  tables. Opening a sound store succeeds.
\<close>

lemma versions_differ [simp]:
  "INITIAL_STORE_VERSION \<noteq> CURRENT_STORE_VERSION" "CURRENT_STORE_VERSION \<noteq> INITIAL_STORE_VERSION"
  by (simp_all add: INITIAL_STORE_VERSION_def CURRENT_STORE_VERSION_def)

section \<open>Rows\<close>

lemma table_of: "env_lawful env \<Longrightarrow> sorted_table (tget env) (tins env) (trem env) (trows env)"
  by (simp add: env_lawful_def table_lawful_def)

lemma rows_sorted: "env_lawful env \<Longrightarrow> sorted_wrt (<) (map fst (trows env t))"
  by (rule sorted_table.sorted_rows [OF table_of])

lemma rows_member: "env_lawful env \<Longrightarrow> (k, v) \<in> set (trows env t) \<longleftrightarrow> tget env t k = Some v"
  by (rule sorted_table.mem_rows [OF table_of])

lemma rows_append:
  "env_lawful env \<Longrightarrow> \<forall>row \<in> set (trows env t). fst row < k
    \<Longrightarrow> trows env (tins env t k v) = trows env t @ [(k, v)]"
  using sorted_table.rows_ins [OF table_of, of env t k v] bt_insert_largest [of "trows env t" k v] by auto

lemma rows_from_start:
  assumes "sorted_wrt (<) (map fst (before @ (k, v) # after))"
  shows "rows_from (Some k) (before @ (k, v) # after) = (k, v) # after"
proof -
  have "filter (\<lambda>(k', v). k \<le> k') before = []"
    using assms by (fastforce simp: sorted_wrt_append filter_empty_conv)
  moreover have "filter (\<lambda>(k', v). k \<le> k') after = after"
    using assms by (auto simp: sorted_wrt_append intro!: filter_True less_imp_le)
  ultimately show ?thesis by (simp add: rows_from_def)
qed

text \<open>A batch appends the next rows of the source, and ends short only when none is left.\<close>

lemma copy_rows_ok:
  assumes env: "env_lawful env"
  shows "copy_rows env io maximum cursor n rest (target, migrated, last_key) = Inr (target', migrated', last_key')
    \<Longrightarrow> trows env target = before \<Longrightarrow> sorted_wrt (<) (map fst (before @ rest))
    \<Longrightarrow> \<forall>row \<in> set rest. cursor \<noteq> Some (fst row) \<Longrightarrow> migrated \<le> maximum
    \<Longrightarrow> \<exists>m \<le> length rest. trows env target' = before @ take m rest \<and> unat migrated' = unat migrated + m
      \<and> (if m = 0 then last_key' = last_key
         else \<exists>key. last_key' = Some key \<and> key_valid (ae_limits env) key
           \<and> canonical_text key = fst (rest ! (m - 1)))
      \<and> (migrated' < maximum \<longrightarrow> m = length rest)"
proof (induction rest arbitrary: n target migrated last_key before)
  case Nil
  then show ?case by simp
next
  case (Cons row rest)
  obtain k v where row: "row = (k, v)" by (cases row)
  show ?case
  proof (cases "migrated < maximum")
    case False
    then show ?thesis using Cons.prems by (intro exI [of _ 0]) (auto simp: row)
  next
    case True
    obtain r where r: "decode_record_for_key env ''migration source record'' k v = Inr r"
      and copied: "copy_rows env io maximum cursor (Suc n) rest (tins env target k v, migrated + 1, Some (ar_key r))
        = Inr (target', migrated', last_key')"
      using Cons.prems(1,4) True by (auto simp: row result_simps)
    have "\<forall>row \<in> set before. fst row < k" using Cons.prems(3) by (auto simp: row sorted_wrt_append)
    then have rows: "trows env (tins env target k v) = before @ [(k, v)]"
      using rows_append [OF env] Cons.prems(2) by auto
    have one: "unat (migrated + 1) = Suc (unat migrated)"
      using True unat_Suc_word word_n1_ge by (metis leD)
    then have le: "migrated + 1 \<le> maximum" using True by (simp add: word_le_nat_alt word_less_nat_alt)
    obtain m where m: "m \<le> length rest" "trows env target' = (before @ [(k, v)]) @ take m rest"
      "unat migrated' = unat (migrated + 1) + m" "migrated' < maximum \<longrightarrow> m = length rest"
      "if m = 0 then last_key' = Some (ar_key r)
       else \<exists>key. last_key' = Some key \<and> key_valid (ae_limits env) key \<and> canonical_text key = fst (rest ! (m - 1))"
      using Cons.IH [OF copied rows _ _ le] Cons.prems(3,4) by (auto simp: row)
    have "key_valid (ae_limits env) (ar_key r)" "canonical_text (ar_key r) = k"
      using r by (auto simp: decode_record_for_key_def decode_for_key_ok)
    then show ?thesis
      using m one by (intro exI [of _ "Suc m"]) (auto simp: row nth_Cons' split: if_splits)
  qed
qed

section \<open>Migration steps\<close>

lemma checkpoint_read: "migration_state_write env io ts = Inr found \<Longrightarrow> checkpoint env ts = found"
  unfolding checkpoint_def migration_state_write_def by (rule read_row_ok)

lemma existing_read:
  "existing_migration env io ts migration_id = Inr s \<Longrightarrow> checkpoint env ts = Some s \<and> mp_migration_id (ms_plan s) = migration_id"
  by (auto simp: existing_migration_def require_migration_id_def result_simps dest!: checkpoint_read split: if_splits)

lemma version_read: "active_store_version env io ts = Inr v \<Longrightarrow> mget env (at_meta ts) STORE_VERSION = Some v"
  by (auto simp: active_store_version_def stored_version_def result_simps)

lemma checkpoint_valid: "checkpoint env ts = Some s \<Longrightarrow> migration_state_ok (ae_limits env) s"
  by (auto simp: checkpoint_def row_of_def decode_migration_state_def result_simps
      dest: from_wire_valid split: option.splits sum.splits)

lemma persisted:
  "persist_migration_state env io s ts = Inr us \<Longrightarrow> \<exists>wire. migration_to_wire env s = Inr wire
    \<and> us = ts\<lparr> at_migration_records := tins env (at_migration_records ts) ACTIVE_MIGRATION wire \<rparr>"
  by (auto simp: persist_migration_state_def result_simps)

text \<open>A step that leaves every identity, and a topology that is sound.\<close>

lemma migration_follows:
  assumes env: "env_lawful env" and sound: "store_sound env ts"
    and same: "at_leases us = at_leases ts" "at_imports us = at_imports ts"
      "at_reconciliation_receipts us = at_reconciliation_receipts ts" "at_records_v1 us = at_records_v1 ts"
      "\<And>k. mget env (at_meta us) (lease_generation_key k) = mget env (at_meta ts) (lease_generation_key k)"
    and target: "set (trows env (at_records_v2 us)) \<subseteq> set (trows env (at_records_v2 ts)) \<union> set (trows env (at_records_v1 ts))"
    and active: "\<And>k. record_at env us k = record_at env ts k"
    and version: "mget env (at_meta us) STORE_VERSION = Some v"
    and wire: "migration_to_wire env s = Inr wire"
    and table: "at_migration_records us = tins env (at_migration_records ts) ACTIVE_MIGRATION wire"
    and topology: "topology_at (trows env (at_records_v1 us)) (trows env (at_records_v2 us)) v (Some s)"
  shows "follows env ts us"
proof -
  have decoded: "decode_migration_state env wire = Inr s" by (rule decode_written(5) [OF env wire])
  have others: "lease_at env us k = lease_at env ts k" "import_at env us k = import_at env ts k"
    "generation_at env us k = generation_at env ts k" for k
    using same by (simp_all add: lease_at_def import_at_def generation_at_def)
  have target_row: "row_sound (decode_row env k) (tget env (at_records_v2 us) k)" for k
  proof (cases "tget env (at_records_v2 us) k")
    case (Some w)
    then have "tget env (at_records_v2 ts) k = Some w \<or> tget env (at_records_v1 ts) k = Some w"
      using target rows_member [OF env] by blast
    then show ?thesis using sound_at [OF sound, of k] Some by (auto simp: key_sound_def)
  qed simp
  have "key_sound env us k" for k
    using sound_at [OF sound, of k] target_row [of k] by (simp add: key_sound_def others active same(1-4) split: option.splits)
  moreover have "topology_sound env us"
    using sound env decoded version topology
    by (simp add: store_sound_def topology_sound_def checkpoint_def table)
  moreover have "life_at env us k = life_at env ts k" for k
    unfolding life_at_def identity_at_def others active ..
  ultimately show ?thesis by (simp add: follows_def store_sound_def identity_next_def)
qed

lemma source_active: "mget env (at_meta ts) STORE_VERSION = Some INITIAL_STORE_VERSION \<Longrightarrow> active_table env ts = RecordsV1"
  by (simp add: active_table_def INITIAL_STORE_VERSION_def CURRENT_STORE_VERSION_def)

lemma sound_topology:
  assumes "store_sound env ts" "mget env (at_meta ts) STORE_VERSION = Some v"
  shows "topology_at (trows env (at_records_v1 ts)) (trows env (at_records_v2 ts)) v (checkpoint env ts)"
  using assms by (auto simp: store_sound_def topology_sound_def)

lemma begin_follows:
  assumes env: "env_lawful env" and sound: "store_sound env ts"
    and started: "begin_migration env io ts plan digest = Inr (us, s)"
  shows "follows env ts us"
proof -
  obtain wire where v: "mget env (at_meta ts) STORE_VERSION = Some INITIAL_STORE_VERSION"
    and empty: "trows env (at_records_v2 ts) = []" and wire: "migration_to_wire env s = Inr wire"
    and s: "s = prepared_state plan digest"
    and us: "us = ts\<lparr> at_migration_records := tins env (at_migration_records ts) ACTIVE_MIGRATION wire \<rparr>"
    using started
    by (auto simp: begin_migration_def result_simps Let_def table_empty_def dest!: version_read split: if_splits)
  have "topology_at (trows env (at_records_v1 ts)) (trows env (at_records_v2 ts)) INITIAL_STORE_VERSION (Some s)"
    by (simp add: s prepared_state_def topology_at_def cursor_at_def empty)
  then show ?thesis
    by (intro migration_follows [OF env sound _ _ _ _ _ _ _ _ wire, where v = INITIAL_STORE_VERSION])
      (simp_all add: us v record_at_def active_table_def source_active)
qed

lemma cursor_key_at:
  assumes "cursor_at s rows" "cursor_key limits s = Inr cursor"
  shows "cursor = (if rows = [] then None else Some (fst (last rows)))"
  using assms by (cases "ms_last_migrated_key s")
    (auto simp: cursor_at_def cursor_key_def decode_opt_def result_simps canonical_key_ok split: if_splits)

lemma batch_ok:
  assumes env: "env_lawful env" and maximum: "0 < maximum"
    and target: "trows env target = before" and source: "trows env source = before @ rest"
    and cursor: "cursor = (if before = [] then None else Some (fst (last before)))"
    and copied: "copy_rows env io maximum cursor 0 (rows_from cursor (trows env source)) (target, 0, None)
      = Inr (target', migrated, last_key)"
  shows "\<exists>m \<le> length rest. trows env target' = before @ take m rest \<and> unat migrated = m
    \<and> (if m = 0 then last_key = None
       else \<exists>key. last_key = Some key \<and> key_valid (ae_limits env) key \<and> canonical_text key = fst (rest ! (m - 1)))
    \<and> (migrated < maximum \<longrightarrow> m = length rest)"
proof -
  have sorted: "sorted_wrt (<) (map fst (before @ rest))"
    using rows_sorted [OF env, of source] by (simp add: source)
  have fresh: "\<forall>row \<in> set rest. cursor \<noteq> Some (fst row)"
  proof
    fix row assume row: "row \<in> set rest"
    show "cursor \<noteq> Some (fst row)"
    proof (cases "before = []")
      case False
      then have "fst (last before) < fst row" using sorted row by (simp add: sorted_wrt_append)
      then show ?thesis using cursor by auto
    qed (simp add: cursor)
  qed
  have after: "copy_rows env io maximum cursor n rest (target, 0, None) = Inr (target', migrated, last_key)
    \<Longrightarrow> ?thesis" for n
    using copy_rows_ok [OF env _ target sorted fresh, of io maximum n 0 None target' migrated last_key] by auto
  show ?thesis
  proof (cases "before = []")
    case True
    then show ?thesis using after [of 0] copied cursor by (auto simp: rows_from_def source)
  next
    case False
    obtain k v where kv: "last before = (k, v)" by (cases "last before")
    then have split: "before @ rest = butlast before @ (k, v) # rest"
      using False by (metis append_assoc append_butlast_last_id append_Cons append_Nil)
    then have "rows_from cursor (trows env source) = (k, v) # rest"
      using rows_from_start [of "butlast before" k v rest, folded split] sorted source cursor False kv by simp
    then show ?thesis
      using after [of 1] copied maximum cursor False kv by (auto simp: result_simps)
  qed
qed

lemma widened: "unat (ucast n :: u64) = unat n" for n :: u32
  using unat_bound [of n] by (simp add: unsigned_ucast_eq take_bit_nat_eq_self)

lemma resume_follows:
  assumes env: "env_lawful env" and sound: "store_sound env ts"
    and resumed: "resume_migration env io ts migration_id = Inr (us, s')"
  shows "follows env ts us"
proof -
  obtain s cursor target migrated last_key wire total where s: "checkpoint env ts = Some s" "ms_phase s \<in> {Prepared, Copying}"
    and v: "mget env (at_meta ts) STORE_VERSION = Some INITIAL_STORE_VERSION"
    and cursor: "cursor_key (ae_limits env) s = Inr cursor"
    and copied: "copy_rows env io (mp_maximum_records_per_batch (ms_plan s)) cursor 0
      (rows_from cursor (trows env (at_records_v1 ts))) (at_records_v2 ts, 0, None) = Inr (target, migrated, last_key)"
    and total: "unat total = unat (ms_migrated_records s) + unat (ucast migrated :: u64)"
    and s': "s' = s\<lparr> ms_migrated_records := total,
        ms_last_migrated_key := (case last_key of Some key \<Rightarrow> Some key | None \<Rightarrow> ms_last_migrated_key s),
        ms_phase := (if migrated < mp_maximum_records_per_batch (ms_plan s) then Verifying else Copying) \<rparr>"
    and wire: "migration_to_wire env s' = Inr wire"
    and us: "us = ts\<lparr> at_records_v2 := target, at_migration_records := tins env (at_migration_records ts) ACTIVE_MIGRATION wire \<rparr>"
    using resumed
    by (auto simp: resume_migration_def result_simps Let_def checked_add_eq_Some_iff
        dest!: existing_read version_read persisted)
  let ?maximum = "mp_maximum_records_per_batch (ms_plan s)" and ?source = "trows env (at_records_v1 ts)"
    and ?before = "trows env (at_records_v2 ts)"
  have maximum: "0 < ?maximum"
    using checkpoint_valid [OF s(1)] by (simp add: migration_state_ok_def migration_plan_ok_def word_gt_0)
  obtain rest where at: "cursor_at s ?before" and source: "?source = ?before @ rest"
    using sound_topology [OF sound v] s by (auto simp: topology_at_def) (metis append_take_drop_id)
  obtain m where m: "m \<le> length rest" "trows env target = ?before @ take m rest" "unat migrated = m"
    "migrated < ?maximum \<longrightarrow> m = length rest"
    "if m = 0 then last_key = None
     else \<exists>key. last_key = Some key \<and> key_valid (ae_limits env) key \<and> canonical_text key = fst (rest ! (m - 1))"
    using batch_ok [OF env maximum refl source cursor_key_at [OF at cursor] copied] by auto
  have "unat (ucast migrated :: u64) = m" using m(3) by (simp add: widened)
  then have count: "unat total = length (?before @ take m rest)" using total at m(1) by (simp add: cursor_at_def)
  have "cursor_at s' (?before @ take m rest)"
    using at m(1,5) count
    by (cases "m = 0") (auto simp: cursor_at_def s' last_append last_conv_nth)
  then have "topology_at (trows env (at_records_v1 us)) (trows env (at_records_v2 us)) INITIAL_STORE_VERSION (Some s')"
    using m(2,4) by (auto simp: topology_at_def us s' source intro!: exI [of _ "length ?before + m"])
  then show ?thesis
    using m(2) v set_take_subset [of m rest]
    by (intro migration_follows [OF env sound _ _ _ _ _ _ _ _ wire, where v = INITIAL_STORE_VERSION])
      (auto simp: us v record_at_def active_table_def source_active source)
qed

lemma verify_follows:
  assumes env: "env_lawful env" and sound: "store_sound env ts"
    and verified: "verify_migration env io ts migration_id = Inr (us, s')"
  shows "follows env ts us"
proof -
  obtain s wire where s: "checkpoint env ts = Some s" "ms_phase s = Verifying" "s' = s\<lparr> ms_phase := ReadyToActivate \<rparr>"
    and wire: "migration_to_wire env s' = Inr wire"
    and us: "us = ts\<lparr> at_migration_records := tins env (at_migration_records ts) ACTIVE_MIGRATION wire \<rparr>"
    using verified
    by (auto simp: verify_migration_def result_simps Let_def dest!: existing_read persisted split: if_splits)
  obtain v where v: "mget env (at_meta ts) STORE_VERSION = Some v"
    using sound by (auto simp: store_sound_def topology_sound_def)
  have "topology_at (trows env (at_records_v1 ts)) (trows env (at_records_v2 ts)) v (Some s')"
    using sound_topology [OF sound v] s by (simp add: topology_at_def cursor_at_def)
  then show ?thesis
    by (intro migration_follows [OF env sound _ _ _ _ _ _ _ _ wire, where v = v])
      (simp_all add: us v record_at_def active_table_def)
qed

lemma activate_follows:
  assumes env: "env_lawful env" and sound: "store_sound env ts"
    and activated: "activate_migration env io ts migration_id = Inr (us, s')"
  shows "follows env ts us"
proof -
  obtain s wire where s: "checkpoint env ts = Some s" "ms_phase s = ReadyToActivate" "s' = s\<lparr> ms_phase := Activated \<rparr>"
    and v: "mget env (at_meta ts) STORE_VERSION = Some INITIAL_STORE_VERSION"
    and wire: "migration_to_wire env s' = Inr wire"
    and us: "us = ts\<lparr> at_meta := mins env (at_meta ts) STORE_VERSION CURRENT_STORE_VERSION,
      at_migration_records := tins env (at_migration_records ts) ACTIVE_MIGRATION wire \<rparr>"
    using activated
    by (auto simp: activate_migration_def result_simps Let_def dest!: existing_read persisted version_read split: if_splits)
  have topology: "trows env (at_records_v2 ts) = trows env (at_records_v1 ts)" "cursor_at s (trows env (at_records_v1 ts))"
    using sound_topology [OF sound v] s by (auto simp: topology_at_def)
  then have "tget env (at_records_v2 ts) k = tget env (at_records_v1 ts) k" for k
    by (simp add: sorted_table.get_rows [OF table_of [OF env]])
  then have rows: "record_at env us k = record_at env ts k" for k
    using env by (simp add: record_at_def source_active [OF v] us active_table_def)
  have "topology_at (trows env (at_records_v1 us)) (trows env (at_records_v2 us)) CURRENT_STORE_VERSION (Some s')"
    using topology s by (simp add: topology_at_def us cursor_at_def)
  then show ?thesis
    using env by (intro migration_follows [OF env sound _ _ _ _ _ _ rows _ wire, where v = CURRENT_STORE_VERSION])
      (simp_all add: us)
qed

lemma rollback_follows:
  assumes env: "env_lawful env" and sound: "store_sound env ts"
    and rolled: "rollback_migration env io ts migration_id = Inr (us, s')"
  shows "follows env ts us"
proof (cases "us = ts")
  case True
  then show ?thesis using sound by (simp add: follows_refl)
next
  case False
  then obtain s wire where s: "s' = s\<lparr> ms_phase := RolledBack \<rparr>"
    and v: "mget env (at_meta ts) STORE_VERSION = Some INITIAL_STORE_VERSION"
    and wire: "migration_to_wire env s' = Inr wire"
    and us: "us = ts\<lparr> at_meta := mins env (at_meta ts) STORE_VERSION INITIAL_STORE_VERSION,
      at_migration_records := tins env (at_migration_records ts) ACTIVE_MIGRATION wire \<rparr>"
    using rolled
    by (auto simp: rollback_migration_def result_simps Let_def dest!: existing_read persisted version_read split: if_splits)
  have "topology_at (trows env (at_records_v1 us)) (trows env (at_records_v2 us)) INITIAL_STORE_VERSION (Some s')"
    by (simp add: topology_at_def s)
  then show ?thesis
    using env v
    by (intro migration_follows [OF env sound _ _ _ _ _ _ _ _ wire, where v = INITIAL_STORE_VERSION])
      (simp_all add: us record_at_def active_table_def)
qed

end
