(* ===== verification/Archive_Opening.thy ===== *)
theory Archive_Opening
  imports Archive_Checkpoints
begin

text \<open>
  Opening an archive: a file without a version is accepted only when it is empty, and becomes a sound
  store; a sound store is accepted, whatever the phase of its migration, and unchanged.
\<close>

definition no_failures :: io where
  "no_failures = (\<lambda>operation n. None)"

lemma no_failures_call [simp]: "call_at fail no_failures operation n = Inr ()"
  by (simp add: call_at_def no_failures_def)

lemma no_failures_read [simp]:
  "read_row fail env no_failures n opening reading decode t k = decode_opt decode (tget env t k)"
  by (simp add: read_row_def)

lemma open_all_ok [simp]: "open_all no_failures operations = Inr ()"
  by (induction operations) auto

section \<open>New files\<close>

lemma empty_rows: "env_lawful env \<Longrightarrow> table_empty env t \<longleftrightarrow> (\<forall>k. tget env t k = None)"
  unfolding table_empty_def length_0_conv by (rule sorted_table.rows_empty [OF table_of])

lemma meta_of:
  "env_lawful env \<Longrightarrow> sorted_table (mget env) (mins env) (to_remove (ae_meta env)) (to_rows (ae_meta env))"
  by (simp add: env_lawful_def table_lawful_def)

lemma empty_meta:
  "env_lawful env \<Longrightarrow> to_rows (ae_meta env) m = [] \<longleftrightarrow> (\<forall>k. mget env m k = None)"
  by (rule sorted_table.rows_empty [OF meta_of])

lemma no_rows: "tables_have_rows env io n tables = Inr False \<Longrightarrow> \<forall>t \<in> set tables. table_empty env t"
  by (induction tables arbitrary: n) (auto simp: result_simps split: if_splits)

lemma created_sound:
  assumes env: "env_lawful env" and created: "mget env (at_meta ts) STORE_VERSION = None"
    and opened: "initialize_tables env io ts = Inr us"
  shows "store_sound env us \<and> (\<forall>k. life_at env us k = (Absent, 0))"
proof -
  have us: "us = ts\<lparr> at_meta := mins env (mins env (at_meta ts) STORE_VERSION INITIAL_STORE_VERSION) COMMIT_SEQUENCE 0 \<rparr>"
    and state: "initialized_tables_have_state env io ts = Inr False"
    using opened created by (auto simp: initialize_tables_def result_simps Let_def split: if_splits)
  then have "\<forall>t \<in> set (initialized_tables ts). \<forall>k. tget env t k = None" "\<forall>k. mget env (at_meta ts) k = None"
    using no_rows [of env io 0 "initialized_tables ts"] empty_rows [OF env] empty_meta [OF env]
    by (auto simp: initialized_tables_have_state_def result_simps split: if_splits)
  then have rows: "tget env (at_leases us) k = None" "tget env (at_records_v1 us) k = None"
    "tget env (at_records_v2 us) k = None" "tget env (at_imports us) k = None"
    "tget env (at_migration_records us) k = None" "tget env (at_reconciliation_receipts us) k = None"
    "mget env (at_meta us) (lease_generation_key k) = None"
    "mget env (at_meta us) STORE_VERSION = Some INITIAL_STORE_VERSION" for k
    using env by (simp_all add: us initialized_tables_def)
  then have at: "record_at env us k = None" "lease_at env us k = None" "import_at env us k = None"
    "generation_at env us k = 0" "checkpoint env us = None" for k
    by (cases "active_table env us"; simp add: record_at_def lease_at_def import_at_def generation_at_def checkpoint_def)+
  have "trows env (at_records_v2 us) = []"
    using empty_rows [OF env, of "at_records_v2 us"] rows by (simp add: table_empty_def)
  then have "topology_sound env us" by (simp add: topology_sound_def rows at topology_at_def)
  then show ?thesis by (simp add: store_sound_def key_sound_def at rows life_at_def identity_at_def)
qed

section \<open>Sound stores\<close>

lemma topology_version: "topology_at v1 v2 v m \<Longrightarrow> v = INITIAL_STORE_VERSION \<or> v = CURRENT_STORE_VERSION"
  by (auto simp: topology_at_def split: option.splits ArchiveMigrationPhase.splits)

lemma opened_same:
  assumes "store_sound env ts" "initialize_tables env io ts = Inr us"
  shows "us = ts"
  using assms
  by (auto simp: initialize_tables_def result_simps Let_def store_sound_def topology_sound_def split: if_splits)

lemma decoded_rows:
  assumes env: "env_lawful env" and sound: "store_sound env ts"
    and row: "(k, v) \<in> set (trows env (at_records_v1 ts)) \<or> (k, v) \<in> set (trows env (at_records_v2 ts))"
  shows "\<exists>r. decode_record_for_key env kind k v = Inr r"
proof -
  have "row_sound (decode_row env k) (Some v)"
    using row sound_at [OF sound, of k] by (auto simp: rows_member [OF env] key_sound_def)
  then obtain r where "decode_row env k v = Inr r"
    by (auto simp: row_sound_def is_ok_def split: sum.splits)
  then have "decode_record_for_key env kind k v = Inr r"
    by (simp add: decode_record_for_key_def decode_for_key_ok)
  then show ?thesis ..
qed

lemma counted: "unat n + Suc m < 2 ^ 64 \<Longrightarrow> \<exists>c. checked_add n 1 = Some c \<and> unat c = Suc (unat n)" for n :: u64
  by (rule exI [of _ "n + 1"]) (simp add: checked_add_def unat_sum_word)

lemma verify_rows_ok:
  "(\<And>k v kind. (k, v) \<in> set rows \<Longrightarrow> \<exists>r. decode_record_for_key env kind k v = Inr r)
    \<Longrightarrow> unat verified + length rows < 2 ^ 64
    \<Longrightarrow> \<exists>c. verify_rows env no_failures n verified rows rows = Inr c \<and> unat c = unat verified + length rows"
proof (induction rows arbitrary: n verified)
  case (Cons row rows)
  obtain k v where row: "row = (k, v)" by (cases row)
  obtain c where step: "checked_add verified 1 = Some c" "unat c = Suc (unat verified)"
    using counted Cons.prems(2) by fastforce
  then have "\<exists>d. verify_rows env no_failures (Suc n) c rows rows = Inr d \<and> unat d = unat c + length rows"
    using Cons.IH [of c] Cons.prems by simp
  then show ?case
    using Cons.prems(1) [of k v "''migration source record''"] Cons.prems(1) [of k v "''migration target record''"] step
    by (auto simp: row verification_reads_def)
qed (simp add: verification_reads_def)

lemma subset_rows_ok:
  "(\<And>k v kind. (k, v) \<in> set rows \<Longrightarrow> \<exists>r. decode_record_for_key env kind k v = Inr r)
    \<Longrightarrow> (\<And>k v. (k, v) \<in> set rows \<Longrightarrow> tget env outer k = Some v)
    \<Longrightarrow> unat found + length rows < 2 ^ 64
    \<Longrightarrow> \<exists>c. subset_rows env no_failures n found outer rows = Inr c \<and> unat c = unat found + length rows"
proof (induction rows arbitrary: n found)
  case (Cons row rows)
  obtain k v where row: "row = (k, v)" by (cases row)
  obtain c where step: "checked_add found 1 = Some c" "unat c = Suc (unat found)"
    using counted Cons.prems(3) by fastforce
  then have "\<exists>d. subset_rows env no_failures (Suc n) c outer rows = Inr d \<and> unat d = unat c + length rows"
    using Cons.IH [of c] Cons.prems by simp
  then show ?case
    using Cons.prems(1) [of k v "''migration subset record''"] Cons.prems(2) [of k v] step by (auto simp: row)
qed simp

lemma cursor_tail_ok [simp]:
  "cursor_tail no_failures n tail rows = Inr (if rows = [] then tail else Some (fst (last rows)))"
  by (induction rows arbitrary: n tail) (auto split: if_splits)

lemma cursor_valid:
  assumes "checkpoint env ts = Some s" "cursor_at s (trows env (at_records_v2 ts))"
  shows "validate_migration_cursor env no_failures ts s = Inr ()"
proof -
  have "canonical_key (ae_limits env) key = Inr (canonical_text key)" if "ms_last_migrated_key s = Some key" for key
    using checkpoint_valid [OF assms(1)] that by (simp add: canonical_key_ok migration_state_ok_def)
  then have "cursor_key (ae_limits env) s = Inr (map_option canonical_text (ms_last_migrated_key s))"
    by (cases "ms_last_migrated_key s") (simp_all add: cursor_key_def decode_opt_def)
  then show ?thesis
    using assms(2) by (simp add: validate_migration_cursor_def corrupt_contract_def cursor_at_def)
qed

lemma integrity_ok:
  assumes env: "env_lawful env" and sound: "store_sound env ts"
  shows "validate_migration_table_integrity env no_failures ts = Inr ()"
proof -
  have active: "k = ACTIVE_MIGRATION \<and> (\<exists>s. decode_migration_state env v = Inr s)"
    if "(k, v) \<in> set (trows env (at_migration_records ts))" for k v
  proof (cases "k = ACTIVE_MIGRATION")
    case True
    then have "row_sound (decode_migration_state env) (Some v)"
      using that sound by (simp add: rows_member [OF env] store_sound_def topology_sound_def)
    then show ?thesis using True by (auto simp: row_sound_def is_ok_def split: sum.splits)
  next
    case False
    then show ?thesis
      using that sound by (simp add: rows_member [OF env] store_sound_def topology_sound_def)
  qed
  have "(\<And>k v. (k, v) \<in> set rows \<Longrightarrow> k = ACTIVE_MIGRATION \<and> (\<exists>s. decode_migration_state env v = Inr s))
    \<Longrightarrow> integrity_rows env no_failures n rows = Inr ()" for n rows
    by (induction rows arbitrary: n) force+
  then show ?thesis using active by (simp add: validate_migration_table_integrity_def)
qed

lemma verification_ok:
  assumes env: "env_lawful env" and sound: "store_sound env ts" and s: "checkpoint env ts = Some s"
    and t: "trows env (at_records_v2 ts) = trows env (at_records_v1 ts)" "cursor_at s (trows env (at_records_v1 ts))"
  shows "verify_source_target_exact env no_failures ts = Inr (ms_migrated_records s)
    \<and> validate_migration_cursor env no_failures ts s = Inr ()"
proof -
  have "\<exists>c. verify_rows env no_failures 0 0 (trows env (at_records_v1 ts)) (trows env (at_records_v1 ts)) = Inr c
    \<and> unat c = unat (0 :: u64) + length (trows env (at_records_v1 ts))"
    using t unat_bound [of "ms_migrated_records s"]
    by (intro verify_rows_ok decoded_rows [OF env sound]) (auto simp: cursor_at_def)
  then show ?thesis
    using t cursor_valid [OF s] by (auto simp: verify_source_target_exact_def cursor_at_def word_unat_eq_iff)
qed

lemma sound_opens:
  assumes env: "env_lawful env" and sound: "store_sound env ts"
  shows "initialize_tables env no_failures ts = Inr ts"
proof -
  obtain v where v: "mget env (at_meta ts) STORE_VERSION = Some v"
    and topology: "topology_at (trows env (at_records_v1 ts)) (trows env (at_records_v2 ts)) v (checkpoint env ts)"
    using sound by (auto simp: store_sound_def topology_sound_def)
  have known: "v = INITIAL_STORE_VERSION \<or> v = CURRENT_STORE_VERSION"
    using topology by (rule topology_version)
  have found: "migration_state_write env no_failures ts = Inr (checkpoint env ts)"
    using sound by (simp add: migration_state_write_def checkpoint_def decode_opt_sound store_sound_def topology_sound_def)
  have "validate_store_topology env no_failures ts v = Inr ()"
  proof (cases "checkpoint env ts")
    case None
    then show ?thesis
      using topology found by (simp add: validate_store_topology_def integrity_ok [OF env sound] topology_at_def table_empty_def)
  next
    case (Some s)
    note base = validate_store_topology_def integrity_ok [OF env sound] found Some
    have small: "unat (ms_migrated_records s) < 2 ^ 64" using unat_bound [of "ms_migrated_records s"] by simp
    have rows: "(k, w) \<in> set (trows env (at_records_v1 ts)) \<or> (k, w) \<in> set (trows env (at_records_v2 ts))
      \<Longrightarrow> \<exists>r. decode_record_for_key env kind k w = Inr r" for k w kind
      by (rule decoded_rows [OF env sound])
    note verified = verification_ok [OF env sound Some]
    show ?thesis
    proof (cases "ms_phase s")
      case Prepared
      then show ?thesis
        using topology Some by (auto simp: base topology_at_def table_empty_def cursor_at_def unat_eq_0)
    next
      case Copying
      then have t: "v = INITIAL_STORE_VERSION" "set (trows env (at_records_v2 ts)) \<subseteq> set (trows env (at_records_v1 ts))"
        "cursor_at s (trows env (at_records_v2 ts))"
        using topology Some set_take_subset by (auto simp: topology_at_def dest: in_set_takeD)
      have "\<exists>c. subset_rows env no_failures 0 0 (at_records_v1 ts) (trows env (at_records_v2 ts)) = Inr c
        \<and> unat c = unat (0 :: u64) + length (trows env (at_records_v2 ts))"
        using t small by (intro subset_rows_ok rows) (auto simp: cursor_at_def rows_member [OF env, symmetric])
      then show ?thesis
        using t Copying cursor_valid [OF Some t(3)]
        by (auto simp: base validate_target_subset_of_source_def validate_table_subset_def cursor_at_def
            word_unat_eq_iff)
    next
      case Verifying
      then show ?thesis
        using topology Some verified by (auto simp: base topology_at_def)
    next
      case ReadyToActivate
      then show ?thesis
        using topology Some verified by (auto simp: base topology_at_def)
    next
      case Activated
      then have t: "v = CURRENT_STORE_VERSION" "set (trows env (at_records_v1 ts)) \<subseteq> set (trows env (at_records_v2 ts))"
        "unat (ms_migrated_records s) = length (trows env (at_records_v1 ts))"
        using topology Some by (auto simp: topology_at_def)
      have "\<exists>c. subset_rows env no_failures 0 0 (at_records_v2 ts) (trows env (at_records_v1 ts)) = Inr c
        \<and> unat c = unat (0 :: u64) + length (trows env (at_records_v1 ts))"
        using t small by (intro subset_rows_ok rows) (auto simp: rows_member [OF env, symmetric])
      then have "subset_rows env no_failures 0 0 (at_records_v2 ts) (trows env (at_records_v1 ts)) = Inr (ms_migrated_records s)"
        using t(3) by (auto simp: unat_eq_iff [symmetric])
      then show ?thesis
        using t Activated by (simp add: base validate_source_subset_of_target_def validate_table_subset_def)
    next
      case RolledBack
      then show ?thesis using topology Some by (simp add: base topology_at_def)
    qed
  qed
  then show ?thesis using v known by (auto simp: initialize_tables_def begin_durable_write_def)
qed

end
