(* ===== verification/Archive_Safety.thy ===== *)
theory Archive_Safety
  imports Archive_Opening
begin

text \<open>
  The archive store as a whole: any sequence of its operations, with any failures of the database, and
  any number of reopenings.
\<close>

section \<open>Runs\<close>

inductive archive_step ::
  "('t, 'n, 'w) archive_env \<Rightarrow> ('t, 'n) archive_tables \<Rightarrow> ('t, 'n) archive_tables \<Rightarrow> bool"
  for env where
  claim: "archive_claim env io ts claim_request = Inr (us, claimed) \<Longrightarrow> archive_step env ts us"
| release: "release_claim env io ts l = Inr us \<Longrightarrow> archive_step env ts us"
| renew: "renew_lease env io ts renewal = Inr (us, l) \<Longrightarrow> archive_step env ts us"
| commit: "commit_success env io ts commit_request = Inr (us, committed) \<Longrightarrow> archive_step env ts us"
| reconcile: "archive_reconcile env io ts ob = Inr (us, decision) \<Longrightarrow> archive_step env ts us"
| import_text: "import_mapped_text env io ts batch at = Inr (us, counts) \<Longrightarrow> archive_step env ts us"
| begin_copy: "begin_migration env io ts plan digest = Inr (us, s) \<Longrightarrow> archive_step env ts us"
| resume: "resume_migration env io ts i = Inr (us, s) \<Longrightarrow> archive_step env ts us"
| verify: "verify_migration env io ts i = Inr (us, s) \<Longrightarrow> archive_step env ts us"
| activate: "activate_migration env io ts i = Inr (us, s) \<Longrightarrow> archive_step env ts us"
| roll_back: "rollback_migration env io ts i = Inr (us, s) \<Longrightarrow> archive_step env ts us"
| reopen: "archive_open env io (DatabaseOpened ts) = Inr us \<Longrightarrow> archive_step env ts us"

abbreviation archive_run ::
  "('t, 'n, 'w) archive_env \<Rightarrow> ('t, 'n) archive_tables \<Rightarrow> ('t, 'n) archive_tables \<Rightarrow> bool" where
  "archive_run env \<equiv> (archive_step env)\<^sup>*\<^sup>*"

lemma step_follows:
  assumes "env_lawful env" "store_sound env ts" "archive_step env ts us"
  shows "follows env ts us"
  using assms(3,1,2)
proof cases
  case (reopen io)
  then show ?thesis
    using opened_same [OF assms(2), of io us] follows_refl [OF assms(2)] by (simp add: archive_open_def)
qed (auto intro: claim_follows release_follows renew_follows commit_follows reconcile_follows import_follows
    begin_follows resume_follows verify_follows activate_follows rollback_follows)

text \<open>A relation that every step of an identity's life respects holds along a run.\<close>

lemma run_follows:
  assumes env: "env_lawful env" and run: "archive_run env ts us" and sound: "store_sound env ts"
  shows "store_sound env us \<and> identity_step\<^sup>*\<^sup>* (life_at env ts k) (life_at env us k)"
  using run
proof (induction rule: rtranclp_induct)
  case base
  then show ?case using sound by simp
next
  case (step us vs)
  then have "follows env us vs" using step_follows [OF env] by blast
  then have "store_sound env vs" "life_at env us k = life_at env vs k \<or> identity_step (life_at env us k) (life_at env vs k)"
    by (auto simp: follows_def identity_next_def)
  then show ?case using step.IH by (metis rtranclp.rtrancl_into_rtrancl)
qed

inductive_cases archived_step: "identity_step (Committed r, g) b" "identity_step (Imported m, g) b"

lemma archived_forever:
  "identity_step\<^sup>*\<^sup>* a b \<Longrightarrow> fst a = Committed r \<or> fst a = Imported m \<Longrightarrow> b = a"
proof (induction rule: rtranclp_induct)
  case (step b c)
  then show ?case by (cases a) (auto elim: archived_step)
qed simp

text \<open>The generation never falls, a lease in force has the current one, and a new lease a larger one.\<close>

lemma generations_rise:
  "identity_step\<^sup>*\<^sup>* a b \<Longrightarrow> (\<And>l. fst a = Claimed l \<Longrightarrow> snd a = le_generation l)
    \<Longrightarrow> unat (snd a) \<le> unat (snd b) \<and> (\<forall>l. fst b = Claimed l \<longrightarrow> snd b = le_generation l)
      \<and> (fst b = fst a \<or> (\<forall>l. fst b = Claimed l \<longrightarrow> unat (snd a) < unat (snd b)))"
proof (induction rule: rtranclp_induct)
  case (step b c)
  from step(2) show ?case
    using step.IH step.prems by cases auto
qed auto

lemma claimed_lease_at: "identity_at env ts k = Claimed l \<Longrightarrow> lease_at env ts k = Some l"
  by (auto simp: identity_at_def split: option.splits)

lemma lease_at_key: "lease_at env ts k = Some l \<Longrightarrow> canonical_text (le_key l) = k"
  by (auto simp: lease_at_def row_of_def decode_lease_for_key_def decode_for_key_ok split: option.splits sum.splits)

lemma claim_grants:
  assumes "env_lawful env" "store_sound env ts" "archive_claim env io ts r = Inr (us, Acquired l)"
  defines "k \<equiv> canonical_text (cl_key r)"
  shows "le_owner_job_id l = cl_owner_job_id r \<and> le_token l = cl_lease_token r
    \<and> le_claim_provenance l = cl_provenance r \<and> identity_at env us k = Claimed l
    \<and> (us = ts \<and> identity_at env ts k = Claimed l \<and> cl_requested_at_unix_millis r < le_expires_at_unix_millis l
       \<or> unat (le_generation l) = Suc (unat (generation_at env ts k))
         \<and> (identity_at env ts k = Absent \<or> (\<exists>old. identity_at env ts k = Claimed old
              \<and> le_expires_at_unix_millis old \<le> cl_requested_at_unix_millis r)))"
  using assms(3,2)
proof (cases rule: claim_cases)
  case unchanged
  then show ?thesis by (auto simp: k_def)
next
  case (acquired g expires wire)
  let ?l = "claimed_lease r g expires"
  have version: "same_version env ts us" using assms(1) by (simp add: acquired(8) same_version_def)
  have "record_at env us k = None"
    using acquired(5) unfolding record_at_def same_active [OF version]
    by (cases "active_table env ts") (simp_all add: acquired(8) k_def)
  moreover have "lease_at env us k = Some ?l"
    using assms(1) decode_written(1) [OF assms(1) acquired(4)]
    by (simp add: lease_at_def acquired(8) k_def claimed_lease_def)
  ultimately have "identity_at env us k = Claimed ?l" by (simp add: identity_at_def)
  moreover have "identity_at env ts k = Absent \<or> (\<exists>old. identity_at env ts k = Claimed old
      \<and> le_expires_at_unix_millis old \<le> cl_requested_at_unix_millis r)"
    using acquired(5-7) by (auto simp: identity_at_def k_def split: option.splits)
  ultimately show ?thesis
    using acquired(2,3) by (auto simp: claimed_lease_def k_def)
qed

lemma claim_acquired_identity:
  "env_lawful env \<Longrightarrow> store_sound env ts \<Longrightarrow> archive_claim env io ts r = Inr (us, Acquired l)
    \<Longrightarrow> identity_at env us (canonical_text (cl_key r)) = Claimed l"
  using claim_grants by blast

text \<open>
  On a sound store, a read of a valid key always answers, with what the tables hold of that
  identity.
\<close>

lemma membership_answers:
  assumes "store_sound env ts" "key_valid (ae_limits env) key"
  shows "archive_membership env no_failures ts key = Inr (identity_at env ts (canonical_text key))"
proof -
  let ?k = "canonical_text key"
  obtain v where v: "mget env (at_meta ts) STORE_VERSION = Some v"
    and "v = INITIAL_STORE_VERSION \<or> v = CURRENT_STORE_VERSION"
    using assms(1) topology_version by (fastforce simp: store_sound_def topology_sound_def)
  then have active: "active_records_definition_read env no_failures ts = Inr (active_table env ts)"
    by (auto simp: active_records_definition_read_def stored_version_def records_definition_def active_table_def)
  have "canonical_key (ae_limits env) key = Inr ?k" using assms(2) by (simp add: canonical_key_ok)
  moreover have "decode_opt (decode_row env ?k) (tget env (records_table (active_table env ts) ts) ?k) = Inr (record_at env ts ?k)"
    "decode_opt (decode_lease_for_key env ?k) (tget env (at_leases ts) ?k) = Inr (lease_at env ts ?k)"
    "decode_opt (decode_import_for_key env ?k) (tget env (at_imports ts) ?k) = Inr (import_at env ts ?k)"
    using sound_at [OF assms(1), of ?k]
    by (cases "active_table env ts"; simp add: record_at_def lease_at_def import_at_def decode_opt_sound key_sound_def)+
  ultimately show ?thesis
    by (simp add: archive_membership_def active contract_def identity_at_def split: option.splits)
qed

section \<open>Properties\<close>

text \<open>
  C31: every operation of the store, whichever database calls fail, keeps it sound (every row decodes
  under its own key, no identity is in two tables, the lease generation is the counter's, the
  migration checkpoint describes the copied rows) and moves each identity at most one step of its
  life: claimed when absent or when the old lease had expired, renewed by its holder in time,
  committed under the lease it was claimed with, imported when absent, and never out of the archive.
\<close>

theorem archive_step_refines:
  "env_lawful env \<Longrightarrow> store_sound env ts \<Longrightarrow> archive_step env ts us
    \<Longrightarrow> store_sound env us \<and> (\<forall>k. identity_next (life_at env ts k) (life_at env us k))"
  by (rule step_follows [unfolded follows_def])

text \<open>
  C32: an archived identity stays archived, with the very row or marker it was archived with, over any
  operations, failures, migrations and reopenings that follow.
\<close>

theorem archive_permanent:
  assumes "env_lawful env" "store_sound env ts" "archive_run env ts us"
    and "identity_at env ts k = Committed r \<or> identity_at env ts k = Imported m"
  shows "identity_at env us k = identity_at env ts k"
proof -
  have "life_at env us k = life_at env ts k"
    using run_follows [OF assms(1,3,2), of k] archived_forever [of "life_at env ts k" "life_at env us k" r m] assms(4)
    by (simp add: life_at_def)
  then show ?thesis by (simp add: life_at_def)
qed

text \<open>
  C33: a lease that was superseded is fenced off. Once another lease holds the identity its generation
  is larger, and from then on no commit under the old lease inserts a row, no renewal of it succeeds
  and releasing it is refused.
\<close>

theorem superseded_lease_fenced:
  assumes env: "env_lawful env" and sound: "store_sound env ts" and run: "archive_run env ts us"
    and before: "identity_at env ts k = Claimed old" and after: "identity_at env us k = Claimed l" "l \<noteq> old"
  shows "le_generation old < le_generation l
    \<and> (cm_lease q = old \<longrightarrow> (\<forall>vs r. commit_success env io us q \<noteq> Inr (vs, Inserted r)))
    \<and> (ln_current_lease n = old \<longrightarrow> \<not> is_ok (renew_lease env io us n))
    \<and> \<not> is_ok (release_claim env io us old)"
proof -
  have key: "canonical_text (le_key old) = k" using lease_at_key claimed_lease_at [OF before] by blast
  have holder: "lease_at env us k = Some l" by (rule claimed_lease_at [OF after(1)])
  have "generation_at env ts k = le_generation old"
    using sound_at [OF sound, of k] claimed_lease_at [OF before] by (simp add: key_sound_def)
  then have "unat (le_generation old) < unat (le_generation l)"
    using generations_rise [of "life_at env ts k" "life_at env us k"] run_follows [OF env run sound, of k] before after
    by (auto simp: life_at_def)
  moreover have "commit_success env io us q \<noteq> Inr (vs, Inserted r)" if "cm_lease q = old" for vs r
    using that key holder after(2) by (auto elim!: commit_cases)
  moreover have "\<not> is_ok (renew_lease env io us n)" if "ln_current_lease n = old"
    using that key holder after(2) by (auto simp: is_ok_def split: sum.splits elim!: renew_cases)
  moreover have "\<not> is_ok (release_claim env io us old)"
    using key holder after(2) by (auto simp: is_ok_def split: sum.splits elim!: release_cases)
  ultimately show ?thesis by (auto simp: word_less_nat_alt)
qed

text \<open>
  C35: an archive created from an empty file opens again after any run of operations, whatever the
  phase a migration was left in, and opening it changes nothing.
\<close>

theorem created_archive_reopens:
  assumes "env_lawful env" "mget env (at_meta ts) STORE_VERSION = None"
    and "archive_open env io (DatabaseOpened ts) = Inr us" "archive_run env us vs"
  shows "archive_open env no_failures (DatabaseOpened vs) = Inr vs"
  using created_sound [OF assms(1,2)] assms(3) run_follows [OF assms(1,4)] sound_opens [OF assms(1)]
  by (auto simp: archive_open_def)

text \<open>
  C34: a claim acquires an identity only when it is absent, or when the lease in force had expired at
  the instant of the request, and then the identity is held by a fresh lease of the requester; the
  one other grant is the replay of the requester's own live lease, which changes nothing.
\<close>

theorem claim_exclusive:
  assumes "env_lawful env" "store_sound env ts" "archive_claim env io ts r = Inr (us, Acquired l)"
  shows "le_owner_job_id l = cl_owner_job_id r \<and> le_token l = cl_lease_token r
    \<and> le_claim_provenance l = cl_provenance r \<and> identity_at env us (canonical_text (cl_key r)) = Claimed l
    \<and> (us = ts \<and> identity_at env ts (canonical_text (cl_key r)) = Claimed l \<and> cl_requested_at_unix_millis r < le_expires_at_unix_millis l
       \<or> unat (le_generation l) = Suc (unat (generation_at env ts (canonical_text (cl_key r))))
         \<and> (identity_at env ts (canonical_text (cl_key r)) = Absent \<or> (\<exists>old. identity_at env ts (canonical_text (cl_key r)) = Claimed old
              \<and> le_expires_at_unix_millis old \<le> cl_requested_at_unix_millis r)))"
  using assms by (rule claim_grants)

end
