(* ===== verification/Archive_Completion.thy ===== *)
theory Archive_Completion
  imports Archive_Liveness
begin

text \<open>
  A migration that was prepared completes: the driver \<open>complete_migration\<close> resumes until the copy is
  done, verifies and activates. The only hypotheses are that checkpoints fit the wire limit and that
  the rows can be counted.
\<close>

definition checkpoints_fit :: "('t, 'n, 'w) archive_env \<Rightarrow> bool" where
  "checkpoints_fit env = (\<forall>s. migration_state_ok (ae_limits env) s \<longrightarrow> is_ok (migration_to_wire env s))"

fun complete_migration ::
  "('t, 'n, 'w) archive_env \<Rightarrow> string \<Rightarrow> nat \<Rightarrow> ('t, 'n) archive_tables
    \<Rightarrow> ('t, 'n) archive_tables option" where
  "complete_migration env i 0 ts = None"
| "complete_migration env i (Suc fuel) ts =
     (case resume_migration env no_failures ts i of
        Inl e \<Rightarrow> None
      | Inr (us, s) \<Rightarrow>
          if ms_phase s = Verifying
          then
            (case rbind (verify_migration env no_failures us i) (\<lambda>(vs, _). activate_migration env no_failures vs i) of
               Inl e \<Rightarrow> None
             | Inr (ws, _) \<Rightarrow> Some ws)
          else complete_migration env i fuel us)"

lemma copy_rows_succeeds:
  assumes env: "env_lawful env"
  shows "(\<And>k v kind. (k, v) \<in> set rest \<Longrightarrow> \<exists>r. decode_record_for_key env kind k v = Inr r)
    \<Longrightarrow> sorted_wrt (<) (map fst (trows env target @ rest))
    \<Longrightarrow> \<exists>x. copy_rows env no_failures maximum cursor n rest (target, migrated, last_key) = Inr x"
proof (induction rest arbitrary: n target migrated last_key)
  case (Cons row rest)
  obtain k v where row: "row = (k, v)" by (cases row)
  have below: "\<forall>row \<in> set (trows env target). fst row < k" using Cons.prems(2) by (auto simp: row sorted_wrt_append)
  have absent: "tget env target k = None"
  proof (rule ccontr)
    assume "tget env target k \<noteq> None"
    then obtain w where "(k, w) \<in> set (trows env target)" by (auto simp: rows_member [OF env])
    then show False using below by fastforce
  qed
  have tail: "\<exists>x. copy_rows env no_failures maximum cursor (Suc n) rest (t, c, l) = Inr x"
    if "trows env t = trows env target \<or> trows env t = trows env target @ [(k, v)]" for t c l
    using Cons.IH [of t "Suc n" c l] Cons.prems that by (auto simp: row sorted_wrt_append)
  obtain r where "decode_record_for_key env ''migration source record'' k v = Inr r"
    using Cons.prems(1) [of k v] by (auto simp: row)
  then show ?case
    using tail [of target] tail [of "tins env target k v"] rows_append [OF env below] absent by (auto simp: row)
qed simp

lemma sound_existing:
  assumes "store_sound env ts" "checkpoint env ts = Some s" "mp_migration_id (ms_plan s) = i"
  shows "existing_migration env no_failures ts i = Inr s"
  using assms by (simp add: existing_migration_def begin_durable_write_def migration_state_write_def store_sound_def
      topology_sound_def decode_opt_sound checkpoint_def require_migration_id_def)

lemma sound_version: "mget env (at_meta ts) STORE_VERSION = Some v \<Longrightarrow> active_store_version env no_failures ts = Inr v"
  by (simp add: active_store_version_def stored_version_def)

lemma persists:
  assumes "checkpoints_fit env" "migration_state_ok (ae_limits env) s"
  shows "\<exists>wire. migration_to_wire env s = Inr wire \<and> persist_migration_state env no_failures s ts
    = Inr (ts\<lparr> at_migration_records := tins env (at_migration_records ts) ACTIVE_MIGRATION wire \<rparr>)"
proof -
  obtain wire where "migration_to_wire env s = Inr wire"
    using assms by (cases "migration_to_wire env s") (auto simp: checkpoints_fit_def)
  then show ?thesis by (simp add: persist_migration_state_def)
qed

lemma checkpoint_persisted:
  assumes "env_lawful env" "migration_to_wire env s = Inr wire"
  shows "checkpoint env (ts\<lparr> at_migration_records := tins env t ACTIVE_MIGRATION wire \<rparr>) = Some s"
  using assms decode_written(5) [OF assms] by (simp add: checkpoint_def)

lemma same_life:
  "record_at env us k = record_at env ts k \<Longrightarrow> lease_at env us k = lease_at env ts k
    \<Longrightarrow> import_at env us k = import_at env ts k \<Longrightarrow> generation_at env us k = generation_at env ts k
    \<Longrightarrow> life_at env us k = life_at env ts k"
  by (simp add: life_at_def identity_at_def split: option.splits)

text \<open>One batch: the copy is done, or it is longer.\<close>

lemma resume_progress:
  assumes env: "env_lawful env" and sound: "store_sound env ts" and fits: "checkpoints_fit env"
    and small: "length (trows env (at_records_v1 ts)) < 2 ^ 64"
    and s: "checkpoint env ts = Some s" "ms_phase s \<in> {Prepared, Copying}" "mp_migration_id (ms_plan s) = i"
  shows "\<exists>us s'. resume_migration env no_failures ts i = Inr (us, s') \<and> store_sound env us
    \<and> (\<forall>k. life_at env us k = life_at env ts k)
    \<and> checkpoint env us = Some s' \<and> mp_migration_id (ms_plan s') = i \<and> at_records_v1 us = at_records_v1 ts
    \<and> (ms_phase s' = Verifying \<or> ms_phase s' = Copying
        \<and> length (trows env (at_records_v2 ts)) < length (trows env (at_records_v2 us)))"
proof -
  let ?source = "trows env (at_records_v1 ts)" and ?before = "trows env (at_records_v2 ts)"
    and ?maximum = "mp_maximum_records_per_batch (ms_plan s)"
  have v: "mget env (at_meta ts) STORE_VERSION = Some INITIAL_STORE_VERSION"
    using sound s by (auto simp: store_sound_def topology_sound_def topology_at_def)
  have ok: "migration_state_ok (ae_limits env) s" by (rule checkpoint_valid [OF s(1)])
  have maximum: "0 < ?maximum" using ok by (simp add: migration_state_ok_def migration_plan_ok_def word_gt_0)
  obtain rest where at: "cursor_at s ?before" and source: "?source = ?before @ rest"
    using sound_topology [OF sound v] s by (auto simp: topology_at_def) (metis append_take_drop_id)
  define cursor where "cursor = (if ?before = [] then None else Some (fst (last ?before)))"
  have "canonical_key (ae_limits env) key = Inr (canonical_text key)" if "ms_last_migrated_key s = Some key" for key
    using ok that by (simp add: canonical_key_ok migration_state_ok_def)
  then have cursor_key: "cursor_key (ae_limits env) s = Inr cursor"
    using at by (cases "ms_last_migrated_key s") (auto simp: cursor_key_def decode_opt_def cursor_at_def cursor_def)
  have decodes: "\<exists>r. decode_record_for_key env kind k w = Inr r" if "(k, w) \<in> set ?source" for k w kind
    by (rule decoded_rows [OF env sound]) (use that in simp)
  have sorted: "sorted_wrt (<) (map fst (?before @ rest))" using rows_sorted [OF env, of "at_records_v1 ts"] by (simp add: source)
  have "\<exists>x. copy_rows env no_failures ?maximum cursor 0 (rows_from cursor ?source) (at_records_v2 ts, 0, None) = Inr x"
  proof (cases "?before = []")
    case True
    then show ?thesis using copy_rows_succeeds [OF env, of ?source "at_records_v2 ts"] decodes sorted
      by (auto simp: rows_from_def cursor_def source)
  next
    case False
    obtain k w where kw: "last ?before = (k, w)" by (cases "last ?before")
    then have split: "?before @ rest = butlast ?before @ (k, w) # rest"
      using False by (metis append_assoc append_butlast_last_id append_Cons append_Nil)
    then have "rows_from cursor ?source = (k, w) # rest"
      using rows_from_start [of "butlast ?before" k w rest, folded split] sorted False kw by (simp add: source cursor_def)
    moreover have "\<exists>x. copy_rows env no_failures ?maximum cursor 1 rest (at_records_v2 ts, 0, None) = Inr x"
      using copy_rows_succeeds [OF env, of rest "at_records_v2 ts"] decodes sorted by (simp add: source)
    ultimately show ?thesis using maximum False kw by (simp add: cursor_def)
  qed
  then obtain target migrated last_key where copied: "copy_rows env no_failures ?maximum cursor 0 (rows_from cursor ?source)
      (at_records_v2 ts, 0, None) = Inr (target, migrated, last_key)" by auto
  obtain m where m: "m \<le> length rest" "trows env target = ?before @ take m rest" "unat migrated = m"
    "migrated < ?maximum \<longrightarrow> m = length rest"
    "if m = 0 then last_key = None
     else \<exists>key. last_key = Some key \<and> key_valid (ae_limits env) key \<and> canonical_text key = fst (rest ! (m - 1))"
    using batch_ok [OF env maximum refl source cursor_def copied] by auto
  have "unat (ms_migrated_records s) + unat (ucast migrated :: u64) < 2 ^ 64"
    using at m(1,3) small by (simp add: cursor_at_def source widened)
  then obtain total where total: "checked_add (ms_migrated_records s) (ucast migrated) = Some total"
    by (simp add: checked_add_def)
  then have count: "unat total = unat (ms_migrated_records s) + m"
    by (simp add: checked_add_eq_Some_iff widened m(3))
  define s' where "s' = s\<lparr> ms_migrated_records := total,
        ms_last_migrated_key := (case last_key of Some key \<Rightarrow> Some key | None \<Rightarrow> ms_last_migrated_key s),
        ms_phase := (if migrated < ?maximum then Verifying else Copying) \<rparr>"
  have "ms_phase s' = Copying \<Longrightarrow> 0 < m"
    using m(3) maximum by (auto simp: s'_def unat_gt_0 word_gt_0 split: if_splits)
  then have ok': "migration_state_ok (ae_limits env) s'"
  proof (cases "m = 0")
    case True
    then have "total = ms_migrated_records s" using count by (simp add: unat_eq_iff)
    then show ?thesis using ok m(5) True \<open>ms_phase s' = Copying \<Longrightarrow> 0 < m\<close>
      by (auto simp: migration_state_ok_def s'_def)
  next
    case False
    then have "total \<noteq> 0" using count by auto
    then show ?thesis using ok m(5) False by (auto simp: migration_state_ok_def s'_def)
  qed
  obtain wire where wire: "migration_to_wire env s' = Inr wire"
    and persist: "persist_migration_state env no_failures s' (ts\<lparr> at_records_v2 := target \<rparr>)
      = Inr (ts\<lparr> at_records_v2 := target, at_migration_records := tins env (at_migration_records ts) ACTIVE_MIGRATION wire \<rparr>)"
    using persists [OF fits ok', of "ts\<lparr> at_records_v2 := target \<rparr>"] by auto
  define us where "us = ts\<lparr> at_records_v2 := target, at_migration_records := tins env (at_migration_records ts) ACTIVE_MIGRATION wire \<rparr>"
  have resumed: "resume_migration env no_failures ts i = Inr (us, s')"
    using s(2) persist
    by (simp add: resume_migration_def sound_existing [OF sound s(1,3)] sound_version [OF v] cursor_key copied
        contract_def total Let_def us_def s'_def)
  have "record_at env us k = record_at env ts k" "lease_at env us k = lease_at env ts k"
    "import_at env us k = import_at env ts k" "generation_at env us k = generation_at env ts k" for k
    by (simp_all add: record_at_def lease_at_def import_at_def generation_at_def us_def active_table_def v)
  then have "life_at env us k = life_at env ts k" for k by (rule same_life)
  moreover have "store_sound env us" using resume_follows [OF env sound resumed] by (simp add: follows_def)
  moreover have "checkpoint env us = Some s'" unfolding us_def by (rule checkpoint_persisted [OF env wire])
  moreover have "ms_phase s' = Verifying \<or> ms_phase s' = Copying \<and> length ?before < length (trows env (at_records_v2 us))"
    using \<open>ms_phase s' = Copying \<Longrightarrow> 0 < m\<close> m(1,2) by (auto simp: s'_def us_def)
  ultimately show ?thesis using resumed s(3) by (auto simp: s'_def us_def)
qed

text \<open>A finished copy is verified and activated.\<close>

lemma copied_activates:
  assumes env: "env_lawful env" and sound: "store_sound env ts" and fits: "checkpoints_fit env"
    and s: "checkpoint env ts = Some s" "ms_phase s = Verifying" "mp_migration_id (ms_plan s) = i"
  shows "\<exists>us s'. rbind (verify_migration env no_failures ts i) (\<lambda>(vs, _). activate_migration env no_failures vs i) = Inr (us, s')
    \<and> store_sound env us \<and> active_table env us = RecordsV2 \<and> (\<forall>k. life_at env us k = life_at env ts k)"
proof -
  have v: "mget env (at_meta ts) STORE_VERSION = Some INITIAL_STORE_VERSION"
    and t: "trows env (at_records_v2 ts) = trows env (at_records_v1 ts)" "cursor_at s (trows env (at_records_v1 ts))"
    using sound s by (auto simp: store_sound_def topology_sound_def topology_at_def)
  let ?ready = "s\<lparr> ms_phase := ReadyToActivate \<rparr>" and ?active = "s\<lparr> ms_phase := Activated \<rparr>"
  have ok: "migration_state_ok (ae_limits env) ?ready" "migration_state_ok (ae_limits env) ?active"
    using checkpoint_valid [OF s(1)] by (auto simp: migration_state_ok_def)
  obtain w where w: "migration_to_wire env ?ready = Inr w"
    and p: "persist_migration_state env no_failures ?ready ts
      = Inr (ts\<lparr> at_migration_records := tins env (at_migration_records ts) ACTIVE_MIGRATION w \<rparr>)"
    using persists [OF fits ok(1)] by blast
  define vs where "vs = ts\<lparr> at_migration_records := tins env (at_migration_records ts) ACTIVE_MIGRATION w \<rparr>"
  have verified: "verify_migration env no_failures ts i = Inr (vs, ?ready)"
    using verification_ok [OF env sound s(1) t] s(2) p
    by (simp add: verify_migration_def sound_existing [OF sound s(1,3)] Let_def vs_def)
  have vs: "store_sound env vs" "checkpoint env vs = Some ?ready" "mget env (at_meta vs) STORE_VERSION = Some INITIAL_STORE_VERSION"
    "trows env (at_records_v2 vs) = trows env (at_records_v1 vs)" "cursor_at ?ready (trows env (at_records_v1 vs))"
    using verify_follows [OF env sound verified] checkpoint_persisted [OF env w] v t
    by (simp_all add: follows_def vs_def cursor_at_def)
  let ?m = "mins env (at_meta ts) STORE_VERSION CURRENT_STORE_VERSION"
  obtain w' where w': "migration_to_wire env ?active = Inr w'"
    and p': "persist_migration_state env no_failures ?active (vs\<lparr> at_meta := ?m \<rparr>)
      = Inr (vs\<lparr> at_meta := ?m, at_migration_records := tins env (at_migration_records vs) ACTIVE_MIGRATION w' \<rparr>)"
    using persists [OF fits ok(2), of "vs\<lparr> at_meta := ?m \<rparr>"] by auto
  define us where "us = vs\<lparr> at_meta := ?m, at_migration_records := tins env (at_migration_records vs) ACTIVE_MIGRATION w' \<rparr>"
  have "existing_migration env no_failures vs i = Inr ?ready"
    by (rule sound_existing [OF vs(1,2)]) (simp add: s(3))
  then have activated: "activate_migration env no_failures vs i = Inr (us, ?active)"
    using verification_ok [OF env vs(1,2,4,5)] p' sound_version [OF vs(3)]
    by (simp add: activate_migration_def Let_def us_def vs_def)
  have "tget env (at_records_v2 ts) k = tget env (at_records_v1 ts) k" for k
    using t(1) by (simp add: sorted_table.get_rows [OF table_of [OF env]])
  then have "record_at env us k = record_at env ts k" "lease_at env us k = lease_at env ts k"
    "import_at env us k = import_at env ts k" "generation_at env us k = generation_at env ts k" for k
    using env by (simp_all add: record_at_def lease_at_def import_at_def generation_at_def us_def vs_def active_table_def v)
  then have "life_at env us k = life_at env ts k" for k by (rule same_life)
  moreover have "store_sound env us" using activate_follows [OF env vs(1) activated] by (simp add: follows_def)
  moreover have "active_table env us = RecordsV2" using env by (simp add: us_def active_table_def)
  ultimately show ?thesis by (simp add: verified activated)
qed

lemma completes:
  assumes env: "env_lawful env" and fits: "checkpoints_fit env"
  shows "store_sound env ts \<Longrightarrow> length (trows env (at_records_v1 ts)) < 2 ^ 64
    \<Longrightarrow> checkpoint env ts = Some s \<Longrightarrow> ms_phase s \<in> {Prepared, Copying} \<Longrightarrow> mp_migration_id (ms_plan s) = i
    \<Longrightarrow> length (trows env (at_records_v1 ts)) - length (trows env (at_records_v2 ts)) < fuel
    \<Longrightarrow> \<exists>us. complete_migration env i fuel ts = Some us \<and> store_sound env us
      \<and> active_table env us = RecordsV2 \<and> (\<forall>k. life_at env us k = life_at env ts k)"
proof (induction fuel arbitrary: ts s)
  case (Suc fuel)
  note small = Suc.prems(2)
  obtain us s' where r: "resume_migration env no_failures ts i = Inr (us, s')" "store_sound env us"
    "\<forall>k. life_at env us k = life_at env ts k" "checkpoint env us = Some s'" "mp_migration_id (ms_plan s') = i"
    "at_records_v1 us = at_records_v1 ts"
    "ms_phase s' = Verifying \<or> ms_phase s' = Copying \<and> length (trows env (at_records_v2 ts)) < length (trows env (at_records_v2 us))"
    using resume_progress [OF env Suc.prems(1) fits small Suc.prems(3,4,5)] by blast
  show ?case
  proof (cases "ms_phase s' = Verifying")
    case True
    then show ?thesis using copied_activates [OF env r(2) fits r(4) _ r(5)] r(1,3) by auto
  next
    case False
    then have c: "ms_phase s' = Copying" "length (trows env (at_records_v2 ts)) < length (trows env (at_records_v2 us))"
      using r(7) by auto
    have "length (trows env (at_records_v2 us)) \<le> length (trows env (at_records_v1 us))"
      using r(2,4) c(1) by (auto simp: store_sound_def topology_sound_def topology_at_def)
    then have "length (trows env (at_records_v1 us)) - length (trows env (at_records_v2 us)) < fuel"
      using c(2) Suc.prems(6) r(6) by simp
    then show ?thesis using Suc.IH [OF r(2) _ r(4) _ r(5)] small c(1) r(1,3,6) by auto
  qed
qed simp


text \<open>
  A migration rolled back after it copied rows keeps them and its checkpoint. Beginning another one is
  refused as corruption, with the message that there is no checkpoint.
\<close>

lemma begin_after_rollback:
  assumes sound: "store_sound env ts" and s: "checkpoint env ts = Some s" "ms_phase s = RolledBack"
    and rows: "trows env (at_records_v2 ts) \<noteq> []"
    and plan: "migration_plan_ok (ae_limits env) plan" "mp_from_store_version plan = 1" "mp_to_store_version plan = 2"
      "digest_ok digest"
  shows "begin_migration env no_failures ts plan digest
    = Inl (CorruptRecord ''v2 target contains rows without an active migration checkpoint'')"
proof -
  have "mget env (at_meta ts) STORE_VERSION = Some INITIAL_STORE_VERSION"
    using sound s by (auto simp: store_sound_def topology_sound_def topology_at_def)
  moreover have "quiescent env ts" using s by (simp add: quiescent_def)
  moreover have "migration_state_validate (ae_limits env) (prepared_state plan digest) = Inr ()"
    using plan by (simp add: migration_state_validate_ok migration_state_ok_def prepared_state_def)
  ultimately show ?thesis
    using rows plan
    by (simp add: begin_migration_def contract_def migration_plan_validate_ok [of _ _ "()", THEN iffD2] Let_def
        sound_begin [OF sound] sound_version table_empty_def INITIAL_STORE_VERSION_def CURRENT_STORE_VERSION_def)
qed

end
