(* ===== verification/Archive_Examples.thy ===== *)
theory Archive_Examples
  imports Archive_Completion
begin

text \<open>
  A concrete archive: red-black trees for the tables, stored values kept as they are. It shows the
  hypotheses of the properties can hold, and runs the store on small inputs.
\<close>

datatype stored_value =
    StoredLease ArchiveLease
  | StoredRecord ArchiveRecord
  | StoredMarker ArchiveImportMarker
  | StoredObservation ArchiveReconciliationObservation
  | StoredMigration ArchiveMigrationState

type_synonym example_tables = "((string, stored_value) rbt, (string, u64) rbt) archive_tables"

definition example_env :: "((string, stored_value) rbt, (string, u64) rbt, stored_value) archive_env" where
  "example_env = \<lparr> ae_limits = archive_limits_default, ae_tables = rbt_ops, ae_meta = rbt_ops,
     ae_size = (\<lambda>_. 1),
     ae_lease = \<lparr> wf_to_vec = (\<lambda>x. Some (StoredLease x)),
       wf_from_slice = (\<lambda>w. case w of StoredLease x \<Rightarrow> Some x | _ \<Rightarrow> None) \<rparr>,
     ae_record = \<lparr> wf_to_vec = (\<lambda>x. Some (StoredRecord x)),
       wf_from_slice = (\<lambda>w. case w of StoredRecord x \<Rightarrow> Some x | _ \<Rightarrow> None) \<rparr>,
     ae_marker = \<lparr> wf_to_vec = (\<lambda>x. Some (StoredMarker x)),
       wf_from_slice = (\<lambda>w. case w of StoredMarker x \<Rightarrow> Some x | _ \<Rightarrow> None) \<rparr>,
     ae_observation = \<lparr> wf_to_vec = (\<lambda>x. Some (StoredObservation x)),
       wf_from_slice = (\<lambda>w. case w of StoredObservation x \<Rightarrow> Some x | _ \<Rightarrow> None) \<rparr>,
     ae_migration = \<lparr> wf_to_vec = (\<lambda>x. Some (StoredMigration x)),
       wf_from_slice = (\<lambda>w. case w of StoredMigration x \<Rightarrow> Some x | _ \<Rightarrow> None) \<rparr>,
     ae_show_error = (\<lambda>_. ''archive contract rejected''), ae_show_cursor = (\<lambda>_. ''cursor''),
     ae_show_phase = (\<lambda>_. ''phase'') \<rparr>"

definition example_empty :: example_tables where
  "example_empty = \<lparr> at_meta = RBT.empty, at_leases = RBT.empty, at_records_v1 = RBT.empty,
     at_records_v2 = RBT.empty, at_imports = RBT.empty, at_inconsistencies = RBT.empty,
     at_reconciliation_receipts = RBT.empty, at_migration_records = RBT.empty \<rparr>"

definition example_key :: ArchiveKey where
  "example_key = \<lparr> ak_schema = ARCHIVE_SCHEMA, ak_namespace = SourceAsset, ak_identity = Asset ''asset_1'',
     ak_identity_rule_version = 1, ak_extractor_id = ''generic-http'' \<rparr>"

definition example_provenance :: "string \<Rightarrow> ArchiveProvenance" where
  "example_provenance job = \<lparr> av_job_id = job, av_transaction_id = ''transaction_1'',
     av_source_locator_digest = replicate 64 (CHR ''a''), av_request_provenance_digest = replicate 64 (CHR ''b'') \<rparr>"

definition example_request :: "string \<Rightarrow> u64 \<Rightarrow> ArchiveClaimRequest" where
  "example_request job at = \<lparr> cl_key = example_key, cl_owner_job_id = job, cl_lease_token = ''lease_'' @ job,
     cl_requested_at_unix_millis = at, cl_lease_duration_millis = 1000, cl_provenance = example_provenance job \<rparr>"

definition example_store :: example_tables where
  "example_store = example_empty\<lparr> at_meta := RBT.insert COMMIT_SEQUENCE 0
     (RBT.insert STORE_VERSION INITIAL_STORE_VERSION RBT.empty) \<rparr>"

lemma example_lawful: "env_lawful example_env"
  by (simp add: env_lawful_def example_env_def rbt_lawful wire_faithful_def)

lemma no_entries [simp]: "RBT.entries (RBT.empty :: (string, 'v) rbt) = []"
  by (simp add: rbt_table.rows_empty)

lemma example_opened: "archive_open example_env no_failures (DatabaseOpened example_empty) = Inr example_store"
  by (simp add: archive_open_def initialize_tables_def begin_durable_write_def Let_def
      initialized_tables_have_state_def initialized_tables_def table_empty_def validate_store_topology_def
      validate_migration_table_integrity_def migration_state_write_def decode_opt_def
      example_store_def example_env_def rbt_ops_def example_empty_def)

lemma example_store_sound: "store_sound example_env example_store"
  and example_store_absent: "life_at example_env example_store k = (Absent, 0)"
  using created_sound [OF example_lawful, of example_empty no_failures example_store] example_opened
  by (simp_all add: archive_open_def) (simp_all add: example_env_def rbt_ops_def example_empty_def)

text \<open>What a claim of a free identity does when no call fails.\<close>

lemma claim_acquires:
  assumes env: "env_lawful env" and sound: "store_sound env ts" and quiet: "quiescent env ts" and ok: "claim_request_ok (ae_limits env) r"
    and life: "life_at env ts (canonical_text (cl_key r)) = (m, previous)"
    and free: "m = Absent \<or> (\<exists>old. m = Claimed old \<and> le_expires_at_unix_millis old \<le> cl_requested_at_unix_millis r)"
    and sums: "checked_add previous 1 = Some g"
      "checked_add (cl_requested_at_unix_millis r) (cl_lease_duration_millis r) = Some expires"
    and wire: "lease_to_wire env (claimed_lease r g expires) = Inr wire"
  shows "\<exists>us. archive_claim env no_failures ts r = Inr (us, Acquired (claimed_lease r g expires))
    \<and> at_migration_records us = at_migration_records ts
    \<and> tget env (at_reconciliation_receipts us) (canonical_text (cl_key r)) = None"
proof -
  let ?k = "canonical_text (cl_key r)"
  have none: "record_at env ts ?k = None" "import_at env ts ?k = None"
    and held: "lease_at env ts ?k = None \<or> (\<exists>old. lease_at env ts ?k = Some old
      \<and> le_expires_at_unix_millis old \<le> cl_requested_at_unix_millis r)"
    and generation: "generation_at env ts ?k = previous"
    using life free sound_at [OF sound, of ?k]
    by (auto simp: life_at_def identity_at_def key_sound_def split: option.splits)
  have "max previous (le_generation old) = previous" if "lease_at env ts ?k = Some old" for old
    using sound_at [OF sound, of ?k] that generation by (simp add: key_sound_def)
  then have advanced: "next_generation env no_failures ts (lease_at env ts ?k) ?k = Inr g"
    using generation sums(1)
    by (cases "lease_at env ts ?k") (auto simp: next_generation_def Let_def generation_at_def)
  have "existing_claim_outcome env no_failures ts (active_table env ts) ?k = Inr None"
    by (simp add: existing_claim_outcome_def sound_decodes [OF sound] none)
  moreover have "\<not> is_live (lease_at env ts ?k) (cl_requested_at_unix_millis r)"
    using held by (auto simp: is_live_def is_stale_at_def)
  moreover have "canonical_key (ae_limits env) (cl_key r) = Inr ?k" "claim_request_validate (ae_limits env) r = Inr ()"
    using ok by (simp_all add: canonical_key_ok claim_request_validate_ok claim_request_ok_def)
  ultimately show ?thesis
    using env
    by (simp add: archive_claim_def contract_def sound_begin [OF sound quiet] sound_active [OF sound]
        acquire_lease_def sound_decodes [OF sound] advanced sums(2) Let_def wire clear_reconciliation_receipt_def)
qed

section \<open>Two claims\<close>

lemma example_limits [simp]: "ae_limits example_env = archive_limits_default"
  "al_maximum_wire_bytes archive_limits_default = 1048576" "ae_size example_env w = 1"
  by (simp_all add: example_env_def archive_limits_default_def)

lemma example_writes:
  "lease_ok archive_limits_default l \<Longrightarrow> lease_to_wire example_env l = Inr (StoredLease l)"
  "marker_ok archive_limits_default m \<Longrightarrow> marker_to_wire example_env m = Inr (StoredMarker m)"
  "observation_ok archive_limits_default ob \<Longrightarrow> observation_to_wire example_env ob = Inr (StoredObservation ob)"
  "migration_state_ok archive_limits_default s \<Longrightarrow> migration_to_wire example_env s = Inr (StoredMigration s)"
  by (simp_all add: lease_to_wire_def marker_to_wire_def observation_to_wire_def migration_to_wire_def contract_def
      to_wire_def lease_validate_ok [of _ _ "()", THEN iffD2] marker_validate_ok [of _ _ "()", THEN iffD2]
      observation_validate_ok [of _ _ "()", THEN iffD2]
      migration_state_validate_ok [of _ _ "()", THEN iffD2])
    (simp_all add: example_env_def)

lemma example_texts:
  "list_all hex_char (replicate 64 (CHR ''a''))" "list_all hex_char (replicate 64 (CHR ''b''))"
  "list_all id_char ''generic-http''"
  by code_simp+

lemma example_key_valid: "key_valid archive_limits_default example_key"
  using example_texts(3)
  by (simp add: key_valid_def example_key_def ARCHIVE_SCHEMA_def component_ok_def archive_limits_default_def)

lemma example_provenance_ok: "provenance_ok (example_provenance job)"
  using example_texts(1,2) by (simp add: provenance_ok_def example_provenance_def digest_ok_def)

lemma example_request_ok:
  "claim_request_ok archive_limits_default (example_request ''job_a'' 1000)"
  "claim_request_ok archive_limits_default (example_request ''job_b'' 2000)"
  using example_key_valid example_provenance_ok
  by (simp_all add: claim_request_ok_def example_request_def example_provenance_def archive_limits_default_def)

definition example_lease :: "string \<Rightarrow> u64 \<Rightarrow> u64 \<Rightarrow> ArchiveLease" where
  "example_lease job at generation = claimed_lease (example_request job at) generation (at + 1000)"

lemma example_lease_wire:
  "lease_to_wire example_env (example_lease ''job_a'' 1000 1) = Inr (StoredLease (example_lease ''job_a'' 1000 1))"
  "lease_to_wire example_env (example_lease ''job_b'' 2000 2) = Inr (StoredLease (example_lease ''job_b'' 2000 2))"
proof -
  have "lease_ok archive_limits_default (example_lease ''job_a'' 1000 1)"
    "lease_ok archive_limits_default (example_lease ''job_b'' 2000 2)"
    using example_key_valid example_provenance_ok
    by (simp_all add: lease_ok_def example_lease_def claimed_lease_def example_request_def example_provenance_def
        archive_limits_default_def)
  then show "lease_to_wire example_env (example_lease ''job_a'' 1000 1) = Inr (StoredLease (example_lease ''job_a'' 1000 1))"
    "lease_to_wire example_env (example_lease ''job_b'' 2000 2) = Inr (StoredLease (example_lease ''job_b'' 2000 2))"
    by (simp_all add: example_writes)
qed

definition example_claimed :: example_tables where
  "example_claimed = fst (projr (archive_claim example_env no_failures example_store (example_request ''job_a'' 1000)))"

abbreviation example_text :: string where
  "example_text \<equiv> canonical_text example_key"

lemma example_quiescent: "quiescent example_env example_store"
  by (simp add: quiescent_def checkpoint_def example_store_def example_empty_def example_env_def rbt_ops_def)

lemma example_claim:
  "archive_claim example_env no_failures example_store (example_request ''job_a'' 1000)
    = Inr (example_claimed, Acquired (example_lease ''job_a'' 1000 1))"
  "at_migration_records example_claimed = at_migration_records example_store"
  "tget example_env (at_reconciliation_receipts example_claimed) example_text = None"
proof -
  have r: "cl_requested_at_unix_millis (example_request ''job_a'' 1000) = 1000"
    "cl_lease_duration_millis (example_request ''job_a'' 1000) = 1000" "cl_key (example_request ''job_a'' 1000) = example_key"
    by (simp_all add: example_request_def)
  have "claim_request_ok (ae_limits example_env) (example_request ''job_a'' 1000)"
    using example_request_ok by simp
  then obtain us where "archive_claim example_env no_failures example_store (example_request ''job_a'' 1000)
      = Inr (us, Acquired (example_lease ''job_a'' 1000 1))" "at_migration_records us = at_migration_records example_store"
      "tget example_env (at_reconciliation_receipts us) example_text = None"
    using claim_acquires [OF example_lawful example_store_sound example_quiescent _ example_store_absent,
        of "example_request ''job_a'' 1000" 1 2000] example_lease_wire
    by (auto simp: r example_lease_def checked_add_def)
  then show "archive_claim example_env no_failures example_store (example_request ''job_a'' 1000)
    = Inr (example_claimed, Acquired (example_lease ''job_a'' 1000 1))"
    "at_migration_records example_claimed = at_migration_records example_store"
    "tget example_env (at_reconciliation_receipts example_claimed) example_text = None"
    by (simp_all add: example_claimed_def)
qed

lemma example_claimed_sound: "store_sound example_env example_claimed" "quiescent example_env example_claimed"
  using claim_follows [OF example_lawful example_store_sound example_claim(1)] example_quiescent
  by (simp_all add: follows_def quiescent_def checkpoint_def example_claim(2))

lemma example_lease_fields:
  "le_generation (example_lease job at g) = g" "le_expires_at_unix_millis (example_lease job at g) = at + 1000"
  "le_key (example_lease job at g) = example_key" "le_token (example_lease job at g) = ''lease_'' @ job"
  "le_acquired_at_unix_millis (example_lease job at g) = at"
  by (simp_all add: example_lease_def claimed_lease_def example_request_def)

lemma example_claimed_life: "life_at example_env example_claimed example_text = (Claimed (example_lease ''job_a'' 1000 1), 1)"
proof -
  have "identity_at example_env example_claimed example_text = Claimed (example_lease ''job_a'' 1000 1)"
    using claim_acquired_identity [OF example_lawful example_store_sound example_claim(1)]
    by (simp add: example_request_def)
  moreover from this have "generation_at example_env example_claimed example_text = 1"
    using sound_at [OF example_claimed_sound(1), of example_text] claimed_lease_at
    by (fastforce simp: key_sound_def example_lease_fields)
  ultimately show ?thesis by (simp add: life_at_def)
qed

text \<open>Another job takes the expired lease over.\<close>

definition example_taken :: example_tables where
  "example_taken = fst (projr (archive_claim example_env no_failures example_claimed (example_request ''job_b'' 2000)))"

lemma example_takeover:
  "archive_claim example_env no_failures example_claimed (example_request ''job_b'' 2000)
    = Inr (example_taken, Acquired (example_lease ''job_b'' 2000 2))"
proof -
  have r: "cl_requested_at_unix_millis (example_request ''job_b'' 2000) = 2000"
    "cl_lease_duration_millis (example_request ''job_b'' 2000) = 1000" "cl_key (example_request ''job_b'' 2000) = example_key"
    by (simp_all add: example_request_def)
  have "claim_request_ok (ae_limits example_env) (example_request ''job_b'' 2000)"
    using example_request_ok by simp
  then obtain us where "archive_claim example_env no_failures example_claimed (example_request ''job_b'' 2000)
      = Inr (us, Acquired (example_lease ''job_b'' 2000 2))"
    using claim_acquires [OF example_lawful example_claimed_sound, of "example_request ''job_b'' 2000"
        "Claimed (example_lease ''job_a'' 1000 1)" 1 2 3000] example_lease_wire example_claimed_life
    by (auto simp: r example_lease_def checked_add_def) (auto simp: claimed_lease_def example_request_def)
  then show ?thesis by (simp add: example_taken_def)
qed

lemma example_taken_identity:
  "identity_at example_env example_taken example_text = Claimed (example_lease ''job_b'' 2000 2)"
  using claim_acquired_identity [OF example_lawful example_claimed_sound(1) example_takeover]
  by (simp add: example_request_def)

section \<open>Witnesses\<close>

lemma archive_step_refines_witness:
  "store_sound example_env example_claimed
    \<and> (\<forall>k. identity_next (life_at example_env example_store k) (life_at example_env example_claimed k))"
  using archive_step_refines [OF example_lawful example_store_sound archive_step.claim [OF example_claim(1)]] .

lemma superseded_lease_fenced_witness:
  "le_generation (example_lease ''job_a'' 1000 1) < le_generation (example_lease ''job_b'' 2000 2)
    \<and> \<not> is_ok (release_claim example_env no_failures example_taken (example_lease ''job_a'' 1000 1))"
proof -
  have "archive_run example_env example_claimed example_taken"
    using archive_step.claim [OF example_takeover] by blast
  moreover have "example_lease ''job_b'' 2000 2 \<noteq> example_lease ''job_a'' 1000 1"
    by (auto dest: arg_cong [of _ _ le_generation] simp: example_lease_fields)
  ultimately show ?thesis
    using superseded_lease_fenced [OF example_lawful example_claimed_sound(1) _ _ example_taken_identity,
        of "example_lease ''job_a'' 1000 1"] example_claimed_life
    by (simp add: life_at_def)
qed

lemma created_archive_reopens_witness:
  "archive_open example_env no_failures (DatabaseOpened example_claimed) = Inr example_claimed"
proof (rule created_archive_reopens [OF example_lawful _ example_opened])
  show "mget example_env (at_meta example_empty) STORE_VERSION = None"
    by (simp add: example_env_def rbt_ops_def example_empty_def)
  show "archive_run example_env example_store example_claimed"
    using archive_step.claim [OF example_claim(1)] by blast
qed

lemma claim_exclusive_witness:
  "identity_at example_env example_taken example_text = Claimed (example_lease ''job_b'' 2000 2)
    \<and> le_token (example_lease ''job_b'' 2000 2) = ''lease_job_b''"
  using claim_exclusive [OF example_lawful example_claimed_sound(1) example_takeover]
  by (simp add: example_request_def)

text \<open>A text identity imported: its marker stays.\<close>

definition example_entry :: ArchiveImportEntry where
  "example_entry = \<lparr> ie_source_line_number = 1, ie_source_identity = ''asset_1'', ie_mapping = AssetIdentity,
     ie_target_key = example_key \<rparr>"

definition example_batch :: ArchiveImportBatch where
  "example_batch = \<lparr> ib_schema = ARCHIVE_SCHEMA, ib_format = FerricMappedTextV1,
     ib_source_digest = replicate 64 (CHR ''a''), ib_entries = [example_entry] \<rparr>"

definition example_marker :: ArchiveImportMarker where
  "example_marker = marker_of example_entry (replicate 64 (CHR ''a'')) 3000"

definition example_imported :: example_tables where
  "example_imported = example_store\<lparr>
     at_imports := tins example_env (at_imports example_store) example_text (StoredMarker example_marker),
     at_reconciliation_receipts := trem example_env (at_reconciliation_receipts example_store) example_text \<rparr>"

lemma example_fields:
  "ie_target_key example_entry = example_key" "im_key example_marker = example_key"
  "ib_source_digest example_batch = replicate 64 (CHR ''a'')" "ib_entries example_batch = [example_entry]"
  by (simp_all add: example_entry_def example_marker_def marker_of_def example_batch_def)

lemma example_marker_ok: "marker_ok archive_limits_default example_marker" "import_entry_ok archive_limits_default example_entry"
proof -
  have "\<not> has_control ''asset_1''" by code_simp
  then show "marker_ok archive_limits_default example_marker" "import_entry_ok archive_limits_default example_entry"
    using example_key_valid example_texts(1)
    by (simp_all add: marker_ok_def import_entry_ok_def example_marker_def marker_of_def example_entry_def
        ARCHIVE_SCHEMA_def digest_ok_def archive_text_ok_def archive_limits_default_def)
      (simp_all add: example_key_def)
qed

lemma example_import_entry:
  "import_entry example_env no_failures (active_table example_env example_store) (replicate 64 (CHR ''a'')) 3000 0 example_entry
    (example_store, \<lparr> ir_inserted = 0, ir_already_present = 0 \<rparr>)
   = Inr (example_store\<lparr> at_imports := tins example_env (at_imports example_store) example_text (StoredMarker example_marker),
      at_reconciliation_receipts := trem example_env (at_reconciliation_receipts example_store) example_text \<rparr>,
      \<lparr> ir_inserted = 1, ir_already_present = 0 \<rparr>)"
proof -
  have none: "record_at example_env example_store example_text = None" "lease_at example_env example_store example_text = None"
    "import_at example_env example_store example_text = None"
    using example_store_absent [of example_text] by (auto simp: life_at_def identity_at_def split: option.splits)
  have key: "canonical_key archive_limits_default example_key = Inr example_text"
    using example_key_valid by (simp add: canonical_key_ok)
  have marker: "marker_from_entry archive_limits_default example_entry (replicate 64 (CHR ''a'')) 3000 = Inr example_marker"
    using example_marker_ok(1) by (simp add: marker_from_entry_ok) (simp add: example_marker_def)
  show ?thesis
    by (simp add: import_entry_def example_fields key marker contract_def sound_decodes [OF example_store_sound] none
        example_writes(2) [OF example_marker_ok(1)] clear_reconciliation_receipt_def Let_def checked_add_def)
qed

lemma example_import:
  "import_mapped_text example_env no_failures example_store example_batch 3000
    = Inr (example_imported, \<lparr> ir_inserted = 1, ir_already_present = 0 \<rparr>)"
  "identity_at example_env example_imported example_text = Imported example_marker"
proof -
  have batch: "import_batch_validate archive_limits_default example_batch = Inr ()"
    using example_marker_ok(2) example_texts(1)
    by (simp add: import_batch_validate_def result_simps import_entries_validate_ok example_fields digest_ok_def
        del: import_entries_validate.simps)
      (simp add: example_batch_def example_entry_def ARCHIVE_SCHEMA_def archive_limits_default_def)
  show "import_mapped_text example_env no_failures example_store example_batch 3000
    = Inr (example_imported, \<lparr> ir_inserted = 1, ir_already_present = 0 \<rparr>)"
    using batch
    by (simp add: import_mapped_text_def contract_def sound_begin [OF example_store_sound example_quiescent]
        sound_active [OF example_store_sound] example_fields example_import_entry example_imported_def)
  note us = example_imported_def
  have "decode_import_for_key example_env example_text (StoredMarker example_marker) = Inr example_marker"
    using decode_written(3) [OF example_lawful example_writes(2) [OF example_marker_ok(1)]] by (simp add: example_fields)
  moreover have "record_at example_env example_imported example_text = record_at example_env example_store example_text"
    "lease_at example_env example_imported example_text = lease_at example_env example_store example_text"
    by (simp_all add: us record_at_def lease_at_def active_table_def)
  ultimately show "identity_at example_env example_imported example_text = Imported example_marker"
    using example_store_absent [of example_text] example_lawful
    by (auto simp: life_at_def identity_at_def import_at_def us split: option.splits)
qed

lemma example_imported_sound: "store_sound example_env example_imported"
  using import_follows [OF example_lawful example_store_sound example_import(1)] by (simp add: follows_def)

text \<open>A migration begun on it.\<close>

definition example_plan :: ArchiveMigrationPlan where
  "example_plan = \<lparr> mp_migration_id = ''migration_1'', mp_from_store_version = 1, mp_to_store_version = 2,
     mp_maximum_records_per_batch = 2 \<rparr>"

definition example_prepared :: example_tables where
  "example_prepared = example_imported\<lparr> at_migration_records := tins example_env (at_migration_records example_imported)
     ACTIVE_MIGRATION (StoredMigration (prepared_state example_plan (replicate 64 (CHR ''a'')))) \<rparr>"

lemma example_plan_ok: "migration_plan_ok archive_limits_default example_plan"
proof -
  have "list_all id_char ''migration_1''" by code_simp
  then show ?thesis by (simp add: migration_plan_ok_def example_plan_def component_ok_def archive_limits_default_def)
qed

lemma example_begin:
  "begin_migration example_env no_failures example_imported example_plan (replicate 64 (CHR ''a''))
    = Inr (example_prepared, prepared_state example_plan (replicate 64 (CHR ''a'')))"
proof -
  let ?s = "prepared_state example_plan (replicate 64 (CHR ''a''))"
  have ok: "migration_state_ok archive_limits_default ?s"
    using example_plan_ok example_texts(1) by (simp add: migration_state_ok_def prepared_state_def digest_ok_def)
  have same: "at_migration_records example_imported = RBT.empty" "at_records_v2 example_imported = RBT.empty"
    "at_meta example_imported = at_meta example_store"
    by (simp_all add: example_imported_def example_store_def example_empty_def)
  have version: "active_store_version example_env no_failures example_imported = Inr INITIAL_STORE_VERSION"
    by (rule sound_version) (simp add: same example_store_def example_env_def rbt_ops_def)
  have quiet: "quiescent example_env example_imported"
    by (simp add: quiescent_def checkpoint_def same example_env_def rbt_ops_def)
  have "table_empty example_env (at_records_v2 example_imported)"
    by (simp add: same table_empty_def example_env_def rbt_ops_def)
  moreover have "tget example_env (at_migration_records example_imported) ACTIVE_MIGRATION = None"
    by (simp add: same example_env_def rbt_ops_def)
  ultimately show ?thesis
    using example_plan_ok ok
    by (simp add: begin_migration_def contract_def migration_plan_validate_ok [of _ _ "()", THEN iffD2]
        migration_state_validate_ok [of _ _ "()", THEN iffD2] sound_begin [OF example_imported_sound quiet] version Let_def
        example_writes example_prepared_def)
      (simp add: example_plan_def INITIAL_STORE_VERSION_def CURRENT_STORE_VERSION_def)
qed

lemma archive_permanent_witness:
  "identity_at example_env example_prepared example_text = Imported example_marker"
proof -
  have "archive_run example_env example_imported example_prepared"
    using archive_step.begin_copy [OF example_begin] by blast
  then show ?thesis
    using archive_permanent [OF example_lawful example_imported_sound, of _ example_text] example_import(2) by metis
qed


lemma example_membership:
  "archive_membership example_env no_failures example_claimed example_key = Inr (Claimed (example_lease ''job_a'' 1000 1))"
  using membership_answers [OF example_claimed_sound(1), of example_key] example_key_valid example_claimed_life
  by (simp add: life_at_def)

text \<open>The expired lease reclaimed, twice.\<close>

definition example_observation :: ArchiveReconciliationObservation where
  "example_observation = \<lparr> rc_key = example_key, rc_now_unix_millis = 5000, rc_output = OutputMissing,
     rc_row = RowMissing, rc_lease = Some (example_lease ''job_a'' 1000 1), rc_staged_output = None,
     rc_recovery_record = None \<rparr>"

lemma example_reclaim:
  "\<exists>us. archive_reconcile example_env no_failures example_claimed example_observation = Inr (us, ReclaimStaleLease)"
proof -
  have ob: "rc_key example_observation = example_key" "rc_now_unix_millis example_observation = 5000"
    "rc_row example_observation = RowMissing" "rc_lease example_observation = Some (example_lease ''job_a'' 1000 1)"
    by (simp_all add: example_observation_def)
  have "lease_ok archive_limits_default (example_lease ''job_a'' 1000 1)"
    using example_key_valid example_provenance_ok
    by (simp add: lease_ok_def example_lease_def claimed_lease_def example_request_def example_provenance_def
        archive_limits_default_def)
  then have ok: "observation_ok archive_limits_default example_observation"
    using example_key_valid
    by (simp add: observation_ok_def example_observation_def example_lease_fields)
  have at: "record_at example_env example_claimed example_text = None" "import_at example_env example_claimed example_text = None"
    "lease_at example_env example_claimed example_text = Some (example_lease ''job_a'' 1000 1)"
    using example_claimed_life sound_at [OF example_claimed_sound(1), of example_text]
    by (auto simp: life_at_def identity_at_def key_sound_def split: option.splits)
  have key: "canonical_key archive_limits_default example_key = Inr example_text"
    using example_key_valid by (simp add: canonical_key_ok)
  have decided: "reconciliation_decide archive_limits_default example_observation = Inr ReclaimStaleLease"
    using ok by (simp add: reconciliation_decide_ok) (simp add: example_observation_def is_stale_at_def example_lease_fields)
  show ?thesis
    using ok
    by (simp add: archive_reconcile_def contract_def observation_validate_ok [of _ _ "()", THEN iffD2] ob key
        example_writes(3) [OF ok] sound_begin [OF example_claimed_sound] sound_active [OF example_claimed_sound(1)]
        read_reconciliation_actual_def reconciliation_receipt_write_def sound_decodes [OF example_claimed_sound(1)] at
        example_claim(3) validate_reconciliation_actual_def decided apply_decision_def reclaim_stale_lease_def
        is_stale_at_def example_lease_fields persist_reconciliation_receipt_def)
qed

lemma reconciliation_replays_witness:
  "\<exists>us. archive_reconcile example_env no_failures us example_observation = Inr (us, ReclaimStaleLease)"
proof -
  obtain us where "archive_reconcile example_env no_failures example_claimed example_observation = Inr (us, ReclaimStaleLease)"
    using example_reclaim by blast
  from reconciliation_replays [OF example_lawful example_claimed_sound(1) this] show ?thesis by auto
qed

end
