(* ===== verification/Ffmpeg_Fields.thy ===== *)
theory Ffmpeg_Fields
  imports Path_References Schema_Version "HOL-Library.Sublist"
begin

text \<open>
  The field checks of the FFmpeg supervision contract (\<open>fforager-contracts/src/ffmpeg.rs\<close>):
  texts, components, digests and commits, absolute paths of tools and relative paths of a job, with
  the names a Windows host reserves.

  Text is the list of its UTF-8 bytes. The characters the path checks look for are ASCII, so a
  character of the code is a byte here, and the superscript digits are written as their two bytes.
\<close>

section \<open>Limits and errors\<close>

definition MAX_PATH_BYTES :: usize where "MAX_PATH_BYTES = 4096"
definition MAX_VERSION_BYTES :: usize where "MAX_VERSION_BYTES = 512"
definition MAX_FILE_IDENTITY_BYTES :: usize where "MAX_FILE_IDENTITY_BYTES = 512"
definition MAX_CAPABILITIES :: usize where "MAX_CAPABILITIES = 128"
definition MAX_CAPABILITY_BYTES :: usize where "MAX_CAPABILITY_BYTES = 128"
definition MAX_RESIDUALS :: usize where "MAX_RESIDUALS = 16"
definition MAX_RESIDUAL_BYTES :: usize where "MAX_RESIDUAL_BYTES = 1024"

datatype FfmpegContractError =
    SchemaIdMismatch
  | UnsupportedVersion SchemaVersion
  | EmptyField string
  | FieldTooLong string usize usize
  | InvalidField string
  | InvalidDigest string
  | CountLimitExceeded string usize usize
  | InvalidAbsolutePath string
  | InvalidJobPath string
  | CapabilityBindingMismatch
  | CapabilityInventoryNotCanonical
  | MissingCapability string
  | ToolchainKindMismatch
  | ToolchainHostMismatch
  | EnvironmentNotScrubbed
  | EnvironmentInventoryNotCanonical
  | InvalidProtocolAllowlist
  | InvalidInputMechanismAllowlist
  | InvalidIoPolicy
  | InvalidStreamMap
  | InvalidLimit string
  | InvalidResourceReference
  | InvalidResourceClaim
  | ArgumentLimitExceeded
  | CanonicalProjectionFailed
  | CorrelationMismatch string
  | InvalidLifecycle
  | InvalidDirectChildEvidence
  | InvalidContainmentEvidence
  | InvalidOutputFacts
  | SuccessBeforeReapAndValidation
  | ResidualUncertaintyRequired

datatype FfmpegHostOperatingSystemV1 = WindowsHost | LinuxHost

section \<open>Texts\<close>

definition validate_ffmpeg_count :: "string \<Rightarrow> usize \<Rightarrow> usize \<Rightarrow> FfmpegContractError + unit" where
  "validate_ffmpeg_count field actual maximum =
     (if actual > maximum then Inl (CountLimitExceeded field actual maximum) else Inr ())"

definition validate_nonzero_limit :: "string \<Rightarrow> u64 \<Rightarrow> u64 \<Rightarrow> FfmpegContractError + unit" where
  "validate_nonzero_limit field val maximum =
     (if val = 0 \<or> val > maximum then Inl (InvalidLimit field) else Inr ())"

definition validate_ffmpeg_text :: "string \<Rightarrow> string \<Rightarrow> usize \<Rightarrow> FfmpegContractError + unit" where
  "validate_ffmpeg_text field val maximum =
     (if val = [] then Inl (EmptyField field)
      else if length val > maximum then Inl (FieldTooLong field (length val) maximum)
      else if list_ex (\<lambda>c. byte c = 0 \<or> is_ascii_control (byte c)) val then Inl (InvalidField field)
      else Inr ())"

definition ffmpeg_component_char :: "char \<Rightarrow> bool" where
  "ffmpeg_component_char c = (is_ascii_lowercase (byte c) \<or> is_ascii_digit (byte c)
     \<or> c \<in> {CHR ''_'', CHR ''-'', CHR ''.'', CHR '':''})"

definition validate_ffmpeg_component ::
  "string \<Rightarrow> string \<Rightarrow> usize \<Rightarrow> FfmpegContractError + unit" where
  "validate_ffmpeg_component field val maximum =
     rbind (validate_ffmpeg_text field val maximum) (\<lambda>_.
     if list_ex (\<lambda>c. \<not> ffmpeg_component_char c) val then Inl (InvalidField field) else Inr ())"

definition validate_ffmpeg_digest :: "string \<Rightarrow> string \<Rightarrow> FfmpegContractError + unit" where
  "validate_ffmpeg_digest field val =
     (if length val \<noteq> 64 \<or> list_ex (\<lambda>c. \<not> hex_char c) val then Inl (InvalidDigest field) else Inr ())"

definition validate_commit :: "string \<Rightarrow> string \<Rightarrow> FfmpegContractError + unit" where
  "validate_commit field val =
     (if length val \<notin> {40, 64} \<or> list_ex (\<lambda>c. \<not> hex_char c) val then Inl (InvalidDigest field)
      else Inr ())"

text \<open>\<open>windows(2).all\<close> of the strict order, and a loop of checks that stops at the first error.\<close>

definition strictly_sorted_unique :: "'a::linorder list \<Rightarrow> bool" where
  "strictly_sorted_unique vs = successively (<) vs"

primrec check_each :: "('a \<Rightarrow> 'e + unit) \<Rightarrow> 'a list \<Rightarrow> 'e + unit" where
  "check_each check [] = Inr ()"
| "check_each check (x # xs) = rbind (check x) (\<lambda>_. check_each check xs)"

definition validate_residuals :: "string list \<Rightarrow> FfmpegContractError + unit" where
  "validate_residuals residuals =
     (if residuals = [] then Inl ResidualUncertaintyRequired
      else rbind (validate_ffmpeg_count ''residual_uncertainty'' (length residuals) MAX_RESIDUALS) (\<lambda>_.
        if \<not> strictly_sorted_unique residuals then Inl (InvalidField ''residual_uncertainty'')
        else check_each (\<lambda>r. validate_ffmpeg_text ''residual_uncertainty'' r MAX_RESIDUAL_BYTES) residuals))"

definition validate_capabilities :: "string list \<Rightarrow> FfmpegContractError + unit" where
  "validate_capabilities capabilities =
     rbind (validate_ffmpeg_count ''capabilities'' (length capabilities) MAX_CAPABILITIES) (\<lambda>_.
     if capabilities = [] \<or> \<not> strictly_sorted_unique capabilities
     then Inl CapabilityInventoryNotCanonical
     else check_each (\<lambda>c. validate_ffmpeg_component ''capability'' c MAX_CAPABILITY_BYTES) capabilities)"

section \<open>Binary search\<close>

text \<open>\<open>slice::binary_search\<close>: whether the element is found.\<close>

function search_range :: "'a::linorder list \<Rightarrow> 'a \<Rightarrow> nat \<Rightarrow> nat \<Rightarrow> bool" where
  "search_range xs x low high =
     (if low < high
      then (let mid = (low + high) div 2
            in if xs ! mid < x then search_range xs x (Suc mid) high
               else if x < xs ! mid then search_range xs x low mid else True)
      else False)"
  by pat_completeness auto

termination search_range
  by (relation "measure (\<lambda>(xs, x, low, high). high - low)") auto

declare search_range.simps [simp del]

definition binary_search :: "'a::linorder list \<Rightarrow> 'a \<Rightarrow> bool" where
  "binary_search xs x = search_range xs x 0 (length xs)"

section \<open>Paths\<close>

definition backslashes :: "string \<Rightarrow> string" where
  "backslashes val = map (\<lambda>c. if c = CHR ''/'' then CHR 92 else c) val"

definition is_ascii_alphabetic :: "char \<Rightarrow> bool" where
  "is_ascii_alphabetic c = (is_ascii_lowercase (byte c) \<or> 0x41 \<le> byte c \<and> byte c \<le> 0x5A)"

definition ascii_upper :: "char \<Rightarrow> char" where
  "ascii_upper c = (if is_ascii_lowercase (byte c) then char_of (of_char c - 32 :: nat) else c)"

definition eq_ignore_ascii_case :: "string \<Rightarrow> string \<Rightarrow> bool" where
  "eq_ignore_ascii_case a b = (map ascii_upper a = map ascii_upper b)"

definition separator :: "char \<Rightarrow> bool" where
  "separator c = (c \<in> {CHR ''/'', CHR 92})"

definition contains_dot_segment :: "string \<Rightarrow> bool" where
  "contains_dot_segment val = list_ex (\<lambda>s. s \<in> {''.'', ''..''}) (split_on separator val)"

definition windows_component_is_reserved :: "string \<Rightarrow> bool" where
  "windows_component_is_reserved component =
     (if component \<noteq> [] \<and> last component \<in> {CHR ''.'', CHR '' ''} then True
      else let stem = map ascii_upper (hd (split_on (\<lambda>c. c = CHR ''.'') component))
           in stem \<in> {''CON'', ''PRN'', ''AUX'', ''NUL'', ''CLOCK$'', ''CONIN$'', ''CONOUT$''}
              \<or> (case (case strip_prefix ''COM'' stem of
                        Some number \<Rightarrow> Some number | None \<Rightarrow> strip_prefix ''LPT'' stem) of
                   Some number \<Rightarrow> number \<in> {''1'', ''2'', ''3'', ''4'', ''5'', ''6'', ''7'', ''8'', ''9'',
                     [CHR 0xC2, CHR 0xB9], [CHR 0xC2, CHR 0xB2], [CHR 0xC2, CHR 0xB3]}
                 | None \<Rightarrow> False))"

definition drive_component :: "string \<Rightarrow> bool" where
  "drive_component component =
     (length component = 2 \<and> is_ascii_alphabetic (component ! 0) \<and> component ! 1 = CHR '':'')"

fun unsafe_component :: "bool \<Rightarrow> bool \<Rightarrow> string list \<Rightarrow> bool" where
  "unsafe_component drive_absolute first_component [] = False"
| "unsafe_component drive_absolute first_component (component # rest) =
     (if \<not> (drive_absolute \<and> first_component \<and> drive_component component)
         \<and> (list_ex (\<lambda>c. c \<in> {CHR '':'', CHR ''<'', CHR ''>'', CHR 34, CHR ''|'', CHR ''?'', CHR ''*''})
              component
            \<or> windows_component_is_reserved component)
      then True
      else unsafe_component drive_absolute False rest)"

definition windows_path_has_unsafe_component :: "string \<Rightarrow> bool \<Rightarrow> bool" where
  "windows_path_has_unsafe_component val allow_drive_prefix =
     (let normalized = backslashes val
      in if starts_with normalized [CHR 92, CHR 92, CHR ''?'', CHR 92]
            \<or> starts_with normalized [CHR 92, CHR 92, CHR ''.'', CHR 92]
            \<or> starts_with normalized [CHR 92, CHR ''?'', CHR ''?'', CHR 92]
         then True
         else if (case strip_prefix [CHR 92, CHR 92] normalized of
                    Some unc_path \<Rightarrow>
                      (let unc_components = split_on (\<lambda>c. c = CHR 92) unc_path
                       in length unc_components < 2 \<or> list_ex (\<lambda>c. c = []) unc_components)
                  | None \<Rightarrow> False)
         then True
         else unsafe_component
                (allow_drive_prefix \<and> length normalized \<ge> 3 \<and> is_ascii_alphabetic (normalized ! 0)
                   \<and> normalized ! 1 = CHR '':'' \<and> normalized ! 2 = CHR 92)
                True (filter (\<lambda>c. c \<noteq> []) (split_on (\<lambda>c. c = CHR 92) normalized)))"

definition paths_alias :: "string \<Rightarrow> string \<Rightarrow> FfmpegHostOperatingSystemV1 \<Rightarrow> bool" where
  "paths_alias left right host =
     (case host of
        WindowsHost \<Rightarrow> eq_ignore_ascii_case (backslashes left) (backslashes right)
      | LinuxHost \<Rightarrow> left = right)"

definition absolute_path :: "string \<Rightarrow> FfmpegHostOperatingSystemV1 \<Rightarrow> bool" where
  "absolute_path val operating_system =
     (case operating_system of
        LinuxHost \<Rightarrow> starts_with val ''/''
      | WindowsHost \<Rightarrow>
          length val \<ge> 3 \<and> is_ascii_alphabetic (val ! 0) \<and> val ! 1 = CHR '':'' \<and> separator (val ! 2)
          \<or> starts_with val [CHR 92, CHR 92])"

definition validate_absolute_path ::
  "string \<Rightarrow> string \<Rightarrow> FfmpegHostOperatingSystemV1 \<Rightarrow> FfmpegContractError + unit" where
  "validate_absolute_path field val operating_system =
     rbind (validate_ffmpeg_text field val MAX_PATH_BYTES) (\<lambda>_.
     if \<not> absolute_path val operating_system \<or> contains_dot_segment val \<or> separator (last val)
        \<or> operating_system = WindowsHost \<and> windows_path_has_unsafe_component val True
     then Inl (InvalidAbsolutePath field) else Inr ())"

definition validate_job_path ::
  "string \<Rightarrow> string \<Rightarrow> FfmpegHostOperatingSystemV1 \<Rightarrow> FfmpegContractError + unit" where
  "validate_job_path field val host =
     rbind (validate_ffmpeg_text field val MAX_PATH_BYTES) (\<lambda>_.
     let drive_absolute = length val \<ge> 2 \<and> is_ascii_alphabetic (val ! 0) \<and> val ! 1 = CHR '':''
     in if starts_with val ''/'' \<or> starts_with val [CHR 92] \<or> starts_with val ''-'' \<or> drive_absolute
           \<or> CHR '':'' \<in> set val \<or> contains_dot_segment val \<or> separator (last val)
           \<or> sublist ''//'' val \<or> sublist [CHR 92, CHR 92] val
        then Inl (InvalidJobPath field)
        else if host = WindowsHost \<and> windows_path_has_unsafe_component val False
        then Inl (InvalidJobPath field)
        else Inr ())"

section \<open>What the checks accept\<close>

definition ffmpeg_text_ok :: "string \<Rightarrow> usize \<Rightarrow> bool" where
  "ffmpeg_text_ok val maximum = (val \<noteq> [] \<and> length val \<le> maximum \<and> \<not> has_control val)"

definition ffmpeg_component_ok :: "string \<Rightarrow> usize \<Rightarrow> bool" where
  "ffmpeg_component_ok val maximum =
     (val \<noteq> [] \<and> length val \<le> maximum \<and> list_all ffmpeg_component_char val)"

definition ffmpeg_digest_ok :: "string \<Rightarrow> bool" where
  "ffmpeg_digest_ok val = (length val = 64 \<and> list_all hex_char val)"

lemma control_byte: "list_ex (\<lambda>c. byte c = 0 \<or> is_ascii_control (byte c)) val = has_control val"
proof -
  have "(\<lambda>c. byte c = 0 \<or> is_ascii_control (byte c)) = (\<lambda>c. is_ascii_control (byte c))"
    by (auto simp: fun_eq_iff is_ascii_control_def)
  then show ?thesis by (simp add: has_control_def)
qed

lemma validate_ffmpeg_count_ok [result_simps]:
  "validate_ffmpeg_count field actual maximum = Inr u \<longleftrightarrow> actual \<le> maximum"
  by (simp add: validate_ffmpeg_count_def)

lemma validate_nonzero_limit_ok [result_simps]:
  "validate_nonzero_limit field val maximum = Inr u \<longleftrightarrow> val \<noteq> 0 \<and> val \<le> maximum"
  by (auto simp: validate_nonzero_limit_def not_less)

lemma validate_ffmpeg_text_ok [result_simps]:
  "validate_ffmpeg_text field val maximum = Inr u \<longleftrightarrow> ffmpeg_text_ok val maximum"
  by (auto simp: validate_ffmpeg_text_def ffmpeg_text_ok_def control_byte)

lemma component_char_visible: "ffmpeg_component_char c \<Longrightarrow> \<not> is_ascii_control (byte c)"
  by (auto simp: ffmpeg_component_char_def is_ascii_control_def is_ascii_lowercase_def
      is_ascii_digit_def byte_def word_le_nat_alt)

lemma validate_ffmpeg_component_ok [result_simps]:
  "validate_ffmpeg_component field val maximum = Inr u \<longleftrightarrow> ffmpeg_component_ok val maximum"
  by (auto simp: validate_ffmpeg_component_def ffmpeg_text_ok_def ffmpeg_component_ok_def result_simps
      has_control_def list_all_iff list_ex_iff component_char_visible)

lemma validate_ffmpeg_digest_ok [result_simps]:
  "validate_ffmpeg_digest field val = Inr u \<longleftrightarrow> ffmpeg_digest_ok val"
  by (auto simp: validate_ffmpeg_digest_def ffmpeg_digest_ok_def list_ex_iff list_all_iff)

lemma validate_commit_ok [result_simps]:
  "validate_commit field val = Inr u \<longleftrightarrow> length val \<in> {40, 64} \<and> list_all hex_char val"
  by (auto simp: validate_commit_def list_ex_iff list_all_iff)

lemma check_each_ok [result_simps]:
  "check_each check xs = Inr u \<longleftrightarrow> (\<forall>x \<in> set xs. check x = Inr ())"
  by (induction xs) (auto simp: result_simps)

lemma strictly_sorted_unique_iff: "strictly_sorted_unique vs \<longleftrightarrow> sorted vs \<and> distinct vs"
  by (simp add: strictly_sorted_unique_def successively_iff_sorted_wrt_strong strict_sorted_iff)

section \<open>Binary search finds what is there\<close>

lemma search_range_iff:
  "sorted xs \<Longrightarrow> high \<le> length xs
     \<Longrightarrow> search_range xs x low high \<longleftrightarrow> (\<exists>i. low \<le> i \<and> i < high \<and> xs ! i = x)"
proof (induction xs x low high rule: search_range.induct)
  case (1 xs x low high)
  note sorted = "1.prems"(1) and len = "1.prems"(2)
  define mid where "mid = (low + high) div 2"
  show ?case
  proof (cases "low < high")
    case False
    then show ?thesis by (simp add: search_range.simps)
  next
    case True
    then have mid: "low \<le> mid" "mid < high" by (auto simp: mid_def)
    note ih = "1.IH" [OF True refl, folded mid_def]
    have below: "xs ! i \<le> xs ! mid" if "i \<le> mid" for i
      using 1 mid that by (intro sorted_nth_mono) auto
    have above: "xs ! mid \<le> xs ! i" if "mid \<le> i" "i < high" for i
      using 1 that by (intro sorted_nth_mono) auto
    consider "xs ! mid < x" | "x < xs ! mid" | "xs ! mid = x" by fastforce
    then show ?thesis
    proof cases
      case 1
      then have "search_range xs x low high = search_range xs x (Suc mid) high"
        using True by (subst search_range.simps) (simp add: Let_def mid_def)
      moreover have "i \<ge> Suc mid" if "xs ! i = x" for i
        using below [of i] 1 that by (meson leD not_less_eq_eq)
      ultimately show ?thesis
        using ih(1) [OF 1] sorted len mid by (metis Suc_leD order_trans)
    next
      case 2
      then have "search_range xs x low high = search_range xs x low mid"
        using True by (subst search_range.simps) (auto simp: Let_def mid_def)
      moreover have "i < mid" if "xs ! i = x" "i < high" for i
        using above [of i] 2 that by (meson leD not_le)
      ultimately show ?thesis
        using ih(2) [OF _ 2] 2 sorted len mid by (auto simp: not_less)
    next
      case 3
      then have "search_range xs x low high"
        using True by (subst search_range.simps) (auto simp: Let_def mid_def)
      with 3 mid show ?thesis by blast
    qed
  qed
qed

lemma binary_search_iff: "sorted xs \<Longrightarrow> binary_search xs x \<longleftrightarrow> x \<in> set xs"
  by (auto simp: binary_search_def search_range_iff in_set_conv_nth)

section \<open>Where an accepted job path leads\<close>

lemma split_on_or: "split_on (\<lambda>c. P c \<or> Q c) xs = concat (map (split_on Q) (split_on P xs))"
proof (induction xs)
  case (Cons x xs)
  obtain piece rest where "split_on P xs = piece # rest" by (cases "split_on P xs") auto
  with Cons show ?case by (cases "split_on Q piece") auto
qed simp

lemma split_on_map:
  "\<forall>x. Q (f x) = P x \<Longrightarrow> \<forall>x. \<not> P x \<longrightarrow> f x = x \<Longrightarrow> split_on Q (map f xs) = split_on P xs"
  by (induction xs) (auto split: list.splits)

lemma path_segments_separator: "path_segments val = split_on separator val"
  unfolding path_segments_def normalize_separators_def
  by (rule split_on_map) (auto simp: separator_def)

lemma backslash_segments: "split_on (\<lambda>c. c = CHR 92) (backslashes val) = split_on separator val"
  unfolding backslashes_def by (rule split_on_map) (auto simp: separator_def)

lemma walk_no_dots:
  "\<forall>s \<in> set segments. s \<notin> {''.'', ''..''}
     \<Longrightarrow> walk here segments = Some (rev (filter (\<lambda>s. s \<noteq> []) segments) @ here)"
  by (induction segments arbitrary: here) auto

text \<open>The segments a host reads in a relative path: a backslash separates only on Windows.\<close>

definition job_segments :: "FfmpegHostOperatingSystemV1 \<Rightarrow> string \<Rightarrow> string list" where
  "job_segments host val =
     (case host of
        WindowsHost \<Rightarrow> path_segments val
      | LinuxHost \<Rightarrow> split_on (\<lambda>c. c = CHR ''/'') val)"

lemma linux_segment_separator:
  "s \<in> set (split_on (\<lambda>c. c = CHR ''/'') val) \<Longrightarrow> CHR 92 \<notin> set s \<Longrightarrow> s \<in> set (split_on separator val)"
proof -
  assume s: "s \<in> set (split_on (\<lambda>c. c = CHR ''/'') val)" "CHR 92 \<notin> set s"
  have "split_on (\<lambda>c. c = CHR 92) s = [s]" using s(2) by (intro split_on_none) auto
  moreover have "separator = (\<lambda>c. c = CHR ''/'' \<or> c = CHR 92)" by (auto simp: separator_def)
  ultimately show ?thesis
    using s(1) split_on_or [of "\<lambda>c. c = CHR ''/''" "\<lambda>c. c = CHR 92" val] by force
qed

lemma job_segments_no_dots:
  assumes "validate_job_path field val host = Inr u" "s \<in> set (job_segments host val)"
  shows "s \<notin> {''.'', ''..''}"
proof -
  have "\<not> contains_dot_segment val"
    using assms(1) by (simp add: validate_job_path_def result_simps Let_def)
  then have plain: "\<forall>s \<in> set (split_on separator val). s \<notin> {''.'', ''..''}"
    by (simp only: contains_dot_segment_def list_ex_iff) blast
  have "s \<in> set (split_on separator val) \<or> CHR 92 \<in> set s"
    using assms(2) linux_segment_separator [of s val]
    by (cases host) (simp_all add: job_segments_def path_segments_separator, blast)
  with plain show ?thesis by fastforce
qed

lemma job_segments_first:
  "validate_job_path field val host = Inr u \<Longrightarrow> hd (job_segments host val) \<noteq> []"
  by (cases val)
     (auto simp: validate_job_path_def result_simps Let_def job_segments_def ffmpeg_text_ok_def
        path_segments_separator separator_def starts_with_def
      split: FfmpegHostOperatingSystemV1.splits list.splits)

lemma unsafe_component_no_drive:
  "unsafe_component False b cs \<longleftrightarrow>
     (\<exists>c \<in> set cs. list_ex (\<lambda>c. c \<in> {CHR '':'', CHR ''<'', CHR ''>'', CHR 34, CHR ''|'', CHR ''?'', CHR ''*''}) c
        \<or> windows_component_is_reserved c)"
  by (induction cs arbitrary: b) auto

lemma job_path_inside:
  assumes "validate_job_path field val host = Inr u"
  shows "\<exists>name below. walk here (job_segments host val) = Some (name # below @ here)"
    and "hd val \<noteq> CHR ''-''" and "CHR '':'' \<notin> set val"
    and "host = WindowsHost \<Longrightarrow> s \<in> set (job_segments host val) \<Longrightarrow> s \<noteq> []
      \<Longrightarrow> \<not> windows_component_is_reserved s"
proof -
  have "job_segments host val \<noteq> []"
    by (auto simp: job_segments_def path_segments_def split: FfmpegHostOperatingSystemV1.splits)
  then have "filter (\<lambda>s. s \<noteq> []) (job_segments host val) \<noteq> []"
    using job_segments_first [OF assms] by (cases "job_segments host val") auto
  then show "\<exists>name below. walk here (job_segments host val) = Some (name # below @ here)"
    using walk_no_dots [of "job_segments host val" here] job_segments_no_dots [OF assms]
    by (cases "filter (\<lambda>s. s \<noteq> []) (job_segments host val)" rule: rev_cases) auto
  show "hd val \<noteq> CHR ''-''" "CHR '':'' \<notin> set val"
    using assms by (cases val; force simp: validate_job_path_def result_simps Let_def ffmpeg_text_ok_def
      starts_with_def)+
  show "\<not> windows_component_is_reserved s"
    if "host = WindowsHost" "s \<in> set (job_segments host val)" "s \<noteq> []"
    using assms that
    by (auto simp: validate_job_path_def result_simps Let_def windows_path_has_unsafe_component_def
        unsafe_component_no_drive backslash_segments job_segments_def path_segments_separator
        split: if_splits)
qed

text \<open>
  Two spellings of one Windows path that are both accepted and that the alias check takes for
  different paths: a slash followed by a backslash is one separator to the host.
\<close>

lemma doubled_separator_alias_missed:
  "validate_job_path field ''a/b'' WindowsHost = Inr ()"
  "validate_job_path field [CHR ''a'', CHR ''/'', CHR 92, CHR ''b''] WindowsHost = Inr ()"
  "\<not> paths_alias ''a/b'' [CHR ''a'', CHR ''/'', CHR 92, CHR ''b''] WindowsHost"
  "walk here (job_segments WindowsHost ''a/b'')
     = walk here (job_segments WindowsHost [CHR ''a'', CHR ''/'', CHR 92, CHR ''b''])"
  by code_simp+

end
