(* ===== verification/Ffmpeg_Request.thy ===== *)
theory Ffmpeg_Request
  imports Resource_Contract Decimal_Text Ffmpeg_Fields
begin

text \<open>
  The request of the FFmpeg supervision contract (\<open>fforager-contracts/src/ffmpeg.rs\<close>): tool
  identities, the stream-copy plan, limits, the resource claim, the validation of the whole request
  and the invocation an adapter may execute.

  The compact JSON of a value and SHA-256 belong to \<open>serde_json\<close> and \<open>sha2\<close>: they are the
  fields of \<open>CanonicalCodec\<close>, an argument of the functions that use them.
\<close>

section \<open>Limits of the contract\<close>

definition FFMPEG_SUPERVISION_SCHEMA_ID :: string where
  "FFMPEG_SUPERVISION_SCHEMA_ID = ''ff.ffmpeg-supervision@1''"
definition FFMPEG_SUPERVISION_VERSION :: SchemaVersion where
  "FFMPEG_SUPERVISION_VERSION = \<lparr> sv_major = 1, sv_minor = 0 \<rparr>"
definition FFMPEG_REQUEST_PROJECTION_ID :: string where
  "FFMPEG_REQUEST_PROJECTION_ID = ''ff.ffmpeg-request-canonical-json@1''"
definition FFMPEG_OPERATION_PROJECTION_ID :: string where
  "FFMPEG_OPERATION_PROJECTION_ID = ''ff.ffmpeg-operation-canonical-json@1''"
definition FFMPEG_BOUND_RUNTIME_INVOCATION_PROJECTION_ID :: string where
  "FFMPEG_BOUND_RUNTIME_INVOCATION_PROJECTION_ID =
     ''ff.ffmpeg-bound-runtime-invocation-canonical-json@1''"

definition MAX_INPUTS :: usize where "MAX_INPUTS = 32"
definition MAX_STREAM_MAPS :: usize where "MAX_STREAM_MAPS = 128"
definition MAX_ENVIRONMENT_BINDINGS :: usize where "MAX_ENVIRONMENT_BINDINGS = 4"
definition MAX_ARGUMENTS :: usize where "MAX_ARGUMENTS = 512"
definition MAX_ARGUMENT_BYTES :: usize where "MAX_ARGUMENT_BYTES = 4096"
definition MAX_ARGUMENT_VECTOR_BYTES :: usize where "MAX_ARGUMENT_VECTOR_BYTES = 64 * 1024"
definition MAX_INPUTS_U16 :: u16 where "MAX_INPUTS_U16 = 32"
definition FFMPEG_LINUX_FD_INPUT_BASE_V1 :: u16 where "FFMPEG_LINUX_FD_INPUT_BASE_V1 = 64"
definition FFMPEG_LINUX_FD_OUTPUT_V1 :: u16 where
  "FFMPEG_LINUX_FD_OUTPUT_V1 = FFMPEG_LINUX_FD_INPUT_BASE_V1 + MAX_INPUTS_U16"
definition MAX_TIMEOUT_MILLIS :: u64 where "MAX_TIMEOUT_MILLIS = 60 * 60 * 1000"
definition MAX_PROGRESS_RECORDS :: u64 where "MAX_PROGRESS_RECORDS = 1000000"
definition MAX_PROGRESS_TOTAL_BYTES :: u64 where "MAX_PROGRESS_TOTAL_BYTES = 64 * 1024 * 1024"
definition MAX_PROGRESS_RECORD_BYTES :: u64 where "MAX_PROGRESS_RECORD_BYTES = 64 * 1024"
definition MAX_PROGRESS_FIELD_BYTES :: u64 where "MAX_PROGRESS_FIELD_BYTES = 4 * 1024"
definition MAX_PARSER_STEPS :: u64 where "MAX_PARSER_STEPS = 4000000"
definition MAX_STDERR_TOTAL_BYTES :: u64 where "MAX_STDERR_TOTAL_BYTES = 256 * 1024 * 1024"
definition MAX_STDERR_TAIL_BYTES :: u64 where "MAX_STDERR_TAIL_BYTES = 256 * 1024"
definition MAX_PIPE_ALLOCATION_BYTES :: u64 where "MAX_PIPE_ALLOCATION_BYTES = 8 * 1024 * 1024"
definition MAX_OUTPUT_STREAMS :: u32 where "MAX_OUTPUT_STREAMS = 1024"
definition MAX_OUTPUT_DURATION_MILLIS :: u64 where
  "MAX_OUTPUT_DURATION_MILLIS = 31 * 24 * 60 * 60 * 1000"
definition MAX_OUTPUT_FILE_SIZE_BYTES :: u64 where
  "MAX_OUTPUT_FILE_SIZE_BYTES = 1024 * 1024 * 1024 * 1024"
definition MAX_OUTPUT_DIMENSION :: u32 where "MAX_OUTPUT_DIMENSION = 32768"
definition MAX_OUTPUT_CHANNELS :: u32 where "MAX_OUTPUT_CHANNELS = 256"

section \<open>Tool identities\<close>

datatype FfmpegExecutableKindV1 = FfmpegTool | FfprobeTool
datatype FfmpegHostArchitectureV1 = X86_64 | Aarch64

record FfmpegHostIdentityV1 =
  hi_operating_system :: FfmpegHostOperatingSystemV1
  hi_architecture :: FfmpegHostArchitectureV1

record FfmpegCapabilityBindingV1 =
  cb_executable_content_sha256 :: string
  cb_normalized_probe_sha256 :: string
  cb_capabilities :: "string list"

record FfmpegExecutableIdentityV1 =
  xi_kind :: FfmpegExecutableKindV1
  xi_absolute_path :: string
  xi_file_identity :: string
  xi_content_sha256 :: string
  xi_version_output_sha256 :: string
  xi_normalized_version :: string
  xi_host :: FfmpegHostIdentityV1
  xi_capability_binding :: FfmpegCapabilityBindingV1

record FfmpegToolchainIdentityV1 =
  tc_ffmpeg :: FfmpegExecutableIdentityV1
  tc_ffprobe :: FfmpegExecutableIdentityV1

definition executable_validate :: "FfmpegExecutableIdentityV1 \<Rightarrow> FfmpegContractError + unit" where
  "executable_validate x =
     rbind (validate_absolute_path ''executable.absolute_path'' (xi_absolute_path x)
        (hi_operating_system (xi_host x))) (\<lambda>_.
     rbind (validate_ffmpeg_text ''executable.file_identity'' (xi_file_identity x) MAX_FILE_IDENTITY_BYTES) (\<lambda>_.
     rbind (validate_ffmpeg_digest ''executable.content_sha256'' (xi_content_sha256 x)) (\<lambda>_.
     rbind (validate_ffmpeg_digest ''executable.version_output_sha256'' (xi_version_output_sha256 x)) (\<lambda>_.
     rbind (validate_ffmpeg_text ''executable.normalized_version'' (xi_normalized_version x) MAX_VERSION_BYTES) (\<lambda>_.
     rbind (validate_ffmpeg_digest ''capability.normalized_probe_sha256''
        (cb_normalized_probe_sha256 (xi_capability_binding x))) (\<lambda>_.
     rbind (validate_ffmpeg_digest ''capability.executable_content_sha256''
        (cb_executable_content_sha256 (xi_capability_binding x))) (\<lambda>_.
     if cb_executable_content_sha256 (xi_capability_binding x) \<noteq> xi_content_sha256 x
     then Inl CapabilityBindingMismatch
     else validate_capabilities (cb_capabilities (xi_capability_binding x)))))))))"

definition require_capability ::
  "FfmpegExecutableIdentityV1 \<Rightarrow> string \<Rightarrow> FfmpegContractError + unit" where
  "require_capability x capability =
     (if \<not> binary_search (cb_capabilities (xi_capability_binding x)) capability
      then Inl (MissingCapability capability) else Inr ())"

section \<open>The operation\<close>

datatype FfmpegProtocolV1 = FileProtocol
datatype FfmpegInputMechanismV1 = AuditedElementaryFile
datatype FfmpegInputDemuxerV1 = AacAdts | H264AnnexB

fun demuxer_argument_name :: "FfmpegInputDemuxerV1 \<Rightarrow> string" where
  "demuxer_argument_name AacAdts = ''aac''"
| "demuxer_argument_name H264AnnexB = ''h264''"

record FfmpegInputFileV1 =
  if_path :: string
  if_demuxer :: FfmpegInputDemuxerV1

datatype FfmpegStreamKindV1 = Video | Audio | Subtitle | DataStream | Attachment

fun argument_code :: "FfmpegStreamKindV1 \<Rightarrow> string" where
  "argument_code Video = ''v''"
| "argument_code Audio = ''a''"
| "argument_code Subtitle = ''s''"
| "argument_code DataStream = ''d''"
| "argument_code Attachment = ''t''"

text \<open>The derived order of the stream kinds is the order of the variants.\<close>

fun stream_kind_rank :: "FfmpegStreamKindV1 \<Rightarrow> nat" where
  "stream_kind_rank Video = 0"
| "stream_kind_rank Audio = 1"
| "stream_kind_rank Subtitle = 2"
| "stream_kind_rank DataStream = 3"
| "stream_kind_rank Attachment = 4"

record FfmpegStreamMapV1 =
  sm_input_index :: u16
  sm_stream_kind :: FfmpegStreamKindV1
  sm_stream_index :: u16
  sm_source_payload_sha256 :: string

definition map_argument :: "FfmpegStreamMapV1 \<Rightarrow> string" where
  "map_argument m = decimal (unat (sm_input_index m)) @ '':'' @ argument_code (sm_stream_kind m)
     @ '':'' @ decimal (unat (sm_stream_index m))"

record FfmpegStreamCopyPlanV1 =
  cp_inputs :: "FfmpegInputFileV1 list"
  cp_stream_maps :: "FfmpegStreamMapV1 list"
  cp_output_path :: string
  cp_output_muxer :: string

datatype FfmpegOperationPlanV1 = StreamCopy FfmpegStreamCopyPlanV1

text \<open>The comparison of two tuples (input index, stream kind, stream index).\<close>

definition map_before :: "FfmpegStreamMapV1 \<Rightarrow> FfmpegStreamMapV1 \<Rightarrow> bool" where
  "map_before a b =
     (sm_input_index a < sm_input_index b
      \<or> sm_input_index a = sm_input_index b
        \<and> (stream_kind_rank (sm_stream_kind a) < stream_kind_rank (sm_stream_kind b)
           \<or> sm_stream_kind a = sm_stream_kind b \<and> sm_stream_index a < sm_stream_index b))"

fun inputs_distinct :: "FfmpegHostOperatingSystemV1 \<Rightarrow> FfmpegInputFileV1 list \<Rightarrow> FfmpegContractError + unit" where
  "inputs_distinct host [] = Inr ()"
| "inputs_distinct host (input # rest) =
     (if list_ex (\<lambda>candidate. paths_alias (if_path input) (if_path candidate) host) rest
      then Inl (InvalidField ''operation.inputs'')
      else inputs_distinct host rest)"

definition plan_validate ::
  "FfmpegStreamCopyPlanV1 \<Rightarrow> FfmpegHostOperatingSystemV1 \<Rightarrow> FfmpegContractError + unit" where
  "plan_validate p host =
     rbind (validate_ffmpeg_count ''operation.inputs'' (length (cp_inputs p)) MAX_INPUTS) (\<lambda>_.
     rbind (validate_ffmpeg_count ''operation.stream_maps'' (length (cp_stream_maps p)) MAX_STREAM_MAPS) (\<lambda>_.
     if cp_inputs p = [] \<or> cp_stream_maps p = [] then Inl InvalidStreamMap
     else
     rbind (check_each (\<lambda>i. validate_job_path ''operation.input_path'' (if_path i) host) (cp_inputs p)) (\<lambda>_.
     rbind (inputs_distinct host (cp_inputs p)) (\<lambda>_.
     rbind (validate_job_path ''operation.output_path'' (cp_output_path p) host) (\<lambda>_.
     if list_ex (\<lambda>i. paths_alias (if_path i) (cp_output_path p) host) (cp_inputs p)
     then Inl (InvalidJobPath ''operation.output_path'')
     else
     rbind (validate_ffmpeg_component ''operation.output_muxer'' (cp_output_muxer p) MAX_CAPABILITY_BYTES) (\<lambda>_.
     if \<not> successively map_before (cp_stream_maps p) then Inl InvalidStreamMap
     else if list_ex (\<lambda>m. unat (sm_input_index m) \<ge> length (cp_inputs p)) (cp_stream_maps p)
     then Inl InvalidStreamMap
     else check_each (\<lambda>m. validate_ffmpeg_digest ''operation.stream_map.source_payload_sha256''
            (sm_source_payload_sha256 m)) (cp_stream_maps p)))))))"

definition input_arguments :: "FfmpegInputFileV1 \<Rightarrow> string list" where
  "input_arguments i = [''-protocol_whitelist'', ''file'', ''-f'', demuxer_argument_name (if_demuxer i),
     ''-i'', if_path i]"

definition map_arguments :: "FfmpegStreamMapV1 \<Rightarrow> string list" where
  "map_arguments m = [''-map'', map_argument m]"

definition plan_direct_arguments :: "FfmpegStreamCopyPlanV1 \<Rightarrow> string list" where
  "plan_direct_arguments p =
     [''-hide_banner'', ''-nostdin'', ''-n'', ''-protocol_whitelist'', ''file,pipe'', ''-progress'', ''pipe:1'']
     @ concat (map input_arguments (cp_inputs p))
     @ concat (map map_arguments (cp_stream_maps p))
     @ [''-protocol_whitelist'', ''file'', ''-c'', ''copy'', ''-f'', cp_output_muxer p, cp_output_path p]"

text \<open>
  The descriptor of an input is its base plus the index. \<open>u16::try_from(...).expect\<close> panics on an
  index that does not fit, and the addition on overflow: both are the value \<open>None\<close>.
\<close>

definition linux_input_descriptor :: "nat \<Rightarrow> u16 option" where
  "linux_input_descriptor input_index =
     (if input_index < 2 ^ 16 then checked_add FFMPEG_LINUX_FD_INPUT_BASE_V1 (of_nat input_index) else None)"

fun linux_input_arguments :: "nat \<Rightarrow> FfmpegInputFileV1 list \<Rightarrow> string list option" where
  "linux_input_arguments input_index [] = Some []"
| "linux_input_arguments input_index (i # rest) =
     (case linux_input_descriptor input_index of
        None \<Rightarrow> None
      | Some descriptor \<Rightarrow>
          map_option (\<lambda>others. [''-protocol_whitelist'', ''fd'', ''-f'', demuxer_argument_name (if_demuxer i),
              ''-fd'', decimal (unat descriptor), ''-i'', ''fd:''] @ others)
            (linux_input_arguments (Suc input_index) rest))"

definition linux_fd_arguments :: "FfmpegStreamCopyPlanV1 \<Rightarrow> string list option" where
  "linux_fd_arguments p =
     map_option (\<lambda>inputs.
       [''-hide_banner'', ''-nostdin'', ''-y'', ''-protocol_whitelist'', ''fd,pipe'', ''-progress'', ''pipe:1'']
       @ inputs
       @ concat (map map_arguments (cp_stream_maps p))
       @ [''-protocol_whitelist'', ''fd'', ''-c'', ''copy'', ''-f'', cp_output_muxer p, ''-fd'',
          decimal (unat FFMPEG_LINUX_FD_OUTPUT_V1), ''fd:''])
     (linux_input_arguments 0 (cp_inputs p))"

section \<open>Environment, pipes and limits\<close>

datatype FfmpegEnvironmentBindingV1 = HostSystemRoot | JobTemporaryDirectory | LocaleC

record FfmpegEnvironmentPolicyV1 =
  ev_inherit_parent :: bool
  ev_trusted_bindings :: "FfmpegEnvironmentBindingV1 list"

datatype FfmpegProgressChannelV1 = StdoutPipeOne
datatype FfmpegDiagnosticChannelV1 = StderrTail

record FfmpegIoPolicyV1 =
  io_progress_channel :: FfmpegProgressChannelV1
  io_diagnostic_channel :: FfmpegDiagnosticChannelV1
  io_output_is_job_scoped_file :: bool
  io_stdin_disabled :: bool

record FfmpegSupervisionLimitsV1 =
  sl_startup_timeout_millis :: u64
  sl_execution_timeout_millis :: u64
  sl_graceful_stop_timeout_millis :: u64
  sl_forced_kill_timeout_millis :: u64
  sl_reap_timeout_millis :: u64
  sl_ffprobe_timeout_millis :: u64
  sl_progress_max_records :: u64
  sl_progress_max_total_bytes :: u64
  sl_progress_max_record_bytes :: u64
  sl_progress_max_field_bytes :: u64
  sl_progress_max_parser_steps :: u64
  sl_progress_max_silence_millis :: u64
  sl_consumer_stall_timeout_millis :: u64
  sl_stderr_max_total_bytes :: u64
  sl_stderr_tail_bytes :: u64
  sl_pipe_allocation_bytes :: u64
  sl_output_max_streams :: u32
  sl_output_max_duration_millis :: u64
  sl_output_max_file_size_bytes :: u64
  sl_output_max_width :: u32
  sl_output_max_height :: u32
  sl_output_max_channels :: u32

definition check_limits :: "(string \<times> u64 \<times> u64) list \<Rightarrow> FfmpegContractError + unit" where
  "check_limits = check_each (\<lambda>(field, val, maximum). validate_nonzero_limit field val maximum)"

definition validate_time_limits :: "FfmpegSupervisionLimitsV1 \<Rightarrow> FfmpegContractError + unit" where
  "validate_time_limits l = check_limits
     [(''startup_timeout_millis'', sl_startup_timeout_millis l, MAX_TIMEOUT_MILLIS),
      (''execution_timeout_millis'', sl_execution_timeout_millis l, MAX_TIMEOUT_MILLIS),
      (''graceful_stop_timeout_millis'', sl_graceful_stop_timeout_millis l, MAX_TIMEOUT_MILLIS),
      (''forced_kill_timeout_millis'', sl_forced_kill_timeout_millis l, MAX_TIMEOUT_MILLIS),
      (''reap_timeout_millis'', sl_reap_timeout_millis l, MAX_TIMEOUT_MILLIS),
      (''ffprobe_timeout_millis'', sl_ffprobe_timeout_millis l, MAX_TIMEOUT_MILLIS)]"

definition validate_progress_limits :: "FfmpegSupervisionLimitsV1 \<Rightarrow> FfmpegContractError + unit" where
  "validate_progress_limits l =
     rbind (check_limits
       [(''progress_max_records'', sl_progress_max_records l, MAX_PROGRESS_RECORDS),
        (''progress_max_total_bytes'', sl_progress_max_total_bytes l, MAX_PROGRESS_TOTAL_BYTES),
        (''progress_max_record_bytes'', sl_progress_max_record_bytes l, MAX_PROGRESS_RECORD_BYTES),
        (''progress_max_field_bytes'', sl_progress_max_field_bytes l, MAX_PROGRESS_FIELD_BYTES),
        (''progress_max_parser_steps'', sl_progress_max_parser_steps l, MAX_PARSER_STEPS),
        (''progress_max_silence_millis'', sl_progress_max_silence_millis l, MAX_TIMEOUT_MILLIS)]) (\<lambda>_.
     if sl_progress_max_field_bytes l > sl_progress_max_record_bytes l
        \<or> sl_progress_max_record_bytes l > sl_progress_max_total_bytes l
     then Inl (InvalidLimit ''nested_progress_limits'') else Inr ())"

definition validate_diagnostic_limits :: "FfmpegSupervisionLimitsV1 \<Rightarrow> FfmpegContractError + unit" where
  "validate_diagnostic_limits l =
     rbind (check_limits
       [(''consumer_stall_timeout_millis'', sl_consumer_stall_timeout_millis l, MAX_TIMEOUT_MILLIS),
        (''stderr_max_total_bytes'', sl_stderr_max_total_bytes l, MAX_STDERR_TOTAL_BYTES),
        (''stderr_tail_bytes'', sl_stderr_tail_bytes l, MAX_STDERR_TAIL_BYTES),
        (''pipe_allocation_bytes'', sl_pipe_allocation_bytes l, MAX_PIPE_ALLOCATION_BYTES)]) (\<lambda>_.
     if sl_stderr_tail_bytes l > sl_stderr_max_total_bytes l
     then Inl (InvalidLimit ''nested_byte_limits'') else Inr ())"

definition limits_validate :: "FfmpegSupervisionLimitsV1 \<Rightarrow> FfmpegContractError + unit" where
  "limits_validate l =
     rbind (validate_time_limits l) (\<lambda>_.
     rbind (validate_progress_limits l) (\<lambda>_.
     rbind (validate_diagnostic_limits l) (\<lambda>_.
     if sl_output_max_streams l = 0 \<or> sl_output_max_streams l > MAX_OUTPUT_STREAMS
     then Inl (InvalidLimit ''output_max_streams'')
     else
     rbind (validate_nonzero_limit ''output_max_duration_millis'' (sl_output_max_duration_millis l)
        MAX_OUTPUT_DURATION_MILLIS) (\<lambda>_.
     rbind (validate_nonzero_limit ''output_max_file_size_bytes'' (sl_output_max_file_size_bytes l)
        MAX_OUTPUT_FILE_SIZE_BYTES) (\<lambda>_.
     check_limits
       [(''output_max_width'', ucast (sl_output_max_width l), ucast MAX_OUTPUT_DIMENSION),
        (''output_max_height'', ucast (sl_output_max_height l), ucast MAX_OUTPUT_DIMENSION),
        (''output_max_channels'', ucast (sl_output_max_channels l), ucast MAX_OUTPUT_CHANNELS)])))))"

record FfmpegResourceReferenceV1 =
  fr_resource_contract_schema_id :: string
  fr_byte_credit_contract_schema_id :: string
  fr_pipe_stage :: ByteCreditStage
  fr_claim :: ResourceVector
  fr_progress_pipe_bytes :: u64
  fr_stderr_pipe_bytes :: u64

definition resources_validate ::
  "FfmpegResourceReferenceV1 \<Rightarrow> FfmpegSupervisionLimitsV1 \<Rightarrow> FfmpegContractError + unit" where
  "resources_validate r limits =
     (if fr_resource_contract_schema_id r \<noteq> RESOURCE_VECTOR_SCHEMA_ID
         \<or> fr_byte_credit_contract_schema_id r \<noteq> BYTE_CREDIT_SCHEMA_ID
         \<or> fr_pipe_stage r \<noteq> FfmpegPipe
      then Inl InvalidResourceReference
      else if ffmpeg_processes (fr_claim r) \<noteq> 1
         \<or> ffmpeg_cpu_threads (fr_claim r) = 0
         \<or> memory_bytes (fr_claim r) = 0
         \<or> disk_read_bytes_in_flight (fr_claim r) = 0
         \<or> disk_write_bytes_in_flight (fr_claim r) = 0
         \<or> fr_progress_pipe_bytes r = 0
         \<or> fr_stderr_pipe_bytes r = 0
      then Inl InvalidResourceClaim
      else
        rbind (ok_or InvalidResourceClaim
                (checked_add (fr_progress_pipe_bytes r) (fr_stderr_pipe_bytes r))) (\<lambda>pipe_bytes.
        if pipe_bytes > memory_bytes (fr_claim r) \<or> pipe_bytes > sl_pipe_allocation_bytes limits
        then Inl InvalidResourceClaim else Inr ()))"

section \<open>The request\<close>

record FfmpegSupervisionRequestV1 =
  sr_schema_id :: string
  sr_version :: SchemaVersion
  sr_request_id :: string
  sr_job_id :: string
  sr_operation_plan_sha256 :: string
  sr_toolchain :: FfmpegToolchainIdentityV1
  sr_operation :: FfmpegOperationPlanV1
  sr_environment :: FfmpegEnvironmentPolicyV1
  sr_working_directory :: string
  sr_allowed_protocols :: "FfmpegProtocolV1 list"
  sr_allowed_input_mechanisms :: "FfmpegInputMechanismV1 list"
  sr_io :: FfmpegIoPolicyV1
  sr_limits :: FfmpegSupervisionLimitsV1
  sr_resources :: FfmpegResourceReferenceV1

abbreviation request_system :: "FfmpegSupervisionRequestV1 \<Rightarrow> FfmpegHostOperatingSystemV1" where
  "request_system r \<equiv> hi_operating_system (xi_host (tc_ffmpeg (sr_toolchain r)))"

fun validate_argument_bytes :: "nat \<Rightarrow> string list \<Rightarrow> FfmpegContractError + nat" where
  "validate_argument_bytes used [] = Inr used"
| "validate_argument_bytes used (argument # rest) =
     rbind (validate_ffmpeg_text ''direct_argument'' argument MAX_ARGUMENT_BYTES) (\<lambda>_.
     rbind (ok_or ArgumentLimitExceeded
        (case usize_checked_add used (length argument) of
           None \<Rightarrow> None | Some n \<Rightarrow> usize_checked_add n 1)) (\<lambda>used.
     validate_argument_bytes used rest))"

definition validate_arguments :: "string list \<Rightarrow> FfmpegContractError + unit" where
  "validate_arguments arguments =
     (if arguments = [] \<or> length arguments > MAX_ARGUMENTS then Inl ArgumentLimitExceeded
      else rbind (validate_argument_bytes 0 arguments) (\<lambda>used.
        if used > MAX_ARGUMENT_VECTOR_BYTES then Inl ArgumentLimitExceeded else Inr ()))"

fun request_direct_arguments :: "FfmpegOperationPlanV1 \<Rightarrow> string list" where
  "request_direct_arguments (StreamCopy p) = plan_direct_arguments p"

fun expected_bindings :: "FfmpegHostOperatingSystemV1 \<Rightarrow> FfmpegEnvironmentBindingV1 list" where
  "expected_bindings WindowsHost = [HostSystemRoot, JobTemporaryDirectory]"
| "expected_bindings LinuxHost = [JobTemporaryDirectory, LocaleC]"

fun validate_operation ::
  "FfmpegExecutableIdentityV1 \<Rightarrow> FfmpegOperationPlanV1 \<Rightarrow> FfmpegContractError + unit" where
  "validate_operation ffmpeg (StreamCopy p) =
     rbind (plan_validate p (hi_operating_system (xi_host ffmpeg))) (\<lambda>_.
     rbind (check_each (\<lambda>i. require_capability ffmpeg (''demuxer:'' @ demuxer_argument_name (if_demuxer i)))
        (cp_inputs p)) (\<lambda>_.
     rbind (require_capability ffmpeg ''progress'') (\<lambda>_.
     rbind (require_capability ffmpeg ''stream_copy'') (\<lambda>_.
     require_capability ffmpeg (''muxer:'' @ cp_output_muxer p)))))"

definition validate_toolchain :: "FfmpegToolchainIdentityV1 \<Rightarrow> FfmpegContractError + unit" where
  "validate_toolchain t =
     rbind (executable_validate (tc_ffmpeg t)) (\<lambda>_.
     rbind (executable_validate (tc_ffprobe t)) (\<lambda>_.
     if xi_kind (tc_ffmpeg t) \<noteq> FfmpegTool \<or> xi_kind (tc_ffprobe t) \<noteq> FfprobeTool
     then Inl ToolchainKindMismatch
     else if xi_host (tc_ffmpeg t) \<noteq> xi_host (tc_ffprobe t) then Inl ToolchainHostMismatch
     else if xi_absolute_path (tc_ffmpeg t) = xi_absolute_path (tc_ffprobe t)
        \<or> xi_content_sha256 (tc_ffmpeg t) = xi_content_sha256 (tc_ffprobe t)
     then Inl ToolchainKindMismatch
     else Inr ()))"

definition supervision_request_validate :: "FfmpegSupervisionRequestV1 \<Rightarrow> FfmpegContractError + unit" where
  "supervision_request_validate r =
     (if sr_schema_id r \<noteq> FFMPEG_SUPERVISION_SCHEMA_ID then Inl SchemaIdMismatch
      else if sr_version r \<noteq> FFMPEG_SUPERVISION_VERSION then Inl (UnsupportedVersion (sr_version r))
      else
      rbind (validate_ffmpeg_digest ''operation_plan_sha256'' (sr_operation_plan_sha256 r)) (\<lambda>_.
      rbind (validate_toolchain (sr_toolchain r)) (\<lambda>_.
      if ev_inherit_parent (sr_environment r) then Inl EnvironmentNotScrubbed
      else
      rbind (validate_ffmpeg_count ''environment.trusted_bindings''
         (length (ev_trusted_bindings (sr_environment r))) MAX_ENVIRONMENT_BINDINGS) (\<lambda>_.
      if ev_trusted_bindings (sr_environment r) \<noteq> expected_bindings (request_system r)
      then Inl EnvironmentInventoryNotCanonical
      else
      rbind (validate_absolute_path ''working_directory'' (sr_working_directory r) (request_system r)) (\<lambda>_.
      if sr_allowed_protocols r \<noteq> [FileProtocol] then Inl InvalidProtocolAllowlist
      else if sr_allowed_input_mechanisms r \<noteq> [AuditedElementaryFile]
      then Inl InvalidInputMechanismAllowlist
      else if io_progress_channel (sr_io r) \<noteq> StdoutPipeOne \<or> io_diagnostic_channel (sr_io r) \<noteq> StderrTail
        \<or> \<not> io_output_is_job_scoped_file (sr_io r) \<or> \<not> io_stdin_disabled (sr_io r)
      then Inl InvalidIoPolicy
      else
      rbind (limits_validate (sr_limits r)) (\<lambda>_.
      rbind (resources_validate (sr_resources r) (sr_limits r)) (\<lambda>_.
      rbind (validate_operation (tc_ffmpeg (sr_toolchain r)) (sr_operation r)) (\<lambda>_.
      rbind (require_capability (tc_ffprobe (sr_toolchain r)) ''json_output'') (\<lambda>_.
      rbind (require_capability (tc_ffprobe (sr_toolchain r)) ''stream_metadata'') (\<lambda>_.
      rbind (if request_system r = LinuxHost
             then rbind (require_capability (tc_ffmpeg (sr_toolchain r)) ''protocol:fd'') (\<lambda>_.
                    require_capability (tc_ffprobe (sr_toolchain r)) ''protocol:fd'')
             else Inr ()) (\<lambda>_.
      validate_arguments (request_direct_arguments (sr_operation r)))))))))))))"

section \<open>The invocation\<close>

record BoundRuntimeProjection =
  bp_request_contract_sha256 :: string
  bp_operation_plan_sha256 :: string
  bp_arguments :: "string list"

record FfmpegBoundRuntimeInvocationV1 =
  br_projection_id :: string
  br_request_contract_sha256 :: string
  br_operation_plan_sha256 :: string
  br_arguments :: "string list"
  br_canonical_sha256 :: string

record FfmpegValidatedInvocationV1 =
  vi_request_contract_sha256 :: string
  vi_operation_plan_sha256 :: string
  vi_arguments :: "string list"
  vi_bound_runtime :: FfmpegBoundRuntimeInvocationV1

text \<open>\<open>serde_json::to_vec\<close> of the three projected types, and SHA-256.\<close>

record CanonicalCodec =
  cd_operation :: "FfmpegOperationPlanV1 \<Rightarrow> u8 list option"
  cd_request :: "FfmpegSupervisionRequestV1 \<Rightarrow> u8 list option"
  cd_bound :: "BoundRuntimeProjection \<Rightarrow> u8 list option"
  cd_sha256 :: "u8 list \<Rightarrow> u8 list"

definition hex_digit :: "u8 \<Rightarrow> char" where
  "hex_digit n = (if n < 10 then char_of (48 + unat n) else char_of (87 + unat n))"

definition hex_byte :: "u8 \<Rightarrow> string" where
  "hex_byte b = [hex_digit (b div 16), hex_digit (b mod 16)]"

definition canonical_sha256 ::
  "(u8 list \<Rightarrow> u8 list) \<Rightarrow> string \<Rightarrow> u8 list option \<Rightarrow> FfmpegContractError + string" where
  "canonical_sha256 sha256 projection_id encoding =
     rbind (ok_or CanonicalProjectionFailed encoding) (\<lambda>encoded.
     Inr (concat (map hex_byte (sha256 (ascii projection_id @ [0] @ encoded)))))"

definition canonical_operation_plan_sha256 ::
  "CanonicalCodec \<Rightarrow> FfmpegSupervisionRequestV1 \<Rightarrow> FfmpegContractError + string" where
  "canonical_operation_plan_sha256 c r =
     canonical_sha256 (cd_sha256 c) FFMPEG_OPERATION_PROJECTION_ID (cd_operation c (sr_operation r))"

definition canonical_request_contract_sha256 ::
  "CanonicalCodec \<Rightarrow> FfmpegSupervisionRequestV1 \<Rightarrow> FfmpegContractError + string" where
  "canonical_request_contract_sha256 c r =
     canonical_sha256 (cd_sha256 c) FFMPEG_REQUEST_PROJECTION_ID (cd_request c r)"

text \<open>The outer \<open>None\<close> is the panic of a descriptor that does not fit.\<close>

fun runtime_arguments :: "FfmpegHostOperatingSystemV1 \<Rightarrow> FfmpegOperationPlanV1 \<Rightarrow> string list option" where
  "runtime_arguments LinuxHost (StreamCopy p) = linux_fd_arguments p"
| "runtime_arguments WindowsHost operation = Some (request_direct_arguments operation)"

definition bound_invocation ::
  "CanonicalCodec \<Rightarrow> string \<Rightarrow> string \<Rightarrow> string list \<Rightarrow> string list
     \<Rightarrow> FfmpegContractError + FfmpegValidatedInvocationV1" where
  "bound_invocation c request_sha operation_sha arguments runtime =
     rbind (validate_arguments runtime) (\<lambda>_.
     rbind (canonical_sha256 (cd_sha256 c) FFMPEG_BOUND_RUNTIME_INVOCATION_PROJECTION_ID
       (cd_bound c \<lparr> bp_request_contract_sha256 = request_sha, bp_operation_plan_sha256 = operation_sha,
          bp_arguments = runtime \<rparr>)) (\<lambda>canonical.
     Inr \<lparr> vi_request_contract_sha256 = request_sha, vi_operation_plan_sha256 = operation_sha,
       vi_arguments = arguments,
       vi_bound_runtime = \<lparr> br_projection_id = FFMPEG_BOUND_RUNTIME_INVOCATION_PROJECTION_ID,
         br_request_contract_sha256 = request_sha, br_operation_plan_sha256 = operation_sha,
         br_arguments = runtime, br_canonical_sha256 = canonical \<rparr> \<rparr>))"

definition validate_for_invocation ::
  "CanonicalCodec \<Rightarrow> FfmpegSupervisionRequestV1
     \<Rightarrow> (FfmpegContractError + FfmpegValidatedInvocationV1) option" where
  "validate_for_invocation c r =
     (case rbind (supervision_request_validate r) (\<lambda>_.
           rbind (canonical_operation_plan_sha256 c r) (\<lambda>operation_sha.
           if sr_operation_plan_sha256 r \<noteq> operation_sha
           then Inl (CorrelationMismatch ''operation_plan_sha256'')
           else rbind (canonical_request_contract_sha256 c r) (\<lambda>request_sha.
             Inr (request_sha, operation_sha)))) of
        Inl e \<Rightarrow> Some (Inl e)
      | Inr (request_sha, operation_sha) \<Rightarrow>
          map_option (bound_invocation c request_sha operation_sha
              (request_direct_arguments (sr_operation r)))
            (runtime_arguments (request_system r) (sr_operation r)))"

definition invocation_validate_against ::
  "CanonicalCodec \<Rightarrow> FfmpegValidatedInvocationV1 \<Rightarrow> FfmpegSupervisionRequestV1
     \<Rightarrow> (FfmpegContractError + unit) option" where
  "invocation_validate_against c token r =
     map_option (\<lambda>outcome. rbind outcome (\<lambda>expected.
         if token = expected then Inr () else Inl (CorrelationMismatch ''validated_invocation'')))
       (validate_for_invocation c r)"

end
