(* ===== verification/Ffmpeg_Report.thy ===== *)
theory Ffmpeg_Report
  imports Ffmpeg_Request
begin

text \<open>
  The report of the FFmpeg supervision contract (\<open>fforager-contracts/src/ffmpeg.rs\<close>): lifecycle
  observations with their deadlines, the reap of the child, containment, output facts, and the
  validation of a report against the request it answers.
\<close>

section \<open>Evidence\<close>

definition FFMPEG_SUPERVISION_REPORT_SCHEMA_ID :: string where
  "FFMPEG_SUPERVISION_REPORT_SCHEMA_ID = ''ff.ffmpeg-supervision-report@1''"
definition MAX_OUTPUT_FORMATS :: usize where "MAX_OUTPUT_FORMATS = 32"
definition MAX_REPORT_EVENTS :: usize where "MAX_REPORT_EVENTS = 32"

datatype FfmpegLifecycleStateV1 =
    Spawned
  | Running
  | GracefulStopRequested
  | ForcedKillRequested
  | Reaped
  | ReapUnproven
  | Validated

record FfmpegLifecycleObservationV1 =
  lo_sequence :: u64
  lo_state :: FfmpegLifecycleStateV1
  lo_monotonic_millis :: u64

datatype FfmpegFailureKindV1 =
    ExecutableMissing
  | ExecutableIdentityChanged
  | CapabilityMismatch
  | InvalidPlan
  | SpawnFailed
  | TimedOut
  | ProgressInvalid
  | DiagnosticLimitExceeded
  | ExitFailed
  | ReapFailed
  | ContainmentUnproven
  | OutputInvalid

datatype FfmpegTerminalOutcomeV1 =
    OutcomeValidated
  | PreflightRejected FfmpegFailureKindV1
  | Failed FfmpegFailureKindV1
  | Cancelled bool

text \<open>\<open>ChildReaped\<close> carries the exit code, whether a signal or exception ended the child, and the
  digest of the wait receipt.\<close>

datatype FfmpegDirectChildReapV1 =
    NotSpawned
  | ChildReapUnproven string
  | ChildReaped "i32 option" bool string

datatype WindowsActiveProcessQueryV1 = ActiveZero | ActiveNonzero u32 | QueryFailed

datatype FfmpegContainmentEvidenceV1 =
    NotEstablished
  | WindowsJob (attached_before_execution: bool) (kill_on_job_close: bool)
      (active_process_query: WindowsActiveProcessQueryV1)
  | UnixProcessGroup (declared_nonescaping_members_remaining: u32) (setsid_escape_capable: bool)

record FfmpegOutputStreamFactV1 =
  sf_index :: u32
  sf_kind :: FfmpegStreamKindV1
  sf_selected_source :: FfmpegStreamMapV1
  sf_output_payload_sha256 :: string
  sf_codec_name :: string
  sf_width :: "u32 option"
  sf_height :: "u32 option"
  sf_channels :: "u32 option"

record FfmpegOutputFactsV1 =
  of_output_identity_sha256 :: string
  of_file_size_bytes :: u64
  of_duration_millis :: u64
  of_format_names :: "string list"
  of_streams :: "FfmpegOutputStreamFactV1 list"

datatype FfmpegOutputValidationV1 =
    NotRun
  | OutputRejected FfmpegFailureKindV1
  | OutputValidated string FfmpegOutputFactsV1

record FfmpegSupervisionReportV1 =
  rp_schema_id :: string
  rp_version :: SchemaVersion
  rp_request_id :: string
  rp_job_id :: string
  rp_source_commit :: string
  rp_request_contract_sha256 :: string
  rp_operation_plan_sha256 :: string
  rp_ffmpeg_content_sha256 :: string
  rp_ffprobe_content_sha256 :: string
  rp_host :: FfmpegHostIdentityV1
  rp_lifecycle :: "FfmpegLifecycleObservationV1 list"
  rp_terminal_outcome :: FfmpegTerminalOutcomeV1
  rp_direct_child :: FfmpegDirectChildReapV1
  rp_containment :: FfmpegContainmentEvidenceV1
  rp_output_validation :: FfmpegOutputValidationV1
  rp_residual_uncertainty :: "string list"

section \<open>Output facts\<close>

definition exceeds :: "u32 option \<Rightarrow> u32 \<Rightarrow> bool" where
  "exceeds val maximum = (case val of Some n \<Rightarrow> n > maximum | None \<Rightarrow> False)"

text \<open>The arm of \<open>match stream.kind\<close>: whether the geometry is out of bounds for the kind.\<close>

fun bad_geometry ::
  "FfmpegSupervisionLimitsV1 \<Rightarrow> FfmpegOutputStreamFactV1 \<Rightarrow> FfmpegStreamKindV1 \<Rightarrow> bool" where
  "bad_geometry limits s Video =
     (sf_width s = Some 0 \<or> sf_height s = Some 0 \<or> exceeds (sf_width s) (sl_output_max_width limits)
      \<or> exceeds (sf_height s) (sl_output_max_height limits) \<or> sf_channels s \<noteq> None)"
| "bad_geometry limits s Audio =
     (sf_channels s = Some 0 \<or> exceeds (sf_channels s) (sl_output_max_channels limits)
      \<or> sf_width s \<noteq> None \<or> sf_height s \<noteq> None)"
| "bad_geometry limits s _ = (sf_width s \<noteq> None \<or> sf_height s \<noteq> None \<or> sf_channels s \<noteq> None)"

definition map_at :: "FfmpegStreamMapV1 list \<Rightarrow> nat \<Rightarrow> FfmpegStreamMapV1 option" where
  "map_at maps i = (if i < length maps then Some (maps ! i) else None)"

fun check_streams ::
  "FfmpegSupervisionLimitsV1 \<Rightarrow> FfmpegStreamMapV1 list \<Rightarrow> nat \<Rightarrow> FfmpegOutputStreamFactV1 list
     \<Rightarrow> FfmpegContractError + unit" where
  "check_streams limits maps expected_index [] = Inr ()"
| "check_streams limits maps expected_index (s # rest) =
     (let expected_source = map_at maps expected_index
      in if sf_index s \<noteq> (case u32_try_from expected_index of Some w \<Rightarrow> w | None \<Rightarrow> - 1)
            \<or> expected_source \<noteq> Some (sf_selected_source s)
            \<or> (case expected_source of None \<Rightarrow> True | Some source \<Rightarrow> sm_stream_kind source \<noteq> sf_kind s)
         then Inl InvalidOutputFacts
         else
         rbind (validate_ffmpeg_digest ''output.output_payload_sha256'' (sf_output_payload_sha256 s)) (\<lambda>_.
         if sm_source_payload_sha256 (sf_selected_source s) \<noteq> sf_output_payload_sha256 s
         then Inl InvalidOutputFacts
         else
         rbind (validate_ffmpeg_component ''output.codec_name'' (sf_codec_name s) MAX_CAPABILITY_BYTES) (\<lambda>_.
         if bad_geometry limits s (sf_kind s) then Inl InvalidOutputFacts
         else check_streams limits maps (Suc expected_index) rest)))"

fun facts_validate ::
  "FfmpegOutputFactsV1 \<Rightarrow> FfmpegSupervisionLimitsV1 \<Rightarrow> FfmpegOperationPlanV1
     \<Rightarrow> FfmpegContractError + unit" where
  "facts_validate f limits (StreamCopy p) =
     rbind (validate_ffmpeg_digest ''output_identity_sha256'' (of_output_identity_sha256 f)) (\<lambda>_.
     if of_file_size_bytes f = 0
        \<or> of_file_size_bytes f > sl_output_max_file_size_bytes limits
        \<or> of_duration_millis f > sl_output_max_duration_millis limits
        \<or> of_format_names f = [] \<or> length (of_format_names f) > MAX_OUTPUT_FORMATS
        \<or> of_streams f = [] \<or> length (of_streams f) > unat (sl_output_max_streams limits)
        \<or> \<not> strictly_sorted_unique (of_format_names f)
     then Inl InvalidOutputFacts
     else
     rbind (check_each (\<lambda>n. validate_ffmpeg_component ''output.format_name'' n MAX_CAPABILITY_BYTES)
        (of_format_names f)) (\<lambda>_.
     rbind (check_streams limits (cp_stream_maps p) 0 (of_streams f)) (\<lambda>_.
     if \<not> binary_search (of_format_names f) (cp_output_muxer p) then Inl InvalidOutputFacts
     else if length (of_streams f) \<noteq> length (cp_stream_maps p) then Inl InvalidOutputFacts
     else Inr ())))"

section \<open>Lifecycle\<close>

fun valid_lifecycle_edge :: "FfmpegLifecycleStateV1 option \<Rightarrow> FfmpegLifecycleStateV1 \<Rightarrow> bool" where
  "valid_lifecycle_edge None s = (s = Spawned)"
| "valid_lifecycle_edge (Some Spawned) s = (s = Running)"
| "valid_lifecycle_edge (Some Running) s =
     (s \<in> {GracefulStopRequested, ForcedKillRequested, Reaped, ReapUnproven})"
| "valid_lifecycle_edge (Some GracefulStopRequested) s =
     (s \<in> {ForcedKillRequested, Reaped, ReapUnproven})"
| "valid_lifecycle_edge (Some ForcedKillRequested) s = (s \<in> {Reaped, ReapUnproven})"
| "valid_lifecycle_edge (Some Reaped) s = (s = Validated)"
| "valid_lifecycle_edge (Some _) s = False"

text \<open>The longest time between two observations; \<open>None\<close> where the code returns false.\<close>

fun edge_maximum ::
  "FfmpegSupervisionLimitsV1 \<Rightarrow> FfmpegLifecycleStateV1 \<Rightarrow> FfmpegLifecycleStateV1 \<Rightarrow> u64 option" where
  "edge_maximum limits Spawned Running = Some (sl_startup_timeout_millis limits)"
| "edge_maximum limits Running s =
     (if s \<in> {GracefulStopRequested, ForcedKillRequested, Reaped, ReapUnproven}
      then Some (saturating_add (sl_execution_timeout_millis limits) (sl_reap_timeout_millis limits))
      else None)"
| "edge_maximum limits GracefulStopRequested s =
     (if s = ForcedKillRequested then Some (sl_graceful_stop_timeout_millis limits)
      else if s \<in> {Reaped, ReapUnproven}
      then Some (saturating_add (sl_forced_kill_timeout_millis limits) (sl_reap_timeout_millis limits))
      else None)"
| "edge_maximum limits ForcedKillRequested s =
     (if s \<in> {Reaped, ReapUnproven}
      then Some (saturating_add (sl_forced_kill_timeout_millis limits) (sl_reap_timeout_millis limits))
      else None)"
| "edge_maximum limits Reaped Validated = Some (sl_ffprobe_timeout_millis limits)"
| "edge_maximum limits _ _ = None"

fun lifecycle_deadline_is_valid ::
  "FfmpegLifecycleStateV1 option \<Rightarrow> u64 \<Rightarrow> FfmpegLifecycleStateV1 \<Rightarrow> u64
     \<Rightarrow> FfmpegSupervisionLimitsV1 \<Rightarrow> bool" where
  "lifecycle_deadline_is_valid None prior_time s time limits =
     (time \<le> sl_startup_timeout_millis limits)"
| "lifecycle_deadline_is_valid (Some prior) prior_time s time limits =
     (case edge_maximum limits prior s of
        Some maximum \<Rightarrow> saturating_sub time prior_time \<le> maximum
      | None \<Rightarrow> False)"

fun check_observations ::
  "FfmpegSupervisionLimitsV1 \<Rightarrow> nat \<Rightarrow> FfmpegLifecycleStateV1 option \<Rightarrow> u64
     \<Rightarrow> FfmpegLifecycleObservationV1 list \<Rightarrow> FfmpegContractError + FfmpegLifecycleStateV1 option" where
  "check_observations limits i prior_state prior_time [] = Inr prior_state"
| "check_observations limits i prior_state prior_time (ob # rest) =
     (if lo_sequence ob \<noteq> u64_or_max (i + 1)
         \<or> i > 0 \<and> lo_monotonic_millis ob < prior_time
         \<or> \<not> valid_lifecycle_edge prior_state (lo_state ob)
         \<or> \<not> lifecycle_deadline_is_valid prior_state prior_time (lo_state ob) (lo_monotonic_millis ob) limits
      then Inl InvalidLifecycle
      else check_observations limits (Suc i) (Some (lo_state ob)) (lo_monotonic_millis ob) rest)"

fun expected_last :: "FfmpegTerminalOutcomeV1 \<Rightarrow> FfmpegDirectChildReapV1 \<Rightarrow> FfmpegLifecycleStateV1" where
  "expected_last OutcomeValidated _ = Validated"
| "expected_last _ (ChildReapUnproven _) = ReapUnproven"
| "expected_last _ _ = Reaped"

definition saw :: "FfmpegLifecycleStateV1 \<Rightarrow> FfmpegLifecycleObservationV1 list \<Rightarrow> bool" where
  "saw s = list_ex (\<lambda>ob. lo_state ob = s)"

definition validate_ffmpeg_lifecycle ::
  "FfmpegLifecycleObservationV1 list \<Rightarrow> FfmpegTerminalOutcomeV1 \<Rightarrow> FfmpegDirectChildReapV1
     \<Rightarrow> FfmpegSupervisionLimitsV1 \<Rightarrow> FfmpegContractError + unit" where
  "validate_ffmpeg_lifecycle lifecycle outcome direct_child limits =
     (if lifecycle = [] \<or> length lifecycle > MAX_REPORT_EVENTS then Inl InvalidLifecycle
      else
      rbind (check_observations limits 0 None 0 lifecycle) (\<lambda>prior_state.
      if prior_state \<noteq> Some (expected_last outcome direct_child) then Inl SuccessBeforeReapAndValidation
      else
        let saw_graceful = saw GracefulStopRequested lifecycle;
            saw_forced = saw ForcedKillRequested lifecycle
        in case outcome of
             OutcomeValidated \<Rightarrow>
               (if saw_graceful \<or> saw_forced then Inl InvalidLifecycle else Inr ())
           | Cancelled forced \<Rightarrow>
               (if \<not> saw_graceful \<or> forced \<noteq> saw_forced then Inl InvalidLifecycle else Inr ())
           | _ \<Rightarrow> Inr ()))"

section \<open>Containment and the child\<close>

definition may_be_unproven :: "FfmpegTerminalOutcomeV1 \<Rightarrow> bool" where
  "may_be_unproven outcome = (outcome \<in> {Failed ContainmentUnproven, Failed ReapFailed})"

fun validate_containment_of ::
  "FfmpegHostOperatingSystemV1 \<Rightarrow> FfmpegTerminalOutcomeV1 \<Rightarrow> FfmpegContainmentEvidenceV1
     \<Rightarrow> FfmpegContractError + unit" where
  "validate_containment_of WindowsHost outcome (WindowsJob attached kill active_query) =
     (if \<not> attached \<or> \<not> kill \<or> \<not> may_be_unproven outcome \<and> active_query \<noteq> ActiveZero
      then Inl InvalidContainmentEvidence else Inr ())"
| "validate_containment_of LinuxHost outcome (UnixProcessGroup remaining escape_capable) =
     (if \<not> escape_capable \<or> \<not> may_be_unproven outcome \<and> remaining \<noteq> 0
      then Inl InvalidContainmentEvidence else Inr ())"
| "validate_containment_of _ _ _ = Inl InvalidContainmentEvidence"

definition validate_containment ::
  "FfmpegContainmentEvidenceV1 \<Rightarrow> FfmpegHostIdentityV1 \<Rightarrow> FfmpegTerminalOutcomeV1
     \<Rightarrow> FfmpegContractError + unit" where
  "validate_containment containment host outcome =
     validate_containment_of (hi_operating_system host) outcome containment"

fun validate_direct_child ::
  "FfmpegTerminalOutcomeV1 \<Rightarrow> FfmpegDirectChildReapV1 \<Rightarrow> FfmpegContractError + unit" where
  "validate_direct_child outcome NotSpawned = Inl InvalidDirectChildEvidence"
| "validate_direct_child outcome (ChildReapUnproven wait_error) =
     rbind (validate_ffmpeg_digest ''direct_child.wait_error_sha256'' wait_error) (\<lambda>_.
     if outcome \<notin> {Failed ReapFailed, Failed ContainmentUnproven}
     then Inl InvalidDirectChildEvidence else Inr ())"
| "validate_direct_child outcome (ChildReaped exit_code terminated wait_receipt) =
     rbind (validate_ffmpeg_digest ''direct_child.wait_receipt_sha256'' wait_receipt) (\<lambda>_.
     if outcome = OutcomeValidated
     then (if exit_code = Some 0 \<and> \<not> terminated then Inr () else Inl InvalidDirectChildEvidence)
     else if outcome = Failed ExitFailed
     then (if exit_code \<noteq> Some 0 \<or> terminated then Inr () else Inl InvalidDirectChildEvidence)
     else Inr ())"

definition pre_spawn_shape_is_valid :: "FfmpegSupervisionReportV1 \<Rightarrow> bool" where
  "pre_spawn_shape_is_valid rep =
     (rp_lifecycle rep = [] \<and> rp_direct_child rep = NotSpawned \<and> rp_containment rep = NotEstablished
      \<and> rp_output_validation rep = NotRun)"

section \<open>The report against its request\<close>

definition correlation_mismatch :: "(bool \<times> string) list \<Rightarrow> FfmpegContractError + unit" where
  "correlation_mismatch = check_each (\<lambda>(matches, field).
     if \<not> matches then Inl (CorrelationMismatch field) else Inr ())"

definition validate_correlation ::
  "FfmpegSupervisionReportV1 \<Rightarrow> FfmpegSupervisionRequestV1 \<Rightarrow> FfmpegValidatedInvocationV1
     \<Rightarrow> FfmpegContractError + unit" where
  "validate_correlation rep r invocation =
     (if rp_schema_id rep \<noteq> FFMPEG_SUPERVISION_REPORT_SCHEMA_ID then Inl SchemaIdMismatch
      else if rp_version rep \<noteq> FFMPEG_SUPERVISION_VERSION then Inl (UnsupportedVersion (rp_version rep))
      else
      rbind (correlation_mismatch
        [(rp_request_id rep = sr_request_id r, ''request_id''),
         (rp_job_id rep = sr_job_id r, ''job_id''),
         (sr_operation_plan_sha256 r = vi_operation_plan_sha256 invocation
            \<and> rp_operation_plan_sha256 rep = vi_operation_plan_sha256 invocation, ''operation_plan_sha256''),
         (rp_request_contract_sha256 rep = vi_request_contract_sha256 invocation, ''request_contract_sha256''),
         (rp_ffmpeg_content_sha256 rep = xi_content_sha256 (tc_ffmpeg (sr_toolchain r)),
            ''ffmpeg_content_sha256''),
         (rp_ffprobe_content_sha256 rep = xi_content_sha256 (tc_ffprobe (sr_toolchain r)),
            ''ffprobe_content_sha256''),
         (rp_host rep = xi_host (tc_ffmpeg (sr_toolchain r)), ''host'')]) (\<lambda>_.
      rbind (validate_commit ''source_commit'' (rp_source_commit rep)) (\<lambda>_.
      rbind (validate_ffmpeg_digest ''request_contract_sha256'' (rp_request_contract_sha256 rep)) (\<lambda>_.
      rbind (validate_ffmpeg_digest ''report.operation_plan_sha256'' (rp_operation_plan_sha256 rep)) (\<lambda>_.
      rbind (validate_ffmpeg_digest ''report.ffmpeg_content_sha256'' (rp_ffmpeg_content_sha256 rep)) (\<lambda>_.
      validate_ffmpeg_digest ''report.ffprobe_content_sha256'' (rp_ffprobe_content_sha256 rep)))))))"

fun validate_output ::
  "FfmpegSupervisionRequestV1 \<Rightarrow> FfmpegTerminalOutcomeV1 \<Rightarrow> FfmpegOutputValidationV1
     \<Rightarrow> FfmpegContractError + unit" where
  "validate_output r outcome (OutputValidated ffprobe_sha facts) =
     (if outcome \<noteq> OutcomeValidated then Inl SuccessBeforeReapAndValidation
      else if ffprobe_sha \<noteq> xi_content_sha256 (tc_ffprobe (sr_toolchain r))
      then Inl (CorrelationMismatch ''output_validation.ffprobe_content_sha256'')
      else
      rbind (validate_ffmpeg_digest ''output_validation.ffprobe_content_sha256'' ffprobe_sha) (\<lambda>_.
      facts_validate facts (sr_limits r) (sr_operation r)))"
| "validate_output r outcome _ =
     (if outcome = OutcomeValidated then Inl SuccessBeforeReapAndValidation else Inr ())"

definition validate_spawned ::
  "FfmpegSupervisionReportV1 \<Rightarrow> FfmpegSupervisionRequestV1 \<Rightarrow> FfmpegContractError + unit" where
  "validate_spawned rep r =
     rbind (validate_ffmpeg_lifecycle (rp_lifecycle rep) (rp_terminal_outcome rep) (rp_direct_child rep)
        (sr_limits r)) (\<lambda>_.
     rbind (validate_direct_child (rp_terminal_outcome rep) (rp_direct_child rep)) (\<lambda>_.
     rbind (validate_containment (rp_containment rep) (rp_host rep) (rp_terminal_outcome rep)) (\<lambda>_.
     validate_output r (rp_terminal_outcome rep) (rp_output_validation rep))))"

text \<open>The first \<open>match\<close> on the outcome returns for a run that never spawned; the others go on.\<close>

definition validate_outcome ::
  "FfmpegSupervisionReportV1 \<Rightarrow> FfmpegSupervisionRequestV1 \<Rightarrow> FfmpegContractError + unit" where
  "validate_outcome rep r =
     (case rp_terminal_outcome rep of
        PreflightRejected reason \<Rightarrow>
          (if reason \<notin> {ExecutableMissing, ExecutableIdentityChanged, CapabilityMismatch, InvalidPlan}
              \<or> \<not> pre_spawn_shape_is_valid rep
           then Inl InvalidDirectChildEvidence else Inr ())
      | Failed reason \<Rightarrow>
          (if reason = SpawnFailed
           then (if \<not> pre_spawn_shape_is_valid rep then Inl InvalidDirectChildEvidence else Inr ())
           else validate_spawned rep r)
      | Cancelled forced \<Rightarrow>
          (if \<not> forced \<and> pre_spawn_shape_is_valid rep then Inr () else validate_spawned rep r)
      | OutcomeValidated \<Rightarrow> validate_spawned rep r)"

definition report_validate_against ::
  "CanonicalCodec \<Rightarrow> FfmpegSupervisionReportV1 \<Rightarrow> FfmpegSupervisionRequestV1
     \<Rightarrow> (FfmpegContractError + unit) option" where
  "report_validate_against c rep r =
     map_option (\<lambda>outcome. rbind outcome (\<lambda>invocation.
       rbind (validate_correlation rep r invocation) (\<lambda>_.
       rbind (validate_residuals (rp_residual_uncertainty rep)) (\<lambda>_.
       validate_outcome rep r)))) (validate_for_invocation c r)"

end
