(* ===== verification/Ffmpeg_Invocation.thy ===== *)
theory Ffmpeg_Invocation
  imports Ffmpeg_Request
begin

text \<open>
  What an accepted request guarantees: where its paths lead, that building the argument vectors
  never panics, what the vectors can contain, and that the token of a validated invocation
  identifies the request it was made for.
\<close>

section \<open>Checks of the request\<close>

lemma request_validate_parts:
  assumes "supervision_request_validate r = Inr u"
  shows "limits_validate (sr_limits r) = Inr ()"
    and "validate_toolchain (sr_toolchain r) = Inr ()"
    and "validate_operation (tc_ffmpeg (sr_toolchain r)) (sr_operation r) = Inr ()"
    and "validate_arguments (request_direct_arguments (sr_operation r)) = Inr ()"
    and "request_system r = LinuxHost
      \<Longrightarrow> require_capability (tc_ffmpeg (sr_toolchain r)) ''protocol:fd'' = Inr ()"
  using assms by (auto simp: supervision_request_validate_def result_simps)

lemma request_plan:
  "supervision_request_validate r = Inr u \<Longrightarrow> sr_operation r = StreamCopy p
     \<Longrightarrow> plan_validate p (request_system r) = Inr ()"
  using request_validate_parts(3) [of r] by (simp add: result_simps)

lemma inputs_distinct_ok [result_simps]:
  "inputs_distinct host inputs = Inr u \<longleftrightarrow>
     sorted_wrt (\<lambda>a b. \<not> paths_alias a b host) (map if_path inputs)"
  by (induction host inputs rule: inputs_distinct.induct) (auto simp: list_ex_iff)

section \<open>Argument vectors\<close>

definition vector_bytes :: "string list \<Rightarrow> nat" where
  "vector_bytes arguments = sum_list (map (\<lambda>a. length a + 1) arguments)"

lemma validate_argument_bytes_ok:
  "used < 2 ^ 64 \<Longrightarrow> validate_argument_bytes used arguments = Inr n \<longleftrightarrow>
     (\<forall>a \<in> set arguments. ffmpeg_text_ok a MAX_ARGUMENT_BYTES)
     \<and> n = used + vector_bytes arguments \<and> n < 2 ^ 64"
  by (induction used arguments rule: validate_argument_bytes.induct)
     (auto simp: result_simps vector_bytes_def usize_checked_add_def split: option.splits if_splits)

lemma validate_arguments_ok:
  "validate_arguments arguments = Inr u \<longleftrightarrow>
     arguments \<noteq> [] \<and> length arguments \<le> 512
     \<and> (\<forall>a \<in> set arguments. ffmpeg_text_ok a MAX_ARGUMENT_BYTES) \<and> vector_bytes arguments \<le> 65536"
  by (auto simp: validate_arguments_def result_simps validate_argument_bytes_ok MAX_ARGUMENTS_def
      MAX_ARGUMENT_VECTOR_BYTES_def)

lemma linux_input_descriptor_small:
  "n < 32 \<Longrightarrow> linux_input_descriptor n = Some (64 + of_nat n)"
proof -
  assume n: "n < 32"
  then have "unat (of_nat n :: u16) = n" by (simp add: unat_of_nat)
  with n show ?thesis
    by (simp add: linux_input_descriptor_def checked_add_def FFMPEG_LINUX_FD_INPUT_BASE_V1_def)
qed

text \<open>The descriptors of the inputs are 64, 65, ... and never the output's 96.\<close>

definition linux_input_block :: "nat \<Rightarrow> FfmpegInputFileV1 \<Rightarrow> string list" where
  "linux_input_block n i = [''-protocol_whitelist'', ''fd'', ''-f'', demuxer_argument_name (if_demuxer i),
     ''-fd'', decimal (64 + n), ''-i'', ''fd:'']"

primrec linux_input_blocks :: "nat \<Rightarrow> FfmpegInputFileV1 list \<Rightarrow> string list" where
  "linux_input_blocks n [] = []"
| "linux_input_blocks n (i # rest) = linux_input_block n i @ linux_input_blocks (Suc n) rest"

lemma linux_input_arguments_small:
  "n + length inputs \<le> 32 \<Longrightarrow> linux_input_arguments n inputs = Some (linux_input_blocks n inputs)"
proof (induction n inputs rule: linux_input_arguments.induct)
  case (2 n i rest)
  have "unat (64 + of_nat n :: u16) = 64 + n"
    using 2 by (subst unat_sum_word) (auto simp: unat_of_nat)
  then show ?case
    using 2 by (simp add: linux_input_descriptor_small linux_input_block_def)
qed simp

lemma length_linux_input_blocks: "length (linux_input_blocks n inputs) = 8 * length inputs"
  by (induction inputs arbitrary: n) (auto simp: linux_input_block_def)

lemma length_blocks:
  "length (concat (map input_arguments inputs)) = 6 * length inputs"
  "length (concat (map map_arguments maps)) = 2 * length maps"
  by (induction inputs, auto simp: input_arguments_def) (induction maps, auto simp: map_arguments_def)

lemma plan_counts:
  "plan_validate p host = Inr u \<Longrightarrow> length (cp_inputs p) \<le> 32 \<and> length (cp_stream_maps p) \<le> 128"
  by (auto simp: plan_validate_def result_simps MAX_INPUTS_def MAX_STREAM_MAPS_def)

lemma length_direct_arguments:
  "length (plan_direct_arguments p) = 14 + 6 * length (cp_inputs p) + 2 * length (cp_stream_maps p)"
  by (simp add: plan_direct_arguments_def length_blocks)

lemma linux_fd_arguments_small:
  "length (cp_inputs p) \<le> 32 \<Longrightarrow> \<exists>arguments. linux_fd_arguments p = Some arguments
     \<and> length arguments = 16 + 8 * length (cp_inputs p) + 2 * length (cp_stream_maps p)"
  by (simp add: linux_fd_arguments_def linux_input_arguments_small length_linux_input_blocks length_blocks)

lemma runtime_arguments_total:
  "supervision_request_validate r = Inr u
     \<Longrightarrow> \<exists>arguments. runtime_arguments (request_system r) (sr_operation r) = Some arguments"
  using request_plan [of r] plan_counts linux_fd_arguments_small
  by (cases "sr_operation r"; cases "request_system r") (simp_all, metis old.unit.exhaust)

text \<open>\<open>u16::try_from(...).expect\<close> and the addition of the descriptor never panic.\<close>

lemma invocation_never_panics: "\<exists>outcome. validate_for_invocation c r = Some outcome"
  using runtime_arguments_total [of r]
  by (auto simp: validate_for_invocation_def result_simps split: sum.splits)

section \<open>Digests\<close>

definition hex_value :: "char \<Rightarrow> nat" where
  "hex_value c = (let n = of_char c in if n < 58 then n - 48 else n - 87)"

lemma hex_value_digit: "n < 16 \<Longrightarrow> hex_value (hex_digit n) = unat n"
proof -
  assume "n < 16"
  then have n: "unat n < 16" by (simp add: word_less_nat_alt)
  have "n < 10 \<longleftrightarrow> unat n < 10" by (simp add: word_less_nat_alt)
  with n show ?thesis
    by (auto simp: hex_value_def hex_digit_def Let_def of_char_of)
qed

lemma hex_byte_inject: "hex_byte a = hex_byte b \<longleftrightarrow> a = b"
proof
  assume eq: "hex_byte a = hex_byte b"
  have small: "x div 16 < 16" "x mod 16 < 16" for x :: u8
    by (auto simp: word_less_nat_alt unat_div unat_mod less_mult_imp_div_less unat_bound [of x, simplified])
  have "unat (a div 16) = unat (b div 16)" "unat (a mod 16) = unat (b mod 16)"
    using eq small by (metis hex_byte_def hex_value_digit list.inject)+
  then have "unat a = unat b"
    by (metis div_mult_mod_eq unat_eq_iff)
  then show "a = b" by (simp add: unat_eq_iff)
qed simp

lemma hex_inject: "concat (map hex_byte xs) = concat (map hex_byte ys) \<Longrightarrow> xs = ys"
proof (induction xs arbitrary: ys)
  case Nil
  then show ?case by (cases ys) (auto simp: hex_byte_def)
next
  case (Cons x xs)
  then obtain y ys' where ys: "ys = y # ys'" by (cases ys) (auto simp: hex_byte_def)
  with Cons.prems have "hex_byte x = hex_byte y" "concat (map hex_byte xs) = concat (map hex_byte ys')"
    by (auto simp: hex_byte_def [of x] hex_byte_def [of y])
  with Cons.IH ys show ?case by (simp add: hex_byte_inject)
qed

text \<open>Equal digests mean equal encodings, or a collision of the hash.\<close>

lemma canonical_sha256_ok:
  "canonical_sha256 sha256 identifier a = Inr d \<longleftrightarrow>
     (\<exists>m. a = Some m \<and> d = concat (map hex_byte (sha256 (ascii identifier @ 0 # m))))"
  by (cases a) (auto simp: canonical_sha256_def)

lemma canonical_sha256_collision:
  assumes "canonical_sha256 sha256 identifier a = Inr d" "canonical_sha256 sha256 identifier b = Inr d"
  shows "a = b \<or> (\<exists>x y. x \<noteq> y \<and> sha256 x = sha256 y)"
proof -
  from assms(1) obtain m where m: "a = Some m"
    "d = concat (map hex_byte (sha256 (ascii identifier @ 0 # m)))"
    unfolding canonical_sha256_ok by (elim exE conjE)
  from assms(2) obtain n where n: "b = Some n"
    "d = concat (map hex_byte (sha256 (ascii identifier @ 0 # n)))"
    unfolding canonical_sha256_ok by (elim exE conjE)
  have same: "sha256 (ascii identifier @ 0 # m) = sha256 (ascii identifier @ 0 # n)"
    by (rule hex_inject) (rule trans [OF m(2) [symmetric] n(2)])
  show ?thesis
  proof (cases "m = n")
    case False
    then have "ascii identifier @ 0 # m \<noteq> ascii identifier @ 0 # n" by simp
    with same show ?thesis by (intro disjI2 exI conjI)
  qed (simp add: m(1) n(1))
qed

section \<open>Where the files of a request lie\<close>

text \<open>
  A path that names a place strictly below whatever directory it is read from, that is not taken
  for a switch, and no segment of which is a Windows device name.
\<close>

definition confined_job_path :: "FfmpegHostOperatingSystemV1 \<Rightarrow> string \<Rightarrow> bool" where
  "confined_job_path host val =
     ((\<forall>here. \<exists>name below. walk here (job_segments host val) = Some (name # below @ here))
      \<and> hd val \<noteq> CHR ''-'' \<and> CHR '':'' \<notin> set val
      \<and> (host = WindowsHost \<longrightarrow>
           (\<forall>s \<in> set (job_segments host val). s \<noteq> [] \<longrightarrow> \<not> windows_component_is_reserved s)))"

lemma accepted_job_path: "validate_job_path field val host = Inr u \<Longrightarrow> confined_job_path host val"
  using job_path_inside unfolding confined_job_path_def by metis

lemma plan_paths:
  assumes "plan_validate p host = Inr u"
  shows "list_all (confined_job_path host) (map if_path (cp_inputs p) @ [cp_output_path p])"
    and "sorted_wrt (\<lambda>a b. \<not> paths_alias a b host) (map if_path (cp_inputs p) @ [cp_output_path p])"
proof -
  have inputs: "\<forall>i \<in> set (cp_inputs p). validate_job_path ''operation.input_path'' (if_path i) host = Inr ()"
    and target: "validate_job_path ''operation.output_path'' (cp_output_path p) host = Inr ()"
    and order: "sorted_wrt (\<lambda>a b. \<not> paths_alias a b host) (map if_path (cp_inputs p))"
    and apart: "\<not> list_ex (\<lambda>i. paths_alias (if_path i) (cp_output_path p) host) (cp_inputs p)"
    using assms by (simp_all add: plan_validate_def result_simps)
  show "list_all (confined_job_path host) (map if_path (cp_inputs p) @ [cp_output_path p])"
    using inputs accepted_job_path [OF target] by (auto simp: list_all_iff dest: accepted_job_path)
  show "sorted_wrt (\<lambda>a b. \<not> paths_alias a b host) (map if_path (cp_inputs p) @ [cp_output_path p])"
    using order apart by (auto simp: sorted_wrt_append list_ex_iff)
qed


section \<open>The validated invocation\<close>

lemma validate_for_invocation_ok:
  "validate_for_invocation c r = Some (Inr v) \<Longrightarrow>
     supervision_request_validate r = Inr ()
     \<and> canonical_operation_plan_sha256 c r = Inr (sr_operation_plan_sha256 r)
     \<and> canonical_request_contract_sha256 c r = Inr (vi_request_contract_sha256 v)
     \<and> vi_operation_plan_sha256 v = sr_operation_plan_sha256 r
     \<and> vi_arguments v = request_direct_arguments (sr_operation r)
     \<and> runtime_arguments (request_system r) (sr_operation r) = Some (br_arguments (vi_bound_runtime v))
     \<and> validate_arguments (br_arguments (vi_bound_runtime v)) = Inr ()"
  by (auto simp: validate_for_invocation_def bound_invocation_def result_simps split: sum.splits)

lemma token_accepted:
  "invocation_validate_against c token r = Some (Inr ()) \<longleftrightarrow>
     validate_for_invocation c r = Some (Inr token)"
  by (auto simp: invocation_validate_against_def result_simps split: sum.splits)


text \<open>
  Whatever a request holds, the only arguments that start with a dash are the fixed switches and
  the name of the muxer, which is the value of \<open>-f\<close>.
\<close>

definition fixed_switches :: "string set" where
  "fixed_switches = {''-hide_banner'', ''-nostdin'', ''-n'', ''-y'', ''-protocol_whitelist'', ''-progress'',
     ''-f'', ''-i'', ''-map'', ''-c'', ''-fd''}"

lemma decimal_no_dash: "hd (decimal n @ rest) \<noteq> CHR ''-''"
proof -
  have ne: "decimal n \<noteq> []" by (subst decimal.simps) simp
  then obtain d :: nat where d: "d < 10" "hd (decimal n) = char_of (48 + d)"
    using decimal_digit by (metis hd_in_set)
  then have "of_char (hd (decimal n)) = 48 + d" using digit_char [of d] by simp
  then have "hd (decimal n) \<noteq> CHR ''-''" by (auto simp: of_char_def)
  with ne show ?thesis by simp
qed

definition harmless :: "string \<Rightarrow> string \<Rightarrow> bool" where
  "harmless muxer a = (a \<in> fixed_switches \<or> hd a \<noteq> CHR ''-'' \<or> a = muxer)"

lemma harmless_fixed: "a \<in> fixed_switches \<Longrightarrow> harmless muxer a"
  by (simp add: harmless_def)

lemma harmless_plain: "hd a \<noteq> CHR ''-'' \<Longrightarrow> harmless muxer a"
  by (simp add: harmless_def)

lemma harmless_words:
  "harmless muxer ''file''" "harmless muxer ''fd''" "harmless muxer ''file,pipe''" "harmless muxer ''fd,pipe''"
  "harmless muxer ''pipe:1''" "harmless muxer ''copy''" "harmless muxer ''fd:''" "harmless muxer muxer"
  "harmless muxer (decimal n)" "harmless muxer (demuxer_argument_name d)" "harmless muxer (map_argument m)"
  using decimal_no_dash [of n "[]"]
  by (auto simp: harmless_def map_argument_def decimal_no_dash) (cases d; simp)

lemma harmless_switches:
  "harmless muxer ''-hide_banner''" "harmless muxer ''-nostdin''" "harmless muxer ''-n''" "harmless muxer ''-y''"
  "harmless muxer ''-protocol_whitelist''" "harmless muxer ''-progress''" "harmless muxer ''-f''"
  "harmless muxer ''-i''" "harmless muxer ''-map''" "harmless muxer ''-c''" "harmless muxer ''-fd''"
  by (rule harmless_fixed, simp add: fixed_switches_def)+

lemma list_all_concat: "list_all P (concat xss) \<longleftrightarrow> list_all (list_all P) xss"
  by (induction xss) auto

lemma harmless_blocks:
  "list_all (harmless muxer) (concat (map map_arguments maps))"
  "list_all (harmless muxer) (linux_input_blocks n inputs)"
  "\<forall>i \<in> set inputs. hd (if_path i) \<noteq> CHR ''-'' \<Longrightarrow> list_all (harmless muxer) (concat (map input_arguments inputs))"
proof -
  have "list_all (harmless muxer) (map_arguments m)" for m
    by (simp add: map_arguments_def harmless_words harmless_switches)
  then show "list_all (harmless muxer) (concat (map map_arguments maps))"
    by (simp add: list_all_concat list.pred_map) (simp add: list_all_iff)
  show "list_all (harmless muxer) (linux_input_blocks n inputs)"
    by (induction inputs arbitrary: n) (simp_all add: linux_input_block_def harmless_words harmless_switches)
  show "list_all (harmless muxer) (concat (map input_arguments inputs))"
    if "\<forall>i \<in> set inputs. hd (if_path i) \<noteq> CHR ''-''"
    using that by (induction inputs)
      (simp_all add: input_arguments_def harmless_words harmless_switches harmless_plain)
qed

lemma invocation_switches:
  assumes "validate_for_invocation c r = Some (Inr v)" "sr_operation r = StreamCopy p"
  shows "list_all (harmless (cp_output_muxer p)) (vi_arguments v)"
    and "list_all (harmless (cp_output_muxer p)) (br_arguments (vi_bound_runtime v))"
proof -
  note ok = validate_for_invocation_ok [OF assms(1)]
  have plan: "plan_validate p (request_system r) = Inr ()"
    using request_plan assms(2) ok by blast
  have paths: "\<forall>i \<in> set (cp_inputs p). hd (if_path i) \<noteq> CHR ''-''" "hd (cp_output_path p) \<noteq> CHR ''-''"
    using plan_paths(1) [OF plan] by (auto simp: confined_job_path_def list_all_iff)
  have direct: "list_all (harmless (cp_output_muxer p)) (plan_direct_arguments p)"
    using paths
    by (simp add: plan_direct_arguments_def harmless_words harmless_switches harmless_blocks harmless_plain)
  with assms(2) ok show "list_all (harmless (cp_output_muxer p)) (vi_arguments v)" by simp
  have "list_all (harmless (cp_output_muxer p)) arguments" if "linux_fd_arguments p = Some arguments" for arguments
    using that plan_counts [OF plan]
    by (auto simp: linux_fd_arguments_def linux_input_arguments_small harmless_words harmless_switches
        harmless_blocks)
  with direct assms(2) ok show "list_all (harmless (cp_output_muxer p)) (br_arguments (vi_bound_runtime v))"
    by (cases "request_system r") auto
qed

text \<open>
  The direct vector of an accepted plan has at most 462 arguments, below the 512 the contract
  allows. The vector for a Linux host has two arguments more per input, and its count is only checked
  for the invocation: a request with many inputs and maps is valid and can never be invoked.
\<close>

lemma direct_arguments_few:
  "plan_validate p host = Inr u \<Longrightarrow> length (plan_direct_arguments p) \<le> 462"
  using plan_counts [of p host u] by (simp add: length_direct_arguments)

lemma linux_vector_too_long:
  assumes "request_system r = LinuxHost" "sr_operation r = StreamCopy p"
    and "248 < 4 * length (cp_inputs p) + length (cp_stream_maps p)"
  shows "validate_for_invocation c r \<noteq> Some (Inr v)"
proof
  assume invoked: "validate_for_invocation c r = Some (Inr v)"
  note ok = validate_for_invocation_ok [OF invoked]
  have "length (cp_inputs p) \<le> 32"
    using request_plan assms(2) ok plan_counts by blast
  then obtain arguments where "linux_fd_arguments p = Some arguments"
    "length arguments = 16 + 8 * length (cp_inputs p) + 2 * length (cp_stream_maps p)"
    using linux_fd_arguments_small by blast
  with ok assms show False by (auto simp: validate_arguments_ok)
qed

end
