(* ===== verification/Ffmpeg_Evidence.thy ===== *)
theory Ffmpeg_Evidence
  imports Ffmpeg_Report Ffmpeg_Invocation
begin

text \<open>
  What an accepted report establishes: the course of the run and its length, what became of the
  child, and, for a run reported as validated, the whole chain from the request to the output.
\<close>

section \<open>The course of a run\<close>

definition run_states :: "FfmpegLifecycleObservationV1 list \<Rightarrow> FfmpegLifecycleStateV1 list" where
  "run_states = map lo_state"

text \<open>How many observations and how many milliseconds can follow a state.\<close>

fun steps_left :: "FfmpegLifecycleStateV1 \<Rightarrow> nat" where
  "steps_left Spawned = 5"
| "steps_left Running = 4"
| "steps_left GracefulStopRequested = 3"
| "steps_left ForcedKillRequested = 2"
| "steps_left Reaped = 1"
| "steps_left _ = 0"

abbreviation stop_millis :: "FfmpegSupervisionLimitsV1 \<Rightarrow> nat" where
  "stop_millis l \<equiv> unat (sl_forced_kill_timeout_millis l) + unat (sl_reap_timeout_millis l)"

fun millis_left :: "FfmpegSupervisionLimitsV1 \<Rightarrow> FfmpegLifecycleStateV1 \<Rightarrow> nat" where
  "millis_left l Spawned = unat (sl_startup_timeout_millis l) + (unat (sl_execution_timeout_millis l)
     + unat (sl_reap_timeout_millis l) + (unat (sl_graceful_stop_timeout_millis l)
     + (stop_millis l + unat (sl_ffprobe_timeout_millis l))))"
| "millis_left l Running = unat (sl_execution_timeout_millis l) + unat (sl_reap_timeout_millis l)
     + (unat (sl_graceful_stop_timeout_millis l) + (stop_millis l + unat (sl_ffprobe_timeout_millis l)))"
| "millis_left l GracefulStopRequested =
     unat (sl_graceful_stop_timeout_millis l) + (stop_millis l + unat (sl_ffprobe_timeout_millis l))"
| "millis_left l ForcedKillRequested = stop_millis l + unat (sl_ffprobe_timeout_millis l)"
| "millis_left l Reaped = unat (sl_ffprobe_timeout_millis l)"
| "millis_left l _ = 0"

lemma unat_saturating_add_le: "unat (saturating_add a b) \<le> unat a + unat b" for a b :: u64
proof (cases "checked_add a b")
  case None
  then show ?thesis
    using unat_bound [of "- 1 :: u64"] checked_add_eq_None_iff [of a b] by (simp add: saturating_add_def)
next
  case (Some c)
  then show ?thesis using checked_add_eq_Some_iff [of a b c] by (simp add: saturating_add_def)
qed

lemma unat_saturating_sub: "unat (saturating_sub a b) = unat a - unat b" for a b :: u64
  by (auto simp: saturating_sub_def unat_diff_word word_le_nat_alt)

lemma edge_budget:
  assumes "edge_maximum l s s' = Some m" "valid_lifecycle_edge (Some s) s'"
  shows "unat m + millis_left l s' \<le> millis_left l s" "steps_left s' < steps_left s"
  using assms
    unat_saturating_add_le [of "sl_execution_timeout_millis l" "sl_reap_timeout_millis l"]
    unat_saturating_add_le [of "sl_forced_kill_timeout_millis l" "sl_reap_timeout_millis l"]
  by (cases s; auto split: if_splits)+

lemma observation_step:
  assumes "check_observations l i (Some s) t (ob # rest) = Inr final" "0 < i"
  shows "check_observations l (Suc i) (Some (lo_state ob)) (lo_monotonic_millis ob) rest = Inr final"
    and "valid_lifecycle_edge (Some s) (lo_state ob)"
    and "steps_left (lo_state ob) < steps_left s"
    and "t \<le> lo_monotonic_millis ob"
    and "unat (lo_monotonic_millis ob) + millis_left l (lo_state ob) \<le> unat t + millis_left l s"
proof -
  show "check_observations l (Suc i) (Some (lo_state ob)) (lo_monotonic_millis ob) rest = Inr final"
    and edge: "valid_lifecycle_edge (Some s) (lo_state ob)"
    and "t \<le> lo_monotonic_millis ob"
    using assms by (simp_all add: result_simps not_less)
  obtain m where m: "edge_maximum l s (lo_state ob) = Some m"
    "saturating_sub (lo_monotonic_millis ob) t \<le> m"
    using assms(1) by (auto simp: result_simps split: option.splits)
  show "steps_left (lo_state ob) < steps_left s"
    by (rule edge_budget(2) [OF m(1) edge])
  have "unat (lo_monotonic_millis ob) - unat t \<le> unat m"
    using m(2) by (simp add: word_le_nat_alt unat_saturating_sub)
  with edge_budget(1) [OF m(1) edge]
  show "unat (lo_monotonic_millis ob) + millis_left l (lo_state ob) \<le> unat t + millis_left l s"
    by linarith
qed

lemma observations_bounded:
  "check_observations l i (Some s) t obs = Inr final \<Longrightarrow> 0 < i \<Longrightarrow>
     length obs \<le> steps_left s
     \<and> (\<forall>ob \<in> set obs. unat (lo_monotonic_millis ob) \<le> unat t + millis_left l s)
     \<and> sorted (map lo_monotonic_millis obs) \<and> (\<forall>ob \<in> set obs. t \<le> lo_monotonic_millis ob)"
proof (induction obs arbitrary: i s t)
  case (Cons ob rest)
  note step = observation_step [OF Cons.prems]
  have later: "length rest \<le> steps_left (lo_state ob)"
    "\<forall>x \<in> set rest. unat (lo_monotonic_millis x) \<le> unat (lo_monotonic_millis ob) + millis_left l (lo_state ob)"
    "sorted (map lo_monotonic_millis rest)" "\<forall>x \<in> set rest. lo_monotonic_millis ob \<le> lo_monotonic_millis x"
    using Cons.IH [OF step(1)] by simp_all
  have "\<forall>x \<in> set (ob # rest). unat (lo_monotonic_millis x) \<le> unat t + millis_left l s"
    using later(2) step(5) by fastforce
  moreover have "\<forall>x \<in> set (ob # rest). t \<le> lo_monotonic_millis x"
    using later(4) step(4) by (auto intro: order_trans)
  ultimately show ?case
    using later step(3) by (simp add: Suc_le_eq)
qed simp

text \<open>The whole sequence: it starts with \<open>Spawned\<close> within the startup time.\<close>

lemma observations_start:
  assumes "check_observations l 0 None 0 obs = Inr final" "obs \<noteq> []"
  obtains ob rest where "obs = ob # rest" "lo_state ob = Spawned"
    "lo_monotonic_millis ob \<le> sl_startup_timeout_millis l"
    "check_observations l 1 (Some Spawned) (lo_monotonic_millis ob) rest = Inr final"
  using assms by (cases obs) (auto simp: result_simps)

definition run_millis :: "FfmpegSupervisionLimitsV1 \<Rightarrow> nat" where
  "run_millis l = 2 * unat (sl_startup_timeout_millis l) + unat (sl_execution_timeout_millis l)
     + unat (sl_graceful_stop_timeout_millis l) + unat (sl_forced_kill_timeout_millis l)
     + 2 * unat (sl_reap_timeout_millis l) + unat (sl_ffprobe_timeout_millis l)"

lemma lifecycle_bounded:
  assumes "check_observations l 0 None 0 obs = Inr final" "obs \<noteq> []"
  shows "length obs \<le> 6 \<and> sorted (map lo_monotonic_millis obs)
    \<and> (\<forall>ob \<in> set obs. unat (lo_monotonic_millis ob) \<le> run_millis l)"
proof -
  obtain ob rest where obs: "obs = ob # rest"
    "lo_monotonic_millis ob \<le> sl_startup_timeout_millis l"
    "check_observations l 1 (Some Spawned) (lo_monotonic_millis ob) rest = Inr final"
    using observations_start [OF assms] by metis
  have "unat (lo_monotonic_millis ob) \<le> unat (sl_startup_timeout_millis l)"
    using obs(2) by (simp add: word_le_nat_alt)
  with observations_bounded [OF obs(3)] obs(1) show ?thesis
    by (fastforce simp: run_millis_def)
qed

text \<open>The states of a run form a path of the transition table.\<close>

fun state_path :: "FfmpegLifecycleStateV1 \<Rightarrow> FfmpegLifecycleStateV1 list \<Rightarrow> bool" where
  "state_path s [] = True"
| "state_path s (s' # rest) = (valid_lifecycle_edge (Some s) s' \<and> state_path s' rest)"

lemma observations_path:
  "check_observations l i (Some s) t obs = Inr final \<Longrightarrow> 0 < i \<Longrightarrow>
     state_path s (run_states obs) \<and> final = Some (last (s # run_states obs))"
proof (induction obs arbitrary: i s t)
  case (Cons ob rest)
  from Cons.IH [OF observation_step(1) [OF Cons.prems]] observation_step(2) [OF Cons.prems]
  show ?case by (simp add: run_states_def)
qed (simp add: run_states_def)

lemma validated_path:
  assumes "state_path Spawned states" "last (Spawned # states) = Validated"
    "GracefulStopRequested \<notin> set states" "ForcedKillRequested \<notin> set states"
  shows "states = [Running, Reaped, Validated]"
proof -
  obtain r1 where 1: "states = Running # r1" using assms by (cases states) auto
  obtain r2 where 2: "r1 = Reaped # r2"
    using assms unfolding 1 by (cases r1; cases "tl r1") (auto split: if_splits)
  obtain r3 where 3: "r2 = Validated # r3" using assms unfolding 1 2 by (cases r2) auto
  have "r3 = []" using assms unfolding 1 2 3 by (cases r3) auto
  with 1 2 3 show ?thesis by simp
qed

lemma lifecycle_parts:
  assumes "validate_ffmpeg_lifecycle obs outcome child l = Inr u"
  shows "check_observations l 0 None 0 obs = Inr (Some (expected_last outcome child))" "obs \<noteq> []"
  using assms by (auto simp: validate_ffmpeg_lifecycle_def result_simps)

lemma lifecycle_path:
  assumes "validate_ffmpeg_lifecycle obs outcome child l = Inr u"
  obtains states where "run_states obs = Spawned # states" "state_path Spawned states"
    "last (Spawned # states) = expected_last outcome child"
proof -
  obtain ob rest where obs: "obs = ob # rest" "lo_state ob = Spawned"
    "check_observations l 1 (Some Spawned) (lo_monotonic_millis ob) rest
       = Inr (Some (expected_last outcome child))"
    using observations_start [OF lifecycle_parts [OF assms]] by metis
  show ?thesis
    using that [of "run_states rest"] obs observations_path [OF obs(3)] by (simp add: run_states_def)
qed

lemma lifecycle_validated:
  assumes "validate_ffmpeg_lifecycle obs OutcomeValidated child l = Inr u"
  shows "run_states obs = [Spawned, Running, Reaped, Validated]"
proof -
  obtain states where states: "run_states obs = Spawned # states" "state_path Spawned states"
    "last (Spawned # states) = Validated"
    using lifecycle_path [OF assms] by auto
  have "\<not> saw GracefulStopRequested obs" "\<not> saw ForcedKillRequested obs"
    using assms by (auto simp: validate_ffmpeg_lifecycle_def result_simps Let_def)
  then have "GracefulStopRequested \<notin> set (run_states obs)" "ForcedKillRequested \<notin> set (run_states obs)"
    by (auto simp: saw_def run_states_def list_ex_iff)
  then have "states = [Running, Reaped, Validated]"
    using states by (intro validated_path) auto
  with states(1) show ?thesis by simp
qed

section \<open>Output facts\<close>

lemma check_streams_ok:
  "check_streams limits maps n streams = Inr u \<Longrightarrow>
     map sf_selected_source streams = take (length streams) (drop n maps)
     \<and> map sf_output_payload_sha256 streams = map (sm_source_payload_sha256 \<circ> sf_selected_source) streams
     \<and> map sf_kind streams = map (sm_stream_kind \<circ> sf_selected_source) streams
     \<and> list_all (\<lambda>s. \<not> bad_geometry limits s (sf_kind s)) streams"
proof (induction streams arbitrary: n)
  case (Cons s rest)
  from Cons.prems have source: "map_at maps n = Some (sf_selected_source s)"
      "sm_stream_kind (sf_selected_source s) = sf_kind s"
    and same: "sm_source_payload_sha256 (sf_selected_source s) = sf_output_payload_sha256 s"
      "\<not> bad_geometry limits s (sf_kind s)"
    and later: "check_streams limits maps (Suc n) rest = Inr u"
    by (auto simp: Let_def result_simps split: option.splits)
  from source(1) have "n < length maps" "maps ! n = sf_selected_source s"
    by (auto simp: map_at_def split: if_splits)
  then have "drop n maps = sf_selected_source s # drop (Suc n) maps"
    by (simp add: Cons_nth_drop_Suc [symmetric])
  with source(2) same Cons.IH [OF later] show ?case by simp
qed simp

lemma facts_validate_ok:
  assumes "facts_validate f limits (StreamCopy p) = Inr u"
  shows "map sf_selected_source (of_streams f) = cp_stream_maps p"
    and "map sf_output_payload_sha256 (of_streams f) = map sm_source_payload_sha256 (cp_stream_maps p)"
    and "map sf_kind (of_streams f) = map sm_stream_kind (cp_stream_maps p)"
    and "list_all (\<lambda>s. \<not> bad_geometry limits s (sf_kind s)) (of_streams f)"
    and "cp_output_muxer p \<in> set (of_format_names f)"
    and "of_file_size_bytes f \<noteq> 0" "of_file_size_bytes f \<le> sl_output_max_file_size_bytes limits"
    and "of_duration_millis f \<le> sl_output_max_duration_millis limits"
proof -
  have streams: "check_streams limits (cp_stream_maps p) 0 (of_streams f) = Inr ()"
    and count: "length (of_streams f) = length (cp_stream_maps p)"
    and sorted: "strictly_sorted_unique (of_format_names f)"
      "binary_search (of_format_names f) (cp_output_muxer p)"
    using assms by (simp_all add: result_simps)
  show source: "map sf_selected_source (of_streams f) = cp_stream_maps p"
    using check_streams_ok [OF streams] count by simp
  show "map sf_output_payload_sha256 (of_streams f) = map sm_source_payload_sha256 (cp_stream_maps p)"
    and "map sf_kind (of_streams f) = map sm_stream_kind (cp_stream_maps p)"
    and "list_all (\<lambda>s. \<not> bad_geometry limits s (sf_kind s)) (of_streams f)"
    using check_streams_ok [OF streams] unfolding source [symmetric] by simp_all
  show "cp_output_muxer p \<in> set (of_format_names f)"
    using sorted by (simp add: strictly_sorted_unique_iff binary_search_iff)
  show "of_file_size_bytes f \<noteq> 0" "of_file_size_bytes f \<le> sl_output_max_file_size_bytes limits"
    "of_duration_millis f \<le> sl_output_max_duration_millis limits"
    using assms by (simp_all add: result_simps not_less)
qed

section \<open>Accepted reports\<close>

lemma report_parts:
  assumes "report_validate_against c rep r = Some (Inr ())"
  obtains v where "validate_for_invocation c r = Some (Inr v)"
    "validate_correlation rep r v = Inr ()" "validate_outcome rep r = Inr ()"
  using assms by (auto simp: report_validate_against_def result_simps)

lemma correlation_ok:
  assumes "validate_correlation rep r v = Inr u"
  shows "rp_request_id rep = sr_request_id r" "rp_job_id rep = sr_job_id r"
    and "rp_operation_plan_sha256 rep = vi_operation_plan_sha256 v"
    and "rp_request_contract_sha256 rep = vi_request_contract_sha256 v"
    and "rp_host rep = xi_host (tc_ffmpeg (sr_toolchain r))"
  using assms by (auto simp: validate_correlation_def correlation_mismatch_def result_simps)

text \<open>The containment that accounts for every process of the run, on each host.\<close>

fun contained :: "FfmpegHostOperatingSystemV1 \<Rightarrow> FfmpegContainmentEvidenceV1 \<Rightarrow> bool" where
  "contained WindowsHost e = (e = WindowsJob True True ActiveZero)"
| "contained LinuxHost e = (e = UnixProcessGroup 0 True)"

lemma containment_proven:
  "validate_containment e host outcome = Inr u \<Longrightarrow> \<not> may_be_unproven outcome
     \<Longrightarrow> contained (hi_operating_system host) e"
  by (cases "hi_operating_system host"; cases e) (auto simp: validate_containment_def result_simps)

lemma spawned_parts:
  "validate_spawned rep r = Inr u \<Longrightarrow>
     validate_ffmpeg_lifecycle (rp_lifecycle rep) (rp_terminal_outcome rep) (rp_direct_child rep) (sr_limits r) = Inr ()
     \<and> validate_direct_child (rp_terminal_outcome rep) (rp_direct_child rep) = Inr ()
     \<and> validate_containment (rp_containment rep) (rp_host rep) (rp_terminal_outcome rep) = Inr ()
     \<and> validate_output r (rp_terminal_outcome rep) (rp_output_validation rep) = Inr ()"
  by (simp add: validate_spawned_def result_simps)

lemma outcome_spawned:
  "validate_outcome rep r = Inr u \<Longrightarrow> rp_lifecycle rep \<noteq> [] \<Longrightarrow> validate_spawned rep r = Inr ()"
  by (auto simp: validate_outcome_def pre_spawn_shape_is_valid_def result_simps
      split: FfmpegTerminalOutcomeV1.splits if_splits)


text \<open>
  C1: A report accepted as validated answers the request with the very digests of its encodings; the
  run was spawned, ran, was reaped and then validated, with no stop requested; the child exited with
  zero and not by a signal, nothing of the run is left, and the output consists of exactly the mapped
  streams in order, each with the payload of its source, in the requested format and within limits.
\<close>

theorem ffmpeg_validated_report_sound:
  assumes "report_validate_against c rep r = Some (Inr ())"
    and "rp_terminal_outcome rep = OutcomeValidated" and "sr_operation r = StreamCopy p"
  shows "supervision_request_validate r = Inr ()
    \<and> canonical_operation_plan_sha256 c r = Inr (rp_operation_plan_sha256 rep)
    \<and> canonical_request_contract_sha256 c r = Inr (rp_request_contract_sha256 rep)
    \<and> run_states (rp_lifecycle rep) = [Spawned, Running, Reaped, Validated]
    \<and> (\<exists>receipt. rp_direct_child rep = ChildReaped (Some 0) False receipt)
    \<and> contained (request_system r) (rp_containment rep)
    \<and> (\<exists>facts. rp_output_validation rep = OutputValidated (xi_content_sha256 (tc_ffprobe (sr_toolchain r))) facts
        \<and> map sf_selected_source (of_streams facts) = cp_stream_maps p
        \<and> map sf_output_payload_sha256 (of_streams facts) = map sm_source_payload_sha256 (cp_stream_maps p)
        \<and> cp_output_muxer p \<in> set (of_format_names facts)
        \<and> of_file_size_bytes facts \<le> sl_output_max_file_size_bytes (sr_limits r))"
proof -
  obtain v where v: "validate_for_invocation c r = Some (Inr v)"
    "validate_correlation rep r v = Inr ()" "validate_outcome rep r = Inr ()"
    using report_parts [OF assms(1)] by metis
  note request = validate_for_invocation_ok [OF v(1)] and match = correlation_ok [OF v(2)]
  have spawned: "validate_spawned rep r = Inr ()"
    using v(3) assms(2) by (simp add: validate_outcome_def)
  note parts = spawned_parts [OF spawned, unfolded assms(2)]
  have "run_states (rp_lifecycle rep) = [Spawned, Running, Reaped, Validated]"
    using parts by (blast intro: lifecycle_validated)
  moreover have "\<exists>receipt. rp_direct_child rep = ChildReaped (Some 0) False receipt"
    using parts by (cases "rp_direct_child rep") (auto simp: result_simps split: if_splits)
  moreover have "contained (request_system r) (rp_containment rep)"
    using parts containment_proven [of "rp_containment rep" "rp_host rep" OutcomeValidated "()"] match(5)
    by (simp add: may_be_unproven_def)
  moreover obtain facts where facts:
    "rp_output_validation rep = OutputValidated (xi_content_sha256 (tc_ffprobe (sr_toolchain r))) facts"
    "facts_validate facts (sr_limits r) (StreamCopy p) = Inr ()"
    using parts assms(3) by (cases "rp_output_validation rep") (simp_all add: result_simps)
  moreover note facts_validate_ok [OF facts(2)]
  ultimately show ?thesis using request match by auto
qed

lemma outcome_cases:
  "validate_outcome rep r = Inr u \<Longrightarrow>
     (pre_spawn_shape_is_valid rep
        \<and> rp_terminal_outcome rep \<notin> {OutcomeValidated, Cancelled True, Failed ExitFailed, Failed ReapFailed})
     \<or> validate_spawned rep r = Inr ()"
  by (auto simp: validate_outcome_def result_simps split: FfmpegTerminalOutcomeV1.splits if_splits)

text \<open>
  No accepted report leaves a child unaccounted for: it was never spawned and nothing was observed,
  or it was reaped and contained unless the failure says otherwise, or the failure is the reap itself.
\<close>

lemma child_accounted:
  assumes "report_validate_against c rep r = Some (Inr ())"
  shows "case rp_direct_child rep of
      NotSpawned \<Rightarrow> pre_spawn_shape_is_valid rep
        \<and> rp_terminal_outcome rep \<notin> {OutcomeValidated, Cancelled True, Failed ExitFailed, Failed ReapFailed}
    | ChildReapUnproven _ \<Rightarrow> may_be_unproven (rp_terminal_outcome rep)
        \<and> last (run_states (rp_lifecycle rep)) = ReapUnproven
    | ChildReaped _ _ _ \<Rightarrow> Reaped \<in> set (run_states (rp_lifecycle rep))
        \<and> (may_be_unproven (rp_terminal_outcome rep) \<or> contained (request_system r) (rp_containment rep))"
proof -
  obtain v where v: "validate_correlation rep r v = Inr ()" "validate_outcome rep r = Inr ()"
    using report_parts [OF assms] by metis
  from outcome_cases [OF v(2)] show ?thesis
  proof
    assume "validate_spawned rep r = Inr ()"
    note parts = spawned_parts [OF this]
    then obtain states where states: "run_states (rp_lifecycle rep) = Spawned # states"
        "state_path Spawned states"
        "last (Spawned # states) = expected_last (rp_terminal_outcome rep) (rp_direct_child rep)"
      using lifecycle_path by blast
    have contained: "contained (request_system r) (rp_containment rep)"
      if "\<not> may_be_unproven (rp_terminal_outcome rep)"
      using that parts containment_proven correlation_ok(5) [OF v(1)] by metis
    show ?thesis
    proof (cases "rp_direct_child rep")
      case (ChildReaped code ended receipt)
      have "Reaped \<in> set (Spawned # states)"
      proof (cases "rp_terminal_outcome rep = OutcomeValidated")
        case True
        with parts have "run_states (rp_lifecycle rep) = [Spawned, Running, Reaped, Validated]"
          by (metis lifecycle_validated)
        then have "states = [Running, Reaped, Validated]" using states(1) by simp
        then show ?thesis by simp
      next
        case False
        then have "expected_last (rp_terminal_outcome rep) (rp_direct_child rep) = Reaped"
          by (cases "rp_terminal_outcome rep") (simp_all add: ChildReaped)
        with states(3) show ?thesis by (metis last_in_set list.discI)
      qed
      with ChildReaped states(1) contained show ?thesis by auto
    qed (use parts states in \<open>auto simp: result_simps may_be_unproven_def\<close>)
  qed (auto simp: pre_spawn_shape_is_valid_def)
qed

end
