(* ===== verification/Ffmpeg_Examples.thy ===== *)
theory Ffmpeg_Examples
  imports Ffmpeg_Evidence
begin

text \<open>
  The request and report of \<open>fforager-contracts/testdata/ffmpeg-supervision-v1.0.json\<close>, with a
  codec whose hash is constant, so that the properties apply to them.
\<close>

definition digest_of :: "char \<Rightarrow> string" where
  "digest_of ch = replicate 64 ch"

definition fixture_codec :: CanonicalCodec where
  "fixture_codec = \<lparr> cd_operation = (\<lambda>_. Some []), cd_request = (\<lambda>_. Some []), cd_bound = (\<lambda>_. Some []),
     cd_sha256 = (\<lambda>_. replicate 32 0x22) \<rparr>"

definition fixture_host :: FfmpegHostIdentityV1 where
  "fixture_host = \<lparr> hi_operating_system = WindowsHost, hi_architecture = X86_64 \<rparr>"

definition fixture_tool ::
  "FfmpegExecutableKindV1 \<Rightarrow> string \<Rightarrow> char \<Rightarrow> char \<Rightarrow> char \<Rightarrow> string list \<Rightarrow> FfmpegExecutableIdentityV1" where
  "fixture_tool kind name content version probe capabilities =
     \<lparr> xi_kind = kind, xi_absolute_path = ''C:'' @ [CHR 92] @ ''FerricTools'' @ [CHR 92] @ name @ ''.exe'',
       xi_file_identity = ''windows-volume-1:file-100:usn-200'', xi_content_sha256 = digest_of content,
       xi_version_output_sha256 = digest_of version, xi_normalized_version = name @ '' 8.1.1'',
       xi_host = fixture_host,
       xi_capability_binding = \<lparr> cb_executable_content_sha256 = digest_of content,
         cb_normalized_probe_sha256 = digest_of probe, cb_capabilities = capabilities \<rparr> \<rparr>"

definition fixture_ffmpeg :: FfmpegExecutableIdentityV1 where
  "fixture_ffmpeg = fixture_tool FfmpegTool ''ffmpeg'' CHR ''a'' CHR ''c'' CHR ''e''
     [''demuxer:aac'', ''demuxer:h264'', ''muxer:matroska'', ''progress'', ''stream_copy'']"

definition fixture_ffprobe :: FfmpegExecutableIdentityV1 where
  "fixture_ffprobe = fixture_tool FfprobeTool ''ffprobe'' CHR ''b'' CHR ''d'' CHR ''f''
     [''json_output'', ''stream_metadata'']"

definition fixture_maps :: "FfmpegStreamMapV1 list" where
  "fixture_maps =
     [\<lparr> sm_input_index = 0, sm_stream_kind = Audio, sm_stream_index = 0,
        sm_source_payload_sha256 = digest_of CHR ''5'' \<rparr>,
      \<lparr> sm_input_index = 1, sm_stream_kind = Video, sm_stream_index = 0,
        sm_source_payload_sha256 = digest_of CHR ''6'' \<rparr>]"

definition fixture_plan :: FfmpegStreamCopyPlanV1 where
  "fixture_plan =
     \<lparr> cp_inputs = [\<lparr> if_path = ''input/audio.aac'', if_demuxer = AacAdts \<rparr>,
                    \<lparr> if_path = ''input/video.h264'', if_demuxer = H264AnnexB \<rparr>],
       cp_stream_maps = fixture_maps, cp_output_path = ''output/merged.mkv'', cp_output_muxer = ''matroska'' \<rparr>"

definition fixture_limits :: FfmpegSupervisionLimitsV1 where
  "fixture_limits =
     \<lparr> sl_startup_timeout_millis = 5000, sl_execution_timeout_millis = 300000,
       sl_graceful_stop_timeout_millis = 2000, sl_forced_kill_timeout_millis = 5000,
       sl_reap_timeout_millis = 5000, sl_ffprobe_timeout_millis = 30000,
       sl_progress_max_records = 100000, sl_progress_max_total_bytes = 8388608,
       sl_progress_max_record_bytes = 8192, sl_progress_max_field_bytes = 1024,
       sl_progress_max_parser_steps = 400000, sl_progress_max_silence_millis = 30000,
       sl_consumer_stall_timeout_millis = 5000, sl_stderr_max_total_bytes = 33554432,
       sl_stderr_tail_bytes = 65536, sl_pipe_allocation_bytes = 262144, sl_output_max_streams = 16,
       sl_output_max_duration_millis = 86400000, sl_output_max_file_size_bytes = 10737418240,
       sl_output_max_width = 8192, sl_output_max_height = 8192, sl_output_max_channels = 32 \<rparr>"

definition fixture_resources :: FfmpegResourceReferenceV1 where
  "fixture_resources =
     \<lparr> fr_resource_contract_schema_id = RESOURCE_VECTOR_SCHEMA_ID,
       fr_byte_credit_contract_schema_id = BYTE_CREDIT_SCHEMA_ID, fr_pipe_stage = FfmpegPipe,
       fr_claim = rv_default\<lparr> memory_bytes := 4194304, disk_read_bytes_in_flight := 4194304,
         disk_write_bytes_in_flight := 4194304, open_handles := 8, cpu_heavy_slots := 1,
         ffmpeg_processes := 1, ffmpeg_cpu_threads := 4 \<rparr>,
       fr_progress_pipe_bytes = 65536, fr_stderr_pipe_bytes = 65536 \<rparr>"

definition fixture_request :: FfmpegSupervisionRequestV1 where
  "fixture_request =
     \<lparr> sr_schema_id = FFMPEG_SUPERVISION_SCHEMA_ID, sr_version = FFMPEG_SUPERVISION_VERSION,
       sr_request_id = ''request_ffmpeg_stream_copy_1'', sr_job_id = ''job_ffmpeg_stream_copy_1'',
       sr_operation_plan_sha256 = digest_of CHR ''2'',
       sr_toolchain = \<lparr> tc_ffmpeg = fixture_ffmpeg, tc_ffprobe = fixture_ffprobe \<rparr>,
       sr_operation = StreamCopy fixture_plan,
       sr_environment = \<lparr> ev_inherit_parent = False,
         ev_trusted_bindings = [HostSystemRoot, JobTemporaryDirectory] \<rparr>,
       sr_working_directory =
         ''C:'' @ [CHR 92] @ ''FerricJobs'' @ [CHR 92] @ ''job_ffmpeg_stream_copy_1'',
       sr_allowed_protocols = [FileProtocol], sr_allowed_input_mechanisms = [AuditedElementaryFile],
       sr_io = \<lparr> io_progress_channel = StdoutPipeOne, io_diagnostic_channel = StderrTail,
         io_output_is_job_scoped_file = True, io_stdin_disabled = True \<rparr>,
       sr_limits = fixture_limits, sr_resources = fixture_resources \<rparr>"

section \<open>The request is accepted\<close>

lemma digest_of_ok: "hex_char ch \<Longrightarrow> ffmpeg_digest_ok (digest_of ch)"
  by (simp add: ffmpeg_digest_ok_def digest_of_def list_all_iff)

lemma fixture_tools: "validate_toolchain \<lparr> tc_ffmpeg = fixture_ffmpeg, tc_ffprobe = fixture_ffprobe \<rparr> = Inr ()"
  by code_simp

lemma fixture_limits_ok: "limits_validate fixture_limits = Inr ()"
  by code_simp

lemma fixture_resources_ok: "resources_validate fixture_resources fixture_limits = Inr ()"
  by code_simp

lemma fixture_operation_ok: "validate_operation fixture_ffmpeg (StreamCopy fixture_plan) = Inr ()"
  by code_simp

lemma fixture_arguments_parts:
  "plan_direct_arguments fixture_plan \<noteq> []" "length (plan_direct_arguments fixture_plan) \<le> 512"
  "list_all (\<lambda>a. ffmpeg_text_ok a MAX_ARGUMENT_BYTES) (plan_direct_arguments fixture_plan)"
  "vector_bytes (plan_direct_arguments fixture_plan) \<le> 65536"
  by code_simp+

lemma fixture_arguments_ok: "validate_arguments (plan_direct_arguments fixture_plan) = Inr ()"
  using fixture_arguments_parts by (simp add: validate_arguments_ok list_all_iff)

lemma fixture_directory_ok:
  "validate_absolute_path ''working_directory'' (sr_working_directory fixture_request) WindowsHost = Inr ()"
  by code_simp

lemma fixture_capabilities:
  "require_capability fixture_ffprobe ''json_output'' = Inr ()"
  "require_capability fixture_ffprobe ''stream_metadata'' = Inr ()"
  by code_simp+

lemma fixture_system: "hi_operating_system (xi_host fixture_ffmpeg) = WindowsHost"
  by (simp add: fixture_ffmpeg_def fixture_tool_def fixture_host_def)

text \<open>Neither identifier of the request is part of what is checked.\<close>

lemma fixture_request_ok: "supervision_request_validate (fixture_request\<lparr> sr_request_id := n \<rparr>) = Inr ()"
  using fixture_tools fixture_limits_ok fixture_resources_ok fixture_operation_ok fixture_arguments_ok
    fixture_directory_ok fixture_capabilities digest_of_ok [of "CHR ''2''"]
  by (simp add: supervision_request_validate_def fixture_request_def fixture_system
      validate_ffmpeg_count_def MAX_ENVIRONMENT_BINDINGS_def validate_ffmpeg_digest_def
      ffmpeg_digest_ok_def hex_char_def byte_def is_ascii_digit_def list_ex_iff list_all_iff
      del: validate_operation.simps)

section \<open>Its invocation\<close>

definition fixture_token :: FfmpegValidatedInvocationV1 where
  "fixture_token =
     \<lparr> vi_request_contract_sha256 = digest_of CHR ''2'', vi_operation_plan_sha256 = digest_of CHR ''2'',
       vi_arguments = plan_direct_arguments fixture_plan,
       vi_bound_runtime = \<lparr> br_projection_id = FFMPEG_BOUND_RUNTIME_INVOCATION_PROJECTION_ID,
         br_request_contract_sha256 = digest_of CHR ''2'', br_operation_plan_sha256 = digest_of CHR ''2'',
         br_arguments = plan_direct_arguments fixture_plan, br_canonical_sha256 = digest_of CHR ''2'' \<rparr> \<rparr>"

lemma fixture_hash: "canonical_sha256 (\<lambda>_. replicate 32 0x22) identifier (Some m) = Inr (digest_of CHR ''2'')"
proof -
  have "concat (map hex_byte (replicate 32 0x22)) = digest_of CHR ''2''" by code_simp
  then show ?thesis by (simp add: canonical_sha256_def)
qed

lemma fixture_invocation:
  "validate_for_invocation fixture_codec (fixture_request\<lparr> sr_request_id := n \<rparr>) = Some (Inr fixture_token)"
proof -
  have fields: "sr_operation (fixture_request\<lparr> sr_request_id := n \<rparr>) = StreamCopy fixture_plan"
    "sr_operation_plan_sha256 (fixture_request\<lparr> sr_request_id := n \<rparr>) = digest_of CHR ''2''"
    "request_system (fixture_request\<lparr> sr_request_id := n \<rparr>) = WindowsHost"
    by (simp_all add: fixture_request_def fixture_system)
  have codec: "cd_sha256 fixture_codec = (\<lambda>_. replicate 32 0x22)" "cd_operation fixture_codec x = Some []"
    "cd_request fixture_codec y = Some []" "cd_bound fixture_codec z = Some []" for x y z
    by (simp_all add: fixture_codec_def)
  show ?thesis
    by (simp only: validate_for_invocation_def fixture_request_ok canonical_operation_plan_sha256_def
        canonical_request_contract_sha256_def bound_invocation_def fields codec fixture_hash rbind_simps
        runtime_arguments.simps request_direct_arguments.simps fixture_arguments_ok not_True_eq_False
        simp_thms if_False sum.case prod.case option.map fixture_token_def)
qed

lemma fixture_token_accepted:
  "invocation_validate_against fixture_codec fixture_token (fixture_request\<lparr> sr_request_id := n \<rparr>) = Some (Inr ())"
  by (simp add: token_accepted fixture_invocation)

lemma fixture_unchanged: "fixture_request\<lparr> sr_request_id := ''request_ffmpeg_stream_copy_1'' \<rparr> = fixture_request"
  by (simp add: fixture_request_def)



section \<open>Its report\<close>

definition fixture_fact :: "u32 \<Rightarrow> FfmpegStreamMapV1 \<Rightarrow> string \<Rightarrow> FfmpegOutputStreamFactV1" where
  "fixture_fact i m codec =
     \<lparr> sf_index = i, sf_kind = sm_stream_kind m, sf_selected_source = m,
       sf_output_payload_sha256 = sm_source_payload_sha256 m, sf_codec_name = codec,
       sf_width = (if sm_stream_kind m = Video then Some 1920 else None),
       sf_height = (if sm_stream_kind m = Video then Some 1080 else None),
       sf_channels = (if sm_stream_kind m = Audio then Some 2 else None) \<rparr>"

definition fixture_facts :: FfmpegOutputFactsV1 where
  "fixture_facts =
     \<lparr> of_output_identity_sha256 = digest_of CHR ''4'', of_file_size_bytes = 1048576,
       of_duration_millis = 10000, of_format_names = [''matroska''],
       of_streams = [fixture_fact 0 (fixture_maps ! 0) ''aac'', fixture_fact 1 (fixture_maps ! 1) ''h264''] \<rparr>"

definition fixture_report :: FfmpegSupervisionReportV1 where
  "fixture_report =
     \<lparr> rp_schema_id = FFMPEG_SUPERVISION_REPORT_SCHEMA_ID, rp_version = FFMPEG_SUPERVISION_VERSION,
       rp_request_id = ''request_ffmpeg_stream_copy_1'', rp_job_id = ''job_ffmpeg_stream_copy_1'',
       rp_source_commit = ''84462ff2ac9fb3bc5b3ff9e5f554949a95545e3f'',
       rp_request_contract_sha256 = digest_of CHR ''2'', rp_operation_plan_sha256 = digest_of CHR ''2'',
       rp_ffmpeg_content_sha256 = digest_of CHR ''a'', rp_ffprobe_content_sha256 = digest_of CHR ''b'',
       rp_host = fixture_host,
       rp_lifecycle = [\<lparr> lo_sequence = 1, lo_state = Spawned, lo_monotonic_millis = 1 \<rparr>,
         \<lparr> lo_sequence = 2, lo_state = Running, lo_monotonic_millis = 2 \<rparr>,
         \<lparr> lo_sequence = 3, lo_state = Reaped, lo_monotonic_millis = 100 \<rparr>,
         \<lparr> lo_sequence = 4, lo_state = Validated, lo_monotonic_millis = 120 \<rparr>],
       rp_terminal_outcome = OutcomeValidated,
       rp_direct_child = ChildReaped (Some 0) False (digest_of CHR ''3''),
       rp_containment = WindowsJob True True ActiveZero,
       rp_output_validation = OutputValidated (digest_of CHR ''b'') fixture_facts,
       rp_residual_uncertainty = [''Windows Job evidence does not by itself remove the ''
         @ ''suspended-parent-death residual before brokered creation is proven.''] \<rparr>"

lemma fixture_correlation: "validate_correlation fixture_report fixture_request fixture_token = Inr ()"
  by code_simp

lemma fixture_residuals: "validate_residuals (rp_residual_uncertainty fixture_report) = Inr ()"
  by code_simp

lemma fixture_lifecycle:
  "validate_ffmpeg_lifecycle (rp_lifecycle fixture_report) OutcomeValidated
     (rp_direct_child fixture_report) fixture_limits = Inr ()"
  by (simp add: validate_ffmpeg_lifecycle_def fixture_report_def fixture_limits_def MAX_REPORT_EVENTS_def
      u64_or_max_def u64_try_from_def saturating_sub_def saturating_add_def checked_add_def saw_def)

lemma fixture_digests:
  "ffmpeg_digest_ok (digest_of CHR ''4'')" "ffmpeg_digest_ok (digest_of CHR ''5'')"
  "ffmpeg_digest_ok (digest_of CHR ''6'')" "ffmpeg_digest_ok (digest_of CHR ''3'')"
  "ffmpeg_digest_ok (digest_of CHR ''b'')"
  by (rule digest_of_ok, code_simp)+

lemma fixture_names:
  "ffmpeg_component_ok ''aac'' MAX_CAPABILITY_BYTES" "ffmpeg_component_ok ''h264'' MAX_CAPABILITY_BYTES"
  "ffmpeg_component_ok ''matroska'' MAX_CAPABILITY_BYTES"
  "binary_search [''matroska''] ''matroska''"
  by code_simp+

lemma fixture_streams:
  "check_streams fixture_limits fixture_maps 0 (of_streams fixture_facts) = Inr ()"
  by (simp add: fixture_facts_def fixture_fact_def fixture_maps_def map_at_def u32_try_from_def
      fixture_limits_def exceeds_def fixture_digests fixture_names
      validate_ffmpeg_digest_ok [of _ _ "()", THEN iffD2] validate_ffmpeg_component_ok [of _ _ _ "()", THEN iffD2])

lemma fixture_facts_ok: "facts_validate fixture_facts fixture_limits (StreamCopy fixture_plan) = Inr ()"
proof -
  have parts: "of_output_identity_sha256 fixture_facts = digest_of CHR ''4''"
    "of_format_names fixture_facts = [''matroska'']" "length (of_streams fixture_facts) = 2"
    "of_file_size_bytes fixture_facts = 1048576" "of_duration_millis fixture_facts = 10000"
    "cp_stream_maps fixture_plan = fixture_maps" "cp_output_muxer fixture_plan = ''matroska''"
    "length fixture_maps = 2"
    by (simp_all add: fixture_facts_def fixture_plan_def fixture_maps_def)
  have limits: "sl_output_max_file_size_bytes fixture_limits = 10737418240"
    "sl_output_max_duration_millis fixture_limits = 86400000" "sl_output_max_streams fixture_limits = 16"
    by (simp_all add: fixture_limits_def)
  have "of_streams fixture_facts \<noteq> []" using parts(3) by auto
  with parts limits show ?thesis
    by (simp add: fixture_streams fixture_digests fixture_names MAX_OUTPUT_FORMATS_def
        strictly_sorted_unique_def validate_ffmpeg_digest_ok [of _ _ "()", THEN iffD2]
        validate_ffmpeg_component_ok [of _ _ _ "()", THEN iffD2])
qed

lemma fixture_outcome: "validate_outcome fixture_report fixture_request = Inr ()"
proof -
  have "validate_direct_child OutcomeValidated (rp_direct_child fixture_report) = Inr ()"
    by (simp add: fixture_report_def fixture_digests validate_ffmpeg_digest_ok [of _ _ "()", THEN iffD2])
  moreover have "validate_containment (rp_containment fixture_report) (rp_host fixture_report) OutcomeValidated
      = Inr ()"
    by (simp add: fixture_report_def validate_containment_def fixture_host_def)
  moreover have "validate_output fixture_request OutcomeValidated (rp_output_validation fixture_report) = Inr ()"
    using fixture_facts_ok fixture_digests
    by (simp add: fixture_report_def fixture_request_def fixture_ffprobe_def fixture_tool_def
        validate_ffmpeg_digest_ok [of _ _ "()", THEN iffD2] del: facts_validate.simps)
  moreover have "rp_terminal_outcome fixture_report = OutcomeValidated" "sr_limits fixture_request = fixture_limits"
    by (simp_all add: fixture_report_def fixture_request_def)
  ultimately show ?thesis
    using fixture_lifecycle by (simp add: validate_outcome_def validate_spawned_def)
qed

lemma fixture_accepted: "report_validate_against fixture_codec fixture_report fixture_request = Some (Inr ())"
  using fixture_invocation [of "''request_ffmpeg_stream_copy_1''"]
  by (simp add: report_validate_against_def fixture_unchanged fixture_correlation fixture_residuals
      fixture_outcome)


lemma ffmpeg_validated_report_sound_witness:
  "run_states (rp_lifecycle fixture_report) = [Spawned, Running, Reaped, Validated]"
proof -
  have "rp_terminal_outcome fixture_report = OutcomeValidated"
    "sr_operation fixture_request = StreamCopy fixture_plan"
    by (simp_all add: fixture_report_def fixture_request_def)
  from ffmpeg_validated_report_sound [OF fixture_accepted this] show ?thesis by blast
qed

end
