(* ===== verification/Spec2Isabelle.thy ===== *)
theory Spec2Isabelle
  imports Journal Recovery Ffmpeg_Safety Resource_Broker Commit_Refinement Byte_Durability
    Progress_Evidence Framing Graph_Validity Data_Contract Conformance Transport Fetch_Engine
    Watcher_Lifecycle Diagnostic_Envelope Archive_Examples Ffmpeg_Examples
begin

text \<open>
  Ferric Forager: the contracts, resource accounting and lifecycles that decide what the downloader
  may do, and the checks at its process boundaries. The code is the Rust workspace under
  \<^verbatim>\<open>src/product/crates\<close> with its evidence tool under \<^verbatim>\<open>src/build\<close>.

  \<^bold>\<open>How the parts interact.\<close> A job is described by a source graph and sink descriptors
  (\<open>fforager-contracts\<close>), which arrive in framed envelopes. Work is admitted by a resource broker
  and paid for in byte credits (\<open>fforager-core/resource.rs\<close>). Its progress is the state of lifecycle
  machines (\<open>fforager-core/lifecycle.rs\<close>): they emit effects, which an adapter runs and
  acknowledges. A commit machine is backed by an append-only journal, and after a crash the recovery
  oracle reads the journal prefix and decides the next action. The FFmpeg adapter
  (\<open>fforager-ffmpeg\<close>) runs the child under its own lifecycle and parses its progress stream within
  a memory budget; the evidence tool replays the transcript independently.

  \<^bold>\<open>Theories and the code they model.\<close>
  \<^item> \<open>Prelude\<close>, \<open>Instance_Id\<close>, \<open>Schema_Version\<close>, \<open>BTree_Map\<close>, \<open>Byte_Strings\<close>,
    \<open>Decimal_Text\<close>: Rust integers, results, checked arithmetic, ordered maps (locale
    \<open>ordered_map\<close>), byte strings, UTF-8 and printed numbers.
  \<^item> \<open>Storage_Contract\<close>, \<open>Journal\<close>: \<open>contracts/storage.rs\<close>. Durability positions, journal records,
    the prefix scan and filesystem capabilities. The scan returns the longest trusted prefix.
  \<^item> \<open>Recovery\<close>: the recovery oracle of \<open>core/lifecycle.rs\<close>. Its actions satisfy their
    preconditions, converge within five steps and can be retried.
  \<^item> \<open>Ffmpeg_Lifecycle\<close>, \<open>Ffmpeg_Transitions\<close>, \<open>Ffmpeg_Safety\<close>: the FFmpeg lifecycle V2 with its
    step relation, its invariant by rule induction, and safety, liveness and bounds.
  \<^item> \<open>Resource_Contract\<close>, \<open>Resource_Ledger\<close>, \<open>Resource_Broker\<close>: \<open>contracts/resource.rs\<close> and the
    FIFO half of \<open>core/resource.rs\<close>. Grants are owned exactly once, capacity is respected, nothing
    stalls or leaks.
  \<^item> \<open>Credit_Ledger\<close>, \<open>Credit_Broker\<close>: byte credits with coupled claims and durability positions.
  \<^item> \<open>Lifecycle_States\<close>, \<open>Lifecycle_Tables\<close>, \<open>State_Machine\<close>, \<open>Lifecycle_Arcs\<close>, \<open>Machine_Steps\<close>,
    \<open>Machine_Safety\<close>: the twelve transition tables and the machine that runs them. Every reachable
    machine satisfies the invariant, outcomes are accepted once, traces replay exactly.
  \<^item> \<open>Commit_Order\<close>, \<open>Commit_Refinement\<close>: a commit rests in a durable prefix only after the
    effects that make it durable, and simulates the commit chain the journal scan accepts.
  \<^item> \<open>Byte_Durability\<close>: byte machines and the byte-credit ledger change together or not at all.
  \<^item> \<open>Progress\<close>, \<open>Progress_Grammar\<close>, \<open>Bounded_IO\<close>, \<open>Progress_Evidence\<close>: \<open>ffmpeg/progress.rs\<close>,
    \<open>ffmpeg/bounded_io.rs\<close> and the transcript replay of the evidence tool. Chunking does not
    matter, the two replays agree, and what the live drain returns is verifiable.
  \<^item> \<open>Framing\<close>: the incremental decoder of \<open>contracts/framing.rs\<close> and the blocking reader and
    writer of \<open>fforager-javascript/lib.rs\<close>, both equal to one splitting of the byte stream.
  \<^item> \<open>Contract_Identity\<close>, \<open>Source_Graph\<close>, \<open>Graph_Cycles\<close>, \<open>Graph_Validity\<close>: \<open>contracts/identity.rs\<close>
    and the validation of source graphs in \<open>contracts/graph.rs\<close>, shown to accept exactly the graphs
    a declarative specification describes. The two bounded chain walks share locale \<open>chain_walk\<close>.
  \<^item> \<open>Path_References\<close>, \<open>Data_Contract\<close>: acquisition sources and output sinks of \<open>graph.rs\<close>;
    accepted path references stay inside their root (locale \<open>path_reference\<close>).
  \<^item> \<open>Protocol\<close>, \<open>Conformance\<close>: the envelopes of \<open>contracts/protocol.rs\<close> and their decoding in
    \<open>framing.rs\<close>; requests are accepted once and in bounded number (locale \<open>admission_once\<close>).
  \<^item> \<open>Unicode_Text\<close>, \<open>Direct_Plan\<close>: \<open>core/direct.rs\<close>. The characters of a UTF-8 string and the plan of
    a direct download, whose graph the source-graph validation accepts.
  \<^item> \<open>Address_Policy\<close>, \<open>Transport\<close>: \<open>net/address.rs\<close> and \<open>net/lib.rs\<close>. Only publicly routable
    addresses are admitted, and a transfer returns the body exactly or one typed error.
  \<^item> \<open>Fetch_Engine\<close>: \<open>core/engine.rs\<close> and \<open>core/admission.rs\<close>. A download over arbitrary ports logs
    its effects in order, aborts what it staged, and admission neither changes nor leaks anything.
  \<^item> \<open>Diagnostic_Values\<close>, \<open>Negotiation\<close>, \<open>Sequence_Tracker\<close>, \<open>Watcher_Lifecycle\<close>,
    \<open>Diagnostic_Envelope\<close>: the crate \<open>fforager-diagnostics-contract\<close>. Negotiation agrees on the
    greatest common minor and an authorized schema, streams are contiguous, watcher states are
    justified by their inputs, and accepted envelopes hold no secret in plain text.
  \<^item> \<open>Archive_Keys\<close>, \<open>Archive_Leases\<close>, \<open>Archive_Contract\<close>, \<open>Archive_Reconciliation\<close>:
    \<open>contracts/archive.rs\<close>. Every validation is shown equal to a predicate on the record, canonical
    keys determine their identity, and a reconciliation acts exactly on its evidence.
  \<^item> \<open>Archive_Tables\<close>, \<open>Archive_Store\<close>, \<open>Archive_Recovery\<close>, \<open>Archive_Migration\<close>: the archive store of
    \<open>storage/lib.rs\<close>, each operation one transaction. The database is any table satisfying the locale
    \<open>sorted_table\<close>, the serializer any faithful format, and every database call may fail.
  \<^item> \<open>Archive_Ledger\<close>, \<open>Archive_Refinement\<close>, \<open>Archive_Operations\<close>, \<open>Archive_Reconciled\<close>,
    \<open>Archive_Checkpoints\<close>: the abstract life of one identity and the proof that every operation
    follows it and keeps the store sound.
  \<^item> \<open>Archive_Opening\<close>, \<open>Archive_Safety\<close>, \<open>Archive_Liveness\<close>, \<open>Archive_Completion\<close>,
    \<open>Archive_Examples\<close>: runs of the store. What is archived stays, superseded leases are fenced off,
    the store always opens again, and a migration completes. The last runs a concrete archive.
  \<^item> \<open>Ffmpeg_Fields\<close>, \<open>Ffmpeg_Request\<close>, \<open>Ffmpeg_Report\<close>: \<open>contracts/ffmpeg.rs\<close>. The request to
    run FFmpeg with its argument vectors and the invocation it validates to, and the report on the run.
  \<^item> \<open>Ffmpeg_Invocation\<close>, \<open>Ffmpeg_Evidence\<close>, \<open>Ffmpeg_Examples\<close>: job paths stay below the job
    directory and are never read as switches, a token binds its request, a run is bounded in time and a
    report of success carries the whole chain of evidence. The last holds the fixture of the contract.

  \<^bold>\<open>Correspondence.\<close> A struct is a record, an enum a datatype, \<open>Result\<close> a sum with the error on
  the left. A method on \<open>&mut self\<close> returns the new state, with the error where the code may fail
  after a change. Machine integers are words; \<open>usize\<close> is \<^typ>\<open>nat\<close>, and its overflow on a 64-bit
  host is checked where the code checks it. Ordered maps are association lists in key order.
  Shared brokers behind a mutex are explicit heaps, one atomic step per call. Clocks, operating
  system results, channel outcomes, hashes and \<open>serde_json\<close> are arguments.

  \<^bold>\<open>Fuel and bounds.\<close> Loops that are not structural carry a termination proof: the graph search by
  the nodes not yet entered, the grant queue by its length, the frame splitter by the bytes left.
  The FFmpeg driver takes its number of steps as an argument and ten plus the allowed attempts are
  proved enough; recovery is proved to settle within five decisions. The driver of an archive
  migration has fuel too, and one batch more than there are rows to copy is proved enough.

  \<^bold>\<open>Not modelled.\<close> Of the network adapter the construction of the client, the polling of
  futures and the classification of library errors; the file writer of the storage crate, the
  supervisor and the platform adapters, which are calls to the operating system; command-line
  applications, test kits and build tools, except for the transcript replay and the frame reader
  named above. The manifest lists each of them.
\<close>

end
